(* ===== verification/Zssp_Prelude.thy ===== *)
theory Zssp_Prelude
  imports Main "HOL-Library.Word"
begin

text \<open>
  The prelude of the development: the machine types of the Rust sources, big endian
  byte strings, slices, 64-bit signed time stamps, the outcome of a fallible
  operation, and the list, map and word facts that the components share.

  Conventions. \<open>u8\<close>, \<open>u16\<close>, \<open>u32\<close> and \<open>u64\<close> are words and \<open>+\<close> on them wraps, which is
  the meaning of Rust's \<open>+\<close> in a release build. A \<open>usize\<close> that counts bytes of a
  buffer in memory is a \<open>nat\<close>; a subtraction that may go below zero is written with its
  own branch. An \<open>i64\<close> is an \<open>int\<close> together with the wrapping operations below. A
  buffer (\<open>Vec<u8>\<close>, \<open>[u8; N]\<close>, \<open>&[u8]\<close>) is a list of bytes.
\<close>

section \<open>Machine types\<close>

type_synonym u8 = "8 word"
type_synonym u16 = "16 word"
type_synonym u32 = "32 word"
type_synonym u64 = "64 word"
type_synonym usize = nat
type_synonym i64 = int
type_synonym bytes = "u8 list"

named_theorems zssp_sizes \<open>the numeric values of the protocol's size constants\<close>
named_theorems zssp_lens \<open>lengths of the byte strings the components build\<close>

text \<open>\<open>u64::saturating_add\<close> and \<open>u64::saturating_sub\<close>.\<close>

definition saturating_add :: "u64 \<Rightarrow> u64 \<Rightarrow> u64" where
  "saturating_add a b = (if unat a + unat b < 2 ^ 64 then a + b else - 1)"

definition saturating_sub :: "u64 \<Rightarrow> u64 \<Rightarrow> u64" where
  "saturating_sub a b = (if b \<le> a then a - b else 0)"

text \<open>\<open>u32::leading_zeros\<close>.\<close>

definition leading_zeros :: "u32 \<Rightarrow> nat" where
  "leading_zeros w = length (takeWhile Not (map (\<lambda>i. bit w i) (rev [0..<32])))"

text \<open>Signed 64-bit values: the wrap of a release build, the bounds, and \<open>as i64\<close>.\<close>

definition wrap_i64 :: "int \<Rightarrow> i64" where
  "wrap_i64 x = (x + 2 ^ 63) mod 2 ^ 64 - 2 ^ 63"

definition I64_MAX :: i64 where
  "I64_MAX = 2 ^ 63 - 1"

definition I64_MIN :: i64 where
  "I64_MIN = - (2 ^ 63)"

definition i64_add :: "i64 \<Rightarrow> i64 \<Rightarrow> i64" where
  "i64_add a b = wrap_i64 (a + b)"

definition i64_sub :: "i64 \<Rightarrow> i64 \<Rightarrow> i64" where
  "i64_sub a b = wrap_i64 (a - b)"

definition as_i64 :: "u64 \<Rightarrow> i64" where
  "as_i64 w = wrap_i64 (uint w)"

text \<open>\<open>NonZeroU32::new\<close>.\<close>

definition NonZeroU32_new :: "u32 \<Rightarrow> u32 option" where
  "NonZeroU32_new w = (if w = 0 then None else Some w)"

section \<open>Byte strings\<close>

text \<open>\<open>xs[i..j]\<close>, and \<open>xs[i..i + ys.len()].copy_from_slice(ys)\<close>.\<close>

definition subslice :: "nat \<Rightarrow> nat \<Rightarrow> 'a list \<Rightarrow> 'a list" where
  "subslice i j xs = take (j - i) (drop i xs)"

definition write_at :: "nat \<Rightarrow> 'a list \<Rightarrow> 'a list \<Rightarrow> 'a list" where
  "write_at i ys xs = take i xs @ ys @ drop (i + length ys) xs"

text \<open>Big endian encoding of the low \<open>n\<close> bytes of a number, and its reading.\<close>

primrec nat_to_be :: "nat \<Rightarrow> nat \<Rightarrow> bytes" where
  "nat_to_be 0 x = []"
| "nat_to_be (Suc n) x = nat_to_be n (x div 256) @ [word_of_nat (x mod 256)]"

definition nat_of_be :: "bytes \<Rightarrow> nat" where
  "nat_of_be bs = foldl (\<lambda>a b. a * 256 + unat b) 0 bs"

definition u16_to_be_bytes :: "u16 \<Rightarrow> bytes" where
  "u16_to_be_bytes w = nat_to_be 2 (unat w)"

definition u32_to_be_bytes :: "u32 \<Rightarrow> bytes" where
  "u32_to_be_bytes w = nat_to_be 4 (unat w)"

definition u64_to_be_bytes :: "u64 \<Rightarrow> bytes" where
  "u64_to_be_bytes w = nat_to_be 8 (unat w)"

definition u32_from_be_bytes :: "bytes \<Rightarrow> u32" where
  "u32_from_be_bytes bs = word_of_nat (nat_of_be bs)"

definition u64_from_be_bytes :: "bytes \<Rightarrow> u64" where
  "u64_from_be_bytes bs = word_of_nat (nat_of_be bs)"

section \<open>Outcomes\<close>

text \<open>
  What a call does: it returns \<open>Ok\<close> or \<open>Err\<close> of its \<open>Result\<close>, it panics (a failed
  \<open>unwrap\<close>, a slice out of range, a division by zero, a \<open>RefCell\<close> borrowed twice), or
  one of its loops does not end.
\<close>

datatype ('e, 'a) outcome = Ok 'a | Err 'e | Panic | Diverge

definition returns :: "('e, 'a) outcome \<Rightarrow> bool" where
  "returns r \<longleftrightarrow> r \<noteq> Panic \<and> r \<noteq> Diverge"

section \<open>Facts\<close>

subsection \<open>Slices\<close>

lemma length_subslice [simp]: "length (subslice i j xs) = min (j - i) (length xs - i)"
  by (simp add: subslice_def)

lemma subslice_full [simp]: "length xs \<le> j \<Longrightarrow> subslice 0 j xs = xs"
  by (simp add: subslice_def)

lemma subslice_append_left: "j \<le> length xs \<Longrightarrow> subslice i j (xs @ ys) = subslice i j xs"
proof -
  assume "j \<le> length xs"
  then have "j - i \<le> length xs - i" by simp
  then show ?thesis by (cases "i \<le> length xs") (auto simp: subslice_def)
qed

lemma subslice_append_right:
  "length xs \<le> i \<Longrightarrow> subslice i j (xs @ ys) = subslice (i - length xs) (j - length xs) ys"
  by (auto simp: subslice_def)

lemma subslice_middle:
  "length xs = i \<Longrightarrow> j = i + length ys \<Longrightarrow> subslice i j (xs @ ys @ zs) = ys"
  by (simp add: subslice_def)

lemma length_write_at [simp]:
  "i + length ys \<le> length xs \<Longrightarrow> length (write_at i ys xs) = length xs"
  by (simp add: write_at_def)

lemma subslice_write_at:
  "i + length ys \<le> length xs \<Longrightarrow> subslice i (i + length ys) (write_at i ys xs) = ys"
  by (simp add: subslice_def write_at_def)

lemma write_at_subslice:
  "i \<le> j \<Longrightarrow> j \<le> length xs \<Longrightarrow> write_at i (subslice i j xs) xs = xs"
  by (simp add: write_at_def subslice_def)
     (metis append_take_drop_id drop_drop le_add_diff_inverse2)

lemma write_at_write_at:
  assumes "length ys = length zs" "i + length ys \<le> length xs"
  shows "write_at i zs (write_at i ys xs) = write_at i zs xs"
  using assms by (simp add: write_at_def)

subsection \<open>Big endian\<close>

lemma unat_u8_less: "unat (b :: u8) < 256"
  by (rule order_less_le_trans [OF unsigned_less]) simp

lemma unat_u32_less: "unat (w :: u32) < 4294967296"
  by (rule order_less_le_trans [OF unsigned_less]) simp

lemma unat_u64_less: "unat (w :: u64) < 18446744073709551616"
  by (rule order_less_le_trans [OF unsigned_less]) simp

lemma unat_plus_one: "c \<noteq> - 1 \<Longrightarrow> unat (c :: u64) + 1 < 2 ^ 64"
proof (rule ccontr)
  assume "c \<noteq> - 1" "\<not> unat c + 1 < 2 ^ 64"
  with unat_u64_less [of c] have "unat c = unat (- 1 :: u64)"
    by (simp add: unsigned_minus_1_eq_mask mask_eq_exp_minus_1)
  with \<open>c \<noteq> - 1\<close> show False by (simp add: unsigned_word_eqI)
qed

lemma length_nat_to_be [simp]: "length (nat_to_be n x) = n"
  by (induction n arbitrary: x) auto

lemma nat_of_be_Nil [simp]: "nat_of_be [] = 0"
  by (simp add: nat_of_be_def)

lemma nat_of_be_snoc [simp]: "nat_of_be (bs @ [b]) = nat_of_be bs * 256 + unat b"
  by (simp add: nat_of_be_def)

lemma unat_byte_of_nat: "unat (word_of_nat x :: u8) = x mod 256"
  by (simp add: unat_of_nat)

lemma nat_of_be_to_be: "nat_of_be (nat_to_be n x) = x mod 256 ^ n"
proof (induction n arbitrary: x)
  case 0
  then show ?case by simp
next
  case (Suc n)
  have "x mod (256 * 256 ^ n) = 256 * (x div 256 mod 256 ^ n) + x mod 256"
    by (rule mod_mult2_eq)
  with Suc show ?case by (simp add: unat_byte_of_nat)
qed

lemma nat_of_be_less: "nat_of_be bs < 256 ^ length bs"
proof (induction bs rule: rev_induct)
  case Nil
  then show ?case by simp
next
  case (snoc b bs)
  have "unat b < 256" by (rule unat_u8_less)
  with snoc show ?case by simp
qed

lemma nat_to_be_of_be: "nat_to_be (length bs) (nat_of_be bs) = bs"
proof (induction bs rule: rev_induct)
  case Nil
  then show ?case by simp
next
  case (snoc b bs)
  have "unat b < 256" by (rule unat_u8_less)
  with snoc show ?case by simp
qed

lemma length_u16_to_be_bytes [simp]: "length (u16_to_be_bytes w) = 2"
  by (simp add: u16_to_be_bytes_def)

lemma length_u32_to_be_bytes [simp]: "length (u32_to_be_bytes w) = 4"
  by (simp add: u32_to_be_bytes_def)

lemma length_u64_to_be_bytes [simp]: "length (u64_to_be_bytes w) = 8"
  by (simp add: u64_to_be_bytes_def)

lemma u32_from_to_be [simp]: "u32_from_be_bytes (u32_to_be_bytes w) = w"
  using unat_u32_less [of w] by (simp add: u32_from_be_bytes_def u32_to_be_bytes_def nat_of_be_to_be)

lemma u64_from_to_be [simp]: "u64_from_be_bytes (u64_to_be_bytes w) = w"
  using unat_u64_less [of w] by (simp add: u64_from_be_bytes_def u64_to_be_bytes_def nat_of_be_to_be)

lemma u64_to_from_be: "length bs = 8 \<Longrightarrow> u64_to_be_bytes (u64_from_be_bytes bs) = bs"
proof -
  assume l: "length bs = 8"
  with nat_of_be_less [of bs] have "nat_of_be bs < 2 ^ 64" by simp
  then have "unat (word_of_nat (nat_of_be bs) :: u64) = nat_of_be bs" by (simp add: unat_of_nat)
  with nat_to_be_of_be [of bs] l show ?thesis
    by (simp add: u64_to_be_bytes_def u64_from_be_bytes_def)
qed

lemma u64_to_be_inj: "u64_to_be_bytes a = u64_to_be_bytes b \<longleftrightarrow> a = b"
  by (metis u64_from_to_be)

lemma u32_to_be_inj: "u32_to_be_bytes a = u32_to_be_bytes b \<longleftrightarrow> a = b"
  by (metis u32_from_to_be)

subsection \<open>Words and time stamps\<close>

lemma saturating_add_unat: "unat (saturating_add a b) = min (2 ^ 64 - 1) (unat a + unat b)"
  by (auto simp: saturating_add_def unat_word_ariths unsigned_minus_1_eq_mask mask_eq_exp_minus_1)

lemma wrap_i64_id: "I64_MIN \<le> x \<Longrightarrow> x \<le> I64_MAX \<Longrightarrow> wrap_i64 x = x"
  by (simp add: wrap_i64_def I64_MIN_def I64_MAX_def)

lemma wrap_i64_range: "I64_MIN \<le> wrap_i64 x \<and> wrap_i64 x \<le> I64_MAX"
proof -
  have "0 \<le> (x + 2 ^ 63) mod 2 ^ 64" "(x + 2 ^ 63) mod 2 ^ 64 < (2 :: int) ^ 64"
    by simp_all
  then show ?thesis by (simp add: wrap_i64_def I64_MIN_def I64_MAX_def)
qed

lemma NonZeroU32_new_Some [simp]: "NonZeroU32_new w = Some v \<longleftrightarrow> v = w \<and> w \<noteq> 0"
  by (auto simp: NonZeroU32_new_def)

lemma NonZeroU32_new_None [simp]: "NonZeroU32_new w = None \<longleftrightarrow> w = 0"
  by (auto simp: NonZeroU32_new_def)

subsection \<open>Outcomes\<close>

lemma returns_simps [simp]:
  "returns (Ok a)" "returns (Err e)" "\<not> returns Panic" "\<not> returns Diverge"
  by (auto simp: returns_def)

lemma returns_cases: "returns r \<longleftrightarrow> (\<exists>a. r = Ok a) \<or> (\<exists>e. r = Err e)"
  by (cases r) auto

end
