(* ===== verification/Proto.thy ===== *)
theory Proto
  imports Zssp_Prelude
begin

text \<open>
  The constants of the protocol (\<open>reference/src/proto.rs\<close> and the size constants of
  \<open>reference/src/crypto/*.rs\<close>), in the order of the source. Each unfolds through the
  collection \<open>zssp_sizes\<close>. The byte string constants are given as the ASCII codes of
  the source's literals.
\<close>

section \<open>Sizes of the cryptographic primitives\<close>

definition AES_256_BLOCK_SIZE :: usize where
  [zssp_sizes]: "AES_256_BLOCK_SIZE = 16"

definition AES_256_KEY_SIZE :: usize where
  [zssp_sizes]: "AES_256_KEY_SIZE = 32"

definition AES_GCM_TAG_SIZE :: usize where
  [zssp_sizes]: "AES_GCM_TAG_SIZE = 16"

definition AES_GCM_NONCE_SIZE :: usize where
  [zssp_sizes]: "AES_GCM_NONCE_SIZE = 12"

definition P384_PUBLIC_KEY_SIZE :: usize where
  [zssp_sizes]: "P384_PUBLIC_KEY_SIZE = 49"

definition P384_ECDH_SHARED_SECRET_SIZE :: usize where
  [zssp_sizes]: "P384_ECDH_SHARED_SECRET_SIZE = 48"

definition SHA512_HASH_SIZE :: usize where
  [zssp_sizes]: "SHA512_HASH_SIZE = 64"

definition KYBER_PUBLIC_KEY_SIZE :: usize where
  [zssp_sizes]: "KYBER_PUBLIC_KEY_SIZE = 1568"

definition KYBER_CIPHERTEXT_SIZE :: usize where
  [zssp_sizes]: "KYBER_CIPHERTEXT_SIZE = 1568"

definition KYBER_PLAINTEXT_SIZE :: usize where
  [zssp_sizes]: "KYBER_PLAINTEXT_SIZE = 32"

section \<open>Sizes and limits of the protocol\<close>

definition MIN_TRANSPORT_MTU :: usize where
  [zssp_sizes]: "MIN_TRANSPORT_MTU = 128"

definition KID_SIZE :: usize where
  [zssp_sizes]: "KID_SIZE = 4"

definition SALT_SIZE :: usize where
  [zssp_sizes]: "SALT_SIZE = 32"

definition COUNTER_SIZE :: usize where
  [zssp_sizes]: "COUNTER_SIZE = 8"

definition MAC_SIZE :: usize where
  [zssp_sizes]: "MAC_SIZE = 16"

definition POW_SIZE :: usize where
  [zssp_sizes]: "POW_SIZE = 8"

definition POW_START :: usize where
  [zssp_sizes]: "POW_START = COUNTER_SIZE + MAC_SIZE"

definition CHALLENGE_SIZE :: usize where
  [zssp_sizes]: "CHALLENGE_SIZE = COUNTER_SIZE + MAC_SIZE + POW_SIZE"

definition DIFFICULTY :: nat where
  [zssp_sizes]: "DIFFICULTY = 13"

definition HEADER_SIZE :: usize where
  [zssp_sizes]: "HEADER_SIZE = 16"

definition PACKET_NONCE_SIZE :: usize where
  [zssp_sizes]: "PACKET_NONCE_SIZE = 10"

definition HEADER_AUTH_START :: usize where
  [zssp_sizes]: "HEADER_AUTH_START = 4"

definition HEADER_AUTH_END :: usize where
  [zssp_sizes]: "HEADER_AUTH_END = 20"

definition PACKET_NONCE_START :: usize where
  [zssp_sizes]: "PACKET_NONCE_START = HEADER_SIZE - PACKET_NONCE_SIZE"

definition FRAGMENT_NO_IDX :: usize where
  [zssp_sizes]: "FRAGMENT_NO_IDX = 4"

definition FRAGMENT_COUNT_IDX :: usize where
  [zssp_sizes]: "FRAGMENT_COUNT_IDX = 5"

definition MAX_FRAGMENTS :: usize where
  [zssp_sizes]: "MAX_FRAGMENTS = 48"

definition MIN_PACKET_SIZE :: usize where
  [zssp_sizes]: "MIN_PACKET_SIZE = HEADER_SIZE + AES_GCM_TAG_SIZE"

definition HASHLEN :: usize where
  [zssp_sizes]: "HASHLEN = SHA512_HASH_SIZE"

definition RATCHET_SIZE :: usize where
  [zssp_sizes]: "RATCHET_SIZE = 32"

definition HARD_EXPIRATION :: u64 where
  [zssp_sizes]: "HARD_EXPIRATION = - 1"

definition COUNTER_WINDOW_MAX_OOO :: usize where
  [zssp_sizes]: "COUNTER_WINDOW_MAX_OOO = 128"

definition COUNTER_WINDOW_MAX_SKIP_AHEAD :: u64 where
  [zssp_sizes]: "COUNTER_WINDOW_MAX_SKIP_AHEAD = 2 ^ 24"

definition CHALLENGE_COUNTER_WINDOW_MAX_OOO :: usize where
  [zssp_sizes]: "CHALLENGE_COUNTER_WINDOW_MAX_OOO = 32"

definition PACKET_TYPE_HANDSHAKE_HELLO :: u8 where
  [zssp_sizes]: "PACKET_TYPE_HANDSHAKE_HELLO = 0"

definition PACKET_TYPE_HANDSHAKE_RESPONSE :: u8 where
  [zssp_sizes]: "PACKET_TYPE_HANDSHAKE_RESPONSE = 1"

definition PACKET_TYPE_HANDSHAKE_COMPLETION :: u8 where
  [zssp_sizes]: "PACKET_TYPE_HANDSHAKE_COMPLETION = 2"

definition PACKET_TYPE_KEY_CONFIRM :: u8 where
  [zssp_sizes]: "PACKET_TYPE_KEY_CONFIRM = 3"

definition PACKET_TYPE_ACK :: u8 where
  [zssp_sizes]: "PACKET_TYPE_ACK = 4"

definition PACKET_TYPE_REKEY_INIT :: u8 where
  [zssp_sizes]: "PACKET_TYPE_REKEY_INIT = 5"

definition PACKET_TYPE_REKEY_COMPLETE :: u8 where
  [zssp_sizes]: "PACKET_TYPE_REKEY_COMPLETE = 6"

definition PACKET_TYPE_SESSION_REJECTED :: u8 where
  [zssp_sizes]: "PACKET_TYPE_SESSION_REJECTED = 7"

definition PACKET_TYPE_DATA :: u8 where
  [zssp_sizes]: "PACKET_TYPE_DATA = 8"

definition PACKET_TYPE_CHALLENGE :: u8 where
  [zssp_sizes]: "PACKET_TYPE_CHALLENGE = 9"

definition IDENTITY_MAX_SIZE :: usize where
  [zssp_sizes]: "IDENTITY_MAX_SIZE = 4096"

definition HANDSHAKE_HELLO_SIZE :: usize where
  [zssp_sizes]: "HANDSHAKE_HELLO_SIZE = KID_SIZE + P384_PUBLIC_KEY_SIZE + KYBER_PUBLIC_KEY_SIZE + AES_GCM_TAG_SIZE + 2 * RATCHET_SIZE + AES_GCM_TAG_SIZE"

definition HANDSHAKE_RESPONSE_SIZE :: usize where
  [zssp_sizes]: "HANDSHAKE_RESPONSE_SIZE = P384_PUBLIC_KEY_SIZE + KYBER_CIPHERTEXT_SIZE + AES_GCM_TAG_SIZE + KID_SIZE + AES_GCM_TAG_SIZE"

definition HANDSHAKE_COMPLETION_MIN_SIZE :: usize where
  [zssp_sizes]: "HANDSHAKE_COMPLETION_MIN_SIZE = P384_PUBLIC_KEY_SIZE + AES_GCM_TAG_SIZE + AES_GCM_TAG_SIZE"

definition HANDSHAKE_COMPLETION_MAX_SIZE :: usize where
  [zssp_sizes]: "HANDSHAKE_COMPLETION_MAX_SIZE = HANDSHAKE_COMPLETION_MIN_SIZE + IDENTITY_MAX_SIZE"

definition KEY_CONFIRMATION_SIZE :: usize where
  [zssp_sizes]: "KEY_CONFIRMATION_SIZE = AES_GCM_TAG_SIZE"

definition ACKNOWLEDGEMENT_SIZE :: usize where
  [zssp_sizes]: "ACKNOWLEDGEMENT_SIZE = AES_GCM_TAG_SIZE"

definition SESSION_REJECTED_SIZE :: usize where
  [zssp_sizes]: "SESSION_REJECTED_SIZE = AES_GCM_TAG_SIZE"

definition REKEY_SIZE :: usize where
  [zssp_sizes]: "REKEY_SIZE = P384_PUBLIC_KEY_SIZE + KID_SIZE + AES_GCM_TAG_SIZE + AES_GCM_TAG_SIZE"

text \<open>\<open>PACKET_TYPE_USES_COUNTER_RANGE.contains\<close> of the range \<open>3..9\<close>.\<close>

definition PACKET_TYPE_USES_COUNTER_RANGE :: "u8 \<Rightarrow> bool" where
  [zssp_sizes]: "PACKET_TYPE_USES_COUNTER_RANGE p \<longleftrightarrow> 3 \<le> p \<and> p < 9"

section \<open>Constants of the performance crate\<close>

text \<open>\<open>performance/src/proto.rs\<close> repeats the constants above and adds these.\<close>

definition HEADERED_CHALLENGE_SIZE :: usize where
  [zssp_sizes]: "HEADERED_CHALLENGE_SIZE = CHALLENGE_SIZE + HEADER_SIZE + KID_SIZE"

definition NONCE_SIZE_DIFF :: usize where
  [zssp_sizes]: "NONCE_SIZE_DIFF = AES_GCM_NONCE_SIZE - PACKET_NONCE_SIZE"

definition HANDSHAKE_HELLO_CHALLENGE_SIZE :: usize where
  [zssp_sizes]: "HANDSHAKE_HELLO_CHALLENGE_SIZE = HANDSHAKE_HELLO_SIZE + CHALLENGE_SIZE"

definition HEADERED_HANDSHAKE_HELLO_CHALLENGE_SIZE :: usize where
  [zssp_sizes]: "HEADERED_HANDSHAKE_HELLO_CHALLENGE_SIZE = HANDSHAKE_HELLO_CHALLENGE_SIZE + HEADER_SIZE"

definition HEADERED_HANDSHAKE_RESPONSE_SIZE :: usize where
  [zssp_sizes]: "HEADERED_HANDSHAKE_RESPONSE_SIZE = HANDSHAKE_RESPONSE_SIZE + HEADER_SIZE"

definition HEADERED_HANDSHAKE_COMPLETION_MAX_SIZE :: usize where
  [zssp_sizes]: "HEADERED_HANDSHAKE_COMPLETION_MAX_SIZE = HANDSHAKE_COMPLETION_MAX_SIZE + HEADER_SIZE"

definition HEADERED_KEY_CONFIRMATION_SIZE :: usize where
  [zssp_sizes]: "HEADERED_KEY_CONFIRMATION_SIZE = KEY_CONFIRMATION_SIZE + HEADER_SIZE"

definition HEADERED_ACKNOWLEDGEMENT_SIZE :: usize where
  [zssp_sizes]: "HEADERED_ACKNOWLEDGEMENT_SIZE = ACKNOWLEDGEMENT_SIZE + HEADER_SIZE"

definition HEADERED_SESSION_REJECTED_SIZE :: usize where
  [zssp_sizes]: "HEADERED_SESSION_REJECTED_SIZE = SESSION_REJECTED_SIZE + HEADER_SIZE"

definition HEADERED_REKEY_SIZE :: usize where
  [zssp_sizes]: "HEADERED_REKEY_SIZE = REKEY_SIZE + HEADER_SIZE"

definition MAX_UNASSOCIATED_HANDSHAKE_STATES :: usize where
  [zssp_sizes]: "MAX_UNASSOCIATED_HANDSHAKE_STATES = 32"

definition MAX_UNASSOCIATED_PACKETS :: usize where
  [zssp_sizes]: "MAX_UNASSOCIATED_PACKETS = 32"

definition MAX_UNASSOCIATED_FRAGMENTS :: usize where
  [zssp_sizes]: "MAX_UNASSOCIATED_FRAGMENTS = 32 * 32"

definition MAX_UNASSOCIATED_PACKET_SIZE :: usize where
  [zssp_sizes]: "MAX_UNASSOCIATED_PACKET_SIZE = HANDSHAKE_HELLO_CHALLENGE_SIZE"

definition SESSION_MAX_FRAGMENTS_OOO :: usize where
  [zssp_sizes]: "SESSION_MAX_FRAGMENTS_OOO = 64"

definition EXPIRE_AFTER_USES :: u64 where
  [zssp_sizes]: "EXPIRE_AFTER_USES = 2 ^ 32 - 1"

definition THREAD_SAFE_COUNTER_HARD_EXPIRE :: u64 where
  [zssp_sizes]: "THREAD_SAFE_COUNTER_HARD_EXPIRE = - 1 - 2 ^ 16"

section \<open>Labels\<close>

definition ascii :: "string \<Rightarrow> bytes" where
  "ascii s = map (\<lambda>c. word_of_nat (of_char c)) s"

definition PROTOCOL_NAME_NOISE_XK :: bytes where
  "PROTOCOL_NAME_NOISE_XK =
     ascii ''Noise_XKhfs+psk2_P384+Kyber1024_AESGCM_SHA512'' @ replicate 19 0"

definition PROTOCOL_NAME_NOISE_KK :: bytes where
  "PROTOCOL_NAME_NOISE_KK = ascii ''Noise_KKpsk0_P384_AESGCM_SHA512'' @ replicate 33 0"

definition LABEL_OTP_TO_RATCHET :: bytes where
  "LABEL_OTP_TO_RATCHET = ascii ''ZSSP_OTP_TO_RATCHET''"

definition LABEL_KBKDF_CHAIN :: bytes where
  "LABEL_KBKDF_CHAIN = ascii ''ZSSP''"

definition LABEL_RATCHET_STATE :: bytes where
  "LABEL_RATCHET_STATE = ascii ''ASKR''"

definition LABEL_HEADER_KEY :: bytes where
  "LABEL_HEADER_KEY = ascii ''ASKH''"

definition LABEL_KEX_KEY :: bytes where
  "LABEL_KEX_KEY = ascii ''ASKK''"

section \<open>Facts\<close>

lemma length_ascii [simp]: "length (ascii s) = length s"
  by (simp add: ascii_def)

lemma length_labels [zssp_lens]:
  "length PROTOCOL_NAME_NOISE_XK = 64" "length PROTOCOL_NAME_NOISE_KK = 64"
  "length LABEL_OTP_TO_RATCHET = 19" "length LABEL_KBKDF_CHAIN = 4"
  "length LABEL_RATCHET_STATE = 4" "length LABEL_HEADER_KEY = 4" "length LABEL_KEX_KEY = 4"
  by (simp_all add: PROTOCOL_NAME_NOISE_XK_def PROTOCOL_NAME_NOISE_KK_def
      LABEL_OTP_TO_RATCHET_def LABEL_KBKDF_CHAIN_def LABEL_RATCHET_STATE_def
      LABEL_HEADER_KEY_def LABEL_KEX_KEY_def)

text \<open>The labels that separate the derived keys are different from each other.\<close>

lemma labels_distinct:
  "distinct [LABEL_KBKDF_CHAIN, LABEL_RATCHET_STATE, LABEL_HEADER_KEY, LABEL_KEX_KEY]"
  by (simp add: LABEL_KBKDF_CHAIN_def LABEL_RATCHET_STATE_def LABEL_HEADER_KEY_def
      LABEL_KEX_KEY_def ascii_def)

end
