(* ===== verification/Crypto_Layer.thy ===== *)
theory Crypto_Layer
  imports Proto
begin

text \<open>
  The traits of \<open>reference/src/crypto\<close> and \<open>CryptoLayer\<close> of
  \<open>reference/src/application.rs\<close>. The algorithms behind the traits (AES, SHA-512, P-384,
  Kyber1024, the random generator) are third-party code: each trait is a record of the
  functions it offers, and every definition that uses them takes the record as an
  argument. What the traits promise is stated by two named predicates:
  \<open>crypto_sized\<close> (the array lengths in the trait's signatures) and \<open>crypto_correct\<close>
  (decryption inverts encryption, both ends of a key exchange agree). The types of keys
  and of the generator's state are type variables.
\<close>

section \<open>The traits\<close>

text \<open>
  An in-place operation on a buffer returns the new contents. \<open>aead_decrypt\<close> also
  returns whether the tag was right.
\<close>

record aes256_prp =
  prp_encrypt_in_place :: "bytes \<Rightarrow> bytes \<Rightarrow> bytes"
  prp_decrypt_in_place :: "bytes \<Rightarrow> bytes \<Rightarrow> bytes"

record aes_gcm_aead = aes256_prp +
  aead_encrypt_in_place :: "bytes \<Rightarrow> bytes \<Rightarrow> bytes option \<Rightarrow> bytes \<Rightarrow> bytes \<times> bytes"
  aead_decrypt_in_place :: "bytes \<Rightarrow> bytes \<Rightarrow> bytes option \<Rightarrow> bytes \<Rightarrow> bytes \<Rightarrow> bool \<times> bytes"

text \<open>
  \<open>update\<close> must behave as if its data were appended to the previous input, so a hash is a
  function of the concatenated input.
\<close>

record sha512_hash = aes_gcm_aead +
  sha512 :: "bytes \<Rightarrow> bytes"
  hmac :: "bytes \<Rightarrow> bytes \<Rightarrow> bytes"

record 'pk p384_public_key = sha512_hash +
  pk_from_bytes :: "bytes \<Rightarrow> 'pk option"
  pk_to_bytes :: "'pk \<Rightarrow> bytes"

record ('pk, 'kp, 'r) p384_key_pair = "'pk p384_public_key" +
  kp_generate :: "'r \<Rightarrow> 'kp \<times> 'r"
  kp_public_key_bytes :: "'kp \<Rightarrow> bytes"
  kp_agree :: "'kp \<Rightarrow> 'pk \<Rightarrow> bytes"

record ('pk, 'kp, 'r, 'kem) kyber1024_private_key = "('pk, 'kp, 'r) p384_key_pair" +
  kem_generate :: "'r \<Rightarrow> ('kem \<times> bytes) \<times> 'r"
  kem_encapsulate :: "'r \<Rightarrow> bytes \<Rightarrow> (bytes \<times> bytes) option \<times> 'r"
  kem_decapsulate :: "'kem \<Rightarrow> bytes \<Rightarrow> bytes option"

section \<open>Settings\<close>

record settings =
  initial_offer_timeout :: u64
  rekey_timeout :: u64
  rekey_after_time :: u64
  rekey_time_max_jitter :: u64
  rekey_after_key_uses :: u64
  resend_time :: u64
  fragment_assembly_timeout :: u64

definition INITIAL_OFFER_TIMEOUT_MS :: u64 where "INITIAL_OFFER_TIMEOUT_MS = 10 * 1000"
definition REKEY_TIMEOUT_MS :: u64 where "REKEY_TIMEOUT_MS = 60 * 1000"
definition REKEY_AFTER_TIME_MS :: u64 where "REKEY_AFTER_TIME_MS = 60 * 60 * 1000"
definition REKEY_AFTER_TIME_MAX_JITTER_MS :: u64 where
  "REKEY_AFTER_TIME_MAX_JITTER_MS = 10 * 60 * 1000"
definition REKEY_AFTER_KEY_USES :: u64 where "REKEY_AFTER_KEY_USES = 2 ^ 30"
definition RESEND_TIME :: u64 where "RESEND_TIME = 1000"
definition FRAGMENT_ASSEMBLY_TIMEOUT_MS :: u64 where "FRAGMENT_ASSEMBLY_TIMEOUT_MS = 5 * 1000"

definition new_ms :: settings where
  "new_ms = \<lparr>initial_offer_timeout = INITIAL_OFFER_TIMEOUT_MS,
     rekey_timeout = REKEY_TIMEOUT_MS,
     rekey_after_time = REKEY_AFTER_TIME_MS,
     rekey_time_max_jitter = REKEY_AFTER_TIME_MAX_JITTER_MS,
     rekey_after_key_uses = REKEY_AFTER_KEY_USES,
     resend_time = RESEND_TIME,
     fragment_assembly_timeout = FRAGMENT_ASSEMBLY_TIMEOUT_MS\<rparr>"

section \<open>The crypto layer\<close>

text \<open>All the algorithms, the random generator of \<open>rand_core\<close> and the constant \<open>SETTINGS\<close>.\<close>

record ('pk, 'kp, 'r, 'kem) crypto_layer = "('pk, 'kp, 'r, 'kem) kyber1024_private_key" +
  next_u32 :: "'r \<Rightarrow> u32 \<times> 'r"
  next_u64 :: "'r \<Rightarrow> u64 \<times> 'r"
  fill_bytes :: "nat \<Rightarrow> 'r \<Rightarrow> bytes \<times> 'r"
  SETTINGS :: settings

text \<open>\<open>secure_eq\<close>: the loop ORs the differences of all pairs and compares with zero at the end.\<close>

unbundle bit_operations_syntax

definition secure_eq :: "bytes \<Rightarrow> bytes \<Rightarrow> bool" where
  "secure_eq a b =
     (if length a = length b
      then foldl (\<lambda>x (aa, bb). x OR (aa XOR bb)) 0 (zip a b) = 0
      else False)"

section \<open>What the traits promise\<close>

definition crypto_sized :: "('pk, 'kp, 'r, 'kem) crypto_layer \<Rightarrow> bool" where
  "crypto_sized C \<longleftrightarrow>
     (\<forall>k b. length b = AES_256_BLOCK_SIZE \<longrightarrow> length (prp_encrypt_in_place C k b) = AES_256_BLOCK_SIZE) \<and>
     (\<forall>k b. length b = AES_256_BLOCK_SIZE \<longrightarrow> length (prp_decrypt_in_place C k b) = AES_256_BLOCK_SIZE) \<and>
     (\<forall>k n a b. length (fst (aead_encrypt_in_place C k n a b)) = length b) \<and>
     (\<forall>k n a b. length (snd (aead_encrypt_in_place C k n a b)) = AES_GCM_TAG_SIZE) \<and>
     (\<forall>k n a b t. length (snd (aead_decrypt_in_place C k n a b t)) = length b) \<and>
     (\<forall>x. length (sha512 C x) = SHA512_HASH_SIZE) \<and>
     (\<forall>k x. length (hmac C k x) = SHA512_HASH_SIZE) \<and>
     (\<forall>p. length (pk_to_bytes C p) = P384_PUBLIC_KEY_SIZE) \<and>
     (\<forall>p. length (kp_public_key_bytes C p) = P384_PUBLIC_KEY_SIZE) \<and>
     (\<forall>s p. length (kp_agree C s p) = P384_ECDH_SHARED_SECRET_SIZE) \<and>
     (\<forall>r. length (snd (fst (kem_generate C r))) = KYBER_PUBLIC_KEY_SIZE) \<and>
     (\<forall>r p ct s r'. kem_encapsulate C r p = (Some (ct, s), r') \<longrightarrow>
        length ct = KYBER_CIPHERTEXT_SIZE \<and> length s = KYBER_PLAINTEXT_SIZE) \<and>
     (\<forall>d ct s. kem_decapsulate C d ct = Some s \<longrightarrow> length s = KYBER_PLAINTEXT_SIZE) \<and>
     (\<forall>n r. length (fst (fill_bytes C n r)) = n)"

text \<open>
  Correctness of the primitives. \<open>pub_of\<close> names the public key of a key pair: its bytes
  parse to it, and a key agreement does not depend on which side runs it.
\<close>

definition crypto_correct ::
  "('pk, 'kp, 'r, 'kem) crypto_layer \<Rightarrow> ('kp \<Rightarrow> 'pk) \<Rightarrow> bool" where
  "crypto_correct C pub_of \<longleftrightarrow>
     (\<forall>k b. length b = AES_256_BLOCK_SIZE \<longrightarrow>
        prp_decrypt_in_place C k (prp_encrypt_in_place C k b) = b) \<and>
     (\<forall>k n a b ct t. aead_encrypt_in_place C k n a b = (ct, t) \<longrightarrow>
        aead_decrypt_in_place C k n a ct t = (True, b)) \<and>
     (\<forall>s. kp_public_key_bytes C s = pk_to_bytes C (pub_of s)) \<and>
     (\<forall>s. pk_from_bytes C (kp_public_key_bytes C s) = Some (pub_of s)) \<and>
     (\<forall>s1 s2. kp_agree C s1 (pub_of s2) = kp_agree C s2 (pub_of s1)) \<and>
     (\<forall>r0 d e r1. kem_generate C r0 = ((d, e), r1) \<longrightarrow>
        (\<forall>r. \<exists>ct s r'. kem_encapsulate C r e = (Some (ct, s), r') \<and> kem_decapsulate C d ct = Some s))"

section \<open>Facts\<close>

lemma secure_eq_fold:
  "length a = length b \<Longrightarrow>
   foldl (\<lambda>x (aa, bb). x OR (aa XOR bb)) (x :: u8) (zip a b) = 0 \<longleftrightarrow> x = 0 \<and> a = b"
proof (induction a b arbitrary: x rule: list_induct2)
  case Nil
  then show ?case by simp
next
  case (Cons p a q b)
  have "x OR (p XOR q) = 0 \<longleftrightarrow> x = 0 \<and> p = q"
    by (metis or_eq_0_iff xor_self_eq bit.xor_left_self xor.comm_neutral)
  with Cons show ?case by auto
qed

lemma secure_eq_iff [simp]: "secure_eq a b \<longleftrightarrow> a = b"
  by (auto simp: secure_eq_def secure_eq_fold)

lemma crypto_sizedD:
  assumes "crypto_sized C"
  shows "length b = 16 \<Longrightarrow> length (prp_encrypt_in_place C k b) = 16"
    and "length b = 16 \<Longrightarrow> length (prp_decrypt_in_place C k b) = 16"
    and "length (fst (aead_encrypt_in_place C k n a b)) = length b"
    and "length (snd (aead_encrypt_in_place C k n a b)) = 16"
    and "length (snd (aead_decrypt_in_place C k n a b t)) = length b"
    and "length (sha512 C x) = 64"
    and "length (hmac C k x) = 64"
    and "length (pk_to_bytes C p) = 49"
    and "length (kp_public_key_bytes C s) = 49"
    and "length (snd (fst (kem_generate C r))) = 1568"
    and "kem_encapsulate C r e = (Some (ct, ss), r') \<Longrightarrow> length ct = 1568"
    and "length (fst (fill_bytes C m r)) = m"
  using assms unfolding crypto_sized_def by (simp_all add: zssp_sizes) blast

lemma aead_encrypt_lengths:
  assumes "crypto_sized C" "aead_encrypt_in_place C k n a b = (ct, t)"
  shows "length ct = length b" "length t = 16"
  using crypto_sizedD(3,4) [OF assms(1), of k n a b] assms(2) by simp_all

lemma crypto_correctD:
  assumes "crypto_correct C pub_of"
  shows "length b = 16 \<Longrightarrow> prp_decrypt_in_place C k (prp_encrypt_in_place C k b) = b"
    and "aead_encrypt_in_place C k n a b = (ct, t) \<Longrightarrow> aead_decrypt_in_place C k n a ct t = (True, b)"
    and "kp_public_key_bytes C s = pk_to_bytes C (pub_of s)"
    and "pk_from_bytes C (pk_to_bytes C (pub_of s)) = Some (pub_of s)"
    and "kp_agree C s1 (pub_of s2) = kp_agree C s2 (pub_of s1)"
    and "kem_generate C r0 = ((d, e), r1) \<Longrightarrow>
         \<exists>ct s r'. kem_encapsulate C r e = (Some (ct, s), r') \<and> kem_decapsulate C d ct = Some s"
  using assms unfolding crypto_correct_def by (simp_all add: zssp_sizes) metis+

end
