(* ===== verification/Symmetric_State.thy ===== *)
theory Symmetric_State
  imports Crypto_Layer
begin

text \<open>
  The Noise symmetric state (\<open>reference/src/symmetric_state.rs\<close>): the record \<open>{k, ck, h}\<close>,
  the KBKDF key derivation and the operations of the Noise framework on it. The theory
  shows that the derivation input is an unambiguous encoding, that every operation keeps
  the sizes of the three fields, and that a reader who holds the writer's state ends in the
  writer's next state and recovers the plain text.
\<close>

section \<open>Definitions\<close>

record symmetric_state =
  ss_k :: bytes
  ss_ck :: bytes
  ss_h :: bytes

text \<open>
  The buffer that \<open>kbkdf\<close> feeds to HMAC: counter byte, label, zero, chaining key, and the
  output length in bits as a big endian \<open>u16\<close>.
\<close>

definition kbkdf_buffer :: "u8 \<Rightarrow> bytes \<Rightarrow> bytes \<Rightarrow> u16 \<Rightarrow> bytes" where
  "kbkdf_buffer i label ck num_outputs =
     [i] @ label @ [0] @ ck @ u16_to_be_bytes (num_outputs * 8 * word_of_nat HASHLEN)"

text \<open>The two flags say whether \<open>output2\<close> and \<open>output3\<close> are \<open>Some\<close>.\<close>

definition kbkdf ::
  "('pk, 'kp, 'r, 'kem) crypto_layer \<Rightarrow> symmetric_state \<Rightarrow> bytes \<Rightarrow> bytes \<Rightarrow> u16 \<Rightarrow> bool \<Rightarrow> bool
     \<Rightarrow> bytes \<times> bytes option \<times> bytes option" where
  "kbkdf C self input_key_material label num_outputs output2 output3 =
     (hmac C input_key_material (kbkdf_buffer 1 label (ss_ck self) num_outputs),
      (if output2 then Some (hmac C input_key_material (kbkdf_buffer 2 label (ss_ck self) num_outputs))
       else None),
      (if output3 then Some (hmac C input_key_material (kbkdf_buffer 3 label (ss_ck self) num_outputs))
       else None))"

definition initialize :: "bytes \<Rightarrow> symmetric_state" where
  "initialize h = \<lparr>ss_k = replicate AES_256_KEY_SIZE 0, ss_ck = h, ss_h = h\<rparr>"

definition mix_key ::
  "('pk, 'kp, 'r, 'kem) crypto_layer \<Rightarrow> symmetric_state \<Rightarrow> bytes \<Rightarrow> symmetric_state" where
  "mix_key C self input_key_material =
     (case kbkdf C self input_key_material LABEL_KBKDF_CHAIN 2 True False of
        (next_ck, temp_k, _) \<Rightarrow>
          self\<lparr>ss_ck := next_ck, ss_k := take AES_256_KEY_SIZE (the temp_k)\<rparr>)"

definition mix_hash ::
  "('pk, 'kp, 'r, 'kem) crypto_layer \<Rightarrow> symmetric_state \<Rightarrow> bytes \<Rightarrow> symmetric_state" where
  "mix_hash C self data = self\<lparr>ss_h := sha512 C (ss_h self @ data)\<rparr>"

definition mix_key_and_hash ::
  "('pk, 'kp, 'r, 'kem) crypto_layer \<Rightarrow> symmetric_state \<Rightarrow> bytes \<Rightarrow> symmetric_state" where
  "mix_key_and_hash C self input_key_material =
     (case kbkdf C self input_key_material LABEL_KBKDF_CHAIN 3 True True of
        (next_ck, temp_h, temp_k) \<Rightarrow>
          (mix_hash C (self\<lparr>ss_ck := next_ck\<rparr>) (the temp_h))
            \<lparr>ss_k := take AES_256_KEY_SIZE (the temp_k)\<rparr>)"

text \<open>Encryption of \<open>buffer[plaintext_start..]\<close> with the tag appended.\<close>

definition encrypt_and_hash_in_place ::
  "('pk, 'kp, 'r, 'kem) crypto_layer \<Rightarrow> symmetric_state \<Rightarrow> bytes \<Rightarrow> nat \<Rightarrow> bytes
     \<Rightarrow> symmetric_state \<times> bytes" where
  "encrypt_and_hash_in_place C self iv plaintext_start buffer =
     (case aead_encrypt_in_place C (ss_k self) iv (Some (ss_h self)) (drop plaintext_start buffer) of
        (ct, tag) \<Rightarrow>
          (let buffer' = take plaintext_start buffer @ ct @ tag
           in (mix_hash C self (drop plaintext_start buffer'), buffer')))"

definition decrypt_and_hash_in_place ::
  "('pk, 'kp, 'r, 'kem) crypto_layer \<Rightarrow> symmetric_state \<Rightarrow> bytes \<Rightarrow> bytes \<Rightarrow> bytes
     \<Rightarrow> bool \<times> symmetric_state \<times> bytes" where
  "decrypt_and_hash_in_place C self iv buffer tag =
     (case aead_decrypt_in_place C (ss_k self) iv (Some (ss_h self)) buffer tag of
        (ret, buffer') \<Rightarrow>
          (ret, self\<lparr>ss_h := sha512 C (ss_h self @ buffer @ tag)\<rparr>, buffer'))"

definition split_keys ::
  "('pk, 'kp, 'r, 'kem) crypto_layer \<Rightarrow> symmetric_state \<Rightarrow> bytes \<times> bytes" where
  "split_keys C self =
     (case kbkdf C self [] LABEL_KBKDF_CHAIN 2 True False of
        (temp_k1, temp_k2, _) \<Rightarrow>
          (take AES_256_KEY_SIZE temp_k1, take AES_256_KEY_SIZE (the temp_k2)))"

definition get_ask ::
  "('pk, 'kp, 'r, 'kem) crypto_layer \<Rightarrow> symmetric_state \<Rightarrow> bytes \<Rightarrow> bytes \<times> bytes" where
  "get_ask C self label =
     (case kbkdf C self (ss_h self) label 2 True False of
        (temp_k1, temp_k2, _) \<Rightarrow>
          (take AES_256_KEY_SIZE temp_k1, take AES_256_KEY_SIZE (the temp_k2)))"

text \<open>The Noise tokens of \<open>reference/src/zeta.rs\<close>: \<open>write_e\<close>, \<open>read_e\<close> and \<open>mix_dh\<close>.\<close>

definition write_e ::
  "('pk, 'kp, 'r, 'kem) crypto_layer \<Rightarrow> symmetric_state \<Rightarrow> 'r \<Rightarrow> bytes
     \<Rightarrow> 'kp \<times> symmetric_state \<times> 'r \<times> bytes" where
  "write_e C self rng packet =
     (case kp_generate C rng of (e_secret, rng') \<Rightarrow>
        (let pub_key = kp_public_key_bytes C e_secret
         in (e_secret, mix_key C (mix_hash C self pub_key) pub_key, rng', packet @ pub_key)))"

text \<open>
  \<open>read_e\<close> advances the index past the key. Its slice \<open>packet[i..j]\<close> is in range at every
  call site, since the caller has compared the packet's length first.
\<close>

definition read_e ::
  "('pk, 'kp, 'r, 'kem) crypto_layer \<Rightarrow> symmetric_state \<Rightarrow> nat \<Rightarrow> bytes
     \<Rightarrow> 'pk option \<times> symmetric_state \<times> nat" where
  "read_e C self i packet =
     (let j = i + P384_PUBLIC_KEY_SIZE; pub_key = subslice i j packet
      in (pk_from_bytes C pub_key, mix_key C (mix_hash C self pub_key) pub_key, j))"

definition mix_dh ::
  "('pk, 'kp, 'r, 'kem) crypto_layer \<Rightarrow> symmetric_state \<Rightarrow> 'kp \<Rightarrow> 'pk \<Rightarrow> symmetric_state" where
  "mix_dh C self secret remote = mix_key C self (kp_agree C secret remote)"

text \<open>Sizes of the three arrays.\<close>

definition symmetric_state_wf :: "symmetric_state \<Rightarrow> bool" where
  "symmetric_state_wf s \<longleftrightarrow>
     length (ss_k s) = AES_256_KEY_SIZE \<and> length (ss_ck s) = HASHLEN \<and> length (ss_h s) = HASHLEN"

section \<open>The derivation input is unambiguous\<close>

lemma kbkdf_buffer_inj:
  assumes "length l1 = length l2" "length c1 = length c2"
    and "kbkdf_buffer i1 l1 c1 n1 = kbkdf_buffer i2 l2 c2 n2"
  shows "i1 = i2 \<and> l1 = l2 \<and> c1 = c2"
  using assms by (auto simp: kbkdf_buffer_def)

section \<open>Sizes\<close>

lemma initialize_wf: "length h = 64 \<Longrightarrow> symmetric_state_wf (initialize h)"
  by (simp add: initialize_def symmetric_state_wf_def zssp_sizes)

lemma mix_key_wf: "crypto_sized C \<Longrightarrow> symmetric_state_wf s \<Longrightarrow> symmetric_state_wf (mix_key C s x)"
  by (simp add: mix_key_def kbkdf_def symmetric_state_wf_def zssp_sizes crypto_sizedD)

lemma mix_hash_wf: "crypto_sized C \<Longrightarrow> symmetric_state_wf s \<Longrightarrow> symmetric_state_wf (mix_hash C s x)"
  by (simp add: mix_hash_def symmetric_state_wf_def zssp_sizes crypto_sizedD)

lemma mix_key_and_hash_wf:
  "crypto_sized C \<Longrightarrow> symmetric_state_wf s \<Longrightarrow> symmetric_state_wf (mix_key_and_hash C s x)"
  by (simp add: mix_key_and_hash_def mix_hash_def kbkdf_def symmetric_state_wf_def zssp_sizes crypto_sizedD)

lemma split_keys_lengths:
  "crypto_sized C \<Longrightarrow> split_keys C s = (k1, k2) \<Longrightarrow> length k1 = 32 \<and> length k2 = 32"
  by (auto simp: split_keys_def kbkdf_def zssp_sizes crypto_sizedD)

lemma get_ask_lengths:
  "crypto_sized C \<Longrightarrow> get_ask C s l = (k1, k2) \<Longrightarrow> length k1 = 32 \<and> length k2 = 32"
  by (auto simp: get_ask_def kbkdf_def zssp_sizes crypto_sizedD)

lemma encrypt_and_hash_length:
  assumes "crypto_sized C" "i \<le> length buf" "encrypt_and_hash_in_place C s iv i buf = (s', buf')"
  shows "length buf' = length buf + 16" "take i buf' = take i buf"
  using assms aead_encrypt_lengths [OF assms(1)]
  by (auto simp: encrypt_and_hash_in_place_def Let_def split: prod.splits)

section \<open>The reader follows the writer\<close>

text \<open>
  The writer encrypts a plain text appended to a prefix; the reader is given the cipher
  text and the tag at their places, and ends with the writer's state and the plain text.
\<close>

lemma decrypt_follows_encrypt:
  assumes "crypto_correct C pub_of"
    and "encrypt_and_hash_in_place C s iv (length pre) (pre @ pt) = (s', out)"
    and "crypto_sized C"
  obtains ct tag where "out = pre @ ct @ tag" "length ct = length pt" "length tag = 16"
    "decrypt_and_hash_in_place C s iv ct tag = (True, s', pt)"
proof -
  obtain ct tag where e: "aead_encrypt_in_place C (ss_k s) iv (Some (ss_h s)) pt = (ct, tag)"
    by fastforce
  have d: "aead_decrypt_in_place C (ss_k s) iv (Some (ss_h s)) ct tag = (True, pt)"
    by (rule crypto_correctD(2) [OF assms(1) e])
  have out: "out = pre @ ct @ tag" and s': "s' = mix_hash C s (ct @ tag)"
    using assms(2) e by (auto simp: encrypt_and_hash_in_place_def Let_def)
  have "decrypt_and_hash_in_place C s iv ct tag = (True, s', pt)"
    using d s' by (simp add: decrypt_and_hash_in_place_def mix_hash_def)
  with out aead_encrypt_lengths [OF assms(3) e] that show thesis by blast
qed

lemma read_e_follows_write_e:
  assumes "crypto_correct C pub_of" "crypto_sized C"
    and "write_e C s rng packet = (e, s', rng', packet')"
  shows "packet' = packet @ pk_to_bytes C (pub_of e)"
    and "read_e C s (length packet) (packet' @ rest) = (Some (pub_of e), s', length packet + 49)"
proof -
  show p: "packet' = packet @ pk_to_bytes C (pub_of e)"
    using assms(3) crypto_correctD(3) [OF assms(1)] by (auto simp: write_e_def Let_def split: prod.splits)
  have "length (pk_to_bytes C (pub_of e)) = 49"
    by (rule crypto_sizedD(8) [OF assms(2)])
  then have "subslice (length packet) (length packet + 49) (packet' @ rest) = pk_to_bytes C (pub_of e)"
    unfolding p by (simp add: subslice_middle)
  moreover have "s' = mix_key C (mix_hash C s (pk_to_bytes C (pub_of e))) (pk_to_bytes C (pub_of e))"
    using assms(3) crypto_correctD(3) [OF assms(1)] by (auto simp: write_e_def Let_def split: prod.splits)
  ultimately show "read_e C s (length packet) (packet' @ rest) = (Some (pub_of e), s', length packet + 49)"
    using crypto_correctD(4) [OF assms(1)] by (simp add: read_e_def Let_def zssp_sizes)
qed

lemma mix_dh_commute:
  "crypto_correct C pub_of \<Longrightarrow> mix_dh C s a (pub_of b) = mix_dh C s b (pub_of a)"
  by (simp add: mix_dh_def crypto_correctD(5))

end
