(* ===== verification/Ratchet_State.thy ===== *)
theory Ratchet_State
  imports Crypto_Layer
begin

text \<open>
  Ratchet states and the compare-and-swap records handed to the application's storage
  (\<open>reference/src/ratchet_state.rs\<close>). Equality of ratchet states is the source's
  \<open>PartialEq\<close>: it looks at the fingerprint and the chain length and never at the key.

  \<open>performance/src/ratchet_state.rs\<close> has the same text but for the derivation from a one-time
  password, which it does in a buffer of 23 bytes; that one has definitions of its own.
\<close>

section \<open>Ratchet states\<close>

record ratchet_state =
  rs_key :: bytes
  rs_fingerprint :: bytes
  rs_chain_len :: u64

definition ratchet_eq :: "ratchet_state \<Rightarrow> ratchet_state \<Rightarrow> bool" where
  "ratchet_eq self other \<longleftrightarrow>
     rs_fingerprint self = rs_fingerprint other \<and> rs_chain_len self = rs_chain_len other"

text \<open>What \<open>Hash::hash\<close> writes to the hasher.\<close>

definition ratchet_hash :: "ratchet_state \<Rightarrow> bytes" where
  "ratchet_hash self = rs_fingerprint self"

definition ratchet_new :: "bytes \<Rightarrow> bytes \<Rightarrow> u64 \<Rightarrow> ratchet_state" where
  "ratchet_new key fingerprint chain_len =
     \<lparr>rs_key = key, rs_fingerprint = fingerprint, rs_chain_len = chain_len\<rparr>"

definition ratchet_empty :: ratchet_state where
  "ratchet_empty = \<lparr>rs_key = replicate RATCHET_SIZE 0, rs_fingerprint = replicate RATCHET_SIZE 0,
     rs_chain_len = 0\<rparr>"

definition new_from_otp :: "('pk, 'kp, 'r, 'kem) crypto_layer \<Rightarrow> bytes \<Rightarrow> ratchet_state" where
  "new_from_otp C otp =
     (let buffer = [1] @ LABEL_OTP_TO_RATCHET @ [0] @ u16_to_be_bytes 1024;
          r1 = hmac C otp buffer;
          buffer = buffer[0 := 2];
          r2 = hmac C otp buffer
      in ratchet_new (take RATCHET_SIZE r1) (take RATCHET_SIZE r2) 1)"

definition otp_buffer_perf :: bytes where
  "otp_buffer_perf = [1] @ LABEL_OTP_TO_RATCHET @ [0] @ u16_to_be_bytes 1024"

definition new_from_otp_perf :: "('pk, 'kp, 'r, 'kem) crypto_layer \<Rightarrow> bytes \<Rightarrow> ratchet_state" where
  "new_from_otp_perf C otp =
     (let buffer = otp_buffer_perf;
          output = hmac C otp buffer;
          rk = take RATCHET_SIZE output;
          buffer = buffer[0 := 2];
          output = hmac C otp buffer;
          rf = take RATCHET_SIZE output
      in ratchet_new rk rf 1)"

definition is_empty :: "ratchet_state \<Rightarrow> bool" where
  "is_empty self \<longleftrightarrow> secure_eq (rs_fingerprint self) (replicate RATCHET_SIZE 0)"

definition fingerprint_eq :: "ratchet_state \<Rightarrow> bytes \<Rightarrow> bool" where
  "fingerprint_eq self rf \<longleftrightarrow> secure_eq (rs_fingerprint self) rf"

definition fingerprint_eq_nullable :: "ratchet_state option \<Rightarrow> bytes option \<Rightarrow> bool" where
  "fingerprint_eq_nullable this rf =
     (case (this, rf) of
        (Some this, Some rf) \<Rightarrow> fingerprint_eq this rf
      | (None, None) \<Rightarrow> True
      | _ \<Rightarrow> False)"

text \<open>The sizes of the two arrays.\<close>

definition ratchet_wf :: "ratchet_state \<Rightarrow> bool" where
  "ratchet_wf rs \<longleftrightarrow> length (rs_key rs) = RATCHET_SIZE \<and> length (rs_fingerprint rs) = RATCHET_SIZE"

section \<open>The two slots of a peer\<close>

record ratchet_states =
  rss_state1 :: ratchet_state
  rss_state2 :: "ratchet_state option"

definition ratchet_states_new :: "ratchet_state \<Rightarrow> ratchet_state option \<Rightarrow> ratchet_states" where
  "ratchet_states_new state1 state2 = \<lparr>rss_state1 = state1, rss_state2 = state2\<rparr>"

definition new_initial_states :: ratchet_states where
  "new_initial_states = \<lparr>rss_state1 = ratchet_empty, rss_state2 = None\<rparr>"

definition ratchets_wf :: "ratchet_states \<Rightarrow> bool" where
  "ratchets_wf rss \<longleftrightarrow> ratchet_wf (rss_state1 rss) \<and> pred_option ratchet_wf (rss_state2 rss)"

definition new_otp_states :: "('pk, 'kp, 'r, 'kem) crypto_layer \<Rightarrow> bytes \<Rightarrow> ratchet_states" where
  "new_otp_states C otp = \<lparr>rss_state1 = new_from_otp C otp, rss_state2 = None\<rparr>"

definition new_otp_states_perf :: "('pk, 'kp, 'r, 'kem) crypto_layer \<Rightarrow> bytes \<Rightarrow> ratchet_states" where
  "new_otp_states_perf C otp = \<lparr>rss_state1 = new_from_otp_perf C otp, rss_state2 = None\<rparr>"

text \<open>The \<open>PartialEq\<close> of \<open>Option<RatchetState>\<close> lifts the one above.\<close>

definition ratchet_option_eq :: "ratchet_state option \<Rightarrow> ratchet_state option \<Rightarrow> bool" where
  "ratchet_option_eq a b = rel_option ratchet_eq a b"

section \<open>Compare and swap\<close>

record compare_and_swap =
  cas_new_state1 :: ratchet_state
  cas_new_state2 :: "ratchet_state option"
  cas_new_state1_was_just_added :: bool
  cas_cur_state1 :: ratchet_state
  cas_cur_state2 :: "ratchet_state option"
  cas_cur_state1_was_just_deleted :: bool
  cas_cur_state2_was_just_deleted :: bool

definition cas_new ::
  "ratchet_state \<Rightarrow> ratchet_state option \<Rightarrow> bool \<Rightarrow> ratchet_state \<Rightarrow> ratchet_state option
     \<Rightarrow> bool \<Rightarrow> bool \<Rightarrow> compare_and_swap" where
  "cas_new new_state1 new_state2 new_state1_was_just_added cur_state1 cur_state2
     cur_state1_was_just_deleted cur_state2_was_just_deleted =
     \<lparr>cas_new_state1 = new_state1, cas_new_state2 = new_state2,
      cas_new_state1_was_just_added = new_state1_was_just_added,
      cas_cur_state1 = cur_state1, cas_cur_state2 = cur_state2,
      cas_cur_state1_was_just_deleted = cur_state1_was_just_deleted,
      cas_cur_state2_was_just_deleted = cur_state2_was_just_deleted\<rparr>"

definition to_new_states :: "compare_and_swap \<Rightarrow> ratchet_states" where
  "to_new_states self = ratchet_states_new (cas_new_state1 self) (cas_new_state2 self)"

definition to_cur_states :: "compare_and_swap \<Rightarrow> ratchet_states" where
  "to_cur_states self = ratchet_states_new (cas_cur_state1 self) (cas_cur_state2 self)"

definition added_fingerprint :: "compare_and_swap \<Rightarrow> bytes option" where
  "added_fingerprint self =
     (if cas_new_state1_was_just_added self then Some (rs_fingerprint (cas_new_state1 self)) else None)"

definition deleted_fingerprint1 :: "compare_and_swap \<Rightarrow> bytes option" where
  "deleted_fingerprint1 self =
     (if cas_cur_state1_was_just_deleted self \<and> \<not> is_empty (cas_cur_state1 self)
      then Some (rs_fingerprint (cas_cur_state1 self)) else None)"

definition deleted_fingerprint2 :: "compare_and_swap \<Rightarrow> bytes option" where
  "deleted_fingerprint2 self =
     (if cas_cur_state2_was_just_deleted self
      then (case cas_cur_state2 self of
              Some rf \<Rightarrow> if \<not> is_empty rf then Some (rs_fingerprint rf) else None
            | None \<Rightarrow> None)
      else None)"

definition cur_is_initial_states :: "compare_and_swap \<Rightarrow> bool" where
  "cur_is_initial_states self \<longleftrightarrow> is_empty (cas_cur_state1 self) \<and> cas_cur_state2 self = None"

definition compare_fingerprints :: "compare_and_swap \<Rightarrow> bytes \<Rightarrow> bytes option \<Rightarrow> bool" where
  "compare_fingerprints self rf1 rf2 \<longleftrightarrow>
     fingerprint_eq (cas_cur_state1 self) rf1 \<and> fingerprint_eq_nullable (cas_cur_state2 self) rf2"

definition compare_states :: "compare_and_swap \<Rightarrow> ratchet_states \<Rightarrow> bool" where
  "compare_states self other \<longleftrightarrow>
     ratchet_eq (cas_cur_state1 self) (rss_state1 other) \<and>
     ratchet_option_eq (cas_cur_state2 self) (rss_state2 other)"

section \<open>Facts\<close>

lemma ratchet_eq_refl [simp]: "ratchet_eq a a"
  by (simp add: ratchet_eq_def)

lemma ratchet_eq_sym: "ratchet_eq a b \<Longrightarrow> ratchet_eq b a"
  by (simp add: ratchet_eq_def)

lemma ratchet_eq_trans: "ratchet_eq a b \<Longrightarrow> ratchet_eq b c \<Longrightarrow> ratchet_eq a c"
  by (simp add: ratchet_eq_def)

lemma ratchet_eq_hash: "ratchet_eq a b \<Longrightarrow> ratchet_hash a = ratchet_hash b"
  by (simp add: ratchet_eq_def ratchet_hash_def)

lemma ratchet_option_eq_simps [simp]:
  "ratchet_option_eq None None" "ratchet_option_eq (Some a) (Some b) = ratchet_eq a b"
  "\<not> ratchet_option_eq None (Some b)" "\<not> ratchet_option_eq (Some a) None"
  by (simp_all add: ratchet_option_eq_def)

lemma ratchet_new_simps [simp]:
  "rs_key (ratchet_new k f l) = k" "rs_fingerprint (ratchet_new k f l) = f"
  "rs_chain_len (ratchet_new k f l) = l"
  by (simp_all add: ratchet_new_def)

lemma compare_states_fingerprints:
  "compare_states u st \<Longrightarrow>
   compare_fingerprints u (rs_fingerprint (rss_state1 st)) (map_option rs_fingerprint (rss_state2 st))"
  by (cases "cas_cur_state2 u"; cases "rss_state2 st")
     (auto simp: compare_states_def compare_fingerprints_def fingerprint_eq_def
       fingerprint_eq_nullable_def ratchet_eq_def)

lemma ratchet_option_eq_refl [simp]: "ratchet_option_eq a a"
  by (cases a) simp_all

lemma compare_states_cur [simp]:
  "compare_states (cas_new n1 n2 ad c1 c2 d1 d2) (ratchet_states_new c1 c2)"
  by (simp add: compare_states_def cas_new_def ratchet_states_new_def)

lemma to_new_states_cas [simp]: "to_new_states (cas_new n1 n2 ad c1 c2 d1 d2) = ratchet_states_new n1 n2"
  by (simp add: to_new_states_def cas_new_def)

text \<open>Both crates derive the same states from a password, and a peer with either can find the other's.\<close>

lemma otp_buffer_perf_length: "length otp_buffer_perf = 23"
  by (simp add: otp_buffer_perf_def LABEL_OTP_TO_RATCHET_def ascii_def u16_to_be_bytes_def)

lemma new_otp_states_perf_same: "new_otp_states_perf C otp = new_otp_states C otp"
  by (simp add: new_otp_states_perf_def new_otp_states_def new_from_otp_perf_def new_from_otp_def otp_buffer_perf_def Let_def)

lemma new_otp_states_wf: "crypto_sized C \<Longrightarrow> ratchets_wf (new_otp_states C otp)"
  by (simp add: ratchets_wf_def new_otp_states_def new_from_otp_def Let_def ratchet_wf_def crypto_sizedD zssp_sizes)

end
