(* ===== verification/Zssp_Result.thy ===== *)
theory Zssp_Result
  imports Zssp_Prelude
begin

text \<open>
  The result and error types of \<open>reference/src/result.rs\<close>, with the constructors of the
  source. An \<open>std::io::Error\<close> is its raw code. The \<open>file\<close> and \<open>line\<close> fields of a
  \<open>ByzantineFault\<close> exist only with the \<open>debug\<close> feature and are not part of the model.
\<close>

type_synonym io_error = int

datatype open_error = IdentityTooLarge | OpenStorageError io_error

datatype send_error = MtuTooSmall | SessionExpired | SessionNotEstablished | DataTooLarge

datatype fault_type =
    UnknownLocalKeyId | InvalidPacket | FailedAuth | ExpiredCounter | OutOfSequence

record byzantine_fault =
  bf_error :: fault_type
  bf_unnatural :: bool

datatype receive_error =
    ByzantineFault byzantine_fault
  | MaxKeyLifetimeExceeded
  | ReceiveRejected
  | StorageError io_error
  | WriteError io_error

text \<open>The \<open>fault!\<close> macro.\<close>

definition fault :: "fault_type \<Rightarrow> bool \<Rightarrow> receive_error" where
  "fault name unnatural = ByzantineFault \<lparr>bf_error = name, bf_unnatural = unnatural\<rparr>"

definition is_byzantine :: "receive_error \<Rightarrow> bool" where
  "is_byzantine e = (case e of ByzantineFault _ \<Rightarrow> True | _ \<Rightarrow> False)"

datatype session_event =
    NewSession | NewDowngradedSession | Established | Rejected | Data bytes | Control
  | DowngradedRatchetKey

text \<open>A session is named by its address.\<close>

type_synonym session_id = nat

datatype receive_ok = Unassociated | SessionOk session_id session_event

text \<open>
  The messages of the \<open>Display\<close> implementations. That of an \<open>io::Error\<close> comes from the platform
  and is an argument.
\<close>

definition display_open_error :: "(io_error \<Rightarrow> string) \<Rightarrow> open_error \<Rightarrow> string" where
  "display_open_error io e = (case e of
     IdentityTooLarge \<Rightarrow> ''identity too large''
   | OpenStorageError e \<Rightarrow> io e)"

definition display_send_error :: "send_error \<Rightarrow> string" where
  "display_send_error e = (case e of
     MtuTooSmall \<Rightarrow> ''mtu too small''
   | SessionExpired \<Rightarrow> ''session has expired''
   | SessionNotEstablished \<Rightarrow> ''session not established''
   | DataTooLarge \<Rightarrow> ''data too large'')"

definition display_fault_type :: "fault_type \<Rightarrow> string" where
  "display_fault_type e = (case e of
     UnknownLocalKeyId \<Rightarrow> ''packet contained an unknown key id''
   | InvalidPacket \<Rightarrow> ''invalid packet received''
   | FailedAuth \<Rightarrow> ''packet failed authentication''
   | ExpiredCounter \<Rightarrow> ''packet used an expired counter''
   | OutOfSequence \<Rightarrow> ''packet arrived out of sequence'')"

definition display_byzantine_fault :: "byzantine_fault \<Rightarrow> string" where
  "display_byzantine_fault e = display_fault_type (bf_error e)"

definition display_receive_error :: "(io_error \<Rightarrow> string) \<Rightarrow> receive_error \<Rightarrow> string" where
  "display_receive_error io e = (case e of
     ByzantineFault e \<Rightarrow> display_byzantine_fault e
   | MaxKeyLifetimeExceeded \<Rightarrow> ''max key lifetime exceeded''
   | ReceiveRejected \<Rightarrow> ''attempt to establish session rejected''
   | StorageError e \<Rightarrow> io e
   | WriteError e \<Rightarrow> io e)"

lemma fault_inject [simp]: "fault a b = fault c d \<longleftrightarrow> a = c \<and> b = d"
  by (simp add: fault_def)

lemma fault_not_storage [simp]:
  "fault a b \<noteq> StorageError e" "StorageError e \<noteq> fault a b"
  by (simp_all add: fault_def)

lemma is_byzantine_simps [simp]: "is_byzantine (fault a b)" "\<not> is_byzantine (StorageError e)"
  by (simp_all add: is_byzantine_def fault_def)

text \<open>No two kinds of error of the library have the same message.\<close>

lemma display_fault_type_inject [simp]: "display_fault_type a = display_fault_type b \<longleftrightarrow> a = b"
  by (cases a; cases b) (simp_all add: display_fault_type_def)

lemma display_send_error_inject [simp]: "display_send_error a = display_send_error b \<longleftrightarrow> a = b"
  by (cases a; cases b) (simp_all add: display_send_error_def)

lemma display_fault_type_own:
  "display_fault_type a \<noteq> ''max key lifetime exceeded''" "display_fault_type a \<noteq> ''attempt to establish session rejected''"
  by (cases a; simp add: display_fault_type_def)+

lemma display_receive_error_fault:
  "display_receive_error io (fault a u) = display_receive_error io (fault b v) \<longleftrightarrow> a = b"
  "display_receive_error io (fault a u) \<noteq> display_receive_error io MaxKeyLifetimeExceeded"
  "display_receive_error io (fault a u) \<noteq> display_receive_error io ReceiveRejected"
  by (simp_all add: display_receive_error_def display_byzantine_fault_def fault_def display_fault_type_own)

end
