(* ===== verification/Application.thy ===== *)
theory Application
  imports Ratchet_State Zssp_Result
begin

text \<open>
  The \<open>ApplicationLayer\<close> trait of \<open>reference/src/application.rs\<close>. The application is the
  user's code: it is a record of functions over a state of its own, which every definition
  that calls it takes as an argument. The callbacks do not call back into the context; the
  logging callback has no effect on the protocol and is left out. An \<open>std::io::Error\<close> of
  the storage backend is the left case of a sum.

  What the documentation of \<open>save_ratchet_state\<close> asks of the backend is the predicate
  \<open>storage_atomic\<close>: an update is applied exactly when the stored pair of a peer compares
  equal to the update's current pair, and is otherwise without effect. \<open>app_sized\<close> states the
  array lengths in the trait's signature.
\<close>

record 'd accept_action =
  aa_session_data :: "'d option"
  aa_responder_disallows_downgrade :: bool
  aa_responder_silently_rejects :: bool

record ('pk, 'd, 'a) application_layer =
  app_time :: "'a \<Rightarrow> i64 \<times> 'a"
  app_hello_requires_recognized_ratchet :: "'a \<Rightarrow> bool \<times> 'a"
  app_initiator_disallows_downgrade :: "session_id \<Rightarrow> 'a \<Rightarrow> bool \<times> 'a"
  app_check_accept_session :: "'pk \<Rightarrow> bytes \<Rightarrow> 'a \<Rightarrow> 'd accept_action \<times> 'a"
  app_restore_by_fingerprint :: "bytes \<Rightarrow> 'a \<Rightarrow> (io_error + ratchet_state option) \<times> 'a"
  app_restore_by_identity :: "'pk \<Rightarrow> 'd \<Rightarrow> 'a \<Rightarrow> (io_error + ratchet_states option) \<times> 'a"
  app_save_ratchet_state :: "'pk \<Rightarrow> 'd \<Rightarrow> compare_and_swap \<Rightarrow> 'a \<Rightarrow> (io_error + bool) \<times> 'a"

text \<open>\<open>stored\<close> reads the pair that the backend holds for a peer.\<close>

definition storage_atomic ::
  "('pk, 'd, 'a) application_layer \<Rightarrow> ('a \<Rightarrow> 'pk \<Rightarrow> ratchet_states) \<Rightarrow> bool" where
  "storage_atomic A stored \<longleftrightarrow>
     (\<forall>pk d u a r a'. app_save_ratchet_state A pk d u a = (r, a') \<longrightarrow>
        (case r of
           Inr True \<Rightarrow> compare_states u (stored a pk) \<and> stored a' = (stored a)(pk := to_new_states u)
         | Inr False \<Rightarrow> \<not> compare_states u (stored a pk) \<and> stored a' = stored a
         | Inl e \<Rightarrow> stored a' = stored a))"

text \<open>The array sizes in the signature of \<open>restore_by_identity\<close>.\<close>

definition app_sized :: "('pk, 'd, 'a) application_layer \<Rightarrow> bool" where
  "app_sized A \<longleftrightarrow> (\<forall>pk d a rss a'. app_restore_by_identity A pk d a = (Inr (Some rss), a') \<longrightarrow>
     ratchet_wf (rss_state1 rss) \<and> pred_option ratchet_wf (rss_state2 rss))"

text \<open>An application over a table of ratchet states and a clock, as the tests of the repository use.\<close>

record sample_app_state =
  sa_clock :: i64
  sa_table :: "u8 \<Rightarrow> ratchet_states"

definition sample_app :: "(u8, unit, sample_app_state) application_layer" where
  "sample_app =
     \<lparr>app_time = (\<lambda>a. (sa_clock a, a)),
      app_hello_requires_recognized_ratchet = (\<lambda>a. (False, a)),
      app_initiator_disallows_downgrade = (\<lambda>s a. (False, a)),
      app_check_accept_session = (\<lambda>pk ident a.
         (\<lparr>aa_session_data = Some (), aa_responder_disallows_downgrade = False,
           aa_responder_silently_rejects = False\<rparr>, a)),
      app_restore_by_fingerprint = (\<lambda>rf a. (Inr None, a)),
      app_restore_by_identity = (\<lambda>pk d a.
         (Inr (if ratchet_wf (rss_state1 (sa_table a pk)) \<and> pred_option ratchet_wf (rss_state2 (sa_table a pk))
               then Some (sa_table a pk) else None), a)),
      app_save_ratchet_state = (\<lambda>pk d u a.
         if compare_states u (sa_table a pk)
         then (Inr True, a\<lparr>sa_table := (sa_table a)(pk := to_new_states u)\<rparr>)
         else (Inr False, a))\<rparr>"

definition sample_app_init :: sample_app_state where
  "sample_app_init = \<lparr>sa_clock = 1000, sa_table = (\<lambda>_. new_initial_states)\<rparr>"

lemma sample_app_sized: "app_sized sample_app"
  by (auto simp: app_sized_def sample_app_def split: if_splits)

lemma sample_app_atomic: "storage_atomic sample_app sa_table"
  by (auto simp: storage_atomic_def sample_app_def split: if_splits)

end
