(* ===== verification/Sample_Crypto.thy ===== *)
theory Sample_Crypto
  imports Crypto_Layer
begin

text \<open>
  One concrete crypto layer that keeps everything the traits promise. The properties of the
  development hold for every layer that does; this instance is the input at which their
  witnesses apply them. Its keys are single bytes and its generator is a counter.
\<close>

definition sample_crypto :: "(u8, u8, nat, unit) crypto_layer" where
  "sample_crypto =
     \<lparr>prp_encrypt_in_place = (\<lambda>k b. map (\<lambda>x. x + 1) b),
      prp_decrypt_in_place = (\<lambda>k b. map (\<lambda>x. x - 1) b),
      aead_encrypt_in_place = (\<lambda>k n a b. (map (\<lambda>x. x + 3) b, replicate 16 7)),
      aead_decrypt_in_place = (\<lambda>k n a b t. (t = replicate 16 7, map (\<lambda>x. x - 3) b)),
      sha512 = (\<lambda>x. replicate 64 0),
      hmac = (\<lambda>k x. replicate 64 (hd x)),
      pk_from_bytes = (\<lambda>b. if b = [] then None else Some (hd b)),
      pk_to_bytes = (\<lambda>p. replicate 49 p),
      kp_generate = (\<lambda>r. (word_of_nat r, r + 1)),
      kp_public_key_bytes = (\<lambda>s. replicate 49 s),
      kp_agree = (\<lambda>s p. replicate 48 (s * p)),
      kem_generate = (\<lambda>r. (((), replicate 1568 9), r + 1)),
      kem_encapsulate = (\<lambda>r e. (Some (replicate 1568 8, replicate 32 6), r + 1)),
      kem_decapsulate = (\<lambda>d ct. Some (replicate 32 6)),
      next_u32 = (\<lambda>r. (word_of_nat r, r + 1)),
      next_u64 = (\<lambda>r. (word_of_nat r, r + 1)),
      fill_bytes = (\<lambda>n r. (replicate n (word_of_nat r), r + 1)),
      SETTINGS = new_ms\<rparr>"

lemma sample_crypto_sized: "crypto_sized sample_crypto"
  by (simp add: crypto_sized_def sample_crypto_def zssp_sizes)

lemma sample_crypto_correct: "crypto_correct sample_crypto id"
  by (auto simp: crypto_correct_def sample_crypto_def zssp_sizes comp_def mult.commute)

end
