(* ===== verification/Fragmentation.thy ===== *)
theory Fragmentation
  imports Sample_Crypto Zssp_Result "HOL-Library.Multiset"
begin

text \<open>
  The fragmentation layer (\<open>reference/src/fragmentation.rs\<close>): splitting a packet into
  fragments of at most an MTU, with an optionally encrypted header, and the defragmentation
  buffer. The user's \<open>send\<close> callback is given by its answers: \<open>send k\<close> is what it returns
  for the fragment number \<open>k\<close>. The callers pass an MTU of at least \<open>MIN_TRANSPORT_MTU\<close>.

  The main results: a successful send cuts the packet into at most \<open>MAX_FRAGMENTS\<close> pieces
  that fit the MTU, and a buffer that is given the pieces in any order reports nothing
  until the last one and then the packet.
\<close>

section \<open>Sending\<close>

definition create_fragment_header :: "u32 \<Rightarrow> nat \<Rightarrow> nat \<Rightarrow> bytes \<Rightarrow> bytes" where
  "create_fragment_header kid_send fragment_count fragment_no n =
     (let header = replicate HEADER_SIZE 0;
          header = write_at 0 (u32_to_be_bytes kid_send) header;
          header = header[FRAGMENT_NO_IDX := word_of_nat fragment_no];
          header = header[FRAGMENT_COUNT_IDX := word_of_nat fragment_count]
      in write_at PACKET_NONCE_START n header)"

text \<open>Encrypting the authenticated part of the header; the slice needs 20 bytes.\<close>

definition encrypt_header ::
  "('pk, 'kp, 'r, 'kem) crypto_layer \<Rightarrow> bytes option \<Rightarrow> bytes \<Rightarrow> bytes option" where
  "encrypt_header C hk_send fragment =
     (case hk_send of
        None \<Rightarrow> Some fragment
      | Some hk \<Rightarrow>
          if length fragment < HEADER_AUTH_END then None
          else Some (write_at HEADER_AUTH_START
                 (prp_encrypt_in_place C hk (subslice HEADER_AUTH_START HEADER_AUTH_END fragment)) fragment))"

text \<open>The loop over the fragment numbers; \<open>i\<close> is the start of the next piece.\<close>

primrec send_fragments ::
  "('pk, 'kp, 'r, 'kem) crypto_layer \<Rightarrow> (nat \<Rightarrow> bool) \<Rightarrow> u32 \<Rightarrow> bytes \<Rightarrow> bytes \<Rightarrow> bytes option
     \<Rightarrow> nat \<Rightarrow> nat \<Rightarrow> nat \<Rightarrow> nat list \<Rightarrow> nat \<Rightarrow> (bool, unit) outcome \<times> bytes list" where
  "send_fragments C send ident packet_nonce packet hk_send cnt base remainder [] i = (Ok (), [])"
| "send_fragments C send ident packet_nonce packet hk_send cnt base remainder (fragment_no # nos) i =
     (let j = i + base + (if fragment_no < remainder then 1 else 0);
          header = create_fragment_header ident cnt fragment_no packet_nonce;
          fragment = header @ subslice i j packet
      in case encrypt_header C hk_send fragment of
           None \<Rightarrow> (Panic, [])
         | Some fragment \<Rightarrow>
             if \<not> send fragment_no then (Err False, [fragment])
             else (case send_fragments C send ident packet_nonce packet hk_send cnt base remainder nos j of
                     (r, fs) \<Rightarrow> (r, fragment # fs)))"

text \<open>
  The second component lists the fragments handed to \<open>send\<close>. Every caller raises the MTU to at
  least \<open>MIN_TRANSPORT_MTU\<close>, so \<open>mtu - HEADER_SIZE\<close> does not wrap around in the source; below
  \<open>HEADER_SIZE\<close>, which no caller passes, the subtraction here is cut off at zero.
\<close>

definition send_with_fragmentation ::
  "('pk, 'kp, 'r, 'kem) crypto_layer \<Rightarrow> (nat \<Rightarrow> bool) \<Rightarrow> nat \<Rightarrow> u32 \<Rightarrow> bytes \<Rightarrow> bytes \<Rightarrow> bytes option
     \<Rightarrow> (bool, unit) outcome \<times> bytes list" where
  "send_with_fragmentation C send mtu ident packet_nonce packet hk_send =
     (let payload_mtu = mtu - HEADER_SIZE in
      if payload_mtu = 0 then (Panic, [])
      else (let fragment_count = (length packet + (payload_mtu - 1)) div payload_mtu in
        if fragment_count = 0 then (Panic, [])
        else (let fragment_base_size = length packet div fragment_count;
                  fragment_size_remainder = length packet mod fragment_count
              in if MAX_FRAGMENTS < fragment_count then (Err True, [])
                 else send_fragments C send ident packet_nonce packet hk_send
                        fragment_count fragment_base_size fragment_size_remainder [0..<fragment_count] 0)))"

section \<open>Receiving\<close>

record buffer =
  buf_fragments :: "bytes option list"
  buf_fragment_max_size :: nat
  buf_total :: nat
  buf_expiration_time :: i64

record defrag_buffer =
  db_fragment_map :: "bytes \<rightharpoonup> buffer"
  db_hk_recv :: "bytes option"

definition DefragBuffer_new :: "bytes option \<Rightarrow> defrag_buffer" where
  "DefragBuffer_new hk_recv = \<lparr>db_fragment_map = Map.empty, db_hk_recv = hk_recv\<rparr>"

definition decrypt_header ::
  "('pk, 'kp, 'r, 'kem) crypto_layer \<Rightarrow> bytes option \<Rightarrow> bytes \<Rightarrow> bytes" where
  "decrypt_header C hk_recv raw_fragment =
     (case hk_recv of
        None \<Rightarrow> raw_fragment
      | Some hk \<Rightarrow> write_at HEADER_AUTH_START
          (prp_decrypt_in_place C hk (subslice HEADER_AUTH_START HEADER_AUTH_END raw_fragment)) raw_fragment)"

text \<open>The packet assembled from a full buffer; the \<open>unwrap\<close> fails on a missing piece.\<close>

definition assemble_packet :: "bytes option list \<Rightarrow> bytes option" where
  "assemble_packet fragments =
     (if None \<in> set fragments then None
      else Some (concat (map (\<lambda>f. drop HEADER_SIZE (the f)) fragments)))"

text \<open>
  The \<open>match map.entry(n)\<close>. The checks of the occupied case short-circuit in the order of
  the source, so \<open>fragments[fragment_no]\<close> is read in range.
\<close>

definition store_fragment ::
  "defrag_buffer \<Rightarrow> bytes \<Rightarrow> bytes \<Rightarrow> nat \<Rightarrow> nat \<Rightarrow> i64
     \<Rightarrow> (receive_error, (bytes \<times> bytes) option) outcome \<times> defrag_buffer" where
  "store_fragment self n raw_fragment fragment_no fragment_count expiration_time =
     (case db_fragment_map self n of
        Some buffer \<Rightarrow>
          if fragment_count \<noteq> length (buf_fragments buffer)
             \<or> buf_fragments buffer ! fragment_no \<noteq> None
             \<or> buf_fragment_max_size buffer < length raw_fragment
          then (Err (fault InvalidPacket False), self)
          else
            let buffer = buffer
                  \<lparr>buf_fragments := (buf_fragments buffer)[fragment_no := Some raw_fragment],
                   buf_total := buf_total buffer + 1,
                   buf_expiration_time := expiration_time\<rparr>;
                self = self\<lparr>db_fragment_map := (db_fragment_map self)(n \<mapsto> buffer)\<rparr>
            in if buf_total buffer < length (buf_fragments buffer) then (Ok None, self)
               else (case assemble_packet (buf_fragments buffer) of
                       None \<Rightarrow> (Panic, self)
                     | Some packet \<Rightarrow> (Ok (Some (n, packet)), self))
      | None \<Rightarrow>
          let fragment_max_size = length raw_fragment + 1
          in if fragment_count = 1 then (Ok (Some (n, drop HEADER_SIZE raw_fragment)), self)
             else
               let fragments = (replicate fragment_count None)[fragment_no := Some raw_fragment];
                   buffer = \<lparr>buf_fragments = fragments,
                     buf_fragment_max_size = fragment_max_size, buf_total = 1,
                     buf_expiration_time = expiration_time\<rparr>
               in (Ok None, self\<lparr>db_fragment_map := (db_fragment_map self)(n \<mapsto> buffer)\<rparr>))"

text \<open>
  \<open>vrfy\<close> is the caller's check of the packet nonce, the fragment number and the count;
  \<open>Some e\<close> is its error.
\<close>

definition received_fragment ::
  "('pk, 'kp, 'r, 'kem) crypto_layer \<Rightarrow> defrag_buffer \<Rightarrow> bytes \<Rightarrow> i64
     \<Rightarrow> (bytes \<Rightarrow> nat \<Rightarrow> nat \<Rightarrow> receive_error option)
     \<Rightarrow> (receive_error, (bytes \<times> bytes) option) outcome \<times> defrag_buffer" where
  "received_fragment C self raw_fragment current_time vrfy =
     (if length raw_fragment < MIN_PACKET_SIZE then (Err (fault InvalidPacket True), self)
      else
        let raw_fragment = decrypt_header C (db_hk_recv self) raw_fragment;
            fragment_no = unat (raw_fragment ! FRAGMENT_NO_IDX);
            fragment_count = unat (raw_fragment ! FRAGMENT_COUNT_IDX)
        in if fragment_count \<le> fragment_no \<or> MAX_FRAGMENTS < fragment_count
           then (Err (fault InvalidPacket True), self)
           else
             let n = subslice PACKET_NONCE_START HEADER_SIZE raw_fragment
             in case vrfy n fragment_no fragment_count of
                  Some e \<Rightarrow> (Err e, self)
                | None \<Rightarrow> store_fragment self n raw_fragment fragment_no fragment_count
                    (i64_add current_time (as_i64 (fragment_assembly_timeout (SETTINGS C)))))"

text \<open>The periodic service, with the comparison as the source has it.\<close>

definition DefragBuffer_service :: "defrag_buffer \<Rightarrow> i64 \<Rightarrow> defrag_buffer" where
  "DefragBuffer_service self current_time =
     self\<lparr>db_fragment_map := (\<lambda>n. case db_fragment_map self n of
            Some buffer \<Rightarrow> if buf_expiration_time buffer < current_time then Some buffer else None
          | None \<Rightarrow> None)\<rparr>"

text \<open>A sequence of arrivals, each with its time.\<close>

primrec received_fragments ::
  "('pk, 'kp, 'r, 'kem) crypto_layer \<Rightarrow> defrag_buffer \<Rightarrow> (i64 \<times> bytes) list
     \<Rightarrow> (bytes \<Rightarrow> nat \<Rightarrow> nat \<Rightarrow> receive_error option)
     \<Rightarrow> (receive_error, (bytes \<times> bytes) option) outcome list" where
  "received_fragments C self [] vrfy = []"
| "received_fragments C self (tf # tfs) vrfy =
     (case received_fragment C self (snd tf) (fst tf) vrfy of
        (r, self') \<Rightarrow> r # received_fragments C self' tfs vrfy)"

text \<open>The buffer after a sequence of arrivals.\<close>

primrec buffer_after ::
  "('pk, 'kp, 'r, 'kem) crypto_layer \<Rightarrow> defrag_buffer \<Rightarrow> (i64 \<times> bytes) list
     \<Rightarrow> (bytes \<Rightarrow> nat \<Rightarrow> nat \<Rightarrow> receive_error option) \<Rightarrow> defrag_buffer" where
  "buffer_after C self [] vrfy = self"
| "buffer_after C self (tf # tfs) vrfy = buffer_after C (snd (received_fragment C self (snd tf) (fst tf) vrfy)) tfs vrfy"

section \<open>Reference description of the pieces\<close>

definition fragment_start :: "nat \<Rightarrow> nat \<Rightarrow> nat \<Rightarrow> nat" where
  "fragment_start base remainder k = k * base + min k remainder"

definition fragment_payload :: "bytes \<Rightarrow> nat \<Rightarrow> nat \<Rightarrow> bytes" where
  "fragment_payload packet cnt k =
     (let base = length packet div cnt; remainder = length packet mod cnt
      in subslice (fragment_start base remainder k) (fragment_start base remainder (Suc k)) packet)"

definition fragment_plain :: "u32 \<Rightarrow> bytes \<Rightarrow> bytes \<Rightarrow> nat \<Rightarrow> nat \<Rightarrow> bytes" where
  "fragment_plain ident packet_nonce packet cnt k =
     create_fragment_header ident cnt k packet_nonce @ fragment_payload packet cnt k"

definition fragment_count_of :: "nat \<Rightarrow> nat \<Rightarrow> nat" where
  "fragment_count_of mtu len = (len + (mtu - HEADER_SIZE - 1)) div (mtu - HEADER_SIZE)"

text \<open>The buffer holds exactly the pieces \<open>S\<close> of the packet with nonce \<open>n\<close>.\<close>

definition assembling :: "defrag_buffer \<Rightarrow> bytes \<Rightarrow> (nat \<Rightarrow> bytes) \<Rightarrow> nat \<Rightarrow> nat set \<Rightarrow> bool" where
  "assembling self n plain cnt S \<longleftrightarrow>
     (if S = {} then db_fragment_map self n = None
      else (\<exists>b. db_fragment_map self n = Some b \<and>
              buf_fragments b = map (\<lambda>k. if k \<in> S then Some (plain k) else None) [0..<cnt] \<and>
              buf_total b = card S \<and> (\<forall>k<cnt. length (plain k) \<le> buf_fragment_max_size b)))"

text \<open>
  Well-formedness of a buffer: every entry is for 2 to \<open>MAX_FRAGMENTS\<close> fragments, counts
  the pieces it holds, and holds pieces with a full header only.
\<close>

definition buffer_wf :: "buffer \<Rightarrow> bool" where
  "buffer_wf b \<longleftrightarrow> 2 \<le> length (buf_fragments b) \<and> length (buf_fragments b) \<le> MAX_FRAGMENTS \<and>
     buf_total b = length (filter (\<lambda>f. f \<noteq> None) (buf_fragments b)) \<and>
     (\<forall>f. Some f \<in> set (buf_fragments b) \<longrightarrow> MIN_PACKET_SIZE \<le> length f)"

definition defrag_wf :: "defrag_buffer \<Rightarrow> bool" where
  "defrag_wf d \<longleftrightarrow> (\<forall>n b. db_fragment_map d n = Some b \<longrightarrow> buffer_wf b)"

section \<open>Facts about the header\<close>

lemma length_fragment_header [simp]:
  "length n = 10 \<Longrightarrow> length (create_fragment_header kid cnt no n) = 16"
  by (simp add: create_fragment_header_def Let_def zssp_sizes)

lemma fragment_header_fields:
  assumes "length n = 10"
  shows "(create_fragment_header kid cnt no n @ rest) ! 4 = word_of_nat no"
    and "(create_fragment_header kid cnt no n @ rest) ! 5 = word_of_nat cnt"
    and "subslice 6 16 (create_fragment_header kid cnt no n @ rest) = n"
    and "take 4 (create_fragment_header kid cnt no n @ rest) = u32_to_be_bytes kid"
  using assms
  by (simp_all add: create_fragment_header_def Let_def zssp_sizes write_at_def subslice_def
      nth_append numeral_eq_Suc)

section \<open>Facts about the pieces\<close>

lemma fragment_start_mono: "fragment_start b r k \<le> fragment_start b r (Suc k)"
  by (simp add: fragment_start_def)

lemma fragment_start_Suc:
  "fragment_start b r (Suc k) = fragment_start b r k + b + (if k < r then 1 else 0)"
  by (simp add: fragment_start_def)

lemma fragment_start_total: "0 < cnt \<Longrightarrow> fragment_start (l div cnt) (l mod cnt) cnt = l"
proof -
  assume "0 < cnt"
  then have "min cnt (l mod cnt) = l mod cnt" by (intro min_absorb2) (simp add: less_imp_le)
  then show ?thesis by (simp add: fragment_start_def)
qed

lemma fragment_start_le: "k \<le> k' \<Longrightarrow> fragment_start b r k \<le> fragment_start b r k'"
  unfolding fragment_start_def by (rule add_mono) auto

lemma length_fragment_payload:
  assumes "0 < cnt" "k < cnt"
  shows "length (fragment_payload packet cnt k) =
     length packet div cnt + (if k < length packet mod cnt then 1 else 0)"
proof -
  let ?b = "length packet div cnt" and ?r = "length packet mod cnt"
  have "fragment_start ?b ?r (Suc k) \<le> fragment_start ?b ?r cnt"
    using assms(2) by (intro fragment_start_le) simp
  also have "\<dots> = length packet" by (rule fragment_start_total [OF assms(1)])
  finally show ?thesis
    using fragment_start_Suc [of ?b ?r k] by (simp add: fragment_payload_def Let_def)
qed

lemma concat_fragment_payloads_take:
  assumes "0 < cnt" "m \<le> cnt"
  shows "concat (map (fragment_payload packet cnt) [0..<m]) =
     take (fragment_start (length packet div cnt) (length packet mod cnt) m) packet"
  using assms(2)
proof (induction m)
  case 0
  then show ?case by (simp add: fragment_start_def)
next
  case (Suc m)
  let ?s = "fragment_start (length packet div cnt) (length packet mod cnt)"
  have "take (?s m) packet @ fragment_payload packet cnt m = take (?s (Suc m)) packet"
    using fragment_start_mono [of "length packet div cnt" "length packet mod cnt" m]
    by (simp add: fragment_payload_def Let_def subslice_def flip: take_add)
  with Suc show ?case by simp
qed

lemma concat_fragment_payloads:
  "0 < cnt \<Longrightarrow> concat (map (fragment_payload packet cnt) [0..<cnt]) = packet"
  using concat_fragment_payloads_take [of cnt cnt packet] by (simp add: fragment_start_total)

text \<open>The loop hands out the described pieces, in order.\<close>

lemma send_fragments_pieces:
  assumes send: "\<And>k. send k" and cnt: "0 < cnt"
    and enc: "\<And>k. m \<le> k \<Longrightarrow> k < cnt \<Longrightarrow>
      encrypt_header C hk (fragment_plain ident n packet cnt k) = Some (frag k)"
    and m: "m \<le> cnt"
  shows "send_fragments C send ident n packet hk cnt (length packet div cnt) (length packet mod cnt)
      [m..<cnt] (fragment_start (length packet div cnt) (length packet mod cnt) m)
    = (Ok (), map frag [m..<cnt])"
  using m enc
proof (induction "cnt - m" arbitrary: m)
  case 0
  then show ?case by simp
next
  case (Suc d)
  let ?b = "length packet div cnt" and ?r = "length packet mod cnt"
  from Suc.hyps(2) have m: "m < cnt" by simp
  then have upt: "[m..<cnt] = m # [Suc m..<cnt]" by (simp add: upt_conv_Cons)
  have plain: "create_fragment_header ident cnt m n @
      subslice (fragment_start ?b ?r m) (fragment_start ?b ?r (Suc m)) packet
      = fragment_plain ident n packet cnt m"
    by (simp add: fragment_plain_def fragment_payload_def Let_def)
  have "send_fragments C send ident n packet hk cnt ?b ?r [Suc m..<cnt] (fragment_start ?b ?r (Suc m))
      = (Ok (), map frag [Suc m..<cnt])"
    using Suc m by auto
  then show ?case
    using Suc.prems(2) [of m] m send
    by (simp add: upt Let_def plain flip: fragment_start_Suc)
qed

text \<open>With any answers of \<open>send\<close>: a prefix of the pieces.\<close>

lemma send_fragments_prefix:
  assumes cnt: "0 < cnt"
    and enc: "\<And>k. k < cnt \<Longrightarrow>
      encrypt_header C hk (fragment_plain ident n packet cnt k) = Some (frag k)"
    and m: "m \<le> cnt"
  shows "\<exists>k r. k \<le> cnt \<and> (r = Ok () \<or> r = Err False) \<and>
    send_fragments C send ident n packet hk cnt (length packet div cnt) (length packet mod cnt)
      [m..<cnt] (fragment_start (length packet div cnt) (length packet mod cnt) m)
    = (r, map frag [m..<k])"
  using m
proof (induction "cnt - m" arbitrary: m)
  case 0
  then show ?case by auto
next
  case (Suc d)
  let ?b = "length packet div cnt" and ?r = "length packet mod cnt"
  from Suc.hyps(2) have m: "m < cnt" by simp
  then have upt: "[m..<cnt] = m # [Suc m..<cnt]" by (simp add: upt_conv_Cons)
  have plain: "create_fragment_header ident cnt m n @
      subslice (fragment_start ?b ?r m) (fragment_start ?b ?r (Suc m)) packet
      = fragment_plain ident n packet cnt m"
    by (simp add: fragment_plain_def fragment_payload_def Let_def)
  have "d = cnt - Suc m" "Suc m \<le> cnt" using Suc.hyps(2) by simp_all
  from Suc.hyps(1) [OF this] obtain k r where kr: "k \<le> cnt" "r = Ok () \<or> r = Err False"
    "send_fragments C send ident n packet hk cnt ?b ?r [Suc m..<cnt] (fragment_start ?b ?r (Suc m))
      = (r, map frag [Suc m..<k])"
    by blast
  show ?case
  proof (cases "send m")
    case True
    have "m # [Suc m..<k] = [m..<k] \<or> m # [Suc m..<k] = [m..<Suc m]" by (cases "m < k") (auto simp: upt_conv_Cons)
    then have "\<exists>k' \<le> cnt. frag m # map frag [Suc m..<k] = map frag [m..<k']"
      using kr(1) m by (metis Suc_leI list.simps(9))
    then show ?thesis
      using True kr enc [OF m] by (simp add: upt Let_def plain flip: fragment_start_Suc)
  next
    case False
    then show ?thesis
      using enc [OF m] m by (intro exI [of _ "Suc m"]) (simp add: upt Let_def plain flip: fragment_start_Suc)
  qed
qed

text \<open>How many pieces, and how large they are.\<close>

lemma fragment_count_pos: "HEADER_SIZE < mtu \<Longrightarrow> 0 < len \<Longrightarrow> 0 < fragment_count_of mtu len"
  by (simp add: fragment_count_of_def div_greater_zero_iff)

lemma fragment_count_covers:
  assumes "HEADER_SIZE < mtu"
  shows "len \<le> fragment_count_of mtu len * (mtu - HEADER_SIZE)"
proof -
  let ?p = "mtu - HEADER_SIZE"
  have p: "0 < ?p" using assms by simp
  have "(len + (?p - 1)) div ?p * ?p + (len + (?p - 1)) mod ?p = len + (?p - 1)"
    by (rule div_mult_mod_eq)
  moreover have "(len + (?p - 1)) mod ?p < ?p" using p by simp
  ultimately show ?thesis unfolding fragment_count_of_def by linarith
qed

lemma fragment_count_minimal:
  assumes "HEADER_SIZE < mtu" "0 < len"
  shows "(fragment_count_of mtu len - 1) * (mtu - HEADER_SIZE) < len"
proof -
  let ?p = "mtu - HEADER_SIZE" and ?c = "fragment_count_of mtu len"
  have p: "0 < ?p" using assms by simp
  have "?c * ?p \<le> len + (?p - 1)" unfolding fragment_count_of_def by (rule div_times_less_eq_dividend)
  moreover have "?c * ?p = (?c - 1) * ?p + ?p"
    using fragment_count_pos [OF assms] by (cases ?c) simp_all
  ultimately show ?thesis using p by linarith
qed

lemma piece_fits:
  assumes "HEADER_SIZE < mtu" "0 < len" "cnt = fragment_count_of mtu len"
  shows "len div cnt + (if k < len mod cnt then 1 else 0) \<le> mtu - HEADER_SIZE"
proof -
  let ?p = "mtu - HEADER_SIZE"
  have cnt: "0 < cnt" using fragment_count_pos assms by simp
  have cov: "len \<le> cnt * ?p" using fragment_count_covers [OF assms(1)] assms(3) by simp
  have le: "len div cnt \<le> ?p" using div_le_mono [OF cov, of cnt] cnt by simp
  show ?thesis
  proof (cases "len div cnt = ?p")
    case True
    then have "len = cnt * ?p + len mod cnt" by (metis mult.commute div_mult_mod_eq)
    with cov have "len mod cnt = 0" by simp
    with True show ?thesis by simp
  next
    case False
    with le show ?thesis by simp
  qed
qed

section \<open>Facts about receiving\<close>

lemma decrypt_encrypt_header:
  assumes "crypto_correct C pub_of" "crypto_sized C" "20 \<le> length f"
    and "encrypt_header C hk f = Some g"
  shows "decrypt_header C hk g = f" "length g = length f"
proof -
  have "decrypt_header C hk g = f \<and> length g = length f"
  proof (cases hk)
    case None
    with assms(4) show ?thesis by (simp add: encrypt_header_def decrypt_header_def)
  next
    case (Some key)
    let ?b = "subslice 4 20 f"
    let ?e = "prp_encrypt_in_place C key ?b"
    have b: "length ?b = 16" using assms(3) by simp
    have e: "length ?e = 16" by (rule crypto_sizedD(1) [OF assms(2) b])
    have g: "g = write_at 4 ?e f" using assms(3,4) Some by (simp add: encrypt_header_def zssp_sizes)
    have "subslice 4 20 g = ?e" using subslice_write_at [of 4 ?e f] assms(3) e by (simp add: g)
    then have "decrypt_header C hk g = write_at 4 ?b (write_at 4 ?e f)"
      using crypto_correctD(1) [OF assms(1) b] Some by (simp add: decrypt_header_def zssp_sizes g)
    also have "\<dots> = f"
      using write_at_write_at [of ?e ?b 4 f] write_at_subslice [of 4 20 f] assms(3) b e by simp
    finally show ?thesis using e assms(3) by (simp add: g)
  qed
  then show "decrypt_header C hk g = f" "length g = length f" by simp_all
qed

text \<open>What \<open>received_fragment\<close> does with a piece that decrypts to a described one.\<close>

lemma received_fragment_piece:
  assumes "decrypt_header C (db_hk_recv self) raw = fragment_plain ident n packet cnt k"
    and "32 \<le> length raw" "k < cnt" "cnt \<le> 48" "length n = 10" "vrfy n k cnt = None"
  shows "received_fragment C self raw t vrfy =
     store_fragment self n (fragment_plain ident n packet cnt k) k cnt
       (i64_add t (as_i64 (fragment_assembly_timeout (SETTINGS C))))"
  using assms
  by (simp add: received_fragment_def Let_def zssp_sizes fragment_plain_def fragment_header_fields
      unat_of_nat)

lemma insert_piece:
  "k < cnt \<Longrightarrow>
   (map (\<lambda>i. if i \<in> S then Some (plain i) else None) [0..<cnt])[k := Some (plain k)] =
   map (\<lambda>i. if i \<in> insert k S then Some (plain i) else None) [0..<cnt]"
  by (rule nth_equalityI) (auto simp: nth_list_update)

lemma assemble_all_pieces:
  assumes "\<And>k. k < cnt \<Longrightarrow> drop 16 (plain k) = payload k" "{..<cnt} \<subseteq> S"
  shows "assemble_packet (map (\<lambda>k. if k \<in> S then Some (plain k) else None) [0..<cnt])
       = Some (concat (map payload [0..<cnt]))"
proof -
  have "map (\<lambda>k. if k \<in> S then Some (plain k) else None) [0..<cnt] = map (\<lambda>k. Some (plain k)) [0..<cnt]"
    using assms(2) by auto
  then show ?thesis
    using assms(1) by (auto simp: assemble_packet_def zssp_sizes comp_def intro!: arg_cong [where f = concat])
qed

lemma assembling_step:
  assumes dec: "decrypt_header C (db_hk_recv self) raw = fragment_plain ident n packet cnt k"
    and raw: "32 \<le> length raw" and cnt: "2 \<le> cnt" "cnt \<le> 48" and n: "length n = 10"
    and v: "vrfy n k cnt = None"
    and inv: "assembling self n (fragment_plain ident n packet cnt) cnt S"
    and S: "S \<subseteq> {..<cnt}" and k: "k < cnt" "k \<notin> S"
  obtains r self' where "received_fragment C self raw t vrfy = (r, self')"
    "db_hk_recv self' = db_hk_recv self"
    "assembling self' n (fragment_plain ident n packet cnt) cnt (insert k S)"
    "r = (if card S + 1 < cnt then Ok None else Ok (Some (n, packet)))"
proof (cases "S = {}")
  case True
  let ?plain = "fragment_plain ident n packet cnt"
  have len: "length (?plain i) \<le> length (?plain k) + 1" if "i < cnt" for i
    using that k cnt n by (simp add: fragment_plain_def length_fragment_payload)
  have first: "(replicate cnt None)[k := Some (?plain k)] =
      map (\<lambda>i. if i = k then Some (?plain i) else None) [0..<cnt]"
    using k by (intro nth_equalityI) (auto simp: nth_list_update)
  have "db_fragment_map self n = None" using inv True by (simp add: assembling_def)
  then show thesis
    using that received_fragment_piece [where vrfy = vrfy, OF dec raw k(1) cnt(2) n v] cnt True len k
    by (simp add: store_fragment_def Let_def assembling_def first)
next
  case False
  let ?plain = "fragment_plain ident n packet cnt"
  obtain b where b: "db_fragment_map self n = Some b"
      "buf_fragments b = map (\<lambda>k. if k \<in> S then Some (?plain k) else None) [0..<cnt]"
      "buf_total b = card S" "\<forall>k<cnt. length (?plain k) \<le> buf_fragment_max_size b"
    using inv False by (auto simp: assembling_def)
  have fin: "finite S" using S finite_subset by blast
  have all: "{..<cnt} \<subseteq> insert k S" if "\<not> card S + 1 < cnt"
  proof -
    have "card (insert k S) = card S + 1" using k fin by simp
    with that have "insert k S = {..<cnt}" using S k card_seteq [of "{..<cnt}" "insert k S"] by auto
    then show ?thesis by simp
  qed
  have pl: "drop 16 (?plain i) = fragment_payload packet cnt i" for i
    using n by (simp add: fragment_plain_def)
  have asm: "assemble_packet (map (\<lambda>i. if i \<in> insert k S then Some (?plain i) else None) [0..<cnt]) = Some packet"
    if "\<not> card S + 1 < cnt"
    using assemble_all_pieces [of cnt ?plain "fragment_payload packet cnt", OF pl all [OF that]]
      concat_fragment_payloads [of cnt packet] cnt by simp
  note piece = received_fragment_piece [where vrfy = vrfy, OF dec raw k(1) cnt(2) n v]
  have fit: "\<not> buf_fragment_max_size b < length (?plain k)" using b(4) k by (simp add: not_less)
  show thesis
  proof (cases "card S + 1 < cnt")
    case True
    with that piece b k fin fit show thesis
      by (simp add: store_fragment_def Let_def assembling_def insert_piece)
  next
    case False
    with that piece b k fin fit asm [OF False] show thesis
      by (simp add: store_fragment_def Let_def assembling_def insert_piece)
  qed
qed


text \<open>The remaining pieces in any order.\<close>

lemma assembling_run:
  assumes dec: "\<And>k. k < cnt \<Longrightarrow> decrypt_header C hk (frag k) = fragment_plain ident n packet cnt k"
    and raw: "\<And>k. k < cnt \<Longrightarrow> 32 \<le> length (frag k)" and cnt: "2 \<le> cnt" "cnt \<le> 48"
    and n: "length n = 10" and v: "\<And>k. k < cnt \<Longrightarrow> vrfy n k cnt = None"
    and inv: "assembling self n (fragment_plain ident n packet cnt) cnt S"
    and key: "db_hk_recv self = hk"
    and S: "S \<subseteq> {..<cnt}" and ks: "distinct (map snd tks)" "snd ` set tks = {..<cnt} - S" "tks \<noteq> []"
  shows "received_fragments C self (map (\<lambda>(t, k). (t, frag k)) tks) vrfy =
     replicate (length tks - 1) (Ok None) @ [Ok (Some (n, packet))]"
  using inv key S ks
proof (induction tks arbitrary: self S)
  case Nil
  then show ?case by simp
next
  case (Cons tk tks)
  obtain t k where tk: "tk = (t, k)" by fastforce
  have k: "k < cnt" "k \<notin> S" using Cons.prems(5) tk by auto
  obtain r self' where st: "received_fragment C self (frag k) t vrfy = (r, self')"
      "db_hk_recv self' = hk"
      "assembling self' n (fragment_plain ident n packet cnt) cnt (insert k S)"
      "r = (if card S + 1 < cnt then Ok None else Ok (Some (n, packet)))"
    using assembling_step [where vrfy = vrfy, OF _ raw [OF k(1)] cnt n v [OF k(1)] Cons.prems(1,3) k] dec [OF k(1)]
      Cons.prems(2) by metis
  have rest: "snd ` set tks = {..<cnt} - insert k S" "distinct (map snd tks)"
    using Cons.prems(4,5) tk by auto
  have "finite S" using Cons.prems(3) finite_subset by blast
  then have card: "card S + length tks + 1 = cnt"
    using Cons.prems(3,4,5) k card_Diff_subset [of S "{..<cnt}"] card_mono [of "{..<cnt}" S]
      distinct_card [OF Cons.prems(4)] by simp
  show ?case
  proof (cases "tks = []")
    case True
    with card tk st show ?thesis by simp
  next
    case False
    then have "received_fragments C self' (map (\<lambda>(t, k). (t, frag k)) tks) vrfy =
        replicate (length tks - 1) (Ok None) @ [Ok (Some (n, packet))]"
      using Cons.IH [OF st(3,2)] Cons.prems(3) k rest by simp
    moreover have "r = Ok None" using st(4) card False by (cases tks) auto
    moreover have "length tks = Suc (length tks - 1)" using False by (cases tks) auto
    ultimately show ?thesis using st tk by (simp del: replicate.simps flip: replicate_Suc append_Cons)
  qed
qed

lemma store_fragment_expiry:
  assumes "store_fragment d n raw k cnt e = (Ok x, d')" "cnt \<noteq> 1"
  shows "\<exists>b. db_fragment_map d' n = Some b \<and> buf_expiration_time b = e"
  using assms by (auto simp: store_fragment_def Let_def split: option.splits if_splits)

text \<open>Some of the remaining pieces, in any order.\<close>

lemma assembling_partial:
  assumes dec: "\<And>k. k < cnt \<Longrightarrow> decrypt_header C hk (frag k) = fragment_plain ident n packet cnt k"
    and raw: "\<And>k. k < cnt \<Longrightarrow> 32 \<le> length (frag k)" and cnt: "2 \<le> cnt" "cnt \<le> 48"
    and n: "length n = 10" and v: "\<And>k. k < cnt \<Longrightarrow> vrfy n k cnt = None"
    and inv: "assembling self n (fragment_plain ident n packet cnt) cnt S"
    and key: "db_hk_recv self = hk"
    and S: "S \<union> snd ` set tks \<subset> {..<cnt}" and ks: "distinct (map snd tks)" "S \<inter> snd ` set tks = {}"
  shows "received_fragments C self (map (\<lambda>(t, k). (t, frag k)) tks) vrfy = replicate (length tks) (Ok None)"
    and "assembling (buffer_after C self (map (\<lambda>(t, k). (t, frag k)) tks) vrfy) n (fragment_plain ident n packet cnt) cnt
      (S \<union> snd ` set tks)"
    and "db_hk_recv (buffer_after C self (map (\<lambda>(t, k). (t, frag k)) tks) vrfy) = hk"
    and "tks \<noteq> [] \<Longrightarrow> \<exists>b. db_fragment_map (buffer_after C self (map (\<lambda>(t, k). (t, frag k)) tks) vrfy) n = Some b \<and>
      buf_expiration_time b = i64_add (fst (last tks)) (as_i64 (fragment_assembly_timeout (SETTINGS C)))"
proof -
  let ?run = "\<lambda>self tks. received_fragments C self (map (\<lambda>(t, k). (t, frag k)) tks) vrfy"
    and ?buf = "\<lambda>self tks. buffer_after C self (map (\<lambda>(t, k). (t, frag k)) tks) vrfy"
    and ?plain = "fragment_plain ident n packet cnt"
  have "?run self tks = replicate (length tks) (Ok None) \<and> assembling (?buf self tks) n ?plain cnt (S \<union> snd ` set tks) \<and>
    db_hk_recv (?buf self tks) = hk \<and> (tks \<noteq> [] \<longrightarrow> (\<exists>b. db_fragment_map (?buf self tks) n = Some b \<and>
      buf_expiration_time b = i64_add (fst (last tks)) (as_i64 (fragment_assembly_timeout (SETTINGS C)))))"
    using inv key S ks
  proof (induction tks arbitrary: self S)
    case Nil
    then show ?case by simp
  next
    case (Cons tk tks)
    obtain t k where tk: "tk = (t, k)" by fastforce
    have k: "k < cnt" "k \<notin> S" "S \<subseteq> {..<cnt}" using Cons.prems(3,5) tk by auto
    obtain r self' where st: "received_fragment C self (frag k) t vrfy = (r, self')"
        "db_hk_recv self' = hk" "assembling self' n ?plain cnt (insert k S)"
        "r = (if card S + 1 < cnt then Ok None else Ok (Some (n, packet)))"
      using assembling_step [where vrfy = vrfy, OF _ raw [OF k(1)] cnt n v [OF k(1)] Cons.prems(1) k(3,1,2)] dec [OF k(1)]
        Cons.prems(2) by metis
    have "insert k S \<subset> {..<cnt}" using Cons.prems(3) tk by auto
    then have "card (insert k S) < cnt" using psubset_card_mono [of "{..<cnt}" "insert k S"] by simp
    then have r: "r = Ok None" using st(4) k(2) finite_subset [OF k(3)] by simp
    have e: "\<exists>b. db_fragment_map self' n = Some b \<and>
        buf_expiration_time b = i64_add t (as_i64 (fragment_assembly_timeout (SETTINGS C)))"
    proof (rule store_fragment_expiry)
      have "decrypt_header C (db_hk_recv self) (frag k) = ?plain k" using dec [OF k(1)] Cons.prems(2) by simp
      from received_fragment_piece [where vrfy = vrfy and t = t, OF this raw [OF k(1)] k(1) cnt(2) n v [OF k(1)]] st(1) r
      show "store_fragment self n (?plain k) k cnt (i64_add t (as_i64 (fragment_assembly_timeout (SETTINGS C)))) = (Ok None, self')"
        by simp
    qed (use cnt(1) in simp)
    have "insert k S \<union> snd ` set tks \<subset> {..<cnt}" "distinct (map snd tks)" "insert k S \<inter> snd ` set tks = {}"
      using Cons.prems(3-5) tk by auto
    from Cons.IH [OF st(3,2) this] st(1) r e tk show ?case by (auto simp: insert_commute)
  qed
  then show "?run self tks = replicate (length tks) (Ok None)" "assembling (?buf self tks) n ?plain cnt (S \<union> snd ` set tks)"
    "db_hk_recv (?buf self tks) = hk" "tks \<noteq> [] \<Longrightarrow> \<exists>b. db_fragment_map (?buf self tks) n = Some b \<and>
      buf_expiration_time b = i64_add (fst (last tks)) (as_i64 (fragment_assembly_timeout (SETTINGS C)))" by simp_all
qed

section \<open>A whole send\<close>

lemma piece_size:
  assumes "MIN_TRANSPORT_MTU \<le> mtu" "16 \<le> len" "cnt = fragment_count_of mtu len"
  shows "16 \<le> len div cnt"
proof -
  have mtu: "HEADER_SIZE < mtu" using assms(1) by (simp add: zssp_sizes)
  have cnt: "0 < cnt" using fragment_count_pos [OF mtu, of len] assms(2,3) by simp
  have "(cnt - 1) * 112 \<le> (cnt - 1) * (mtu - HEADER_SIZE)" using assms(1) by (intro mult_le_mono) (simp_all add: zssp_sizes)
  also have "\<dots> < len" using fragment_count_minimal [OF mtu, of len] assms(2,3) by simp
  finally have "cnt * 16 \<le> len" using cnt assms(2) by (cases "cnt = 1") auto
  then show ?thesis using cnt by (simp add: less_eq_div_iff_mult_less_eq mult.commute)
qed

lemma pieces_encrypted:
  assumes "MIN_TRANSPORT_MTU \<le> mtu" "16 \<le> length packet" "length n = 10"
    and cnt: "cnt = fragment_count_of mtu (length packet)"
    and sized: "crypto_sized C"
  obtains frag where "0 < cnt"
    "\<And>k. k < cnt \<Longrightarrow> encrypt_header C hk (fragment_plain ident n packet cnt k) = Some (frag k)"
    "\<And>k. k < cnt \<Longrightarrow> 32 \<le> length (fragment_plain ident n packet cnt k)"
    "\<And>k. k < cnt \<Longrightarrow> length (fragment_plain ident n packet cnt k) \<le> mtu"
    "\<And>k. k < cnt \<Longrightarrow> length (frag k) = length (fragment_plain ident n packet cnt k)"
proof -
  let ?plain = "fragment_plain ident n packet cnt"
  define frag where "frag k = the (encrypt_header C hk (?plain k))" for k
  have mtu: "HEADER_SIZE < mtu" using assms(1) by (simp add: zssp_sizes)
  have pos: "0 < cnt" unfolding cnt by (rule fragment_count_pos [OF mtu]) (use assms(2) in linarith)
  have long: "32 \<le> length (?plain k)" if "k < cnt" for k
    using piece_size [OF assms(1,2) cnt] assms(3) pos that
    by (simp add: fragment_plain_def length_fragment_payload)
  have fits: "length (?plain k) \<le> mtu" if "k < cnt" for k
    using piece_fits [OF mtu _ cnt, of k] assms(2,3) pos that mtu
    by (cases "packet = []") (auto simp: fragment_plain_def length_fragment_payload zssp_sizes)
  have enc: "encrypt_header C hk (?plain k) = Some (frag k)" if "k < cnt" for k
    using long [OF that] by (auto simp: frag_def encrypt_header_def zssp_sizes split: option.splits)
  have len: "length (frag k) = length (?plain k)" if "k < cnt" for k
    using long [OF that] crypto_sizedD(1) [OF sized, of "subslice 4 20 (?plain k)"]
    by (auto simp: frag_def encrypt_header_def zssp_sizes split: option.splits)
  show thesis by (rule that [OF pos enc long fits len])
qed

lemma send_with_fragmentation_pieces:
  assumes "MIN_TRANSPORT_MTU \<le> mtu" "16 \<le> length packet" "length n = 10"
    and cnt: "cnt = fragment_count_of mtu (length packet)" "cnt \<le> 48"
    and sized: "crypto_sized C"
  obtains frag where
    "send_with_fragmentation C (\<lambda>_. True) mtu ident n packet hk = (Ok (), map frag [0..<cnt])"
    "\<And>k. k < cnt \<Longrightarrow> encrypt_header C hk (fragment_plain ident n packet cnt k) = Some (frag k)"
    "\<And>k. k < cnt \<Longrightarrow> 32 \<le> length (fragment_plain ident n packet cnt k)"
    "\<And>k. k < cnt \<Longrightarrow> length (frag k) = length (fragment_plain ident n packet cnt k)"
proof -
  have mtu: "HEADER_SIZE < mtu" using assms(1) by (simp add: zssp_sizes)
  obtain frag where pos: "0 < cnt" and frag:
    "\<And>k. k < cnt \<Longrightarrow> encrypt_header C hk (fragment_plain ident n packet cnt k) = Some (frag k)"
    "\<And>k. k < cnt \<Longrightarrow> 32 \<le> length (fragment_plain ident n packet cnt k)"
    "\<And>k. k < cnt \<Longrightarrow> length (frag k) = length (fragment_plain ident n packet cnt k)"
    using pieces_encrypted [OF assms(1-3) cnt(1) sized] by metis
  have "send_fragments C (\<lambda>_. True) ident n packet hk cnt (length packet div cnt)
      (length packet mod cnt) [0..<cnt] 0 = (Ok (), map frag [0..<cnt])"
    using send_fragments_pieces [where send = "\<lambda>_. True" and m = 0 and frag = frag, OF _ pos frag(1)]
    by (simp add: fragment_start_def)
  then have "send_with_fragmentation C (\<lambda>_. True) mtu ident n packet hk = (Ok (), map frag [0..<cnt])"
    using pos cnt mtu by (simp add: send_with_fragmentation_def Let_def fragment_count_of_def zssp_sizes)
  from that [OF this frag] show thesis by simp
qed

lemma fragment_count_limit:
  assumes "HEADER_SIZE < mtu" "0 < len"
  shows "48 < fragment_count_of mtu len \<longleftrightarrow> 48 * (mtu - HEADER_SIZE) < len"
proof
  assume "48 < fragment_count_of mtu len"
  then have "48 * (mtu - HEADER_SIZE) \<le> (fragment_count_of mtu len - 1) * (mtu - HEADER_SIZE)"
    by (intro mult_le_mono) auto
  also have "\<dots> < len" by (rule fragment_count_minimal [OF assms])
  finally show "48 * (mtu - HEADER_SIZE) < len" .
next
  assume "48 * (mtu - HEADER_SIZE) < len"
  also have "len \<le> fragment_count_of mtu len * (mtu - HEADER_SIZE)" by (rule fragment_count_covers [OF assms(1)])
  finally show "48 < fragment_count_of mtu len" by simp
qed

lemma permuted_preimage:
  "mset (map snd arrivals) = image_mset frag M \<Longrightarrow>
   \<exists>tks. arrivals = map (\<lambda>(t, k). (t, frag k)) tks \<and> mset (map snd tks) = M"
proof (induction arrivals arbitrary: M)
  case Nil
  then show ?case by simp
next
  case (Cons tf arrivals)
  have "snd tf \<in># image_mset frag M" by (simp flip: Cons.prems)
  then obtain k where k: "k \<in># M" "snd tf = frag k" by auto
  then have "image_mset frag M = add_mset (snd tf) (image_mset frag (M - {#k#}))"
    by (metis insert_DiffM msed_map_invL image_mset_add_mset)
  with Cons.prems have "mset (map snd arrivals) = image_mset frag (M - {#k#})" by simp
  from Cons.IH [OF this] obtain tks where
    "arrivals = map (\<lambda>(t, k). (t, frag k)) tks" "mset (map snd tks) = M - {#k#}" by blast
  with k show ?case by (intro exI [of _ "(fst tf, k) # tks"]) (simp add: prod_eq_iff)
qed

lemma permuted_pieces:
  assumes "mset (map snd arrivals) = mset (map frag [0..<cnt])"
  obtains tks where "arrivals = map (\<lambda>(t, k). (t, frag k)) tks" "distinct (map snd tks)"
    "snd ` set tks = {..<cnt}" "length tks = cnt"
proof -
  obtain tks where t: "arrivals = map (\<lambda>(t, k). (t, frag k)) tks" "mset (map snd tks) = mset [0..<cnt]"
    using permuted_preimage [of arrivals frag "mset [0..<cnt]"] assms by auto
  from t(2) have "distinct (map snd tks)" by (metis distinct_upt mset_eq_imp_distinct_iff)
  moreover from t(2) have "set (map snd tks) = {..<cnt}" by (metis atLeast_upt mset_eq_setD)
  moreover from t(2) have "length tks = cnt" by (metis length_map length_upt minus_nat.diff_0 mset_eq_length)
  ultimately show thesis using that t(1) by simp
qed

lemma header_starts_with_kid:
  assumes "encrypt_header C hk (fragment_plain ident n packet cnt k) = Some f"
  shows "take KID_SIZE f = u32_to_be_bytes ident"
proof -
  have "take 4 (fragment_plain ident n packet cnt k) = u32_to_be_bytes ident"
    by (simp add: fragment_plain_def create_fragment_header_def write_at_def zssp_sizes take_update_swap list_update_beyond)
  moreover have "take 4 f = take 4 (fragment_plain ident n packet cnt k)"
    using assms by (auto simp: encrypt_header_def write_at_def zssp_sizes split: option.splits if_splits)
  ultimately show ?thesis by (simp add: zssp_sizes)
qed

text \<open>The pieces of one send, in any order of arrival.\<close>

lemma sent_pieces:
  assumes "crypto_correct C pub_of" "crypto_sized C"
    and "MIN_TRANSPORT_MTU \<le> mtu" "AES_GCM_TAG_SIZE \<le> length packet" "length n = PACKET_NONCE_SIZE"
    and "send_with_fragmentation C (\<lambda>_. True) mtu ident n packet hk = (Ok (), frags)"
    and "mset (map snd arrivals) = mset frags"
  obtains cnt frag tks where "frags = map frag [0..<cnt]" "0 < cnt" "cnt \<le> 48"
    "\<And>k. k < cnt \<Longrightarrow> decrypt_header C hk (frag k) = fragment_plain ident n packet cnt k"
    "\<And>k. k < cnt \<Longrightarrow> 32 \<le> length (frag k)" "\<And>k. k < cnt \<Longrightarrow> take KID_SIZE (frag k) = u32_to_be_bytes ident"
    "arrivals = map (\<lambda>(t, k). (t, frag k)) tks" "distinct (map snd tks)" "snd ` set tks = {..<cnt}" "length tks = cnt"
proof -
  define cnt where "cnt = fragment_count_of mtu (length packet)"
  have mtu: "HEADER_SIZE < mtu" using assms(3) by (simp add: zssp_sizes)
  have len: "16 \<le> length packet" "length n = 10" using assms(4,5) by (simp_all add: zssp_sizes)
  have pos: "0 < cnt" unfolding cnt_def by (rule fragment_count_pos [OF mtu]) (use len in linarith)
  have max: "cnt \<le> 48"
    using assms(6) pos mtu
    by (auto simp: send_with_fragmentation_def Let_def cnt_def fragment_count_of_def zssp_sizes split: if_splits)
  obtain frag where frag:
    "send_with_fragmentation C (\<lambda>_. True) mtu ident n packet hk = (Ok (), map frag [0..<cnt])"
    "\<And>k. k < cnt \<Longrightarrow> encrypt_header C hk (fragment_plain ident n packet cnt k) = Some (frag k)"
    "\<And>k. k < cnt \<Longrightarrow> 32 \<le> length (fragment_plain ident n packet cnt k)"
    "\<And>k. k < cnt \<Longrightarrow> length (frag k) = length (fragment_plain ident n packet cnt k)"
    using send_with_fragmentation_pieces [OF assms(3) len cnt_def max assms(2)] by blast
  have frags: "frags = map frag [0..<cnt]" using frag(1) assms(6) by simp
  obtain tks where tks: "arrivals = map (\<lambda>(t, k). (t, frag k)) tks" "distinct (map snd tks)"
      "snd ` set tks = {..<cnt}" "length tks = cnt"
    using permuted_pieces assms(7) frags by metis
  have dec: "decrypt_header C hk (frag k) = fragment_plain ident n packet cnt k" if "k < cnt" for k
    using decrypt_encrypt_header [OF assms(1,2) _ frag(2) [OF that]] frag(3) [OF that] by simp
  have kid: "take KID_SIZE (frag k) = u32_to_be_bytes ident" if "k < cnt" for k
    using frag(2,3) [OF that] header_starts_with_kid [of C hk ident n packet cnt k] by simp
  show thesis by (rule that [OF frags pos max dec _ kid tks]) (use frag(3,4) in simp_all)
qed

section \<open>Every arrival keeps the buffer well-formed\<close>

lemma length_decrypt_header:
  "crypto_sized C \<Longrightarrow> 20 \<le> length f \<Longrightarrow> length (decrypt_header C hk f) = length f"
  by (auto simp: decrypt_header_def zssp_sizes crypto_sizedD(2) split: option.splits)

lemma filter_update_some:
  "k < length fs \<Longrightarrow> fs ! k = None \<Longrightarrow>
   length (filter (\<lambda>f. f \<noteq> None) (fs[k := Some x])) = length (filter (\<lambda>f. f \<noteq> None) fs) + 1"
proof (induction fs arbitrary: k)
  case Nil
  then show ?case by simp
next
  case (Cons f fs)
  then show ?case by (cases k) auto
qed

lemma full_filter: "length fs \<le> length (filter P fs) \<Longrightarrow> x \<in> set fs \<Longrightarrow> P x"
  by (metis filter_id_conv length_filter_le length_filter_less leD le_neq_trans)

lemma buffer_wf_insert:
  assumes "buffer_wf b" "k < length (buf_fragments b)" "buf_fragments b ! k = None" "32 \<le> length f"
  shows "buffer_wf (b\<lparr>buf_fragments := (buf_fragments b)[k := Some f], buf_total := buf_total b + 1,
           buf_expiration_time := t\<rparr>)"
proof -
  have "Some g \<in> set ((buf_fragments b)[k := Some f]) \<Longrightarrow> g = f \<or> Some g \<in> set (buf_fragments b)" for g
    using set_update_subset_insert [of "buf_fragments b" k "Some f"] by auto
  then show ?thesis
    using assms filter_update_some [OF assms(2,3)] by (auto simp: buffer_wf_def zssp_sizes)
qed

lemma buffer_wf_first:
  assumes "k < cnt" "2 \<le> cnt" "cnt \<le> 48" "32 \<le> length f"
  shows "buffer_wf \<lparr>buf_fragments = (replicate cnt None)[k := Some f], buf_fragment_max_size = m,
           buf_total = 1, buf_expiration_time = t\<rparr>"
proof -
  have "Some g \<in> set ((replicate cnt None)[k := Some f]) \<Longrightarrow> g = f" for g
    using set_update_subset_insert [of "replicate cnt None" k "Some f"] by auto
  then show ?thesis
    using assms filter_update_some [of k "replicate cnt None" f]
    by (auto simp: buffer_wf_def zssp_sizes)
qed

lemma defrag_wf_update: "defrag_wf d \<Longrightarrow> buffer_wf b \<Longrightarrow>
   defrag_wf (d\<lparr>db_fragment_map := (db_fragment_map d)(n \<mapsto> b)\<rparr>)"
  by (auto simp: defrag_wf_def)

lemma assemble_full:
  "buffer_wf b \<Longrightarrow> \<not> buf_total b < length (buf_fragments b) \<Longrightarrow> assemble_packet (buf_fragments b) \<noteq> None"
  using full_filter [of "buf_fragments b" "\<lambda>f. f \<noteq> None" None]
  by (auto simp: assemble_packet_def buffer_wf_def)

lemma store_fragment_safe:
  assumes "defrag_wf d" "32 \<le> length f" "k < cnt" "cnt \<le> 48" "store_fragment d n f k cnt t = (r, d')"
  shows "defrag_wf d' \<and> returns r"
proof (cases "db_fragment_map d n")
  case None
  with assms defrag_wf_update [OF assms(1) buffer_wf_first [OF assms(3) _ assms(4,2)], of n] show ?thesis
    by (auto simp: store_fragment_def Let_def split: if_splits)
next
  case (Some b)
  then have b: "buffer_wf b" using assms(1) by (simp add: defrag_wf_def)
  let ?b = "b\<lparr>buf_fragments := (buf_fragments b)[k := Some f], buf_total := buf_total b + 1,
      buf_expiration_time := t\<rparr>"
  show ?thesis
  proof (cases "cnt = length (buf_fragments b) \<and> buf_fragments b ! k = None")
    case True
    then have b': "buffer_wf ?b" using b assms(2,3) by (intro buffer_wf_insert) auto
    from assms(5) Some True assms(1) defrag_wf_update [OF assms(1) b', of n] assemble_full [OF b'] show ?thesis
      by (auto simp: store_fragment_def Let_def split: if_splits option.splits)
  next
    case False
    with assms(1,5) Some show ?thesis by (auto simp: store_fragment_def)
  qed
qed

lemma store_fragment_again:
  assumes "store_fragment d n f k cnt t = (Ok x, d')" "k < cnt" "cnt \<noteq> 1"
  shows "store_fragment d' n f k cnt t' = (Err (fault InvalidPacket False), d')"
proof -
  have "\<exists>b. db_fragment_map d' n = Some b \<and> buf_fragments b ! k \<noteq> None"
    using assms
    by (auto simp: store_fragment_def Let_def split: option.splits if_splits)
  then show ?thesis by (auto simp: store_fragment_def)
qed

lemma store_fragment_key:
  "store_fragment d n f k cnt t = (r, d') \<Longrightarrow> db_hk_recv d' = db_hk_recv d"
  by (auto simp: store_fragment_def Let_def split: option.splits if_splits)

lemma received_fragment_wf:
  assumes "crypto_sized C" "defrag_wf d" "received_fragment C d raw t vrfy = (r, d')"
  shows "defrag_wf d' \<and> returns r"
proof (cases "length raw < MIN_PACKET_SIZE")
  case True
  with assms show ?thesis by (auto simp: received_fragment_def)
next
  case False
  then have "32 \<le> length (decrypt_header C (db_hk_recv d) raw)"
    using length_decrypt_header [OF assms(1), of raw] by (simp add: zssp_sizes)
  with False assms(2,3) show ?thesis
    by (auto simp: received_fragment_def Let_def zssp_sizes not_le not_less
        dest: store_fragment_safe [OF assms(2)] split: if_splits option.splits)
qed

lemma fragments_reassemble:
  assumes "crypto_correct C pub_of" "crypto_sized C"
    and "MIN_TRANSPORT_MTU \<le> mtu" "AES_GCM_TAG_SIZE \<le> length packet" "length n = PACKET_NONCE_SIZE"
    and "send_with_fragmentation C (\<lambda>_. True) mtu ident n packet hk = (Ok (), frags)"
    and "mset (map snd arrivals) = mset frags"
    and "\<And>k. k < length frags \<Longrightarrow> vrfy n k (length frags) = None"
  shows "received_fragments C (DefragBuffer_new hk) arrivals vrfy =
     replicate (length frags - 1) (Ok None) @ [Ok (Some (n, packet))]"
proof -
  obtain cnt frag tks where f: "frags = map frag [0..<cnt]" "0 < cnt" "cnt \<le> 48"
    and dec: "\<And>k. k < cnt \<Longrightarrow> decrypt_header C hk (frag k) = fragment_plain ident n packet cnt k"
    and raw: "\<And>k. k < cnt \<Longrightarrow> 32 \<le> length (frag k)"
    and tks: "arrivals = map (\<lambda>(t, k). (t, frag k)) tks" "distinct (map snd tks)" "snd ` set tks = {..<cnt}" "length tks = cnt"
    by (rule sent_pieces [OF assms(1-7)]) blast
  have n: "length n = 10" using assms(5) by (simp add: zssp_sizes)
  have v: "vrfy n k cnt = None" if "k < cnt" for k using assms(8) [of k] f(1) that by simp
  show ?thesis
  proof (cases "cnt = 1")
    case True
    then obtain t where t: "tks = [(t, 0)]"
      using tks(3,4) by (cases tks) (auto simp: lessThan_Suc)
    have "received_fragment C (DefragBuffer_new hk) (frag 0) t vrfy = (Ok (Some (n, packet)), DefragBuffer_new hk)"
      using received_fragment_piece [where C = C and self = "DefragBuffer_new hk" and raw = "frag 0"
          and ident = ident and n = n and packet = packet and cnt = cnt and k = 0 and vrfy = vrfy]
        dec [of 0] raw [of 0] v [of 0] True n concat_fragment_payloads [of 1 packet]
      by (simp add: DefragBuffer_new_def store_fragment_def Let_def fragment_plain_def zssp_sizes)
    then show ?thesis using t tks(1) True f(1) by simp
  next
    case False
    have "received_fragments C (DefragBuffer_new hk) (map (\<lambda>(t, k). (t, frag k)) tks) vrfy =
        replicate (length tks - 1) (Ok None) @ [Ok (Some (n, packet))]"
      by (rule assembling_run [where S = "{}" and hk = hk and ident = ident and cnt = cnt])
         (use dec raw v False f n tks in \<open>auto simp: assembling_def DefragBuffer_new_def\<close>)
    then show ?thesis using tks f(1) by simp
  qed
qed

lemma send_with_fragmentation_limits:
  assumes "crypto_sized C" "MIN_TRANSPORT_MTU \<le> mtu" "AES_GCM_TAG_SIZE \<le> length packet"
    and "length n = PACKET_NONCE_SIZE"
    and "send_with_fragmentation C send mtu ident n packet hk = (r, frags)"
  shows "returns r \<and> length frags \<le> MAX_FRAGMENTS \<and>
    (\<forall>f \<in> set frags. MIN_PACKET_SIZE \<le> length f \<and> length f \<le> mtu) \<and>
    (r = Err True \<longleftrightarrow> MAX_FRAGMENTS * (mtu - HEADER_SIZE) < length packet) \<and>
    (r = Err True \<longrightarrow> frags = [])"
proof -
  define cnt where "cnt = fragment_count_of mtu (length packet)"
  have mtu: "HEADER_SIZE < mtu" using assms(2) by (simp add: zssp_sizes)
  have len: "16 \<le> length packet" "length n = 10" using assms(3,4) by (simp_all add: zssp_sizes)
  have lim: "48 < cnt \<longleftrightarrow> 48 * (mtu - HEADER_SIZE) < length packet"
    unfolding cnt_def by (rule fragment_count_limit [OF mtu]) (use len in linarith)
  obtain frag where pos: "0 < cnt" and frag:
    "\<And>k. k < cnt \<Longrightarrow> encrypt_header C hk (fragment_plain ident n packet cnt k) = Some (frag k)"
    "\<And>k. k < cnt \<Longrightarrow> 32 \<le> length (frag k) \<and> length (frag k) \<le> mtu"
    using pieces_encrypted [OF assms(2) len cnt_def assms(1)] by metis
  obtain k q where k: "k \<le> cnt" "q = Ok () \<or> q = Err False"
    "send_fragments C send ident n packet hk cnt (length packet div cnt) (length packet mod cnt) [0..<cnt] 0
      = (q, map frag [0..<k])"
    using send_fragments_prefix [where m = 0 and frag = frag and send = send, OF pos frag(1)]
    by (auto simp: fragment_start_def)
  have "(r, frags) = (if 48 < cnt then (Err True, []) else (q, map frag [0..<k]))"
    using assms(5) k(3) pos mtu
    by (simp add: send_with_fragmentation_def Let_def cnt_def fragment_count_of_def zssp_sizes split: if_splits)
  then show ?thesis using frag(2) k lim by (auto simp: zssp_sizes split: if_splits)
qed

section \<open>Properties\<close>

text \<open>C19: Fragmentation round trip. A packet of at least one authentication tag is sent with any MTU
  the protocol allows, with or without header encryption; its fragments then reach a fresh
  buffer with the same header key in any order and at any times, and the caller's check
  passes. The buffer reports nothing until the last fragment and then exactly the packet.\<close>

theorem fragmentation_roundtrip:
  assumes "crypto_correct C pub_of" "crypto_sized C"
    and "MIN_TRANSPORT_MTU \<le> mtu" "AES_GCM_TAG_SIZE \<le> length packet" "length n = PACKET_NONCE_SIZE"
    and "send_with_fragmentation C (\<lambda>_. True) mtu ident n packet hk = (Ok (), frags)"
    and "mset (map snd arrivals) = mset frags"
    and "\<And>k. k < length frags \<Longrightarrow> vrfy n k (length frags) = None"
  shows "received_fragments C (DefragBuffer_new hk) arrivals vrfy =
     replicate (length frags - 1) (Ok None) @ [Ok (Some (n, packet))]"
  using assms by (rule fragments_reassemble)

theorem fragmentation_roundtrip_witness:
  "\<exists>frags. send_with_fragmentation sample_crypto (\<lambda>_. True) 128 1 (replicate 10 0) (replicate 200 5) (Some [1])
       = (Ok (), frags) \<and> length frags = 2 \<and>
     received_fragments sample_crypto (DefragBuffer_new (Some [1])) (rev (map (\<lambda>f. (0, f)) frags))
       (\<lambda>_ _ _. None) = [Ok None, Ok (Some (replicate 10 0, replicate 200 5))]"
proof -
  let ?p = "replicate 200 5 :: bytes" and ?n = "replicate 10 0 :: bytes"
  have c: "2 = fragment_count_of 128 (length ?p)" by (simp add: fragment_count_of_def zssp_sizes)
  have "\<exists>frag. send_with_fragmentation sample_crypto (\<lambda>_. True) 128 1 ?n ?p (Some [1])
      = (Ok (), map frag [0..<2])"
    by (rule send_with_fragmentation_pieces [OF _ _ _ c _ sample_crypto_sized, of ?n 1 "Some [1]"])
       (blast | simp add: zssp_sizes)+
  then obtain frag where f: "send_with_fragmentation sample_crypto (\<lambda>_. True) 128 1 ?n ?p (Some [1])
      = (Ok (), map frag [0..<2])" ..
  have "received_fragments sample_crypto (DefragBuffer_new (Some [1]))
      (rev (map (\<lambda>f. (0, f)) (map frag [0..<2]))) (\<lambda>_ _ _. None)
    = replicate (length (map frag [0..<2]) - 1) (Ok None) @ [Ok (Some (?n, ?p))]"
    by (rule fragmentation_roundtrip [OF sample_crypto_correct sample_crypto_sized _ _ _ f])
       (simp_all add: zssp_sizes multiset.map_comp comp_def)
  with f show ?thesis by (intro exI [of _ "map frag [0..<2]"]) simp
qed

text \<open>No arrival, whatever its bytes, makes a well-formed buffer ill-formed or makes
  \<open>received_fragment\<close> panic: the \<open>unwrap\<close> in the assembly never meets a missing piece.\<close>

theorem received_fragment_safe:
  assumes "crypto_sized C" "defrag_wf d" "received_fragment C d raw t vrfy = (r, d')"
  shows "defrag_wf d' \<and> returns r"
  using assms by (rule received_fragment_wf)

theorem received_fragment_safe_witness:
  "defrag_wf (DefragBuffer_new None) \<and>
   defrag_wf (snd (received_fragment sample_crypto (DefragBuffer_new None) (replicate 40 3) 0 (\<lambda>_ _ _. None))) \<and>
   returns (fst (received_fragment sample_crypto (DefragBuffer_new None) (replicate 40 3) 0 (\<lambda>_ _ _. None)))"
proof -
  have wf: "defrag_wf (DefragBuffer_new None)" by (simp add: defrag_wf_def DefragBuffer_new_def)
  show ?thesis
    using wf received_fragment_safe [OF sample_crypto_sized wf
        prod.collapse [symmetric], of "replicate 40 3" 0 "\<lambda>_ _ _. None"] by simp
qed

text \<open>C33: Bounds of fragmentation. Whatever the user's \<open>send\<close> answers, with an MTU the protocol
  allows and a packet of at least one tag: the call does not panic, every fragment it hands
  out has at most the MTU's bytes and a complete header block, there are at most
  \<open>MAX_FRAGMENTS\<close> of them, and it refuses with \<open>Err(true)\<close>, sending nothing, exactly when
  the packet does not fit into \<open>MAX_FRAGMENTS\<close> pieces.\<close>

theorem send_with_fragmentation_bounds:
  assumes "crypto_sized C" "MIN_TRANSPORT_MTU \<le> mtu" "AES_GCM_TAG_SIZE \<le> length packet"
    and "length n = PACKET_NONCE_SIZE"
    and "send_with_fragmentation C send mtu ident n packet hk = (r, frags)"
  shows "returns r \<and> length frags \<le> MAX_FRAGMENTS \<and>
    (\<forall>f \<in> set frags. MIN_PACKET_SIZE \<le> length f \<and> length f \<le> mtu) \<and>
    (r = Err True \<longleftrightarrow> MAX_FRAGMENTS * (mtu - HEADER_SIZE) < length packet) \<and>
    (r = Err True \<longrightarrow> frags = [])"
  using assms by (rule send_with_fragmentation_limits)

theorem send_with_fragmentation_bounds_witness:
  "let (r, frags) = send_with_fragmentation sample_crypto (\<lambda>k. k < 2) 128 1 (replicate 10 0) (replicate 9000 5) (Some [1])
   in returns r \<and> length frags \<le> MAX_FRAGMENTS \<and> r = Err True \<and> frags = []"
  using send_with_fragmentation_bounds [OF sample_crypto_sized _ _ _ prod.collapse [symmetric],
      of 128 "replicate 9000 5" "replicate 10 0" "\<lambda>k. k < 2" 1 "Some [1]"]
  by (simp add: zssp_sizes case_prod_beta)

text \<open>A fragment of a multi-fragment packet that was taken once is refused when it is
  replayed, as a natural fault, and leaves the buffer as it is.\<close>

theorem duplicate_fragment_refused:
  assumes "received_fragment C d raw t vrfy = (Ok x, d')"
    and "unat (decrypt_header C (db_hk_recv d) raw ! FRAGMENT_COUNT_IDX) \<noteq> 1"
  shows "received_fragment C d' raw t' vrfy = (Err (fault InvalidPacket False), d')"
proof -
  let ?f = "decrypt_header C (db_hk_recv d) raw"
  have st: "\<not> length raw < MIN_PACKET_SIZE" "unat (?f ! 4) < unat (?f ! 5)" "\<not> 48 < unat (?f ! 5)"
    "vrfy (subslice 6 16 ?f) (unat (?f ! 4)) (unat (?f ! 5)) = None"
    "store_fragment d (subslice 6 16 ?f) ?f (unat (?f ! 4)) (unat (?f ! 5))
      (i64_add t (as_i64 (fragment_assembly_timeout (SETTINGS C)))) = (Ok x, d')"
    using assms(1) by (auto simp: received_fragment_def Let_def zssp_sizes split: if_splits option.splits)
  show ?thesis
    using st(1-4) store_fragment_again [OF st(5,2)] store_fragment_key [OF st(5)] assms(2)
    by (simp add: received_fragment_def Let_def zssp_sizes)
qed

theorem duplicate_fragment_refused_witness:
  "let raw = replicate 4 0 @ [0, 2] @ replicate 10 0 @ replicate 30 1;
       d' = snd (received_fragment sample_crypto (DefragBuffer_new None) raw 0 (\<lambda>_ _ _. None))
   in received_fragment sample_crypto d' raw 9 (\<lambda>_ _ _. None) = (Err (fault InvalidPacket False), d')"
  unfolding Let_def
  by (rule duplicate_fragment_refused [where x = None and t = 0 and d = "DefragBuffer_new None"])
     (simp_all add: received_fragment_def DefragBuffer_new_def decrypt_header_def store_fragment_def
        zssp_sizes nth_append Let_def)

lemma service_entry:
  assumes "db_fragment_map d n = Some b"
  shows "buf_expiration_time b < now \<Longrightarrow> assembling (DefragBuffer_service d now) n plain cnt S = assembling d n plain cnt S"
    and "now \<le> buf_expiration_time b \<Longrightarrow> assembling (DefragBuffer_service d now) n plain cnt {}"
    and "db_hk_recv (DefragBuffer_service d now) = db_hk_recv d"
  using assms by (auto simp: assembling_def DefragBuffer_service_def)

text \<open>C36: The periodic service of a buffer works against its purpose. The comparison of \<open>retain\<close>
  is the wrong way round for an expiry: when some fragments of a packet have arrived, in any
  order, and a service comes before the entry has expired, the packet is lost, and the
  fragments that arrive after it give nothing; when the service comes after the entry has
  expired, the entry stays, and the late fragments complete the packet.\<close>

theorem defrag_service_inverted:
  assumes C: "crypto_correct C pub_of" "crypto_sized C"
    and p: "MIN_TRANSPORT_MTU \<le> mtu" "AES_GCM_TAG_SIZE \<le> length packet" "length n = PACKET_NONCE_SIZE"
    and s: "send_with_fragmentation C (\<lambda>_. True) mtu ident n packet hk = (Ok (), frags)"
    and a: "mset (map snd (early @ late)) = mset frags" "early \<noteq> []" "late \<noteq> []"
    and v: "\<And>k. k < length frags \<Longrightarrow> vrfy n k (length frags) = None"
    and e: "expiry = i64_add (fst (last early)) (as_i64 (fragment_assembly_timeout (SETTINGS C)))"
  shows "received_fragments C (DefragBuffer_service (buffer_after C (DefragBuffer_new hk) early vrfy) now) late vrfy =
    (if now \<le> expiry then replicate (length late) (Ok None)
     else replicate (length late - 1) (Ok None) @ [Ok (Some (n, packet))])"
proof -
  obtain cnt frag tks where f: "frags = map frag [0..<cnt]" "0 < cnt" "cnt \<le> 48"
    "\<And>k. k < cnt \<Longrightarrow> decrypt_header C hk (frag k) = fragment_plain ident n packet cnt k"
    "\<And>k. k < cnt \<Longrightarrow> 32 \<le> length (frag k)"
    "early @ late = map (\<lambda>(t, k). (t, frag k)) tks" "distinct (map snd tks)" "snd ` set tks = {..<cnt}" "length tks = cnt"
    by (rule sent_pieces [OF C p s a(1)]) blast
  obtain us vs where t: "tks = us @ vs" "early = map (\<lambda>(t, k). (t, frag k)) us" "late = map (\<lambda>(t, k). (t, frag k)) vs"
    using f(6) unfolding append_eq_map_conv by blast
  have ne: "us \<noteq> []" "vs \<noteq> []" using t a(2,3) by auto
  have cnt: "2 \<le> cnt" using f(9) t(1) ne by (cases us; cases vs) auto
  have n: "length n = 10" using p(3) by (simp add: zssp_sizes)
  have v': "vrfy n k cnt = None" if "k < cnt" for k using v [of k] f(1) that by simp
  have d: "distinct (map snd us)" "distinct (map snd vs)" "snd ` set us \<inter> snd ` set vs = {}"
    "snd ` set us \<union> snd ` set vs = {..<cnt}"
    using f(7,8) t(1) by (auto simp: image_Un)
  have "X \<subset> T \<and> Y \<subset> T" if "X \<inter> Y = {}" "X \<union> Y = T" "X \<noteq> {}" "Y \<noteq> {}" for X Y T :: "nat set" using that by blast
  from this [OF d(3,4)] have sub: "snd ` set us \<subset> {..<cnt}" "snd ` set vs \<subset> {..<cnt}" using ne by simp_all
  let ?plain = "fragment_plain ident n packet cnt" and ?d = "buffer_after C (DefragBuffer_new hk) early vrfy"
  have new: "assembling (DefragBuffer_new hk) n ?plain cnt {}" "db_hk_recv (DefragBuffer_new hk) = hk"
    by (simp_all add: assembling_def DefragBuffer_new_def)
  note part = assembling_partial [where frag = frag and hk = hk and vrfy = vrfy and ident = ident and packet = packet,
      OF f(4,5) cnt f(3) n v']
  obtain b where b: "db_fragment_map ?d n = Some b" "buf_expiration_time b = expiry" "assembling ?d n ?plain cnt (snd ` set us)"
    "db_hk_recv ?d = hk"
    using part(2-4) [OF _ _ _ new, where tks = us] sub(1) d(1) ne(1) e t(2) by (auto simp: last_map case_prod_beta)
  show ?thesis
  proof (cases "now \<le> expiry")
    case True
    have "assembling (DefragBuffer_service ?d now) n ?plain cnt {}" "db_hk_recv (DefragBuffer_service ?d now) = hk"
      using service_entry(2,3) [OF b(1)] True b(2,4) by simp_all
    from part(1) [OF _ _ _ this, where tks = vs] sub(2) d(2) show ?thesis using True t(3) by simp
  next
    case False
    have s: "assembling (DefragBuffer_service ?d now) n ?plain cnt (snd ` set us)" "db_hk_recv (DefragBuffer_service ?d now) = hk"
      using service_entry(1,3) [OF b(1), of now] False b by simp_all
    have "received_fragments C (DefragBuffer_service ?d now) (map (\<lambda>(t, k). (t, frag k)) vs) vrfy =
        replicate (length vs - 1) (Ok None) @ [Ok (Some (n, packet))]"
      by (rule assembling_run [where frag = frag and hk = hk and vrfy = vrfy and ident = ident and packet = packet, OF f(4,5) cnt f(3) n v' s]) (use d sub ne in auto)
    then show ?thesis using False t(3) by simp
  qed
qed

theorem defrag_service_inverted_witness:
  "\<exists>f g. send_with_fragmentation sample_crypto (\<lambda>_. True) 128 1 (replicate 10 0) (replicate 200 5) (Some [1]) = (Ok (), [f, g]) \<and>
     received_fragments sample_crypto (DefragBuffer_service
       (buffer_after sample_crypto (DefragBuffer_new (Some [1])) [(0, f)] (\<lambda>_ _ _. None)) 1) [(2, g)] (\<lambda>_ _ _. None) = [Ok None] \<and>
     received_fragments sample_crypto (DefragBuffer_service
       (buffer_after sample_crypto (DefragBuffer_new (Some [1])) [(0, f)] (\<lambda>_ _ _. None)) 5001) [(5002, g)] (\<lambda>_ _ _. None) =
       [Ok (Some (replicate 10 0, replicate 200 5))]"
proof -
  let ?p = "replicate 200 5 :: bytes" and ?n = "replicate 10 0 :: bytes"
  have c: "2 = fragment_count_of 128 (length ?p)" by (simp add: fragment_count_of_def zssp_sizes)
  have "\<exists>frag. send_with_fragmentation sample_crypto (\<lambda>_. True) 128 1 ?n ?p (Some [1])
      = (Ok (), map frag [0..<2])"
    by (rule send_with_fragmentation_pieces [OF _ _ _ c _ sample_crypto_sized, of ?n 1 "Some [1]"])
       (blast | simp add: zssp_sizes)+
  then obtain f g where s: "send_with_fragmentation sample_crypto (\<lambda>_. True) 128 1 ?n ?p (Some [1]) = (Ok (), [f, g])"
    by (auto simp: upt_rec numeral_2_eq_2)
  let ?e = "i64_add 0 (as_i64 (fragment_assembly_timeout (SETTINGS sample_crypto)))"
  have e: "1 \<le> ?e" "\<not> 5001 \<le> ?e"
    by (simp_all add: sample_crypto_def new_ms_def i64_add_def as_i64_def wrap_i64_def FRAGMENT_ASSEMBLY_TIMEOUT_MS_def)
  have "received_fragments sample_crypto (DefragBuffer_service
      (buffer_after sample_crypto (DefragBuffer_new (Some [1])) [(0, f)] (\<lambda>_ _ _. None)) now) [(t, g)] (\<lambda>_ _ _. None) =
    (if now \<le> ?e then replicate (length [(t, g)]) (Ok None)
     else replicate (length [(t, g)] - 1) (Ok None) @ [Ok (Some (?n, ?p))])" for now t
    by (rule defrag_service_inverted [OF sample_crypto_correct sample_crypto_sized _ _ _ s]) (simp_all add: zssp_sizes)
  from this [of 1 2] this [of 5001 5002] s e show ?thesis by auto
qed

end
