(* ===== verification/Antireplay.thy ===== *)
theory Antireplay
  imports Proto
begin

text \<open>
  The three anti-replay windows of the repository: the session window of
  \<open>reference/src/zeta.rs\<close>, the challenge window of \<open>reference/src/challenge.rs\<close> and
  \<open>Window\<close> of \<open>performance/src/antireplay.rs\<close>. Each is an array of slots indexed by the
  counter modulo the array's length; a slot holds one more than the greatest counter it
  has taken. The locale \<open>antireplay\<close> states the contract they share and proves once that
  no counter is taken twice in any sequence; each window is an interpretation of it.
\<close>

section \<open>Definitions\<close>

definition window_new :: "nat \<Rightarrow> u64 list" where
  "window_new len = replicate len 0"

definition window_slot :: "u64 list \<Rightarrow> u64 \<Rightarrow> nat" where
  "window_slot w c = unat c mod length w"

subsection \<open>The session window\<close>

definition check_counter_window :: "u64 list \<Rightarrow> u64 \<Rightarrow> bool" where
  "check_counter_window w c =
     (let slot = w ! window_slot w c; adj_counter = saturating_add c 1
      in slot < adj_counter \<and> adj_counter \<le> slot + COUNTER_WINDOW_MAX_SKIP_AHEAD)"

definition update_counter_window :: "u64 list \<Rightarrow> u64 \<Rightarrow> bool \<times> u64 list" where
  "update_counter_window w c =
     (let slot = w ! window_slot w c; adj_counter = saturating_add c 1
      in if slot < adj_counter \<and> adj_counter \<le> slot + COUNTER_WINDOW_MAX_SKIP_AHEAD
         then (True, w[window_slot w c := adj_counter])
         else (False, w))"

subsection \<open>The challenge window\<close>

definition check_window :: "u64 list \<Rightarrow> u64 \<Rightarrow> bool" where
  "check_window w counter =
     (let prev_counter = w ! window_slot w counter; counter = counter + 1
      in prev_counter < counter)"

definition update_window :: "u64 list \<Rightarrow> u64 \<Rightarrow> u64 list" where
  "update_window w counter = w[window_slot w counter := counter + 1]"

text \<open>\<open>process_hello\<close> updates the window exactly when the check (and the MAC) passed.\<close>

definition take_window :: "u64 list \<Rightarrow> u64 \<Rightarrow> bool \<times> u64 list" where
  "take_window w counter =
     (if check_window w counter then (True, update_window w counter) else (False, w))"

subsection \<open>The window of the performance crate\<close>

definition Window_check :: "u64 \<Rightarrow> u64 list \<Rightarrow> u64 \<Rightarrow> bool" where
  "Window_check mx w counter =
     (let prev_counter = w ! window_slot w counter; counter = counter + 1
      in prev_counter < counter \<and> counter - prev_counter \<le> mx)"

text \<open>\<open>update\<close> stores with \<open>fetch_max\<close>, also when it then answers false.\<close>

definition Window_update :: "u64 \<Rightarrow> u64 list \<Rightarrow> u64 \<Rightarrow> bool \<times> u64 list" where
  "Window_update mx w counter =
     (let i = window_slot w counter; counter = counter + 1; prev_counter = w ! i
      in (prev_counter < counter \<and> counter - prev_counter \<le> mx, w[i := max prev_counter counter]))"

subsection \<open>Running a window over a sequence of counters\<close>

primrec accepted :: "('w \<Rightarrow> u64 \<Rightarrow> bool \<times> 'w) \<Rightarrow> 'w \<Rightarrow> u64 list \<Rightarrow> u64 list" where
  "accepted upd w [] = []"
| "accepted upd w (c # cs) =
     (case upd w c of (ok, w') \<Rightarrow> (if ok then [c] else []) @ accepted upd w' cs)"

subsection \<open>Well-formed windows, and the counters a window has taken\<close>

definition window_wf :: "u64 list \<Rightarrow> bool" where
  "window_wf w \<longleftrightarrow> w \<noteq> []"

definition session_taken :: "u64 list \<Rightarrow> u64 \<Rightarrow> bool" where
  "session_taken w c \<longleftrightarrow> saturating_add c 1 \<le> w ! window_slot w c"

definition wrapping_taken :: "u64 list \<Rightarrow> u64 \<Rightarrow> bool" where
  "wrapping_taken w c \<longleftrightarrow> c + 1 \<le> w ! window_slot w c"

text \<open>
  Ghost predicate: after the counters below \<open>n\<close> each slot holds the greatest one of its
  class, plus one.
\<close>

definition in_order_window :: "nat \<Rightarrow> u64 list \<Rightarrow> bool" where
  "in_order_window n w \<longleftrightarrow> length w = 128 \<and>
     (\<forall>c. c < n \<and> n \<le> c + 128 \<longrightarrow> unat (w ! (c mod 128)) = c + 1) \<and>
     (\<forall>i. n \<le> i \<and> i < 128 \<longrightarrow> w ! i = 0)"

section \<open>The contract\<close>

locale antireplay =
  fixes upd :: "'w \<Rightarrow> u64 \<Rightarrow> bool \<times> 'w"
    and taken :: "'w \<Rightarrow> u64 \<Rightarrow> bool"
    and wf :: "'w \<Rightarrow> bool"
  assumes upd_wf: "wf w \<Longrightarrow> wf (snd (upd w c))"
    and upd_taken: "wf w \<Longrightarrow> fst (upd w c) \<Longrightarrow> taken (snd (upd w c)) c"
    and taken_stays: "wf w \<Longrightarrow> taken w c \<Longrightarrow> taken (snd (upd w d)) c"
    and taken_refused: "wf w \<Longrightarrow> taken w c \<Longrightarrow> \<not> fst (upd w c)"
begin

lemma taken_not_accepted: "wf w \<Longrightarrow> taken w c \<Longrightarrow> c \<notin> set (accepted upd w cs)"
proof (induction cs arbitrary: w)
  case Nil
  then show ?case by simp
next
  case (Cons d cs)
  obtain ok w' where u: "upd w d = (ok, w')" by fastforce
  have "wf w'" "taken w' c"
    using upd_wf [of w d] taken_stays [of w c d] Cons.prems u by simp_all
  moreover have "ok \<Longrightarrow> d \<noteq> c" using taken_refused [of w c] Cons.prems u by auto
  ultimately show ?case using Cons.IH u by auto
qed

lemma accepted_distinct: "wf w \<Longrightarrow> distinct (accepted upd w cs)"
proof (induction cs arbitrary: w)
  case Nil
  then show ?case by simp
next
  case (Cons d cs)
  obtain ok w' where u: "upd w d = (ok, w')" by fastforce
  have w': "wf w'" using upd_wf [of w d] Cons.prems u by simp
  moreover have "ok \<Longrightarrow> taken w' d" using upd_taken [of w d] Cons.prems u by simp
  ultimately show ?case using Cons.IH u taken_not_accepted [of w' d cs] by auto
qed

end

section \<open>The three windows keep the contract\<close>

lemma window_slot_less: "window_wf w \<Longrightarrow> window_slot w c < length w"
  by (simp add: window_wf_def window_slot_def)

lemma window_slot_update [simp]: "window_slot (w[i := x]) c = window_slot w c"
  by (simp add: window_slot_def)

lemma window_wf_update [simp]: "window_wf (w[i := x]) = window_wf w"
  by (simp add: window_wf_def)

lemma slot_grows:
  "window_wf w \<Longrightarrow> w ! window_slot w d \<le> x \<Longrightarrow> y \<le> w ! window_slot w c \<Longrightarrow>
   y \<le> w[window_slot w d := x] ! window_slot w c"
  by (cases "window_slot w c = window_slot w d") (auto simp: window_slot_less)

interpretation session_window: antireplay update_counter_window session_taken window_wf
  by unfold_locales
     (auto simp: update_counter_window_def session_taken_def Let_def window_slot_less
       intro: slot_grows split: if_splits)

interpretation challenge_window: antireplay take_window wrapping_taken window_wf
  by unfold_locales
     (auto simp: take_window_def check_window_def update_window_def wrapping_taken_def Let_def
       window_slot_less intro: slot_grows split: if_splits)

interpretation performance_window: antireplay "Window_update mx" wrapping_taken window_wf for mx
  by unfold_locales
     (auto simp: Window_update_def wrapping_taken_def Let_def window_slot_less
       intro: slot_grows split: if_splits)

section \<open>Counters that arrive in order are all taken\<close>

lemma in_order_slot:
  assumes "in_order_window n w"
  shows "unat (w ! (n mod 128)) = (if n < 128 then 0 else n - 127)"
proof (cases "n < 128")
  case True
  with assms show ?thesis by (simp add: in_order_window_def)
next
  case False
  then have "unat (w ! ((n - 128) mod 128)) = (n - 128) + 1"
    using assms by (simp add: in_order_window_def)
  moreover have "(n - 128) mod 128 = n mod 128" using False by (simp add: le_mod_geq)
  ultimately show ?thesis using False by simp
qed

lemma in_order_step:
  assumes inv: "in_order_window n w" and n: "n < 2 ^ 64 - 2 ^ 24"
  shows "fst (update_counter_window w (word_of_nat n))"
    and "in_order_window (Suc n) (snd (update_counter_window w (word_of_nat n)))"
proof -
  let ?c = "word_of_nat n :: u64"
  have c: "unat ?c = n" using n by (simp add: unat_of_nat)
  have slot: "window_slot w ?c = n mod 128" using inv c by (simp add: window_slot_def in_order_window_def)
  have adj: "unat (saturating_add ?c 1) = n + 1" using n c by (simp add: saturating_add_unat)
  have s: "unat (w ! (n mod 128)) = (if n < 128 then 0 else n - 127)" by (rule in_order_slot [OF inv])
  have skip: "unat (w ! (n mod 128) + COUNTER_WINDOW_MAX_SKIP_AHEAD) = unat (w ! (n mod 128)) + 2 ^ 24"
    using s n by (simp add: zssp_sizes unat_word_ariths)
  have ok: "w ! (n mod 128) < saturating_add ?c 1 \<and>
      saturating_add ?c 1 \<le> w ! (n mod 128) + COUNTER_WINDOW_MAX_SKIP_AHEAD"
    using s by (auto simp: word_less_nat_alt word_le_nat_alt adj skip)
  show "fst (update_counter_window w ?c)"
    using ok by (simp add: update_counter_window_def Let_def slot)
  have upd: "snd (update_counter_window w ?c) = w[n mod 128 := saturating_add ?c 1]"
    using ok by (simp add: update_counter_window_def Let_def slot)
  have other: "c mod 128 \<noteq> n mod 128" if "c < n" "n < c + 128" for c
  proof
    assume "c mod 128 = n mod 128"
    then have "128 dvd n - c" using that(1) mod_eq_dvd_iff_nat [of c n 128] by simp
    with that show False by (auto dest: dvd_imp_le)
  qed
  show "in_order_window (Suc n) (snd (update_counter_window w ?c))"
    using inv unfolding upd in_order_window_def
    by (auto simp: adj less_Suc_eq nth_list_update dest: other)
qed

lemma in_order_accepted:
  "in_order_window n w \<Longrightarrow> n + k \<le> 2 ^ 64 - 2 ^ 24 \<Longrightarrow>
   accepted update_counter_window w (map word_of_nat [n..<n + k]) = map word_of_nat [n..<n + k]"
proof (induction k arbitrary: n w)
  case 0
  then show ?case by simp
next
  case (Suc k)
  obtain ok w' where u: "update_counter_window w (word_of_nat n) = (ok, w')" by fastforce
  have "ok" "in_order_window (Suc n) w'"
    using in_order_step [OF Suc.prems(1)] Suc.prems(2) u by simp_all
  moreover have "[n..<n + Suc k] = n # [Suc n..<Suc n + k]" by (simp add: upt_conv_Cons)
  ultimately show ?case using Suc.IH [of "Suc n" w'] Suc.prems(2) u by simp
qed

section \<open>Properties\<close>

text \<open>Replay protection of a session. Whatever counters arrive, in whatever order and
  however often, \<open>update_counter_window\<close> answers true at most once for each counter.\<close>

theorem session_window_no_replay:
  "distinct (accepted update_counter_window (window_new COUNTER_WINDOW_MAX_OOO) cs)"
  by (rule session_window.accepted_distinct) (simp add: window_wf_def window_new_def zssp_sizes)

text \<open>The window of the performance crate, whose slots are advanced with \<open>fetch_max\<close> even
  for a rejected counter, takes each counter at most once as well, for any number of slots
  and any skip-ahead limit.\<close>

theorem performance_window_no_replay:
  "0 < L \<Longrightarrow> distinct (accepted (Window_update mx) (window_new L) cs)"
  by (rule performance_window.accepted_distinct) (simp add: window_wf_def window_new_def)

theorem performance_window_no_replay_witness:
  "distinct (accepted (Window_update 16777216) (window_new 128) [0, 5, 0, 133, 5, 7])"
  by (rule performance_window_no_replay) simp

text \<open>Counters that arrive in order, from 0 up to the last \<open>2^24\<close> counters below \<open>2^64\<close>,
  are all taken by a fresh session window: replay protection never drops in-order traffic.\<close>

theorem session_window_takes_in_order:
  assumes "k \<le> 2 ^ 64 - 2 ^ 24"
  shows "accepted update_counter_window (window_new COUNTER_WINDOW_MAX_OOO) (map word_of_nat [0..<k])
       = map word_of_nat [0..<k]"
proof -
  have "in_order_window 0 (window_new COUNTER_WINDOW_MAX_OOO)"
    by (simp add: in_order_window_def window_new_def zssp_sizes)
  from in_order_accepted [OF this, of k] assms show ?thesis by simp
qed

theorem session_window_takes_in_order_witness:
  "accepted update_counter_window (window_new COUNTER_WINDOW_MAX_OOO) (map word_of_nat [0..<1000])
     = map word_of_nat [0..<1000]"
  by (rule session_window_takes_in_order) simp

text \<open>The two crates decide alike: with the session's limits, the \<open>check\<close> of the performance
  crate is the \<open>check_counter_window\<close> of the reference crate, as long as the slot is not
  within \<open>2^24\<close> of the end of the counter space and the counter is not the last one.\<close>

theorem window_check_equiv:
  assumes "unat (w ! window_slot w c) < 2 ^ 64 - 2 ^ 24" "c \<noteq> - 1"
  shows "Window_check COUNTER_WINDOW_MAX_SKIP_AHEAD w c \<longleftrightarrow> check_counter_window w c"
proof -
  let ?s = "w ! window_slot w c"
  have c: "unat c + 1 < 2 ^ 64" by (rule unat_plus_one [OF assms(2)])
  then have adj: "saturating_add c 1 = c + 1" "unat (c + 1) = unat c + 1"
    by (simp_all add: saturating_add_def unat_word_ariths)
  have skip: "unat (?s + COUNTER_WINDOW_MAX_SKIP_AHEAD) = unat ?s + 2 ^ 24"
    using assms(1) by (simp add: zssp_sizes unat_word_ariths)
  have "?s < c + 1 \<Longrightarrow> unat (c + 1 - ?s) = unat (c + 1) - unat ?s"
    by (simp add: unat_sub_if_size word_less_nat_alt)
  then show ?thesis
    by (auto simp: Window_check_def check_counter_window_def Let_def adj skip
        word_le_nat_alt word_less_nat_alt) (auto simp: zssp_sizes)
qed

theorem window_check_equiv_witness:
  "Window_check COUNTER_WINDOW_MAX_SKIP_AHEAD (window_new 128) 7 \<longleftrightarrow> check_counter_window (window_new 128) 7"
  by (rule window_check_equiv) (simp_all add: window_new_def window_slot_def)

end
