(* ===== verification/Challenge.thy ===== *)
theory Challenge
  imports Sample_Crypto Antireplay
begin

text \<open>
  The challenge protocol that protects Bob from CPU exhaustion
  (\<open>reference/src/challenge.rs\<close>). A remote address is the byte string that its \<open>Hash\<close>
  implementation writes to the hasher. The search for a proof of work is a loop over all
  64-bit values that may never end, so it returns an option.

  The theory shows that the search ends whenever some value is a proof of work, that an
  honest responder is admitted with the challenge it was given, and that no counter is
  admitted twice over any sequence of hello packets.
\<close>

section \<open>Definitions\<close>

record challenge_context =
  cc_enabled :: bool
  cc_counter :: u64
  cc_antireplay_window :: "u64 list"
  cc_salt :: bytes

definition gen_null_response :: "('pk, 'kp, 'r, 'kem) crypto_layer \<Rightarrow> 'r \<Rightarrow> bytes \<times> 'r" where
  "gen_null_response C rng =
     (case next_u64 C rng of (x, rng') \<Rightarrow>
        (write_at POW_START (u64_to_be_bytes x) (replicate CHALLENGE_SIZE 0), rng'))"

definition verify_pow :: "('pk, 'kp, 'r, 'kem) crypto_layer \<Rightarrow> bytes \<Rightarrow> bool" where
  "verify_pow C response =
     (if DIFFICULTY = 0 then True
      else (let out = sha512 C response; n = u32_from_be_bytes (take 4 out)
            in DIFFICULTY \<le> leading_zeros n))"

partial_function (option) pow_search ::
  "('pk, 'kp, 'r, 'kem) crypto_layer \<Rightarrow> bytes \<Rightarrow> u64 \<Rightarrow> bytes option" where
  "pow_search C pre_response pow =
     (let pre_response' = write_at POW_START (u64_to_be_bytes pow) pre_response
      in if verify_pow C pre_response' then Some pre_response'
         else pow_search C pre_response' (pow + 1))"

text \<open>\<open>None\<close>: the search does not end.\<close>

definition respond_to_challenge_in_place ::
  "('pk, 'kp, 'r, 'kem) crypto_layer \<Rightarrow> 'r \<Rightarrow> bytes \<Rightarrow> bytes \<Rightarrow> (bytes \<times> 'r) option" where
  "respond_to_challenge_in_place C rng challenge pre_response =
     (if drop POW_START challenge = drop POW_START pre_response
      then (case next_u64 C rng of (pow, rng') \<Rightarrow>
              map_option (\<lambda>p. (p, rng')) (pow_search C challenge pow))
      else Some (pre_response, rng))"

definition ChallengeContext_new ::
  "('pk, 'kp, 'r, 'kem) crypto_layer \<Rightarrow> 'r \<Rightarrow> challenge_context \<times> 'r" where
  "ChallengeContext_new C rng =
     (case fill_bytes C SALT_SIZE rng of (salt, rng') \<Rightarrow>
        (\<lparr>cc_enabled = False, cc_counter = 0,
          cc_antireplay_window = window_new CHALLENGE_COUNTER_WINDOW_MAX_OOO, cc_salt = salt\<rparr>, rng'))"

definition create_mac ::
  "('pk, 'kp, 'r, 'kem) crypto_layer \<Rightarrow> challenge_context \<Rightarrow> u64 \<Rightarrow> bytes \<Rightarrow> bytes" where
  "create_mac C self c addr = take MAC_SIZE (sha512 C (u64_to_be_bytes c @ addr @ cc_salt self))"

definition process_hello ::
  "('pk, 'kp, 'r, 'kem) crypto_layer \<Rightarrow> challenge_context \<Rightarrow> bytes \<Rightarrow> bytes
     \<Rightarrow> (bytes, bool) outcome \<times> challenge_context" where
  "process_hello C self addr response =
     (if \<not> cc_enabled self then (Ok False, self)
      else
        let c = u64_from_be_bytes (take COUNTER_SIZE response)
        in if check_window (cc_antireplay_window self) c
              \<and> secure_eq (subslice COUNTER_SIZE POW_START response) (create_mac C self c addr)
              \<and> verify_pow C response
           then (Ok True, self\<lparr>cc_antireplay_window := update_window (cc_antireplay_window self) c\<rparr>)
           else
             let challenge = replicate CHALLENGE_SIZE 0;
                 d = cc_counter self;
                 self' = self\<lparr>cc_counter := cc_counter self + 1\<rparr>;
                 challenge = write_at 0 (u64_to_be_bytes d) challenge;
                 challenge = write_at COUNTER_SIZE (create_mac C self' d addr) challenge;
                 challenge = write_at POW_START (drop POW_START response) challenge
             in (Err challenge, self'))"

text \<open>The counters admitted over a sequence of hello packets, each with its sender's address.\<close>

primrec admitted ::
  "('pk, 'kp, 'r, 'kem) crypto_layer \<Rightarrow> challenge_context \<Rightarrow> (bytes \<times> bytes) list \<Rightarrow> u64 list" where
  "admitted C self [] = []"
| "admitted C self (x # xs) =
     (case process_hello C self (fst x) (snd x) of
        (r, self') \<Rightarrow>
          (if r = Ok True then [u64_from_be_bytes (take COUNTER_SIZE (snd x))] else []) @ admitted C self' xs)"

section \<open>Proof of work\<close>

lemma length_takeWhile_ge:
  "k \<le> length (takeWhile P xs) \<longleftrightarrow> k \<le> length xs \<and> (\<forall>i<k. P (xs ! i))"
proof (induction xs arbitrary: k)
  case Nil
  then show ?case by auto
next
  case (Cons x xs)
  show ?case
  proof (cases k)
    case 0
    then show ?thesis by simp
  next
    case (Suc m)
    with Cons [of m] show ?thesis by (auto simp: less_Suc_eq_0_disj)
  qed
qed

lemma leading_zeros_iff: "13 \<le> leading_zeros w \<longleftrightarrow> unat w < 2 ^ 19"
proof -
  have nth: "rev [0..<32] ! i = 31 - i" if "i < 13" for i :: nat
    using that by (simp add: rev_nth)
  have "13 \<le> leading_zeros w \<longleftrightarrow> (\<forall>i<13. \<not> bit w (31 - i))"
    by (auto simp: leading_zeros_def length_takeWhile_ge nth)
  also have "\<dots> \<longleftrightarrow> (\<forall>j. 19 \<le> j \<longrightarrow> \<not> bit w j)"
  proof safe
    fix j assume h: "\<forall>i<13. \<not> bit w (31 - i)" "19 \<le> j" "bit w j"
    from h(3) have "j < 32" using bit_imp_le_length by force
    with h(2) have "31 - j < 13" "31 - (31 - j) = j" by simp_all
    with h(1,3) show False by metis
  qed auto
  also have "\<dots> \<longleftrightarrow> take_bit 19 w = w"
  proof
    assume "\<forall>j. 19 \<le> j \<longrightarrow> \<not> bit w j"
    then show "take_bit 19 w = w" by (intro bit_eqI) (auto simp: bit_take_bit_iff not_le [symmetric])
  next
    assume w: "take_bit 19 w = w"
    show "\<forall>j. 19 \<le> j \<longrightarrow> \<not> bit w j" by (subst w [symmetric]) (auto simp: bit_take_bit_iff)
  qed
  also have "\<dots> \<longleftrightarrow> unat w < 2 ^ 19"
    by (metis unsigned_take_bit_eq take_bit_nat_eq_self_iff unsigned_word_eqI)
  finally show ?thesis .
qed

text \<open>
  The search loop of both crates: it writes an encoding of the candidate to the same eight
  bytes every time, tests it, and counts on with \<open>wrapping_add\<close>.
\<close>

locale pow_loop =
  fixes search :: "bytes \<Rightarrow> u64 \<Rightarrow> bytes option"
    and enc :: "u64 \<Rightarrow> bytes"
    and verify :: "bytes \<Rightarrow> bool"
  assumes enc_length: "length (enc x) = 8"
    and search_unfold: "search pre x =
      (if verify (write_at 24 (enc x) pre) then Some (write_at 24 (enc x) pre)
       else search (write_at 24 (enc x) pre) (x + 1))"
begin

lemma enc_overwrites: "length pre = 32 \<Longrightarrow> write_at 24 (enc b) (write_at 24 (enc a) pre) = write_at 24 (enc b) pre"
  by (rule write_at_write_at) (simp_all add: enc_length)

lemma search_finds:
  "length pre = 32 \<Longrightarrow> verify (write_at 24 (enc p) pre) \<Longrightarrow>
   \<exists>q. search pre start = Some (write_at 24 (enc q) pre) \<and> verify (write_at 24 (enc q) pre)"
proof (induction "unat (p - start)" arbitrary: start pre)
  case 0
  then have "p = start" by (simp add: unat_eq_zero)
  with 0 show ?case by (intro exI [of _ p]) (simp add: search_unfold)
next
  case (Suc d)
  show ?case
  proof (cases "verify (write_at 24 (enc start) pre)")
    case True
    then show ?thesis by (intro exI [of _ start]) (simp add: search_unfold)
  next
    case False
    let ?pre = "write_at 24 (enc start) pre"
    have "p - start \<noteq> 0" using Suc.hyps(2) by auto
    then have "unat (p - start - 1) = unat (p - start) - 1" by (simp add: unat_minus_one)
    then have "d = unat (p - (start + 1))" using Suc.hyps(2) by (simp add: diff_diff_add)
    moreover have "verify (write_at 24 (enc p) ?pre)"
      using Suc.prems by (simp add: enc_overwrites)
    ultimately obtain q where "search ?pre (start + 1) = Some (write_at 24 (enc q) ?pre)"
      "verify (write_at 24 (enc q) ?pre)"
      using Suc.hyps(1) [of "start + 1" ?pre] Suc.prems(1) by (auto simp: enc_length)
    then show ?thesis
      using False Suc.prems(1)
      by (intro exI [of _ q]) (subst search_unfold, simp add: enc_overwrites)
  qed
qed

end

interpretation reference_pow: pow_loop "pow_search C" u64_to_be_bytes "verify_pow C" for C
  by unfold_locales (simp_all add: pow_search.simps Let_def zssp_sizes)

lemma pow_search_length:
  fixes C :: "('pk, 'kp, 'r, 'kem) crypto_layer"
  shows "pow_search C pre pow = Some r \<Longrightarrow> length pre = 32 \<longrightarrow> length r = 32"
proof (rule pow_search.raw_induct [where P = "\<lambda>C pre pow r. length pre = 32 \<longrightarrow> length r = 32"])
  fix search :: "('pk, 'kp, 'r, 'kem) crypto_layer \<Rightarrow> bytes \<Rightarrow> u64 \<Rightarrow> bytes option"
  fix C pre pow r
  assume ih: "\<And>C pre pow r. search C pre pow = Some r \<Longrightarrow> length pre = 32 \<longrightarrow> length r = 32"
  assume eq: "(let pre' = write_at POW_START (u64_to_be_bytes pow) pre
     in if verify_pow C pre' then Some pre' else search C pre' (pow + 1)) = Some r"
  show "length pre = 32 \<longrightarrow> length r = 32"
    using eq ih [of C "write_at 24 (u64_to_be_bytes pow) pre" "pow + 1" r]
    by (auto simp: Let_def zssp_sizes split: if_splits)
qed

lemma respond_to_challenge_length:
  "respond_to_challenge_in_place C rng ch pre = Some (resp, rng') \<Longrightarrow> length ch = 32 \<Longrightarrow> length pre = 32 \<Longrightarrow>
   length resp = 32"
  by (auto simp: respond_to_challenge_in_place_def dest: pow_search_length split: if_splits prod.splits)

section \<open>The challenge packet\<close>

lemma length_create_mac: "crypto_sized C \<Longrightarrow> length (create_mac C cc c addr) = 16"
  by (simp add: create_mac_def zssp_sizes crypto_sizedD)

lemma process_hello_challenge:
  assumes "crypto_sized C" "length response = 32" "process_hello C cc addr response = (Err ch, cc')"
  shows "cc' = cc\<lparr>cc_counter := cc_counter cc + 1\<rparr>" "cc_enabled cc"
    and "ch = u64_to_be_bytes (cc_counter cc) @ create_mac C cc' (cc_counter cc) addr @ drop 24 response"
  using assms length_create_mac [OF assms(1)]
  by (auto simp: process_hello_def Let_def zssp_sizes write_at_def split: if_splits)

lemma process_hello_response:
  assumes "crypto_sized C" "cc_enabled cc" "check_window (cc_antireplay_window cc) d"
    and "verify_pow C (u64_to_be_bytes d @ create_mac C cc d addr @ pow)"
  shows "process_hello C cc addr (u64_to_be_bytes d @ create_mac C cc d addr @ pow) =
     (Ok True, cc\<lparr>cc_antireplay_window := update_window (cc_antireplay_window cc) d\<rparr>)"
  using assms length_create_mac [OF assms(1), of cc d addr]
  by (simp add: process_hello_def Let_def zssp_sizes subslice_middle)

lemma process_hello_window:
  assumes "process_hello C cc addr response = (r, cc')"
  defines "c \<equiv> u64_from_be_bytes (take COUNTER_SIZE response)"
  shows "if r = Ok True
         then take_window (cc_antireplay_window cc) c = (True, cc_antireplay_window cc')
         else cc_antireplay_window cc' = cc_antireplay_window cc"
  using assms by (auto simp: process_hello_def Let_def take_window_def split: if_splits)

lemma admitted_not_taken:
  "window_wf (cc_antireplay_window cc) \<Longrightarrow> wrapping_taken (cc_antireplay_window cc) c \<Longrightarrow>
   c \<notin> set (admitted C cc hellos)"
proof (induction hellos arbitrary: cc)
  case Nil
  then show ?case by simp
next
  case (Cons x hellos)
  obtain r cc' where p: "process_hello C cc (fst x) (snd x) = (r, cc')" by fastforce
  let ?d = "u64_from_be_bytes (take COUNTER_SIZE (snd x))"
  note w = process_hello_window [OF p]
  have "window_wf (cc_antireplay_window cc')" "wrapping_taken (cc_antireplay_window cc') c"
    using w challenge_window.upd_wf [of "cc_antireplay_window cc" ?d]
      challenge_window.taken_stays [of "cc_antireplay_window cc" c ?d] Cons.prems
    by (auto split: if_splits)
  moreover have "r = Ok True \<Longrightarrow> ?d \<noteq> c"
    using w challenge_window.taken_refused [of "cc_antireplay_window cc" c] Cons.prems by auto
  ultimately show ?case using Cons.IH p by auto
qed

lemma sample_verify_pow: "verify_pow sample_crypto response"
proof -
  have "nat_of_be (replicate n 0) = 0" for n by (induction n) (simp_all add: nat_of_be_def)
  then show ?thesis
    by (simp add: verify_pow_def zssp_sizes leading_zeros_iff sample_crypto_def u32_from_be_bytes_def)
qed

section \<open>Properties\<close>

text \<open>C32: The search for a proof of work returns, from any starting value, whenever at least one
  of the \<open>2^64\<close> values is a proof of work for the challenge; its result differs from the
  challenge in the last eight bytes only and passes \<open>verify_pow\<close>.\<close>

theorem pow_search_returns:
  assumes "length challenge = CHALLENGE_SIZE"
    and "\<exists>p. verify_pow C (write_at POW_START (u64_to_be_bytes p) challenge)"
  shows "\<exists>response. pow_search C challenge start = Some response \<and> verify_pow C response \<and>
    length response = CHALLENGE_SIZE \<and> take POW_START response = take POW_START challenge"
proof -
  obtain p where p: "verify_pow C (write_at 24 (u64_to_be_bytes p) challenge)"
    using assms(2) by (auto simp: zssp_sizes)
  have l: "length challenge = 32" using assms(1) by (simp add: zssp_sizes)
  show ?thesis using reference_pow.search_finds [OF l p, of start] l
    by (auto simp: zssp_sizes write_at_def)
qed

theorem pow_search_returns_witness:
  "\<exists>response. pow_search sample_crypto (replicate 32 0) 77 = Some response \<and>
     verify_pow sample_crypto response \<and>
    length response = CHALLENGE_SIZE \<and> take POW_START response = take POW_START (replicate 32 0)"
  by (rule pow_search_returns) (simp_all add: zssp_sizes sample_verify_pow)

text \<open>C26: The challenge protocol admits an honest responder. Bob answers a hello with a challenge;
  Alice recognises it as the answer to her hello, finds a proof of work and sends the
  response; Bob, asked from the same address, admits it. The same response sent again is
  refused with a new challenge.\<close>

theorem challenge_roundtrip:
  assumes "crypto_sized C" "length hello = CHALLENGE_SIZE"
    and "process_hello C cc addr hello = (Err ch, cc')"
    and "check_window (cc_antireplay_window cc) (cc_counter cc)"
    and "window_wf (cc_antireplay_window cc)"
    and "\<exists>p. verify_pow C (write_at POW_START (u64_to_be_bytes p) ch)"
  shows "\<exists>resp rng' cc'' ch2. respond_to_challenge_in_place C rng ch hello = Some (resp, rng') \<and>
    process_hello C cc' addr resp = (Ok True, cc'') \<and> fst (process_hello C cc'' addr resp) = Err ch2"
proof -
  let ?d = "cc_counter cc"
  have l: "length hello = 32" using assms(2) by (simp add: zssp_sizes)
  note ch = process_hello_challenge [OF assms(1) l assms(3)]
  have lch: "length ch = 32" using ch(3) l length_create_mac [OF assms(1)] by simp
  have pre: "write_at 24 p ch = u64_to_be_bytes ?d @ create_mac C cc' ?d addr @ p" if "length p = 8" for p
    using that l length_create_mac [OF assms(1)] by (simp add: ch(3) write_at_def)
  obtain p where "verify_pow C (write_at 24 (u64_to_be_bytes p) ch)"
    using assms(6) by (auto simp: zssp_sizes)
  then obtain q where q: "pow_search C ch (fst (next_u64 C rng)) = Some (write_at 24 (u64_to_be_bytes q) ch)"
      "verify_pow C (write_at 24 (u64_to_be_bytes q) ch)"
    using reference_pow.search_finds [OF lch] by blast
  let ?resp = "write_at 24 (u64_to_be_bytes q) ch"
  let ?w = "update_window (cc_antireplay_window cc') ?d"
  have r: "respond_to_challenge_in_place C rng ch hello = Some (?resp, snd (next_u64 C rng))"
    using q l length_create_mac [OF assms(1)]
    by (simp add: respond_to_challenge_in_place_def zssp_sizes ch(3) case_prod_beta)
  have cc': "cc_enabled cc'" "cc_antireplay_window cc' = cc_antireplay_window cc" using ch by simp_all
  have a: "process_hello C cc' addr ?resp = (Ok True, cc'\<lparr>cc_antireplay_window := ?w\<rparr>)"
    using process_hello_response [OF assms(1) cc'(1), of ?d addr "u64_to_be_bytes q"] assms(4) q(2) cc'(2)
    by (simp add: pre)
  have "\<not> check_window ?w ?d"
    using assms(5) cc'(2) by (simp add: check_window_def update_window_def Let_def window_slot_less)
  then have "\<exists>ch2. fst (process_hello C (cc'\<lparr>cc_antireplay_window := ?w\<rparr>) addr ?resp) = Err ch2"
    using cc' by (simp add: process_hello_def Let_def pre zssp_sizes)
  with r a show ?thesis by blast
qed

theorem challenge_roundtrip_witness:
  "let cc = (fst (ChallengeContext_new sample_crypto 5))\<lparr>cc_enabled := True\<rparr>;
       hello = replicate 32 7
   in \<exists>ch cc'. process_hello sample_crypto cc [10, 0, 0, 1] hello = (Err ch, cc') \<and>
      (\<exists>resp rng' cc'' ch2. respond_to_challenge_in_place sample_crypto 9 ch hello = Some (resp, rng') \<and>
         process_hello sample_crypto cc' [10, 0, 0, 1] resp = (Ok True, cc'') \<and>
         fst (process_hello sample_crypto cc'' [10, 0, 0, 1] resp) = Err ch2)"
proof -
  let ?cc = "(fst (ChallengeContext_new sample_crypto 5))\<lparr>cc_enabled := True\<rparr>"
  let ?hello = "replicate 32 7 :: u8 list"
  have l: "length ?hello = CHALLENGE_SIZE"
    by (simp add: zssp_sizes)
  obtain r cc' where p: "process_hello sample_crypto ?cc [10, 0, 0, 1] ?hello = (r, cc')" by fastforce
  have w: "cc_antireplay_window ?cc = window_new 32" "cc_counter ?cc = 0"
    by (simp_all add: ChallengeContext_new_def case_prod_beta zssp_sizes)
  have "r \<noteq> Ok True \<and> r \<noteq> Ok False \<and> returns r"
    using p
    by (auto simp: process_hello_def Let_def zssp_sizes sample_crypto_def
        ChallengeContext_new_def create_mac_def write_at_def subslice_def split: if_splits)
  then obtain ch where p': "process_hello sample_crypto ?cc [10, 0, 0, 1] ?hello = (Err ch, cc')"
    using p by (cases r; cases "r = Ok True"; cases "r = Ok False") (auto simp: returns_def split: outcome.splits)
  have "\<exists>resp rng' cc'' ch2. respond_to_challenge_in_place sample_crypto 9 ch ?hello = Some (resp, rng') \<and>
         process_hello sample_crypto cc' [10, 0, 0, 1] resp = (Ok True, cc'') \<and>
         fst (process_hello sample_crypto cc'' [10, 0, 0, 1] resp) = Err ch2"
    by (rule challenge_roundtrip [OF sample_crypto_sized l p'])
       (simp_all add: w check_window_def window_slot_def window_new_def window_wf_def sample_verify_pow)
  with p' show ?thesis by (auto simp: Let_def)
qed

text \<open>C31: No challenge counter is admitted twice, over any sequence of hello packets from any
  addresses.\<close>

theorem challenge_admits_once:
  assumes "window_wf (cc_antireplay_window cc)"
  shows "distinct (admitted C cc hellos)"
  using assms
proof (induction hellos arbitrary: cc)
  case Nil
  then show ?case by simp
next
  case (Cons x hellos)
  obtain r cc' where p: "process_hello C cc (fst x) (snd x) = (r, cc')" by fastforce
  let ?d = "u64_from_be_bytes (take COUNTER_SIZE (snd x))"
  note w = process_hello_window [OF p]
  have wf: "window_wf (cc_antireplay_window cc')"
    using w challenge_window.upd_wf [of "cc_antireplay_window cc" ?d] Cons.prems by (auto split: if_splits)
  have "r = Ok True \<Longrightarrow> wrapping_taken (cc_antireplay_window cc') ?d"
    using w challenge_window.upd_taken [of "cc_antireplay_window cc" ?d] Cons.prems by auto
  then show ?case using Cons.IH [OF wf] p admitted_not_taken [OF wf, of ?d C hellos] by auto
qed

theorem challenge_admits_once_witness:
  "distinct (admitted sample_crypto ((fst (ChallengeContext_new sample_crypto 5))\<lparr>cc_enabled := True\<rparr>)
     [([1], replicate 32 0), ([1], replicate 32 0), ([2], replicate 32 7)])"
  by (rule challenge_admits_once)
     (simp add: ChallengeContext_new_def case_prod_beta window_wf_def window_new_def zssp_sizes)

end
