(* ===== verification/Zeta_State.thy ===== *)
theory Zeta_State
  imports Symmetric_State Application Fragmentation Challenge Sample_Crypto
begin

text \<open>
  The state of a session and of the context (\<open>reference/src/zeta.rs\<close>,
  \<open>ContextInner\<close> of \<open>reference/src/context.rs\<close>) and the operations that the transition
  algorithms share: nonces, key ids, the two key slots, counters, expiry and control packets.

  A session is an \<open>Arc<Session>\<close> and is named by its address. The world of a call is the
  context, the heap of the sessions that have a strong reference, the application's state
  and the packets handed to \<open>send\<close>, in order. \<open>Weak::upgrade\<close> is a look-up in the heap.
  Every transition takes the \<open>Zeta\<close> it borrowed and gives it back; \<open>Context\<close> writes it
  to the heap.
\<close>

section \<open>Data\<close>

record keys =
  key_kek :: "bytes option"
  key_nk :: "bytes option"
  key_kid :: "u32 option"

definition keys_default :: keys where
  "keys_default = \<lparr>key_kek = None, key_nk = None, key_kid = None\<rparr>"

record duplex_key =
  dk_send :: keys
  dk_recv :: keys

definition duplex_key_default :: duplex_key where
  "duplex_key_default = \<lparr>dk_send = keys_default, dk_recv = keys_default\<rparr>"

datatype packet = Packet (p_kid: u32) (p_nonce: bytes) (p_payload: bytes)

record ('kp, 'kem) state_a1 =
  a1_noise :: symmetric_state
  a1_e_secret :: 'kp
  a1_e1_secret :: 'kem
  a1_identity :: bytes
  a1_packet :: packet

datatype ('kp, 'kem) zeta_automata =
    Null
  | A1 "('kp, 'kem) state_a1"
  | A3 bytes packet
  | S1
  | S2
  | R1 symmetric_state 'kp bytes
  | R2 bytes

text \<open>The array \<open>keys: [DuplexKey; 2]\<close> is indexed by a \<open>bool\<close> cast to \<open>usize\<close>.\<close>

record ('pk, 'kp, 'kem, 'd) zeta =
  z_session_data :: 'd
  z_was_bob :: bool
  z_s_remote :: 'pk
  z_send_counter :: u64
  z_key_creation_counter :: u64
  z_key_index :: bool
  z_keys :: "bool \<Rightarrow> duplex_key"
  z_ratchet_state1 :: ratchet_state
  z_ratchet_state2 :: "ratchet_state option"
  z_hk_send :: bytes
  z_resend_timer :: i64
  z_timeout_timer :: i64
  z_beta :: "('kp, 'kem) zeta_automata"
  z_counter_antireplay_window :: "u64 list"
  z_defrag :: defrag_buffer

record 'kp state_b2 =
  b2_ratchet_state :: ratchet_state
  b2_kid_send :: u32
  b2_kid_recv :: u32
  b2_hk_send :: bytes
  b2_e_secret :: 'kp
  b2_noise :: symmetric_state
  b2_defrag :: defrag_buffer

text \<open>
  \<open>sessions\<close> maps an address to the weak pointer to the same address, so its keys say it
  all. \<open>ctx_sessions_borrowed\<close> is the state of that \<open>RefCell\<close>; the others are never
  borrowed across a call that borrows them. \<open>ctx_next_session\<close> is the allocator's next
  address.
\<close>

record ('pk, 'kp, 'r, 'kem, 'd) context_inner =
  ctx_rng :: 'r
  ctx_s_secret :: 'kp
  ctx_session_map :: "u32 \<rightharpoonup> session_id"
  ctx_sessions :: "session_id set"
  ctx_sessions_borrowed :: bool
  ctx_b2_map :: "u32 \<rightharpoonup> 'kp state_b2"
  ctx_hello_defrag :: defrag_buffer
  ctx_challenge :: challenge_context
  ctx_heap :: "session_id \<rightharpoonup> ('pk, 'kp, 'kem, 'd) zeta"
  ctx_next_session :: session_id

record ('pk, 'kp, 'r, 'kem, 'd, 'a) world = "('pk, 'kp, 'r, 'kem, 'd) context_inner" +
  w_app :: 'a
  w_sent :: "(packet \<times> bytes option) list"

definition emit ::
  "packet \<Rightarrow> bytes option \<Rightarrow> ('pk, 'kp, 'r, 'kem, 'd, 'a) world \<Rightarrow> ('pk, 'kp, 'r, 'kem, 'd, 'a) world" where
  "emit p hk w = w\<lparr>w_sent := w_sent w @ [(p, hk)]\<rparr>"

text \<open>\<open>app.time()\<close>.\<close>

definition time_now ::
  "('pk, 'd, 'a) application_layer \<Rightarrow> ('pk, 'kp, 'r, 'kem, 'd, 'a) world
     \<Rightarrow> i64 \<times> ('pk, 'kp, 'r, 'kem, 'd, 'a) world" where
  "time_now A w = (case app_time A (w_app w) of (t, a) \<Rightarrow> (t, w\<lparr>w_app := a\<rparr>))"

text \<open>\<open>app.save_ratchet_state(...)\<close>.\<close>

definition save_ratchet ::
  "('pk, 'd, 'a) application_layer \<Rightarrow> 'pk \<Rightarrow> 'd \<Rightarrow> compare_and_swap
     \<Rightarrow> ('pk, 'kp, 'r, 'kem, 'd, 'a) world \<Rightarrow> (io_error + bool) \<times> ('pk, 'kp, 'r, 'kem, 'd, 'a) world" where
  "save_ratchet A pk d u w = (case app_save_ratchet_state A pk d u (w_app w) of (r, a) \<Rightarrow> (r, w\<lparr>w_app := a\<rparr>))"

section \<open>Nonces\<close>

definition to_nonce :: "u8 \<Rightarrow> u64 \<Rightarrow> bytes" where
  "to_nonce packet_type counter =
     write_at 4 (u64_to_be_bytes counter) ((replicate AES_GCM_NONCE_SIZE 0)[3 := packet_type])"

text \<open>The \<open>assert!\<close> holds at every call site: nonces have 10 or 12 bytes.\<close>

definition from_nonce :: "bytes \<Rightarrow> u8 \<times> u64" where
  "from_nonce n =
     (let c_start = length n - 8 in (n ! (c_start - 1), u64_from_be_bytes (drop c_start n)))"

definition to_aes_nonce :: "bytes \<Rightarrow> bytes" where
  "to_aes_nonce pn = write_at 2 pn (replicate AES_GCM_NONCE_SIZE 0)"

definition to_packet_nonce :: "bytes \<Rightarrow> bytes" where
  "to_packet_nonce n = drop (length n - PACKET_NONCE_SIZE) n"

section \<open>Key ids\<close>

text \<open>The loop may draw used ids for ever: \<open>None\<close>.\<close>

partial_function (option) gen_kid ::
  "('pk, 'kp, 'r, 'kem) crypto_layer \<Rightarrow> (u32 \<rightharpoonup> 'v) \<Rightarrow> 'r \<Rightarrow> (u32 \<times> 'r) option" where
  "gen_kid C session_map rng =
     (case next_u32 C rng of (x, rng') \<Rightarrow>
        (case NonZeroU32_new x of
           Some kid \<Rightarrow> if session_map kid = None then Some (kid, rng') else gen_kid C session_map rng'
         | None \<Rightarrow> gen_kid C session_map rng'))"

definition key_ref :: "('pk, 'kp, 'kem, 'd) zeta \<Rightarrow> bool \<Rightarrow> duplex_key" where
  "key_ref self is_next = z_keys self (z_key_index self \<noteq> is_next)"

text \<open>An assignment through \<open>key_mut(is_next)\<close>.\<close>

definition key_mut ::
  "('pk, 'kp, 'kem, 'd) zeta \<Rightarrow> bool \<Rightarrow> (duplex_key \<Rightarrow> duplex_key) \<Rightarrow> ('pk, 'kp, 'kem, 'd) zeta" where
  "key_mut self is_next f =
     self\<lparr>z_keys := (z_keys self)((z_key_index self \<noteq> is_next) := f (key_ref self is_next))\<rparr>"

definition recv_kid :: "('pk, 'kp, 'kem, 'd) zeta \<Rightarrow> bool \<Rightarrow> u32 option" where
  "recv_kid self is_next = key_kid (dk_recv (key_ref self is_next))"

definition set_recv_kid :: "u32 \<Rightarrow> duplex_key \<Rightarrow> duplex_key" where
  "set_recv_kid kid k = k\<lparr>dk_recv := (dk_recv k)\<lparr>key_kid := Some kid\<rparr>\<rparr>"

text \<open>
  \<open>remap\<close>: the weak pointer under the spare key's id moves to a fresh id. \<open>None\<close>: no fresh
  id is ever drawn.
\<close>

definition remap ::
  "('pk, 'kp, 'r, 'kem) crypto_layer \<Rightarrow> session_id \<Rightarrow> ('pk, 'kp, 'kem, 'd) zeta
     \<Rightarrow> ('pk, 'kp, 'r, 'kem, 'd, 'a) world \<Rightarrow> (u32 \<times> ('pk, 'kp, 'r, 'kem, 'd, 'a) world) option" where
  "remap C session z w =
     (let (weak, m) =
        (case recv_kid z True of
           Some kid \<Rightarrow>
             (case ctx_session_map w kid of
                Some s \<Rightarrow> (s, (ctx_session_map w)(kid := None))
              | None \<Rightarrow> (session, ctx_session_map w))
         | None \<Rightarrow> (session, ctx_session_map w))
      in case gen_kid C m (ctx_rng w) of
           None \<Rightarrow> None
         | Some (new_kid_recv, rng) \<Rightarrow>
             Some (new_kid_recv, w\<lparr>ctx_rng := rng, ctx_session_map := m(new_kid_recv \<mapsto> weak)\<rparr>))"

text \<open>The state of the generator after \<open>k\<close> draws; it draws a fresh non-zero key id sooner or later.\<close>

primrec draws :: "('pk, 'kp, 'r, 'kem) crypto_layer \<Rightarrow> nat \<Rightarrow> 'r \<Rightarrow> 'r" where
  "draws C 0 r = r"
| "draws C (Suc k) r = draws C k (snd (next_u32 C r))"

definition kids_live :: "('pk, 'kp, 'r, 'kem) crypto_layer \<Rightarrow> (u32 \<rightharpoonup> session_id) \<Rightarrow> bool" where
  "kids_live C m \<longleftrightarrow>
     (\<forall>r. \<exists>k. fst (next_u32 C (draws C k r)) \<noteq> 0 \<and> m (fst (next_u32 C (draws C k r))) = None)"

text \<open>The generator still finds a fresh key id when up to \<open>n\<close> of them are in use.\<close>

definition kids_room :: "('pk, 'kp, 'r, 'kem) crypto_layer \<Rightarrow> nat \<Rightarrow> bool" where
  "kids_room C n \<longleftrightarrow> (\<forall>m. card (dom m) \<le> n \<longrightarrow> kids_live C m)"

section \<open>Counters, timers and expiry\<close>

text \<open>The methods of \<open>Zeta\<close> on its anti-replay window.\<close>

definition zeta_check_counter_window :: "('pk, 'kp, 'kem, 'd) zeta \<Rightarrow> u64 \<Rightarrow> bool" where
  "zeta_check_counter_window self c = check_counter_window (z_counter_antireplay_window self) c"

definition zeta_update_counter_window ::
  "('pk, 'kp, 'kem, 'd) zeta \<Rightarrow> u64 \<Rightarrow> bool \<times> ('pk, 'kp, 'kem, 'd) zeta" where
  "zeta_update_counter_window self c =
     (case update_counter_window (z_counter_antireplay_window self) c of
        (ok, win) \<Rightarrow> (ok, self\<lparr>z_counter_antireplay_window := win\<rparr>))"

text \<open>Removing one receive id from both tables of the context.\<close>

definition forget_kid ::
  "u32 option \<Rightarrow> ('pk, 'kp, 'r, 'kem, 'd, 'a) world \<Rightarrow> ('pk, 'kp, 'r, 'kem, 'd, 'a) world" where
  "forget_kid kid w =
     (case kid of
        None \<Rightarrow> w
      | Some kid_recv \<Rightarrow>
          (case ctx_session_map w kid_recv of
             None \<Rightarrow> w
           | Some s \<Rightarrow> w\<lparr>ctx_session_map := (ctx_session_map w)(kid_recv := None),
                          ctx_sessions := ctx_sessions w - {s}\<rparr>))"

text \<open>
  \<open>Zeta::expire\<close>. \<open>upgrade\<close> says whether the weak pointer to the context upgrades; it
  does while a call of the context runs. The borrow of \<open>sessions\<close> panics when the table is
  already borrowed, after the automaton and the timers were reset.
\<close>

definition expire ::
  "bool \<Rightarrow> ('pk, 'kp, 'kem, 'd) zeta \<Rightarrow> ('pk, 'kp, 'r, 'kem, 'd, 'a) world
     \<Rightarrow> ('e, unit) outcome \<times> ('pk, 'kp, 'kem, 'd) zeta \<times> ('pk, 'kp, 'r, 'kem, 'd, 'a) world" where
  "expire upgrade self w =
     (let self = self\<lparr>z_resend_timer := I64_MAX, z_timeout_timer := I64_MAX, z_beta := Null\<rparr>
      in if \<not> upgrade then (Ok (), self, w)
         else if ctx_sessions_borrowed w then (Panic, self, w)
         else (Ok (), self,
           forget_kid (key_kid (dk_recv (z_keys self True)))
             (forget_kid (key_kid (dk_recv (z_keys self False))) w)))"

definition next_timer :: "('pk, 'kp, 'kem, 'd) zeta \<Rightarrow> i64" where
  "next_timer self = min (z_timeout_timer self) (z_resend_timer self)"

definition get_counter ::
  "('pk, 'kp, 'r, 'kem) crypto_layer \<Rightarrow> ('pk, 'kp, 'kem, 'd) zeta
     \<Rightarrow> (u64 \<times> bool) option \<times> ('pk, 'kp, 'kem, 'd) zeta" where
  "get_counter C self =
     (let c = z_send_counter self
      in if HARD_EXPIRATION \<le> c then (None, self)
         else (Some (c, saturating_add (z_key_creation_counter self) (rekey_after_key_uses (SETTINGS C)) \<le> c),
               self\<lparr>z_send_counter := z_send_counter self + 1\<rparr>))"

text \<open>\<open>current_time + C::SETTINGS.x as i64\<close>.\<close>

definition after :: "i64 \<Rightarrow> u64 \<Rightarrow> i64" where
  "after current_time ms = i64_add current_time (as_i64 ms)"

section \<open>Control packets\<close>

definition send_control ::
  "('pk, 'kp, 'r, 'kem) crypto_layer \<Rightarrow> ('pk, 'kp, 'kem, 'd) zeta \<Rightarrow> u8 \<Rightarrow> bytes
     \<Rightarrow> ('pk, 'kp, 'r, 'kem, 'd, 'a) world
     \<Rightarrow> bool \<times> ('pk, 'kp, 'kem, 'd) zeta \<times> ('pk, 'kp, 'r, 'kem, 'd, 'a) world" where
  "send_control C self packet_type payload w =
     (case get_counter C self of
        (None, self) \<Rightarrow> (False, self, w)
      | (Some (c, _), self) \<Rightarrow>
          (case (key_kek (dk_send (key_ref self False)), key_kid (dk_send (key_ref self False))) of
             (Some kek, Some kid) \<Rightarrow>
               (let nonce = to_nonce packet_type c
                in case aead_encrypt_in_place C kek nonce None payload of
                     (ct, tag) \<Rightarrow> (True, self, emit (Packet kid nonce (ct @ tag)) (Some (z_hk_send self)) w))
           | _ \<Rightarrow> (False, self, w)))"

section \<open>What nonces carry\<close>

lemma from_to_nonce [simp]: "from_nonce (to_nonce t c) = (t, c)"
  by (simp add: from_nonce_def to_nonce_def Let_def zssp_sizes write_at_def numeral_eq_Suc)

lemma length_to_nonce [simp]: "length (to_nonce t c) = 12"
  by (simp add: to_nonce_def zssp_sizes)

text \<open>The nonce carries the last eight bytes of the message.\<close>

lemma drop_to_nonce: "length bs = 8 \<Longrightarrow> drop 4 (to_nonce t (u64_from_be_bytes bs)) = bs"
  by (simp add: to_nonce_def write_at_def zssp_sizes u64_to_from_be)

text \<open>The counter of the response is made of the last three bytes of its payload.\<close>

lemma counter_of_three:
  assumes "length bs = 3"
  shows "u64_from_be_bytes (write_at 5 bs (replicate 8 0)) < COUNTER_WINDOW_MAX_SKIP_AHEAD"
    and "drop 9 (to_nonce t (u64_from_be_bytes (write_at 5 bs (replicate 8 0)))) = bs"
proof -
  let ?v = "write_at 5 bs (replicate 8 (0 :: u8))"
  have v: "?v = replicate 5 0 @ bs" "length ?v = 8" using assms by (simp_all add: write_at_def)
  have "nat_of_be ?v = nat_of_be bs"
    unfolding v(1) by (simp add: nat_of_be_def numeral_eq_Suc)
  then have n: "nat_of_be ?v < 2 ^ 24" using nat_of_be_less [of bs] assms by simp
  then have "unat (u64_from_be_bytes ?v) = nat_of_be ?v"
    by (simp add: u64_from_be_bytes_def unat_of_nat take_bit_eq_mod)
  with n show "u64_from_be_bytes ?v < COUNTER_WINDOW_MAX_SKIP_AHEAD"
    by (simp add: word_less_nat_alt zssp_sizes)
  have "drop 9 (to_nonce t (u64_from_be_bytes ?v)) = drop 5 (drop 4 (to_nonce t (u64_from_be_bytes ?v)))"
    by simp
  also have "\<dots> = drop 5 ?v" by (simp only: drop_to_nonce [OF v(2)])
  finally show "drop 9 (to_nonce t (u64_from_be_bytes ?v)) = bs" using v(1) by simp
qed

section \<open>The search for a key id\<close>

lemma gen_kid_fresh:
  fixes C :: "('pk, 'kp, 'r, 'kem) crypto_layer" and m :: "u32 \<rightharpoonup> 'v"
  assumes "gen_kid C m rng = Some q"
  shows "fst q \<noteq> 0 \<and> m (fst q) = None"
proof (rule gen_kid.raw_induct [where P = "\<lambda>C m rng q. fst q \<noteq> 0 \<and> m (fst q) = None", OF _ assms])
  fix gen :: "('pk, 'kp, 'r, 'kem) crypto_layer \<Rightarrow> (u32 \<rightharpoonup> 'v) \<Rightarrow> 'r \<Rightarrow> (u32 \<times> 'r) option"
  fix C m rng q
  assume ih: "\<And>C m rng q. gen C m rng = Some q \<Longrightarrow> fst q \<noteq> 0 \<and> m (fst q) = None"
    and eq: "(case next_u32 C rng of (x, rng') \<Rightarrow>
        (case NonZeroU32_new x of
           None \<Rightarrow> gen C m rng'
         | Some kid \<Rightarrow> if m kid = None then Some (kid, rng') else gen C m rng')) = Some q"
  obtain x g where n: "next_u32 C rng = (x, g)" by fastforce
  show "fst q \<noteq> 0 \<and> m (fst q) = None"
    using eq ih [of C m g q] n by (cases q) (auto split: option.splits if_splits)
qed

lemma gen_kid_terminates:
  assumes "fst (next_u32 C (draws C k r)) \<noteq> 0" "m (fst (next_u32 C (draws C k r))) = None"
  shows "gen_kid C m r \<noteq> None"
  using assms
proof (induction k arbitrary: r)
  case 0
  then show ?case
    by (subst gen_kid.simps) (auto simp: NonZeroU32_new_def split: prod.splits)
next
  case (Suc k)
  then have "gen_kid C m (snd (next_u32 C r)) \<noteq> None" by simp
  then show ?case
    by (subst gen_kid.simps) (auto split: prod.splits option.splits)
qed

lemma kids_liveD: "kids_live C m \<Longrightarrow> \<exists>kid r'. gen_kid C m r = Some (kid, r')"
  using gen_kid_terminates [of C _ r m] unfolding kids_live_def by (metis not_None_eq surj_pair)

lemma kids_live_mono: "kids_live C m \<Longrightarrow> m' \<subseteq>\<^sub>m m \<Longrightarrow> kids_live C m'"
  unfolding kids_live_def map_le_def by (metis domIff)

lemma sample_kids_live: "kids_live sample_crypto Map.empty"
proof -
  have "\<exists>k. fst (next_u32 sample_crypto (draws sample_crypto k r)) \<noteq> 0" for r
  proof (cases "word_of_nat r = (0 :: u32)")
    case True
    then show ?thesis by (intro exI [of _ 1]) (simp add: sample_crypto_def)
  next
    case False
    then show ?thesis by (intro exI [of _ 0]) (simp add: sample_crypto_def)
  qed
  then show ?thesis by (simp add: kids_live_def)
qed

lemma kids_roomD: "kids_room C n \<Longrightarrow> card (dom m) \<le> n \<Longrightarrow> kids_live C m"
  by (simp add: kids_room_def)

lemma kids_room_mono: "kids_room C n \<Longrightarrow> k \<le> n \<Longrightarrow> kids_room C k"
  by (auto simp: kids_room_def)

lemma card_dom_update: "card (dom (m(kid \<mapsto> s))) \<le> Suc (card (dom (m :: u32 \<rightharpoonup> 'v)))"
  by (simp add: card_insert_if)

lemma card_dom_mono: "dom m \<subseteq> dom m' \<Longrightarrow> card (dom (m :: u32 \<rightharpoonup> 'v)) \<le> card (dom (m' :: u32 \<rightharpoonup> 'v))"
  by (rule card_mono) simp_all

text \<open>The generator of the sample layer counts through all ids.\<close>

lemma sample_draws: "draws sample_crypto k r = r + k"
  by (induction k arbitrary: r) (simp_all add: sample_crypto_def)

lemma sample_kids_room: "n < 2 ^ 32 - 1 \<Longrightarrow> kids_room sample_crypto n"
proof -
  assume n: "n < 2 ^ 32 - 1"
  have "\<exists>k. (word_of_nat (r + k) :: u32) \<noteq> 0 \<and> m (word_of_nat (r + k)) = None"
    if m: "card (dom m) \<le> n" for m :: "u32 \<rightharpoonup> session_id" and r
  proof -
    have "card (insert 0 (dom m)) < card (UNIV :: u32 set)"
      using m n card_insert_le_m1 [of "Suc n" "dom m" 0] by (simp add: card_insert_if card_word)
    then obtain kid where kid: "kid \<notin> insert 0 (dom m)" by (metis UNIV_eq_I less_irrefl)
    have "(word_of_nat (r + unat (kid - word_of_nat r)) :: u32) = kid" by simp
    with kid show ?thesis by (metis domIff insertI1 insertI2)
  qed
  then show ?thesis by (simp add: kids_room_def kids_live_def sample_draws) (simp add: sample_crypto_def)
qed

end
