(* ===== verification/Zeta_Handshake.thy ===== *)
theory Zeta_Handshake
  imports Zeta_State
begin

text \<open>
  The Noise XK handshake of \<open>reference/src/zeta.rs\<close>: Alice's first packet, the timer
  transition, Bob's answer, Alice's completion and Bob's acceptance (Transition Algorithms
  1 to 4 and 6, and the timer rules). A long function is cut at its own landmarks, in the
  order of the source; each part is a definition and the function composes them.
\<close>

type_synonym ('e, 'x, 'pk, 'kp, 'r, 'kem, 'd, 'a) zeta_result =
  "('e, 'x) outcome \<times> ('pk, 'kp, 'kem, 'd) zeta \<times> ('pk, 'kp, 'r, 'kem, 'd, 'a) world"

section \<open>Alice's hello\<close>

definition create_a1_state ::
  "('pk, 'kp, 'r, 'kem) crypto_layer \<Rightarrow> 'r \<Rightarrow> 'pk \<Rightarrow> u32 \<Rightarrow> ratchet_state \<Rightarrow> ratchet_state option \<Rightarrow> bytes
     \<Rightarrow> ('kp, 'kem) state_a1 \<times> 'r" where
  "create_a1_state C rng s_remote kid_recv ratchet_state1 ratchet_state2 ident =
     (let noise = initialize PROTOCOL_NAME_NOISE_XK;
          kid = u32_to_be_bytes kid_recv;
          x1 = kid;
          noise = mix_hash C noise kid;
          noise = mix_hash C noise (pk_to_bytes C s_remote);
          (e_secret, noise, rng, x1) = write_e C noise rng x1;
          noise = mix_dh C noise e_secret s_remote;
          i = length x1;
          ((e1_secret, e1_public), rng) = kem_generate C rng;
          (noise, x1) = encrypt_and_hash_in_place C noise
            (to_nonce PACKET_TYPE_HANDSHAKE_HELLO 0) i (x1 @ e1_public);
          i = length x1;
          x1 = x1 @ rs_fingerprint ratchet_state1
            @ (case ratchet_state2 of None \<Rightarrow> replicate RATCHET_SIZE 0 | Some rs \<Rightarrow> rs_fingerprint rs);
          (noise, x1) = encrypt_and_hash_in_place C noise
            (to_nonce PACKET_TYPE_HANDSHAKE_HELLO 1) i x1;
          c = u64_from_be_bytes (drop (length x1 - 8) x1);
          (response, rng) = gen_null_response C rng
      in (\<lparr>a1_noise = noise, a1_e_secret = e_secret, a1_e1_secret = e1_secret, a1_identity = ident,
           a1_packet = Packet 0 (to_nonce PACKET_TYPE_HANDSHAKE_HELLO c) (x1 @ response)\<rparr>, rng))"

text \<open>The \<open>Zeta\<close> of a new session in state A1, before the key id is stored.\<close>

definition new_a1_zeta ::
  "('pk, 'kp, 'r, 'kem) crypto_layer \<Rightarrow> 'd \<Rightarrow> 'pk \<Rightarrow> ratchet_states \<Rightarrow> bytes \<Rightarrow> bytes \<Rightarrow> i64
     \<Rightarrow> ('kp, 'kem) state_a1 \<Rightarrow> ('pk, 'kp, 'kem, 'd) zeta" where
  "new_a1_zeta C session_data s_remote rss hk_recv hk_send current_time a1 =
     \<lparr>z_session_data = session_data, z_was_bob = False, z_s_remote = s_remote,
      z_send_counter = 0, z_key_creation_counter = 0,
      z_key_index = True, z_keys = (\<lambda>_. duplex_key_default),
      z_ratchet_state1 = rss_state1 rss, z_ratchet_state2 = rss_state2 rss, z_hk_send = hk_send,
      z_resend_timer = after current_time (resend_time (SETTINGS C)),
      z_timeout_timer = after current_time (initial_offer_timeout (SETTINGS C)),
      z_beta = A1 a1,
      z_counter_antireplay_window = window_new COUNTER_WINDOW_MAX_OOO,
      z_defrag = DefragBuffer_new (Some hk_recv)\<rparr>"

text \<open>\<open>Arc::new\<close>, and the two insertions that register the session under its key id.\<close>

definition register_session ::
  "u32 \<Rightarrow> ('pk, 'kp, 'kem, 'd) zeta \<Rightarrow> ('pk, 'kp, 'r, 'kem, 'd, 'a) world
     \<Rightarrow> session_id \<times> ('pk, 'kp, 'r, 'kem, 'd, 'a) world" where
  "register_session kid z w =
     (let s = ctx_next_session w
      in (s, w\<lparr>ctx_heap := (ctx_heap w)(s \<mapsto> z), ctx_next_session := Suc s,
              ctx_session_map := (ctx_session_map w)(kid \<mapsto> s),
              ctx_sessions := insert s (ctx_sessions w)\<rparr>))"

definition trans_to_a1 ::
  "('pk, 'kp, 'r, 'kem) crypto_layer \<Rightarrow> ('pk, 'd, 'a) application_layer \<Rightarrow> 'pk \<Rightarrow> 'd \<Rightarrow> bytes
     \<Rightarrow> ('pk, 'kp, 'r, 'kem, 'd, 'a) world
     \<Rightarrow> (open_error, session_id) outcome \<times> ('pk, 'kp, 'r, 'kem, 'd, 'a) world" where
  "trans_to_a1 C A s_remote session_data ident w =
     (case app_restore_by_identity A s_remote session_data (w_app w) of
        (Inl e, a) \<Rightarrow> (Err (OpenStorageError e), w\<lparr>w_app := a\<rparr>)
      | (Inr r, a) \<Rightarrow>
          (let w = w\<lparr>w_app := a\<rparr>;
               rss = (case r of None \<Rightarrow> new_initial_states | Some rss \<Rightarrow> rss)
           in case gen_kid C (ctx_session_map w) (ctx_rng w) of
                None \<Rightarrow> (Diverge, w)
              | Some (kid_recv, rng) \<Rightarrow>
                  (let (a1, rng) = create_a1_state C rng s_remote kid_recv (rss_state1 rss) (rss_state2 rss) ident;
                       w = w\<lparr>ctx_rng := rng\<rparr>;
                       (hk_recv, hk_send) = get_ask C (a1_noise a1) LABEL_HEADER_KEY;
                       (current_time, w) = time_now A w;
                       z = new_a1_zeta C session_data s_remote rss hk_recv hk_send current_time a1;
                       z = key_mut z True (set_recv_kid kid_recv);
                       (session, w) = register_session kid_recv z w
                   in (Ok session, emit (a1_packet a1) None w))))"

text \<open>\<open>respond_to_challenge\<close>; \<open>Diverge\<close>: the search for a proof of work does not end.\<close>

definition respond_to_challenge ::
  "('pk, 'kp, 'r, 'kem) crypto_layer \<Rightarrow> bytes \<Rightarrow> ('pk, 'kp, 'kem, 'd) zeta
     \<Rightarrow> ('pk, 'kp, 'r, 'kem, 'd, 'a) world \<Rightarrow> ('e, unit, 'pk, 'kp, 'r, 'kem, 'd, 'a) zeta_result" where
  "respond_to_challenge C challenge z w =
     (case z_beta z of
        A1 a1 \<Rightarrow>
          (case a1_packet a1 of Packet k n x1 \<Rightarrow>
             if length x1 < CHALLENGE_SIZE then (Panic, z, w)
             else
               let response_start = length x1 - CHALLENGE_SIZE
               in case respond_to_challenge_in_place C (ctx_rng w) challenge (drop response_start x1) of
                    None \<Rightarrow> (Diverge, z, w)
                  | Some (response, rng) \<Rightarrow>
                      (Ok (),
                       z\<lparr>z_beta := A1 (a1\<lparr>a1_packet := Packet k n (take response_start x1 @ response)\<rparr>)\<rparr>,
                       w\<lparr>ctx_rng := rng\<rparr>))
      | _ \<Rightarrow> (Ok (), z, w))"

section \<open>The timeout timer\<close>

text \<open>Restarting the handshake in states A1 and A3.\<close>

definition restart_a1 ::
  "('pk, 'kp, 'r, 'kem) crypto_layer \<Rightarrow> session_id \<Rightarrow> bytes \<Rightarrow> i64 \<Rightarrow> ('pk, 'kp, 'kem, 'd) zeta
     \<Rightarrow> ('pk, 'kp, 'r, 'kem, 'd, 'a) world \<Rightarrow> ('e, unit, 'pk, 'kp, 'r, 'kem, 'd, 'a) zeta_result" where
  "restart_a1 C session ident current_time z w =
     (case remap C session z w of
        None \<Rightarrow> (Diverge, z, w)
      | Some (new_kid_recv, w) \<Rightarrow>
          (let (a1, rng) = create_a1_state C (ctx_rng w) (z_s_remote z) new_kid_recv
                             (z_ratchet_state1 z) (z_ratchet_state2 z) ident;
               w = w\<lparr>ctx_rng := rng\<rparr>;
               (hk_recv, hk_send) = get_ask C (a1_noise a1) LABEL_HEADER_KEY;
               z = z\<lparr>z_hk_send := hk_send\<rparr>;
               z = key_mut z True (\<lambda>_. duplex_key_default);
               z = key_mut z True (set_recv_kid new_kid_recv);
               z = z\<lparr>z_resend_timer := after current_time (resend_time (SETTINGS C)),
                     z_timeout_timer := after current_time (initial_offer_timeout (SETTINGS C)),
                     z_beta := A1 a1,
                     z_defrag := DefragBuffer_new (Some hk_recv)\<rparr>
           in (Ok (), z, emit (a1_packet a1) None w)))"

text \<open>The noise part of Transition Algorithm 6, up to the payload.\<close>

definition create_k1 ::
  "('pk, 'kp, 'r, 'kem) crypto_layer \<Rightarrow> 'kp \<Rightarrow> 'pk \<Rightarrow> bytes \<Rightarrow> 'r \<Rightarrow> u32
     \<Rightarrow> symmetric_state \<times> 'kp \<times> bytes \<times> 'r" where
  "create_k1 C s_secret s_remote ratchet_key rng new_kid_recv =
     (let noise = initialize PROTOCOL_NAME_NOISE_KK;
          noise = mix_hash C noise (kp_public_key_bytes C s_secret);
          noise = mix_hash C noise (pk_to_bytes C s_remote);
          noise = mix_key_and_hash C noise ratchet_key;
          (e_secret, noise, rng, k1) = write_e C noise rng [];
          noise = mix_dh C noise e_secret s_remote;
          noise = mix_dh C noise s_secret s_remote;
          i = length k1;
          (noise, k1) = encrypt_and_hash_in_place C noise (to_nonce PACKET_TYPE_REKEY_INIT 0) i
            (k1 @ u32_to_be_bytes new_kid_recv)
      in (noise, e_secret, k1, rng))"

definition start_rekey ::
  "('pk, 'kp, 'r, 'kem) crypto_layer \<Rightarrow> session_id \<Rightarrow> i64 \<Rightarrow> ('pk, 'kp, 'kem, 'd) zeta
     \<Rightarrow> ('pk, 'kp, 'r, 'kem, 'd, 'a) world \<Rightarrow> ('e, unit, 'pk, 'kp, 'r, 'kem, 'd, 'a) zeta_result" where
  "start_rekey C session current_time z w =
     (case remap C session z w of
        None \<Rightarrow> (Diverge, z, w)
      | Some (new_kid_recv, w) \<Rightarrow>
          (let (noise, e_secret, k1, rng) = create_k1 C (ctx_s_secret w) (z_s_remote z)
                 (rs_key (z_ratchet_state1 z)) (ctx_rng w) new_kid_recv;
               w = w\<lparr>ctx_rng := rng\<rparr>;
               z = key_mut z True (set_recv_kid new_kid_recv);
               z = z\<lparr>z_timeout_timer := after current_time (rekey_timeout (SETTINGS C)),
                     z_resend_timer := after current_time (resend_time (SETTINGS C)),
                     z_beta := R1 noise e_secret k1\<rparr>;
               (_, z, w) = send_control C z PACKET_TYPE_REKEY_INIT k1 w
           in (Ok (), z, w)))"

definition timeout_trans ::
  "('pk, 'kp, 'r, 'kem) crypto_layer \<Rightarrow> session_id \<Rightarrow> i64 \<Rightarrow> ('pk, 'kp, 'kem, 'd) zeta
     \<Rightarrow> ('pk, 'kp, 'r, 'kem, 'd, 'a) world \<Rightarrow> ('e, unit, 'pk, 'kp, 'r, 'kem, 'd, 'a) zeta_result" where
  "timeout_trans C session current_time z w =
     (case z_beta z of
        Null \<Rightarrow> (Ok (), z, w)
      | A1 a1 \<Rightarrow> restart_a1 C session (a1_identity a1) current_time z w
      | A3 ident _ \<Rightarrow> restart_a1 C session ident current_time z w
      | S2 \<Rightarrow> start_rekey C session current_time z w
      | S1 \<Rightarrow> expire True z w
      | R1 _ _ _ \<Rightarrow> expire True z w
      | R2 _ \<Rightarrow> expire True z w)"

text \<open>The function \<open>service\<close> of \<open>zeta.rs\<close>: the timer rules of one session.\<close>

definition zeta_service ::
  "('pk, 'kp, 'r, 'kem) crypto_layer \<Rightarrow> session_id \<Rightarrow> i64 \<Rightarrow> ('pk, 'kp, 'kem, 'd) zeta
     \<Rightarrow> ('pk, 'kp, 'r, 'kem, 'd, 'a) world \<Rightarrow> ('e, unit, 'pk, 'kp, 'r, 'kem, 'd, 'a) zeta_result" where
  "zeta_service C session current_time z w =
     (if z_timeout_timer z \<le> current_time then timeout_trans C session current_time z w
      else if z_resend_timer z \<le> current_time then
        (let z = z\<lparr>z_resend_timer := after current_time (resend_time (SETTINGS C))\<rparr>;
             control = (\<lambda>p payload. case send_control C z p payload w of (_, z, w) \<Rightarrow> (Ok (), z, w))
         in case z_beta z of
              Null \<Rightarrow> (Ok (), z, w)
            | A1 a1 \<Rightarrow> (Ok (), z, emit (a1_packet a1) None w)
            | A3 _ packet \<Rightarrow> (Ok (), z, emit packet (Some (z_hk_send z)) w)
            | S1 \<Rightarrow> control PACKET_TYPE_KEY_CONFIRM []
            | S2 \<Rightarrow> (Ok (), z, w)
            | R1 _ _ k1 \<Rightarrow> control PACKET_TYPE_REKEY_INIT k1
            | R2 k2 \<Rightarrow> control PACKET_TYPE_REKEY_COMPLETE k2)
      else (Ok (), z, w))"

section \<open>Bob's answer to a hello\<close>

text \<open>
  Reading the hello: the prologue and the tokens \<open>e, es, e1\<close>. The result is the key id of
  the sender, the remote ephemeral key, the KEM public key, the two fingerprints and the
  noise state.
\<close>

definition read_x1 ::
  "('pk, 'kp, 'r, 'kem) crypto_layer \<Rightarrow> 'kp \<Rightarrow> bytes \<Rightarrow> bytes
     \<Rightarrow> receive_error + (u32 \<times> 'pk \<times> bytes \<times> bytes \<times> bytes \<times> symmetric_state)" where
  "read_x1 C s_secret n x1 =
     (if HANDSHAKE_HELLO_SIZE \<noteq> length x1 then Inl (fault InvalidPacket True)
      else if drop (AES_GCM_NONCE_SIZE - 8) n \<noteq> drop (length x1 - 8) x1 then Inl (fault FailedAuth True)
      else
        let noise = initialize PROTOCOL_NAME_NOISE_XK;
            i = 0;
            j = i + KID_SIZE;
            noise = mix_hash C noise (subslice i j x1)
        in case NonZeroU32_new (u32_from_be_bytes (subslice i j x1)) of
             None \<Rightarrow> Inl (fault InvalidPacket True)
           | Some kid_send \<Rightarrow>
               let noise = mix_hash C noise (kp_public_key_bytes C s_secret); i = j
               in case read_e C noise i x1 of
                    (None, _) \<Rightarrow> Inl (fault FailedAuth True)
                  | (Some e_remote, noise, i) \<Rightarrow>
                      let noise = mix_dh C noise s_secret e_remote;
                          j = i + KYBER_PUBLIC_KEY_SIZE; k = j + AES_GCM_TAG_SIZE
                      in case decrypt_and_hash_in_place C noise (to_nonce PACKET_TYPE_HANDSHAKE_HELLO 0)
                                (subslice i j x1) (subslice j k x1) of
                           (ok, noise, e1) \<Rightarrow>
                             if \<not> ok then Inl (fault FailedAuth True)
                             else
                               let i = k; j = i + RATCHET_SIZE + RATCHET_SIZE; k = j + AES_GCM_TAG_SIZE
                               in case decrypt_and_hash_in_place C noise (to_nonce PACKET_TYPE_HANDSHAKE_HELLO 1)
                                         (subslice i j x1) (subslice j k x1) of
                                    (ok, noise, rfs) \<Rightarrow>
                                      if \<not> ok then Inl (fault FailedAuth True)
                                      else Inr (kid_send, e_remote, e1,
                                        take RATCHET_SIZE rfs, drop RATCHET_SIZE rfs, noise))"

text \<open>
  Looking the ratchet state up. Both look-ups pass the first fingerprint, as the source
  does.
\<close>

definition find_ratchet_state ::
  "('pk, 'd, 'a) application_layer \<Rightarrow> bytes \<Rightarrow> bytes \<Rightarrow> 'a
     \<Rightarrow> (receive_error + ratchet_state) \<times> 'a" where
  "find_ratchet_state A rf1 rf2 a =
     (let first = (if \<not> secure_eq rf1 (replicate RATCHET_SIZE 0)
                   then app_restore_by_fingerprint A rf1 a else (Inr None, a))
      in case first of
           (Inl e, a) \<Rightarrow> (Inl (StorageError e), a)
         | (Inr (Some rs), a) \<Rightarrow> (Inr rs, a)
         | (Inr None, a) \<Rightarrow>
             (let second = (if \<not> secure_eq rf2 (replicate RATCHET_SIZE 0)
                            then app_restore_by_fingerprint A rf1 a else (Inr None, a))
              in case second of
                   (Inl e, a) \<Rightarrow> (Inl (StorageError e), a)
                 | (Inr (Some rs), a) \<Rightarrow> (Inr rs, a)
                 | (Inr None, a) \<Rightarrow>
                     (case app_hello_requires_recognized_ratchet A a of
                        (True, a) \<Rightarrow> (Inl (fault FailedAuth True), a)
                      | (False, a) \<Rightarrow> (Inr ratchet_empty, a))))"

text \<open>Writing the answer up to the point where the key id is drawn: \<open>e, ee, ekem1, psk\<close>.\<close>

definition write_x2_tokens ::
  "('pk, 'kp, 'r, 'kem) crypto_layer \<Rightarrow> 'pk \<Rightarrow> bytes \<Rightarrow> bytes \<Rightarrow> symmetric_state \<Rightarrow> 'r
     \<Rightarrow> (receive_error + ('kp \<times> symmetric_state \<times> bytes)) \<times> 'r" where
  "write_x2_tokens C e_remote e1 ratchet_key noise rng =
     (let (e_secret, noise, rng, x2) = write_e C noise rng [];
          noise = mix_dh C noise e_secret e_remote;
          i = length x2
      in case kem_encapsulate C rng e1 of
           (None, rng) \<Rightarrow> (Inl (fault FailedAuth True), rng)
         | (Some (ekem1, ekem1_secret), rng) \<Rightarrow>
             (let (noise, x2) = encrypt_and_hash_in_place C noise
                    (to_nonce PACKET_TYPE_HANDSHAKE_RESPONSE 0) i (x2 @ ekem1);
                  noise = mix_key C noise ekem1_secret;
                  noise = mix_key_and_hash C noise ratchet_key
              in (Inr (e_secret, noise, x2), rng)))"

text \<open>The payload with the key id, and the counter made of its last three bytes.\<close>

definition write_x2_payload ::
  "('pk, 'kp, 'r, 'kem) crypto_layer \<Rightarrow> symmetric_state \<Rightarrow> bytes \<Rightarrow> u32 \<Rightarrow> symmetric_state \<times> bytes \<times> u64" where
  "write_x2_payload C noise x2 kid_recv =
     (let i = length x2;
          (noise, x2) = encrypt_and_hash_in_place C noise (to_nonce PACKET_TYPE_HANDSHAKE_RESPONSE 0) i
            (x2 @ u32_to_be_bytes kid_recv);
          c = write_at 5 (drop (length x2 - 3) x2) (replicate 8 0)
      in (noise, x2, u64_from_be_bytes c))"

definition received_x1_trans ::
  "('pk, 'kp, 'r, 'kem) crypto_layer \<Rightarrow> ('pk, 'd, 'a) application_layer \<Rightarrow> bytes \<Rightarrow> bytes
     \<Rightarrow> ('pk, 'kp, 'r, 'kem, 'd, 'a) world
     \<Rightarrow> (receive_error, unit) outcome \<times> ('pk, 'kp, 'r, 'kem, 'd, 'a) world" where
  "received_x1_trans C A n x1 w =
     (case read_x1 C (ctx_s_secret w) n x1 of
        Inl e \<Rightarrow> (Err e, w)
      | Inr (kid_send, e_remote, e1, rf1, rf2, noise) \<Rightarrow>
          (case find_ratchet_state A rf1 rf2 (w_app w) of
             (Inl e, a) \<Rightarrow> (Err e, w\<lparr>w_app := a\<rparr>)
           | (Inr ratchet_state, a) \<Rightarrow>
               (let w = w\<lparr>w_app := a\<rparr>;
                    (hk_send, hk_recv) = get_ask C noise LABEL_HEADER_KEY
                in case write_x2_tokens C e_remote e1 (rs_key ratchet_state) noise (ctx_rng w) of
                     (Inl e, rng) \<Rightarrow> (Err e, w\<lparr>ctx_rng := rng\<rparr>)
                   | (Inr (e_secret, noise, x2), rng) \<Rightarrow>
                       (let w = w\<lparr>ctx_rng := rng\<rparr>
                        in case gen_kid C (ctx_session_map w) (ctx_rng w) of
                             None \<Rightarrow> (Diverge, w)
                           | Some (kid_recv, rng) \<Rightarrow>
                               (let (noise, x2, c) = write_x2_payload C noise x2 kid_recv;
                                    b2 = \<lparr>b2_ratchet_state = ratchet_state, b2_kid_send = kid_send,
                                      b2_kid_recv = kid_recv, b2_hk_send = hk_send,
                                      b2_e_secret = e_secret, b2_noise = noise,
                                      b2_defrag = DefragBuffer_new (Some hk_recv)\<rparr>;
                                    w = w\<lparr>ctx_rng := rng, ctx_b2_map := (ctx_b2_map w)(kid_recv \<mapsto> b2)\<rparr>
                                in (Ok (), emit (Packet kid_send (to_nonce PACKET_TYPE_HANDSHAKE_RESPONSE c) x2)
                                             (Some hk_send) w))))))"

section \<open>Alice's completion\<close>

text \<open>Reading the answer up to its payload: \<open>e, ee, ekem1\<close>.\<close>

definition read_x2_tokens ::
  "('pk, 'kp, 'r, 'kem) crypto_layer \<Rightarrow> ('kp, 'kem) state_a1 \<Rightarrow> bytes
     \<Rightarrow> receive_error + ('pk \<times> nat \<times> symmetric_state)" where
  "read_x2_tokens C a1 x2 =
     (let i = 0
      in case read_e C (a1_noise a1) i x2 of
           (None, _) \<Rightarrow> Inl (fault FailedAuth True)
         | (Some e_remote, noise, i) \<Rightarrow>
             let noise = mix_dh C noise (a1_e_secret a1) e_remote;
                 j = i + KYBER_CIPHERTEXT_SIZE; k = j + AES_GCM_TAG_SIZE
             in case decrypt_and_hash_in_place C noise (to_nonce PACKET_TYPE_HANDSHAKE_RESPONSE 0)
                       (subslice i j x2) (subslice j k x2) of
                  (ok, noise, ekem1) \<Rightarrow>
                    if \<not> ok then Inl (fault FailedAuth True)
                    else (case kem_decapsulate C (a1_e1_secret a1) ekem1 of
                            None \<Rightarrow> Inl (fault FailedAuth True)
                          | Some ekem1_secret \<Rightarrow> Inr (e_remote, k, mix_key C noise ekem1_secret)))"

definition test_ratchet_key ::
  "('pk, 'kp, 'r, 'kem) crypto_layer \<Rightarrow> symmetric_state \<Rightarrow> bytes \<Rightarrow> bytes \<Rightarrow> bytes
     \<Rightarrow> (u32 \<times> symmetric_state) option" where
  "test_ratchet_key C noise payload tag ratchet_key =
     (let noise = mix_key_and_hash C noise ratchet_key
      in case decrypt_and_hash_in_place C noise (to_nonce PACKET_TYPE_HANDSHAKE_RESPONSE 0) payload tag of
           (ok, noise, payload) \<Rightarrow>
             if \<not> ok then None
             else map_option (\<lambda>kid2. (kid2, noise)) (NonZeroU32_new (u32_from_be_bytes payload)))"

text \<open>
  The three attempts. The result is the key id and noise state found, the number of the
  ratchet state, its chain length and whether the zero key was used.
\<close>

definition select_ratchet_key ::
  "('pk, 'kp, 'r, 'kem) crypto_layer \<Rightarrow> ('pk, 'd, 'a) application_layer \<Rightarrow> session_id
     \<Rightarrow> ('pk, 'kp, 'kem, 'd) zeta \<Rightarrow> symmetric_state \<Rightarrow> bytes \<Rightarrow> bytes \<Rightarrow> 'a
     \<Rightarrow> ((u32 \<times> symmetric_state) option \<times> nat \<times> u64 \<times> bool) \<times> 'a" where
  "select_ratchet_key C A session z noise payload tag a =
     (let test = test_ratchet_key C noise payload tag;
          ratchet_i = 1;
          chain_len = rs_chain_len (z_ratchet_state1 z);
          result = test (rs_key (z_ratchet_state1 z));
          (ratchet_i, chain_len, result) =
            (if result = None
             then (case z_ratchet_state2 z of
                     Some rs \<Rightarrow> (2, rs_chain_len rs, test (rs_key rs))
                   | None \<Rightarrow> (2, chain_len, result))
             else (ratchet_i, chain_len, result))
      in if result = None
         then (case app_initiator_disallows_downgrade A session a of
                 (True, a) \<Rightarrow> ((result, ratchet_i, chain_len, False), a)
               | (False, a) \<Rightarrow>
                   (let result = test (replicate RATCHET_SIZE 0)
                    in ((result, ratchet_i, 0, result \<noteq> None), a)))
         else ((result, ratchet_i, chain_len, False), a))"

text \<open>The third message: \<open>s, se\<close> and the identity.\<close>

definition write_x3 ::
  "('pk, 'kp, 'r, 'kem) crypto_layer \<Rightarrow> 'kp \<Rightarrow> 'pk \<Rightarrow> bytes \<Rightarrow> symmetric_state \<Rightarrow> symmetric_state \<times> bytes" where
  "write_x3 C s_secret e_remote ident noise =
     (let x3 = [];
          i = length x3;
          (noise, x3) = encrypt_and_hash_in_place C noise (to_nonce PACKET_TYPE_HANDSHAKE_COMPLETION 1) i
            (x3 @ kp_public_key_bytes C s_secret);
          noise = mix_dh C noise s_secret e_remote;
          i = length x3
      in encrypt_and_hash_in_place C noise (to_nonce PACKET_TYPE_HANDSHAKE_COMPLETION 0) i (x3 @ ident))"

text \<open>The assignments that store a new set of keys in the spare slot.\<close>

definition store_keys ::
  "u32 \<Rightarrow> bytes \<Rightarrow> bytes \<Rightarrow> bytes \<Rightarrow> bytes \<Rightarrow> duplex_key \<Rightarrow> duplex_key" where
  "store_keys kid_send kek_send nk_send kek_recv nk_recv k =
     k\<lparr>dk_send := \<lparr>key_kek = Some kek_send, key_nk = Some nk_send, key_kid = Some kid_send\<rparr>,
       dk_recv := (dk_recv k)\<lparr>key_kek := Some kek_recv, key_nk := Some nk_recv\<rparr>\<rparr>"

text \<open>The end of the closure: the new ratchet state is saved, then the session moves to A3.\<close>

definition finish_x2 ::
  "('pk, 'kp, 'r, 'kem) crypto_layer \<Rightarrow> ('pk, 'd, 'a) application_layer \<Rightarrow> ('kp, 'kem) state_a1 \<Rightarrow> 'pk \<Rightarrow> u32
     \<Rightarrow> nat \<Rightarrow> u64 \<Rightarrow> symmetric_state \<Rightarrow> ('pk, 'kp, 'kem, 'd) zeta \<Rightarrow> ('pk, 'kp, 'r, 'kem, 'd, 'a) world
     \<Rightarrow> (receive_error, packet, 'pk, 'kp, 'r, 'kem, 'd, 'a) zeta_result" where
  "finish_x2 C A a1 e_remote kid_send ratchet_i chain_len noise z w =
     (let (noise, x3) = write_x3 C (ctx_s_secret w) e_remote (a1_identity a1) noise;
          (rk, rf) = get_ask C noise LABEL_RATCHET_STATE;
          new_ratchet_state = ratchet_new rk rf (chain_len + 1);
          ratchet_to_preserve = (if ratchet_i = 1 then Some (z_ratchet_state1 z) else z_ratchet_state2 z)
      in case save_ratchet A (z_s_remote z) (z_session_data z)
                (cas_new new_ratchet_state ratchet_to_preserve True (z_ratchet_state1 z) (z_ratchet_state2 z)
                   (ratchet_i = 2) (ratchet_i = 1)) w of
           (Inl e, w) \<Rightarrow> (Err (StorageError e), z, w)
         | (Inr False, w) \<Rightarrow> (Err (fault OutOfSequence True), z, w)
         | (Inr True, w) \<Rightarrow>
             (let (kek_recv, kek_send) = get_ask C noise LABEL_KEX_KEY;
                  (nk_recv, nk_send) = split_keys C noise;
                  n = to_nonce PACKET_TYPE_HANDSHAKE_COMPLETION 0;
                  z = key_mut z True (store_keys kid_send kek_send nk_send kek_recv nk_recv);
                  z = z\<lparr>z_ratchet_state2 := Some (z_ratchet_state1 z), z_ratchet_state1 := new_ratchet_state\<rparr>;
                  (current_time, w) = time_now A w;
                  packet = Packet kid_send n x3;
                  z = z\<lparr>z_key_creation_counter := z_send_counter z,
                        z_resend_timer := after current_time (resend_time (SETTINGS C)),
                        z_timeout_timer := after current_time (initial_offer_timeout (SETTINGS C)),
                        z_beta := A3 (a1_identity a1) packet\<rparr>
              in (Ok packet, z, w)))"

text \<open>The closure of \<open>received_x2_trans\<close>; it also reports \<open>should_warn_missing_ratchet\<close>.\<close>

definition process_x2 ::
  "('pk, 'kp, 'r, 'kem) crypto_layer \<Rightarrow> ('pk, 'd, 'a) application_layer \<Rightarrow> session_id \<Rightarrow> bytes
     \<Rightarrow> ('pk, 'kp, 'kem, 'd) zeta \<Rightarrow> ('pk, 'kp, 'r, 'kem, 'd, 'a) world
     \<Rightarrow> bool \<times> (receive_error, packet, 'pk, 'kp, 'r, 'kem, 'd, 'a) zeta_result" where
  "process_x2 C A session x2 z w =
     (case z_beta z of
        A1 a1 \<Rightarrow>
          (case read_x2_tokens C a1 x2 of
             Inl e \<Rightarrow> (False, Err e, z, w)
           | Inr (e_remote, i, noise) \<Rightarrow>
               (let j = i + KID_SIZE; k = j + AES_GCM_TAG_SIZE
                in case select_ratchet_key C A session z noise (subslice i j x2) (subslice j k x2) (w_app w) of
                     ((result, ratchet_i, chain_len, warn), a) \<Rightarrow>
                       (let w = w\<lparr>w_app := a\<rparr>
                        in case result of
                             None \<Rightarrow> (warn, Err (fault FailedAuth True), z, w)
                           | Some (kid_send, noise) \<Rightarrow>
                               (warn, finish_x2 C A a1 e_remote kid_send ratchet_i chain_len noise z w))))
      | _ \<Rightarrow> (False, Err (fault FailedAuth True), z, w))"

definition received_x2_trans ::
  "('pk, 'kp, 'r, 'kem) crypto_layer \<Rightarrow> ('pk, 'd, 'a) application_layer \<Rightarrow> session_id \<Rightarrow> u32 \<Rightarrow> bytes \<Rightarrow> bytes
     \<Rightarrow> ('pk, 'kp, 'kem, 'd) zeta \<Rightarrow> ('pk, 'kp, 'r, 'kem, 'd, 'a) world
     \<Rightarrow> (receive_error, bool, 'pk, 'kp, 'r, 'kem, 'd, 'a) zeta_result" where
  "received_x2_trans C A session kid n x2 z w =
     (if HANDSHAKE_RESPONSE_SIZE \<noteq> length x2 then (Err (fault InvalidPacket True), z, w)
      else if Some kid \<noteq> recv_kid z True then (Err (fault UnknownLocalKeyId True), z, w)
      else
        let (_, c) = from_nonce n
        in if COUNTER_WINDOW_MAX_SKIP_AHEAD \<le> c \<or> drop (AES_GCM_NONCE_SIZE - 3) n \<noteq> drop (length x2 - 3) x2
           then (Err (fault FailedAuth True), z, w)
           else (case process_x2 C A session x2 z w of
                   (should_warn_missing_ratchet, result, z, w) \<Rightarrow>
                     (case result of
                        Ok packet \<Rightarrow> (Ok should_warn_missing_ratchet, z, emit packet (Some (z_hk_send z)) w)
                      | Err (ByzantineFault f) \<Rightarrow>
                          (let (current_time, w) = time_now A w
                           in case timeout_trans C session current_time z w of
                                (Ok _, z, w) \<Rightarrow> (Err (ByzantineFault f), z, w)
                              | (Err e, z, w) \<Rightarrow> (Err e, z, w)
                              | (Panic, z, w) \<Rightarrow> (Panic, z, w)
                              | (Diverge, z, w) \<Rightarrow> (Diverge, z, w))
                      | Err e \<Rightarrow> (Err e, z, w)
                      | Panic \<Rightarrow> (Panic, z, w)
                      | Diverge \<Rightarrow> (Diverge, z, w))))"

section \<open>Bob accepts\<close>

text \<open>Reading the third message: the remote static key, the identity and the noise state.\<close>

definition read_x3 ::
  "('pk, 'kp, 'r, 'kem) crypto_layer \<Rightarrow> 'kp state_b2 \<Rightarrow> u32 \<Rightarrow> bytes
     \<Rightarrow> receive_error + ('pk \<times> bytes \<times> symmetric_state)" where
  "read_x3 C b2 kid x3 =
     (if \<not> (HANDSHAKE_COMPLETION_MIN_SIZE \<le> length x3 \<and> length x3 \<le> HANDSHAKE_COMPLETION_MAX_SIZE)
      then Inl (fault InvalidPacket True)
      else if kid \<noteq> b2_kid_recv b2 then Inl (fault UnknownLocalKeyId True)
      else
        let i = 0; j = i + P384_PUBLIC_KEY_SIZE; k = j + AES_GCM_TAG_SIZE
        in case decrypt_and_hash_in_place C (b2_noise b2) (to_nonce PACKET_TYPE_HANDSHAKE_COMPLETION 1)
                  (subslice i j x3) (subslice j k x3) of
             (ok, noise, s_bytes) \<Rightarrow>
               if \<not> ok then Inl (fault FailedAuth True)
               else (case pk_from_bytes C s_bytes of
                       None \<Rightarrow> Inl (fault FailedAuth True)
                     | Some s_remote \<Rightarrow>
                         let i = k;
                             noise = mix_dh C noise (b2_e_secret b2) s_remote;
                             k = length x3; j = k - AES_GCM_TAG_SIZE
                         in case decrypt_and_hash_in_place C noise (to_nonce PACKET_TYPE_HANDSHAKE_COMPLETION 0)
                                   (subslice i j x3) (subslice j k x3) of
                              (ok, noise, ident) \<Rightarrow>
                                if \<not> ok then Inl (fault FailedAuth True) else Inr (s_remote, ident, noise)))"

definition create_reject ::
  "('pk, 'kp, 'r, 'kem) crypto_layer \<Rightarrow> 'kp state_b2 \<Rightarrow> bytes \<Rightarrow> packet" where
  "create_reject C b2 kek_send =
     (let n = to_nonce PACKET_TYPE_SESSION_REJECTED 0
      in case aead_encrypt_in_place C kek_send n None [] of (_, tag) \<Rightarrow> Packet (b2_kid_send b2) n tag)"

definition reject_x3 ::
  "('pk, 'kp, 'r, 'kem) crypto_layer \<Rightarrow> 'kp state_b2 \<Rightarrow> bytes \<Rightarrow> bool
     \<Rightarrow> ('pk, 'kp, 'r, 'kem, 'd, 'a) world \<Rightarrow> ('pk, 'kp, 'r, 'kem, 'd, 'a) world" where
  "reject_x3 C b2 kek_send responder_silently_rejects w =
     (if \<not> responder_silently_rejects then emit (create_reject C b2 kek_send) (Some (b2_hk_send b2)) w else w)"

text \<open>The session of the responder, in state S1.\<close>

definition new_bob_zeta ::
  "('pk, 'kp, 'r, 'kem) crypto_layer \<Rightarrow> 'kp state_b2 \<Rightarrow> 'd \<Rightarrow> 'pk \<Rightarrow> duplex_key \<Rightarrow> ratchet_state \<Rightarrow> i64
     \<Rightarrow> ('pk, 'kp, 'kem, 'd) zeta" where
  "new_bob_zeta C b2 session_data s_remote k new_ratchet_state current_time =
     \<lparr>z_session_data = session_data, z_was_bob = True, z_s_remote = s_remote,
      z_send_counter = 1, z_key_creation_counter = 1,
      z_key_index = False, z_keys = (\<lambda>_. duplex_key_default)(False := k),
      z_ratchet_state1 = new_ratchet_state, z_ratchet_state2 = None, z_hk_send = b2_hk_send b2,
      z_resend_timer = after current_time (resend_time (SETTINGS C)),
      z_timeout_timer = after current_time (rekey_timeout (SETTINGS C)),
      z_beta = S1,
      z_counter_antireplay_window = window_new COUNTER_WINDOW_MAX_OOO,
      z_defrag = b2_defrag b2\<rparr>"

text \<open>From the saved ratchet state to the key confirmation.\<close>

definition accept_x3 ::
  "('pk, 'kp, 'r, 'kem) crypto_layer \<Rightarrow> ('pk, 'd, 'a) application_layer \<Rightarrow> 'kp state_b2 \<Rightarrow> 'd \<Rightarrow> 'pk
     \<Rightarrow> ratchet_states \<Rightarrow> bytes \<Rightarrow> bytes \<Rightarrow> symmetric_state \<Rightarrow> bool
     \<Rightarrow> ('pk, 'kp, 'r, 'kem, 'd, 'a) world
     \<Rightarrow> (receive_error, session_id \<times> bool) outcome \<times> ('pk, 'kp, 'r, 'kem, 'd, 'a) world" where
  "accept_x3 C A b2 session_data s_remote rss kek_send kek_recv noise warn w =
     (let (rk, rf) = get_ask C noise LABEL_RATCHET_STATE;
          new_ratchet_state = ratchet_new rk rf (rs_chain_len (b2_ratchet_state b2) + 1)
      in case save_ratchet A s_remote session_data
                (cas_new new_ratchet_state None True (rss_state1 rss) (rss_state2 rss) True True) w of
           (Inl e, w) \<Rightarrow> (Err (StorageError e), w)
         | (Inr False, w) \<Rightarrow> (Err (fault OutOfSequence True), w)
         | (Inr True, w) \<Rightarrow>
             (let n = to_nonce PACKET_TYPE_KEY_CONFIRM 0;
                  (_, c1) = aead_encrypt_in_place C kek_send n None [];
                  (nk1, nk2) = split_keys C noise;
                  k = \<lparr>dk_send = \<lparr>key_kek = Some kek_send, key_nk = Some nk1, key_kid = Some (b2_kid_send b2)\<rparr>,
                       dk_recv = \<lparr>key_kek = Some kek_recv, key_nk = Some nk2, key_kid = Some (b2_kid_recv b2)\<rparr>\<rparr>;
                  (current_time, w) = time_now A w
              in if ctx_session_map w (b2_kid_recv b2) \<noteq> None then (Err (fault OutOfSequence False), w)
                 else
                   let z = new_bob_zeta C b2 session_data s_remote k new_ratchet_state current_time;
                       (session, w) = register_session (b2_kid_recv b2) z w
                   in (Ok (session, warn), emit (Packet (b2_kid_send b2) n c1) (Some (b2_hk_send b2)) w)))"

definition received_x3_trans ::
  "('pk, 'kp, 'r, 'kem) crypto_layer \<Rightarrow> ('pk, 'd, 'a) application_layer \<Rightarrow> 'kp state_b2 \<Rightarrow> u32 \<Rightarrow> bytes
     \<Rightarrow> ('pk, 'kp, 'r, 'kem, 'd, 'a) world
     \<Rightarrow> (receive_error, session_id \<times> bool) outcome \<times> ('pk, 'kp, 'r, 'kem, 'd, 'a) world" where
  "received_x3_trans C A b2 kid x3 w =
     (case read_x3 C b2 kid x3 of
        Inl e \<Rightarrow> (Err e, w)
      | Inr (s_remote, ident, noise) \<Rightarrow>
          (let (kek_send, kek_recv) = get_ask C noise LABEL_KEX_KEY;
               (action, a) = app_check_accept_session A s_remote ident (w_app w);
               w = w\<lparr>w_app := a\<rparr>
           in case aa_session_data action of
                Some session_data \<Rightarrow>
                  (case app_restore_by_identity A s_remote session_data (w_app w) of
                     (Inl e, a) \<Rightarrow> (Err (StorageError e), w\<lparr>w_app := a\<rparr>)
                   | (Inr r, a) \<Rightarrow>
                       (let w = w\<lparr>w_app := a\<rparr>;
                            rss = (case r of None \<Rightarrow> new_initial_states | Some rss \<Rightarrow> rss);
                            unknown = (\<not> ratchet_eq (b2_ratchet_state b2) (rss_state1 rss) \<and>
                              \<not> ratchet_option_eq (Some (b2_ratchet_state b2)) (rss_state2 rss))
                        in if unknown \<and> \<not> (\<not> aa_responder_disallows_downgrade action \<and> is_empty (b2_ratchet_state b2))
                           then (Err (fault FailedAuth True),
                                 reject_x3 C b2 kek_send (aa_responder_silently_rejects action) w)
                           else accept_x3 C A b2 session_data s_remote rss kek_send kek_recv noise unknown w))
              | None \<Rightarrow>
                  (Err (fault FailedAuth True),
                   reject_x3 C b2 kek_send (aa_responder_silently_rejects action) w)))"

end
