(* ===== verification/Zeta_Session.thy ===== *)
theory Zeta_Session
  imports Zeta_Handshake
begin

text \<open>
  The transitions of an established session (\<open>reference/src/zeta.rs\<close>): key confirmation,
  acknowledgement, rejection, the two rekeying messages (Transition Algorithms 5, 7 and 8),
  and sending and receiving data (Algorithms 9 and 10).
\<close>

section \<open>Confirmation, acknowledgement, rejection\<close>

text \<open>
  The lines that \<open>received_c1_trans\<close> and \<open>received_c2_trans\<close> share: a jittered rekey timer
  and the step to S2. The remainder by a zero jitter panics.
\<close>

definition enter_s2 ::
  "('pk, 'kp, 'r, 'kem) crypto_layer \<Rightarrow> ('pk, 'd, 'a) application_layer \<Rightarrow> ('pk, 'kp, 'kem, 'd) zeta
     \<Rightarrow> ('pk, 'kp, 'r, 'kem, 'd, 'a) world \<Rightarrow> (receive_error, unit, 'pk, 'kp, 'r, 'kem, 'd, 'a) zeta_result" where
  "enter_s2 C A z w =
     (let (x, rng) = next_u64 C (ctx_rng w); w = w\<lparr>ctx_rng := rng\<rparr>
      in if rekey_time_max_jitter (SETTINGS C) = 0 then (Panic, z, w)
         else
           let r = x mod rekey_time_max_jitter (SETTINGS C);
               (now, w) = time_now A w;
               z = z\<lparr>z_timeout_timer := after now (saturating_sub (rekey_after_time (SETTINGS C)) r),
                     z_resend_timer := I64_MAX, z_beta := S2\<rparr>
           in (Ok (), z, w))"

text \<open>\<open>Some(kid) == zeta.key_ref(b).recv.kid\<close> for the spare slot first, then the current one.\<close>

definition which_key :: "('pk, 'kp, 'kem, 'd) zeta \<Rightarrow> u32 \<Rightarrow> bool option" where
  "which_key z kid =
     (if Some kid = recv_kid z True then Some True
      else if Some kid = recv_kid z False then Some False
      else None)"

text \<open>The inner block of \<open>received_c1_trans\<close>, run when the spare key was confirmed in A3 or R2.\<close>

definition confirm_key ::
  "('pk, 'kp, 'r, 'kem) crypto_layer \<Rightarrow> ('pk, 'd, 'a) application_layer \<Rightarrow> ('pk, 'kp, 'kem, 'd) zeta
     \<Rightarrow> ('pk, 'kp, 'r, 'kem, 'd, 'a) world \<Rightarrow> (receive_error, unit, 'pk, 'kp, 'r, 'kem, 'd, 'a) zeta_result" where
  "confirm_key C A z w =
     (let (saved, w) =
        (if z_ratchet_state2 z \<noteq> None
         then save_ratchet A (z_s_remote z) (z_session_data z)
                (cas_new (z_ratchet_state1 z) None False (z_ratchet_state1 z) (z_ratchet_state2 z) False True) w
         else (Inr True, w))
      in case saved of
           Inl e \<Rightarrow> (Err (StorageError e), z, w)
         | Inr False \<Rightarrow>
             (case expire True z w of
                (Ok _, z, w) \<Rightarrow> (Err (fault OutOfSequence True), z, w)
              | (r, z, w) \<Rightarrow> (r, z, w))
         | Inr True \<Rightarrow>
             enter_s2 C A (z\<lparr>z_ratchet_state2 := None, z_key_index := \<not> z_key_index z\<rparr>) w)"

definition is_a3 :: "('kp, 'kem) zeta_automata \<Rightarrow> bool" where
  "is_a3 b = (case b of A3 _ _ \<Rightarrow> True | _ \<Rightarrow> False)"

definition is_r1 :: "('kp, 'kem) zeta_automata \<Rightarrow> bool" where
  "is_r1 b = (case b of R1 _ _ _ \<Rightarrow> True | _ \<Rightarrow> False)"

definition is_r2 :: "('kp, 'kem) zeta_automata \<Rightarrow> bool" where
  "is_r2 b = (case b of R2 _ \<Rightarrow> True | _ \<Rightarrow> False)"

definition received_c1_trans ::
  "('pk, 'kp, 'r, 'kem) crypto_layer \<Rightarrow> ('pk, 'd, 'a) application_layer \<Rightarrow> u32 \<Rightarrow> bytes \<Rightarrow> bytes
     \<Rightarrow> ('pk, 'kp, 'kem, 'd) zeta \<Rightarrow> ('pk, 'kp, 'r, 'kem, 'd, 'a) world
     \<Rightarrow> (receive_error, bool, 'pk, 'kp, 'r, 'kem, 'd, 'a) zeta_result" where
  "received_c1_trans C A kid n c1 z w =
     (if length c1 \<noteq> KEY_CONFIRMATION_SIZE then (Err (fault InvalidPacket True), z, w)
      else case which_key z kid of
        None \<Rightarrow> (Err (fault OutOfSequence False), z, w)
      | Some is_other \<Rightarrow>
          (case key_kek (dk_recv (key_ref z is_other)) of
             None \<Rightarrow> (Err (fault OutOfSequence True), z, w)
           | Some specified_key \<Rightarrow>
               if \<not> fst (aead_decrypt_in_place C specified_key n None [] c1)
               then (Err (fault FailedAuth True), z, w)
               else
                 let (_, c) = from_nonce n; (ok, z) = zeta_update_counter_window z c
                 in if \<not> ok then (Err (fault ExpiredCounter True), z, w)
                    else
                      let just_established = (is_other \<and> is_a3 (z_beta z))
                      in case (if is_other \<and> (is_a3 (z_beta z) \<or> is_r2 (z_beta z))
                               then confirm_key C A z w else (Ok (), z, w)) of
                           (Ok _, z, w) \<Rightarrow>
                             (case send_control C z PACKET_TYPE_ACK [] w of
                                (sent, z, w) \<Rightarrow>
                                  if \<not> sent then (Err (fault OutOfSequence True), z, w)
                                  else (Ok just_established, z, w))
                         | (Err e, z, w) \<Rightarrow> (Err e, z, w)
                         | (Panic, z, w) \<Rightarrow> (Panic, z, w)
                         | (Diverge, z, w) \<Rightarrow> (Diverge, z, w)))"

definition received_c2_trans ::
  "('pk, 'kp, 'r, 'kem) crypto_layer \<Rightarrow> ('pk, 'd, 'a) application_layer \<Rightarrow> u32 \<Rightarrow> bytes \<Rightarrow> bytes
     \<Rightarrow> ('pk, 'kp, 'kem, 'd) zeta \<Rightarrow> ('pk, 'kp, 'r, 'kem, 'd, 'a) world
     \<Rightarrow> (receive_error, unit, 'pk, 'kp, 'r, 'kem, 'd, 'a) zeta_result" where
  "received_c2_trans C A kid n c2 z w =
     (if length c2 \<noteq> ACKNOWLEDGEMENT_SIZE then (Err (fault InvalidPacket True), z, w)
      else if Some kid \<noteq> recv_kid z False then (Err (fault UnknownLocalKeyId False), z, w)
      else if z_beta z \<noteq> S1 then (Err (fault OutOfSequence False), z, w)
      else case key_kek (dk_recv (key_ref z False)) of
        None \<Rightarrow> (Panic, z, w)
      | Some kek \<Rightarrow>
          if \<not> fst (aead_decrypt_in_place C kek n None [] c2) then (Err (fault FailedAuth True), z, w)
          else
            let (_, c) = from_nonce n; (ok, z) = zeta_update_counter_window z c
            in if \<not> ok then (Err (fault ExpiredCounter True), z, w) else enter_s2 C A z w)"

definition received_d_trans ::
  "('pk, 'kp, 'r, 'kem) crypto_layer \<Rightarrow> u32 \<Rightarrow> bytes \<Rightarrow> bytes
     \<Rightarrow> ('pk, 'kp, 'kem, 'd) zeta \<Rightarrow> ('pk, 'kp, 'r, 'kem, 'd, 'a) world
     \<Rightarrow> (receive_error, unit, 'pk, 'kp, 'r, 'kem, 'd, 'a) zeta_result" where
  "received_d_trans C kid n d z w =
     (if length d \<noteq> SESSION_REJECTED_SIZE then (Err (fault InvalidPacket True), z, w)
      else if Some kid \<noteq> recv_kid z True \<or> \<not> is_a3 (z_beta z) then (Err (fault OutOfSequence True), z, w)
      else case key_kek (dk_recv (key_ref z True)) of
        None \<Rightarrow> (Panic, z, w)
      | Some kek \<Rightarrow>
          if \<not> fst (aead_decrypt_in_place C kek n None [] d) then (Err (fault FailedAuth True), z, w)
          else
            let (_, c) = from_nonce n; (ok, z) = zeta_update_counter_window z c
            in if \<not> ok then (Err (fault ExpiredCounter True), z, w) else expire True z w)"

section \<open>Rekeying\<close>

text \<open>
  Both rekeying messages arrive encrypted under the current key-exchange key. The checks
  before the noise payload are the same in \<open>received_k1_trans\<close> and \<open>received_k2_trans\<close> but
  for the condition \<open>expected\<close> on the automaton; the result is the truncated message.
\<close>

definition open_rekey ::
  "('pk, 'kp, 'r, 'kem) crypto_layer \<Rightarrow> bool \<Rightarrow> u32 \<Rightarrow> bytes \<Rightarrow> bytes \<Rightarrow> ('pk, 'kp, 'kem, 'd) zeta
     \<Rightarrow> (receive_error, bytes) outcome \<times> ('pk, 'kp, 'kem, 'd) zeta" where
  "open_rekey C expected kid n k z =
     (if length k \<noteq> REKEY_SIZE then (Err (fault InvalidPacket True), z)
      else if Some kid \<noteq> recv_kid z False then (Err (fault UnknownLocalKeyId False), z)
      else if \<not> expected then (Err (fault OutOfSequence False), z)
      else
        let i = length k - AES_GCM_TAG_SIZE
        in case key_kek (dk_recv (key_ref z False)) of
             None \<Rightarrow> (Panic, z)
           | Some kek \<Rightarrow>
               (case aead_decrypt_in_place C kek n None (take i k) (drop i k) of
                  (ok, k) \<Rightarrow>
                    if \<not> ok then (Err (fault FailedAuth True), z)
                    else
                      let (_, c) = from_nonce n; (ok, z) = zeta_update_counter_window z c
                      in if \<not> ok then (Err (fault ExpiredCounter True), z) else (Ok k, z)))"

text \<open>Reading \<open>psk, e, es, ss\<close> and the key id of the first message.\<close>

definition read_k1 ::
  "('pk, 'kp, 'r, 'kem) crypto_layer \<Rightarrow> 'kp \<Rightarrow> 'pk \<Rightarrow> bytes \<Rightarrow> bytes
     \<Rightarrow> receive_error + (u32 \<times> 'pk \<times> symmetric_state)" where
  "read_k1 C s_secret s_remote ratchet_key k1 =
     (let i = 0;
          noise = initialize PROTOCOL_NAME_NOISE_KK;
          noise = mix_hash C noise (pk_to_bytes C s_remote);
          noise = mix_hash C noise (kp_public_key_bytes C s_secret);
          noise = mix_key_and_hash C noise ratchet_key
      in case read_e C noise i k1 of
           (None, _) \<Rightarrow> Inl (fault FailedAuth True)
         | (Some e_remote, noise, i) \<Rightarrow>
             let noise = mix_dh C noise s_secret e_remote;
                 noise = mix_dh C noise s_secret s_remote;
                 j = i + KID_SIZE; k = j + AES_GCM_TAG_SIZE
             in case decrypt_and_hash_in_place C noise (to_nonce PACKET_TYPE_REKEY_INIT 0)
                       (subslice i j k1) (subslice j k k1) of
                  (ok, noise, payload) \<Rightarrow>
                    if \<not> ok then Inl (fault FailedAuth True)
                    else (case NonZeroU32_new (u32_from_be_bytes payload) of
                            None \<Rightarrow> Inl (fault FailedAuth True)
                          | Some kid_send \<Rightarrow> Inr (kid_send, e_remote, noise)))"

text \<open>The tokens \<open>e, ee, se\<close> of the answer, before its key id is drawn.\<close>

definition write_k2_tokens ::
  "('pk, 'kp, 'r, 'kem) crypto_layer \<Rightarrow> 'kp \<Rightarrow> 'pk \<Rightarrow> symmetric_state \<Rightarrow> 'r
     \<Rightarrow> symmetric_state \<times> bytes \<times> 'r" where
  "write_k2_tokens C s_secret e_remote noise rng =
     (let (e_secret, noise, rng, k2) = write_e C noise rng [];
          noise = mix_dh C noise e_secret e_remote;
          noise = mix_dh C noise s_secret e_remote
      in (noise, k2, rng))"

definition write_k2_payload ::
  "('pk, 'kp, 'r, 'kem) crypto_layer \<Rightarrow> symmetric_state \<Rightarrow> bytes \<Rightarrow> u32 \<Rightarrow> symmetric_state \<times> bytes" where
  "write_k2_payload C noise k2 new_kid_recv =
     encrypt_and_hash_in_place C noise (to_nonce PACKET_TYPE_REKEY_COMPLETE 0) (length k2)
       (k2 @ u32_to_be_bytes new_kid_recv)"

text \<open>The closure of \<open>received_k1_trans\<close>.\<close>

definition process_k1 ::
  "('pk, 'kp, 'r, 'kem) crypto_layer \<Rightarrow> ('pk, 'd, 'a) application_layer \<Rightarrow> session_id \<Rightarrow> bytes
     \<Rightarrow> ('pk, 'kp, 'kem, 'd) zeta \<Rightarrow> ('pk, 'kp, 'r, 'kem, 'd, 'a) world
     \<Rightarrow> (receive_error, unit, 'pk, 'kp, 'r, 'kem, 'd, 'a) zeta_result" where
  "process_k1 C A session k1 z w =
     (case read_k1 C (ctx_s_secret w) (z_s_remote z) (rs_key (z_ratchet_state1 z)) k1 of
        Inl e \<Rightarrow> (Err e, z, w)
      | Inr (kid_send, e_remote, noise) \<Rightarrow>
          (let (noise, k2, rng) = write_k2_tokens C (ctx_s_secret w) e_remote noise (ctx_rng w);
               w = w\<lparr>ctx_rng := rng\<rparr>
           in case remap C session z w of
                None \<Rightarrow> (Diverge, z, w)
              | Some (new_kid_recv, w) \<Rightarrow>
                  (let (noise, k2) = write_k2_payload C noise k2 new_kid_recv;
                       (rk, rf) = get_ask C noise LABEL_RATCHET_STATE;
                       new_ratchet_state = ratchet_new rk rf (rs_chain_len (z_ratchet_state1 z) + 1)
                   in case save_ratchet A (z_s_remote z) (z_session_data z)
                             (cas_new new_ratchet_state (Some (z_ratchet_state1 z)) True
                                (z_ratchet_state1 z) (z_ratchet_state2 z) False True) w of
                        (Inl e, w) \<Rightarrow> (Err (StorageError e), z, w)
                      | (Inr False, w) \<Rightarrow> (Err (fault OutOfSequence True), z, w)
                      | (Inr True, w) \<Rightarrow>
                          (let (kek_send, kek_recv) = get_ask C noise LABEL_KEX_KEY;
                               (nk_send, nk_recv) = split_keys C noise;
                               z = key_mut z True (store_keys kid_send kek_send nk_send kek_recv nk_recv);
                               z = key_mut z True (set_recv_kid new_kid_recv);
                               z = z\<lparr>z_ratchet_state2 := Some (z_ratchet_state1 z),
                                     z_ratchet_state1 := new_ratchet_state\<rparr>;
                               (current_time, w) = time_now A w;
                               z = z\<lparr>z_key_creation_counter := z_send_counter z,
                                     z_timeout_timer := after current_time (rekey_timeout (SETTINGS C)),
                                     z_resend_timer := after current_time (resend_time (SETTINGS C)),
                                     z_beta := R2 k2\<rparr>;
                               (_, z, w) = send_control C z PACKET_TYPE_REKEY_COMPLETE k2 w
                           in (Ok (), z, w)))))"

text \<open>A Byzantine fault inside the closures expires the session.\<close>

definition expire_on_fault ::
  "(receive_error, unit, 'pk, 'kp, 'r, 'kem, 'd, 'a) zeta_result
     \<Rightarrow> (receive_error, unit, 'pk, 'kp, 'r, 'kem, 'd, 'a) zeta_result" where
  "expire_on_fault res =
     (case res of
        (Err (ByzantineFault f), z, w) \<Rightarrow>
          (case expire True z w of
             (Ok _, z, w) \<Rightarrow> (Err (ByzantineFault f), z, w)
           | (r, z, w) \<Rightarrow> (r, z, w))
      | _ \<Rightarrow> res)"

definition received_k1_trans ::
  "('pk, 'kp, 'r, 'kem) crypto_layer \<Rightarrow> ('pk, 'd, 'a) application_layer \<Rightarrow> session_id \<Rightarrow> u32 \<Rightarrow> bytes \<Rightarrow> bytes
     \<Rightarrow> ('pk, 'kp, 'kem, 'd) zeta \<Rightarrow> ('pk, 'kp, 'r, 'kem, 'd, 'a) world
     \<Rightarrow> (receive_error, unit, 'pk, 'kp, 'r, 'kem, 'd, 'a) zeta_result" where
  "received_k1_trans C A session kid n k1 z w =
     (let should_rekey_as_bob = (case z_beta z of S2 \<Rightarrow> True | R1 _ _ _ \<Rightarrow> z_was_bob z | _ \<Rightarrow> False)
      in case open_rekey C should_rekey_as_bob kid n k1 z of
           (Ok k1, z) \<Rightarrow> expire_on_fault (process_k1 C A session k1 z w)
         | (Err e, z) \<Rightarrow> (Err e, z, w)
         | (Panic, z) \<Rightarrow> (Panic, z, w)
         | (Diverge, z) \<Rightarrow> (Diverge, z, w))"

text \<open>Reading \<open>e, ee, se\<close> and the key id of the second message.\<close>

definition read_k2 ::
  "('pk, 'kp, 'r, 'kem) crypto_layer \<Rightarrow> 'kp \<Rightarrow> 'pk \<Rightarrow> symmetric_state \<Rightarrow> bytes
     \<Rightarrow> receive_error + (u32 \<times> symmetric_state)" where
  "read_k2 C e_secret s_remote noise k2 =
     (let i = 0
      in case read_e C noise i k2 of
           (None, _) \<Rightarrow> Inl (fault FailedAuth True)
         | (Some e_remote, noise, i) \<Rightarrow>
             let noise = mix_dh C noise e_secret e_remote;
                 noise = mix_dh C noise e_secret s_remote;
                 j = i + KID_SIZE; k = j + AES_GCM_TAG_SIZE
             in case decrypt_and_hash_in_place C noise (to_nonce PACKET_TYPE_REKEY_COMPLETE 0)
                       (subslice i j k2) (subslice j k k2) of
                  (ok, noise, payload) \<Rightarrow>
                    if \<not> ok then Inl (fault FailedAuth True)
                    else (case NonZeroU32_new (u32_from_be_bytes payload) of
                            None \<Rightarrow> Inl (fault InvalidPacket True)
                          | Some kid_send \<Rightarrow> Inr (kid_send, noise)))"

definition process_k2 ::
  "('pk, 'kp, 'r, 'kem) crypto_layer \<Rightarrow> ('pk, 'd, 'a) application_layer \<Rightarrow> bytes
     \<Rightarrow> ('pk, 'kp, 'kem, 'd) zeta \<Rightarrow> ('pk, 'kp, 'r, 'kem, 'd, 'a) world
     \<Rightarrow> (receive_error, unit, 'pk, 'kp, 'r, 'kem, 'd, 'a) zeta_result" where
  "process_k2 C A k2 z w =
     (case z_beta z of
        R1 noise e_secret _ \<Rightarrow>
          (case read_k2 C e_secret (z_s_remote z) noise k2 of
             Inl e \<Rightarrow> (Err e, z, w)
           | Inr (kid_send, noise) \<Rightarrow>
               (let (rk, rf) = get_ask C noise LABEL_RATCHET_STATE;
                    new_ratchet_state = ratchet_new rk rf (rs_chain_len (z_ratchet_state1 z) + 1)
                in case save_ratchet A (z_s_remote z) (z_session_data z)
                          (cas_new new_ratchet_state None True (z_ratchet_state1 z) (z_ratchet_state2 z) True True) w of
                     (Inl e, w) \<Rightarrow> (Err (StorageError e), z, w)
                   | (Inr False, w) \<Rightarrow> (Err (fault OutOfSequence True), z, w)
                   | (Inr True, w) \<Rightarrow>
                       (let (kek_recv, kek_send) = get_ask C noise LABEL_KEX_KEY;
                            (nk_recv, nk_send) = split_keys C noise;
                            z = key_mut z True (store_keys kid_send kek_send nk_send kek_recv nk_recv);
                            z = z\<lparr>z_ratchet_state1 := new_ratchet_state, z_key_index := \<not> z_key_index z\<rparr>;
                            (current_time, w) = time_now A w;
                            z = z\<lparr>z_key_creation_counter := z_send_counter z,
                                  z_timeout_timer := after current_time (rekey_timeout (SETTINGS C)),
                                  z_resend_timer := after current_time (resend_time (SETTINGS C)),
                                  z_beta := S1\<rparr>;
                            (_, z, w) = send_control C z PACKET_TYPE_KEY_CONFIRM [] w
                        in (Ok (), z, w))))
      | _ \<Rightarrow> (Panic, z, w))"

definition received_k2_trans ::
  "('pk, 'kp, 'r, 'kem) crypto_layer \<Rightarrow> ('pk, 'd, 'a) application_layer \<Rightarrow> u32 \<Rightarrow> bytes \<Rightarrow> bytes
     \<Rightarrow> ('pk, 'kp, 'kem, 'd) zeta \<Rightarrow> ('pk, 'kp, 'r, 'kem, 'd, 'a) world
     \<Rightarrow> (receive_error, unit, 'pk, 'kp, 'r, 'kem, 'd, 'a) zeta_result" where
  "received_k2_trans C A kid n k2 z w =
     (case open_rekey C (is_r1 (z_beta z)) kid n k2 z of
        (Ok k2, z) \<Rightarrow> expire_on_fault (process_k2 C A k2 z w)
      | (Err e, z) \<Rightarrow> (Err e, z, w)
      | (Panic, z) \<Rightarrow> (Panic, z, w)
      | (Diverge, z) \<Rightarrow> (Diverge, z, w))"

section \<open>Data\<close>

text \<open>
  \<open>send\<close> gives the result of the caller's callback for the packet. The automaton is looked
  at twice, as in the source; the rekey request is made in state S1.
\<close>

definition send_payload ::
  "('pk, 'kp, 'r, 'kem) crypto_layer \<Rightarrow> (packet \<Rightarrow> bytes option \<Rightarrow> (send_error, unit) outcome) \<Rightarrow> bytes
     \<Rightarrow> ('pk, 'kp, 'kem, 'd) zeta \<Rightarrow> ('pk, 'kp, 'r, 'kem, 'd, 'a) world
     \<Rightarrow> (send_error, unit, 'pk, 'kp, 'r, 'kem, 'd, 'a) zeta_result" where
  "send_payload C send payload z w =
     (case z_beta z of
        Null \<Rightarrow> (Err SessionExpired, z, w)
      | A1 _ \<Rightarrow> (Err SessionNotEstablished, z, w)
      | A3 _ _ \<Rightarrow> (Err SessionNotEstablished, z, w)
      | _ \<Rightarrow>
          (case get_counter C z of
             (Some (c, should_rekey), z) \<Rightarrow>
               (let z = (if should_rekey \<and> z_beta z = S1 then z\<lparr>z_timeout_timer := I64_MIN\<rparr> else z);
                    n = to_nonce PACKET_TYPE_DATA c
                in case key_nk (dk_send (key_ref z False)) of
                     None \<Rightarrow> (Panic, z, w)
                   | Some nk \<Rightarrow>
                       (case aead_encrypt_in_place C nk n None payload of
                          (ct, tag) \<Rightarrow>
                            (case key_kid (dk_send (key_ref z False)) of
                               None \<Rightarrow> (Panic, z, w)
                             | Some kid \<Rightarrow>
                                 (let p = Packet kid n (ct @ tag)
                                  in (send p (Some (z_hk_send z)), z, emit p (Some (z_hk_send z)) w)))))
           | (None, z) \<Rightarrow>
               (case expire True z w of
                  (Ok _, z, w) \<Rightarrow> (Err SessionExpired, z, w)
                | (r, z, w) \<Rightarrow> (r, z, w))))"

text \<open>On success the result is the decrypted and truncated payload.\<close>

definition received_payload_in_place ::
  "('pk, 'kp, 'r, 'kem) crypto_layer \<Rightarrow> u32 \<Rightarrow> bytes \<Rightarrow> bytes \<Rightarrow> ('pk, 'kp, 'kem, 'd) zeta
     \<Rightarrow> (receive_error, bytes) outcome \<times> ('pk, 'kp, 'kem, 'd) zeta" where
  "received_payload_in_place C kid n payload z =
     (if length payload < AES_GCM_TAG_SIZE then (Err (fault FailedAuth True), z)
      else case which_key z kid of
        None \<Rightarrow> (Err (fault OutOfSequence False), z)
      | Some is_other \<Rightarrow>
          (let i = length payload - AES_GCM_TAG_SIZE
           in case key_nk (dk_recv (key_ref z is_other)) of
                None \<Rightarrow> (Err (fault OutOfSequence True), z)
              | Some specified_key \<Rightarrow>
                  (case aead_decrypt_in_place C specified_key n None (take i payload) (drop i payload) of
                     (ok, plain) \<Rightarrow>
                       if \<not> ok then (Err (fault FailedAuth True), z)
                       else
                         let (_, c) = from_nonce n; (ok, z) = zeta_update_counter_window z c
                         in if \<not> ok then (Err (fault ExpiredCounter True), z) else (Ok plain, z))))"

section \<open>Sessions\<close>

text \<open>\<open>Session::expire\<close>, and \<open>Drop for Session\<close>: the last strong reference goes away.\<close>

definition Session_expire ::
  "session_id \<Rightarrow> ('pk, 'kp, 'r, 'kem, 'd, 'a) world \<Rightarrow> ('e, unit) outcome \<times> ('pk, 'kp, 'r, 'kem, 'd, 'a) world" where
  "Session_expire s w =
     (case ctx_heap w s of
        None \<Rightarrow> (Ok (), w)
      | Some z \<Rightarrow>
          (case expire True z w of (r, z, w) \<Rightarrow> (r, w\<lparr>ctx_heap := (ctx_heap w)(s \<mapsto> z)\<rparr>)))"

definition Session_drop ::
  "session_id \<Rightarrow> ('pk, 'kp, 'r, 'kem, 'd, 'a) world \<Rightarrow> ('e, unit) outcome \<times> ('pk, 'kp, 'r, 'kem, 'd, 'a) world" where
  "Session_drop s w =
     (case Session_expire s w of (r, w) \<Rightarrow> (r, w\<lparr>ctx_heap := (ctx_heap w)(s := None)\<rparr>))"

end
