(* ===== verification/Zssp_Context.thy ===== *)
theory Zssp_Context
  imports Zeta_Session
begin

text \<open>
  The public interface (\<open>reference/src/context.rs\<close>): opening a session, receiving a wire
  packet, sending data and the periodic service. A sender of fragments is given by its
  answers (as in the fragmentation layer) together with its MTU. Every operation returns
  its result, the wire fragments it handed to a sender, and the new world; the packets that
  the transition algorithms emitted are taken out of the world and cut into fragments.
\<close>

section \<open>The wire\<close>

text \<open>The closure that cuts one packet; it ignores the result but not a panic.\<close>

definition transmit_packet ::
  "('pk, 'kp, 'r, 'kem) crypto_layer \<Rightarrow> ((nat \<Rightarrow> bool) \<times> nat) option \<Rightarrow> packet \<times> bytes option
     \<Rightarrow> (bool, unit) outcome \<times> bytes list" where
  "transmit_packet C sender p =
     (case sender of
        None \<Rightarrow> (Ok (), [])
      | Some (send_fragment, mtu) \<Rightarrow>
          send_with_fragmentation C send_fragment (max mtu MIN_TRANSPORT_MTU) (p_kid (fst p))
            (to_packet_nonce (p_nonce (fst p))) (p_payload (fst p)) (snd p))"

definition flush ::
  "('pk, 'kp, 'r, 'kem) crypto_layer \<Rightarrow> ((nat \<Rightarrow> bool) \<times> nat) option
     \<Rightarrow> ('e, 'x) outcome \<times> ('pk, 'kp, 'r, 'kem, 'd, 'a) world
     \<Rightarrow> ('e, 'x) outcome \<times> bytes list \<times> ('pk, 'kp, 'r, 'kem, 'd, 'a) world" where
  "flush C sender rw =
     (case rw of (r, w) \<Rightarrow>
        (let outs = map (transmit_packet C sender) (w_sent w)
         in ((if Panic \<in> fst ` set outs then Panic else r), concat (map snd outs), w\<lparr>w_sent := []\<rparr>)))"

section \<open>The context\<close>

definition Context_new ::
  "('pk, 'kp, 'r, 'kem) crypto_layer \<Rightarrow> 'kp \<Rightarrow> 'r \<Rightarrow> 'a \<Rightarrow> ('pk, 'kp, 'r, 'kem, 'd, 'a) world" where
  "Context_new C static_secret_key rng a =
     (case ChallengeContext_new C rng of (challenge, rng) \<Rightarrow>
        \<lparr>ctx_rng = rng, ctx_s_secret = static_secret_key, ctx_session_map = Map.empty,
         ctx_sessions = {}, ctx_sessions_borrowed = False, ctx_b2_map = Map.empty,
         ctx_hello_defrag = DefragBuffer_new None, ctx_challenge = challenge,
         ctx_heap = Map.empty, ctx_next_session = 0, w_app = a, w_sent = []\<rparr>)"

definition enable_challenge ::
  "bool \<Rightarrow> ('pk, 'kp, 'r, 'kem, 'd, 'a) world \<Rightarrow> ('pk, 'kp, 'r, 'kem, 'd, 'a) world" where
  "enable_challenge enabled w = w\<lparr>ctx_challenge := (ctx_challenge w)\<lparr>cc_enabled := enabled\<rparr>\<rparr>"

definition Context_open ::
  "('pk, 'kp, 'r, 'kem) crypto_layer \<Rightarrow> ('pk, 'd, 'a) application_layer \<Rightarrow> (nat \<Rightarrow> bool) \<Rightarrow> nat
     \<Rightarrow> 'pk \<Rightarrow> 'd \<Rightarrow> bytes \<Rightarrow> ('pk, 'kp, 'r, 'kem, 'd, 'a) world
     \<Rightarrow> (open_error, session_id) outcome \<times> bytes list \<times> ('pk, 'kp, 'r, 'kem, 'd, 'a) world" where
  "Context_open C A send mtu static_remote_key session_data ident w =
     (if IDENTITY_MAX_SIZE < length ident then (Err IdentityTooLarge, [], w)
      else flush C (Some (send, mtu)) (trans_to_a1 C A static_remote_key session_data ident w))"

section \<open>Receiving on a session\<close>

text \<open>The verification closure of the fragmentation layer for an existing session.\<close>

definition session_vrfy ::
  "('pk, 'kp, 'kem, 'd) zeta \<Rightarrow> bytes \<Rightarrow> nat \<Rightarrow> nat \<Rightarrow> receive_error option" where
  "session_vrfy z n frag_no frag_count =
     (let (p, c) = from_nonce n
      in if p = PACKET_TYPE_HANDSHAKE_RESPONSE then
           (if \<not> (case z_beta z of A1 _ \<Rightarrow> True | _ \<Rightarrow> False) then Some (fault OutOfSequence False)
            else if COUNTER_WINDOW_MAX_SKIP_AHEAD \<le> c then Some (fault ExpiredCounter True)
            else None)
         else if PACKET_TYPE_USES_COUNTER_RANGE p then
           (if \<not> zeta_check_counter_window z c then Some (fault ExpiredCounter False) else None)
         else if p = PACKET_TYPE_HANDSHAKE_COMPLETION then Some (fault InvalidPacket False)
         else Some (fault InvalidPacket True))"

text \<open>The \<open>match p\<close> over the packet type.\<close>

definition dispatch ::
  "('pk, 'kp, 'r, 'kem) crypto_layer \<Rightarrow> ('pk, 'd, 'a) application_layer \<Rightarrow> session_id \<Rightarrow> u32 \<Rightarrow> bytes \<Rightarrow> bytes
     \<Rightarrow> ('pk, 'kp, 'kem, 'd) zeta \<Rightarrow> ('pk, 'kp, 'r, 'kem, 'd, 'a) world
     \<Rightarrow> (receive_error, session_event, 'pk, 'kp, 'r, 'kem, 'd, 'a) zeta_result" where
  "dispatch C A session kid_recv pn assembled z w =
     (let (p, _) = from_nonce pn; n = to_aes_nonce pn
      in if p = PACKET_TYPE_DATA then
           (case received_payload_in_place C kid_recv n assembled z of
              (r, z) \<Rightarrow> (map_outcome id Data r, z, w))
         else if p = PACKET_TYPE_HANDSHAKE_RESPONSE then
           (case received_x2_trans C A session kid_recv n assembled z w of
              (r, z, w) \<Rightarrow> (map_outcome id (\<lambda>warn. if warn then DowngradedRatchetKey else Control) r, z, w))
         else if p = PACKET_TYPE_KEY_CONFIRM then
           (case received_c1_trans C A kid_recv n assembled z w of
              (r, z, w) \<Rightarrow> (map_outcome id (\<lambda>b. if b then Established else Control) r, z, w))
         else if p = PACKET_TYPE_ACK then
           (case received_c2_trans C A kid_recv n assembled z w of
              (r, z, w) \<Rightarrow> (map_outcome id (\<lambda>_. Control) r, z, w))
         else if p = PACKET_TYPE_REKEY_INIT then
           (case received_k1_trans C A session kid_recv n assembled z w of
              (r, z, w) \<Rightarrow> (map_outcome id (\<lambda>_. Control) r, z, w))
         else if p = PACKET_TYPE_REKEY_COMPLETE then
           (case received_k2_trans C A kid_recv n assembled z w of
              (r, z, w) \<Rightarrow> (map_outcome id (\<lambda>_. Control) r, z, w))
         else if p = PACKET_TYPE_SESSION_REJECTED then
           (case received_d_trans C kid_recv n assembled z w of
              (r, z, w) \<Rightarrow> (map_outcome id (\<lambda>_. Rejected) r, z, w))
         else (Err (fault InvalidPacket True), z, w))"

definition put_zeta ::
  "session_id \<Rightarrow> ('pk, 'kp, 'kem, 'd) zeta \<Rightarrow> ('pk, 'kp, 'r, 'kem, 'd, 'a) world
     \<Rightarrow> ('pk, 'kp, 'r, 'kem, 'd, 'a) world" where
  "put_zeta s z w = w\<lparr>ctx_heap := (ctx_heap w)(s \<mapsto> z)\<rparr>"

definition receive_session ::
  "('pk, 'kp, 'r, 'kem) crypto_layer \<Rightarrow> ('pk, 'd, 'a) application_layer \<Rightarrow> session_id \<Rightarrow> u32 \<Rightarrow> bytes
     \<Rightarrow> ('pk, 'kp, 'kem, 'd) zeta \<Rightarrow> ('pk, 'kp, 'r, 'kem, 'd, 'a) world
     \<Rightarrow> (receive_error, receive_ok) outcome \<times> ('pk, 'kp, 'r, 'kem, 'd, 'a) world" where
  "receive_session C A session kid_recv raw_fragment z w =
     (let (now, w) = time_now A w
      in case received_fragment C (z_defrag z) raw_fragment now (session_vrfy z) of
           (r, defrag) \<Rightarrow>
             (let z = z\<lparr>z_defrag := defrag\<rparr>
              in case r of
                   Ok (Some (pn, assembled)) \<Rightarrow>
                     (case dispatch C A session kid_recv pn assembled z w of
                        (r, z, w) \<Rightarrow> (map_outcome id (SessionOk session) r, put_zeta session z w))
                 | Ok None \<Rightarrow> (Ok Unassociated, put_zeta session z w)
                 | Err e \<Rightarrow> (Err e, put_zeta session z w)
                 | Panic \<Rightarrow> (Panic, put_zeta session z w)
                 | Diverge \<Rightarrow> (Diverge, put_zeta session z w)))"

section \<open>Receiving on a pending handshake\<close>

definition b2_vrfy :: "bytes \<Rightarrow> nat \<Rightarrow> nat \<Rightarrow> receive_error option" where
  "b2_vrfy n frag_no frag_count =
     (let (p, c) = from_nonce n
      in if p = PACKET_TYPE_HANDSHAKE_COMPLETION \<and> c = 0 then None else Some (fault InvalidPacket True))"

definition receive_b2 ::
  "('pk, 'kp, 'r, 'kem) crypto_layer \<Rightarrow> ('pk, 'd, 'a) application_layer \<Rightarrow> u32 \<Rightarrow> bytes \<Rightarrow> 'kp state_b2
     \<Rightarrow> ('pk, 'kp, 'r, 'kem, 'd, 'a) world
     \<Rightarrow> (receive_error, receive_ok) outcome \<times> ('pk, 'kp, 'r, 'kem, 'd, 'a) world" where
  "receive_b2 C A kid_recv raw_fragment b2 w =
     (let (now, w) = time_now A w
      in case received_fragment C (b2_defrag b2) raw_fragment now b2_vrfy of
           (r, defrag) \<Rightarrow>
             (let b2 = b2\<lparr>b2_defrag := defrag\<rparr>; w = w\<lparr>ctx_b2_map := (ctx_b2_map w)(kid_recv \<mapsto> b2)\<rparr>
              in case r of
                   Ok (Some (_, assembled)) \<Rightarrow>
                     (let w = w\<lparr>ctx_b2_map := (ctx_b2_map w)(kid_recv := None)\<rparr>
                      in case received_x3_trans C A b2 kid_recv assembled w of
                           (r, w) \<Rightarrow>
                             (map_outcome id (\<lambda>(session, warn).
                                SessionOk session (if warn then NewDowngradedSession else NewSession)) r, w))
                 | Ok None \<Rightarrow> (Ok Unassociated, w)
                 | Err e \<Rightarrow> (Err e, w)
                 | Panic \<Rightarrow> (Panic, w)
                 | Diverge \<Rightarrow> (Diverge, w)))"

section \<open>Receiving a hello or a challenge\<close>

definition hello_vrfy :: "bytes \<Rightarrow> nat \<Rightarrow> nat \<Rightarrow> receive_error option" where
  "hello_vrfy n frag_no frag_count =
     (let (p, c) = from_nonce n
      in if p = PACKET_TYPE_HANDSHAKE_HELLO \<or> p = PACKET_TYPE_CHALLENGE then None
         else Some (fault InvalidPacket True))"

text \<open>The challenge layer. The subtraction \<open>len() - CHALLENGE_SIZE\<close> fails on a short packet.\<close>

definition process_hello_packet ::
  "('pk, 'kp, 'r, 'kem) crypto_layer \<Rightarrow> ('pk, 'd, 'a) application_layer \<Rightarrow> bytes \<Rightarrow> bytes \<Rightarrow> bytes
     \<Rightarrow> ('pk, 'kp, 'r, 'kem, 'd, 'a) world
     \<Rightarrow> (receive_error, receive_ok) outcome \<times> ('pk, 'kp, 'r, 'kem, 'd, 'a) world" where
  "process_hello_packet C A remote_address n assembled w =
     (if length assembled < CHALLENGE_SIZE then (Panic, w)
      else
        let challenge_start = length assembled - CHALLENGE_SIZE
        in case process_hello C (ctx_challenge w) remote_address (drop challenge_start assembled) of
             (r, cc) \<Rightarrow>
               (let w = w\<lparr>ctx_challenge := cc\<rparr>
                in case r of
                     Err challenge \<Rightarrow>
                       (let (x, rng) = next_u64 C (ctx_rng w);
                            nonce = to_nonce PACKET_TYPE_CHALLENGE x
                        in (Err (fault FailedAuth False),
                            emit (Packet 0 nonce (take KID_SIZE assembled @ challenge)) None
                              (w\<lparr>ctx_rng := rng\<rparr>)))
                   | Ok _ \<Rightarrow>
                       (case received_x1_trans C A (to_aes_nonce n) (take challenge_start assembled) w of
                          (r, w) \<Rightarrow> (map_outcome id (\<lambda>_. Unassociated) r, w))
                   | Panic \<Rightarrow> (Panic, w)
                   | Diverge \<Rightarrow> (Diverge, w)))"

definition process_challenge_packet ::
  "('pk, 'kp, 'r, 'kem) crypto_layer \<Rightarrow> bytes \<Rightarrow> ('pk, 'kp, 'r, 'kem, 'd, 'a) world
     \<Rightarrow> (receive_error, receive_ok) outcome \<times> ('pk, 'kp, 'r, 'kem, 'd, 'a) world" where
  "process_challenge_packet C assembled w =
     (if length assembled \<noteq> KID_SIZE + CHALLENGE_SIZE then (Err (fault InvalidPacket True), w)
      else case NonZeroU32_new (u32_from_be_bytes (take KID_SIZE assembled)) of
        None \<Rightarrow> (Err (fault UnknownLocalKeyId True), w)
      | Some kid_recv \<Rightarrow>
          (case Option.bind (ctx_session_map w kid_recv) (\<lambda>s. map_option (Pair s) (ctx_heap w s)) of
             None \<Rightarrow> (Err (fault UnknownLocalKeyId True), w)
           | Some (session, z) \<Rightarrow>
               (case respond_to_challenge C (drop KID_SIZE assembled) z w of
                  (r, z, w) \<Rightarrow> (map_outcome id (\<lambda>_. Unassociated) r, put_zeta session z w))))"

definition receive_hello ::
  "('pk, 'kp, 'r, 'kem) crypto_layer \<Rightarrow> ('pk, 'd, 'a) application_layer \<Rightarrow> bytes \<Rightarrow> bytes
     \<Rightarrow> ('pk, 'kp, 'r, 'kem, 'd, 'a) world
     \<Rightarrow> (receive_error, receive_ok) outcome \<times> ('pk, 'kp, 'r, 'kem, 'd, 'a) world" where
  "receive_hello C A remote_address raw_fragment w =
     (let (now, w) = time_now A w
      in case received_fragment C (ctx_hello_defrag w) raw_fragment now hello_vrfy of
           (r, defrag) \<Rightarrow>
             (let w = w\<lparr>ctx_hello_defrag := defrag\<rparr>
              in case r of
                   Ok (Some (n, assembled)) \<Rightarrow>
                     (let (p, _) = from_nonce n
                      in if p = PACKET_TYPE_HANDSHAKE_HELLO then process_hello_packet C A remote_address n assembled w
                         else if p = PACKET_TYPE_CHALLENGE then process_challenge_packet C assembled w
                         else (Err (fault InvalidPacket True), w))
                 | Ok None \<Rightarrow> (Ok Unassociated, w)
                 | Err e \<Rightarrow> (Err e, w)
                 | Panic \<Rightarrow> (Panic, w)
                 | Diverge \<Rightarrow> (Diverge, w)))"

section \<open>Receiving, sending, service\<close>

text \<open>
  \<open>reply\<close> is \<open>send_unassociated_reply\<close> with its MTU, \<open>send_to\<close> finds the sender of a session.
  The slice \<open>raw_fragment[..KID_SIZE]\<close> panics on a shorter packet.
\<close>

definition Context_receive ::
  "('pk, 'kp, 'r, 'kem) crypto_layer \<Rightarrow> ('pk, 'd, 'a) application_layer \<Rightarrow> (nat \<Rightarrow> bool) \<times> nat
     \<Rightarrow> (session_id \<Rightarrow> ((nat \<Rightarrow> bool) \<times> nat) option) \<Rightarrow> bytes \<Rightarrow> bytes
     \<Rightarrow> ('pk, 'kp, 'r, 'kem, 'd, 'a) world
     \<Rightarrow> (receive_error, receive_ok) outcome \<times> bytes list \<times> ('pk, 'kp, 'r, 'kem, 'd, 'a) world" where
  "Context_receive C A reply send_to remote_address raw_fragment w =
     (if length raw_fragment < KID_SIZE then (Panic, [], w)
      else case NonZeroU32_new (u32_from_be_bytes (take KID_SIZE raw_fragment)) of
        Some kid_recv \<Rightarrow>
          (case Option.bind (ctx_session_map w kid_recv) (\<lambda>s. map_option (Pair s) (ctx_heap w s)) of
             Some (session, z) \<Rightarrow>
               flush C (send_to session) (receive_session C A session kid_recv raw_fragment z w)
           | None \<Rightarrow>
               (case ctx_b2_map w kid_recv of
                  Some b2 \<Rightarrow> flush C (Some reply) (receive_b2 C A kid_recv raw_fragment b2 w)
                | None \<Rightarrow> (Err (fault UnknownLocalKeyId False), [], w)))
      | None \<Rightarrow> flush C (Some reply) (receive_hello C A remote_address raw_fragment w))"

text \<open>The session handed to \<open>send\<close> is an \<open>Arc\<close>, so it is in the heap.\<close>

definition Context_send ::
  "('pk, 'kp, 'r, 'kem) crypto_layer \<Rightarrow> session_id \<Rightarrow> (nat \<Rightarrow> bool) \<Rightarrow> nat \<Rightarrow> bytes
     \<Rightarrow> ('pk, 'kp, 'r, 'kem, 'd, 'a) world
     \<Rightarrow> (send_error, unit) outcome \<times> bytes list \<times> ('pk, 'kp, 'r, 'kem, 'd, 'a) world" where
  "Context_send C session send mtu payload w =
     (case ctx_heap w session of
        None \<Rightarrow> (Err SessionExpired, [], w)
      | Some z \<Rightarrow>
          (let result = (\<lambda>p hk. case fst (transmit_packet C (Some (send, mtu)) (p, hk)) of
                 Err e \<Rightarrow> if e then Err DataTooLarge else Ok ()
               | Ok _ \<Rightarrow> Ok ()
               | Panic \<Rightarrow> Panic
               | Diverge \<Rightarrow> Diverge)
           in case send_payload C result payload z w of
                (r, z, w) \<Rightarrow> flush C (Some (send, mtu)) (r, put_zeta session z w)))"

text \<open>
  The loop of \<open>service\<close> over the sessions, in the order in which the hash map yields them;
  a panic ends it.
\<close>

primrec service_sessions ::
  "('pk, 'kp, 'r, 'kem) crypto_layer \<Rightarrow> (session_id \<Rightarrow> ((nat \<Rightarrow> bool) \<times> nat) option) \<Rightarrow> i64
     \<Rightarrow> session_id list \<Rightarrow> i64 \<Rightarrow> ('pk, 'kp, 'r, 'kem, 'd, 'a) world
     \<Rightarrow> (unit, i64) outcome \<times> bytes list \<times> ('pk, 'kp, 'r, 'kem, 'd, 'a) world" where
  "service_sessions C send_to current_time [] timer w = (Ok timer, [], w)"
| "service_sessions C send_to current_time (session # order) timer w =
     (case ctx_heap w session of
        None \<Rightarrow> service_sessions C send_to current_time order timer w
      | Some z \<Rightarrow>
          (case zeta_service C session current_time z w of
             (r, z, w) \<Rightarrow>
               (case flush C (send_to session) (r :: (unit, unit) outcome, w) of
                  (Ok _, out, w) \<Rightarrow>
                    (let timer = min timer (next_timer z);
                         z = z\<lparr>z_defrag := DefragBuffer_service (z_defrag z) current_time\<rparr>
                     in case service_sessions C send_to current_time order timer (put_zeta session z w) of
                          (r, out', w) \<Rightarrow> (r, out @ out', w))
                | (Err e, out, w) \<Rightarrow> (Err e, out, put_zeta session z w)
                | (Panic, out, w) \<Rightarrow> (Panic, out, put_zeta session z w)
                | (Diverge, out, w) \<Rightarrow> (Diverge, out, put_zeta session z w))))"

text \<open>The table \<open>sessions\<close> stays borrowed while the loop runs.\<close>

definition Context_service ::
  "('pk, 'kp, 'r, 'kem) crypto_layer \<Rightarrow> ('pk, 'd, 'a) application_layer
     \<Rightarrow> (session_id \<Rightarrow> ((nat \<Rightarrow> bool) \<times> nat) option) \<Rightarrow> session_id list
     \<Rightarrow> ('pk, 'kp, 'r, 'kem, 'd, 'a) world
     \<Rightarrow> (unit, i64) outcome \<times> bytes list \<times> ('pk, 'kp, 'r, 'kem, 'd, 'a) world" where
  "Context_service C A send_to order w =
     (let w = w\<lparr>ctx_sessions_borrowed := True\<rparr>;
          (current_time, w) = time_now A w
      in case service_sessions C send_to current_time order I64_MAX w of
           (Ok timer, out, w) \<Rightarrow>
             (Ok (min (as_i64 (resend_time (SETTINGS C))) (i64_sub timer current_time)), out,
              w\<lparr>ctx_hello_defrag := DefragBuffer_service (ctx_hello_defrag w) current_time,
                ctx_sessions_borrowed := False\<rparr>)
         | (r, out, w) \<Rightarrow> (r, out, w\<lparr>ctx_sessions_borrowed := False\<rparr>))"

end
