(* ===== verification/Sample_Session.thy ===== *)
theory Sample_Session
  imports Zssp_Context
begin

text \<open>
  Concrete sessions and a concrete context, over the sample crypto layer and the sample
  application: the inputs at which witnesses apply the properties of sessions.
\<close>

definition sample_keys :: "u32 \<Rightarrow> keys" where
  "sample_keys kid = \<lparr>key_kek = Some (replicate 32 1), key_nk = Some (replicate 32 2), key_kid = Some kid\<rparr>"

definition sample_duplex :: "u32 \<Rightarrow> duplex_key" where
  "sample_duplex kid = \<lparr>dk_send = sample_keys (kid + 1), dk_recv = sample_keys kid\<rparr>"

definition sample_zeta :: "(u8, unit) zeta_automata \<Rightarrow> (u8, u8, unit, unit) zeta" where
  "sample_zeta b =
     \<lparr>z_session_data = (), z_was_bob = False, z_s_remote = 5, z_send_counter = 3,
      z_key_creation_counter = 0, z_key_index = False,
      z_keys = (\<lambda>i. sample_duplex (if i then 20 else 10)),
      z_ratchet_state1 = ratchet_empty, z_ratchet_state2 = None, z_hk_send = replicate 32 3,
      z_resend_timer = 100, z_timeout_timer = 5000, z_beta = b,
      z_counter_antireplay_window = window_new COUNTER_WINDOW_MAX_OOO,
      z_defrag = DefragBuffer_new (Some (replicate 32 4))\<rparr>"

definition sample_world :: "(u8, u8, nat, unit, unit, sample_app_state) world" where
  "sample_world = Context_new sample_crypto 9 1 sample_app_init"

lemma sample_key_ref [simp]:
  "key_ref (sample_zeta b) i = sample_duplex (if i then 20 else 10)"
  by (simp add: key_ref_def sample_zeta_def)

lemma sample_beta [simp]: "z_beta (sample_zeta b) = b"
  by (simp add: sample_zeta_def)

lemma sample_world_fields [simp]:
  "\<not> ctx_sessions_borrowed sample_world" "ctx_session_map sample_world = Map.empty"
  "ctx_heap sample_world = Map.empty" "w_sent sample_world = []" "w_app sample_world = sample_app_init"
  "ctx_s_secret sample_world = 9"
  by (simp_all add: sample_world_def Context_new_def split: prod.splits)

end
