(* ===== verification/Zeta_Steps.thy ===== *)
theory Zeta_Steps
  imports Sample_Session
begin
text \<open>
  One step of a session. The abstract machine is the automaton of the protocol: its phases and,
  for every event, the moves it may make. \<open>zeta_wf\<close> is the invariant of a session's state, among
  it that the keys which the code unwraps are there. \<open>progress\<close> is what every transition of
  \<open>reference/src/zeta.rs\<close> does to a well-formed session: it keeps the invariant, moves along the
  abstract machine, emits packets with fresh counters, lets the anti-replay window only grow
  and leaves the rest of the context alone. The theory proves it for every transition,
  together with the absence of panics.
\<close>

section \<open>The abstract machine\<close>

datatype phase = PNull | PA1 | PA3 | PS1 | PS2 | PR1 | PR2

datatype event = RecvX2 | RecvC1 | RecvC2 | RecvD | RecvK1 | RecvK2 | RecvData | RecvChallenge
  | RecvFragment | Timer | SendData | Close

inductive phase_step :: "event \<Rightarrow> phase \<Rightarrow> phase \<Rightarrow> bool" where
  stutter: "phase_step ev p p"
| x2_done: "phase_step RecvX2 PA1 PA3"
| c1_first: "phase_step RecvC1 PA3 PS2"
| c1_rekey: "phase_step RecvC1 PR2 PS2"
| c1_lost: "p \<in> {PA3, PR2} \<Longrightarrow> phase_step RecvC1 p PNull"
| c2_done: "phase_step RecvC2 PS1 PS2"
| d_done: "phase_step RecvD PA3 PNull"
| k1_done: "p \<in> {PS2, PR1} \<Longrightarrow> phase_step RecvK1 p PR2"
| k1_fault: "p \<in> {PS2, PR1} \<Longrightarrow> phase_step RecvK1 p PNull"
| k2_done: "phase_step RecvK2 PR1 PS1"
| k2_fault: "phase_step RecvK2 PR1 PNull"
| restart: "phase_step Timer PA3 PA1"
| rekey: "phase_step Timer PS2 PR1"
| timeout: "p \<in> {PS1, PR1, PR2} \<Longrightarrow> phase_step Timer p PNull"
| exhausted: "p \<in> {PS1, PS2, PR1, PR2} \<Longrightarrow> phase_step SendData p PNull"
| closed: "phase_step Close p PNull"

definition phase_of :: "('kp, 'kem) zeta_automata \<Rightarrow> phase" where
  "phase_of b = (case b of Null \<Rightarrow> PNull | A1 _ \<Rightarrow> PA1 | A3 _ _ \<Rightarrow> PA3 | S1 \<Rightarrow> PS1 | S2 \<Rightarrow> PS2
     | R1 _ _ _ \<Rightarrow> PR1 | R2 _ \<Rightarrow> PR2)"

definition counter_of :: "packet \<times> bytes option \<Rightarrow> nat" where
  "counter_of p = unat (snd (from_nonce (p_nonce (fst p))))"

definition counters :: "(packet \<times> bytes option) list \<Rightarrow> nat list" where
  "counters out = map counter_of
     (filter (\<lambda>p. PACKET_TYPE_USES_COUNTER_RANGE (fst (from_nonce (p_nonce (fst p))))) out)"

text \<open>Every packet holds at least a tag and a full nonce; the fragmentation layer relies on it.\<close>

definition packets_wf :: "(packet \<times> bytes option) list \<Rightarrow> bool" where
  "packets_wf out \<longleftrightarrow> (\<forall>p \<in> set out. AES_GCM_TAG_SIZE \<le> length (p_payload (fst p)) \<and>
     length (p_nonce (fst p)) = AES_GCM_NONCE_SIZE)"

text \<open>The packets of a transition carry fresh, ascending counters between the old and the new
  value of the send counter.\<close>

definition counted :: "u64 \<Rightarrow> (packet \<times> bytes option) list \<Rightarrow> u64 \<Rightarrow> bool" where
  "counted c out c' \<longleftrightarrow> unat c \<le> unat c' \<and> sorted_wrt (<) (counters out) \<and>
     (\<forall>d \<in> set (counters out). unat c \<le> d \<and> d < unat c') \<and> packets_wf out"

section \<open>Well-formed sessions\<close>

definition keys_ready :: "keys \<Rightarrow> bool" where
  "keys_ready k \<longleftrightarrow> key_kek k \<noteq> None \<and> key_nk k \<noteq> None \<and> key_kid k \<noteq> None"

definition duplex_ready :: "duplex_key \<Rightarrow> bool" where
  "duplex_ready d \<longleftrightarrow> keys_ready (dk_send d) \<and> keys_ready (dk_recv d)"

definition hello_packet_wf :: "packet \<Rightarrow> bool" where
  "hello_packet_wf p \<longleftrightarrow> (\<exists>c x. p = Packet 0 (to_nonce PACKET_TYPE_HANDSHAKE_HELLO c) x \<and>
     length x = HANDSHAKE_HELLO_SIZE + CHALLENGE_SIZE)"

definition completion_packet_wf :: "packet \<Rightarrow> bool" where
  "completion_packet_wf p \<longleftrightarrow> (\<exists>k x. p = Packet k (to_nonce PACKET_TYPE_HANDSHAKE_COMPLETION 0) x \<and>
     AES_GCM_TAG_SIZE \<le> length x)"

definition beta_wf :: "('pk, 'kp, 'kem, 'd) zeta \<Rightarrow> bool" where
  "beta_wf z =
     (case z_beta z of
        Null \<Rightarrow> True
      | A1 a1 \<Rightarrow> hello_packet_wf (a1_packet a1) \<and> recv_kid z True \<noteq> None
      | A3 _ p \<Rightarrow> completion_packet_wf p \<and> duplex_ready (key_ref z True)
      | S1 \<Rightarrow> duplex_ready (key_ref z False) \<and> z_ratchet_state2 z = None
      | S2 \<Rightarrow> duplex_ready (key_ref z False) \<and> z_ratchet_state2 z = None
      | R1 _ _ _ \<Rightarrow> duplex_ready (key_ref z False) \<and> recv_kid z True \<noteq> None \<and> z_ratchet_state2 z = None
      | R2 _ \<Rightarrow> duplex_ready (key_ref z False) \<and> duplex_ready (key_ref z True))"

definition zeta_wf :: "('pk, 'kp, 'kem, 'd) zeta \<Rightarrow> bool" where
  "zeta_wf z \<longleftrightarrow> length (z_counter_antireplay_window z) = COUNTER_WINDOW_MAX_OOO \<and>
     ratchet_wf (z_ratchet_state1 z) \<and> pred_option ratchet_wf (z_ratchet_state2 z) \<and>
     defrag_wf (z_defrag z) \<and> beta_wf z"

text \<open>What a transition leaves alone in the context.\<close>

definition ctx_frame ::
  "('pk, 'kp, 'r, 'kem, 'd, 'a) world \<Rightarrow> ('pk, 'kp, 'r, 'kem, 'd, 'a) world \<Rightarrow> bool" where
  "ctx_frame w w' \<longleftrightarrow>
     ctx_s_secret w' = ctx_s_secret w \<and> ctx_sessions_borrowed w' = ctx_sessions_borrowed w \<and>
     ctx_b2_map w' = ctx_b2_map w \<and> ctx_hello_defrag w' = ctx_hello_defrag w \<and>
     ctx_challenge w' = ctx_challenge w \<and> ctx_heap w' = ctx_heap w \<and>
     ctx_next_session w' = ctx_next_session w"

definition window_grows :: "u64 list \<Rightarrow> u64 list \<Rightarrow> bool" where
  "window_grows v v' \<longleftrightarrow> length v' = length v \<and>
     (window_wf v \<longrightarrow> (\<forall>c. session_taken v c \<longrightarrow> session_taken v' c))"

text \<open>What every transition does to a well-formed session.\<close>

definition progress ::
  "event \<Rightarrow> ('pk, 'kp, 'kem, 'd) zeta \<Rightarrow> ('pk, 'kp, 'r, 'kem, 'd, 'a) world
     \<Rightarrow> ('pk, 'kp, 'kem, 'd) zeta \<Rightarrow> ('pk, 'kp, 'r, 'kem, 'd, 'a) world \<Rightarrow> bool" where
  "progress ev z w z' w' \<longleftrightarrow>
     zeta_wf z' \<and> phase_step ev (phase_of (z_beta z)) (phase_of (z_beta z')) \<and>
     z_s_remote z' = z_s_remote z \<and> z_session_data z' = z_session_data z \<and> z_was_bob z' = z_was_bob z \<and>
     window_grows (z_counter_antireplay_window z) (z_counter_antireplay_window z') \<and>
     (\<exists>out. w_sent w' = w_sent w @ out \<and> counted (z_send_counter z) out (z_send_counter z')) \<and>
     ctx_frame w w'"

section \<open>Counters and phases\<close>

lemma phase_of_simps [simp]:
  "phase_of Null = PNull" "phase_of (A1 a) = PA1" "phase_of (A3 i p) = PA3" "phase_of S1 = PS1"
  "phase_of S2 = PS2" "phase_of (R1 n e k) = PR1" "phase_of (R2 k) = PR2"
  by (simp_all add: phase_of_def)

lemma counters_simps [simp]:
  "counters [] = []"
  "counters (xs @ ys) = counters xs @ counters ys"
  "counters ((Packet k (to_nonce t c) x, hk) # out) =
     (if PACKET_TYPE_USES_COUNTER_RANGE t then unat c # counters out else counters out)"
  by (simp_all add: counters_def counter_of_def)

lemma packets_wf_simps [simp]:
  "packets_wf []" "packets_wf (xs @ ys) \<longleftrightarrow> packets_wf xs \<and> packets_wf ys"
  "packets_wf (p # out) \<longleftrightarrow> AES_GCM_TAG_SIZE \<le> length (p_payload (fst p)) \<and>
     length (p_nonce (fst p)) = AES_GCM_NONCE_SIZE \<and> packets_wf out"
  by (auto simp: packets_wf_def)

lemma counted_silent [intro, simp]: "counters out = [] \<Longrightarrow> packets_wf out \<Longrightarrow> counted c out c"
  by (simp add: counted_def)

lemma counted_trans: "counted a o1 b \<Longrightarrow> counted b o2 c \<Longrightarrow> counted a (o1 @ o2) c"
  by (fastforce simp: counted_def sorted_wrt_append)

lemma HARD_EXPIRATION_Suc: "\<not> HARD_EXPIRATION \<le> c \<Longrightarrow> unat (c + 1) = unat c + 1"
  using unat_plus_one [of c] by (auto simp: zssp_sizes unat_word_ariths)

lemma counted_one:
  "\<not> HARD_EXPIRATION \<le> c \<Longrightarrow> counters out = [] \<or> counters out = [unat c] \<Longrightarrow> packets_wf out \<Longrightarrow>
   counted c out (c + 1)"
  by (auto simp: counted_def HARD_EXPIRATION_Suc)

section \<open>Effects of the shared operations\<close>

lemma get_counter_effect:
  "get_counter C z = (r, z') \<Longrightarrow>
   r = None \<and> z' = z \<or>
   (\<exists>b. r = Some (z_send_counter z, b) \<and> z' = z\<lparr>z_send_counter := z_send_counter z + 1\<rparr> \<and>
        \<not> HARD_EXPIRATION \<le> z_send_counter z)"
  by (auto simp: get_counter_def Let_def split: if_splits)

lemma send_control_effect:
  assumes C: "crypto_sized C" and sc: "send_control C z t p w = (b, z', w')"
  shows "\<exists>c out. z' = z\<lparr>z_send_counter := c\<rparr> \<and> w' = w\<lparr>w_sent := w_sent w @ out\<rparr> \<and>
    counted (z_send_counter z) out c"
proof -
  let ?K = "dk_send (key_ref z False)"
  have K: "key_ref (z\<lparr>z_send_counter := c\<rparr>) b = key_ref z b" for c b
    by (simp add: key_ref_def)
  consider (none) "get_counter C z = (None, z)"
    | (some) x where "get_counter C z = (Some (z_send_counter z, x), z\<lparr>z_send_counter := z_send_counter z + 1\<rparr>)"
        "\<not> HARD_EXPIRATION \<le> z_send_counter z"
    using get_counter_effect by (metis surj_pair)
  then show ?thesis
  proof cases
    case none
    with sc have "z' = z" "w' = w" by (simp_all add: send_control_def)
    then show ?thesis by (intro exI [of _ "z_send_counter z"] exI [of _ "[]"]) simp
  next
    case some
    show ?thesis
    proof (cases "key_kek ?K = None \<or> key_kid ?K = None")
      case True
      with sc some have "z' = z\<lparr>z_send_counter := z_send_counter z + 1\<rparr>" "w' = w"
        by (auto simp: send_control_def K split: option.splits)
      with some show ?thesis
        by (intro exI [of _ "z_send_counter z + 1"] exI [of _ "[]"]) (simp add: counted_one)
    next
      case False
      then obtain kek kid where k: "key_kek ?K = Some kek" "key_kid ?K = Some kid" by auto
      obtain ct tag where e: "aead_encrypt_in_place C kek (to_nonce t (z_send_counter z)) None p = (ct, tag)"
        by fastforce
      have "z' = z\<lparr>z_send_counter := z_send_counter z + 1\<rparr>"
        "w' = w\<lparr>w_sent := w_sent w @ [(Packet kid (to_nonce t (z_send_counter z)) (ct @ tag), Some (z_hk_send z))]\<rparr>"
        using sc some k e by (simp_all add: send_control_def K emit_def)
      moreover have "length tag = 16" by (rule aead_encrypt_lengths [OF C e])
      ultimately show ?thesis using some(2)
        by (intro exI conjI) (assumption+, rule counted_one, auto simp: zssp_sizes)
    qed
  qed
qed


lemma expire_effect:
  assumes "expire u z w = (r, z', w')"
  shows "z' = z\<lparr>z_resend_timer := I64_MAX, z_timeout_timer := I64_MAX, z_beta := Null\<rparr>"
    and "w_sent w' = w_sent w" and "ctx_frame w w'"
    and "r = Ok () \<or> r = Panic \<and> u \<and> ctx_sessions_borrowed w"
  using assms by (auto simp: expire_def Let_def forget_kid_def ctx_frame_def split: if_splits option.splits)

lemma remap_effect:
  assumes "remap C s z w = Some (kid, w')"
  shows "w_sent w' = w_sent w" and "ctx_frame w w'" and "w_app w' = w_app w"
  using assms by (auto simp: remap_def Let_def ctx_frame_def split: option.splits prod.splits)

lemma time_now_effect:
  "time_now A w = (t, w') \<Longrightarrow> w_sent w' = w_sent w \<and> ctx_frame w w'"
  by (auto simp: time_now_def ctx_frame_def split: prod.splits)

lemma save_ratchet_effect:
  "save_ratchet A pk d u w = (r, w') \<Longrightarrow> w_sent w' = w_sent w \<and> ctx_frame w w'"
  by (auto simp: save_ratchet_def ctx_frame_def split: prod.splits)

lemma ctx_frame_refl [simp]: "ctx_frame w w"
  by (simp add: ctx_frame_def)

lemma ctx_frame_trans: "ctx_frame w1 w2 \<Longrightarrow> ctx_frame w2 w3 \<Longrightarrow> ctx_frame w1 w3"
  by (simp add: ctx_frame_def)

lemma ctx_frame_updates [simp]:
  "ctx_frame w (w'\<lparr>w_app := a\<rparr>) = ctx_frame w w'" "ctx_frame w (w'\<lparr>w_sent := o1\<rparr>) = ctx_frame w w'"
  "ctx_frame w (w'\<lparr>ctx_rng := g\<rparr>) = ctx_frame w w'" "ctx_frame (w\<lparr>w_app := a\<rparr>) w' = ctx_frame w w'"
  "ctx_frame (w\<lparr>w_sent := o1\<rparr>) w' = ctx_frame w w'" "ctx_frame (w\<lparr>ctx_rng := g\<rparr>) w' = ctx_frame w w'"
  by (simp_all add: ctx_frame_def)

lemma window_grows_refl [simp]: "window_grows v v"
  by (simp add: window_grows_def)

lemma update_window_effect:
  assumes "zeta_update_counter_window z c = (ok, z')"
  shows "\<exists>v. z' = z\<lparr>z_counter_antireplay_window := v\<rparr> \<and> window_grows (z_counter_antireplay_window z) v"
proof -
  let ?v = "z_counter_antireplay_window z"
  have "session_taken ?v d \<longrightarrow> session_taken (snd (update_counter_window ?v c)) d" if "window_wf ?v" for d
    using session_window.taken_stays [OF that] by blast
  moreover have "length (snd (update_counter_window ?v c)) = length ?v"
    by (simp add: update_counter_window_def Let_def)
  ultimately show ?thesis
    using assms by (auto simp: zeta_update_counter_window_def window_grows_def split: prod.splits)
qed

lemma key_ref_updates [simp]:
  "key_ref (z\<lparr>z_beta := b\<rparr>) n = key_ref z n" "key_ref (z\<lparr>z_send_counter := c\<rparr>) n = key_ref z n"
  "key_ref (z\<lparr>z_resend_timer := t\<rparr>) n = key_ref z n" "key_ref (z\<lparr>z_timeout_timer := t\<rparr>) n = key_ref z n"
  "key_ref (z\<lparr>z_counter_antireplay_window := v\<rparr>) n = key_ref z n" "key_ref (z\<lparr>z_defrag := f\<rparr>) n = key_ref z n"
  "key_ref (z\<lparr>z_ratchet_state1 := r1\<rparr>) n = key_ref z n" "key_ref (z\<lparr>z_ratchet_state2 := r2\<rparr>) n = key_ref z n"
  "key_ref (z\<lparr>z_hk_send := h\<rparr>) n = key_ref z n" "key_ref (z\<lparr>z_key_creation_counter := c\<rparr>) n = key_ref z n"
  "z_key_index z = i \<Longrightarrow> key_ref (z\<lparr>z_key_index := \<not> i\<rparr>) n = key_ref z (\<not> n)"
  by (auto simp: key_ref_def)

lemma key_ref_mut [simp]:
  "key_ref (key_mut z b f) n = (if n = b then f (key_ref z b) else key_ref z n)"
  by (auto simp: key_ref_def key_mut_def)

lemma key_mut_fields [simp]:
  "z_session_data (key_mut z b f) = z_session_data z" "z_was_bob (key_mut z b f) = z_was_bob z"
  "z_s_remote (key_mut z b f) = z_s_remote z" "z_send_counter (key_mut z b f) = z_send_counter z"
  "z_key_creation_counter (key_mut z b f) = z_key_creation_counter z"
  "z_key_index (key_mut z b f) = z_key_index z"
  "z_ratchet_state1 (key_mut z b f) = z_ratchet_state1 z"
  "z_ratchet_state2 (key_mut z b f) = z_ratchet_state2 z" "z_hk_send (key_mut z b f) = z_hk_send z"
  "z_beta (key_mut z b f) = z_beta z" "z_defrag (key_mut z b f) = z_defrag z"
  "z_counter_antireplay_window (key_mut z b f) = z_counter_antireplay_window z"
  by (simp_all add: key_mut_def)

lemma duplex_ready_store [simp]:
  "duplex_ready (store_keys kid ks ns kr nr d) \<longleftrightarrow> key_kid (dk_recv d) \<noteq> None"
  by (auto simp: duplex_ready_def keys_ready_def store_keys_def)

lemma duplex_ready_recv_kid [simp]:
  "duplex_ready d \<Longrightarrow> duplex_ready (set_recv_kid kid d)"
  by (auto simp: duplex_ready_def keys_ready_def set_recv_kid_def)

lemma recv_kid_set [simp]: "key_kid (dk_recv (set_recv_kid kid d)) = Some kid"
  by (simp add: set_recv_kid_def)


lemma zeta_wf_window:
  "zeta_wf z \<Longrightarrow> window_grows (z_counter_antireplay_window z) v \<Longrightarrow>
   zeta_wf (z\<lparr>z_counter_antireplay_window := v\<rparr>)"
  by (auto simp: zeta_wf_def beta_wf_def window_grows_def recv_kid_def split: zeta_automata.splits)

lemma encrypt_and_hash_append_length:
  "crypto_sized C \<Longrightarrow> encrypt_and_hash_in_place C s iv (length x) (x @ y) = (s', x') \<Longrightarrow>
   length x' = length x + length y + 16"
  using encrypt_and_hash_length(1) [of C "length x" "x @ y" s iv s' x'] by simp

lemma length_gen_null_response: "gen_null_response C rng = (resp, rng') \<Longrightarrow> length resp = 32"
  by (auto simp: gen_null_response_def zssp_sizes split: prod.splits)

lemma length_write_e:
  "crypto_sized C \<Longrightarrow> write_e C s rng x = (e, s', rng', x') \<Longrightarrow> length x' = length x + 49"
  by (auto simp: write_e_def Let_def crypto_sizedD split: prod.splits)

text \<open>The intermediate values of \<open>create_a1_state\<close>.\<close>

lemma create_a1_stateE:
  assumes "create_a1_state C rng s_remote kid rs1 rs2 ident = (a1, rng')"
  obtains e_secret n1 rng1 x1 e1_secret e1_public rng2 n2 x2 n3 x3 response where
    "write_e C (mix_hash C (mix_hash C (initialize PROTOCOL_NAME_NOISE_XK) (u32_to_be_bytes kid))
        (pk_to_bytes C s_remote)) rng (u32_to_be_bytes kid) = (e_secret, n1, rng1, x1)"
    "kem_generate C rng1 = ((e1_secret, e1_public), rng2)"
    "encrypt_and_hash_in_place C (mix_dh C n1 e_secret s_remote) (to_nonce PACKET_TYPE_HANDSHAKE_HELLO 0)
       (length x1) (x1 @ e1_public) = (n2, x2)"
    "encrypt_and_hash_in_place C n2 (to_nonce PACKET_TYPE_HANDSHAKE_HELLO 1) (length x2)
       (x2 @ rs_fingerprint rs1
         @ (case rs2 of None \<Rightarrow> replicate RATCHET_SIZE 0 | Some rs \<Rightarrow> rs_fingerprint rs)) = (n3, x3)"
    "gen_null_response C rng2 = (response, rng')"
    "a1 = \<lparr>a1_noise = n3, a1_e_secret = e_secret, a1_e1_secret = e1_secret, a1_identity = ident,
       a1_packet = Packet 0 (to_nonce PACKET_TYPE_HANDSHAKE_HELLO (u64_from_be_bytes (drop (length x3 - 8) x3)))
         (x3 @ response)\<rparr>"
  using assms by (auto simp: create_a1_state_def Let_def split: prod.splits)

lemma create_a1_state_wf:
  assumes C: "crypto_sized C" and rs: "ratchet_wf rs1" "pred_option ratchet_wf rs2"
    and a1: "create_a1_state C rng pk kid rs1 rs2 ident = (a1, rng')"
  shows "hello_packet_wf (a1_packet a1)" and "a1_identity a1 = ident"
proof -
  from a1 show "hello_packet_wf (a1_packet a1)"
  proof (rule create_a1_stateE)
    fix e_secret n1 rng1 x1 e1_secret e1_public rng2 n2 x2 n3 x3 response
    assume h: "write_e C (mix_hash C (mix_hash C (initialize PROTOCOL_NAME_NOISE_XK) (u32_to_be_bytes kid))
        (pk_to_bytes C pk)) rng (u32_to_be_bytes kid) = (e_secret, n1, rng1, x1)"
      "kem_generate C rng1 = ((e1_secret, e1_public), rng2)"
      "encrypt_and_hash_in_place C (mix_dh C n1 e_secret pk) (to_nonce PACKET_TYPE_HANDSHAKE_HELLO 0)
         (length x1) (x1 @ e1_public) = (n2, x2)"
      "encrypt_and_hash_in_place C n2 (to_nonce PACKET_TYPE_HANDSHAKE_HELLO 1) (length x2)
         (x2 @ rs_fingerprint rs1
           @ (case rs2 of None \<Rightarrow> replicate RATCHET_SIZE 0 | Some rs \<Rightarrow> rs_fingerprint rs)) = (n3, x3)"
      "gen_null_response C rng2 = (response, rng')"
      "a1 = \<lparr>a1_noise = n3, a1_e_secret = e_secret, a1_e1_secret = e1_secret, a1_identity = ident,
         a1_packet = Packet 0 (to_nonce PACKET_TYPE_HANDSHAKE_HELLO (u64_from_be_bytes (drop (length x3 - 8) x3)))
           (x3 @ response)\<rparr>"
    have "length x1 = 53" "length e1_public = 1568" "length response = 32"
      using length_write_e [OF C h(1)] crypto_sizedD(10) [OF C, of rng1] h(2)
        length_gen_null_response [OF h(5)] by simp_all
    moreover have "length x2 = length x1 + length e1_public + 16"
      by (rule encrypt_and_hash_append_length [OF C h(3)])
    moreover have "length x3 = length x2 + 64 + 16"
      using encrypt_and_hash_append_length [OF C h(4)] rs
      by (auto simp: ratchet_wf_def zssp_sizes split: option.splits)
    ultimately show ?thesis using h(6) by (auto simp: hello_packet_wf_def zssp_sizes)
  qed
  show "a1_identity a1 = ident"
    using a1 by (rule create_a1_stateE) simp
qed

lemma zeta_wf_beta: "zeta_wf z \<Longrightarrow> beta_wf z"
  by (simp add: zeta_wf_def)

lemma restart_a1_progress:
  assumes C: "crypto_sized C" and z: "zeta_wf z" "phase_of (z_beta z) \<in> {PA1, PA3}"
    and r: "restart_a1 C s ident now z w = (r, z', w')"
    and ev: "phase_step ev (phase_of (z_beta z)) PA1"
  shows "progress ev z w z' w'" and "r \<noteq> Panic"
proof -
  show "r \<noteq> Panic" using r by (auto simp: restart_a1_def Let_def split: option.splits prod.splits)
  show "progress ev z w z' w'"
  proof (cases "remap C s z w")
    case None
    with r z show ?thesis by (auto simp: restart_a1_def progress_def phase_step.stutter)
  next
    case (Some p)
    obtain kid w1 where p: "p = (kid, w1)" by fastforce
    note m = remap_effect [OF Some [unfolded p]]
    obtain a1 rng hkr hks where a: "create_a1_state C (ctx_rng w1) (z_s_remote z) kid
        (z_ratchet_state1 z) (z_ratchet_state2 z) ident = (a1, rng)"
      "get_ask C (a1_noise a1) LABEL_HEADER_KEY = (hkr, hks)" by (metis surj_pair)
    have wf: "hello_packet_wf (a1_packet a1)"
      using create_a1_state_wf(1) [OF C _ _ a(1)] z by (simp add: zeta_wf_def)
    then obtain c x where x: "a1_packet a1 = Packet 0 (to_nonce PACKET_TYPE_HANDSHAKE_HELLO c) x"
        "16 \<le> length x"
      by (auto simp: hello_packet_wf_def zssp_sizes)
    have z': "z_beta z' = A1 a1" "z_send_counter z' = z_send_counter z"
      "recv_kid z' True = Some kid" "w_sent w' = w_sent w @ [(a1_packet a1, None)]" "ctx_frame w w'"
      "z_defrag z' = DefragBuffer_new (Some hkr)"
      "z_s_remote z' = z_s_remote z" "z_session_data z' = z_session_data z" "z_was_bob z' = z_was_bob z"
      "z_counter_antireplay_window z' = z_counter_antireplay_window z"
      "z_ratchet_state1 z' = z_ratchet_state1 z" "z_ratchet_state2 z' = z_ratchet_state2 z"
      using r Some p a m by (auto simp: restart_a1_def Let_def emit_def recv_kid_def)
    then have "zeta_wf z'" using z wf by (simp add: zeta_wf_def beta_wf_def defrag_wf_def DefragBuffer_new_def)
    moreover have "counted (z_send_counter z) [(a1_packet a1, None)] (z_send_counter z)"
      by (simp add: x zssp_sizes)
    ultimately show ?thesis using z' ev by (auto simp: progress_def)
  qed
qed


lemma progress_refl: "zeta_wf z \<Longrightarrow> progress ev z w z w"
  by (auto simp: progress_def phase_step.stutter intro!: exI [of _ "[]"])

text \<open>Ending a transition with a control packet.\<close>

lemma progress_control:
  assumes C: "crypto_sized C" and sc: "send_control C z1 t p w1 = (b, z', w')" and pr: "progress ev z w z1 w1"
  shows "progress ev z w z' w'"
proof -
  obtain c out where e: "z' = z1\<lparr>z_send_counter := c\<rparr>" "w' = w1\<lparr>w_sent := w_sent w1 @ out\<rparr>"
    "counted (z_send_counter z1) out c"
    using send_control_effect [OF C sc] by blast
  obtain o1 where o1: "w_sent w1 = w_sent w @ o1" "counted (z_send_counter z) o1 (z_send_counter z1)"
    using pr by (auto simp: progress_def)
  have "zeta_wf z'"
    using pr e(1) by (auto simp: progress_def zeta_wf_def beta_wf_def recv_kid_def split: zeta_automata.splits)
  moreover have "w_sent w' = w_sent w @ (o1 @ out)" "counted (z_send_counter z) (o1 @ out) (z_send_counter z')"
    using o1 e counted_trans by auto
  ultimately show ?thesis using pr e by (auto simp: progress_def)
qed

lemma progress_expire:
  assumes "expire u z1 w1 = (r, z', w')" and "progress ev z w z1 w1"
    and "phase_step ev (phase_of (z_beta z)) PNull"
  shows "progress ev z w z' w'"
  using expire_effect [OF assms(1)] assms(2,3)
  by (auto simp: progress_def zeta_wf_def beta_wf_def intro: ctx_frame_trans)

lemma start_rekey_progress:
  assumes C: "crypto_sized C" and z: "zeta_wf z" "z_beta z = S2"
    and r: "start_rekey C s now z w = (r, z', w')"
  shows "progress Timer z w z' w'" and "r \<noteq> Panic"
proof -
  show "r \<noteq> Panic" using r by (auto simp: start_rekey_def Let_def split: option.splits prod.splits)
  show "progress Timer z w z' w'"
  proof (cases "remap C s z w")
    case None
    with r z show ?thesis by (auto simp: start_rekey_def intro: progress_refl)
  next
    case (Some p)
    obtain kid w1 where p: "p = (kid, w1)" by fastforce
    note m = remap_effect [OF Some [unfolded p]]
    obtain noise e k1 rng where k: "create_k1 C (ctx_s_secret w1) (z_s_remote z)
        (rs_key (z_ratchet_state1 z)) (ctx_rng w1) kid = (noise, e, k1, rng)" by (metis surj_pair)
    define z1 where "z1 = key_mut z True (set_recv_kid kid)
      \<lparr>z_timeout_timer := after now (rekey_timeout (SETTINGS C)),
       z_resend_timer := after now (resend_time (SETTINGS C)), z_beta := R1 noise e k1\<rparr>"
    obtain b z2 w2 where c: "send_control C z1 PACKET_TYPE_REKEY_INIT k1 (w1\<lparr>ctx_rng := rng\<rparr>) = (b, z2, w2)"
      by (metis surj_pair)
    have "progress Timer z w z1 (w1\<lparr>ctx_rng := rng\<rparr>)"
      using z m by (auto simp: progress_def z1_def zeta_wf_def beta_wf_def recv_kid_def phase_step.rekey
          intro!: exI [of _ "[]"])
    then have "progress Timer z w z2 w2" by (rule progress_control [OF C c])
    moreover have "z' = z2" "w' = w2" using r Some p k c by (simp_all add: start_rekey_def z1_def)
    ultimately show ?thesis by simp
  qed
qed

lemma timeout_trans_progress:
  assumes C: "crypto_sized C" and z: "zeta_wf z"
    and r: "timeout_trans C s now z w = (r, z', w')"
  shows "progress Timer z w z' w'" and "\<not> ctx_sessions_borrowed w \<Longrightarrow> r \<noteq> Panic"
    and "phase_of (z_beta z) = PA1 \<Longrightarrow> progress ev z w z' w'"
proof -
  show "progress Timer z w z' w'"
    using r z restart_a1_progress(1) [OF C z, of s _ now w r z' w' Timer]
      start_rekey_progress(1) [OF C z, of s now w r z' w'] progress_expire [of True z w r z' w' Timer z w]
    by (auto simp: timeout_trans_def phase_step.intros progress_refl split: zeta_automata.splits)
  show "r \<noteq> Panic" if "\<not> ctx_sessions_borrowed w"
    using r that restart_a1_progress(2) [OF C z, of s _ now w r z' w' Timer]
      start_rekey_progress(2) [OF C z, of s now w r z' w'] expire_effect(4) [of True z w r z' w']
    by (auto simp: timeout_trans_def phase_step.intros split: zeta_automata.splits)
  show "progress ev z w z' w'" if "phase_of (z_beta z) = PA1"
    using r that restart_a1_progress(1) [OF C z, of s _ now w r z' w' ev]
    by (auto simp: timeout_trans_def phase_step.intros split: zeta_automata.splits)
qed

lemma zeta_service_progress:
  assumes C: "crypto_sized C" and z: "zeta_wf z"
    and r: "zeta_service C s now z w = (r, z', w')"
  shows "progress Timer z w z' w'" and "\<not> ctx_sessions_borrowed w \<Longrightarrow> r \<noteq> Panic"
proof -
  let ?z = "z\<lparr>z_resend_timer := after now (resend_time (SETTINGS C))\<rparr>"
  have wf: "zeta_wf ?z"
    using z by (simp add: zeta_wf_def beta_wf_def recv_kid_def split: zeta_automata.splits)
  have q: "progress Timer z w ?z w"
    using wf by (auto simp: progress_def phase_step.stutter intro!: exI [of _ "[]"])
  have sent: "progress Timer z w ?z (emit p hk w)" if "hello_packet_wf p \<or> completion_packet_wf p" for p hk
    using wf that by (auto simp: progress_def phase_step.stutter emit_def hello_packet_wf_def
        completion_packet_wf_def zssp_sizes intro!: exI [of _ "[(p, hk)]"])
  have b: "beta_wf z" using z by (rule zeta_wf_beta)
  show "progress Timer z w z' w'"
    using r timeout_trans_progress(1) [OF C z] q sent b progress_control [OF C _ q] progress_refl [OF z]
    by (auto simp: zeta_service_def Let_def beta_wf_def split: if_splits zeta_automata.splits prod.splits)
  show "r \<noteq> Panic" if "\<not> ctx_sessions_borrowed w"
    using r that timeout_trans_progress(2) [OF C z, of s now w r z' w']
    by (auto simp: zeta_service_def Let_def split: if_splits zeta_automata.splits prod.splits)
qed


section \<open>The handshake\<close>

lemma get_ask_ratchet_wf:
  "crypto_sized C \<Longrightarrow> get_ask C noise l = (rk, rf) \<Longrightarrow> ratchet_wf (ratchet_new rk rf n)"
  using get_ask_lengths [of C noise l rk rf] by (simp add: ratchet_wf_def zssp_sizes)

lemma length_write_x3:
  "crypto_sized C \<Longrightarrow> write_x3 C s e ident noise = (noise', x3) \<Longrightarrow> length x3 = 49 + 16 + length ident + 16"
proof -
  assume C: "crypto_sized C" and w: "write_x3 C s e ident noise = (noise', x3)"
  obtain n1 x where a: "encrypt_and_hash_in_place C noise (to_nonce PACKET_TYPE_HANDSHAKE_COMPLETION 1) (length ([] :: bytes))
      ([] @ kp_public_key_bytes C s) = (n1, x)" by fastforce
  have "encrypt_and_hash_in_place C (mix_dh C n1 s e) (to_nonce PACKET_TYPE_HANDSHAKE_COMPLETION 0) (length x)
      (x @ ident) = (noise', x3)"
    using w a by (simp add: write_x3_def)
  then show ?thesis
    using encrypt_and_hash_append_length [OF C a] encrypt_and_hash_append_length [OF C] crypto_sizedD(9) [OF C]
    by fastforce
qed

lemma finish_x2_progress:
  assumes C: "crypto_sized C" and z: "zeta_wf z" "z_beta z = A1 a1"
    and r: "finish_x2 C A a1 e kid i n noise z w = (r, z', w')"
  shows "progress RecvX2 z w z' w'" and "r \<noteq> Panic"
    and "r = Ok p \<Longrightarrow> completion_packet_wf p \<and> w_sent w' = w_sent w \<and> z_send_counter z' = z_send_counter z"
    and "r = Err x \<Longrightarrow> z' = z \<and> w_sent w' = w_sent w"
proof -
  obtain noise' x3 where x3: "write_x3 C (ctx_s_secret w) e (a1_identity a1) noise = (noise', x3)" by fastforce
  obtain rk rf where rk: "get_ask C noise' LABEL_RATCHET_STATE = (rk, rf)" by fastforce
  obtain sv w1 where sv: "save_ratchet A (z_s_remote z) (z_session_data z)
     (cas_new (ratchet_new rk rf (n + 1)) (if i = 1 then Some (z_ratchet_state1 z) else z_ratchet_state2 z) True
        (z_ratchet_state1 z) (z_ratchet_state2 z) (i = 2) (i = 1)) w = (sv, w1)" by fastforce
  note e1 = save_ratchet_effect [OF sv]
  have rwf: "ratchet_wf (ratchet_new rk rf (n + 1))" using C rk by (rule get_ask_ratchet_wf)
  have k: "recv_kid z True \<noteq> None" using z by (simp add: zeta_wf_def beta_wf_def)
  have l: "16 \<le> length x3" using length_write_x3 [OF C x3] by simp
  consider (fail) "\<exists>x. r = Err x" "z' = z" "w' = w1"
    | (saved) t w2 where "time_now A w1 = (t, w2)" "w' = w2" "r = Ok (Packet kid (to_nonce PACKET_TYPE_HANDSHAKE_COMPLETION 0) x3)"
       "z_beta z' = A3 (a1_identity a1) (Packet kid (to_nonce PACKET_TYPE_HANDSHAKE_COMPLETION 0) x3)"
       "duplex_ready (key_ref z' True)" "z_ratchet_state2 z' = Some (z_ratchet_state1 z)"
       "z_ratchet_state1 z' = ratchet_new rk rf (n + 1)" "z_send_counter z' = z_send_counter z"
       "z_s_remote z' = z_s_remote z" "z_session_data z' = z_session_data z" "z_was_bob z' = z_was_bob z"
       "z_counter_antireplay_window z' = z_counter_antireplay_window z" "z_defrag z' = z_defrag z"
    using r x3 rk sv k
    by (auto simp: finish_x2_def Let_def recv_kid_def split: sum.splits bool.splits prod.splits)
  note cases = this
  from cases show "progress RecvX2 z w z' w'"
  proof cases
    case fail
    with z e1 show ?thesis by (auto simp: progress_def phase_step.stutter intro!: exI [of _ "[]"])
  next
    case saved
    with z e1 time_now_effect [OF saved(1)] rwf l show ?thesis
      by (auto simp: progress_def phase_step.x2_done zeta_wf_def beta_wf_def completion_packet_wf_def zssp_sizes
          intro!: exI [of _ "[]"] intro: ctx_frame_trans)
  qed
  from cases show "r \<noteq> Panic" by cases auto
  from cases show "r = Ok p \<Longrightarrow> completion_packet_wf p \<and> w_sent w' = w_sent w \<and> z_send_counter z' = z_send_counter z"
  proof cases
    case saved
    assume "r = Ok p"
    with saved l e1 time_now_effect [OF saved(1)] show ?thesis by (auto simp: completion_packet_wf_def zssp_sizes)
  qed auto
  from cases show "r = Err x \<Longrightarrow> z' = z \<and> w_sent w' = w_sent w" using e1 by cases auto
qed


text \<open>The closure never panics, and leaves the session alone when it fails.\<close>

lemma process_x2_effect:
  assumes C: "crypto_sized C" and z: "zeta_wf z" "phase_of (z_beta z) = PA1"
    and r: "process_x2 C A s x2 z w = (warn, r, z', w')"
  shows "progress RecvX2 z w z' w'" and "r \<noteq> Panic"
    and "r = Ok p \<Longrightarrow> completion_packet_wf p \<and> w_sent w' = w_sent w \<and> z_send_counter z' = z_send_counter z"
    and "r = Err x \<Longrightarrow> z' = z \<and> w_sent w' = w_sent w"
proof -
  obtain a1 where a1: "z_beta z = A1 a1" using z(2) by (cases "z_beta z") auto
  consider (fail) "\<exists>x. r = Err x" "z' = z" "w_sent w' = w_sent w" "ctx_frame w w'"
    | (finish) e kid i n noise a where "finish_x2 C A a1 e kid i n noise z (w\<lparr>w_app := a\<rparr>) = (r, z', w')"
    using r a1 by (auto simp: process_x2_def Let_def split: sum.splits prod.splits option.splits)
  note cases = this
  from cases show "progress RecvX2 z w z' w'"
  proof cases
    case fail
    with z show ?thesis by (auto simp: progress_def phase_step.stutter intro!: exI [of _ "[]"])
  next
    case finish
    from finish_x2_progress(1) [OF C z(1) a1 finish] show ?thesis by (simp add: progress_def)
  qed
  from cases show "r \<noteq> Panic"
  proof cases
    case finish
    then show ?thesis by (rule finish_x2_progress(2) [OF C z(1) a1])
  qed auto
  from cases show "completion_packet_wf p \<and> w_sent w' = w_sent w \<and> z_send_counter z' = z_send_counter z"
    if "r = Ok p"
  proof cases
    case finish
    from finish_x2_progress(3) [OF C z(1) a1 finish that] show ?thesis by simp
  qed (use that in auto)
  from cases show "z' = z \<and> w_sent w' = w_sent w" if "r = Err x"
  proof cases
    case finish
    from finish_x2_progress(4) [OF C z(1) a1 finish that] show ?thesis by simp
  qed simp
qed

lemma progress_tail:
  "progress ev z w z1 w1 \<Longrightarrow> w_sent w' = w_sent w1 \<Longrightarrow> ctx_frame w1 w' \<Longrightarrow> progress ev z w z1 w'"
  by (auto simp: progress_def intro: ctx_frame_trans)

lemma progress_frame:
  "progress ev z w1 z' w' \<Longrightarrow> w_sent w1 = w_sent w \<Longrightarrow> ctx_frame w w1 \<Longrightarrow> progress ev z w z' w'"
  by (auto simp: progress_def intro: ctx_frame_trans)

text \<open>The ways a call of \<open>received_x2_trans\<close> can go.\<close>

lemma received_x2_cases:
  assumes r: "received_x2_trans C A s kid n x2 z w = (r, z', w')"
    and p: "process_x2 C A s x2 z w = (warn, r1, z1, w1)" and np: "r1 \<noteq> Panic"
    and t: "time_now A w1 = (t, w2)"
    and o3: "timeout_trans C s t z1 w2 = (r3 :: (receive_error, unit) outcome, z3, w3)"
  obtains (refused) x where "r = Err x" "z' = z" "w' = w"
    | (ok) q where "r1 = Ok q" "r = Ok warn" "z' = z1" "w' = emit q (Some (z_hk_send z1)) w1"
    | (fault) f where "r1 = Err (ByzantineFault f)" "z' = z3" "w' = w3" "r = Panic \<longrightarrow> r3 = Panic"
    | (storage) x where "r1 = Err x" "r = Err x" "z' = z1" "w' = w1"
    | (diverge) "r1 = Diverge" "r = Diverge" "z' = z1" "w' = w1"
proof (cases "HANDSHAKE_RESPONSE_SIZE \<noteq> length x2 \<or> Some kid \<noteq> recv_kid z True \<or>
    COUNTER_WINDOW_MAX_SKIP_AHEAD \<le> snd (from_nonce n) \<or>
    drop (AES_GCM_NONCE_SIZE - 3) n \<noteq> drop (length x2 - 3) x2")
  case True
  with r obtain x where "r = Err x" "z' = z" "w' = w"
    by (auto simp: received_x2_trans_def Let_def split: if_splits prod.splits)
  then show thesis by (rule refused)
next
  case False
  show thesis
  proof (cases r1)
    case (Ok q)
    show thesis
      by (rule ok [of q]) (use r False p Ok in \<open>auto simp: received_x2_trans_def Let_def split: prod.splits\<close>)
  next
    case (Err x)
    show thesis
    proof (cases "\<exists>f. x = ByzantineFault f")
      case True
      then obtain f where f: "x = ByzantineFault f" by blast
      show thesis
        by (rule fault [of f]) (use r False p Err f t o3 in \<open>auto simp: received_x2_trans_def Let_def
             split: prod.splits outcome.splits\<close>)
    next
      case nf: False
      show thesis
        by (rule storage [of x]) (use r False p Err nf in \<open>auto simp: received_x2_trans_def Let_def
             split: prod.splits receive_error.splits\<close>)
    qed
  next
    case Diverge
    show thesis
      by (rule diverge) (use r False p Diverge in \<open>auto simp: received_x2_trans_def Let_def split: prod.splits\<close>)
  qed (use np in simp)
qed

lemma received_x2_progress:
  assumes C: "crypto_sized C" and z: "zeta_wf z" "phase_of (z_beta z) = PA1"
    and r: "received_x2_trans C A s kid n x2 z w = (r, z', w')"
  shows "progress RecvX2 z w z' w'" and "\<not> ctx_sessions_borrowed w \<Longrightarrow> r \<noteq> Panic"
proof -
  obtain warn r1 z1 w1 where p: "process_x2 C A s x2 z w = (warn, r1, z1, w1)" by (metis surj_pair)
  note px = process_x2_effect [OF C z p]
  obtain t w2 where t: "time_now A w1 = (t, w2)" by fastforce
  obtain r3 z3 w3 where o3: "timeout_trans C s t z1 w2 = (r3 :: (receive_error, unit) outcome, z3, w3)"
    by (metis surj_pair)
  have tm: "w_sent w2 = w_sent w1" "ctx_frame w w2"
    using time_now_effect [OF t] px(1) by (auto simp: progress_def intro: ctx_frame_trans)
  have kept: "z1 = z" "w_sent w2 = w_sent w" if "r1 = Err x" for x
    using px(4) [OF that] tm by simp_all
  note cases = received_x2_cases [OF r p px(2) t o3]
  show "progress RecvX2 z w z' w'"
  proof (rule cases)
    fix q assume ok: "r1 = Ok q" "r = Ok warn" "z' = z1" "w' = emit q (Some (z_hk_send z1)) w1"
    from px(3) [OF ok(1)] px(1) ok(3,4) show ?thesis
      by (auto simp: progress_def emit_def completion_packet_wf_def zssp_sizes
          intro!: exI [of _ "[(q, Some (z_hk_send z1))]"])
  next
    fix f assume f: "r1 = Err (ByzantineFault f)" "z' = z3" "w' = w3"
    from timeout_trans_progress(3) [OF C z(1) o3 [unfolded kept(1) [OF f(1)]] z(2)]
    show ?thesis unfolding f(2,3) by (rule progress_frame) (use kept(2) [OF f(1)] tm in auto)
  qed (use px(1) progress_refl [OF z(1)] in auto)
  show "r \<noteq> Panic" if "\<not> ctx_sessions_borrowed w"
  proof (rule cases)
    fix f assume f: "r1 = Err (ByzantineFault f)" "r = Panic \<longrightarrow> r3 = Panic"
    from tm(2) that have "\<not> ctx_sessions_borrowed w2" by (simp add: ctx_frame_def)
    with timeout_trans_progress(2) [OF C z(1) o3 [unfolded kept(1) [OF f(1)]]] f(2) show ?thesis by blast
  qed auto
qed


section \<open>Established sessions\<close>

lemma enter_s2_progress:
  assumes j: "rekey_time_max_jitter (SETTINGS C) \<noteq> 0"
    and z1: "progress ev z w (z1\<lparr>z_beta := S2\<rparr>) w1"
    and r: "enter_s2 C A z1 w1 = (r, z', w')"
  shows "progress ev z w z' w'" and "r = Ok ()"
proof -
  obtain x rng where x: "next_u64 C (ctx_rng w1) = (x, rng)" by fastforce
  obtain t w2 where t: "time_now A (w1\<lparr>ctx_rng := rng\<rparr>) = (t, w2)" by fastforce
  note e = time_now_effect [OF t]
  show "r = Ok ()" using r x t j by (auto simp: enter_s2_def Let_def)
  show "progress ev z w z' w'"
    using r x t e z1 j
    by (auto simp: enter_s2_def Let_def progress_def zeta_wf_def beta_wf_def intro: ctx_frame_trans)
qed

lemma confirm_key_progress:
  assumes j: "rekey_time_max_jitter (SETTINGS C) \<noteq> 0"
    and z1: "progress RecvC1 z w z1 w1" and b: "z_beta z1 = z_beta z"
    and p: "phase_of (z_beta z) \<in> {PA3, PR2}"
    and r: "confirm_key C A z1 w1 = (r, z', w')"
  shows "progress RecvC1 z w z' w'" and "\<not> ctx_sessions_borrowed w \<Longrightarrow> r \<noteq> Panic"
proof -
  let ?u = "cas_new (z_ratchet_state1 z1) None False (z_ratchet_state1 z1) (z_ratchet_state2 z1) False True"
  obtain sv w2 where sv: "(if z_ratchet_state2 z1 \<noteq> None
      then save_ratchet A (z_s_remote z1) (z_session_data z1) ?u w1 else (Inr True, w1)) = (sv, w2)"
    by fastforce
  have e: "w_sent w2 = w_sent w1" "ctx_frame w1 w2"
    using sv save_ratchet_effect [of A "z_s_remote z1" "z_session_data z1" ?u w1 sv w2] by (auto split: if_splits)
  have z2: "progress RecvC1 z w z1 w2" using z1 e by (auto simp: progress_def intro: ctx_frame_trans)
  let ?z = "z1\<lparr>z_ratchet_state2 := None, z_key_index := \<not> z_key_index z1\<rparr>"
  have "duplex_ready (key_ref z1 True)"
    using z1 b p by (auto simp: progress_def zeta_wf_def beta_wf_def phase_of_def split: zeta_automata.splits)
  then have z3: "progress RecvC1 z w (?z\<lparr>z_beta := S2\<rparr>) w2"
    using z2 p by (auto simp: progress_def zeta_wf_def beta_wf_def phase_step.intros)
  have lost: "phase_step RecvC1 (phase_of (z_beta z)) PNull" using p by (auto intro: phase_step.intros)
  obtain r3 z3 w3 where x: "expire True z1 w2 = (r3 :: (receive_error, unit) outcome, z3, w3)" by (metis surj_pair)
  consider (err) y where "r = Err (StorageError y)" "z' = z1" "w' = w2"
    | (lost) "z' = z3" "w' = w3" "r = Panic \<longrightarrow> r3 = Panic"
    | (ok) "enter_s2 C A ?z w2 = (r, z', w')"
    using r sv x by (auto simp: confirm_key_def Let_def split: sum.splits bool.splits outcome.splits)
  note cases = this
  from cases show "progress RecvC1 z w z' w'"
    using z2 progress_expire [OF x z2 lost] enter_s2_progress(1) [OF j z3] by cases auto
  from cases show "r \<noteq> Panic" if "\<not> ctx_sessions_borrowed w"
    using z2 that expire_effect(4) [OF x] enter_s2_progress(2) [OF j z3]
    by cases (auto simp: progress_def ctx_frame_def)
qed

lemma progress_window:
  assumes "zeta_wf z" "zeta_update_counter_window z c = (ok, z1)"
  shows "progress ev z w z1 w" and "z_beta z1 = z_beta z" and "z_was_bob z1 = z_was_bob z"
    and "key_ref z1 = key_ref z" and "z_ratchet_state2 z1 = z_ratchet_state2 z"
    and "z_ratchet_state1 z1 = z_ratchet_state1 z" and "z_s_remote z1 = z_s_remote z"
proof -
  obtain v where "z1 = z\<lparr>z_counter_antireplay_window := v\<rparr>"
    "window_grows (z_counter_antireplay_window z) v"
    using update_window_effect [OF assms(2)] by blast
  then show "progress ev z w z1 w" "z_beta z1 = z_beta z" "z_was_bob z1 = z_was_bob z"
    "key_ref z1 = key_ref z" "z_ratchet_state2 z1 = z_ratchet_state2 z"
    "z_ratchet_state1 z1 = z_ratchet_state1 z" "z_s_remote z1 = z_s_remote z"
    using zeta_wf_window [OF assms(1)]
    by (auto simp: progress_def phase_step.stutter intro!: exI [of _ "[]"] ext)
qed

text \<open>Either the packet is refused before any effect but the window's, or it is confirmed and acknowledged.\<close>

lemma received_c1_cases:
  assumes r: "received_c1_trans C A kid n c1 z w = (r, z', w')"
    and u: "zeta_update_counter_window z (snd (from_nonce n)) = (ok, z1)"
  obtains (refused) x where "r = Err x" "z' = z \<or> z' = z1" "w' = w"
  | (confirmed) r2 z2 w2 where "confirm_key C A z1 w = (r2, z2, w2)"
      "is_a3 (z_beta z1) \<or> is_r2 (z_beta z1)" "r2 \<noteq> Ok ()" "z' = z2" "w' = w2" "r = Panic \<longrightarrow> r2 = Panic"
  | (answered) r2 z2 w2 b where "confirm_key C A z1 w = (Ok (), z2, w2) \<and> (is_a3 (z_beta z1) \<or> is_r2 (z_beta z1))
        \<or> z2 = z1 \<and> w2 = w"
      "send_control C z2 PACKET_TYPE_ACK [] w2 = (b, z', w')" "r \<noteq> Panic"
proof -
  let ?pre = "length c1 = KEY_CONFIRMATION_SIZE \<and> (\<exists>o1 k. which_key z kid = Some o1 \<and>
     key_kek (dk_recv (key_ref z o1)) = Some k \<and> fst (aead_decrypt_in_place C k n None [] c1)) \<and> ok"
  show thesis
  proof (cases ?pre)
    case False
    then have "\<exists>x. r = Err x" "z' = z \<or> z' = z1" "w' = w"
      using r u by (auto simp: received_c1_trans_def Let_def split: if_splits option.splits prod.splits)
    then show thesis using refused by blast
  next
    case True
    then obtain o1 where o1: "which_key z kid = Some o1" by blast
    let ?c = "o1 \<and> (is_a3 (z_beta z1) \<or> is_r2 (z_beta z1))"
    obtain r2 z2 w2 where c: "(if ?c then confirm_key C A z1 w else (Ok (), z1, w)) = (r2, z2, w2)"
      by (metis surj_pair)
    obtain b z3 w3 where b: "send_control C z2 PACKET_TYPE_ACK [] w2 = (b, z3, w3)" by (metis surj_pair)
    have run: "(r, z', w') = (case r2 of Ok _ \<Rightarrow>
        (if \<not> b then Err (fault OutOfSequence True) else Ok (o1 \<and> is_a3 (z_beta z1)), z3, w3)
      | Err e \<Rightarrow> (Err e, z2, w2) | Panic \<Rightarrow> (Panic, z2, w2) | Diverge \<Rightarrow> (Diverge, z2, w2))"
      using r u True o1 c b
      by (cases r2) (auto simp: received_c1_trans_def Let_def split: prod.splits)
    show thesis
    proof (cases "r2 = Ok ()")
      case True
      show thesis
        by (rule answered [of z2 w2 b]) (use run b c True in \<open>auto split: if_splits\<close>)
    next
      case False
      show thesis
        by (rule confirmed [of r2 z2 w2]) (use run c False in \<open>auto split: if_splits outcome.splits\<close>)
    qed
  qed
qed

lemma received_c1_progress:
  assumes C: "crypto_sized C" and j: "rekey_time_max_jitter (SETTINGS C) \<noteq> 0" and z: "zeta_wf z"
    and r: "received_c1_trans C A kid n c1 z w = (r, z', w')"
  shows "progress RecvC1 z w z' w'" and "\<not> ctx_sessions_borrowed w \<Longrightarrow> r \<noteq> Panic"
proof -
  obtain ok z1 where u: "zeta_update_counter_window z (snd (from_nonce n)) = (ok, z1)" by fastforce
  have pw: "progress RecvC1 z w z1 w" "z_beta z1 = z_beta z" by (rule progress_window [OF z u])+
  have p: "phase_of (z_beta z) \<in> {PA3, PR2}" if "is_a3 (z_beta z1) \<or> is_r2 (z_beta z1)"
    using that pw(2) by (cases "z_beta z") (auto simp: is_a3_def is_r2_def)
  note ck = confirm_key_progress [OF j pw p]
  note cases = received_c1_cases [OF r u]
  show "progress RecvC1 z w z' w'"
  proof (rule cases)
    fix z2 w2 b
    assume "confirm_key C A z1 w = (Ok (), z2, w2) \<and> (is_a3 (z_beta z1) \<or> is_r2 (z_beta z1)) \<or> z2 = z1 \<and> w2 = w"
      and c: "send_control C z2 PACKET_TYPE_ACK [] w2 = (b, z', w')"
    then have "progress RecvC1 z w z2 w2" using ck(1) pw(1) by blast
    then show ?thesis by (rule progress_control [OF C c])
  qed (use ck(1) pw(1) progress_refl [OF z] in auto)
  show "r \<noteq> Panic" if "\<not> ctx_sessions_borrowed w"
    by (rule cases) (use ck(2) that in auto)
qed

lemma received_c2_progress:
  assumes j: "rekey_time_max_jitter (SETTINGS C) \<noteq> 0" and z: "zeta_wf z"
    and r: "received_c2_trans C A kid n c2 z w = (r, z', w')"
  shows "progress RecvC2 z w z' w'" and "r \<noteq> Panic"
proof -
  obtain ok z1 where u: "zeta_update_counter_window z (snd (from_nonce n)) = (ok, z1)" by fastforce
  note pw = progress_window(1) [OF z u, where ev = RecvC2 and w = w] progress_window(2-5) [OF z u]
  have k: "duplex_ready (key_ref z False)" "z_ratchet_state2 z = None" if "z_beta z = S1"
    using z that by (simp_all add: zeta_wf_def beta_wf_def)
  have z2: "progress RecvC2 z w (z1\<lparr>z_beta := S2\<rparr>) w" if "z_beta z = S1"
    using pw k that by (auto simp: progress_def zeta_wf_def beta_wf_def phase_step.intros)
  consider (refused) x where "r = Err x" "z' = z \<or> z' = z1" "w' = w"
    | (ok) "z_beta z = S1" "enter_s2 C A z1 w = (r, z', w')"
    using r u k by (auto simp: received_c2_trans_def Let_def duplex_ready_def keys_ready_def
        split: if_splits option.splits prod.splits)
  note cases = this
  from cases show "progress RecvC2 z w z' w'"
    using pw(1) progress_refl [OF z] enter_s2_progress(1) [OF j z2] by cases auto
  from cases show "r \<noteq> Panic" using enter_s2_progress(2) [OF j z2] by cases auto
qed

lemma received_d_progress:
  assumes z: "zeta_wf z" and r: "received_d_trans C kid n d z w = (r, z', w')"
  shows "progress RecvD z w z' w'" and "\<not> ctx_sessions_borrowed w \<Longrightarrow> r \<noteq> Panic"
proof -
  obtain ok z1 where u: "zeta_update_counter_window z (snd (from_nonce n)) = (ok, z1)" by fastforce
  note pw = progress_window(1) [OF z u, where ev = RecvD and w = w]
  have a3: "duplex_ready (key_ref z True) \<and> phase_of (z_beta z) = PA3" if "is_a3 (z_beta z)"
    using z that by (auto simp: zeta_wf_def beta_wf_def is_a3_def split: zeta_automata.splits)
  consider (refused) x where "r = Err x" "z' = z \<or> z' = z1" "w' = w"
    | (ok) "phase_of (z_beta z) = PA3" "expire True z1 w = (r, z', w')"
    using r u a3 by (auto simp: received_d_trans_def Let_def duplex_ready_def keys_ready_def
        split: if_splits option.splits prod.splits)
  note cases = this
  from cases show "progress RecvD z w z' w'"
    using pw(1) progress_refl [OF z] progress_expire [OF _ pw, of True r z' w'] phase_step.d_done by cases auto
  from cases show "r \<noteq> Panic" if "\<not> ctx_sessions_borrowed w"
    using expire_effect(4) [of True z1 w r z' w'] that by cases auto
qed


section \<open>Rekeying\<close>

lemma expire_on_fault_progress:
  assumes p: "progress ev z w z1 w1" and ev: "phase_step ev (phase_of (z_beta z)) PNull"
    and r: "expire_on_fault (r1, z1, w1) = (r, z', w')"
  shows "progress ev z w z' w'" and "\<not> ctx_sessions_borrowed w \<Longrightarrow> r1 \<noteq> Panic \<Longrightarrow> r \<noteq> Panic"
proof -
  obtain r3 z3 w3 where x: "expire True z1 w1 = (r3 :: (receive_error, unit) outcome, z3, w3)" by (metis surj_pair)
  have "z' = z1 \<and> w' = w1 \<and> r = r1 \<or> z' = z3 \<and> w' = w3 \<and> (r = Panic \<longrightarrow> r3 = Panic)"
    using r x by (auto simp: expire_on_fault_def split: outcome.splits receive_error.splits)
  then show "progress ev z w z' w'" "\<not> ctx_sessions_borrowed w \<Longrightarrow> r1 \<noteq> Panic \<Longrightarrow> r \<noteq> Panic"
    using p progress_expire [OF x p ev] expire_effect(4) [OF x] by (auto simp: progress_def ctx_frame_def)
qed

lemma open_rekey_progress:
  assumes z: "zeta_wf z" and k: "expected \<Longrightarrow> duplex_ready (key_ref z False)"
    and r: "open_rekey C expected kid n x z = (r, z1)"
  shows "progress ev z w z1 w" and "r \<noteq> Panic" and "r \<noteq> Diverge" and "r = Ok x' \<Longrightarrow> expected"
    and "z_beta z1 = z_beta z" and "key_ref z1 = key_ref z" and "z_ratchet_state2 z1 = z_ratchet_state2 z"
proof -
  obtain ok z2 where u: "zeta_update_counter_window z (snd (from_nonce n)) = (ok, z2)" by fastforce
  have c: "(z1 = z \<or> z1 = z2) \<and> r \<noteq> Panic \<and> r \<noteq> Diverge \<and> (r = Ok x' \<longrightarrow> expected)"
    using r u k by (auto simp: open_rekey_def Let_def duplex_ready_def keys_ready_def
        split: if_splits option.splits prod.splits)
  then show "progress ev z w z1 w" "r \<noteq> Panic" "r \<noteq> Diverge" "r = Ok x' \<Longrightarrow> expected"
    "z_beta z1 = z_beta z" "key_ref z1 = key_ref z" "z_ratchet_state2 z1 = z_ratchet_state2 z"
    using progress_window [OF z u] progress_refl [OF z] by auto
qed

lemma process_k1_progress:
  assumes C: "crypto_sized C" and z1: "progress RecvK1 z w z1 w1" "z_beta z1 = z_beta z"
    and p: "phase_of (z_beta z) \<in> {PS2, PR1}"
    and r: "process_k1 C A s x z1 w1 = (r, z', w')"
  shows "progress RecvK1 z w z' w'" and "r \<noteq> Panic"
proof -
  have k: "duplex_ready (key_ref z1 False)"
    using z1 p by (auto simp: progress_def zeta_wf_def beta_wf_def phase_of_def split: zeta_automata.splits)
  show "r \<noteq> Panic"
    using r by (auto simp: process_k1_def Let_def split: sum.splits bool.splits prod.splits option.splits)
  consider (fail) "z' = z1" "w_sent w' = w_sent w1" "ctx_frame w1 w'"
    | (ok) z2 w2 k2 b where "progress RecvK1 z w z2 w2"
        "send_control C z2 PACKET_TYPE_REKEY_COMPLETE k2 w2 = (b, z', w')"
  proof (cases "read_k1 C (ctx_s_secret w1) (z_s_remote z1) (rs_key (z_ratchet_state1 z1)) x")
    case (Inl e)
    then show thesis using r by (intro that(1)) (auto simp: process_k1_def)
  next
    case (Inr y)
    obtain kid e noise where y: "y = (kid, e, noise)" by (cases y) auto
    obtain n2 k2 rng where t: "write_k2_tokens C (ctx_s_secret w1) e noise (ctx_rng w1) = (n2, k2, rng)"
      by (metis surj_pair)
    show thesis
    proof (cases "remap C s z1 (w1\<lparr>ctx_rng := rng\<rparr>)")
      case None
      then show thesis using r Inr y t by (intro that(1)) (auto simp: process_k1_def)
    next
      case (Some q)
      obtain nk w2 where q: "q = (nk, w2)" by fastforce
      note m = remap_effect [OF Some [unfolded q]]
      obtain n3 k3 where n3: "write_k2_payload C n2 k2 nk = (n3, k3)" by fastforce
      obtain rk rf where rk: "get_ask C n3 LABEL_RATCHET_STATE = (rk, rf)" by fastforce
      let ?rs = "ratchet_new rk rf (rs_chain_len (z_ratchet_state1 z1) + 1)"
      have rwf: "ratchet_wf ?rs" using C rk by (rule get_ask_ratchet_wf)
      obtain sv w3 where sv: "save_ratchet A (z_s_remote z1) (z_session_data z1)
          (cas_new ?rs (Some (z_ratchet_state1 z1)) True (z_ratchet_state1 z1) (z_ratchet_state2 z1) False True) w2
          = (sv, w3)" by fastforce
      note e = save_ratchet_effect [OF sv]
      show thesis
      proof (cases "sv = Inr True")
        case False
        with r Inr y t Some q n3 rk sv have "z' = z1" "w' = w3"
          by (auto simp: process_k1_def Let_def split: sum.splits bool.splits)
        with e m show thesis by (intro that(1)) (auto intro: ctx_frame_trans)
      next
        case True
        obtain ks kr where kk: "get_ask C n3 LABEL_KEX_KEY = (ks, kr)" by fastforce
        obtain ns nr where nn: "split_keys C n3 = (ns, nr)" by fastforce
        obtain t4 w4 where t4: "time_now A w3 = (t4, w4)" by fastforce
        note e4 = time_now_effect [OF t4]
        define z2 where "z2 = (key_mut (key_mut z1 True (store_keys kid ks ns kr nr)) True (set_recv_kid nk))
          \<lparr>z_ratchet_state2 := Some (z_ratchet_state1 z1), z_ratchet_state1 := ?rs,
           z_key_creation_counter := z_send_counter z1,
           z_timeout_timer := after t4 (rekey_timeout (SETTINGS C)),
           z_resend_timer := after t4 (resend_time (SETTINGS C)), z_beta := R2 k3\<rparr>"
        obtain b z3 w5 where b: "send_control C z2 PACKET_TYPE_REKEY_COMPLETE k3 w4 = (b, z3, w5)"
          by (metis surj_pair)
        have "z' = z3" "w' = w5"
          using r Inr y t Some q n3 rk sv True kk nn t4 b by (auto simp: process_k1_def Let_def z2_def)
        have f: "ctx_frame w w4" using z1 m e e4 by (auto simp: progress_def intro: ctx_frame_trans)
        have "progress RecvK1 z w z2 w4"
          using z1(1) p k rwf e m e4 f
          by (auto simp: progress_def z2_def zeta_wf_def beta_wf_def phase_step.intros
              duplex_ready_def keys_ready_def store_keys_def set_recv_kid_def)
        with b \<open>z' = z3\<close> \<open>w' = w5\<close> show thesis by (intro that(2)) auto
      qed
    qed
  qed
  then show "progress RecvK1 z w z' w'"
    using progress_tail [OF z1(1)] progress_control [OF C] by cases blast+
qed


lemma received_k1_progress:
  assumes C: "crypto_sized C" and z: "zeta_wf z"
    and r: "received_k1_trans C A s kid n k1 z w = (r, z', w')"
  shows "progress RecvK1 z w z' w'" and "\<not> ctx_sessions_borrowed w \<Longrightarrow> r \<noteq> Panic"
proof -
  let ?e = "case z_beta z of S2 \<Rightarrow> True | R1 _ _ _ \<Rightarrow> z_was_bob z | _ \<Rightarrow> False"
  have p: "phase_of (z_beta z) \<in> {PS2, PR1}" "duplex_ready (key_ref z False)" if ?e
    using z that by (auto simp: zeta_wf_def beta_wf_def split: zeta_automata.splits)
  obtain r1 z1 where o1: "open_rekey C ?e kid n k1 z = (r1, z1)" by fastforce
  note op = open_rekey_progress(1) [OF z p(2) o1, where w = w] open_rekey_progress(2-5) [OF z p(2) o1]
  consider (refused) x where "r = Err x" "z' = z1" "w' = w"
    | (ok) y r2 z2 w2 where "r1 = Ok y" "process_k1 C A s y z1 w = (r2, z2, w2)"
        "expire_on_fault (r2, z2, w2) = (r, z', w')"
  proof (cases r1)
    case (Ok y)
    obtain r2 z2 w2 where "process_k1 C A s y z1 w = (r2, z2, w2)" by (metis surj_pair)
    with r o1 Ok show thesis by (intro that(2)) (auto simp: received_k1_trans_def Let_def)
  next
    case (Err x)
    with r o1 show thesis by (intro that(1)) (auto simp: received_k1_trans_def Let_def)
  qed (use op in auto)
  note cases = this
  have ok: "progress RecvK1 z w z' w'" "\<not> ctx_sessions_borrowed w \<Longrightarrow> r \<noteq> Panic"
    if y: "r1 = Ok y" "process_k1 C A s y z1 w = (r2, z2, w2)" "expire_on_fault (r2, z2, w2) = (r, z', w')"
    for y r2 z2 w2
  proof -
    have e: ?e using op(4) y(1) by blast
    note pk = process_k1_progress [OF C op(1) op(5) p(1) [OF e] y(2)]
    have "phase_step RecvK1 (phase_of (z_beta z)) PNull" using p(1) [OF e] by (auto intro: phase_step.intros)
    from expire_on_fault_progress [OF pk(1) this y(3)] pk(2)
    show "progress RecvK1 z w z' w'" "\<not> ctx_sessions_borrowed w \<Longrightarrow> r \<noteq> Panic" by auto
  qed
  from cases show "progress RecvK1 z w z' w'" using op(1) ok(1) by cases auto
  from cases show "r \<noteq> Panic" if "\<not> ctx_sessions_borrowed w" using ok(2) that by cases auto
qed

lemma process_k2_progress:
  assumes C: "crypto_sized C" and z1: "progress RecvK2 z w z1 w1" "z_beta z1 = z_beta z"
    and b: "z_beta z = R1 noise e k1"
    and r: "process_k2 C A x z1 w1 = (r, z', w')"
  shows "progress RecvK2 z w z' w'" and "r \<noteq> Panic"
proof -
  have k: "recv_kid z1 True \<noteq> None" "z_ratchet_state2 z1 = None"
    using z1 b by (auto simp: progress_def zeta_wf_def beta_wf_def)
  show "r \<noteq> Panic"
    using r b z1(2) by (auto simp: process_k2_def Let_def split: sum.splits bool.splits prod.splits)
  consider (fail) "z' = z1" "w_sent w' = w_sent w1" "ctx_frame w1 w'"
    | (ok) z2 w2 c where "progress RecvK2 z w z2 w2"
        "send_control C z2 PACKET_TYPE_KEY_CONFIRM [] w2 = (c, z', w')"
  proof (cases "read_k2 C e (z_s_remote z1) noise x")
    case (Inl y)
    then show thesis using r b z1(2) by (intro that(1)) (auto simp: process_k2_def)
  next
    case (Inr y)
    obtain kid n3 where y: "y = (kid, n3)" by (cases y) auto
    obtain rk rf where rk: "get_ask C n3 LABEL_RATCHET_STATE = (rk, rf)" by fastforce
    let ?rs = "ratchet_new rk rf (rs_chain_len (z_ratchet_state1 z1) + 1)"
    have rwf: "ratchet_wf ?rs" using C rk by (rule get_ask_ratchet_wf)
    obtain sv w3 where sv: "save_ratchet A (z_s_remote z1) (z_session_data z1)
        (cas_new ?rs None True (z_ratchet_state1 z1) (z_ratchet_state2 z1) True True) w1 = (sv, w3)" by fastforce
    note e = save_ratchet_effect [OF sv]
    show thesis
    proof (cases "sv = Inr True")
      case False
      with r b z1(2) Inr y rk sv have "z' = z1" "w' = w3"
        by (auto simp: process_k2_def Let_def split: sum.splits bool.splits)
      with e show thesis by (intro that(1)) auto
    next
      case True
      obtain ks kr where kk: "get_ask C n3 LABEL_KEX_KEY = (kr, ks)" by fastforce
      obtain ns nr where nn: "split_keys C n3 = (nr, ns)" by fastforce
      obtain t4 w4 where t4: "time_now A w3 = (t4, w4)" by fastforce
      note e4 = time_now_effect [OF t4]
      define z2 where "z2 = (key_mut z1 True (store_keys kid ks ns kr nr))
        \<lparr>z_ratchet_state1 := ?rs, z_key_index := \<not> z_key_index z1,
         z_key_creation_counter := z_send_counter z1,
         z_timeout_timer := after t4 (rekey_timeout (SETTINGS C)),
         z_resend_timer := after t4 (resend_time (SETTINGS C)), z_beta := S1\<rparr>"
      obtain c z3 w5 where c: "send_control C z2 PACKET_TYPE_KEY_CONFIRM [] w4 = (c, z3, w5)"
        by (metis surj_pair)
      have "z' = z3" "w' = w5"
        using r b z1(2) Inr y rk sv True kk nn t4 c by (auto simp: process_k2_def Let_def z2_def)
      moreover have "progress RecvK2 z w z2 w4"
        using z1(1) b k rwf e e4 ctx_frame_trans [of w w1 w4] ctx_frame_trans [of w1 w3 w4]
        by (auto simp: progress_def z2_def zeta_wf_def beta_wf_def recv_kid_def phase_step.intros)
      ultimately show thesis using c by (intro that(2)) auto
    qed
  qed
  then show "progress RecvK2 z w z' w'"
    using progress_tail [OF z1(1)] progress_control [OF C] by cases blast+
qed

lemma received_k2_progress:
  assumes C: "crypto_sized C" and z: "zeta_wf z"
    and r: "received_k2_trans C A kid n k2 z w = (r, z', w')"
  shows "progress RecvK2 z w z' w'" and "\<not> ctx_sessions_borrowed w \<Longrightarrow> r \<noteq> Panic"
proof -
  have p: "duplex_ready (key_ref z False)" if "is_r1 (z_beta z)"
    using z that by (auto simp: zeta_wf_def beta_wf_def is_r1_def split: zeta_automata.splits)
  obtain r1 z1 where o1: "open_rekey C (is_r1 (z_beta z)) kid n k2 z = (r1, z1)" by fastforce
  note op = open_rekey_progress(1) [OF z p o1, where w = w] open_rekey_progress(2-5) [OF z p o1]
  consider (refused) x where "r = Err x" "z' = z1" "w' = w"
    | (ok) y r2 z2 w2 where "r1 = Ok y" "process_k2 C A y z1 w = (r2, z2, w2)"
        "expire_on_fault (r2, z2, w2) = (r, z', w')"
  proof (cases r1)
    case (Ok y)
    obtain r2 z2 w2 where "process_k2 C A y z1 w = (r2, z2, w2)" by (metis surj_pair)
    with r o1 Ok show thesis by (intro that(2)) (auto simp: received_k2_trans_def Let_def)
  next
    case (Err x)
    with r o1 show thesis by (intro that(1)) (auto simp: received_k2_trans_def Let_def)
  qed (use op in auto)
  note cases = this
  have ok: "progress RecvK2 z w z' w'" "\<not> ctx_sessions_borrowed w \<Longrightarrow> r \<noteq> Panic"
    if y: "r1 = Ok y" "process_k2 C A y z1 w = (r2, z2, w2)" "expire_on_fault (r2, z2, w2) = (r, z', w')"
    for y r2 z2 w2
  proof -
    obtain noise e k1 where b: "z_beta z = R1 noise e k1"
      using op(4) y(1) by (auto simp: is_r1_def split: zeta_automata.splits)
    note pk = process_k2_progress [OF C op(1) op(5) b y(2)]
    have "phase_step RecvK2 (phase_of (z_beta z)) PNull" using b by (auto intro: phase_step.intros)
    from expire_on_fault_progress [OF pk(1) this y(3)] pk(2)
    show "progress RecvK2 z w z' w'" "\<not> ctx_sessions_borrowed w \<Longrightarrow> r \<noteq> Panic" by auto
  qed
  from cases show "progress RecvK2 z w z' w'" using op(1) ok(1) by cases auto
  from cases show "r \<noteq> Panic" if "\<not> ctx_sessions_borrowed w" using ok(2) that by cases auto
qed


section \<open>Data, challenges and fragments\<close>

lemma received_payload_progress:
  assumes z: "zeta_wf z" and r: "received_payload_in_place C kid n x z = (r, z')"
  shows "progress RecvData z w z' w" and "returns r"
proof -
  obtain ok z1 where u: "zeta_update_counter_window z (snd (from_nonce n)) = (ok, z1)" by fastforce
  have "(z' = z \<or> z' = z1) \<and> returns r"
    using r u by (auto simp: received_payload_in_place_def Let_def split: if_splits option.splits prod.splits)
  then show "progress RecvData z w z' w" "returns r"
    using progress_window(1) [OF z u] progress_refl [OF z] by auto
qed

lemma send_payload_exhausted:
  assumes "phase_of (z_beta z) \<in> {PS1, PS2, PR1, PR2}" "HARD_EXPIRATION \<le> z_send_counter z"
  shows "send_payload C send x z w =
    (case expire True z w of (Ok _, z, w) \<Rightarrow> (Err SessionExpired, z, w) | (r, z, w) \<Rightarrow> (r, z, w))"
  using assms by (cases "z_beta z") (simp_all add: send_payload_def get_counter_def)

lemma send_payload_sends:
  assumes "phase_of (z_beta z) \<in> {PS1, PS2, PR1, PR2}" "\<not> HARD_EXPIRATION \<le> z_send_counter z"
    and "key_nk (dk_send (key_ref z False)) = Some nk" "key_kid (dk_send (key_ref z False)) = Some kid"
    and "aead_encrypt_in_place C nk (to_nonce PACKET_TYPE_DATA (z_send_counter z)) None x = (ct, tag)"
  obtains t where "send_payload C send x z w =
    (send (Packet kid (to_nonce PACKET_TYPE_DATA (z_send_counter z)) (ct @ tag)) (Some (z_hk_send z)),
     z\<lparr>z_send_counter := z_send_counter z + 1, z_timeout_timer := t\<rparr>,
     emit (Packet kid (to_nonce PACKET_TYPE_DATA (z_send_counter z)) (ct @ tag)) (Some (z_hk_send z)) w)"
    "t = z_timeout_timer z \<or> z_beta z = S1 \<and> t = I64_MIN"
proof -
  let ?z = "z\<lparr>z_send_counter := z_send_counter z + 1\<rparr>"
  obtain b where g: "get_counter C z = (Some (z_send_counter z, b), ?z)"
    using assms(2) by (auto simp: get_counter_def Let_def)
  define t where "t = (if b \<and> z_beta z = S1 then I64_MIN else z_timeout_timer z)"
  have t: "(if b \<and> z_beta ?z = S1 then ?z\<lparr>z_timeout_timer := I64_MIN\<rparr> else ?z) = ?z\<lparr>z_timeout_timer := t\<rparr>"
    by (auto simp: t_def)
  show thesis
    by (rule that [of t], use assms(1) in \<open>cases "z_beta z"\<close>)
       (simp_all add: send_payload_def g t Let_def assms(3-5) t_def)
qed

lemma send_payload_progress:
  assumes C: "crypto_sized C" and z: "zeta_wf z" and r: "send_payload C send x z w = (r, z', w')"
  shows "progress SendData z w z' w'"
    and "\<not> ctx_sessions_borrowed w \<Longrightarrow> (\<And>p hk. packets_wf [(p, hk)] \<Longrightarrow> send p hk \<noteq> Panic) \<Longrightarrow> r \<noteq> Panic"
proof -
  let ?est = "phase_of (z_beta z) \<in> {PS1, PS2, PR1, PR2}"
  have k: "duplex_ready (key_ref z False)" if ?est
    using z that by (auto simp: zeta_wf_def beta_wf_def split: zeta_automata.splits)
  have lost: "phase_step SendData (phase_of (z_beta z)) PNull" if ?est using that by (auto intro: phase_step.intros)
  obtain r3 z3 w3 where x: "expire True z w = (r3 :: (send_error, unit) outcome, z3, w3)" by (metis surj_pair)
  have emitted: "progress SendData z w (z\<lparr>z_send_counter := z_send_counter z + 1, z_timeout_timer := t\<rparr>)
      (emit (Packet kid (to_nonce PACKET_TYPE_DATA (z_send_counter z)) y) hk w)"
    if "\<not> HARD_EXPIRATION \<le> z_send_counter z" "16 \<le> length y" for t kid y hk
    using z that by (auto simp: progress_def zeta_wf_def beta_wf_def recv_kid_def phase_step.stutter emit_def
        zssp_sizes intro!: exI [of _ "[(Packet kid (to_nonce PACKET_TYPE_DATA (z_send_counter z)) y, hk)]"] counted_one
        split: zeta_automata.splits)
  consider (refused) y where "r = Err y" "z' = z" "w' = w"
    | (expired) ?est "z' = z3" "w' = w3" "r = Panic \<longrightarrow> r3 = Panic"
    | (sent) p hk where "progress SendData z w z' w'" "r = send p hk" "packets_wf [(p, hk)]"
  proof (cases ?est)
    case False
    then have "\<exists>y. r = Err y \<and> z' = z \<and> w' = w"
      using r by (auto simp: send_payload_def phase_of_def split: zeta_automata.splits)
    then show thesis using that(1) by blast
  next
    case est: True
    then obtain nk kid where nk: "key_nk (dk_send (key_ref z False)) = Some nk"
      "key_kid (dk_send (key_ref z False)) = Some kid" using k by (auto simp: duplex_ready_def keys_ready_def)
    show thesis
    proof (cases "HARD_EXPIRATION \<le> z_send_counter z")
      case True
      from r [unfolded send_payload_exhausted [OF est True] x] est show thesis
        by (intro that(2)) (auto split: outcome.splits)
    next
      case False
      obtain ct tag where ct: "aead_encrypt_in_place C nk (to_nonce PACKET_TYPE_DATA (z_send_counter z)) None x = (ct, tag)"
        by fastforce
      have l: "16 \<le> length (ct @ tag)" using aead_encrypt_lengths [OF C ct] by simp
      let ?p = "Packet kid (to_nonce PACKET_TYPE_DATA (z_send_counter z)) (ct @ tag)"
      have "packets_wf [(?p, Some (z_hk_send z))]" using l by (simp add: zssp_sizes)
      with send_payload_sends [OF est False nk ct, of send w] r emitted [OF False l] show thesis
        by (metis Pair_inject that(3))
    qed
  qed
  note cases = this
  from cases show "progress SendData z w z' w'"
    using progress_refl [OF z] progress_expire [OF x progress_refl [OF z] lost] by cases auto
  from cases show "r \<noteq> Panic" if "\<not> ctx_sessions_borrowed w" "\<And>p hk. packets_wf [(p, hk)] \<Longrightarrow> send p hk \<noteq> Panic"
    using expire_effect(4) [OF x] that by cases auto
qed

lemma respond_to_challenge_progress:
  assumes z: "zeta_wf z" and l: "length ch = 32"
    and r: "respond_to_challenge C ch z w = (r, z', w')"
  shows "progress RecvChallenge z w z' w'" and "r \<noteq> Panic"
proof -
  have "progress RecvChallenge z w z' w' \<and> r \<noteq> Panic"
  proof (cases "z_beta z")
    case (A1 a1)
    then obtain c x where x: "a1_packet a1 = Packet 0 (to_nonce PACKET_TYPE_HANDSHAKE_HELLO c) x" "length x = 1717 + 32"
      using z by (auto simp: zeta_wf_def beta_wf_def hello_packet_wf_def zssp_sizes)
    show ?thesis
    proof (cases "respond_to_challenge_in_place C (ctx_rng w) ch (drop 1717 x)")
      case None
      with r A1 x z show ?thesis by (auto simp: respond_to_challenge_def zssp_sizes Let_def intro: progress_refl)
    next
      case (Some q)
      obtain resp rng where q: "q = (resp, rng)" by fastforce
      have "length resp = 32" using respond_to_challenge_length [OF Some [unfolded q] l] x by simp
      with r A1 x z Some q show ?thesis
        by (auto simp: respond_to_challenge_def zssp_sizes Let_def progress_def zeta_wf_def beta_wf_def
            hello_packet_wf_def recv_kid_def phase_step.stutter intro!: exI [of _ "[]"])
    qed
  qed (use r z in \<open>auto simp: respond_to_challenge_def intro: progress_refl\<close>)
  then show "progress RecvChallenge z w z' w'" "r \<noteq> Panic" by simp_all
qed

lemma fragment_progress:
  assumes "crypto_sized C" "zeta_wf z" "received_fragment C (z_defrag z) raw t vrfy = (r, d)"
  shows "progress RecvFragment z w (z\<lparr>z_defrag := d\<rparr>) w" and "returns r"
proof -
  have "defrag_wf d \<and> returns r"
    using received_fragment_wf [OF assms(1) _ assms(3)] assms(2) by (simp add: zeta_wf_def)
  then show "progress RecvFragment z w (z\<lparr>z_defrag := d\<rparr>) w" "returns r"
    using assms(2) by (auto simp: progress_def zeta_wf_def beta_wf_def recv_kid_def phase_step.stutter
        intro!: exI [of _ "[]"] split: zeta_automata.splits)
qed

lemma close_progress:
  assumes "zeta_wf z" "expire u z w = (r, z', w')"
  shows "progress Close z w z' w'"
  by (rule progress_expire [OF assms(2) progress_refl [OF assms(1)] phase_step.closed])

end
