(* ===== verification/Zeta_Machine.thy ===== *)
theory Zeta_Machine
  imports Zeta_Steps
begin

text \<open>
  The life of one session as a labelled step relation: every operation of
  \<open>reference/src/zeta.rs\<close> on it, in any context, in any order, with whatever bytes the
  network delivers. The label is the event and the packets that the operation emitted.

  The locale \<open>session_contract\<close> is the interface between the operations and claims about
  whole runs: a relation that every operation keeps and that composes holds over every run.
  It is interpreted for the send counters, for the automaton and for the anti-replay
  window.
\<close>

section \<open>Steps and runs\<close>

definition sent_since ::
  "('pk, 'kp, 'r, 'kem, 'd, 'a) world \<Rightarrow> ('pk, 'kp, 'r, 'kem, 'd, 'a) world \<Rightarrow> (packet \<times> bytes option) list" where
  "sent_since w w' = drop (length (w_sent w)) (w_sent w')"

text \<open>A response packet reaches \<open>received_x2_trans\<close> in state A1 only: the fragmentation layer's
  check refuses it in every other state.\<close>

inductive session_step ::
  "('pk, 'kp, 'r, 'kem) crypto_layer \<Rightarrow> ('pk, 'd, 'a) application_layer \<Rightarrow> session_id
     \<Rightarrow> ('pk, 'kp, 'kem, 'd) zeta \<Rightarrow> event \<Rightarrow> (packet \<times> bytes option) list \<Rightarrow> ('pk, 'kp, 'kem, 'd) zeta \<Rightarrow> bool"
  for C :: "('pk, 'kp, 'r, 'kem) crypto_layer" and A :: "('pk, 'd, 'a) application_layer" and s :: session_id
where
  x2: "phase_of (z_beta z) = PA1 \<Longrightarrow> received_x2_trans C A s kid n x z w = (r, z', w') \<Longrightarrow>
    session_step C A s z RecvX2 (sent_since w w') z'"
| c1: "received_c1_trans C A kid n x z w = (r, z', w') \<Longrightarrow> session_step C A s z RecvC1 (sent_since w w') z'"
| c2: "received_c2_trans C A kid n x z w = (r, z', w') \<Longrightarrow> session_step C A s z RecvC2 (sent_since w w') z'"
| d: "received_d_trans C kid n x z (w :: ('pk, 'kp, 'r, 'kem, 'd, 'a) world) = (r, z', w') \<Longrightarrow>
    session_step C A s z RecvD (sent_since w w') z'"
| k1: "received_k1_trans C A s kid n x z w = (r, z', w') \<Longrightarrow> session_step C A s z RecvK1 (sent_since w w') z'"
| k2: "received_k2_trans C A kid n x z w = (r, z', w') \<Longrightarrow> session_step C A s z RecvK2 (sent_since w w') z'"
| data: "received_payload_in_place C kid n x z = (r', z') \<Longrightarrow> session_step C A s z RecvData [] z'"
| challenge: "length x = CHALLENGE_SIZE \<Longrightarrow>
    respond_to_challenge C x z (w :: ('pk, 'kp, 'r, 'kem, 'd, 'a) world) = (re :: (receive_error, unit) outcome, z', w') \<Longrightarrow>
    session_step C A s z RecvChallenge (sent_since w w') z'"
| fragment: "received_fragment C (z_defrag z) x now vrfy = (q, f) \<Longrightarrow>
    session_step C A s z RecvFragment [] (z\<lparr>z_defrag := f\<rparr>)"
| timer: "zeta_service C s now z (w :: ('pk, 'kp, 'r, 'kem, 'd, 'a) world) = (ru :: (unit, unit) outcome, z', w') \<Longrightarrow>
    session_step C A s z Timer (sent_since w w') z'"
| send: "send_payload C snd_fn x z (w :: ('pk, 'kp, 'r, 'kem, 'd, 'a) world) = (r, z', w') \<Longrightarrow>
    session_step C A s z SendData (sent_since w w') z'"
| close: "expire up z (w :: ('pk, 'kp, 'r, 'kem, 'd, 'a) world) = (ru :: (unit, unit) outcome, z', w') \<Longrightarrow>
    session_step C A s z Close (sent_since w w') z'"

inductive session_run ::
  "('pk, 'kp, 'r, 'kem) crypto_layer \<Rightarrow> ('pk, 'd, 'a) application_layer \<Rightarrow> session_id
     \<Rightarrow> ('pk, 'kp, 'kem, 'd) zeta \<Rightarrow> (packet \<times> bytes option) list \<Rightarrow> ('pk, 'kp, 'kem, 'd) zeta \<Rightarrow> bool"
  for C :: "('pk, 'kp, 'r, 'kem) crypto_layer" and A :: "('pk, 'd, 'a) application_layer" and s :: session_id
where
  run_nil: "session_run C A s z [] z"
| run_step: "session_step C A s z ev out z1 \<Longrightarrow> session_run C A s z1 outs z2 \<Longrightarrow>
    session_run C A s z (out @ outs) z2"

text \<open>What the claims need of the crypto layer: array sizes, and a jitter that can be divided by.\<close>

definition layer_ok :: "('pk, 'kp, 'r, 'kem) crypto_layer \<Rightarrow> bool" where
  "layer_ok C \<longleftrightarrow> crypto_sized C \<and> rekey_time_max_jitter (SETTINGS C) \<noteq> 0"

text \<open>\<open>progress\<close> without the world.\<close>

definition step_effect ::
  "event \<Rightarrow> ('pk, 'kp, 'kem, 'd) zeta \<Rightarrow> (packet \<times> bytes option) list \<Rightarrow> ('pk, 'kp, 'kem, 'd) zeta \<Rightarrow> bool" where
  "step_effect ev z out z' \<longleftrightarrow>
     zeta_wf z' \<and> phase_step ev (phase_of (z_beta z)) (phase_of (z_beta z')) \<and>
     z_s_remote z' = z_s_remote z \<and> z_session_data z' = z_session_data z \<and> z_was_bob z' = z_was_bob z \<and>
     window_grows (z_counter_antireplay_window z) (z_counter_antireplay_window z') \<and>
     counted (z_send_counter z) out (z_send_counter z')"

definition session_good :: "('pk, 'kp, 'r, 'kem) crypto_layer \<Rightarrow> ('pk, 'kp, 'kem, 'd) zeta \<Rightarrow> bool" where
  "session_good C z \<longleftrightarrow> layer_ok C \<and> zeta_wf z"

definition phase_reaches :: "phase \<Rightarrow> phase \<Rightarrow> bool" where
  "phase_reaches = rtranclp (\<lambda>p q. \<exists>ev. phase_step ev p q)"

section \<open>Every step makes progress\<close>

lemma progress_effect:
  "progress ev z w z' w' \<Longrightarrow> step_effect ev z (sent_since w w') z'"
  by (auto simp: progress_def sent_since_def step_effect_def)

lemma progress_quiet: "progress ev z w z' w \<Longrightarrow> step_effect ev z [] z'"
  using progress_effect by (fastforce simp: sent_since_def)

lemma session_step_effect:
  assumes C: "layer_ok C" and z: "zeta_wf z" and st: "session_step C A s z ev out z'"
  shows "step_effect ev z out z'"
  using st
proof cases
  case x2
  then show ?thesis using received_x2_progress(1) C z by (auto simp: layer_ok_def intro!: progress_effect)
next
  case c1
  then show ?thesis using received_c1_progress(1) C z by (auto simp: layer_ok_def intro!: progress_effect)
next
  case c2
  then show ?thesis using received_c2_progress(1) C z by (auto simp: layer_ok_def intro!: progress_effect)
next
  case d
  then show ?thesis using received_d_progress(1) C z by (auto simp: layer_ok_def intro!: progress_effect)
next
  case k1
  then show ?thesis using received_k1_progress(1) C z by (auto simp: layer_ok_def intro!: progress_effect)
next
  case k2
  then show ?thesis using received_k2_progress(1) C z by (auto simp: layer_ok_def intro!: progress_effect)
next
  case data
  show ?thesis unfolding data(1,2) by (rule progress_quiet [OF received_payload_progress(1) [OF z data(3)]])
next
  case challenge
  then show ?thesis using respond_to_challenge_progress(1) [OF z]
    by (auto simp: zssp_sizes intro!: progress_effect)
next
  case fragment
  have "crypto_sized C" using C by (simp add: layer_ok_def)
  from progress_quiet [OF fragment_progress(1) [OF this z fragment(4)]] show ?thesis unfolding fragment(1-3) .
next
  case timer
  then show ?thesis using zeta_service_progress(1) C z by (auto simp: layer_ok_def intro!: progress_effect)
next
  case send
  then show ?thesis using send_payload_progress(1) C z by (auto simp: layer_ok_def intro!: progress_effect)
next
  case close
  then show ?thesis using close_progress [OF z] by (auto intro!: progress_effect)
qed

section \<open>Claims about runs\<close>

locale session_contract =
  fixes C :: "('pk, 'kp, 'r, 'kem) crypto_layer" and A :: "('pk, 'd, 'a) application_layer" and s :: session_id
    and good :: "('pk, 'kp, 'kem, 'd) zeta \<Rightarrow> bool"
    and rel :: "('pk, 'kp, 'kem, 'd) zeta \<Rightarrow> (packet \<times> bytes option) list \<Rightarrow> ('pk, 'kp, 'kem, 'd) zeta \<Rightarrow> bool"
  assumes step_good: "good z \<Longrightarrow> session_step C A s z ev out z' \<Longrightarrow> good z'"
    and step_rel: "good z \<Longrightarrow> session_step C A s z ev out z' \<Longrightarrow> rel z out z'"
    and rel_refl: "rel z [] z"
    and rel_trans: "rel z o1 z1 \<Longrightarrow> rel z1 o2 z2 \<Longrightarrow> rel z (o1 @ o2) z2"
begin

lemma run_rel: "session_run C A s z outs z' \<Longrightarrow> good z \<Longrightarrow> rel z outs z' \<and> good z'"
proof (induction rule: session_run.induct)
  case (run_nil z)
  then show ?case using rel_refl by simp
next
  case (run_step z ev out z1 outs z2)
  have "good z1" "rel z out z1"
    using step_good [OF run_step.prems run_step.hyps(1)] step_rel [OF run_step.prems run_step.hyps(1)] by simp_all
  with run_step.IH rel_trans show ?case by blast
qed

end

lemma session_good_step:
  assumes "session_good C z" "session_step C A s z ev out z'"
  shows "session_good C z'" and "counted (z_send_counter z) out (z_send_counter z')"
    and "phase_step ev (phase_of (z_beta z)) (phase_of (z_beta z'))"
    and "window_grows (z_counter_antireplay_window z) (z_counter_antireplay_window z')"
  using session_step_effect [of C z A s ev out z'] assms by (auto simp: session_good_def step_effect_def)

lemma phase_reaches_step: "phase_step ev p q \<Longrightarrow> phase_reaches p q"
  by (auto simp: phase_reaches_def)

lemma phase_reaches_refl: "phase_reaches p p"
  by (simp add: phase_reaches_def)

lemma phase_reaches_trans: "phase_reaches p q \<Longrightarrow> phase_reaches q r \<Longrightarrow> phase_reaches p r"
  by (auto simp: phase_reaches_def)

lemma window_grows_trans: "window_grows u v \<Longrightarrow> window_grows v w \<Longrightarrow> window_grows u w"
  by (auto simp: window_grows_def window_wf_def)

interpretation counter_run: session_contract C A s "session_good C"
  "\<lambda>z out z'. counted (z_send_counter z) out (z_send_counter z')" for C A s
  by unfold_locales (erule (1) session_good_step, erule (1) session_good_step, simp, erule (1) counted_trans)

interpretation phase_run: session_contract C A s "session_good C"
  "\<lambda>z out z'. phase_reaches (phase_of (z_beta z)) (phase_of (z_beta z'))" for C A s
  by unfold_locales (erule (1) session_good_step, rule phase_reaches_step, erule (1) session_good_step,
      rule phase_reaches_refl, erule (1) phase_reaches_trans)

interpretation window_run: session_contract C A s "session_good C"
  "\<lambda>z out z'. window_grows (z_counter_antireplay_window z) (z_counter_antireplay_window z')" for C A s
  by unfold_locales (erule (1) session_good_step, erule (1) session_good_step, rule window_grows_refl,
      erule (1) window_grows_trans)

lemma null_final: "phase_reaches p q \<Longrightarrow> p = PNull \<Longrightarrow> q = PNull"
  unfolding phase_reaches_def
  by (induction rule: rtranclp_induct) (auto elim: phase_step.cases)

lemma established_final:
  "phase_reaches p q \<Longrightarrow> p \<in> {PS1, PS2, PR1, PR2} \<Longrightarrow> q \<in> {PS1, PS2, PR1, PR2, PNull}"
  unfolding phase_reaches_def
  by (induction rule: rtranclp_induct) (auto elim: phase_step.cases)


lemma accepted_payload_taken:
  assumes "received_payload_in_place C kid n x z = (Ok p, z1)" "window_wf (z_counter_antireplay_window z)"
  shows "session_taken (z_counter_antireplay_window z1) (snd (from_nonce n))"
  using assms session_window.upd_taken [OF assms(2), of "snd (from_nonce n)"]
  by (auto simp: received_payload_in_place_def Let_def zeta_update_counter_window_def
      split: if_splits option.splits prod.splits)

lemma taken_payload_refused:
  assumes "session_taken (z_counter_antireplay_window z) (snd (from_nonce n))"
    "window_wf (z_counter_antireplay_window z)"
  shows "\<exists>e. fst (received_payload_in_place C kid n x z) = Err e"
  using session_window.taken_refused [OF assms(2,1)]
  by (auto simp: received_payload_in_place_def Let_def zeta_update_counter_window_def
      split: option.splits prod.splits)

lemma zeta_wf_window_wf: "zeta_wf z \<Longrightarrow> window_wf (z_counter_antireplay_window z)"
  by (auto simp: zeta_wf_def window_wf_def zssp_sizes)

section \<open>A concrete session\<close>

lemma sample_layer_ok: "layer_ok sample_crypto"
  using sample_crypto_sized
  by (simp add: layer_ok_def sample_crypto_def new_ms_def REKEY_AFTER_TIME_MAX_JITTER_MS_def)

lemma sample_duplex_ready [simp]: "duplex_ready (sample_duplex kid)"
  by (simp add: duplex_ready_def keys_ready_def sample_duplex_def sample_keys_def)

lemma sample_zeta_wf: "b \<in> {S1, S2, R2 k, R1 n e k, Null} \<Longrightarrow> zeta_wf (sample_zeta b)"
  by (auto simp: zeta_wf_def beta_wf_def recv_kid_def sample_zeta_def ratchet_wf_def ratchet_empty_def
      window_new_def defrag_wf_def DefragBuffer_new_def key_ref_def zssp_sizes
      duplex_ready_def keys_ready_def sample_duplex_def sample_keys_def)

text \<open>Sending once.\<close>

lemma sample_send:
  "\<exists>out z'. session_step sample_crypto sample_app 0 (sample_zeta S2) SendData out z' \<and> counters out = [3]"
proof -
  let ?z = "sample_zeta S2"
  have est: "phase_of (z_beta ?z) \<in> {PS1, PS2, PR1, PR2}" by simp
  have k: "key_nk (dk_send (key_ref ?z False)) = Some (replicate 32 2)"
    "key_kid (dk_send (key_ref ?z False)) = Some 11"
    by (simp_all add: sample_duplex_def sample_keys_def)
  have c: "\<not> HARD_EXPIRATION \<le> z_send_counter ?z"
    by (simp add: sample_zeta_def zssp_sizes word_le_nat_alt unsigned_minus_1_eq_mask mask_eq_exp_minus_1)
  obtain ct tag where e: "aead_encrypt_in_place sample_crypto (replicate 32 2)
    (to_nonce PACKET_TYPE_DATA (z_send_counter ?z)) None [1, 2] = (ct, tag)" by fastforce
  obtain t where s: "send_payload sample_crypto (\<lambda>_ _. Ok ()) [1, 2] ?z sample_world =
    (Ok (), ?z\<lparr>z_send_counter := z_send_counter ?z + 1, z_timeout_timer := t\<rparr>,
     emit (Packet 11 (to_nonce PACKET_TYPE_DATA (z_send_counter ?z)) (ct @ tag)) (Some (z_hk_send ?z)) sample_world)"
    "t = z_timeout_timer ?z \<or> z_beta ?z = S1 \<and> t = I64_MIN"
    by (rule send_payload_sends [OF est c k e, where send = "\<lambda>_ _. Ok ()" and w = sample_world])
  from session_step.send [OF s(1), of sample_app 0] show ?thesis
    by (intro exI conjI) (assumption, simp add: sent_since_def emit_def zssp_sizes sample_zeta_def)
qed

section \<open>Properties\<close>



text \<open>C5: A session never uses a counter twice. Over any run, the data and control packets it emits
  carry strictly ascending counters that start at the session's send counter, so no nonce
  occurs twice under any of its keys.\<close>

theorem session_nonces_ascend:
  assumes "layer_ok C" "zeta_wf z" "session_run C A s z outs z'"
  shows "sorted_wrt (<) (counters outs) \<and>
    (\<forall>c \<in> set (counters outs). unat (z_send_counter z) \<le> c \<and> c < unat (z_send_counter z'))"
  using counter_run.run_rel [OF assms(3)] assms(1,2) by (simp add: session_good_def counted_def)

theorem session_nonces_ascend_witness:
  "\<exists>outs z'. session_run sample_crypto sample_app 0 (sample_zeta S2) outs z' \<and> counters outs = [3] \<and>
     sorted_wrt (<) (counters outs) \<and> (\<forall>c \<in> set (counters outs). 3 \<le> c)"
proof -
  obtain out z' where st: "session_step sample_crypto sample_app 0 (sample_zeta S2) SendData out z'"
    and c: "counters out = [3]" using sample_send by blast
  from session_run.run_step [OF st session_run.run_nil]
  have run: "session_run sample_crypto sample_app 0 (sample_zeta S2) out z'" by simp
  from session_nonces_ascend [OF sample_layer_ok sample_zeta_wf run] run c show ?thesis
    by (auto simp: sample_zeta_def)
qed

text \<open>C25: The life of a session only goes forward. An established session is at every later time
  established or expired, never back in the handshake, and an expired session stays expired
  whatever arrives.\<close>

theorem session_lifecycle:
  assumes "layer_ok C" "zeta_wf z" "session_run C A s z outs z'"
  shows "(z_beta z = Null \<longrightarrow> z_beta z' = Null) \<and>
    (phase_of (z_beta z) \<in> {PS1, PS2, PR1, PR2} \<longrightarrow> phase_of (z_beta z') \<in> {PS1, PS2, PR1, PR2, PNull})"
proof -
  have r: "phase_reaches (phase_of (z_beta z)) (phase_of (z_beta z'))"
    using phase_run.run_rel [OF assms(3)] assms(1,2) by (simp add: session_good_def)
  have "z_beta z' = Null" if "phase_of (z_beta z') = PNull"
    using that by (cases "z_beta z'") auto
  then show ?thesis using null_final [OF r] established_final [OF r] by auto
qed

theorem session_lifecycle_witness:
  "\<exists>outs z'. session_run sample_crypto sample_app 0 (sample_zeta S2) outs z' \<and>
     phase_of (z_beta z') \<in> {PS1, PS2, PR1, PR2, PNull}"
proof -
  obtain out z' where st: "session_step sample_crypto sample_app 0 (sample_zeta S2) SendData out z'"
    using sample_send by blast
  note run = session_run.run_step [OF st session_run.run_nil]
  from session_lifecycle [OF sample_layer_ok sample_zeta_wf run] run show ?thesis by auto
qed

text \<open>C6: Replay protection of data over a whole session. Once a payload with some counter was
  delivered, no payload with that counter is delivered again, whatever happened to the session
  in between.\<close>

theorem payload_never_replayed:
  assumes "layer_ok C" "zeta_wf z" "received_payload_in_place C kid n x z = (Ok p, z1)"
    and "session_run C A s z1 outs z2" "snd (from_nonce n') = snd (from_nonce n)"
  shows "\<exists>e. fst (received_payload_in_place C kid' n' x' z2) = Err e"
proof -
  have z1: "zeta_wf z1"
    using received_payload_progress(1) [OF assms(2,3)] by (auto simp: progress_def)
  have g: "window_grows (z_counter_antireplay_window z1) (z_counter_antireplay_window z2)" "zeta_wf z2"
    using window_run.run_rel [OF assms(4)] assms(1) z1 by (simp_all add: session_good_def)
  have "session_taken (z_counter_antireplay_window z1) (snd (from_nonce n'))"
    unfolding assms(5) using accepted_payload_taken [OF assms(3) zeta_wf_window_wf [OF assms(2)]] .
  then have "session_taken (z_counter_antireplay_window z2) (snd (from_nonce n'))"
    using g(1) zeta_wf_window_wf [OF z1] by (simp add: window_grows_def)
  then show ?thesis by (rule taken_payload_refused [OF _ zeta_wf_window_wf [OF g(2)]])
qed

theorem payload_never_replayed_witness:
  "let n = to_nonce PACKET_TYPE_DATA 40;
       (r, z1) = received_payload_in_place sample_crypto 10 n ([4, 5] @ replicate 16 7) (sample_zeta S2)
   in r = Ok [1, 2] \<and> (\<exists>e. fst (received_payload_in_place sample_crypto 10 n ([4, 5] @ replicate 16 7) z1) = Err e)"
proof -
  let ?n = "to_nonce PACKET_TYPE_DATA 40" and ?x = "[4, 5] @ replicate 16 7 :: bytes"
  obtain r z1 where r: "received_payload_in_place sample_crypto 10 ?n ?x (sample_zeta S2) = (r, z1)" by fastforce
  have ok: "r = Ok [1, 2]"
    using r by (simp add: received_payload_in_place_def which_key_def recv_kid_def sample_duplex_def sample_keys_def
        zeta_update_counter_window_def update_counter_window_def window_slot_def Let_def sample_crypto_def
        sample_zeta_def key_ref_def zssp_sizes window_new_def saturating_add_def)
  have "\<exists>e. fst (received_payload_in_place sample_crypto 10 ?n ?x z1) = Err e"
    by (rule payload_never_replayed [OF sample_layer_ok sample_zeta_wf r [unfolded ok]
          session_run.run_nil [where A = sample_app and s = 0]]) simp_all
  with r ok show ?thesis by (simp add: Let_def)
qed

end
