(* ===== verification/Noise_Agreement.thy ===== *)
theory Noise_Agreement
  imports Zeta_Machine
begin

text \<open>
  The two Noise patterns of \<open>reference/src/zeta.rs\<close> seen from both ends. For each message a
  lemma says that the reader's part of the code, given the bytes that the writer's part
  produced, accepts them and ends in the writer's noise state; the properties compose them
  into the handshake and the rekeying and show that both ends hold the same keys, mirrored.
\<close>

section \<open>One message at a time\<close>

lemma subslice_parts:
  assumes "length a = la" "length b = lb"
  shows "subslice la (la + lb) (a @ b @ c) = b" "subslice la (la + lb) (a @ b) = b"
  using assms by (simp_all add: subslice_def)

lemma read_x1_follows:
  assumes C: "crypto_correct C pub_of" "crypto_sized C"
    and kid: "kid \<noteq> 0" and rs: "ratchet_wf rs1" "pred_option ratchet_wf rs2"
    and a1: "create_a1_state C rng (pub_of sB) kid rs1 rs2 ident = (a1, rng')"
  obtains n x1 response e1 r1 r2 where
    "a1_packet a1 = Packet 0 n (x1 @ response)" "length response = CHALLENGE_SIZE"
    "kem_generate C r1 = ((a1_e1_secret a1, e1), r2)" "a1_identity a1 = ident"
    "read_x1 C sB n x1 = Inr (kid, pub_of (a1_e_secret a1), e1, rs_fingerprint rs1,
       case rs2 of None \<Rightarrow> replicate RATCHET_SIZE 0 | Some rs \<Rightarrow> rs_fingerprint rs, a1_noise a1)"
proof -
  let ?fp2 = "case rs2 of None \<Rightarrow> replicate RATCHET_SIZE 0 | Some rs \<Rightarrow> rs_fingerprint rs"
  let ?k = "u32_to_be_bytes kid"
  let ?N = "mix_hash C (mix_hash C (initialize PROTOCOL_NAME_NOISE_XK) ?k) (pk_to_bytes C (pub_of sB))"
  from a1 obtain e n1 r1 p1 d e1 r2 n2 p2 n3 p3 response where
    h1: "write_e C ?N rng ?k = (e, n1, r1, p1)" and h2: "kem_generate C r1 = ((d, e1), r2)"
    and h3: "encrypt_and_hash_in_place C (mix_dh C n1 e (pub_of sB)) (to_nonce PACKET_TYPE_HANDSHAKE_HELLO 0)
       (length p1) (p1 @ e1) = (n2, p2)"
    and h4: "encrypt_and_hash_in_place C n2 (to_nonce PACKET_TYPE_HANDSHAKE_HELLO 1) (length p2)
       (p2 @ rs_fingerprint rs1 @ ?fp2) = (n3, p3)"
    and h5: "gen_null_response C r2 = (response, rng')"
    and h6: "a1 = \<lparr>a1_noise = n3, a1_e_secret = e, a1_e1_secret = d, a1_identity = ident,
       a1_packet = Packet 0 (to_nonce PACKET_TYPE_HANDSHAKE_HELLO (u64_from_be_bytes (drop (length p3 - 8) p3)))
         (p3 @ response)\<rparr>"
    by (rule create_a1_stateE)
  have re: "p1 = ?k @ pk_to_bytes C (pub_of e)"
    "\<And>rest. read_e C ?N (length ?k) (p1 @ rest) = (Some (pub_of e), n1, length ?k + 49)"
    using read_e_follows_write_e [OF C h1] by auto
  obtain c1 t1 where d1: "p2 = p1 @ c1 @ t1" "length c1 = length e1" "length t1 = 16"
    "decrypt_and_hash_in_place C (mix_dh C n1 e (pub_of sB)) (to_nonce PACKET_TYPE_HANDSHAKE_HELLO 0) c1 t1 = (True, n2, e1)"
    by (rule decrypt_follows_encrypt [OF C(1) h3 C(2)])
  obtain c2 t2 where d2: "p3 = p2 @ c2 @ t2" "length c2 = length (rs_fingerprint rs1 @ ?fp2)" "length t2 = 16"
    "decrypt_and_hash_in_place C n2 (to_nonce PACKET_TYPE_HANDSHAKE_HELLO 1) c2 t2 = (True, n3, rs_fingerprint rs1 @ ?fp2)"
    by (rule decrypt_follows_encrypt [OF C(1) h4 C(2)])
  have lens: "length (pk_to_bytes C (pub_of e)) = 49" "length e1 = 1568" "length (rs_fingerprint rs1) = 32" "length ?fp2 = 32"
    "length response = 32"
    using crypto_sizedD(8) [OF C(2)] crypto_sizedD(10) [OF C(2), of r1] h2 rs length_gen_null_response [OF h5]
    by (auto simp: ratchet_wf_def zssp_sizes split: option.splits)
  have p1: "length p1 = 53" "length p2 = 1637" "length p3 = 1717" and kb: "subslice 0 4 p3 = ?k"
    using re(1) d1 d2 lens by (simp_all add: subslice_def)
  have s: "subslice 53 1621 p3 = c1" "subslice 1621 1637 p3 = t1" "subslice 1637 1701 p3 = c2" "subslice 1701 1717 p3 = t2"
    using p1 d1(1-3) d2(1-3) lens by (simp_all add: subslice_def)
  have "read_e C ?N 4 p3 = (Some (pub_of e), n1, 53)"
    using re(2) [of "c1 @ t1 @ c2 @ t2"] d1(1) d2(1) by simp
  then have "read_x1 C sB (to_nonce PACKET_TYPE_HANDSHAKE_HELLO (u64_from_be_bytes (drop (length p3 - 8) p3))) p3 =
      Inr (kid, pub_of e, e1, rs_fingerprint rs1, ?fp2, n3)"
    using p1 kb s d1(4) d2(4) kid lens mix_dh_commute [OF C(1), of n1 sB e] crypto_correctD(3) [OF C(1)]
    by (simp add: read_x1_def Let_def zssp_sizes drop_to_nonce NonZeroU32_new_def)
  with that h2 h6 lens show thesis by (simp add: zssp_sizes)
qed

lemma read_x2_follows:
  assumes C: "crypto_correct C pub_of" "crypto_sized C"
    and kem: "kem_generate C r1 = ((a1_e1_secret a1, e1), r2)"
    and w1: "write_x2_tokens C (pub_of (a1_e_secret a1)) e1 key (a1_noise a1) rng = (Inr (e, n2, x2), rng')"
    and w2: "write_x2_payload C n2 x2 kid = (n3, x2', c)" and kid: "kid \<noteq> 0"
  shows "\<exists>noise. read_x2_tokens C a1 x2' = Inr (pub_of e, 1633, noise) \<and>
       test_ratchet_key C noise (subslice 1633 1637 x2') (subslice 1637 1653 x2') key = Some (kid, n3)"
    and "length x2' = HANDSHAKE_RESPONSE_SIZE" and "c < COUNTER_WINDOW_MAX_SKIP_AHEAD"
    and "drop 9 (to_nonce t c) = drop (length x2' - 3) x2'"
proof -
  obtain n1 rng1 p1 where h1: "write_e C (a1_noise a1) rng [] = (e, n1, rng1, p1)"
    using w1 by (auto simp: write_x2_tokens_def Let_def split: prod.splits option.splits)
  obtain ct ks rng2 where h2: "kem_encapsulate C rng1 e1 = (Some (ct, ks), rng2)"
    and h2': "kem_decapsulate C (a1_e1_secret a1) ct = Some ks"
    using crypto_correctD(6) [OF C(1) kem] by blast
  let ?m = "mix_dh C n1 e (pub_of (a1_e_secret a1))"
  obtain m2 where h3: "encrypt_and_hash_in_place C ?m (to_nonce PACKET_TYPE_HANDSHAKE_RESPONSE 0) (length p1) (p1 @ ct) = (m2, x2)"
    and n2: "n2 = mix_key_and_hash C (mix_key C m2 ks) key"
    using w1 h1 h2 by (auto simp: write_x2_tokens_def Let_def split: prod.splits)
  have h4: "encrypt_and_hash_in_place C n2 (to_nonce PACKET_TYPE_HANDSHAKE_RESPONSE 0) (length x2)
      (x2 @ u32_to_be_bytes kid) = (n3, x2')" and c: "c = u64_from_be_bytes (write_at 5 (drop (length x2' - 3) x2') (replicate 8 0))"
    using w2 by (auto simp: write_x2_payload_def Let_def split: prod.splits)
  have re: "p1 = pk_to_bytes C (pub_of e)" "\<And>rest. read_e C (a1_noise a1) 0 (p1 @ rest) = (Some (pub_of e), n1, 49)"
    using read_e_follows_write_e [OF C h1] by auto
  obtain c1 t1 where d1: "x2 = p1 @ c1 @ t1" "length c1 = length ct" "length t1 = 16"
    "decrypt_and_hash_in_place C ?m (to_nonce PACKET_TYPE_HANDSHAKE_RESPONSE 0) c1 t1 = (True, m2, ct)"
    by (rule decrypt_follows_encrypt [OF C(1) h3 C(2)])
  obtain c2 t2 where d2: "x2' = x2 @ c2 @ t2" "length c2 = length (u32_to_be_bytes kid)" "length t2 = 16"
    "decrypt_and_hash_in_place C n2 (to_nonce PACKET_TYPE_HANDSHAKE_RESPONSE 0) c2 t2 = (True, n3, u32_to_be_bytes kid)"
    by (rule decrypt_follows_encrypt [OF C(1) h4 C(2)])
  have lens: "length p1 = 49" "length ct = 1568" "length x2 = 1633"
    using crypto_sizedD(8) [OF C(2)] crypto_sizedD(11) [OF C(2) h2] re(1) d1 by simp_all
  have s: "subslice 49 1617 x2' = c1" "subslice 1617 1633 x2' = t1" "subslice 1633 1637 x2' = c2" "subslice 1637 1653 x2' = t2"
    using lens d1(1-3) d2(1-3) by (simp_all add: subslice_def)
  have len: "length x2' = 1653" using lens d2(1-3) by simp
  then show "length x2' = HANDSHAKE_RESPONSE_SIZE" by (simp add: zssp_sizes)
  show "c < COUNTER_WINDOW_MAX_SKIP_AHEAD" "drop 9 (to_nonce t c) = drop (length x2' - 3) x2'"
    unfolding c by (rule counter_of_three, simp add: len)+
  have "read_e C (a1_noise a1) 0 x2' = (Some (pub_of e), n1, 49)"
    using re(2) [of "c1 @ t1 @ c2 @ t2"] d1(1) d2(1) by simp
  then have "read_x2_tokens C a1 x2' = Inr (pub_of e, 1633, mix_key C m2 ks)"
    using s d1(4) h2' mix_dh_commute [OF C(1), of n1 "a1_e_secret a1" e]
    by (simp add: read_x2_tokens_def Let_def zssp_sizes)
  moreover have "test_ratchet_key C (mix_key C m2 ks) (subslice 1633 1637 x2') (subslice 1637 1653 x2') key = Some (kid, n3)"
    using s d2(4) n2 kid by (simp add: test_ratchet_key_def Let_def NonZeroU32_new_def)
  ultimately show "\<exists>noise. read_x2_tokens C a1 x2' = Inr (pub_of e, 1633, noise) \<and>
       test_ratchet_key C noise (subslice 1633 1637 x2') (subslice 1637 1653 x2') key = Some (kid, n3)" by blast
qed

lemma read_x3_follows:
  assumes C: "crypto_correct C pub_of" "crypto_sized C"
    and w3: "write_x3 C sA (pub_of (b2_e_secret b2)) ident (b2_noise b2) = (n', x3)"
    and ident: "length ident \<le> IDENTITY_MAX_SIZE"
  shows "read_x3 C b2 (b2_kid_recv b2) x3 = Inr (pub_of sA, ident, n')"
proof -
  let ?e = "pub_of (b2_e_secret b2)"
  obtain n1 p1 where h1: "encrypt_and_hash_in_place C (b2_noise b2) (to_nonce PACKET_TYPE_HANDSHAKE_COMPLETION 1)
      (length ([] :: bytes)) ([] @ kp_public_key_bytes C sA) = (n1, p1)"
    and h2: "encrypt_and_hash_in_place C (mix_dh C n1 sA ?e) (to_nonce PACKET_TYPE_HANDSHAKE_COMPLETION 0)
      (length p1) (p1 @ ident) = (n', x3)"
    using w3 by (auto simp: write_x3_def Let_def split: prod.splits)
  obtain c1 t1 where d1: "p1 = [] @ c1 @ t1" "length c1 = length (kp_public_key_bytes C sA)" "length t1 = 16"
    "decrypt_and_hash_in_place C (b2_noise b2) (to_nonce PACKET_TYPE_HANDSHAKE_COMPLETION 1) c1 t1
       = (True, n1, kp_public_key_bytes C sA)"
    by (rule decrypt_follows_encrypt [OF C(1) h1 C(2)])
  obtain c2 t2 where d2: "x3 = p1 @ c2 @ t2" "length c2 = length ident" "length t2 = 16"
    "decrypt_and_hash_in_place C (mix_dh C n1 sA ?e) (to_nonce PACKET_TYPE_HANDSHAKE_COMPLETION 0) c2 t2
       = (True, n', ident)"
    by (rule decrypt_follows_encrypt [OF C(1) h2 C(2)])
  have lens: "length c1 = 49" using crypto_sizedD(9) [OF C(2)] d1(2) by simp
  have len: "length x3 = 81 + length ident" using lens d1(1,3) d2(1-3) by simp
  have s: "subslice 0 49 x3 = c1" "subslice 49 65 x3 = t1" "subslice 65 (length x3 - 16) x3 = c2"
    "subslice (length x3 - 16) (length x3) x3 = t2"
    using lens d1(1,3) d2(1-3) len by (simp_all add: subslice_def)
  show ?thesis
    using s d1(4) d2(4) len ident mix_dh_commute [OF C(1), of n1 "b2_e_secret b2" sA]
      crypto_correctD(3,4) [OF C(1)]
    by (simp add: read_x3_def Let_def zssp_sizes)
qed

lemma read_k1_follows:
  assumes C: "crypto_correct C pub_of" "crypto_sized C" and kid: "kid \<noteq> 0"
    and k1: "create_k1 C sA (pub_of sB) key rng kid = (noise, e, k1, rng')"
  shows "read_k1 C sB (pub_of sA) key k1 = Inr (kid, pub_of e, noise)" and "length k1 = 69"
proof -
  let ?N = "mix_key_and_hash C (mix_hash C (mix_hash C (initialize PROTOCOL_NAME_NOISE_KK)
     (kp_public_key_bytes C sA)) (pk_to_bytes C (pub_of sB))) key"
  obtain n1 p1 where h1: "write_e C ?N rng [] = (e, n1, rng', p1)"
    and h2: "encrypt_and_hash_in_place C (mix_dh C (mix_dh C n1 e (pub_of sB)) sA (pub_of sB))
      (to_nonce PACKET_TYPE_REKEY_INIT 0) (length p1) (p1 @ u32_to_be_bytes kid) = (noise, k1)"
    using k1 by (auto simp: create_k1_def Let_def split: prod.splits)
  have re: "p1 = pk_to_bytes C (pub_of e)" "\<And>rest. read_e C ?N 0 (p1 @ rest) = (Some (pub_of e), n1, 49)"
    using read_e_follows_write_e [OF C h1] by auto
  obtain c1 t1 where d1: "k1 = p1 @ c1 @ t1" "length c1 = length (u32_to_be_bytes kid)" "length t1 = 16"
    "decrypt_and_hash_in_place C (mix_dh C (mix_dh C n1 e (pub_of sB)) sA (pub_of sB))
       (to_nonce PACKET_TYPE_REKEY_INIT 0) c1 t1 = (True, noise, u32_to_be_bytes kid)"
    by (rule decrypt_follows_encrypt [OF C(1) h2 C(2)])
  have p1: "length p1 = 49" using crypto_sizedD(8) [OF C(2)] re(1) by simp
  then show "length k1 = 69" using d1(1-3) by simp
  have s: "subslice 49 53 k1 = c1" "subslice 53 69 k1 = t1"
    using p1 d1(1-3) by (simp_all add: subslice_def)
  show "read_k1 C sB (pub_of sA) key k1 = Inr (kid, pub_of e, noise)"
    using s re(2) [of "c1 @ t1"] d1(1,4) kid mix_dh_commute [OF C(1), of _ sB e]
      mix_dh_commute [OF C(1), of _ sB sA] crypto_correctD(3) [OF C(1)]
    by (simp add: read_k1_def Let_def zssp_sizes NonZeroU32_new_def)
qed

lemma read_k2_follows:
  assumes C: "crypto_correct C pub_of" "crypto_sized C" and kid: "kid \<noteq> 0"
    and k2: "write_k2_tokens C sB (pub_of e) noise rng = (noise2, p, rng')"
      "write_k2_payload C noise2 p kid = (noise3, k2)"
  shows "read_k2 C e (pub_of sB) noise k2 = Inr (kid, noise3)" and "length k2 = 69"
proof -
  obtain eB n1 where h1: "write_e C noise rng [] = (eB, n1, rng', p)"
    and n2: "noise2 = mix_dh C (mix_dh C n1 eB (pub_of e)) sB (pub_of e)"
    using k2(1) by (auto simp: write_k2_tokens_def Let_def split: prod.splits)
  have h2: "encrypt_and_hash_in_place C noise2 (to_nonce PACKET_TYPE_REKEY_COMPLETE 0) (length p)
      (p @ u32_to_be_bytes kid) = (noise3, k2)"
    using k2(2) by (simp add: write_k2_payload_def)
  have re: "p = pk_to_bytes C (pub_of eB)" "\<And>rest. read_e C noise 0 (p @ rest) = (Some (pub_of eB), n1, 49)"
    using read_e_follows_write_e [OF C h1] by auto
  obtain c1 t1 where d1: "k2 = p @ c1 @ t1" "length c1 = length (u32_to_be_bytes kid)" "length t1 = 16"
    "decrypt_and_hash_in_place C noise2 (to_nonce PACKET_TYPE_REKEY_COMPLETE 0) c1 t1 = (True, noise3, u32_to_be_bytes kid)"
    by (rule decrypt_follows_encrypt [OF C(1) h2 C(2)])
  have p: "length p = 49" using crypto_sizedD(8) [OF C(2)] re(1) by simp
  then show "length k2 = 69" using d1(1-3) by simp
  have s: "subslice 49 53 k2 = c1" "subslice 53 69 k2 = t1"
    using p d1(1-3) by (simp_all add: subslice_def)
  show "read_k2 C e (pub_of sB) noise k2 = Inr (kid, noise3)"
    using s re(2) [of "c1 @ t1"] d1(1,4) kid n2 mix_dh_commute [OF C(1), of _ e eB]
      mix_dh_commute [OF C(1), of _ e sB]
    by (simp add: read_k2_def Let_def zssp_sizes NonZeroU32_new_def)
qed

end
