(* ===== verification/Session_Table.thy ===== *)
theory Session_Table
  imports Zeta_Machine
begin

text \<open>
  What an operation on a session does to the tables that find sessions, \<open>session_map\<close> and
  \<open>sessions\<close> of \<open>reference/src/context.rs\<close>. An operation on the session \<open>s\<close> registers new
  key ids for \<open>s\<close> or moves the entry of an old one; it never enters the id zero, never
  names a session that the tables do not know, and never adds to the set of sessions.
\<close>

definition tables_kept ::
  "session_id \<Rightarrow> ('pk, 'kp, 'r, 'kem, 'd, 'a) world \<Rightarrow> ('pk, 'kp, 'r, 'kem, 'd, 'a) world \<Rightarrow> bool" where
  "tables_kept s w w' \<longleftrightarrow>
     (\<forall>kid t. ctx_session_map w' kid = Some t \<longrightarrow>
        ctx_session_map w kid = Some t \<or> kid \<noteq> 0 \<and> (t = s \<or> t \<in> ran (ctx_session_map w))) \<and>
     ctx_sessions w' \<subseteq> ctx_sessions w"

lemma tables_kept_refl [simp]: "tables_kept s w w"
  by (simp add: tables_kept_def)

lemma tables_kept_trans: "tables_kept s w1 w2 \<Longrightarrow> tables_kept s w2 w3 \<Longrightarrow> tables_kept s w1 w3"
proof -
  assume k: "tables_kept s w1 w2" "tables_kept s w2 w3"
  have "ran (ctx_session_map w2) \<subseteq> insert s (ran (ctx_session_map w1))"
    using k(1) unfolding tables_kept_def ran_def by blast
  with k show ?thesis unfolding tables_kept_def by blast
qed

lemma tables_kept_updates [simp]:
  "tables_kept s w (w'\<lparr>w_app := a\<rparr>) = tables_kept s w w'" "tables_kept s w (w'\<lparr>w_sent := o1\<rparr>) = tables_kept s w w'"
  "tables_kept s w (w'\<lparr>ctx_rng := g\<rparr>) = tables_kept s w w'" "tables_kept s w (emit p hk w') = tables_kept s w w'"
  "tables_kept s (w\<lparr>w_app := a\<rparr>) w' = tables_kept s w w'" "tables_kept s (w\<lparr>ctx_rng := g\<rparr>) w' = tables_kept s w w'"
  by (simp_all add: tables_kept_def emit_def)

lemma expire_tables: "expire u z w = (r, z', w') \<Longrightarrow> tables_kept s w w'"
  by (auto simp: expire_def forget_kid_def tables_kept_def Let_def split: if_splits option.splits)

lemma remap_tables:
  assumes "remap C s z w = Some (kid, w')"
  shows "tables_kept s w w'"
proof -
  define m where "m = (case recv_kid z True of
      Some kid \<Rightarrow> (case ctx_session_map w kid of Some s \<Rightarrow> (ctx_session_map w)(kid := None) | None \<Rightarrow> ctx_session_map w)
    | None \<Rightarrow> ctx_session_map w)"
  have "m \<subseteq>\<^sub>m ctx_session_map w" by (auto simp: m_def map_le_def split: option.splits)
  moreover have "\<exists>t g. w' = w\<lparr>ctx_rng := g, ctx_session_map := m(kid \<mapsto> t)\<rparr> \<and> gen_kid C m (ctx_rng w) = Some (kid, g) \<and>
      (t = s \<or> t \<in> ran (ctx_session_map w))"
    using assms by (cases "recv_kid z True"; cases "ctx_session_map w (the (recv_kid z True))")
      (auto simp: remap_def m_def ran_def split: option.splits prod.splits)
  ultimately show ?thesis
    using gen_kid_fresh [of C m "ctx_rng w"] by (auto simp: tables_kept_def map_le_def dom_def split: if_splits)
qed

lemma time_save_tables:
  "time_now A w = (t, w') \<Longrightarrow> tables_kept s w w'" "save_ratchet A pk d u w = (q, w') \<Longrightarrow> tables_kept s w w'"
  by (auto simp: time_now_def save_ratchet_def split: prod.splits)

lemma send_control_tables: "send_control C z p x w = (b, z', w') \<Longrightarrow> tables_kept s w w'"
  by (auto simp: send_control_def Let_def split: option.splits prod.splits)

lemma enter_s2_tables: "enter_s2 C A z w = (r, z', w') \<Longrightarrow> tables_kept s w w'"
  by (auto simp: enter_s2_def Let_def time_now_def split: prod.splits if_splits)

lemma confirm_key_tables: 
  assumes "confirm_key C A z w = (r, z', w')"
  shows "tables_kept s w w'"
proof -
  obtain q w1 where q: "(if z_ratchet_state2 z \<noteq> None
         then save_ratchet A (z_s_remote z) (z_session_data z)
                (cas_new (z_ratchet_state1 z) None False (z_ratchet_state1 z) (z_ratchet_state2 z) False True) w
         else (Inr True, w)) = (q, w1)" by fastforce
  have w1: "tables_kept s w w1" using q by (auto intro: time_save_tables split: if_splits)
  show ?thesis
  proof (rule tables_kept_trans [OF w1])
    show "tables_kept s w1 w'"
      using assms q by (auto simp: confirm_key_def intro: enter_s2_tables expire_tables split: sum.splits bool.splits prod.splits outcome.splits)
  qed
qed

lemma received_c1_tables:
  assumes "received_c1_trans C A kid n x z w = (r, z', w')"
  shows "tables_kept s w w'"
  using assms
  by (auto simp: received_c1_trans_def Let_def split: if_splits option.splits prod.splits outcome.splits
      intro: confirm_key_tables send_control_tables tables_kept_trans [OF confirm_key_tables send_control_tables])

lemma received_c2_tables: "received_c2_trans C A kid n x z w = (r, z', w') \<Longrightarrow> tables_kept s w w'"
  by (auto simp: received_c2_trans_def Let_def split: if_splits option.splits prod.splits intro: enter_s2_tables)

lemma received_d_tables: "received_d_trans C kid n x z w = (r, z', w') \<Longrightarrow> tables_kept s w w'"
  by (auto simp: received_d_trans_def Let_def split: if_splits option.splits prod.splits intro: expire_tables)

lemma timeout_trans_tables: "timeout_trans C s now z w = (r, z', w') \<Longrightarrow> tables_kept s w w'"
  by (auto simp: timeout_trans_def restart_a1_def start_rekey_def Let_def split: zeta_automata.splits option.splits prod.splits
      dest!: expire_tables [where s = s] remap_tables send_control_tables [where s = s] intro: tables_kept_trans)

lemma zeta_service_tables: "zeta_service C s now z w = (r, z', w') \<Longrightarrow> tables_kept s w w'"
  by (auto simp: zeta_service_def Let_def split: zeta_automata.splits prod.splits if_splits
      dest: timeout_trans_tables send_control_tables)

lemma received_x2_tables:
  assumes "received_x2_trans C A s kid n x z w = (r, z', w')"
  shows "tables_kept s w w'"
proof -
  obtain b r2 z2 w2 where p: "process_x2 C A s x z w = (b, r2, z2, w2)" by (metis surj_pair)
  have f: "finish_x2 C A a1 e k ri len noise z v = (q, y, v') \<Longrightarrow> tables_kept s v v'" for a1 e k ri len noise v q y v'
    by (auto simp: finish_x2_def Let_def save_ratchet_def time_now_def split: prod.splits sum.splits bool.splits)
  have "tables_kept s w w2"
    using p f by (fastforce simp: process_x2_def Let_def split: zeta_automata.splits sum.splits prod.splits option.splits)
  then show ?thesis
    using assms p
    by (auto simp: received_x2_trans_def Let_def split: if_splits outcome.splits receive_error.splits prod.splits
        dest!: time_save_tables(1) [where s = s] timeout_trans_tables intro: tables_kept_trans)
qed

lemma expire_on_fault_tables:
  assumes "expire_on_fault res = (r, z', w')" "tables_kept s w (snd (snd res))"
  shows "tables_kept s w w'"
proof -
  obtain q y v where res: "res = (q, y, v)" by (cases res)
  show ?thesis
    using assms unfolding res expire_on_fault_def
    by (auto split: outcome.splits receive_error.splits prod.splits dest!: expire_tables [where s = s] intro: tables_kept_trans)
qed

lemma received_k1_tables:
  assumes "received_k1_trans C A s kid n x z w = (r, z', w')"
  shows "tables_kept s w w'"
proof -
  have "tables_kept s w (snd (snd (process_k1 C A s k1 y w)))" for k1 y
    by (auto simp: process_k1_def Let_def save_ratchet_def time_now_def split: sum.splits prod.splits option.splits bool.splits
        dest!: remap_tables send_control_tables [where s = s] intro: tables_kept_trans)
  with assms show ?thesis
    by (auto simp: received_k1_trans_def Let_def split: prod.splits outcome.splits intro: expire_on_fault_tables)
qed

lemma received_k2_tables:
  assumes "received_k2_trans C A kid n x z w = (r, z', w')"
  shows "tables_kept s w w'"
proof -
  have "tables_kept s w (snd (snd (process_k2 C A k2 y w)))" for k2 y
    by (auto simp: process_k2_def Let_def save_ratchet_def time_now_def split: zeta_automata.splits sum.splits prod.splits bool.splits
        dest!: send_control_tables [where s = s])
  with assms show ?thesis
    by (auto simp: received_k2_trans_def Let_def split: prod.splits outcome.splits intro: expire_on_fault_tables)
qed

lemma respond_to_challenge_tables: "respond_to_challenge C x z w = (r, z', w') \<Longrightarrow> tables_kept s w w'"
  by (auto simp: respond_to_challenge_def Let_def split: zeta_automata.splits packet.splits if_splits option.splits)

lemma send_payload_tables: "send_payload C f x z w = (r, z', w') \<Longrightarrow> tables_kept s w w'"
  by (auto simp: send_payload_def Let_def split: zeta_automata.splits prod.splits option.splits outcome.splits
      intro: expire_tables)

lemma dispatch_tables: "dispatch C A s kid n x z w = (r, z', w') \<Longrightarrow> tables_kept s w w'"
  by (auto simp: dispatch_def Let_def split: prod.splits if_splits
      intro: received_x2_tables received_c1_tables received_c2_tables received_k1_tables received_k2_tables received_d_tables)

end
