(* ===== verification/Context_Safety.thy ===== *)
theory Context_Safety
  imports Session_Table
begin

text \<open>
  The invariant of the whole context (\<open>reference/src/context.rs\<close>): every live session, every
  pending handshake and every defragmentation buffer is well formed, and the tables that find
  sessions by key id name sessions the context has made. Every public operation keeps it, and
  the theory says exactly which inputs can make \<open>receive\<close> and \<open>service\<close> panic.
\<close>

section \<open>The invariant\<close>

definition b2_wf :: "u32 \<Rightarrow> 'kp state_b2 \<Rightarrow> bool" where
  "b2_wf kid b2 \<longleftrightarrow> b2_kid_recv b2 = kid \<and> kid \<noteq> 0 \<and> defrag_wf (b2_defrag b2)"

text \<open>The tables that find sessions: no entry for the id zero, and only sessions the context has made.\<close>

definition tables_wf :: "('pk, 'kp, 'r, 'kem, 'd, 'a) world \<Rightarrow> bool" where
  "tables_wf w \<longleftrightarrow> (\<forall>kid s. ctx_session_map w kid = Some s \<longrightarrow> kid \<noteq> 0 \<and> s < ctx_next_session w) \<and>
     ctx_sessions w \<subseteq> {..<ctx_next_session w}"

definition world_wf :: "('pk, 'kp, 'r, 'kem, 'd, 'a) world \<Rightarrow> bool" where
  "world_wf w \<longleftrightarrow> \<not> ctx_sessions_borrowed w \<and> w_sent w = [] \<and>
     (\<forall>s z. ctx_heap w s = Some z \<longrightarrow> zeta_wf z \<and> s < ctx_next_session w) \<and>
     tables_wf w \<and> (\<forall>kid b2. ctx_b2_map w kid = Some b2 \<longrightarrow> b2_wf kid b2) \<and>
     defrag_wf (ctx_hello_defrag w)"

text \<open>The invariant while packets are waiting to be sent.\<close>

definition world_wf_sending :: "('pk, 'kp, 'r, 'kem, 'd, 'a) world \<Rightarrow> bool" where
  "world_wf_sending w \<longleftrightarrow> packets_wf (w_sent w) \<and> world_wf (w\<lparr>w_sent := []\<rparr>)"

text \<open>A hello packet, complete after this fragment, that is shorter than the challenge it ends with.\<close>

definition short_hello ::
  "('pk, 'kp, 'r, 'kem) crypto_layer \<Rightarrow> ('pk, 'd, 'a) application_layer \<Rightarrow> bytes
     \<Rightarrow> ('pk, 'kp, 'r, 'kem, 'd, 'a) world \<Rightarrow> bool" where
  "short_hello C A raw w \<longleftrightarrow> u32_from_be_bytes (take KID_SIZE raw) = 0 \<and>
     (case time_now A w of (now, w1) \<Rightarrow>
        (case received_fragment C (ctx_hello_defrag w1) raw now hello_vrfy of
           (Ok (Some (n, x)), _) \<Rightarrow>
             fst (from_nonce n) = PACKET_TYPE_HANDSHAKE_HELLO \<and> length x < CHALLENGE_SIZE
         | _ \<Rightarrow> False))"

text \<open>A session whose confirmation or rekeying has timed out: its service expires it.\<close>

definition expiry_due :: "i64 \<Rightarrow> ('pk, 'kp, 'kem, 'd) zeta \<Rightarrow> bool" where
  "expiry_due now z \<longleftrightarrow> phase_of (z_beta z) \<in> {PS1, PR1, PR2} \<and> z_timeout_timer z \<le> now"

text \<open>Everything a program can do with a context, in any order. The hash map's iteration order
  is any order of distinct sessions.\<close>

inductive reachable ::
  "('pk, 'kp, 'r, 'kem) crypto_layer \<Rightarrow> ('pk, 'd, 'a) application_layer
     \<Rightarrow> ('pk, 'kp, 'r, 'kem, 'd, 'a) world \<Rightarrow> bool"
  for C :: "('pk, 'kp, 'r, 'kem) crypto_layer" and A :: "('pk, 'd, 'a) application_layer"
where
  start: "reachable C A (Context_new C secret rng a)"
| toggle: "reachable C A w \<Longrightarrow> reachable C A (enable_challenge b w)"
| opened: "reachable C A w \<Longrightarrow> Context_open C A send mtu pk d ident w = (r, out, w') \<Longrightarrow> reachable C A w'"
| received: "reachable C A w \<Longrightarrow> Context_receive C A reply send_to addr raw w = (rr, out, w') \<Longrightarrow>
    reachable C A w'"
| sent: "reachable C A w \<Longrightarrow> Context_send C s send mtu payload w = (rs, out, w') \<Longrightarrow> reachable C A w'"
| serviced: "reachable C A w \<Longrightarrow> distinct order \<Longrightarrow> Context_service C A send_to order w = (rv, out, w') \<Longrightarrow>
    reachable C A w'"
| expired: "reachable C A w \<Longrightarrow> Session_expire s w = (re :: (unit, unit) outcome, w') \<Longrightarrow> reachable C A w'"
| dropped: "reachable C A w \<Longrightarrow> Session_drop s w = (re :: (unit, unit) outcome, w') \<Longrightarrow> reachable C A w'"
| app_changed: "reachable C A w \<Longrightarrow> reachable C A (w\<lparr>w_app := a\<rparr>)"

section \<open>The tables\<close>

lemma tables_wf_updates [simp]:
  "tables_wf (w\<lparr>w_app := a\<rparr>) = tables_wf w" "tables_wf (w\<lparr>w_sent := o1\<rparr>) = tables_wf w" "tables_wf (w\<lparr>ctx_rng := g\<rparr>) = tables_wf w"
  "tables_wf (w\<lparr>ctx_b2_map := m\<rparr>) = tables_wf w" "tables_wf (w\<lparr>ctx_hello_defrag := d\<rparr>) = tables_wf w"
  "tables_wf (w\<lparr>ctx_challenge := c\<rparr>) = tables_wf w" "tables_wf (w\<lparr>ctx_heap := h\<rparr>) = tables_wf w"
  "tables_wf (w\<lparr>ctx_sessions_borrowed := b\<rparr>) = tables_wf w" "tables_wf (Context_new C secret rng app)"
  by (simp_all add: tables_wf_def Context_new_def split: prod.splits)

lemma register_session_tables:
  "tables_wf w \<Longrightarrow> kid \<noteq> 0 \<Longrightarrow> tables_wf (snd (register_session kid z w))"
  unfolding tables_wf_def by (auto simp: register_session_def Let_def intro: less_SucI split: if_splits)

lemma tables_kept_wf:
  assumes "tables_kept s w w'" "tables_wf w" "s < ctx_next_session w" "ctx_next_session w' = ctx_next_session w"
  shows "tables_wf w'"
  using assms unfolding tables_kept_def tables_wf_def ran_def by (simp only: mem_Collect_eq) blast

section \<open>Sending what was emitted\<close>

lemma world_wf_sendingI: "world_wf w \<Longrightarrow> world_wf_sending w"
  by (simp add: world_wf_sending_def world_wf_def)

lemma transmit_packet_returns:
  assumes "crypto_sized C" "packets_wf [p]"
  shows "fst (transmit_packet C sender p) \<noteq> Panic"
proof -
  obtain kid n x hk where p: "p = (Packet kid n x, hk)" by (metis packet.exhaust surj_pair)
  have "returns (fst (send_with_fragmentation C f (max mtu MIN_TRANSPORT_MTU) kid (to_packet_nonce n) x hk))" for f mtu
    using send_with_fragmentation_limits [OF assms(1) _ _ _ prod.collapse [symmetric],
        of "max mtu MIN_TRANSPORT_MTU" x "to_packet_nonce n" f kid hk] assms(2) p
    by (simp add: to_packet_nonce_def zssp_sizes)
  then have "fst (send_with_fragmentation C f (max mtu MIN_TRANSPORT_MTU) kid (to_packet_nonce n) x hk) \<noteq> Panic" for f mtu
    by (metis returns_simps(3))
  then show ?thesis by (simp add: transmit_packet_def p split: option.splits)
qed

lemma flush_wf:
  assumes "crypto_sized C" "world_wf_sending w" "flush C sender (r, w) = (r', out, w')"
  shows "world_wf w'" and "r' = r"
proof -
  have "fst (transmit_packet C sender p) \<noteq> Panic" if "p \<in> set (w_sent w)" for p
    by (rule transmit_packet_returns [OF assms(1)])
       (use assms(2) that in \<open>auto simp: world_wf_sending_def packets_wf_def\<close>)
  then have "Panic \<notin> fst ` set (map (transmit_packet C sender) (w_sent w))"
    unfolding set_map by (metis (no_types, lifting) imageE)
  then show "world_wf w'" "r' = r" using assms(2,3) by (auto simp: flush_def Let_def world_wf_sending_def)
qed

section \<open>Receiving on a session\<close>

lemma received_fragment_verified:
  assumes "crypto_sized C" "received_fragment C d raw t vrfy = (Ok (Some (n, x)), d')"
  shows "\<exists>k cnt. vrfy n k cnt = None" and "length n = 10"
proof -
  have l: "\<not> length raw < 32" using assms(2) by (auto simp: received_fragment_def zssp_sizes split: if_splits)
  then have len: "length (decrypt_header C (db_hk_recv d) raw) = length raw"
    by (intro length_decrypt_header [OF assms(1)]) simp
  have "(\<exists>k cnt. vrfy n k cnt = None) \<and> n = subslice 6 16 (decrypt_header C (db_hk_recv d) raw)"
    using assms(2)
    by (auto simp: received_fragment_def store_fragment_def Let_def zssp_sizes split: if_splits option.splits)
  with l len show "\<exists>k cnt. vrfy n k cnt = None" "length n = 10" by auto
qed

lemma progress_packets: "progress ev z w z' w' \<Longrightarrow> packets_wf (w_sent w) \<Longrightarrow> packets_wf (w_sent w')"
  by (auto simp: progress_def counted_def)

lemma map_outcome_Panic [simp]: "map_outcome f g r = Panic \<longleftrightarrow> r = Panic"
  by (cases r) auto

lemma dispatch_progress:
  assumes C: "layer_ok C" and z: "zeta_wf z" and v: "session_vrfy z pn k cnt = None"
    and d: "dispatch C A s kid pn x z w = (r, z', w')"
  shows "(\<exists>ev. progress ev z w z' w') \<and> (\<not> ctx_sessions_borrowed w \<longrightarrow> r \<noteq> Panic)"
proof -
  have C': "crypto_sized C" "rekey_time_max_jitter (SETTINGS C) \<noteq> 0" using C by (simp_all add: layer_ok_def)
  let ?p = "fst (from_nonce pn)" and ?n = "to_aes_nonce pn"
  have a1: "phase_of (z_beta z) = PA1" if "?p = PACKET_TYPE_HANDSHAKE_RESPONSE"
    using v that by (auto simp: session_vrfy_def Let_def split: prod.splits if_splits zeta_automata.splits)
  consider (data) r1 where "received_payload_in_place C kid ?n x z = (r1, z')" "w' = w" "r = map_outcome id Data r1"
    | (x2) r1 f where "received_x2_trans C A s kid ?n x z w = (r1, z', w')" "r = map_outcome id f r1"
        "phase_of (z_beta z) = PA1"
    | (c1) r1 f where "received_c1_trans C A kid ?n x z w = (r1, z', w')" "r = map_outcome id f r1"
    | (c2) r1 f where "received_c2_trans C A kid ?n x z w = (r1, z', w')" "r = map_outcome id f r1"
    | (k1) r1 f where "received_k1_trans C A s kid ?n x z w = (r1, z', w')" "r = map_outcome id f r1"
    | (k2) r1 f where "received_k2_trans C A kid ?n x z w = (r1, z', w')" "r = map_outcome id f r1"
    | (rejected) r1 f where "received_d_trans C kid ?n x z w = (r1, z', w')" "r = map_outcome id f r1"
    | (other) y where "r = Err y" "z' = z" "w' = w"
    using d a1 by (auto simp: dispatch_def Let_def split: prod.splits if_splits)
  then show ?thesis
  proof cases
    case data
    then show ?thesis
      using received_payload_progress(1) [OF z data(1), of w] received_payload_progress(2) [OF z data(1)] by auto
  next
    case x2
    then show ?thesis using received_x2_progress [OF C'(1) z x2(3,1)] by auto
  next
    case c1
    then show ?thesis using received_c1_progress [OF C' z c1(1)] by auto
  next
    case c2
    then show ?thesis using received_c2_progress [OF C'(2) z c2(1)] by auto
  next
    case k1
    then show ?thesis using received_k1_progress [OF C'(1) z k1(1)] by auto
  next
    case k2
    then show ?thesis using received_k2_progress [OF C'(1) z k2(1)] by auto
  next
    case rejected
    then show ?thesis using received_d_progress [OF z rejected(1)] by auto
  next
    case other
    then show ?thesis using progress_refl [OF z] by auto
  qed
qed

lemma session_vrfy_defrag: "session_vrfy (z\<lparr>z_defrag := f\<rparr>) = session_vrfy z"
  by (intro ext) (simp add: session_vrfy_def zeta_check_counter_window_def split: prod.splits)

text \<open>Writing a session back.\<close>

lemma put_zeta_wf:
  assumes "world_wf_sending w1" "ctx_frame w1 w" "tables_kept s w1 w" "packets_wf (w_sent w)" "zeta_wf z"
    "s < ctx_next_session w1"
  shows "world_wf_sending (put_zeta s z w)"
  using assms tables_kept_wf [OF assms(3)]
  by (auto simp: world_wf_sending_def world_wf_def put_zeta_def ctx_frame_def)

lemma receive_session_wf:
  assumes C: "layer_ok C" and w: "world_wf w" "ctx_heap w s = Some z"
    and r: "receive_session C A s kid raw z w = (r, w')"
  shows "world_wf_sending w'" and "r \<noteq> Panic"
proof -
  have C': "crypto_sized C" using C by (simp add: layer_ok_def)
  have z: "zeta_wf z" "s < ctx_next_session w" using w by (auto simp: world_wf_def)
  obtain now w1 where t: "time_now A w = (now, w1)" by fastforce
  note e = time_now_effect [OF t]
  obtain q f where f: "received_fragment C (z_defrag z) raw now (session_vrfy z) = (q, f)" by fastforce
  let ?z = "z\<lparr>z_defrag := f\<rparr>"
  have z1: "zeta_wf ?z" "returns q"
    using fragment_progress [OF C' z(1) f] by (auto simp: progress_def)
  have w1: "world_wf_sending w1" using w t by (auto simp: time_now_def world_wf_sending_def world_wf_def split: prod.splits)
  have n: "s < ctx_next_session w1" "\<not> ctx_sessions_borrowed w1" "packets_wf (w_sent w1)"
    using z w e by (simp_all add: ctx_frame_def world_wf_def)
  have "world_wf_sending w' \<and> r \<noteq> Panic"
  proof (cases "\<exists>pn x. q = Ok (Some (pn, x))")
    case True
    then obtain pn x where q: "q = Ok (Some (pn, x))" by blast
    obtain r2 z2 w2 where d: "dispatch C A s kid pn x ?z w1 = (r2, z2, w2)" by (metis surj_pair)
    obtain k cnt where "session_vrfy z pn k cnt = None"
      using received_fragment_verified(1) [OF C' f [unfolded q]] by blast
    then have "session_vrfy ?z pn k cnt = None" by (simp add: session_vrfy_defrag)
    from dispatch_progress [OF C z1(1) this d] n obtain ev where p: "progress ev ?z w1 z2 w2" "r2 \<noteq> Panic" by auto
    have "world_wf_sending (put_zeta s z2 w2)"
      by (rule put_zeta_wf [OF w1 _ dispatch_tables [OF d] progress_packets [OF p(1) n(3)] _ n(1)])
         (use p(1) in \<open>auto simp: progress_def\<close>)
    moreover have "r = map_outcome id (SessionOk s) r2" "w' = put_zeta s z2 w2"
      using r t f q d by (simp_all add: receive_session_def Let_def)
    ultimately show ?thesis using p(2) by simp
  next
    case False
    then have "w' = put_zeta s ?z w1" "r \<noteq> Panic"
      using r t f z1(2) by (auto simp: receive_session_def Let_def split: outcome.splits option.splits)
    moreover have "world_wf_sending (put_zeta s ?z w1)" by (rule put_zeta_wf [OF w1]) (use z1 n in auto)
    ultimately show ?thesis by simp
  qed
  then show "world_wf_sending w'" "r \<noteq> Panic" by simp_all
qed


section \<open>Receiving on a pending handshake\<close>

lemma new_bob_zeta_wf:
  assumes "ratchet_wf rs" "defrag_wf (b2_defrag b2)" "duplex_ready k"
  shows "zeta_wf (new_bob_zeta C b2 d pk k rs t)"
  using assms
  by (simp add: zeta_wf_def beta_wf_def new_bob_zeta_def key_ref_def window_new_def)

lemma register_session_wf:
  assumes "world_wf_sending w" "zeta_wf z" "kid \<noteq> 0" "register_session kid z w = (s, w')"
  shows "world_wf_sending w'" and "w_sent w' = w_sent w"
  using assms register_session_tables [of w kid z]
  by (auto simp: register_session_def Let_def world_wf_sending_def world_wf_def less_Suc_eq split: if_splits)

lemma emit_wf:
  "world_wf_sending w \<Longrightarrow> packets_wf [(p, hk)] \<Longrightarrow> world_wf_sending (emit p hk w)"
  by (auto simp: world_wf_sending_def emit_def world_wf_def)

lemma world_wf_sending_app [simp]: "world_wf_sending (w\<lparr>w_app := a\<rparr>) = world_wf_sending w"
  by (simp add: world_wf_sending_def world_wf_def)

lemma world_wf_sending_rng [simp]: "world_wf_sending (w\<lparr>ctx_rng := g\<rparr>) = world_wf_sending w"
  by (simp add: world_wf_sending_def world_wf_def)

lemma reject_x3_wf:
  assumes "crypto_sized C" "world_wf_sending w"
  shows "world_wf_sending (reject_x3 C b2 kek silent w)"
proof -
  obtain ct tag where e: "aead_encrypt_in_place C kek (to_nonce PACKET_TYPE_SESSION_REJECTED 0) None [] = (ct, tag)"
    by fastforce
  from aead_encrypt_lengths(2) [OF assms(1) e] e assms(2) show ?thesis
    by (auto simp: reject_x3_def create_reject_def Let_def zssp_sizes intro: emit_wf)
qed

lemma accept_x3_wf:
  assumes C: "crypto_sized C" and w: "world_wf_sending w" and b2: "defrag_wf (b2_defrag b2)" "b2_kid_recv b2 \<noteq> 0"
    and r: "accept_x3 C A b2 d pk rss ks kr noise warn w = (r, w')"
  shows "world_wf_sending w'" and "r \<noteq> Panic"
proof -
  obtain rk rf where rk: "get_ask C noise LABEL_RATCHET_STATE = (rk, rf)" by fastforce
  let ?rs = "ratchet_new rk rf (rs_chain_len (b2_ratchet_state b2) + 1)"
  obtain sv w1 where sv: "save_ratchet A pk d (cas_new ?rs None True (rss_state1 rss) (rss_state2 rss) True True) w
      = (sv, w1)" by fastforce
  have w1: "world_wf_sending w1"
    using sv w by (auto simp: save_ratchet_def split: prod.splits)
  obtain t w2 where t: "time_now A w1 = (t, w2)" by fastforce
  have w2: "world_wf_sending w2" using t w1 by (auto simp: time_now_def split: prod.splits)
  obtain ct c1 where c1: "aead_encrypt_in_place C ks (to_nonce PACKET_TYPE_KEY_CONFIRM 0) None [] = (ct, c1)"
    by fastforce
  note l = aead_encrypt_lengths(2) [OF C c1]
  have rwf: "ratchet_wf ?rs" using C rk by (rule get_ask_ratchet_wf)
  obtain nk1 nk2 where nk: "split_keys C noise = (nk1, nk2)" by fastforce
  define k where "k = \<lparr>dk_send = \<lparr>key_kek = Some ks, key_nk = Some nk1, key_kid = Some (b2_kid_send b2)\<rparr>,
    dk_recv = \<lparr>key_kek = Some kr, key_nk = Some nk2, key_kid = Some (b2_kid_recv b2)\<rparr>\<rparr>"
  have k: "duplex_ready k" by (simp add: k_def duplex_ready_def keys_ready_def)
  obtain s w3 where reg: "register_session (b2_kid_recv b2) (new_bob_zeta C b2 d pk k ?rs t) w2 = (s, w3)" by fastforce
  have w3: "world_wf_sending w3" by (rule register_session_wf [OF w2 new_bob_zeta_wf [OF rwf b2(1) k] b2(2) reg])
  have "(\<exists>e. r = Err e) \<and> (w' = w1 \<or> w' = w2) \<or> r = Ok (s, warn) \<and>
      w' = emit (Packet (b2_kid_send b2) (to_nonce PACKET_TYPE_KEY_CONFIRM 0) c1) (Some (b2_hk_send b2)) w3"
    using r rk sv t c1 nk reg
    by (auto simp: accept_x3_def Let_def k_def split: sum.splits bool.splits if_splits)
  then have "world_wf_sending w' \<and> r \<noteq> Panic"
    using w1 w2 w3 l by (auto simp: zssp_sizes intro!: emit_wf)
  then show "world_wf_sending w'" "r \<noteq> Panic" by simp_all
qed

lemma received_x3_wf:
  assumes C: "crypto_sized C" and w: "world_wf_sending w" and b2: "defrag_wf (b2_defrag b2)" "b2_kid_recv b2 \<noteq> 0"
    and r: "received_x3_trans C A b2 kid x w = (r, w')"
  shows "world_wf_sending w'" and "r \<noteq> Panic"
proof -
  have "(\<exists>e. r = Err e) \<and> world_wf_sending w' \<or>
    (\<exists>d pk rss ks kr noise warn a. accept_x3 C A b2 d pk rss ks kr noise warn (w\<lparr>w_app := a\<rparr>) = (r, w'))"
    using r w
    by (auto simp: received_x3_trans_def Let_def intro!: reject_x3_wf [OF C]
        split: sum.splits prod.splits option.splits if_splits)
  then have "world_wf_sending w' \<and> r \<noteq> Panic"
  proof (elim disjE exE)
    fix d pk rss ks kr noise warn a
    assume "accept_x3 C A b2 d pk rss ks kr noise warn (w\<lparr>w_app := a\<rparr>) = (r, w')"
    from accept_x3_wf [OF C _ b2 this] w show ?thesis by simp
  qed auto
  then show "world_wf_sending w'" "r \<noteq> Panic" by simp_all
qed


lemma receive_b2_wf:
  assumes C: "crypto_sized C" and w: "world_wf w" "ctx_b2_map w kid = Some b2"
    and r: "receive_b2 C A kid raw b2 w = (r, w')"
  shows "world_wf_sending w'" and "r \<noteq> Panic"
proof -
  have b2: "b2_wf kid b2" using w by (simp add: world_wf_def)
  obtain now w1 where t: "time_now A w = (now, w1)" by fastforce
  obtain q f where f: "received_fragment C (b2_defrag b2) raw now b2_vrfy = (q, f)" by fastforce
  let ?b2 = "b2\<lparr>b2_defrag := f\<rparr>"
  have f': "defrag_wf f" "returns q"
    using received_fragment_wf [OF C _ f] b2 by (simp_all add: b2_wf_def)
  have b2': "b2_wf kid ?b2" using b2 f' by (simp add: b2_wf_def)
  let ?w = "w1\<lparr>ctx_b2_map := (ctx_b2_map w1)(kid \<mapsto> ?b2)\<rparr>"
  have w1: "world_wf_sending ?w" "world_wf_sending (?w\<lparr>ctx_b2_map := (ctx_b2_map ?w)(kid := None)\<rparr>)"
    using w t b2' by (auto simp: time_now_def world_wf_sending_def world_wf_def split: prod.splits if_splits)
  have "world_wf_sending w' \<and> r \<noteq> Panic"
  proof (cases "\<exists>pn x. q = Ok (Some (pn, x))")
    case True
    then obtain pn x where q: "q = Ok (Some (pn, x))" by blast
    obtain r2 w2 where d: "received_x3_trans C A ?b2 kid x (?w\<lparr>ctx_b2_map := (ctx_b2_map ?w)(kid := None)\<rparr>) = (r2, w2)"
      by fastforce
    have "w' = w2" "r = Panic \<longleftrightarrow> r2 = Panic"
      using r t f q d by (auto simp: receive_b2_def Let_def)
    then show ?thesis using received_x3_wf [OF C w1(2) _ _ d] f' b2' by (simp add: b2_wf_def)
  next
    case False
    then have "w' = ?w" "r \<noteq> Panic"
      using r t f f'(2) by (auto simp: receive_b2_def Let_def split: outcome.splits option.splits)
    then show ?thesis using w1 by simp
  qed
  then show "world_wf_sending w'" "r \<noteq> Panic" by simp_all
qed

section \<open>Receiving a hello or a challenge\<close>

lemma length_write_x2:
  assumes C: "crypto_sized C" and "write_x2_payload C noise x kid = (noise', x', c)"
  shows "16 \<le> length x'"
proof -
  obtain n1 x1 where e: "encrypt_and_hash_in_place C noise (to_nonce PACKET_TYPE_HANDSHAKE_RESPONSE 0) (length x)
    (x @ u32_to_be_bytes kid) = (n1, x1)" by fastforce
  from encrypt_and_hash_append_length [OF C e] assms(2) e show ?thesis by (auto simp: write_x2_payload_def Let_def)
qed

lemma received_x1_wf:
  assumes C: "crypto_sized C" and w: "world_wf_sending w"
    and r: "received_x1_trans C A n x w = (r, w')"
  shows "world_wf_sending w'" and "r \<noteq> Panic"
proof -
  show "r \<noteq> Panic"
    using r by (auto simp: received_x1_trans_def Let_def split: sum.splits prod.splits option.splits)
  have ins: "world_wf_sending (w\<lparr>w_app := a, ctx_rng := g, ctx_b2_map := (ctx_b2_map w)(kid \<mapsto> b2)\<rparr>)"
    if "b2_wf kid b2" for a g kid and b2
    using w that by (auto simp: world_wf_sending_def world_wf_def split: if_splits)
  show "world_wf_sending w'"
  proof (cases "read_x1 C (ctx_s_secret w) n x")
    case (Inl e)
    with r w show ?thesis by (auto simp: received_x1_trans_def)
  next
    case (Inr y)
    obtain kid_send e e1 rf1 rf2 noise where y: "y = (kid_send, e, e1, rf1, rf2, noise)" by (metis surj_pair)
    obtain fr a where fr: "find_ratchet_state A rf1 rf2 (w_app w) = (fr, a)" by fastforce
    obtain hks hkr where hk: "get_ask C noise LABEL_HEADER_KEY = (hks, hkr)" by fastforce
    show ?thesis
    proof (cases fr)
      case (Inl x)
      with r w Inr y fr show ?thesis by (auto simp: received_x1_trans_def)
    next
      case rs: (Inr rs)
      obtain t g where t: "write_x2_tokens C e e1 (rs_key rs) noise (ctx_rng w) = (t, g)" by fastforce
      show ?thesis
      proof (cases t)
        case (Inl x)
        with r w Inr y fr hk rs t show ?thesis by (auto simp: received_x1_trans_def)
      next
        case tt: (Inr u)
        obtain es n2 x2 where u: "u = (es, n2, x2)" by (cases u) auto
        show ?thesis
        proof (cases "gen_kid C (ctx_session_map w) g")
          case None
          with r w Inr y fr hk rs t tt u show ?thesis by (auto simp: received_x1_trans_def)
        next
          case (Some q)
          obtain kid g2 where q: "q = (kid, g2)" by fastforce
          obtain n3 x3 c where x3: "write_x2_payload C n2 x2 kid = (n3, x3, c)" by (metis surj_pair)
          define b2 where "b2 = \<lparr>b2_ratchet_state = rs, b2_kid_send = kid_send, b2_kid_recv = kid,
            b2_hk_send = hks, b2_e_secret = es, b2_noise = n3, b2_defrag = DefragBuffer_new (Some hkr)\<rparr>"
          have "b2_wf kid b2"
            using gen_kid_fresh [OF Some] q by (simp add: b2_wf_def b2_def defrag_wf_def DefragBuffer_new_def)
          moreover have "w' = emit (Packet kid_send (to_nonce PACKET_TYPE_HANDSHAKE_RESPONSE c) x3) (Some hks)
              (w\<lparr>w_app := a, ctx_rng := g2, ctx_b2_map := (ctx_b2_map w)(kid \<mapsto> b2)\<rparr>)"
            using r Inr y fr hk rs t tt u Some q x3 by (simp add: received_x1_trans_def b2_def)
          ultimately show ?thesis
            using ins length_write_x2 [OF C x3] by (auto simp: zssp_sizes intro!: emit_wf)
        qed
      qed
    qed
  qed
qed


lemma process_hello_returns: "process_hello C cc addr x = (r, cc') \<Longrightarrow> returns r"
  by (auto simp: process_hello_def Let_def split: if_splits)

lemma challenge_length:
  assumes "crypto_sized C" "length x = 32" "process_hello C cc addr x = (Err ch, cc')"
  shows "length ch = 32"
  using assms length_create_mac [OF assms(1)]
  by (auto simp: process_hello_def Let_def zssp_sizes split: if_splits)

lemma world_wf_sending_challenge [simp]: "world_wf_sending (w\<lparr>ctx_challenge := cc\<rparr>) = world_wf_sending w"
  by (simp add: world_wf_sending_def world_wf_def)

lemma process_hello_packet_wf:
  assumes C: "crypto_sized C" and w: "world_wf_sending w" and l: "32 \<le> length x"
    and r: "process_hello_packet C A addr n x w = (r, w')"
  shows "world_wf_sending w'" and "r \<noteq> Panic"
proof -
  obtain q cc where h: "process_hello C (ctx_challenge w) addr (drop (length x - 32) x) = (q, cc)" by fastforce
  let ?w = "w\<lparr>ctx_challenge := cc\<rparr>"
  have "world_wf_sending w' \<and> r \<noteq> Panic"
  proof (cases q)
    case (Ok b)
    obtain r2 w2 where d: "received_x1_trans C A (to_aes_nonce n) (take (length x - 32) x) ?w = (r2, w2)" by fastforce
    have "w' = w2" "r = Panic \<longleftrightarrow> r2 = Panic"
      using r h Ok d l by (auto simp: process_hello_packet_def zssp_sizes Let_def)
    then show ?thesis using received_x1_wf [OF C _ d] w by simp
  next
    case (Err ch)
    obtain v g where g: "next_u64 C (ctx_rng w) = (v, g)" by fastforce
    have "length ch = 32" using challenge_length [OF C _ h [unfolded Err]] l by simp
    moreover have "r \<noteq> Panic" "w' = emit (Packet 0 (to_nonce PACKET_TYPE_CHALLENGE v) (take 4 x @ ch)) None
        (?w\<lparr>ctx_rng := g\<rparr>)"
      using r h Err l g by (auto simp: process_hello_packet_def zssp_sizes Let_def)
    ultimately show ?thesis using w l by (auto simp: zssp_sizes intro!: emit_wf)
  qed (use process_hello_returns [OF h] in auto)
  then show "world_wf_sending w'" "r \<noteq> Panic" by simp_all
qed

lemma process_challenge_packet_wf:
  assumes w: "world_wf_sending w" and r: "process_challenge_packet C x w = (r, w')"
  shows "world_wf_sending w'" and "r \<noteq> Panic"
proof -
  let ?look = "Option.bind (ctx_session_map w (u32_from_be_bytes (take 4 x))) (\<lambda>s. map_option (Pair s) (ctx_heap w s))"
  have "world_wf_sending w' \<and> r \<noteq> Panic"
  proof (cases "length x = 36 \<and> u32_from_be_bytes (take 4 x) \<noteq> 0 \<and> ?look \<noteq> None")
    case False
    with r w show ?thesis
      by (auto simp: process_challenge_packet_def zssp_sizes NonZeroU32_new_def
          split: if_splits option.splits prod.splits)
  next
    case True
    then obtain q where q: "?look = Some q" by blast
    obtain s z where sz: "?look = Some (s, z)" using q by (cases q) simp
    then have "ctx_heap w s = Some z" by (auto simp: bind_eq_Some_conv)
    with w have z: "zeta_wf z" "s < ctx_next_session w" by (auto simp: world_wf_sending_def world_wf_def)
    obtain r2 z2 w2 where d: "respond_to_challenge C (drop 4 x) z w = (r2 :: (receive_error, unit) outcome, z2, w2)"
      by (metis surj_pair)
    note p = respond_to_challenge_progress [OF z(1) _ d]
    have "w' = put_zeta s z2 w2" "r = map_outcome id (\<lambda>_. Unassociated) r2"
      using r True sz d by (simp_all add: process_challenge_packet_def zssp_sizes NonZeroU32_new_def)
    moreover have "world_wf_sending (put_zeta s z2 w2)"
      using put_zeta_wf [OF w, of w2 s z2] respond_to_challenge_tables [OF d] p(1) progress_packets [OF p(1)] z True w
      by (auto simp: progress_def world_wf_sending_def)
    ultimately show ?thesis using p(2) True by simp
  qed
  then show "world_wf_sending w'" "r \<noteq> Panic" by simp_all
qed

text \<open>The only panic: a hello that is shorter than a challenge.\<close>

lemma receive_hello_wf:
  assumes C: "crypto_sized C" and w: "world_wf w"
    and r: "receive_hello C A addr raw w = (r, w')"
    and t: "time_now A w = (now, w1)"
    and f: "received_fragment C (ctx_hello_defrag w1) raw now hello_vrfy = (q, f)"
  shows "world_wf_sending w'"
    and "r = Panic \<longleftrightarrow> (\<exists>n x. q = Ok (Some (n, x)) \<and> fst (from_nonce n) = PACKET_TYPE_HANDSHAKE_HELLO \<and>
      length x < CHALLENGE_SIZE)"
proof -
  let ?short = "\<exists>n x. q = Ok (Some (n, x)) \<and> fst (from_nonce n) = PACKET_TYPE_HANDSHAKE_HELLO \<and> length x < CHALLENGE_SIZE"
  have w1: "world_wf_sending w1" "ctx_hello_defrag w1 = ctx_hello_defrag w"
    using w t by (auto simp: time_now_def world_wf_sending_def world_wf_def split: prod.splits)
  have f': "defrag_wf f" "returns q"
    using received_fragment_wf [OF C _ f] w w1 by (simp_all add: world_wf_def)
  let ?w = "w1\<lparr>ctx_hello_defrag := f\<rparr>"
  have w2: "world_wf_sending ?w" using w1 f' by (simp add: world_wf_sending_def world_wf_def)
  have "world_wf_sending w' \<and> (r = Panic \<longleftrightarrow> ?short)"
  proof (cases "\<exists>pn x. q = Ok (Some (pn, x))")
    case True
    then obtain n x where q: "q = Ok (Some (n, x))" by blast
    let ?p = "fst (from_nonce n)"
    consider (short) "?p = PACKET_TYPE_HANDSHAKE_HELLO" "length x < CHALLENGE_SIZE" "r = Panic" "w' = ?w"
      | (hello) "32 \<le> length x" "process_hello_packet C A addr n x ?w = (r, w')"
      | (challenge) "?p \<noteq> PACKET_TYPE_HANDSHAKE_HELLO" "process_challenge_packet C x ?w = (r, w')"
      | (other) y where "?p \<noteq> PACKET_TYPE_HANDSHAKE_HELLO" "r = Err y" "w' = ?w"
      using r t f q by (cases "length x < CHALLENGE_SIZE")
        (auto simp: receive_hello_def process_hello_packet_def zssp_sizes Let_def split: prod.splits if_splits)
    then show ?thesis
    proof cases
      case hello
      from process_hello_packet_wf [OF C w2 hello] hello q show ?thesis by (auto simp: zssp_sizes)
    next
      case challenge
      from process_challenge_packet_wf [OF w2 challenge(2)] challenge q show ?thesis by auto
    qed (use q w2 in auto)
  next
    case False
    then have "w' = ?w" "r \<noteq> Panic"
      using r t f f'(2) by (auto simp: receive_hello_def Let_def split: outcome.splits option.splits)
    then show ?thesis using w2 False by auto
  qed
  then show "world_wf_sending w'" "r = Panic \<longleftrightarrow> ?short" by simp_all
qed

section \<open>The public operations\<close>

text \<open>The branches of \<open>receive\<close>.\<close>

lemma context_receive_cases:
  assumes r: "Context_receive C A reply send_to addr raw w = (r, out, w')"
    and kid: "kid = u32_from_be_bytes (take KID_SIZE raw)"
  obtains (tiny) "length raw < KID_SIZE" "r = Panic" "w' = w"
    | (session) s z r1 w1 where "KID_SIZE \<le> length raw" "kid \<noteq> 0" "ctx_heap w s = Some z"
        "receive_session C A s kid raw z w = (r1, w1)" "flush C (send_to s) (r1, w1) = (r, out, w')"
    | (pending) b2 r1 w1 where "KID_SIZE \<le> length raw" "kid \<noteq> 0" "ctx_b2_map w kid = Some b2"
        "receive_b2 C A kid raw b2 w = (r1, w1)" "flush C (Some reply) (r1, w1) = (r, out, w')"
    | (unknown) y where "KID_SIZE \<le> length raw" "kid \<noteq> 0" "r = Err y" "w' = w"
    | (hello) r1 w1 where "KID_SIZE \<le> length raw" "kid = 0"
        "receive_hello C A addr raw w = (r1, w1)" "flush C (Some reply) (r1, w1) = (r, out, w')"
proof (cases "length raw < KID_SIZE")
  case True
  with r show thesis by (intro tiny) (auto simp: Context_receive_def)
next
  case len: False
  show thesis
  proof (cases "kid = 0")
    case True
    obtain r1 w1 where h: "receive_hello C A addr raw w = (r1, w1)" by fastforce
    show thesis by (rule hello [OF _ True h]) (use len True r h kid in \<open>auto simp: Context_receive_def NonZeroU32_new_def\<close>)
  next
    case nz: False
    let ?look = "Option.bind (ctx_session_map w kid) (\<lambda>s. map_option (Pair s) (ctx_heap w s))"
    have run: "Context_receive C A reply send_to addr raw w =
       (case ?look of
          Some (session, z) \<Rightarrow> flush C (send_to session) (receive_session C A session kid raw z w)
        | None \<Rightarrow>
            (case ctx_b2_map w kid of
               Some b2 \<Rightarrow> flush C (Some reply) (receive_b2 C A kid raw b2 w)
             | None \<Rightarrow> (Err (fault UnknownLocalKeyId False), [], w)))"
      using len nz unfolding kid by (simp add: Context_receive_def NonZeroU32_new_def)
    show thesis
    proof (cases ?look)
      case (Some q)
      obtain s z where q: "q = (s, z)" by fastforce
      have heap: "ctx_heap w s = Some z" using Some q by (auto simp: bind_eq_Some_conv)
      obtain r1 w1 where h: "receive_session C A s kid raw z w = (r1, w1)" by fastforce
      show thesis by (rule session [OF _ nz heap h]) (use len run r Some q h in auto)
    next
      case None
      show thesis
      proof (cases "ctx_b2_map w kid")
        case b2: (Some b2)
        obtain r1 w1 where h: "receive_b2 C A kid raw b2 w = (r1, w1)" by fastforce
        show thesis by (rule pending [OF _ nz b2 h]) (use len run r None b2 h in auto)
      next
        case b2: None
        show thesis
          by (rule unknown [of "fault UnknownLocalKeyId False"]) (use len nz run r None b2 in auto)
      qed
    qed
  qed
qed

lemma context_receive_wf:
  assumes C: "layer_ok C" and w: "world_wf w"
    and r: "Context_receive C A reply send_to addr raw w = (r, out, w')"
  shows "world_wf w' \<and> (r = Panic \<longleftrightarrow> length raw < KID_SIZE \<or> short_hello C A raw w)"
proof -
  have C': "crypto_sized C" using C by (simp add: layer_ok_def)
  let ?kid = "u32_from_be_bytes (take KID_SIZE raw)"
  show ?thesis
  proof (cases rule: context_receive_cases [OF r refl, case_names tiny session pending unknown hello])
    case session
    from flush_wf [OF C' receive_session_wf(1) [OF C w session(3,4)] session(5)]
      receive_session_wf(2) [OF C w session(3,4)] session(1,2)
    show ?thesis by (simp add: short_hello_def)
  next
    case pending
    from flush_wf [OF C' receive_b2_wf(1) [OF C' w pending(3,4)] pending(5)]
      receive_b2_wf(2) [OF C' w pending(3,4)] pending(1,2)
    show ?thesis by (simp add: short_hello_def)
  next
    case (hello r1 w1)
    obtain now w2 where t: "time_now A w = (now, w2)" by fastforce
    obtain q f where f: "received_fragment C (ctx_hello_defrag w2) raw now hello_vrfy = (q, f)" by fastforce
    note h = receive_hello_wf [OF C' w hello(3) t f]
    have "short_hello C A raw w \<longleftrightarrow> r1 = Panic"
      using hello(2) t f h(2) by (auto simp: short_hello_def split: outcome.splits option.splits prod.splits)
    with flush_wf [OF C' h(1) hello(4)] hello(1) show ?thesis by simp
  qed (use w in \<open>auto simp: short_hello_def\<close>)
qed


lemma new_a1_zeta_wf:
  assumes "hello_packet_wf (a1_packet a1)" "ratchet_wf (rss_state1 rss)" "pred_option ratchet_wf (rss_state2 rss)"
  shows "zeta_wf (key_mut (new_a1_zeta C d pk rss hkr hks t a1) True (set_recv_kid kid))"
  using assms by (simp add: zeta_wf_def beta_wf_def new_a1_zeta_def recv_kid_def window_new_def defrag_wf_def
      DefragBuffer_new_def)

lemma initial_states_wf: "ratchet_wf (rss_state1 new_initial_states)" "rss_state2 new_initial_states = None"
  by (simp_all add: new_initial_states_def ratchet_wf_def ratchet_empty_def)

lemma trans_to_a1_wf:
  assumes C: "crypto_sized C" and A: "app_sized A" and w: "world_wf w"
    and r: "trans_to_a1 C A pk d ident w = (r, w')"
  shows "world_wf_sending w'" and "r \<noteq> Panic"
proof -
  obtain q a where q: "app_restore_by_identity A pk d (w_app w) = (q, a)" by fastforce
  have w1: "world_wf_sending (w\<lparr>w_app := a\<rparr>)" using w by (simp add: world_wf_sendingI)
  have "world_wf_sending w' \<and> r \<noteq> Panic"
  proof (cases q)
    case (Inl e)
    with r q w1 show ?thesis by (auto simp: trans_to_a1_def)
  next
    case (Inr o1)
    define rss where "rss = (case o1 of None \<Rightarrow> new_initial_states | Some rss \<Rightarrow> rss)"
    have rwf: "ratchet_wf (rss_state1 rss)" "pred_option ratchet_wf (rss_state2 rss)"
      using A q Inr initial_states_wf unfolding app_sized_def rss_def by (cases o1; fastforce)+
    show ?thesis
    proof (cases "gen_kid C (ctx_session_map w) (ctx_rng w)")
      case None
      with r q Inr w1 show ?thesis by (auto simp: trans_to_a1_def Let_def)
    next
      case (Some k)
      obtain kid g where k: "k = (kid, g)" by fastforce
      obtain a1 g2 where a1: "create_a1_state C g pk kid (rss_state1 rss) (rss_state2 rss) ident = (a1, g2)" by fastforce
      obtain hkr hks where hk: "get_ask C (a1_noise a1) LABEL_HEADER_KEY = (hkr, hks)" by fastforce
      obtain t w2 where t: "time_now A (w\<lparr>w_app := a, ctx_rng := g2\<rparr>) = (t, w2)" by fastforce
      have w2: "world_wf_sending w2" using t w1 by (auto simp: time_now_def split: prod.splits)
      let ?z = "key_mut (new_a1_zeta C d pk rss hkr hks t a1) True (set_recv_kid kid)"
      obtain s w3 where reg: "register_session kid ?z w2 = (s, w3)" by fastforce
      have a1wf: "hello_packet_wf (a1_packet a1)" by (rule create_a1_state_wf [OF C rwf a1])
      have "kid \<noteq> 0" using gen_kid_fresh [OF Some] k by simp
      then have "world_wf_sending w3" by (rule register_session_wf [OF w2 new_a1_zeta_wf [OF a1wf rwf] _ reg])
      moreover have "r = Ok s" "w' = emit (a1_packet a1) None w3"
        using r q Inr Some k a1 hk t reg by (simp_all add: trans_to_a1_def Let_def rss_def)
      ultimately show ?thesis using a1wf by (auto simp: hello_packet_wf_def zssp_sizes intro!: emit_wf)
    qed
  qed
  then show "world_wf_sending w'" "r \<noteq> Panic" by simp_all
qed

lemma context_open_wf:
  assumes C: "crypto_sized C" and A: "app_sized A" and w: "world_wf w"
    and r: "Context_open C A send mtu pk d ident w = (r, out, w')"
  shows "world_wf w' \<and> r \<noteq> Panic"
proof -
  obtain r1 w1 where t: "trans_to_a1 C A pk d ident w = (r1, w1)" by fastforce
  note tw = trans_to_a1_wf [OF C A w t]
  from flush_wf [OF C tw(1), of "Some (send, mtu)" r1 r out w'] tw(2) r t w show ?thesis
    by (auto simp: Context_open_def split: if_splits)
qed


lemma world_wf_heap: "world_wf w \<Longrightarrow> ctx_heap w s = Some z \<Longrightarrow> zeta_wf z \<and> s < ctx_next_session w"
  by (simp add: world_wf_def)

lemma progress_put_wf:
  assumes w: "world_wf w" "ctx_heap w s = Some z" and p: "progress ev z w z' w'" and t: "tables_kept s w w'"
  shows "world_wf_sending (put_zeta s z' w')"
proof -
  have "w_sent w = []" using w by (simp add: world_wf_def)
  then have "packets_wf (w_sent w')" using progress_packets [OF p] by simp
  with put_zeta_wf [OF world_wf_sendingI [OF w(1)] _ t] p world_wf_heap [OF w] show ?thesis
    by (simp add: progress_def)
qed

lemma context_send_wf:
  assumes C: "crypto_sized C" and w: "world_wf w"
    and r: "Context_send C s send mtu payload w = (r, out, w')"
  shows "world_wf w'" and "r \<noteq> Panic"
proof -
  have "world_wf w' \<and> r \<noteq> Panic"
  proof (cases "ctx_heap w s")
    case None
    with r w show ?thesis by (auto simp: Context_send_def)
  next
    case (Some z)
    define f where "f = (\<lambda>p hk. case fst (transmit_packet C (Some (send, mtu)) (p, hk)) of
                 Err e \<Rightarrow> if e then Err DataTooLarge else Ok ()
               | Ok _ \<Rightarrow> Ok ()
               | Panic \<Rightarrow> Panic
               | Diverge \<Rightarrow> Diverge)"
    obtain r1 z1 w1 where p: "send_payload C f payload z w = (r1, z1, w1)" by (metis surj_pair)
    have z: "zeta_wf z" using world_wf_heap [OF w Some] by simp
    note pr = send_payload_progress(1) [OF C z p]
    have fl: "flush C (Some (send, mtu)) (r1, put_zeta s z1 w1) = (r, out, w')"
      using r Some p by (simp add: Context_send_def f_def [symmetric] Let_def)
    note w2 = flush_wf [OF C progress_put_wf [OF w Some pr send_payload_tables [OF p]] fl]
    have "f p hk \<noteq> Panic" if "packets_wf [(p, hk)]" for p hk
      using transmit_packet_returns [OF C that, of "Some (send, mtu)"] by (auto simp: f_def split: outcome.splits)
    then have "r1 \<noteq> Panic"
      using send_payload_progress(2) [OF C z p] w by (simp add: world_wf_def)
    with w2 show ?thesis by simp
  qed
  then show "world_wf w'" "r \<noteq> Panic" by simp_all
qed


section \<open>The service loop\<close>

lemma zeta_service_panics:
  assumes C: "crypto_sized C" and z: "zeta_wf z" and r: "zeta_service C s now z w = (r, z', w')"
  shows "r = Panic \<longleftrightarrow> ctx_sessions_borrowed w \<and> expiry_due now z"
proof (cases "expiry_due now z")
  case True
  then have "expire True z w = (r, z', w')"
    using r by (auto simp: expiry_due_def zeta_service_def timeout_trans_def phase_of_def split: zeta_automata.splits)
  with True show ?thesis by (auto simp: expire_def Let_def split: if_splits)
next
  case False
  then show ?thesis
    using r restart_a1_progress(2) [OF C z, of s _ now w r z' w' Timer]
      start_rekey_progress(2) [OF C z, of s now w r z' w']
    by (auto simp: expiry_due_def zeta_service_def timeout_trans_def Let_def phase_step.intros
        split: if_splits zeta_automata.splits prod.splits)
qed

lemma defrag_service_wf: "defrag_wf d \<Longrightarrow> defrag_wf (DefragBuffer_service d t)"
  by (auto simp: defrag_wf_def DefragBuffer_service_def split: option.splits if_splits)

lemma zeta_wf_defrag: "zeta_wf z \<Longrightarrow> defrag_wf f \<Longrightarrow> zeta_wf (z\<lparr>z_defrag := f\<rparr>)"
  by (auto simp: zeta_wf_def beta_wf_def recv_kid_def split: zeta_automata.splits)

text \<open>One session of the loop, and the rest of the heap.\<close>

lemma service_one_wf:
  assumes C: "crypto_sized C" and w: "world_wf (w\<lparr>ctx_sessions_borrowed := False\<rparr>)" "ctx_heap w s = Some z"
    and v: "zeta_service C s now z w = (r :: (unit, unit) outcome, z1, w1)"
    and f: "flush C sender (r, w1) = (r2, out, w2)"
    and z2: "z2 = z1 \<or> z2 = z1\<lparr>z_defrag := DefragBuffer_service (z_defrag z1) now\<rparr>"
  shows "world_wf ((put_zeta s z2 w2)\<lparr>ctx_sessions_borrowed := False\<rparr>)" and "r2 = r"
    and "ctx_sessions_borrowed w2 = ctx_sessions_borrowed w" and "ctx_heap w2 = ctx_heap w"
proof -
  have z: "zeta_wf z" "s < ctx_next_session w" "w_sent w = []" using w by (auto simp: world_wf_def)
  note p = zeta_service_progress(1) [OF C z(1) v]
  have fr: "ctx_frame w w1" using p by (simp add: progress_def)
  have pk: "packets_wf (w_sent w1)" using progress_packets [OF p] z by simp
  have z1: "zeta_wf z2"
    using p z2 by (auto simp: progress_def intro!: zeta_wf_defrag defrag_service_wf) (simp_all add: zeta_wf_def)
  have tb: "tables_wf w1"
    by (rule tables_kept_wf [OF zeta_service_tables [OF v]]) (use w(1) z(2) fr in \<open>simp_all add: world_wf_def ctx_frame_def\<close>)
  have "world_wf_sending (w1\<lparr>ctx_sessions_borrowed := False\<rparr>)"
    using w fr pk tb by (auto simp: world_wf_sending_def world_wf_def ctx_frame_def)
  from flush_wf [OF C this, of sender r] f
  have ok: "r2 = r" "w2 = w1\<lparr>w_sent := []\<rparr>" by (auto simp: flush_def Let_def)
  then show "r2 = r" "ctx_sessions_borrowed w2 = ctx_sessions_borrowed w" "ctx_heap w2 = ctx_heap w"
    using fr by (simp_all add: ctx_frame_def)
  show "world_wf ((put_zeta s z2 w2)\<lparr>ctx_sessions_borrowed := False\<rparr>)"
    using w fr z z1 ok tb by (auto simp: world_wf_def put_zeta_def ctx_frame_def split: if_splits)
qed

lemma service_sessions_wf:
  assumes C: "crypto_sized C"
  shows "world_wf (w\<lparr>ctx_sessions_borrowed := False\<rparr>) \<Longrightarrow> distinct order \<Longrightarrow>
    service_sessions C send_to now order timer w = (r, out, w') \<Longrightarrow>
    world_wf (w'\<lparr>ctx_sessions_borrowed := False\<rparr>) \<and>
    (r = Panic \<longrightarrow> (\<exists>s \<in> set order. \<exists>z. ctx_heap w s = Some z \<and> expiry_due now z))"
proof (induction order arbitrary: timer w r out w')
  case Nil
  then show ?case by auto
next
  case (Cons s order)
  show ?case
  proof (cases "ctx_heap w s")
    case None
    with Cons.prems Cons.IH [of w timer r out w'] show ?thesis by auto
  next
    case (Some z)
    obtain r1 z1 w1 where v: "zeta_service C s now z w = (r1 :: (unit, unit) outcome, z1, w1)" by (metis surj_pair)
    obtain r2 out2 w2 where f: "flush C (send_to s) (r1, w1) = (r2, out2, w2)" by (metis surj_pair)
    note one = service_one_wf [OF C Cons.prems(1) Some v f]
    have z: "zeta_wf z" using Cons.prems(1) Some by (auto simp: world_wf_def)
    have pan: "r1 = Panic \<Longrightarrow> expiry_due now z" using zeta_service_panics [OF C z v] by simp
    let ?z = "z1\<lparr>z_defrag := DefragBuffer_service (z_defrag z1) now\<rparr>"
    show ?thesis
    proof (cases "r2 = Ok ()")
      case True
      obtain r3 out3 w3 where rest: "service_sessions C send_to now order (min timer (next_timer z1)) (put_zeta s ?z w2)
        = (r3, out3, w3)" by (metis surj_pair)
      have "r = r3" "w' = w3" using Cons.prems(3) Some v f True rest by (auto simp: Let_def next_timer_def)
      moreover have "ctx_heap (put_zeta s ?z w2) t = ctx_heap w t" if "t \<in> set order" for t
        using that Cons.prems(2) one(4) [of z1] by (auto simp: put_zeta_def)
      ultimately show ?thesis
        using Cons.IH [OF one(1) [OF disjI2 [OF refl]] _ rest] Cons.prems(2) by auto
    next
      case False
      then have "w' = put_zeta s z1 w2" "r = Panic \<longrightarrow> r2 = Panic"
        using Cons.prems(3) Some v f by (auto split: outcome.splits)
      then show ?thesis using one(1) [of z1] one(2) pan Some by auto
    qed
  qed
qed

lemma context_service_wf:
  assumes C: "crypto_sized C" and w: "world_wf w" and d: "distinct order"
    and r: "Context_service C A send_to order w = (r, out, w')"
  shows "world_wf w'"
    and "r = Panic \<Longrightarrow> \<exists>s \<in> set order. \<exists>z. ctx_heap w s = Some z \<and> expiry_due (fst (time_now A w)) z"
proof -
  obtain now w1 where t: "time_now A (w\<lparr>ctx_sessions_borrowed := True\<rparr>) = (now, w1)" by fastforce
  have w1: "world_wf (w1\<lparr>ctx_sessions_borrowed := False\<rparr>)" "ctx_heap w1 = ctx_heap w" "now = fst (time_now A w)"
    using w t by (auto simp: time_now_def world_wf_def split: prod.splits)
  obtain q o2 w2 where s: "service_sessions C send_to now order I64_MAX w1 = (q, o2, w2)" by (metis surj_pair)
  note sw = service_sessions_wf [OF C w1(1) d s]
  have "w' = w2\<lparr>ctx_sessions_borrowed := False\<rparr> \<or>
      w' = w2\<lparr>ctx_hello_defrag := DefragBuffer_service (ctx_hello_defrag w2) now, ctx_sessions_borrowed := False\<rparr>"
    "r = Panic \<longrightarrow> q = Panic"
    using r t s by (auto simp: Context_service_def Let_def split: outcome.splits)
  then show "world_wf w'"
    "r = Panic \<Longrightarrow> \<exists>s \<in> set order. \<exists>z. ctx_heap w s = Some z \<and> expiry_due (fst (time_now A w)) z"
    using sw w1 defrag_service_wf by (auto simp: world_wf_def)
qed


text \<open>One session asks for at most one more key id.\<close>

lemma remap_room:
  "remap C s z w = Some (kid, w') \<Longrightarrow> card (dom (ctx_session_map w')) \<le> Suc (card (dom (ctx_session_map w)))"
  "kids_live C (ctx_session_map w) \<Longrightarrow> remap C s z w \<noteq> None"
proof -
  define m where "m = (case recv_kid z True of
      Some kid \<Rightarrow> (case ctx_session_map w kid of Some s \<Rightarrow> (ctx_session_map w)(kid := None) | None \<Rightarrow> ctx_session_map w)
    | None \<Rightarrow> ctx_session_map w)"
  have m: "m \<subseteq>\<^sub>m ctx_session_map w" by (auto simp: m_def map_le_def split: option.splits)
  then have d: "card (dom m) \<le> card (dom (ctx_session_map w))" by (intro card_dom_mono map_le_implies_dom_le)
  show "card (dom (ctx_session_map w')) \<le> Suc (card (dom (ctx_session_map w)))" if r: "remap C s z w = Some (kid, w')"
  proof -
    have "\<exists>t. ctx_session_map w' = m(kid \<mapsto> t)"
      using r by (cases "recv_kid z True"; cases "ctx_session_map w (the (recv_kid z True))")
        (auto simp: remap_def m_def split: option.splits prod.splits)
    then obtain t where t: "ctx_session_map w' = m(kid \<mapsto> t)" by blast
    show ?thesis unfolding t using card_dom_update [where m = m and kid = kid and s = t] d by linarith
  qed
  show "remap C s z w \<noteq> None" if k: "kids_live C (ctx_session_map w)"
    using kids_liveD [OF kids_live_mono [OF k m], of "ctx_rng w"]
    by (cases "recv_kid z True"; cases "ctx_session_map w (the (recv_kid z True))")
      (auto simp: remap_def m_def)
qed

lemma send_control_map: "ctx_session_map (snd (snd (send_control C z p x w))) = ctx_session_map w"
  by (auto simp: send_control_def emit_def Let_def split: option.split prod.split)

lemma zeta_service_room:
  fixes w :: "('pk, 'kp, 'r, 'kem, 'd, 'a) world" and z :: "('pk, 'kp, 'kem, 'd) zeta"
    and C :: "('pk, 'kp, 'r, 'kem) crypto_layer"
  defines "res s now \<equiv> zeta_service C s now z w :: (unit, unit, 'pk, 'kp, 'r, 'kem, 'd, 'a) zeta_result"
  assumes "\<not> expiry_due now z"
  shows "card (dom (ctx_session_map (snd (snd (res s now))))) \<le> Suc (card (dom (ctx_session_map w)))"
    and "kids_live C (ctx_session_map w) \<Longrightarrow> fst (res s now) = Ok ()"
proof -
  have st: "ctx_session_map (snd (snd (start_rekey C s now z w :: (unit, unit, 'pk, 'kp, 'r, 'kem, 'd, 'a) zeta_result)))
      = (case remap C s z w of None \<Rightarrow> ctx_session_map w | Some (_, w) \<Rightarrow> ctx_session_map w)"
    by (simp add: start_rekey_def Let_def case_prod_beta send_control_map split: option.split)
  have ra: "ctx_session_map (snd (snd (restart_a1 C s i now z w :: (unit, unit, 'pk, 'kp, 'r, 'kem, 'd, 'a) zeta_result)))
      = (case remap C s z w of None \<Rightarrow> ctx_session_map w | Some (_, w) \<Rightarrow> ctx_session_map w)" for i
    by (simp add: restart_a1_def Let_def case_prod_beta emit_def split: option.split)
  have le: "card (dom (case remap C s z w of None \<Rightarrow> ctx_session_map w | Some (_, w) \<Rightarrow> ctx_session_map w))
      \<le> Suc (card (dom (ctx_session_map w)))"
    using remap_room(1) by (auto split: option.split)
  show "card (dom (ctx_session_map (snd (snd (res s now))))) \<le> Suc (card (dom (ctx_session_map w)))"
    using assms(2) le by (auto simp: res_def zeta_service_def timeout_trans_def st ra Let_def case_prod_beta send_control_map emit_def
        expiry_due_def split: zeta_automata.split)
  show "fst (res s now) = Ok ()" if "kids_live C (ctx_session_map w)"
    using assms(2) remap_room(2) [OF that, of s z]
    by (auto simp: res_def zeta_service_def timeout_trans_def start_rekey_def restart_a1_def Let_def case_prod_beta
        expiry_due_def split: zeta_automata.split option.split)
qed

text \<open>With key ids to spare the loop reaches the first session that has to expire, and panics there.\<close>

lemma service_sessions_result:
  assumes C: "crypto_sized C"
  shows "world_wf (w\<lparr>ctx_sessions_borrowed := False\<rparr>) \<Longrightarrow> ctx_sessions_borrowed w \<Longrightarrow> distinct order \<Longrightarrow>
    kids_room C (card (dom (ctx_session_map w)) + length order) \<Longrightarrow>
    service_sessions C send_to now order timer w = (r, out, w') \<Longrightarrow>
    (if \<exists>s \<in> set order. \<exists>z. ctx_heap w s = Some z \<and> expiry_due now z then r = Panic else \<exists>t. r = Ok t)"
proof (induction order arbitrary: timer w r out w')
  case Nil
  then show ?case by auto
next
  case (Cons s order)
  show ?case
  proof (cases "ctx_heap w s")
    case None
    have "kids_room C (card (dom (ctx_session_map w)) + length order)"
      using Cons.prems(4) by (rule kids_room_mono) simp
    with Cons.prems None Cons.IH [of w timer r out w'] show ?thesis by auto
  next
    case (Some z)
    obtain r1 z1 w1 where v: "zeta_service C s now z w = (r1 :: (unit, unit) outcome, z1, w1)" by (metis surj_pair)
    obtain r2 out2 w2 where f: "flush C (send_to s) (r1, w1) = (r2, out2, w2)" by (metis surj_pair)
    note one = service_one_wf [OF C Cons.prems(1) Some v f]
    have z: "zeta_wf z" using Cons.prems(1) Some by (auto simp: world_wf_def)
    show ?thesis
    proof (cases "expiry_due now z")
      case True
      then have "r2 = Panic" using zeta_service_panics [OF C z v] Cons.prems(2) one(2) [of z1] by simp
      then show ?thesis using Cons.prems(5) Some v f True by auto
    next
      case False
      note room = zeta_service_room [OF False, where C = C and s = s and w = w, unfolded v fst_conv snd_conv]
      have "r2 = Ok ()" using room(2) kids_roomD [OF Cons.prems(4), of "ctx_session_map w"] one(2) [of z1] by simp
      let ?z = "z1\<lparr>z_defrag := DefragBuffer_service (z_defrag z1) now\<rparr>"
      let ?w = "put_zeta s ?z w2"
      obtain r3 out3 w3 where rest: "service_sessions C send_to now order (min timer (next_timer z1)) ?w
        = (r3, out3, w3)" by (metis surj_pair)
      have r: "r = r3" using Cons.prems(5) Some v f \<open>r2 = Ok ()\<close> rest by (auto simp: Let_def next_timer_def)
      have heap: "ctx_heap ?w t = ctx_heap w t" if "t \<in> set order" for t
        using that Cons.prems(3) one(4) [of z1] by (auto simp: put_zeta_def)
      have m: "ctx_session_map ?w = ctx_session_map w1" "ctx_sessions_borrowed ?w"
        using f one(3) [of z1] Cons.prems(2) by (auto simp: flush_def put_zeta_def Let_def)
      have "kids_room C (card (dom (ctx_session_map ?w)) + length order)"
        by (rule kids_room_mono [OF Cons.prems(4)]) (use room(1) m in simp)
      from Cons.IH [OF one(1) [OF disjI2 [OF refl]] m(2) _ this rest] Cons.prems(3) heap False r Some show ?thesis
        by (simp split: if_splits)
    qed
  qed
qed

lemma context_service_result:
  assumes C: "crypto_sized C" and w: "world_wf w" and d: "distinct order"
    and k: "kids_room C (card (dom (ctx_session_map w)) + length order)"
  shows "if \<exists>s \<in> set order. \<exists>z. ctx_heap w s = Some z \<and> expiry_due (fst (time_now A w)) z
    then fst (Context_service C A send_to order w) = Panic else \<exists>t. fst (Context_service C A send_to order w) = Ok t"
proof -
  obtain now w1 where t: "time_now A (w\<lparr>ctx_sessions_borrowed := True\<rparr>) = (now, w1)" by fastforce
  have w1: "world_wf (w1\<lparr>ctx_sessions_borrowed := False\<rparr>)" "ctx_sessions_borrowed w1" "ctx_heap w1 = ctx_heap w"
    "ctx_session_map w1 = ctx_session_map w" "now = fst (time_now A w)"
    using w t by (auto simp: time_now_def world_wf_def split: prod.splits)
  obtain q o2 w2 where s: "service_sessions C send_to now order I64_MAX w1 = (q, o2, w2)" by (metis surj_pair)
  from service_sessions_result [OF C w1(1,2) d _ s] k w1 t s show ?thesis
    by (auto simp: Context_service_def Let_def split: if_splits)
qed


section \<open>Reachable contexts\<close>

lemma expire_close_wf:
  assumes "world_wf w" "ctx_heap w s = Some z" "expire u z w = (r, z', w')"
  shows "world_wf (put_zeta s z' w')"
proof -
  have z: "zeta_wf z" using world_wf_heap [OF assms(1,2)] by simp
  have "w_sent (put_zeta s z' w') = []"
    using expire_effect(2) [OF assms(3)] assms(1) by (simp add: put_zeta_def world_wf_def)
  with progress_put_wf [OF assms(1,2) close_progress [OF z assms(3)] expire_tables [OF assms(3)]] show ?thesis
    by (simp add: world_wf_sending_def world_wf_def)
qed

lemma session_expire_wf:
  assumes w: "world_wf w" and r: "Session_expire s w = (r, w')"
  shows "world_wf w'"
proof (cases "ctx_heap w s")
  case None
  with w r show ?thesis by (simp add: Session_expire_def)
next
  case (Some z)
  obtain r1 z1 w1 where e: "expire True z w = (r1, z1, w1)" by (metis surj_pair)
  have "w' = put_zeta s z1 w1" using r Some e by (auto simp: Session_expire_def put_zeta_def expire_def Let_def split: if_splits)
  with expire_close_wf [OF w Some e] show ?thesis by simp
qed

lemma session_drop_wf:
  assumes w: "world_wf w" and r: "Session_drop s w = (r, w')"
  shows "world_wf w'"
proof -
  obtain r1 w1 where e: "Session_expire s w = (r1, w1)" by fastforce
  have "world_wf w1" by (rule session_expire_wf [OF w e])
  moreover have "w' = w1\<lparr>ctx_heap := (ctx_heap w1)(s := None)\<rparr>"
    using r e by (auto simp: Session_drop_def Session_expire_def expire_def Let_def split: option.splits prod.splits if_splits)
  ultimately show ?thesis by (auto simp: world_wf_def split: if_splits)
qed

lemma reachable_world_wf:
  assumes "layer_ok C" "app_sized A" "reachable C A w"
  shows "world_wf w"
  using assms(3)
proof (induction rule: reachable.induct)
  case (start secret rng a)
  then show ?case
    by (auto simp: Context_new_def world_wf_def tables_wf_def defrag_wf_def DefragBuffer_new_def split: prod.splits)
next
  case (toggle w b)
  then show ?case by (simp add: enable_challenge_def world_wf_def)
next
  case (opened w send mtu pk d ident r out w')
  then show ?case using context_open_wf [OF _ assms(2)] assms(1) by (metis layer_ok_def)
next
  case (received w reply send_to addr raw rr out w')
  then show ?case using context_receive_wf [OF assms(1)] by metis
next
  case (sent w s send mtu payload rs out w')
  then show ?case using context_send_wf(1) assms(1) by (metis layer_ok_def)
next
  case (serviced w order send_to rv out w')
  then show ?case using context_service_wf(1) assms(1) by (metis layer_ok_def)
next
  case (expired w s re w')
  then show ?case using session_expire_wf by metis
next
  case (dropped w s re w')
  then show ?case using session_drop_wf by metis
next
  case (app_changed w a)
  then show ?case by (simp add: world_wf_def)
qed


section \<open>Concrete contexts\<close>

lemma sample_world_reachable: "reachable sample_crypto sample_app sample_world"
  unfolding sample_world_def by (rule reachable.start)

lemma sample_world_wf: "world_wf sample_world"
  by (rule reachable_world_wf [OF sample_layer_ok sample_app_sized sample_world_reachable])

text \<open>A context that holds one session.\<close>

definition sample_world_with :: "(u8, unit) zeta_automata \<Rightarrow> (u8, u8, nat, unit, unit, sample_app_state) world" where
  "sample_world_with b = sample_world\<lparr>ctx_heap := [0 \<mapsto> sample_zeta b], ctx_next_session := 1,
     ctx_session_map := [10 \<mapsto> 0], ctx_sessions := {0}\<rparr>"

lemma sample_world_with_wf: "b \<in> {S1, S2, R2 k, R1 n e k, Null} \<Longrightarrow> world_wf (sample_world_with b)"
  using sample_world_wf sample_zeta_wf [of b k n e]
  by (auto simp: world_wf_def tables_wf_def sample_world_with_def split: if_splits)

text \<open>Three sessions; the one that is due is visited last.\<close>

definition sample_world_three :: "(u8, u8, nat, unit, unit, sample_app_state) world" where
  "sample_world_three = sample_world\<lparr>ctx_heap := [0 \<mapsto> sample_zeta S2, 1 \<mapsto> sample_zeta Null, 2 \<mapsto> sample_zeta S1],
     ctx_next_session := 3, ctx_session_map := [10 \<mapsto> 0, 11 \<mapsto> 2], ctx_sessions := {0, 2}\<rparr>"

lemma sample_world_three_wf: "world_wf sample_world_three"
  using sample_world_wf sample_zeta_wf [of S2] sample_zeta_wf [of Null] sample_zeta_wf [of S1]
  by (auto simp: world_wf_def tables_wf_def sample_world_three_def split: if_splits)

text \<open>A packet to key id zero with one fragment, of type hello and with an empty body.\<close>

definition sample_short_hello :: bytes where
  "sample_short_hello = [0, 0, 0, 0, 0, 1, 0, 0, 0, 0, 0, 0, 0, 0, 0, 0] @ replicate 16 9"

lemma sample_short_hello_short: "short_hello sample_crypto sample_app sample_short_hello sample_world"
  by (simp add: short_hello_def sample_short_hello_def time_now_def sample_world_def Context_new_def
      ChallengeContext_new_def sample_app_def sample_app_init_def received_fragment_def DefragBuffer_new_def
      decrypt_header_def store_fragment_def hello_vrfy_def from_nonce_def subslice_def Let_def
      u32_from_be_bytes_def nat_of_be_def zssp_sizes split: prod.splits)

section \<open>Properties\<close>

text \<open>C1: Every context that a program can reach, by any sequence of opens, packets with any bytes,
  sends, services and closes, is well formed. No borrow is left over and no packet waits to be
  sent; all its sessions satisfy the session invariant (window, ratchet states, defragmentation
  buffer, the keys and packets the automaton needs) and have ids the context has given out; the
  map of key ids holds no id zero and, like the set of sessions, names only sessions the context
  has made; every pending handshake is filed under its own key id, which is not zero, with a
  well-formed defragmentation buffer, and so is the buffer for hellos.\<close>

theorem reachable_contexts_wf:
  assumes "layer_ok C" "app_sized A" "reachable C A w"
  shows "\<not> ctx_sessions_borrowed w \<and> w_sent w = [] \<and>
    (\<forall>s z. ctx_heap w s = Some z \<longrightarrow> zeta_wf z \<and> s < ctx_next_session w) \<and>
    (\<forall>kid s. ctx_session_map w kid = Some s \<longrightarrow> kid \<noteq> 0 \<and> s < ctx_next_session w) \<and>
    ctx_sessions w \<subseteq> {..<ctx_next_session w} \<and>
    (\<forall>kid b2. ctx_b2_map w kid = Some b2 \<longrightarrow> b2_kid_recv b2 = kid \<and> kid \<noteq> 0 \<and> defrag_wf (b2_defrag b2)) \<and>
    defrag_wf (ctx_hello_defrag w)"
  using reachable_world_wf [OF assms] unfolding world_wf_def tables_wf_def b2_wf_def by blast

text \<open>A context that has opened a session.\<close>

definition sample_world_opened :: "(u8, u8, nat, unit, unit, sample_app_state) world" where
  "sample_world_opened = snd (snd (Context_open sample_crypto sample_app (\<lambda>_. True) 1400 5 () [1, 2] sample_world))"

lemma sample_world_opened_reachable: "reachable sample_crypto sample_app sample_world_opened"
proof -
  obtain r out w where o: "Context_open sample_crypto sample_app (\<lambda>_. True) 1400 5 () [1, 2] sample_world = (r, out, w)"
    by (metis surj_pair)
  from reachable.opened [OF sample_world_reachable this] show ?thesis by (simp add: sample_world_opened_def o)
qed

lemma sample_world_opened_fields: "\<exists>kid z. ctx_session_map sample_world_opened = [kid \<mapsto> 0] \<and> ctx_heap sample_world_opened = [0 \<mapsto> z]"
proof -
  obtain kid g where k: "gen_kid sample_crypto (Map.empty :: u32 \<rightharpoonup> session_id) (ctx_rng sample_world) = Some (kid, g)"
    using kids_liveD [OF sample_kids_live] by blast
  have w: "ctx_session_map sample_world = Map.empty" "ctx_heap sample_world = Map.empty" "ctx_next_session sample_world = 0"
    by (simp_all add: sample_world_def Context_new_def split: prod.splits)
  obtain q a where q: "app_restore_by_identity sample_app 5 () sample_app_init = (Inr q, a)" by (simp add: sample_app_def)
  define rss where "rss = (case q of None \<Rightarrow> new_initial_states | Some rss \<Rightarrow> rss)"
  obtain a1 g1 where a1: "create_a1_state sample_crypto g 5 kid (rss_state1 rss) (rss_state2 rss) [1, 2] = (a1, g1)" by fastforce
  obtain hr hs where h: "get_ask sample_crypto (a1_noise a1) LABEL_HEADER_KEY = (hr, hs)" by fastforce
  have "\<exists>w'. trans_to_a1 sample_crypto sample_app 5 () [1, 2] sample_world = (Ok 0, w') \<and>
      ctx_session_map w' = [kid \<mapsto> 0] \<and> (\<exists>z. ctx_heap w' = [0 \<mapsto> z])"
    using k a1 h by (auto simp: trans_to_a1_def w q rss_def [symmetric] register_session_def time_now_def emit_def Let_def
        split: prod.splits)
  then show ?thesis by (auto simp: sample_world_opened_def Context_open_def flush_def zssp_sizes Let_def)
qed

theorem reachable_contexts_wf_witness:
  "\<exists>kid z. ctx_session_map sample_world_opened = [kid \<mapsto> 0] \<and> kid \<noteq> 0 \<and> ctx_heap sample_world_opened 0 = Some z \<and> zeta_wf z \<and>
     \<not> ctx_sessions_borrowed sample_world_opened \<and> defrag_wf (ctx_hello_defrag sample_world_opened)"
proof -
  obtain kid z where o: "ctx_session_map sample_world_opened = [kid \<mapsto> 0]" "ctx_heap sample_world_opened = [0 \<mapsto> z]"
    using sample_world_opened_fields by blast
  with reachable_contexts_wf [OF sample_layer_ok sample_app_sized sample_world_opened_reachable] show ?thesis
    by (intro exI [of _ kid] exI [of _ z]) simp
qed

text \<open>C24: What can make \<open>receive\<close> panic. In a well-formed context a wire packet makes it panic
  exactly when the packet is shorter than a key id or completes a hello that is shorter than
  the challenge it should end with; no packet for a session or a pending handshake ever does.
  The context stays well formed in every case.\<close>

theorem receive_panics_exactly:
  assumes "layer_ok C" "world_wf w" "Context_receive C A reply send_to addr raw w = (r, out, w')"
  shows "world_wf w' \<and> (r = Panic \<longleftrightarrow> length raw < KID_SIZE \<or> short_hello C A raw w)"
  using assms by (rule context_receive_wf)

theorem receive_panics_exactly_witness:
  "fst (Context_receive sample_crypto sample_app (\<lambda>_. True, 1500) (\<lambda>_. None) [1] sample_short_hello sample_world) = Panic \<and>
   fst (Context_receive sample_crypto sample_app (\<lambda>_. True, 1500) (\<lambda>_. None) [1] [1, 2] sample_world) = Panic \<and>
   fst (Context_receive sample_crypto sample_app (\<lambda>_. True, 1500) (\<lambda>_. None) [1] ([0, 0, 0, 10] @ replicate 36 10) sample_world) \<noteq> Panic"
proof -
  have "fst (Context_receive sample_crypto sample_app (\<lambda>_. True, 1500) (\<lambda>_. None) [1] raw sample_world) = Panic \<longleftrightarrow>
    length raw < KID_SIZE \<or> short_hello sample_crypto sample_app raw sample_world" for raw
  proof -
    obtain r out w' where r: "Context_receive sample_crypto sample_app (\<lambda>_. True, 1500) (\<lambda>_. None) [1] raw sample_world
      = (r, out, w')" by (metis surj_pair)
    from receive_panics_exactly [OF sample_layer_ok sample_world_wf r] r show ?thesis by simp
  qed
  moreover have "\<not> short_hello sample_crypto sample_app ([0, 0, 0, 10] @ replicate 36 10) sample_world"
    by (simp add: short_hello_def u32_from_be_bytes_def nat_of_be_def zssp_sizes)
  ultimately show ?thesis using sample_short_hello_short by (simp add: zssp_sizes)
qed

text \<open>Opening a session and sending data never panic in a well-formed context and keep it well
  formed, whatever MTU, identity or payload the caller passes.\<close>

theorem open_send_never_panic:
  assumes "layer_ok C" "app_sized A" "world_wf w"
    and "Context_open C A send mtu pk d ident w = (r1, out1, w1)"
    and "Context_send C s send mtu payload w = (r2, out2, w2)"
  shows "world_wf w1 \<and> r1 \<noteq> Panic \<and> world_wf w2 \<and> r2 \<noteq> Panic"
  using context_open_wf [OF _ assms(2,3,4)] context_send_wf [OF _ assms(3,5)] assms(1) by (simp add: layer_ok_def)

theorem open_send_never_panic_witness:
  "fst (Context_open sample_crypto sample_app (\<lambda>_. True) 0 7 () [1] (sample_world_with S2)) \<noteq> Panic \<and>
   fst (Context_send sample_crypto 0 (\<lambda>_. True) 0 [] (sample_world_with S2)) \<noteq> Panic"
proof -
  obtain r1 out1 w1 where a: "Context_open sample_crypto sample_app (\<lambda>_. True) 0 7 () [1] (sample_world_with S2)
    = (r1, out1, w1)" by (metis surj_pair)
  obtain r2 out2 w2 where b: "Context_send sample_crypto 0 (\<lambda>_. True) 0 [] (sample_world_with S2) = (r2, out2, w2)"
    by (metis surj_pair)
  from open_send_never_panic [OF sample_layer_ok sample_app_sized sample_world_with_wf a b] a b
  show ?thesis by simp
qed

text \<open>C30: What makes the periodic service panic. It panics only when some session in state S1, R1 or R2
  has timed out: the timeout expires the session, which borrows the table of sessions that the
  loop holds. As long as the generator finds a fresh key id for every session the service
  visits, it always panics then, wherever that session comes in the order of the visits, and
  returns the time to the next call otherwise.\<close>

theorem service_panics_on_expiry:
  assumes "layer_ok C" "world_wf w" "distinct order"
  shows "(fst (Context_service C A send_to order w) = Panic \<longrightarrow>
      (\<exists>s \<in> set order. \<exists>z. ctx_heap w s = Some z \<and> expiry_due (fst (time_now A w)) z)) \<and>
    (kids_room C (card (dom (ctx_session_map w)) + length order) \<longrightarrow>
      (if \<exists>s \<in> set order. \<exists>z. ctx_heap w s = Some z \<and> expiry_due (fst (time_now A w)) z
       then fst (Context_service C A send_to order w) = Panic
       else \<exists>t. fst (Context_service C A send_to order w) = Ok t))"
proof -
  have C: "crypto_sized C" using assms(1) by (simp add: layer_ok_def)
  obtain r out w' where r: "Context_service C A send_to order w = (r, out, w')" by (metis surj_pair)
  show ?thesis
  proof (intro conjI impI)
    show "\<exists>s \<in> set order. \<exists>z. ctx_heap w s = Some z \<and> expiry_due (fst (time_now A w)) z"
      if "fst (Context_service C A send_to order w) = Panic"
      using context_service_wf(2) [OF C assms(2,3) r] that r by simp
  qed (rule context_service_result [OF C assms(2,3)])
qed

theorem service_panics_on_expiry_witness:
  "fst (Context_service sample_crypto (sample_app\<lparr>app_time := \<lambda>a. (9000, a)\<rparr>) (\<lambda>_. None) [1, 0, 2] sample_world_three) = Panic \<and>
   (\<exists>t. fst (Context_service sample_crypto (sample_app\<lparr>app_time := \<lambda>a. (9000, a)\<rparr>) (\<lambda>_. None) [1, 0] sample_world_three) = Ok t)"
proof -
  let ?A = "sample_app\<lparr>app_time := \<lambda>a. (9000, a)\<rparr>"
  have h: "ctx_heap sample_world_three 0 = Some (sample_zeta S2)" "ctx_heap sample_world_three 1 = Some (sample_zeta Null)"
    "ctx_heap sample_world_three 2 = Some (sample_zeta S1)" "fst (time_now ?A sample_world_three) = 9000"
    "\<not> expiry_due 9000 (sample_zeta S2)" "\<not> expiry_due 9000 (sample_zeta Null)" "expiry_due 9000 (sample_zeta S1)"
    by (simp_all add: sample_world_three_def expiry_due_def time_now_def) (simp add: sample_zeta_def)
  have k: "kids_room sample_crypto (card (dom (ctx_session_map sample_world_three)) + n)" if "n \<le> 3" for n
    by (rule sample_kids_room) (use that in \<open>simp add: sample_world_three_def card_insert_if\<close>)
  from service_panics_on_expiry [OF sample_layer_ok sample_world_three_wf, of "[1, 0, 2]" ?A "\<lambda>_. None"]
    service_panics_on_expiry [OF sample_layer_ok sample_world_three_wf, of "[1, 0]" ?A "\<lambda>_. None"] h k [of "Suc (Suc (Suc 0))"] k [of 2]
  show ?thesis by simp
qed

end
