(* ===== verification/Delivery.thy ===== *)
theory Delivery
  imports Context_Safety
begin

text \<open>
  Whole packets over the wire: the fragments that one context hands to its sender reach the
  other through \<open>Context::receive\<close> of \<open>reference/src/context.rs\<close>, in any order. A context
  waits for a packet in one of three places: the buffer of a session, the buffer of a pending
  handshake, and the buffer for hellos and challenges. \<open>fragment_endpoint\<close> is what the three
  have in common; from it the delivery of a whole packet is proved once.
\<close>

section \<open>Definitions\<close>

text \<open>A sequence of arrivals: the results, what was sent in reply, and the new world.\<close>

primrec deliver :: "(bytes \<Rightarrow> 'w \<Rightarrow> 'r \<times> bytes list \<times> 'w) \<Rightarrow> bytes list \<Rightarrow> 'w \<Rightarrow> 'r list \<times> bytes list \<times> 'w" where
  "deliver receive [] w = ([], [], w)"
| "deliver receive (f # fs) w =
     (case receive f w of (r, out, w) \<Rightarrow>
        (case deliver receive fs w of (rs, outs, w) \<Rightarrow> (r # rs, out @ outs, w)))"

text \<open>The buffers agree on the header key and on every packet but \<open>n\<close>.\<close>

definition same_but :: "bytes \<Rightarrow> defrag_buffer \<Rightarrow> defrag_buffer \<Rightarrow> bool" where
  "same_but n d d' \<longleftrightarrow> db_hk_recv d' = db_hk_recv d \<and> (\<forall>m. m \<noteq> n \<longrightarrow> db_fragment_map d' m = db_fragment_map d m)"

text \<open>An application whose clock was read some number of times.\<close>

definition ticked :: "('pk, 'd, 'a) application_layer \<Rightarrow> 'a \<Rightarrow> 'a \<Rightarrow> bool" where
  "ticked A a a' \<longleftrightarrow> (\<exists>k. a' = ((\<lambda>a. snd (app_time A a)) ^^ k) a)"

text \<open>
  The three places. The world differs from \<open>w0\<close> in the clock and the buffer only, and has
  nothing to send.
\<close>

definition session_waiting ::
  "('pk, 'd, 'a) application_layer \<Rightarrow> u32 \<Rightarrow> session_id \<Rightarrow> ('pk, 'kp, 'kem, 'd) zeta
     \<Rightarrow> ('pk, 'kp, 'r, 'kem, 'd, 'a) world \<Rightarrow> defrag_buffer \<Rightarrow> ('pk, 'kp, 'r, 'kem, 'd, 'a) world \<Rightarrow> bool" where
  "session_waiting A kid s z w0 d w \<longleftrightarrow> kid \<noteq> 0 \<and> ctx_session_map w0 kid = Some s \<and> w_sent w0 = [] \<and>
     (\<exists>a. ticked A (w_app w0) a \<and> w = w0\<lparr>w_app := a, ctx_heap := (ctx_heap w0)(s \<mapsto> z\<lparr>z_defrag := d\<rparr>)\<rparr>)"

definition b2_waiting ::
  "('pk, 'd, 'a) application_layer \<Rightarrow> u32 \<Rightarrow> 'kp state_b2
     \<Rightarrow> ('pk, 'kp, 'r, 'kem, 'd, 'a) world \<Rightarrow> defrag_buffer \<Rightarrow> ('pk, 'kp, 'r, 'kem, 'd, 'a) world \<Rightarrow> bool" where
  "b2_waiting A kid b2 w0 d w \<longleftrightarrow> kid \<noteq> 0 \<and> ctx_session_map w0 kid = None \<and> w_sent w0 = [] \<and>
     (\<exists>a. ticked A (w_app w0) a \<and> w = w0\<lparr>w_app := a, ctx_b2_map := (ctx_b2_map w0)(kid \<mapsto> b2\<lparr>b2_defrag := d\<rparr>)\<rparr>)"

definition hello_waiting ::
  "('pk, 'd, 'a) application_layer
     \<Rightarrow> ('pk, 'kp, 'r, 'kem, 'd, 'a) world \<Rightarrow> defrag_buffer \<Rightarrow> ('pk, 'kp, 'r, 'kem, 'd, 'a) world \<Rightarrow> bool" where
  "hello_waiting A w0 d w \<longleftrightarrow> w_sent w0 = [] \<and>
     (\<exists>a. ticked A (w_app w0) a \<and> w = w0\<lparr>w_app := a, ctx_hello_defrag := d\<rparr>)"

text \<open>A session registered under a key id, in a world with nothing to send.\<close>

definition session_held :: "u32 \<Rightarrow> session_id \<Rightarrow> ('pk, 'kp, 'kem, 'd) zeta \<Rightarrow> ('pk, 'kp, 'r, 'kem, 'd, 'a) world \<Rightarrow> bool" where
  "session_held kid s z w \<longleftrightarrow> kid \<noteq> 0 \<and> ctx_session_map w kid = Some s \<and> ctx_heap w s = Some z \<and> w_sent w = []"

section \<open>One packet\<close>

text \<open>The nonce on the wire.\<close>

lemma packet_nonce [simp]:
  "from_nonce (to_packet_nonce (to_nonce p c)) = (p, c)"
  "to_aes_nonce (to_packet_nonce (to_nonce p c)) = to_nonce p c"
  "length (to_packet_nonce (to_nonce p c)) = 10"
  by (simp_all add: from_nonce_def to_aes_nonce_def to_packet_nonce_def to_nonce_def Let_def zssp_sizes write_at_def
    numeral_eq_Suc)

lemma packet_nonce_type: "p \<noteq> q \<Longrightarrow> to_packet_nonce (to_nonce p c) \<noteq> to_packet_nonce (to_nonce q c')"
  by (metis packet_nonce(1) prod.inject)

lemma same_but_refl [simp]: "same_but n d d"
  by (simp add: same_but_def)

lemma same_but_trans: "same_but n d d' \<Longrightarrow> same_but n d' d'' \<Longrightarrow> same_but n d d''"
  by (simp add: same_but_def)

lemma store_fragment_same_but:
  "store_fragment d n raw no cnt t = (r, d') \<Longrightarrow> same_but n d d'"
  by (auto simp: store_fragment_def same_but_def Let_def split: option.splits if_splits)

text \<open>
  The interface: while the endpoint holds a buffer, an incomplete packet leaves it waiting
  with the new buffer, and a complete packet is handed to the rest of the endpoint.
\<close>

locale fragment_endpoint =
  fixes C :: "('pk, 'kp, 'r, 'kem) crypto_layer"
    and receive :: "bytes \<Rightarrow> 'w \<Rightarrow> ('e, 'x) outcome \<times> bytes list \<times> 'w"
    and kid :: u32 and vrfy :: "bytes \<Rightarrow> nat \<Rightarrow> nat \<Rightarrow> receive_error option"
    and time :: "'w \<Rightarrow> i64" and waiting :: "defrag_buffer \<Rightarrow> 'w \<Rightarrow> bool" and quiet :: 'x
    and complete :: "defrag_buffer \<Rightarrow> 'w \<Rightarrow> bytes \<Rightarrow> bytes \<Rightarrow> ('e, 'x) outcome \<times> bytes list \<times> 'w"
  assumes incomplete: "waiting d w \<Longrightarrow> KID_SIZE \<le> length f \<Longrightarrow> take KID_SIZE f = u32_to_be_bytes kid \<Longrightarrow>
      received_fragment C d f (time w) vrfy = (Ok None, d') \<Longrightarrow> \<exists>w'. receive f w = (Ok quiet, [], w') \<and> waiting d' w'"
    and completed: "waiting d w \<Longrightarrow> KID_SIZE \<le> length f \<Longrightarrow> take KID_SIZE f = u32_to_be_bytes kid \<Longrightarrow>
      received_fragment C d f (time w) vrfy = (Ok (Some (n, p)), d') \<Longrightarrow>
      \<exists>w'. receive f w = complete d' w' n p \<and> waiting d w'"
begin

lemma deliver_pieces:
  assumes frag: "\<And>k. k < cnt \<Longrightarrow> decrypt_header C hk (frag k) = fragment_plain kid n packet cnt k"
      "\<And>k. k < cnt \<Longrightarrow> 32 \<le> length (frag k)" "\<And>k. k < cnt \<Longrightarrow> take KID_SIZE (frag k) = u32_to_be_bytes kid"
    and cnt: "2 \<le> cnt" "cnt \<le> 48" and n: "length n = 10" and v: "\<And>k. k < cnt \<Longrightarrow> vrfy n k cnt = None"
    and d: "assembling d n (fragment_plain kid n packet cnt) cnt S" "db_hk_recv d = hk" "S \<subseteq> {..<cnt}"
    and ks: "distinct ks" "set ks = {..<cnt} - S" "ks \<noteq> []" and w: "waiting d w"
  shows "\<exists>d0 d' w' r out w''. waiting d0 w' \<and> same_but n d d' \<and> complete d' w' n packet = (r, out, w'') \<and>
    deliver receive (map frag ks) w = (replicate (length ks - 1) (Ok quiet) @ [r], out, w'')"
  using d ks w
proof (induction ks arbitrary: d S w)
  case Nil
  then show ?case by simp
next
  case (Cons k ks)
  have k: "k < cnt" "k \<notin> S" using Cons.prems(5) by auto
  have kid: "KID_SIZE \<le> length (frag k)" using frag(2) [OF k(1)] by (simp add: zssp_sizes)
  have dec: "decrypt_header C (db_hk_recv d) (frag k) = fragment_plain kid n packet cnt k"
    using frag(1) [OF k(1)] Cons.prems(2) by simp
  obtain r d1 where st: "received_fragment C d (frag k) (time w) vrfy = (r, d1)" "db_hk_recv d1 = hk"
      "assembling d1 n (fragment_plain kid n packet cnt) cnt (insert k S)"
      "r = (if card S + 1 < cnt then Ok None else Ok (Some (n, packet)))"
    using assembling_step [where vrfy = vrfy, OF dec frag(2) [OF k(1)] cnt n v [OF k(1)] Cons.prems(1,3) k] Cons.prems(2) by metis
  have same: "same_but n d d1"
    using received_fragment_piece [where vrfy = vrfy and t = "time w", OF dec frag(2) [OF k(1)] k(1) cnt(2) n v [OF k(1)]]
      st(1) store_fragment_same_but by metis
  have fin: "finite S" using Cons.prems(3) finite_subset by blast
  have card: "card S + length (k # ks) = cnt"
    using card_Un_disjoint [of S "set (k # ks)"] distinct_card [OF Cons.prems(4)] Cons.prems(3,5) fin
    by (metis Diff_disjoint List.finite_set Un_Diff_cancel card_lessThan sup.absorb2)
  show ?case
  proof (cases "ks = []")
    case True
    then have "received_fragment C d (frag k) (time w) vrfy = (Ok (Some (n, packet)), d1)" using st(1,4) card by simp
    from completed [OF Cons.prems(7) kid frag(3) [OF k(1)] this] obtain w' where
      w': "receive (frag k) w = complete d1 w' n packet" "waiting d w'" by blast
    obtain r' out w'' where c: "complete d1 w' n packet = (r', out, w'')" by (metis prod_cases3)
    show ?thesis using True w' c same by (intro exI [of _ d] exI [of _ d1] exI [of _ w']) simp
  next
    case False
    then have "received_fragment C d (frag k) (time w) vrfy = (Ok None, d1)" using st(1,4) card by (cases ks) simp_all
    from incomplete [OF Cons.prems(7) kid frag(3) [OF k(1)] this] obtain w' where
      w': "receive (frag k) w = (Ok quiet, [], w')" "waiting d1 w'" by blast
    have "insert k S \<subseteq> {..<cnt}" "distinct ks" "set ks = {..<cnt} - insert k S" using Cons.prems(3-5) k by auto
    from Cons.IH [OF st(3,2) this False w'(2)] obtain d0 d' w1 r' out w'' where
      "waiting d0 w1" "same_but n d1 d'" "complete d' w1 n packet = (r', out, w'')"
      "deliver receive (map frag ks) w' = (replicate (length ks - 1) (Ok quiet) @ [r'], out, w'')" by blast
    with False w'(1) same same_but_trans [OF same] show ?thesis
      by (intro exI [of _ d0] exI [of _ d'] exI [of _ w1] exI [of _ r'] exI [of _ out] exI [of _ w'']) (cases ks; simp)
  qed
qed

text \<open>A packet cut by a sender that takes every fragment, its fragments delivered in any order.\<close>

lemma deliver_packet:
  assumes C: "crypto_correct C pub_of" "crypto_sized C"
    and p: "MIN_TRANSPORT_MTU \<le> mtu" "AES_GCM_TAG_SIZE \<le> length packet" "length n = PACKET_NONCE_SIZE"
    and s: "send_with_fragmentation C (\<lambda>_. True) mtu kid n packet hk = (Ok (), frags)" "mset fs = mset frags"
    and v: "\<And>k. k < length frags \<Longrightarrow> vrfy n k (length frags) = None"
    and d: "waiting d w" "db_hk_recv d = hk" "db_fragment_map d n = None"
  shows "\<exists>d0 d' w' r out w''. waiting d0 w' \<and> same_but n d d' \<and> complete d' w' n packet = (r, out, w'') \<and>
    deliver receive fs w = (replicate (length frags - 1) (Ok quiet) @ [r], out, w'')"
proof -
  have s': "mset (map snd (map (\<lambda>f. (0 :: i64, f)) fs)) = mset frags" using s(2) by (simp add: multiset.map_comp comp_def)
  obtain cnt frag tks where f: "frags = map frag [0..<cnt]" "0 < cnt" "cnt \<le> 48"
    "\<And>k. k < cnt \<Longrightarrow> decrypt_header C hk (frag k) = fragment_plain kid n packet cnt k"
    "\<And>k. k < cnt \<Longrightarrow> 32 \<le> length (frag k)" "\<And>k. k < cnt \<Longrightarrow> take KID_SIZE (frag k) = u32_to_be_bytes kid"
    "map (\<lambda>f. (0 :: i64, f)) fs = map (\<lambda>(t, k). (t, frag k)) tks" "distinct (map snd tks)" "snd ` set tks = {..<cnt}" "length tks = cnt"
    by (rule sent_pieces [OF C p s(1) s']) blast
  have "map snd (map (\<lambda>f. (0 :: i64, f)) fs) = map snd (map (\<lambda>(t, k). (t, frag k)) tks)" using f(7) by simp
  then have fs: "fs = map frag (map snd tks)" by (simp add: comp_def case_prod_beta)
  have n: "length n = 10" using p(3) by (simp add: zssp_sizes)
  have v': "vrfy n k cnt = None" if "k < cnt" for k using v [of k] f(1) that by simp
  show ?thesis
  proof (cases "cnt = 1")
    case True
    obtain tk where tk: "tks = [tk]" using f(10) True by (auto simp: length_Suc_conv)
    have tks: "fs = [frag 0]" using f(9) True by (simp add: fs tk lessThan_Suc)
    have "decrypt_header C (db_hk_recv d) (frag 0) = fragment_plain kid n packet 1 0" using f(4) [of 0] True d(2) by simp
    from received_fragment_piece [where vrfy = vrfy and t = "time w", OF this] f(5) [of 0] v' [of 0] True n d(3)
    have r: "received_fragment C d (frag 0) (time w) vrfy = (Ok (Some (n, packet)), d)"
      by (simp add: store_fragment_def Let_def fragment_plain_def zssp_sizes fragment_payload_def fragment_start_def subslice_def)
    have "KID_SIZE \<le> length (frag 0)" "take KID_SIZE (frag 0) = u32_to_be_bytes kid"
      using f(5,6) [of 0] True by (simp_all add: zssp_sizes)
    from completed [OF d(1) this r] obtain w' where w': "receive (frag 0) w = complete d w' n packet" "waiting d w'" by blast
    obtain r' out w'' where c: "complete d w' n packet = (r', out, w'')" by (metis prod_cases3)
    show ?thesis using True tks w' c f(1) by (intro exI [of _ d] exI [of _ d] exI [of _ w']) simp
  next
    case False
    with f(2) have cnt: "2 \<le> cnt" by simp
    have "assembling d n (fragment_plain kid n packet cnt) cnt {}" using d(3) by (simp add: assembling_def)
    from deliver_pieces [where frag = frag and hk = hk, OF f(4-6) cnt f(3) n v' this d(2), of "map snd tks" w] f(1,2,8-10) d(1)
    show ?thesis by (auto simp: fs)
  qed
qed

end

section \<open>The senders\<close>

text \<open>A packet of at most 48 pieces of the smallest size goes out whole, whatever the MTU.\<close>

lemma flush_one:
  assumes "crypto_sized C" "w_sent w = [(Packet kid n x, hk)]" "length n = AES_GCM_NONCE_SIZE"
    and "AES_GCM_TAG_SIZE \<le> length x" "length x \<le> MAX_FRAGMENTS * (MIN_TRANSPORT_MTU - HEADER_SIZE)"
  shows "\<exists>frags. flush C (Some (\<lambda>_. True, mtu)) (r, w) = (r, frags, w\<lparr>w_sent := []\<rparr>) \<and>
    send_with_fragmentation C (\<lambda>_. True) (max mtu MIN_TRANSPORT_MTU) kid (to_packet_nonce n) x hk = (Ok (), frags)"
proof -
  let ?mtu = "max mtu MIN_TRANSPORT_MTU"
  have mtu: "MIN_TRANSPORT_MTU \<le> ?mtu" "HEADER_SIZE < ?mtu" by (simp_all add: zssp_sizes)
  have x: "16 \<le> length x" "0 < length x" "length (to_packet_nonce n) = 10"
    using assms(3,4) by (auto simp: zssp_sizes to_packet_nonce_def simp flip: length_greater_0_conv)
  have "length x \<le> 48 * (?mtu - HEADER_SIZE)"
    by (rule order_trans [OF assms(5)]) (auto simp: zssp_sizes)
  then have c: "fragment_count_of ?mtu (length x) \<le> 48" using fragment_count_limit [OF mtu(2) x(2)] by linarith
  obtain frag where "send_with_fragmentation C (\<lambda>_. True) ?mtu kid (to_packet_nonce n) x hk =
      (Ok (), map frag [0..<fragment_count_of ?mtu (length x)])"
    using send_with_fragmentation_pieces [OF mtu(1) x(1,3) refl c assms(1)] by metis
  then show ?thesis using assms(2) by (auto simp: flush_def transmit_packet_def Let_def)
qed

section \<open>The endpoints of a context\<close>

lemma ticked_refl [simp]: "ticked A a a"
  unfolding ticked_def by (intro exI [of _ 0]) simp

lemma ticked_step: "ticked A a a' \<Longrightarrow> app_time A a' = (t, a'') \<Longrightarrow> ticked A a a''"
  unfolding ticked_def by (metis comp_apply funpow.simps(2) snd_conv)

lemma flush_quiet [simp]: "w_sent w = [] \<Longrightarrow> flush C sender (r, w) = (r, [], w)"
  by (cases w) (simp add: flush_def)

interpretation at_session: fragment_endpoint C "Context_receive C A reply send_to addr" kid "session_vrfy z"
  "\<lambda>w. fst (app_time A (w_app w))" "session_waiting A kid s z w0" Unassociated
  "\<lambda>d w n p. flush C (send_to s) (case dispatch C A s kid n p (z\<lparr>z_defrag := d\<rparr>) w of
     (r, z, w) \<Rightarrow> (map_outcome id (SessionOk s) r, put_zeta s z w))"
  for C :: "('pk, 'kp, 'r, 'kem) crypto_layer" and A :: "('pk, 'd, 'a) application_layer" and reply send_to addr kid z s w0
proof
  fix d w f d'
  assume w: "session_waiting A kid s z w0 d w" and f: "KID_SIZE \<le> length f" "take KID_SIZE f = u32_to_be_bytes kid"
    and r: "received_fragment C d f (fst (app_time A (w_app w))) (session_vrfy z) = (Ok None, d')"
  obtain t a where t: "app_time A (w_app w) = (t, a)" by fastforce
  show "\<exists>w'. Context_receive C A reply send_to addr f w = (Ok Unassociated, [], w') \<and> session_waiting A kid s z w0 d' w'"
    using w f r t ticked_step [of A "w_app w0" "w_app w" t a]
    by (cases w0) (auto simp: session_waiting_def session_vrfy_defrag Context_receive_def receive_session_def NonZeroU32_new_def time_now_def Let_def put_zeta_def)
next
  fix d w f n p d'
  assume w: "session_waiting A kid s z w0 d w" and f: "KID_SIZE \<le> length f" "take KID_SIZE f = u32_to_be_bytes kid"
    and r: "received_fragment C d f (fst (app_time A (w_app w))) (session_vrfy z) = (Ok (Some (n, p)), d')"
  obtain t a where t: "app_time A (w_app w) = (t, a)" by fastforce
  have "session_waiting A kid s z w0 d (w\<lparr>w_app := a\<rparr>)" using w ticked_step [OF _ t] by (cases w0) (auto simp: session_waiting_def)
  moreover have "Context_receive C A reply send_to addr f w = flush C (send_to s)
      (case dispatch C A s kid n p (z\<lparr>z_defrag := d'\<rparr>) (w\<lparr>w_app := a\<rparr>) of
        (r, z, w) \<Rightarrow> (map_outcome id (SessionOk s) r, put_zeta s z w))"
    using w f r t by (cases w0) (auto simp: session_waiting_def session_vrfy_defrag Context_receive_def receive_session_def NonZeroU32_new_def time_now_def Let_def)
  ultimately show "\<exists>w'. Context_receive C A reply send_to addr f w = flush C (send_to s)
      (case dispatch C A s kid n p (z\<lparr>z_defrag := d'\<rparr>) w' of (r, z, w) \<Rightarrow> (map_outcome id (SessionOk s) r, put_zeta s z w)) \<and>
      session_waiting A kid s z w0 d w'" by blast
qed

interpretation at_pending: fragment_endpoint C "Context_receive C A reply send_to addr" kid b2_vrfy
  "\<lambda>w. fst (app_time A (w_app w))" "b2_waiting A kid b2 w0" Unassociated
  "\<lambda>d w n p. flush C (Some reply)
     (case received_x3_trans C A (b2\<lparr>b2_defrag := d\<rparr>) kid p (w\<lparr>ctx_b2_map := (ctx_b2_map w)(kid := None)\<rparr>) of
        (r, w) \<Rightarrow> (map_outcome id (\<lambda>(session, warn). SessionOk session (if warn then NewDowngradedSession else NewSession)) r, w))"
  for C :: "('pk, 'kp, 'r, 'kem) crypto_layer" and A :: "('pk, 'd, 'a) application_layer" and reply send_to addr kid b2 w0
proof
  fix d w f d'
  assume w: "b2_waiting A kid b2 w0 d w" and f: "KID_SIZE \<le> length f" "take KID_SIZE f = u32_to_be_bytes kid"
    and r: "received_fragment C d f (fst (app_time A (w_app w))) b2_vrfy = (Ok None, d')"
  obtain t a where t: "app_time A (w_app w) = (t, a)" by fastforce
  show "\<exists>w'. Context_receive C A reply send_to addr f w = (Ok Unassociated, [], w') \<and> b2_waiting A kid b2 w0 d' w'"
    using w f r t ticked_step [of A "w_app w0" "w_app w" t a]
    by (cases w0) (auto simp: b2_waiting_def Context_receive_def receive_b2_def NonZeroU32_new_def time_now_def Let_def)
next
  fix d w f n p d'
  assume w: "b2_waiting A kid b2 w0 d w" and f: "KID_SIZE \<le> length f" "take KID_SIZE f = u32_to_be_bytes kid"
    and r: "received_fragment C d f (fst (app_time A (w_app w))) b2_vrfy = (Ok (Some (n, p)), d')"
  obtain t a where t: "app_time A (w_app w) = (t, a)" by fastforce
  let ?w = "w\<lparr>w_app := a\<rparr>"
  have "b2_waiting A kid b2 w0 d ?w" using w ticked_step [OF _ t] by (cases w0) (auto simp: b2_waiting_def)
  moreover have "Context_receive C A reply send_to addr f w = flush C (Some reply)
      (case received_x3_trans C A (b2\<lparr>b2_defrag := d'\<rparr>) kid p (?w\<lparr>ctx_b2_map := (ctx_b2_map ?w)(kid := None)\<rparr>) of
        (r, w) \<Rightarrow> (map_outcome id (\<lambda>(session, warn). SessionOk session (if warn then NewDowngradedSession else NewSession)) r, w))"
    using w f r t by (cases w0) (auto simp: b2_waiting_def Context_receive_def receive_b2_def NonZeroU32_new_def time_now_def Let_def)
  ultimately show "\<exists>w'. Context_receive C A reply send_to addr f w = flush C (Some reply)
      (case received_x3_trans C A (b2\<lparr>b2_defrag := d'\<rparr>) kid p (w'\<lparr>ctx_b2_map := (ctx_b2_map w')(kid := None)\<rparr>) of
        (r, w) \<Rightarrow> (map_outcome id (\<lambda>(session, warn). SessionOk session (if warn then NewDowngradedSession else NewSession)) r, w)) \<and>
      b2_waiting A kid b2 w0 d w'" by blast
qed

interpretation at_hello: fragment_endpoint C "Context_receive C A reply send_to addr" 0 hello_vrfy
  "\<lambda>w. fst (app_time A (w_app w))" "hello_waiting A w0" Unassociated
  "\<lambda>d w n p. flush C (Some reply)
     (let w = w\<lparr>ctx_hello_defrag := d\<rparr>
      in if fst (from_nonce n) = PACKET_TYPE_HANDSHAKE_HELLO then process_hello_packet C A addr n p w
         else if fst (from_nonce n) = PACKET_TYPE_CHALLENGE then process_challenge_packet C p w
         else (Err (fault InvalidPacket True), w))"
  for C :: "('pk, 'kp, 'r, 'kem) crypto_layer" and A :: "('pk, 'd, 'a) application_layer" and reply send_to addr w0
proof
  fix d w f d'
  assume w: "hello_waiting A w0 d w" and f: "KID_SIZE \<le> length f" "take KID_SIZE f = u32_to_be_bytes 0"
    and r: "received_fragment C d f (fst (app_time A (w_app w))) hello_vrfy = (Ok None, d')"
  obtain t a where t: "app_time A (w_app w) = (t, a)" by fastforce
  show "\<exists>w'. Context_receive C A reply send_to addr f w = (Ok Unassociated, [], w') \<and> hello_waiting A w0 d' w'"
    using w f r t ticked_step [of A "w_app w0" "w_app w" t a]
    by (cases w0) (auto simp: hello_waiting_def Context_receive_def receive_hello_def NonZeroU32_new_def time_now_def Let_def)
next
  fix d w f n p d'
  assume w: "hello_waiting A w0 d w" and f: "KID_SIZE \<le> length f" "take KID_SIZE f = u32_to_be_bytes 0"
    and r: "received_fragment C d f (fst (app_time A (w_app w))) hello_vrfy = (Ok (Some (n, p)), d')"
  obtain t a where t: "app_time A (w_app w) = (t, a)" by fastforce
  let ?K = "\<lambda>w. flush C (Some reply)
     (let w = w\<lparr>ctx_hello_defrag := d'\<rparr>
      in if fst (from_nonce n) = PACKET_TYPE_HANDSHAKE_HELLO then process_hello_packet C A addr n p w
         else if fst (from_nonce n) = PACKET_TYPE_CHALLENGE then process_challenge_packet C p w
         else (Err (fault InvalidPacket True), w))"
  have "hello_waiting A w0 d (w\<lparr>w_app := a\<rparr>)" using w ticked_step [OF _ t] by (cases w0) (auto simp: hello_waiting_def)
  moreover have "Context_receive C A reply send_to addr f w = ?K (w\<lparr>w_app := a\<rparr>)"
    using w f r t
    by (cases w0) (auto simp: hello_waiting_def Context_receive_def receive_hello_def NonZeroU32_new_def time_now_def Let_def case_prod_beta)
  ultimately show "\<exists>w'. Context_receive C A reply send_to addr f w = ?K w' \<and> hello_waiting A w0 d w'" by blast
qed

section \<open>A packet at each endpoint\<close>

lemma session_delivery:
  assumes C: "crypto_correct C pub_of" "crypto_sized C"
    and p: "MIN_TRANSPORT_MTU \<le> mtu" "AES_GCM_TAG_SIZE \<le> length packet" "length n = PACKET_NONCE_SIZE"
    and s: "send_with_fragmentation C (\<lambda>_. True) mtu kid n packet hk = (Ok (), frags)" "mset fs = mset frags"
    and v: "\<And>k cnt. session_vrfy z n k cnt = None"
    and z: "session_held kid s z w" "db_hk_recv (z_defrag z) = hk" "db_fragment_map (z_defrag z) n = None"
  shows "\<exists>d a h. ticked A (w_app w) a \<and> same_but n (z_defrag z) d \<and>
    deliver (Context_receive C A reply send_to addr) fs w =
      (case flush C (send_to s) (case dispatch C A s kid n packet (z\<lparr>z_defrag := d\<rparr>) (w\<lparr>w_app := a, ctx_heap := h\<rparr>) of
         (r, z, w) \<Rightarrow> (map_outcome id (SessionOk s) r, put_zeta s z w)) of
       (r, out, w) \<Rightarrow> (replicate (length frags - 1) (Ok Unassociated) @ [r], out, w))"
proof -
  have h: "(ctx_heap w)(s \<mapsto> z) = ctx_heap w" using z(1) by (simp add: session_held_def fun_upd_idem)
  have "session_waiting A kid s z w (z_defrag z) w"
    using z(1) by (auto simp: session_waiting_def session_held_def h intro!: exI [of _ "w_app w"])
  from at_session.deliver_packet [where reply = reply and send_to = send_to and addr = addr, OF C p s v this z(2,3)] obtain d0 d w' r out w'' where
    h: "session_waiting A kid s z w d0 w'" "same_but n (z_defrag z) d"
      "deliver (Context_receive C A reply send_to addr) fs w = (replicate (length frags - 1) (Ok Unassociated) @ [r], out, w'')"
      "flush C (send_to s) (case dispatch C A s kid n packet (z\<lparr>z_defrag := d\<rparr>) w' of
         (r, z, w) \<Rightarrow> (map_outcome id (SessionOk s) r, put_zeta s z w)) = (r, out, w'')" by auto
  from h(1) obtain a where "ticked A (w_app w) a" "w' = w\<lparr>w_app := a, ctx_heap := (ctx_heap w)(s \<mapsto> z\<lparr>z_defrag := d0\<rparr>)\<rparr>"
    by (auto simp: session_waiting_def)
  with h(2-4) show ?thesis by (intro exI [of _ d] exI [of _ a] exI [of _ "(ctx_heap w)(s \<mapsto> z\<lparr>z_defrag := d0\<rparr>)"]) simp
qed

lemma pending_delivery:
  assumes C: "crypto_correct C pub_of" "crypto_sized C"
    and p: "MIN_TRANSPORT_MTU \<le> mtu" "AES_GCM_TAG_SIZE \<le> length packet" "length n = PACKET_NONCE_SIZE"
    and s: "send_with_fragmentation C (\<lambda>_. True) mtu kid n packet hk = (Ok (), frags)" "mset fs = mset frags"
    and v: "\<And>k cnt. b2_vrfy n k cnt = None"
    and b: "kid \<noteq> 0" "ctx_session_map w kid = None" "ctx_b2_map w kid = Some b2" "w_sent w = []"
      "db_hk_recv (b2_defrag b2) = hk" "db_fragment_map (b2_defrag b2) n = None"
  shows "\<exists>d a m. ticked A (w_app w) a \<and> same_but n (b2_defrag b2) d \<and>
    deliver (Context_receive C A reply send_to addr) fs w =
      (case flush C (Some reply) (case received_x3_trans C A (b2\<lparr>b2_defrag := d\<rparr>) kid packet (w\<lparr>w_app := a, ctx_b2_map := m\<rparr>) of
         (r, w) \<Rightarrow> (map_outcome id (\<lambda>(session, warn). SessionOk session (if warn then NewDowngradedSession else NewSession)) r, w)) of
       (r, out, w) \<Rightarrow> (replicate (length frags - 1) (Ok Unassociated) @ [r], out, w))"
proof -
  have h: "(ctx_b2_map w)(kid \<mapsto> b2) = ctx_b2_map w" using b(3) by (simp add: fun_upd_idem)
  have "b2_waiting A kid b2 w (b2_defrag b2) w"
    using b by (auto simp: b2_waiting_def h intro!: exI [of _ "w_app w"])
  from at_pending.deliver_packet [where reply = reply and send_to = send_to and addr = addr, OF C p s v this b(5,6)] obtain d0 d w' r out w'' where
    h: "b2_waiting A kid b2 w d0 w'" "same_but n (b2_defrag b2) d"
      "deliver (Context_receive C A reply send_to addr) fs w = (replicate (length frags - 1) (Ok Unassociated) @ [r], out, w'')"
      "flush C (Some reply)
       (case received_x3_trans C A (b2\<lparr>b2_defrag := d\<rparr>) kid packet (w'\<lparr>ctx_b2_map := (ctx_b2_map w')(kid := None)\<rparr>) of
         (r, w) \<Rightarrow> (map_outcome id (\<lambda>(session, warn). SessionOk session (if warn then NewDowngradedSession else NewSession)) r, w))
       = (r, out, w'')" by auto
  from h(1) obtain a where "ticked A (w_app w) a" "w'\<lparr>ctx_b2_map := (ctx_b2_map w')(kid := None)\<rparr> =
      w\<lparr>w_app := a, ctx_b2_map := (ctx_b2_map w')(kid := None)\<rparr>"
    by (auto simp: b2_waiting_def)
  with h(2-4) show ?thesis by (intro exI [of _ d] exI [of _ a] exI [of _ "(ctx_b2_map w')(kid := None)"]) simp
qed

text \<open>A hello at a context that does not ask for a proof of work.\<close>

lemma hello_delivery:
  assumes C: "crypto_correct C pub_of" "crypto_sized C"
    and p: "MIN_TRANSPORT_MTU \<le> mtu" "n = to_packet_nonce (to_nonce PACKET_TYPE_HANDSHAKE_HELLO c)" "length resp = CHALLENGE_SIZE"
    and s: "send_with_fragmentation C (\<lambda>_. True) mtu 0 n (x1 @ resp) None = (Ok (), frags)" "mset fs = mset frags"
    and w: "w_sent w = []" "db_hk_recv (ctx_hello_defrag w) = None" "db_fragment_map (ctx_hello_defrag w) n = None"
      "\<not> cc_enabled (ctx_challenge w)"
  shows "\<exists>d a. ticked A (w_app w) a \<and>
    deliver (Context_receive C A reply send_to addr) fs w =
      (case flush C (Some reply)
         (case received_x1_trans C A (to_nonce PACKET_TYPE_HANDSHAKE_HELLO c) x1 (w\<lparr>w_app := a, ctx_hello_defrag := d\<rparr>) of
            (r, w) \<Rightarrow> (map_outcome id (\<lambda>_. Unassociated) r, w)) of
       (r, out, w) \<Rightarrow> (replicate (length frags - 1) (Ok Unassociated) @ [r], out, w))"
proof -
  have n: "length n = PACKET_NONCE_SIZE" "fst (from_nonce n) = PACKET_TYPE_HANDSHAKE_HELLO" "to_aes_nonce n = to_nonce PACKET_TYPE_HANDSHAKE_HELLO c"
    using p(2) by (simp_all add: zssp_sizes)
  have l: "AES_GCM_TAG_SIZE \<le> length (x1 @ resp)" using p(3) by (simp add: zssp_sizes)
  have v: "hello_vrfy n k cnt = None" for k cnt using n(2) by (simp add: hello_vrfy_def case_prod_beta)
  have "hello_waiting A w (ctx_hello_defrag w) w"
    using w by (auto simp: hello_waiting_def intro!: exI [of _ "w_app w"])
  from at_hello.deliver_packet [where reply = reply and send_to = send_to and addr = addr, OF C p(1) l n(1) s v this w(2,3)] obtain d0 d w' r out w'' where
    h: "hello_waiting A w d0 w'"
      "deliver (Context_receive C A reply send_to addr) fs w = (replicate (length frags - 1) (Ok Unassociated) @ [r], out, w'')"
      "flush C (Some reply) (process_hello_packet C A addr n (x1 @ resp) (w'\<lparr>ctx_hello_defrag := d\<rparr>)) = (r, out, w'')"
    using n(2) by auto
  from h(1) obtain a where a: "ticked A (w_app w) a" and w': "w' = w\<lparr>w_app := a, ctx_hello_defrag := d0\<rparr>"
    by (auto simp: hello_waiting_def)
  have "process_hello_packet C A addr n (x1 @ resp) (w'\<lparr>ctx_hello_defrag := d\<rparr>) =
      (case received_x1_trans C A (to_nonce PACKET_TYPE_HANDSHAKE_HELLO c) x1 (w\<lparr>w_app := a, ctx_hello_defrag := d\<rparr>) of
        (r, w) \<Rightarrow> (map_outcome id (\<lambda>_. Unassociated) r, w))"
    using n(3) p(3) w(4) by (cases w) (simp add: process_hello_packet_def w' process_hello_def Let_def)
  with h(2,3) a show ?thesis by (intro exI [of _ d] exI [of _ a]) simp
qed

end
