(* ===== verification/Handshake_Run.thy ===== *)
theory Handshake_Run
  imports Noise_Agreement Delivery
begin

text \<open>
  The whole handshake between two honest contexts, over the wire, with the public calls of
  \<open>reference/src/context.rs\<close>: Alice opens (x1), Bob answers (x2), Alice completes (x3), Bob
  accepts and confirms (c1), Alice acknowledges (c2). \<open>xk_handshake\<close> runs \<open>Context::open\<close> and
  then \<open>Context::receive\<close> for every fragment, over a network that delivers every fragment
  once and in any order within its message. A group of lemmas shows that each handler of
  \<open>reference/src/zeta.rs\<close> takes the honest message, a second one lifts each handler to the
  fragments of its message; the property shows that the run completes and what both ends
  hold then.
\<close>

section \<open>Definitions\<close>

text \<open>The last packet handed to \<open>send\<close>.\<close>

definition last_sent :: "('pk, 'kp, 'r, 'kem, 'd, 'a) world \<Rightarrow> packet" where
  "last_sent w = fst (last (w_sent w))"

text \<open>Each end's sending keys are the other's receiving keys.\<close>

definition keys_mirrored :: "duplex_key \<Rightarrow> duplex_key \<Rightarrow> bool" where
  "keys_mirrored a b \<longleftrightarrow> dk_send a = dk_recv b \<and> dk_recv a = dk_send b"

text \<open>
  What the documentation asks of an application whose storage works: it applies an update
  whose current pair compares equal, it restores what it stored, and the other callbacks do
  not change the stored pairs.
\<close>

definition storage_live ::
  "('pk, 'd, 'a) application_layer \<Rightarrow> ('a \<Rightarrow> 'pk \<Rightarrow> ratchet_states) \<Rightarrow> bool" where
  "storage_live A stored \<longleftrightarrow>
     (\<forall>pk d u a. compare_states u (stored a pk) \<longrightarrow>
        (\<exists>a'. app_save_ratchet_state A pk d u a = (Inr True, a') \<and> stored a' = (stored a)(pk := to_new_states u))) \<and>
     (\<forall>pk d a. ratchets_wf (stored a pk) \<longrightarrow>
        (\<exists>r a'. app_restore_by_identity A pk d a = (Inr r, a') \<and> stored a' = stored a \<and>
           (case r of None \<Rightarrow> new_initial_states | Some rss \<Rightarrow> rss) = stored a pk)) \<and>
     (\<forall>a. stored (snd (app_time A a)) = stored a) \<and>
     (\<forall>a. stored (snd (app_hello_requires_recognized_ratchet A a)) = stored a) \<and>
     (\<forall>s a. stored (snd (app_initiator_disallows_downgrade A s a)) = stored a) \<and>
     (\<forall>pk ident a. stored (snd (app_check_accept_session A pk ident a)) = stored a) \<and>
     (\<forall>rf a. stored (snd (app_restore_by_fingerprint A rf a)) = stored a)"

text \<open>The pair of ratchet states and the two pairs of keys that both ends derive.\<close>

definition derived_ratchet :: "('pk, 'kp, 'r, 'kem) crypto_layer \<Rightarrow> symmetric_state \<Rightarrow> u64 \<Rightarrow> ratchet_state" where
  "derived_ratchet C noise chain_len =
     ratchet_new (fst (get_ask C noise LABEL_RATCHET_STATE)) (snd (get_ask C noise LABEL_RATCHET_STATE)) (chain_len + 1)"

definition initiator_keys ::
  "('pk, 'kp, 'r, 'kem) crypto_layer \<Rightarrow> symmetric_state \<Rightarrow> u32 \<Rightarrow> u32 \<Rightarrow> duplex_key" where
  "initiator_keys C noise kid_send kid_recv =
     \<lparr>dk_send = \<lparr>key_kek = Some (snd (get_ask C noise LABEL_KEX_KEY)), key_nk = Some (snd (split_keys C noise)),
        key_kid = Some kid_send\<rparr>,
      dk_recv = \<lparr>key_kek = Some (fst (get_ask C noise LABEL_KEX_KEY)), key_nk = Some (fst (split_keys C noise)),
        key_kid = Some kid_recv\<rparr>\<rparr>"

definition responder_keys ::
  "('pk, 'kp, 'r, 'kem) crypto_layer \<Rightarrow> symmetric_state \<Rightarrow> u32 \<Rightarrow> u32 \<Rightarrow> duplex_key" where
  "responder_keys C noise kid_send kid_recv =
     \<lparr>dk_send = \<lparr>key_kek = Some (fst (get_ask C noise LABEL_KEX_KEY)), key_nk = Some (fst (split_keys C noise)),
        key_kid = Some kid_send\<rparr>,
      dk_recv = \<lparr>key_kek = Some (snd (get_ask C noise LABEL_KEX_KEY)), key_nk = Some (snd (split_keys C noise)),
        key_kid = Some kid_recv\<rparr>\<rparr>"

text \<open>
  Two contexts on a network that delivers every fragment once, in any order: \<open>net i\<close> gives
  the order in which the fragments of the message \<open>i\<close> arrive. A node is its MTU and its address. Alice opens, then the two take
  turns; each turn is every fragment of one message handed to \<open>Context::receive\<close>, and what
  the call sends in reply is the next message. The result holds the answers of the calls,
  what Bob sent last, and the two worlds.
\<close>

definition xk_handshake ::
  "('pk, 'kp, 'r, 'kem) crypto_layer \<Rightarrow> ('pk, 'd, 'a) application_layer \<Rightarrow> ('pk, 'e, 'b) application_layer
     \<Rightarrow> (nat \<Rightarrow> bytes list \<Rightarrow> bytes list) \<Rightarrow> nat \<times> bytes \<Rightarrow> nat \<times> bytes \<Rightarrow> 'pk \<Rightarrow> 'd \<Rightarrow> bytes
     \<Rightarrow> ('pk, 'kp, 'r, 'kem, 'd, 'a) world \<Rightarrow> ('pk, 'kp, 'r, 'kem, 'e, 'b) world
     \<Rightarrow> (open_error, session_id) outcome \<times> (receive_error, receive_ok) outcome list list \<times> bytes list
        \<times> ('pk, 'kp, 'r, 'kem, 'd, 'a) world \<times> ('pk, 'kp, 'r, 'kem, 'e, 'b) world" where
  "xk_handshake C A B net nodeA nodeB s_remote session_data ident wA wB =
     (let (mtuA, addrA) = nodeA; (mtuB, addrB) = nodeB;
          receiveA = Context_receive C A (\<lambda>_. True, mtuA) (\<lambda>_. Some (\<lambda>_. True, mtuA)) addrB;
          receiveB = Context_receive C B (\<lambda>_. True, mtuB) (\<lambda>_. Some (\<lambda>_. True, mtuB)) addrA;
          (opened, x1, wA) = Context_open C A (\<lambda>_. True) mtuA s_remote session_data ident wA;
          (r1, x2, wB) = deliver receiveB (net 1 x1) wB;
          (r2, x3, wA) = deliver receiveA (net 2 x2) wA;
          (r3, c1, wB) = deliver receiveB (net 3 x3) wB;
          (r4, c2, wA) = deliver receiveA (net 4 c1) wA;
          (r5, out, wB) = deliver receiveB (net 5 c2) wB
      in (opened, [r1, r2, r3, r4, r5], out, wA, wB))"

text \<open>The fragments of one packet, and the answers of the calls that took them: nothing until the last.\<close>

definition on_wire ::
  "('pk, 'kp, 'r, 'kem) crypto_layer \<Rightarrow> nat \<Rightarrow> packet \<Rightarrow> bytes option \<Rightarrow> bytes list \<Rightarrow> bool" where
  "on_wire C mtu p hk frags \<longleftrightarrow>
     send_with_fragmentation C (\<lambda>_. True) (max mtu MIN_TRANSPORT_MTU) (p_kid p) (to_packet_nonce (p_nonce p)) (p_payload p) hk
       = (Ok (), frags)"

definition concluded :: "(receive_error, receive_ok) outcome list \<Rightarrow> receive_ok \<Rightarrow> bool" where
  "concluded rs x \<longleftrightarrow> (\<exists>k. rs = replicate k (Ok Unassociated) @ [Ok x])"

text \<open>A control message: an empty payload and its tag.\<close>

definition control_packet :: "('pk, 'kp, 'r, 'kem) crypto_layer \<Rightarrow> u32 \<Rightarrow> u8 \<Rightarrow> bytes \<Rightarrow> packet" where
  "control_packet C kid p kek = Packet kid (to_nonce p 0) (snd (aead_encrypt_in_place C kek (to_nonce p 0) None []))"

text \<open>
  Alice's session after the first message: the message reads back at Bob to her noise state
  and to the fingerprint of her first ratchet state.
\<close>

definition offered ::
  "('pk, 'kp, 'r, 'kem) crypto_layer \<Rightarrow> ('kp \<Rightarrow> 'pk) \<Rightarrow> 'kp \<Rightarrow> bytes \<Rightarrow> ('pk, 'kp, 'kem, 'd) zeta \<Rightarrow> bytes \<Rightarrow> bytes \<Rightarrow> bool" where
  "offered C pub_of sB ident z n1 x1 \<longleftrightarrow>
     (\<exists>a1 kid e1 r1 r2 rf2 hk. z_beta z = A1 a1 \<and> a1_identity a1 = ident \<and> recv_kid z True = Some kid \<and>
        kem_generate C r1 = ((a1_e1_secret a1, e1), r2) \<and>
        read_x1 C sB n1 x1 = Inr (kid, pub_of (a1_e_secret a1), e1, rs_fingerprint (z_ratchet_state1 z), rf2, a1_noise a1) \<and>
        z_defrag z = DefragBuffer_new (Some hk) \<and> get_ask C (a1_noise a1) LABEL_HEADER_KEY = (hk, z_hk_send z))"

text \<open>
  Alice's session and Bob's half-open handshake after the second message: the message reads
  back to Bob's noise state under Alice's first ratchet key, and the header keys match.
\<close>

definition answered ::
  "('pk, 'kp, 'r, 'kem) crypto_layer \<Rightarrow> ('kp \<Rightarrow> 'pk) \<Rightarrow> bytes \<Rightarrow> ('pk, 'kp, 'kem, 'd) zeta \<Rightarrow> 'kp state_b2 \<Rightarrow> u64 \<Rightarrow> bytes \<Rightarrow> bool" where
  "answered C pub_of ident z b2 c x2 \<longleftrightarrow>
     (\<exists>a1 noise. z_beta z = A1 a1 \<and> a1_identity a1 = ident \<and> recv_kid z True = Some (b2_kid_send b2) \<and>
        length x2 = HANDSHAKE_RESPONSE_SIZE \<and> c < COUNTER_WINDOW_MAX_SKIP_AHEAD \<and>
        drop 9 (to_nonce PACKET_TYPE_HANDSHAKE_RESPONSE c) = drop (length x2 - 3) x2 \<and>
        read_x2_tokens C a1 x2 = Inr (pub_of (b2_e_secret b2), 1633, noise) \<and>
        test_ratchet_key C noise (subslice 1633 1637 x2) (subslice 1637 1653 x2) (rs_key (z_ratchet_state1 z))
          = Some (b2_kid_recv b2, b2_noise b2)) \<and>
     z_ratchet_state1 z = b2_ratchet_state b2 \<and>
     z_defrag z = DefragBuffer_new (Some (b2_hk_send b2)) \<and> b2_defrag b2 = DefragBuffer_new (Some (z_hk_send z))"

text \<open>A fresh session of Alice whose stored ratchet states are the storage's.\<close>

definition fresh_with :: "('pk, 'kp, 'kem, 'd) zeta \<Rightarrow> 'pk \<Rightarrow> ratchet_states \<Rightarrow> bool" where
  "fresh_with z pk rss \<longleftrightarrow> z_s_remote z = pk \<and> z_send_counter z = 0 \<and>
     z_counter_antireplay_window z = window_new COUNTER_WINDOW_MAX_OOO \<and>
     rss = ratchet_states_new (z_ratchet_state1 z) (z_ratchet_state2 z)"

definition sample_world_bob :: "(u8, u8, nat, unit, unit, sample_app_state) world" where
  "sample_world_bob = Context_new sample_crypto 5 1 sample_app_init"

section \<open>Opening\<close>

lemma storage_liveD:
  assumes "storage_live A stored"
  shows "compare_states u (stored a pk) \<Longrightarrow>
      \<exists>a'. app_save_ratchet_state A pk d u a = (Inr True, a') \<and> stored a' = (stored a)(pk := to_new_states u)"
    and "ratchets_wf (stored a pk) \<Longrightarrow>
      \<exists>r a'. app_restore_by_identity A pk d a = (Inr r, a') \<and> stored a' = stored a \<and>
        (case r of None \<Rightarrow> new_initial_states | Some rss \<Rightarrow> rss) = stored a pk"
    and "app_time A a = (t, a') \<Longrightarrow> stored a' = stored a"
    and "app_hello_requires_recognized_ratchet A a = (b, a') \<Longrightarrow> stored a' = stored a"
    and "app_initiator_disallows_downgrade A s a = (b, a') \<Longrightarrow> stored a' = stored a"
    and "app_check_accept_session A pk ident a = (act, a') \<Longrightarrow> stored a' = stored a"
    and "app_restore_by_fingerprint A rf a = (res, a') \<Longrightarrow> stored a' = stored a"
  using assms unfolding storage_live_def by (blast | metis snd_conv)+

lemma trans_to_a1_live:
  assumes A: "storage_live A stored" "ratchets_wf (stored (w_app w) pk)" and kids: "kids_live C (ctx_session_map w)"
  shows "\<exists>a1 kid r0 r1 z s w'. trans_to_a1 C A pk d ident w = (Ok s, w') \<and> ctx_heap w' s = Some z \<and>
    kid \<noteq> 0 \<and> z_beta z = A1 a1 \<and> z_s_remote z = pk \<and> z_send_counter z = 0 \<and> recv_kid z True = Some kid \<and>
    z_counter_antireplay_window z = window_new COUNTER_WINDOW_MAX_OOO \<and>
    create_a1_state C r0 pk kid (z_ratchet_state1 z) (z_ratchet_state2 z) ident = (a1, r1) \<and>
    (\<exists>hk. z_defrag z = DefragBuffer_new (Some hk) \<and> get_ask C (a1_noise a1) LABEL_HEADER_KEY = (hk, z_hk_send z)) \<and>
    w_sent w' = w_sent w @ [(a1_packet a1, None)] \<and> ctx_session_map w' kid = Some s \<and> ctx_s_secret w' = ctx_s_secret w \<and>
    stored (w_app w') = stored (w_app w) \<and> stored (w_app w) pk = ratchet_states_new (z_ratchet_state1 z) (z_ratchet_state2 z)"
proof -
  obtain r a where r: "app_restore_by_identity A pk d (w_app w) = (Inr r, a)" "stored a = stored (w_app w)"
    "(case r of None \<Rightarrow> new_initial_states | Some rss \<Rightarrow> rss) = stored (w_app w) pk"
    using storage_liveD(2) [OF A] by blast
  obtain kid rng where k: "gen_kid C (ctx_session_map w) (ctx_rng w) = Some (kid, rng)"
    using kids_liveD [OF kids] by blast
  let ?rss = "stored (w_app w) pk"
  obtain a1 r1 where a1: "create_a1_state C rng pk kid (rss_state1 ?rss) (rss_state2 ?rss) ident = (a1, r1)"
    by fastforce
  obtain h1 h2 where hk: "get_ask C (a1_noise a1) LABEL_HEADER_KEY = (h1, h2)" by fastforce
  obtain t a' where t: "app_time A a = (t, a')" by fastforce
  have "kid \<noteq> 0" using gen_kid_fresh [OF k] by simp
  then show ?thesis
    using r k a1 hk t storage_liveD(3) [OF A(1) t]
    by (auto simp: trans_to_a1_def Let_def time_now_def register_session_def new_a1_zeta_def key_mut_def
      key_ref_def recv_kid_def set_recv_kid_def emit_def ratchet_states_new_def)
qed

section \<open>The answer\<close>

lemma find_ratchet_state_stored:
  assumes "storage_live A stored" "find_ratchet_state A rf1 rf2 a = (r, a')"
  shows "stored a' = stored a"
  using assms(2) storage_liveD(4,7) [OF assms(1)]
  by (auto simp: find_ratchet_state_def Let_def split: prod.splits sum.splits option.splits if_splits bool.splits)
     (metis+)?

lemma write_x2_live:
  assumes "crypto_correct C pub_of" "kem_generate C r1 = ((d, e1), r2)"
  shows "\<exists>e noise' x2 rng'. write_x2_tokens C e_remote e1 key noise rng = (Inr (e, noise', x2), rng')"
proof -
  obtain e n1 rng1 p1 where w: "write_e C noise rng [] = (e, n1, rng1, p1)" by (metis surj_pair)
  obtain ct ks rng2 where k: "kem_encapsulate C rng1 e1 = (Some (ct, ks), rng2)"
    using crypto_correctD(6) [OF assms] by blast
  obtain n2 x2 where "encrypt_and_hash_in_place C (mix_dh C n1 e e_remote)
      (to_nonce PACKET_TYPE_HANDSHAKE_RESPONSE 0) (length p1) (p1 @ ct) = (n2, x2)" by fastforce
  then show ?thesis using w k by (simp add: write_x2_tokens_def Let_def)
qed

lemma received_x1_live:
  assumes C: "crypto_correct C pub_of" "crypto_sized C"
    and x1: "read_x1 C (ctx_s_secret w) n x1 = Inr (kid, e_remote, e1, rf1, rf2, noise)"
    and kem: "kem_generate C r1 = ((d, e1), r2)"
    and rs: "find_ratchet_state B rf1 rf2 (w_app w) = (Inr rs, a)" and kids: "kids_live C (ctx_session_map w)"
  shows "\<exists>e n2 x2 rng kidB n3 x2' c b2 w' rng'. received_x1_trans C B n x1 w = (Ok (), w') \<and>
    write_x2_tokens C e_remote e1 (rs_key rs) noise (ctx_rng w) = (Inr (e, n2, x2), rng) \<and>
    write_x2_payload C n2 x2 kidB = (n3, x2', c) \<and> kidB \<noteq> 0 \<and>
    w_sent w' = w_sent w @ [(Packet kid (to_nonce PACKET_TYPE_HANDSHAKE_RESPONSE c) x2', Some (b2_hk_send b2))] \<and>
    ctx_b2_map w' kidB = Some b2 \<and> b2_noise b2 = n3 \<and> b2_e_secret b2 = e \<and> b2_kid_send b2 = kid \<and>
    b2_kid_recv b2 = kidB \<and> b2_ratchet_state b2 = rs \<and>
    (\<exists>hk. b2_defrag b2 = DefragBuffer_new (Some hk) \<and> get_ask C noise LABEL_HEADER_KEY = (b2_hk_send b2, hk)) \<and>
    ctx_session_map w' = ctx_session_map w \<and> ctx_session_map w kidB = None \<and> ctx_s_secret w' = ctx_s_secret w \<and> w_app w' = a"
proof -
  obtain h1 h2 where hk: "get_ask C noise LABEL_HEADER_KEY = (h1, h2)" by fastforce
  obtain e n2 x2 rng where w1: "write_x2_tokens C e_remote e1 (rs_key rs) noise (ctx_rng w) = (Inr (e, n2, x2), rng)"
    using write_x2_live [OF C(1) kem] by blast
  obtain kidB rng' where k: "gen_kid C (ctx_session_map w) rng = Some (kidB, rng')"
    using kids_liveD [OF kids] by blast
  obtain n3 x2' c where w2: "write_x2_payload C n2 x2 kidB = (n3, x2', c)" by (metis surj_pair)
  have "kidB \<noteq> 0" "ctx_session_map w kidB = None" using gen_kid_fresh [OF k] by simp_all
  then show ?thesis
    using x1 rs hk w1 k w2
    by (auto simp: received_x1_trans_def Let_def emit_def)
qed

section \<open>The completion\<close>

lemma save_ratchet_live:
  assumes "storage_live A stored" "stored (w_app w) pk = ratchet_states_new c1 c2"
  shows "\<exists>a. save_ratchet A pk d (cas_new n1 n2 ad c1 c2 d1 d2) w = (Inr True, w\<lparr>w_app := a\<rparr>) \<and>
    stored a = (stored (w_app w))(pk := ratchet_states_new n1 n2)"
  using storage_liveD(1) [OF assms(1), of "cas_new n1 n2 ad c1 c2 d1 d2" "w_app w" pk d] assms(2)
  by (auto simp: save_ratchet_def)

lemma keys_mirrored_ends: "keys_mirrored (initiator_keys C n a b) (responder_keys C n b a)"
  by (simp add: keys_mirrored_def initiator_keys_def responder_keys_def)

lemma received_x2_live:
  assumes z: "z_beta z = A1 a1" "recv_kid z True = Some kid" and A: "storage_live A stored"
      "stored (w_app w) (z_s_remote z) = ratchet_states_new (z_ratchet_state1 z) (z_ratchet_state2 z)"
    and x2: "length x2 = HANDSHAKE_RESPONSE_SIZE" "c < COUNTER_WINDOW_MAX_SKIP_AHEAD"
      "drop 9 (to_nonce PACKET_TYPE_HANDSHAKE_RESPONSE c) = drop (length x2 - 3) x2"
      "read_x2_tokens C a1 x2 = Inr (e_remote, 1633, noise)"
      "test_ratchet_key C noise (subslice 1633 1637 x2) (subslice 1637 1653 x2) (rs_key (z_ratchet_state1 z)) = Some (kidB, n3)"
    and x3: "write_x3 C (ctx_s_secret w) e_remote (a1_identity a1) n3 = (n4, x3)"
  shows "\<exists>z' w'. received_x2_trans C A s kid (to_nonce PACKET_TYPE_HANDSHAKE_RESPONSE c) x2 z w = (Ok False, z', w') \<and>
    w_sent w' = w_sent w @ [(Packet kidB (to_nonce PACKET_TYPE_HANDSHAKE_COMPLETION 0) x3, Some (z_hk_send z))] \<and>
    ctx_session_map w' = ctx_session_map w \<and> is_a3 (z_beta z') \<and> key_ref z' True = initiator_keys C n4 kidB kid \<and>
    z_ratchet_state1 z' = derived_ratchet C n4 (rs_chain_len (z_ratchet_state1 z)) \<and>
    z_ratchet_state2 z' = Some (z_ratchet_state1 z) \<and> z_s_remote z' = z_s_remote z \<and> z_hk_send z' = z_hk_send z \<and>
    z_send_counter z' = z_send_counter z \<and> z_counter_antireplay_window z' = z_counter_antireplay_window z \<and>
    z_defrag z' = z_defrag z \<and>
    stored (w_app w') = (stored (w_app w))(z_s_remote z := ratchet_states_new (z_ratchet_state1 z') (z_ratchet_state2 z'))"
proof -
  let ?new = "derived_ratchet C n4 (rs_chain_len (z_ratchet_state1 z))"
  obtain a where sv: "save_ratchet A (z_s_remote z) (z_session_data z)
      (cas_new ?new (Some (z_ratchet_state1 z)) True (z_ratchet_state1 z) (z_ratchet_state2 z) False True) w
        = (Inr True, w\<lparr>w_app := a\<rparr>)"
    "stored a = (stored (w_app w))(z_s_remote z := ratchet_states_new ?new (Some (z_ratchet_state1 z)))"
    using save_ratchet_live [OF A] by blast
  obtain t a' where t: "app_time A a = (t, a')" by fastforce
  have sel: "select_ratchet_key C A s z noise (subslice 1633 1637 x2) (subslice 1637 1653 x2) (w_app w)
      = ((Some (kidB, n3), 1, rs_chain_len (z_ratchet_state1 z), False), w_app w)"
    using x2(5) by (simp add: select_ratchet_key_def Let_def)
  show ?thesis
    using z x2 x3 sv sel t storage_liveD(3) [OF A(1) t]
    by (auto simp: received_x2_trans_def process_x2_def finish_x2_def Let_def zssp_sizes time_now_def emit_def
      is_a3_def initiator_keys_def derived_ratchet_def key_mut_def key_ref_def store_keys_def recv_kid_def
      not_le split: prod.splits)
qed

section \<open>The acceptance\<close>

lemma received_x3_live:
  assumes x3: "read_x3 C b2 kid x3 = Inr (pk, ident, n4)" "b2_kid_recv b2 = kid"
    and B: "storage_live B stored" "ratchets_wf (stored (w_app w) pk)"
      "rss_state1 (stored (w_app w) pk) = b2_ratchet_state b2"
      "aa_session_data (fst (app_check_accept_session B pk ident (w_app w))) = Some d"
    and m: "ctx_session_map w kid = None"
  shows "\<exists>t w' z. received_x3_trans C B b2 kid x3 w = (Ok (t, False), w') \<and> ctx_heap w' t = Some z \<and>
    w_sent w' = w_sent w @ [(Packet (b2_kid_send b2) (to_nonce PACKET_TYPE_KEY_CONFIRM 0)
      (snd (aead_encrypt_in_place C (fst (get_ask C n4 LABEL_KEX_KEY)) (to_nonce PACKET_TYPE_KEY_CONFIRM 0) None [])),
      Some (b2_hk_send b2))] \<and> ctx_session_map w' kid = Some t \<and> z_beta z = S1 \<and> key_ref z False = responder_keys C n4 (b2_kid_send b2) kid \<and>
    z_ratchet_state1 z = derived_ratchet C n4 (rs_chain_len (b2_ratchet_state b2)) \<and> z_ratchet_state2 z = None \<and>
    z_s_remote z = pk \<and> z_hk_send z = b2_hk_send b2 \<and> z_defrag z = b2_defrag b2 \<and>
    z_counter_antireplay_window z = window_new COUNTER_WINDOW_MAX_OOO \<and>
    stored (w_app w') pk = ratchet_states_new (z_ratchet_state1 z) (z_ratchet_state2 z)"
proof -
  let ?new = "derived_ratchet C n4 (rs_chain_len (b2_ratchet_state b2))"
  obtain act a1 where act: "app_check_accept_session B pk ident (w_app w) = (act, a1)" by fastforce
  have st1: "stored a1 = stored (w_app w)" by (rule storage_liveD(6) [OF B(1) act])
  obtain r a2 where r: "app_restore_by_identity B pk d a1 = (Inr r, a2)" "stored a2 = stored (w_app w)"
    "(case r of None \<Rightarrow> new_initial_states | Some rss \<Rightarrow> rss) = stored (w_app w) pk"
    using storage_liveD(2) [OF B(1), of a1 pk d] B(2) st1 by auto
  let ?rss = "stored (w_app w) pk"
  obtain a3 where sv: "save_ratchet B pk d (cas_new ?new None True (rss_state1 ?rss) (rss_state2 ?rss) True True) (w\<lparr>w_app := a2\<rparr>)
      = (Inr True, w\<lparr>w_app := a3\<rparr>)" "stored a3 = (stored (w_app w))(pk := ratchet_states_new ?new None)"
    using save_ratchet_live [OF B(1), of "w\<lparr>w_app := a2\<rparr>" pk "rss_state1 ?rss" "rss_state2 ?rss" d ?new None True True True] r(2)
    by (auto simp: ratchet_states_new_def)
  obtain t a4 where t: "app_time B a3 = (t, a4)" by fastforce
  have "aa_session_data act = Some d" using B(4) act by simp
  then show ?thesis
    using x3 act r sv t B(3) m storage_liveD(3) [OF B(1) t]
    by (auto simp: received_x3_trans_def accept_x3_def Let_def time_now_def register_session_def new_bob_zeta_def
      emit_def key_ref_def responder_keys_def derived_ratchet_def split: prod.splits)
qed

section \<open>Confirmation and acknowledgement\<close>

text \<open>An empty control message: its cipher text is the tag.\<close>

lemma control_tag:
  assumes "crypto_correct C pub_of" "crypto_sized C"
  shows "fst (aead_decrypt_in_place C k n None [] (snd (aead_encrypt_in_place C k n None [])))"
    and "length (snd (aead_encrypt_in_place C k n None [])) = 16"
    and "fst (aead_encrypt_in_place C k n None []) = []"
proof -
  obtain ct tag where e: "aead_encrypt_in_place C k n None [] = (ct, tag)" by fastforce
  have "length ct = 0" "length tag = 16" using aead_encrypt_lengths [OF assms(2) e] by simp_all
  with e crypto_correctD(2) [OF assms(1) e]
  show "fst (aead_decrypt_in_place C k n None [] (snd (aead_encrypt_in_place C k n None [])))"
    "length (snd (aead_encrypt_in_place C k n None [])) = 16" "fst (aead_encrypt_in_place C k n None []) = []"
    by simp_all
qed

lemma fresh_window_takes_zero:
  "update_counter_window (window_new COUNTER_WINDOW_MAX_OOO) 0 =
     (True, (window_new COUNTER_WINDOW_MAX_OOO)[0 := 1])"
  by (simp add: update_counter_window_def window_slot_def window_new_def saturating_add_def zssp_sizes)

lemma enter_s2_live:
  assumes "rekey_time_max_jitter (SETTINGS C) \<noteq> 0"
  shows "\<exists>t1 g a. enter_s2 C A z w = (Ok (), z\<lparr>z_timeout_timer := t1, z_resend_timer := I64_MAX, z_beta := S2\<rparr>,
      w\<lparr>ctx_rng := g, w_app := a\<rparr>) \<and> a = snd (app_time A (w_app w))"
  using assms by (auto simp: enter_s2_def Let_def time_now_def split: prod.splits)

lemma confirm_key_live:
  assumes j: "rekey_time_max_jitter (SETTINGS C) \<noteq> 0" and A: "storage_live A stored"
      "stored (w_app w) (z_s_remote z) = ratchet_states_new (z_ratchet_state1 z) (z_ratchet_state2 z)"
  shows "\<exists>g a t1. confirm_key C A z w = (Ok (), z\<lparr>z_ratchet_state2 := None, z_key_index := \<not> z_key_index z,
      z_timeout_timer := t1, z_resend_timer := I64_MAX, z_beta := S2\<rparr>, w\<lparr>ctx_rng := g, w_app := a\<rparr>) \<and>
      stored a = (stored (w_app w))(z_s_remote z := ratchet_states_new (z_ratchet_state1 z) None)"
proof -
  let ?new = "(stored (w_app w))(z_s_remote z := ratchet_states_new (z_ratchet_state1 z) None)"
  let ?z = "z\<lparr>z_ratchet_state2 := None, z_key_index := \<not> z_key_index z\<rparr>"
  have "\<exists>a. (if z_ratchet_state2 z \<noteq> None
      then save_ratchet A (z_s_remote z) (z_session_data z)
        (cas_new (z_ratchet_state1 z) None False (z_ratchet_state1 z) (z_ratchet_state2 z) False True) w
      else (Inr True, w)) = (Inr True, w\<lparr>w_app := a\<rparr>) \<and> stored a = ?new"
  proof (cases "z_ratchet_state2 z")
    case None
    then have "stored (w_app w) = ?new" using A(2) by auto
    then show ?thesis using None by (intro exI [of _ "w_app w"]) simp
  next
    case (Some rs2)
    then show ?thesis using save_ratchet_live [OF A] by simp
  qed
  then obtain a where sv: "(if z_ratchet_state2 z \<noteq> None
      then save_ratchet A (z_s_remote z) (z_session_data z)
        (cas_new (z_ratchet_state1 z) None False (z_ratchet_state1 z) (z_ratchet_state2 z) False True) w
      else (Inr True, w)) = (Inr True, w\<lparr>w_app := a\<rparr>)" and a: "stored a = ?new" by blast
  obtain t1 g a' where en: "enter_s2 C A ?z (w\<lparr>w_app := a\<rparr>) = (Ok (),
      ?z\<lparr>z_timeout_timer := t1, z_resend_timer := I64_MAX, z_beta := S2\<rparr>, (w\<lparr>w_app := a\<rparr>)\<lparr>ctx_rng := g, w_app := a'\<rparr>)"
    and a': "a' = snd (app_time A a)"
    using enter_s2_live [OF j, of A ?z "w\<lparr>w_app := a\<rparr>"] by auto
  have "stored a' = ?new" using a a' storage_liveD(3) [OF A(1)] by (metis prod.collapse)
  with sv en show ?thesis by (intro exI [of _ g] exI [of _ a'] exI [of _ t1]) (simp add: confirm_key_def)
qed

lemma received_c1_live:
  assumes C: "crypto_correct C pub_of" "layer_ok C"
    and z: "is_a3 (z_beta z) \<or> is_r2 (z_beta z)" "recv_kid z True = Some kid"
      "key_kek (dk_recv (key_ref z True)) = Some kek" "key_kek (dk_send (key_ref z True)) = Some kek'"
      "key_kid (dk_send (key_ref z True)) = Some kid'" "z_send_counter z < HARD_EXPIRATION"
    and win: "update_counter_window (z_counter_antireplay_window z) c = (True, win)"
    and A: "storage_live A stored"
      "stored (w_app w) (z_s_remote z) = ratchet_states_new (z_ratchet_state1 z) (z_ratchet_state2 z)"
    and n: "n = to_nonce p c"
  shows "\<exists>z' w'. received_c1_trans C A kid n (snd (aead_encrypt_in_place C kek n None [])) z w
      = (Ok (is_a3 (z_beta z)), z', w') \<and>
    last_sent w' = Packet kid' (to_nonce PACKET_TYPE_ACK (z_send_counter z))
      (snd (aead_encrypt_in_place C kek' (to_nonce PACKET_TYPE_ACK (z_send_counter z)) None [])) \<and>
    z_beta z' = S2 \<and> key_ref z' False = key_ref z True \<and> z_ratchet_state1 z' = z_ratchet_state1 z \<and>
    z_ratchet_state2 z' = None \<and> z_s_remote z' = z_s_remote z \<and> z_hk_send z' = z_hk_send z \<and> z_defrag z' = z_defrag z \<and>
    stored (w_app w') = (stored (w_app w))(z_s_remote z := ratchet_states_new (z_ratchet_state1 z) None) \<and>
    (\<exists>p. w_sent w' = w_sent w @ [(p, Some (z_hk_send z))]) \<and> ctx_session_map w' = ctx_session_map w"
proof -
  have C': "crypto_sized C" "rekey_time_max_jitter (SETTINGS C) \<noteq> 0" using C(2) by (simp_all add: layer_ok_def)
  let ?z = "z\<lparr>z_counter_antireplay_window := win\<rparr>"
  have "\<exists>g a t1. confirm_key C A ?z w = (Ok (), ?z\<lparr>z_ratchet_state2 := None, z_key_index := \<not> z_key_index z,
      z_timeout_timer := t1, z_resend_timer := I64_MAX, z_beta := S2\<rparr>, w\<lparr>ctx_rng := g, w_app := a\<rparr>) \<and>
      stored a = (stored (w_app w))(z_s_remote z := ratchet_states_new (z_ratchet_state1 z) None)"
    using confirm_key_live [OF C'(2) A(1), of w ?z] A(2) by simp
  moreover obtain tag where "aead_encrypt_in_place C kek' (to_nonce PACKET_TYPE_ACK (z_send_counter z)) None [] = ([], tag)"
    using control_tag(3) [OF C(1) C'(1)] by (metis prod.collapse)
  ultimately show ?thesis
    using z win n control_tag(1,2) [OF C(1) C'(1), of kek n]
    by (auto simp: received_c1_trans_def which_key_def zeta_update_counter_window_def Let_def zssp_sizes
      send_control_def get_counter_def key_ref_def recv_kid_def emit_def last_sent_def is_a3_def is_r2_def not_le
      split: prod.splits)
qed

lemma received_c2_live:
  assumes C: "crypto_correct C pub_of" "layer_ok C"
    and z: "z_beta z = S1" "recv_kid z False = Some kid" "key_kek (dk_recv (key_ref z False)) = Some kek"
    and win: "update_counter_window (z_counter_antireplay_window z) c = (True, win)"
    and n: "n = to_nonce p c"
  shows "\<exists>t1 g a. received_c2_trans C A kid n (snd (aead_encrypt_in_place C kek n None [])) z w
     = (Ok (), z\<lparr>z_counter_antireplay_window := win, z_timeout_timer := t1, z_resend_timer := I64_MAX, z_beta := S2\<rparr>,
        w\<lparr>ctx_rng := g, w_app := a\<rparr>) \<and> a = snd (app_time A (w_app w))"
proof -
  have C': "crypto_sized C" "rekey_time_max_jitter (SETTINGS C) \<noteq> 0" using C(2) by (simp_all add: layer_ok_def)
  show ?thesis
    using z win n control_tag [OF C(1) C'(1)] enter_s2_live [OF C'(2), of A "z\<lparr>z_counter_antireplay_window := win\<rparr>" w]
    by (auto simp: received_c2_trans_def zeta_update_counter_window_def Let_def zssp_sizes)
qed

section \<open>The five messages on the wire\<close>

lemma ticked_stored:
  assumes "storage_live A stored" "ticked A a a'"
  shows "stored a' = stored a"
proof -
  have "stored (((\<lambda>a. snd (app_time A a)) ^^ k) a) = stored a" for k
    by (induction k) (use storage_liveD(3) [OF assms(1) prod.collapse [symmetric]] in simp_all)
  then show ?thesis using assms(2) by (auto simp: ticked_def)
qed

lemma a1_packet_nonce:
  assumes "create_a1_state C rng pk kid rs1 rs2 ident = (a1, rng')"
  shows "\<exists>c x. a1_packet a1 = Packet 0 (to_nonce PACKET_TYPE_HANDSHAKE_HELLO c) x"
  using assms by (auto simp: create_a1_state_def Let_def split: prod.splits)

lemma emitted_on_wire:
  assumes "crypto_sized C" "w_sent w = [(Packet kid (to_nonce p c) x, hk)]"
    and "AES_GCM_TAG_SIZE \<le> length x" "length x \<le> MAX_FRAGMENTS * (MIN_TRANSPORT_MTU - HEADER_SIZE)"
  shows "\<exists>frags. flush C (Some (\<lambda>_. True, mtu)) (r, w) = (r, frags, w\<lparr>w_sent := []\<rparr>) \<and>
    on_wire C mtu (Packet kid (to_nonce p c) x) hk frags"
  unfolding on_wire_def using flush_one [OF assms(1,2) _ assms(3,4), of mtu r] by (simp add: zssp_sizes)

lemma hello_sent:
  assumes C: "crypto_correct C pub_of" "crypto_sized C"
    and A: "storage_live A stored" "ratchets_wf (stored (w_app w) (pub_of sB))" "kids_live C (ctx_session_map w)"
    and w: "w_sent w = []" "length ident \<le> IDENTITY_MAX_SIZE"
  shows "\<exists>s kid z w1 frags c x1 resp. Context_open C A (\<lambda>_. True) mtu (pub_of sB) d ident w = (Ok s, frags, w1) \<and>
    session_held kid s z w1 \<and> recv_kid z True = Some kid \<and>
    on_wire C mtu (Packet 0 (to_nonce PACKET_TYPE_HANDSHAKE_HELLO c) (x1 @ resp)) None frags \<and> length resp = CHALLENGE_SIZE \<and>
    offered C pub_of sB ident z (to_nonce PACKET_TYPE_HANDSHAKE_HELLO c) x1 \<and>
    fresh_with z (pub_of sB) (stored (w_app w1) (pub_of sB)) \<and> stored (w_app w1) = stored (w_app w) \<and>
    ctx_s_secret w1 = ctx_s_secret w"
proof -
  obtain a1 kid r0 r0' z s w1 hk where o:
    "trans_to_a1 C A (pub_of sB) d ident w = (Ok s, w1)" "ctx_heap w1 s = Some z"
    "kid \<noteq> 0" "z_beta z = A1 a1" "z_s_remote z = pub_of sB" "z_send_counter z = 0" "recv_kid z True = Some kid"
    "z_counter_antireplay_window z = window_new COUNTER_WINDOW_MAX_OOO"
    "create_a1_state C r0 (pub_of sB) kid (z_ratchet_state1 z) (z_ratchet_state2 z) ident = (a1, r0')"
    "z_defrag z = DefragBuffer_new (Some hk)" "get_ask C (a1_noise a1) LABEL_HEADER_KEY = (hk, z_hk_send z)"
    "w_sent w1 = w_sent w @ [(a1_packet a1, None)]" "ctx_session_map w1 kid = Some s" "ctx_s_secret w1 = ctx_s_secret w"
    "stored (w_app w1) = stored (w_app w)"
    "stored (w_app w) (pub_of sB) = ratchet_states_new (z_ratchet_state1 z) (z_ratchet_state2 z)"
    using trans_to_a1_live [OF A, of d ident] by blast
  have wf: "ratchet_wf (z_ratchet_state1 z)" "pred_option ratchet_wf (z_ratchet_state2 z)"
    using A(2) o(16) by (simp_all add: ratchets_wf_def ratchet_states_new_def)
  obtain n1 x1 resp e1 r1 r2 rf2 where x1: "a1_packet a1 = Packet 0 n1 (x1 @ resp)" "length resp = CHALLENGE_SIZE"
    "kem_generate C r1 = ((a1_e1_secret a1, e1), r2)" "a1_identity a1 = ident"
    "read_x1 C sB n1 x1 = Inr (kid, pub_of (a1_e_secret a1), e1, rs_fingerprint (z_ratchet_state1 z), rf2, a1_noise a1)"
    using read_x1_follows [OF C o(3) wf o(9)] by metis
  obtain c where n1: "n1 = to_nonce PACKET_TYPE_HANDSHAKE_HELLO c" using a1_packet_nonce [OF o(9)] x1(1) by auto
  have "length x1 = HANDSHAKE_HELLO_SIZE" using x1(5) by (auto simp: read_x1_def split: if_splits)
  then obtain frags where f: "flush C (Some (\<lambda>_. True, mtu)) (Ok s :: (open_error, _) outcome, w1) = (Ok s, frags, w1\<lparr>w_sent := []\<rparr>)"
    "on_wire C mtu (Packet 0 n1 (x1 @ resp)) None frags"
    using emitted_on_wire [OF C(2), of w1 0 PACKET_TYPE_HANDSHAKE_HELLO c "x1 @ resp" None mtu "Ok s :: (open_error, _) outcome"] o(12) w(1) x1(1,2) n1
    by (auto simp: zssp_sizes)
  have "Context_open C A (\<lambda>_. True) mtu (pub_of sB) d ident w = (Ok s, frags, w1\<lparr>w_sent := []\<rparr>)"
    using w(2) o(1) f(1) by (simp add: Context_open_def)
  moreover have "session_held kid s z (w1\<lparr>w_sent := []\<rparr>)" using o(2,3,13) by (simp add: session_held_def)
  moreover have "offered C pub_of sB ident z n1 x1" unfolding offered_def using o(4,7,10,11) x1(3-5) by blast
  moreover have "fresh_with z (pub_of sB) (stored (w_app w1) (pub_of sB))" using o(5,6,8,15,16) by (simp add: fresh_with_def)
  ultimately show ?thesis using o(7,14,15) x1(2) f(2) n1
    by (intro exI [of _ s] exI [of _ kid] exI [of _ z] exI [of _ "w1\<lparr>w_sent := []\<rparr>"] exI [of _ frags] exI [of _ c]
      exI [of _ x1] exI [of _ resp]) simp
qed

lemma hello_answered:
  assumes C: "crypto_correct C pub_of" "crypto_sized C"
    and o: "offered C pub_of (ctx_s_secret w) ident z (to_nonce PACKET_TYPE_HANDSHAKE_HELLO c) x1"
    and f: "on_wire C mtu (Packet 0 (to_nonce PACKET_TYPE_HANDSHAKE_HELLO c) (x1 @ resp)) None frags"
      "length resp = CHALLENGE_SIZE" "mset fs = mset frags"
    and w: "w_sent w = []" "ctx_hello_defrag w = DefragBuffer_new None" "\<not> cc_enabled (ctx_challenge w)"
    and B: "storage_live B stored" "kids_live C (ctx_session_map w)"
      "\<And>a rf2. stored a = stored (w_app w) \<Longrightarrow> fst (find_ratchet_state B (rs_fingerprint (z_ratchet_state1 z)) rf2 a) = Inr (z_ratchet_state1 z)"
  shows "\<exists>rs frags' w1 b2 c2 x2. deliver (Context_receive C B (\<lambda>_. True, mtu') send_to addr) fs w = (rs, frags', w1) \<and>
    concluded rs Unassociated \<and>
    on_wire C mtu' (Packet (b2_kid_send b2) (to_nonce PACKET_TYPE_HANDSHAKE_RESPONSE c2) x2) (Some (b2_hk_send b2)) frags' \<and>
    answered C pub_of ident z b2 c2 x2 \<and> b2_kid_recv b2 \<noteq> 0 \<and> ctx_session_map w1 (b2_kid_recv b2) = None \<and>
    ctx_b2_map w1 (b2_kid_recv b2) = Some b2 \<and> w_sent w1 = [] \<and> stored (w_app w1) = stored (w_app w)"
proof -
  obtain a1 kid e1 r1 r2 rf2 hk where z: "z_beta z = A1 a1" "a1_identity a1 = ident" "recv_kid z True = Some kid"
    "kem_generate C r1 = ((a1_e1_secret a1, e1), r2)"
    "read_x1 C (ctx_s_secret w) (to_nonce PACKET_TYPE_HANDSHAKE_HELLO c) x1 =
       Inr (kid, pub_of (a1_e_secret a1), e1, rs_fingerprint (z_ratchet_state1 z), rf2, a1_noise a1)"
    "z_defrag z = DefragBuffer_new (Some hk)" "get_ask C (a1_noise a1) LABEL_HEADER_KEY = (hk, z_hk_send z)"
    using o unfolding offered_def by blast
  have f': "send_with_fragmentation C (\<lambda>_. True) (max mtu MIN_TRANSPORT_MTU) 0
      (to_packet_nonce (to_nonce PACKET_TYPE_HANDSHAKE_HELLO c)) (x1 @ resp) None = (Ok (), frags)"
    using f(1) by (simp add: on_wire_def)
  obtain d a where d: "ticked B (w_app w) a"
    "deliver (Context_receive C B (\<lambda>_. True, mtu') send_to addr) fs w =
      (case flush C (Some (\<lambda>_. True, mtu'))
         (case received_x1_trans C B (to_nonce PACKET_TYPE_HANDSHAKE_HELLO c) x1 (w\<lparr>w_app := a, ctx_hello_defrag := d\<rparr>) of
            (r, w) \<Rightarrow> (map_outcome id (\<lambda>_. Unassociated) r, w)) of
       (r, out, w) \<Rightarrow> (replicate (length frags - 1) (Ok Unassociated) @ [r], out, w))"
    using hello_delivery [OF C max.cobounded2 refl f(2) f' f(3) w(1) _ _ w(3)] w(2) by (simp add: DefragBuffer_new_def) blast
  have a: "stored a = stored (w_app w)" by (rule ticked_stored [OF B(1) d(1)])
  let ?w = "w\<lparr>w_app := a, ctx_hello_defrag := d\<rparr>" and ?rs = "z_ratchet_state1 z"
  obtain aB where aB: "find_ratchet_state B (rs_fingerprint ?rs) rf2 (w_app ?w) = (Inr ?rs, aB)"
    using B(3) [OF a, of rf2] by (cases "find_ratchet_state B (rs_fingerprint ?rs) rf2 a") simp
  have "stored aB = stored (w_app w)" using find_ratchet_state_stored [OF B(1) aB] a by simp
  have x1: "read_x1 C (ctx_s_secret ?w) (to_nonce PACKET_TYPE_HANDSHAKE_HELLO c) x1 =
       Inr (kid, pub_of (a1_e_secret a1), e1, rs_fingerprint ?rs, rf2, a1_noise a1)" using z(5) by simp
  have kids: "kids_live C (ctx_session_map ?w)" using B(2) by simp
  obtain e n2 x2 g kidB n3 x2' c2 b2 w1 hkB where x2: "received_x1_trans C B (to_nonce PACKET_TYPE_HANDSHAKE_HELLO c) x1 ?w = (Ok (), w1)"
    "write_x2_tokens C (pub_of (a1_e_secret a1)) e1 (rs_key ?rs) (a1_noise a1) (ctx_rng ?w) = (Inr (e, n2, x2), g)"
    "write_x2_payload C n2 x2 kidB = (n3, x2', c2)" "kidB \<noteq> 0"
    "w_sent w1 = w_sent ?w @ [(Packet kid (to_nonce PACKET_TYPE_HANDSHAKE_RESPONSE c2) x2', Some (b2_hk_send b2))]"
    "ctx_b2_map w1 kidB = Some b2" "b2_noise b2 = n3" "b2_e_secret b2 = e" "b2_kid_send b2 = kid"
    "b2_kid_recv b2 = kidB" "b2_ratchet_state b2 = ?rs" "b2_defrag b2 = DefragBuffer_new (Some hkB)"
    "get_ask C (a1_noise a1) LABEL_HEADER_KEY = (b2_hk_send b2, hkB)"
    "ctx_session_map w1 kidB = None" "w_app w1 = aB"
    using received_x1_live [OF C x1 z(4) aB kids] by auto
  have a2: "answered C pub_of ident z b2 c2 x2'"
    unfolding answered_def using read_x2_follows [OF C z(4) x2(2,3,4)] z(1-3,6,7) x2(7-13) by auto
  have "length x2' = HANDSHAKE_RESPONSE_SIZE" using a2 unfolding answered_def by blast
  then obtain frags' where "flush C (Some (\<lambda>_. True, mtu')) (Ok Unassociated :: (receive_error, receive_ok) outcome, w1) =
      (Ok Unassociated, frags', w1\<lparr>w_sent := []\<rparr>)"
    "on_wire C mtu' (Packet kid (to_nonce PACKET_TYPE_HANDSHAKE_RESPONSE c2) x2') (Some (b2_hk_send b2)) frags'"
    using emitted_on_wire [OF C(2), of w1 kid PACKET_TYPE_HANDSHAKE_RESPONSE c2 x2' "Some (b2_hk_send b2)" mtu' "Ok Unassociated"] x2(5) w(1)
    by (auto simp: zssp_sizes)
  then show ?thesis
    using d(2) x2(1,4,6,9,10,14,15) a2 \<open>stored aB = _\<close>
    by (intro exI [of _ "replicate (length frags - 1) (Ok Unassociated) @ [Ok Unassociated]"] exI [of _ frags']
      exI [of _ "w1\<lparr>w_sent := []\<rparr>"] exI [of _ b2] exI [of _ c2] exI [of _ x2']) (auto simp: concluded_def)
qed

text \<open>The third message fits into the pieces of the smallest MTU.\<close>

lemma x3_sizes:
  fixes b2 :: "'kp state_b2"
  assumes "crypto_correct C pub_of" "crypto_sized C"
    "write_x3 C sA (pub_of (b2_e_secret b2)) ident (b2_noise b2) = (n4, x3)" "length ident \<le> IDENTITY_MAX_SIZE"
  shows "AES_GCM_TAG_SIZE \<le> length x3" "length x3 \<le> MAX_FRAGMENTS * (MIN_TRANSPORT_MTU - HEADER_SIZE)"
  using read_x3_follows [OF assms] by (auto simp: read_x3_def zssp_sizes split: if_splits)

lemma session_held_after:
  "session_held kid s z w \<Longrightarrow> ctx_session_map w' = ctx_session_map w \<Longrightarrow> session_held kid s z' (put_zeta s z' w'\<lparr>w_sent := []\<rparr>)"
  by (simp add: session_held_def put_zeta_def)

lemma answer_completed:
  assumes C: "crypto_correct C pub_of" "crypto_sized C" and a: "answered C pub_of ident z b2 c x2"
    and f: "on_wire C mtu (Packet (b2_kid_send b2) (to_nonce PACKET_TYPE_HANDSHAKE_RESPONSE c) x2) (Some (b2_hk_send b2)) frags"
      "mset fs = mset frags"
    and z: "session_held (b2_kid_send b2) s z w" "fresh_with z pkB (stored (w_app w) pkB)" and A: "storage_live A stored"
    and x3: "write_x3 C (ctx_s_secret w) (pub_of (b2_e_secret b2)) ident (b2_noise b2) = (n4, x3)" "length ident \<le> IDENTITY_MAX_SIZE"
  shows "\<exists>rs frags' w1 z1. deliver (Context_receive C A reply (\<lambda>_. Some (\<lambda>_. True, mtu')) addr) fs w = (rs, frags', w1) \<and>
    concluded rs (SessionOk s Control) \<and>
    on_wire C mtu' (Packet (b2_kid_recv b2) (to_nonce PACKET_TYPE_HANDSHAKE_COMPLETION 0) x3) (Some (z_hk_send z)) frags' \<and>
    session_held (b2_kid_send b2) s z1 w1 \<and> is_a3 (z_beta z1) \<and>
    key_ref z1 True = initiator_keys C n4 (b2_kid_recv b2) (b2_kid_send b2) \<and>
    z_ratchet_state1 z1 = derived_ratchet C n4 (rs_chain_len (b2_ratchet_state b2)) \<and> z_hk_send z1 = z_hk_send z \<and>
    db_hk_recv (z_defrag z1) = Some (b2_hk_send b2) \<and>
    db_fragment_map (z_defrag z1) (to_packet_nonce (to_nonce PACKET_TYPE_KEY_CONFIRM 0)) = None \<and>
    fresh_with z1 pkB (stored (w_app w1) pkB)"
proof -
  let ?p = "PACKET_TYPE_HANDSHAKE_RESPONSE"
  let ?n = "to_packet_nonce (to_nonce ?p c)"
  from a obtain a1 noise where r: "z_beta z = A1 a1" "a1_identity a1 = ident" "recv_kid z True = Some (b2_kid_send b2)"
    "length x2 = HANDSHAKE_RESPONSE_SIZE" "c < COUNTER_WINDOW_MAX_SKIP_AHEAD"
    "drop 9 (to_nonce ?p c) = drop (length x2 - 3) x2"
    "read_x2_tokens C a1 x2 = Inr (pub_of (b2_e_secret b2), 1633, noise)"
    "test_ratchet_key C noise (subslice 1633 1637 x2) (subslice 1637 1653 x2) (rs_key (z_ratchet_state1 z))
       = Some (b2_kid_recv b2, b2_noise b2)"
    and hk: "z_ratchet_state1 z = b2_ratchet_state b2" "z_defrag z = DefragBuffer_new (Some (b2_hk_send b2))"
    unfolding answered_def by auto
  have v: "session_vrfy z ?n k cnt = None" for k cnt using r(1,5) by (simp add: session_vrfy_def not_le)
  have f': "send_with_fragmentation C (\<lambda>_. True) (max mtu MIN_TRANSPORT_MTU) (b2_kid_send b2) ?n x2 (Some (b2_hk_send b2)) = (Ok (), frags)"
    and l: "AES_GCM_TAG_SIZE \<le> length x2" "length ?n = PACKET_NONCE_SIZE"
    and d0: "db_hk_recv (z_defrag z) = Some (b2_hk_send b2)" "db_fragment_map (z_defrag z) ?n = None"
    using f(1) r(4) hk(2) by (simp_all add: on_wire_def zssp_sizes DefragBuffer_new_def)
  obtain d a h where d: "ticked A (w_app w) a" "same_but ?n (z_defrag z) d"
    "deliver (Context_receive C A reply (\<lambda>_. Some (\<lambda>_. True, mtu')) addr) fs w =
      (case flush C (Some (\<lambda>_. True, mtu')) (case dispatch C A s (b2_kid_send b2) ?n x2 (z\<lparr>z_defrag := d\<rparr>) (w\<lparr>w_app := a, ctx_heap := h\<rparr>) of
         (r, z, w) \<Rightarrow> (map_outcome id (SessionOk s) r, put_zeta s z w)) of
       (r, out, w) \<Rightarrow> (replicate (length frags - 1) (Ok Unassociated) @ [r], out, w))"
    using session_delivery [OF C max.cobounded2 l f' f(2) v z(1) d0, of A reply "\<lambda>_. Some (\<lambda>_. True, mtu')" addr] by auto
  let ?z = "z\<lparr>z_defrag := d\<rparr>" and ?w = "w\<lparr>w_app := a, ctx_heap := h\<rparr>"
  have st: "stored (w_app ?w) (z_s_remote ?z) = ratchet_states_new (z_ratchet_state1 ?z) (z_ratchet_state2 ?z)"
    using z(2) ticked_stored [OF A d(1)] by (simp add: fresh_with_def)
  have "\<exists>z1 w1. received_x2_trans C A s (b2_kid_send b2) (to_nonce ?p c) x2 ?z ?w = (Ok False, z1, w1) \<and>
    w_sent w1 = [(Packet (b2_kid_recv b2) (to_nonce PACKET_TYPE_HANDSHAKE_COMPLETION 0) x3, Some (z_hk_send z))] \<and>
    ctx_session_map w1 = ctx_session_map w \<and> is_a3 (z_beta z1) \<and> key_ref z1 True = initiator_keys C n4 (b2_kid_recv b2) (b2_kid_send b2) \<and>
    z_ratchet_state1 z1 = derived_ratchet C n4 (rs_chain_len (b2_ratchet_state b2)) \<and> z_hk_send z1 = z_hk_send z \<and>
    z_defrag z1 = d \<and> fresh_with z1 pkB (stored (w_app w1) pkB)"
    using received_x2_live [OF _ _ A st r(4-7), of "b2_kid_send b2" "b2_kid_recv b2" "b2_noise b2" n4 x3 s] r(1-3,8) x3(1) hk(1) z
    by (auto simp: recv_kid_def key_ref_def fresh_with_def session_held_def)
  then obtain z1 w1 where x2: "received_x2_trans C A s (b2_kid_send b2) (to_nonce ?p c) x2 ?z ?w = (Ok False, z1, w1)"
    "w_sent w1 = [(Packet (b2_kid_recv b2) (to_nonce PACKET_TYPE_HANDSHAKE_COMPLETION 0) x3, Some (z_hk_send z))]"
    "ctx_session_map w1 = ctx_session_map w" and z1: "is_a3 (z_beta z1)" "key_ref z1 True = initiator_keys C n4 (b2_kid_recv b2) (b2_kid_send b2)"
    "z_ratchet_state1 z1 = derived_ratchet C n4 (rs_chain_len (b2_ratchet_state b2))" "z_hk_send z1 = z_hk_send z"
    "z_defrag z1 = d" "fresh_with z1 pkB (stored (w_app w1) pkB)" by blast
  have ws: "w_sent (put_zeta s z1 w1) = [(Packet (b2_kid_recv b2) (to_nonce PACKET_TYPE_HANDSHAKE_COMPLETION 0) x3, Some (z_hk_send z))]"
    using x2(2) by (simp add: put_zeta_def)
  obtain frags' where fl: "flush C (Some (\<lambda>_. True, mtu')) (Ok (SessionOk s Control) :: (receive_error, receive_ok) outcome, put_zeta s z1 w1) =
      (Ok (SessionOk s Control), frags', put_zeta s z1 w1\<lparr>w_sent := []\<rparr>)"
    "on_wire C mtu' (Packet (b2_kid_recv b2) (to_nonce PACKET_TYPE_HANDSHAKE_COMPLETION 0) x3) (Some (z_hk_send z)) frags'"
    using emitted_on_wire [OF C(2) ws x3_sizes [OF C x3]] by blast
  have "deliver (Context_receive C A reply (\<lambda>_. Some (\<lambda>_. True, mtu')) addr) fs w =
      (replicate (length frags - 1) (Ok Unassociated) @ [Ok (SessionOk s Control)], frags', put_zeta s z1 w1\<lparr>w_sent := []\<rparr>)"
    unfolding d(3) using x2(1) fl(1) by (simp add: dispatch_def) (simp add: zssp_sizes)
  moreover have "db_hk_recv d = Some (b2_hk_send b2)" "db_fragment_map d (to_packet_nonce (to_nonce PACKET_TYPE_KEY_CONFIRM 0)) = None"
    using d(2) hk(2) packet_nonce_type [of PACKET_TYPE_KEY_CONFIRM ?p 0 c] by (auto simp: same_but_def DefragBuffer_new_def zssp_sizes)
  ultimately show ?thesis
    using z1 fl(2) session_held_after [OF z(1) x2(3)]
    by (intro exI [of _ "replicate (length frags - 1) (Ok Unassociated) @ [Ok (SessionOk s Control)]"] exI [of _ frags']
      exI [of _ "put_zeta s z1 w1\<lparr>w_sent := []\<rparr>"] exI [of _ z1]) (auto simp: concluded_def put_zeta_def)
qed

lemma completion_accepted:
  assumes C: "crypto_correct C pub_of" "crypto_sized C" and a: "answered C pub_of ident z b2 c x2"
    and x3: "write_x3 C sA (pub_of (b2_e_secret b2)) ident (b2_noise b2) = (n4, x3)" "length ident \<le> IDENTITY_MAX_SIZE"
    and f: "on_wire C mtu (Packet (b2_kid_recv b2) (to_nonce PACKET_TYPE_HANDSHAKE_COMPLETION 0) x3) (Some (z_hk_send z)) frags"
      "mset fs = mset frags"
    and w: "b2_kid_recv b2 \<noteq> 0" "ctx_session_map w (b2_kid_recv b2) = None" "ctx_b2_map w (b2_kid_recv b2) = Some b2" "w_sent w = []"
    and B: "storage_live B stored" "ratchets_wf (stored (w_app w) (pub_of sA))"
      "rss_state1 (stored (w_app w) (pub_of sA)) = b2_ratchet_state b2"
      "\<And>a. stored a = stored (w_app w) \<Longrightarrow> aa_session_data (fst (app_check_accept_session B (pub_of sA) ident a)) \<noteq> None"
  shows "\<exists>rs frags' w1 t z1. deliver (Context_receive C B (\<lambda>_. True, mtu') send_to addr) fs w = (rs, frags', w1) \<and>
    concluded rs (SessionOk t NewSession) \<and>
    on_wire C mtu' (control_packet C (b2_kid_send b2) PACKET_TYPE_KEY_CONFIRM (fst (get_ask C n4 LABEL_KEX_KEY))) (Some (b2_hk_send b2)) frags' \<and>
    session_held (b2_kid_recv b2) t z1 w1 \<and> z_beta z1 = S1 \<and> key_ref z1 False = responder_keys C n4 (b2_kid_send b2) (b2_kid_recv b2) \<and>
    z_ratchet_state1 z1 = derived_ratchet C n4 (rs_chain_len (b2_ratchet_state b2)) \<and> z_s_remote z1 = pub_of sA \<and>
    z_hk_send z1 = b2_hk_send b2 \<and> db_hk_recv (z_defrag z1) = Some (z_hk_send z) \<and>
    db_fragment_map (z_defrag z1) (to_packet_nonce (to_nonce PACKET_TYPE_ACK 0)) = None \<and>
    z_counter_antireplay_window z1 = window_new COUNTER_WINDOW_MAX_OOO \<and>
    stored (w_app w1) (pub_of sA) = ratchet_states_new (z_ratchet_state1 z1) None"
proof -
  let ?p = "PACKET_TYPE_HANDSHAKE_COMPLETION" and ?kid = "b2_kid_recv b2"
  let ?n = "to_packet_nonce (to_nonce ?p 0)" and ?tag = "snd (aead_encrypt_in_place C (fst (get_ask C n4 LABEL_KEX_KEY)) (to_nonce PACKET_TYPE_KEY_CONFIRM 0) None [])"
  have hk: "b2_defrag b2 = DefragBuffer_new (Some (z_hk_send z))" using a unfolding answered_def by blast
  have v: "b2_vrfy ?n k cnt = None" for k cnt by (simp add: b2_vrfy_def)
  have f': "send_with_fragmentation C (\<lambda>_. True) (max mtu MIN_TRANSPORT_MTU) ?kid ?n x3 (Some (z_hk_send z)) = (Ok (), frags)"
    and l: "length ?n = PACKET_NONCE_SIZE"
    and d0: "db_hk_recv (b2_defrag b2) = Some (z_hk_send z)" "db_fragment_map (b2_defrag b2) ?n = None"
    using f(1) hk by (simp_all add: on_wire_def zssp_sizes DefragBuffer_new_def)
  obtain d a m where d: "ticked B (w_app w) a" "same_but ?n (b2_defrag b2) d"
    "deliver (Context_receive C B (\<lambda>_. True, mtu') send_to addr) fs w =
      (case flush C (Some (\<lambda>_. True, mtu')) (case received_x3_trans C B (b2\<lparr>b2_defrag := d\<rparr>) ?kid x3 (w\<lparr>w_app := a, ctx_b2_map := m\<rparr>) of
         (r, w) \<Rightarrow> (map_outcome id (\<lambda>(session, warn). SessionOk session (if warn then NewDowngradedSession else NewSession)) r, w)) of
       (r, out, w) \<Rightarrow> (replicate (length frags - 1) (Ok Unassociated) @ [r], out, w))"
    using pending_delivery [OF C max.cobounded2 x3_sizes(1) [OF C x3] l f' f(2) v w d0, of B "(\<lambda>_. True, mtu')" send_to addr] by auto
  let ?b = "b2\<lparr>b2_defrag := d\<rparr>" and ?w = "w\<lparr>w_app := a, ctx_b2_map := m\<rparr>"
  have st: "stored a = stored (w_app w)" by (rule ticked_stored [OF B(1) d(1)])
  obtain data where data: "aa_session_data (fst (app_check_accept_session B (pub_of sA) ident (w_app ?w))) = Some data"
    using B(4) [OF st] by auto
  have "read_x3 C ?b ?kid x3 = Inr (pub_of sA, ident, n4)" using read_x3_follows [OF C _ x3(2), of sA ?b n4 x3] x3(1) by simp
  from received_x3_live [OF this _ B(1) _ _ data] w(2,4) B(2,3) st obtain t w1 z1 where
    x3': "received_x3_trans C B ?b ?kid x3 ?w = (Ok (t, False), w1)" "ctx_heap w1 t = Some z1" "ctx_session_map w1 ?kid = Some t"
    and ws: "w_sent w1 = [(Packet (b2_kid_send b2) (to_nonce PACKET_TYPE_KEY_CONFIRM 0) ?tag, Some (b2_hk_send b2))]"
    and z1: "z_beta z1 = S1" "key_ref z1 False = responder_keys C n4 (b2_kid_send b2) ?kid"
    "z_ratchet_state1 z1 = derived_ratchet C n4 (rs_chain_len (b2_ratchet_state b2))" "z_ratchet_state2 z1 = None"
    "z_s_remote z1 = pub_of sA" "z_hk_send z1 = b2_hk_send b2" "z_defrag z1 = d"
    "z_counter_antireplay_window z1 = window_new COUNTER_WINDOW_MAX_OOO"
    "stored (w_app w1) (pub_of sA) = ratchet_states_new (z_ratchet_state1 z1) (z_ratchet_state2 z1)" by auto
  have tag: "AES_GCM_TAG_SIZE \<le> length ?tag" "length ?tag \<le> MAX_FRAGMENTS * (MIN_TRANSPORT_MTU - HEADER_SIZE)"
    using control_tag(2) [OF C] by (simp_all add: zssp_sizes)
  obtain frags' where fl: "flush C (Some (\<lambda>_. True, mtu')) (Ok (SessionOk t NewSession) :: (receive_error, receive_ok) outcome, w1) =
      (Ok (SessionOk t NewSession), frags', w1\<lparr>w_sent := []\<rparr>)"
    "on_wire C mtu' (Packet (b2_kid_send b2) (to_nonce PACKET_TYPE_KEY_CONFIRM 0) ?tag) (Some (b2_hk_send b2)) frags'"
    using emitted_on_wire [OF C(2) ws tag] by blast
  have "db_hk_recv d = Some (z_hk_send z)" "db_fragment_map d (to_packet_nonce (to_nonce PACKET_TYPE_ACK 0)) = None"
    using d(2) hk packet_nonce_type [of PACKET_TYPE_ACK ?p 0 0] by (auto simp: same_but_def DefragBuffer_new_def zssp_sizes)
  then show ?thesis
    using d(3) x3' z1 fl w(1)
    by (intro exI [of _ "replicate (length frags - 1) (Ok Unassociated) @ [Ok (SessionOk t NewSession)]"] exI [of _ frags']
      exI [of _ "w1\<lparr>w_sent := []\<rparr>"] exI [of _ t] exI [of _ z1]) (auto simp: concluded_def control_packet_def session_held_def)
qed

lemma control_fits:
  assumes "crypto_correct C pub_of" "crypto_sized C"
  shows "AES_GCM_TAG_SIZE \<le> length (p_payload (control_packet C kid p kek))"
    and "length (p_payload (control_packet C kid p kek)) \<le> MAX_FRAGMENTS * (MIN_TRANSPORT_MTU - HEADER_SIZE)"
  using control_tag(2) [OF assms] by (simp_all add: control_packet_def zssp_sizes)

text \<open>A control message at a session whose window is fresh.\<close>

lemma control_delivery:
  assumes C: "crypto_correct C pub_of" "crypto_sized C"
    and f: "on_wire C mtu (control_packet C kid p kek) (Some hk) frags" "mset fs = mset frags"
      "p = PACKET_TYPE_KEY_CONFIRM \<or> p = PACKET_TYPE_ACK"
    and z: "session_held kid s z w" "z_counter_antireplay_window z = window_new COUNTER_WINDOW_MAX_OOO"
      "db_hk_recv (z_defrag z) = Some hk" "db_fragment_map (z_defrag z) (to_packet_nonce (to_nonce p 0)) = None"
  shows "\<exists>d a h. ticked A (w_app w) a \<and> same_but (to_packet_nonce (to_nonce p 0)) (z_defrag z) d \<and>
    deliver (Context_receive C A reply send_to addr) fs w =
      (case flush C (send_to s) (case dispatch C A s kid (to_packet_nonce (to_nonce p 0)) (p_payload (control_packet C kid p kek))
          (z\<lparr>z_defrag := d\<rparr>) (w\<lparr>w_app := a, ctx_heap := h\<rparr>) of
         (r, z, w) \<Rightarrow> (map_outcome id (SessionOk s) r, put_zeta s z w)) of
       (r, out, w) \<Rightarrow> (replicate (length frags - 1) (Ok Unassociated) @ [r], out, w))"
proof -
  let ?n = "to_packet_nonce (to_nonce p 0)"
  have "check_counter_window (window_new COUNTER_WINDOW_MAX_OOO) 0"
    by (simp add: check_counter_window_def window_slot_def window_new_def saturating_add_def zssp_sizes)
  then have v: "session_vrfy z ?n k cnt = None" for k cnt
    using f(3) z(2) by (auto simp: session_vrfy_def zeta_check_counter_window_def zssp_sizes)
  have f': "send_with_fragmentation C (\<lambda>_. True) (max mtu MIN_TRANSPORT_MTU) kid ?n (p_payload (control_packet C kid p kek)) (Some hk) = (Ok (), frags)"
    and l: "length ?n = PACKET_NONCE_SIZE"
    using f(1) by (simp_all add: on_wire_def zssp_sizes control_packet_def)
  show ?thesis by (rule session_delivery [OF C max.cobounded2 control_fits(1) [OF C] l f' f(2) v z(1,3,4)])
qed

lemma confirmation_taken:
  assumes C: "crypto_correct C pub_of" "layer_ok C" and A: "storage_live A stored"
    and f: "on_wire C mtu (control_packet C kidA PACKET_TYPE_KEY_CONFIRM (fst (get_ask C n LABEL_KEX_KEY))) (Some hk) frags"
      "mset fs = mset frags"
    and z: "session_held kidA s z w" "is_a3 (z_beta z)" "key_ref z True = initiator_keys C n kidB kidA"
      "fresh_with z pk (stored (w_app w) pk)" "db_hk_recv (z_defrag z) = Some hk"
      "db_fragment_map (z_defrag z) (to_packet_nonce (to_nonce PACKET_TYPE_KEY_CONFIRM 0)) = None"
  shows "\<exists>rs frags' w1 z1. deliver (Context_receive C A reply (\<lambda>_. Some (\<lambda>_. True, mtu')) addr) fs w = (rs, frags', w1) \<and>
    concluded rs (SessionOk s Established) \<and>
    on_wire C mtu' (control_packet C kidB PACKET_TYPE_ACK (snd (get_ask C n LABEL_KEX_KEY))) (Some (z_hk_send z)) frags' \<and>
    session_held kidA s z1 w1 \<and> z_beta z1 = S2 \<and> key_ref z1 False = key_ref z True \<and> z_ratchet_state1 z1 = z_ratchet_state1 z \<and>
    z_s_remote z1 = pk \<and> z_hk_send z1 = z_hk_send z \<and> db_hk_recv (z_defrag z1) = Some hk \<and>
    stored (w_app w1) pk = ratchet_states_new (z_ratchet_state1 z) None"
proof -
  let ?kex = "get_ask C n LABEL_KEX_KEY" and ?c = "to_nonce PACKET_TYPE_KEY_CONFIRM 0"
  let ?ack = "control_packet C kidB PACKET_TYPE_ACK (snd ?kex)"
  have C': "crypto_sized C" using C(2) by (simp add: layer_ok_def)
  have win: "z_counter_antireplay_window z = window_new COUNTER_WINDOW_MAX_OOO" "z_send_counter z = 0" "z_s_remote z = pk"
    using z(4) by (simp_all add: fresh_with_def)
  obtain d a h where d: "ticked A (w_app w) a" "same_but (to_packet_nonce ?c) (z_defrag z) d"
    "deliver (Context_receive C A reply (\<lambda>_. Some (\<lambda>_. True, mtu')) addr) fs w =
      (case flush C (Some (\<lambda>_. True, mtu')) (case dispatch C A s kidA (to_packet_nonce ?c)
          (p_payload (control_packet C kidA PACKET_TYPE_KEY_CONFIRM (fst ?kex))) (z\<lparr>z_defrag := d\<rparr>) (w\<lparr>w_app := a, ctx_heap := h\<rparr>) of
         (r, z, w) \<Rightarrow> (map_outcome id (SessionOk s) r, put_zeta s z w)) of
       (r, out, w) \<Rightarrow> (replicate (length frags - 1) (Ok Unassociated) @ [r], out, w))"
    using control_delivery [OF C(1) C' f disjI1 [OF refl] z(1) win(1) z(5,6), of A reply "\<lambda>_. Some (\<lambda>_. True, mtu')" addr] by auto
  let ?z = "z\<lparr>z_defrag := d\<rparr>" and ?w = "w\<lparr>w_app := a, ctx_heap := h\<rparr>"
  have k: "recv_kid ?z True = Some kidA" "key_kek (dk_recv (key_ref ?z True)) = Some (fst ?kex)"
    "key_kek (dk_send (key_ref ?z True)) = Some (snd ?kex)" "key_kid (dk_send (key_ref ?z True)) = Some kidB"
    using z(3) by (simp_all add: recv_kid_def initiator_keys_def key_ref_def)
  have h: "z_send_counter ?z < HARD_EXPIRATION" using win(2) by (simp add: zssp_sizes word_gt_0)
  have st: "stored (w_app ?w) (z_s_remote ?z) = ratchet_states_new (z_ratchet_state1 ?z) (z_ratchet_state2 ?z)"
    using z(4) ticked_stored [OF A d(1)] by (simp add: fresh_with_def)
  have a3: "is_a3 (z_beta ?z)" and win': "update_counter_window (z_counter_antireplay_window ?z) 0 = (True, (window_new COUNTER_WINDOW_MAX_OOO)[0 := 1])"
    using z(2) win(1) fresh_window_takes_zero by simp_all
  obtain z1 w1 q where c1: "received_c1_trans C A kidA ?c (snd (aead_encrypt_in_place C (fst ?kex) ?c None [])) ?z ?w = (Ok True, z1, w1)"
    "last_sent w1 = ?ack" "w_sent w1 = w_sent ?w @ [(q, Some (z_hk_send z))]" "ctx_session_map w1 = ctx_session_map w"
    and z1: "z_beta z1 = S2" "key_ref z1 False = key_ref z True" "z_ratchet_state1 z1 = z_ratchet_state1 z" "z_s_remote z1 = pk"
    "z_hk_send z1 = z_hk_send z" "z_defrag z1 = d" "stored (w_app w1) pk = ratchet_states_new (z_ratchet_state1 z) None"
    using received_c1_live [OF C disjI1 [OF a3] k h win' A st refl, where p = PACKET_TYPE_KEY_CONFIRM] a3 win z(3)
    by (auto simp: control_packet_def key_ref_def)
  have ws: "w_sent (put_zeta s z1 w1) = [(?ack, Some (z_hk_send z))]"
    using c1(2,3) z(1) by (simp add: put_zeta_def last_sent_def session_held_def)
  obtain frags' where fl: "flush C (Some (\<lambda>_. True, mtu')) (Ok (SessionOk s Established) :: (receive_error, receive_ok) outcome, put_zeta s z1 w1) =
      (Ok (SessionOk s Established), frags', put_zeta s z1 w1\<lparr>w_sent := []\<rparr>)" "on_wire C mtu' ?ack (Some (z_hk_send z)) frags'"
    using emitted_on_wire [OF C' ws [unfolded control_packet_def]] control_fits [OF C(1) C', of kidB PACKET_TYPE_ACK "snd ?kex"]
    by (auto simp: control_packet_def)
  have "deliver (Context_receive C A reply (\<lambda>_. Some (\<lambda>_. True, mtu')) addr) fs w =
      (replicate (length frags - 1) (Ok Unassociated) @ [Ok (SessionOk s Established)], frags', put_zeta s z1 w1\<lparr>w_sent := []\<rparr>)"
    unfolding d(3) using c1(1) fl(1) by (simp add: dispatch_def control_packet_def) (simp add: zssp_sizes)
  moreover have "db_hk_recv d = Some hk" using d(2) z(5) by (simp add: same_but_def)
  ultimately show ?thesis
    using z1 fl(2) session_held_after [OF z(1) c1(4)]
    by (intro exI [of _ "replicate (length frags - 1) (Ok Unassociated) @ [Ok (SessionOk s Established)]"] exI [of _ frags']
      exI [of _ "put_zeta s z1 w1\<lparr>w_sent := []\<rparr>"] exI [of _ z1]) (auto simp: concluded_def put_zeta_def)
qed

lemma acknowledgement_taken:
  assumes C: "crypto_correct C pub_of" "layer_ok C" and B: "storage_live B stored"
    and f: "on_wire C mtu (control_packet C kidB PACKET_TYPE_ACK (snd (get_ask C n LABEL_KEX_KEY))) (Some hk) frags"
      "mset fs = mset frags"
    and z: "session_held kidB t z w" "z_beta z = S1" "key_ref z False = responder_keys C n kidA kidB"
      "z_counter_antireplay_window z = window_new COUNTER_WINDOW_MAX_OOO" "db_hk_recv (z_defrag z) = Some hk"
      "db_fragment_map (z_defrag z) (to_packet_nonce (to_nonce PACKET_TYPE_ACK 0)) = None"
  shows "\<exists>rs w1 z1. deliver (Context_receive C B reply send_to addr) fs w = (rs, [], w1) \<and>
    concluded rs (SessionOk t Control) \<and> session_held kidB t z1 w1 \<and> z_beta z1 = S2 \<and> key_ref z1 False = key_ref z False \<and>
    z_ratchet_state1 z1 = z_ratchet_state1 z \<and> z_s_remote z1 = z_s_remote z \<and> z_hk_send z1 = z_hk_send z \<and>
    db_hk_recv (z_defrag z1) = Some hk \<and> stored (w_app w1) = stored (w_app w)"
proof -
  let ?kek = "snd (get_ask C n LABEL_KEX_KEY)" and ?c = "to_nonce PACKET_TYPE_ACK 0"
  have C': "crypto_sized C" using C(2) by (simp add: layer_ok_def)
  obtain d a h where d: "ticked B (w_app w) a" "same_but (to_packet_nonce ?c) (z_defrag z) d"
    "deliver (Context_receive C B reply send_to addr) fs w =
      (case flush C (send_to t) (case dispatch C B t kidB (to_packet_nonce ?c)
          (p_payload (control_packet C kidB PACKET_TYPE_ACK ?kek)) (z\<lparr>z_defrag := d\<rparr>) (w\<lparr>w_app := a, ctx_heap := h\<rparr>) of
         (r, z, w) \<Rightarrow> (map_outcome id (SessionOk t) r, put_zeta t z w)) of
       (r, out, w) \<Rightarrow> (replicate (length frags - 1) (Ok Unassociated) @ [r], out, w))"
    using control_delivery [OF C(1) C' f disjI2 [OF refl] z(1,4,5,6), of B reply send_to addr] by auto
  let ?z = "z\<lparr>z_defrag := d\<rparr>" and ?w = "w\<lparr>w_app := a, ctx_heap := h\<rparr>"
  have k: "z_beta ?z = S1" "recv_kid ?z False = Some kidB" "key_kek (dk_recv (key_ref ?z False)) = Some ?kek"
    and win: "update_counter_window (z_counter_antireplay_window ?z) 0 = (True, (window_new COUNTER_WINDOW_MAX_OOO)[0 := 1])"
    using z(2-4) fresh_window_takes_zero by (simp_all add: recv_kid_def responder_keys_def key_ref_def)
  obtain t1 g a' where c2: "received_c2_trans C B kidB ?c (snd (aead_encrypt_in_place C ?kek ?c None [])) ?z ?w
     = (Ok (), ?z\<lparr>z_counter_antireplay_window := (window_new COUNTER_WINDOW_MAX_OOO)[0 := 1], z_timeout_timer := t1, z_resend_timer := I64_MAX, z_beta := S2\<rparr>,
        ?w\<lparr>ctx_rng := g, w_app := a'\<rparr>)" "a' = snd (app_time B (w_app ?w))"
    using received_c2_live [OF C k win refl, where A = B and w = ?w and p = PACKET_TYPE_ACK] by blast
  let ?z1 = "?z\<lparr>z_counter_antireplay_window := (window_new COUNTER_WINDOW_MAX_OOO)[0 := 1], z_timeout_timer := t1, z_resend_timer := I64_MAX, z_beta := S2\<rparr>"
  let ?w1 = "put_zeta t ?z1 (?w\<lparr>ctx_rng := g, w_app := a'\<rparr>)"
  have "ticked B (w_app w) a'" using ticked_step [OF d(1) prod.collapse [symmetric]] c2(2) by simp
  then have st: "stored (w_app ?w1) = stored (w_app w)" using ticked_stored [OF B] by (simp add: put_zeta_def)
  have ws: "w_sent ?w1 = []" using z(1) by (simp add: put_zeta_def session_held_def)
  have fl: "flush C (send_to t) (Ok (SessionOk t Control) :: (receive_error, receive_ok) outcome, ?w1) = (Ok (SessionOk t Control), [], ?w1)"
    by (rule flush_quiet [OF ws])
  have "deliver (Context_receive C B reply send_to addr) fs w =
      (replicate (length frags - 1) (Ok Unassociated) @ [Ok (SessionOk t Control)], [], ?w1)"
    unfolding d(3) using c2(1) fl by (simp add: dispatch_def control_packet_def) (simp add: zssp_sizes)
  moreover have "db_hk_recv d = Some hk" using d(2) z(5) by (simp add: same_but_def)
  ultimately show ?thesis
    using st z(1)
    by (intro exI [of _ "replicate (length frags - 1) (Ok Unassociated) @ [Ok (SessionOk t Control)]"] exI [of _ ?w1] exI [of _ ?z1])
       (auto simp: concluded_def put_zeta_def session_held_def key_ref_def)
qed

section \<open>The handshake\<close>

text \<open>C8: The honest handshake completes and both ends agree. Alice opens a session to Bob's static
  key with \<open>Context::open\<close>; every fragment of the five messages is given once, in any order
  within its message, to \<open>Context::receive\<close> of the other context, with any two MTUs. Bob's
  context asks for no proof of work and has no hello half assembled, both storages apply
  updates that compare equal, both generators find fresh key ids, both ends have the same
  ratchet state stored first for each other, and Bob recognises its fingerprint and accepts
  Alice. Then no call fails: a call answers with nothing until the last fragment of its
  message, and with the event of the message there. Both sessions are registered under the
  key ids of their receiving keys and are in state S2, each end's sending keys (with their
  key ids) are the other's receiving keys, also the header keys, both hold the same new
  ratchet state, have stored it for the other's static key, and have forgotten the old one.\<close>

theorem xk_handshake_agrees:
  fixes A :: "('pk, 'd, 'a) application_layer" and B :: "('pk, 'e, 'b) application_layer"
  assumes C: "crypto_correct C pub_of" "layer_ok C" and net: "\<And>i fs. mset (net i fs) = mset fs"
    and A: "storage_live A storedA" "ratchets_wf (storedA (w_app wA) (pub_of (ctx_s_secret wB)))"
      "kids_live C (ctx_session_map wA)" "w_sent wA = []"
    and B: "storage_live B storedB" "ratchets_wf (storedB (w_app wB) (pub_of (ctx_s_secret wA)))"
      "kids_live C (ctx_session_map wB)" "w_sent wB = []"
      "ctx_hello_defrag wB = DefragBuffer_new None" "\<not> cc_enabled (ctx_challenge wB)"
    and sync: "rss_state1 (storedA (w_app wA) (pub_of (ctx_s_secret wB))) = rs"
      "rss_state1 (storedB (w_app wB) (pub_of (ctx_s_secret wA))) = rs"
      "\<And>a rf2. storedB a = storedB (w_app wB) \<Longrightarrow> fst (find_ratchet_state B (rs_fingerprint rs) rf2 a) = Inr rs"
      "\<And>a. storedB a = storedB (w_app wB) \<Longrightarrow>
         aa_session_data (fst (app_check_accept_session B (pub_of (ctx_s_secret wA)) ident a)) \<noteq> None"
    and ident: "length ident \<le> IDENTITY_MAX_SIZE"
  shows "\<exists>s t r1 r2 r3 r4 r5 wA' wB' zA zB kidA kidB rs'.
    xk_handshake C A B net nodeA nodeB (pub_of (ctx_s_secret wB)) d ident wA wB = (Ok s, [r1, r2, r3, r4, r5], [], wA', wB') \<and>
    concluded r1 Unassociated \<and> concluded r2 (SessionOk s Control) \<and> concluded r3 (SessionOk t NewSession) \<and>
    concluded r4 (SessionOk s Established) \<and> concluded r5 (SessionOk t Control) \<and>
    session_held kidA s zA wA' \<and> session_held kidB t zB wB' \<and>
    recv_kid zA False = Some kidA \<and> recv_kid zB False = Some kidB \<and>
    z_beta zA = S2 \<and> z_beta zB = S2 \<and> keys_mirrored (key_ref zA False) (key_ref zB False) \<and>
    Some (z_hk_send zA) = db_hk_recv (z_defrag zB) \<and> Some (z_hk_send zB) = db_hk_recv (z_defrag zA) \<and>
    z_s_remote zA = pub_of (ctx_s_secret wB) \<and> z_s_remote zB = pub_of (ctx_s_secret wA) \<and>
    z_ratchet_state1 zA = rs' \<and> z_ratchet_state1 zB = rs' \<and>
    storedA (w_app wA') (z_s_remote zA) = ratchet_states_new rs' None \<and>
    storedB (w_app wB') (z_s_remote zB) = ratchet_states_new rs' None"
proof -
  let ?sA = "ctx_s_secret wA" and ?sB = "ctx_s_secret wB"
  have C': "crypto_sized C" using C(2) by (simp add: layer_ok_def)
  obtain mtuA addrA mtuB addrB where nodes: "nodeA = (mtuA, addrA)" "nodeB = (mtuB, addrB)" by fastforce
  let ?A = "Context_receive C A (\<lambda>_. True, mtuA) (\<lambda>_. Some (\<lambda>_. True, mtuA)) addrB"
    and ?B = "Context_receive C B (\<lambda>_. True, mtuB) (\<lambda>_. Some (\<lambda>_. True, mtuB)) addrA"
  obtain s kidA z wA1 x1 c p resp where h1: "Context_open C A (\<lambda>_. True) mtuA (pub_of ?sB) d ident wA = (Ok s, x1, wA1)"
    "session_held kidA s z wA1" "recv_kid z True = Some kidA"
    "on_wire C mtuA (Packet 0 (to_nonce PACKET_TYPE_HANDSHAKE_HELLO c) (p @ resp)) None x1" "length resp = CHALLENGE_SIZE"
    "offered C pub_of ?sB ident z (to_nonce PACKET_TYPE_HANDSHAKE_HELLO c) p"
    "fresh_with z (pub_of ?sB) (storedA (w_app wA1) (pub_of ?sB))" "storedA (w_app wA1) = storedA (w_app wA)" "ctx_s_secret wA1 = ?sA"
    using hello_sent [OF C(1) C' A ident, of mtuA d] by blast
  have rs: "z_ratchet_state1 z = rs" using h1(7,8) sync(1) by (simp add: fresh_with_def ratchet_states_new_def)
  obtain r1 x2 wB1 b2 c2 q where h2: "deliver ?B (net 1 x1) wB = (r1, x2, wB1)" "concluded r1 Unassociated"
    "on_wire C mtuB (Packet (b2_kid_send b2) (to_nonce PACKET_TYPE_HANDSHAKE_RESPONSE c2) q) (Some (b2_hk_send b2)) x2"
    "answered C pub_of ident z b2 c2 q" "b2_kid_recv b2 \<noteq> 0" "ctx_session_map wB1 (b2_kid_recv b2) = None"
    "ctx_b2_map wB1 (b2_kid_recv b2) = Some b2" "w_sent wB1 = []" "storedB (w_app wB1) = storedB (w_app wB)"
    using hello_answered [OF C(1) C' h1(6,4,5) net B(4-6,1,3)] sync(3)
    unfolding rs by blast
  have b2: "b2_kid_send b2 = kidA" "b2_ratchet_state b2 = rs" using h2(4) h1(3) rs by (auto simp: answered_def)
  obtain n4 y where y: "write_x3 C ?sA (pub_of (b2_e_secret b2)) ident (b2_noise b2) = (n4, y)" by fastforce
  have held: "session_held (b2_kid_send b2) s z wA1" and y': "write_x3 C (ctx_s_secret wA1) (pub_of (b2_e_secret b2)) ident (b2_noise b2) = (n4, y)"
    using h1(2,9) b2(1) y by simp_all
  obtain r2 x3 wA2 z1 where h3: "deliver ?A (net 2 x2) wA1 = (r2, x3, wA2)" "concluded r2 (SessionOk s Control)"
    "on_wire C mtuA (Packet (b2_kid_recv b2) (to_nonce PACKET_TYPE_HANDSHAKE_COMPLETION 0) y) (Some (z_hk_send z)) x3"
    "session_held (b2_kid_send b2) s z1 wA2" "is_a3 (z_beta z1)"
    "key_ref z1 True = initiator_keys C n4 (b2_kid_recv b2) (b2_kid_send b2)"
    "z_ratchet_state1 z1 = derived_ratchet C n4 (rs_chain_len (b2_ratchet_state b2))" "z_hk_send z1 = z_hk_send z"
    "db_hk_recv (z_defrag z1) = Some (b2_hk_send b2)"
    "db_fragment_map (z_defrag z1) (to_packet_nonce (to_nonce PACKET_TYPE_KEY_CONFIRM 0)) = None"
    "fresh_with z1 (pub_of ?sB) (storedA (w_app wA2) (pub_of ?sB))"
    using answer_completed [OF C(1) C' h2(4,3) net held h1(7) A(1) y' ident] by blast
  have b: "ratchets_wf (storedB (w_app wB1) (pub_of ?sA))" "rss_state1 (storedB (w_app wB1) (pub_of ?sA)) = b2_ratchet_state b2"
    using B(2) sync(2) b2(2) h2(9) by simp_all
  have acc: "\<And>a. storedB a = storedB (w_app wB1) \<Longrightarrow> aa_session_data (fst (app_check_accept_session B (pub_of ?sA) ident a)) \<noteq> None"
    using sync(4) h2(9) by simp
  obtain r3 c1 wB2 t zB1 where h4: "deliver ?B (net 3 x3) wB1 = (r3, c1, wB2)" "concluded r3 (SessionOk t NewSession)"
    "on_wire C mtuB (control_packet C (b2_kid_send b2) PACKET_TYPE_KEY_CONFIRM (fst (get_ask C n4 LABEL_KEX_KEY))) (Some (b2_hk_send b2)) c1"
    "session_held (b2_kid_recv b2) t zB1 wB2" "z_beta zB1 = S1" "key_ref zB1 False = responder_keys C n4 (b2_kid_send b2) (b2_kid_recv b2)"
    "z_ratchet_state1 zB1 = derived_ratchet C n4 (rs_chain_len (b2_ratchet_state b2))" "z_s_remote zB1 = pub_of ?sA"
    "z_hk_send zB1 = b2_hk_send b2" "db_hk_recv (z_defrag zB1) = Some (z_hk_send z)"
    "db_fragment_map (z_defrag zB1) (to_packet_nonce (to_nonce PACKET_TYPE_ACK 0)) = None"
    "z_counter_antireplay_window zB1 = window_new COUNTER_WINDOW_MAX_OOO"
    "storedB (w_app wB2) (pub_of ?sA) = ratchet_states_new (z_ratchet_state1 zB1) None"
    using completion_accepted [OF C(1) C' h2(4) y ident h3(3) net h2(5-8) B(1) b acc] by blast
  obtain r4 c2 wA3 zA where h5: "deliver ?A (net 4 c1) wA2 = (r4, c2, wA3)" "concluded r4 (SessionOk s Established)"
    "on_wire C mtuA (control_packet C (b2_kid_recv b2) PACKET_TYPE_ACK (snd (get_ask C n4 LABEL_KEX_KEY))) (Some (z_hk_send z1)) c2"
    "session_held (b2_kid_send b2) s zA wA3" "z_beta zA = S2" "key_ref zA False = key_ref z1 True"
    "z_ratchet_state1 zA = z_ratchet_state1 z1" "z_s_remote zA = pub_of ?sB" "z_hk_send zA = z_hk_send z1"
    "db_hk_recv (z_defrag zA) = Some (b2_hk_send b2)" "storedA (w_app wA3) (pub_of ?sB) = ratchet_states_new (z_ratchet_state1 z1) None"
    using confirmation_taken [OF C A(1) h4(3) net h3(4-6,11,9,10)] by blast
  obtain r5 wB3 zB where h6: "deliver ?B (net 5 c2) wB2 = (r5, [], wB3)" "concluded r5 (SessionOk t Control)"
    "session_held (b2_kid_recv b2) t zB wB3" "z_beta zB = S2" "key_ref zB False = key_ref zB1 False"
    "z_ratchet_state1 zB = z_ratchet_state1 zB1" "z_s_remote zB = z_s_remote zB1" "z_hk_send zB = z_hk_send zB1"
    "db_hk_recv (z_defrag zB) = Some (z_hk_send z)" "storedB (w_app wB3) = storedB (w_app wB2)"
    using acknowledgement_taken [OF C B(1) h5(3) [unfolded h3(8)] net h4(4-6,12,10,11)]
    by blast
  have "xk_handshake C A B net nodeA nodeB (pub_of ?sB) d ident wA wB = (Ok s, [r1, r2, r3, r4, r5], [], wA3, wB3)"
    using h1(1) h2(1) h3(1) h4(1) h5(1) h6(1) by (simp add: xk_handshake_def nodes)
  moreover have "keys_mirrored (key_ref zA False) (key_ref zB False)" "recv_kid zA False = Some (b2_kid_send b2)"
    "recv_kid zB False = Some (b2_kid_recv b2)"
    using h3(6) h4(6) h5(6) h6(5) keys_mirrored_ends by (simp_all add: recv_kid_def initiator_keys_def responder_keys_def)
  ultimately show ?thesis
    using h2(2) h3(2,7,8) h4(2,7-9,13) h5(2,4,5,7-11) h6(2-4,6-10)
    by - (rule exI [of _ s], rule exI [of _ t], rule exI [of _ r1], rule exI [of _ r2], rule exI [of _ r3], rule exI [of _ r4], rule exI [of _ r5],
      rule exI [of _ wA3], rule exI [of _ wB3], rule exI [of _ zA], rule exI [of _ zB], rule exI [of _ "b2_kid_send b2"], rule exI [of _ "b2_kid_recv b2"], rule exI [of _ "z_ratchet_state1 zA"], simp)
qed

text \<open>The contexts of the witness: two fresh ones with the static keys 9 and 5. Every message
  arrives in the reverse order; the MTUs are the smallest one and 1400.\<close>

lemma sample_storage_live: "storage_live sample_app sa_table"
  unfolding storage_live_def by (auto simp: sample_app_def ratchets_wf_def split: option.splits)

theorem xk_handshake_agrees_witness:
  "\<exists>s t r1 r2 r3 r4 r5 wA wB zA zB kidA kidB.
     xk_handshake sample_crypto sample_app sample_app (\<lambda>_. rev) (128, [1]) (1400, [2]) 5 () [1, 2, 3] sample_world sample_world_bob
       = (Ok s, [r1, r2, r3, r4, r5], [], wA, wB) \<and>
     concluded r1 Unassociated \<and> concluded r3 (SessionOk t NewSession) \<and> concluded r4 (SessionOk s Established) \<and>
     session_held kidA s zA wA \<and> session_held kidB t zB wB \<and>
     z_beta zA = S2 \<and> z_beta zB = S2 \<and> keys_mirrored (key_ref zA False) (key_ref zB False)"
proof -
  have b: "ctx_s_secret sample_world_bob = 5" "w_app sample_world_bob = sample_app_init" "ctx_session_map sample_world_bob = Map.empty"
    "w_sent sample_world_bob = []" "ctx_hello_defrag sample_world_bob = DefragBuffer_new None" "\<not> cc_enabled (ctx_challenge sample_world_bob)"
    by (simp_all add: sample_world_bob_def Context_new_def ChallengeContext_new_def Let_def split: prod.splits)
  have "fst (find_ratchet_state sample_app (rs_fingerprint ratchet_empty) rf2 a) = Inr ratchet_empty" for rf2 a
    by (simp add: find_ratchet_state_def sample_app_def ratchet_empty_def Let_def)
  moreover have "aa_session_data (fst (app_check_accept_session sample_app k i a)) \<noteq> None" for k i a
    by (simp add: sample_app_def)
  moreover have "ratchets_wf (sa_table sample_app_init k)" "rss_state1 (sa_table sample_app_init k) = ratchet_empty" for k
    by (simp_all add: sample_app_init_def ratchets_wf_def new_initial_states_def ratchet_empty_def ratchet_wf_def)
  ultimately show ?thesis
    using xk_handshake_agrees [OF sample_crypto_correct sample_layer_ok _ sample_storage_live _ _ _ sample_storage_live,
        of "\<lambda>_. rev" sample_world sample_world_bob ratchet_empty "[1, 2, 3]" "(128, [1])" "(1400, [2])" "()"] sample_kids_live b
    by (simp add: zssp_sizes) blast
qed

end
