(* ===== verification/Rekey_Run.thy ===== *)
theory Rekey_Run
  imports Handshake_Run
begin

text \<open>
  An established pair of sessions of \<open>reference/src/zeta.rs\<close>: data sent by one end is
  delivered by the other, and the rekeying of two honest ends (k1, k2, c1, c2) completes and
  leaves both with the same new keys. \<open>kk_rekey\<close> runs the handlers over a network that
  delivers every packet once.
\<close>

section \<open>Definitions\<close>

definition kk_rekey ::
  "('pk, 'kp, 'r, 'kem) crypto_layer \<Rightarrow> ('pk, 'd, 'a) application_layer \<Rightarrow> ('pk, 'e, 'b) application_layer
     \<Rightarrow> session_id \<Rightarrow> session_id \<Rightarrow> i64
     \<Rightarrow> ('pk, 'kp, 'kem, 'd) zeta \<Rightarrow> ('pk, 'kp, 'r, 'kem, 'd, 'a) world
     \<Rightarrow> ('pk, 'kp, 'kem, 'e) zeta \<Rightarrow> ('pk, 'kp, 'r, 'kem, 'e, 'b) world
     \<Rightarrow> (('pk, 'kp, 'kem, 'd) zeta \<times> ('pk, 'kp, 'r, 'kem, 'd, 'a) world
        \<times> ('pk, 'kp, 'kem, 'e) zeta \<times> ('pk, 'kp, 'r, 'kem, 'e, 'b) world) option" where
  "kk_rekey C A B s t now zA wA zB wB =
     (case timeout_trans C s now zA wA :: (unit, unit) outcome \<times> _ of
        (Ok _, zA, wA) \<Rightarrow>
          (case last_sent wA of
             Packet kid1 n1 k1 \<Rightarrow>
               (case received_k1_trans C B t kid1 n1 k1 zB wB of
                  (Ok _, zB, wB) \<Rightarrow>
                    (case last_sent wB of
                       Packet kid2 n2 k2 \<Rightarrow>
                         (case received_k2_trans C A kid2 n2 k2 zA wA of
                            (Ok _, zA, wA) \<Rightarrow>
                              (case last_sent wA of
                                 Packet kid3 n3 c1 \<Rightarrow>
                                   (case received_c1_trans C B kid3 n3 c1 zB wB of
                                      (Ok _, zB, wB) \<Rightarrow>
                                        (case last_sent wB of
                                           Packet kid4 n4 c2 \<Rightarrow>
                                             (case received_c2_trans C A kid4 n4 c2 zA wA of
                                                (Ok _, zA, wA) \<Rightarrow> Some (zA, wA, zB, wB)
                                              | _ \<Rightarrow> None))
                                    | _ \<Rightarrow> None))
                          | _ \<Rightarrow> None))
                | _ \<Rightarrow> None))
      | _ \<Rightarrow> None)"

text \<open>A usable set of keys, and the acceptance of two successive counters.\<close>

definition usable_keys :: "duplex_key \<Rightarrow> bool" where
  "usable_keys k \<longleftrightarrow> key_kek (dk_send k) \<noteq> None \<and> key_kid (dk_send k) \<noteq> None \<and>
     key_kek (dk_recv k) \<noteq> None \<and> key_kid (dk_recv k) \<noteq> None"

definition takes_two :: "u64 list \<Rightarrow> u64 \<Rightarrow> bool" where
  "takes_two win c \<longleftrightarrow> fst (update_counter_window win c) \<and>
     fst (update_counter_window (snd (update_counter_window win c)) (c + 1))"

section \<open>Data\<close>

lemma payload_delivered:
  assumes C: "crypto_correct C pub_of" "crypto_sized C"
    and y: "which_key y kid = Some b" "key_nk (dk_recv (key_ref y b)) = Some nk"
    and e: "aead_encrypt_in_place C nk (to_nonce p c) None payload = (ct, tag)"
    and win: "fst (update_counter_window (z_counter_antireplay_window y) c)"
  shows "fst (received_payload_in_place C kid (to_nonce p c) (ct @ tag) y) = Ok payload"
  using y crypto_correctD(2) [OF C(1) e] aead_encrypt_lengths [OF C(2) e] win
  by (auto simp: received_payload_in_place_def zssp_sizes Let_def zeta_update_counter_window_def split: prod.splits)

text \<open>C12: Data round trip. What an established session sends with its current keys is delivered
  unchanged by a session whose receiving keys mirror them, whether they are in its current or in
  its spare slot, as long as its window takes the counter; the packet is addressed to the
  receiver's key id.\<close>

theorem payload_roundtrip:
  assumes C: "crypto_correct C pub_of" "crypto_sized C"
    and z: "phase_of (z_beta z) \<in> {PS1, PS2, PR1, PR2}" "z_send_counter z < HARD_EXPIRATION"
      "dk_send (key_ref z False) = dk_recv (key_ref y b)" "key_nk (dk_send (key_ref z False)) = Some nk"
      "key_kid (dk_send (key_ref z False)) = Some kid" "which_key y kid = Some b"
    and win: "fst (update_counter_window (z_counter_antireplay_window y) (z_send_counter z))"
    and s: "send_payload C send payload z w = (r, z', w')" "last_sent w' = Packet kid' n ct"
  shows "kid' = kid \<and> r = send (Packet kid n ct) (Some (z_hk_send z)) \<and>
    fst (received_payload_in_place C kid n ct y) = Ok payload"
proof -
  obtain c tag where e: "aead_encrypt_in_place C nk (to_nonce PACKET_TYPE_DATA (z_send_counter z)) None payload = (c, tag)"
    by fastforce
  have "\<not> HARD_EXPIRATION \<le> z_send_counter z" using z(2) by simp
  then obtain t where "send_payload C send payload z w =
    (send (Packet kid (to_nonce PACKET_TYPE_DATA (z_send_counter z)) (c @ tag)) (Some (z_hk_send z)),
     z\<lparr>z_send_counter := z_send_counter z + 1, z_timeout_timer := t\<rparr>,
     emit (Packet kid (to_nonce PACKET_TYPE_DATA (z_send_counter z)) (c @ tag)) (Some (z_hk_send z)) w)"
    using send_payload_sends [OF z(1) _ z(4,5) e] by metis
  with s show ?thesis
    using payload_delivered [OF C z(6) _ e win] z(3,4) by (auto simp: emit_def last_sent_def)
qed

theorem payload_roundtrip_witness:
  "fst (received_payload_in_place sample_crypto 11 (to_nonce PACKET_TYPE_DATA 3) ([8, 9] @ replicate 16 7)
     (sample_zeta S2\<lparr>z_keys := (\<lambda>i. \<lparr>dk_send = sample_keys 10, dk_recv = sample_keys (if i then 30 else 11)\<rparr>)\<rparr>))
   = Ok [5, 6]"
proof -
  let ?y = "sample_zeta S2\<lparr>z_keys := (\<lambda>i. \<lparr>dk_send = sample_keys 10, dk_recv = sample_keys (if i then 30 else 11)\<rparr>)\<rparr>"
  let ?p = "Packet 11 (to_nonce PACKET_TYPE_DATA 3) ([8, 9] @ replicate 16 7)"
  have k: "key_ref ?y i = \<lparr>dk_send = sample_keys 10, dk_recv = sample_keys (if i then 30 else 11)\<rparr>" for i
    by (simp add: key_ref_def sample_zeta_def)
  obtain r z' w' where s: "send_payload sample_crypto (\<lambda>_ _. Ok ()) [5, 6] (sample_zeta S2) sample_world = (r, z', w')"
    by (metis surj_pair)
  have c: "z_send_counter (sample_zeta S2) = 3" by (simp add: sample_zeta_def)
  have h: "phase_of (z_beta (sample_zeta S2)) \<in> {PS1, PS2, PR1, PR2}" "z_send_counter (sample_zeta S2) < HARD_EXPIRATION"
    "key_nk (dk_send (key_ref (sample_zeta S2) False)) = Some (replicate 32 2)"
    "key_kid (dk_send (key_ref (sample_zeta S2) False)) = Some 11"
    "aead_encrypt_in_place sample_crypto (replicate 32 2) (to_nonce PACKET_TYPE_DATA (z_send_counter (sample_zeta S2))) None [5, 6]
       = ([8, 9], replicate 16 7)"
    by (simp_all add: c sample_duplex_def sample_keys_def sample_crypto_def zssp_sizes word_order.extremum_unique less_le_not_le)
  have "\<not> HARD_EXPIRATION \<le> z_send_counter (sample_zeta S2)" using h(2) by simp
  from h(1) this h(3-5) have l: "last_sent w' = ?p"
    by (rule send_payload_sends [where send = "\<lambda>_ _. Ok ()" and w = sample_world])
       (use s in \<open>simp add: c emit_def last_sent_def\<close>)
  have y: "dk_send (key_ref (sample_zeta S2) False) = dk_recv (key_ref ?y False)" "which_key ?y 11 = Some False"
    using k by (simp_all add: sample_duplex_def sample_keys_def which_key_def recv_kid_def)
  have "z_counter_antireplay_window ?y = window_new COUNTER_WINDOW_MAX_OOO" by (simp add: sample_zeta_def)
  then have "fst (update_counter_window (z_counter_antireplay_window ?y) (z_send_counter (sample_zeta S2)))"
    by (simp add: c update_counter_window_def window_slot_def window_new_def saturating_add_def zssp_sizes)
  from payload_roundtrip [OF sample_crypto_correct sample_crypto_sized h(1,2) y(1) h(3,4) y(2) this s l]
  show ?thesis by simp
qed

section \<open>Rekeying\<close>

lemma send_control_live:
  assumes "key_kek (dk_send (key_ref z False)) = Some kek" "key_kid (dk_send (key_ref z False)) = Some kid"
    "z_send_counter z < HARD_EXPIRATION"
  shows "send_control C z p payload w = (True, z\<lparr>z_send_counter := z_send_counter z + 1\<rparr>,
    emit (Packet kid (to_nonce p (z_send_counter z))
      (fst (aead_encrypt_in_place C kek (to_nonce p (z_send_counter z)) None payload)
        @ snd (aead_encrypt_in_place C kek (to_nonce p (z_send_counter z)) None payload))) (Some (z_hk_send z)) w)"
  using assms by (simp add: send_control_def get_counter_def Let_def not_le split: prod.splits)

lemma open_rekey_live:
  assumes C: "crypto_correct C pub_of" "crypto_sized C" and k: "length k = 69"
    and z: "recv_kid z False = Some kid" "key_kek (dk_recv (key_ref z False)) = Some kek"
    and win: "update_counter_window (z_counter_antireplay_window z) c = (True, win)"
  shows "open_rekey C True kid (to_nonce p c) (fst (aead_encrypt_in_place C kek (to_nonce p c) None k)
      @ snd (aead_encrypt_in_place C kek (to_nonce p c) None k)) z = (Ok k, z\<lparr>z_counter_antireplay_window := win\<rparr>)"
proof -
  obtain ct tag where e: "aead_encrypt_in_place C kek (to_nonce p c) None k = (ct, tag)" by fastforce
  show ?thesis
    using z win crypto_correctD(2) [OF C(1) e] aead_encrypt_lengths [OF C(2) e] e k
    by (simp add: open_rekey_def zssp_sizes Let_def zeta_update_counter_window_def)
qed

lemma remap_live:
  assumes "kids_live C (ctx_session_map w)"
  shows "\<exists>kid g m. remap C s z w = Some (kid, w\<lparr>ctx_rng := g, ctx_session_map := m\<rparr>) \<and> kid \<noteq> 0"
proof -
  let ?m = "case recv_kid z True of Some kid \<Rightarrow> (ctx_session_map w)(kid := None) | None \<Rightarrow> ctx_session_map w"
  have "kids_live C ?m" by (rule kids_live_mono [OF assms]) (auto simp: map_le_def split: option.splits)
  then obtain kid g where k: "gen_kid C ?m (ctx_rng w) = Some (kid, g)" using kids_liveD [of C ?m] by blast
  moreover have "(ctx_session_map w)(kid := None) = ctx_session_map w" if "ctx_session_map w kid = None" for kid
    using that by auto
  ultimately show ?thesis using gen_kid_fresh [OF k]
    by (auto simp: remap_def Let_def split: option.splits)
qed

lemma start_rekey_live:
  assumes C: "layer_ok C" and kids: "kids_live C (ctx_session_map w)" and z: "z_beta z = S2"
    and k: "key_kek (dk_send (key_ref z False)) = Some kek" "key_kid (dk_send (key_ref z False)) = Some kid"
      "z_send_counter z < HARD_EXPIRATION"
  shows "\<exists>new noise e k1 g g' z' w'. (timeout_trans C s now z w :: (unit, unit) outcome \<times> _) = (Ok (), z', w') \<and> new \<noteq> 0 \<and>
    create_k1 C (ctx_s_secret w) (z_s_remote z) (rs_key (z_ratchet_state1 z)) g new = (noise, e, k1, g') \<and>
    last_sent w' = Packet kid (to_nonce PACKET_TYPE_REKEY_INIT (z_send_counter z))
      (fst (aead_encrypt_in_place C kek (to_nonce PACKET_TYPE_REKEY_INIT (z_send_counter z)) None k1)
        @ snd (aead_encrypt_in_place C kek (to_nonce PACKET_TYPE_REKEY_INIT (z_send_counter z)) None k1)) \<and>
    z_beta z' = R1 noise e k1 \<and> key_ref z' False = key_ref z False \<and> recv_kid z' True = Some new \<and>
    z_send_counter z' = z_send_counter z + 1 \<and> z_s_remote z' = z_s_remote z \<and>
    z_ratchet_state1 z' = z_ratchet_state1 z \<and> z_ratchet_state2 z' = z_ratchet_state2 z \<and>
    z_counter_antireplay_window z' = z_counter_antireplay_window z \<and> z_hk_send z' = z_hk_send z \<and>
    w_app w' = w_app w \<and> ctx_s_secret w' = ctx_s_secret w"
proof -
  obtain new g m where r: "remap C s z w = Some (new, w\<lparr>ctx_rng := g, ctx_session_map := m\<rparr>)" "new \<noteq> 0"
    using remap_live [OF kids] by blast
  obtain noise e k1 g' where c: "create_k1 C (ctx_s_secret w) (z_s_remote z) (rs_key (z_ratchet_state1 z)) g new = (noise, e, k1, g')"
    by (metis surj_pair)
  define z1 where "z1 = (key_mut z True (set_recv_kid new))\<lparr>z_timeout_timer := after now (rekey_timeout (SETTINGS C)),
     z_resend_timer := after now (resend_time (SETTINGS C)), z_beta := R1 noise e k1\<rparr>"
  have z1: "key_ref z1 False = key_ref z False" "key_ref z1 True = set_recv_kid new (key_ref z True)" "z_beta z1 = R1 noise e k1"
    "z_send_counter z1 = z_send_counter z" "z_s_remote z1 = z_s_remote z" "z_ratchet_state1 z1 = z_ratchet_state1 z"
    "z_ratchet_state2 z1 = z_ratchet_state2 z" "z_counter_antireplay_window z1 = z_counter_antireplay_window z" "z_hk_send z1 = z_hk_send z"
    by (simp_all add: z1_def key_mut_def key_ref_def)
  note sc = send_control_live [of z1 kek kid C PACKET_TYPE_REKEY_INIT k1 "w\<lparr>ctx_session_map := m, ctx_rng := g'\<rparr>"]
  show ?thesis
    using z r c k z1 sc
    by (auto simp: timeout_trans_def start_rekey_def Let_def z1_def [symmetric] emit_def last_sent_def recv_kid_def key_ref_def)
qed

lemma process_k1_live:
  assumes C: "layer_ok C" and kids: "kids_live C (ctx_session_map w)"
    and r: "read_k1 C (ctx_s_secret w) (z_s_remote z) (rs_key (z_ratchet_state1 z)) k1 = Inr (kidA, e_remote, noise)"
    and B: "storage_live B stored" "stored (w_app w) (z_s_remote z) = ratchet_states_new (z_ratchet_state1 z) (z_ratchet_state2 z)"
    and k: "key_kek (dk_send (key_ref z False)) = Some kek" "key_kid (dk_send (key_ref z False)) = Some kid"
      "z_send_counter z < HARD_EXPIRATION"
  shows "\<exists>new n2 p g n3 k2 z' w'. process_k1 C B t k1 z w = (Ok (), z', w') \<and> new \<noteq> 0 \<and>
    write_k2_tokens C (ctx_s_secret w) e_remote noise (ctx_rng w) = (n2, p, g) \<and> write_k2_payload C n2 p new = (n3, k2) \<and>
    last_sent w' = Packet kid (to_nonce PACKET_TYPE_REKEY_COMPLETE (z_send_counter z))
      (fst (aead_encrypt_in_place C kek (to_nonce PACKET_TYPE_REKEY_COMPLETE (z_send_counter z)) None k2)
        @ snd (aead_encrypt_in_place C kek (to_nonce PACKET_TYPE_REKEY_COMPLETE (z_send_counter z)) None k2)) \<and>
    z_beta z' = R2 k2 \<and> key_ref z' False = key_ref z False \<and> key_ref z' True = responder_keys C n3 kidA new \<and>
    z_send_counter z' = z_send_counter z + 1 \<and> z_s_remote z' = z_s_remote z \<and>
    z_ratchet_state1 z' = derived_ratchet C n3 (rs_chain_len (z_ratchet_state1 z)) \<and>
    z_ratchet_state2 z' = Some (z_ratchet_state1 z) \<and>
    z_counter_antireplay_window z' = z_counter_antireplay_window z \<and> z_hk_send z' = z_hk_send z \<and>
    stored (w_app w') = (stored (w_app w))(z_s_remote z := ratchet_states_new (z_ratchet_state1 z') (z_ratchet_state2 z'))"
proof -
  obtain n2 p g where t: "write_k2_tokens C (ctx_s_secret w) e_remote noise (ctx_rng w) = (n2, p, g)" by (metis surj_pair)
  have "kids_live C (ctx_session_map (w\<lparr>ctx_rng := g\<rparr>))" using kids by simp
  then obtain new g' m where rm: "remap C t z (w\<lparr>ctx_rng := g\<rparr>) = Some (new, w\<lparr>ctx_rng := g', ctx_session_map := m\<rparr>)" "new \<noteq> 0"
    using remap_live [of C "w\<lparr>ctx_rng := g\<rparr>" t z] by auto
  obtain n3 k2 where p: "write_k2_payload C n2 p new = (n3, k2)" by fastforce
  let ?w = "w\<lparr>ctx_rng := g', ctx_session_map := m\<rparr>"
  let ?new = "derived_ratchet C n3 (rs_chain_len (z_ratchet_state1 z))"
  obtain a where sv: "save_ratchet B (z_s_remote z) (z_session_data z)
      (cas_new ?new (Some (z_ratchet_state1 z)) True (z_ratchet_state1 z) (z_ratchet_state2 z) False True) ?w
        = (Inr True, ?w\<lparr>w_app := a\<rparr>)"
    "stored a = (stored (w_app w))(z_s_remote z := ratchet_states_new ?new (Some (z_ratchet_state1 z)))"
    using save_ratchet_live [OF B(1), of ?w "z_s_remote z"] B(2) by fastforce
  obtain now a' where now: "app_time B a = (now, a')" by fastforce
  define z1 where "z1 = (key_mut (key_mut z True (store_keys kidA (fst (get_ask C n3 LABEL_KEX_KEY)) (fst (split_keys C n3))
       (snd (get_ask C n3 LABEL_KEX_KEY)) (snd (split_keys C n3)))) True (set_recv_kid new))
     \<lparr>z_ratchet_state2 := Some (z_ratchet_state1 z), z_ratchet_state1 := ?new, z_key_creation_counter := z_send_counter z,
      z_timeout_timer := after now (rekey_timeout (SETTINGS C)),
      z_resend_timer := after now (resend_time (SETTINGS C)), z_beta := R2 k2\<rparr>"
  have z1: "key_ref z1 False = key_ref z False" "key_ref z1 True = responder_keys C n3 kidA new" "z_beta z1 = R2 k2"
    "z_send_counter z1 = z_send_counter z" "z_s_remote z1 = z_s_remote z" "z_ratchet_state1 z1 = ?new"
    "z_ratchet_state2 z1 = Some (z_ratchet_state1 z)" "z_counter_antireplay_window z1 = z_counter_antireplay_window z"
    "z_hk_send z1 = z_hk_send z"
    by (simp_all add: z1_def key_mut_def key_ref_def responder_keys_def store_keys_def set_recv_kid_def)
  have "process_k1 C B t k1 z w = (Ok (), z1\<lparr>z_send_counter := z_send_counter z + 1\<rparr>,
     emit (Packet kid (to_nonce PACKET_TYPE_REKEY_COMPLETE (z_send_counter z))
      (fst (aead_encrypt_in_place C kek (to_nonce PACKET_TYPE_REKEY_COMPLETE (z_send_counter z)) None k2)
        @ snd (aead_encrypt_in_place C kek (to_nonce PACKET_TYPE_REKEY_COMPLETE (z_send_counter z)) None k2)))
      (Some (z_hk_send z)) (?w\<lparr>w_app := a'\<rparr>))"
    using r t rm(1) p sv(1) now k z1
      send_control_live [of z1 kek kid C PACKET_TYPE_REKEY_COMPLETE k2 "?w\<lparr>w_app := a'\<rparr>"]
    by (simp add: process_k1_def Let_def time_now_def derived_ratchet_def z1_def [symmetric, unfolded derived_ratchet_def] case_prod_beta)
  then show ?thesis
    using rm(2) t p z1 storage_liveD(3) [OF B(1) now] sv(2) by (auto simp: emit_def last_sent_def key_ref_def)
qed

lemma process_k2_live:
  assumes C: "layer_ok C" and z: "z_beta z = R1 noise e k1" "recv_kid z True = Some kidA"
    and r: "read_k2 C e (z_s_remote z) noise k2 = Inr (kidB, n3)"
    and A: "storage_live A stored" "stored (w_app w) (z_s_remote z) = ratchet_states_new (z_ratchet_state1 z) (z_ratchet_state2 z)"
    and c: "z_send_counter z < HARD_EXPIRATION"
  shows "\<exists>z' w'. process_k2 C A k2 z w = (Ok (), z', w') \<and>
    last_sent w' = Packet kidB (to_nonce PACKET_TYPE_KEY_CONFIRM (z_send_counter z))
      (fst (aead_encrypt_in_place C (snd (get_ask C n3 LABEL_KEX_KEY)) (to_nonce PACKET_TYPE_KEY_CONFIRM (z_send_counter z)) None [])
        @ snd (aead_encrypt_in_place C (snd (get_ask C n3 LABEL_KEX_KEY)) (to_nonce PACKET_TYPE_KEY_CONFIRM (z_send_counter z)) None [])) \<and>
    z_beta z' = S1 \<and> key_ref z' False = initiator_keys C n3 kidB kidA \<and> z_s_remote z' = z_s_remote z \<and>
    z_ratchet_state1 z' = derived_ratchet C n3 (rs_chain_len (z_ratchet_state1 z)) \<and>
    z_counter_antireplay_window z' = z_counter_antireplay_window z \<and> z_hk_send z' = z_hk_send z \<and>
    stored (w_app w') = (stored (w_app w))(z_s_remote z := ratchet_states_new (z_ratchet_state1 z') None)"
proof -
  let ?new = "derived_ratchet C n3 (rs_chain_len (z_ratchet_state1 z))"
  obtain a where sv: "save_ratchet A (z_s_remote z) (z_session_data z)
      (cas_new ?new None True (z_ratchet_state1 z) (z_ratchet_state2 z) True True) w = (Inr True, w\<lparr>w_app := a\<rparr>)"
    "stored a = (stored (w_app w))(z_s_remote z := ratchet_states_new ?new None)"
    using save_ratchet_live [OF A] by blast
  obtain now a' where now: "app_time A a = (now, a')" by fastforce
  define z1 where "z1 = (key_mut z True (store_keys kidB (snd (get_ask C n3 LABEL_KEX_KEY)) (snd (split_keys C n3))
       (fst (get_ask C n3 LABEL_KEX_KEY)) (fst (split_keys C n3))))
     \<lparr>z_ratchet_state1 := ?new, z_key_index := \<not> z_key_index z, z_key_creation_counter := z_send_counter z,
      z_timeout_timer := after now (rekey_timeout (SETTINGS C)),
      z_resend_timer := after now (resend_time (SETTINGS C)), z_beta := S1\<rparr>"
  have z1: "key_ref z1 False = initiator_keys C n3 kidB kidA" "z_beta z1 = S1"
    "z_send_counter z1 = z_send_counter z" "z_s_remote z1 = z_s_remote z" "z_ratchet_state1 z1 = ?new"
    "z_counter_antireplay_window z1 = z_counter_antireplay_window z" "z_hk_send z1 = z_hk_send z"
    using z(2) by (simp_all add: z1_def key_mut_def key_ref_def initiator_keys_def store_keys_def recv_kid_def)
  then have k: "key_kek (dk_send (key_ref z1 False)) = Some (snd (get_ask C n3 LABEL_KEX_KEY))"
    "key_kid (dk_send (key_ref z1 False)) = Some kidB" by (simp_all add: initiator_keys_def)
  have "process_k2 C A k2 z w = (Ok (), z1\<lparr>z_send_counter := z_send_counter z + 1\<rparr>,
     emit (Packet kidB (to_nonce PACKET_TYPE_KEY_CONFIRM (z_send_counter z))
      (fst (aead_encrypt_in_place C (snd (get_ask C n3 LABEL_KEX_KEY)) (to_nonce PACKET_TYPE_KEY_CONFIRM (z_send_counter z)) None [])
        @ snd (aead_encrypt_in_place C (snd (get_ask C n3 LABEL_KEX_KEY)) (to_nonce PACKET_TYPE_KEY_CONFIRM (z_send_counter z)) None [])))
      (Some (z_hk_send z)) (w\<lparr>w_app := a'\<rparr>))"
    using z(1) r sv(1) now c z1 send_control_live [OF k, of C PACKET_TYPE_KEY_CONFIRM "[]" "w\<lparr>w_app := a'\<rparr>"]
    by (simp add: process_k2_def Let_def time_now_def derived_ratchet_def z1_def [symmetric, unfolded derived_ratchet_def] case_prod_beta)
  then show ?thesis
    using z1 storage_liveD(3) [OF A(1) now] sv(2) by (auto simp: emit_def last_sent_def key_ref_def)
qed

text \<open>The handlers open the encrypted message, process it and keep the result.\<close>

lemma received_k1_live:
  assumes C: "crypto_correct C pub_of" "crypto_sized C" and k: "length k1 = 69" "z_beta z = S2"
    and z: "recv_kid z False = Some kid" "key_kek (dk_recv (key_ref z False)) = Some kek"
    and win: "update_counter_window (z_counter_antireplay_window z) c = (True, win)"
    and p: "process_k1 C B t k1 (z\<lparr>z_counter_antireplay_window := win\<rparr>) w = (Ok (), z', w')"
  shows "received_k1_trans C B t kid (to_nonce p c) (fst (aead_encrypt_in_place C kek (to_nonce p c) None k1)
      @ snd (aead_encrypt_in_place C kek (to_nonce p c) None k1)) z w = (Ok (), z', w')"
  using open_rekey_live [OF C k(1) z win, of p] p k(2) by (simp add: received_k1_trans_def expire_on_fault_def)

lemma received_k2_live:
  assumes C: "crypto_correct C pub_of" "crypto_sized C" and k: "length k2 = 69" "is_r1 (z_beta z)"
    and z: "recv_kid z False = Some kid" "key_kek (dk_recv (key_ref z False)) = Some kek"
    and win: "update_counter_window (z_counter_antireplay_window z) c = (True, win)"
    and p: "process_k2 C A k2 (z\<lparr>z_counter_antireplay_window := win\<rparr>) w = (Ok (), z', w')"
  shows "received_k2_trans C A kid (to_nonce p c) (fst (aead_encrypt_in_place C kek (to_nonce p c) None k2)
      @ snd (aead_encrypt_in_place C kek (to_nonce p c) None k2)) z w = (Ok (), z', w')"
  using open_rekey_live [OF C k(1) z win, of p] p k(2) by (simp add: received_k2_trans_def expire_on_fault_def)

text \<open>
  After the first message: Alice in R1, Bob in R2, and Bob's answer, encrypted under the
  current keys, leads Alice's noise state to Bob's.
\<close>

lemma rekey_offered:
  assumes C: "crypto_correct C pub_of" "layer_ok C"
    and A: "kids_live C (ctx_session_map wA)" "z_beta zA = S2" "z_s_remote zA = pub_of (ctx_s_secret wB)"
    and B: "storage_live B storedB" "storedB (w_app wB) (z_s_remote zB) = ratchet_states_new (z_ratchet_state1 zB) (z_ratchet_state2 zB)"
      "kids_live C (ctx_session_map wB)" "z_beta zB = S2" "z_s_remote zB = pub_of (ctx_s_secret wA)"
    and q: "key_kek (dk_send (key_ref zA False)) = Some kekA" "key_kid (dk_send (key_ref zA False)) = Some kidB"
    and p: "recv_kid zB False = Some kidB" "key_kek (dk_recv (key_ref zB False)) = Some kekA"
      "key_kek (dk_send (key_ref zB False)) = Some kekB" "key_kid (dk_send (key_ref zB False)) = Some kidA"
    and k: "z_ratchet_state1 zA = z_ratchet_state1 zB"
    and c: "z_send_counter zA < HARD_EXPIRATION" "z_send_counter zB < HARD_EXPIRATION"
      "update_counter_window (z_counter_antireplay_window zB) (z_send_counter zA) = (True, winB)"
  shows "\<exists>zA1 wA1 kid1 m1 x1 zB1 wB1 newA newB n3 noise e k1 k2.
    (timeout_trans C s now zA wA :: (unit, unit) outcome \<times> _) = (Ok (), zA1, wA1) \<and> last_sent wA1 = Packet kid1 m1 x1 \<and>
    received_k1_trans C B t kid1 m1 x1 zB wB = (Ok (), zB1, wB1) \<and>
    last_sent wB1 = Packet kidA (to_nonce PACKET_TYPE_REKEY_COMPLETE (z_send_counter zB))
      (fst (aead_encrypt_in_place C kekB (to_nonce PACKET_TYPE_REKEY_COMPLETE (z_send_counter zB)) None k2)
        @ snd (aead_encrypt_in_place C kekB (to_nonce PACKET_TYPE_REKEY_COMPLETE (z_send_counter zB)) None k2)) \<and>
    read_k2 C e (z_s_remote zA) noise k2 = Inr (newB, n3) \<and> length k2 = 69 \<and>
    z_beta zA1 = R1 noise e k1 \<and> key_ref zA1 False = key_ref zA False \<and> recv_kid zA1 True = Some newA \<and>
    z_send_counter zA1 = z_send_counter zA + 1 \<and> z_s_remote zA1 = z_s_remote zA \<and> z_ratchet_state1 zA1 = z_ratchet_state1 zA \<and>
    z_ratchet_state2 zA1 = z_ratchet_state2 zA \<and> z_counter_antireplay_window zA1 = z_counter_antireplay_window zA \<and>
    w_app wA1 = w_app wA \<and>
    is_r2 (z_beta zB1) \<and> key_ref zB1 True = responder_keys C n3 newA newB \<and> z_send_counter zB1 = z_send_counter zB + 1 \<and>
    z_s_remote zB1 = z_s_remote zB \<and> z_ratchet_state1 zB1 = derived_ratchet C n3 (rs_chain_len (z_ratchet_state1 zB)) \<and>
    z_counter_antireplay_window zB1 = winB \<and>
    storedB (w_app wB1) (z_s_remote zB) = ratchet_states_new (z_ratchet_state1 zB1) (z_ratchet_state2 zB1)"
proof -
  have C': "crypto_sized C" using C(2) by (simp add: layer_ok_def)
  obtain newA noise e k1 g g' zA1 wA1 where a: "(timeout_trans C s now zA wA :: (unit, unit) outcome \<times> _) = (Ok (), zA1, wA1)"
    "newA \<noteq> 0" "create_k1 C (ctx_s_secret wA) (z_s_remote zA) (rs_key (z_ratchet_state1 zA)) g newA = (noise, e, k1, g')"
    "last_sent wA1 = Packet kidB (to_nonce PACKET_TYPE_REKEY_INIT (z_send_counter zA))
      (fst (aead_encrypt_in_place C kekA (to_nonce PACKET_TYPE_REKEY_INIT (z_send_counter zA)) None k1)
        @ snd (aead_encrypt_in_place C kekA (to_nonce PACKET_TYPE_REKEY_INIT (z_send_counter zA)) None k1))"
    "z_beta zA1 = R1 noise e k1" "key_ref zA1 False = key_ref zA False" "recv_kid zA1 True = Some newA"
    "z_send_counter zA1 = z_send_counter zA + 1" "z_s_remote zA1 = z_s_remote zA" "z_ratchet_state1 zA1 = z_ratchet_state1 zA"
    "z_ratchet_state2 zA1 = z_ratchet_state2 zA" "z_counter_antireplay_window zA1 = z_counter_antireplay_window zA"
    "w_app wA1 = w_app wA"
    using start_rekey_live [OF C(2) A(1,2) q c(1), of s now] by blast
  let ?zB = "zB\<lparr>z_counter_antireplay_window := winB\<rparr>"
  note rk1 = read_k1_follows [OF C(1) C' a(2) a(3) [unfolded A(3)]]
  have "read_k1 C (ctx_s_secret wB) (z_s_remote ?zB) (rs_key (z_ratchet_state1 ?zB)) k1 = Inr (newA, pub_of e, noise)"
    using rk1(1) k B(5) by simp
  from process_k1_live [OF C(2) B(3) this B(1), of kekB kidA t] obtain newB n2 pp g2 n3 k2 zB1 wB1 where
    b: "process_k1 C B t k1 ?zB wB = (Ok (), zB1, wB1)" "newB \<noteq> 0"
    "write_k2_tokens C (ctx_s_secret wB) (pub_of e) noise (ctx_rng wB) = (n2, pp, g2)" "write_k2_payload C n2 pp newB = (n3, k2)"
    "last_sent wB1 = Packet kidA (to_nonce PACKET_TYPE_REKEY_COMPLETE (z_send_counter zB))
      (fst (aead_encrypt_in_place C kekB (to_nonce PACKET_TYPE_REKEY_COMPLETE (z_send_counter zB)) None k2)
        @ snd (aead_encrypt_in_place C kekB (to_nonce PACKET_TYPE_REKEY_COMPLETE (z_send_counter zB)) None k2))"
    "z_beta zB1 = R2 k2" "key_ref zB1 True = responder_keys C n3 newA newB" "z_send_counter zB1 = z_send_counter zB + 1"
    "z_s_remote zB1 = z_s_remote zB" "z_ratchet_state1 zB1 = derived_ratchet C n3 (rs_chain_len (z_ratchet_state1 zB))"
    "z_counter_antireplay_window zB1 = winB"
    "storedB (w_app wB1) (z_s_remote zB) = ratchet_states_new (z_ratchet_state1 zB1) (z_ratchet_state2 zB1)"
    using B(2) p c(2) by auto
  note rec = received_k1_live [OF C(1) C' rk1(2) B(4) p(1,2) c(3) b(1), of PACKET_TYPE_REKEY_INIT]
  have "is_r2 (z_beta zB1)" "read_k2 C e (z_s_remote zA) noise k2 = Inr (newB, n3)" "length k2 = 69"
    using read_k2_follows [OF C(1) C' b(2-4)] A(3) b(6) by (simp_all add: is_r2_def)
  with rec a b show ?thesis by metis
qed

lemma rekey_confirmed:
  assumes C: "crypto_correct C pub_of" "layer_ok C"
    and A: "storage_live A stored" "stored (w_app w) (z_s_remote z) = ratchet_states_new (z_ratchet_state1 z) (z_ratchet_state2 z)"
    and z: "z_beta z = R1 noise e k1" "recv_kid z True = Some newA" "recv_kid z False = Some kid"
      "key_kek (dk_recv (key_ref z False)) = Some kek" "z_send_counter z < HARD_EXPIRATION"
    and k2: "read_k2 C e (z_s_remote z) noise k2 = Inr (newB, n3)" "length k2 = 69"
    and win: "update_counter_window (z_counter_antireplay_window z) c = (True, win)"
  shows "\<exists>z' w'. received_k2_trans C A kid (to_nonce p c) (fst (aead_encrypt_in_place C kek (to_nonce p c) None k2)
      @ snd (aead_encrypt_in_place C kek (to_nonce p c) None k2)) z w = (Ok (), z', w') \<and>
    last_sent w' = Packet newB (to_nonce PACKET_TYPE_KEY_CONFIRM (z_send_counter z))
      (snd (aead_encrypt_in_place C (snd (get_ask C n3 LABEL_KEX_KEY)) (to_nonce PACKET_TYPE_KEY_CONFIRM (z_send_counter z)) None [])) \<and>
    z_beta z' = S1 \<and> key_ref z' False = initiator_keys C n3 newB newA \<and> z_s_remote z' = z_s_remote z \<and>
    z_ratchet_state1 z' = derived_ratchet C n3 (rs_chain_len (z_ratchet_state1 z)) \<and> z_counter_antireplay_window z' = win \<and>
    stored (w_app w') (z_s_remote z) = ratchet_states_new (z_ratchet_state1 z') None"
proof -
  have C': "crypto_sized C" using C(2) by (simp add: layer_ok_def)
  let ?z = "z\<lparr>z_counter_antireplay_window := win\<rparr>"
  obtain z' w' where pr: "process_k2 C A k2 ?z w = (Ok (), z', w')"
    and f: "last_sent w' = Packet newB (to_nonce PACKET_TYPE_KEY_CONFIRM (z_send_counter z))
      (snd (aead_encrypt_in_place C (snd (get_ask C n3 LABEL_KEX_KEY)) (to_nonce PACKET_TYPE_KEY_CONFIRM (z_send_counter z)) None []))"
    "z_beta z' = S1" "key_ref z' False = initiator_keys C n3 newB newA" "z_s_remote z' = z_s_remote z"
    "z_ratchet_state1 z' = derived_ratchet C n3 (rs_chain_len (z_ratchet_state1 z))" "z_counter_antireplay_window z' = win"
    "stored (w_app w') (z_s_remote z) = ratchet_states_new (z_ratchet_state1 z') None"
    using process_k2_live [OF C(2), of ?z noise e k1 newA k2 newB n3 A stored w] z A k2 control_tag(3) [OF C(1) C']
    by (auto simp: recv_kid_def key_ref_def)
  have "is_r1 (z_beta z)" using z(1) by (simp add: is_r1_def)
  from received_k2_live [OF C(1) C' k2(2) this z(3,4) win pr] f show ?thesis by blast
qed

text \<open>C9: Rekeying completes and both ends agree. Two established sessions in state S2 hold
  mirrored keys, the same ratchet state and the storage's pair for each other. When Alice's
  rekey timer fires, the four messages k1, k2, c1, c2 are all accepted (as long as the windows
  take the two counters each end uses): both ends are in S2 again, hold new mirrored keys and
  the same new ratchet state, one longer than the old chain, and have stored it alone.\<close>

theorem kk_rekey_agrees:
  assumes C: "crypto_correct C pub_of" "layer_ok C"
    and A: "storage_live A storedA" "storedA (w_app wA) (z_s_remote zA) = ratchet_states_new (z_ratchet_state1 zA) (z_ratchet_state2 zA)"
      "kids_live C (ctx_session_map wA)" "z_beta zA = S2" "z_s_remote zA = pub_of (ctx_s_secret wB)"
    and B: "storage_live B storedB" "storedB (w_app wB) (z_s_remote zB) = ratchet_states_new (z_ratchet_state1 zB) (z_ratchet_state2 zB)"
      "kids_live C (ctx_session_map wB)" "z_beta zB = S2" "z_s_remote zB = pub_of (ctx_s_secret wA)"
    and k: "keys_mirrored (key_ref zA False) (key_ref zB False)" "usable_keys (key_ref zA False)"
      "z_ratchet_state1 zA = z_ratchet_state1 zB"
    and cA: "z_send_counter zA < HARD_EXPIRATION" "z_send_counter zA + 1 < HARD_EXPIRATION"
      "takes_two (z_counter_antireplay_window zB) (z_send_counter zA)"
    and cB: "z_send_counter zB < HARD_EXPIRATION" "z_send_counter zB + 1 < HARD_EXPIRATION"
      "takes_two (z_counter_antireplay_window zA) (z_send_counter zB)"
  shows "\<exists>zA' wA' zB' wB' rs. kk_rekey C A B s t now zA wA zB wB = Some (zA', wA', zB', wB') \<and>
    z_beta zA' = S2 \<and> z_beta zB' = S2 \<and> keys_mirrored (key_ref zA' False) (key_ref zB' False) \<and>
    z_ratchet_state1 zA' = rs \<and> z_ratchet_state1 zB' = rs \<and> rs_chain_len rs = rs_chain_len (z_ratchet_state1 zA) + 1 \<and>
    storedA (w_app wA') (z_s_remote zA) = ratchet_states_new rs None \<and>
    storedB (w_app wB') (z_s_remote zB) = ratchet_states_new rs None"
proof -
  obtain kekA kidB kekB kidA where q: "key_kek (dk_send (key_ref zA False)) = Some kekA" "key_kid (dk_send (key_ref zA False)) = Some kidB"
    "key_kek (dk_recv (key_ref zA False)) = Some kekB" "key_kid (dk_recv (key_ref zA False)) = Some kidA"
    using k(2) by (auto simp: usable_keys_def)
  have p: "recv_kid zB False = Some kidB" "key_kek (dk_recv (key_ref zB False)) = Some kekA"
    "key_kek (dk_send (key_ref zB False)) = Some kekB" "key_kid (dk_send (key_ref zB False)) = Some kidA"
    using k(1) q by (simp_all add: keys_mirrored_def recv_kid_def)
  obtain winA winA' winB winB' where win: "update_counter_window (z_counter_antireplay_window zB) (z_send_counter zA) = (True, winB)"
    "update_counter_window winB (z_send_counter zA + 1) = (True, winB')"
    "update_counter_window (z_counter_antireplay_window zA) (z_send_counter zB) = (True, winA)"
    "update_counter_window winA (z_send_counter zB + 1) = (True, winA')"
    using cA(3) cB(3) unfolding takes_two_def by (metis prod.collapse)
  obtain zA1 wA1 kid1 m1 x1 zB1 wB1 newA newB n3 noise e k1 k2 where
    r1: "(timeout_trans C s now zA wA :: (unit, unit) outcome \<times> _) = (Ok (), zA1, wA1)" "last_sent wA1 = Packet kid1 m1 x1"
    "received_k1_trans C B t kid1 m1 x1 zB wB = (Ok (), zB1, wB1)"
    "last_sent wB1 = Packet kidA (to_nonce PACKET_TYPE_REKEY_COMPLETE (z_send_counter zB))
      (fst (aead_encrypt_in_place C kekB (to_nonce PACKET_TYPE_REKEY_COMPLETE (z_send_counter zB)) None k2)
        @ snd (aead_encrypt_in_place C kekB (to_nonce PACKET_TYPE_REKEY_COMPLETE (z_send_counter zB)) None k2))"
    and k2: "read_k2 C e (z_s_remote zA) noise k2 = Inr (newB, n3)" "length k2 = 69"
    and a1: "z_beta zA1 = R1 noise e k1" "key_ref zA1 False = key_ref zA False" "recv_kid zA1 True = Some newA"
    "z_send_counter zA1 = z_send_counter zA + 1" "z_s_remote zA1 = z_s_remote zA" "z_ratchet_state1 zA1 = z_ratchet_state1 zA"
    "z_ratchet_state2 zA1 = z_ratchet_state2 zA" "z_counter_antireplay_window zA1 = z_counter_antireplay_window zA" "w_app wA1 = w_app wA"
    and b1: "is_r2 (z_beta zB1)" "key_ref zB1 True = responder_keys C n3 newA newB" "z_send_counter zB1 = z_send_counter zB + 1"
    "z_s_remote zB1 = z_s_remote zB" "z_ratchet_state1 zB1 = derived_ratchet C n3 (rs_chain_len (z_ratchet_state1 zB))"
    "z_counter_antireplay_window zB1 = winB"
    "storedB (w_app wB1) (z_s_remote zB) = ratchet_states_new (z_ratchet_state1 zB1) (z_ratchet_state2 zB1)"
    using rekey_offered [OF C A(3-5) B q(1,2) p k(3) cA(1) cB(1) win(1), of s now t] by blast
  obtain zA2 wA2 where r2: "received_k2_trans C A kidA (to_nonce PACKET_TYPE_REKEY_COMPLETE (z_send_counter zB))
      (fst (aead_encrypt_in_place C kekB (to_nonce PACKET_TYPE_REKEY_COMPLETE (z_send_counter zB)) None k2)
        @ snd (aead_encrypt_in_place C kekB (to_nonce PACKET_TYPE_REKEY_COMPLETE (z_send_counter zB)) None k2)) zA1 wA1 = (Ok (), zA2, wA2)"
    "last_sent wA2 = Packet newB (to_nonce PACKET_TYPE_KEY_CONFIRM (z_send_counter zA + 1))
      (snd (aead_encrypt_in_place C (snd (get_ask C n3 LABEL_KEX_KEY)) (to_nonce PACKET_TYPE_KEY_CONFIRM (z_send_counter zA + 1)) None []))"
    and a2: "z_beta zA2 = S1" "key_ref zA2 False = initiator_keys C n3 newB newA" "z_s_remote zA2 = z_s_remote zA"
    "z_ratchet_state1 zA2 = derived_ratchet C n3 (rs_chain_len (z_ratchet_state1 zA))" "z_counter_antireplay_window zA2 = winA"
    "storedA (w_app wA2) (z_s_remote zA) = ratchet_states_new (z_ratchet_state1 zA2) None"
    using rekey_confirmed [OF C A(1), of wA1 zA1 noise e k1 newA kidA kekB k2 newB n3 "z_send_counter zB" winA PACKET_TYPE_REKEY_COMPLETE]
      a1 k2 q A(2) cA(2) win(3) by (auto simp: recv_kid_def)
  have kB: "recv_kid zB1 True = Some newB" "key_kek (dk_recv (key_ref zB1 True)) = Some (snd (get_ask C n3 LABEL_KEX_KEY))"
    "key_kek (dk_send (key_ref zB1 True)) = Some (fst (get_ask C n3 LABEL_KEX_KEY))" "key_kid (dk_send (key_ref zB1 True)) = Some newA"
    using b1(2) by (simp_all add: recv_kid_def responder_keys_def)
  obtain zB2 wB2 where r3: "received_c1_trans C B newB (to_nonce PACKET_TYPE_KEY_CONFIRM (z_send_counter zA + 1))
      (snd (aead_encrypt_in_place C (snd (get_ask C n3 LABEL_KEX_KEY)) (to_nonce PACKET_TYPE_KEY_CONFIRM (z_send_counter zA + 1)) None []))
      zB1 wB1 = (Ok (is_a3 (z_beta zB1)), zB2, wB2)"
    "last_sent wB2 = Packet newA (to_nonce PACKET_TYPE_ACK (z_send_counter zB + 1))
      (snd (aead_encrypt_in_place C (fst (get_ask C n3 LABEL_KEX_KEY)) (to_nonce PACKET_TYPE_ACK (z_send_counter zB + 1)) None []))"
    and b2: "z_beta zB2 = S2" "key_ref zB2 False = key_ref zB1 True" "z_ratchet_state1 zB2 = z_ratchet_state1 zB1"
    "storedB (w_app wB2) (z_s_remote zB) = ratchet_states_new (z_ratchet_state1 zB1) None"
    using received_c1_live [OF C disjI2 [OF b1(1)] kB, of "z_send_counter zA + 1" winB' B storedB wB1 _ PACKET_TYPE_KEY_CONFIRM]
      b1(3-7) cB(2) win(2) B(1) by auto
  have kA: "recv_kid zA2 False = Some newA" "key_kek (dk_recv (key_ref zA2 False)) = Some (fst (get_ask C n3 LABEL_KEX_KEY))"
    using a2(2) by (simp_all add: recv_kid_def initiator_keys_def)
  obtain t1 g a where r4: "received_c2_trans C A newA (to_nonce PACKET_TYPE_ACK (z_send_counter zB + 1))
      (snd (aead_encrypt_in_place C (fst (get_ask C n3 LABEL_KEX_KEY)) (to_nonce PACKET_TYPE_ACK (z_send_counter zB + 1)) None [])) zA2 wA2
      = (Ok (), zA2\<lparr>z_counter_antireplay_window := winA', z_timeout_timer := t1, z_resend_timer := I64_MAX, z_beta := S2\<rparr>,
        wA2\<lparr>ctx_rng := g, w_app := a\<rparr>)" and a: "a = snd (app_time A (w_app wA2))"
    using received_c2_live [OF C a2(1) kA, of "z_send_counter zB + 1" winA' _ PACKET_TYPE_ACK A wA2] a2(5) win(4) by auto
  have "storedA a = storedA (w_app wA2)" using storage_liveD(3) [OF A(1)] a by (metis prod.collapse)
  moreover have "kk_rekey C A B s t now zA wA zB wB = Some (zA2\<lparr>z_counter_antireplay_window := winA', z_timeout_timer := t1,
      z_resend_timer := I64_MAX, z_beta := S2\<rparr>, wA2\<lparr>ctx_rng := g, w_app := a\<rparr>, zB2, wB2)"
    using r1 r2 r3 r4 by (simp add: kk_rekey_def)
  ultimately show ?thesis
    using a2 b1 b2 k(3) keys_mirrored_ends [of C n3 newB newA] by (auto simp: key_ref_def derived_ratchet_def)
qed

theorem kk_rekey_agrees_witness:
  "\<exists>zA wA zB wB. kk_rekey sample_crypto sample_app sample_app 0 0 7000 (sample_zeta S2) sample_world
     (sample_zeta S2\<lparr>z_s_remote := 9, z_keys := (\<lambda>i. \<lparr>dk_send = sample_keys 10, dk_recv = sample_keys 11\<rparr>)\<rparr>) sample_world_bob
     = Some (zA, wA, zB, wB) \<and> z_beta zA = S2 \<and> z_beta zB = S2 \<and> keys_mirrored (key_ref zA False) (key_ref zB False)"
proof -
  let ?y = "sample_zeta S2\<lparr>z_s_remote := 9, z_keys := (\<lambda>i. \<lparr>dk_send = sample_keys 10, dk_recv = sample_keys 11\<rparr>)\<rparr>"
  have b: "ctx_s_secret sample_world_bob = 5" "w_app sample_world_bob = sample_app_init" "ctx_session_map sample_world_bob = Map.empty"
    by (simp_all add: sample_world_bob_def Context_new_def split: prod.splits)
  have win: "takes_two (window_new COUNTER_WINDOW_MAX_OOO) 3"
    by (simp add: takes_two_def update_counter_window_def window_slot_def window_new_def saturating_add_def zssp_sizes)
  have y: "z_s_remote ?y = 9" "z_ratchet_state1 ?y = ratchet_empty" "z_ratchet_state2 ?y = None" "z_send_counter ?y = 3"
    "z_counter_antireplay_window ?y = window_new COUNTER_WINDOW_MAX_OOO" "z_beta ?y = S2"
    "key_ref ?y False = \<lparr>dk_send = sample_keys 10, dk_recv = sample_keys 11\<rparr>"
    by (simp_all add: sample_zeta_def key_ref_def)
  have z: "z_s_remote (sample_zeta S2) = 5" "z_ratchet_state1 (sample_zeta S2) = ratchet_empty" "z_ratchet_state2 (sample_zeta S2) = None"
    "z_send_counter (sample_zeta S2) = 3" "z_counter_antireplay_window (sample_zeta S2) = window_new COUNTER_WINDOW_MAX_OOO"
    by (simp_all add: sample_zeta_def)
  have st: "sa_table sample_app_init p = ratchet_states_new ratchet_empty None" for p
    by (simp add: sample_app_init_def new_initial_states_def ratchet_states_new_def)
  have hx: "(3 :: u64) < HARD_EXPIRATION" "(4 :: u64) < HARD_EXPIRATION"
    by (simp_all add: zssp_sizes less_le_not_le word_order.extremum_unique)
  have km: "keys_mirrored (key_ref (sample_zeta S2) False) (key_ref ?y False)" "usable_keys (key_ref (sample_zeta S2) False)"
    unfolding y(7) by (simp_all add: keys_mirrored_def usable_keys_def sample_duplex_def sample_keys_def)
  from kk_rekey_agrees [OF sample_crypto_correct sample_layer_ok sample_storage_live _ _ _ _ sample_storage_live _ _ _ _ km,
      of sample_world sample_world_bob 0 0 7000]
  show ?thesis by (simp add: b y z st hx win sample_kids_live) blast
qed

end
