(* ===== verification/Sample_Downgrade.thy ===== *)
theory Sample_Downgrade
  imports Sample_Crypto Ratchet_State
begin

text \<open>
  A response to an initiator whose ratchet state the responder has lost, over primitives that
  depend on their key. The theories on both crates receive it in their witnesses.
\<close>

text \<open>
  The sample layer with primitives that depend on their key: the tag repeats the first byte
  of the key and the hash-based derivation adds the first byte of its key.
\<close>

definition keyed_crypto :: "(u8, u8, nat, unit) crypto_layer" where
  "keyed_crypto = sample_crypto
     \<lparr>aead_encrypt_in_place := (\<lambda>k n a b. (map (\<lambda>x. x + 3) b, replicate 16 (hd k))),
      aead_decrypt_in_place := (\<lambda>k n a b t. (t = replicate 16 (hd k), map (\<lambda>x. x - 3) b)),
      hmac := (\<lambda>k x. replicate 64 ((if k = [] then 0 else hd k) + hd x))\<rparr>"

text \<open>Alice remembers a ratchet state that Bob has lost; his response uses the zero key.\<close>

definition lost_ratchet :: ratchet_state where
  "lost_ratchet = ratchet_new (replicate 32 1) (replicate 32 2) 1"

definition downgrade_x2 :: bytes where
  "downgrade_x2 = replicate 49 7 @ replicate 1568 0 @ replicate 16 2 @ [3, 3, 3, 4] @ replicate 16 3"

definition downgrade_counter :: u64 where
  "downgrade_counter = u64_from_be_bytes (write_at 5 [3, 3, 3] (replicate 8 0))"

lemma keyed_prims [simp]:
  "aead_decrypt_in_place keyed_crypto k n a b t = (t = replicate 16 (hd k), map (\<lambda>x. x - 3) b)"
  "aead_encrypt_in_place keyed_crypto k n a b = (map (\<lambda>x. x + 3) b, replicate 16 (hd k))"
  "hmac keyed_crypto k x = replicate 64 ((if k = [] then 0 else hd k) + hd x)"
  "sha512 keyed_crypto x = replicate 64 0" "pk_from_bytes keyed_crypto b' = (if b' = [] then None else Some (hd b'))"
  "kp_agree keyed_crypto sk pk = replicate 48 (sk * pk)" "kem_decapsulate keyed_crypto u ct = Some (replicate 32 6)"
  by (simp_all add: keyed_crypto_def sample_crypto_def)

lemma downgrade_slices:
  "subslice 0 49 downgrade_x2 = replicate 49 7" "subslice 49 1617 downgrade_x2 = replicate 1568 0"
  "subslice 1617 1633 downgrade_x2 = replicate 16 2" "subslice 1633 1637 downgrade_x2 = [3, 3, 3, 4]"
  "subslice 1637 1653 downgrade_x2 = replicate 16 3" "length downgrade_x2 = 1653" "drop 1650 downgrade_x2 = [3, 3, 3]"
  by (simp_all add: downgrade_x2_def subslice_def numeral_3_eq_3)

end
