(* ===== verification/Ratchet_Fallback.thy ===== *)
theory Ratchet_Fallback
  imports Handshake_Run Sample_Downgrade
begin

text \<open>
  What the ratchet storage and a session hold after a response that does not match the
  initiator's first ratchet key (\<open>received_x2_trans\<close> of \<open>reference/src/zeta.rs\<close>): the
  storage keeps the second state beside the new one, the session keeps the first.
\<close>

section \<open>A session for the witness\<close>

definition downgrade_a1 :: "(u8, unit) state_a1" where
  "downgrade_a1 = \<lparr>a1_noise = initialize (replicate 64 0), a1_e_secret = 0, a1_e1_secret = (), a1_identity = [],
     a1_packet = Packet 0 [] []\<rparr>"

definition downgrade_zeta :: "(u8, u8, unit, unit) zeta" where
  "downgrade_zeta = sample_zeta (A1 downgrade_a1)\<lparr>z_ratchet_state1 := lost_ratchet\<rparr>"

definition downgrade_world :: "(u8, u8, nat, unit, unit, sample_app_state) world" where
  "downgrade_world = sample_world\<lparr>w_app := sample_app_init\<lparr>sa_table := (\<lambda>_. ratchet_states_new lost_ratchet None)\<rparr>\<rparr>"

section \<open>A storage without errors\<close>

definition storage_answers :: "('pk, 'd, 'a) application_layer \<Rightarrow> bool" where
  "storage_answers A \<longleftrightarrow> (\<forall>pk d u a. \<exists>b. fst (app_save_ratchet_state A pk d u a) = Inr b)"

text \<open>A confirmation of the right size that opens under the spare key and whose counter is new.\<close>

definition genuine_c1 ::
  "('pk, 'kp, 'r, 'kem) crypto_layer \<Rightarrow> bytes \<Rightarrow> bytes \<Rightarrow> ('pk, 'kp, 'kem, 'd) zeta \<Rightarrow> bool" where
  "genuine_c1 C n c1 z \<longleftrightarrow> length c1 = KEY_CONFIRMATION_SIZE \<and>
     (\<exists>k. key_kek (dk_recv (key_ref z True)) = Some k \<and> fst (aead_decrypt_in_place C k n None [] c1)) \<and>
     fst (zeta_update_counter_window z (snd (from_nonce n)))"

section \<open>The pair in storage and the pair in the session\<close>

lemma finish_x2_second:
  assumes A: "storage_atomic A stored" "\<And>a t a'. app_time A a = (t, a') \<Longrightarrow> stored a' = stored a"
    and f: "finish_x2 C A a1 e_remote kid 2 len noise z w = (Ok p, z', w')"
  shows "stored (w_app w') (z_s_remote z) = ratchet_states_new (z_ratchet_state1 z') (z_ratchet_state2 z)"
    and "z_ratchet_state2 z' = Some (z_ratchet_state1 z)" "z_s_remote z' = z_s_remote z"
    and "z_session_data z' = z_session_data z"
proof -
  obtain n4 x3 where x3: "write_x3 C (ctx_s_secret w) e_remote (a1_identity a1) noise = (n4, x3)" by fastforce
  let ?new = "derived_ratchet C n4 len"
  let ?u = "cas_new ?new (z_ratchet_state2 z) True (z_ratchet_state1 z) (z_ratchet_state2 z) True False"
  obtain r a where s: "app_save_ratchet_state A (z_s_remote z) (z_session_data z) ?u (w_app w) = (r, a)" by fastforce
  have r: "r = Inr True"
    using f s x3 by (auto simp: finish_x2_def Let_def save_ratchet_def derived_ratchet_def split: prod.splits sum.splits bool.splits)
  have st: "stored a (z_s_remote z) = ratchet_states_new ?new (z_ratchet_state2 z)"
    using A(1) s r unfolding storage_atomic_def by (force dest: spec)
  obtain t a' where t: "app_time A a = (t, a')" by fastforce
  have z': "z_ratchet_state1 z' = ?new" "w_app w' = a'"
    and z2: "z_ratchet_state2 z' = Some (z_ratchet_state1 z)" "z_s_remote z' = z_s_remote z" "z_session_data z' = z_session_data z"
    using f s x3 r t
    by (auto simp: finish_x2_def Let_def save_ratchet_def derived_ratchet_def time_now_def key_mut_def split: prod.splits)
  from z2 show "z_ratchet_state2 z' = Some (z_ratchet_state1 z)" "z_s_remote z' = z_s_remote z" "z_session_data z' = z_session_data z"
    by simp_all
  from st z' A(2) [OF t] show "stored (w_app w') (z_s_remote z) = ratchet_states_new (z_ratchet_state1 z') (z_ratchet_state2 z)"
    by simp
qed

text \<open>A confirmation whose compare-and-swap does not match the storage is never accepted; unless the
  storage reports an error it expires the session.\<close>

lemma forget_kids:
  "recv_kid z b = Some kid \<Longrightarrow>
   ctx_session_map (forget_kid (key_kid (dk_recv (z_keys z True))) (forget_kid (key_kid (dk_recv (z_keys z False))) w)) kid = None"
  by (cases "z_key_index z \<noteq> b") (auto simp: recv_kid_def key_ref_def forget_kid_def split: option.splits)

lemma confirm_key_mismatch:
  assumes A: "storage_atomic A stored" and z: "z_ratchet_state2 z = Some rs"
    and ne: "\<not> ratchet_option_eq (Some rs) (rss_state2 (stored (w_app w) (z_s_remote z)))"
  shows "fst (confirm_key C A z w) \<noteq> Ok x"
    and "storage_answers A \<Longrightarrow> \<not> ctx_sessions_borrowed w \<Longrightarrow> recv_kid z True = Some kid \<Longrightarrow>
      \<exists>z' w'. confirm_key C A z w = (Err (fault OutOfSequence True), z', w') \<and> z_beta z' = Null \<and> ctx_session_map w' kid = None"
proof -
  let ?u = "cas_new (z_ratchet_state1 z) None False (z_ratchet_state1 z) (z_ratchet_state2 z) False True"
  obtain r a where s: "app_save_ratchet_state A (z_s_remote z) (z_session_data z) ?u (w_app w) = (r, a)" by fastforce
  have "r \<noteq> Inr True"
  proof
    assume "r = Inr True"
    then have "compare_states ?u (stored (w_app w) (z_s_remote z))"
      using A s unfolding storage_atomic_def by (force dest: spec)
    with ne z show False by (simp add: compare_states_def cas_new_def)
  qed
  then have r: "r = Inr False \<or> (\<exists>e. r = Inl e)" by (metis (full_types) sumE)
  then show "fst (confirm_key C A z w) \<noteq> Ok x"
    using s z by (auto simp: confirm_key_def save_ratchet_def expire_def Let_def split: if_splits)
  assume "storage_answers A" and b: "\<not> ctx_sessions_borrowed w" and k: "recv_kid z True = Some kid"
  then have "r = Inr False" using r s unfolding storage_answers_def by (metis Inl_Inr_False fst_conv)
  then show "\<exists>z' w'. confirm_key C A z w = (Err (fault OutOfSequence True), z', w') \<and> z_beta z' = Null \<and> ctx_session_map w' kid = None"
    using s z b forget_kids [OF k] by (simp add: confirm_key_def save_ratchet_def expire_def Let_def)
qed

lemma finish_x2_fields:
  assumes "finish_x2 C A a1 e_remote kid ri len noise z w = (Ok p, z', w')"
  shows "recv_kid z' True = recv_kid z True" "key_kek (dk_recv (key_ref z' True)) \<noteq> None"
    "z_counter_antireplay_window z' = z_counter_antireplay_window z" "ctx_sessions_borrowed w' = ctx_sessions_borrowed w"
  using assms
  by (auto simp: finish_x2_def Let_def save_ratchet_def time_now_def recv_kid_def store_keys_def
      split: prod.splits sum.splits bool.splits)

lemma received_x2_second:
  assumes z: "z_beta z = A1 a1" "read_x2_tokens C a1 x2 = Inr (e_remote, i, noise)"
    and t: "test_ratchet_key C noise (subslice i (i + KID_SIZE) x2) (subslice (i + KID_SIZE) (i + KID_SIZE + AES_GCM_TAG_SIZE) x2)
      (rs_key (z_ratchet_state1 z)) = None"
    and ok: "received_x2_trans C A s kid n x2 z w = (Ok warn, z1, w1)"
  obtains kid' len noise' p a w2 where "finish_x2 C A a1 e_remote kid' 2 len noise' z (w\<lparr>w_app := a\<rparr>) = (Ok p, z1, w2)" "w_app w1 = w_app w2"
    "ctx_sessions_borrowed w1 = ctx_sessions_borrowed w2"
proof -
  let ?sel = "select_ratchet_key C A s z noise (subslice i (i + KID_SIZE) x2)
     (subslice (i + KID_SIZE) (i + KID_SIZE + AES_GCM_TAG_SIZE) x2) (w_app w)"
  obtain res ri len wn a where sel: "?sel = ((res, ri, len, wn), a)" by (metis surj_pair)
  have ri: "ri = 2" using sel t by (auto simp: select_ratchet_key_def Let_def split: option.splits prod.splits if_splits bool.splits)
  obtain b r2 z2 w2 where p: "process_x2 C A s x2 z w = (b, r2, z2, w2)" by (metis surj_pair)
  obtain pk where r2: "r2 = Ok pk" "z1 = z2" "w_app w1 = w_app w2" "ctx_sessions_borrowed w1 = ctx_sessions_borrowed w2"
    using ok p by (auto simp: received_x2_trans_def Let_def emit_def split: if_splits prod.splits outcome.splits receive_error.splits)
  obtain kid' n' where "res = Some (kid', n')"
    using p r2(1) z sel by (cases res) (auto simp: process_x2_def Let_def)
  with p r2 z sel ri that show thesis by (auto simp: process_x2_def Let_def)
qed

text \<open>C22: A handshake that falls back is never confirmed. When the response does not open under
  the initiator's first ratchet key (so it was made with the second key, or the initiator
  downgrades to the zero key), the storage ends with the pair of the new state and the old
  second state, while the session remembers the old first state as its second. With a storage
  that compares the pair before it swaps, no key confirmation for the new keys is then ever
  accepted, so the session that \<open>received_x2_trans\<close> reported as successful is never established.
  When a genuine confirmation arrives and the storage answers, it expires the session: the
  result is a fault, the automaton is in Null and the key id is forgotten.\<close>

theorem fallback_never_confirmed:
  assumes A: "storage_atomic A stored" "\<And>a t a'. app_time A a = (t, a') \<Longrightarrow> stored a' = stored a"
    and z: "z_beta z = A1 a1" "read_x2_tokens C a1 x2 = Inr (e_remote, i, noise)"
    and t: "test_ratchet_key C noise (subslice i (i + KID_SIZE) x2) (subslice (i + KID_SIZE) (i + KID_SIZE + AES_GCM_TAG_SIZE) x2)
      (rs_key (z_ratchet_state1 z)) = None"
    and ne: "\<not> ratchet_option_eq (Some (z_ratchet_state1 z)) (z_ratchet_state2 z)"
    and ok: "received_x2_trans C A s kid n x2 z w = (Ok warn, z1, w1)"
  shows "stored (w_app w1) (z_s_remote z) = ratchet_states_new (z_ratchet_state1 z1) (z_ratchet_state2 z) \<and>
    z_ratchet_state2 z1 = Some (z_ratchet_state1 z) \<and>
    (which_key z1 kid' = Some True \<longrightarrow> (\<forall>b. fst (received_c1_trans C A kid' n' c1 z1 w1) \<noteq> Ok b) \<and>
      (storage_answers A \<and> \<not> ctx_sessions_borrowed w1 \<and> genuine_c1 C n' c1 z1 \<longrightarrow>
        (\<exists>z2 w2. received_c1_trans C A kid' n' c1 z1 w1 = (Err (fault OutOfSequence True), z2, w2) \<and> z_beta z2 = Null \<and>
          ctx_session_map w2 kid' = None)))"
proof -
  obtain kid2 len n2 p a w2 where f: "finish_x2 C A a1 e_remote kid2 2 len n2 z (w\<lparr>w_app := a\<rparr>) = (Ok p, z1, w2)"
    and w: "w_app w1 = w_app w2"
    by (rule received_x2_second [OF z t ok])
  note g = finish_x2_second [OF A f]
  have a3: "is_a3 (z_beta z1)" using f by (auto simp: finish_x2_def Let_def is_a3_def split: prod.splits sum.splits bool.splits)
  let ?z = "\<lambda>win. z1\<lparr>z_counter_antireplay_window := win\<rparr>"
  have ne': "\<not> ratchet_option_eq (Some (z_ratchet_state1 z)) (rss_state2 (stored (w_app w1) (z_s_remote (?z win))))" for win
    using g w ne by (simp add: ratchet_states_new_def)
  have st: "z_ratchet_state2 (?z win) = Some (z_ratchet_state1 z)" for win using g by simp
  note m = confirm_key_mismatch [OF A(1) st ne']
  have c1: "\<forall>b. fst (received_c1_trans C A kid' n' c1 z1 w1) \<noteq> Ok b" if "which_key z1 kid' = Some True"
    using that a3 m(1)
    by (auto simp: received_c1_trans_def zeta_update_counter_window_def Let_def split: option.splits prod.splits outcome.splits if_splits)
       (metis fst_conv)+
  have "\<exists>z2 w2. received_c1_trans C A kid' n' c1 z1 w1 = (Err (fault OutOfSequence True), z2, w2) \<and> z_beta z2 = Null \<and>
      ctx_session_map w2 kid' = None"
    if k: "which_key z1 kid' = Some True" and h: "storage_answers A" "\<not> ctx_sessions_borrowed w1" "genuine_c1 C n' c1 z1"
  proof -
    obtain key ok win where g: "length c1 = KEY_CONFIRMATION_SIZE" "key_kek (dk_recv (key_ref z1 True)) = Some key"
      "fst (aead_decrypt_in_place C key n' None [] c1)" "zeta_update_counter_window z1 (snd (from_nonce n')) = (True, ?z win)"
      using h(3) by (auto simp: genuine_c1_def zeta_update_counter_window_def split: prod.splits)
    have "recv_kid (?z win) True = Some kid'" using k by (auto simp: which_key_def recv_kid_def split: if_splits)
    then obtain z2 w2 where "confirm_key C A (?z win) w1 = (Err (fault OutOfSequence True), z2, w2)" "z_beta z2 = Null"
      "ctx_session_map w2 kid' = None" using m(2) [OF h(1,2)] by blast
    then show ?thesis using g k a3 by (simp add: received_c1_trans_def case_prod_beta)
  qed
  with g w c1 show ?thesis by simp
qed

section \<open>The downgrade of the witness\<close>

lemma keyed_mix_key [simp]:
  "ss_k (mix_key keyed_crypto s x) = replicate 32 ((if x = [] then 0 else hd x) + 2)"
  "ss_h (mix_key keyed_crypto s x) = ss_h s"
  by (simp_all add: mix_key_def kbkdf_def kbkdf_buffer_def zssp_sizes)

lemma keyed_mix_key_and_hash [simp]:
  "ss_k (mix_key_and_hash keyed_crypto s x) = replicate 32 ((if x = [] then 0 else hd x) + 3)"
  by (simp add: mix_key_and_hash_def kbkdf_def kbkdf_buffer_def mix_hash_def zssp_sizes)

lemma downgrade_tokens: "\<exists>noise. read_x2_tokens keyed_crypto downgrade_a1 downgrade_x2 = Inr (7, 1633, noise)"
  by (simp add: read_x2_tokens_def read_e_def downgrade_slices Let_def zssp_sizes mix_dh_def decrypt_and_hash_in_place_def downgrade_a1_def)

lemma downgrade_tests:
  "test_ratchet_key keyed_crypto noise [3, 3, 3, 4] (replicate 16 3) (rs_key lost_ratchet) = None"
  "\<exists>n'. test_ratchet_key keyed_crypto noise [3, 3, 3, 4] (replicate 16 3) (replicate RATCHET_SIZE 0) = Some (1, n')"
  by (simp_all add: test_ratchet_key_def decrypt_and_hash_in_place_def lost_ratchet_def zssp_sizes Let_def
    u32_from_be_bytes_def nat_of_be_def NonZeroU32_new_def)

lemma downgrade_received:
  "\<exists>z1 w1. received_x2_trans keyed_crypto sample_app 0 20 (to_nonce PACKET_TYPE_HANDSHAKE_RESPONSE downgrade_counter)
     downgrade_x2 downgrade_zeta downgrade_world = (Ok True, z1, w1)"
proof -
  obtain noise where tok: "read_x2_tokens keyed_crypto downgrade_a1 downgrade_x2 = Inr (7, 1633, noise)"
    using downgrade_tokens by blast
  obtain n' where n': "test_ratchet_key keyed_crypto noise [3, 3, 3, 4] (replicate 16 3) (replicate RATCHET_SIZE 0) = Some (1, n')"
    using downgrade_tests(2) by blast
  have z: "z_beta downgrade_zeta = A1 downgrade_a1" "recv_kid downgrade_zeta True = Some 20" "z_ratchet_state1 downgrade_zeta = lost_ratchet"
    "z_ratchet_state2 downgrade_zeta = None" "z_s_remote downgrade_zeta = 5" "z_session_data downgrade_zeta = ()"
    by (simp_all add: downgrade_zeta_def sample_zeta_def recv_kid_def key_ref_def sample_duplex_def sample_keys_def)
  let ?noise4 = "fst (write_x3 keyed_crypto (ctx_s_secret downgrade_world) 7 [] n')"
  have sel: "select_ratchet_key keyed_crypto sample_app 0 downgrade_zeta noise [3, 3, 3, 4] (replicate 16 3) (w_app downgrade_world)
      = ((Some (1, n'), 2, 0, True), w_app downgrade_world)"
    using n' by (simp add: select_ratchet_key_def z downgrade_tests(1) Let_def sample_app_def)
  have st: "sa_table (w_app downgrade_world) 5 = ratchet_states_new lost_ratchet None" by (simp add: downgrade_world_def)
  obtain a where sv: "save_ratchet sample_app 5 () (cas_new (derived_ratchet keyed_crypto ?noise4 0) None True lost_ratchet None True False)
      downgrade_world = (Inr True, downgrade_world\<lparr>w_app := a\<rparr>)"
    using save_ratchet_live [OF sample_storage_live st] by blast
  have "a1_identity downgrade_a1 = []" by (simp add: downgrade_a1_def)
  then have "\<exists>p z1 w1. finish_x2 keyed_crypto sample_app downgrade_a1 7 1 2 0 n' downgrade_zeta downgrade_world = (Ok p, z1, w1)"
    using sv by (simp add: finish_x2_def Let_def case_prod_beta z derived_ratchet_def)
  then obtain p z1 w1 where "finish_x2 keyed_crypto sample_app downgrade_a1 7 1 2 0 n' downgrade_zeta downgrade_world = (Ok p, z1, w1)"
    by blast
  then have p: "process_x2 keyed_crypto sample_app 0 downgrade_x2 downgrade_zeta downgrade_world = (True, Ok p, z1, w1)"
    using tok sel by (simp add: process_x2_def z(1) downgrade_slices zssp_sizes Let_def)
  have "drop 9 (to_nonce PACKET_TYPE_HANDSHAKE_RESPONSE downgrade_counter) = [3, 3, 3]"
    "downgrade_counter < COUNTER_WINDOW_MAX_SKIP_AHEAD"
    unfolding downgrade_counter_def by (rule counter_of_three, simp)+
  with p show ?thesis by (simp add: received_x2_trans_def downgrade_slices zssp_sizes z(2) not_le)
qed

theorem fallback_never_confirmed_witness:
  "\<exists>z1 w1 c1 z2 w2. received_x2_trans keyed_crypto sample_app 0 20 (to_nonce PACKET_TYPE_HANDSHAKE_RESPONSE downgrade_counter)
     downgrade_x2 downgrade_zeta downgrade_world = (Ok True, z1, w1) \<and>
     sa_table (w_app w1) 5 = ratchet_states_new (z_ratchet_state1 z1) None \<and> z_ratchet_state2 z1 = Some lost_ratchet \<and>
     received_c1_trans keyed_crypto sample_app 20 (to_nonce PACKET_TYPE_KEY_CONFIRM 0) c1 z1 w1 = (Err (fault OutOfSequence True), z2, w2) \<and>
     z_beta z2 = Null"
proof -
  obtain z1 w1 where r: "received_x2_trans keyed_crypto sample_app 0 20 (to_nonce PACKET_TYPE_HANDSHAKE_RESPONSE downgrade_counter)
     downgrade_x2 downgrade_zeta downgrade_world = (Ok True, z1, w1)" using downgrade_received by blast
  obtain noise where tok: "read_x2_tokens keyed_crypto downgrade_a1 downgrade_x2 = Inr (7, 1633, noise)"
    using downgrade_tokens by blast
  have z: "z_beta downgrade_zeta = A1 downgrade_a1" "z_ratchet_state1 downgrade_zeta = lost_ratchet"
    "z_ratchet_state2 downgrade_zeta = None" "z_s_remote downgrade_zeta = 5" "recv_kid downgrade_zeta True = Some 20"
    "z_counter_antireplay_window downgrade_zeta = window_new COUNTER_WINDOW_MAX_OOO"
    by (simp_all add: downgrade_zeta_def sample_zeta_def recv_kid_def key_ref_def sample_duplex_def sample_keys_def)
  have t: "test_ratchet_key keyed_crypto noise (subslice 1633 (1633 + KID_SIZE) downgrade_x2)
      (subslice (1633 + KID_SIZE) (1633 + KID_SIZE + AES_GCM_TAG_SIZE) downgrade_x2) (rs_key (z_ratchet_state1 downgrade_zeta)) = None"
    by (simp add: downgrade_slices downgrade_tests z zssp_sizes)
  have ne: "\<not> ratchet_option_eq (Some (z_ratchet_state1 downgrade_zeta)) (z_ratchet_state2 downgrade_zeta)" by (simp add: z)
  obtain kid' len n2 p a w2 where f: "finish_x2 keyed_crypto sample_app downgrade_a1 7 kid' 2 len n2 downgrade_zeta (downgrade_world\<lparr>w_app := a\<rparr>)
      = (Ok p, z1, w2)" "ctx_sessions_borrowed w1 = ctx_sessions_borrowed w2"
    by (rule received_x2_second [OF z(1) tok t r])
  note g = finish_x2_fields [OF f(1)]
  have b: "which_key z1 20 = Some True" "\<not> ctx_sessions_borrowed w1"
    using g(1,4) f(2) z(5) by (simp_all add: which_key_def downgrade_world_def)
  obtain k where k: "key_kek (dk_recv (key_ref z1 True)) = Some k" using g(2) by blast
  have "genuine_c1 keyed_crypto (to_nonce PACKET_TYPE_KEY_CONFIRM 0) (replicate 16 (hd k)) z1"
    using k g(3) z(6) fresh_window_takes_zero by (simp add: genuine_c1_def zeta_update_counter_window_def zssp_sizes)
  moreover have "storage_answers sample_app" by (auto simp: storage_answers_def sample_app_def)
  ultimately show ?thesis
    using fallback_never_confirmed [OF sample_app_atomic _ z(1) tok t ne r, of 20 "to_nonce PACKET_TYPE_KEY_CONFIRM 0" "replicate 16 (hd k)"]
      r z b by (auto simp: sample_app_def)
qed

end
