(* ===== verification/Indexed_Heap.thy ===== *)
theory Indexed_Heap
  imports Proto "HOL-Library.Multiset"
begin

text \<open>
  \<open>IndexedBinaryHeap\<close> of \<open>performance/src/indexed_heap.rs\<close>, the queue of session timers: a
  binary heap of items and priorities whose entries are found through a generational table.
  An operation returns \<open>None\<close> where the source panics on an index out of range.

  The invariant \<open>heap_linked\<close> ties the two arrays and the free list together, \<open>heap_ordered\<close>
  is the order of the heap. The lemmas of this theory are about exchanging two entries and
  about the two loops that move an entry to its place.
\<close>

section \<open>Definitions\<close>

definition USIZE_MAX :: nat where
  "USIZE_MAX = 2 ^ 64 - 1"

type_synonym heap_index = "nat \<times> u64"

definition RESERVED_MARKER :: u64 where
  "RESERVED_MARKER = 1"

definition EMPTY_MARKER :: u64 where
  "EMPTY_MARKER = 0"

record ('t, 'p) indexed_heap =
  ih_generation :: u64
  ih_free_list_head :: nat
  ih_data :: "('t \<times> 'p \<times> nat) list"
  ih_map :: "(nat \<times> u64) list"

definition heap_new :: "('t, 'p) indexed_heap" where
  "heap_new = \<lparr>ih_generation = 1, ih_free_list_head = USIZE_MAX, ih_data = [], ih_map = []\<rparr>"

text \<open>The item, the priority and the table slot of an entry.\<close>

definition entry_item :: "'t \<times> 'p \<times> nat \<Rightarrow> 't" where
  "entry_item e = fst e"

definition entry_prio :: "'t \<times> 'p \<times> nat \<Rightarrow> 'p" where
  "entry_prio e = fst (snd e)"

definition entry_slot :: "'t \<times> 'p \<times> nat \<Rightarrow> nat" where
  "entry_slot e = snd (snd e)"

definition heap_peek :: "('t, 'p) indexed_heap \<Rightarrow> ('t \<times> 'p \<times> heap_index) option option" where
  "heap_peek h =
     (case ih_data h of
        [] \<Rightarrow> Some None
      | e # _ \<Rightarrow>
          if entry_slot e < length (ih_map h)
          then Some (Some (entry_item e, entry_prio e, (entry_slot e, snd (ih_map h ! entry_slot e))))
          else None)"

text \<open>The assignment through the reference to the item that \<open>peek_mut\<close> returns.\<close>

definition heap_peek_mut :: "('t \<Rightarrow> 't) \<Rightarrow> ('t, 'p) indexed_heap \<Rightarrow> ('t, 'p) indexed_heap" where
  "heap_peek_mut f h =
     (case ih_data h of [] \<Rightarrow> h | (t, p, k) # es \<Rightarrow> h\<lparr>ih_data := (f t, p, k) # es\<rparr>)"

definition heap_swap :: "('t, 'p) indexed_heap \<Rightarrow> nat \<Rightarrow> nat \<Rightarrow> ('t, 'p) indexed_heap option" where
  "heap_swap h a b =
     (let n = length (ih_data h); m = ih_map h;
          sa = entry_slot (ih_data h ! a); sb = entry_slot (ih_data h ! b)
      in if a < n \<and> b < n \<and> sa < length m \<and> sb < length m
         then let m = m[sa := (b, snd (m ! sa))]; m = m[sb := (a, snd (m ! sb))]
              in Some (h\<lparr>ih_map := m, ih_data := (ih_data h)[a := ih_data h ! b, b := ih_data h ! a]\<rparr>)
         else None)"

lemma heap_swap_length: "heap_swap h a b = Some h' \<Longrightarrow> length (ih_data h') = length (ih_data h)"
  by (auto simp: heap_swap_def Let_def split: if_splits)

function bubble_down :: "('t, 'p :: linorder) indexed_heap \<Rightarrow> nat \<Rightarrow> ('t, 'p) indexed_heap option" where
  "bubble_down h parent_idx =
     (let child0_idx = parent_idx * 2 + 1; child1_idx = child0_idx + 1
      in if child0_idx < length (ih_data h)
         then
           let largest_child =
             (if child1_idx < length (ih_data h) \<and> entry_prio (ih_data h ! child0_idx) < entry_prio (ih_data h ! child1_idx)
              then child1_idx else child0_idx)
           in if entry_prio (ih_data h ! parent_idx) < entry_prio (ih_data h ! largest_child)
              then (case heap_swap h parent_idx largest_child of
                      None \<Rightarrow> None
                    | Some h \<Rightarrow> bubble_down h largest_child)
              else Some h
         else Some h)"
  by auto
termination
  by (relation "measure (\<lambda>(h, i). length (ih_data h) - i)") (auto dest: heap_swap_length split: if_splits)

function bubble_up :: "('t, 'p :: linorder) indexed_heap \<Rightarrow> nat \<Rightarrow> ('t, 'p) indexed_heap option" where
  "bubble_up h child_idx =
     (if 0 < child_idx
      then
        let parent_idx = (child_idx - 1) div 2
        in if length (ih_data h) \<le> child_idx then None
           else if entry_prio (ih_data h ! parent_idx) < entry_prio (ih_data h ! child_idx)
           then (case heap_swap h parent_idx child_idx of
                   None \<Rightarrow> None
                 | Some h \<Rightarrow> bubble_up h parent_idx)
           else Some h
      else Some h)"
  by auto
termination
  by (relation "measure (\<lambda>(h, i). i)") auto

declare bubble_down.simps [simp del] bubble_up.simps [simp del]

definition heap_remove_idx :: "('t, 'p :: linorder) indexed_heap \<Rightarrow> nat \<Rightarrow> (('t \<times> 'p) \<times> ('t, 'p) indexed_heap) option" where
  "heap_remove_idx h data_idx =
     (if ih_data h = [] then None
      else case heap_swap h data_idx (length (ih_data h) - 1) of
        None \<Rightarrow> None
      | Some h \<Rightarrow>
          (let ret = last (ih_data h);
               h = h\<lparr>ih_data := butlast (ih_data h)\<rparr>;
               h = h\<lparr>ih_map := (ih_map h)[entry_slot ret := (ih_free_list_head h, EMPTY_MARKER)],
                     ih_free_list_head := entry_slot ret\<rparr>
           in case bubble_down h data_idx of
                None \<Rightarrow> None
              | Some h \<Rightarrow> Some ((entry_item ret, entry_prio ret), h)))"

definition deref_index :: "('t, 'p) indexed_heap \<Rightarrow> heap_index \<Rightarrow> nat option" where
  "deref_index h idx =
     (if fst idx < length (ih_map h) \<and> snd (ih_map h ! fst idx) = snd idx
      then Some (fst (ih_map h ! fst idx)) else None)"

definition heap_pop :: "('t, 'p :: linorder) indexed_heap \<Rightarrow> (('t \<times> 'p) option \<times> ('t, 'p) indexed_heap) option" where
  "heap_pop h =
     (if ih_data h = [] then Some (None, h)
      else map_option (\<lambda>(r, h). (Some r, h)) (heap_remove_idx h 0))"

definition reserve_index :: "('t, 'p) indexed_heap \<Rightarrow> (heap_index \<times> ('t, 'p) indexed_heap) option" where
  "reserve_index h =
     (let h = h\<lparr>ih_generation := ih_generation h + 1\<rparr>
      in if ih_free_list_head h \<noteq> USIZE_MAX
         then
           let pre_head = ih_free_list_head h
           in if pre_head < length (ih_map h)
              then Some ((pre_head, ih_generation h),
                     h\<lparr>ih_free_list_head := fst (ih_map h ! pre_head),
                       ih_map := (ih_map h)[pre_head := (0, RESERVED_MARKER)]\<rparr>)
              else None
         else
           let h = h\<lparr>ih_map := ih_map h @ [(0, RESERVED_MARKER)]\<rparr>
           in Some ((length (ih_map h) - 1, ih_generation h), h))"

definition push_reserved ::
  "('t, 'p :: linorder) indexed_heap \<Rightarrow> heap_index \<Rightarrow> 't \<Rightarrow> 'p \<Rightarrow> (bool \<times> ('t, 'p) indexed_heap) option" where
  "push_reserved h idx item priority =
     (if fst idx < length (ih_map h) \<and> snd (ih_map h ! fst idx) = RESERVED_MARKER
      then
        let data_idx = length (ih_data h);
            h = h\<lparr>ih_map := (ih_map h)[fst idx := (data_idx, snd idx)]\<rparr>;
            h = h\<lparr>ih_data := ih_data h @ [(item, priority, fst idx)]\<rparr>
        in map_option (Pair True) (bubble_up h data_idx)
      else Some (False, h))"

definition heap_push ::
  "('t, 'p :: linorder) indexed_heap \<Rightarrow> 't \<Rightarrow> 'p \<Rightarrow> (heap_index \<times> ('t, 'p) indexed_heap) option" where
  "heap_push h item priority =
     (case reserve_index h of
        None \<Rightarrow> None
      | Some (idx, h) \<Rightarrow> map_option (\<lambda>(_, h). (idx, h)) (push_reserved h idx item priority))"

definition update_priority ::
  "('t, 'p :: linorder) indexed_heap \<Rightarrow> heap_index \<Rightarrow> ('p \<Rightarrow> 'p option) \<Rightarrow> ('p option \<times> ('t, 'p) indexed_heap) option" where
  "update_priority h idx f =
     (case deref_index h idx of
        None \<Rightarrow> Some (None, h)
      | Some data_idx \<Rightarrow>
          if length (ih_data h) \<le> data_idx then None
          else
            case ih_data h ! data_idx of (item, old_priority, slot) \<Rightarrow>
              (case f old_priority of
                 None \<Rightarrow> Some (None, h)
               | Some new_priority \<Rightarrow>
                   (let lesser = (new_priority < old_priority);
                        h = h\<lparr>ih_data := (ih_data h)[data_idx := (item, new_priority, slot)]\<rparr>
                    in map_option (Pair (Some old_priority))
                         (if lesser then bubble_down h data_idx else bubble_up h data_idx))))"

definition change_priority ::
  "('t, 'p :: linorder) indexed_heap \<Rightarrow> heap_index \<Rightarrow> 'p \<Rightarrow> ('p option \<times> ('t, 'p) indexed_heap) option" where
  "change_priority h idx new_priority = update_priority h idx (\<lambda>_. Some new_priority)"

definition change_item ::
  "('t, 'p) indexed_heap \<Rightarrow> heap_index \<Rightarrow> 't \<Rightarrow> ('t option \<times> ('t, 'p) indexed_heap) option" where
  "change_item h idx new_item =
     (case deref_index h idx of
        None \<Rightarrow> Some (None, h)
      | Some i \<Rightarrow>
          if length (ih_data h) \<le> i then None
          else Some (Some (entry_item (ih_data h ! i)),
                 h\<lparr>ih_data := (ih_data h)[i := (new_item, snd (ih_data h ! i))]\<rparr>))"

definition heap_get :: "('t, 'p) indexed_heap \<Rightarrow> heap_index \<Rightarrow> ('t \<times> 'p) option option" where
  "heap_get h idx =
     (case deref_index h idx of
        None \<Rightarrow> Some None
      | Some i \<Rightarrow>
          if length (ih_data h) \<le> i then None
          else Some (Some (entry_item (ih_data h ! i), entry_prio (ih_data h ! i))))"

text \<open>The assignment through the reference to the item that \<open>get_mut\<close> returns.\<close>

definition heap_get_mut :: "('t \<Rightarrow> 't) \<Rightarrow> ('t, 'p) indexed_heap \<Rightarrow> heap_index \<Rightarrow> ('t, 'p) indexed_heap option" where
  "heap_get_mut f h idx =
     (case deref_index h idx of
        None \<Rightarrow> Some h
      | Some i \<Rightarrow>
          if length (ih_data h) \<le> i then None
          else Some (h\<lparr>ih_data := (ih_data h)[i := (f (entry_item (ih_data h ! i)), snd (ih_data h ! i))]\<rparr>))"

definition heap_remove ::
  "('t, 'p :: linorder) indexed_heap \<Rightarrow> heap_index \<Rightarrow> (('t \<times> 'p) option \<times> ('t, 'p) indexed_heap) option" where
  "heap_remove h idx =
     (if fst idx < length (ih_map h)
      then if snd (ih_map h ! fst idx) = RESERVED_MARKER
           then Some (None, h\<lparr>ih_map := (ih_map h)[fst idx := (ih_free_list_head h, EMPTY_MARKER)],
                              ih_free_list_head := fst idx\<rparr>)
           else if snd (ih_map h ! fst idx) = snd idx
           then map_option (\<lambda>(r, h). (Some r, h)) (heap_remove_idx h (fst (ih_map h ! fst idx)))
           else Some (None, h)
      else Some (None, h))"

definition heap_clear :: "('t, 'p) indexed_heap \<Rightarrow> ('t, 'p) indexed_heap" where
  "heap_clear h = h\<lparr>ih_free_list_head := USIZE_MAX, ih_map := [], ih_data := []\<rparr>"

subsection \<open>Invariants\<close>

definition prio_at :: "('t, 'p) indexed_heap \<Rightarrow> nat \<Rightarrow> 'p" where
  "prio_at h i = entry_prio (ih_data h ! i)"

text \<open>Every entry is found through its slot, and every live slot (a generation of two or more) has its entry.\<close>

definition heap_linked :: "('t, 'p) indexed_heap \<Rightarrow> bool" where
  "heap_linked h \<longleftrightarrow>
     (\<forall>i < length (ih_data h). entry_slot (ih_data h ! i) < length (ih_map h) \<and>
        fst (ih_map h ! entry_slot (ih_data h ! i)) = i \<and> 2 \<le> snd (ih_map h ! entry_slot (ih_data h ! i))) \<and>
     (\<forall>k < length (ih_map h). 2 \<le> snd (ih_map h ! k) \<longrightarrow>
        fst (ih_map h ! k) < length (ih_data h) \<and> entry_slot (ih_data h ! fst (ih_map h ! k)) = k)"

text \<open>The free list threads the empty slots and ends with the sentinel.\<close>

primrec free_chain :: "(nat \<times> u64) list \<Rightarrow> nat \<Rightarrow> nat list \<Rightarrow> bool" where
  "free_chain m head [] \<longleftrightarrow> head = USIZE_MAX"
| "free_chain m head (k # ks) \<longleftrightarrow> head = k \<and> free_chain m (fst (m ! k)) ks"

definition free_wf :: "('t, 'p) indexed_heap \<Rightarrow> bool" where
  "free_wf h \<longleftrightarrow> (\<exists>fl. free_chain (ih_map h) (ih_free_list_head h) fl \<and> distinct fl \<and>
     set fl = {k. k < length (ih_map h) \<and> snd (ih_map h ! k) = EMPTY_MARKER})"

definition table_wf :: "('t, 'p) indexed_heap \<Rightarrow> bool" where
  "table_wf h \<longleftrightarrow> length (ih_map h) < USIZE_MAX \<and> 1 \<le> ih_generation h \<and>
     (\<forall>k < length (ih_map h). snd (ih_map h ! k) \<le> ih_generation h)"

definition heap_wf :: "('t, 'p) indexed_heap \<Rightarrow> bool" where
  "heap_wf h \<longleftrightarrow> heap_linked h \<and> free_wf h \<and> table_wf h"

definition heap_ordered :: "('t, 'p :: linorder) indexed_heap \<Rightarrow> bool" where
  "heap_ordered h \<longleftrightarrow> (\<forall>i. 0 < i \<and> i < length (ih_data h) \<longrightarrow> prio_at h i \<le> prio_at h ((i - 1) div 2))"

text \<open>The order with one place that may be too small for its children, or too large for its parent.\<close>

definition ordered_below :: "('t, 'p :: linorder) indexed_heap \<Rightarrow> nat \<Rightarrow> bool" where
  "ordered_below h p \<longleftrightarrow>
     (\<forall>i. 0 < i \<and> i < length (ih_data h) \<longrightarrow>
        ((i - 1) div 2 \<noteq> p \<longrightarrow> prio_at h i \<le> prio_at h ((i - 1) div 2)) \<and>
        ((i - 1) div 2 = p \<and> 0 < p \<longrightarrow> prio_at h i \<le> prio_at h ((p - 1) div 2)))"

definition ordered_above :: "('t, 'p :: linorder) indexed_heap \<Rightarrow> nat \<Rightarrow> bool" where
  "ordered_above h c \<longleftrightarrow>
     (\<forall>i. 0 < i \<and> i < length (ih_data h) \<longrightarrow>
        (i \<noteq> c \<longrightarrow> prio_at h i \<le> prio_at h ((i - 1) div 2)) \<and>
        ((i - 1) div 2 = c \<and> 0 < c \<longrightarrow> prio_at h i \<le> prio_at h ((c - 1) div 2)))"

text \<open>Two heaps with the same entries, whose tables differ only in the places of live slots.\<close>

definition same_entries :: "('t, 'p) indexed_heap \<Rightarrow> ('t, 'p) indexed_heap \<Rightarrow> bool" where
  "same_entries h h' \<longleftrightarrow> mset (ih_data h') = mset (ih_data h) \<and> ih_generation h' = ih_generation h \<and>
     ih_free_list_head h' = ih_free_list_head h \<and> length (ih_map h') = length (ih_map h) \<and>
     (\<forall>k < length (ih_map h). snd (ih_map h' ! k) = snd (ih_map h ! k) \<and>
        (\<not> 2 \<le> snd (ih_map h ! k) \<longrightarrow> fst (ih_map h' ! k) = fst (ih_map h ! k)))"

section \<open>Swapping and bubbling\<close>

lemma same_entries_refl [simp]: "same_entries h h"
  by (simp add: same_entries_def)

lemma same_entries_trans: "same_entries h1 h2 \<Longrightarrow> same_entries h2 h3 \<Longrightarrow> same_entries h1 h3"
  by (simp add: same_entries_def)

lemma same_entries_length: "same_entries h h' \<Longrightarrow> length (ih_data h') = length (ih_data h)"
  unfolding same_entries_def by (metis size_mset)

lemma free_chain_cong:
  "free_chain m head ks \<Longrightarrow> (\<And>k. k \<in> set ks \<Longrightarrow> fst (m' ! k) = fst (m ! k)) \<Longrightarrow> free_chain m' head ks"
  by (induction ks arbitrary: head) auto

lemma free_chain_update: "free_chain m head ks \<Longrightarrow> k \<notin> set ks \<Longrightarrow> free_chain (m[k := x]) head ks"
  by (induction ks arbitrary: head) auto

lemma empty_slots_update:
  "k < length m \<Longrightarrow> {j. j < length (m[k := x]) \<and> snd (m[k := x] ! j) = e} =
     (if snd x = e then insert k {j. j < length m \<and> snd (m ! j) = e} else {j. j < length m \<and> snd (m ! j) = e} - {k})"
  by (rule set_eqI) (simp add: nth_list_update)

lemma marker_cases: "(x :: u64) = 0 \<or> x = 1 \<or> 2 \<le> x"
proof -
  have "unat x = 0 \<or> unat x = 1 \<or> 2 \<le> unat x" by arith
  then show ?thesis by (auto simp: word_unat_eq_iff word_le_nat_alt)
qed

lemma same_entries_free: "same_entries h h' \<Longrightarrow> free_wf h \<Longrightarrow> free_wf h'"
  unfolding free_wf_def same_entries_def EMPTY_MARKER_def
  by (elim exE) (rule exI, auto elim!: free_chain_cong)

lemma same_entries_table: "same_entries h h' \<Longrightarrow> table_wf h \<Longrightarrow> table_wf h'"
  by (simp add: table_wf_def same_entries_def)

lemma linked_slots:
  assumes "heap_linked h" "i < length (ih_data h)" "j < length (ih_data h)" "i \<noteq> j"
  shows "entry_slot (ih_data h ! i) \<noteq> entry_slot (ih_data h ! j)"
  using assms unfolding heap_linked_def by metis

lemma heap_swap_works:
  assumes l: "heap_linked h" and ab: "a < length (ih_data h)" "b < length (ih_data h)"
  shows "\<exists>h'. heap_swap h a b = Some h' \<and> heap_linked h' \<and> same_entries h h' \<and>
    ih_data h' = (ih_data h)[a := ih_data h ! b, b := ih_data h ! a]"
proof -
  let ?sa = "entry_slot (ih_data h ! a)" and ?sb = "entry_slot (ih_data h ! b)" and ?m = "ih_map h"
  have s: "?sa < length ?m" "?sb < length ?m" "fst (?m ! ?sa) = a" "fst (?m ! ?sb) = b" "2 \<le> snd (?m ! ?sa)" "2 \<le> snd (?m ! ?sb)"
    using l ab unfolding heap_linked_def by blast+
  let ?m' = "?m[?sa := (b, snd (?m ! ?sa)), ?sb := (a, snd (?m ! ?sb))]"
  let ?d' = "(ih_data h)[a := ih_data h ! b, b := ih_data h ! a]"
  let ?h = "h\<lparr>ih_map := ?m', ih_data := ?d'\<rparr>"
  have e: "heap_swap h a b = Some ?h"
    using ab s by (simp add: heap_swap_def Let_def nth_list_update)
  have "same_entries h ?h"
    using ab s by (auto simp: same_entries_def mset_swap nth_list_update)
  moreover have "heap_linked ?h"
  proof (cases "a = b")
    case True
    then have "?m' = ?m" using s by (metis list_update_id prod.collapse)
    with True l ab show ?thesis by (simp add: list_update_id)
  next
    case False
    then have ne: "?sa \<noteq> ?sb" using linked_slots [OF l ab] by simp
    have mk: "snd (?m' ! k) = snd (?m ! k)" if "k < length ?m" for k
      using that s ne by (simp add: nth_list_update)
    have fwd: "entry_slot (?d' ! i) < length ?m \<and> fst (?m' ! entry_slot (?d' ! i)) = i \<and> 2 \<le> snd (?m ! entry_slot (?d' ! i))"
      if i: "i < length (ih_data h)" for i
    proof -
      have "i \<noteq> a \<Longrightarrow> entry_slot (ih_data h ! i) \<noteq> ?sa" "i \<noteq> b \<Longrightarrow> entry_slot (ih_data h ! i) \<noteq> ?sb"
        using linked_slots [OF l i] ab by auto
      then show ?thesis using i ab s ne l unfolding heap_linked_def
        by (cases "i = a"; cases "i = b") (auto simp: nth_list_update)
    qed
    have bwd: "fst (?m' ! k) < length (ih_data h) \<and> entry_slot (?d' ! fst (?m' ! k)) = k"
      if k: "k < length ?m" "2 \<le> snd (?m ! k)" for k
    proof -
      have "fst (?m ! k) < length (ih_data h)" "entry_slot (ih_data h ! fst (?m ! k)) = k"
        using l k unfolding heap_linked_def by blast+
      moreover have "k \<noteq> ?sa \<Longrightarrow> fst (?m ! k) \<noteq> a" "k \<noteq> ?sb \<Longrightarrow> fst (?m ! k) \<noteq> b"
        using calculation by metis+
      ultimately show ?thesis using k ab s ne False by (auto simp: nth_list_update)
    qed
    from fwd bwd mk show ?thesis unfolding heap_linked_def by simp
  qed
  ultimately show ?thesis using e by auto
qed

text \<open>The priorities after an exchange.\<close>

lemma prio_at_swap:
  assumes "a < length (ih_data h)" "b < length (ih_data h)" "i < length (ih_data h)"
    and "ih_data h' = (ih_data h)[a := ih_data h ! b, b := ih_data h ! a]"
  shows "prio_at h' i = (if i = b then prio_at h a else if i = a then prio_at h b else prio_at h i)"
  using assms by (simp add: prio_at_def nth_list_update)

lemma ordered_below_step:
  assumes o: "ordered_below h p" and p: "p < length (ih_data h)" "c < length (ih_data h)" "0 < c" "(c - 1) div 2 = p"
    and big: "prio_at h p \<le> prio_at h c" "\<And>i. i < length (ih_data h) \<Longrightarrow> 0 < i \<Longrightarrow> (i - 1) div 2 = p \<Longrightarrow> prio_at h i \<le> prio_at h c"
    and d: "ih_data h' = (ih_data h)[p := ih_data h ! c, c := ih_data h ! p]"
  shows "ordered_below h' c"
proof -
  have pc: "p < c" using p(3,4) by linarith
  have pr: "prio_at h' i = (if i = c then prio_at h p else if i = p then prio_at h c else prio_at h i)"
    if "i < length (ih_data h)" for i
    by (rule prio_at_swap [OF p(1,2) that d])
  have len: "length (ih_data h') = length (ih_data h)" using d by simp
  show ?thesis unfolding ordered_below_def len
  proof (intro allI impI conjI)
    fix i
    assume i: "0 < i \<and> i < length (ih_data h)"
    let ?q = "(i - 1) div 2"
    have q: "?q < length (ih_data h)" "?q < i" using i by linarith+
    have up: "?q \<noteq> p \<Longrightarrow> prio_at h i \<le> prio_at h ?q" "?q = p \<Longrightarrow> 0 < p \<Longrightarrow> prio_at h i \<le> prio_at h ((p - 1) div 2)"
      using o i unfolding ordered_below_def by blast+
    show "prio_at h' i \<le> prio_at h' ?q" if "?q \<noteq> c"
    proof (cases "?q = p")
      case True
      then have "prio_at h' ?q = prio_at h c" using pr [OF q(1)] pc by simp
      moreover have "prio_at h' i \<le> prio_at h c" using pr [of i] i True big q(2) by auto
      ultimately show ?thesis by simp
    next
      case False
      show ?thesis
      proof (cases "i = p")
        case True
        then have "0 < p" using i by simp
        then have "prio_at h c \<le> prio_at h ((p - 1) div 2)"
          using o p unfolding ordered_below_def by blast
        with True False that pr [of i] pr [OF q(1)] i pc show ?thesis by simp
      next
        case False
        have "i \<noteq> c" using p(4) \<open>?q \<noteq> p\<close> by blast
        with False \<open>?q \<noteq> p\<close> that up(1) pr [of i] pr [OF q(1)] i show ?thesis by simp
      qed
    qed
    show "prio_at h' i \<le> prio_at h' ((c - 1) div 2)" if "?q = c \<and> 0 < c"
    proof -
      have "?q \<noteq> p" "i \<noteq> c" "i \<noteq> p" using that q(2) pc by auto
      with up(1) that pr [of i] pr [OF p(1)] p(4) i pc show ?thesis by simp
    qed
  qed
qed

lemma bubble_down_works:
  assumes "heap_linked h"
  shows "\<exists>h'. bubble_down h p = Some h' \<and> heap_linked h' \<and> same_entries h h' \<and> (ordered_below h p \<longrightarrow> heap_ordered h')"
  using assms
proof (induction h p rule: bubble_down.induct)
  case (1 h p)
  let ?n = "length (ih_data h)" and ?lc = "p * 2 + 1" and ?rc = "p * 2 + 1 + 1"
  let ?c = "if ?rc < ?n \<and> entry_prio (ih_data h ! ?lc) < entry_prio (ih_data h ! ?rc) then ?rc else ?lc"
  have kids: "i = ?lc \<or> i = ?rc" if "(i - 1) div 2 = p" "0 < i" for i using that by linarith
  show ?case
  proof (cases "?lc < ?n \<and> entry_prio (ih_data h ! p) < entry_prio (ih_data h ! ?c)")
    case False
    have "heap_ordered h" if o: "ordered_below h p"
      unfolding heap_ordered_def
    proof (intro allI impI)
      fix i assume i: "0 < i \<and> i < ?n"
      show "prio_at h i \<le> prio_at h ((i - 1) div 2)"
      proof (cases "(i - 1) div 2 = p")
        case True
        with kids [of i] i have "i = ?lc \<or> i = ?rc" by blast
        with False i True show ?thesis by (auto simp: prio_at_def not_less split: if_splits)
      next
        case False
        with o i show ?thesis unfolding ordered_below_def by blast
      qed
    qed
    with False "1.prems" show ?thesis by (subst bubble_down.simps) (auto simp: Let_def)
  next
    case True
    then have c: "?c < ?n" "p < ?n" "0 < ?c" "(?c - 1) div 2 = p" by auto
    obtain h1 where h1: "heap_swap h p ?c = Some h1" "heap_linked h1" "same_entries h h1"
      "ih_data h1 = (ih_data h)[p := ih_data h ! ?c, ?c := ih_data h ! p]"
      using heap_swap_works [OF "1.prems" c(2,1)] by blast
    have "ordered_below h1 ?c" if o: "ordered_below h p"
    proof (rule ordered_below_step [OF o c(2,1,3,4) _ _ h1(4)])
      show "prio_at h p \<le> prio_at h ?c" unfolding prio_at_def using True less_imp_le by blast
      show "prio_at h i \<le> prio_at h ?c" if "i < ?n" "0 < i" "(i - 1) div 2 = p" for i
        using kids [OF that(3,2)] that(1) by (auto simp: prio_at_def)
    qed
    moreover have "\<exists>h'. bubble_down h1 ?c = Some h' \<and> heap_linked h' \<and> same_entries h1 h' \<and> (ordered_below h1 ?c \<longrightarrow> heap_ordered h')"
      using "1.IH" [OF refl refl _ refl _ h1(1) h1(2)] True by blast
    moreover have "bubble_down h p = bubble_down h1 ?c"
    proof -
      have "bubble_down h p = (if ?lc < ?n then
          (if entry_prio (ih_data h ! p) < entry_prio (ih_data h ! ?c)
           then (case heap_swap h p ?c of None \<Rightarrow> None | Some h \<Rightarrow> bubble_down h ?c) else Some h) else Some h)"
        by (subst bubble_down.simps) (simp only: Let_def)
      with True h1(1) show ?thesis by (simp only: if_True simp_thms option.case)
    qed
    ultimately show ?thesis using same_entries_trans [OF h1(3)] by metis
  qed
qed

lemma ordered_above_step:
  assumes o: "ordered_above h c" and c: "c < length (ih_data h)" "0 < c" "p = (c - 1) div 2"
    and big: "prio_at h p \<le> prio_at h c"
    and d: "ih_data h' = (ih_data h)[p := ih_data h ! c, c := ih_data h ! p]"
  shows "ordered_above h' p"
proof -
  have pc: "p < c" using c(2,3) by linarith
  have p: "p < length (ih_data h)" using pc c(1) by linarith
  have pr: "prio_at h' i = (if i = c then prio_at h p else if i = p then prio_at h c else prio_at h i)"
    if "i < length (ih_data h)" for i
    by (rule prio_at_swap [OF p c(1) that d])
  have len: "length (ih_data h') = length (ih_data h)" using d by simp
  show ?thesis unfolding ordered_above_def len
  proof (intro allI impI conjI)
    fix i
    assume i: "0 < i \<and> i < length (ih_data h)"
    let ?q = "(i - 1) div 2"
    have q: "?q < length (ih_data h)" "?q < i" using i by linarith+
    have up: "i \<noteq> c \<Longrightarrow> prio_at h i \<le> prio_at h ?q" "?q = c \<Longrightarrow> prio_at h i \<le> prio_at h p"
      using o i c(2,3) unfolding ordered_above_def by blast+
    show "prio_at h' i \<le> prio_at h' ?q" if "i \<noteq> p"
    proof (cases "i = c")
      case True
      with c(3) pr [of i] pr [OF q(1)] i pc big show ?thesis by simp
    next
      case False
      have "prio_at h p \<le> prio_at h c" by (rule big)
      with False that up pr [of i] pr [OF q(1)] i show ?thesis by (auto intro: order_trans)
    qed
    show "prio_at h' i \<le> prio_at h' ((p - 1) div 2)" if "?q = p \<and> 0 < p"
    proof -
      let ?g = "(p - 1) div 2"
      have g: "?g < length (ih_data h)" "?g \<noteq> p" "?g \<noteq> c" using that p pc by linarith+
      have pg: "prio_at h p \<le> prio_at h ?g" using o that p pc unfolding ordered_above_def by (metis less_irrefl)
      have "prio_at h' i \<le> prio_at h p"
        using that up(1) pr [of i] i q(2) by (cases "i = c") auto
      with pg pr [OF g(1)] g(2,3) show ?thesis by simp
    qed
  qed
qed

lemma bubble_up_works:
  assumes "heap_linked h" "c < length (ih_data h)"
  shows "\<exists>h'. bubble_up h c = Some h' \<and> heap_linked h' \<and> same_entries h h' \<and> (ordered_above h c \<longrightarrow> heap_ordered h')"
  using assms
proof (induction h c rule: bubble_up.induct)
  case (1 h c)
  let ?p = "(c - 1) div 2"
  show ?case
  proof (cases "0 < c \<and> entry_prio (ih_data h ! ?p) < entry_prio (ih_data h ! c)")
    case False
    have "heap_ordered h" if o: "ordered_above h c"
      unfolding heap_ordered_def
    proof (intro allI impI)
      fix i assume i: "0 < i \<and> i < length (ih_data h)"
      show "prio_at h i \<le> prio_at h ((i - 1) div 2)"
        using False o i unfolding ordered_above_def by (cases "i = c") (auto simp: prio_at_def not_less)
    qed
    with False "1.prems" show ?thesis by (subst bubble_up.simps) (auto simp: Let_def)
  next
    case True
    then have p: "?p < length (ih_data h)" using "1.prems"(2) by linarith
    obtain h1 where h1: "heap_swap h ?p c = Some h1" "heap_linked h1" "same_entries h h1"
      "ih_data h1 = (ih_data h)[?p := ih_data h ! c, c := ih_data h ! ?p]"
      using heap_swap_works [OF "1.prems"(1) p "1.prems"(2)] by blast
    have "ordered_above h1 ?p" if o: "ordered_above h c"
      by (rule ordered_above_step [OF o "1.prems"(2) _ refl _ h1(4)]) (use True in \<open>auto simp: prio_at_def\<close>)
    moreover have "\<exists>h'. bubble_up h1 ?p = Some h' \<and> heap_linked h' \<and> same_entries h1 h' \<and> (ordered_above h1 ?p \<longrightarrow> heap_ordered h')"
      using "1.IH" [OF _ refl _ _ h1(1) h1(2)] True "1.prems"(2) p same_entries_length [OF h1(3)] by simp
    moreover have "bubble_up h c = bubble_up h1 ?p"
      using True h1(1) "1.prems"(2) by (subst bubble_up.simps) (simp add: Let_def)
    ultimately show ?thesis using same_entries_trans [OF h1(3)] by metis
  qed
qed

end
