(* ===== verification/Indexed_Heap_Laws.thy ===== *)
theory Indexed_Heap_Laws
  imports Indexed_Heap
begin

text \<open>
  The laws of the indexed heap: what each operation does to the set of live entries and to the
  invariants, the contract \<open>max_queue\<close> of a priority queue with the heap as its interpretation,
  and the heaps that any sequence of operations reaches.
\<close>

section \<open>The operations\<close>

lemma same_entries_wf: "heap_wf h \<Longrightarrow> heap_linked h' \<Longrightarrow> same_entries h h' \<Longrightarrow> heap_wf h'"
  using same_entries_free same_entries_table by (auto simp: heap_wf_def)

text \<open>The live entries: what the table finds under a slot and its generation.\<close>

definition heap_entries :: "('t, 'p) indexed_heap \<Rightarrow> (heap_index \<times> 't \<times> 'p) set" where
  "heap_entries h = (\<lambda>e. ((entry_slot e, snd (ih_map h ! entry_slot e)), entry_item e, entry_prio e)) ` set (ih_data h)"

lemma linked_generation [simp]: "heap_linked (h\<lparr>ih_generation := g\<rparr>) = heap_linked h" "heap_entries (h\<lparr>ih_generation := g\<rparr>) = heap_entries h"
  by (simp_all add: heap_linked_def heap_entries_def)

lemma same_entries_heap_entries:
  "heap_linked h \<Longrightarrow> same_entries h h' \<Longrightarrow> heap_entries h' = heap_entries h"
proof -
  assume "heap_linked h" "same_entries h h'"
  then have "set (ih_data h') = set (ih_data h)" and "snd (ih_map h' ! entry_slot e) = snd (ih_map h ! entry_slot e)"
    if "e \<in> set (ih_data h)" for e
    using that by (auto simp: same_entries_def heap_linked_def in_set_conv_nth dest: mset_eq_setD)
  then show ?thesis unfolding heap_entries_def
    by (cases "set (ih_data h) = {}") (use \<open>same_entries h h'\<close> in \<open>auto simp: same_entries_def dest: mset_eq_setD intro!: image_cong\<close>)
qed

text \<open>Changing a slot that is not live, and appending one.\<close>

lemma marker_dead [simp]: "\<not> 2 \<le> (1 :: u64)" "\<not> 2 \<le> (0 :: u64)"
  by (simp_all add: word_le_nat_alt)

lemma linked_dead_slot:
  assumes "heap_linked h" "k < length (ih_map h)" "\<not> 2 \<le> snd (ih_map h ! k)" "\<not> 2 \<le> snd x"
  shows "heap_linked (h\<lparr>ih_free_list_head := f, ih_map := (ih_map h)[k := x]\<rparr>)"
    and "heap_entries (h\<lparr>ih_free_list_head := f, ih_map := (ih_map h)[k := x]\<rparr>) = heap_entries h"
proof -
  have ne: "k \<noteq> entry_slot e" if "e \<in> set (ih_data h)" for e
    using assms that unfolding heap_linked_def in_set_conv_nth by blast
  then show "heap_linked (h\<lparr>ih_free_list_head := f, ih_map := (ih_map h)[k := x]\<rparr>)"
    using assms unfolding heap_linked_def by (auto simp: nth_list_update dest: nth_mem)
  show "heap_entries (h\<lparr>ih_free_list_head := f, ih_map := (ih_map h)[k := x]\<rparr>) = heap_entries h"
    unfolding heap_entries_def by (rule image_cong) (use ne in simp_all)
qed

lemma linked_new_slot:
  assumes "heap_linked h" "\<not> 2 \<le> snd x"
  shows "heap_linked (h\<lparr>ih_map := ih_map h @ [x]\<rparr>)" and "heap_entries (h\<lparr>ih_map := ih_map h @ [x]\<rparr>) = heap_entries h"
proof -
  have lt: "entry_slot e < length (ih_map h)" if "e \<in> set (ih_data h)" for e
    using assms that unfolding heap_linked_def in_set_conv_nth by blast
  then show "heap_linked (h\<lparr>ih_map := ih_map h @ [x]\<rparr>)"
    using assms unfolding heap_linked_def by (auto simp: nth_append less_Suc_eq)
  show "heap_entries (h\<lparr>ih_map := ih_map h @ [x]\<rparr>) = heap_entries h"
    unfolding heap_entries_def by (rule image_cong) (use lt in \<open>simp_all add: nth_append\<close>)
qed

lemma generation_step:
  assumes "1 \<le> (g :: u64)" "g \<noteq> - 1"
  shows "g \<le> g + 1" "2 \<le> g + 1" "1 \<le> g + 1"
proof -
  have "unat g + 1 < 2 ^ 64" by (rule unat_plus_one [OF assms(2)])
  then have "unat (g + 1) = unat g + 1" by (simp add: unat_word_ariths)
  moreover have "1 \<le> unat g" using assms(1) by (simp add: word_le_nat_alt)
  ultimately show "g \<le> g + 1" "2 \<le> g + 1" "1 \<le> g + 1" by (simp_all add: word_le_nat_alt)
qed

lemma reserve_index_works:
  assumes wf: "heap_wf h" and g: "ih_generation h \<noteq> - 1" and room: "length (ih_map h) + 1 < USIZE_MAX"
  shows "\<exists>idx h'. reserve_index h = Some (idx, h') \<and> heap_wf h' \<and> ih_data h' = ih_data h \<and>
    ih_generation h' = ih_generation h + 1 \<and> snd idx = ih_generation h + 1 \<and> 2 \<le> snd idx \<and>
    fst idx < length (ih_map h') \<and> snd (ih_map h' ! fst idx) = RESERVED_MARKER \<and>
    length (ih_map h') \<le> length (ih_map h) + 1 \<and> heap_entries h' = heap_entries h"
proof -
  have l: "heap_linked h" and t: "table_wf h" using wf by (simp_all add: heap_wf_def)
  have gs: "ih_generation h \<le> ih_generation h + 1" "2 \<le> ih_generation h + 1" "1 \<le> ih_generation h + 1"
    using generation_step g t unfolding table_wf_def by blast+
  obtain fl where fl: "free_chain (ih_map h) (ih_free_list_head h) fl" "distinct fl"
    "set fl = {k. k < length (ih_map h) \<and> snd (ih_map h ! k) = EMPTY_MARKER}"
    using wf unfolding heap_wf_def free_wf_def by blast
  have old: "snd (ih_map h ! k) \<le> ih_generation h + 1" if "k < length (ih_map h)" for k
    using t gs(1) that unfolding table_wf_def by (meson order_trans)
  show ?thesis
  proof (cases fl)
    case Nil
    then have head: "ih_free_list_head h = USIZE_MAX" using fl(1) by simp
    let ?h = "h\<lparr>ih_generation := ih_generation h + 1, ih_map := ih_map h @ [(0, RESERVED_MARKER)]\<rparr>"
    have r: "reserve_index h = Some ((length (ih_map h), ih_generation h + 1), ?h)"
      using head by (simp add: reserve_index_def Let_def)
    have "heap_linked ?h" "heap_entries ?h = heap_entries h"
      using linked_new_slot [of "h\<lparr>ih_generation := ih_generation h + 1\<rparr>" "(0, RESERVED_MARKER)"] l
      by (simp_all add: RESERVED_MARKER_def)
    moreover have "free_wf ?h"
      unfolding free_wf_def using fl Nil head
      by (intro exI [of _ "[]"]) (auto simp: nth_append RESERVED_MARKER_def EMPTY_MARKER_def less_Suc_eq)
    moreover have "table_wf ?h"
      using t room gs old by (auto simp: table_wf_def nth_append RESERVED_MARKER_def less_Suc_eq)
    ultimately show ?thesis using r gs(2) by (auto simp: heap_wf_def nth_append)
  next
    case (Cons k ks)
    then have k: "ih_free_list_head h = k" "k < length (ih_map h)" "snd (ih_map h ! k) = EMPTY_MARKER"
      "free_chain (ih_map h) (fst (ih_map h ! k)) ks" "k \<notin> set ks" "distinct ks" using fl by auto
    have ks: "set ks = {j. j < length (ih_map h) \<and> snd (ih_map h ! j) = EMPTY_MARKER} - {k}"
      unfolding fl(3) [symmetric] using Cons k(5) by simp
    have kM: "k \<noteq> USIZE_MAX" using k(2) t by (simp add: table_wf_def)
    let ?m = "(ih_map h)[k := (0, RESERVED_MARKER)]"
    let ?h = "h\<lparr>ih_generation := ih_generation h + 1, ih_free_list_head := fst (ih_map h ! k), ih_map := ?m\<rparr>"
    have r: "reserve_index h = Some ((k, ih_generation h + 1), ?h)"
      using k kM by (simp add: reserve_index_def Let_def)
    have "heap_linked ?h" "heap_entries ?h = heap_entries h"
      using linked_dead_slot [of "h\<lparr>ih_generation := ih_generation h + 1\<rparr>" k "(0, RESERVED_MARKER)" "fst (ih_map h ! k)"] l k(2,3)
      by (simp_all add: RESERVED_MARKER_def EMPTY_MARKER_def)
    moreover have "free_chain ?m (fst (ih_map h ! k)) ks"
      by (rule free_chain_update [OF k(4,5)])
    then have "free_wf ?h"
      unfolding free_wf_def using empty_slots_update [OF k(2), of "(0, RESERVED_MARKER)" EMPTY_MARKER] k(5,6) ks
      by (intro exI [of _ ks]) (simp add: RESERVED_MARKER_def EMPTY_MARKER_def)
    moreover have "table_wf ?h"
      using t gs old k(2) by (auto simp: table_wf_def nth_list_update RESERVED_MARKER_def)
    ultimately show ?thesis using r gs(2) k(2) by (auto simp: heap_wf_def)
  qed
qed


text \<open>Appending an entry for a reserved slot.\<close>

lemma linked_append:
  assumes l: "heap_linked h" and k: "k < length (ih_map h)" "\<not> 2 \<le> snd (ih_map h ! k)" and g: "2 \<le> g"
    and h': "h' = h\<lparr>ih_map := (ih_map h)[k := (length (ih_data h), g)], ih_data := ih_data h @ [(t, p, k)]\<rparr>"
  shows "heap_linked h'" and "heap_entries h' = insert ((k, g), t, p) (heap_entries h)"
    and "heap_ordered h \<Longrightarrow> ordered_above h' (length (ih_data h))"
proof -
  have ne: "k \<noteq> entry_slot e" if "e \<in> set (ih_data h)" for e
    using l k that unfolding heap_linked_def in_set_conv_nth by blast
  have ne': "k \<noteq> entry_slot (ih_data h ! i)" if "i < length (ih_data h)" for i using ne that by simp
  show "heap_linked h'"
    using l k g ne' unfolding heap_linked_def h'
    by (auto simp: nth_list_update nth_append less_Suc_eq entry_slot_def)
  have "heap_entries (h\<lparr>ih_map := (ih_map h)[k := (length (ih_data h), g)]\<rparr>) = heap_entries h"
    unfolding heap_entries_def by (rule image_cong) (use ne in simp_all)
  then show "heap_entries h' = insert ((k, g), t, p) (heap_entries h)"
    using k unfolding heap_entries_def h' by (simp add: entry_slot_def entry_item_def entry_prio_def)
  assume o: "heap_ordered h"
  have pr: "prio_at h' i = prio_at h i" if "i < length (ih_data h)" for i
    using that by (simp add: prio_at_def h' nth_append)
  show "ordered_above h' (length (ih_data h))"
    unfolding ordered_above_def
  proof (intro allI impI conjI)
    fix i assume i: "0 < i \<and> i < length (ih_data h')"
    then have q: "(i - 1) div 2 < length (ih_data h)" "(i - 1) div 2 < i" by (auto simp: h')
    show "prio_at h' i \<le> prio_at h' ((i - 1) div 2)" if "i \<noteq> length (ih_data h)"
      using that i q pr o unfolding heap_ordered_def by (auto simp: h')
    show "prio_at h' i \<le> prio_at h' ((length (ih_data h) - 1) div 2)" if "(i - 1) div 2 = length (ih_data h) \<and> 0 < length (ih_data h)"
      using that q by simp
  qed
qed

lemma push_reserved_works:
  assumes wf: "heap_wf h" and k: "fst idx < length (ih_map h)" "snd (ih_map h ! fst idx) = RESERVED_MARKER"
    and g: "2 \<le> snd idx" "snd idx \<le> ih_generation h"
  shows "\<exists>h'. push_reserved h idx t p = Some (True, h') \<and> heap_wf h' \<and> (heap_ordered h \<longrightarrow> heap_ordered h') \<and>
    heap_entries h' = insert (idx, t, p) (heap_entries h) \<and>
    mset (ih_data h') = add_mset (t, p, fst idx) (mset (ih_data h)) \<and>
    ih_generation h' = ih_generation h \<and> length (ih_map h') = length (ih_map h)"
proof -
  let ?n = "length (ih_data h)"
  let ?h = "h\<lparr>ih_map := (ih_map h)[fst idx := (?n, snd idx)], ih_data := ih_data h @ [(t, p, fst idx)]\<rparr>"
  have l: "heap_linked h" and dead: "\<not> 2 \<le> snd (ih_map h ! fst idx)" using wf k by (simp_all add: heap_wf_def RESERVED_MARKER_def)
  note app = linked_append [OF l k(1) dead g(1) refl, of t p]
  obtain fl where fl: "free_chain (ih_map h) (ih_free_list_head h) fl" "distinct fl"
    "set fl = {k. k < length (ih_map h) \<and> snd (ih_map h ! k) = EMPTY_MARKER}"
    using wf unfolding heap_wf_def free_wf_def by blast
  have g0: "snd idx \<noteq> 0" using g(1) by auto
  have "free_chain (ih_map ?h) (ih_free_list_head h) fl"
    using free_chain_update [OF fl(1)] fl(3) k by (simp add: RESERVED_MARKER_def EMPTY_MARKER_def)
  then have "free_wf ?h"
    unfolding free_wf_def using empty_slots_update [OF k(1), of "(?n, snd idx)" EMPTY_MARKER] fl(2,3) k(2) g0
    by (intro exI [of _ fl]) (simp add: RESERVED_MARKER_def EMPTY_MARKER_def)
  moreover have "table_wf ?h"
    using wf g k(1) by (auto simp: heap_wf_def table_wf_def nth_list_update)
  ultimately have wf1: "heap_wf ?h" using app(1) by (simp add: heap_wf_def)
  obtain h' where h': "bubble_up ?h ?n = Some h'" "heap_linked h'" "same_entries ?h h'"
    "ordered_above ?h ?n \<longrightarrow> heap_ordered h'"
    using bubble_up_works [OF app(1), of ?n] by auto
  have "push_reserved h idx t p = Some (True, h')"
    using k h'(1) by (simp add: push_reserved_def Let_def)
  moreover have "heap_entries h' = insert (idx, t, p) (heap_entries h)"
    using same_entries_heap_entries [OF app(1) h'(3)] app(2) by simp
  ultimately show ?thesis
    using same_entries_wf [OF wf1 h'(2,3)] h'(4) app(3) h'(3) by (simp add: same_entries_def)
qed

lemma heap_push_works:
  assumes wf: "heap_wf h" and g: "ih_generation h \<noteq> - 1" and room: "length (ih_map h) + 1 < USIZE_MAX"
  shows "\<exists>idx h'. heap_push h t p = Some (idx, h') \<and> heap_wf h' \<and> (heap_ordered h \<longrightarrow> heap_ordered h') \<and>
    snd idx = ih_generation h + 1 \<and> heap_entries h' = insert (idx, t, p) (heap_entries h) \<and>
    mset (ih_data h') = add_mset (t, p, fst idx) (mset (ih_data h)) \<and>
    ih_generation h' = ih_generation h + 1 \<and> length (ih_map h') \<le> length (ih_map h) + 1"
proof -
  obtain idx h1 where r: "reserve_index h = Some (idx, h1)" "heap_wf h1" "ih_data h1 = ih_data h"
    "ih_generation h1 = ih_generation h + 1" "snd idx = ih_generation h + 1" "2 \<le> snd idx"
    "fst idx < length (ih_map h1)" "snd (ih_map h1 ! fst idx) = RESERVED_MARKER"
    "length (ih_map h1) \<le> length (ih_map h) + 1" "heap_entries h1 = heap_entries h"
    using reserve_index_works [OF assms] by blast
  have o: "heap_ordered h1 = heap_ordered h" by (simp add: heap_ordered_def prio_at_def r(3))
  obtain h' where "push_reserved h1 idx t p = Some (True, h')" "heap_wf h'" "heap_ordered h1 \<longrightarrow> heap_ordered h'"
    "heap_entries h' = insert (idx, t, p) (heap_entries h1)" "mset (ih_data h') = add_mset (t, p, fst idx) (mset (ih_data h1))"
    "ih_generation h' = ih_generation h1" "length (ih_map h') = length (ih_map h1)"
    using push_reserved_works [OF r(2,7,8,6), of t p] r(4,5) by auto
  then show ?thesis using r o by (simp add: heap_push_def)
qed


text \<open>Dropping the last entry and freeing its slot.\<close>

lemma linked_butlast:
  assumes wf: "heap_wf h" and ne: "ih_data h \<noteq> []" and k: "k = entry_slot (last (ih_data h))"
    and h': "h' = h\<lparr>ih_data := butlast (ih_data h), ih_map := (ih_map h)[k := (ih_free_list_head h, EMPTY_MARKER)], ih_free_list_head := k\<rparr>"
  shows "heap_wf h'" and "heap_entries h' = {e \<in> heap_entries h. fst (fst e) \<noteq> k}"
proof -
  let ?n = "length (ih_data h)"
  have l: "heap_linked h" using wf by (simp add: heap_wf_def)
  have n: "?n - 1 < ?n" "last (ih_data h) = ih_data h ! (?n - 1)" using ne by (simp_all add: last_conv_nth)
  have kl: "k < length (ih_map h)" "2 \<le> snd (ih_map h ! k)" "fst (ih_map h ! k) = ?n - 1"
    using l n k unfolding heap_linked_def by auto
  have sl: "entry_slot (ih_data h ! i) \<noteq> k" if "i < ?n - 1" for i
    using linked_slots [OF l _ n(1), of i] that n(2) k by simp
  have "heap_linked h'"
    unfolding heap_linked_def
  proof (intro conjI allI impI)
    fix i assume "i < length (ih_data h')"
    then have i: "i < ?n - 1" "ih_data h' ! i = ih_data h ! i" by (simp_all add: h' nth_butlast)
    then have "i < ?n" by simp
    then have "entry_slot (ih_data h ! i) < length (ih_map h)" "fst (ih_map h ! entry_slot (ih_data h ! i)) = i"
      "2 \<le> snd (ih_map h ! entry_slot (ih_data h ! i))"
      using l unfolding heap_linked_def by auto
    with sl [OF i(1)] i(2) show "entry_slot (ih_data h' ! i) < length (ih_map h')"
      "fst (ih_map h' ! entry_slot (ih_data h' ! i)) = i" "2 \<le> snd (ih_map h' ! entry_slot (ih_data h' ! i))"
      by (simp_all add: h' nth_list_update)
  next
    fix j assume "j < length (ih_map h')" and live: "2 \<le> snd (ih_map h' ! j)"
    then have j: "j < length (ih_map h)" "j \<noteq> k" "ih_map h' ! j = ih_map h ! j"
      using kl(1) by (cases "j = k"; simp add: h' EMPTY_MARKER_def)+
    then have f: "fst (ih_map h ! j) < ?n" "entry_slot (ih_data h ! fst (ih_map h ! j)) = j"
      using l live unfolding heap_linked_def by simp_all
    then have "fst (ih_map h ! j) \<noteq> ?n - 1" using j(2) n k by auto
    with f j show "fst (ih_map h' ! j) < length (ih_data h')" "entry_slot (ih_data h' ! fst (ih_map h' ! j)) = j"
      by (simp_all add: h' nth_butlast)
  qed
  moreover have "free_wf h'"
  proof -
    obtain fl where fl: "free_chain (ih_map h) (ih_free_list_head h) fl" "distinct fl"
      "set fl = {k. k < length (ih_map h) \<and> snd (ih_map h ! k) = EMPTY_MARKER}"
      using wf unfolding heap_wf_def free_wf_def by blast
    have "k \<notin> set fl" unfolding fl(3) EMPTY_MARKER_def using kl(2) marker_dead(2) by (metis (mono_tags, lifting) mem_Collect_eq)
    with fl kl(1) empty_slots_update [OF kl(1), of "(ih_free_list_head h, EMPTY_MARKER)" EMPTY_MARKER] show ?thesis
      unfolding free_wf_def by (intro exI [of _ "k # fl"]) (simp add: h' free_chain_update)
  qed
  moreover have "table_wf h'"
    using wf kl(1) by (auto simp: heap_wf_def table_wf_def h' nth_list_update EMPTY_MARKER_def)
  ultimately show "heap_wf h'" by (simp add: heap_wf_def)
  let ?e = "\<lambda>m e. ((entry_slot e, snd (m ! entry_slot e)), entry_item e, entry_prio e)"
  have d: "set (ih_data h) = insert (last (ih_data h)) (set (butlast (ih_data h)))"
    by (metis ne append_butlast_last_id list.set(1,2) set_append Un_insert_right sup_bot_right)
  have nk: "k \<noteq> entry_slot e" if "e \<in> set (butlast (ih_data h))" for e
    using that sl by (metis in_set_conv_nth length_butlast nth_butlast)
  have "heap_entries h' = ?e (ih_map h) ` set (butlast (ih_data h))"
    unfolding heap_entries_def by (rule image_cong) (use nk in \<open>simp_all add: h'\<close>)
  also have "\<dots> = {e \<in> ?e (ih_map h) ` set (ih_data h). fst (fst e) \<noteq> k}"
    unfolding d by (auto simp: k [symmetric] dest: nk)
  finally show "heap_entries h' = {e \<in> heap_entries h. fst (fst e) \<noteq> k}" by (simp add: heap_entries_def)
qed

text \<open>
  Filling the place of a removed entry with the last one leaves every order in place but the
  one to the children, provided that the last entry does not exceed the parent.
\<close>

lemma ordered_below_butlast:
  assumes o: "heap_ordered h" and a: "a < length (ih_data h)"
    and par: "a = 0 \<or> prio_at h (length (ih_data h) - 1) \<le> prio_at h ((a - 1) div 2)"
    and d: "ih_data h' = butlast ((ih_data h)[a := ih_data h ! (length (ih_data h) - 1), length (ih_data h) - 1 := ih_data h ! a])"
  shows "ordered_below h' a"
proof -
  let ?n = "length (ih_data h)"
  have pr: "prio_at h' i = (if i = a then prio_at h (?n - 1) else prio_at h i)" if "i < ?n - 1" for i
    using that a by (simp add: prio_at_def d nth_butlast nth_list_update)
  have len: "length (ih_data h') = ?n - 1" by (simp add: d)
  show ?thesis unfolding ordered_below_def len
  proof (intro allI impI conjI)
    fix i assume i: "0 < i \<and> i < ?n - 1"
    let ?q = "(i - 1) div 2"
    have q: "?q < i" "?q < ?n - 1" using i by linarith+
    have up: "prio_at h i \<le> prio_at h ?q" using o i unfolding heap_ordered_def by (meson diff_le_self order_less_le_trans)
    show "prio_at h' i \<le> prio_at h' ?q" if "?q \<noteq> a"
      using that up par i pr [of i] pr [OF q(2)] by auto
    show "prio_at h' i \<le> prio_at h' ((a - 1) div 2)" if "?q = a \<and> 0 < a"
    proof -
      have g: "(a - 1) div 2 < ?n - 1" "(a - 1) div 2 \<noteq> a" using that q by linarith+
      have "prio_at h a \<le> prio_at h ((a - 1) div 2)" using o that a unfolding heap_ordered_def by blast
      with up that q pr [of i] pr [OF g(1)] g(2) i show ?thesis by auto
    qed
  qed
qed

lemma heap_remove_idx_works:
  assumes wf: "heap_wf h" and a: "a < length (ih_data h)"
  shows "\<exists>h'. heap_remove_idx h a = Some ((entry_item (ih_data h ! a), entry_prio (ih_data h ! a)), h') \<and> heap_wf h' \<and>
    heap_entries h' = {e \<in> heap_entries h. fst (fst e) \<noteq> entry_slot (ih_data h ! a)} \<and>
    mset (ih_data h') = mset (ih_data h) - {#ih_data h ! a#} \<and>
    ih_generation h' = ih_generation h \<and> length (ih_map h') = length (ih_map h) \<and>
    (heap_ordered h \<and> (a = 0 \<or> prio_at h (length (ih_data h) - 1) \<le> prio_at h ((a - 1) div 2)) \<longrightarrow> heap_ordered h')"
proof -
  let ?n = "length (ih_data h)"
  have l: "heap_linked h" and n: "?n - 1 < ?n" using wf a by (auto simp: heap_wf_def)
  obtain h1 where h1: "heap_swap h a (?n - 1) = Some h1" "heap_linked h1" "same_entries h h1"
    "ih_data h1 = (ih_data h)[a := ih_data h ! (?n - 1), ?n - 1 := ih_data h ! a]"
    using heap_swap_works [OF l a n] by blast
  have ne: "ih_data h \<noteq> []" "ih_data h1 \<noteq> []" using a by (auto simp: h1(4))
  then have last: "last (ih_data h1) = ih_data h ! a" using n by (simp add: last_conv_nth h1(4))
  let ?k = "entry_slot (ih_data h ! a)"
  let ?h = "h1\<lparr>ih_data := butlast (ih_data h1), ih_map := (ih_map h1)[?k := (ih_free_list_head h1, EMPTY_MARKER)], ih_free_list_head := ?k\<rparr>"
  have wf1: "heap_wf h1" by (rule same_entries_wf [OF wf h1(2,3)])
  have w: "heap_wf ?h" "heap_entries ?h = {e \<in> heap_entries h1. fst (fst e) \<noteq> ?k}"
    using linked_butlast [OF wf1 ne(2) _ refl, of ?k] last by auto
  then obtain h' where h': "bubble_down ?h a = Some h'" "heap_linked h'" "same_entries ?h h'"
    "ordered_below ?h a \<longrightarrow> heap_ordered h'"
    using bubble_down_works [of ?h a] by (auto simp: heap_wf_def)
  have "heap_remove_idx h a = Some ((entry_item (ih_data h ! a), entry_prio (ih_data h ! a)), h')"
    using h1(1) ne h'(1) last by (simp add: heap_remove_idx_def Let_def)
  moreover have "heap_entries h' = {e \<in> heap_entries h. fst (fst e) \<noteq> ?k}"
    using same_entries_heap_entries [OF _ h'(3)] same_entries_heap_entries [OF l h1(3)] w by (simp add: heap_wf_def)
  moreover have "mset (ih_data h') = mset (ih_data h) - {#ih_data h ! a#}"
  proof -
    have "mset (ih_data h1) = add_mset (ih_data h ! a) (mset (butlast (ih_data h1)))"
      using append_butlast_last_id [OF ne(2)] last by (metis mset.simps(1) mset_append mset_single_iff_right union_mset_add_mset_right add_mset_add_single mset.simps(2) add.right_neutral)
    moreover have "mset (ih_data h1) = mset (ih_data h)" "mset (ih_data h') = mset (butlast (ih_data h1))"
      using h'(3) h1(3) by (simp_all add: same_entries_def)
    ultimately show ?thesis by (metis add_mset_remove_trivial)
  qed
  moreover have "heap_ordered h'" if "heap_ordered h" "a = 0 \<or> prio_at h (?n - 1) \<le> prio_at h ((a - 1) div 2)"
    using ordered_below_butlast [OF that(1) a that(2), of ?h] h'(4) h1(4) by simp
  ultimately show ?thesis
    using same_entries_wf [OF w(1) h'(2,3)] h'(3) h1(3) by (auto simp: same_entries_def)
qed


text \<open>Finding an entry through its index.\<close>

lemma deref_index_live:
  assumes l: "heap_linked h" and e: "(idx, t, p) \<in> heap_entries h"
  shows "\<exists>i < length (ih_data h). deref_index h idx = Some i \<and> ih_data h ! i = (t, p, fst idx)"
proof -
  obtain i where i: "i < length (ih_data h)" "idx = (entry_slot (ih_data h ! i), snd (ih_map h ! entry_slot (ih_data h ! i)))"
    "t = entry_item (ih_data h ! i)" "p = entry_prio (ih_data h ! i)"
    using e by (auto simp: heap_entries_def in_set_conv_nth)
  then have "deref_index h idx = Some i" using l unfolding heap_linked_def by (simp add: deref_index_def)
  moreover have "ih_data h ! i = (t, p, fst idx)" using i by (simp add: entry_item_def entry_prio_def entry_slot_def)
  ultimately show ?thesis using i(1) by blast
qed

lemma deref_index_dead:
  assumes l: "heap_linked h" and g: "2 \<le> snd idx" and e: "\<And>t p. (idx, t, p) \<notin> heap_entries h"
  shows "deref_index h idx = None"
proof (rule ccontr)
  assume "deref_index h idx \<noteq> None"
  then have k: "fst idx < length (ih_map h)" "snd (ih_map h ! fst idx) = snd idx" by (auto simp: deref_index_def split: if_splits)
  then have i: "fst (ih_map h ! fst idx) < length (ih_data h)" "entry_slot (ih_data h ! fst (ih_map h ! fst idx)) = fst idx"
    using l g unfolding heap_linked_def by metis+
  let ?e = "ih_data h ! fst (ih_map h ! fst idx)"
  have "(idx, entry_item ?e, entry_prio ?e) \<in> heap_entries h"
    unfolding heap_entries_def by (rule image_eqI [of _ _ ?e]) (use i k in \<open>auto simp: prod_eq_iff\<close>)
  with e show False by blast
qed

text \<open>Replacing the item or the priority of an entry in place.\<close>

lemma linked_replace:
  assumes wf: "heap_wf h" and i: "i < length (ih_data h)" "entry_slot e = entry_slot (ih_data h ! i)"
    and h': "h' = h\<lparr>ih_data := (ih_data h)[i := e]\<rparr>"
  shows "heap_wf h'"
    and "heap_entries h' = insert ((entry_slot e, snd (ih_map h ! entry_slot e)), entry_item e, entry_prio e)
      {x \<in> heap_entries h. fst (fst x) \<noteq> entry_slot e}"
proof -
  have l: "heap_linked h" using wf by (simp add: heap_wf_def)
  have s: "entry_slot (ih_data h' ! j) = entry_slot (ih_data h ! j)" for j
    using i by (simp add: h' nth_list_update)
  have "heap_linked h' = heap_linked h" unfolding heap_linked_def s by (simp add: h')
  then show "heap_wf h'" using wf by (simp add: heap_wf_def free_wf_def table_wf_def h')
  let ?f = "\<lambda>e. ((entry_slot e, snd (ih_map h ! entry_slot e)), entry_item e, entry_prio e)"
  have upd: "set ((ih_data h)[i := e]) = insert e {x \<in> set (ih_data h). entry_slot x \<noteq> entry_slot e}"
  proof (intro equalityI subsetI)
    fix x assume "x \<in> set ((ih_data h)[i := e])"
    then obtain j where j: "j < length (ih_data h)" "x = (ih_data h)[i := e] ! j" by (auto simp: in_set_conv_nth)
    show "x \<in> insert e {x \<in> set (ih_data h). entry_slot x \<noteq> entry_slot e}"
      using j i linked_slots [OF l i(1) j(1)] by (cases "j = i") simp_all
  next
    fix x assume x: "x \<in> insert e {x \<in> set (ih_data h). entry_slot x \<noteq> entry_slot e}"
    show "x \<in> set ((ih_data h)[i := e])"
    proof (cases "x = e")
      case True
      then show ?thesis using i(1) by (simp add: set_update_memI)
    next
      case False
      then obtain j where "j < length (ih_data h)" "x = ih_data h ! j" "j \<noteq> i" using x i by (auto simp: in_set_conv_nth)
      then show ?thesis by (auto simp: in_set_conv_nth intro!: exI [of _ j])
    qed
  qed
  have "heap_entries h' = ?f ` insert e {x \<in> set (ih_data h). entry_slot x \<noteq> entry_slot e}"
    unfolding heap_entries_def h' by (simp add: upd)
  also have "\<dots> = insert (?f e) {x \<in> ?f ` set (ih_data h). fst (fst x) \<noteq> entry_slot e}" by (simp add: Compr_image_eq)
  finally show "heap_entries h' = insert (?f e) {x \<in> heap_entries h. fst (fst x) \<noteq> entry_slot e}"
    by (simp add: heap_entries_def)
qed

text \<open>What a raised or a lowered priority leaves of the order.\<close>

lemma ordered_changed:
  assumes o: "heap_ordered h" and i: "i < length (ih_data h)" and h': "h' = h\<lparr>ih_data := (ih_data h)[i := (t, p, s)]\<rparr>"
  shows "p \<le> prio_at h i \<Longrightarrow> ordered_below h' i" and "prio_at h i \<le> p \<Longrightarrow> ordered_above h' i"
proof -
  have pr: "prio_at h' j = (if j = i then p else prio_at h j)" for j
    using i by (simp add: prio_at_def h' nth_list_update entry_prio_def)
  have up: "prio_at h j \<le> prio_at h ((j - 1) div 2)" if "0 < j \<and> j < length (ih_data h)" for j
    using o that unfolding heap_ordered_def by blast
  have par: "(j - 1) div 2 < j" if "0 < j" for j :: nat using that by linarith
  have len: "length (ih_data h') = length (ih_data h)" by (simp add: h')
  show "ordered_below h' i" if le: "p \<le> prio_at h i"
    unfolding ordered_below_def pr len
  proof (intro allI impI conjI)
    fix j assume j: "0 < j \<and> j < length (ih_data h)"
    show "(if j = i then p else prio_at h j) \<le> (if (j - 1) div 2 = i then p else prio_at h ((j - 1) div 2))" if "(j - 1) div 2 \<noteq> i"
      using that up [OF j] le by (auto intro: order_trans)
    show "(if j = i then p else prio_at h j) \<le> (if (i - 1) div 2 = i then p else prio_at h ((i - 1) div 2))" if q: "(j - 1) div 2 = i \<and> 0 < i"
    proof -
      have "prio_at h i \<le> prio_at h ((i - 1) div 2)" "(i - 1) div 2 \<noteq> i" using up [of i] i q par [of i] by auto
      with q up [OF j] par [of j] j show ?thesis by (auto intro: order_trans)
    qed
  qed
  show "ordered_above h' i" if le: "prio_at h i \<le> p"
    unfolding ordered_above_def pr len
  proof (intro allI impI conjI)
    fix j assume j: "0 < j \<and> j < length (ih_data h)"
    show "(if j = i then p else prio_at h j) \<le> (if (j - 1) div 2 = i then p else prio_at h ((j - 1) div 2))" if "j \<noteq> i"
      using that up [OF j] le by (auto intro: order_trans)
    show "(if j = i then p else prio_at h j) \<le> (if (i - 1) div 2 = i then p else prio_at h ((i - 1) div 2))" if q: "(j - 1) div 2 = i \<and> 0 < i"
    proof -
      have "prio_at h i \<le> prio_at h ((i - 1) div 2)" "(i - 1) div 2 \<noteq> i" using up [of i] i q par [of i] by auto
      with q up [OF j] par [of j] j show ?thesis by (auto intro: order_trans)
    qed
  qed
qed


lemma entries_unique:
  assumes l: "heap_linked h" and e: "((k, g), t, p) \<in> heap_entries h" "((k, g'), t', p') \<in> heap_entries h"
  shows "g' = g \<and> t' = t \<and> p' = p"
proof -
  have "snd (ih_map h ! k) = g" "snd (ih_map h ! k) = g'" using e by (auto simp: heap_entries_def)
  then show ?thesis using deref_index_live [OF l e(1)] deref_index_live [OF l e(2)] by auto
qed

lemma heap_get_live:
  "heap_linked h \<Longrightarrow> (idx, t, p) \<in> heap_entries h \<Longrightarrow> heap_get h idx = Some (Some (t, p))"
  using deref_index_live [of h idx t p] by (auto simp: heap_get_def entry_item_def entry_prio_def)

lemma heap_get_dead:
  "heap_linked h \<Longrightarrow> 2 \<le> snd idx \<Longrightarrow> (\<And>t p. (idx, t, p) \<notin> heap_entries h) \<Longrightarrow> heap_get h idx = Some None"
  using deref_index_dead [of h idx] by (simp add: heap_get_def)

lemma change_priority_works:
  assumes wf: "heap_wf h" and e: "(idx, t, p) \<in> heap_entries h"
  shows "\<exists>h'. change_priority h idx p' = Some (Some p, h') \<and> heap_wf h' \<and> (heap_ordered h \<longrightarrow> heap_ordered h') \<and>
    heap_entries h' = insert (idx, t, p') {x \<in> heap_entries h. fst (fst x) \<noteq> fst idx} \<and>
    ih_generation h' = ih_generation h \<and> length (ih_map h') = length (ih_map h)"
proof -
  have l: "heap_linked h" using wf by (simp add: heap_wf_def)
  obtain i where i: "i < length (ih_data h)" "deref_index h idx = Some i" "ih_data h ! i = (t, p, fst idx)"
    using deref_index_live [OF l e] by blast
  let ?h = "h\<lparr>ih_data := (ih_data h)[i := (t, p', fst idx)]\<rparr>"
  have slot: "entry_slot (t, p', fst idx) = entry_slot (ih_data h ! i)" by (simp add: i(3) entry_slot_def)
  have idx: "snd (ih_map h ! fst idx) = snd idx" using i(2) by (auto simp: deref_index_def split: if_splits)
  have w: "heap_wf ?h" "heap_entries ?h = insert (idx, t, p') {x \<in> heap_entries h. fst (fst x) \<noteq> fst idx}"
    using linked_replace [OF wf i(1) slot refl] idx by (simp_all add: entry_slot_def entry_item_def entry_prio_def)
  have pr: "prio_at h i = p" by (simp add: prio_at_def i(3) entry_prio_def)
  have "\<exists>h'. (if p' < p then bubble_down ?h i else bubble_up ?h i) = Some h' \<and> heap_linked h' \<and> same_entries ?h h' \<and>
      (heap_ordered h \<longrightarrow> heap_ordered h')"
  proof (cases "p' < p")
    case True
    then have "p' \<le> p" by simp
    with True show ?thesis using bubble_down_works [of ?h i] w ordered_changed(1) [OF _ i(1) refl, where t = t and p = p' and s = "fst idx"] pr
      by (auto simp: heap_wf_def)
  next
    case False
    then have "p \<le> p'" by simp
    with False show ?thesis using bubble_up_works [of ?h i] w i(1) ordered_changed(2) [OF _ i(1) refl, where t = t and p = p' and s = "fst idx"] pr
      by (auto simp: heap_wf_def)
  qed
  then obtain h' where h': "(if p' < p then bubble_down ?h i else bubble_up ?h i) = Some h'" "heap_linked h'" "same_entries ?h h'"
    "heap_ordered h \<longrightarrow> heap_ordered h'" by blast
  have "change_priority h idx p' = Some (Some p, h')"
    using i h'(1) by (auto simp: change_priority_def update_priority_def Let_def split: if_splits)
  then show ?thesis
    using h' w same_entries_wf [OF w(1) h'(2,3)] same_entries_heap_entries [OF _ h'(3)]
    by (simp add: heap_wf_def same_entries_def)
qed

lemma heap_remove_works:
  assumes wf: "heap_wf h" and e: "(idx, t, p) \<in> heap_entries h"
  shows "\<exists>h'. heap_remove h idx = Some (Some (t, p), h') \<and> heap_wf h' \<and>
    heap_entries h' = {x \<in> heap_entries h. fst (fst x) \<noteq> fst idx} \<and> ih_generation h' = ih_generation h \<and>
    length (ih_map h') = length (ih_map h)"
proof -
  have l: "heap_linked h" using wf by (simp add: heap_wf_def)
  obtain i where i: "i < length (ih_data h)" "deref_index h idx = Some i" "ih_data h ! i = (t, p, fst idx)"
    using deref_index_live [OF l e] by blast
  then have k: "fst idx < length (ih_map h)" "snd (ih_map h ! fst idx) = snd idx" "fst (ih_map h ! fst idx) = i"
    by (auto simp: deref_index_def split: if_splits)
  have "2 \<le> snd (ih_map h ! entry_slot (ih_data h ! i))" using l i(1) unfolding heap_linked_def by blast
  then have "snd idx \<noteq> RESERVED_MARKER" using k(2) i(3) by (auto simp: entry_slot_def RESERVED_MARKER_def)
  then show ?thesis
    using heap_remove_idx_works [OF wf i(1)] k i(3)
    by (auto simp: heap_remove_def entry_item_def entry_prio_def entry_slot_def)
qed

section \<open>The contract of a priority queue\<close>

text \<open>
  The loop \<open>while let Some((i, j)) = queue.pop()\<close>, with a bound on its rounds.
\<close>

fun drain :: "('q \<Rightarrow> (('t \<times> 'p) option \<times> 'q) option) \<Rightarrow> nat \<Rightarrow> 'q \<Rightarrow> ('t \<times> 'p) list option" where
  "drain pop 0 q = None"
| "drain pop (Suc n) q =
     (case pop q of
        None \<Rightarrow> None
      | Some (None, q) \<Rightarrow> Some []
      | Some (Some x, q) \<Rightarrow> map_option (Cons x) (drain pop n q))"

locale max_queue =
  fixes push :: "'q \<Rightarrow> 't \<Rightarrow> 'p :: linorder \<Rightarrow> ('i \<times> 'q) option"
    and pop :: "'q \<Rightarrow> (('t \<times> 'p) option \<times> 'q) option"
    and inv room :: "'q \<Rightarrow> bool"
    and items :: "'q \<Rightarrow> ('t \<times> 'p) multiset"
  assumes push_law: "inv q \<Longrightarrow> room q \<Longrightarrow> \<exists>i q'. push q t p = Some (i, q') \<and> inv q' \<and> items q' = add_mset (t, p) (items q)"
    and pop_empty: "inv q \<Longrightarrow> items q = {#} \<Longrightarrow> pop q = Some (None, q)"
    and pop_max: "inv q \<Longrightarrow> items q \<noteq> {#} \<Longrightarrow>
      \<exists>t p q'. pop q = Some (Some (t, p), q') \<and> inv q' \<and> items q = add_mset (t, p) (items q') \<and>
        (\<forall>x \<in># items q'. snd x \<le> p)"
begin

lemma drain_sorts:
  assumes "inv q" "size (items q) < n"
  shows "\<exists>xs. drain pop n q = Some xs \<and> mset xs = items q \<and> sorted_wrt (\<lambda>x y. snd y \<le> snd x) xs"
  using assms
proof (induction n arbitrary: q)
  case (Suc n)
  show ?case
  proof (cases "items q = {#}")
    case True
    then show ?thesis using pop_empty [OF Suc.prems(1)] by simp
  next
    case False
    then obtain t p q' where q': "pop q = Some (Some (t, p), q')" "inv q'" "items q = add_mset (t, p) (items q')"
      "\<forall>x \<in># items q'. snd x \<le> p" using pop_max [OF Suc.prems(1)] by blast
    moreover have "size (items q') < n" using Suc.prems(2) q'(3) by simp
    then obtain xs where "drain pop n q' = Some xs" "mset xs = items q'" "sorted_wrt (\<lambda>x y. snd y \<le> snd x) xs"
      using Suc.IH q'(2) by blast
    ultimately show ?thesis by (auto simp flip: set_mset_mset)
  qed
qed simp

text \<open>A pushed entry is among the drained ones.\<close>

lemma drain_push:
  assumes "inv q" "room q" "push q t p = Some (i, q')" "size (items q) + 1 < n"
  shows "\<exists>xs. drain pop n q' = Some xs \<and> mset xs = add_mset (t, p) (items q) \<and> sorted_wrt (\<lambda>x y. snd y \<le> snd x) xs"
  using push_law [OF assms(1,2), of t p] drain_sorts [of q' n] assms(3,4) by auto

end

definition heap_items :: "('t, 'p) indexed_heap \<Rightarrow> ('t \<times> 'p) multiset" where
  "heap_items h = image_mset (\<lambda>e. (entry_item e, entry_prio e)) (mset (ih_data h))"

definition heap_inv :: "('t, 'p :: linorder) indexed_heap \<Rightarrow> bool" where
  "heap_inv h \<longleftrightarrow> heap_wf h \<and> heap_ordered h"

definition heap_room :: "('t, 'p) indexed_heap \<Rightarrow> bool" where
  "heap_room h \<longleftrightarrow> ih_generation h \<noteq> - 1 \<and> length (ih_map h) + 1 < USIZE_MAX"

lemma heap_top:
  assumes o: "heap_ordered h" and i: "i < length (ih_data h)"
  shows "prio_at h i \<le> prio_at h 0"
  using i
proof (induction i rule: less_induct)
  case (less i)
  show ?case
  proof (cases "i = 0")
    case False
    then have "(i - 1) div 2 < i" by linarith
    with less have "prio_at h ((i - 1) div 2) \<le> prio_at h 0" by simp
    moreover have "prio_at h i \<le> prio_at h ((i - 1) div 2)"
      using o less.prems False unfolding heap_ordered_def by blast
    ultimately show ?thesis by simp
  qed simp
qed

lemma heap_push_items:
  assumes "heap_inv h" "heap_room h"
  shows "\<exists>i h'. heap_push h t p = Some (i, h') \<and> heap_inv h' \<and> heap_items h' = add_mset (t, p) (heap_items h)"
proof -
  obtain i h' where "heap_push h t p = Some (i, h')" "heap_wf h'" "heap_ordered h'"
    "mset (ih_data h') = add_mset (t, p, fst i) (mset (ih_data h))"
    using heap_push_works [of h t p] assms unfolding heap_inv_def heap_room_def by blast
  then show ?thesis by (simp add: heap_inv_def heap_items_def entry_item_def entry_prio_def)
qed

lemma heap_pop_max:
  assumes "heap_inv h" "heap_items h \<noteq> {#}"
  shows "\<exists>t p h'. heap_pop h = Some (Some (t, p), h') \<and> heap_inv h' \<and> heap_items h = add_mset (t, p) (heap_items h') \<and>
    (\<forall>x \<in># heap_items h'. snd x \<le> p)"
proof -
  have ne: "ih_data h \<noteq> []" using assms(2) by (auto simp: heap_items_def)
  let ?e = "ih_data h ! 0"
  obtain h' where h': "heap_remove_idx h 0 = Some ((entry_item ?e, entry_prio ?e), h')" "heap_wf h'"
    "mset (ih_data h') = mset (ih_data h) - {#?e#}" "heap_ordered h'"
    using heap_remove_idx_works [of h 0] assms(1) ne by (auto simp: heap_inv_def)
  have in0: "?e \<in># mset (ih_data h)" using ne by simp
  have "mset (ih_data h) = add_mset ?e (mset (ih_data h'))" using insert_DiffM [OF in0] h'(3) by simp
  then have "heap_items h = add_mset (entry_item ?e, entry_prio ?e) (heap_items h')" by (simp add: heap_items_def)
  moreover have "snd x \<le> entry_prio ?e" if x: "x \<in># heap_items h'" for x
  proof -
    obtain e where e: "e \<in># mset (ih_data h')" "x = (entry_item e, entry_prio e)"
      using x unfolding heap_items_def set_image_mset by blast
    then have "e \<in> set (ih_data h)" unfolding h'(3) by (metis in_diffD set_mset_mset)
    then obtain i where "i < length (ih_data h)" "ih_data h ! i = e" by (auto simp: in_set_conv_nth)
    then show ?thesis using heap_top [of h i] assms(1) e(2) by (simp add: heap_inv_def prio_at_def)
  qed
  ultimately show ?thesis using h' ne by (auto simp: heap_pop_def heap_inv_def)
qed

interpretation timer_queue: max_queue heap_push heap_pop heap_inv heap_room heap_items
proof
  fix h :: "('a, 'b) indexed_heap" and t p
  assume inv: "heap_inv h"
  show "\<exists>i h'. heap_push h t p = Some (i, h') \<and> heap_inv h' \<and> heap_items h' = add_mset (t, p) (heap_items h)" if "heap_room h"
    using heap_push_items [OF inv that] .
  show "heap_pop h = Some (None, h)" if "heap_items h = {#}" using that by (simp add: heap_items_def heap_pop_def)
  show "\<exists>t p h'. heap_pop h = Some (Some (t, p), h') \<and> heap_inv h' \<and> heap_items h = add_mset (t, p) (heap_items h') \<and>
    (\<forall>x \<in># heap_items h'. snd x \<le> p)" if "heap_items h \<noteq> {#}"
    using heap_pop_max [OF inv that] .
qed


section \<open>Any sequence of operations\<close>

lemma update_priority_cases:
  assumes "heap_linked h" "2 \<le> snd idx"
  shows "(\<forall>t p. (idx, t, p) \<notin> heap_entries h) \<and> update_priority h idx f = Some (None, h) \<or>
    (\<exists>t p. (idx, t, p) \<in> heap_entries h \<and>
       update_priority h idx f = (case f p of None \<Rightarrow> Some (None, h) | Some p' \<Rightarrow> change_priority h idx p'))"
proof (cases "\<exists>t p. (idx, t, p) \<in> heap_entries h")
  case True
  then obtain t p where e: "(idx, t, p) \<in> heap_entries h" by blast
  obtain i where "i < length (ih_data h)" "deref_index h idx = Some i" "ih_data h ! i = (t, p, fst idx)"
    using deref_index_live [OF assms(1) e] by blast
  then have "update_priority h idx f = (case f p of None \<Rightarrow> Some (None, h) | Some p' \<Rightarrow> change_priority h idx p')"
    by (auto simp: update_priority_def change_priority_def split: option.splits)
  with e show ?thesis by blast
next
  case False
  then show ?thesis using deref_index_dead [OF assms] by (simp add: update_priority_def)
qed

lemma heap_replace_item_wf:
  assumes "heap_wf h" "i < length (ih_data h)"
  shows "heap_wf (h\<lparr>ih_data := (ih_data h)[i := (t, snd (ih_data h ! i))]\<rparr>)"
    and "heap_ordered h \<Longrightarrow> heap_ordered (h\<lparr>ih_data := (ih_data h)[i := (t, snd (ih_data h ! i))]\<rparr>)"
proof -
  let ?h = "h\<lparr>ih_data := (ih_data h)[i := (t, snd (ih_data h ! i))]\<rparr>"
  show "heap_wf ?h" by (rule linked_replace(1) [OF assms _ refl]) (simp add: entry_slot_def)
  have "prio_at ?h j = prio_at h j" for j using assms(2) by (simp add: prio_at_def entry_prio_def nth_list_update)
  then show "heap_ordered h \<Longrightarrow> heap_ordered ?h" unfolding heap_ordered_def by simp
qed

lemma change_item_works:
  assumes wf: "heap_wf h" and g: "2 \<le> snd idx"
  shows "\<exists>r h'. change_item h idx t = Some (r, h') \<and> heap_wf h' \<and> (heap_ordered h \<longrightarrow> heap_ordered h') \<and>
    ih_generation h' = ih_generation h"
proof (cases "\<exists>u p. (idx, u, p) \<in> heap_entries h")
  case True
  then obtain u p where e: "(idx, u, p) \<in> heap_entries h" by blast
  have "heap_linked h" using wf by (simp add: heap_wf_def)
  from deref_index_live [OF this e] obtain i where "i < length (ih_data h)" "deref_index h idx = Some i" by blast
  then show ?thesis using heap_replace_item_wf [OF wf] by (simp add: change_item_def)
next
  case False
  then have "deref_index h idx = None" using deref_index_dead [OF _ g] wf unfolding heap_wf_def by blast
  then show ?thesis using wf by (simp add: change_item_def)
qed

lemma heap_remove_reserved_works:
  assumes wf: "heap_wf h" and k: "k < length (ih_map h)" "snd (ih_map h ! k) = RESERVED_MARKER"
    and h': "h' = h\<lparr>ih_map := (ih_map h)[k := (ih_free_list_head h, EMPTY_MARKER)], ih_free_list_head := k\<rparr>"
  shows "heap_wf h'" "heap_entries h' = heap_entries h"
proof -
  have h'2: "h' = h\<lparr>ih_free_list_head := k, ih_map := (ih_map h)[k := (ih_free_list_head h, EMPTY_MARKER)]\<rparr>" by (simp add: h')
  obtain fl where fl: "free_chain (ih_map h) (ih_free_list_head h) fl" "distinct fl"
    "set fl = {k. k < length (ih_map h) \<and> snd (ih_map h ! k) = EMPTY_MARKER}"
    using wf unfolding heap_wf_def free_wf_def by blast
  have "k \<notin> set fl" unfolding fl(3) using k(2) by (simp add: RESERVED_MARKER_def EMPTY_MARKER_def)
  with fl k(1) empty_slots_update [OF k(1), of "(ih_free_list_head h, EMPTY_MARKER)" EMPTY_MARKER] have "free_wf h'"
    unfolding free_wf_def by (intro exI [of _ "k # fl"]) (simp add: h' free_chain_update)
  moreover have "table_wf h'"
    using wf k(1) by (auto simp: heap_wf_def table_wf_def h' nth_list_update EMPTY_MARKER_def)
  moreover have "heap_linked h'" and "heap_entries h' = heap_entries h"
    unfolding h'2 using linked_dead_slot [OF _ k(1)] wf k(2) by (simp_all add: heap_wf_def RESERVED_MARKER_def EMPTY_MARKER_def)
  ultimately show "heap_wf h'" "heap_entries h' = heap_entries h" by (simp_all add: heap_wf_def)
qed

lemma heap_remove_total:
  assumes wf: "heap_wf h" and g: "2 \<le> snd idx"
  shows "\<exists>r h'. heap_remove h idx = Some (r, h') \<and> heap_wf h' \<and> ih_generation h' = ih_generation h"
proof (cases "\<exists>t p. (idx, t, p) \<in> heap_entries h")
  case True
  then show ?thesis using heap_remove_works [OF wf] by blast
next
  case False
  then have "deref_index h idx = None" using deref_index_dead [OF _ g] wf unfolding heap_wf_def by blast
  then show ?thesis using heap_remove_reserved_works(1) [OF wf, of "fst idx"] wf
    by (auto simp: heap_remove_def deref_index_def split: if_splits)
qed

lemma heap_remove_entries:
  assumes wf: "heap_wf h" and g: "2 \<le> snd idx" and r: "heap_remove h idx = Some (r, h')"
  shows "heap_entries h' \<subseteq> heap_entries h"
proof (cases "\<exists>t p. (idx, t, p) \<in> heap_entries h")
  case True
  then show ?thesis using heap_remove_works [OF wf] r by fastforce
next
  case False
  then have "deref_index h idx = None" using deref_index_dead [OF _ g] wf unfolding heap_wf_def by blast
  then show ?thesis using heap_remove_reserved_works [OF wf, of "fst idx"] r
    by (auto simp: heap_remove_def deref_index_def split: if_splits)
qed


datatype ('t, 'p) heap_op =
    Op_push 't 'p
  | Op_pop
  | Op_reserve
  | Op_push_reserved heap_index 't 'p
  | Op_update heap_index "'p \<Rightarrow> 'p option"
  | Op_change_item heap_index 't
  | Op_remove heap_index
  | Op_clear

fun heap_apply :: "('t, 'p :: linorder) heap_op \<Rightarrow> ('t, 'p) indexed_heap \<Rightarrow> ('t, 'p) indexed_heap option" where
  "heap_apply (Op_push t p) h = map_option snd (heap_push h t p)"
| "heap_apply Op_pop h = map_option snd (heap_pop h)"
| "heap_apply Op_reserve h = map_option snd (reserve_index h)"
| "heap_apply (Op_push_reserved idx t p) h = map_option snd (push_reserved h idx t p)"
| "heap_apply (Op_update idx f) h = map_option snd (update_priority h idx f)"
| "heap_apply (Op_change_item idx t) h = map_option snd (change_item h idx t)"
| "heap_apply (Op_remove idx) h = map_option snd (heap_remove h idx)"
| "heap_apply Op_clear h = Some (heap_clear h)"

text \<open>An index has private fields: a caller has only those that \<open>reserve_index\<close> has issued, still valid or not.\<close>

definition issued :: "('t, 'p) indexed_heap \<Rightarrow> heap_index \<Rightarrow> bool" where
  "issued h idx \<longleftrightarrow> 2 \<le> snd idx \<and> snd idx \<le> ih_generation h"

fun op_issued :: "('t, 'p) indexed_heap \<Rightarrow> ('t, 'p) heap_op \<Rightarrow> bool" where
  "op_issued h (Op_push_reserved idx t p) = issued h idx"
| "op_issued h (Op_update idx f) = issued h idx"
| "op_issued h (Op_change_item idx t) = issued h idx"
| "op_issued h (Op_remove idx) = issued h idx"
| "op_issued h _ = True"

fun is_remove :: "('t, 'p) heap_op \<Rightarrow> bool" where
  "is_remove (Op_remove idx) = True"
| "is_remove _ = False"

text \<open>The heaps that a sequence of operations reaches; the flag records a call of \<open>remove\<close>.\<close>

inductive heap_reachable :: "bool \<Rightarrow> ('t, 'p :: linorder) indexed_heap \<Rightarrow> bool" where
  heap_start: "heap_reachable False heap_new"
| heap_step: "heap_reachable r h \<Longrightarrow> heap_room h \<Longrightarrow> op_issued h op \<Longrightarrow> heap_apply op h = Some h' \<Longrightarrow>
    heap_reachable (r \<or> is_remove op) h'"

lemma heap_new_inv: "heap_wf heap_new" "heap_ordered heap_new"
  by (auto simp: heap_wf_def heap_linked_def free_wf_def table_wf_def heap_ordered_def heap_new_def USIZE_MAX_def intro!: exI [of _ "[]"])

lemma heap_clear_inv: "heap_wf h \<Longrightarrow> heap_wf (heap_clear h)" "heap_ordered (heap_clear h)"
  by (auto simp: heap_wf_def heap_linked_def free_wf_def table_wf_def heap_ordered_def heap_clear_def USIZE_MAX_def intro!: exI [of _ "[]"])

lemma push_reserved_total:
  assumes "heap_wf h" "issued h idx"
  shows "\<exists>b h'. push_reserved h idx t p = Some (b, h') \<and> heap_wf h' \<and> (heap_ordered h \<longrightarrow> heap_ordered h')"
proof (cases "fst idx < length (ih_map h) \<and> snd (ih_map h ! fst idx) = RESERVED_MARKER")
  case True
  then show ?thesis using push_reserved_works [OF assms(1), of idx t p] assms(2) unfolding issued_def by blast
next
  case False
  then have "push_reserved h idx t p = Some (False, h)" by (auto simp: push_reserved_def)
  then show ?thesis using assms(1) by blast
qed

lemma update_priority_total:
  assumes "heap_wf h" "issued h idx"
  shows "\<exists>r h'. update_priority h idx f = Some (r, h') \<and> heap_wf h' \<and> (heap_ordered h \<longrightarrow> heap_ordered h') \<and>
    ih_generation h' = ih_generation h"
proof -
  have "heap_linked h" "2 \<le> snd idx" using assms by (simp_all add: heap_wf_def issued_def)
  from update_priority_cases [OF this, of f] show ?thesis
  proof (elim disjE exE conjE)
    fix t p
    assume e: "(idx, t, p) \<in> heap_entries h"
      and u: "update_priority h idx f = (case f p of None \<Rightarrow> Some (None, h) | Some p' \<Rightarrow> change_priority h idx p')"
    show ?thesis
    proof (cases "f p")
      case (Some p')
      then show ?thesis using u change_priority_works [OF assms(1) e, of p'] by auto
    qed (use u assms(1) in simp)
  qed (use assms(1) in simp)
qed

lemma heap_apply_total:
  assumes wf: "heap_wf h" and room: "heap_room h" and i: "op_issued h op"
  shows "\<exists>h'. heap_apply op h = Some h' \<and> heap_wf h' \<and> (heap_ordered h \<and> \<not> is_remove op \<longrightarrow> heap_ordered h')"
proof (cases op)
  case (Op_push t p)
  then show ?thesis using heap_push_works [OF wf, of t p] room unfolding heap_room_def by auto
next
  case Op_pop
  show ?thesis
  proof (cases "ih_data h = []")
    case False
    then show ?thesis using heap_remove_idx_works [OF wf, of 0] Op_pop by (auto simp: heap_pop_def)
  qed (use wf Op_pop in \<open>simp add: heap_pop_def\<close>)
next
  case Op_reserve
  obtain idx h' where "reserve_index h = Some (idx, h')" "heap_wf h'" "ih_data h' = ih_data h"
    using reserve_index_works [OF wf] room unfolding heap_room_def by blast
  then show ?thesis using Op_reserve by (simp add: heap_ordered_def prio_at_def)
next
  case (Op_push_reserved idx t p)
  then show ?thesis using push_reserved_total [OF wf, of idx t p] i by auto
next
  case (Op_update idx f)
  then show ?thesis using update_priority_total [OF wf, of idx f] i by auto
next
  case (Op_change_item idx t)
  then show ?thesis using change_item_works [OF wf, of idx t] i by (auto simp: issued_def)
next
  case (Op_remove idx)
  then show ?thesis using heap_remove_total [OF wf, of idx] i by (auto simp: issued_def)
next
  case Op_clear
  then show ?thesis using wf by (simp add: heap_clear_inv)
qed

lemma heap_reachable_inv: "heap_reachable r h \<Longrightarrow> heap_wf h \<and> (\<not> r \<longrightarrow> heap_ordered h)"
proof (induction rule: heap_reachable.induct)
  case heap_start
  then show ?case by (simp add: heap_new_inv)
next
  case (heap_step r h op h')
  then show ?case using heap_apply_total [of h op] by auto
qed


section \<open>Properties\<close>

text \<open>C21: On every heap that a sequence of operations reaches from the empty one, with indices the
  heap has issued (valid or stale) and a table with room, every operation returns instead of
  panicking and keeps the two arrays and the free list consistent; and as long as \<open>remove\<close> has
  not been called, the heap stays ordered.
\<close>

theorem heap_never_panics:
  assumes "heap_reachable r h" "heap_room h" "op_issued h op"
  shows "\<exists>h'. heap_apply op h = Some h' \<and> heap_wf h' \<and> (\<not> r \<and> \<not> is_remove op \<longrightarrow> heap_ordered h')"
  using heap_apply_total [OF _ assms(2,3)] heap_reachable_inv [OF assms(1)] by blast

theorem heap_never_panics_witness:
  "\<exists>h'. heap_apply (Op_push ''a'' (7 :: nat)) heap_new = Some h' \<and> heap_wf h' \<and> heap_ordered h'"
  using heap_never_panics [OF heap_start, of "Op_push ''a'' (7 :: nat)"]
  by (simp add: heap_room_def heap_new_def USIZE_MAX_def)

text \<open>An index finds its entry for as long as the entry is in the heap: changing the priority of
  a live entry returns the old priority, \<open>get\<close> then gives the item with the new priority, and
  gives for every other index what it gave before.
\<close>

theorem change_priority_get:
  assumes "heap_wf h" "heap_get h idx = Some (Some (t, p))" "issued h idx"
  shows "\<exists>h'. change_priority h idx p' = Some (Some p, h') \<and> heap_get h' idx = Some (Some (t, p')) \<and>
    (\<forall>i. issued h i \<and> i \<noteq> idx \<longrightarrow> heap_get h' i = heap_get h i)"
proof -
  have l: "heap_linked h" using assms(1) by (simp add: heap_wf_def)
  have e: "(idx, t, p) \<in> heap_entries h"
    using assms(2,3) heap_get_live [OF l] heap_get_dead [OF l] unfolding issued_def by fastforce
  obtain h' where h': "change_priority h idx p' = Some (Some p, h')" "heap_wf h'"
    "heap_entries h' = insert (idx, t, p') {x \<in> heap_entries h. fst (fst x) \<noteq> fst idx}"
    using change_priority_works [OF assms(1) e] by blast
  then have l': "heap_linked h'" by (simp add: heap_wf_def)
  have "heap_get h' i = heap_get h i" if i: "issued h i" "i \<noteq> idx" for i
  proof (cases "\<exists>u q. (i, u, q) \<in> heap_entries h")
    case True
    then obtain u q where u: "(i, u, q) \<in> heap_entries h" by blast
    then have "fst i \<noteq> fst idx" using entries_unique [OF l, of "fst i" "snd i" u q "snd idx" t p] e i(2) by (auto simp: prod_eq_iff)
    with u h'(3) have "(i, u, q) \<in> heap_entries h'" by simp
    then show ?thesis using heap_get_live [OF l u] heap_get_live [OF l'] by simp
  next
    case False
    then show ?thesis using heap_get_dead [OF l] heap_get_dead [OF l'] i h'(3) unfolding issued_def by auto
  qed
  moreover have "heap_get h' idx = Some (Some (t, p'))" using heap_get_live [OF l'] h'(3) by simp
  ultimately show ?thesis using h'(1) by blast
qed


text \<open>A heap with three entries, of priorities 9, 4 and 6.\<close>

definition sample_heap :: "(nat, nat) indexed_heap" where
  "sample_heap = \<lparr>ih_generation = 4, ih_free_list_head = USIZE_MAX, ih_data = [(9, 9, 0), (4, 4, 1), (6, 6, 2)],
     ih_map = [(0, 2), (1, 3), (2, 4)]\<rparr>"

lemma less_three: "i < Suc (Suc (Suc 0)) \<longleftrightarrow> i = 0 \<or> i = 1 \<or> i = 2"
  by auto

lemma sample_heap_inv: "heap_inv sample_heap"
  by (auto simp: heap_inv_def heap_wf_def heap_linked_def free_wf_def table_wf_def heap_ordered_def prio_at_def sample_heap_def
      USIZE_MAX_def EMPTY_MARKER_def entry_slot_def entry_prio_def less_three word_le_nat_alt intro!: exI [of _ "[]"])

theorem change_priority_get_witness:
  "\<exists>h'. change_priority sample_heap (1, 3) 11 = Some (Some 4, h') \<and> heap_get h' (1, 3) = Some (Some (4, 11))"
proof -
  have "heap_get sample_heap (1, 3) = Some (Some (4, 4))" "issued sample_heap (1, 3)"
    by (simp_all add: issued_def heap_get_def deref_index_def sample_heap_def entry_item_def entry_prio_def word_le_nat_alt)
  then show ?thesis using change_priority_get [of sample_heap "(1, 3)" 4 4 11] sample_heap_inv unfolding heap_inv_def by blast
qed

text \<open>Popping until the heap is empty gives every pushed entry once, the greatest priority first:
  the heap meets the contract of a priority queue.
\<close>

theorem heap_drain_sorts:
  assumes "heap_inv h" "heap_room h" "heap_push h t p = Some (idx, h')"
  shows "\<exists>xs. drain heap_pop (size (heap_items h) + 2) h' = Some xs \<and> mset xs = add_mset (t, p) (heap_items h) \<and>
    sorted_wrt (\<lambda>x y. snd y \<le> snd x) xs"
  by (rule timer_queue.drain_push [OF assms]) simp

theorem heap_drain_sorts_witness:
  "\<exists>idx h' xs. heap_push sample_heap 7 7 = Some (idx, h') \<and> drain heap_pop 5 h' = Some xs \<and> mset xs = {#(7, 7), (9, 9), (4, 4), (6, 6)#} \<and>
     sorted_wrt (\<lambda>x y. snd y \<le> snd x) xs"
proof -
  have room: "heap_room sample_heap" by (simp add: heap_room_def sample_heap_def USIZE_MAX_def)
  obtain idx h' where p: "heap_push sample_heap 7 7 = Some (idx, h')" using heap_push_items [OF sample_heap_inv room] by blast
  have "heap_items sample_heap = {#(9, 9), (4, 4), (6, 6)#}" by (simp add: heap_items_def sample_heap_def entry_item_def entry_prio_def)
  then show ?thesis using heap_drain_sorts [OF sample_heap_inv room p] p by (auto simp: eval_nat_numeral)
qed

text \<open>Once its entry has been removed an index stays invalid: \<open>get\<close> gives nothing, also after the
  slot has been used again for another entry.
\<close>

theorem removed_index_stays_invalid:
  assumes "heap_wf h" "heap_get h idx = Some (Some (t, p))" "issued h idx" "heap_room h"
  shows "\<exists>h' i h''. heap_remove h idx = Some (Some (t, p), h') \<and> heap_get h' idx = Some None \<and>
    heap_push h' u q = Some (i, h'') \<and> heap_get h'' idx = Some None \<and> heap_get h'' i = Some (Some (u, q))"
proof -
  have l: "heap_linked h" using assms(1) by (simp add: heap_wf_def)
  have g: "2 \<le> snd idx" "snd idx \<le> ih_generation h" using assms(3) by (simp_all add: issued_def)
  have e: "(idx, t, p) \<in> heap_entries h"
    using assms(2) heap_get_live [OF l] heap_get_dead [OF l g(1)] by fastforce
  obtain h' where h': "heap_remove h idx = Some (Some (t, p), h')" "heap_wf h'"
    "heap_entries h' = {x \<in> heap_entries h. fst (fst x) \<noteq> fst idx}" "ih_generation h' = ih_generation h"
    "length (ih_map h') = length (ih_map h)"
    using heap_remove_works [OF assms(1) e] by blast
  obtain i h'' where h'': "heap_push h' u q = Some (i, h'')" "heap_wf h''" "snd i = ih_generation h' + 1"
    "heap_entries h'' = insert (i, u, q) (heap_entries h')"
    using heap_push_works [OF h'(2), of u q] assms(4) h'(4,5) unfolding heap_room_def by auto
  have "i \<noteq> idx"
    using h''(3) h'(4) g generation_step(1) [of "ih_generation h"] assms(1,4) order_antisym
    by (auto simp: heap_wf_def table_wf_def heap_room_def)
  then show ?thesis
    using h' h'' heap_get_dead [of h' idx] heap_get_dead [of h'' idx] heap_get_live [of h'' i u q] g(1)
    by (cases i) (auto simp: heap_wf_def)
qed

theorem removed_index_stays_invalid_witness:
  "\<exists>h' i h''. heap_remove sample_heap (1, 3) = Some (Some (4, 4), h') \<and> heap_get h' (1, 3) = Some None \<and>
     heap_push h' 8 8 = Some (i, h'') \<and> heap_get h'' (1, 3) = Some None \<and> heap_get h'' i = Some (Some (8, 8))"
proof -
  have "heap_get sample_heap (1, 3) = Some (Some (4, 4))" "issued sample_heap (1, 3)" "heap_room sample_heap"
    by (simp_all add: issued_def heap_get_def deref_index_def sample_heap_def entry_item_def entry_prio_def word_le_nat_alt
        heap_room_def USIZE_MAX_def)
  moreover have "heap_wf sample_heap" using sample_heap_inv by (simp add: heap_inv_def)
  ultimately show ?thesis using removed_index_stays_invalid [of sample_heap "(1, 3)" 4 4 8 8] by blast
qed

fun heap_of :: "('t \<times> 'p :: linorder) list \<Rightarrow> ('t, 'p) indexed_heap \<Rightarrow> ('t, 'p) indexed_heap option" where
  "heap_of [] h = Some h"
| "heap_of ((t, p) # xs) h = (case heap_push h t p of None \<Rightarrow> None | Some (_, h) \<Rightarrow> heap_of xs h)"

definition removal_heap :: "(nat, nat) indexed_heap" where
  "removal_heap = \<lparr>ih_generation = 8, ih_free_list_head = USIZE_MAX,
     ih_data = [(10, 10, 0), (4, 4, 1), (9, 9, 2), (3, 3, 3), (2, 2, 4), (1, 1, 5), (7, 7, 6)],
     ih_map = [(0, 2), (1, 3), (2, 4), (3, 5), (4, 6), (5, 7), (6, 8)]\<rparr>"

definition disordered_heap :: "(nat, nat) indexed_heap" where
  "disordered_heap = \<lparr>ih_generation = 8, ih_free_list_head = 3,
     ih_data = [(10, 10, 0), (4, 4, 1), (9, 9, 2), (7, 7, 6), (2, 2, 4), (1, 1, 5)],
     ih_map = [(0, 2), (1, 3), (2, 4), (USIZE_MAX, 0), (4, 6), (5, 7), (3, 8)]\<rparr>"

lemmas heap_eval = heap_push_def reserve_index_def push_reserved_def bubble_up.simps bubble_down.simps heap_swap_def
  heap_remove_def heap_remove_idx_def heap_pop_def entry_item_def entry_prio_def entry_slot_def
  RESERVED_MARKER_def EMPTY_MARKER_def

lemma removal_heap_pushed:
  "heap_of [(10, 10), (4, 4), (9, 9), (3, 3), (2, 2), (1, 1), (7, 7)] heap_new = Some removal_heap"
  by (simp add: heap_eval heap_new_def removal_heap_def USIZE_MAX_def)

lemma removal_heap_remove: "heap_remove removal_heap (3, 5) = Some (Some (3, 3), disordered_heap)"
  by (simp add: heap_eval removal_heap_def disordered_heap_def)

lemma disordered_heap_drain:
  "drain heap_pop 7 disordered_heap = Some [(10, 10), (9, 9), (4, 4), (7, 7), (2, 2), (1, 1)]"
  by (simp add: heap_eval disordered_heap_def eval_nat_numeral)


text \<open>C29: \<open>remove\<close> breaks the order: the last entry takes the place of the removed one and is only
  moved down, although it may exceed its new parent. Seven pushes and the removal of the
  fourth entry leave a heap that is not ordered and that gives the entry of priority 4 before
  the one of priority 7.
\<close>

theorem heap_remove_breaks_order:
  "\<exists>h h'. heap_of [(10, 10), (4, 4), (9, 9), (3, 3), (2, 2), (1, 1), (7, 7)] heap_new = Some h \<and>
     heap_remove h (3, 5) = Some (Some (3 :: nat, 3 :: nat), h') \<and> \<not> heap_ordered h' \<and>
     drain heap_pop 7 h' = Some [(10, 10), (9, 9), (4, 4), (7, 7), (2, 2), (1, 1)]"
proof -
  have "\<not> heap_ordered disordered_heap"
    by (auto simp: heap_ordered_def prio_at_def disordered_heap_def entry_prio_def intro!: exI [of _ 3])
  then show ?thesis
    using removal_heap_pushed removal_heap_remove disordered_heap_drain by blast
qed

text \<open>A stale index is not harmless: \<open>remove\<close> compares the generation of a live slot only, so an
  index whose slot has since been reserved for another caller returns nothing and frees that
  reservation, and the other caller's \<open>push_reserved\<close> is then refused.
\<close>

theorem stale_remove_frees_reservation:
  assumes "fst idx < length (ih_map h)" "snd (ih_map h ! fst idx) = RESERVED_MARKER" "fst other = fst idx"
  shows "\<exists>h'. heap_remove h idx = Some (None, h') \<and> push_reserved h' other t p = Some (False, h')"
  using assms by (simp add: heap_remove_def push_reserved_def RESERVED_MARKER_def EMPTY_MARKER_def)

theorem stale_remove_frees_reservation_witness:
  "\<exists>h h'. heap_of [(1 :: nat, 1 :: nat)] heap_new = Some h \<and> (\<exists>h1 h2. heap_pop h = Some (Some (1, 1), h1) \<and>
     reserve_index h1 = Some ((0, 3), h2) \<and> heap_remove h2 (0, 2) = Some (None, h') \<and> push_reserved h' (0, 3) 5 5 = Some (False, h'))"
proof -
  let ?h = "\<lparr>ih_generation = 2, ih_free_list_head = USIZE_MAX, ih_data = [(1 :: nat, 1 :: nat, 0)], ih_map = [(0, 2)]\<rparr>"
  let ?u = "\<lparr>ih_generation = 2, ih_free_list_head = 0, ih_data = [], ih_map = [(USIZE_MAX, EMPTY_MARKER)]\<rparr>
    :: (nat, nat) indexed_heap"
  let ?v = "\<lparr>ih_generation = 3, ih_free_list_head = USIZE_MAX, ih_data = [], ih_map = [(0, RESERVED_MARKER)]\<rparr>
    :: (nat, nat) indexed_heap"
  have "heap_of [(1, 1)] heap_new = Some ?h" "heap_pop ?h = Some (Some (1, 1), ?u)" "reserve_index ?u = Some ((0, 3), ?v)"
    by (simp_all add: heap_eval heap_new_def USIZE_MAX_def)
  moreover have "\<exists>h'. heap_remove ?v (0, 2) = Some (None, h') \<and> push_reserved h' (0, 3) 5 5 = Some (False, h')"
    by (rule stale_remove_frees_reservation) simp_all
  ultimately show ?thesis by blast
qed

end
