(* ===== verification/Fragged.thy ===== *)
theory Fragged
  imports Proto "HOL-Library.Multiset"
begin

text \<open>
  The packet defragmenter \<open>Fragged\<close> of \<open>performance/src/fragged.rs\<close>. The array of
  \<open>MaybeUninit\<close> fragments is a list of options: \<open>None\<close> is a slot that holds no fragment, because
  none was written or because it was moved out or dropped. An operation returns \<open>None\<close> where
  the source would read or drop such a slot, which is undefined behaviour, or push onto a
  full \<open>ArrayVec\<close>.

  The results: no sequence of calls has undefined behaviour or leaks a fragment, and the
  fragments of a packet are assembled in any order of arrival.
\<close>

unbundle bit_operations_syntax

section \<open>Definitions\<close>

text \<open>\<open>u64::wrapping_shl\<close>: the shift distance is taken modulo the width.\<close>

definition wrapping_shl :: "u64 \<Rightarrow> u32 \<Rightarrow> u64" where
  "wrapping_shl x n = push_bit (unat n mod 64) x"

record 'f fragged =
  fg_nonce :: u64
  fg_count :: u32
  fg_have :: u64
  fg_frags :: "'f option list"

definition fragged_new :: "nat \<Rightarrow> 'f fragged" where
  "fragged_new max_fragments =
     \<lparr>fg_nonce = - 1, fg_count = 0, fg_have = 0, fg_frags = replicate max_fragments None\<rparr>"

function drop_loop :: "u64 \<Rightarrow> nat \<Rightarrow> 'f option list \<Rightarrow> 'f option list option" where
  "drop_loop have i frags =
     (if have = 0 then Some frags
      else if have AND 1 \<noteq> 0
      then if i < length frags \<and> frags ! i \<noteq> None
           then drop_loop (drop_bit 1 have) (i + 1) (frags[i := None])
           else None
      else drop_loop (drop_bit 1 have) (i + 1) frags)"
  by auto
termination
proof (relation "measure (\<lambda>(have, i, frags). unat have)")
  fix have' :: u64 and i :: nat and frags :: "'f option list"
  assume "have' \<noteq> 0"
  then have "unat (drop_bit 1 have') < unat have'"
    by (simp add: drop_bit_eq_div unat_div_distrib word_unat_eq_iff)
  then show "((drop_bit 1 have', i + 1, frags[i := None]), have', i, frags) \<in> measure (\<lambda>(have, i, frags). unat have)"
    and "((drop_bit 1 have', i + 1, frags), have', i, frags) \<in> measure (\<lambda>(have, i, frags). unat have)" by simp_all
qed simp

declare drop_loop.simps [simp del]

text \<open>\<open>needs_drop\<close> is \<open>std::mem::needs_drop\<close> of the fragment type.\<close>

definition drop_in_place :: "bool \<Rightarrow> 'f fragged \<Rightarrow> 'f fragged option" where
  "drop_in_place needs_drop self =
     (case (if needs_drop then drop_loop (fg_have self) 0 (fg_frags self) else Some (fg_frags self)) of
        None \<Rightarrow> None
      | Some frags \<Rightarrow> Some \<lparr>fg_nonce = - 1, fg_count = 0, fg_have = 0, fg_frags = frags\<rparr>)"

text \<open>The loop that moves the fragments out of the array into the result, an \<open>ArrayVec\<close> of \<open>MAX_FRAGMENTS\<close>.\<close>

primrec move_out :: "nat list \<Rightarrow> 'f option list \<Rightarrow> 'f list \<Rightarrow> ('f option list \<times> 'f list) option" where
  "move_out [] frags ret_assembled = Some (frags, ret_assembled)"
| "move_out (i # is) frags ret_assembled =
     (if i < length frags \<and> length ret_assembled < MAX_FRAGMENTS
      then (case frags ! i of
              None \<Rightarrow> None
            | Some f \<Rightarrow> move_out is (frags[i := None]) (ret_assembled @ [f]))
      else None)"

definition fragged_assemble ::
  "bool \<Rightarrow> 'f fragged \<Rightarrow> u64 \<Rightarrow> 'f \<Rightarrow> nat \<Rightarrow> nat \<Rightarrow> 'f list \<Rightarrow> ('f fragged \<times> 'f list) option" where
  "fragged_assemble needs_drop self nonce fragment fragment_no fragment_count ret_assembled =
     (if fragment_no < fragment_count \<and> fragment_count \<le> length (fg_frags self)
      then
        case (if nonce \<noteq> fg_nonce self
              then map_option (\<lambda>self. self\<lparr>fg_count := word_of_nat fragment_count, fg_nonce := nonce\<rparr>)
                     (drop_in_place needs_drop self)
              else Some self) of
          None \<Rightarrow> None
        | Some self \<Rightarrow>
            (let got = wrapping_shl 1 (word_of_nat fragment_no)
             in if got AND fg_have self = 0 \<and> fg_count self = word_of_nat fragment_count
                then
                  let self = self\<lparr>fg_have := fg_have self OR got, fg_frags := (fg_frags self)[fragment_no := Some fragment]\<rparr>
                  in if fg_have self = wrapping_shl 1 (fg_count self) - 1
                     then map_option
                            (\<lambda>(frags, ret). (self\<lparr>fg_have := 0, fg_count := 0, fg_nonce := - 1, fg_frags := frags\<rparr>, ret))
                            (move_out [0..<fragment_count] (fg_frags self) ret_assembled)
                     else Some (self, ret_assembled)
                else Some (self, ret_assembled))
      else Some (self, ret_assembled))"

text \<open>
  The invariant: a bit of \<open>have\<close> is set for an initialised slot below \<open>count\<close> only, and
  when dropping matters for every initialised slot; the packet is not complete.
\<close>

definition fragged_wf :: "bool \<Rightarrow> 'f fragged \<Rightarrow> bool" where
  "fragged_wf needs_drop s \<longleftrightarrow>
     length (fg_frags s) \<le> MAX_FRAGMENTS \<and> unat (fg_count s) \<le> length (fg_frags s) \<and>
     (\<forall>i. bit (fg_have s) i \<longrightarrow> i < unat (fg_count s) \<and> fg_frags s ! i \<noteq> None) \<and>
     (needs_drop \<longrightarrow> (\<forall>i < length (fg_frags s). fg_frags s ! i \<noteq> None \<longrightarrow> bit (fg_have s) i)) \<and>
     (0 < unat (fg_count s) \<longrightarrow> (\<exists>i < unat (fg_count s). \<not> bit (fg_have s) i))"

section \<open>Bit sets\<close>

lemma unat_small [simp]: "n < 64 \<Longrightarrow> unat (word_of_nat n :: u32) = n"
  by (simp add: unat_of_nat)

lemma bit_shl: "n < 64 \<Longrightarrow> bit (wrapping_shl 1 (word_of_nat n)) i \<longleftrightarrow> i = n"
  by (auto simp: wrapping_shl_def bit_exp_iff possible_bit_word)

lemma shl_and_zero: "n < 64 \<Longrightarrow> wrapping_shl 1 (word_of_nat n) AND h = 0 \<longleftrightarrow> \<not> bit h n"
proof -
  assume "n < 64"
  then have "bit (wrapping_shl 1 (word_of_nat n) AND h) i \<longleftrightarrow> i = n \<and> bit h n" for i
    by (auto simp: bit_and_iff bit_shl)
  then show ?thesis by (metis bit_0_eq bot_apply bot_bool_def bit_eqI)
qed

lemma have_full: "c < 64 \<Longrightarrow> h = wrapping_shl 1 (word_of_nat c) - 1 \<longleftrightarrow> (\<forall>i. bit h i \<longleftrightarrow> i < c)"
proof -
  assume c: "c < 64"
  then have "wrapping_shl 1 (word_of_nat c) - 1 = (mask c :: u64)"
    by (simp add: wrapping_shl_def mask_eq_exp_minus_1 push_bit_eq_mult)
  moreover have "bit (mask c :: u64) i \<longleftrightarrow> i < c" for i using c by (auto simp: bit_mask_iff)
  ultimately show ?thesis by (metis bit_eqI)
qed

section \<open>Dropping\<close>

lemma drop_loop_works:
  assumes "\<And>j. bit h j \<Longrightarrow> i + j < length frags \<and> frags ! (i + j) \<noteq> None"
  shows "\<exists>frags'. drop_loop h i frags = Some frags' \<and> length frags' = length frags \<and>
    (\<forall>k < length frags. frags' ! k = (if i \<le> k \<and> bit h (k - i) then None else frags ! k))"
  using assms
proof (induction h i frags rule: drop_loop.induct)
  case (1 h i frags)
  show ?case
  proof (cases "h = 0")
    case True
    then show ?thesis by (simp add: drop_loop.simps)
  next
    case False
    have odd: "h AND 1 \<noteq> 0 \<longleftrightarrow> bit h 0" by (simp add: and_one_eq bit_0 odd_iff_mod_2_eq_one mod2_eq_if)
    let ?f = "if bit h 0 then frags[i := None] else frags"
    have ok: "bit h 0 \<Longrightarrow> i < length frags \<and> frags ! i \<noteq> None" using "1.prems" [of 0] by simp
    have step: "drop_loop h i frags = drop_loop (drop_bit 1 h) (i + 1) ?f"
      using False odd ok by (subst drop_loop.simps) auto
    have pre: "i + 1 + j < length ?f \<and> ?f ! (i + 1 + j) \<noteq> None" if "bit (drop_bit 1 h) j" for j
      using "1.prems" [of "Suc j"] that by (simp add: bit_drop_bit_eq nth_list_update)
    have "\<exists>frags'. drop_loop (drop_bit 1 h) (i + 1) ?f = Some frags' \<and> length frags' = length frags \<and>
      (\<forall>k < length frags. frags' ! k = (if i + 1 \<le> k \<and> bit (drop_bit 1 h) (k - (i + 1)) then None else ?f ! k))"
    proof (cases "bit h 0")
      case True
      then show ?thesis using "1.IH"(1) [OF False] odd ok pre by simp
    next
      case f: False
      then show ?thesis using "1.IH"(2) [OF False] odd pre by simp
    qed
    then obtain frags' where f': "drop_loop (drop_bit 1 h) (i + 1) ?f = Some frags'" "length frags' = length frags"
      "\<And>k. k < length frags \<Longrightarrow> frags' ! k = (if i + 1 \<le> k \<and> bit (drop_bit 1 h) (k - (i + 1)) then None else ?f ! k)" by blast
    have all: "frags' ! k = (if i \<le> k \<and> bit h (k - i) then None else frags ! k)" if k: "k < length frags" for k
    proof -
      consider "k < i" | "k = i" | "i < k" by linarith
      then show ?thesis
      proof cases
        case 3
        then have "Suc (k - (i + 1)) = k - i" by simp
        with 3 f'(3) [OF k] show ?thesis by (auto simp: bit_drop_bit_eq)
      qed (use f'(3) [OF k] k in \<open>auto simp: bit_0\<close>)
    qed
    show ?thesis using f'(1,2) step all by (intro exI [of _ frags']) simp
  qed
qed


lemma drop_in_place_works:
  assumes "fragged_wf nd s"
  shows "\<exists>frags. drop_in_place nd s = Some \<lparr>fg_nonce = - 1, fg_count = 0, fg_have = 0, fg_frags = frags\<rparr> \<and>
    length frags = length (fg_frags s) \<and> (nd \<longrightarrow> (\<forall>i < length frags. frags ! i = None))"
proof (cases nd)
  case True
  have "\<exists>frags'. drop_loop (fg_have s) 0 (fg_frags s) = Some frags' \<and> length frags' = length (fg_frags s) \<and>
    (\<forall>k < length (fg_frags s). frags' ! k = (if 0 \<le> k \<and> bit (fg_have s) (k - 0) then None else fg_frags s ! k))"
    by (rule drop_loop_works) (use assms in \<open>auto simp: fragged_wf_def\<close>)
  then obtain frags' where f: "drop_loop (fg_have s) 0 (fg_frags s) = Some frags'" "length frags' = length (fg_frags s)"
    "\<And>k. k < length (fg_frags s) \<Longrightarrow> frags' ! k = (if bit (fg_have s) k then None else fg_frags s ! k)" by auto
  have "frags' ! k = None" if "k < length (fg_frags s)" for k
    using f(3) [OF that] assms True that unfolding fragged_wf_def by (cases "bit (fg_have s) k") auto
  then show ?thesis using True f(1,2) by (simp add: drop_in_place_def)
qed (simp add: drop_in_place_def)

lemma move_out_works:
  assumes "distinct is" "\<And>i. i \<in> set is \<Longrightarrow> i < length frags \<and> frags ! i \<noteq> None" "length ret + length is \<le> MAX_FRAGMENTS"
  shows "\<exists>frags'. move_out is frags ret = Some (frags', ret @ map (\<lambda>i. the (frags ! i)) is) \<and> length frags' = length frags \<and>
    (\<forall>k < length frags. frags' ! k = (if k \<in> set is then None else frags ! k))"
  using assms
proof (induction "is" arbitrary: frags ret)
  case (Cons i "is")
  then obtain f where f: "frags ! i = Some f" "i < length frags" "i \<notin> set is" by fastforce
  have "\<exists>frags'. move_out is (frags[i := None]) (ret @ [f]) =
      Some (frags', (ret @ [f]) @ map (\<lambda>j. the (frags[i := None] ! j)) is) \<and> length frags' = length (frags[i := None]) \<and>
      (\<forall>k < length (frags[i := None]). frags' ! k = (if k \<in> set is then None else frags[i := None] ! k))"
    by (rule Cons.IH) (use Cons.prems f in \<open>auto simp: nth_list_update\<close>)
  moreover have "map (\<lambda>j. the (frags[i := None] ! j)) is = map (\<lambda>j. the (frags ! j)) is"
    by (intro map_cong refl) (use f(3) in \<open>metis nth_list_update_neq\<close>)
  ultimately show ?case using f Cons.prems(3) by (auto simp: nth_list_update)
qed simp

section \<open>Assembling\<close>

text \<open>The state while the fragments numbered \<open>A\<close> of the packet \<open>fs\<close> are there.\<close>

definition collecting :: "bool \<Rightarrow> 'f fragged \<Rightarrow> u64 \<Rightarrow> nat \<Rightarrow> nat set \<Rightarrow> (nat \<Rightarrow> 'f) \<Rightarrow> bool" where
  "collecting nd s c n A fs \<longleftrightarrow> fg_nonce s = c \<and> fg_count s = word_of_nat n \<and> n \<le> length (fg_frags s) \<and>
     length (fg_frags s) \<le> MAX_FRAGMENTS \<and> (\<forall>i. bit (fg_have s) i \<longleftrightarrow> i \<in> A) \<and> A \<subset> {..<n} \<and>
     (\<forall>i \<in> A. fg_frags s ! i = Some (fs i)) \<and>
     (nd \<longrightarrow> (\<forall>i < length (fg_frags s). fg_frags s ! i \<noteq> None \<longrightarrow> i \<in> A))"

lemma collecting_wf: "collecting nd s c n A fs \<Longrightarrow> fragged_wf nd s"
  by (auto simp: collecting_def fragged_wf_def zssp_sizes)

lemma wf_collecting:
  assumes "fragged_wf nd s" "0 < unat (fg_count s)"
  shows "collecting nd s (fg_nonce s) (unat (fg_count s)) {i. bit (fg_have s) i} (\<lambda>i. the (fg_frags s ! i))"
  using assms by (auto simp: collecting_def fragged_wf_def)

text \<open>The first guard, and the reset for a new packet.\<close>

lemma assemble_reset:
  assumes wf: "fragged_wf nd s" and c: "c \<noteq> fg_nonce s" and n: "i < n" "n \<le> length (fg_frags s)"
  shows "\<exists>s'. collecting nd s' c n {} fs \<and> length (fg_frags s') = length (fg_frags s) \<and>
    fragged_assemble nd s c f i n ret = fragged_assemble nd s' c f i n ret"
proof -
  obtain frags where d: "drop_in_place nd s = Some \<lparr>fg_nonce = - 1, fg_count = 0, fg_have = 0, fg_frags = frags\<rparr>"
    "length frags = length (fg_frags s)" "nd \<longrightarrow> (\<forall>i < length frags. frags ! i = None)"
    using drop_in_place_works [OF wf] by blast
  let ?s = "\<lparr>fg_nonce = c, fg_count = word_of_nat n, fg_have = 0, fg_frags = frags\<rparr>"
  have "collecting nd ?s c n {} fs" using d n wf by (auto simp: collecting_def fragged_wf_def)
  moreover have "fragged_assemble nd s c f i n ret = fragged_assemble nd ?s c f i n ret"
    using c n d by (simp add: fragged_assemble_def)
  ultimately show ?thesis using d(2) by (intro exI [of _ ?s]) simp
qed

lemma assemble_collects:
  assumes s: "collecting nd s c n A fs" and i: "i < n" "i \<notin> A" and more: "insert i A \<noteq> {..<n}"
  shows "\<exists>s'. fragged_assemble nd s c (fs i) i n ret = Some (s', ret) \<and> collecting nd s' c n (insert i A) fs \<and>
    length (fg_frags s') = length (fg_frags s)"
proof -
  have n: "n < 64" "i < 64" using s i(1) by (auto simp: collecting_def zssp_sizes)
  let ?s = "s\<lparr>fg_have := fg_have s OR wrapping_shl 1 (word_of_nat i), fg_frags := (fg_frags s)[i := Some (fs i)]\<rparr>"
  have bits: "bit (fg_have ?s) j \<longleftrightarrow> j \<in> insert i A" for j
    using s n by (auto simp: collecting_def bit_or_iff bit_shl)
  then have "fg_have ?s \<noteq> wrapping_shl 1 (word_of_nat n) - 1" using have_full [OF n(1), of "fg_have ?s"] more by auto
  then have "fragged_assemble nd s c (fs i) i n ret = Some (?s, ret)"
    using s i n by (simp add: fragged_assemble_def collecting_def shl_and_zero Let_def)
  moreover have "collecting nd ?s c n (insert i A) fs"
    unfolding collecting_def
  proof (intro conjI)
    have A: "A \<subset> {..<n}" using s by (simp add: collecting_def)
    then show "insert i A \<subset> {..<n}" using i more by blast
    show "\<forall>j. bit (fg_have ?s) j \<longleftrightarrow> j \<in> insert i A" using bits by blast
    show "\<forall>j \<in> insert i A. fg_frags ?s ! j = Some (fs j)"
    proof
      fix j assume "j \<in> insert i A"
      then show "fg_frags ?s ! j = Some (fs j)" using s i by (cases "j = i") (simp_all add: collecting_def)
    qed
    show "nd \<longrightarrow> (\<forall>j < length (fg_frags ?s). fg_frags ?s ! j \<noteq> None \<longrightarrow> j \<in> insert i A)"
    proof (intro impI allI)
      fix j assume j: "nd" "j < length (fg_frags ?s)" "fg_frags ?s ! j \<noteq> None"
      have "\<And>j. nd \<Longrightarrow> j < length (fg_frags s) \<Longrightarrow> fg_frags s ! j \<noteq> None \<Longrightarrow> j \<in> A"
        using s unfolding collecting_def by blast
      from this [of j] j show "j \<in> insert i A" by (cases "j = i") simp_all
    qed
  qed (use s in \<open>simp_all add: collecting_def\<close>)
  ultimately show ?thesis by simp
qed

lemma assemble_completes:
  assumes s: "collecting nd s c n A fs" and i: "i < n" "i \<notin> A" and all: "insert i A = {..<n}"
  shows "\<exists>s'. fragged_assemble nd s c (fs i) i n [] = Some (s', map fs [0..<n]) \<and> fragged_wf nd s' \<and>
    fg_nonce s' = - 1 \<and> fg_have s' = 0 \<and> length (fg_frags s') = length (fg_frags s)"
proof -
  have n: "n < 64" "i < 64" using s i(1) by (auto simp: collecting_def zssp_sizes)
  let ?f = "(fg_frags s)[i := Some (fs i)]"
  let ?h = "fg_have s OR wrapping_shl 1 (word_of_nat i)"
  have "bit ?h j \<longleftrightarrow> j \<in> insert i A" for j using s n by (auto simp: collecting_def bit_or_iff bit_shl)
  then have full: "?h = wrapping_shl 1 (word_of_nat n) - 1" using have_full [OF n(1), of ?h] all by auto
  have have_frags: "?f ! j = Some (fs j)" if "j < n" for j
    using that s i all by (cases "j = i") (auto simp: collecting_def)
  have "\<exists>frags'. move_out [0..<n] ?f [] = Some (frags', [] @ map (\<lambda>i. the (?f ! i)) [0..<n]) \<and> length frags' = length ?f \<and>
    (\<forall>k < length ?f. frags' ! k = (if k \<in> set [0..<n] then None else ?f ! k))"
    by (rule move_out_works) (use have_frags s in \<open>auto simp: collecting_def\<close>)
  then obtain frags' where m: "move_out [0..<n] ?f [] = Some (frags', map fs [0..<n])" "length frags' = length (fg_frags s)"
    "\<And>k. k < length (fg_frags s) \<Longrightarrow> frags' ! k = (if k < n then None else ?f ! k)"
    using have_frags by (auto cong: map_cong)
  let ?s = "s\<lparr>fg_have := 0, fg_frags := frags', fg_count := 0, fg_nonce := - 1\<rparr>"
  have "fragged_assemble nd s c (fs i) i n [] = Some (?s, map fs [0..<n])"
    using s i n full m(1) by (simp add: fragged_assemble_def collecting_def shl_and_zero Let_def)
  moreover have "fragged_wf nd ?s"
    unfolding fragged_wf_def
  proof (intro conjI)
    have "frags' ! k = None" if "nd" "k < length (fg_frags s)" for k
    proof (cases "k < n")
      case False
      then have "k \<notin> A" "k \<noteq> i" using s i by (auto simp: collecting_def)
      then show ?thesis using that s False m(3) [OF that(2)] by (auto simp: collecting_def)
    qed (simp add: m(3) that)
    then show "nd \<longrightarrow> (\<forall>k < length (fg_frags ?s). fg_frags ?s ! k \<noteq> None \<longrightarrow> bit (fg_have ?s) k)" using m(2) by simp
  qed (use s m(2) in \<open>simp_all add: collecting_def\<close>)
  ultimately show ?thesis using m(2) by (intro exI [of _ ?s]) simp
qed


text \<open>Any call, on any state that satisfies the invariant.\<close>

lemma fragged_assemble_works:
  assumes wf: "fragged_wf nd s"
  shows "\<exists>s' ret. fragged_assemble nd s c f i n [] = Some (s', ret) \<and> fragged_wf nd s' \<and>
    length (fg_frags s') = length (fg_frags s)"
proof (cases "i < n \<and> n \<le> length (fg_frags s)")
  case ok: True
  obtain s' where s': "fragged_wf nd s'" "fg_nonce s' = c" "length (fg_frags s') = length (fg_frags s)"
    "fragged_assemble nd s c f i n [] = fragged_assemble nd s' c f i n []"
  proof (cases "c = fg_nonce s")
    case False
    obtain s' where "collecting nd s' c n {} undefined" "length (fg_frags s') = length (fg_frags s)"
      "fragged_assemble nd s c f i n [] = fragged_assemble nd s' c f i n []"
      using assemble_reset [OF wf False conjunct1 [OF ok] conjunct2 [OF ok]] by blast
    with that show thesis using collecting_wf by (metis collecting_def)
  qed (use that wf in simp)
  show ?thesis
  proof (cases "\<not> bit (fg_have s') i \<and> fg_count s' = word_of_nat n")
    case True
    have n: "n < 64" using ok wf by (simp add: fragged_wf_def zssp_sizes)
    then have cnt: "unat (fg_count s') = n" using True by simp
    let ?A = "{j. bit (fg_have s') j}" and ?fs = "(\<lambda>j. the (fg_frags s' ! j))(i := f)"
    have "collecting nd s' c n ?A (\<lambda>j. the (fg_frags s' ! j))" using wf_collecting [OF s'(1)] cnt s'(2) ok by auto
    then have col: "collecting nd s' c n ?A ?fs" using True unfolding collecting_def by auto
    show ?thesis
    proof (cases "insert i ?A = {..<n}")
      case t: True
      show ?thesis using assemble_completes [OF col _ _ t] s' ok True by auto
    next
      case False
      show ?thesis using assemble_collects [OF col _ _ False, of "[]"] collecting_wf s' ok True by fastforce
    qed
  next
    case False
    have "i < 64" using ok wf by (simp add: fragged_wf_def zssp_sizes)
    then have "fragged_assemble nd s' c f i n [] = Some (s', [])"
      using False s' ok by (auto simp: fragged_assemble_def Let_def shl_and_zero)
    then show ?thesis using s' by simp
  qed
qed (use wf in \<open>auto simp: fragged_assemble_def\<close>)

text \<open>The calls for a list of numbered fragments, with the packets they return.\<close>

primrec fragged_feed ::
  "bool \<Rightarrow> 'f fragged \<Rightarrow> u64 \<Rightarrow> nat \<Rightarrow> (nat \<times> 'f) list \<Rightarrow> ('f fragged \<times> 'f list list) option" where
  "fragged_feed nd s c n [] = Some (s, [])"
| "fragged_feed nd s c n (x # xs) =
     (case fragged_assemble nd s c (snd x) (fst x) n [] of
        None \<Rightarrow> None
      | Some (s, ret) \<Rightarrow> map_option (apsnd (Cons ret)) (fragged_feed nd s c n xs))"

lemma feed_collects:
  assumes "collecting nd s c n A fs" "distinct is" "set is = {..<n} - A"
  shows "\<exists>s'. fragged_feed nd s c n (map (\<lambda>i. (i, fs i)) is) = Some (s', replicate (length is - 1) [] @ [map fs [0..<n]]) \<and>
    fragged_wf nd s' \<and> fg_nonce s' = - 1 \<and> fg_have s' = 0"
  using assms
proof (induction "is" arbitrary: s A)
  case Nil
  then show ?case by (auto simp: collecting_def)
next
  case (Cons i "is")
  then have i: "i < n" "i \<notin> A" and rest: "set is = {..<n} - insert i A" "distinct is" by auto
  show ?case
  proof (cases "is = []")
    case True
    then have "insert i A = {..<n}" using rest(1) Cons.prems(1) i by (auto simp: collecting_def)
    then show ?thesis using assemble_completes [OF Cons.prems(1) i] True by auto
  next
    case False
    then have "insert i A \<noteq> {..<n}" using rest(1) by (metis Diff_cancel set_empty)
    then obtain s' where s': "fragged_assemble nd s c (fs i) i n [] = Some (s', [])" "collecting nd s' c n (insert i A) fs"
      using assemble_collects [OF Cons.prems(1) i] by blast
    then show ?thesis using Cons.IH [OF s'(2) rest(2,1)] False by (cases "is") auto
  qed
qed

inductive fragged_reachable :: "bool \<Rightarrow> nat \<Rightarrow> 'f fragged \<Rightarrow> bool" where
  fragged_start: "mx \<le> MAX_FRAGMENTS \<Longrightarrow> fragged_reachable nd mx (fragged_new mx)"
| fragged_call: "fragged_reachable nd mx s \<Longrightarrow> fragged_assemble nd s c f i n [] = Some (s', ret) \<Longrightarrow> fragged_reachable nd mx s'"
| fragged_drop: "fragged_reachable nd mx s \<Longrightarrow> drop_in_place nd s = Some s' \<Longrightarrow> fragged_reachable nd mx s'"

lemma fragged_new_wf: "mx \<le> MAX_FRAGMENTS \<Longrightarrow> fragged_wf nd (fragged_new mx)"
  by (simp add: fragged_wf_def fragged_new_def)

lemma fragged_reachable_wf: "fragged_reachable nd mx s \<Longrightarrow> fragged_wf nd s \<and> length (fg_frags s) = mx"
proof (induction rule: fragged_reachable.induct)
  case (fragged_start mx nd)
  then show ?case using fragged_new_wf by (simp add: fragged_new_def)
next
  case (fragged_call nd mx s c f i n s' ret)
  then show ?case using fragged_assemble_works [of nd s c f i n] by auto
next
  case (fragged_drop nd mx s s')
  then show ?case using drop_in_place_works [of nd s] by (auto simp: fragged_wf_def)
qed

section \<open>Properties\<close>

text \<open>C38: No sequence of calls makes the defragmenter read, move out or drop a fragment that is not
  there, or overflow its result: every call of \<open>assemble\<close> with an empty result and every
  \<open>drop_in_place\<close> returns, and dropping leaves no fragment behind in the array.
\<close>

theorem fragged_memory_safe:
  assumes "fragged_reachable True mx s"
  shows "(\<exists>s' ret. fragged_assemble True s c f i n [] = Some (s', ret)) \<and>
    (\<exists>s'. drop_in_place True s = Some s' \<and> (\<forall>i < mx. fg_frags s' ! i = None))"
proof -
  have wf: "fragged_wf True s" "length (fg_frags s) = mx" using fragged_reachable_wf [OF assms] by simp_all
  then show ?thesis using fragged_assemble_works [OF wf(1)] drop_in_place_works [OF wf(1)] by fastforce
qed

theorem fragged_memory_safe_witness:
  "\<exists>s s' ret. fragged_assemble True (fragged_new 48) 7 ''a'' 0 2 [] = Some (s, []) \<and> fg_frags s ! 0 = Some ''a'' \<and>
     fragged_assemble True s 9 ''b'' 1 3 [] = Some (s', ret) \<and> (\<exists>s'. drop_in_place True s = Some s' \<and> fg_frags s' ! 0 = None)"
proof -
  define s where "s = \<lparr>fg_nonce = 7, fg_count = 2, fg_have = 1, fg_frags = (replicate 48 None)[0 := Some ''a'']\<rparr>"
  have s: "fragged_assemble True (fragged_new 48) 7 ''a'' 0 2 [] = Some (s, [])" "fg_frags s ! 0 = Some ''a''"
    by (simp_all add: s_def fragged_assemble_def fragged_new_def drop_in_place_def drop_loop.simps wrapping_shl_def)
  have "fragged_reachable True 48 (fragged_new 48 :: string fragged)" by (rule fragged_start) (simp add: zssp_sizes)
  from fragged_memory_safe [OF fragged_call [OF this s(1)], of 9 "''b''" 1 3] s show ?thesis by force
qed

text \<open>C28: The fragments of a packet may arrive in any order: a defragmenter that works on another
  packet, or on none, returns nothing until the last of them has arrived, then the whole
  packet in order, and is then ready for another one.
\<close>

theorem fragged_any_order:
  assumes "fragged_wf nd s" "c \<noteq> fg_nonce s" "0 < n" "n \<le> length (fg_frags s)" "distinct is" "set is = {..<n}"
  shows "\<exists>s'. fragged_feed nd s c n (map (\<lambda>i. (i, fs i)) is) = Some (s', replicate (n - 1) [] @ [map fs [0..<n]]) \<and>
    fragged_wf nd s' \<and> fg_nonce s' = - 1 \<and> fg_have s' = 0"
proof -
  obtain i "is'" where c: "is = i # is'" using assms(3,6) by (cases "is") auto
  have i: "i < n" using assms(6) c by auto
  obtain s' where s': "collecting nd s' c n {} fs" "fragged_assemble nd s c (fs i) i n [] = fragged_assemble nd s' c (fs i) i n []"
    using assemble_reset [OF assms(1,2) i assms(4), of fs "fs i" "[]"] by blast
  have "fragged_feed nd s c n (map (\<lambda>i. (i, fs i)) is) = fragged_feed nd s' c n (map (\<lambda>i. (i, fs i)) is)"
    using s'(2) c by simp
  moreover have "length is = n" using assms(5,6) distinct_card by fastforce
  ultimately show ?thesis using feed_collects [OF s'(1) assms(5)] assms(6) by simp
qed

theorem fragged_any_order_witness:
  "\<exists>s'. fragged_feed True (fragged_new 48) 7 3 [(2, ''c''), (0, ''a''), (1, ''b'')] = Some (s', [[], [], [''a'', ''b'', ''c'']]) \<and>
    fragged_wf True s' \<and> fg_nonce s' = - 1 \<and> fg_have s' = 0"
proof -
  have "map (\<lambda>i. (i, [''a'', ''b'', ''c''] ! i)) [2, 0, 1] = [(2, ''c''), (0, ''a''), (1 :: nat, ''b'')]"
    "map ((!) [''a'', ''b'', ''c'']) [0..<3] = [''a'', ''b'', ''c'']" "replicate (3 - 1) [] = [[], [] :: string list]"
    "set [2, 0, 1 :: nat] = {..<3}" by (auto simp: upt_rec numeral_2_eq_2)
  moreover have "fragged_wf True (fragged_new 48)" by (rule fragged_new_wf) (simp add: zssp_sizes)
  moreover have "7 \<noteq> fg_nonce (fragged_new 48)" "3 \<le> length (fg_frags (fragged_new 48))"
    by (simp_all add: fragged_new_def)
  ultimately show ?thesis
    using fragged_any_order [of True "fragged_new 48" 7 3 "[2, 0, 1]" "(!) [''a'', ''b'', ''c'']"] by simp
qed

end
