(* ===== verification/Frag_Cache.thy ===== *)
theory Frag_Cache
  imports Fragged Crypto_Layer
begin

text \<open>
  The cache of unassociated fragments, \<open>UnassociatedFragCache\<close> of
  \<open>performance/src/frag_cache.rs\<close>: a hash table with two places per key over a ring buffer of
  fragments. It takes fragments straight from the network.

  The salted hash of the address and the nonce is an argument, any function to \<open>u64\<close>. The
  fields of an entry that hold array indices and counts below the array sizes are natural
  numbers. As in \<open>Fragged\<close>, a slot of the ring that holds no fragment is \<open>None\<close>, and an operation
  returns \<open>None\<close> where the source would read or drop such a slot, index the ring or a fragment
  list out of range or not end. The two places of a key in the table are below its size by
  construction (\<open>cache_places\<close>), so the reads of \<open>cache_lookup\<close> at them have no guard.

  The invariant \<open>cache_wf\<close> ties the table, the ring and the owners of its slots together; this
  theory shows it for the removal of entries and for the expiry loop.
\<close>

section \<open>Definitions\<close>

definition U32_MAX :: nat where
  "U32_MAX = 2 ^ 32 - 1"

record packet_metadata =
  pm_key :: u64
  pm_frags_idx :: nat
  pm_fragment_have :: u64
  pm_fragment_count :: nat
  pm_packet_size :: nat
  pm_creation_time :: i64

record 'f frag_cache =
  fc_frags_first_unused :: nat
  fc_frags_unused_size :: nat
  fc_map :: "packet_metadata list"
  fc_frags :: "'f option list"
  fc_map_idx :: "nat list"

definition empty_metadata :: packet_metadata where
  "empty_metadata = \<lparr>pm_key = 0, pm_frags_idx = 0, pm_fragment_have = 0, pm_fragment_count = 0, pm_packet_size = 0,
     pm_creation_time = 0\<rparr>"

definition cache_new :: "'f frag_cache" where
  "cache_new = \<lparr>fc_frags_first_unused = 0, fc_frags_unused_size = MAX_UNASSOCIATED_FRAGMENTS,
     fc_map = replicate MAX_UNASSOCIATED_PACKETS empty_metadata, fc_frags = replicate MAX_UNASSOCIATED_FRAGMENTS None,
     fc_map_idx = replicate MAX_UNASSOCIATED_FRAGMENTS U32_MAX\<rparr>"

subsection \<open>Removing an entry\<close>

text \<open>The first loop of \<open>invalidate\<close>, over the fragment numbers of the entry.\<close>

primrec clear_slots :: "bool \<Rightarrow> packet_metadata \<Rightarrow> nat list \<Rightarrow> 'f frag_cache \<Rightarrow> 'f frag_cache option" where
  "clear_slots DROP entry [] self = Some self"
| "clear_slots DROP entry (fragment_no # nos) self =
     (let frag_idx = (pm_frags_idx entry + fragment_no) mod length (fc_frags self)
      in if frag_idx < length (fc_map_idx self)
         then
           let self = self\<lparr>fc_map_idx := (fc_map_idx self)[frag_idx := U32_MAX]\<rparr>
           in if DROP \<and> 0 < pm_fragment_have entry AND wrapping_shl 1 (word_of_nat fragment_no)
              then if frag_idx < length (fc_frags self) \<and> fc_frags self ! frag_idx \<noteq> None
                   then clear_slots DROP entry nos (self\<lparr>fc_frags := (fc_frags self)[frag_idx := None]\<rparr>)
                   else None
              else clear_slots DROP entry nos self
         else None)"

text \<open>The second loop: past the empty slots at the start of the ring.\<close>

function skip_empty :: "'f frag_cache \<Rightarrow> 'f frag_cache" where
  "skip_empty self =
     (if fc_frags_unused_size self < length (fc_frags self)
      then if fc_map_idx self ! ((fc_frags_first_unused self + fc_frags_unused_size self) mod length (fc_frags self)) = U32_MAX
           then skip_empty (self\<lparr>fc_frags_unused_size := fc_frags_unused_size self + 1\<rparr>)
           else self
      else self)"
  by auto
termination
  by (relation "measure (\<lambda>s. length (fc_frags s) - fc_frags_unused_size s)") auto

declare skip_empty.simps [simp del]

definition invalidate :: "bool \<Rightarrow> nat \<Rightarrow> 'f frag_cache \<Rightarrow> 'f frag_cache option" where
  "invalidate DROP idx self =
     (if idx < length (fc_map self)
      then
        let entry = fc_map self ! idx; start_idx = pm_frags_idx entry
        in case clear_slots DROP entry [0..<pm_fragment_count entry] self of
             None \<Rightarrow> None
           | Some self \<Rightarrow>
               (let self = self\<lparr>fc_map := (fc_map self)[idx := empty_metadata]\<rparr>;
                    frags_first_used = (fc_frags_first_unused self + fc_frags_unused_size self) mod length (fc_frags self)
                in if frags_first_used = start_idx then Some (skip_empty self) else Some self)
      else None)"

partial_function (option) check_for_expiry_inner :: "i64 \<Rightarrow> i64 \<Rightarrow> 'f frag_cache \<Rightarrow> (i64 \<times> 'f frag_cache) option" where
  "check_for_expiry_inner timeout current_time self =
     (if fc_frags_unused_size self < length (fc_frags self)
      then
        let frag_idx = (fc_frags_first_unused self + fc_frags_unused_size self) mod length (fc_frags self);
            map_idx = fc_map_idx self ! frag_idx
        in if map_idx < length (fc_map self)
           then
             let expiry = i64_add (pm_creation_time (fc_map self ! map_idx)) timeout
             in if expiry \<le> current_time
                then (case invalidate True map_idx self of
                        None \<Rightarrow> None
                      | Some self \<Rightarrow> check_for_expiry_inner timeout current_time self)
                else Some (expiry, self)
           else None
      else Some (I64_MAX, self))"

definition check_for_expiry :: "settings \<Rightarrow> i64 \<Rightarrow> 'f frag_cache \<Rightarrow> (i64 \<times> 'f frag_cache) option" where
  "check_for_expiry S current_time self = check_for_expiry_inner (as_i64 (fragment_assembly_timeout S)) current_time self"

subsection \<open>Adding a fragment\<close>

definition cache_key :: "('addr \<Rightarrow> bytes \<Rightarrow> u64) \<Rightarrow> 'addr \<Rightarrow> bytes \<Rightarrow> u64" where
  "cache_key hash remote_address nonce = (let key = hash remote_address nonce in if key = 0 then 1 else key)"

definition cache_places :: "'f frag_cache \<Rightarrow> u64 \<Rightarrow> nat \<times> nat" where
  "cache_places self key =
     (let map_len = length (fc_map self);
          idx0 = unat key mod map_len;
          idx1 = unat key div map_len mod (map_len - 1)
      in (idx0, if idx0 = idx1 then map_len - 1 else idx1))"

text \<open>The two-place lookup, which may expire entries; the inner \<open>None\<close> gives up.\<close>

definition cache_lookup :: "settings \<Rightarrow> u64 \<Rightarrow> nat \<Rightarrow> i64 \<Rightarrow> 'f frag_cache \<Rightarrow> (nat option \<times> 'f frag_cache) option" where
  "cache_lookup S key fragment_count current_time self =
     (case cache_places self key of (idx0, idx1) \<Rightarrow>
        if pm_key (fc_map self ! idx0) = key then Some (Some idx0, self)
        else if pm_key (fc_map self ! idx1) = key then Some (Some idx1, self)
        else if pm_key (fc_map self ! idx0) = 0 \<or> pm_key (fc_map self ! idx1) = 0
        then map_option (\<lambda>self. (Some (if pm_key (fc_map self ! idx0) = 0 then idx0 else idx1), self))
               (if fc_frags_unused_size self < fragment_count
                then map_option snd (check_for_expiry_inner (as_i64 (resend_time S)) current_time self)
                else Some self)
        else map_option
               (\<lambda>(_, self). (if pm_key (fc_map self ! idx0) = 0 then Some idx0
                             else if pm_key (fc_map self ! idx1) = 0 then Some idx1 else None, self))
               (check_for_expiry_inner (as_i64 (resend_time S)) current_time self))"

primrec alloc_slots :: "nat \<Rightarrow> nat \<Rightarrow> 'f frag_cache \<Rightarrow> 'f frag_cache" where
  "alloc_slots 0 idx self = self"
| "alloc_slots (Suc n) idx self =
     alloc_slots n idx
       (self\<lparr>fc_map_idx := (fc_map_idx self)[fc_frags_first_unused self := idx],
             fc_frags_first_unused := (fc_frags_first_unused self + 1) mod length (fc_frags self),
             fc_frags_unused_size := fc_frags_unused_size self - 1\<rparr>)"

text \<open>A new entry; \<open>None\<close>: there are not enough free slots.\<close>

definition cache_init :: "u64 \<Rightarrow> nat \<Rightarrow> i64 \<Rightarrow> nat \<Rightarrow> 'f frag_cache \<Rightarrow> 'f frag_cache option" where
  "cache_init key fragment_count current_time idx self =
     (if fragment_count \<le> fc_frags_unused_size self
      then Some (alloc_slots fragment_count idx
             (self\<lparr>fc_map := (fc_map self)[idx :=
                \<lparr>pm_key = key, pm_frags_idx = fc_frags_first_unused self, pm_fragment_have = 0,
                 pm_fragment_count = fragment_count, pm_packet_size = 0, pm_creation_time = current_time\<rparr>]\<rparr>))
      else None)"

text \<open>Storing the fragment, and handing the packet out when it is complete.\<close>

definition cache_store :: "nat \<Rightarrow> 'f \<Rightarrow> nat \<Rightarrow> nat \<Rightarrow> nat \<Rightarrow> 'f list \<Rightarrow> 'f frag_cache \<Rightarrow> ('f frag_cache \<times> 'f list) option" where
  "cache_store fragment_size fragment fragment_no fragment_count idx ret_assembled self =
     (let entry = fc_map self ! idx;
          new_size = pm_packet_size entry + fragment_size;
          got = wrapping_shl 1 (word_of_nat fragment_no)
      in if got AND pm_fragment_have entry = 0 \<and> fragment_count = pm_fragment_count entry \<and>
            new_size \<le> MAX_UNASSOCIATED_PACKET_SIZE
         then
           let entry = entry\<lparr>pm_fragment_have := pm_fragment_have entry OR got, pm_packet_size := new_size\<rparr>;
               frag_idx = (pm_frags_idx entry + fragment_no) mod length (fc_frags self);
               self = self\<lparr>fc_map := (fc_map self)[idx := entry], fc_frags := (fc_frags self)[frag_idx := Some fragment]\<rparr>
           in if pm_fragment_have entry = wrapping_shl 1 (word_of_nat fragment_count) - 1
              then (case move_out (map (\<lambda>i. i mod length (fc_frags self)) [pm_frags_idx entry..<pm_frags_idx entry + fragment_count])
                           (fc_frags self) ret_assembled of
                      None \<Rightarrow> None
                    | Some (frags, ret) \<Rightarrow> map_option (\<lambda>self. (self, ret)) (invalidate False idx (self\<lparr>fc_frags := frags\<rparr>)))
              else Some (self, ret_assembled)
         else Some (self, ret_assembled))"

definition cache_assemble ::
  "settings \<Rightarrow> u64 \<Rightarrow> nat \<Rightarrow> 'f \<Rightarrow> nat \<Rightarrow> nat \<Rightarrow> i64 \<Rightarrow> 'f list \<Rightarrow> 'f frag_cache
     \<Rightarrow> (i64 option \<times> 'f frag_cache \<times> 'f list) option" where
  "cache_assemble S key fragment_size fragment fragment_no fragment_count current_time ret_assembled self =
     (if fragment_count \<le> fragment_no \<or> MAX_FRAGMENTS < fragment_count \<or> MAX_UNASSOCIATED_PACKET_SIZE < fragment_size
      then Some (None, self, ret_assembled)
      else
        case cache_lookup S key fragment_count current_time self of
          None \<Rightarrow> None
        | Some (None, self) \<Rightarrow> Some (None, self, ret_assembled)
        | Some (Some idx, self) \<Rightarrow>
            if pm_key (fc_map self ! idx) = 0
            then (case cache_init key fragment_count current_time idx self of
                    None \<Rightarrow> Some (None, self, ret_assembled)
                  | Some self \<Rightarrow>
                      map_option (Pair (Some (i64_add current_time (as_i64 (fragment_assembly_timeout S)))))
                        (cache_store fragment_size fragment fragment_no fragment_count idx ret_assembled self))
            else map_option (Pair None)
                   (cache_store fragment_size fragment fragment_no fragment_count idx ret_assembled self))"

text \<open>\<open>assemble\<close> with the key computed from the sender's address and the packet's nonce.\<close>

definition unassociated_assemble ::
  "settings \<Rightarrow> ('addr \<Rightarrow> bytes \<Rightarrow> u64) \<Rightarrow> bytes \<Rightarrow> 'addr \<Rightarrow> nat \<Rightarrow> 'f \<Rightarrow> nat \<Rightarrow> nat \<Rightarrow> i64 \<Rightarrow> 'f list \<Rightarrow> 'f frag_cache
     \<Rightarrow> (i64 option \<times> 'f frag_cache \<times> 'f list) option" where
  "unassociated_assemble S hash nonce remote_address fragment_size fragment fragment_no fragment_count current_time ret_assembled self =
     cache_assemble S (cache_key hash remote_address nonce) fragment_size fragment fragment_no fragment_count current_time
       ret_assembled self"

text \<open>\<open>Drop\<close> for the cache.\<close>

primrec cache_drop :: "nat list \<Rightarrow> 'f frag_cache \<Rightarrow> 'f frag_cache option" where
  "cache_drop [] self = Some self"
| "cache_drop (i # is) self =
     (if pm_key (fc_map self ! i) \<noteq> 0
      then (case invalidate True i self of None \<Rightarrow> None | Some self \<Rightarrow> cache_drop is self)
      else cache_drop is self)"


subsection \<open>Invariants\<close>

text \<open>
  \<open>ring s j\<close> is the slot at distance \<open>j\<close> from the first unused one; the first
  \<open>frags_unused_size\<close> of them are unused.
\<close>

definition ring :: "'f frag_cache \<Rightarrow> nat \<Rightarrow> nat" where
  "ring s j = (fc_frags_first_unused s + j) mod length (fc_frags s)"

definition frag_slot :: "'f frag_cache \<Rightarrow> nat \<Rightarrow> nat \<Rightarrow> nat" where
  "frag_slot s m no = (pm_frags_idx (fc_map s ! m) + no) mod length (fc_frags s)"

definition live :: "'f frag_cache \<Rightarrow> nat \<Rightarrow> bool" where
  "live s m \<longleftrightarrow> m < length (fc_map s) \<and> pm_key (fc_map s ! m) \<noteq> 0"

text \<open>An entry owns consecutive slots of the used part of the ring.\<close>

definition entry_place :: "'f frag_cache \<Rightarrow> nat \<Rightarrow> bool" where
  "entry_place s m \<longleftrightarrow>
     0 < pm_fragment_count (fc_map s ! m) \<and> pm_fragment_count (fc_map s ! m) \<le> MAX_FRAGMENTS \<and>
     (\<exists>j. pm_frags_idx (fc_map s ! m) = ring s j \<and> fc_frags_unused_size s \<le> j \<and>
        j + pm_fragment_count (fc_map s ! m) \<le> length (fc_frags s)) \<and>
     (\<forall>no < pm_fragment_count (fc_map s ! m). fc_map_idx s ! frag_slot s m no = m)"

text \<open>The bits of an entry say which of its slots hold a fragment, and the packet is not complete.\<close>

definition entry_data :: "'f frag_cache \<Rightarrow> nat \<Rightarrow> bool" where
  "entry_data s m \<longleftrightarrow>
     (\<forall>no. bit (pm_fragment_have (fc_map s ! m)) no \<longrightarrow> no < pm_fragment_count (fc_map s ! m)) \<and>
     (\<forall>no < pm_fragment_count (fc_map s ! m). fc_frags s ! frag_slot s m no \<noteq> None \<longleftrightarrow> bit (pm_fragment_have (fc_map s ! m)) no) \<and>
     (\<exists>no < pm_fragment_count (fc_map s ! m). \<not> bit (pm_fragment_have (fc_map s ! m)) no)"

definition ring_wf :: "'f frag_cache \<Rightarrow> bool" where
  "ring_wf s \<longleftrightarrow>
     length (fc_map_idx s) = length (fc_frags s) \<and> 2 \<le> length (fc_map s) \<and> length (fc_map s) \<le> U32_MAX \<and>
     fc_frags_first_unused s < length (fc_frags s) \<and> fc_frags_unused_size s \<le> length (fc_frags s) \<and>
     (\<forall>m. live s m \<longrightarrow> entry_place s m) \<and>
     (\<forall>k < length (fc_frags s). fc_map_idx s ! k \<noteq> U32_MAX \<longrightarrow>
        live s (fc_map_idx s ! k) \<and> (\<exists>no < pm_fragment_count (fc_map s ! (fc_map_idx s ! k)). k = frag_slot s (fc_map_idx s ! k) no)) \<and>
     (\<forall>k < length (fc_frags s). fc_frags s ! k \<noteq> None \<longrightarrow> fc_map_idx s ! k \<noteq> U32_MAX)"

definition front_used :: "'f frag_cache \<Rightarrow> bool" where
  "front_used s \<longleftrightarrow>
     (fc_frags_unused_size s < length (fc_frags s) \<longrightarrow> fc_map_idx s ! ring s (fc_frags_unused_size s) \<noteq> U32_MAX)"

definition cache_wf :: "'f frag_cache \<Rightarrow> bool" where
  "cache_wf s \<longleftrightarrow> ring_wf s \<and> (\<forall>m. live s m \<longrightarrow> entry_data s m) \<and> front_used s"

section \<open>The ring\<close>

lemma ring_less: "ring_wf s \<Longrightarrow> ring s j < length (fc_frags s)"
  unfolding ring_def ring_wf_def by (metis mod_less_divisor not_less_zero neq0_conv)

lemma mod_shift_inj:
  fixes a i j n :: nat
  assumes "i \<le> j" "j < n" "(a + i) mod n = (a + j) mod n"
  shows "i = j"
proof -
  have "n dvd (a + j) - (a + i)" using assms by (metis mod_eq_dvd_iff_nat add_le_cancel_left)
  then have "n dvd j - i" by simp
  then show ?thesis using nat_dvd_not_less [of "j - i" n] assms(1,2) by (cases "i = j") simp_all
qed

lemma ring_inj: "i < length (fc_frags s) \<Longrightarrow> j < length (fc_frags s) \<Longrightarrow> ring s i = ring s j \<Longrightarrow> i = j"
  unfolding ring_def by (metis mod_shift_inj nle_le)

lemma frag_slot_ring: "pm_frags_idx (fc_map s ! m) = ring s j \<Longrightarrow> frag_slot s m no = ring s (j + no)"
  by (simp add: frag_slot_def ring_def mod_add_left_eq add.assoc)

lemma frag_slot_less: "ring_wf s \<Longrightarrow> frag_slot s m no < length (fc_frags s)"
  unfolding frag_slot_def ring_wf_def by (metis mod_less_divisor not_less_zero neq0_conv)

lemma frag_slot_inj:
  assumes "ring_wf s" "live s m" "no < pm_fragment_count (fc_map s ! m)" "no' < pm_fragment_count (fc_map s ! m)"
    "frag_slot s m no = frag_slot s m no'"
  shows "no = no'"
proof -
  obtain j where j: "pm_frags_idx (fc_map s ! m) = ring s j" "j + pm_fragment_count (fc_map s ! m) \<le> length (fc_frags s)"
    using assms(1,2) unfolding ring_wf_def entry_place_def by blast
  then have "ring s (j + no) = ring s (j + no')" using assms(5) by (simp add: frag_slot_ring)
  then have "j + no = j + no'" by (rule ring_inj [rotated 2]) (use j(2) assms(3,4) in auto)
  then show ?thesis by simp
qed

lemma live_small: "ring_wf s \<Longrightarrow> live s m \<Longrightarrow> m \<noteq> U32_MAX"
  by (auto simp: ring_wf_def live_def)

lemma slot_owner:
  "ring_wf s \<Longrightarrow> live s m \<Longrightarrow> no < pm_fragment_count (fc_map s ! m) \<Longrightarrow> fc_map_idx s ! frag_slot s m no = m"
  by (auto simp: ring_wf_def entry_place_def)

text \<open>Slots of different entries are different.\<close>

lemma slots_disjoint:
  assumes "ring_wf s" "live s m" "live s m'" "m \<noteq> m'"
    "no < pm_fragment_count (fc_map s ! m)" "no' < pm_fragment_count (fc_map s ! m')"
  shows "frag_slot s m no \<noteq> frag_slot s m' no'"
  using slot_owner [OF assms(1,2,5)] slot_owner [OF assms(1,3,6)] assms(4) by auto

text \<open>The front of the ring is the first slot of an entry.\<close>

lemma front_entry:
  assumes wf: "ring_wf s" "front_used s" and u: "fc_frags_unused_size s < length (fc_frags s)"
  defines "m \<equiv> fc_map_idx s ! ring s (fc_frags_unused_size s)"
  shows "live s m" "pm_frags_idx (fc_map s ! m) = ring s (fc_frags_unused_size s)"
proof -
  let ?u = "fc_frags_unused_size s"
  have "m \<noteq> U32_MAX" using wf(2) u by (simp add: front_used_def m_def)
  then obtain no where l: "live s m" and no: "no < pm_fragment_count (fc_map s ! m)" "ring s ?u = frag_slot s m no"
    using wf(1) ring_less [OF wf(1), of ?u] unfolding ring_wf_def m_def by blast
  obtain j where j: "pm_frags_idx (fc_map s ! m) = ring s j" "?u \<le> j" "j + pm_fragment_count (fc_map s ! m) \<le> length (fc_frags s)"
    using wf(1) l unfolding ring_wf_def entry_place_def by blast
  have "ring s ?u = ring s (j + no)" using no(2) j(1) by (simp add: frag_slot_ring)
  then have "?u = j + no" by (rule ring_inj [rotated 2]) (use u j(3) no(1) in auto)
  then have "j = ?u" using j(2) by simp
  with l j(1) show "live s m" "pm_frags_idx (fc_map s ! m) = ring s ?u" by simp_all
qed

section \<open>Removing an entry\<close>

lemma if_or_merge: "(if E then a else if A then a else x) = (if A \<or> E then a else x)"
  by simp

lemma clear_slots_works:
  assumes "distinct nos" "length (fc_map_idx s) = N" "length (fc_frags s) = N" "0 < N" "set nos \<subseteq> {..<64}"
    and "\<And>no no'. no \<in> set nos \<Longrightarrow> no' \<in> set nos \<Longrightarrow> (pm_frags_idx e + no) mod N = (pm_frags_idx e + no') mod N \<Longrightarrow> no = no'"
    and "\<And>no. no \<in> set nos \<Longrightarrow> DROP \<Longrightarrow> bit (pm_fragment_have e) no \<Longrightarrow> fc_frags s ! ((pm_frags_idx e + no) mod N) \<noteq> None"
  shows "\<exists>mi fr. clear_slots DROP e nos s = Some (s\<lparr>fc_map_idx := mi, fc_frags := fr\<rparr>) \<and> length mi = N \<and> length fr = N \<and>
    (\<forall>k < N. mi ! k = (if \<exists>no \<in> set nos. k = (pm_frags_idx e + no) mod N then U32_MAX else fc_map_idx s ! k) \<and>
      fr ! k = (if \<exists>no \<in> set nos. k = (pm_frags_idx e + no) mod N \<and> DROP \<and> bit (pm_fragment_have e) no
                then None else fc_frags s ! k))"
  using assms
proof (induction nos arbitrary: s)
  case Nil
  then show ?case by (intro exI [of _ "fc_map_idx s"] exI [of _ "fc_frags s"]) simp
next
  case (Cons a nos)
  let ?k = "(pm_frags_idx e + a) mod N"
  define fr where "fr = (if DROP \<and> bit (pm_fragment_have e) a then (fc_frags s)[?k := None] else fc_frags s)"
  let ?s = "s\<lparr>fc_map_idx := (fc_map_idx s)[?k := U32_MAX], fc_frags := fr\<rparr>"
  have k: "?k < N" and len: "length fr = N" using Cons.prems(3,4) by (simp_all add: fr_def)
  have frk: "fr ! k = (if k = ?k \<and> DROP \<and> bit (pm_fragment_have e) a then None else fc_frags s ! k)" if "k < N" for k
    using that k Cons.prems(3) by (simp add: fr_def nth_list_update)
  have "0 < pm_fragment_have e AND wrapping_shl 1 (word_of_nat a) \<longleftrightarrow> bit (pm_fragment_have e) a"
    using shl_and_zero [of a "pm_fragment_have e"] Cons.prems(5) by (simp add: word_gt_0 and.commute)
  then have step: "clear_slots DROP e (a # nos) s = clear_slots DROP e nos ?s"
    using k Cons.prems(2,3,7) by (auto simp: Let_def fr_def)
  have other: "(pm_frags_idx e + no) mod N \<noteq> ?k" if "no \<in> set nos" for no
    using Cons.prems(1,6) that by auto
  have "\<exists>mi fr'. clear_slots DROP e nos ?s = Some (?s\<lparr>fc_map_idx := mi, fc_frags := fr'\<rparr>) \<and> length mi = N \<and> length fr' = N \<and>
    (\<forall>k < N. mi ! k = (if \<exists>no \<in> set nos. k = (pm_frags_idx e + no) mod N then U32_MAX else fc_map_idx ?s ! k) \<and>
      fr' ! k = (if \<exists>no \<in> set nos. k = (pm_frags_idx e + no) mod N \<and> DROP \<and> bit (pm_fragment_have e) no
                then None else fc_frags ?s ! k))"
  proof (rule Cons.IH)
    show "fc_frags ?s ! ((pm_frags_idx e + no) mod N) \<noteq> None"
      if "no \<in> set nos" "DROP" "bit (pm_fragment_have e) no" for no
      using Cons.prems(7) [of no] that other [OF that(1)] frk Cons.prems(4) by simp
  qed (use Cons.prems len in auto)
  moreover have sel: "fc_frags ?s = fr" "fc_map_idx ?s = (fc_map_idx s)[?k := U32_MAX]"
    "\<And>mi fr'. ?s\<lparr>fc_map_idx := mi, fc_frags := fr'\<rparr> = s\<lparr>fc_map_idx := mi, fc_frags := fr'\<rparr>" by simp_all
  ultimately obtain mi fr' where r: "clear_slots DROP e nos ?s = Some (s\<lparr>fc_map_idx := mi, fc_frags := fr'\<rparr>)"
    "length mi = N" "length fr' = N"
    "\<And>k. k < N \<Longrightarrow> mi ! k = (if \<exists>no \<in> set nos. k = (pm_frags_idx e + no) mod N then U32_MAX else (fc_map_idx s)[?k := U32_MAX] ! k)"
    "\<And>k. k < N \<Longrightarrow> fr' ! k = (if \<exists>no \<in> set nos. k = (pm_frags_idx e + no) mod N \<and> DROP \<and> bit (pm_fragment_have e) no
      then None else fr ! k)" unfolding sel by blast
  have "mi ! k = (if \<exists>no \<in> set (a # nos). k = (pm_frags_idx e + no) mod N then U32_MAX else fc_map_idx s ! k)" if "k < N" for k
    unfolding r(4) [OF that] using that Cons.prems(2) by (simp add: nth_list_update)
  moreover have "fr' ! k = (if \<exists>no \<in> set (a # nos). k = (pm_frags_idx e + no) mod N \<and> DROP \<and> bit (pm_fragment_have e) no
      then None else fc_frags s ! k)" if "k < N" for k
    unfolding r(5) [OF that] frk [OF that] list.set bex_simps(5) by (rule if_or_merge)
  ultimately show ?case using r(1,2,3) step by (intro exI [of _ mi] exI [of _ fr']) simp
qed


text \<open>What remains after an entry has been taken out of the table, before the front of the ring moves.\<close>

lemma ring_wf_remove:
  assumes wf: "ring_wf s" and l: "live s idx"
    and s': "fc_frags_first_unused s' = fc_frags_first_unused s" "fc_frags_unused_size s' = fc_frags_unused_size s"
      "fc_map s' = (fc_map s)[idx := empty_metadata]" "length (fc_frags s') = length (fc_frags s)"
      "length (fc_map_idx s') = length (fc_frags s)"
    and mi: "\<And>k. k < length (fc_frags s) \<Longrightarrow> fc_map_idx s' ! k = (if fc_map_idx s ! k = idx then U32_MAX else fc_map_idx s ! k)"
    and fr: "\<And>k. k < length (fc_frags s) \<Longrightarrow> fc_frags s' ! k = (if fc_map_idx s ! k = idx then None else fc_frags s ! k)"
  shows "ring_wf s'" and "\<And>m. live s' m \<longleftrightarrow> live s m \<and> m \<noteq> idx"
    and "\<And>m. live s' m \<Longrightarrow> entry_data s m \<Longrightarrow> entry_data s' m"
proof -
  let ?N = "length (fc_frags s)"
  have idx: "idx < length (fc_map s)" using l by (simp add: live_def)
  show live: "live s' m \<longleftrightarrow> live s m \<and> m \<noteq> idx" for m
    using idx s'(3) by (auto simp: live_def nth_list_update empty_metadata_def)
  have map: "fc_map s' ! m = fc_map s ! m" if "m \<noteq> idx" for m using s'(3) that by simp
  have slot: "frag_slot s' m no = frag_slot s m no" if "m \<noteq> idx" for m no
    using map [OF that] s'(4) by (simp add: frag_slot_def)
  have ring: "ring s' j = ring s j" for j using s'(1,4) by (simp add: ring_def)
  have own: "fc_map_idx s ! frag_slot s m no = m" "frag_slot s m no < ?N"
    if "live s m" "no < pm_fragment_count (fc_map s ! m)" for m no
    using slot_owner [OF wf that] frag_slot_less [OF wf] by auto
  show "entry_data s' m" if m: "live s' m" "entry_data s m" for m
  proof -
    have "m \<noteq> idx" "live s m" using m(1) live by auto
    then have "fc_frags s' ! frag_slot s' m no = fc_frags s ! frag_slot s m no" if "no < pm_fragment_count (fc_map s ! m)" for no
      using own [of m no] that fr [of "frag_slot s m no"] slot by simp
    with m(2) map [OF \<open>m \<noteq> idx\<close>] show ?thesis unfolding entry_data_def by simp
  qed
  have place: "entry_place s' m" if "live s' m" for m
  proof -
    have m: "m \<noteq> idx" "live s m" using that live by auto
    then have p: "entry_place s m" using wf by (simp add: ring_wf_def)
    have "fc_map_idx s' ! frag_slot s' m no = m" if "no < pm_fragment_count (fc_map s ! m)" for no
      using own [OF m(2) that] mi [of "frag_slot s m no"] slot m by simp
    with p show ?thesis unfolding entry_place_def map [OF m(1)] ring s'(2,4) by blast
  qed
  have owned: "live s' (fc_map_idx s' ! k) \<and> (\<exists>no < pm_fragment_count (fc_map s' ! (fc_map_idx s' ! k)). k = frag_slot s' (fc_map_idx s' ! k) no)"
    if k: "k < ?N" "fc_map_idx s' ! k \<noteq> U32_MAX" for k
  proof -
    have eq: "fc_map_idx s' ! k = fc_map_idx s ! k" "fc_map_idx s ! k \<noteq> idx" using mi [OF k(1)] k(2) by (auto split: if_splits)
    then have "fc_map_idx s ! k \<noteq> U32_MAX" using k(2) by simp
    then have "live s (fc_map_idx s ! k)" "\<exists>no < pm_fragment_count (fc_map s ! (fc_map_idx s ! k)). k = frag_slot s (fc_map_idx s ! k) no"
      using wf k(1) unfolding ring_wf_def by blast+
    then show ?thesis using eq live slot map by simp
  qed
  have leak: "fc_map_idx s' ! k \<noteq> U32_MAX" if k: "k < ?N" "fc_frags s' ! k \<noteq> None" for k
  proof -
    have "fc_map_idx s ! k \<noteq> idx" "fc_frags s ! k \<noteq> None" using fr [OF k(1)] k(2) by (auto split: if_splits)
    then show ?thesis using mi [OF k(1)] wf k(1) unfolding ring_wf_def by auto
  qed
  show "ring_wf s'"
    using wf place owned leak s' unfolding ring_wf_def by simp
qed

text \<open>Moving the front past the empty slots.\<close>

lemma skip_empty_works:
  assumes "ring_wf s"
  shows "\<exists>u. skip_empty s = s\<lparr>fc_frags_unused_size := u\<rparr> \<and> fc_frags_unused_size s \<le> u \<and> u \<le> length (fc_frags s) \<and>
    (\<forall>j. fc_frags_unused_size s \<le> j \<and> j < u \<longrightarrow> fc_map_idx s ! ring s j = U32_MAX) \<and>
    (u < length (fc_frags s) \<longrightarrow> fc_map_idx s ! ring s u \<noteq> U32_MAX)"
proof -
  have "fc_frags_unused_size s \<le> length (fc_frags s)" using assms by (simp add: ring_wf_def)
  then show ?thesis
  proof (induction s rule: skip_empty.induct)
    case (1 s)
    let ?u = "fc_frags_unused_size s" and ?s = "s\<lparr>fc_frags_unused_size := fc_frags_unused_size s + 1\<rparr>"
    show ?case
    proof (cases "?u < length (fc_frags s) \<and> fc_map_idx s ! ring s ?u = U32_MAX")
      case True
      then obtain u where u: "skip_empty ?s = ?s\<lparr>fc_frags_unused_size := u\<rparr>" "?u + 1 \<le> u" "u \<le> length (fc_frags s)"
        "\<forall>j. ?u + 1 \<le> j \<and> j < u \<longrightarrow> fc_map_idx s ! ring s j = U32_MAX"
        "u < length (fc_frags s) \<longrightarrow> fc_map_idx s ! ring s u \<noteq> U32_MAX"
        using "1.IH" by (auto simp: ring_def)
      have "skip_empty s = s\<lparr>fc_frags_unused_size := u\<rparr>"
        using True u(1) by (subst skip_empty.simps) (simp add: ring_def)
      moreover have "\<forall>j. ?u \<le> j \<and> j < u \<longrightarrow> fc_map_idx s ! ring s j = U32_MAX"
        using u(4) True by (metis Suc_eq_plus1 le_antisym not_less_eq_eq)
      ultimately show ?thesis using u by (intro exI [of _ u]) simp
    next
      case False
      then have "skip_empty s = s" by (subst skip_empty.simps) (auto simp: ring_def)
      then show ?thesis using False "1.prems" by (intro exI [of _ ?u]) auto
    qed
  qed
qed

lemma unused_size_wf:
  assumes wf: "ring_wf s" and u: "fc_frags_unused_size s \<le> u" "u \<le> length (fc_frags s)"
    "\<And>j. fc_frags_unused_size s \<le> j \<Longrightarrow> j < u \<Longrightarrow> fc_map_idx s ! ring s j = U32_MAX"
  defines "s' \<equiv> s\<lparr>fc_frags_unused_size := u\<rparr>"
  shows "ring_wf s'" and "live s' = live s" and "entry_data s' = entry_data s"
proof -
  have simps: "live s' = live s" "ring s' = ring s" "frag_slot s' = frag_slot s" "fc_map s' = fc_map s" "fc_map_idx s' = fc_map_idx s"
    "fc_frags s' = fc_frags s" "fc_frags_unused_size s' = u" "fc_frags_first_unused s' = fc_frags_first_unused s"
    by (auto simp: s'_def live_def ring_def frag_slot_def fun_eq_iff)
  show "live s' = live s" "entry_data s' = entry_data s" by (simp_all add: simps entry_data_def fun_eq_iff)
  have "entry_place s' m" if m: "live s m" for m
  proof -
    have p: "entry_place s m" using wf m by (simp add: ring_wf_def)
    then obtain j where j: "pm_frags_idx (fc_map s ! m) = ring s j" "fc_frags_unused_size s \<le> j"
      "j + pm_fragment_count (fc_map s ! m) \<le> length (fc_frags s)" and c: "0 < pm_fragment_count (fc_map s ! m)"
      unfolding entry_place_def by blast
    have "fc_map_idx s ! ring s j = m" using slot_owner [OF wf m c] frag_slot_ring [OF j(1), of 0] by simp
    then have "u \<le> j" using u(3) [OF j(2)] live_small [OF wf m] by (metis not_less)
    with p j show ?thesis unfolding entry_place_def simps by blast
  qed
  then show "ring_wf s'" using wf u(2) unfolding ring_wf_def simps by simp
qed


text \<open>Removing a live entry; \<open>DROP\<close> tells whether its fragments are still in its slots.\<close>

lemma invalidate_works:
  assumes wf: "ring_wf s" "front_used s" and l: "live s idx" and others: "\<And>m. live s m \<Longrightarrow> m \<noteq> idx \<Longrightarrow> entry_data s m"
    and own: "\<And>no. no < pm_fragment_count (fc_map s ! idx) \<Longrightarrow>
      (if DROP then fc_frags s ! frag_slot s idx no \<noteq> None \<longleftrightarrow> bit (pm_fragment_have (fc_map s ! idx)) no
       else fc_frags s ! frag_slot s idx no = None)"
  shows "\<exists>s'. invalidate DROP idx s = Some s' \<and> cache_wf s' \<and> fc_map s' = (fc_map s)[idx := empty_metadata] \<and>
    length (fc_frags s') = length (fc_frags s) \<and> fc_frags_unused_size s \<le> fc_frags_unused_size s' \<and>
    (\<forall>k < length (fc_frags s). fc_frags s' ! k = None \<or> fc_frags s' ! k = fc_frags s ! k) \<and>
    (pm_frags_idx (fc_map s ! idx) = ring s (fc_frags_unused_size s) \<and> fc_frags_unused_size s < length (fc_frags s) \<longrightarrow>
       fc_frags_unused_size s < fc_frags_unused_size s')"
proof -
  let ?e = "fc_map s ! idx" and ?N = "length (fc_frags s)"
  let ?c = "pm_fragment_count ?e"
  have idx: "idx < length (fc_map s)" using l by (simp add: live_def)
  have c: "?c \<le> 48" "0 < ?c" using wf(1) l by (auto simp: ring_wf_def entry_place_def zssp_sizes)
  have slot: "(pm_frags_idx ?e + no) mod ?N = frag_slot s idx no" for no by (simp add: frag_slot_def)
  have N: "0 < ?N" "length (fc_map_idx s) = ?N" using wf(1) by (auto simp: ring_wf_def)
  have "\<exists>mi fr. clear_slots DROP ?e [0..<?c] s = Some (s\<lparr>fc_map_idx := mi, fc_frags := fr\<rparr>) \<and> length mi = ?N \<and> length fr = ?N \<and>
    (\<forall>k < ?N. mi ! k = (if \<exists>no \<in> set [0..<?c]. k = (pm_frags_idx ?e + no) mod ?N then U32_MAX else fc_map_idx s ! k) \<and>
      fr ! k = (if \<exists>no \<in> set [0..<?c]. k = (pm_frags_idx ?e + no) mod ?N \<and> DROP \<and> bit (pm_fragment_have ?e) no
                then None else fc_frags s ! k))"
  proof (rule clear_slots_works)
    show "no = no'" if "no \<in> set [0..<?c]" "no' \<in> set [0..<?c]" "(pm_frags_idx ?e + no) mod ?N = (pm_frags_idx ?e + no') mod ?N" for no no'
      using frag_slot_inj [OF wf(1) l, of no no'] that unfolding slot by simp
    show "fc_frags s ! ((pm_frags_idx ?e + no) mod ?N) \<noteq> None"
      if "no \<in> set [0..<?c]" "DROP" "bit (pm_fragment_have ?e) no" for no
      using own [of no] that unfolding slot by simp
  qed (use N c in auto)
  then obtain mi fr where cl: "clear_slots DROP ?e [0..<?c] s = Some (s\<lparr>fc_map_idx := mi, fc_frags := fr\<rparr>)" "length mi = ?N" "length fr = ?N"
    and mi: "\<And>k. k < ?N \<Longrightarrow> mi ! k = (if \<exists>no \<in> {0..<?c}. k = frag_slot s idx no then U32_MAX else fc_map_idx s ! k)"
    and fr: "\<And>k. k < ?N \<Longrightarrow> fr ! k = (if \<exists>no \<in> {0..<?c}. k = frag_slot s idx no \<and> DROP \<and> bit (pm_fragment_have ?e) no then None else fc_frags s ! k)"
    unfolding slot set_upt by blast
  have ex: "(\<exists>no \<in> {0..<?c}. k = frag_slot s idx no) \<longleftrightarrow> fc_map_idx s ! k = idx" if "k < ?N" for k
  proof
    assume "fc_map_idx s ! k = idx"
    then show "\<exists>no \<in> {0..<?c}. k = frag_slot s idx no"
      using wf(1) that live_small [OF wf(1) l] unfolding ring_wf_def by (metis atLeastLessThan_iff zero_le)
  qed (use slot_owner [OF wf(1) l] in auto)
  let ?s = "s\<lparr>fc_map_idx := mi, fc_frags := fr, fc_map := (fc_map s)[idx := empty_metadata]\<rparr>"
  have fr2: "fr ! k = (if fc_map_idx s ! k = idx then None else fc_frags s ! k)" if k: "k < ?N" for k
  proof (cases "fc_map_idx s ! k = idx")
    case True
    then obtain no where no: "no < ?c" "k = frag_slot s idx no" using ex [OF k] by auto
    show ?thesis
    proof (cases "DROP \<and> bit (pm_fragment_have ?e) no")
      case False
      then have "fc_frags s ! k = None" using own [OF no(1)] no(2) by (auto split: if_splits)
      then show ?thesis using True fr [OF k] by simp
    qed (use fr [OF k] no True in auto)
  next
    case False
    then have "\<not> (\<exists>no \<in> {0..<?c}. k = frag_slot s idx no \<and> DROP \<and> bit (pm_fragment_have ?e) no)" using ex [OF k] by blast
    then have "fr ! k = fc_frags s ! k" unfolding fr [OF k] by (simp only: if_False)
    then show ?thesis using False by simp
  qed
  note rw = ring_wf_remove [OF wf(1) l, of ?s]
  have mi2: "mi ! k = (if fc_map_idx s ! k = idx then U32_MAX else fc_map_idx s ! k)" if "k < ?N" for k
    using mi [OF that] ex [OF that] by simp
  have w: "ring_wf ?s" "\<And>m. live ?s m \<longleftrightarrow> live s m \<and> m \<noteq> idx" "\<And>m. live ?s m \<Longrightarrow> entry_data s m \<Longrightarrow> entry_data ?s m"
    using rw cl(2,3) mi2 fr2 by simp_all
  have data: "entry_data ?s m" if "live ?s m" for m using w(2,3) that others by blast
  have frs: "\<forall>k < ?N. fr ! k = None \<or> fr ! k = fc_frags s ! k" using fr2 by auto
  have inv: "invalidate DROP idx s = Some (if ring s (fc_frags_unused_size s) = pm_frags_idx ?e then skip_empty ?s else ?s)"
    using idx cl by (simp add: invalidate_def Let_def ring_def)
  show ?thesis
  proof (cases "ring s (fc_frags_unused_size s) = pm_frags_idx ?e")
    case True
    obtain u where u: "skip_empty ?s = ?s\<lparr>fc_frags_unused_size := u\<rparr>" "fc_frags_unused_size s \<le> u" "u \<le> ?N"
      "\<And>j. fc_frags_unused_size s \<le> j \<Longrightarrow> j < u \<Longrightarrow> mi ! ring ?s j = U32_MAX" "u < ?N \<Longrightarrow> mi ! ring ?s u \<noteq> U32_MAX"
      using skip_empty_works [OF w(1)] cl(2,3) by auto
    let ?t = "?s\<lparr>fc_frags_unused_size := u\<rparr>"
    have uw: "ring_wf ?t" "live ?t = live ?s" "entry_data ?t = entry_data ?s"
      using unused_size_wf [OF w(1), of u] u cl by simp_all
    have "cache_wf ?t" using uw data u(5) cl by (simp add: cache_wf_def front_used_def ring_def)
    moreover have "fc_frags_unused_size s < u" if "fc_frags_unused_size s < ?N"
    proof (rule ccontr)
      assume "\<not> fc_frags_unused_size s < u"
      then have "u = fc_frags_unused_size s" using u(2) by simp
      moreover have "ring s u = frag_slot s idx 0" using frag_slot_ring [OF True [symmetric], of 0] calculation by simp
      ultimately have "mi ! ring s u = U32_MAX" using mi2 slot_owner [OF wf(1) l c(2)] ring_less [OF wf(1), of u] by simp
      then show False using u(5) that \<open>u = fc_frags_unused_size s\<close> cl(3) by (simp add: ring_def)
    qed
    ultimately show ?thesis using inv True u cl(3) frs by auto
  next
    case False
    have "front_used ?s"
      unfolding front_used_def
    proof
      assume "fc_frags_unused_size ?s < length (fc_frags ?s)"
      then have n: "fc_frags_unused_size s < ?N" using cl(3) by simp
      have "fc_map_idx s ! ring s (fc_frags_unused_size s) \<noteq> idx" using front_entry(2) [OF wf n] False by auto
      then show "fc_map_idx ?s ! ring ?s (fc_frags_unused_size ?s) \<noteq> U32_MAX"
        using mi2 [OF ring_less [OF wf(1)]] wf(2) n cl(3) by (simp add: front_used_def ring_def)
    qed
    then have "cache_wf ?s" using w(1) data by (simp add: cache_wf_def)
    then show ?thesis using inv False cl(3) frs by auto
  qed
qed


text \<open>What removals leave: fewer entries and fewer fragments, each in its place.\<close>

definition shrunk :: "'f frag_cache \<Rightarrow> 'f frag_cache \<Rightarrow> bool" where
  "shrunk s s' \<longleftrightarrow> length (fc_map s') = length (fc_map s) \<and> length (fc_frags s') = length (fc_frags s) \<and>
     (\<forall>m < length (fc_map s). fc_map s' ! m = fc_map s ! m \<or> fc_map s' ! m = empty_metadata) \<and>
     (\<forall>k < length (fc_frags s). fc_frags s' ! k = None \<or> fc_frags s' ! k = fc_frags s ! k)"

lemma shrunk_refl [simp]: "shrunk s s"
  by (simp add: shrunk_def)

lemma shrunk_trans: "shrunk s1 s2 \<Longrightarrow> shrunk s2 s3 \<Longrightarrow> shrunk s1 s3"
  unfolding shrunk_def by metis

lemma invalidate_drop:
  assumes "cache_wf s" "live s idx"
  shows "\<exists>s'. invalidate True idx s = Some s' \<and> cache_wf s' \<and> shrunk s s' \<and> fc_map s' = (fc_map s)[idx := empty_metadata] \<and>
    (pm_frags_idx (fc_map s ! idx) = ring s (fc_frags_unused_size s) \<and> fc_frags_unused_size s < length (fc_frags s) \<longrightarrow>
       fc_frags_unused_size s < fc_frags_unused_size s')"
proof -
  have "entry_data s idx" using assms by (simp add: cache_wf_def)
  then have own: "(if True then fc_frags s ! frag_slot s idx no \<noteq> None \<longleftrightarrow> bit (pm_fragment_have (fc_map s ! idx)) no
       else fc_frags s ! frag_slot s idx no = None)" if "no < pm_fragment_count (fc_map s ! idx)" for no
    using that by (simp add: entry_data_def)
  have w: "ring_wf s" "front_used s" "\<And>m. live s m \<Longrightarrow> m \<noteq> idx \<Longrightarrow> entry_data s m" using assms(1) by (auto simp: cache_wf_def)
  obtain s' where s': "invalidate True idx s = Some s'" "cache_wf s'" "fc_map s' = (fc_map s)[idx := empty_metadata]"
    "length (fc_frags s') = length (fc_frags s)" "\<forall>k < length (fc_frags s). fc_frags s' ! k = None \<or> fc_frags s' ! k = fc_frags s ! k"
    "pm_frags_idx (fc_map s ! idx) = ring s (fc_frags_unused_size s) \<and> fc_frags_unused_size s < length (fc_frags s) \<longrightarrow>
       fc_frags_unused_size s < fc_frags_unused_size s'"
    using invalidate_works [OF w(1,2) assms(2) w(3) own] by blast
  have "shrunk s s'" using s'(3,4,5) assms(2) by (auto simp: shrunk_def nth_list_update live_def)
  with s' show ?thesis by blast
qed

text \<open>The expiry loop ends, since each round frees the front of the ring.\<close>

lemma check_for_expiry_inner_works:
  assumes "cache_wf s"
  shows "\<exists>t s'. check_for_expiry_inner timeout now s = Some (t, s') \<and> cache_wf s' \<and> shrunk s s' \<and> (now < t \<or> t = I64_MAX)"
  using assms
proof (induction "length (fc_frags s) - fc_frags_unused_size s" arbitrary: s rule: less_induct)
  case less
  let ?u = "fc_frags_unused_size s" and ?m = "fc_map_idx s ! ring s (fc_frags_unused_size s)"
  show ?case
  proof (cases "?u < length (fc_frags s)")
    case True
    have w: "ring_wf s" "front_used s" using less.prems by (simp_all add: cache_wf_def)
    have f: "live s ?m" "pm_frags_idx (fc_map s ! ?m) = ring s ?u" using front_entry [OF w True] by simp_all
    have m: "?m < length (fc_map s)" using f(1) by (simp add: live_def)
    let ?x = "i64_add (pm_creation_time (fc_map s ! ?m)) timeout"
    show ?thesis
    proof (cases "?x \<le> now")
      case x: True
      obtain s1 where s1: "invalidate True ?m s = Some s1" "cache_wf s1" "shrunk s s1" "?u < fc_frags_unused_size s1"
        using invalidate_drop [OF less.prems f(1)] f(2) True by blast
      have "length (fc_frags s1) - fc_frags_unused_size s1 < length (fc_frags s) - ?u"
        using s1 True by (simp add: shrunk_def)
      from less.hyps [OF this s1(2)] obtain t s' where r: "check_for_expiry_inner timeout now s1 = Some (t, s')" "cache_wf s'"
        "shrunk s1 s'" "now < t \<or> t = I64_MAX" by blast
      have "check_for_expiry_inner timeout now s = Some (t, s')"
        using True m x s1(1) r(1) by (subst check_for_expiry_inner.simps) (simp add: ring_def Let_def)
      then show ?thesis using r shrunk_trans [OF s1(3)] by blast
    next
      case False
      then have "check_for_expiry_inner timeout now s = Some (?x, s)"
        using True m by (subst check_for_expiry_inner.simps) (simp add: ring_def Let_def)
      then show ?thesis using less.prems False by auto
    qed
  next
    case False
    then have "check_for_expiry_inner timeout now s = Some (I64_MAX, s)" by (subst check_for_expiry_inner.simps) simp
    then show ?thesis using less.prems by auto
  qed
qed

end
