(* ===== verification/Frag_Cache_Laws.thy ===== *)
theory Frag_Cache_Laws
  imports Frag_Cache
begin

text \<open>
  The laws of the fragment cache: what adding an entry, storing a fragment and handing a packet
  out do to the invariant, and the states that any sequence of calls reaches. The main results
  are that no call has undefined behaviour and that fragments of different packets are never
  mixed.
\<close>

unbundle bit_operations_syntax

section \<open>Adding an entry\<close>

lemma alloc_slots_works:
  assumes "length (fc_map_idx s) = N" "length (fc_frags s) = N" "fc_frags_first_unused s < N" "n \<le> fc_frags_unused_size s"
    "fc_frags_unused_size s \<le> N"
  shows "\<exists>mi. alloc_slots n idx s = s\<lparr>fc_map_idx := mi, fc_frags_first_unused := ring s n, fc_frags_unused_size := fc_frags_unused_size s - n\<rparr> \<and>
    length mi = N \<and> (\<forall>k < N. mi ! k = (if \<exists>j < n. k = ring s j then idx else fc_map_idx s ! k))"
  using assms
proof (induction n arbitrary: s)
  case 0
  then show ?case by (intro exI [of _ "fc_map_idx s"]) (simp add: ring_def)
next
  case (Suc n)
  let ?s = "s\<lparr>fc_map_idx := (fc_map_idx s)[fc_frags_first_unused s := idx],
             fc_frags_first_unused := (fc_frags_first_unused s + 1) mod length (fc_frags s),
             fc_frags_unused_size := fc_frags_unused_size s - 1\<rparr>"
  have ring: "ring ?s j = ring s (Suc j)" for j using Suc.prems(2) by (simp add: ring_def mod_add_left_eq)
  have "\<exists>mi. alloc_slots n idx ?s = ?s\<lparr>fc_map_idx := mi, fc_frags_first_unused := ring ?s n, fc_frags_unused_size := fc_frags_unused_size ?s - n\<rparr> \<and>
    length mi = N \<and> (\<forall>k < N. mi ! k = (if \<exists>j < n. k = ring ?s j then idx else fc_map_idx ?s ! k))"
    by (rule Suc.IH) (use Suc.prems in auto)
  moreover have sel: "fc_map_idx ?s = (fc_map_idx s)[fc_frags_first_unused s := idx]" "fc_frags_unused_size ?s - n = fc_frags_unused_size s - Suc n"
    "\<And>mi f u. ?s\<lparr>fc_map_idx := mi, fc_frags_first_unused := f, fc_frags_unused_size := u\<rparr> =
      s\<lparr>fc_map_idx := mi, fc_frags_first_unused := f, fc_frags_unused_size := u\<rparr>" by simp_all
  ultimately obtain mi where mi: "alloc_slots n idx ?s = s\<lparr>fc_map_idx := mi, fc_frags_first_unused := ring s (Suc n), fc_frags_unused_size := fc_frags_unused_size s - Suc n\<rparr>"
    "length mi = N" "\<And>k. k < N \<Longrightarrow> mi ! k = (if \<exists>j < n. k = ring s (Suc j) then idx else (fc_map_idx s)[fc_frags_first_unused s := idx] ! k)"
    unfolding ring sel by blast
  have zero: "ring s 0 = fc_frags_first_unused s" using Suc.prems(2,3) by (simp add: ring_def)
  have "mi ! k = (if \<exists>j < Suc n. k = ring s j then idx else fc_map_idx s ! k)" if "k < N" for k
  proof -
    have "(fc_map_idx s)[fc_frags_first_unused s := idx] ! k = (if k = fc_frags_first_unused s then idx else fc_map_idx s ! k)"
      using that Suc.prems(1) by (simp add: nth_list_update)
    then show ?thesis unfolding mi(3) [OF that] Ex_less_Suc2 zero by (simp only: if_or_merge)
  qed
  then show ?case using mi(1,2) by (intro exI [of _ mi]) simp
qed


text \<open>The unused slots belong to no entry and are empty.\<close>

lemma unused_free:
  assumes wf: "ring_wf s" and j: "j < fc_frags_unused_size s"
  shows "fc_map_idx s ! ring s j = U32_MAX" "fc_frags s ! ring s j = None"
proof -
  show m: "fc_map_idx s ! ring s j = U32_MAX"
  proof (rule ccontr)
    let ?m = "fc_map_idx s ! ring s j"
    assume "?m \<noteq> U32_MAX"
    then obtain no where l: "live s ?m" "no < pm_fragment_count (fc_map s ! ?m)" "ring s j = frag_slot s ?m no"
      using wf ring_less [OF wf, of j] unfolding ring_wf_def by blast
    obtain i where i: "pm_frags_idx (fc_map s ! ?m) = ring s i" "fc_frags_unused_size s \<le> i"
      "i + pm_fragment_count (fc_map s ! ?m) \<le> length (fc_frags s)"
      using wf l(1) unfolding ring_wf_def entry_place_def by blast
    have "ring s j = ring s (i + no)" using l(3) frag_slot_ring [OF i(1)] by simp
    then have "j = i + no" by (rule ring_inj [rotated 2]) (use i j l(2) in auto)
    then show False using i(2) j by simp
  qed
  show "fc_frags s ! ring s j = None" using m wf ring_less [OF wf, of j] unfolding ring_wf_def by blast
qed

lemma cache_init_works:
  assumes wf: "cache_wf s" and idx: "idx < length (fc_map s)" "\<not> live s idx" and c: "0 < c" "c \<le> MAX_FRAGMENTS" "c \<le> fc_frags_unused_size s"
    and key: "key \<noteq> 0"
  shows "\<exists>s'. cache_init key c now idx s = Some s' \<and> cache_wf s' \<and> live s' idx \<and> fc_frags s' = fc_frags s \<and>
    fc_map s' = (fc_map s)[idx := \<lparr>pm_key = key, pm_frags_idx = fc_frags_first_unused s, pm_fragment_have = 0,
      pm_fragment_count = c, pm_packet_size = 0, pm_creation_time = now\<rparr>]"
proof -
  let ?N = "length (fc_frags s)" and ?u = "fc_frags_unused_size s"
  let ?e = "\<lparr>pm_key = key, pm_frags_idx = fc_frags_first_unused s, pm_fragment_have = 0, pm_fragment_count = c, pm_packet_size = 0, pm_creation_time = now\<rparr>"
  have w: "ring_wf s" "front_used s" "\<And>m. live s m \<Longrightarrow> entry_data s m" using wf by (auto simp: cache_wf_def)
  have N: "length (fc_map_idx s) = ?N" "fc_frags_first_unused s < ?N" "?u \<le> ?N" using w(1) by (simp_all add: ring_wf_def)
  let ?t = "s\<lparr>fc_map := (fc_map s)[idx := ?e]\<rparr>"
  have "\<exists>mi. alloc_slots c idx ?t = ?t\<lparr>fc_map_idx := mi, fc_frags_first_unused := ring ?t c, fc_frags_unused_size := fc_frags_unused_size ?t - c\<rparr> \<and>
    length mi = ?N \<and> (\<forall>k < ?N. mi ! k = (if \<exists>j < c. k = ring ?t j then idx else fc_map_idx ?t ! k))"
    by (rule alloc_slots_works) (use N c in auto)
  moreover have rt: "ring ?t = ring s" "fc_map_idx ?t = fc_map_idx s" "fc_frags_unused_size ?t = ?u" by (auto simp: ring_def fun_eq_iff)
  ultimately obtain mi where al: "alloc_slots c idx ?t = ?t\<lparr>fc_map_idx := mi, fc_frags_first_unused := ring s c, fc_frags_unused_size := ?u - c\<rparr>"
    "length mi = ?N" and mi: "\<And>k. k < ?N \<Longrightarrow> mi ! k = (if \<exists>j < c. k = ring s j then idx else fc_map_idx s ! k)"
    unfolding rt by blast
  define s' where "s' = ?t\<lparr>fc_map_idx := mi, fc_frags_first_unused := ring s c, fc_frags_unused_size := ?u - c\<rparr>"
  have smap: "fc_map s' = (fc_map s)[idx := ?e]" and sel: "fc_map_idx s' = mi" "fc_frags s' = fc_frags s"
    "fc_frags_first_unused s' = ring s c" "fc_frags_unused_size s' = ?u - c" by (simp_all add: s'_def)
  have ring: "ring s' j = ring s (c + j)" for j by (simp add: ring_def sel mod_add_left_eq add.assoc)
  have map: "fc_map s' ! m = (if m = idx then ?e else fc_map s ! m)" for m using idx(1) by (simp add: smap nth_list_update)
  have live: "live s' m \<longleftrightarrow> live s m \<or> m = idx" for m using idx key by (auto simp: live_def nth_list_update smap)
  have slot: "frag_slot s' m no = frag_slot s m no" if "m \<noteq> idx" for m no by (simp add: frag_slot_def map that sel)
  have slot0: "frag_slot s' idx no = ring s no" for no by (simp add: frag_slot_def map ring_def sel)
  have own: "mi ! frag_slot s m no = m" if m: "live s m" "no < pm_fragment_count (fc_map s ! m)" for m no
  proof -
    have "frag_slot s m no \<noteq> ring s j" if "j < c" for j
      using slot_owner [OF w(1) m] unused_free(1) [OF w(1), of j] that c(3) live_small [OF w(1) m(1)] by auto
    then show ?thesis using mi [OF frag_slot_less [OF w(1)], of m no] slot_owner [OF w(1) m] by metis
  qed
  have own0: "mi ! ring s j = idx" if "j < c" for j using mi [OF ring_less [OF w(1), of j]] that by auto
  have place: "entry_place s' m" if m: "live s' m" for m
  proof (cases "m = idx")
    case True
    have "pm_frags_idx (fc_map s' ! m) = ring s' (?N - c)"
      using True N c(3) by (simp add: map ring) (simp add: ring_def)
    then show ?thesis using True c N(3) own0 unfolding entry_place_def by (auto simp: map sel slot0 intro!: exI [of _ "?N - c"])
  next
    case False
    then have l: "live s m" using m live by simp
    then have p: "entry_place s m" using w(1) by (simp add: ring_wf_def)
    then obtain i where i: "pm_frags_idx (fc_map s ! m) = ring s i" "?u \<le> i" "i + pm_fragment_count (fc_map s ! m) \<le> ?N"
      unfolding entry_place_def by blast
    then have "pm_frags_idx (fc_map s' ! m) = ring s' (i - c)" using c(3) False by (simp add: map ring)
    then show ?thesis using p i c(3) own [OF l] False slot unfolding entry_place_def by (auto simp: map sel intro!: exI [of _ "i - c"])
  qed
  have owned: "live s' (mi ! k) \<and> (\<exists>no < pm_fragment_count (fc_map s' ! (mi ! k)). k = frag_slot s' (mi ! k) no)"
    if k: "k < ?N" "mi ! k \<noteq> U32_MAX" for k
  proof (cases "\<exists>j < c. k = ring s j")
    case True
    then show ?thesis using mi [OF k(1)] live slot0 map by auto
  next
    case False
    then have eq: "mi ! k = fc_map_idx s ! k" using mi [OF k(1)] by metis
    then have l: "live s (mi ! k)" "\<exists>no < pm_fragment_count (fc_map s ! (mi ! k)). k = frag_slot s (mi ! k) no"
      using w(1) k unfolding ring_wf_def by simp_all
    then have "mi ! k \<noteq> idx" using idx(2) by auto
    then show ?thesis using l live slot map by simp
  qed
  have leak: "mi ! k \<noteq> U32_MAX" if "k < ?N" "fc_frags s ! k \<noteq> None" for k
    using mi [OF that(1)] w(1) that idx(1) unfolding ring_wf_def by auto
  have rw: "ring_wf s'"
    using w(1) place owned leak al(2) ring_less [OF w(1), of c] c(3) N(3) unfolding ring_wf_def sel by (simp add: smap)
  have "entry_data s' m" if m: "live s' m" for m
  proof (cases "m = idx")
    case True
    then show ?thesis using c unused_free(2) [OF w(1)] unfolding entry_data_def by (auto simp: map slot0 sel)
  next
    case False
    then show ?thesis using w(3) [of m] m live slot map unfolding entry_data_def sel by simp
  qed
  moreover have "front_used s'"
    unfolding front_used_def sel
  proof
    assume "?u - c < ?N"
    show "mi ! ring s' (?u - c) \<noteq> U32_MAX"
    proof (cases "?u < ?N")
      case True
      have "mi ! ring s ?u = fc_map_idx s ! ring s ?u"
        using own [OF front_entry(1) [OF w(1,2) True], of 0] frag_slot_ring [OF front_entry(2) [OF w(1,2) True], of 0] front_entry(1) [OF w(1,2) True] w(1)
        by (auto simp: ring_wf_def entry_place_def)
      then show ?thesis using w(2) True c(3) by (simp add: ring front_used_def)
    next
      case False
      then have "ring s' (?u - c) = ring s 0" using N c(3) by (simp add: ring) (simp add: ring_def)
      then show ?thesis using own0 [OF c(1)] idx(1) w(1) by (auto simp: ring_wf_def)
    qed
  qed
  ultimately have "cache_wf s'" using rw by (simp add: cache_wf_def)
  moreover have "cache_init key c now idx s = Some s'" using c(3) al(1) by (simp add: cache_init_def s'_def)
  ultimately show ?thesis using live sel smap by auto
qed


section \<open>Storing a fragment\<close>

text \<open>Writing one fragment of an entry and setting its bit.\<close>

lemma write_slot_wf:
  fixes s :: "'f frag_cache" and f :: 'f
  assumes wf: "ring_wf s" "front_used s" and l: "live s idx" and no: "no < pm_fragment_count (fc_map s ! idx)"
    and e: "pm_key e = pm_key (fc_map s ! idx)" "pm_frags_idx e = pm_frags_idx (fc_map s ! idx)"
      "pm_fragment_count e = pm_fragment_count (fc_map s ! idx)"
  defines "s' \<equiv> s\<lparr>fc_map := (fc_map s)[idx := e], fc_frags := (fc_frags s)[frag_slot s idx no := Some f]\<rparr>"
  shows "ring_wf s'" "front_used s'" "live s' = live s" "frag_slot s' = frag_slot s"
    and "\<And>m. live s m \<Longrightarrow> m \<noteq> idx \<Longrightarrow> entry_data s m \<Longrightarrow> entry_data s' m"
proof -
  have idx: "idx < length (fc_map s)" using l by (simp add: live_def)
  have smap: "fc_map s' = (fc_map s)[idx := e]" and sel: "fc_map_idx s' = fc_map_idx s" "length (fc_frags s') = length (fc_frags s)"
    "fc_frags_first_unused s' = fc_frags_first_unused s" "fc_frags_unused_size s' = fc_frags_unused_size s"
    "length (fc_map s') = length (fc_map s)" by (simp_all add: s'_def)
  have m: "pm_key (fc_map s' ! m) = pm_key (fc_map s ! m)" "pm_frags_idx (fc_map s' ! m) = pm_frags_idx (fc_map s ! m)"
    "pm_fragment_count (fc_map s' ! m) = pm_fragment_count (fc_map s ! m)" for m
    using e idx by (simp_all add: smap nth_list_update)
  show live: "live s' = live s" by (auto simp: live_def m sel fun_eq_iff)
  show slot: "frag_slot s' = frag_slot s" by (auto simp: frag_slot_def m sel fun_eq_iff)
  have ring: "ring s' = ring s" by (auto simp: ring_def sel fun_eq_iff)
  have place: "entry_place s' = entry_place s" by (auto simp: entry_place_def m sel slot ring fun_eq_iff)
  have leak: "fc_map_idx s ! k \<noteq> U32_MAX" if k: "k < length (fc_frags s)" "fc_frags s' ! k \<noteq> None" for k
  proof (cases "k = frag_slot s idx no")
    case True
    then show ?thesis using slot_owner [OF wf(1) l no] live_small [OF wf(1) l] by simp
  next
    case False
    then have "fc_frags s ! k \<noteq> None" using k(2) by (simp add: s'_def)
    then show ?thesis using wf(1) k(1) unfolding ring_wf_def by blast
  qed
  then show "ring_wf s'" using wf(1) unfolding ring_wf_def sel live slot place m by blast
  show "front_used s'" using wf(2) unfolding front_used_def sel ring .
  show "entry_data s' m" if "live s m" "m \<noteq> idx" "entry_data s m" for m
  proof -
    have "fc_frags s' ! frag_slot s m i = fc_frags s ! frag_slot s m i" if "i < pm_fragment_count (fc_map s ! m)" for i
      using slots_disjoint [OF wf(1) l \<open>live s m\<close> _ no that] \<open>m \<noteq> idx\<close> by (simp add: s'_def)
    then show ?thesis using that unfolding entry_data_def slot m smap by simp
  qed
qed

text \<open>Emptying slots.\<close>

lemma fewer_frags_wf:
  fixes s :: "'f frag_cache"
  assumes wf: "ring_wf s" "front_used s" and fr: "length fr = length (fc_frags s)"
    "\<And>k. k < length (fc_frags s) \<Longrightarrow> fr ! k = None \<or> fr ! k = fc_frags s ! k"
  defines "s' \<equiv> s\<lparr>fc_frags := fr\<rparr>"
  shows "ring_wf s'" "front_used s'" "live s' = live s" "frag_slot s' = frag_slot s"
proof -
  have sel: "fc_map s' = fc_map s" "fc_map_idx s' = fc_map_idx s" "length (fc_frags s') = length (fc_frags s)"
    "fc_frags_first_unused s' = fc_frags_first_unused s" "fc_frags_unused_size s' = fc_frags_unused_size s"
    using fr(1) by (simp_all add: s'_def)
  show live: "live s' = live s" by (auto simp: live_def sel fun_eq_iff)
  show slot: "frag_slot s' = frag_slot s" by (auto simp: frag_slot_def sel fun_eq_iff)
  have ring: "ring s' = ring s" by (auto simp: ring_def sel fun_eq_iff)
  have place: "entry_place s' = entry_place s" by (auto simp: entry_place_def sel slot ring fun_eq_iff)
  have "fc_map_idx s ! k \<noteq> U32_MAX" if "k < length (fc_frags s)" "fc_frags s' ! k \<noteq> None" for k
    using that fr(2) [OF that(1)] wf(1) unfolding ring_wf_def s'_def by auto
  then show "ring_wf s'" using wf(1) unfolding ring_wf_def sel live slot place by blast
  show "front_used s'" using wf(2) unfolding front_used_def sel ring .
qed

text \<open>The fragments in the ring come from a list of calls: key, number, count and fragment.\<close>

definition logged :: "(u64 \<times> nat \<times> nat \<times> 'f) set \<Rightarrow> 'f frag_cache \<Rightarrow> bool" where
  "logged L s \<longleftrightarrow> (\<forall>m no f. live s m \<longrightarrow> no < pm_fragment_count (fc_map s ! m) \<longrightarrow> fc_frags s ! frag_slot s m no = Some f \<longrightarrow>
     (pm_key (fc_map s ! m), no, pm_fragment_count (fc_map s ! m), f) \<in> L)"

lemma shrunk_live:
  assumes "shrunk s s'" "live s' m"
  shows "live s m" "fc_map s' ! m = fc_map s ! m" "frag_slot s' m = frag_slot s m"
proof -
  have "fc_map s' ! m \<noteq> empty_metadata" using assms(2) by (auto simp: live_def empty_metadata_def)
  then show e: "fc_map s' ! m = fc_map s ! m" using assms by (auto simp: shrunk_def live_def)
  show "live s m" "frag_slot s' m = frag_slot s m"
    using assms e by (auto simp: shrunk_def live_def frag_slot_def fun_eq_iff)
qed

lemma logged_shrunk:
  assumes "ring_wf s" "shrunk s s'" "logged L s"
  shows "logged L s'"
  unfolding logged_def
proof (intro allI impI)
  fix m no f
  assume m: "live s' m" "no < pm_fragment_count (fc_map s' ! m)" "fc_frags s' ! frag_slot s' m no = Some f"
  note e = shrunk_live [OF assms(2) m(1)]
  have "fc_frags s ! frag_slot s m no = Some f"
    using m(3) e(3) frag_slot_less [OF assms(1), of m no] assms(2) unfolding shrunk_def by (metis option.distinct(1))
  then show "(pm_key (fc_map s' ! m), no, pm_fragment_count (fc_map s' ! m), f) \<in> L"
    using assms(3) e m(2) unfolding logged_def by metis
qed

lemma logged_mono: "logged L s \<Longrightarrow> L \<subseteq> L' \<Longrightarrow> logged L' s"
  unfolding logged_def by blast

text \<open>Handing a complete packet out and removing its entry.\<close>

lemma complete_works:
  assumes wf: "ring_wf s" "front_used s" and l: "live s idx" and others: "\<And>m. live s m \<Longrightarrow> m \<noteq> idx \<Longrightarrow> entry_data s m"
    and all: "\<And>i. i < pm_fragment_count (fc_map s ! idx) \<Longrightarrow> fc_frags s ! frag_slot s idx i \<noteq> None"
  shows "\<exists>frags s'. move_out (map (\<lambda>i. i mod length (fc_frags s)) [pm_frags_idx (fc_map s ! idx)..<pm_frags_idx (fc_map s ! idx) + pm_fragment_count (fc_map s ! idx)])
      (fc_frags s) [] = Some (frags, map (\<lambda>i. the (fc_frags s ! frag_slot s idx i)) [0..<pm_fragment_count (fc_map s ! idx)]) \<and>
    invalidate False idx (s\<lparr>fc_frags := frags\<rparr>) = Some s' \<and> cache_wf s' \<and> shrunk s s'"
proof -
  let ?e = "fc_map s ! idx" and ?N = "length (fc_frags s)"
  let ?c = "pm_fragment_count ?e"
  let ?is = "map (\<lambda>i. frag_slot s idx i) [0..<?c]"
  have is_eq: "map (\<lambda>i. i mod ?N) [pm_frags_idx ?e..<pm_frags_idx ?e + ?c] = ?is"
    by (simp add: frag_slot_def add.commute flip: map_add_upt)
  have "distinct ?is" using frag_slot_inj [OF wf(1) l] by (auto simp: distinct_map inj_on_def)
  moreover have "?c \<le> MAX_FRAGMENTS" using wf(1) l by (simp add: ring_wf_def entry_place_def)
  ultimately have "\<exists>frags'. move_out ?is (fc_frags s) [] = Some (frags', [] @ map (\<lambda>i. the (fc_frags s ! i)) ?is) \<and> length frags' = ?N \<and>
    (\<forall>k < ?N. frags' ! k = (if k \<in> set ?is then None else fc_frags s ! k))"
    by (intro move_out_works) (use all frag_slot_less [OF wf(1)] in auto)
  then obtain frags where m: "move_out ?is (fc_frags s) [] = Some (frags, map (\<lambda>i. the (fc_frags s ! frag_slot s idx i)) [0..<?c])"
    "length frags = ?N" "\<And>k. k < ?N \<Longrightarrow> frags ! k = (if k \<in> set ?is then None else fc_frags s ! k)" by (auto simp: comp_def)
  let ?s = "s\<lparr>fc_frags := frags\<rparr>"
  have fewer: "frags ! k = None \<or> frags ! k = fc_frags s ! k" if "k < ?N" for k using m(3) [OF that] by auto
  note s2 = fewer_frags_wf [OF wf m(2) fewer]
  have data: "entry_data ?s j" if "live ?s j" "j \<noteq> idx" for j
  proof -
    have lj: "live s j" using that(1) s2(3) by simp
    have "frags ! frag_slot s j no = fc_frags s ! frag_slot s j no" if "no < pm_fragment_count (fc_map s ! j)" for no
    proof -
      have "frag_slot s j no \<notin> set ?is"
      proof
        assume "frag_slot s j no \<in> set ?is"
        then obtain i where "i < ?c" "frag_slot s j no = frag_slot s idx i" by auto
        then show False using slots_disjoint [OF wf(1) lj l \<open>j \<noteq> idx\<close> that] by blast
      qed
      then show ?thesis using m(3) [OF frag_slot_less [OF wf(1)]] by simp
    qed
    then show ?thesis using others [OF lj that(2)] unfolding entry_data_def by (simp add: s2(4))
  qed
  have own: "(if False then fc_frags ?s ! frag_slot ?s idx no \<noteq> None \<longleftrightarrow> bit (pm_fragment_have (fc_map ?s ! idx)) no
       else fc_frags ?s ! frag_slot ?s idx no = None)" if "no < pm_fragment_count (fc_map ?s ! idx)" for no
    using m(3) [OF frag_slot_less [OF wf(1), of idx no]] that by (simp add: s2(4))
  have l2: "live ?s idx" using l s2(3) by simp
  obtain s' where s': "invalidate False idx ?s = Some s'" "cache_wf s'" "fc_map s' = (fc_map s)[idx := empty_metadata]"
    "length (fc_frags s') = ?N" "\<And>k. k < ?N \<Longrightarrow> fc_frags s' ! k = None \<or> fc_frags s' ! k = frags ! k"
    using invalidate_works [OF s2(1,2) l2 data own] m(2) by auto
  have "shrunk s s'"
    unfolding shrunk_def using s'(3,4) s'(5) fewer l by (auto simp: nth_list_update live_def) metis
  then show ?thesis using m(1) s' is_eq by auto
qed


text \<open>
  Storing a fragment in a live entry: it returns nothing, or the packet, made of the fragment
  at its number and the fragments that the entry held at the others.
\<close>

lemma cache_store_works:
  assumes wf: "cache_wf s" and l: "live s idx" and n: "no < c" and L: "logged L s"
  shows "\<exists>s' ret. cache_store sz f no c idx [] s = Some (s', ret) \<and> cache_wf s' \<and> length (fc_map s') = length (fc_map s) \<and>
    logged (insert (pm_key (fc_map s ! idx), no, c, f) L) s' \<and>
    (\<forall>i < length ret. length ret = c \<and> (pm_key (fc_map s ! idx), i, c, ret ! i) \<in> insert (pm_key (fc_map s ! idx), no, c, f) L)"
proof (cases "wrapping_shl 1 (word_of_nat no) AND pm_fragment_have (fc_map s ! idx) = 0 \<and> c = pm_fragment_count (fc_map s ! idx) \<and>
      pm_packet_size (fc_map s ! idx) + sz \<le> MAX_UNASSOCIATED_PACKET_SIZE")
  case False
  then have "cache_store sz f no c idx [] s = Some (s, [])" by (auto simp: cache_store_def Let_def)
  then show ?thesis using wf logged_mono [OF L] by auto
next
  case True
  let ?e = "fc_map s ! idx" and ?x = "(pm_key (fc_map s ! idx), no, c, f)"
  have w: "ring_wf s" "front_used s" "\<And>m. live s m \<Longrightarrow> entry_data s m" using wf by (auto simp: cache_wf_def)
  have c: "c \<le> 48" "0 < c" "c = pm_fragment_count ?e" using w(1) l True by (auto simp: ring_wf_def entry_place_def zssp_sizes)
  then have bit: "\<not> bit (pm_fragment_have ?e) no" "no < 64" "c < 64" using True n shl_and_zero [of no] by auto
  let ?h = "pm_fragment_have ?e OR wrapping_shl 1 (word_of_nat no)"
  let ?n = "?e\<lparr>pm_fragment_have := ?h, pm_packet_size := pm_packet_size ?e + sz\<rparr>"
  define s1 where "s1 = s\<lparr>fc_map := (fc_map s)[idx := ?n], fc_frags := (fc_frags s)[frag_slot s idx no := Some f]\<rparr>"
  have no: "no < pm_fragment_count ?e" using n c by simp
  have s1: "ring_wf s1" "front_used s1" "live s1 = live s" "frag_slot s1 = frag_slot s"
    "\<And>m. live s m \<Longrightarrow> m \<noteq> idx \<Longrightarrow> entry_data s1 m"
    using write_slot_wf [OF w(1,2) l no, where e = ?n and f = f] w(3) by (simp_all add: s1_def)
  have idx: "idx < length (fc_map s)" using l by (simp add: live_def)
  have e1: "fc_map s1 ! idx = ?n" "length (fc_map s1) = length (fc_map s)" "length (fc_frags s1) = length (fc_frags s)"
    "\<And>m. m \<noteq> idx \<Longrightarrow> fc_map s1 ! m = fc_map s ! m"
    using idx by (simp_all add: s1_def)
  have hbits: "bit ?h i \<longleftrightarrow> bit (pm_fragment_have ?e) i \<or> i = no" for i using bit by (auto simp: bit_or_iff bit_shl)
  have d: "entry_data s idx" by (rule w(3) [OF l])
  have fr: "fc_frags s1 ! frag_slot s idx i = (if i = no then Some f else fc_frags s ! frag_slot s idx i)" if "i < c" for i
    using frag_slot_inj [OF w(1) l, of i no] frag_slot_less [OF w(1)] that c n by (auto simp: s1_def nth_list_update)
  have frags: "fc_frags s1 ! frag_slot s idx i \<noteq> None \<longleftrightarrow> bit ?h i" if "i < c" for i
    using fr [OF that] d that c hbits unfolding entry_data_def by auto
  have L1: "logged (insert ?x L) s1"
    unfolding logged_def s1(3,4)
  proof (intro allI impI)
    fix m i g
    assume m: "live s m" "i < pm_fragment_count (fc_map s1 ! m)" "fc_frags s1 ! frag_slot s m i = Some g"
    show "(pm_key (fc_map s1 ! m), i, pm_fragment_count (fc_map s1 ! m), g) \<in> insert ?x L"
    proof (cases "m = idx")
      case True
      then show ?thesis using m fr [of i] c e1 L l unfolding logged_def by (cases "i = no") auto
    next
      case False
      then have "fc_frags s1 ! frag_slot s m i = fc_frags s ! frag_slot s m i"
        using slots_disjoint [OF w(1) l m(1) _ no, of i] m(2) e1(4) by (simp add: s1_def)
      then show ?thesis using m L False e1(4) unfolding logged_def by auto
    qed
  qed
  have unfold: "cache_store sz f no c idx [] s =
    (if ?h = wrapping_shl 1 (word_of_nat c) - 1
     then (case move_out (map (\<lambda>i. i mod length (fc_frags s1)) [pm_frags_idx ?n..<pm_frags_idx ?n + c]) (fc_frags s1) [] of
             None \<Rightarrow> None
           | Some (frags, ret) \<Rightarrow> map_option (\<lambda>self. (self, ret)) (invalidate False idx (s1\<lparr>fc_frags := frags\<rparr>)))
     else Some (s1, []))"
    using True unfolding s1_def cache_store_def Let_def frag_slot_def by (simp cong: option.case_cong prod.case_cong)
  show ?thesis
  proof (cases "?h = wrapping_shl 1 (word_of_nat c) - 1")
    case False
    then have "\<exists>i < c. \<not> bit ?h i" using have_full [OF bit(3), of ?h] hbits d c n unfolding entry_data_def by auto
    then have "entry_data s1 idx" using frags d hbits c n s1(4) e1 unfolding entry_data_def by auto
    then have "cache_wf s1" using s1 unfolding cache_wf_def by metis
    then show ?thesis using unfold False e1 L1 by auto
  next
    case full: True
    then have all: "fc_frags s1 ! frag_slot s1 idx i \<noteq> None" if "i < pm_fragment_count (fc_map s1 ! idx)" for i
      using frags [of i] have_full [OF bit(3), of ?h] that c e1 s1(4) by simp
    have l1: "live s1 idx" using l s1(3) by simp
    have o1: "entry_data s1 m" if "live s1 m" "m \<noteq> idx" for m using s1(3,5) that by simp
    obtain fs s' where r: "cache_store sz f no c idx [] s = Some (s', map (\<lambda>i. the (fc_frags s1 ! frag_slot s1 idx i)) [0..<c])"
      "cache_wf s'" "shrunk s1 s'"
      using complete_works [OF s1(1,2) l1 o1 all] unfold full c(3) e1(1) by auto
    have "(pm_key ?e, i, c, the (fc_frags s1 ! frag_slot s1 idx i)) \<in> insert ?x L" if i: "i < c" for i
    proof -
      have k: "pm_key (fc_map s1 ! idx) = pm_key ?e" "pm_fragment_count (fc_map s1 ! idx) = c" using e1(1) c(3) by simp_all
      then obtain g where "fc_frags s1 ! frag_slot s1 idx i = Some g" using all [of i] i by auto
      then show ?thesis using L1 l1 i k unfolding logged_def by (metis option.sel)
    qed
    then show ?thesis using r e1(2) logged_shrunk [OF s1(1) r(3) L1] by (auto simp: shrunk_def)
  qed
qed


section \<open>Assembling\<close>

lemma cache_places_less:
  "2 \<le> length (fc_map s) \<Longrightarrow> cache_places s key = (a, b) \<Longrightarrow> a < length (fc_map s) \<and> b < length (fc_map s)"
proof -
  assume m: "2 \<le> length (fc_map s)" and p: "cache_places s key = (a, b)"
  have "unat key div length (fc_map s) mod (length (fc_map s) - 1) < length (fc_map s)"
    by (rule less_le_trans [OF mod_less_divisor]) (use m in simp_all)
  moreover have "unat key mod length (fc_map s) < length (fc_map s)" using m by (intro mod_less_divisor) linarith
  ultimately show ?thesis using p m by (auto simp: cache_places_def Let_def)
qed

lemma cache_lookup_works:
  assumes wf: "cache_wf s"
  shows "\<exists>r s'. cache_lookup S key c now s = Some (r, s') \<and> cache_wf s' \<and> shrunk s s' \<and>
    (\<forall>idx. r = Some idx \<longrightarrow> idx < length (fc_map s') \<and> (pm_key (fc_map s' ! idx) = 0 \<or> pm_key (fc_map s' ! idx) = key))"
proof -
  obtain a b where p: "cache_places s key = (a, b)" by fastforce
  have ab: "a < length (fc_map s)" "b < length (fc_map s)"
    using cache_places_less [OF _ p] wf by (simp_all add: cache_wf_def ring_wf_def)
  obtain t s1 where s1: "check_for_expiry_inner (as_i64 (resend_time S)) now s = Some (t, s1)" "cache_wf s1" "shrunk s s1"
    using check_for_expiry_inner_works [OF wf] by blast
  have keep: "pm_key (fc_map s1 ! m) = 0" if "pm_key (fc_map s ! m) = 0" "m < length (fc_map s)" for m
    using s1(3) that by (auto simp: shrunk_def empty_metadata_def)
  have len: "length (fc_map s1) = length (fc_map s)" using s1(3) by (simp add: shrunk_def)
  consider "pm_key (fc_map s ! a) = key \<or> pm_key (fc_map s ! b) = key"
    | "pm_key (fc_map s ! a) \<noteq> key" "pm_key (fc_map s ! b) \<noteq> key" "pm_key (fc_map s ! a) = 0 \<or> pm_key (fc_map s ! b) = 0"
    | "pm_key (fc_map s ! a) \<noteq> key" "pm_key (fc_map s ! b) \<noteq> key" "pm_key (fc_map s ! a) \<noteq> 0" "pm_key (fc_map s ! b) \<noteq> 0" by blast
  then show ?thesis
  proof cases
    case 1
    then show ?thesis using wf p ab by (auto simp: cache_lookup_def)
  next
    case 2
    then show ?thesis using wf p ab s1 keep len by (auto simp: cache_lookup_def)
  next
    case 3
    then show ?thesis using p ab s1 len by (auto simp: cache_lookup_def)
  qed
qed

lemma cache_assemble_works:
  assumes wf: "cache_wf s" and L: "logged L s" and key: "key \<noteq> 0"
  shows "\<exists>r s' ret. cache_assemble S key sz f no c now [] s = Some (r, s', ret) \<and> cache_wf s' \<and> logged (insert (key, no, c, f) L) s' \<and>
    (\<forall>i < length ret. length ret = c \<and> (key, i, c, ret ! i) \<in> insert (key, no, c, f) L)"
proof (cases "c \<le> no \<or> MAX_FRAGMENTS < c \<or> MAX_UNASSOCIATED_PACKET_SIZE < sz")
  case True
  then show ?thesis using wf logged_mono [OF L] by (auto simp: cache_assemble_def)
next
  case ok: False
  obtain r s1 where s1: "cache_lookup S key c now s = Some (r, s1)" "cache_wf s1" "shrunk s s1"
    "\<And>idx. r = Some idx \<Longrightarrow> idx < length (fc_map s1) \<and> (pm_key (fc_map s1 ! idx) = 0 \<or> pm_key (fc_map s1 ! idx) = key)"
    using cache_lookup_works [OF wf] by blast
  have L1: "logged L s1" using logged_shrunk [OF _ s1(3) L] wf by (simp add: cache_wf_def)
  show ?thesis
  proof (cases r)
    case None
    then show ?thesis using ok s1 logged_mono [OF L1] by (auto simp: cache_assemble_def)
  next
    case (Some idx)
    note idx = s1(4) [OF Some]
    have fresh: "\<exists>s2. cache_init key c now idx s1 = Some s2 \<and> cache_wf s2 \<and> live s2 idx \<and> logged L s2 \<and> pm_key (fc_map s2 ! idx) = key"
      if k: "pm_key (fc_map s1 ! idx) = 0" "c \<le> fc_frags_unused_size s1"
    proof -
      have "\<not> live s1 idx" using k by (simp add: live_def)
      then obtain s2 where s2: "cache_init key c now idx s1 = Some s2" "cache_wf s2" "live s2 idx" "fc_frags s2 = fc_frags s1"
        "fc_map s2 = (fc_map s1)[idx := \<lparr>pm_key = key, pm_frags_idx = fc_frags_first_unused s1, pm_fragment_have = 0,
          pm_fragment_count = c, pm_packet_size = 0, pm_creation_time = now\<rparr>]"
        using cache_init_works [OF s1(2), of idx c key now] idx k key ok by auto
      have "logged L s2"
        unfolding logged_def
      proof (intro allI impI)
        fix m i g
        assume m: "live s2 m" "i < pm_fragment_count (fc_map s2 ! m)" "fc_frags s2 ! frag_slot s2 m i = Some g"
        have "m \<noteq> idx"
        proof
          assume "m = idx"
          then have "bit (pm_fragment_have (fc_map s2 ! idx)) i" using m s2(2) unfolding cache_wf_def entry_data_def by auto
          then show False using s2(5) idx by simp
        qed
        then show "(pm_key (fc_map s2 ! m), i, pm_fragment_count (fc_map s2 ! m), g) \<in> L"
          using m L1 s2(4,5) by (simp add: logged_def live_def frag_slot_def)
      qed
      then show ?thesis using s2 idx by simp
    qed
    show ?thesis
    proof (cases "pm_key (fc_map s1 ! idx) = 0")
      case True
      show ?thesis
      proof (cases "c \<le> fc_frags_unused_size s1")
        case enough: True
        obtain s2 where s2: "cache_init key c now idx s1 = Some s2" "cache_wf s2" "live s2 idx" "logged L s2" "pm_key (fc_map s2 ! idx) = key"
          using fresh [OF True enough] by blast
        then show ?thesis
          using cache_store_works [OF s2(2,3) _ s2(4), of no c sz f] ok s1(1) Some True by (auto simp: cache_assemble_def)
      next
        case False
        then show ?thesis using ok s1 Some True logged_mono [OF L1] by (auto simp: cache_assemble_def cache_init_def)
      qed
    next
      case False
      then have l: "live s1 idx" "pm_key (fc_map s1 ! idx) = key" using idx by (auto simp: live_def)
      then show ?thesis
        using cache_store_works [OF s1(2) l(1) _ L1, of no c sz f] ok s1(1) Some False by (auto simp: cache_assemble_def)
    qed
  qed
qed


lemma cache_drop_works:
  assumes "cache_wf s" "set is \<subseteq> {..<length (fc_map s)}"
  shows "\<exists>s'. cache_drop is s = Some s' \<and> cache_wf s' \<and> shrunk s s' \<and> (\<forall>m \<in> set is. pm_key (fc_map s' ! m) = 0)"
  using assms
proof (induction "is" arbitrary: s)
  case (Cons i "is")
  have "\<exists>s1. cache_drop (i # is) s = cache_drop is s1 \<and> cache_wf s1 \<and> shrunk s s1 \<and> pm_key (fc_map s1 ! i) = 0"
  proof (cases "pm_key (fc_map s ! i) = 0")
    case False
    then obtain s1 where "invalidate True i s = Some s1" "cache_wf s1" "shrunk s s1" "fc_map s1 = (fc_map s)[i := empty_metadata]"
      using invalidate_drop [OF Cons.prems(1), of i] Cons.prems(2) by (auto simp: live_def)
    then show ?thesis using False Cons.prems(2) by (auto simp: empty_metadata_def)
  qed (use Cons.prems(1) in auto)
  then obtain s1 where s1: "cache_drop (i # is) s = cache_drop is s1" "cache_wf s1" "shrunk s s1" "pm_key (fc_map s1 ! i) = 0" by blast
  have "set is \<subseteq> {..<length (fc_map s1)}" using Cons.prems(2) s1(3) by (simp add: shrunk_def)
  then obtain s' where s': "cache_drop is s1 = Some s'" "cache_wf s'" "shrunk s1 s'" "\<forall>m \<in> set is. pm_key (fc_map s' ! m) = 0"
    using Cons.IH [OF s1(2)] by blast
  have "pm_key (fc_map s' ! i) = 0" using s'(3) s1(3,4) Cons.prems(2) by (auto simp: shrunk_def empty_metadata_def)
  then show ?case using s1 s' shrunk_trans [OF s1(3) s'(3)] by auto
qed auto

lemma cache_empty:
  assumes "cache_wf s" "\<And>m. \<not> live s m" "k < length (fc_frags s)"
  shows "fc_frags s ! k = None"
  using assms unfolding cache_wf_def ring_wf_def by metis

text \<open>The states a sequence of calls reaches, with the calls that passed a fragment in.\<close>

inductive cache_reachable :: "settings \<Rightarrow> (u64 \<times> nat \<times> nat \<times> 'f) set \<Rightarrow> 'f frag_cache \<Rightarrow> bool" for S where
  cache_start: "cache_reachable S {} cache_new"
| cache_call: "cache_reachable S L s \<Longrightarrow> key \<noteq> 0 \<Longrightarrow> cache_assemble S key sz f no c now [] s = Some (r, s', ret) \<Longrightarrow>
    cache_reachable S (insert (key, no, c, f) L) s'"
| cache_expire: "cache_reachable S L s \<Longrightarrow> check_for_expiry S now s = Some (t, s') \<Longrightarrow> cache_reachable S L s'"

lemma cache_new_wf: "cache_wf cache_new" "logged {} cache_new"
  by (auto simp: cache_wf_def ring_wf_def front_used_def live_def logged_def cache_new_def empty_metadata_def zssp_sizes U32_MAX_def)

lemma cache_reachable_wf: "cache_reachable S L s \<Longrightarrow> cache_wf s \<and> logged L s"
proof (induction rule: cache_reachable.induct)
  case cache_start
  then show ?case using cache_new_wf by simp
next
  case (cache_call L s key sz f no c now r s' ret)
  then show ?case using cache_assemble_works [of s L key S sz f no c now] by auto
next
  case (cache_expire L s now t s')
  then show ?case
    using check_for_expiry_inner_works [of s "as_i64 (fragment_assembly_timeout S)" now] logged_shrunk [of s s' L]
    by (auto simp: check_for_expiry_def cache_wf_def)
qed

lemma cache_key_nonzero: "cache_key hash addr nonce \<noteq> 0"
  by (simp add: cache_key_def Let_def)

text \<open>A packet of one fragment passes an empty cache at once.\<close>

lemma single_fragment:
  "\<exists>r s'. unassociated_assemble new_ms (\<lambda>addr nonce. 7) [] () 10 ''a'' 0 1 100 [] cache_new = Some (r, s', [''a''])"
  by (simp add: unassociated_assemble_def cache_key_def cache_assemble_def cache_lookup_def cache_places_def cache_init_def cache_store_def
      cache_new_def empty_metadata_def zssp_sizes wrapping_shl_def invalidate_def Let_def skip_empty.simps U32_MAX_def)

section \<open>Properties\<close>

text \<open>C20: The cache takes any fragments in any order without undefined behaviour: after any sequence of
  calls every call of \<open>assemble\<close> and \<open>check_for_expiry\<close> returns (the expiry loop ends, no slot is
  read or dropped unless it holds a fragment, no index is out of range), and dropping the cache
  drops every fragment it holds.
\<close>

theorem frag_cache_memory_safe:
  assumes "cache_reachable S L s"
  shows "(\<exists>r s' ret. unassociated_assemble S hash nonce addr sz f no c now [] s = Some (r, s', ret)) \<and>
    (\<exists>t s'. check_for_expiry S now s = Some (t, s') \<and> (now < t \<or> t = I64_MAX)) \<and>
    (\<exists>s'. cache_drop [0..<length (fc_map s)] s = Some s' \<and> (\<forall>k < length (fc_frags s). fc_frags s' ! k = None))"
proof -
  have wf: "cache_wf s" "logged L s" using cache_reachable_wf [OF assms] by simp_all
  obtain s' where s': "cache_drop [0..<length (fc_map s)] s = Some s'" "cache_wf s'" "shrunk s s'"
    "\<forall>m \<in> set [0..<length (fc_map s)]. pm_key (fc_map s' ! m) = 0"
    using cache_drop_works [OF wf(1), of "[0..<length (fc_map s)]"] by (auto simp: lessThan_atLeast0)
  have "\<not> live s' m" for m using s'(3,4) by (auto simp: live_def shrunk_def)
  then have "\<forall>k < length (fc_frags s). fc_frags s' ! k = None" using cache_empty [OF s'(2)] s'(3) by (simp add: shrunk_def)
  moreover have "\<exists>r s' ret. unassociated_assemble S hash nonce addr sz f no c now [] s = Some (r, s', ret)"
    using cache_assemble_works [OF wf cache_key_nonzero [of hash addr nonce]] unfolding unassociated_assemble_def by blast
  moreover have "\<exists>t s'. check_for_expiry S now s = Some (t, s') \<and> (now < t \<or> t = I64_MAX)"
    using check_for_expiry_inner_works [OF wf(1)] unfolding check_for_expiry_def by blast
  ultimately show ?thesis using s'(1) by blast
qed

theorem frag_cache_memory_safe_witness:
  "(\<exists>r s' ret. unassociated_assemble new_ms (\<lambda>addr nonce. 7) [] () 10 ''a'' 0 2 100 [] cache_new = Some (r, s', ret)) \<and>
    (\<exists>s'. cache_drop [0..<length (fc_map (cache_new :: string frag_cache))] (cache_new :: string frag_cache) = Some s')"
  using frag_cache_memory_safe [OF cache_start, where S = new_ms and hash = "\<lambda>addr nonce. 7" and nonce = "[]" and addr = "()" and sz = 10
      and f = "''a''" and no = 0 and c = 2 and now = 100] by blast

text \<open>C27: The cache never mixes packets: the packet that a call of \<open>assemble\<close> hands out has the
  announced number of fragments, and every one of them was passed in, under its own number and
  with the same count, by a call with the same key, that is the same hash of the sender's
  address and the packet's nonce.
\<close>

theorem frag_cache_unmixed:
  assumes "cache_reachable S L s"
    "unassociated_assemble S hash nonce addr sz f no c now [] s = Some (r, s', ret)" "ret \<noteq> []"
  shows "length ret = c \<and> (\<forall>i < c. (cache_key hash addr nonce, i, c, ret ! i) \<in> insert (cache_key hash addr nonce, no, c, f) L)"
  using cache_assemble_works [OF _ _ cache_key_nonzero [of hash addr nonce], of s L S sz f no c now] cache_reachable_wf [OF assms(1)] assms(2,3)
  unfolding unassociated_assemble_def by (cases ret) auto

theorem frag_cache_unmixed_witness:
  "\<exists>r s'. unassociated_assemble new_ms (\<lambda>addr nonce. 7) [] () 10 ''a'' 0 1 100 [] cache_new = Some (r, s', [''a'']) \<and>
     (cache_key (\<lambda>addr nonce. 7) () [], 0, 1, [''a''] ! 0) \<in> {(cache_key (\<lambda>addr nonce. 7) () [], 0, 1, ''a'')}"
proof -
  obtain r s' where a: "unassociated_assemble new_ms (\<lambda>addr nonce. 7) [] () 10 ''a'' 0 1 100 [] cache_new = Some (r, s', [''a''])"
    using single_fragment by blast
  from frag_cache_unmixed [OF cache_start a] show ?thesis using a by auto
qed

end
