(* ===== verification/Handshake_Cache.thy ===== *)
theory Handshake_Cache
  imports Crypto_Layer
begin

text \<open>
  The cache of unassociated handshake states, \<open>UnassociatedHandshakeCache\<close> of
  \<open>performance/src/handshake_cache.rs\<close>: three arrays of one length, searched linearly. The
  locks and the atomic flag are taken one call at a time, so a call is a function of the
  state. A key id is a nonzero \<open>u32\<close>; the handshake state is a type variable.
\<close>

section \<open>Definitions\<close>

record 'b handshake_cache =
  hc_has_pending :: bool
  hc_local_ids :: "u32 option list"
  hc_expiries :: "i64 list"
  hc_handshakes :: "'b option list"

definition hc_new :: "'b handshake_cache" where
  "hc_new = \<lparr>hc_has_pending = False, hc_local_ids = replicate MAX_UNASSOCIATED_HANDSHAKE_STATES None,
     hc_expiries = replicate MAX_UNASSOCIATED_HANDSHAKE_STATES 0,
     hc_handshakes = replicate MAX_UNASSOCIATED_HANDSHAKE_STATES None\<rparr>"

text \<open>The loops over the indices in order.\<close>

primrec get_loop :: "'b handshake_cache \<Rightarrow> u32 \<Rightarrow> nat list \<Rightarrow> 'b option" where
  "get_loop cache local_id [] = None"
| "get_loop cache local_id (i # is) =
     (if hc_local_ids cache ! i = Some local_id then hc_handshakes cache ! i else get_loop cache local_id is)"

definition hc_get :: "'b handshake_cache \<Rightarrow> u32 \<Rightarrow> 'b option" where
  "hc_get cache local_id = get_loop cache local_id [0..<length (hc_local_ids cache)]"

text \<open>The search of \<open>insert\<close>: \<open>None\<close> is its early return, and slot 0 is taken when the loop runs through.\<close>

primrec insert_loop :: "'b handshake_cache \<Rightarrow> u32 \<Rightarrow> i64 \<Rightarrow> nat list \<Rightarrow> nat option" where
  "insert_loop cache local_id current_time [] = Some 0"
| "insert_loop cache local_id current_time (i # is) =
     (if hc_local_ids cache ! i = None \<or> hc_expiries cache ! i \<le> current_time then Some i
      else if hc_local_ids cache ! i = Some local_id then None
      else insert_loop cache local_id current_time is)"

definition hc_insert :: "settings \<Rightarrow> 'b handshake_cache \<Rightarrow> u32 \<Rightarrow> 'b \<Rightarrow> i64 \<Rightarrow> i64 option \<times> 'b handshake_cache" where
  "hc_insert S cache local_id state current_time =
     (case insert_loop cache local_id current_time [0..<length (hc_local_ids cache)] of
        None \<Rightarrow> (None, cache)
      | Some idx \<Rightarrow>
          (let expiry = i64_add current_time (as_i64 (fragment_assembly_timeout S))
           in (Some expiry,
               cache\<lparr>hc_local_ids := (hc_local_ids cache)[idx := Some local_id], hc_expiries := (hc_expiries cache)[idx := expiry],
                     hc_handshakes := (hc_handshakes cache)[idx := Some state], hc_has_pending := True\<rparr>)))"

definition clear_at :: "nat \<Rightarrow> 'b handshake_cache \<Rightarrow> 'b handshake_cache" where
  "clear_at i cache = cache\<lparr>hc_local_ids := (hc_local_ids cache)[i := None], hc_expiries := (hc_expiries cache)[i := 0],
     hc_handshakes := (hc_handshakes cache)[i := None]\<rparr>"

primrec remove_loop :: "'b handshake_cache \<Rightarrow> u32 \<Rightarrow> nat list \<Rightarrow> bool \<times> 'b handshake_cache" where
  "remove_loop cache local_id [] = (False, cache)"
| "remove_loop cache local_id (i # is) =
     (if hc_local_ids cache ! i = Some local_id then (True, clear_at i cache) else remove_loop cache local_id is)"

definition hc_remove :: "'b handshake_cache \<Rightarrow> u32 \<Rightarrow> bool \<times> 'b handshake_cache" where
  "hc_remove cache local_id = remove_loop cache local_id [0..<length (hc_local_ids cache)]"

primrec service_loop :: "i64 \<Rightarrow> nat list \<Rightarrow> i64 \<Rightarrow> 'b handshake_cache \<Rightarrow> i64 \<times> 'b handshake_cache" where
  "service_loop current_time [] next_service_time cache = (next_service_time, cache)"
| "service_loop current_time (i # is) next_service_time cache =
     (if hc_local_ids cache ! i \<noteq> None
      then let expiry = hc_expiries cache ! i
           in if expiry \<le> current_time then service_loop current_time is next_service_time (clear_at i cache)
              else service_loop current_time is (min next_service_time expiry) cache
      else service_loop current_time is next_service_time cache)"

definition hc_service :: "'b handshake_cache \<Rightarrow> i64 \<Rightarrow> i64 \<times> 'b handshake_cache" where
  "hc_service cache current_time =
     (if hc_has_pending cache
      then
        case service_loop current_time [0..<length (hc_local_ids cache)] I64_MAX (cache\<lparr>hc_has_pending := False\<rparr>) of
          (next_service_time, cache) \<Rightarrow>
            (next_service_time, if next_service_time < I64_MAX then cache\<lparr>hc_has_pending := True\<rparr> else cache)
      else (I64_MAX, cache))"

text \<open>
  The invariant: three arrays of one positive length, a state exactly in the slots that have an
  id, no id twice, and the flag set when some entry is due to expire.
\<close>

definition hc_wf :: "'b handshake_cache \<Rightarrow> bool" where
  "hc_wf c \<longleftrightarrow> 0 < length (hc_local_ids c) \<and> length (hc_expiries c) = length (hc_local_ids c) \<and>
     length (hc_handshakes c) = length (hc_local_ids c) \<and>
     (\<forall>i < length (hc_local_ids c). hc_local_ids c ! i = None \<longleftrightarrow> hc_handshakes c ! i = None) \<and>
     (\<forall>i < length (hc_local_ids c). \<forall>j < length (hc_local_ids c). \<forall>k.
        hc_local_ids c ! i = Some k \<longrightarrow> hc_local_ids c ! j = Some k \<longrightarrow> j = i) \<and>
     (\<forall>i < length (hc_local_ids c). hc_local_ids c ! i \<noteq> None \<longrightarrow> hc_expiries c ! i < I64_MAX \<longrightarrow> hc_has_pending c)"

section \<open>Lookup\<close>

lemma get_loop_none: "(\<And>i. i \<in> set is \<Longrightarrow> hc_local_ids c ! i \<noteq> Some k) \<Longrightarrow> get_loop c k is = None"
  by (induction "is") auto

lemma get_loop_some:
  assumes "i \<in> set is" "hc_local_ids c ! i = Some k" "\<And>j. j \<in> set is \<Longrightarrow> hc_local_ids c ! j = Some k \<Longrightarrow> j = i"
  shows "get_loop c k is = hc_handshakes c ! i"
  using assms
proof (induction "is")
  case (Cons a "is")
  show ?case
  proof (cases "hc_local_ids c ! a = Some k")
    case True
    then have "a = i" using Cons.prems(3) [of a] by simp
    then show ?thesis using True by simp
  next
    case False
    then have "i \<in> set is" using Cons.prems(1,2) by auto
    then have "get_loop c k is = hc_handshakes c ! i" by (rule Cons.IH [OF _ Cons.prems(2)]) (rule Cons.prems(3), auto)
    then show ?thesis using False by simp
  qed
qed simp

lemma hc_unique:
  assumes "hc_wf c" "i < length (hc_local_ids c)" "j < length (hc_local_ids c)" "hc_local_ids c ! i = Some k" "hc_local_ids c ! j = Some k"
  shows "j = i"
  using assms unfolding hc_wf_def by blast

lemma hc_state: "hc_wf c \<Longrightarrow> i < length (hc_local_ids c) \<Longrightarrow> hc_local_ids c ! i = None \<longleftrightarrow> hc_handshakes c ! i = None"
  unfolding hc_wf_def by blast

lemma hc_get_at:
  assumes "hc_wf c" "i < length (hc_local_ids c)" "hc_local_ids c ! i = Some k"
  shows "hc_get c k = hc_handshakes c ! i"
  unfolding hc_get_def
proof (rule get_loop_some)
  fix j assume "j \<in> set [0..<length (hc_local_ids c)]" "hc_local_ids c ! j = Some k"
  then show "j = i" using hc_unique [OF assms(1,2) _ assms(3)] by simp
qed (use assms in simp_all)

lemma hc_get_none:
  assumes wf: "hc_wf c"
  shows "hc_get c k = None \<longleftrightarrow> (\<forall>i < length (hc_local_ids c). hc_local_ids c ! i \<noteq> Some k)"
proof
  assume g: "hc_get c k = None"
  show "\<forall>i < length (hc_local_ids c). hc_local_ids c ! i \<noteq> Some k"
  proof (intro allI impI notI)
    fix i assume i: "i < length (hc_local_ids c)" "hc_local_ids c ! i = Some k"
    then have "hc_handshakes c ! i = None" using hc_get_at [OF wf i] g by simp
    then show False using hc_state [OF wf i(1)] i(2) by simp
  qed
qed (auto simp: hc_get_def intro: get_loop_none)

text \<open>Two caches with the same slots for a key answer the same.\<close>

lemma hc_new_wf: "hc_wf hc_new"
  by (simp add: hc_wf_def hc_new_def MAX_UNASSOCIATED_HANDSHAKE_STATES_def)

lemma hc_new_get: "hc_get hc_new k = None"
  using hc_get_none [OF hc_new_wf, of k] by (auto simp: hc_new_def)

lemma get_loop_cong:
  "(\<And>i. i \<in> set is \<Longrightarrow> (hc_local_ids c ! i = Some k) = (hc_local_ids d ! i = Some k)) \<Longrightarrow>
   (\<And>i. i \<in> set is \<Longrightarrow> hc_local_ids c ! i = Some k \<Longrightarrow> hc_handshakes c ! i = hc_handshakes d ! i) \<Longrightarrow>
   get_loop c k is = get_loop d k is"
  by (induction "is") auto


section \<open>Insertion and removal\<close>

lemma insert_loop_bound:
  "insert_loop c k t is = Some i \<Longrightarrow> set is \<subseteq> {..<n} \<Longrightarrow> 0 < n \<Longrightarrow> i < n"
  by (induction "is") (auto split: if_splits)

lemma insert_loop_choice:
  "insert_loop c k t is = Some i \<Longrightarrow> hc_local_ids c ! i = None \<or> hc_expiries c ! i \<le> t \<or>
     i = 0 \<and> (\<forall>j \<in> set is. hc_local_ids c ! j \<noteq> None \<and> t < hc_expiries c ! j)"
  by (induction "is") (auto split: if_splits)

lemma insert_loop_total:
  "(\<And>i. i \<in> set is \<Longrightarrow> hc_local_ids c ! i \<noteq> Some k) \<Longrightarrow> \<exists>i. insert_loop c k t is = Some i"
  by (induction "is") auto

lemma hc_insert_at:
  fixes c :: "'b handshake_cache" and b :: 'b and x :: i64
  assumes wf: "hc_wf c" and i: "i < length (hc_local_ids c)" and new: "hc_get c k = None"
  defines "c' \<equiv> c\<lparr>hc_local_ids := (hc_local_ids c)[i := Some k], hc_expiries := (hc_expiries c)[i := x],
    hc_handshakes := (hc_handshakes c)[i := Some b], hc_has_pending := True\<rparr>"
  shows "hc_wf c'" "hc_get c' k = Some b" "\<And>k'. k' \<noteq> k \<Longrightarrow> hc_local_ids c ! i \<noteq> Some k' \<Longrightarrow> hc_get c' k' = hc_get c k'"
proof -
  have no: "\<And>j. j < length (hc_local_ids c) \<Longrightarrow> hc_local_ids c ! j \<noteq> Some k" using hc_get_none [OF wf] new by simp
  have ids: "hc_local_ids c' ! j = (if j = i then Some k else hc_local_ids c ! j)" "hc_handshakes c' ! j = (if j = i then Some b else hc_handshakes c ! j)"
    if "j < length (hc_local_ids c)" for j using that wf by (simp_all add: c'_def nth_list_update hc_wf_def)
  have len: "length (hc_local_ids c') = length (hc_local_ids c)" "length (hc_expiries c') = length (hc_local_ids c)"
    "length (hc_handshakes c') = length (hc_local_ids c)" "hc_has_pending c'" using wf by (simp_all add: c'_def hc_wf_def)
  have "\<forall>a < length (hc_local_ids c). \<forall>j < length (hc_local_ids c). \<forall>q. hc_local_ids c' ! a = Some q \<longrightarrow> hc_local_ids c' ! j = Some q \<longrightarrow> j = a"
  proof (intro allI impI)
    fix a j q assume a: "a < length (hc_local_ids c)" "j < length (hc_local_ids c)" "hc_local_ids c' ! a = Some q" "hc_local_ids c' ! j = Some q"
    show "j = a" using a no [OF a(1)] no [OF a(2)] hc_unique [OF wf a(1,2)] ids(1) [OF a(1)] ids(1) [OF a(2)] by (auto split: if_splits)
  qed
  moreover have "\<forall>j < length (hc_local_ids c). hc_local_ids c' ! j = None \<longleftrightarrow> hc_handshakes c' ! j = None"
    using ids hc_state [OF wf] by simp
  ultimately show wf': "hc_wf c'" using len wf unfolding hc_wf_def by simp
  show "hc_get c' k = Some b" using hc_get_at [OF wf', of i k] ids [OF i] len i by simp
  show "hc_get c' k' = hc_get c k'" if "k' \<noteq> k" "hc_local_ids c ! i \<noteq> Some k'" for k'
    unfolding hc_get_def len using ids that by (intro get_loop_cong) auto
qed

lemma clear_at_wf:
  assumes wf: "hc_wf c" and i: "i < length (hc_local_ids c)"
  shows "hc_wf (clear_at i c)" "\<And>k. hc_local_ids c ! i \<noteq> Some k \<Longrightarrow> hc_get (clear_at i c) k = hc_get c k"
    "\<And>k. hc_local_ids c ! i = Some k \<Longrightarrow> hc_get (clear_at i c) k = None"
proof -
  let ?c = "clear_at i c"
  have ids: "hc_local_ids ?c ! j = (if j = i then None else hc_local_ids c ! j)" "hc_handshakes ?c ! j = (if j = i then None else hc_handshakes c ! j)"
    "hc_expiries ?c ! j = (if j = i then 0 else hc_expiries c ! j)" if "j < length (hc_local_ids c)" for j
    using that wf by (simp_all add: clear_at_def nth_list_update hc_wf_def)
  have len: "length (hc_local_ids ?c) = length (hc_local_ids c)" "length (hc_expiries ?c) = length (hc_local_ids c)"
    "length (hc_handshakes ?c) = length (hc_local_ids c)" "hc_has_pending ?c = hc_has_pending c" using wf by (simp_all add: clear_at_def hc_wf_def)
  have "\<forall>a < length (hc_local_ids c). \<forall>j < length (hc_local_ids c). \<forall>q. hc_local_ids ?c ! a = Some q \<longrightarrow> hc_local_ids ?c ! j = Some q \<longrightarrow> j = a"
  proof (intro allI impI)
    fix a j q assume a: "a < length (hc_local_ids c)" "j < length (hc_local_ids c)" "hc_local_ids ?c ! a = Some q" "hc_local_ids ?c ! j = Some q"
    show "j = a" using a hc_unique [OF wf a(1,2)] ids(1) [OF a(1)] ids(1) [OF a(2)] by (auto split: if_splits)
  qed
  moreover have "\<forall>j < length (hc_local_ids c). hc_local_ids ?c ! j = None \<longleftrightarrow> hc_handshakes ?c ! j = None"
    using ids hc_state [OF wf] by simp
  moreover have "\<forall>j < length (hc_local_ids c). hc_local_ids ?c ! j \<noteq> None \<longrightarrow> hc_expiries ?c ! j < I64_MAX \<longrightarrow> hc_has_pending c"
    using ids wf unfolding hc_wf_def by auto
  ultimately show wf': "hc_wf ?c" using len wf unfolding hc_wf_def by simp
  show "hc_get ?c k = hc_get c k" if "hc_local_ids c ! i \<noteq> Some k" for k
    unfolding hc_get_def len using ids that by (intro get_loop_cong) auto
  show "hc_get ?c k = None" if k: "hc_local_ids c ! i = Some k" for k
    unfolding hc_get_none [OF wf'] len
  proof (intro allI impI)
    fix j assume j: "j < length (hc_local_ids c)"
    show "hc_local_ids ?c ! j \<noteq> Some k"
    proof
      assume a: "hc_local_ids ?c ! j = Some k"
      then have "j \<noteq> i" "hc_local_ids c ! j = Some k" using ids(1) [OF j] by (auto split: if_splits)
      then show False using hc_unique [OF wf i j k] by blast
    qed
  qed
qed


section \<open>Expiry\<close>

lemma hc_wf_flag:
  assumes "hc_wf c" "\<And>j. j < length (hc_local_ids c) \<Longrightarrow> hc_local_ids c ! j \<noteq> None \<Longrightarrow> hc_expiries c ! j < I64_MAX \<Longrightarrow> b"
  shows "hc_wf (c\<lparr>hc_has_pending := b\<rparr>)"
proof -
  have "\<forall>j < length (hc_local_ids c). hc_local_ids c ! j \<noteq> None \<longrightarrow> hc_expiries c ! j < I64_MAX \<longrightarrow> b" using assms(2) by blast
  then show ?thesis using assms(1) unfolding hc_wf_def by simp
qed

lemma clear_at_flag: "clear_at i (c\<lparr>hc_has_pending := b\<rparr>) = (clear_at i c)\<lparr>hc_has_pending := b\<rparr>"
  by (simp add: clear_at_def)

lemma service_loop_flag:
  "service_loop t is nx (c\<lparr>hc_has_pending := b\<rparr>) = apsnd (\<lambda>c. c\<lparr>hc_has_pending := b\<rparr>) (service_loop t is nx c)"
  by (induction "is" arbitrary: nx c) (simp_all add: clear_at_flag Let_def)

text \<open>The loop clears the expired slots, keeps the others, and takes the least of their expiries.\<close>

definition serviced :: "i64 \<Rightarrow> nat set \<Rightarrow> 'b handshake_cache \<Rightarrow> 'b handshake_cache \<Rightarrow> bool" where
  "serviced t A c c' \<longleftrightarrow> length (hc_local_ids c') = length (hc_local_ids c) \<and> hc_has_pending c' = hc_has_pending c \<and>
     (\<forall>j < length (hc_local_ids c). if j \<in> A \<and> hc_local_ids c ! j \<noteq> None \<and> hc_expiries c ! j \<le> t then hc_local_ids c' ! j = None
        else hc_local_ids c' ! j = hc_local_ids c ! j \<and> hc_expiries c' ! j = hc_expiries c ! j \<and> hc_handshakes c' ! j = hc_handshakes c ! j)"

lemma service_loop_works:
  assumes "hc_wf c" "set is \<subseteq> {..<length (hc_local_ids c)}" "distinct is"
  shows "\<exists>m c'. service_loop t is nx c = (m, c') \<and> hc_wf c' \<and> serviced t (set is) c c' \<and> m \<le> nx \<and>
    (\<forall>j \<in> set is. hc_local_ids c' ! j \<noteq> None \<longrightarrow> t < hc_expiries c' ! j \<and> m \<le> hc_expiries c' ! j) \<and>
    (m = nx \<or> (\<exists>j \<in> set is. hc_local_ids c' ! j \<noteq> None \<and> m = hc_expiries c' ! j))"
  using assms
proof (induction "is" arbitrary: c nx)
  case Nil
  then show ?case by (simp add: serviced_def)
next
  case (Cons i "is")
  let ?dead = "hc_local_ids c ! i \<noteq> None \<and> hc_expiries c ! i \<le> t"
  let ?d = "if ?dead then clear_at i c else c"
  let ?n = "if hc_local_ids c ! i = None \<or> ?dead then nx else min nx (hc_expiries c ! i)"
  have i: "i < length (hc_local_ids c)" "i \<notin> set is" using Cons.prems by auto
  have step: "service_loop t (i # is) nx c = service_loop t is ?n ?d" by (auto simp: Let_def)
  have wf: "hc_wf ?d" using clear_at_wf(1) [OF Cons.prems(1) i(1)] Cons.prems(1) by simp
  have len: "length (hc_local_ids ?d) = length (hc_local_ids c)" by (simp add: clear_at_def)
  obtain m c' where r: "service_loop t is ?n ?d = (m, c')" "hc_wf c'" "serviced t (set is) ?d c'" "m \<le> ?n"
    "\<forall>j \<in> set is. hc_local_ids c' ! j \<noteq> None \<longrightarrow> t < hc_expiries c' ! j \<and> m \<le> hc_expiries c' ! j"
    "m = ?n \<or> (\<exists>j \<in> set is. hc_local_ids c' ! j \<noteq> None \<and> m = hc_expiries c' ! j)"
    using Cons.IH [OF wf, of ?n] Cons.prems len by auto
  have ci: "hc_local_ids c' ! i = (if ?dead then None else hc_local_ids c ! i)" "\<not> ?dead \<Longrightarrow> hc_expiries c' ! i = hc_expiries c ! i"
    using r(3) i unfolding serviced_def len by (auto simp: clear_at_def)
  have "serviced t (set (i # is)) c c'"
    unfolding serviced_def
  proof (intro conjI allI impI)
    fix j assume j: "j < length (hc_local_ids c)"
    show "if j \<in> set (i # is) \<and> hc_local_ids c ! j \<noteq> None \<and> hc_expiries c ! j \<le> t then hc_local_ids c' ! j = None
        else hc_local_ids c' ! j = hc_local_ids c ! j \<and> hc_expiries c' ! j = hc_expiries c ! j \<and> hc_handshakes c' ! j = hc_handshakes c ! j"
      using r(3) j ci i unfolding serviced_def len by (cases "j = i") (auto simp: clear_at_def split: if_splits)
  qed (use r(3) in \<open>auto simp: serviced_def clear_at_def split: if_splits\<close>)
  moreover have "m \<le> nx" using r(4) by (auto split: if_splits)
  moreover have "\<forall>j \<in> set (i # is). hc_local_ids c' ! j \<noteq> None \<longrightarrow> t < hc_expiries c' ! j \<and> m \<le> hc_expiries c' ! j"
    using r(4,5) ci by (auto split: if_splits)
  moreover have "m = nx \<or> (\<exists>j \<in> set (i # is). hc_local_ids c' ! j \<noteq> None \<and> m = hc_expiries c' ! j)"
    using r(6) ci by (auto simp: min_def split: if_splits)
  ultimately show ?case using step r(1,2) by auto
qed


section \<open>The contract of a store whose entries are taken once\<close>

lemma remove_loop_none: "(\<And>i. i \<in> set is \<Longrightarrow> hc_local_ids c ! i \<noteq> Some k) \<Longrightarrow> remove_loop c k is = (False, c)"
  by (induction "is") auto

lemma remove_loop_some:
  "i \<in> set is \<Longrightarrow> hc_local_ids c ! i = Some k \<Longrightarrow> \<exists>j \<in> set is. hc_local_ids c ! j = Some k \<and> remove_loop c k is = (True, clear_at j c)"
  by (induction "is") auto

lemma hc_remove_some:
  assumes "hc_wf c" "hc_get c k \<noteq> None"
  shows "\<exists>j < length (hc_local_ids c). hc_local_ids c ! j = Some k \<and> hc_remove c k = (True, clear_at j c)"
proof -
  obtain i where "i < length (hc_local_ids c)" "hc_local_ids c ! i = Some k" using hc_get_none [OF assms(1), of k] assms(2) by auto
  then show ?thesis using remove_loop_some [of i "[0..<length (hc_local_ids c)]" c k] by (auto simp: hc_remove_def)
qed

lemma hc_remove_none: "hc_wf c \<Longrightarrow> hc_get c k = None \<Longrightarrow> hc_remove c k = (False, c)"
  unfolding hc_remove_def by (rule remove_loop_none) (simp add: hc_get_none)

text \<open>The answers to a sequence of removals, each with its key.\<close>

primrec takers :: "('c \<Rightarrow> 'k \<Rightarrow> bool \<times> 'c) \<Rightarrow> 'c \<Rightarrow> 'k list \<Rightarrow> (bool \<times> 'k) list" where
  "takers del c [] = []"
| "takers del c (k # ks) = (fst (del c k), k) # takers del (snd (del c k)) ks"

locale taken_once =
  fixes get :: "'c \<Rightarrow> 'k \<Rightarrow> 'b option"
    and del :: "'c \<Rightarrow> 'k \<Rightarrow> bool \<times> 'c"
    and wf :: "'c \<Rightarrow> bool"
  assumes del_wf: "wf c \<Longrightarrow> wf (snd (del c k))"
    and del_found: "wf c \<Longrightarrow> fst (del c k) \<longleftrightarrow> get c k \<noteq> None"
    and del_gone: "wf c \<Longrightarrow> get (snd (del c k)) k = None"
    and del_other: "wf c \<Longrightarrow> k' \<noteq> k \<Longrightarrow> get (snd (del c k)) k' = get c k'"
begin

lemma taken_twice: "wf c \<Longrightarrow> \<not> fst (del (snd (del c k)) k)"
  using del_found [OF del_wf] del_gone by simp

text \<open>Of any number of takers of one key, over any takers of other keys, one succeeds.\<close>

lemma takers_gone: "wf c \<Longrightarrow> get c k = None \<Longrightarrow> (True, k) \<notin> set (takers del c ks)"
proof (induction ks arbitrary: c)
  case (Cons k' ks)
  have "get (snd (del c k')) k = None" using Cons.prems del_gone del_other by (cases "k' = k") auto
  then show ?case using Cons.IH [OF del_wf] Cons.prems del_found by auto
qed simp

lemma takers_once: "wf c \<Longrightarrow> count_list (takers del c ks) (True, k) \<le> 1"
proof (induction ks arbitrary: c)
  case (Cons k' ks)
  show ?case
  proof (cases "fst (del c k') \<and> k' = k")
    case True
    then have "get (snd (del c k')) k = None" using del_gone Cons.prems by simp
    then have "(True, k) \<notin> set (takers del (snd (del c k')) ks)" using takers_gone del_wf Cons.prems by blast
    then have "count_list (takers del (snd (del c k')) ks) (True, k) = 0" by (simp add: count_list_0_iff)
    then show ?thesis using True by simp
  next
    case False
    then show ?thesis using Cons.IH [OF del_wf [OF Cons.prems]] by auto
  qed
qed simp

end

interpretation pending_handshakes: taken_once hc_get hc_remove hc_wf
proof
  fix c :: "'a handshake_cache" and k k' :: u32
  assume wf: "hc_wf c"
  have "hc_wf (snd (hc_remove c k)) \<and> (fst (hc_remove c k) \<longleftrightarrow> hc_get c k \<noteq> None) \<and> hc_get (snd (hc_remove c k)) k = None \<and>
      (k' \<noteq> k \<longrightarrow> hc_get (snd (hc_remove c k)) k' = hc_get c k')" for k'
  proof (cases "hc_get c k = None")
    case True
    then show ?thesis using wf hc_remove_none [OF wf True] by simp
  next
    case False
    then show ?thesis using hc_remove_some [OF wf False] clear_at_wf [OF wf] by auto
  qed
  then show "hc_wf (snd (hc_remove c k))" "fst (hc_remove c k) \<longleftrightarrow> hc_get c k \<noteq> None" "hc_get (snd (hc_remove c k)) k = None"
    "k' \<noteq> k \<Longrightarrow> hc_get (snd (hc_remove c k)) k' = hc_get c k'" by blast+
qed

section \<open>Properties\<close>

text \<open>A handshake inserted under an unused key id is found under it, in a cache that does not
  grow; at most one other entry is lost, one whose time has run out, or the first one when all
  slots hold handshakes that have not expired.
\<close>

theorem handshake_cache_insert:
  assumes wf: "hc_wf c" and new: "hc_get c k = None"
  shows "\<exists>c' idx. hc_insert S c k b now = (Some (i64_add now (as_i64 (fragment_assembly_timeout S))), c') \<and>
    hc_wf c' \<and> hc_get c' k = Some b \<and> length (hc_local_ids c') = length (hc_local_ids c) \<and>
    (\<forall>k'. k' \<noteq> k \<longrightarrow> hc_local_ids c ! idx \<noteq> Some k' \<longrightarrow> hc_get c' k' = hc_get c k') \<and>
    (hc_local_ids c ! idx = None \<or> hc_expiries c ! idx \<le> now \<or>
     idx = 0 \<and> (\<forall>i < length (hc_local_ids c). hc_local_ids c ! i \<noteq> None \<and> now < hc_expiries c ! i))"
proof -
  let ?is = "[0..<length (hc_local_ids c)]"
  have none: "hc_local_ids c ! i \<noteq> Some k" if "i \<in> set ?is" for i using hc_get_none [OF wf] new that by simp
  obtain idx where i: "insert_loop c k now ?is = Some idx" using insert_loop_total [OF none] by blast
  have lt: "idx < length (hc_local_ids c)"
    by (rule insert_loop_bound [OF i]) (use wf in \<open>simp_all add: hc_wf_def lessThan_atLeast0\<close>)
  have "hc_local_ids c ! idx = None \<or> hc_expiries c ! idx \<le> now \<or>
     idx = 0 \<and> (\<forall>i < length (hc_local_ids c). hc_local_ids c ! i \<noteq> None \<and> now < hc_expiries c ! i)"
    using insert_loop_choice [OF i] by auto
  then show ?thesis using hc_insert_at [OF wf lt new] i by (auto simp: hc_insert_def Let_def intro!: exI [of _ idx])
qed


text \<open>A cache with one handshake.\<close>

definition sample_cache :: "nat handshake_cache" where
  "sample_cache = \<lparr>hc_has_pending = True, hc_local_ids = [Some 5, None], hc_expiries = [200, 0], hc_handshakes = [Some 1, None]\<rparr>"

lemma sample_cache_wf: "hc_wf sample_cache"
  by (auto simp: hc_wf_def sample_cache_def less_Suc_eq I64_MAX_def)

theorem handshake_cache_insert_witness:
  "\<exists>c'. hc_insert new_ms sample_cache 9 2 100 = (Some (i64_add 100 (as_i64 (fragment_assembly_timeout new_ms))), c') \<and> hc_wf c' \<and> hc_get c' 9 = Some 2"
  using handshake_cache_insert [OF sample_cache_wf, of 9 new_ms 2 100] by (auto simp: hc_get_def sample_cache_def)

text \<open>A pending handshake is completed once: of all calls of \<open>remove\<close> for one key id, among any
  others and in any order, at most one answers true, and the first one does when the handshake
  is there.
\<close>

theorem handshake_taken_once:
  assumes "hc_wf c" "hc_get c k \<noteq> None"
  shows "fst (hc_remove c k) \<and> count_list (takers hc_remove c ks) (True, k) \<le> 1"
  using pending_handshakes.del_found [OF assms(1), of k] pending_handshakes.takers_once [OF assms(1), of ks k] assms(2) by simp

theorem handshake_taken_once_witness:
  "fst (hc_remove sample_cache 5) \<and> count_list (takers hc_remove sample_cache [5, 9, 5]) (True, 5) \<le> 1"
  by (rule handshake_taken_once [OF sample_cache_wf]) (simp add: hc_get_def sample_cache_def)

text \<open>Servicing the cache removes exactly the handshakes whose time has run out and returns the
  next time at which one does: afterwards no remaining entry expires before the returned time,
  which is in the future or the greatest time stamp.
\<close>

theorem handshake_service_expires:
  assumes wf: "hc_wf c" and now: "now < I64_MAX"
  shows "\<exists>m c'. hc_service c now = (m, c') \<and> hc_wf c' \<and> now < m \<and>
    (\<forall>j < length (hc_local_ids c). hc_local_ids c ! j \<noteq> None \<longrightarrow>
       (if hc_expiries c ! j \<le> now then hc_local_ids c' ! j = None
        else hc_local_ids c' ! j = hc_local_ids c ! j \<and> hc_handshakes c' ! j = hc_handshakes c ! j \<and> (m \<le> hc_expiries c ! j \<or> m = I64_MAX)))"
proof (cases "hc_has_pending c")
  case False
  then have "I64_MAX \<le> hc_expiries c ! j" if "j < length (hc_local_ids c)" "hc_local_ids c ! j \<noteq> None" for j
    using wf that unfolding hc_wf_def by (meson not_less)
  then have "\<not> hc_expiries c ! j \<le> now" if "j < length (hc_local_ids c)" "hc_local_ids c ! j \<noteq> None" for j
    using that now by fastforce
  then show ?thesis using False wf now by (auto simp: hc_service_def)
next
  case True
  let ?is = "[0..<length (hc_local_ids c)]"
  obtain m c' where r: "service_loop now ?is I64_MAX c = (m, c')" "hc_wf c'" "serviced now (set ?is) c c'" "m \<le> I64_MAX"
    "\<forall>j \<in> set ?is. hc_local_ids c' ! j \<noteq> None \<longrightarrow> now < hc_expiries c' ! j \<and> m \<le> hc_expiries c' ! j"
    "m = I64_MAX \<or> (\<exists>j \<in> set ?is. hc_local_ids c' ! j \<noteq> None \<and> m = hc_expiries c' ! j)"
    using service_loop_works [OF wf, of ?is now I64_MAX] by (auto simp: lessThan_atLeast0)
  let ?c = "c'\<lparr>hc_has_pending := m < I64_MAX\<rparr>"
  have "hc_service c now = (m, ?c)"
    using True r(1) by (auto simp: hc_service_def service_loop_flag)
  moreover have "now < m" using r(5,6) now by auto
  moreover have "hc_wf ?c"
  proof (rule hc_wf_flag [OF r(2)])
    fix j assume j: "j < length (hc_local_ids c')" "hc_local_ids c' ! j \<noteq> None" "hc_expiries c' ! j < I64_MAX"
    then have "j \<in> set ?is" using r(3) by (simp add: serviced_def)
    then have "m \<le> hc_expiries c' ! j" using r(5) j(2) by blast
    then show "m < I64_MAX" using j(3) by simp
  qed
  moreover have "if hc_expiries c ! j \<le> now then hc_local_ids c' ! j = None
      else hc_local_ids c' ! j = hc_local_ids c ! j \<and> hc_handshakes c' ! j = hc_handshakes c ! j \<and> (m \<le> hc_expiries c ! j \<or> m = I64_MAX)"
    if j: "j < length (hc_local_ids c)" "hc_local_ids c ! j \<noteq> None" for j
  proof -
    have "if hc_expiries c ! j \<le> now then hc_local_ids c' ! j = None
      else hc_local_ids c' ! j = hc_local_ids c ! j \<and> hc_expiries c' ! j = hc_expiries c ! j \<and> hc_handshakes c' ! j = hc_handshakes c ! j"
      using r(3) j by (simp add: serviced_def)
    moreover have "hc_local_ids c' ! j \<noteq> None \<Longrightarrow> m \<le> hc_expiries c' ! j" using r(5) j(1) by simp
    ultimately show ?thesis using j(2) by (auto split: if_splits)
  qed
  ultimately show ?thesis by (intro exI [of _ m] exI [of _ ?c]) simp
qed

theorem handshake_service_expires_witness:
  "\<exists>m c'. hc_service sample_cache 300 = (m, c') \<and> hc_wf c' \<and> 300 < m \<and> hc_local_ids c' ! 0 = None"
  using handshake_service_expires [OF sample_cache_wf, of 300] by (auto simp: sample_cache_def I64_MAX_def less_Suc_eq)

end
