(* ===== verification/Perf_Symmetric.thy ===== *)
theory Perf_Symmetric
  imports Sample_Crypto Symmetric_State
begin

text \<open>
  The Noise symmetric state of the performance crate (\<open>performance/src/symmetric_state.rs\<close>
  and the Noise tokens at the top of \<open>performance/src/zeta.rs\<close>). The three fields are those
  of the reference crate, so the record is shared; the operations differ. The derivation
  input is assembled in an array of 72 bytes, \<open>split\<close> and \<open>get_ask\<close> hand out 64 bytes each,
  a tag is returned instead of appended, and the operations named \<open>no_init\<close> leave the
  cipher key \<open>k\<close> as it was, to save one HMAC.

  The theory states a run of the state as a list of operations, and shows that the saved
  HMAC is never missed: as long as no encryption or decryption directly follows an
  operation named \<open>no_init\<close>, a run of this crate puts out what the run of the reference
  crate puts out in which each such operation is the full one.
\<close>

section \<open>Definitions\<close>

subsection \<open>Key derivation\<close>

text \<open>\<open>LABEL_START\<close>, \<open>LABEL_END\<close>, \<open>CONTEXT_START\<close>, \<open>LEN_START\<close> and \<open>LEN_END\<close> are 1, 5, 6, 70 and 72.\<close>

definition kbkdf_array :: "bytes \<Rightarrow> bytes \<Rightarrow> u16 \<Rightarrow> bytes" where
  "kbkdf_array label ck num_outputs =
     (let buffer = replicate 72 0;
          buffer = buffer[0 := 1];
          buffer = write_at 1 label buffer;
          buffer = buffer[5 := 0];
          buffer = write_at 6 ck buffer
      in write_at 70 (u16_to_be_bytes (num_outputs * 8 * word_of_nat HASHLEN)) buffer)"

definition kbkdf_perf ::
  "('pk, 'kp, 'r, 'kem) crypto_layer \<Rightarrow> symmetric_state \<Rightarrow> bytes \<Rightarrow> bytes \<Rightarrow> u16 \<Rightarrow> bool \<Rightarrow> bool
     \<Rightarrow> bytes \<times> bytes option \<times> bytes option" where
  "kbkdf_perf C self input_key_material label num_outputs output2 output3 =
     (let buffer = kbkdf_array label (ss_ck self) num_outputs;
          o1 = hmac C input_key_material buffer;
          (o2, buffer) =
            (if output2 then let buffer = buffer[0 := 2] in (Some (hmac C input_key_material buffer), buffer)
             else (None, buffer));
          o3 = (if output3 then let buffer = buffer[0 := 3] in Some (hmac C input_key_material buffer)
                else None)
      in (o1, o2, o3))"

subsection \<open>Operations\<close>

definition initialize_perf :: "bytes \<Rightarrow> symmetric_state" where
  "initialize_perf h = \<lparr>ss_k = replicate AES_256_KEY_SIZE 0, ss_ck = h, ss_h = h\<rparr>"

definition mix_key_perf ::
  "('pk, 'kp, 'r, 'kem) crypto_layer \<Rightarrow> symmetric_state \<Rightarrow> bytes \<Rightarrow> symmetric_state" where
  "mix_key_perf C self input_key_material =
     (case kbkdf_perf C self input_key_material LABEL_KBKDF_CHAIN 2 True False of
        (next_ck, temp_k, _) \<Rightarrow>
          self\<lparr>ss_ck := next_ck, ss_k := take AES_256_KEY_SIZE (the temp_k)\<rparr>)"

definition mix_key_no_init ::
  "('pk, 'kp, 'r, 'kem) crypto_layer \<Rightarrow> symmetric_state \<Rightarrow> bytes \<Rightarrow> symmetric_state" where
  "mix_key_no_init C self input_key_material =
     (case kbkdf_perf C self input_key_material LABEL_KBKDF_CHAIN 2 False False of
        (next_ck, _, _) \<Rightarrow> self\<lparr>ss_ck := next_ck\<rparr>)"

definition mix_hash_perf ::
  "('pk, 'kp, 'r, 'kem) crypto_layer \<Rightarrow> symmetric_state \<Rightarrow> bytes \<Rightarrow> symmetric_state" where
  "mix_hash_perf C self data = self\<lparr>ss_h := sha512 C (ss_h self @ data)\<rparr>"

definition mix_key_and_hash_perf ::
  "('pk, 'kp, 'r, 'kem) crypto_layer \<Rightarrow> symmetric_state \<Rightarrow> bytes \<Rightarrow> symmetric_state" where
  "mix_key_and_hash_perf C self input_key_material =
     (case kbkdf_perf C self input_key_material LABEL_KBKDF_CHAIN 3 True True of
        (next_ck, temp_h, temp_k) \<Rightarrow>
          (mix_hash_perf C (self\<lparr>ss_ck := next_ck\<rparr>) (the temp_h))
            \<lparr>ss_k := take AES_256_KEY_SIZE (the temp_k)\<rparr>)"

definition mix_key_and_hash_no_init ::
  "('pk, 'kp, 'r, 'kem) crypto_layer \<Rightarrow> symmetric_state \<Rightarrow> bytes \<Rightarrow> symmetric_state" where
  "mix_key_and_hash_no_init C self input_key_material =
     (case kbkdf_perf C self input_key_material LABEL_KBKDF_CHAIN 3 True False of
        (next_ck, temp_h, _) \<Rightarrow> mix_hash_perf C (self\<lparr>ss_ck := next_ck\<rparr>) (the temp_h))"

text \<open>The results are the new contents of \<open>data\<close>, and the tag or whether it was right.\<close>

definition encrypt_and_hash_perf ::
  "('pk, 'kp, 'r, 'kem) crypto_layer \<Rightarrow> symmetric_state \<Rightarrow> bytes \<Rightarrow> bytes
     \<Rightarrow> symmetric_state \<times> bytes \<times> bytes" where
  "encrypt_and_hash_perf C self iv data =
     (case aead_encrypt_in_place C (ss_k self) iv (Some (ss_h self)) data of
        (data', tag) \<Rightarrow> (self\<lparr>ss_h := sha512 C (ss_h self @ data' @ tag)\<rparr>, data', tag))"

definition decrypt_and_hash_perf ::
  "('pk, 'kp, 'r, 'kem) crypto_layer \<Rightarrow> symmetric_state \<Rightarrow> bytes \<Rightarrow> bytes \<Rightarrow> bytes
     \<Rightarrow> bool \<times> symmetric_state \<times> bytes" where
  "decrypt_and_hash_perf C self iv data tag =
     (let hashed = ss_h self @ data @ tag
      in case aead_decrypt_in_place C (ss_k self) iv (Some (ss_h self)) data tag of
           (is_auth, data') \<Rightarrow> (is_auth, self\<lparr>ss_h := sha512 C hashed\<rparr>, data'))"

definition split_perf ::
  "('pk, 'kp, 'r, 'kem) crypto_layer \<Rightarrow> symmetric_state \<Rightarrow> bytes \<times> bytes" where
  "split_perf C self =
     (case kbkdf_perf C self [] LABEL_KBKDF_CHAIN 2 True False of
        (key1, key2, _) \<Rightarrow> (key1, the key2))"

definition get_ask_perf ::
  "('pk, 'kp, 'r, 'kem) crypto_layer \<Rightarrow> symmetric_state \<Rightarrow> bytes \<Rightarrow> bytes \<times> bytes" where
  "get_ask_perf C self label =
     (case kbkdf_perf C self (ss_h self) label 2 True False of
        (key1, key2, _) \<Rightarrow> (key1, the key2))"

subsection \<open>The Noise tokens\<close>

text \<open>
  The capacity of \<open>packet\<close> is a constant of each call that leaves room for the key. As in
  the reference crate the slice that \<open>read_e_no_init\<close> takes is in range at every call.
\<close>

definition write_e_no_init ::
  "('pk, 'kp, 'r, 'kem) crypto_layer \<Rightarrow> symmetric_state \<Rightarrow> 'r \<Rightarrow> bytes
     \<Rightarrow> 'kp \<times> symmetric_state \<times> 'r \<times> bytes" where
  "write_e_no_init C self rng packet =
     (case kp_generate C rng of (e_secret, rng') \<Rightarrow>
        (let pub_key = kp_public_key_bytes C e_secret
         in (e_secret, mix_key_no_init C (mix_hash_perf C self pub_key) pub_key, rng', packet @ pub_key)))"

definition read_e_no_init ::
  "('pk, 'kp, 'r, 'kem) crypto_layer \<Rightarrow> symmetric_state \<Rightarrow> nat \<Rightarrow> bytes
     \<Rightarrow> 'pk option \<times> symmetric_state \<times> nat" where
  "read_e_no_init C self i packet =
     (let j = i + P384_PUBLIC_KEY_SIZE; pub_key = subslice i j packet
      in (pk_from_bytes C pub_key, mix_key_no_init C (mix_hash_perf C self pub_key) pub_key, j))"

definition mix_dh_perf ::
  "('pk, 'kp, 'r, 'kem) crypto_layer \<Rightarrow> symmetric_state \<Rightarrow> 'kp \<Rightarrow> 'pk \<Rightarrow> symmetric_state" where
  "mix_dh_perf C self secret remote = mix_key_perf C self (kp_agree C secret remote)"

definition mix_dh_no_init ::
  "('pk, 'kp, 'r, 'kem) crypto_layer \<Rightarrow> symmetric_state \<Rightarrow> 'kp \<Rightarrow> 'pk \<Rightarrow> symmetric_state" where
  "mix_dh_no_init C self secret remote = mix_key_no_init C self (kp_agree C secret remote)"

subsection \<open>Runs\<close>

text \<open>
  An operation with its arguments, and what the caller gets: a cipher text with its tag
  behind it (every caller of this crate appends it), an opened text, or two keys of the
  32 bytes that every caller of \<open>split\<close> and \<open>get_ask\<close> keeps.
\<close>

datatype noise_op =
    MixKey bytes
  | MixKeyNoInit bytes
  | MixHash bytes
  | MixKeyAndHash bytes
  | MixKeyAndHashNoInit bytes
  | EncryptAndHash bytes bytes
  | DecryptAndHash bytes bytes bytes
  | Split
  | GetAsk bytes

datatype noise_out = Nothing | Sealed bytes | Opened bool bytes | TwoKeys bytes bytes

fun noise_step_perf ::
  "('pk, 'kp, 'r, 'kem) crypto_layer \<Rightarrow> symmetric_state \<Rightarrow> noise_op \<Rightarrow> symmetric_state \<times> noise_out" where
  "noise_step_perf C s (MixKey x) = (mix_key_perf C s x, Nothing)"
| "noise_step_perf C s (MixKeyNoInit x) = (mix_key_no_init C s x, Nothing)"
| "noise_step_perf C s (MixHash x) = (mix_hash_perf C s x, Nothing)"
| "noise_step_perf C s (MixKeyAndHash x) = (mix_key_and_hash_perf C s x, Nothing)"
| "noise_step_perf C s (MixKeyAndHashNoInit x) = (mix_key_and_hash_no_init C s x, Nothing)"
| "noise_step_perf C s (EncryptAndHash iv x) =
     (case encrypt_and_hash_perf C s iv x of (s', ct, tag) \<Rightarrow> (s', Sealed (ct @ tag)))"
| "noise_step_perf C s (DecryptAndHash iv x tag) =
     (case decrypt_and_hash_perf C s iv x tag of (ok, s', pt) \<Rightarrow> (s', Opened ok pt))"
| "noise_step_perf C s Split =
     (case split_perf C s of (k1, k2) \<Rightarrow>
        (s, TwoKeys (take AES_256_KEY_SIZE k1) (take AES_256_KEY_SIZE k2)))"
| "noise_step_perf C s (GetAsk label) =
     (case get_ask_perf C s label of (k1, k2) \<Rightarrow>
        (s, TwoKeys (take AES_256_KEY_SIZE k1) (take AES_256_KEY_SIZE k2)))"

fun noise_step ::
  "('pk, 'kp, 'r, 'kem) crypto_layer \<Rightarrow> symmetric_state \<Rightarrow> noise_op \<Rightarrow> symmetric_state \<times> noise_out" where
  "noise_step C s (MixKey x) = (mix_key C s x, Nothing)"
| "noise_step C s (MixKeyNoInit x) = (mix_key C s x, Nothing)"
| "noise_step C s (MixHash x) = (mix_hash C s x, Nothing)"
| "noise_step C s (MixKeyAndHash x) = (mix_key_and_hash C s x, Nothing)"
| "noise_step C s (MixKeyAndHashNoInit x) = (mix_key_and_hash C s x, Nothing)"
| "noise_step C s (EncryptAndHash iv x) =
     (case encrypt_and_hash_in_place C s iv 0 x of (s', buf) \<Rightarrow> (s', Sealed buf))"
| "noise_step C s (DecryptAndHash iv x tag) =
     (case decrypt_and_hash_in_place C s iv x tag of (ok, s', pt) \<Rightarrow> (s', Opened ok pt))"
| "noise_step C s Split = (case split_keys C s of (k1, k2) \<Rightarrow> (s, TwoKeys k1 k2))"
| "noise_step C s (GetAsk label) = (case get_ask C s label of (k1, k2) \<Rightarrow> (s, TwoKeys k1 k2))"

primrec noise_run ::
  "(symmetric_state \<Rightarrow> noise_op \<Rightarrow> symmetric_state \<times> noise_out) \<Rightarrow> symmetric_state \<Rightarrow> noise_op list
     \<Rightarrow> symmetric_state \<times> noise_out list" where
  "noise_run step s [] = (s, [])"
| "noise_run step s (x # xs) =
     (case step s x of (s', y) \<Rightarrow> case noise_run step s' xs of (s'', ys) \<Rightarrow> (s'', y # ys))"

text \<open>
  Whether the cipher key is the one of the last key derivation after an operation, and the
  discipline of the callers: no use of the key while it is not.
\<close>

fun key_current :: "bool \<Rightarrow> noise_op \<Rightarrow> bool" where
  "key_current b (MixKey x) = True"
| "key_current b (MixKeyAndHash x) = True"
| "key_current b (MixKeyNoInit x) = False"
| "key_current b (MixKeyAndHashNoInit x) = False"
| "key_current b op = b"

fun uses_key :: "noise_op \<Rightarrow> bool" where
  "uses_key (EncryptAndHash iv x) = True"
| "uses_key (DecryptAndHash iv x tag) = True"
| "uses_key op = False"

primrec key_discipline :: "bool \<Rightarrow> noise_op list \<Rightarrow> bool" where
  "key_discipline b [] = True"
| "key_discipline b (x # xs) = ((uses_key x \<longrightarrow> b) \<and> key_discipline (key_current b x) xs)"

text \<open>The array sizes of the signatures: labels have four bytes.\<close>

fun op_sized :: "noise_op \<Rightarrow> bool" where
  "op_sized (GetAsk label) = (length label = 4)"
| "op_sized op = True"

text \<open>The states agree, the cipher key only where it is current.\<close>

definition noise_sim :: "bool \<Rightarrow> symmetric_state \<Rightarrow> symmetric_state \<Rightarrow> bool" where
  "noise_sim b p s \<longleftrightarrow> ss_ck p = ss_ck s \<and> ss_h p = ss_h s \<and> (b \<longrightarrow> ss_k p = ss_k s)"

section \<open>The array is the buffer of the reference crate\<close>

lemma kbkdf_array_eq:
  assumes "length label = 4" "length ck = 64"
  shows "kbkdf_array label ck n = kbkdf_buffer 1 label ck n"
proof -
  have "replicate 72 (0 :: u8) = 0 # replicate 4 0 @ 0 # replicate 64 0 @ replicate 2 0"
    by (simp add: replicate_app_Cons_same numeral_eq_Suc)
  then show ?thesis
    using assms by (simp add: kbkdf_array_def kbkdf_buffer_def write_at_def Let_def list_update_append
        numeral_eq_Suc)
qed

lemma kbkdf_buffer_counter [simp]: "(kbkdf_buffer i label ck n)[0 := j] = kbkdf_buffer j label ck n"
  by (simp add: kbkdf_buffer_def)

lemma kbkdf_perf_eq:
  assumes "length label = 4" "length (ss_ck s) = 64"
  shows "kbkdf_perf C s x label n b2 b3 = kbkdf C s x label n b2 b3"
  using assms by (simp add: kbkdf_perf_def kbkdf_def kbkdf_array_eq Let_def)

lemma length_LABEL_KBKDF_CHAIN: "length LABEL_KBKDF_CHAIN = 4"
  by (simp add: LABEL_KBKDF_CHAIN_def)

lemmas kbkdf_chain_eq = kbkdf_perf_eq [OF length_LABEL_KBKDF_CHAIN]

lemmas perf_op_defs = mix_key_perf_def mix_key_no_init_def mix_hash_perf_def mix_key_and_hash_perf_def
  mix_key_and_hash_no_init_def encrypt_and_hash_perf_def decrypt_and_hash_perf_def split_perf_def
  get_ask_perf_def

lemmas reference_op_defs = mix_key_def mix_hash_def mix_key_and_hash_def encrypt_and_hash_in_place_def
  decrypt_and_hash_in_place_def split_keys_def get_ask_def

section \<open>One operation\<close>

lemma noise_step_sim:
  assumes "noise_sim b p s" "symmetric_state_wf p" "op_sized x" "uses_key x \<longrightarrow> b"
  shows "snd (noise_step_perf C p x) = snd (noise_step C s x)"
    and "noise_sim (key_current b x) (fst (noise_step_perf C p x)) (fst (noise_step C s x))"
proof -
  have eqs: "length (ss_ck p) = 64" "ss_ck p = ss_ck s" "ss_h p = ss_h s" "b \<Longrightarrow> ss_k p = ss_k s"
    using assms(1,2) by (auto simp: noise_sim_def symmetric_state_wf_def zssp_sizes)
  then have l: "length (ss_ck s) = 64" by simp
  show "snd (noise_step_perf C p x) = snd (noise_step C s x)"
    using assms(3,4) eqs l
    by (cases x) (auto simp: perf_op_defs reference_op_defs kbkdf_chain_eq kbkdf_perf_eq kbkdf_def
        Let_def case_prod_beta)
  show "noise_sim (key_current b x) (fst (noise_step_perf C p x)) (fst (noise_step C s x))"
    using assms(3,4) eqs l
    by (cases x) (auto simp: noise_sim_def perf_op_defs reference_op_defs kbkdf_chain_eq kbkdf_perf_eq
        kbkdf_def Let_def case_prod_beta)
qed

lemma noise_step_perf_wf:
  assumes "crypto_sized C" "symmetric_state_wf p"
  shows "symmetric_state_wf (fst (noise_step_perf C p x))"
  using assms
  by (cases x) (auto simp: symmetric_state_wf_def perf_op_defs kbkdf_perf_def zssp_sizes crypto_sizedD
      Let_def case_prod_beta)

lemma noise_run_sim:
  "noise_sim b p s \<Longrightarrow> symmetric_state_wf p \<Longrightarrow> crypto_sized C \<Longrightarrow> list_all op_sized ops \<Longrightarrow>
   key_discipline b ops \<Longrightarrow>
   snd (noise_run (noise_step_perf C) p ops) = snd (noise_run (noise_step C) s ops) \<and>
   noise_sim (foldl key_current b ops) (fst (noise_run (noise_step_perf C) p ops))
     (fst (noise_run (noise_step C) s ops))"
proof (induction ops arbitrary: b p s)
  case Nil
  then show ?case by simp
next
  case (Cons x ops)
  have x: "op_sized x" "uses_key x \<longrightarrow> b" using Cons.prems(4,5) by simp_all
  note st = noise_step_sim [OF Cons.prems(1,2) x, of C]
  have ih: "snd (noise_run (noise_step_perf C) (fst (noise_step_perf C p x)) ops) =
      snd (noise_run (noise_step C) (fst (noise_step C s x)) ops) \<and>
    noise_sim (foldl key_current (key_current b x) ops)
      (fst (noise_run (noise_step_perf C) (fst (noise_step_perf C p x)) ops))
      (fst (noise_run (noise_step C) (fst (noise_step C s x)) ops))"
    using Cons.prems(3,4,5)
    by (intro Cons.IH st(2) noise_step_perf_wf [OF Cons.prems(3,2)]) simp_all
  with st(1) show ?case by (simp add: case_prod_beta)
qed

section \<open>The reader's tokens follow the writer's\<close>

lemma read_e_follows_write_e_no_init:
  assumes "crypto_correct C pub_of" "crypto_sized C"
    and "write_e_no_init C s rng packet = (e, s', rng', packet')"
  shows "packet' = packet @ pk_to_bytes C (pub_of e)"
    and "read_e_no_init C s (length packet) (packet' @ rest) = (Some (pub_of e), s', length packet + 49)"
proof -
  show p: "packet' = packet @ pk_to_bytes C (pub_of e)"
    using assms(3) crypto_correctD(3) [OF assms(1)]
    by (auto simp: write_e_no_init_def Let_def split: prod.splits)
  have "length (pk_to_bytes C (pub_of e)) = 49"
    by (rule crypto_sizedD(8) [OF assms(2)])
  then have "subslice (length packet) (length packet + 49) (packet' @ rest) = pk_to_bytes C (pub_of e)"
    unfolding p by (simp add: subslice_middle)
  moreover have
    "s' = mix_key_no_init C (mix_hash_perf C s (pk_to_bytes C (pub_of e))) (pk_to_bytes C (pub_of e))"
    using assms(3) crypto_correctD(3) [OF assms(1)]
    by (auto simp: write_e_no_init_def Let_def split: prod.splits)
  ultimately show
    "read_e_no_init C s (length packet) (packet' @ rest) = (Some (pub_of e), s', length packet + 49)"
    using crypto_correctD(3,4) [OF assms(1)] by (simp add: read_e_no_init_def Let_def zssp_sizes)
qed

text \<open>The tokens as operations of a run.\<close>

lemma write_e_no_init_ops:
  assumes "write_e_no_init C s rng packet = (e, s', rng', packet')"
  shows "fst (noise_run (noise_step_perf C) s
           [MixHash (kp_public_key_bytes C e), MixKeyNoInit (kp_public_key_bytes C e)]) = s'"
  using assms by (auto simp: write_e_no_init_def Let_def split: prod.splits)

lemma mix_dh_ops:
  "noise_step_perf C s (MixKey (kp_agree C a p)) = (mix_dh_perf C s a p, Nothing)"
  "noise_step_perf C s (MixKeyNoInit (kp_agree C a p)) = (mix_dh_no_init C s a p, Nothing)"
  by (simp_all add: mix_dh_perf_def mix_dh_no_init_def)

section \<open>Properties\<close>

text \<open>C37: The symmetric state of the performance crate puts out the same bytes as the one of the
  reference crate. From the same state, over any list of operations in which no encryption or
  decryption comes between an operation named \<open>no_init\<close> and the next full key derivation, every
  cipher text, tag, verdict, plain text and pair of keys is the one of the reference run in
  which each \<open>no_init\<close> operation is the full one, and the chaining key and the transcript hash
  at the end are equal; so is the cipher key if the last derivation was a full one.\<close>

theorem symmetric_state_equiv:
  assumes "crypto_sized C" "symmetric_state_wf s" "list_all op_sized ops" "key_discipline True ops"
    and "noise_run (noise_step_perf C) s ops = (p', outs)"
  shows "\<exists>s'. noise_run (noise_step C) s ops = (s', outs) \<and> ss_ck p' = ss_ck s' \<and> ss_h p' = ss_h s' \<and>
    (foldl key_current True ops \<longrightarrow> ss_k p' = ss_k s')"
proof -
  have "noise_sim True s s" by (simp add: noise_sim_def)
  from noise_run_sim [OF this assms(2,1,3,4)] show ?thesis
    using assms(5) by (intro exI [of _ "fst (noise_run (noise_step C) s ops)"])
      (auto simp: noise_sim_def prod_eq_iff)
qed

theorem symmetric_state_equiv_witness:
  "let s = initialize_perf (replicate 64 1);
       ops = [MixHash [1], MixKeyNoInit [2], MixKey [3], EncryptAndHash (replicate 12 0) [4, 5],
              MixKeyAndHashNoInit [6], MixKey [7], DecryptAndHash (replicate 12 0) [8] (replicate 16 9),
              MixKeyNoInit [10], GetAsk LABEL_HEADER_KEY, Split]
   in \<exists>s'. noise_run (noise_step sample_crypto) s ops =
             (s', snd (noise_run (noise_step_perf sample_crypto) s ops)) \<and>
           ss_ck (fst (noise_run (noise_step_perf sample_crypto) s ops)) = ss_ck s'"
proof -
  let ?s = "initialize_perf (replicate 64 1)"
  let ?ops = "[MixHash [1], MixKeyNoInit [2], MixKey [3], EncryptAndHash (replicate 12 0) [4, 5],
              MixKeyAndHashNoInit [6], MixKey [7], DecryptAndHash (replicate 12 0) [8] (replicate 16 9),
              MixKeyNoInit [10], GetAsk LABEL_HEADER_KEY, Split]"
  have wf: "symmetric_state_wf ?s" by (simp add: symmetric_state_wf_def initialize_perf_def zssp_sizes)
  have ok: "list_all op_sized ?ops" by (simp add: LABEL_HEADER_KEY_def)
  have kd: "key_discipline True ?ops" by simp
  show ?thesis
    using symmetric_state_equiv [OF sample_crypto_sized wf ok kd prod.collapse [symmetric]]
    by (auto simp: Let_def simp del: noise_run.simps)
qed

end
