(* ===== verification/Perf_Challenge.thy ===== *)
theory Perf_Challenge
  imports Challenge
begin

text \<open>
  The challenge protocol of the performance crate (\<open>performance/src/challenge.rs\<close>). Its state
  is shared between threads: the counter is an atomic that is fetched and increased in one
  step, the window is the atomic \<open>Window\<close> with the greatest possible limit. There is no
  switch in the state; the caller asks first. A proof of work is written in the byte order
  of the machine, which is a parameter.

  The theory shows that a call that runs alone refines the reference crate's
  \<open>process_hello\<close>, and follows calls that run at the same time as interleavings of their
  atomic steps: the counters of the challenges they issue are all different, but since the
  check and the update of the window are two steps and the answer of the second is dropped,
  one response can be admitted once by each of several threads.
\<close>

section \<open>Definitions\<close>

text \<open>\<open>u64::to_ne_bytes\<close>; the flag says whether the machine is big endian.\<close>

definition u64_to_ne_bytes :: "bool \<Rightarrow> u64 \<Rightarrow> bytes" where
  "u64_to_ne_bytes big_endian x = (if big_endian then u64_to_be_bytes x else rev (u64_to_be_bytes x))"

record challenge_context_perf =
  pc_counter :: u64
  pc_antireplay_window :: "u64 list"
  pc_salt :: bytes

definition U64_MAX :: u64 where
  "U64_MAX = - 1"

definition gen_null_response_perf ::
  "bool \<Rightarrow> ('pk, 'kp, 'r, 'kem) crypto_layer \<Rightarrow> 'r \<Rightarrow> bytes \<times> 'r" where
  "gen_null_response_perf big_endian C rng =
     (case next_u64 C rng of (x, rng') \<Rightarrow>
        (write_at POW_START (u64_to_ne_bytes big_endian x) (replicate CHALLENGE_SIZE 0), rng'))"

definition verify_pow_perf :: "('pk, 'kp, 'r, 'kem) crypto_layer \<Rightarrow> bytes \<Rightarrow> bool" where
  "verify_pow_perf C response =
     (let work_buf = sha512 C response; n = u32_from_be_bytes (take 4 work_buf)
      in DIFFICULTY \<le> leading_zeros n)"

partial_function (option) pow_search_perf ::
  "bool \<Rightarrow> ('pk, 'kp, 'r, 'kem) crypto_layer \<Rightarrow> bytes \<Rightarrow> u64 \<Rightarrow> bytes option" where
  "pow_search_perf big_endian C pre_response pow =
     (let pre_response' = write_at POW_START (u64_to_ne_bytes big_endian pow) pre_response
      in if verify_pow_perf C pre_response' then Some pre_response'
         else pow_search_perf big_endian C pre_response' (pow + 1))"

text \<open>\<open>None\<close>: the search does not end.\<close>

definition respond_to_challenge_in_place_perf ::
  "bool \<Rightarrow> ('pk, 'kp, 'r, 'kem) crypto_layer \<Rightarrow> 'r \<Rightarrow> bytes \<Rightarrow> bytes \<Rightarrow> (bytes \<times> 'r) option" where
  "respond_to_challenge_in_place_perf big_endian C rng challenge pre_response =
     (if drop POW_START challenge = drop POW_START pre_response
      then (case next_u64 C rng of (pow, rng') \<Rightarrow>
              map_option (\<lambda>p. (p, rng')) (pow_search_perf big_endian C challenge pow))
      else Some (pre_response, rng))"

definition ChallengeContext_new_perf ::
  "('pk, 'kp, 'r, 'kem) crypto_layer \<Rightarrow> 'r \<Rightarrow> challenge_context_perf \<times> 'r" where
  "ChallengeContext_new_perf C rng =
     (case fill_bytes C SALT_SIZE rng of (salt, rng') \<Rightarrow>
        (\<lparr>pc_counter = 0, pc_antireplay_window = window_new CHALLENGE_COUNTER_WINDOW_MAX_OOO,
          pc_salt = salt\<rparr>, rng'))"

definition create_mac_perf ::
  "('pk, 'kp, 'r, 'kem) crypto_layer \<Rightarrow> challenge_context_perf \<Rightarrow> u64 \<Rightarrow> bytes \<Rightarrow> bytes" where
  "create_mac_perf C self c addr = take MAC_SIZE (sha512 C (u64_to_be_bytes c @ addr @ pc_salt self))"

subsection \<open>One call\<close>

text \<open>
  The call in the order of its atomic steps: the condition reads one slot of the window, the
  rest of it is local; then either the window is updated, whose answer is dropped, or the
  counter is fetched and increased.
\<close>

definition hello_admissible ::
  "('pk, 'kp, 'r, 'kem) crypto_layer \<Rightarrow> challenge_context_perf \<Rightarrow> bytes \<Rightarrow> bytes \<Rightarrow> bool" where
  "hello_admissible C self addr response =
     (let c = u64_from_be_bytes (take COUNTER_SIZE response)
      in Window_check U64_MAX (pc_antireplay_window self) c
         \<and> secure_eq (subslice COUNTER_SIZE POW_START response) (create_mac_perf C self c addr)
         \<and> verify_pow_perf C response)"

definition hello_update :: "challenge_context_perf \<Rightarrow> bytes \<Rightarrow> challenge_context_perf" where
  "hello_update self response =
     (let c = u64_from_be_bytes (take COUNTER_SIZE response)
      in self\<lparr>pc_antireplay_window := snd (Window_update U64_MAX (pc_antireplay_window self) c)\<rparr>)"

definition hello_challenge ::
  "('pk, 'kp, 'r, 'kem) crypto_layer \<Rightarrow> challenge_context_perf \<Rightarrow> bytes \<Rightarrow> bytes
     \<Rightarrow> bytes \<times> challenge_context_perf" where
  "hello_challenge C self addr response =
     (let challenge = replicate CHALLENGE_SIZE 0;
          d = pc_counter self;
          self' = self\<lparr>pc_counter := pc_counter self + 1\<rparr>;
          challenge = write_at 0 (u64_to_be_bytes d) challenge;
          challenge = write_at COUNTER_SIZE (create_mac_perf C self' d addr) challenge;
          challenge = write_at POW_START (drop POW_START response) challenge
      in (challenge, self'))"

definition process_hello_perf ::
  "('pk, 'kp, 'r, 'kem) crypto_layer \<Rightarrow> challenge_context_perf \<Rightarrow> bytes \<Rightarrow> bytes
     \<Rightarrow> (bytes, unit) outcome \<times> challenge_context_perf" where
  "process_hello_perf C self addr response =
     (if hello_admissible C self addr response then (Ok (), hello_update self response)
      else case hello_challenge C self addr response of (challenge, self') \<Rightarrow> (Err challenge, self'))"

subsection \<open>Calls at the same time\<close>

text \<open>A call is before its check, between its check and its second step, or has returned.\<close>

datatype hello_pc = Entered | Checked bool | Returned "(bytes, unit) outcome"

record hello_call =
  hc_addr :: bytes
  hc_response :: bytes
  hc_pc :: hello_pc

definition hello_enter :: "bytes \<Rightarrow> bytes \<Rightarrow> hello_call" where
  "hello_enter addr response = \<lparr>hc_addr = addr, hc_response = response, hc_pc = Entered\<rparr>"

text \<open>One atomic step of one call on the shared state.\<close>

definition hello_step ::
  "('pk, 'kp, 'r, 'kem) crypto_layer \<Rightarrow> challenge_context_perf \<Rightarrow> hello_call
     \<Rightarrow> challenge_context_perf \<times> hello_call" where
  "hello_step C self t =
     (case hc_pc t of
        Entered \<Rightarrow> (self, t\<lparr>hc_pc := Checked (hello_admissible C self (hc_addr t) (hc_response t))\<rparr>)
      | Checked True \<Rightarrow> (hello_update self (hc_response t), t\<lparr>hc_pc := Returned (Ok ())\<rparr>)
      | Checked False \<Rightarrow>
          (case hello_challenge C self (hc_addr t) (hc_response t) of
             (challenge, self') \<Rightarrow> (self', t\<lparr>hc_pc := Returned (Err challenge)\<rparr>))
      | Returned r \<Rightarrow> (self, t))"

text \<open>A schedule names the call that moves next.\<close>

primrec hello_schedule ::
  "('pk, 'kp, 'r, 'kem) crypto_layer \<Rightarrow> challenge_context_perf \<Rightarrow> hello_call list \<Rightarrow> nat list
     \<Rightarrow> challenge_context_perf \<times> hello_call list" where
  "hello_schedule C self ts [] = (self, ts)"
| "hello_schedule C self ts (i # is) =
     (if i < length ts
      then case hello_step C self (ts ! i) of (self', t) \<Rightarrow> hello_schedule C self' (ts[i := t]) is
      else hello_schedule C self ts is)"

text \<open>The state of the reference crate, switched on.\<close>

definition challenge_abs :: "challenge_context_perf \<Rightarrow> challenge_context" where
  "challenge_abs self =
     \<lparr>cc_enabled = True, cc_counter = pc_counter self, cc_antireplay_window = pc_antireplay_window self,
      cc_salt = pc_salt self\<rparr>"

definition hello_result :: "(bytes, unit) outcome \<Rightarrow> (bytes, bool) outcome" where
  "hello_result r = (case r of Ok _ \<Rightarrow> Ok True | Err e \<Rightarrow> Err e | Panic \<Rightarrow> Panic | Diverge \<Rightarrow> Diverge)"

section \<open>The window and the proof of work are those of the reference crate\<close>

lemma Window_check_U64_MAX: "Window_check U64_MAX w c = check_window w c"
  by (simp add: Window_check_def check_window_def U64_MAX_def Let_def)

lemma Window_update_checked:
  "check_window w c \<Longrightarrow> snd (Window_update mx w c) = update_window w c"
  by (simp add: Window_update_def update_window_def check_window_def Let_def max_absorb2 less_imp_le)

lemma verify_pow_perf_eq: "verify_pow_perf C response = verify_pow C response"
  by (simp add: verify_pow_perf_def verify_pow_def)

lemma create_mac_abs: "create_mac C (challenge_abs s) c addr = create_mac_perf C s c addr"
  by (simp add: create_mac_def create_mac_perf_def challenge_abs_def)

lemma length_u64_to_ne_bytes [simp]: "length (u64_to_ne_bytes b x) = 8"
  by (simp add: u64_to_ne_bytes_def)

interpretation performance_pow: pow_loop "pow_search_perf b C" "u64_to_ne_bytes b" "verify_pow_perf C"
  for b C
  by unfold_locales (simp_all add: pow_search_perf.simps Let_def zssp_sizes)

lemma respond_to_challenge_perf_returns:
  assumes "length ch = CHALLENGE_SIZE" "drop POW_START ch = drop POW_START pre"
    and "\<exists>p. verify_pow_perf C (write_at POW_START (u64_to_ne_bytes b p) ch)"
  obtains q rng' where
    "respond_to_challenge_in_place_perf b C rng ch pre =
       Some (write_at POW_START (u64_to_ne_bytes b q) ch, rng')"
    "verify_pow_perf C (write_at POW_START (u64_to_ne_bytes b q) ch)"
proof -
  obtain x rng' where r: "next_u64 C rng = (x, rng')" by fastforce
  have "length ch = 32" using assms(1) by (simp add: zssp_sizes)
  with assms(3) obtain q where "pow_search_perf b C ch x = Some (write_at POW_START (u64_to_ne_bytes b q) ch)"
    "verify_pow_perf C (write_at POW_START (u64_to_ne_bytes b q) ch)"
    using performance_pow.search_finds [of ch C b] by (auto simp: zssp_sizes)
  with r assms(2) that show thesis by (simp add: respond_to_challenge_in_place_perf_def)
qed

section \<open>Interleavings\<close>

lemma hello_step_alone:
  "hello_schedule C self [hello_enter addr response] [0, 0] =
     (snd (process_hello_perf C self addr response),
      [(hello_enter addr response)\<lparr>hc_pc := Returned (fst (process_hello_perf C self addr response))\<rparr>])"
  by (auto simp: hello_step_def hello_enter_def process_hello_perf_def split: prod.splits bool.splits)

text \<open>The counter of the challenge that a call has returned.\<close>

definition issued :: "hello_call \<Rightarrow> u64 option" where
  "issued t = (case hc_pc t of Returned (Err ch) \<Rightarrow> Some (u64_from_be_bytes (take COUNTER_SIZE ch)) | _ \<Rightarrow> None)"

definition issuers :: "hello_call list \<Rightarrow> nat set" where
  "issuers ts = {i. i < length ts \<and> issued (ts ! i) \<noteq> None}"

definition issue_inv :: "u64 \<Rightarrow> challenge_context_perf \<Rightarrow> hello_call list \<Rightarrow> bool" where
  "issue_inv start self ts \<longleftrightarrow>
     pc_counter self = start + of_nat (card (issuers ts)) \<and>
     (\<forall>i \<in> issuers ts. \<exists>k < card (issuers ts). issued (ts ! i) = Some (start + of_nat k)) \<and>
     inj_on (\<lambda>i. issued (ts ! i)) (issuers ts)"

lemma finite_issuers [simp]: "finite (issuers ts)"
  by (rule finite_subset [of _ "{..<length ts}"]) (auto simp: issuers_def)

lemma card_issuers_le: "card (issuers ts) \<le> length ts"
  using card_mono [of "{..<length ts}" "issuers ts"] by (auto simp: issuers_def)

lemma hello_challenge_counter:
  assumes "hello_challenge C self addr response = (ch, self')"
  shows "u64_from_be_bytes (take COUNTER_SIZE ch) = pc_counter self"
    and "self' = self\<lparr>pc_counter := pc_counter self + 1\<rparr>"
  using assms by (auto simp: hello_challenge_def Let_def zssp_sizes write_at_def)

lemma hello_step_issued:
  assumes "hello_step C self t = (self', t')"
  shows "issued t' = issued t \<and> pc_counter self' = pc_counter self \<or>
    issued t = None \<and> issued t' = Some (pc_counter self) \<and> pc_counter self' = pc_counter self + 1"
  using assms
  by (auto simp: hello_step_def issued_def hello_update_def Let_def hello_challenge_counter(1)
      dest: hello_challenge_counter(2) split: hello_pc.splits bool.splits prod.splits)

lemma issuers_update:
  "i < length ts \<Longrightarrow>
   issuers (ts[i := t]) = (if issued t = None then issuers ts - {i} else insert i (issuers ts))"
  by (auto simp: issuers_def nth_list_update)

lemma of_nat_fresh:
  assumes "k < n" "n < 2 ^ 64"
  shows "start + of_nat k \<noteq> start + (of_nat n :: u64)"
proof
  assume "start + of_nat k = start + (of_nat n :: u64)"
  then have "unat (of_nat k :: u64) = unat (of_nat n :: u64)" by simp
  with assms show False by (simp add: unat_of_nat)
qed

lemma issue_inv_same:
  assumes "issue_inv start self ts" "i < length ts" "issued t' = issued (ts ! i)"
    "pc_counter self' = pc_counter self"
  shows "issue_inv start self' (ts[i := t'])"
proof -
  have same: "issued (ts[i := t'] ! j) = issued (ts ! j)" if "j < length ts" for j
    using assms(2,3) that by (simp add: nth_list_update)
  have iss: "issuers (ts[i := t']) = issuers ts"
    using same by (auto simp: issuers_def)
  have "inj_on (\<lambda>j. issued (ts[i := t'] ! j)) (issuers ts) = inj_on (\<lambda>j. issued (ts ! j)) (issuers ts)"
    by (rule inj_on_cong) (simp add: same issuers_def)
  then show ?thesis
    using assms(1,4) same unfolding issue_inv_def iss by (simp add: issuers_def)
qed

lemma issue_inv_new:
  assumes inv: "issue_inv start self ts" and i: "i < length ts" "issued (ts ! i) = None"
    and t: "issued t' = Some (pc_counter self)" "pc_counter self' = pc_counter self + 1"
    and small: "length ts < 2 ^ 64"
  shows "issue_inv start self' (ts[i := t'])"
proof -
  let ?I = "issuers ts" and ?ts = "ts[i := t']"
  have notin: "i \<notin> ?I" using i(2) by (simp add: issuers_def)
  have iss: "issuers ?ts = insert i ?I" using i(1) t(1) by (simp add: issuers_update)
  have card: "card (issuers ?ts) = Suc (card ?I)" using notin by (simp add: iss)
  have old: "issued (?ts ! j) = issued (ts ! j)" if "j \<in> ?I" for j
    using that notin i(1) by (auto simp: nth_list_update)
  have new: "issued (?ts ! i) = Some (start + of_nat (card ?I))"
    using inv i(1) t(1) by (simp add: issue_inv_def)
  have before: "\<exists>k < card ?I. issued (ts ! j) = Some (start + of_nat k)" if "j \<in> ?I" for j
    using inv that by (simp add: issue_inv_def)
  have "card ?I < 2 ^ 64" using card_issuers_le [of ts] small by linarith
  then have fresh: "issued (ts ! j) \<noteq> Some (start + of_nat (card ?I))" if "j \<in> ?I" for j
    using before [OF that] of_nat_fresh by fastforce
  have "inj_on (\<lambda>j. issued (?ts ! j)) ?I = inj_on (\<lambda>j. issued (ts ! j)) ?I"
    by (rule inj_on_cong) (rule old)
  then have inj: "inj_on (\<lambda>j. issued (?ts ! j)) (issuers ?ts)"
    using inv fresh old new notin unfolding iss issue_inv_def
    by (auto simp: inj_on_insert image_iff simp del: nth_list_update_eq)
  have "\<forall>j \<in> issuers ?ts. \<exists>k < card (issuers ?ts). issued (?ts ! j) = Some (start + of_nat k)"
    unfolding card unfolding iss using new old before by (metis insertE less_SucI lessI)
  with inj show ?thesis
    using inv t(2) card by (simp add: issue_inv_def ac_simps)
qed

lemma issue_inv_step:
  assumes "issue_inv start self ts" "i < length ts" "length ts < 2 ^ 64"
    and "hello_step C self (ts ! i) = (self', t')"
  shows "issue_inv start self' (ts[i := t'])"
  using hello_step_issued [OF assms(4)] issue_inv_same [OF assms(1,2)] issue_inv_new [OF assms(1,2)] assms(3)
  by metis

lemma issue_inv_schedule:
  "issue_inv start self ts \<Longrightarrow> length ts < 2 ^ 64 \<Longrightarrow>
   hello_schedule C self ts sched = (self', ts') \<Longrightarrow> issue_inv start self' ts' \<and> length ts' = length ts"
proof (induction sched arbitrary: self ts)
  case Nil
  then show ?case by simp
next
  case (Cons i sched)
  show ?case
  proof (cases "i < length ts")
    case True
    obtain self1 t1 where st: "hello_step C self (ts ! i) = (self1, t1)" by fastforce
    have "issue_inv start self1 (ts[i := t1])"
      by (rule issue_inv_step [OF Cons.prems(1) True Cons.prems(2) st])
    from Cons.IH [OF this] Cons.prems(2,3) True st show ?thesis by simp
  next
    case False
    with Cons show ?thesis by simp
  qed
qed

section \<open>Properties\<close>

text \<open>C39: A call of the performance crate's \<open>process_hello\<close> that runs alone does what the reference
  crate's does with the challenge switched on: the same verdict, the same challenge bytes, and
  the state it leaves stands for the state the reference leaves.\<close>

theorem challenge_perf_refines:
  "(hello_result (fst (process_hello_perf C self addr response)),
    challenge_abs (snd (process_hello_perf C self addr response))) =
   process_hello C (challenge_abs self) addr response"
proof (cases "hello_admissible C self addr response")
  case True
  then show ?thesis
    by (simp add: process_hello_perf_def process_hello_def hello_admissible_def hello_update_def
        hello_result_def Window_check_U64_MAX Window_update_checked verify_pow_perf_eq create_mac_abs Let_def)
       (simp add: challenge_abs_def)
next
  case False
  have mac: "create_mac C (challenge_abs self\<lparr>cc_counter := x\<rparr>) d addr = create_mac_perf C self d addr"
    "create_mac_perf C (self\<lparr>pc_counter := x\<rparr>) d addr = create_mac_perf C self d addr" for x d
    by (simp_all add: create_mac_def create_mac_perf_def challenge_abs_def)
  have f: "cc_enabled (challenge_abs self)" "cc_counter (challenge_abs self) = pc_counter self"
    "cc_antireplay_window (challenge_abs self) = pc_antireplay_window self"
    "challenge_abs (self\<lparr>pc_counter := x\<rparr>) = challenge_abs self\<lparr>cc_counter := x\<rparr>" for x
    by (simp_all add: challenge_abs_def)
  from False show ?thesis
    by (auto simp: process_hello_perf_def process_hello_def hello_admissible_def hello_challenge_def
        hello_result_def Window_check_U64_MAX verify_pow_perf_eq create_mac_abs Let_def mac f)
qed

text \<open>However the atomic steps of concurrent calls of \<open>process_hello\<close> interleave, no two of the
  challenges they return carry the same counter (for fewer than \<open>2^64\<close> calls).\<close>

theorem challenge_counters_unique:
  assumes "length hellos < 2 ^ 64"
    and "hello_schedule C self (map (\<lambda>(addr, response). hello_enter addr response) hellos) sched = (self', ts)"
    and "i < length hellos" "j < length hellos" "i \<noteq> j"
    and "hc_pc (ts ! i) = Returned (Err ch1)" "hc_pc (ts ! j) = Returned (Err ch2)"
  shows "u64_from_be_bytes (take COUNTER_SIZE ch1) \<noteq> u64_from_be_bytes (take COUNTER_SIZE ch2)"
proof -
  let ?ts = "map (\<lambda>(addr, response). hello_enter addr response) hellos"
  have "issuers ?ts = {}" by (auto simp: issuers_def issued_def hello_enter_def split: prod.splits)
  then have "issue_inv (pc_counter self) self ?ts" by (simp add: issue_inv_def)
  then have "issue_inv (pc_counter self) self' ts" and l: "length ts = length hellos"
    using issue_inv_schedule [of "pc_counter self" self ?ts C sched] assms(1,2) by simp_all
  then have inj: "inj_on (\<lambda>i. issued (ts ! i)) (issuers ts)" by (simp add: issue_inv_def)
  have "i \<in> issuers ts" "j \<in> issuers ts" using assms(3,4,6,7) l by (simp_all add: issuers_def issued_def)
  with inj assms(5) have "issued (ts ! i) \<noteq> issued (ts ! j)" by (auto dest: inj_onD)
  with assms(6,7) show ?thesis by (simp add: issued_def)
qed

theorem challenge_counters_unique_witness:
  "let cc = fst (ChallengeContext_new_perf sample_crypto 5);
       ts = snd (hello_schedule sample_crypto cc
              [hello_enter [1] (replicate 32 7), hello_enter [2] (replicate 32 7)] [0, 1, 1, 0])
   in \<exists>ch1 ch2. hc_pc (ts ! 0) = Returned (Err ch1) \<and> hc_pc (ts ! 1) = Returned (Err ch2) \<and>
        u64_from_be_bytes (take COUNTER_SIZE ch1) \<noteq> u64_from_be_bytes (take COUNTER_SIZE ch2)"
proof -
  let ?cc = "fst (ChallengeContext_new_perf sample_crypto 5)"
  let ?hellos = "[([1], replicate 32 7), ([2], replicate 32 7)] :: (bytes \<times> bytes) list"
  let ?run = "hello_schedule sample_crypto ?cc
    (map (\<lambda>(addr, response). hello_enter addr response) ?hellos) [0, 1, 1, 0]"
  have no: "\<not> hello_admissible sample_crypto ?cc addr (replicate 32 7)" for addr
    by (simp add: hello_admissible_def Let_def zssp_sizes create_mac_perf_def subslice_def)
       (simp add: sample_crypto_def)
  obtain ch1 ch2 where e: "hc_pc (snd ?run ! 0) = Returned (Err ch1)" "hc_pc (snd ?run ! 1) = Returned (Err ch2)"
    by (simp add: hello_step_def hello_enter_def no case_prod_beta)
  have "u64_from_be_bytes (take COUNTER_SIZE ch1) \<noteq> u64_from_be_bytes (take COUNTER_SIZE ch2)"
    by (rule challenge_counters_unique [OF _ prod.collapse [symmetric] _ _ _ e]) simp_all
  with e show ?thesis unfolding Let_def list.map prod.case by blast
qed

text \<open>C40: The window check and the window update of a hello are two atomic steps, and the answer of
  the update is dropped. A response that one call admits is admitted by two calls whose checks
  both come before the first update, whereas the second of two calls that run one after the
  other refuses it.\<close>

theorem challenge_admitted_twice:
  assumes "fst (process_hello_perf C self addr response) = Ok ()"
    and "window_wf (pc_antireplay_window self)"
  shows "let calls = [hello_enter addr response, hello_enter addr response] in
    map hc_pc (snd (hello_schedule C self calls [0, 1, 0, 1])) = [Returned (Ok ()), Returned (Ok ())] \<and>
    (\<exists>ch. map hc_pc (snd (hello_schedule C self calls [0, 0, 1, 1])) = [Returned (Ok ()), Returned (Err ch)])"
proof -
  have adm: "hello_admissible C self addr response"
    using assms(1) by (auto simp: process_hello_perf_def split: if_splits prod.splits)
  let ?c = "u64_from_be_bytes (take COUNTER_SIZE response)" and ?w = "pc_antireplay_window self"
  have "check_window ?w ?c"
    using adm by (simp add: hello_admissible_def Window_check_U64_MAX Let_def)
  then have "\<not> Window_check U64_MAX (pc_antireplay_window (hello_update self response)) ?c"
    using assms(2)
    by (simp add: hello_update_def Window_update_checked Window_check_U64_MAX Let_def
        check_window_def update_window_def window_slot_less)
  then have "\<not> hello_admissible C (hello_update self response) addr response"
    by (simp add: hello_admissible_def Let_def)
  with adm show ?thesis by (simp add: Let_def hello_step_def hello_enter_def case_prod_beta)
qed

theorem challenge_admitted_twice_witness:
  "let cc = fst (ChallengeContext_new_perf sample_crypto 5);
       t = hello_enter [10, 0, 0, 1] (replicate 32 0)
   in map hc_pc (snd (hello_schedule sample_crypto cc [t, t] [0, 1, 0, 1])) =
        [Returned (Ok ()), Returned (Ok ())]"
proof -
  let ?cc = "fst (ChallengeContext_new_perf sample_crypto 5)"
  have wf: "window_wf (pc_antireplay_window ?cc)"
    by (simp add: ChallengeContext_new_perf_def case_prod_beta window_wf_def window_new_def zssp_sizes)
  have c: "u64_from_be_bytes (replicate 8 0) = 0"
    by (simp add: u64_from_be_bytes_def nat_of_be_def numeral_eq_Suc)
  have "hello_admissible sample_crypto ?cc [10, 0, 0, 1] (replicate 32 0)"
    by (simp add: hello_admissible_def Let_def zssp_sizes c ChallengeContext_new_perf_def case_prod_beta
        Window_check_U64_MAX verify_pow_perf_eq sample_verify_pow check_window_def window_new_def
        window_slot_def create_mac_perf_def subslice_def) (simp add: sample_crypto_def)
  then have "fst (process_hello_perf sample_crypto ?cc [10, 0, 0, 1] (replicate 32 0)) = Ok ()"
    by (simp add: process_hello_perf_def)
  from challenge_admitted_twice [OF this wf] show ?thesis by (simp add: Let_def)
qed

end
