(* ===== verification/Perf_Interface.thy ===== *)
theory Perf_Interface
  imports Perf_Symmetric Perf_Challenge Application
begin

text \<open>
  The interfaces of the performance crate: its errors and results
  (\<open>performance/src/result.rs\<close>), the callbacks of the application and the actions they
  return (\<open>performance/src/application.rs\<close>), the streaming cipher
  \<open>HighThroughputAesGcmPool\<close> (\<open>performance/src/crypto/aes.rs\<close>), and what the crate takes from
  the platform. The fault types, \<open>OpenError\<close> and \<open>SendError\<close> have the constructors of the
  reference crate and are shared.
\<close>

section \<open>Results\<close>

record byzantine_fault_perf =
  bp_session :: "session_id option"
  bp_caused_expiration :: bool
  bp_error :: fault_type
  bp_unnatural :: bool

datatype receive_error_perf =
    ByzantineFaultP byzantine_fault_perf
  | MaxKeyLifetimeExceededP session_id
  | RejectedP
  | StorageErrorP io_error
  | WriteErrorP io_error session_id

text \<open>The three forms of the macro \<open>fault!\<close>.\<close>

definition fault_un :: "fault_type \<Rightarrow> bool \<Rightarrow> receive_error_perf" where
  "fault_un name unnatural = ByzantineFaultP
     \<lparr>bp_session = None, bp_caused_expiration = False, bp_error = name, bp_unnatural = unnatural\<rparr>"

definition fault_exp :: "fault_type \<Rightarrow> bool \<Rightarrow> session_id \<Rightarrow> bool \<Rightarrow> receive_error_perf" where
  "fault_exp name unnatural session e = ByzantineFaultP
     \<lparr>bp_session = Some session, bp_caused_expiration = e, bp_error = name, bp_unnatural = unnatural\<rparr>"

definition fault_on :: "fault_type \<Rightarrow> bool \<Rightarrow> session_id \<Rightarrow> receive_error_perf" where
  "fault_on name unnatural session = fault_exp name unnatural session False"

text \<open>The payload of a \<open>Data\<close> event goes to the caller's buffer and is not part of the event.\<close>

datatype session_event_perf =
    NewSessionP | NewDowngradedSessionP | EstablishedP | RejectedEventP | DataP | ControlP
  | DowngradedRatchetKeyP

datatype receive_ok_perf =
    UnassociatedP
  | AssociatedP session_id session_event_perf
  | FragmentP session_id

text \<open>The guard \<open>Err(ReceiveError::ByzantineFault(fault)) if fault.caused_expiration\<close>.\<close>

definition caused_expiration :: "receive_error_perf \<Rightarrow> bool" where
  "caused_expiration e = (case e of ByzantineFaultP f \<Rightarrow> bp_caused_expiration f | _ \<Rightarrow> False)"

text \<open>The messages; those of the shared types are the same in both crates.\<close>

definition display_expired_error :: "session_id \<Rightarrow> string" where
  "display_expired_error session = ''session expired''"

definition display_byzantine_fault_perf :: "byzantine_fault_perf \<Rightarrow> string" where
  "display_byzantine_fault_perf e = display_fault_type (bp_error e)"

definition display_receive_error_perf :: "(io_error \<Rightarrow> string) \<Rightarrow> receive_error_perf \<Rightarrow> string" where
  "display_receive_error_perf io e = (case e of
     ByzantineFaultP e \<Rightarrow> display_byzantine_fault_perf e
   | MaxKeyLifetimeExceededP _ \<Rightarrow> ''max key lifetime exceeded''
   | RejectedP \<Rightarrow> ''attempt to establish session rejected''
   | StorageErrorP e \<Rightarrow> io e
   | WriteErrorP e _ \<Rightarrow> io e)"

text \<open>An error of \<open>performance\<close> without the session that it names is one of \<open>reference\<close>.\<close>

definition forget_session :: "receive_error_perf \<Rightarrow> receive_error" where
  "forget_session e = (case e of
     ByzantineFaultP f \<Rightarrow> fault (bp_error f) (bp_unnatural f)
   | MaxKeyLifetimeExceededP _ \<Rightarrow> MaxKeyLifetimeExceeded
   | RejectedP \<Rightarrow> ReceiveRejected
   | StorageErrorP e \<Rightarrow> StorageError e
   | WriteErrorP e _ \<Rightarrow> WriteError e)"

section \<open>The application\<close>

datatype incoming_session_action = AllowP | ChallengeP | DropP

record ('pk, 'd, 'fd, 'a) application_perf =
  pa_time :: "'a \<Rightarrow> i64 \<times> 'a"
  pa_incoming_session :: "'a \<Rightarrow> incoming_session_action \<times> 'a"
  pa_hello_requires_recognized_ratchet :: "'a \<Rightarrow> bool \<times> 'a"
  pa_initiator_disallows_downgrade :: "session_id \<Rightarrow> 'a \<Rightarrow> bool \<times> 'a"
  pa_check_accept_session :: "'pk \<Rightarrow> bytes \<Rightarrow> 'fd option \<Rightarrow> 'a \<Rightarrow> 'd accept_action \<times> 'a"
  pa_restore_by_fingerprint :: "bytes \<Rightarrow> 'a \<Rightarrow> (io_error + (ratchet_state \<times> 'fd) option) \<times> 'a"
  pa_restore_by_identity :: "'pk \<Rightarrow> 'd \<Rightarrow> 'fd option \<Rightarrow> 'a \<Rightarrow> (io_error + ratchet_states option) \<times> 'a"
  pa_save_ratchet_state :: "'pk \<Rightarrow> 'd \<Rightarrow> compare_and_swap \<Rightarrow> 'a \<Rightarrow> (io_error + bool) \<times> 'a"

text \<open>
  A \<open>Sender\<close> is given by its answers: \<open>send k\<close> says whether the \<open>k\<close>-th fragment was taken. A
  \<open>SendTo\<close> gives the sender of a session with its MTU, or nothing.
\<close>

type_synonym sender = "nat \<Rightarrow> bool"
type_synonym send_to = "session_id \<Rightarrow> (sender \<times> nat) option"

section \<open>The platform\<close>

text \<open>
  An instance of \<open>HighThroughputAesGcmPool\<close> is made from an encryption and a decryption key.
  A context of it is its nonce and the chunks streamed so far, on which the cipher text of the
  next chunk and the tag depend. \<open>pl_needs_drop\<close> is \<open>std::mem::needs_drop\<close> of the packet buffer,
  \<open>pl_frag_hash\<close> the salted hash of the fragment cache.
\<close>

type_synonym aead_pool = "bytes \<times> bytes"
type_synonym stream_context = "bytes \<times> bytes list"

record platform =
  pl_big_endian :: bool
  pl_needs_drop :: bool
  pl_frag_hash :: "bytes \<Rightarrow> bytes \<Rightarrow> u64"
  pl_stream_encrypt :: "bytes \<Rightarrow> stream_context \<Rightarrow> bytes \<Rightarrow> bytes"
  pl_stream_tag :: "bytes \<Rightarrow> stream_context \<Rightarrow> bytes"
  pl_stream_decrypt :: "bytes \<Rightarrow> stream_context \<Rightarrow> bytes \<Rightarrow> bytes"
  pl_stream_verify :: "bytes \<Rightarrow> stream_context \<Rightarrow> bytes \<Rightarrow> bool"

definition pool_new :: "bytes \<Rightarrow> bytes \<Rightarrow> aead_pool" where
  "pool_new encrypt_key decrypt_key = (encrypt_key, decrypt_key)"

definition start_stream :: "bytes \<Rightarrow> stream_context" where
  "start_stream nonce = (nonce, [])"

definition pool_encrypt :: "platform \<Rightarrow> aead_pool \<Rightarrow> stream_context \<Rightarrow> bytes \<Rightarrow> bytes \<times> stream_context" where
  "pool_encrypt P pool enc input = (pl_stream_encrypt P (fst pool) enc input, (fst enc, snd enc @ [input]))"

definition pool_finish_enc :: "platform \<Rightarrow> aead_pool \<Rightarrow> stream_context \<Rightarrow> bytes" where
  "pool_finish_enc P pool enc = pl_stream_tag P (fst pool) enc"

definition pool_decrypt :: "platform \<Rightarrow> aead_pool \<Rightarrow> stream_context \<Rightarrow> bytes \<Rightarrow> bytes \<times> stream_context" where
  "pool_decrypt P pool dec data = (pl_stream_decrypt P (snd pool) dec data, (fst dec, snd dec @ [data]))"

definition pool_finish_dec :: "platform \<Rightarrow> aead_pool \<Rightarrow> stream_context \<Rightarrow> bytes \<Rightarrow> bool" where
  "pool_finish_dec P pool dec tag = pl_stream_verify P (snd pool) dec tag"

text \<open>
  What the trait promises: a chunk keeps its length and a tag has 16 bytes; and streaming the
  cipher chunks of a message through a context with the same key and nonce gives the chunks
  back and accepts the tag.
\<close>

primrec stream_encrypt_all :: "platform \<Rightarrow> bytes \<Rightarrow> stream_context \<Rightarrow> bytes list \<Rightarrow> bytes list" where
  "stream_encrypt_all P k enc [] = []"
| "stream_encrypt_all P k enc (x # xs) =
     pl_stream_encrypt P k enc x # stream_encrypt_all P k (fst enc, snd enc @ [x]) xs"

primrec stream_decrypt_all :: "platform \<Rightarrow> bytes \<Rightarrow> stream_context \<Rightarrow> bytes list \<Rightarrow> bytes list" where
  "stream_decrypt_all P k dec [] = []"
| "stream_decrypt_all P k dec (x # xs) =
     pl_stream_decrypt P k dec x # stream_decrypt_all P k (fst dec, snd dec @ [x]) xs"

definition stream_sized :: "platform \<Rightarrow> bool" where
  "stream_sized P \<longleftrightarrow>
     (\<forall>k c x. length (pl_stream_encrypt P k c x) = length x) \<and>
     (\<forall>k c x. length (pl_stream_decrypt P k c x) = length x) \<and>
     (\<forall>k c. length (pl_stream_tag P k c) = AES_GCM_TAG_SIZE)"

definition stream_correct :: "platform \<Rightarrow> bool" where
  "stream_correct P \<longleftrightarrow>
     (\<forall>k n xs. stream_decrypt_all P k (n, []) (stream_encrypt_all P k (n, []) xs) = xs \<and>
        pl_stream_verify P k (n, stream_encrypt_all P k (n, []) xs) (pl_stream_tag P k (n, xs)))"

text \<open>\<open>u32::to_ne_bytes\<close> and \<open>u32::from_ne_bytes\<close>.\<close>

definition u32_to_ne_bytes :: "platform \<Rightarrow> u32 \<Rightarrow> bytes" where
  "u32_to_ne_bytes P x = (if pl_big_endian P then u32_to_be_bytes x else rev (u32_to_be_bytes x))"

definition u32_from_ne_bytes :: "platform \<Rightarrow> bytes \<Rightarrow> u32" where
  "u32_from_ne_bytes P bs = u32_from_be_bytes (if pl_big_endian P then bs else rev bs)"

section \<open>Reversed time stamps\<close>

text \<open>\<open>std::cmp::Reverse<i64>\<close>, the priority of the session queue.\<close>

datatype reverse = Reverse (rev_time: i64)

instantiation reverse :: linorder
begin

definition less_eq_reverse :: "reverse \<Rightarrow> reverse \<Rightarrow> bool" where
  "less_eq_reverse a b \<longleftrightarrow> rev_time b \<le> rev_time a"

definition less_reverse :: "reverse \<Rightarrow> reverse \<Rightarrow> bool" where
  "less_reverse a b \<longleftrightarrow> rev_time b < rev_time a"

instance
  by standard (auto simp: less_eq_reverse_def less_reverse_def reverse.expand)

end

lemma Reverse_le [simp]: "Reverse a \<le> Reverse b \<longleftrightarrow> b \<le> a"
  by (simp add: less_eq_reverse_def)

section \<open>Facts\<close>

text \<open>Both crates report an error with the same message.\<close>

lemma display_same_text: "display_receive_error_perf io e = display_receive_error io (forget_session e)"
  by (cases e) (simp_all add: display_receive_error_perf_def display_receive_error_def forget_session_def fault_def
      display_byzantine_fault_perf_def display_byzantine_fault_def)

lemma length_u32_to_ne_bytes [simp]: "length (u32_to_ne_bytes P x) = 4"
  by (simp add: u32_to_ne_bytes_def)

lemma u32_ne_roundtrip [simp]: "u32_from_ne_bytes P (u32_to_ne_bytes P x) = x"
  by (simp add: u32_to_ne_bytes_def u32_from_ne_bytes_def)

text \<open>A platform whose streaming cipher is the identity with a tag of zeros, for examples.\<close>

definition sample_platform :: platform where
  "sample_platform =
     \<lparr>pl_big_endian = False, pl_needs_drop = True, pl_frag_hash = (\<lambda>addr n. 7),
      pl_stream_encrypt = (\<lambda>k c x. x), pl_stream_tag = (\<lambda>k c. replicate 16 0),
      pl_stream_decrypt = (\<lambda>k c x. x), pl_stream_verify = (\<lambda>k c t. t = replicate 16 0)\<rparr>"

lemma sample_stream_sized: "stream_sized sample_platform"
  by (simp add: stream_sized_def sample_platform_def zssp_sizes)

lemma sample_stream_correct: "stream_correct sample_platform"
proof -
  have "stream_encrypt_all sample_platform k c xs = xs" "stream_decrypt_all sample_platform k c xs = xs" for k c xs
    by (induction xs arbitrary: c) (simp_all add: sample_platform_def)
  then show ?thesis by (simp add: stream_correct_def) (simp add: sample_platform_def)
qed

end
