(* ===== verification/Perf_State.thy ===== *)
theory Perf_State
  imports Perf_Interface Zeta_Session Indexed_Heap Frag_Cache Handshake_Cache
begin

text \<open>
  The state of a session and of the context of the performance crate
  (\<open>performance/src/zeta.rs\<close>, \<open>ContextInner\<close> of \<open>performance/src/zssp.rs\<close>) and the operations
  that its transition algorithms share.

  The model runs one call at a time. A session is an \<open>Arc<Session>\<close> named by its address; the
  fields of \<open>MutableState\<close>, which the source keeps behind a lock, stand beside those of
  \<open>Session\<close>. A \<open>PrpEnc\<close> or \<open>PrpDec\<close> is its key, an \<open>AeadPool\<close> its two keys. The state of a
  pending handshake is shared between the cache and the call that looked it up, so the cache
  holds addresses. \<open>Weak::upgrade\<close> is a look-up in the heap. A packet in an
  \<open>ArrayVec\<close> is a list; that it never outgrows its capacity is shown in \<open>Perf_Buffers\<close>.

  \<open>to_nonce\<close>, \<open>from_nonce\<close> and \<open>gen_kid\<close> are, line by line, those of the reference crate and are
  used from there. An operation of the session queue that panics is \<open>None\<close>.
\<close>

section \<open>Data\<close>

record keys_perf =
  ke_kek :: "bytes option"
  ke_kid :: "u32 option"

definition keys_perf_default :: keys_perf where
  "keys_perf_default = \<lparr>ke_kek = None, ke_kid = None\<rparr>"

record duplex_key_perf =
  dp_send :: keys_perf
  dp_recv :: keys_perf
  dp_nk :: "aead_pool option"

definition duplex_key_perf_default :: duplex_key_perf where
  "duplex_key_perf_default = \<lparr>dp_send = keys_perf_default, dp_recv = keys_perf_default, dp_nk = None\<rparr>"

definition replace_nk :: "bytes \<Rightarrow> bytes \<Rightarrow> duplex_key_perf \<Rightarrow> duplex_key_perf" where
  "replace_nk nk_send nk_recv self =
     self\<lparr>dp_nk := Some (pool_new (take AES_256_KEY_SIZE nk_send) (take AES_256_KEY_SIZE nk_recv))\<rparr>"

definition replace_kek :: "bytes \<Rightarrow> keys_perf \<Rightarrow> keys_perf" where
  "replace_kek kek self = self\<lparr>ke_kek := Some (take AES_256_KEY_SIZE kek)\<rparr>"

text \<open>Packets are stored with room for their header.\<close>

record ('kp, 'kem) state_a1_perf =
  ap_noise :: symmetric_state
  ap_e_secret :: 'kp
  ap_e1_secret :: 'kem
  ap_identity :: bytes
  ap_x1 :: bytes

datatype ('kp, 'kem) automata_perf =
    PNull
  | PA1 "('kp, 'kem) state_a1_perf"
  | PA3 bytes bytes
  | PS1
  | PS2
  | PR1 symmetric_state 'kp bytes
  | PR2 bytes

record ('pk, 'kp, 'kem, 'd) session_perf =
  ps_session_data :: 'd
  ps_was_bob :: bool
  ps_queue_idx :: heap_index
  ps_s_remote :: 'pk
  ps_send_counter :: u64
  ps_window :: "u64 list"
  ps_defrag :: "bytes fragged list"
  ps_ratchet_state1 :: ratchet_state
  ps_ratchet_state2 :: "ratchet_state option"
  ps_hk_send :: bytes
  ps_hk_recv :: bytes
  ps_key_creation_counter :: u64
  ps_key_index :: bool
  ps_keys :: "bool \<Rightarrow> duplex_key_perf"
  ps_resend_timer :: i64
  ps_timeout_timer :: i64
  ps_beta :: "('kp, 'kem) automata_perf"
  ps_noise_kk_ss :: bytes

record ('kp, 'fd) state_b2_perf =
  pb_ratchet_state :: ratchet_state
  pb_lookup_data :: "'fd option"
  pb_kid_send :: u32
  pb_kid_recv :: u32
  pb_hk_send :: bytes
  pb_hk_recv :: bytes
  pb_e_secret :: 'kp
  pb_noise :: symmetric_state
  pb_defrag :: "bytes fragged"

record ('pk, 'kp, 'r, 'kem, 'd, 'fd) context_perf =
  px_rng :: 'r
  px_next_service_time :: i64
  px_s_secret :: 'kp
  px_session_queue :: "(session_id, reverse) indexed_heap"
  px_session_map :: "u32 \<rightharpoonup> session_id"
  px_defrag_cache :: "bytes frag_cache"
  px_handshakes :: "nat handshake_cache"
  px_challenge :: challenge_context_perf
  px_heap :: "session_id \<rightharpoonup> ('pk, 'kp, 'kem, 'd) session_perf"
  px_next_session :: session_id
  px_b2_heap :: "nat \<rightharpoonup> ('kp, 'fd) state_b2_perf"
  px_next_b2 :: nat

record ('pk, 'kp, 'r, 'kem, 'd, 'fd, 'a) pworld = "('pk, 'kp, 'r, 'kem, 'd, 'fd) context_perf" +
  pw_app :: 'a
  pw_sent :: "(bytes \<times> bytes option) list"

type_synonym ('e, 'x, 'pk, 'kp, 'r, 'kem, 'd, 'fd, 'a) presult =
  "('e, 'x) outcome \<times> ('pk, 'kp, 'kem, 'd) session_perf \<times> ('pk, 'kp, 'r, 'kem, 'd, 'fd, 'a) pworld"

text \<open>\<open>send(packet, hk)\<close>, \<open>app.time()\<close> and \<open>app.save_ratchet_state(..)\<close>.\<close>

definition emit_perf ::
  "bytes \<Rightarrow> bytes option \<Rightarrow> ('pk, 'kp, 'r, 'kem, 'd, 'fd, 'a) pworld
     \<Rightarrow> ('pk, 'kp, 'r, 'kem, 'd, 'fd, 'a) pworld" where
  "emit_perf p hk w = w\<lparr>pw_sent := pw_sent w @ [(p, hk)]\<rparr>"

definition time_perf ::
  "('pk, 'd, 'fd, 'a) application_perf \<Rightarrow> ('pk, 'kp, 'r, 'kem, 'd, 'fd, 'a) pworld
     \<Rightarrow> i64 \<times> ('pk, 'kp, 'r, 'kem, 'd, 'fd, 'a) pworld" where
  "time_perf A w = (case pa_time A (pw_app w) of (t, a) \<Rightarrow> (t, w\<lparr>pw_app := a\<rparr>))"

definition save_ratchet_perf ::
  "('pk, 'd, 'fd, 'a) application_perf \<Rightarrow> 'pk \<Rightarrow> 'd \<Rightarrow> compare_and_swap
     \<Rightarrow> ('pk, 'kp, 'r, 'kem, 'd, 'fd, 'a) pworld \<Rightarrow> (io_error + bool) \<times> ('pk, 'kp, 'r, 'kem, 'd, 'fd, 'a) pworld" where
  "save_ratchet_perf A pk d u w =
     (case pa_save_ratchet_state A pk d u (pw_app w) of (r, a) \<Rightarrow> (r, w\<lparr>pw_app := a\<rparr>))"

section \<open>Keys and headers\<close>

definition key_ref_perf :: "('pk, 'kp, 'kem, 'd) session_perf \<Rightarrow> bool \<Rightarrow> duplex_key_perf" where
  "key_ref_perf self is_next = ps_keys self (ps_key_index self \<noteq> is_next)"

text \<open>An assignment through \<open>key_mut(is_next)\<close>.\<close>

definition key_mut_perf ::
  "('pk, 'kp, 'kem, 'd) session_perf \<Rightarrow> bool \<Rightarrow> (duplex_key_perf \<Rightarrow> duplex_key_perf)
     \<Rightarrow> ('pk, 'kp, 'kem, 'd) session_perf" where
  "key_mut_perf self is_next f =
     self\<lparr>ps_keys := (ps_keys self)((ps_key_index self \<noteq> is_next) := f (key_ref_perf self is_next))\<rparr>"

definition recv_kid_perf :: "('pk, 'kp, 'kem, 'd) session_perf \<Rightarrow> bool \<Rightarrow> u32 option" where
  "recv_kid_perf self is_next = ke_kid (dp_recv (key_ref_perf self is_next))"

definition set_recv_kid_perf :: "u32 \<Rightarrow> duplex_key_perf \<Rightarrow> duplex_key_perf" where
  "set_recv_kid_perf kid k = k\<lparr>dp_recv := (dp_recv k)\<lparr>ke_kid := Some kid\<rparr>\<rparr>"

definition set_send_kid_perf :: "u32 \<Rightarrow> duplex_key_perf \<Rightarrow> duplex_key_perf" where
  "set_send_kid_perf kid k = k\<lparr>dp_send := (dp_send k)\<lparr>ke_kid := Some kid\<rparr>\<rparr>"

definition replace_keks :: "bytes \<Rightarrow> bytes \<Rightarrow> duplex_key_perf \<Rightarrow> duplex_key_perf" where
  "replace_keks kek_send kek_recv k =
     k\<lparr>dp_send := replace_kek kek_send (dp_send k), dp_recv := replace_kek kek_recv (dp_recv k)\<rparr>"

definition set_header :: "platform \<Rightarrow> bytes \<Rightarrow> u32 \<Rightarrow> bytes \<Rightarrow> bytes" where
  "set_header P packet kid_send nonce =
     write_at PACKET_NONCE_START (drop NONCE_SIZE_DIFF nonce)
       (write_at 0 (u32_to_ne_bytes P kid_send) packet)"

definition create_ratchet_state ::
  "('pk, 'kp, 'r, 'kem) crypto_layer \<Rightarrow> symmetric_state \<Rightarrow> u64 \<Rightarrow> ratchet_state" where
  "create_ratchet_state C noise pre_chain_len =
     (case get_ask_perf C noise LABEL_RATCHET_STATE of
        (rk, rf) \<Rightarrow> ratchet_new (take RATCHET_SIZE rk) (take RATCHET_SIZE rf) (pre_chain_len + 1))"

text \<open>
  \<open>noise.encrypt_and_hash_in_place(.., &mut x[i..])\<close> followed by \<open>x.extend(tag)\<close>, as every writer
  of a message does.
\<close>

definition seal_tail ::
  "('pk, 'kp, 'r, 'kem) crypto_layer \<Rightarrow> symmetric_state \<Rightarrow> bytes \<Rightarrow> nat \<Rightarrow> bytes \<Rightarrow> symmetric_state \<times> bytes" where
  "seal_tail C noise nonce i x =
     (case encrypt_and_hash_perf C noise nonce (drop i x) of
        (noise, ct, tag) \<Rightarrow> (noise, (take i x @ ct) @ tag))"

section \<open>Counters, timers and key ids\<close>

text \<open>The counter is fetched and increased in one atomic step, also when it has expired.\<close>

definition get_counter_perf ::
  "('pk, 'kp, 'r, 'kem) crypto_layer \<Rightarrow> ('pk, 'kp, 'kem, 'd) session_perf
     \<Rightarrow> (u64 \<times> bool) option \<times> ('pk, 'kp, 'kem, 'd) session_perf" where
  "get_counter_perf C session =
     (let c = ps_send_counter session;
          session = session\<lparr>ps_send_counter := ps_send_counter session + 1\<rparr>
      in if THREAD_SAFE_COUNTER_HARD_EXPIRE < c \<or> ps_key_creation_counter session + EXPIRE_AFTER_USES < c
         then (None, session)
         else
           let rekey_at = ps_key_creation_counter session + rekey_after_key_uses (SETTINGS C)
           in (Some (c, rekey_at < c), session))"

definition reduce_next_service_time ::
  "i64 \<Rightarrow> ('pk, 'kp, 'r, 'kem, 'd, 'fd, 'a) pworld \<Rightarrow> i64 option \<times> ('pk, 'kp, 'r, 'kem, 'd, 'fd, 'a) pworld" where
  "reduce_next_service_time time w =
     ((if time < px_next_service_time w then Some time else None),
      w\<lparr>px_next_service_time := min (px_next_service_time w) time\<rparr>)"

text \<open>\<open>session_queue.change_priority(queue_idx, Reverse(t))\<close>, then \<open>reduce_next_service_time(t)\<close>.\<close>

definition reschedule ::
  "heap_index \<Rightarrow> i64 \<Rightarrow> ('pk, 'kp, 'r, 'kem, 'd, 'fd, 'a) pworld
     \<Rightarrow> (i64 option \<times> ('pk, 'kp, 'r, 'kem, 'd, 'fd, 'a) pworld) option" where
  "reschedule idx t w =
     (case change_priority (px_session_queue w) idx (Reverse t) of
        None \<Rightarrow> None
      | Some (_, q) \<Rightarrow> Some (reduce_next_service_time t (w\<lparr>px_session_queue := q\<rparr>)))"

definition remap_perf ::
  "('pk, 'kp, 'r, 'kem) crypto_layer \<Rightarrow> session_id \<Rightarrow> ('pk, 'kp, 'kem, 'd) session_perf
     \<Rightarrow> ('pk, 'kp, 'r, 'kem, 'd, 'fd, 'a) pworld \<Rightarrow> (u32 \<times> ('pk, 'kp, 'r, 'kem, 'd, 'fd, 'a) pworld) option" where
  "remap_perf C session z w =
     (let (weak, m) =
        (case recv_kid_perf z True of
           Some kid \<Rightarrow>
             (case px_session_map w kid of
                Some s \<Rightarrow> (s, (px_session_map w)(kid := None))
              | None \<Rightarrow> (session, px_session_map w))
         | None \<Rightarrow> (session, px_session_map w))
      in case gen_kid C m (px_rng w) of
           None \<Rightarrow> None
         | Some (new_kid_recv, rng) \<Rightarrow>
             Some (new_kid_recv, w\<lparr>px_rng := rng, px_session_map := m(new_kid_recv \<mapsto> weak)\<rparr>))"

section \<open>Expiry\<close>

text \<open>
  \<open>expire_inner\<close> with the context and its queue at hand; \<open>None\<close>: the removal from the queue
  panics.
\<close>

definition expire_inner ::
  "('pk, 'kp, 'kem, 'd) session_perf \<Rightarrow> ('pk, 'kp, 'r, 'kem, 'd, 'fd, 'a) pworld
     \<Rightarrow> (('pk, 'kp, 'kem, 'd) session_perf \<times> ('pk, 'kp, 'r, 'kem, 'd, 'fd, 'a) pworld) option" where
  "expire_inner self w =
     (if ps_beta self \<noteq> PNull
      then
        let kids_to_remove = [ke_kid (dp_recv (ps_keys self False)), ke_kid (dp_recv (ps_keys self True))];
            self = self\<lparr>ps_beta := PNull, ps_keys := (\<lambda>_. duplex_key_perf_default),
                        ps_resend_timer := I64_MAX, ps_timeout_timer := I64_MAX\<rparr>
        in case heap_remove (px_session_queue w) (ps_queue_idx self) of
             None \<Rightarrow> None
           | Some (_, q) \<Rightarrow>
               Some (self, w\<lparr>px_session_queue := q,
                 px_session_map := (px_session_map w) |` (- {kid. Some kid \<in> set kids_to_remove})\<rparr>)
      else Some (self, w))"

text \<open>\<open>session.expire()\<close> before a result \<open>r\<close> is returned, while the context lives.\<close>

definition expire_then ::
  "('e, 'x) outcome \<Rightarrow> ('pk, 'kp, 'kem, 'd) session_perf \<Rightarrow> ('pk, 'kp, 'r, 'kem, 'd, 'fd, 'a) pworld
     \<Rightarrow> ('e, 'x, 'pk, 'kp, 'r, 'kem, 'd, 'fd, 'a) presult" where
  "expire_then r z w = (case expire_inner z w of None \<Rightarrow> (Panic, z, w) | Some (z, w) \<Rightarrow> (r, z, w))"

section \<open>Control packets\<close>

text \<open>The payload starts with room for the header. \<open>Err True\<close>: the counter expired.\<close>

definition send_control_perf ::
  "('pk, 'kp, 'r, 'kem) crypto_layer \<Rightarrow> platform \<Rightarrow> u8 \<Rightarrow> bytes
     \<Rightarrow> ('pk, 'kp, 'kem, 'd) session_perf \<Rightarrow> ('pk, 'kp, 'r, 'kem, 'd, 'fd, 'a) pworld
     \<Rightarrow> (bool, unit, 'pk, 'kp, 'r, 'kem, 'd, 'fd, 'a) presult" where
  "send_control_perf C P packet_type payload z w =
     (case get_counter_perf C z of
        (None, z) \<Rightarrow> (Err True, z, w)
      | (Some (c, _), z) \<Rightarrow>
          (case (ke_kek (dp_send (key_ref_perf z False)), ke_kid (dp_send (key_ref_perf z False))) of
             (Some kek, Some kid) \<Rightarrow>
               (let nonce = to_nonce packet_type c
                in case aead_encrypt_in_place C kek nonce (Some []) (drop HEADER_SIZE payload) of
                     (ct, tag) \<Rightarrow>
                       (Ok (), z, emit_perf (set_header P (take HEADER_SIZE payload @ ct @ tag) kid nonce)
                          (Some (ps_hk_send z)) w))
           | _ \<Rightarrow> (Err False, z, w)))"

end
