(* ===== verification/Perf_Handshake.thy ===== *)
theory Perf_Handshake
  imports Perf_State
begin

text \<open>
  The Noise XK handshake and the timers of the performance crate
  (\<open>performance/src/zeta.rs\<close>, Transition Algorithms 1 to 4 and 6). As for the reference crate a
  long function is cut at its own landmarks and composed in the order of the source. A
  \<open>debug_assert!\<close> is not compiled into a release build, and neither is its argument.
\<close>

section \<open>Alice's hello\<close>

definition create_a1_state_perf ::
  "('pk, 'kp, 'r, 'kem) crypto_layer \<Rightarrow> platform \<Rightarrow> 'r \<Rightarrow> 'pk \<Rightarrow> u32 \<Rightarrow> ratchet_state \<Rightarrow> ratchet_state option
     \<Rightarrow> bytes \<Rightarrow> ('kp, 'kem) state_a1_perf \<times> 'r" where
  "create_a1_state_perf C P rng s_remote kid_recv ratchet_state1 ratchet_state2 ident =
     (let noise = initialize_perf PROTOCOL_NAME_NOISE_XK;
          x1 = replicate HEADER_SIZE 0;
          kid = u32_to_ne_bytes P kid_recv;
          x1 = x1 @ kid;
          noise = mix_hash_perf C noise kid;
          noise = mix_hash_perf C noise (pk_to_bytes C s_remote);
          (e_secret, noise, rng, x1) = write_e_no_init C noise rng x1;
          noise = mix_dh_perf C noise e_secret s_remote;
          i = length x1;
          ((e1_secret, e1_public), rng) = kem_generate C rng;
          (noise, x1) = seal_tail C noise (to_nonce PACKET_TYPE_HANDSHAKE_HELLO 0) i (x1 @ e1_public);
          i = length x1;
          x1 = x1 @ rs_fingerprint ratchet_state1;
          x1 = x1 @ (case ratchet_state2 of None \<Rightarrow> replicate RATCHET_SIZE 0 | Some rs \<Rightarrow> rs_fingerprint rs);
          (noise, x1) = seal_tail C noise (to_nonce PACKET_TYPE_HANDSHAKE_HELLO 1) i x1;
          c = u64_from_be_bytes (drop (length x1 - 8) x1);
          (response, rng) = gen_null_response_perf (pl_big_endian P) C rng;
          x1 = x1 @ response;
          x1 = set_header P x1 0 (to_nonce PACKET_TYPE_HANDSHAKE_HELLO c)
      in (\<lparr>ap_noise = noise, ap_e_secret = e_secret, ap_e1_secret = e1_secret, ap_identity = ident, ap_x1 = x1\<rparr>,
          rng))"

text \<open>\<open>Arc::new(Session { .. })\<close> of \<open>trans_to_a1\<close>, before the key id is stored.\<close>

definition new_a1_session ::
  "('pk, 'kp, 'r, 'kem) crypto_layer \<Rightarrow> 'd \<Rightarrow> 'pk \<Rightarrow> ratchet_states \<Rightarrow> bytes \<Rightarrow> bytes \<Rightarrow> bytes \<Rightarrow> heap_index \<Rightarrow> i64
     \<Rightarrow> ('kp, 'kem) state_a1_perf \<Rightarrow> ('pk, 'kp, 'kem, 'd) session_perf" where
  "new_a1_session C session_data s_remote rss hk_recv hk_send noise_kk_ss queue_idx current_time a1 =
     \<lparr>ps_session_data = session_data, ps_was_bob = False, ps_queue_idx = queue_idx, ps_s_remote = s_remote,
      ps_send_counter = 0, ps_window = window_new COUNTER_WINDOW_MAX_OOO,
      ps_defrag = replicate SESSION_MAX_FRAGMENTS_OOO (fragged_new MAX_FRAGMENTS),
      ps_ratchet_state1 = rss_state1 rss, ps_ratchet_state2 = rss_state2 rss,
      ps_hk_send = take AES_256_KEY_SIZE hk_send, ps_hk_recv = take AES_256_KEY_SIZE hk_recv,
      ps_key_creation_counter = 0, ps_key_index = True, ps_keys = (\<lambda>_. duplex_key_perf_default),
      ps_resend_timer = after current_time (resend_time (SETTINGS C)),
      ps_timeout_timer = after current_time (initial_offer_timeout (SETTINGS C)),
      ps_beta = PA1 a1, ps_noise_kk_ss = noise_kk_ss\<rparr>"

text \<open>
  The insertions that register a session: into the map under its key id and into the queue
  under the index reserved for it, then \<open>reduce_next_service_time\<close>. \<open>None\<close>: the queue panics.
\<close>

definition register_perf ::
  "u32 \<Rightarrow> i64 \<Rightarrow> ('pk, 'kp, 'kem, 'd) session_perf \<Rightarrow> ('pk, 'kp, 'r, 'kem, 'd, 'fd, 'a) pworld
     \<Rightarrow> (session_id \<times> i64 option \<times> ('pk, 'kp, 'r, 'kem, 'd, 'fd, 'a) pworld) option" where
  "register_perf kid resend_timer z w =
     (let s = px_next_session w
      in case push_reserved (px_session_queue w) (ps_queue_idx z) s (Reverse resend_timer) of
           None \<Rightarrow> None
         | Some (_, q) \<Rightarrow>
             (case reduce_next_service_time resend_timer
                     (w\<lparr>px_session_queue := q, px_session_map := (px_session_map w)(kid \<mapsto> s),
                        px_heap := (px_heap w)(s \<mapsto> z), px_next_session := Suc s\<rparr>) of
                (reduced, w) \<Rightarrow> Some (s, reduced, w)))"

definition trans_to_a1_perf ::
  "('pk, 'kp, 'r, 'kem) crypto_layer \<Rightarrow> platform \<Rightarrow> ('pk, 'd, 'fd, 'a) application_perf \<Rightarrow> 'pk \<Rightarrow> 'd \<Rightarrow> bytes
     \<Rightarrow> ratchet_states \<Rightarrow> ('pk, 'kp, 'r, 'kem, 'd, 'fd, 'a) pworld
     \<Rightarrow> (open_error, session_id \<times> i64 option) outcome \<times> ('pk, 'kp, 'r, 'kem, 'd, 'fd, 'a) pworld" where
  "trans_to_a1_perf C P A s_remote session_data ident rss w =
     (case gen_kid C (px_session_map w) (px_rng w) of
        None \<Rightarrow> (Diverge, w)
      | Some (kid_recv, rng) \<Rightarrow>
          (let (a1, rng) = create_a1_state_perf C P rng s_remote kid_recv (rss_state1 rss) (rss_state2 rss) ident;
               w = w\<lparr>px_rng := rng\<rparr>;
               noise_kk_ss = kp_agree C (px_s_secret w) s_remote;
               (hk_recv, hk_send) = get_ask_perf C (ap_noise a1) LABEL_HEADER_KEY;
               (current_time, w) = time_perf A w
           in case reserve_index (px_session_queue w) of
                None \<Rightarrow> (Panic, w)
              | Some (queue_idx, q) \<Rightarrow>
                  (let w = w\<lparr>px_session_queue := q\<rparr>;
                       resend_timer = after current_time (resend_time (SETTINGS C));
                       z = new_a1_session C session_data s_remote rss hk_recv hk_send noise_kk_ss queue_idx
                             current_time a1;
                       z = key_mut_perf z True (set_recv_kid_perf kid_recv)
                   in case register_perf kid_recv resend_timer z w of
                        None \<Rightarrow> (Panic, w)
                      | Some (session, reduced_service_time, w) \<Rightarrow>
                          (Ok (session, reduced_service_time), emit_perf (ap_x1 a1) None w))))"

text \<open>\<open>Diverge\<close>: the search for a proof of work does not end.\<close>

definition respond_to_challenge_perf ::
  "('pk, 'kp, 'r, 'kem) crypto_layer \<Rightarrow> platform \<Rightarrow> bytes \<Rightarrow> ('pk, 'kp, 'kem, 'd) session_perf
     \<Rightarrow> ('pk, 'kp, 'r, 'kem, 'd, 'fd, 'a) pworld \<Rightarrow> ('e, unit, 'pk, 'kp, 'r, 'kem, 'd, 'fd, 'a) presult" where
  "respond_to_challenge_perf C P challenge z w =
     (case ps_beta z of
        PA1 a1 \<Rightarrow>
          (if length (ap_x1 a1) < CHALLENGE_SIZE then (Panic, z, w)
           else
             let response_start = length (ap_x1 a1) - CHALLENGE_SIZE
             in case respond_to_challenge_in_place_perf (pl_big_endian P) C (px_rng w) challenge
                       (drop response_start (ap_x1 a1)) of
                  None \<Rightarrow> (Diverge, z, w)
                | Some (response, rng) \<Rightarrow>
                    (Ok (), z\<lparr>ps_beta := PA1 (a1\<lparr>ap_x1 := take response_start (ap_x1 a1) @ response\<rparr>)\<rparr>,
                     w\<lparr>px_rng := rng\<rparr>))
      | _ \<Rightarrow> (Ok (), z, w))"

section \<open>The timers\<close>

text \<open>States A1 and A3: the handshake starts again. The result is the next time to service.\<close>

definition restart_a1_perf ::
  "('pk, 'kp, 'r, 'kem) crypto_layer \<Rightarrow> platform \<Rightarrow> session_id \<Rightarrow> bytes \<Rightarrow> i64 \<Rightarrow> ('pk, 'kp, 'kem, 'd) session_perf
     \<Rightarrow> ('pk, 'kp, 'r, 'kem, 'd, 'fd, 'a) pworld \<Rightarrow> (unit, i64, 'pk, 'kp, 'r, 'kem, 'd, 'fd, 'a) presult" where
  "restart_a1_perf C P session ident current_time z w =
     (case remap_perf C session z w of
        None \<Rightarrow> (Diverge, z, w)
      | Some (new_kid_recv, w) \<Rightarrow>
          (let (a1, rng) = create_a1_state_perf C P (px_rng w) (ps_s_remote z) new_kid_recv
                             (ps_ratchet_state1 z) (ps_ratchet_state2 z) ident;
               w = w\<lparr>px_rng := rng\<rparr>;
               (hk_recv, hk_send) = get_ask_perf C (ap_noise a1) LABEL_HEADER_KEY;
               z = z\<lparr>ps_hk_recv := take AES_256_KEY_SIZE hk_recv, ps_hk_send := take AES_256_KEY_SIZE hk_send\<rparr>;
               z = key_mut_perf z True (\<lambda>_. duplex_key_perf_default);
               z = key_mut_perf z True (set_recv_kid_perf new_kid_recv);
               resend_timer = after current_time (resend_time (SETTINGS C));
               z = z\<lparr>ps_resend_timer := resend_timer,
                     ps_timeout_timer := after current_time (initial_offer_timeout (SETTINGS C)),
                     ps_beta := PA1 a1\<rparr>
           in (Ok resend_timer, z, emit_perf (ap_x1 a1) None w)))"

text \<open>The noise part of Transition Algorithm 6.\<close>

definition create_k1_perf ::
  "('pk, 'kp, 'r, 'kem) crypto_layer \<Rightarrow> platform \<Rightarrow> 'kp \<Rightarrow> 'pk \<Rightarrow> bytes \<Rightarrow> bytes \<Rightarrow> 'r \<Rightarrow> u32
     \<Rightarrow> symmetric_state \<times> 'kp \<times> bytes \<times> 'r" where
  "create_k1_perf C P s_secret s_remote noise_kk_ss ratchet_key rng new_kid_recv =
     (let noise = initialize_perf PROTOCOL_NAME_NOISE_KK;
          k1 = replicate HEADER_SIZE 0;
          noise = mix_hash_perf C noise (kp_public_key_bytes C s_secret);
          noise = mix_hash_perf C noise (pk_to_bytes C s_remote);
          noise = mix_key_and_hash_no_init C noise ratchet_key;
          (e_secret, noise, rng, k1) = write_e_no_init C noise rng k1;
          noise = mix_dh_no_init C noise e_secret s_remote;
          noise = mix_key_perf C noise noise_kk_ss;
          i = length k1;
          k1 = k1 @ u32_to_ne_bytes P new_kid_recv;
          (noise, k1) = seal_tail C noise (to_nonce PACKET_TYPE_REKEY_INIT 0) i k1
      in (noise, e_secret, k1, rng))"

text \<open>What both callers of \<open>send_control\<close> in the timer code do with its result.\<close>

definition control_timer ::
  "i64 \<Rightarrow> (bool, unit, 'pk, 'kp, 'r, 'kem, 'd, 'fd, 'a) presult
     \<Rightarrow> (unit, i64, 'pk, 'kp, 'r, 'kem, 'd, 'fd, 'a) presult" where
  "control_timer t res =
     (case res of
        (Err True, z, w) \<Rightarrow> (Err (), z, w)
      | (_, z, w) \<Rightarrow> (Ok t, z, w))"

definition start_rekey_perf ::
  "('pk, 'kp, 'r, 'kem) crypto_layer \<Rightarrow> platform \<Rightarrow> session_id \<Rightarrow> i64 \<Rightarrow> ('pk, 'kp, 'kem, 'd) session_perf
     \<Rightarrow> ('pk, 'kp, 'r, 'kem, 'd, 'fd, 'a) pworld \<Rightarrow> (unit, i64, 'pk, 'kp, 'r, 'kem, 'd, 'fd, 'a) presult" where
  "start_rekey_perf C P session current_time z w =
     (case remap_perf C session z w of
        None \<Rightarrow> (Diverge, z, w)
      | Some (new_kid_recv, w) \<Rightarrow>
          (let (noise, e_secret, k1, rng) = create_k1_perf C P (px_s_secret w) (ps_s_remote z)
                 (ps_noise_kk_ss z) (rs_key (ps_ratchet_state1 z)) (px_rng w) new_kid_recv;
               w = w\<lparr>px_rng := rng\<rparr>;
               z = key_mut_perf z True (set_recv_kid_perf new_kid_recv);
               resend_timer = after current_time (resend_time (SETTINGS C));
               z = z\<lparr>ps_timeout_timer := after current_time (rekey_timeout (SETTINGS C)),
                     ps_resend_timer := resend_timer,
                     ps_beta := PR1 noise e_secret k1\<rparr>
           in control_timer resend_timer (send_control_perf C P PACKET_TYPE_REKEY_INIT k1 z w)))"

text \<open>\<open>Err ()\<close>: the session should be expired.\<close>

definition timeout_trans_perf ::
  "('pk, 'kp, 'r, 'kem) crypto_layer \<Rightarrow> platform \<Rightarrow> session_id \<Rightarrow> i64 \<Rightarrow> ('pk, 'kp, 'kem, 'd) session_perf
     \<Rightarrow> ('pk, 'kp, 'r, 'kem, 'd, 'fd, 'a) pworld \<Rightarrow> (unit, i64, 'pk, 'kp, 'r, 'kem, 'd, 'fd, 'a) presult" where
  "timeout_trans_perf C P session current_time z w =
     (case ps_beta z of
        PNull \<Rightarrow> (Err (), z, w)
      | PA1 a1 \<Rightarrow> restart_a1_perf C P session (ap_identity a1) current_time z w
      | PA3 ident _ \<Rightarrow> restart_a1_perf C P session ident current_time z w
      | PS2 \<Rightarrow> start_rekey_perf C P session current_time z w
      | PS1 \<Rightarrow> (Err (), z, w)
      | PR1 _ _ _ \<Rightarrow> (Err (), z, w)
      | PR2 _ \<Rightarrow> (Err (), z, w))"

text \<open>
  The resend timer is read and then raised with \<open>fetch_max\<close>; in a call that runs alone the
  value the \<open>fetch_max\<close> finds is the one just read.
\<close>

definition process_timers ::
  "('pk, 'kp, 'r, 'kem) crypto_layer \<Rightarrow> platform \<Rightarrow> session_id \<Rightarrow> i64 \<Rightarrow> ('pk, 'kp, 'kem, 'd) session_perf
     \<Rightarrow> ('pk, 'kp, 'r, 'kem, 'd, 'fd, 'a) pworld \<Rightarrow> (unit, i64, 'pk, 'kp, 'r, 'kem, 'd, 'fd, 'a) presult" where
  "process_timers C P session current_time z w =
     (if ps_timeout_timer z \<le> current_time then timeout_trans_perf C P session current_time z w
      else
        let ts = ps_resend_timer z;
            resend_next = after current_time (resend_time (SETTINGS C))
        in if ts \<le> current_time then
             (let z = z\<lparr>ps_resend_timer := max ts resend_next\<rparr>;
                  control = (\<lambda>p payload. control_timer resend_next (send_control_perf C P p payload z w))
              in case ps_beta z of
                   PNull \<Rightarrow> (Err (), z, w)
                 | PA1 a1 \<Rightarrow> (Ok resend_next, z, emit_perf (ap_x1 a1) None w)
                 | PA3 _ x3 \<Rightarrow> (Ok resend_next, z, emit_perf x3 (Some (ps_hk_send z)) w)
                 | PS1 \<Rightarrow> control PACKET_TYPE_KEY_CONFIRM (replicate HEADER_SIZE 0)
                 | PS2 \<Rightarrow> (Ok (ps_timeout_timer z), z, w)
                 | PR1 _ _ k1 \<Rightarrow> control PACKET_TYPE_REKEY_INIT k1
                 | PR2 k2 \<Rightarrow> control PACKET_TYPE_REKEY_COMPLETE k2)
           else (Ok ts, z, w))"

section \<open>Bob's answer to a hello\<close>

definition read_x1_perf ::
  "('pk, 'kp, 'r, 'kem) crypto_layer \<Rightarrow> platform \<Rightarrow> 'kp \<Rightarrow> bytes \<Rightarrow> bytes
     \<Rightarrow> receive_error_perf + (u32 \<times> 'pk \<times> bytes \<times> bytes \<times> bytes \<times> symmetric_state)" where
  "read_x1_perf C P s_secret n x1 =
     (if length x1 \<noteq> HANDSHAKE_HELLO_SIZE then Inl (fault_un InvalidPacket True)
      else if \<not> secure_eq (drop (AES_GCM_NONCE_SIZE - 8) n) (drop (length x1 - 8) x1)
      then Inl (fault_un FailedAuth True)
      else
        let noise = initialize_perf PROTOCOL_NAME_NOISE_XK;
            i = 0;
            j = i + KID_SIZE;
            noise = mix_hash_perf C noise (subslice i j x1)
        in case NonZeroU32_new (u32_from_ne_bytes P (subslice i j x1)) of
             None \<Rightarrow> Inl (fault_un InvalidPacket True)
           | Some kid_send \<Rightarrow>
               let noise = mix_hash_perf C noise (kp_public_key_bytes C s_secret); i = j
               in case read_e_no_init C noise i x1 of
                    (None, _) \<Rightarrow> Inl (fault_un FailedAuth True)
                  | (Some e_remote, noise, i) \<Rightarrow>
                      let noise = mix_dh_perf C noise s_secret e_remote;
                          j = i + KYBER_PUBLIC_KEY_SIZE; k = j + AES_GCM_TAG_SIZE
                      in case decrypt_and_hash_perf C noise (to_nonce PACKET_TYPE_HANDSHAKE_HELLO 0)
                                (subslice i j x1) (subslice j k x1) of
                           (ok, noise, e1) \<Rightarrow>
                             if \<not> ok then Inl (fault_un FailedAuth True)
                             else
                               let i = k; j = i + RATCHET_SIZE + RATCHET_SIZE; k = j + AES_GCM_TAG_SIZE
                               in case decrypt_and_hash_perf C noise (to_nonce PACKET_TYPE_HANDSHAKE_HELLO 1)
                                         (subslice i j x1) (subslice j k x1) of
                                    (ok, noise, rfs) \<Rightarrow>
                                      if \<not> ok then Inl (fault_un FailedAuth True)
                                      else Inr (kid_send, e_remote, e1,
                                        take RATCHET_SIZE rfs, drop RATCHET_SIZE rfs, noise))"

text \<open>The look-up of the ratchet state. Both look-ups pass the first fingerprint, as the source does.\<close>

definition find_ratchet_perf ::
  "('pk, 'd, 'fd, 'a) application_perf \<Rightarrow> bytes \<Rightarrow> bytes \<Rightarrow> 'a
     \<Rightarrow> (receive_error_perf + (ratchet_state \<times> 'fd option)) \<times> 'a" where
  "find_ratchet_perf A rf1 rf2 a =
     (let first = (if \<not> secure_eq rf1 (replicate RATCHET_SIZE 0)
                   then pa_restore_by_fingerprint A rf1 a else (Inr None, a))
      in case first of
           (Inl e, a) \<Rightarrow> (Inl (StorageErrorP e), a)
         | (Inr (Some (rs, data)), a) \<Rightarrow> (Inr (rs, Some data), a)
         | (Inr None, a) \<Rightarrow>
             (let second = (if \<not> secure_eq rf2 (replicate RATCHET_SIZE 0)
                            then pa_restore_by_fingerprint A rf1 a else (Inr None, a))
              in case second of
                   (Inl e, a) \<Rightarrow> (Inl (StorageErrorP e), a)
                 | (Inr (Some (rs, data)), a) \<Rightarrow> (Inr (rs, Some data), a)
                 | (Inr None, a) \<Rightarrow>
                     (case pa_hello_requires_recognized_ratchet A a of
                        (True, a) \<Rightarrow> (Inl (fault_un FailedAuth True), a)
                      | (False, a) \<Rightarrow> (Inr (ratchet_empty, None), a))))"

definition write_x2_tokens_perf ::
  "('pk, 'kp, 'r, 'kem) crypto_layer \<Rightarrow> 'pk \<Rightarrow> bytes \<Rightarrow> bytes \<Rightarrow> symmetric_state \<Rightarrow> 'r
     \<Rightarrow> (receive_error_perf + ('kp \<times> symmetric_state \<times> bytes)) \<times> 'r" where
  "write_x2_tokens_perf C e_remote e1 ratchet_key noise rng =
     (let x2 = replicate HEADER_SIZE 0;
          (e_secret, noise, rng, x2) = write_e_no_init C noise rng x2;
          noise = mix_dh_perf C noise e_secret e_remote;
          i = length x2
      in case kem_encapsulate C rng e1 of
           (None, rng) \<Rightarrow> (Inl (fault_un FailedAuth True), rng)
         | (Some (ekem1, ekem1_secret), rng) \<Rightarrow>
             (let (noise, x2) = seal_tail C noise (to_nonce PACKET_TYPE_HANDSHAKE_RESPONSE 0) i (x2 @ ekem1);
                  noise = mix_key_no_init C noise ekem1_secret;
                  noise = mix_key_and_hash_perf C noise ratchet_key
              in (Inr (e_secret, noise, x2), rng)))"

definition write_x2_payload_perf ::
  "('pk, 'kp, 'r, 'kem) crypto_layer \<Rightarrow> platform \<Rightarrow> symmetric_state \<Rightarrow> bytes \<Rightarrow> u32
     \<Rightarrow> symmetric_state \<times> bytes \<times> u64" where
  "write_x2_payload_perf C P noise x2 kid_recv =
     (let i = length x2;
          x2 = x2 @ u32_to_ne_bytes P kid_recv;
          (noise, x2) = seal_tail C noise (to_nonce PACKET_TYPE_HANDSHAKE_RESPONSE 0) i x2;
          i = length x2;
          c = (replicate 8 0)[5 := x2 ! (i - 3), 6 := x2 ! (i - 2), 7 := x2 ! (i - 1)]
      in (noise, x2, u64_from_be_bytes c))"

definition received_x1_trans_perf ::
  "('pk, 'kp, 'r, 'kem) crypto_layer \<Rightarrow> platform \<Rightarrow> ('pk, 'd, 'fd, 'a) application_perf \<Rightarrow> bytes \<Rightarrow> bytes
     \<Rightarrow> ('pk, 'kp, 'r, 'kem, 'd, 'fd, 'a) pworld
     \<Rightarrow> (receive_error_perf, i64 option) outcome \<times> ('pk, 'kp, 'r, 'kem, 'd, 'fd, 'a) pworld" where
  "received_x1_trans_perf C P A n x1 w =
     (case read_x1_perf C P (px_s_secret w) n x1 of
        Inl e \<Rightarrow> (Err e, w)
      | Inr (kid_send, e_remote, e1, rf1, rf2, noise) \<Rightarrow>
          (case find_ratchet_perf A rf1 rf2 (pw_app w) of
             (Inl e, a) \<Rightarrow> (Err e, w\<lparr>pw_app := a\<rparr>)
           | (Inr (ratchet_state, lookup_data), a) \<Rightarrow>
               (let w = w\<lparr>pw_app := a\<rparr>;
                    (hk_send, hk_recv) = get_ask_perf C noise LABEL_HEADER_KEY
                in case write_x2_tokens_perf C e_remote e1 (rs_key ratchet_state) noise (px_rng w) of
                     (Inl e, rng) \<Rightarrow> (Err e, w\<lparr>px_rng := rng\<rparr>)
                   | (Inr (e_secret, noise, x2), rng) \<Rightarrow>
                       (let w = w\<lparr>px_rng := rng\<rparr>
                        in case gen_kid C (px_session_map w) (px_rng w) of
                             None \<Rightarrow> (Diverge, w)
                           | Some (kid_recv, rng) \<Rightarrow>
                               (let w = w\<lparr>px_rng := rng\<rparr>;
                                    (noise, x2, c) = write_x2_payload_perf C P noise x2 kid_recv;
                                    x2 = set_header P x2 kid_send (to_nonce PACKET_TYPE_HANDSHAKE_RESPONSE c);
                                    b2 = \<lparr>pb_ratchet_state = ratchet_state, pb_lookup_data = lookup_data,
                                      pb_kid_send = kid_send, pb_kid_recv = kid_recv,
                                      pb_hk_send = take AES_256_KEY_SIZE hk_send,
                                      pb_hk_recv = take AES_256_KEY_SIZE hk_recv,
                                      pb_e_secret = e_secret, pb_noise = noise,
                                      pb_defrag = fragged_new MAX_FRAGMENTS\<rparr>;
                                    addr = px_next_b2 w;
                                    w = w\<lparr>px_b2_heap := (px_b2_heap w)(addr \<mapsto> b2), px_next_b2 := Suc addr\<rparr>;
                                    (t, w) = time_perf A w;
                                    (next_service_time, cache) =
                                      hc_insert (SETTINGS C) (px_handshakes w) kid_recv addr t;
                                    w = w\<lparr>px_handshakes := cache\<rparr>;
                                    (reduced_service_time, w) =
                                      (case next_service_time of
                                         None \<Rightarrow> (None, w)
                                       | Some t \<Rightarrow> reduce_next_service_time t w)
                                in (Ok reduced_service_time,
                                    emit_perf x2 (Some (take AES_256_KEY_SIZE hk_send)) w))))))"

section \<open>Alice's completion\<close>

definition read_x2_tokens_perf ::
  "('pk, 'kp, 'r, 'kem) crypto_layer \<Rightarrow> session_id \<Rightarrow> ('kp, 'kem) state_a1_perf \<Rightarrow> bytes
     \<Rightarrow> receive_error_perf + ('pk \<times> nat \<times> symmetric_state)" where
  "read_x2_tokens_perf C session a1 x2 =
     (let i = 0
      in case read_e_no_init C (ap_noise a1) i x2 of
           (None, _) \<Rightarrow> Inl (fault_on FailedAuth True session)
         | (Some e_remote, noise, i) \<Rightarrow>
             let noise = mix_dh_perf C noise (ap_e_secret a1) e_remote;
                 j = i + KYBER_CIPHERTEXT_SIZE; k = j + AES_GCM_TAG_SIZE
             in case decrypt_and_hash_perf C noise (to_nonce PACKET_TYPE_HANDSHAKE_RESPONSE 0)
                       (subslice i j x2) (subslice j k x2) of
                  (ok, noise, ekem1) \<Rightarrow>
                    if \<not> ok then Inl (fault_on FailedAuth True session)
                    else (case kem_decapsulate C (ap_e1_secret a1) ekem1 of
                            None \<Rightarrow> Inl (fault_on FailedAuth True session)
                          | Some ekem1_secret \<Rightarrow> Inr (e_remote, k, mix_key_no_init C noise ekem1_secret)))"

definition test_ratchet_key_perf ::
  "('pk, 'kp, 'r, 'kem) crypto_layer \<Rightarrow> platform \<Rightarrow> symmetric_state \<Rightarrow> bytes \<Rightarrow> bytes \<Rightarrow> bytes
     \<Rightarrow> (u32 \<times> symmetric_state) option" where
  "test_ratchet_key_perf C P noise payload tag ratchet_key =
     (let noise = mix_key_and_hash_perf C noise ratchet_key
      in case decrypt_and_hash_perf C noise (to_nonce PACKET_TYPE_HANDSHAKE_RESPONSE 0) payload tag of
           (ok, noise, payload) \<Rightarrow>
             if \<not> ok then None
             else map_option (\<lambda>kid2. (kid2, noise)) (NonZeroU32_new (u32_from_ne_bytes P payload)))"

definition select_ratchet_perf ::
  "('pk, 'kp, 'r, 'kem) crypto_layer \<Rightarrow> platform \<Rightarrow> ('pk, 'd, 'fd, 'a) application_perf \<Rightarrow> session_id
     \<Rightarrow> ('pk, 'kp, 'kem, 'd) session_perf \<Rightarrow> symmetric_state \<Rightarrow> bytes \<Rightarrow> bytes \<Rightarrow> 'a
     \<Rightarrow> ((u32 \<times> symmetric_state) option \<times> nat \<times> u64 \<times> bool) \<times> 'a" where
  "select_ratchet_perf C P A session z noise payload tag a =
     (let test = test_ratchet_key_perf C P noise payload tag;
          ratchet_i = 1;
          chain_len = rs_chain_len (ps_ratchet_state1 z);
          result = test (rs_key (ps_ratchet_state1 z));
          (ratchet_i, chain_len, result) =
            (if result = None
             then (case ps_ratchet_state2 z of
                     Some rs \<Rightarrow> (2, rs_chain_len rs, test (rs_key rs))
                   | None \<Rightarrow> (2, chain_len, result))
             else (ratchet_i, chain_len, result))
      in if result = None
         then (case pa_initiator_disallows_downgrade A session a of
                 (True, a) \<Rightarrow> ((result, ratchet_i, chain_len, False), a)
               | (False, a) \<Rightarrow>
                   (let result = test (replicate RATCHET_SIZE 0)
                    in ((result, ratchet_i, 0, result \<noteq> None), a)))
         else ((result, ratchet_i, chain_len, False), a))"

definition write_x3_perf ::
  "('pk, 'kp, 'r, 'kem) crypto_layer \<Rightarrow> 'kp \<Rightarrow> 'pk \<Rightarrow> bytes \<Rightarrow> symmetric_state \<Rightarrow> symmetric_state \<times> bytes" where
  "write_x3_perf C s_secret e_remote ident noise =
     (let x3 = replicate HEADER_SIZE 0;
          i = length x3;
          x3 = x3 @ kp_public_key_bytes C s_secret;
          (noise, x3) = seal_tail C noise (to_nonce PACKET_TYPE_HANDSHAKE_COMPLETION 1) i x3;
          noise = mix_dh_perf C noise s_secret e_remote;
          i = length x3;
          x3 = x3 @ ident
      in seal_tail C noise (to_nonce PACKET_TYPE_HANDSHAKE_COMPLETION 0) i x3)"

text \<open>The assignments that store a new set of keys in the spare slot.\<close>

definition store_keys_perf ::
  "u32 \<Rightarrow> bytes \<Rightarrow> bytes \<Rightarrow> bytes \<Rightarrow> bytes \<Rightarrow> duplex_key_perf \<Rightarrow> duplex_key_perf" where
  "store_keys_perf kid_send kek_send nk_send kek_recv nk_recv k =
     replace_nk nk_send nk_recv (replace_keks kek_send kek_recv (set_send_kid_perf kid_send k))"

definition finish_x2_perf ::
  "('pk, 'kp, 'r, 'kem) crypto_layer \<Rightarrow> platform \<Rightarrow> ('pk, 'd, 'fd, 'a) application_perf \<Rightarrow> session_id
     \<Rightarrow> ('kp, 'kem) state_a1_perf \<Rightarrow> 'pk \<Rightarrow> u32 \<Rightarrow> nat \<Rightarrow> u64 \<Rightarrow> symmetric_state
     \<Rightarrow> ('pk, 'kp, 'kem, 'd) session_perf \<Rightarrow> ('pk, 'kp, 'r, 'kem, 'd, 'fd, 'a) pworld
     \<Rightarrow> (receive_error_perf, bytes \<times> i64 option, 'pk, 'kp, 'r, 'kem, 'd, 'fd, 'a) presult" where
  "finish_x2_perf C P A session a1 e_remote kid_send ratchet_i chain_len noise z w =
     (let (noise, x3) = write_x3_perf C (px_s_secret w) e_remote (ap_identity a1) noise;
          new_ratchet_state = create_ratchet_state C noise chain_len;
          ratchet_to_preserve = (if ratchet_i = 1 then Some (ps_ratchet_state1 z) else ps_ratchet_state2 z)
      in case save_ratchet_perf A (ps_s_remote z) (ps_session_data z)
                (cas_new new_ratchet_state ratchet_to_preserve True (ps_ratchet_state1 z) (ps_ratchet_state2 z)
                   (ratchet_i = 2) (ratchet_i = 1)) w of
           (Inl e, w) \<Rightarrow> (Err (StorageErrorP e), z, w)
         | (Inr False, w) \<Rightarrow> (Err (fault_exp OutOfSequence True session True), z, w)
         | (Inr True, w) \<Rightarrow>
             (let (kek_recv, kek_send) = get_ask_perf C noise LABEL_KEX_KEY;
                  (nk_recv, nk_send) = split_perf C noise;
                  nonce = to_nonce PACKET_TYPE_HANDSHAKE_COMPLETION 0;
                  x3 = set_header P x3 kid_send nonce;
                  z = key_mut_perf z True (store_keys_perf kid_send kek_send nk_send kek_recv nk_recv);
                  z = z\<lparr>ps_ratchet_state2 := Some (ps_ratchet_state1 z), ps_ratchet_state1 := new_ratchet_state\<rparr>;
                  (current_time, w) = time_perf A w;
                  resend_timer = after current_time (resend_time (SETTINGS C));
                  z = z\<lparr>ps_key_creation_counter := ps_send_counter z,
                        ps_resend_timer := resend_timer,
                        ps_timeout_timer := after current_time (initial_offer_timeout (SETTINGS C)),
                        ps_beta := PA3 (ap_identity a1) x3\<rparr>
              in case reschedule (ps_queue_idx z) resend_timer w of
                   None \<Rightarrow> (Panic, z, w)
                 | Some (reduced, w) \<Rightarrow> (Ok (x3, reduced), z, w)))"

definition process_x2_perf ::
  "('pk, 'kp, 'r, 'kem) crypto_layer \<Rightarrow> platform \<Rightarrow> ('pk, 'd, 'fd, 'a) application_perf \<Rightarrow> session_id \<Rightarrow> bytes
     \<Rightarrow> ('kp, 'kem) state_a1_perf \<Rightarrow> ('pk, 'kp, 'kem, 'd) session_perf \<Rightarrow> ('pk, 'kp, 'r, 'kem, 'd, 'fd, 'a) pworld
     \<Rightarrow> bool \<times> (receive_error_perf, bytes \<times> i64 option, 'pk, 'kp, 'r, 'kem, 'd, 'fd, 'a) presult" where
  "process_x2_perf C P A session x2 a1 z w =
     (case read_x2_tokens_perf C session a1 x2 of
        Inl e \<Rightarrow> (False, Err e, z, w)
      | Inr (e_remote, i, noise) \<Rightarrow>
          (let j = i + KID_SIZE; k = j + AES_GCM_TAG_SIZE
           in case select_ratchet_perf C P A session z noise (subslice i j x2) (subslice j k x2) (pw_app w) of
                ((result, ratchet_i, chain_len, warn), a) \<Rightarrow>
                  (let w = w\<lparr>pw_app := a\<rparr>
                   in case result of
                        None \<Rightarrow> (warn, Err (fault_on FailedAuth True session), z, w)
                      | Some (kid_send, noise) \<Rightarrow>
                          (warn, finish_x2_perf C P A session a1 e_remote kid_send ratchet_i chain_len noise z w))))"

text \<open>
  After a Byzantine fault the source reads the time and restarts the handshake inside a
  \<open>debug_assert!\<close>: a release build only reads the time.
\<close>

definition received_x2_trans_perf ::
  "('pk, 'kp, 'r, 'kem) crypto_layer \<Rightarrow> platform \<Rightarrow> ('pk, 'd, 'fd, 'a) application_perf \<Rightarrow> session_id \<Rightarrow> u32
     \<Rightarrow> bytes \<Rightarrow> bytes \<Rightarrow> ('pk, 'kp, 'kem, 'd) session_perf \<Rightarrow> ('pk, 'kp, 'r, 'kem, 'd, 'fd, 'a) pworld
     \<Rightarrow> (receive_error_perf, bool \<times> i64 option, 'pk, 'kp, 'r, 'kem, 'd, 'fd, 'a) presult" where
  "received_x2_trans_perf C P A session kid n x2 z w =
     (if HANDSHAKE_RESPONSE_SIZE \<noteq> length x2 then (Err (fault_on InvalidPacket True session), z, w)
      else if Some kid \<noteq> recv_kid_perf z True then (Err (fault_on UnknownLocalKeyId True session), z, w)
      else
        let (_, c) = from_nonce n
        in if COUNTER_WINDOW_MAX_SKIP_AHEAD \<le> c \<or>
              \<not> secure_eq (drop (AES_GCM_NONCE_SIZE - 3) n) (drop (length x2 - 3) x2)
           then (Err (fault_on FailedAuth True session), z, w)
           else (case ps_beta z of
                   PA1 a1 \<Rightarrow>
                     (case process_x2_perf C P A session x2 a1 z w of
                        (should_warn_missing_ratchet, result, z, w) \<Rightarrow>
                          (case result of
                             Ok (packet, reduced) \<Rightarrow>
                               (Ok (should_warn_missing_ratchet, reduced), z, emit_perf packet (Some (ps_hk_send z)) w)
                           | Err (ByzantineFaultP f) \<Rightarrow>
                               (let (current_time, w) = time_perf A w in (Err (ByzantineFaultP f), z, w))
                           | Err e \<Rightarrow> (Err e, z, w)
                           | Panic \<Rightarrow> (Panic, z, w)
                           | Diverge \<Rightarrow> (Diverge, z, w)))
                 | _ \<Rightarrow> (Err (fault_on FailedAuth True session), z, w)))"

section \<open>Bob accepts\<close>

definition read_x3_perf ::
  "('pk, 'kp, 'r, 'kem) crypto_layer \<Rightarrow> ('kp, 'fd) state_b2_perf \<Rightarrow> u32 \<Rightarrow> bytes
     \<Rightarrow> receive_error_perf + ('pk \<times> bytes \<times> symmetric_state)" where
  "read_x3_perf C b2 kid x3 =
     (if length x3 < HANDSHAKE_COMPLETION_MIN_SIZE then Inl (fault_un InvalidPacket True)
      else if kid \<noteq> pb_kid_recv b2 then Inl (fault_un UnknownLocalKeyId True)
      else
        let i = 0; j = i + P384_PUBLIC_KEY_SIZE; k = j + AES_GCM_TAG_SIZE
        in case decrypt_and_hash_perf C (pb_noise b2) (to_nonce PACKET_TYPE_HANDSHAKE_COMPLETION 1)
                  (subslice i j x3) (subslice j k x3) of
             (ok, noise, s_bytes) \<Rightarrow>
               if \<not> ok then Inl (fault_un FailedAuth True)
               else (case pk_from_bytes C s_bytes of
                       None \<Rightarrow> Inl (fault_un FailedAuth True)
                     | Some s_remote \<Rightarrow>
                         let i = k;
                             noise = mix_dh_perf C noise (pb_e_secret b2) s_remote;
                             k = length x3; j = k - AES_GCM_TAG_SIZE
                         in case decrypt_and_hash_perf C noise (to_nonce PACKET_TYPE_HANDSHAKE_COMPLETION 0)
                                   (subslice i j x3) (subslice j k x3) of
                              (ok, noise, ident) \<Rightarrow>
                                if \<not> ok then Inl (fault_un FailedAuth True) else Inr (s_remote, ident, noise)))"

definition create_reject_perf ::
  "('pk, 'kp, 'r, 'kem) crypto_layer \<Rightarrow> platform \<Rightarrow> ('kp, 'fd) state_b2_perf \<Rightarrow> bytes \<Rightarrow> bytes" where
  "create_reject_perf C P b2 kek_send =
     (let d = replicate HEADER_SIZE 0;
          nonce = to_nonce PACKET_TYPE_SESSION_REJECTED 0;
          (_, tag) = aead_encrypt_in_place C (take AES_256_KEY_SIZE kek_send) nonce (Some []) []
      in set_header P (d @ tag) (pb_kid_send b2) nonce)"

definition reject_x3_perf ::
  "('pk, 'kp, 'r, 'kem) crypto_layer \<Rightarrow> platform \<Rightarrow> ('kp, 'fd) state_b2_perf \<Rightarrow> bytes \<Rightarrow> bool
     \<Rightarrow> ('pk, 'kp, 'r, 'kem, 'd, 'fd, 'a) pworld \<Rightarrow> ('pk, 'kp, 'r, 'kem, 'd, 'fd, 'a) pworld" where
  "reject_x3_perf C P b2 kek_send responder_silently_rejects w =
     (if \<not> responder_silently_rejects
      then emit_perf (create_reject_perf C P b2 kek_send) (Some (pb_hk_send b2)) w else w)"

text \<open>The session of the responder, in state S1, with its first keys.\<close>

definition new_bob_session ::
  "('pk, 'kp, 'r, 'kem) crypto_layer \<Rightarrow> ('kp, 'fd) state_b2_perf \<Rightarrow> 'd \<Rightarrow> 'pk \<Rightarrow> ratchet_state \<Rightarrow> bytes
     \<Rightarrow> heap_index \<Rightarrow> i64 \<Rightarrow> bytes \<Rightarrow> bytes \<Rightarrow> bytes \<Rightarrow> bytes \<Rightarrow> ('pk, 'kp, 'kem, 'd) session_perf" where
  "new_bob_session C b2 session_data s_remote new_ratchet_state noise_kk_ss queue_idx current_time
       kek_send kek_recv nk_send nk_recv =
     (let z = \<lparr>ps_session_data = session_data, ps_was_bob = True, ps_queue_idx = queue_idx,
               ps_s_remote = s_remote, ps_send_counter = 1, ps_window = window_new COUNTER_WINDOW_MAX_OOO,
               ps_defrag = replicate SESSION_MAX_FRAGMENTS_OOO (fragged_new MAX_FRAGMENTS),
               ps_ratchet_state1 = new_ratchet_state, ps_ratchet_state2 = None,
               ps_hk_send = pb_hk_send b2, ps_hk_recv = pb_hk_recv b2,
               ps_key_creation_counter = 1, ps_key_index = False, ps_keys = (\<lambda>_. duplex_key_perf_default),
               ps_resend_timer = after current_time (resend_time (SETTINGS C)),
               ps_timeout_timer = after current_time (rekey_timeout (SETTINGS C)),
               ps_beta = PS1, ps_noise_kk_ss = noise_kk_ss\<rparr>;
          z = key_mut_perf z False (replace_nk nk_send nk_recv);
          z = key_mut_perf z False (set_recv_kid_perf (pb_kid_recv b2));
          z = key_mut_perf z False (set_send_kid_perf (pb_kid_send b2))
      in key_mut_perf z False (replace_keks kek_send kek_recv))"

text \<open>
  The block that makes the session and registers it, then the key confirmation, whose result is
  dropped. The map is looked at after the ratchet state was saved.
\<close>

definition accept_x3_perf ::
  "('pk, 'kp, 'r, 'kem) crypto_layer \<Rightarrow> platform \<Rightarrow> ('pk, 'd, 'fd, 'a) application_perf \<Rightarrow> ('kp, 'fd) state_b2_perf
     \<Rightarrow> 'd \<Rightarrow> 'pk \<Rightarrow> ratchet_states \<Rightarrow> bytes \<Rightarrow> bytes \<Rightarrow> symmetric_state \<Rightarrow> bool
     \<Rightarrow> ('pk, 'kp, 'r, 'kem, 'd, 'fd, 'a) pworld
     \<Rightarrow> (receive_error_perf, session_id \<times> bool \<times> i64 option) outcome \<times> ('pk, 'kp, 'r, 'kem, 'd, 'fd, 'a) pworld" where
  "accept_x3_perf C P A b2 session_data s_remote rss kek_send kek_recv noise warn w =
     (let noise_kk_ss = kp_agree C (px_s_secret w) s_remote;
          new_ratchet_state = create_ratchet_state C noise (rs_chain_len (pb_ratchet_state b2));
          (nk_send, nk_recv) = split_perf C noise
      in case save_ratchet_perf A s_remote session_data
                (cas_new new_ratchet_state None True (rss_state1 rss) (rss_state2 rss) True True) w of
           (Inl e, w) \<Rightarrow> (Err (StorageErrorP e), w)
         | (Inr False, w) \<Rightarrow> (Err (fault_un OutOfSequence True), w)
         | (Inr True, w) \<Rightarrow>
             if px_session_map w (pb_kid_recv b2) \<noteq> None then (Err (fault_un OutOfSequence False), w)
             else
               case reserve_index (px_session_queue w) of
                 None \<Rightarrow> (Panic, w)
               | Some (queue_idx, q) \<Rightarrow>
                   (let w = w\<lparr>px_session_queue := q\<rparr>;
                        (current_time, w) = time_perf A w;
                        resend_timer = after current_time (resend_time (SETTINGS C));
                        z = new_bob_session C b2 session_data s_remote new_ratchet_state noise_kk_ss queue_idx
                              current_time kek_send kek_recv nk_send nk_recv
                    in case register_perf (pb_kid_recv b2) resend_timer z w of
                         None \<Rightarrow> (Panic, w)
                       | Some (session, reduced_service_time, w) \<Rightarrow>
                           (case send_control_perf C P PACKET_TYPE_KEY_CONFIRM (replicate HEADER_SIZE 0) z w of
                              (_, z, w) \<Rightarrow>
                                (Ok (session, warn, reduced_service_time),
                                 w\<lparr>px_heap := (px_heap w)(session \<mapsto> z)\<rparr>))))"

definition received_x3_trans_perf ::
  "('pk, 'kp, 'r, 'kem) crypto_layer \<Rightarrow> platform \<Rightarrow> ('pk, 'd, 'fd, 'a) application_perf \<Rightarrow> ('kp, 'fd) state_b2_perf
     \<Rightarrow> u32 \<Rightarrow> bytes \<Rightarrow> ('pk, 'kp, 'r, 'kem, 'd, 'fd, 'a) pworld
     \<Rightarrow> (receive_error_perf, session_id \<times> bool \<times> i64 option) outcome \<times> ('pk, 'kp, 'r, 'kem, 'd, 'fd, 'a) pworld" where
  "received_x3_trans_perf C P A b2 kid x3 w =
     (case read_x3_perf C b2 kid x3 of
        Inl e \<Rightarrow> (Err e, w)
      | Inr (s_remote, ident, noise) \<Rightarrow>
          (let (kek_send, kek_recv) = get_ask_perf C noise LABEL_KEX_KEY;
               (action, a) = pa_check_accept_session A s_remote ident (pb_lookup_data b2) (pw_app w);
               w = w\<lparr>pw_app := a\<rparr>
           in case aa_session_data action of
                Some session_data \<Rightarrow>
                  (case pa_restore_by_identity A s_remote session_data (pb_lookup_data b2) (pw_app w) of
                     (Inl e, a) \<Rightarrow> (Err (StorageErrorP e), w\<lparr>pw_app := a\<rparr>)
                   | (Inr r, a) \<Rightarrow>
                       (let w = w\<lparr>pw_app := a\<rparr>;
                            rss = (case r of None \<Rightarrow> new_initial_states | Some rss \<Rightarrow> rss);
                            unknown = (\<not> ratchet_eq (pb_ratchet_state b2) (rss_state1 rss) \<and>
                              \<not> ratchet_option_eq (Some (pb_ratchet_state b2)) (rss_state2 rss))
                        in if unknown \<and> \<not> (\<not> aa_responder_disallows_downgrade action \<and> is_empty (pb_ratchet_state b2))
                           then (Err (fault_un FailedAuth True),
                                 reject_x3_perf C P b2 kek_send (aa_responder_silently_rejects action) w)
                           else accept_x3_perf C P A b2 session_data s_remote rss kek_send kek_recv noise unknown w))
              | None \<Rightarrow>
                  (Err RejectedP,
                   reject_x3_perf C P b2 kek_send (aa_responder_silently_rejects action) w)))"

end
