(* ===== verification/Perf_Session.thy ===== *)
theory Perf_Session
  imports Perf_Handshake
begin

text \<open>
  The transitions of an established session of the performance crate
  (\<open>performance/src/zeta.rs\<close>): key confirmation, acknowledgement, rejection, the two rekeying
  messages (Transition Algorithms 5, 7 and 8), sending and receiving data (Algorithms 9 and
  10), and the public methods of \<open>Session\<close>.
\<close>

section \<open>Confirmation, acknowledgement, rejection\<close>

text \<open>
  The lines that \<open>received_c1_trans\<close> and \<open>received_c2_trans\<close> share: the jittered rekey timer and
  the step to S2, then the new place in the queue. The remainder by a zero jitter panics.
\<close>

definition enter_s2_perf ::
  "('pk, 'kp, 'r, 'kem) crypto_layer \<Rightarrow> ('pk, 'd, 'fd, 'a) application_perf \<Rightarrow> ('pk, 'kp, 'kem, 'd) session_perf
     \<Rightarrow> ('pk, 'kp, 'r, 'kem, 'd, 'fd, 'a) pworld
     \<Rightarrow> (receive_error_perf, i64 option, 'pk, 'kp, 'r, 'kem, 'd, 'fd, 'a) presult" where
  "enter_s2_perf C A z w =
     (let (x, rng) = next_u64 C (px_rng w); w = w\<lparr>px_rng := rng\<rparr>
      in if rekey_time_max_jitter (SETTINGS C) = 0 then (Panic, z, w)
         else
           let jitter = x mod rekey_time_max_jitter (SETTINGS C);
               (now, w) = time_perf A w;
               timeout_timer = after now (saturating_sub (rekey_after_time (SETTINGS C)) jitter);
               z = z\<lparr>ps_timeout_timer := timeout_timer, ps_resend_timer := I64_MAX, ps_beta := PS2\<rparr>
           in case reschedule (ps_queue_idx z) timeout_timer w of
                None \<Rightarrow> (Panic, z, w)
              | Some (reduced, w) \<Rightarrow> (Ok reduced, z, w))"

definition which_key_perf :: "('pk, 'kp, 'kem, 'd) session_perf \<Rightarrow> u32 \<Rightarrow> bool option" where
  "which_key_perf z kid =
     (if Some kid = recv_kid_perf z True then Some True
      else if Some kid = recv_kid_perf z False then Some False
      else None)"

definition is_pa3 :: "('kp, 'kem) automata_perf \<Rightarrow> bool" where
  "is_pa3 b = (case b of PA3 _ _ \<Rightarrow> True | _ \<Rightarrow> False)"

definition is_pr2 :: "('kp, 'kem) automata_perf \<Rightarrow> bool" where
  "is_pr2 b = (case b of PR2 _ \<Rightarrow> True | _ \<Rightarrow> False)"

text \<open>The inner block of \<open>received_c1_trans\<close>, run when the spare key was confirmed in A3 or R2.\<close>

definition confirm_key_perf ::
  "('pk, 'kp, 'r, 'kem) crypto_layer \<Rightarrow> ('pk, 'd, 'fd, 'a) application_perf \<Rightarrow> session_id
     \<Rightarrow> ('pk, 'kp, 'kem, 'd) session_perf \<Rightarrow> ('pk, 'kp, 'r, 'kem, 'd, 'fd, 'a) pworld
     \<Rightarrow> (receive_error_perf, i64 option, 'pk, 'kp, 'r, 'kem, 'd, 'fd, 'a) presult" where
  "confirm_key_perf C A session z w =
     (let (saved, w) =
        (if ps_ratchet_state2 z \<noteq> None
         then save_ratchet_perf A (ps_s_remote z) (ps_session_data z)
                (cas_new (ps_ratchet_state1 z) None False (ps_ratchet_state1 z) (ps_ratchet_state2 z) False True) w
         else (Inr True, w))
      in case saved of
           Inl e \<Rightarrow> (Err (StorageErrorP e), z, w)
         | Inr False \<Rightarrow> expire_then (Err (fault_exp OutOfSequence True session True)) z w
         | Inr True \<Rightarrow>
             enter_s2_perf C A (z\<lparr>ps_ratchet_state2 := None, ps_key_index := \<not> ps_key_index z\<rparr>) w)"

text \<open>\<open>session.window.update(c)\<close>.\<close>

definition window_update_perf ::
  "('pk, 'kp, 'kem, 'd) session_perf \<Rightarrow> u64 \<Rightarrow> bool \<times> ('pk, 'kp, 'kem, 'd) session_perf" where
  "window_update_perf z c =
     (case Window_update COUNTER_WINDOW_MAX_SKIP_AHEAD (ps_window z) c of
        (ok, win) \<Rightarrow> (ok, z\<lparr>ps_window := win\<rparr>))"

definition received_c1_trans_perf ::
  "('pk, 'kp, 'r, 'kem) crypto_layer \<Rightarrow> platform \<Rightarrow> ('pk, 'd, 'fd, 'a) application_perf \<Rightarrow> session_id \<Rightarrow> u32
     \<Rightarrow> bytes \<Rightarrow> bytes \<Rightarrow> ('pk, 'kp, 'kem, 'd) session_perf \<Rightarrow> ('pk, 'kp, 'r, 'kem, 'd, 'fd, 'a) pworld
     \<Rightarrow> (receive_error_perf, bool \<times> i64 option, 'pk, 'kp, 'r, 'kem, 'd, 'fd, 'a) presult" where
  "received_c1_trans_perf C P A session kid n c1 z w =
     (if length c1 \<noteq> KEY_CONFIRMATION_SIZE then (Err (fault_on InvalidPacket True session), z, w)
      else case which_key_perf z kid of
        None \<Rightarrow> (Err (fault_on OutOfSequence False session), z, w)
      | Some is_other \<Rightarrow>
          (case ke_kek (dp_recv (key_ref_perf z is_other)) of
             None \<Rightarrow> (Err (fault_on OutOfSequence True session), z, w)
           | Some specified_key \<Rightarrow>
               if \<not> fst (aead_decrypt_in_place C specified_key n (Some []) [] c1)
               then (Err (fault_on FailedAuth True session), z, w)
               else
                 let (_, c) = from_nonce n; (ok, z) = window_update_perf z c
                 in if \<not> ok then (Err (fault_on ExpiredCounter True session), z, w)
                    else
                      let just_established = (is_other \<and> is_pa3 (ps_beta z))
                      in case (if is_other \<and> (is_pa3 (ps_beta z) \<or> is_pr2 (ps_beta z))
                               then confirm_key_perf C A session z w else (Ok None, z, w)) of
                           (Ok reduced, z, w) \<Rightarrow>
                             (case send_control_perf C P PACKET_TYPE_ACK (replicate HEADER_SIZE 0) z w of
                                (Ok _, z, w) \<Rightarrow> (Ok (just_established, reduced), z, w)
                              | (Err True, z, w) \<Rightarrow>
                                  expire_then (Err (fault_exp ExpiredCounter True session True)) z w
                              | (_, z, w) \<Rightarrow> (Err (fault_on OutOfSequence True session), z, w))
                         | (Err e, z, w) \<Rightarrow> (Err e, z, w)
                         | (Panic, z, w) \<Rightarrow> (Panic, z, w)
                         | (Diverge, z, w) \<Rightarrow> (Diverge, z, w)))"

definition received_c2_trans_perf ::
  "('pk, 'kp, 'r, 'kem) crypto_layer \<Rightarrow> ('pk, 'd, 'fd, 'a) application_perf \<Rightarrow> session_id \<Rightarrow> u32 \<Rightarrow> bytes \<Rightarrow> bytes
     \<Rightarrow> ('pk, 'kp, 'kem, 'd) session_perf \<Rightarrow> ('pk, 'kp, 'r, 'kem, 'd, 'fd, 'a) pworld
     \<Rightarrow> (receive_error_perf, i64 option, 'pk, 'kp, 'r, 'kem, 'd, 'fd, 'a) presult" where
  "received_c2_trans_perf C A session kid n c2 z w =
     (if length c2 \<noteq> ACKNOWLEDGEMENT_SIZE then (Err (fault_on InvalidPacket True session), z, w)
      else if Some kid \<noteq> recv_kid_perf z False then (Err (fault_on UnknownLocalKeyId False session), z, w)
      else if ps_beta z \<noteq> PS1 then (Err (fault_on OutOfSequence False session), z, w)
      else case ke_kek (dp_recv (key_ref_perf z False)) of
        None \<Rightarrow> (Panic, z, w)
      | Some kek \<Rightarrow>
          if \<not> fst (aead_decrypt_in_place C kek n (Some []) [] c2)
          then (Err (fault_on FailedAuth True session), z, w)
          else
            let (_, c) = from_nonce n; (ok, z) = window_update_perf z c
            in if \<not> ok then (Err (fault_on ExpiredCounter True session), z, w) else enter_s2_perf C A z w)"

definition received_d_trans_perf ::
  "('pk, 'kp, 'r, 'kem) crypto_layer \<Rightarrow> session_id \<Rightarrow> u32 \<Rightarrow> bytes \<Rightarrow> bytes
     \<Rightarrow> ('pk, 'kp, 'kem, 'd) session_perf \<Rightarrow> ('pk, 'kp, 'r, 'kem, 'd, 'fd, 'a) pworld
     \<Rightarrow> (receive_error_perf, unit, 'pk, 'kp, 'r, 'kem, 'd, 'fd, 'a) presult" where
  "received_d_trans_perf C session kid n d z w =
     (if length d \<noteq> SESSION_REJECTED_SIZE then (Err (fault_on InvalidPacket True session), z, w)
      else if Some kid \<noteq> recv_kid_perf z True \<or> \<not> is_pa3 (ps_beta z)
      then (Err (fault_on OutOfSequence True session), z, w)
      else case ke_kek (dp_recv (key_ref_perf z True)) of
        None \<Rightarrow> (Panic, z, w)
      | Some kek \<Rightarrow>
          if \<not> fst (aead_decrypt_in_place C kek n (Some []) [] d)
          then (Err (fault_on FailedAuth True session), z, w)
          else
            let (_, c) = from_nonce n; (ok, z) = window_update_perf z c
            in if \<not> ok then (Err (fault_on ExpiredCounter True session), z, w) else expire_then (Ok ()) z w)"

section \<open>Rekeying\<close>

text \<open>
  Opening a rekeying message with the current key-exchange key and recording its counter; the
  result is the decrypted message without its tag. The checks of the size, of the key id and of
  the automaton come before it.
\<close>

definition open_rekey_perf ::
  "('pk, 'kp, 'r, 'kem) crypto_layer \<Rightarrow> session_id \<Rightarrow> bytes \<Rightarrow> bytes \<Rightarrow> ('pk, 'kp, 'kem, 'd) session_perf
     \<Rightarrow> (receive_error_perf, bytes) outcome \<times> ('pk, 'kp, 'kem, 'd) session_perf" where
  "open_rekey_perf C session n k z =
     (let i = length k - AES_GCM_TAG_SIZE
      in case ke_kek (dp_recv (key_ref_perf z False)) of
           None \<Rightarrow> (Panic, z)
         | Some kek_recv \<Rightarrow>
             (case aead_decrypt_in_place C kek_recv n (Some []) (take i k) (drop i k) of
                (ok, k) \<Rightarrow>
                  if \<not> ok then (Err (fault_on FailedAuth True session), z)
                  else
                    let (_, c) = from_nonce n; (ok, z) = window_update_perf z c
                    in if \<not> ok then (Err (fault_on ExpiredCounter True session), z) else (Ok k, z)))"

definition read_k1_perf ::
  "('pk, 'kp, 'r, 'kem) crypto_layer \<Rightarrow> platform \<Rightarrow> session_id \<Rightarrow> 'kp \<Rightarrow> 'pk \<Rightarrow> bytes \<Rightarrow> bytes \<Rightarrow> bytes
     \<Rightarrow> receive_error_perf + (u32 \<times> 'pk \<times> symmetric_state)" where
  "read_k1_perf C P session s_secret s_remote noise_kk_ss ratchet_key k1 =
     (let i = 0;
          noise = initialize_perf PROTOCOL_NAME_NOISE_KK;
          noise = mix_hash_perf C noise (pk_to_bytes C s_remote);
          noise = mix_hash_perf C noise (kp_public_key_bytes C s_secret);
          noise = mix_key_and_hash_no_init C noise ratchet_key
      in case read_e_no_init C noise i k1 of
           (None, _) \<Rightarrow> Inl (fault_exp FailedAuth True session True)
         | (Some e_remote, noise, i) \<Rightarrow>
             let noise = mix_dh_no_init C noise s_secret e_remote;
                 noise = mix_key_perf C noise noise_kk_ss;
                 j = i + KID_SIZE; k = j + AES_GCM_TAG_SIZE
             in case decrypt_and_hash_perf C noise (to_nonce PACKET_TYPE_REKEY_INIT 0)
                       (subslice i j k1) (subslice j k k1) of
                  (ok, noise, payload) \<Rightarrow>
                    if \<not> ok then Inl (fault_exp FailedAuth True session True)
                    else (case NonZeroU32_new (u32_from_ne_bytes P payload) of
                            None \<Rightarrow> Inl (fault_exp FailedAuth True session True)
                          | Some kid_send \<Rightarrow> Inr (kid_send, e_remote, noise)))"

definition write_k2_tokens_perf ::
  "('pk, 'kp, 'r, 'kem) crypto_layer \<Rightarrow> 'kp \<Rightarrow> 'pk \<Rightarrow> symmetric_state \<Rightarrow> 'r \<Rightarrow> symmetric_state \<times> bytes \<times> 'r" where
  "write_k2_tokens_perf C s_secret e_remote noise rng =
     (let k2 = replicate HEADER_SIZE 0;
          (e_secret, noise, rng, k2) = write_e_no_init C noise rng k2;
          noise = mix_dh_no_init C noise e_secret e_remote;
          noise = mix_dh_perf C noise s_secret e_remote
      in (noise, k2, rng))"

definition write_k2_payload_perf ::
  "('pk, 'kp, 'r, 'kem) crypto_layer \<Rightarrow> platform \<Rightarrow> symmetric_state \<Rightarrow> bytes \<Rightarrow> u32 \<Rightarrow> symmetric_state \<times> bytes" where
  "write_k2_payload_perf C P noise k2 new_kid_recv =
     (let i = length k2;
          k2 = k2 @ u32_to_ne_bytes P new_kid_recv
      in seal_tail C noise (to_nonce PACKET_TYPE_REKEY_COMPLETE 0) i k2)"

text \<open>What the two closures do with the result of their last \<open>send_control\<close>.\<close>

definition control_result ::
  "session_id \<Rightarrow> i64 option \<Rightarrow> (bool, unit, 'pk, 'kp, 'r, 'kem, 'd, 'fd, 'a) presult
     \<Rightarrow> (receive_error_perf, i64 option, 'pk, 'kp, 'r, 'kem, 'd, 'fd, 'a) presult" where
  "control_result session reduced res =
     (case res of
        (Ok _, z, w) \<Rightarrow> (Ok reduced, z, w)
      | (Err True, z, w) \<Rightarrow> (Err (fault_exp ExpiredCounter True session True), z, w)
      | (_, z, w) \<Rightarrow> (Err (fault_on OutOfSequence True session), z, w))"

text \<open>The closure of \<open>received_k1_trans\<close>.\<close>

definition process_k1_perf ::
  "('pk, 'kp, 'r, 'kem) crypto_layer \<Rightarrow> platform \<Rightarrow> ('pk, 'd, 'fd, 'a) application_perf \<Rightarrow> session_id \<Rightarrow> bytes
     \<Rightarrow> ('pk, 'kp, 'kem, 'd) session_perf \<Rightarrow> ('pk, 'kp, 'r, 'kem, 'd, 'fd, 'a) pworld
     \<Rightarrow> (receive_error_perf, i64 option, 'pk, 'kp, 'r, 'kem, 'd, 'fd, 'a) presult" where
  "process_k1_perf C P A session k1 z w =
     (case read_k1_perf C P session (px_s_secret w) (ps_s_remote z) (ps_noise_kk_ss z)
             (rs_key (ps_ratchet_state1 z)) k1 of
        Inl e \<Rightarrow> (Err e, z, w)
      | Inr (kid_send, e_remote, noise) \<Rightarrow>
          (let (noise, k2, rng) = write_k2_tokens_perf C (px_s_secret w) e_remote noise (px_rng w);
               w = w\<lparr>px_rng := rng\<rparr>
           in case remap_perf C session z w of
                None \<Rightarrow> (Diverge, z, w)
              | Some (new_kid_recv, w) \<Rightarrow>
                  (let (noise, k2) = write_k2_payload_perf C P noise k2 new_kid_recv;
                       new_ratchet_state = create_ratchet_state C noise (rs_chain_len (ps_ratchet_state1 z))
                   in case save_ratchet_perf A (ps_s_remote z) (ps_session_data z)
                             (cas_new new_ratchet_state (Some (ps_ratchet_state1 z)) True
                                (ps_ratchet_state1 z) (ps_ratchet_state2 z) False True) w of
                        (Inl e, w) \<Rightarrow> (Err (StorageErrorP e), z, w)
                      | (Inr False, w) \<Rightarrow> (Err (fault_exp OutOfSequence True session True), z, w)
                      | (Inr True, w) \<Rightarrow>
                          (let (kek_send, kek_recv) = get_ask_perf C noise LABEL_KEX_KEY;
                               (nk_send, nk_recv) = split_perf C noise;
                               z = key_mut_perf z True (store_keys_perf kid_send kek_send nk_send kek_recv nk_recv);
                               z = key_mut_perf z True (set_recv_kid_perf new_kid_recv);
                               z = z\<lparr>ps_ratchet_state2 := Some (ps_ratchet_state1 z),
                                     ps_ratchet_state1 := new_ratchet_state\<rparr>;
                               (current_time, w) = time_perf A w;
                               resend_timer = after current_time (resend_time (SETTINGS C));
                               z = z\<lparr>ps_key_creation_counter := ps_send_counter z,
                                     ps_timeout_timer := after current_time (rekey_timeout (SETTINGS C)),
                                     ps_resend_timer := resend_timer,
                                     ps_beta := PR2 k2\<rparr>
                           in case reschedule (ps_queue_idx z) resend_timer w of
                                None \<Rightarrow> (Panic, z, w)
                              | Some (reduced, w) \<Rightarrow>
                                  control_result session reduced
                                    (send_control_perf C P PACKET_TYPE_REKEY_COMPLETE k2 z w)))))"

text \<open>The last \<open>match\<close> of both functions.\<close>

definition expire_if_caused ::
  "(receive_error_perf, 'x, 'pk, 'kp, 'r, 'kem, 'd, 'fd, 'a) presult
     \<Rightarrow> (receive_error_perf, 'x, 'pk, 'kp, 'r, 'kem, 'd, 'fd, 'a) presult" where
  "expire_if_caused res =
     (case res of
        (Err e, z, w) \<Rightarrow> if caused_expiration e then expire_then (Err e) z w else res
      | _ \<Rightarrow> res)"

definition received_k1_trans_perf ::
  "('pk, 'kp, 'r, 'kem) crypto_layer \<Rightarrow> platform \<Rightarrow> ('pk, 'd, 'fd, 'a) application_perf \<Rightarrow> session_id \<Rightarrow> u32
     \<Rightarrow> bytes \<Rightarrow> bytes \<Rightarrow> ('pk, 'kp, 'kem, 'd) session_perf \<Rightarrow> ('pk, 'kp, 'r, 'kem, 'd, 'fd, 'a) pworld
     \<Rightarrow> (receive_error_perf, i64 option, 'pk, 'kp, 'r, 'kem, 'd, 'fd, 'a) presult" where
  "received_k1_trans_perf C P A session kid n k1 z w =
     (if length k1 \<noteq> REKEY_SIZE then (Err (fault_on InvalidPacket True session), z, w)
      else if Some kid \<noteq> recv_kid_perf z False then (Err (fault_on UnknownLocalKeyId False session), z, w)
      else
        let should_rekey_as_bob = (case ps_beta z of PS2 \<Rightarrow> True | PR1 _ _ _ \<Rightarrow> ps_was_bob z | _ \<Rightarrow> False)
        in if \<not> should_rekey_as_bob then (Err (fault_on OutOfSequence False session), z, w)
           else case open_rekey_perf C session n k1 z of
             (Ok k1, z) \<Rightarrow> expire_if_caused (process_k1_perf C P A session k1 z w)
           | (Err e, z) \<Rightarrow> (Err e, z, w)
           | (Panic, z) \<Rightarrow> (Panic, z, w)
           | (Diverge, z) \<Rightarrow> (Diverge, z, w))"

definition read_k2_perf ::
  "('pk, 'kp, 'r, 'kem) crypto_layer \<Rightarrow> platform \<Rightarrow> session_id \<Rightarrow> 'kp \<Rightarrow> 'pk \<Rightarrow> symmetric_state \<Rightarrow> bytes
     \<Rightarrow> receive_error_perf + (u32 \<times> symmetric_state)" where
  "read_k2_perf C P session e_secret s_remote noise k2 =
     (let i = 0
      in case read_e_no_init C noise i k2 of
           (None, _) \<Rightarrow> Inl (fault_exp FailedAuth True session True)
         | (Some e_remote, noise, i) \<Rightarrow>
             let noise = mix_dh_no_init C noise e_secret e_remote;
                 noise = mix_dh_perf C noise e_secret s_remote;
                 j = i + KID_SIZE; k = j + AES_GCM_TAG_SIZE
             in case decrypt_and_hash_perf C noise (to_nonce PACKET_TYPE_REKEY_COMPLETE 0)
                       (subslice i j k2) (subslice j k k2) of
                  (ok, noise, payload) \<Rightarrow>
                    if \<not> ok then Inl (fault_exp FailedAuth True session True)
                    else (case NonZeroU32_new (u32_from_ne_bytes P payload) of
                            None \<Rightarrow> Inl (fault_exp InvalidPacket True session True)
                          | Some kid_send \<Rightarrow> Inr (kid_send, noise)))"

text \<open>The rest of the closure of \<open>received_k2_trans\<close>, after the message was opened.\<close>

definition process_k2_perf ::
  "('pk, 'kp, 'r, 'kem) crypto_layer \<Rightarrow> platform \<Rightarrow> ('pk, 'd, 'fd, 'a) application_perf \<Rightarrow> session_id
     \<Rightarrow> symmetric_state \<Rightarrow> 'kp \<Rightarrow> bytes \<Rightarrow> ('pk, 'kp, 'kem, 'd) session_perf \<Rightarrow> ('pk, 'kp, 'r, 'kem, 'd, 'fd, 'a) pworld
     \<Rightarrow> (receive_error_perf, i64 option, 'pk, 'kp, 'r, 'kem, 'd, 'fd, 'a) presult" where
  "process_k2_perf C P A session noise e_secret k2 z w =
     (case read_k2_perf C P session e_secret (ps_s_remote z) noise k2 of
        Inl e \<Rightarrow> (Err e, z, w)
      | Inr (kid_send, noise) \<Rightarrow>
          (let new_ratchet_state = create_ratchet_state C noise (rs_chain_len (ps_ratchet_state1 z))
           in case save_ratchet_perf A (ps_s_remote z) (ps_session_data z)
                     (cas_new new_ratchet_state None True (ps_ratchet_state1 z) (ps_ratchet_state2 z) True True) w of
                (Inl e, w) \<Rightarrow> (Err (StorageErrorP e), z, w)
              | (Inr False, w) \<Rightarrow> (Err (fault_exp OutOfSequence True session True), z, w)
              | (Inr True, w) \<Rightarrow>
                  (let (kek_recv, kek_send) = get_ask_perf C noise LABEL_KEX_KEY;
                       (nk_recv, nk_send) = split_perf C noise;
                       z = key_mut_perf z True (store_keys_perf kid_send kek_send nk_send kek_recv nk_recv);
                       z = z\<lparr>ps_ratchet_state1 := new_ratchet_state, ps_key_index := \<not> ps_key_index z\<rparr>;
                       (current_time, w) = time_perf A w;
                       resend_timer = after current_time (resend_time (SETTINGS C));
                       z = z\<lparr>ps_key_creation_counter := ps_send_counter z,
                             ps_timeout_timer := after current_time (rekey_timeout (SETTINGS C)),
                             ps_resend_timer := resend_timer,
                             ps_beta := PS1\<rparr>
                   in case reschedule (ps_queue_idx z) resend_timer w of
                        None \<Rightarrow> (Panic, z, w)
                      | Some (reduced, w) \<Rightarrow>
                          control_result session reduced
                            (send_control_perf C P PACKET_TYPE_KEY_CONFIRM (replicate HEADER_SIZE 0) z w))))"

definition received_k2_trans_perf ::
  "('pk, 'kp, 'r, 'kem) crypto_layer \<Rightarrow> platform \<Rightarrow> ('pk, 'd, 'fd, 'a) application_perf \<Rightarrow> session_id \<Rightarrow> u32
     \<Rightarrow> bytes \<Rightarrow> bytes \<Rightarrow> ('pk, 'kp, 'kem, 'd) session_perf \<Rightarrow> ('pk, 'kp, 'r, 'kem, 'd, 'fd, 'a) pworld
     \<Rightarrow> (receive_error_perf, i64 option, 'pk, 'kp, 'r, 'kem, 'd, 'fd, 'a) presult" where
  "received_k2_trans_perf C P A session kid n k2 z w =
     (if length k2 \<noteq> REKEY_SIZE then (Err (fault_on InvalidPacket True session), z, w)
      else if Some kid \<noteq> recv_kid_perf z False then (Err (fault_on UnknownLocalKeyId False session), z, w)
      else case ps_beta z of
        PR1 noise e_secret _ \<Rightarrow>
          (case open_rekey_perf C session n k2 z of
             (Ok k2, z) \<Rightarrow> expire_if_caused (process_k2_perf C P A session noise e_secret k2 z w)
           | (Err e, z) \<Rightarrow> (Err e, z, w)
           | (Panic, z) \<Rightarrow> (Panic, z, w)
           | (Diverge, z) \<Rightarrow> (Diverge, z, w))
      | _ \<Rightarrow> (Err (fault_on OutOfSequence False session), z, w))"

section \<open>Data\<close>

text \<open>
  The loop over all fragments but the last. \<open>send k\<close> is the answer of the sender to the \<open>k\<close>-th
  fragment; the loop ends early when it is false. The result is the position in the payload,
  the state of the cipher, the fragments handed over and whether all were taken. A slice out of
  range of the payload or of the buffer panics.
\<close>

definition headed_fragment ::
  "('pk, 'kp, 'r, 'kem) crypto_layer \<Rightarrow> bytes \<Rightarrow> bytes \<Rightarrow> nat \<Rightarrow> bytes \<Rightarrow> bytes" where
  "headed_fragment C hk header fragment_no body =
     (let frag = header[FRAGMENT_NO_IDX := word_of_nat fragment_no] @ body
      in write_at HEADER_AUTH_START
           (prp_encrypt_in_place C hk (subslice HEADER_AUTH_START HEADER_AUTH_END frag)) frag)"

primrec send_loop_perf ::
  "('pk, 'kp, 'r, 'kem) crypto_layer \<Rightarrow> platform \<Rightarrow> sender \<Rightarrow> aead_pool \<Rightarrow> bytes \<Rightarrow> bytes \<Rightarrow> nat \<Rightarrow> nat \<Rightarrow> bytes
     \<Rightarrow> nat \<Rightarrow> nat list \<Rightarrow> nat \<Rightarrow> stream_context \<Rightarrow> bytes list
     \<Rightarrow> (bool \<times> nat \<times> stream_context \<times> bytes list) option" where
  "send_loop_perf C P send pool hk header base remainder payload mtu [] i cipher out = Some (True, i, cipher, out)"
| "send_loop_perf C P send pool hk header base remainder payload mtu (fragment_no # nos) i cipher out =
     (let fragment_len = base + (if fragment_no < remainder then 1 else 0);
          j = i + fragment_len
      in if j \<le> length payload \<and> HEADER_SIZE + fragment_len \<le> mtu \<and> HEADER_AUTH_END \<le> mtu
         then
           case pool_encrypt P pool cipher (subslice i j payload) of
             (body, cipher) \<Rightarrow>
               (let out = out @ [headed_fragment C hk header fragment_no body]
                in if send fragment_no
                   then send_loop_perf C P send pool hk header base remainder payload mtu nos j cipher out
                   else Some (False, j, cipher, out))
         else None)"

text \<open>
  \<open>send_payload\<close>: the buffer of the caller is given by its size \<open>mtu\<close>, and the fragments handed to
  the sender are returned. The read lock is released before the timer of a session that should
  rekey is moved.
\<close>

definition send_fragments_perf ::
  "('pk, 'kp, 'r, 'kem) crypto_layer \<Rightarrow> platform \<Rightarrow> sender \<Rightarrow> aead_pool \<Rightarrow> bytes \<Rightarrow> bytes \<Rightarrow> bytes \<Rightarrow> nat \<Rightarrow> bytes
     \<Rightarrow> nat \<Rightarrow> (bool \<times> bytes list) option" where
  "send_fragments_perf C P send pool hk kid_send nonce fragment_count payload mtu =
     (let tagged_payload_len = length payload + AES_GCM_TAG_SIZE;
          base = tagged_payload_len div fragment_count;
          remainder = tagged_payload_len mod fragment_count;
          cipher = start_stream nonce;
          header = replicate HEADER_SIZE 0;
          header = write_at 0 kid_send header;
          header = header[FRAGMENT_COUNT_IDX := word_of_nat fragment_count];
          header = write_at PACKET_NONCE_START (drop NONCE_SIZE_DIFF nonce) header
      in case send_loop_perf C P send pool hk header base remainder payload mtu [0..<fragment_count - 1] 0 cipher [] of
           None \<Rightarrow> None
         | Some (False, i, cipher, out) \<Rightarrow> Some (False, out)
         | Some (True, i, cipher, out) \<Rightarrow>
             (let fragment_no = fragment_count - 1;
                  payload_rem = length payload - i;
                  fragment_len = payload_rem + AES_GCM_TAG_SIZE
              in if i \<le> length payload \<and> HEADER_SIZE + fragment_len \<le> mtu \<and> HEADER_AUTH_END \<le> mtu
                 then
                   case pool_encrypt P pool cipher (drop i payload) of
                     (body, cipher) \<Rightarrow>
                       Some (send fragment_no,
                         out @ [headed_fragment C hk header fragment_no (body @ pool_finish_enc P pool cipher)])
                 else None))"

definition send_payload_perf ::
  "('pk, 'kp, 'r, 'kem) crypto_layer \<Rightarrow> platform \<Rightarrow> sender \<Rightarrow> nat \<Rightarrow> bytes
     \<Rightarrow> ('pk, 'kp, 'kem, 'd) session_perf \<Rightarrow> ('pk, 'kp, 'r, 'kem, 'd, 'fd, 'a) pworld
     \<Rightarrow> bytes list \<times> (send_error, bool, 'pk, 'kp, 'r, 'kem, 'd, 'fd, 'a) presult" where
  "send_payload_perf C P send mtu payload z w =
     (if mtu < MIN_TRANSPORT_MTU then ([], Err MtuTooSmall, z, w)
      else if ps_beta z = PNull then ([], Err SessionExpired, z, w)
      else case get_counter_perf C z of
        (None, z) \<Rightarrow> ([], expire_then (Err SessionExpired) z w)
      | (Some (c, should_rekey), z) \<Rightarrow>
          (let nonce = to_nonce PACKET_TYPE_DATA c;
               payload_mtu = mtu - HEADER_SIZE;
               tagged_payload_len = length payload + AES_GCM_TAG_SIZE;
               fragment_count = (tagged_payload_len + (payload_mtu - 1)) div payload_mtu
           in if MAX_FRAGMENTS < fragment_count then ([], Err DataTooLarge, z, w)
              else case (ke_kid (dp_send (key_ref_perf z False)), dp_nk (key_ref_perf z False)) of
                (Some kid_send, Some cipher_pool) \<Rightarrow>
                  (case send_fragments_perf C P send cipher_pool (ps_hk_send z) (u32_to_ne_bytes P kid_send) nonce
                          fragment_count payload mtu of
                     None \<Rightarrow> ([], Panic, z, w)
                   | Some (False, out) \<Rightarrow> (out, Ok False, z, w)
                   | Some (True, out) \<Rightarrow>
                       if should_rekey \<and> ps_beta z = PS2
                       then
                         let z = z\<lparr>ps_timeout_timer := I64_MIN\<rparr>
                         in case reschedule (ps_queue_idx z) I64_MIN w of
                              None \<Rightarrow> (out, Panic, z, w)
                            | Some (_, w) \<Rightarrow> (out, Ok True, z, w)
                       else (out, Ok False, z, w))
              | _ \<Rightarrow> ([], Err SessionNotEstablished, z, w)))"

text \<open>
  The caller's \<open>Write\<close> is given by its answers: to the \<open>k\<close>-th call with a chunk it returns an
  error or the number of bytes it took, which the source does not look at. The result is the
  error, or the bytes written.
\<close>

type_synonym writer = "nat \<Rightarrow> bytes \<Rightarrow> io_error + nat"

primrec write_chunks :: "writer \<Rightarrow> nat \<Rightarrow> bytes list \<Rightarrow> io_error option \<times> bytes" where
  "write_chunks out k [] = (None, [])"
| "write_chunks out k (x # xs) =
     (case out k x of
        Inl e \<Rightarrow> (Some e, [])
      | Inr n \<Rightarrow> (case write_chunks out (Suc k) xs of (r, ys) \<Rightarrow> (r, take n x @ ys)))"

primrec decrypt_fragments ::
  "platform \<Rightarrow> aead_pool \<Rightarrow> stream_context \<Rightarrow> bytes list \<Rightarrow> bytes list \<times> stream_context" where
  "decrypt_fragments P pool cipher [] = ([], cipher)"
| "decrypt_fragments P pool cipher (x # xs) =
     (case pool_decrypt P pool cipher x of
        (y, cipher) \<Rightarrow> case decrypt_fragments P pool cipher xs of (ys, cipher) \<Rightarrow> (y # ys, cipher))"

text \<open>
  The fragments are whole wire packets. The list is not empty; a fragment shorter than the header,
  or a last one shorter than the header and a tag, panics.
\<close>

definition receive_payload_in_place ::
  "platform \<Rightarrow> writer \<Rightarrow> session_id \<Rightarrow> u32 \<Rightarrow> bytes \<Rightarrow> bytes list \<Rightarrow> ('pk, 'kp, 'kem, 'd) session_perf
     \<Rightarrow> bytes \<times> (receive_error_perf, unit) outcome \<times> ('pk, 'kp, 'kem, 'd) session_perf" where
  "receive_payload_in_place P out session kid nonce fragments z =
     (let specified =
        (if Some kid = ke_kid (dp_recv (ps_keys z False)) then Some (dp_nk (ps_keys z False))
         else if Some kid = ke_kid (dp_recv (ps_keys z True)) then Some (dp_nk (ps_keys z True))
         else None)
      in case specified of
           None \<Rightarrow> ([], Err (fault_on UnknownLocalKeyId True session), z)
         | Some None \<Rightarrow> ([], Err (fault_on OutOfSequence True session), z)
         | Some (Some cipher_pool) \<Rightarrow>
             if fragments = [] \<or> list_ex (\<lambda>f. length f < HEADER_SIZE) fragments \<or>
                length (last fragments) < HEADER_SIZE + AES_GCM_TAG_SIZE
             then ([], Panic, z)
             else
               let (_, c) = from_nonce nonce;
                   (plains, cipher) = decrypt_fragments P cipher_pool (start_stream nonce)
                     (map (drop HEADER_SIZE) (butlast fragments));
                   fragment = drop HEADER_SIZE (last fragments);
                   tag_idx = length fragment - AES_GCM_TAG_SIZE;
                   (plain, cipher) = pool_decrypt P cipher_pool cipher (take tag_idx fragment)
               in if \<not> pool_finish_dec P cipher_pool cipher (drop tag_idx fragment)
                  then ([], Err (fault_on FailedAuth True session), z)
                  else
                    let (ok, z) = window_update_perf z c
                    in if \<not> ok then ([], Err (fault_on ExpiredCounter True session), z)
                       else case write_chunks out 0 (plains @ [plain]) of
                              (None, written) \<Rightarrow> (written, Ok (), z)
                            | (Some e, written) \<Rightarrow> (written, Err (WriteErrorP e session), z))"

section \<open>Sessions\<close>

text \<open>\<open>Session::expire\<close>, and \<open>Drop for Session\<close>: the last strong reference goes away.\<close>

definition Session_expire_perf ::
  "session_id \<Rightarrow> ('pk, 'kp, 'r, 'kem, 'd, 'fd, 'a) pworld
     \<Rightarrow> ('e, unit) outcome \<times> ('pk, 'kp, 'r, 'kem, 'd, 'fd, 'a) pworld" where
  "Session_expire_perf s w =
     (case px_heap w s of
        None \<Rightarrow> (Ok (), w)
      | Some z \<Rightarrow>
          (case expire_then (Ok ()) z w of (r, z, w) \<Rightarrow> (r, w\<lparr>px_heap := (px_heap w)(s \<mapsto> z)\<rparr>)))"

definition Session_drop_perf ::
  "session_id \<Rightarrow> ('pk, 'kp, 'r, 'kem, 'd, 'fd, 'a) pworld
     \<Rightarrow> ('e, unit) outcome \<times> ('pk, 'kp, 'r, 'kem, 'd, 'fd, 'a) pworld" where
  "Session_drop_perf s w =
     (case Session_expire_perf s w of (r, w) \<Rightarrow> (r, w\<lparr>px_heap := (px_heap w)(s := None)\<rparr>))"

definition Session_ratchet_states :: "('pk, 'kp, 'kem, 'd) session_perf \<Rightarrow> ratchet_states" where
  "Session_ratchet_states self = ratchet_states_new (ps_ratchet_state1 self) (ps_ratchet_state2 self)"

definition Session_ratchet_count :: "('pk, 'kp, 'kem, 'd) session_perf \<Rightarrow> u64" where
  "Session_ratchet_count self = rs_chain_len (ps_ratchet_state1 self)"

definition Session_established :: "('pk, 'kp, 'kem, 'd) session_perf \<Rightarrow> bool" where
  "Session_established self = (case ps_beta self of PA1 _ \<Rightarrow> False | PA3 _ _ \<Rightarrow> False | PNull \<Rightarrow> False | _ \<Rightarrow> True)"

definition Session_establishing :: "('pk, 'kp, 'kem, 'd) session_perf \<Rightarrow> bool" where
  "Session_establishing self = (case ps_beta self of PA1 _ \<Rightarrow> True | PA3 _ _ \<Rightarrow> True | _ \<Rightarrow> False)"

definition Session_is_expired :: "('pk, 'kp, 'kem, 'd) session_perf \<Rightarrow> bool" where
  "Session_is_expired self = (ps_beta self = PNull)"

end
