(* ===== verification/Perf_Context.thy ===== *)
theory Perf_Context
  imports Perf_Session
begin

text \<open>
  The public interface of the performance crate (\<open>performance/src/zssp.rs\<close>): opening a session,
  receiving a wire packet, sending data and the periodic service. An operation returns its
  result, the bytes it wrote to the caller's buffer where it has one, the wire fragments it
  handed to a sender, and the new world.
\<close>

section \<open>The wire\<close>

text \<open>The packet has at least a header and a tag, as its callers checked.\<close>

definition parse_fragment_header :: "bytes \<Rightarrow> receive_error_perf + (nat \<times> nat \<times> bytes)" where
  "parse_fragment_header incoming_fragment =
     (let fragment_no = unat (incoming_fragment ! FRAGMENT_NO_IDX);
          fragment_count = unat (incoming_fragment ! FRAGMENT_COUNT_IDX)
      in if fragment_count \<le> fragment_no \<or> MAX_FRAGMENTS < fragment_count then Inl (fault_un InvalidPacket True)
         else Inr (fragment_no, fragment_count,
           write_at 2 (subslice PACKET_NONCE_START HEADER_SIZE incoming_fragment) (replicate AES_GCM_NONCE_SIZE 0)))"

text \<open>
  One round of the loop of \<open>send_with_fragmentation\<close>: the header is written over the end of the
  fragment that was sent before, inside the packet. The slice \<open>fragment[4..20]\<close> panics when the
  fragment is shorter.
\<close>

definition cut_fragment ::
  "('pk, 'kp, 'r, 'kem) crypto_layer \<Rightarrow> bytes option \<Rightarrow> bytes \<Rightarrow> nat \<Rightarrow> nat \<Rightarrow> nat \<Rightarrow> bytes \<Rightarrow> (bytes \<times> bytes) option" where
  "cut_fragment C hk_send header fragment_no i j headered_packet =
     (let fragment = subslice (i - HEADER_SIZE) j headered_packet;
          fragment = write_at 0 header fragment;
          fragment = fragment[FRAGMENT_NO_IDX := word_of_nat fragment_no]
      in case hk_send of
           None \<Rightarrow> Some (fragment, write_at (i - HEADER_SIZE) fragment headered_packet)
         | Some hk \<Rightarrow>
             if length fragment < HEADER_AUTH_END then None
             else
               let fragment = write_at HEADER_AUTH_START
                     (prp_encrypt_in_place C hk (subslice HEADER_AUTH_START HEADER_AUTH_END fragment)) fragment
               in Some (fragment, write_at (i - HEADER_SIZE) fragment headered_packet))"

primrec cut_loop ::
  "('pk, 'kp, 'r, 'kem) crypto_layer \<Rightarrow> sender \<Rightarrow> bytes option \<Rightarrow> bytes \<Rightarrow> nat \<Rightarrow> nat \<Rightarrow> nat list \<Rightarrow> nat \<Rightarrow> bytes
     \<Rightarrow> bytes list \<Rightarrow> (bool \<times> bytes list) option" where
  "cut_loop C send hk_send header base remainder [] i headered_packet out = Some (True, out)"
| "cut_loop C send hk_send header base remainder (fragment_no # nos) i headered_packet out =
     (let j = i + base + (if fragment_no < remainder then 1 else 0)
      in case cut_fragment C hk_send header fragment_no i j headered_packet of
           None \<Rightarrow> None
         | Some (fragment, headered_packet) \<Rightarrow>
             if send fragment_no
             then cut_loop C send hk_send header base remainder nos j headered_packet (out @ [fragment])
             else Some (False, out @ [fragment]))"

text \<open>An empty payload has no fragment, and the division by their number panics.\<close>

definition send_with_fragmentation_perf ::
  "('pk, 'kp, 'r, 'kem) crypto_layer \<Rightarrow> sender \<Rightarrow> nat \<Rightarrow> bytes \<Rightarrow> bytes option \<Rightarrow> (bool \<times> bytes list) option" where
  "send_with_fragmentation_perf C send mtu headered_packet hk_send =
     (let payload_len = length headered_packet - HEADER_SIZE;
          payload_mtu = mtu - HEADER_SIZE;
          fragment_count = (payload_len + (payload_mtu - 1)) div payload_mtu
      in if fragment_count = 0 then None
         else
           let base = payload_len div fragment_count;
               remainder = payload_len mod fragment_count;
               header = (take HEADER_SIZE headered_packet)[FRAGMENT_COUNT_IDX := word_of_nat fragment_count]
           in cut_loop C send hk_send header base remainder [0..<fragment_count] HEADER_SIZE headered_packet [])"

text \<open>The closures passed to the transition algorithms; they drop the result but not a panic.\<close>

definition transmit_perf ::
  "('pk, 'kp, 'r, 'kem) crypto_layer \<Rightarrow> (sender \<times> nat) option \<Rightarrow> bytes \<times> bytes option \<Rightarrow> bytes list option" where
  "transmit_perf C sender p =
     (case sender of
        None \<Rightarrow> Some []
      | Some (send, mtu) \<Rightarrow>
          map_option snd (send_with_fragmentation_perf C send (max mtu MIN_TRANSPORT_MTU) (fst p) (snd p)))"

definition flush_perf ::
  "('pk, 'kp, 'r, 'kem) crypto_layer \<Rightarrow> (sender \<times> nat) option
     \<Rightarrow> ('e, 'x) outcome \<times> ('pk, 'kp, 'r, 'kem, 'd, 'fd, 'a) pworld
     \<Rightarrow> ('e, 'x) outcome \<times> bytes list \<times> ('pk, 'kp, 'r, 'kem, 'd, 'fd, 'a) pworld" where
  "flush_perf C sender rw =
     (case rw of (r, w) \<Rightarrow>
        (let outs = map (transmit_perf C sender) (pw_sent w)
         in ((if None \<in> set outs then Panic else r),
             concat (map (\<lambda>x. case x of None \<Rightarrow> [] | Some fs \<Rightarrow> fs) outs), w\<lparr>pw_sent := []\<rparr>)))"

section \<open>The context\<close>

definition Context_new_perf ::
  "('pk, 'kp, 'r, 'kem) crypto_layer \<Rightarrow> 'kp \<Rightarrow> 'r \<Rightarrow> 'a \<Rightarrow> ('pk, 'kp, 'r, 'kem, 'd, 'fd, 'a) pworld" where
  "Context_new_perf C static_secret_key rng a =
     (case ChallengeContext_new_perf C rng of (challenge, rng) \<Rightarrow>
        \<lparr>px_rng = rng, px_next_service_time = I64_MAX, px_s_secret = static_secret_key,
         px_session_queue = heap_new, px_session_map = Map.empty, px_defrag_cache = cache_new,
         px_handshakes = hc_new, px_challenge = challenge, px_heap = Map.empty, px_next_session = 0,
         px_b2_heap = Map.empty, px_next_b2 = 0, pw_app = a, pw_sent = []\<rparr>)"

definition open_with_ratchet ::
  "('pk, 'kp, 'r, 'kem) crypto_layer \<Rightarrow> platform \<Rightarrow> ('pk, 'd, 'fd, 'a) application_perf \<Rightarrow> sender \<Rightarrow> nat
     \<Rightarrow> 'pk \<Rightarrow> 'd \<Rightarrow> bytes \<Rightarrow> ratchet_states \<Rightarrow> ('pk, 'kp, 'r, 'kem, 'd, 'fd, 'a) pworld
     \<Rightarrow> (open_error, session_id \<times> i64 option) outcome \<times> bytes list \<times> ('pk, 'kp, 'r, 'kem, 'd, 'fd, 'a) pworld" where
  "open_with_ratchet C P A send mtu static_remote_key session_data ident ratchet_states w =
     (if IDENTITY_MAX_SIZE < length ident then (Err IdentityTooLarge, [], w)
      else flush_perf C (Some (send, mtu)) (trans_to_a1_perf C P A static_remote_key session_data ident ratchet_states w))"

definition Context_open_perf ::
  "('pk, 'kp, 'r, 'kem) crypto_layer \<Rightarrow> platform \<Rightarrow> ('pk, 'd, 'fd, 'a) application_perf \<Rightarrow> sender \<Rightarrow> nat
     \<Rightarrow> 'pk \<Rightarrow> 'd \<Rightarrow> bytes \<Rightarrow> ('pk, 'kp, 'r, 'kem, 'd, 'fd, 'a) pworld
     \<Rightarrow> (open_error, session_id \<times> i64 option) outcome \<times> bytes list \<times> ('pk, 'kp, 'r, 'kem, 'd, 'fd, 'a) pworld" where
  "Context_open_perf C P A send mtu static_remote_key session_data ident w =
     (case pa_restore_by_identity A static_remote_key session_data None (pw_app w) of
        (Inl e, a) \<Rightarrow> (Err (OpenStorageError e), [], w\<lparr>pw_app := a\<rparr>)
      | (Inr r, a) \<Rightarrow>
          open_with_ratchet C P A send mtu static_remote_key session_data ident
            (case r of None \<Rightarrow> new_initial_states | Some rss \<Rightarrow> rss) (w\<lparr>pw_app := a\<rparr>))"

section \<open>Receiving on a session\<close>

text \<open>The block marked \<open>vrfy\<close>.\<close>

definition session_vrfy_perf ::
  "session_id \<Rightarrow> ('pk, 'kp, 'kem, 'd) session_perf \<Rightarrow> u8 \<Rightarrow> u64 \<Rightarrow> receive_error_perf option" where
  "session_vrfy_perf session z packet_type incoming_counter =
     (if packet_type = PACKET_TYPE_HANDSHAKE_RESPONSE then
        (if \<not> (case ps_beta z of PA1 _ \<Rightarrow> True | _ \<Rightarrow> False) then Some (fault_on OutOfSequence False session)
         else if COUNTER_WINDOW_MAX_SKIP_AHEAD \<le> incoming_counter then Some (fault_on ExpiredCounter True session)
         else None)
      else if PACKET_TYPE_USES_COUNTER_RANGE packet_type then
        (if \<not> Window_check COUNTER_WINDOW_MAX_SKIP_AHEAD (ps_window z) incoming_counter
         then Some (fault_on ExpiredCounter False session) else None)
      else if packet_type = PACKET_TYPE_HANDSHAKE_COMPLETION then Some (fault_on InvalidPacket False session)
      else Some (fault_on InvalidPacket True session))"

text \<open>
  \<open>session.defrag[idx].lock().assemble(..)\<close> for a packet of several fragments; a packet of one
  fragment passes. An empty list: the packet is not complete. \<open>None\<close>: undefined behaviour, an
  index out of range or a push onto a full vector.
\<close>

definition session_defrag ::
  "platform \<Rightarrow> u64 \<Rightarrow> bytes \<Rightarrow> nat \<Rightarrow> nat \<Rightarrow> ('pk, 'kp, 'kem, 'd) session_perf
     \<Rightarrow> (bytes list \<times> ('pk, 'kp, 'kem, 'd) session_perf) option" where
  "session_defrag P incoming_counter incoming_fragment fragment_no fragment_count z =
     (if 1 < fragment_count
      then
        let idx = unat incoming_counter mod length (ps_defrag z)
        in if idx < length (ps_defrag z)
           then map_option (\<lambda>(fg, out). (out, z\<lparr>ps_defrag := (ps_defrag z)[idx := fg]\<rparr>))
                  (fragged_assemble (pl_needs_drop P) (ps_defrag z ! idx) incoming_counter incoming_fragment
                     fragment_no fragment_count [])
           else None
      else Some ([incoming_fragment], z))"

text \<open>The loop that fills a buffer of a fixed capacity; a packet of one fragment is used in place.\<close>

definition join_fragments :: "nat \<Rightarrow> nat \<Rightarrow> bytes list \<Rightarrow> bytes option" where
  "join_fragments capacity fragment_count fragments =
     (let buffer = concat (map (drop HEADER_SIZE) fragments)
      in if 1 < fragment_count \<and> capacity < length buffer then None else Some buffer)"

text \<open>The \<open>match packet_type\<close> over the control packets.\<close>

definition dispatch_perf ::
  "('pk, 'kp, 'r, 'kem) crypto_layer \<Rightarrow> platform \<Rightarrow> ('pk, 'd, 'fd, 'a) application_perf \<Rightarrow> session_id \<Rightarrow> u32
     \<Rightarrow> u8 \<Rightarrow> bytes \<Rightarrow> bytes \<Rightarrow> ('pk, 'kp, 'kem, 'd) session_perf \<Rightarrow> ('pk, 'kp, 'r, 'kem, 'd, 'fd, 'a) pworld
     \<Rightarrow> (receive_error_perf, session_event_perf \<times> i64 option, 'pk, 'kp, 'r, 'kem, 'd, 'fd, 'a) presult" where
  "dispatch_perf C P A session kid_recv p nonce assembled z w =
     (if p = PACKET_TYPE_HANDSHAKE_RESPONSE then
        (case received_x2_trans_perf C P A session kid_recv nonce assembled z w of
           (r, z, w) \<Rightarrow>
             (map_outcome id (\<lambda>(warn, reduced). (if warn then DowngradedRatchetKeyP else ControlP, reduced)) r, z, w))
      else if p = PACKET_TYPE_KEY_CONFIRM then
        (case received_c1_trans_perf C P A session kid_recv nonce assembled z w of
           (r, z, w) \<Rightarrow>
             (map_outcome id (\<lambda>(just, reduced). (if just then EstablishedP else ControlP, reduced)) r, z, w))
      else if p = PACKET_TYPE_ACK then
        (case received_c2_trans_perf C A session kid_recv nonce assembled z w of
           (r, z, w) \<Rightarrow> (map_outcome id (Pair ControlP) r, z, w))
      else if p = PACKET_TYPE_REKEY_INIT then
        (case received_k1_trans_perf C P A session kid_recv nonce assembled z w of
           (r, z, w) \<Rightarrow> (map_outcome id (Pair ControlP) r, z, w))
      else if p = PACKET_TYPE_REKEY_COMPLETE then
        (case received_k2_trans_perf C P A session kid_recv nonce assembled z w of
           (r, z, w) \<Rightarrow> (map_outcome id (Pair ControlP) r, z, w))
      else if p = PACKET_TYPE_SESSION_REJECTED then
        (case received_d_trans_perf C session kid_recv nonce assembled z w of
           (r, z, w) \<Rightarrow> (map_outcome id (\<lambda>_. (RejectedEventP, None)) r, z, w))
      else (Err (fault_on InvalidPacket True session), z, w))"

definition put_session ::
  "session_id \<Rightarrow> ('pk, 'kp, 'kem, 'd) session_perf \<Rightarrow> ('pk, 'kp, 'r, 'kem, 'd, 'fd, 'a) pworld
     \<Rightarrow> ('pk, 'kp, 'r, 'kem, 'd, 'fd, 'a) pworld" where
  "put_session s z w = w\<lparr>px_heap := (px_heap w)(s \<mapsto> z)\<rparr>"

text \<open>The bytes 4 to 20 of a wire packet, decrypted in place.\<close>

definition decrypt_header_perf :: "('pk, 'kp, 'r, 'kem) crypto_layer \<Rightarrow> bytes \<Rightarrow> bytes \<Rightarrow> bytes" where
  "decrypt_header_perf C hk incoming_fragment =
     write_at HEADER_AUTH_START
       (prp_decrypt_in_place C hk (subslice HEADER_AUTH_START HEADER_AUTH_END incoming_fragment)) incoming_fragment"

text \<open>The branch of \<open>receive\<close> for a known session, from the decrypted header on.\<close>

definition receive_session_perf ::
  "('pk, 'kp, 'r, 'kem) crypto_layer \<Rightarrow> platform \<Rightarrow> ('pk, 'd, 'fd, 'a) application_perf \<Rightarrow> writer \<Rightarrow> session_id \<Rightarrow> u32
     \<Rightarrow> bytes \<Rightarrow> ('pk, 'kp, 'kem, 'd) session_perf \<Rightarrow> ('pk, 'kp, 'r, 'kem, 'd, 'fd, 'a) pworld
     \<Rightarrow> bytes \<times> (receive_error_perf, receive_ok_perf \<times> i64 option) outcome \<times> ('pk, 'kp, 'r, 'kem, 'd, 'fd, 'a) pworld" where
  "receive_session_perf C P A out session kid_recv incoming_fragment z w =
     (let incoming_fragment = decrypt_header_perf C (ps_hk_recv z) incoming_fragment
      in case parse_fragment_header incoming_fragment of
           Inl e \<Rightarrow> ([], Err e, w)
         | Inr (fragment_no, fragment_count, nonce) \<Rightarrow>
             (let (packet_type, incoming_counter) = from_nonce nonce
              in case session_vrfy_perf session z packet_type incoming_counter of
                   Some e \<Rightarrow> ([], Err e, w)
                 | None \<Rightarrow>
                     (case session_defrag P incoming_counter incoming_fragment fragment_no fragment_count z of
                        None \<Rightarrow> ([], Panic, w)
                      | Some (fragments, z) \<Rightarrow>
                          if fragments = [] then ([], Ok (FragmentP session, None), put_session session z w)
                          else if packet_type = PACKET_TYPE_DATA then
                            (case receive_payload_in_place P out session kid_recv nonce fragments z of
                               (written, r, z) \<Rightarrow>
                                 (written, map_outcome id (\<lambda>_. (AssociatedP session DataP, None)) r, put_session session z w))
                          else
                            (case join_fragments HANDSHAKE_RESPONSE_SIZE fragment_count fragments of
                               None \<Rightarrow> ([], Err (fault_on InvalidPacket True session), put_session session z w)
                             | Some assembled_packet \<Rightarrow>
                                 (case dispatch_perf C P A session kid_recv packet_type nonce assembled_packet z w of
                                    (r, z, w) \<Rightarrow>
                                      ([], map_outcome id (\<lambda>(e, reduced). (AssociatedP session e, reduced)) r,
                                       put_session session z w))))))"

section \<open>Receiving on a pending handshake\<close>

definition receive_b2_perf ::
  "('pk, 'kp, 'r, 'kem) crypto_layer \<Rightarrow> platform \<Rightarrow> ('pk, 'd, 'fd, 'a) application_perf \<Rightarrow> u32 \<Rightarrow> bytes
     \<Rightarrow> nat \<Rightarrow> ('kp, 'fd) state_b2_perf \<Rightarrow> ('pk, 'kp, 'r, 'kem, 'd, 'fd, 'a) pworld
     \<Rightarrow> (receive_error_perf, receive_ok_perf \<times> i64 option) outcome \<times> ('pk, 'kp, 'r, 'kem, 'd, 'fd, 'a) pworld" where
  "receive_b2_perf C P A kid_recv incoming_fragment addr zeta w =
     (let incoming_fragment = decrypt_header_perf C (pb_hk_recv zeta) incoming_fragment
      in case parse_fragment_header incoming_fragment of
           Inl e \<Rightarrow> (Err e, w)
         | Inr (fragment_no, fragment_count, nonce) \<Rightarrow>
             (let (packet_type, incoming_counter) = from_nonce nonce
              in if packet_type \<noteq> PACKET_TYPE_HANDSHAKE_COMPLETION \<or> incoming_counter \<noteq> 0
                 then (Err (fault_un InvalidPacket True), w)
                 else
                   case (if 1 < fragment_count
                         then fragged_assemble (pl_needs_drop P) (pb_defrag zeta) incoming_counter incoming_fragment
                                fragment_no fragment_count []
                         else Some (pb_defrag zeta, [incoming_fragment])) of
                     None \<Rightarrow> (Panic, w)
                   | Some (defrag, fragments) \<Rightarrow>
                       (let zeta = zeta\<lparr>pb_defrag := defrag\<rparr>;
                            w = w\<lparr>px_b2_heap := (px_b2_heap w)(addr \<mapsto> zeta)\<rparr>
                        in if fragments = [] then (Ok (UnassociatedP, None), w)
                           else case join_fragments HANDSHAKE_COMPLETION_MAX_SIZE fragment_count fragments of
                             None \<Rightarrow> (Err (fault_un InvalidPacket True), w)
                           | Some assembled_packet \<Rightarrow>
                               (case hc_remove (px_handshakes w) kid_recv of
                                  (removed, cache) \<Rightarrow>
                                    (let w = w\<lparr>px_handshakes := cache\<rparr>
                                     in if \<not> removed then (Ok (UnassociatedP, None), w)
                                        else case received_x3_trans_perf C P A zeta kid_recv assembled_packet w of
                                               (r, w) \<Rightarrow>
                                                 (map_outcome id (\<lambda>(session, warn, reduced).
                                                    (AssociatedP session
                                                       (if warn then NewDowngradedSessionP else NewSessionP), reduced)) r,
                                                  w))))))"

section \<open>Receiving a hello or a challenge\<close>

text \<open>The challenge packet that answers a hello; it is sent as one fragment without encryption.\<close>

definition challenge_packet ::
  "('pk, 'kp, 'r, 'kem) crypto_layer \<Rightarrow> platform \<Rightarrow> bytes \<Rightarrow> bytes \<Rightarrow> u64 \<Rightarrow> bytes" where
  "challenge_packet C P kid challenge x =
     (let p = replicate HEADER_SIZE 0 @ kid @ challenge;
          nonce = to_nonce PACKET_TYPE_CHALLENGE x;
          p = p[FRAGMENT_COUNT_IDX := 1];
          p = write_at PACKET_NONCE_START (take PACKET_NONCE_SIZE nonce) p
      in set_header P p 0 nonce)"

definition process_hello_packet_perf ::
  "('pk, 'kp, 'r, 'kem) crypto_layer \<Rightarrow> platform \<Rightarrow> ('pk, 'd, 'fd, 'a) application_perf \<Rightarrow> bytes \<Rightarrow> bytes \<Rightarrow> bytes
     \<Rightarrow> ('pk, 'kp, 'r, 'kem, 'd, 'fd, 'a) pworld
     \<Rightarrow> bytes list \<times> (receive_error_perf, receive_ok_perf \<times> i64 option) outcome
          \<times> ('pk, 'kp, 'r, 'kem, 'd, 'fd, 'a) pworld" where
  "process_hello_packet_perf C P A remote_address nonce assembled w =
     (if HANDSHAKE_HELLO_CHALLENGE_SIZE \<noteq> length assembled then ([], Err (fault_un InvalidPacket True), w)
      else
        let challenge_start = length assembled - CHALLENGE_SIZE;
            (action, a) = pa_incoming_session A (pw_app w);
            w = w\<lparr>pw_app := a\<rparr>;
            proceed = (\<lambda>w. case received_x1_trans_perf C P A nonce (take challenge_start assembled) w of
              (r, w) \<Rightarrow> ([], map_outcome id (Pair UnassociatedP) r, w))
        in case action of
             AllowP \<Rightarrow> proceed w
           | DropP \<Rightarrow> ([], Err RejectedP, w)
           | ChallengeP \<Rightarrow>
               (case process_hello_perf C (px_challenge w) remote_address (drop challenge_start assembled) of
                  (r, cc) \<Rightarrow>
                    (let w = w\<lparr>px_challenge := cc\<rparr>
                     in case r of
                          Err challenge \<Rightarrow>
                            (let (x, rng) = next_u64 C (px_rng w)
                             in ([challenge_packet C P (take KID_SIZE assembled) challenge x],
                                 Err (fault_un FailedAuth False), w\<lparr>px_rng := rng\<rparr>))
                        | Ok _ \<Rightarrow> proceed w
                        | Panic \<Rightarrow> ([], Panic, w)
                        | Diverge \<Rightarrow> ([], Diverge, w))))"

definition process_challenge_packet_perf ::
  "('pk, 'kp, 'r, 'kem) crypto_layer \<Rightarrow> platform \<Rightarrow> bytes \<Rightarrow> ('pk, 'kp, 'r, 'kem, 'd, 'fd, 'a) pworld
     \<Rightarrow> (receive_error_perf, receive_ok_perf \<times> i64 option) outcome \<times> ('pk, 'kp, 'r, 'kem, 'd, 'fd, 'a) pworld" where
  "process_challenge_packet_perf C P assembled w =
     (if length assembled \<noteq> KID_SIZE + CHALLENGE_SIZE then (Err (fault_un InvalidPacket True), w)
      else case NonZeroU32_new (u32_from_ne_bytes P (take KID_SIZE assembled)) of
        None \<Rightarrow> (Err (fault_un UnknownLocalKeyId True), w)
      | Some kid_recv \<Rightarrow>
          (case Option.bind (px_session_map w kid_recv) (\<lambda>s. map_option (Pair s) (px_heap w s)) of
             None \<Rightarrow> (Err (fault_un UnknownLocalKeyId True), w)
           | Some (session, z) \<Rightarrow>
               (case respond_to_challenge_perf C P (drop KID_SIZE assembled) z w of
                  (r, z, w) \<Rightarrow> (map_outcome id (\<lambda>_. (UnassociatedP, None)) r, put_session session z w))))"

definition receive_hello_perf ::
  "('pk, 'kp, 'r, 'kem) crypto_layer \<Rightarrow> platform \<Rightarrow> ('pk, 'd, 'fd, 'a) application_perf \<Rightarrow> bytes \<Rightarrow> bytes
     \<Rightarrow> ('pk, 'kp, 'r, 'kem, 'd, 'fd, 'a) pworld
     \<Rightarrow> bytes list \<times> (receive_error_perf, receive_ok_perf \<times> i64 option) outcome
          \<times> ('pk, 'kp, 'r, 'kem, 'd, 'fd, 'a) pworld" where
  "receive_hello_perf C P A remote_address incoming_fragment w =
     (case parse_fragment_header incoming_fragment of
        Inl e \<Rightarrow> ([], Err e, w)
      | Inr (fragment_no, fragment_count, nonce) \<Rightarrow>
          (let (packet_type, _) = from_nonce nonce
           in if packet_type \<noteq> PACKET_TYPE_HANDSHAKE_HELLO \<and> packet_type \<noteq> PACKET_TYPE_CHALLENGE
              then ([], Err (fault_un InvalidPacket True), w)
              else
                case (if 1 < fragment_count
                      then
                        let (t, w) = time_perf A w
                        in map_option
                             (\<lambda>(next_service_time, cache, fragments).
                                let w = w\<lparr>px_defrag_cache := cache\<rparr>;
                                    (reduced, w) = (case next_service_time of
                                        None \<Rightarrow> (None, w)
                                      | Some t \<Rightarrow> reduce_next_service_time t w)
                                in (reduced, fragments, w))
                             (unassociated_assemble (SETTINGS C) (pl_frag_hash P) nonce remote_address
                                (length incoming_fragment - HEADER_SIZE) incoming_fragment fragment_no fragment_count
                                t [] (px_defrag_cache w))
                      else Some (None, [incoming_fragment], w)) of
                  None \<Rightarrow> ([], Panic, w)
                | Some (next_service_time, fragments, w) \<Rightarrow>
                    if fragments = [] then ([], Ok (UnassociatedP, next_service_time), w)
                    else case join_fragments HANDSHAKE_HELLO_CHALLENGE_SIZE fragment_count fragments of
                      None \<Rightarrow> ([], Err (fault_un InvalidPacket True), w)
                    | Some assembled_packet \<Rightarrow>
                        if packet_type = PACKET_TYPE_HANDSHAKE_HELLO
                        then process_hello_packet_perf C P A remote_address nonce assembled_packet w
                        else case process_challenge_packet_perf C P assembled_packet w of (r, w) \<Rightarrow> ([], r, w)))"

section \<open>Receiving, sending, service\<close>

text \<open>\<open>reply\<close> is \<open>send_unassociated_reply\<close> with its MTU, \<open>send_to\<close> finds the sender of a session.\<close>

definition Context_receive_perf ::
  "('pk, 'kp, 'r, 'kem) crypto_layer \<Rightarrow> platform \<Rightarrow> ('pk, 'd, 'fd, 'a) application_perf \<Rightarrow> sender \<times> nat \<Rightarrow> send_to
     \<Rightarrow> writer \<Rightarrow> bytes \<Rightarrow> bytes \<Rightarrow> ('pk, 'kp, 'r, 'kem, 'd, 'fd, 'a) pworld
     \<Rightarrow> bytes \<times> (receive_error_perf, receive_ok_perf \<times> i64 option) outcome \<times> bytes list
          \<times> ('pk, 'kp, 'r, 'kem, 'd, 'fd, 'a) pworld" where
  "Context_receive_perf C P A reply send_to out remote_address incoming_fragment w =
     (if length incoming_fragment < MIN_PACKET_SIZE then ([], Err (fault_un InvalidPacket False), [], w)
      else case NonZeroU32_new (u32_from_ne_bytes P (take KID_SIZE incoming_fragment)) of
        Some kid_recv \<Rightarrow>
          (case Option.bind (px_session_map w kid_recv) (\<lambda>s. map_option (Pair s) (px_heap w s)) of
             Some (session, z) \<Rightarrow>
               (case receive_session_perf C P A out session kid_recv incoming_fragment z w of
                  (written, rw) \<Rightarrow> (written, flush_perf C (send_to session) rw))
           | None \<Rightarrow>
               (case Option.bind (hc_get (px_handshakes w) kid_recv)
                       (\<lambda>addr. map_option (Pair addr) (px_b2_heap w addr)) of
                  Some (addr, zeta) \<Rightarrow>
                    ([], flush_perf C (Some reply) (receive_b2_perf C P A kid_recv incoming_fragment addr zeta w))
                | None \<Rightarrow> ([], Err (fault_un UnknownLocalKeyId False), [], w)))
      | None \<Rightarrow>
          (case receive_hello_perf C P A remote_address incoming_fragment w of
             (direct, rw) \<Rightarrow>
               (case flush_perf C (Some reply) rw of (r, wire, w) \<Rightarrow> ([], r, direct @ wire, w))))"

text \<open>The session handed to \<open>send\<close> is an \<open>Arc\<close>, so it is in the heap.\<close>

definition Context_send_perf ::
  "('pk, 'kp, 'r, 'kem) crypto_layer \<Rightarrow> platform \<Rightarrow> session_id \<Rightarrow> sender \<Rightarrow> nat \<Rightarrow> bytes
     \<Rightarrow> ('pk, 'kp, 'r, 'kem, 'd, 'fd, 'a) pworld
     \<Rightarrow> (send_error, bool) outcome \<times> bytes list \<times> ('pk, 'kp, 'r, 'kem, 'd, 'fd, 'a) pworld" where
  "Context_send_perf C P session send mtu data w =
     (case px_heap w session of
        None \<Rightarrow> (Err SessionExpired, [], w)
      | Some z \<Rightarrow>
          (case send_payload_perf C P send mtu data z w of
             (wire, r, z, w) \<Rightarrow> (r, wire, put_session session z w)))"

definition max_sendable_len :: "nat \<Rightarrow> nat" where
  "max_sendable_len mtu = (mtu - HEADER_SIZE) * MAX_FRAGMENTS - AES_GCM_TAG_SIZE"

text \<open>
  The loop of \<open>service_inner\<close> over the queue. \<open>Err s\<close>: the session \<open>s\<close> has expired. \<open>None\<close>: the loop
  does not end.
\<close>

partial_function (option) service_queue ::
  "('pk, 'kp, 'r, 'kem) crypto_layer \<Rightarrow> platform \<Rightarrow> send_to \<Rightarrow> i64 \<Rightarrow> i64 \<Rightarrow> bytes list
     \<Rightarrow> ('pk, 'kp, 'r, 'kem, 'd, 'fd, 'a) pworld
     \<Rightarrow> ((session_id, i64) outcome \<times> bytes list \<times> ('pk, 'kp, 'r, 'kem, 'd, 'fd, 'a) pworld) option" where
  "service_queue C P send_to current_time queue_service_time wire w =
     (case heap_peek (px_session_queue w) of
        None \<Rightarrow> Some (Panic, wire, w)
      | Some None \<Rightarrow> Some (Ok queue_service_time, wire, w)
      | Some (Some (session, prio, queue_idx)) \<Rightarrow>
          if current_time < rev_time prio
          then Some (Ok (min queue_service_time (rev_time prio)), wire, w)
          else
            case px_heap w session of
              None \<Rightarrow>
                (case heap_remove (px_session_queue w) queue_idx of
                   None \<Rightarrow> Some (Panic, wire, w)
                 | Some (_, q) \<Rightarrow>
                     service_queue C P send_to current_time queue_service_time wire (w\<lparr>px_session_queue := q\<rparr>))
            | Some z \<Rightarrow>
                (case process_timers C P session current_time z w of
                   (r, z, w) \<Rightarrow>
                     (case flush_perf C (send_to session) (r, put_session session z w) of
                        (Ok next_t, out, w) \<Rightarrow>
                          (case change_priority (px_session_queue w) queue_idx (Reverse next_t) of
                             None \<Rightarrow> Some (Panic, wire @ out, w)
                           | Some (_, q) \<Rightarrow>
                               service_queue C P send_to current_time (min queue_service_time next_t) (wire @ out)
                                 (w\<lparr>px_session_queue := q\<rparr>))
                      | (Err _, out, w) \<Rightarrow>
                          (case expire_inner z w of
                             None \<Rightarrow> Some (Panic, wire @ out, w)
                           | Some (z, w) \<Rightarrow> Some (Err session, wire @ out, put_session session z w))
                      | (Panic, out, w) \<Rightarrow> Some (Panic, wire @ out, w)
                      | (Diverge, out, w) \<Rightarrow> Some (Diverge, wire @ out, w))))"

definition service_inner ::
  "('pk, 'kp, 'r, 'kem) crypto_layer \<Rightarrow> platform \<Rightarrow> send_to \<Rightarrow> i64 \<Rightarrow> ('pk, 'kp, 'r, 'kem, 'd, 'fd, 'a) pworld
     \<Rightarrow> ((session_id, i64) outcome \<times> bytes list \<times> ('pk, 'kp, 'r, 'kem, 'd, 'fd, 'a) pworld) option" where
  "service_inner C P send_to current_time w =
     (case service_queue C P send_to current_time I64_MAX [] w of
        None \<Rightarrow> None
      | Some (Ok queue_service_time, wire, w) \<Rightarrow>
          (let w = w\<lparr>px_next_service_time := queue_service_time\<rparr>
           in case check_for_expiry (SETTINGS C) current_time (px_defrag_cache w) of
                None \<Rightarrow> Some (Panic, wire, w)
              | Some (defrag_service_time, cache) \<Rightarrow>
                  (let w = w\<lparr>px_defrag_cache := cache\<rparr>;
                       (handshake_service_time, hs) = hc_service (px_handshakes w) current_time;
                       w = w\<lparr>px_handshakes := hs\<rparr>;
                       t2 = min defrag_service_time handshake_service_time;
                       t1 = px_next_service_time w;
                       w = w\<lparr>px_next_service_time := min t1 t2\<rparr>
                   in Some (Ok (min t1 t2), wire, w)))
      | Some (r, wire, w) \<Rightarrow> Some (r, wire, w))"

definition service_scheduled ::
  "('pk, 'kp, 'r, 'kem) crypto_layer \<Rightarrow> platform \<Rightarrow> ('pk, 'd, 'fd, 'a) application_perf \<Rightarrow> send_to
     \<Rightarrow> ('pk, 'kp, 'r, 'kem, 'd, 'fd, 'a) pworld
     \<Rightarrow> ((session_id, i64) outcome \<times> bytes list \<times> ('pk, 'kp, 'r, 'kem, 'd, 'fd, 'a) pworld) option" where
  "service_scheduled C P A send_to w =
     (let (current_time, w) = time_perf A w in service_inner C P send_to current_time w)"

text \<open>The loop of \<open>service\<close>, which runs until no session expires any more.\<close>

partial_function (option) service_until_ok ::
  "('pk, 'kp, 'r, 'kem) crypto_layer \<Rightarrow> platform \<Rightarrow> send_to \<Rightarrow> i64 \<Rightarrow> bytes list
     \<Rightarrow> ('pk, 'kp, 'r, 'kem, 'd, 'fd, 'a) pworld
     \<Rightarrow> ((unit, i64) outcome \<times> bytes list \<times> ('pk, 'kp, 'r, 'kem, 'd, 'fd, 'a) pworld) option" where
  "service_until_ok C P send_to current_time wire w =
     (case service_inner C P send_to current_time w of
        None \<Rightarrow> None
      | Some (Ok ts, out, w) \<Rightarrow> Some (Ok ts, wire @ out, w)
      | Some (Err _, out, w) \<Rightarrow> service_until_ok C P send_to current_time (wire @ out) w
      | Some (Panic, out, w) \<Rightarrow> Some (Panic, wire @ out, w)
      | Some (Diverge, out, w) \<Rightarrow> Some (Diverge, wire @ out, w))"

definition Context_service_perf ::
  "('pk, 'kp, 'r, 'kem) crypto_layer \<Rightarrow> platform \<Rightarrow> ('pk, 'd, 'fd, 'a) application_perf \<Rightarrow> send_to
     \<Rightarrow> ('pk, 'kp, 'r, 'kem, 'd, 'fd, 'a) pworld
     \<Rightarrow> ((unit, i64) outcome \<times> bytes list \<times> ('pk, 'kp, 'r, 'kem, 'd, 'fd, 'a) pworld) option" where
  "Context_service_perf C P A send_to w =
     (let (current_time, w) = time_perf A w;
          max_interval = min (min (fragment_assembly_timeout (SETTINGS C)) (rekey_timeout (SETTINGS C)))
            (initial_offer_timeout (SETTINGS C))
      in case service_until_ok C P send_to current_time [] w of
           None \<Rightarrow> None
         | Some (Ok next_service_time, wire, w) \<Rightarrow>
             Some (Ok (min (i64_sub next_service_time current_time) (as_i64 max_interval)), wire, w)
         | Some (r, wire, w) \<Rightarrow> Some (r, wire, w))"

definition Context_next_service_time :: "('pk, 'kp, 'r, 'kem, 'd, 'fd, 'a) pworld \<Rightarrow> i64" where
  "Context_next_service_time w = px_next_service_time w"

end
