(* ===== verification/Perf_Sizes.thy ===== *)
theory Perf_Sizes
  imports Perf_Context
begin

text \<open>
  The sizes of the messages that the handshake, the rekeying and the control packets of the
  performance crate write, and the consequence for the wire: a packet of at least a header and a
  tag is always cut into fragments that are long enough for the encryption of their header, so
  \<open>send_with_fragmentation\<close> never panics on what the transitions hand to it.
\<close>

section \<open>Messages\<close>

lemma get_ask_perf_lengths:
  assumes "crypto_sized C"
  shows "length (fst (get_ask_perf C s l)) = 64" "length (snd (get_ask_perf C s l)) = 64"
  using assms by (auto simp: get_ask_perf_def kbkdf_perf_def Let_def crypto_sizedD)

lemma split_perf_lengths:
  assumes "crypto_sized C"
  shows "length (fst (split_perf C s)) = 64" "length (snd (split_perf C s)) = 64"
  using assms by (auto simp: split_perf_def kbkdf_perf_def Let_def crypto_sizedD)

lemma seal_tail_length:
  assumes "crypto_sized C" "i \<le> length x"
  shows "length (snd (seal_tail C s n i x)) = length x + 16"
  using assms(2) by (simp add: seal_tail_def encrypt_and_hash_perf_def case_prod_beta crypto_sizedD [OF assms(1)])

lemma write_e_no_init_length:
  assumes "crypto_sized C"
  shows "length (snd (snd (snd (write_e_no_init C s rng x)))) = length x + 49"
  using assms by (simp add: write_e_no_init_def Let_def case_prod_beta crypto_sizedD)

lemma set_header_length [simp]:
  "length n = 12 \<Longrightarrow> 16 \<le> length p \<Longrightarrow> length (set_header P p kid n) = length p"
  by (simp add: set_header_def zssp_sizes)

lemma gen_null_response_perf_length: "length (fst (gen_null_response_perf b C rng)) = 32"
  by (simp add: gen_null_response_perf_def u64_to_ne_bytes_def zssp_sizes case_prod_beta)

lemmas message_lengths = seal_tail_length write_e_no_init_length crypto_sizedD

lemma create_a1_state_perf_sized:
  assumes "crypto_sized C" "ratchet_wf rs1" "pred_option ratchet_wf rs2"
  shows "length (ap_x1 (fst (create_a1_state_perf C P rng s kid rs1 rs2 ident))) = HEADER_SIZE + HANDSHAKE_HELLO_CHALLENGE_SIZE"
    "ap_identity (fst (create_a1_state_perf C P rng s kid rs1 rs2 ident)) = ident"
proof -
  have r1: "length (rs_fingerprint rs1) = 32" using assms(2) by (simp add: ratchet_wf_def zssp_sizes)
  have r2: "length (case rs2 of None \<Rightarrow> replicate RATCHET_SIZE 0 | Some rs \<Rightarrow> rs_fingerprint rs) = 32"
    using assms(3) by (cases rs2) (simp_all add: ratchet_wf_def zssp_sizes)
  show "length (ap_x1 (fst (create_a1_state_perf C P rng s kid rs1 rs2 ident))) = HEADER_SIZE + HANDSHAKE_HELLO_CHALLENGE_SIZE"
    by (simp add: create_a1_state_perf_def Let_def case_prod_beta message_lengths [OF assms(1)] zssp_sizes r1 r2
      gen_null_response_perf_length)
qed (simp add: create_a1_state_perf_def Let_def case_prod_beta)

lemma create_k1_perf_length:
  assumes "crypto_sized C"
  shows "length (fst (snd (snd (create_k1_perf C P s r ss rk rng kid)))) = HEADER_SIZE + (REKEY_SIZE - AES_GCM_TAG_SIZE)"
  by (simp add: create_k1_perf_def Let_def case_prod_beta message_lengths [OF assms] zssp_sizes)

lemma write_x3_perf_length:
  assumes "crypto_sized C"
  shows "length (snd (write_x3_perf C s e ident noise)) = HEADER_SIZE + (HANDSHAKE_COMPLETION_MIN_SIZE + length ident)"
  by (simp add: write_x3_perf_def Let_def case_prod_beta message_lengths [OF assms] zssp_sizes)

lemma kem_encapsulate_length:
  assumes "crypto_sized C" "fst (kem_encapsulate C r e) = Some (ct, ss)"
  shows "length ct = 1568"
  using crypto_sizedD(11) [OF assms(1), of r e ct ss] assms(2) by (cases "kem_encapsulate C r e") simp

lemma write_x2_tokens_perf_length:
  assumes "crypto_sized C" "write_x2_tokens_perf C e e1 rk noise rng = (Inr (es, noise', x2), rng')"
  shows "length x2 = HEADER_SIZE + (P384_PUBLIC_KEY_SIZE + KYBER_CIPHERTEXT_SIZE + AES_GCM_TAG_SIZE)"
  using assms(2)
  by (auto simp: write_x2_tokens_perf_def Let_def case_prod_beta message_lengths [OF assms(1)] zssp_sizes
      dest: kem_encapsulate_length [OF assms(1)] split: prod.splits option.splits)

lemma write_x2_payload_perf_length:
  assumes "crypto_sized C"
  shows "length (fst (snd (write_x2_payload_perf C P noise x2 kid))) = length x2 + KID_SIZE + AES_GCM_TAG_SIZE"
  by (simp add: write_x2_payload_perf_def Let_def case_prod_beta message_lengths [OF assms] zssp_sizes)

lemma write_k2_perf_length:
  assumes "crypto_sized C"
  shows "length (snd (write_k2_payload_perf C P noise (fst (snd (write_k2_tokens_perf C s e noise' rng))) kid)) =
    HEADER_SIZE + (REKEY_SIZE - AES_GCM_TAG_SIZE)"
  by (simp add: write_k2_payload_perf_def write_k2_tokens_perf_def Let_def case_prod_beta message_lengths [OF assms] zssp_sizes)

lemma create_reject_perf_length:
  assumes "crypto_sized C"
  shows "length (create_reject_perf C P b2 kek) = HEADER_SIZE + SESSION_REJECTED_SIZE"
  by (simp add: create_reject_perf_def Let_def case_prod_beta crypto_sizedD [OF assms] zssp_sizes)

section \<open>The wire\<close>

lemma ceiling_div_pos: "0 < m \<Longrightarrow> 0 < n \<Longrightarrow> 0 < (n + (m - 1)) div (m :: nat)"
  by (simp add: div_greater_zero_iff)

lemma ceiling_div_bound:
  assumes "0 < (m :: nat)" "0 < n"
  shows "((n + (m - 1)) div m - 1) * m < n"
proof -
  let ?q = "(n + (m - 1)) div m"
  have "?q * m \<le> n + (m - 1)" by (rule div_times_less_eq_dividend)
  moreover have "(?q - 1) * m = ?q * m - m" by (simp add: diff_mult_distrib)
  ultimately show ?thesis using assms by linarith
qed

text \<open>A payload that does not fit into one fragment is cut into fragments of at least half the room.\<close>

lemma fragment_base_bound:
  assumes "32 \<le> (m :: nat)" "16 \<le> n"
  shows "16 \<le> n div ((n + (m - 1)) div m)"
proof -
  let ?q = "(n + (m - 1)) div m"
  have q: "0 < ?q" using assms ceiling_div_pos by simp
  show ?thesis
  proof (cases "?q = 1")
    case False
    with q have "2 \<le> ?q" by linarith
    then have "16 * ?q \<le> 16 * (2 * (?q - 1))" by simp
    also have "\<dots> = (?q - 1) * 32" by simp
    also have "\<dots> \<le> (?q - 1) * m" using assms(1) by (intro mult_le_mono) simp_all
    also have "\<dots> < n" using ceiling_div_bound [of m n] assms by simp
    finally show ?thesis using q by (simp add: less_eq_div_iff_mult_less_eq)
  qed (use assms in simp)
qed

lemma cut_fragment_works:
  assumes "crypto_sized C" "length header = 16" "16 \<le> i" "i + 4 \<le> j" "j \<le> length p"
  shows "\<exists>f p'. cut_fragment C hk header no i j p = Some (f, p') \<and> length f = 16 + (j - i) \<and> length p' = length p"
proof -
  let ?f = "(write_at 0 header (subslice (i - 16) j p))[4 := word_of_nat no]"
  have s: "length (subslice (i - 16) j p) = 16 + (j - i)" using assms by simp
  then have l: "length ?f = 16 + (j - i)" using assms by simp
  show ?thesis
  proof (cases hk)
    case None
    then show ?thesis using l assms by (simp add: cut_fragment_def Let_def zssp_sizes)
  next
    case (Some k)
    have "length (prp_encrypt_in_place C k (subslice 4 20 ?f)) = 16"
      using l assms by (intro crypto_sizedD(1)) (auto simp: min_def)
    then show ?thesis using Some l assms by (simp add: cut_fragment_def Let_def zssp_sizes)
  qed
qed

lemma cut_loop_works:
  assumes "crypto_sized C" "length header = 16" "4 \<le> base" "16 \<le> i"
    "i + (\<Sum>no\<leftarrow>nos. base + (if no < r then 1 else 0)) \<le> length p"
  shows "cut_loop C send hk header base r nos i p out \<noteq> None"
  using assms(4,5)
proof (induction nos arbitrary: i p out)
  case (Cons no nos)
  let ?j = "i + base + (if no < r then 1 else 0)"
  obtain f p' where c: "cut_fragment C hk header no i ?j p = Some (f, p')" "length p' = length p"
    using cut_fragment_works [OF assms(1,2) Cons.prems(1), of ?j p hk no] Cons.prems(2) assms(3) by auto
  have "cut_loop C send hk header base r nos ?j p' (out @ [f]) \<noteq> None"
    by (rule Cons.IH) (use Cons.prems c(2) in simp_all)
  then show ?case using c(1) by (auto simp: Let_def)
qed simp

lemma sum_list_remainder: "(\<Sum>no\<leftarrow>[0..<n]. b + (if no < r then 1 else 0)) = n * b + min n (r :: nat)"
  by (induction n) (auto simp: min_def)

lemma send_with_fragmentation_perf_works:
  assumes "crypto_sized C" "MIN_PACKET_SIZE \<le> length p" "MIN_TRANSPORT_MTU \<le> mtu"
  shows "send_with_fragmentation_perf C send mtu p hk \<noteq> None"
proof -
  define n m where "n = length p - 16" and "m = mtu - 16"
  define q where "q = (n + (m - 1)) div m"
  have n: "16 \<le> n" "32 \<le> m" "length p = 16 + n" using assms(2,3) by (simp_all add: n_def m_def zssp_sizes)
  have q: "0 < q" using ceiling_div_pos [of m n] n by (simp add: q_def)
  have "cut_loop C send hk ((take 16 p)[5 := word_of_nat q]) (n div q) (n mod q) [0..<q] 16 p [] \<noteq> None"
  proof (rule cut_loop_works [OF assms(1)])
    show "4 \<le> n div q" using fragment_base_bound [OF n(2,1)] by (simp add: q_def)
    have "min q (n mod q) = n mod q" using q by (simp add: min_absorb2 less_imp_le)
    then have "q * (n div q) + min q (n mod q) = n" by (metis mult_div_mod_eq)
    then show "16 + (\<Sum>no\<leftarrow>[0..<q]. n div q + (if no < n mod q then 1 else 0)) \<le> length p"
      unfolding sum_list_remainder n(3) by simp
  qed (use n in simp_all)
  moreover have "send_with_fragmentation_perf C send mtu p hk =
    cut_loop C send hk ((take 16 p)[5 := word_of_nat q]) (n div q) (n mod q) [0..<q] 16 p []"
    using q by (simp add: send_with_fragmentation_perf_def Let_def zssp_sizes q_def n_def m_def)
  ultimately show ?thesis by simp
qed

lemma transmit_perf_works:
  assumes "crypto_sized C" "MIN_PACKET_SIZE \<le> length (fst x)"
  shows "transmit_perf C sender x \<noteq> None"
proof (cases sender)
  case (Some sm)
  then show ?thesis
    using send_with_fragmentation_perf_works [OF assms, of "max (snd sm) MIN_TRANSPORT_MTU" "fst sm" "snd x"]
    by (auto simp: transmit_perf_def split: prod.splits)
qed (simp add: transmit_perf_def)

lemma flush_perf_works:
  assumes "crypto_sized C" "\<forall>x \<in> set (pw_sent w). MIN_PACKET_SIZE \<le> length (fst x)"
  shows "\<exists>wire. flush_perf C sender (r, w) = (r, wire, w\<lparr>pw_sent := []\<rparr>)"
proof -
  have "None \<notin> set (map (transmit_perf C sender) (pw_sent w))"
    using transmit_perf_works [OF assms(1), of _ sender] assms(2) by (metis (no_types) imageE set_map)
  then show ?thesis by (simp add: flush_perf_def Let_def)
qed

end
