(* ===== verification/Perf_Sample.thy ===== *)
theory Perf_Sample
  imports Perf_Context Sample_Crypto
begin

text \<open>
  An application that allows every session and keeps no ratchet state, and two contexts of the
  performance crate that share an established session, on which the examples of the other
  theories are evaluated.
\<close>

definition sample_application :: "(u8, unit, unit, unit) application_perf" where
  "sample_application =
     \<lparr>pa_time = (\<lambda>a. (1000, a)), pa_incoming_session = (\<lambda>a. (AllowP, a)),
      pa_hello_requires_recognized_ratchet = (\<lambda>a. (False, a)),
      pa_initiator_disallows_downgrade = (\<lambda>s a. (False, a)),
      pa_check_accept_session = (\<lambda>pk ident d a. (\<lparr>aa_session_data = Some (), aa_responder_disallows_downgrade = False,
        aa_responder_silently_rejects = False\<rparr>, a)),
      pa_restore_by_fingerprint = (\<lambda>rf a. (Inr None, a)),
      pa_restore_by_identity = (\<lambda>pk d l a. (Inr None, a)),
      pa_save_ratchet_state = (\<lambda>pk d u a. (Inr True, a))\<rparr>"

definition sample_b2 :: "u32 \<Rightarrow> u32 \<Rightarrow> (u8, unit) state_b2_perf" where
  "sample_b2 kid_send kid_recv =
     \<lparr>pb_ratchet_state = ratchet_empty, pb_lookup_data = None, pb_kid_send = kid_send, pb_kid_recv = kid_recv,
      pb_hk_send = replicate 32 3, pb_hk_recv = replicate 32 3, pb_e_secret = 4,
      pb_noise = initialize_perf PROTOCOL_NAME_NOISE_XK, pb_defrag = fragged_new MAX_FRAGMENTS\<rparr>"

text \<open>A session that sends under the key of ones and receives under the key of twos, or the reverse.\<close>

definition sample_session :: "u32 \<Rightarrow> u32 \<Rightarrow> u8 \<Rightarrow> u8 \<Rightarrow> (u8, u8, unit, unit) session_perf" where
  "sample_session kid_send kid_recv k_send k_recv =
     new_bob_session sample_crypto (sample_b2 kid_send kid_recv) () 9 ratchet_empty [] (0, 2) 1000
       (replicate 64 5) (replicate 64 6) (replicate 64 k_send) (replicate 64 k_recv)"

definition sample_context :: "(u8, u8, nat, unit, unit, unit, unit) pworld" where
  "sample_context = Context_new_perf sample_crypto 4 0 ()"

definition sample_sender :: "(u8, u8, nat, unit, unit, unit, unit) pworld" where
  "sample_sender = sample_context\<lparr>px_heap := [0 \<mapsto> sample_session 5 6 1 2], px_session_map := [6 \<mapsto> 0]\<rparr>"

definition sample_receiver :: "(u8, u8, nat, unit, unit, unit, unit) pworld" where
  "sample_receiver = sample_context\<lparr>px_heap := [0 \<mapsto> sample_session 6 5 2 1], px_session_map := [5 \<mapsto> 0]\<rparr>"

end
