(* ===== verification/Perf_Payload.thy ===== *)
theory Perf_Payload
  imports Perf_Sizes Perf_Sample
begin

text \<open>
  The data path of the performance crate from \<open>send_payload\<close> to \<open>receive_payload_in_place\<close>: how a
  payload is cut, that the fragments always fit, and that whatever the order in which they arrive
  the receiver opens exactly the payload. The numbers of the cut are a locale, interpreted on the
  fragment count that \<open>send_payload\<close> computes.
\<close>

section \<open>Cutting a payload\<close>

lemma pow_search_perf_length:
  fixes C :: "('pk, 'kp, 'r, 'kem) crypto_layer"
  shows "pow_search_perf b C pre pow = Some r \<Longrightarrow> length pre = 32 \<longrightarrow> length r = 32"
proof (rule pow_search_perf.raw_induct [where P = "\<lambda>b C pre pow r. length pre = 32 \<longrightarrow> length r = 32"])
  fix search :: "bool \<Rightarrow> ('pk, 'kp, 'r, 'kem) crypto_layer \<Rightarrow> bytes \<Rightarrow> u64 \<Rightarrow> bytes option"
  fix b C pre pow r
  assume ih: "\<And>b C pre pow r. search b C pre pow = Some r \<Longrightarrow> length pre = 32 \<longrightarrow> length r = 32"
  assume eq: "(let pre' = write_at POW_START (u64_to_ne_bytes b pow) pre
     in if verify_pow_perf C pre' then Some pre' else search b C pre' (pow + 1)) = Some r"
  show "length pre = 32 \<longrightarrow> length r = 32"
    using eq ih [of b C "write_at 24 (u64_to_ne_bytes b pow) pre" "pow + 1" r]
    by (auto simp: Let_def zssp_sizes length_u64_to_ne_bytes split: if_splits)
qed

definition chunk_size :: "nat \<Rightarrow> nat \<Rightarrow> nat \<Rightarrow> nat" where
  "chunk_size b r no = b + (if no < r then 1 else 0)"

primrec chunks :: "nat \<Rightarrow> nat \<Rightarrow> nat list \<Rightarrow> nat \<Rightarrow> bytes \<Rightarrow> bytes list" where
  "chunks b r [] i p = []"
| "chunks b r (no # nos) i p = subslice i (i + chunk_size b r no) p # chunks b r nos (i + chunk_size b r no) p"

text \<open>Where the loop stands after the fragments \<open>nos\<close>: the chunks up to the first one refused.\<close>

lemma concat_chunks:
  assumes "i + (\<Sum>no\<leftarrow>nos. chunk_size b r no) \<le> length p"
  shows "concat (chunks b r nos i p) = subslice i (i + (\<Sum>no\<leftarrow>nos. chunk_size b r no)) p"
  using assms
proof (induction nos arbitrary: i)
  case (Cons no nos)
  let ?j = "i + chunk_size b r no"
  have "concat (chunks b r nos ?j p) = subslice ?j (?j + (\<Sum>no\<leftarrow>nos. chunk_size b r no)) p"
    by (rule Cons.IH) (use Cons.prems in simp)
  moreover have "subslice i ?j p @ subslice ?j (?j + n) p = subslice i (?j + n) p" for n
    using take_add [of "chunk_size b r no" n "drop i p"] by (simp add: subslice_def add.commute)
  ultimately show ?case by (simp add: add.assoc)
qed (simp add: subslice_def)

lemma send_loop_perf_works:
  assumes "i + (\<Sum>no\<leftarrow>nos. chunk_size b r no) \<le> length p" "\<forall>no \<in> set nos. HEADER_SIZE + chunk_size b r no \<le> mtu" "HEADER_AUTH_END \<le> mtu"
  shows "\<exists>ok j cipher' out'. send_loop_perf C P send pool hk hdr b r p mtu nos i cipher out = Some (ok, j, cipher', out') \<and>
    (ok \<longrightarrow> j = i + (\<Sum>no\<leftarrow>nos. chunk_size b r no))"
  using assms(1,2)
proof (induction nos arbitrary: i cipher out)
  case (Cons no nos)
  let ?j = "i + chunk_size b r no"
  obtain body c where c: "pool_encrypt P pool cipher (subslice i ?j p) = (body, c)" by (cases "pool_encrypt P pool cipher (subslice i ?j p)")
  have g: "?j \<le> length p \<and> HEADER_SIZE + chunk_size b r no \<le> mtu \<and> HEADER_AUTH_END \<le> mtu"
    using Cons.prems assms(3) by simp
  from Cons.IH [of ?j c "out @ [headed_fragment C hk hdr no body]"] Cons.prems
  show ?case using c g by (auto simp: Let_def chunk_size_def)
qed auto

lemma send_loop_perf_value:
  assumes "i + (\<Sum>no\<leftarrow>nos. chunk_size b r no) \<le> length p" "\<forall>no \<in> set nos. HEADER_SIZE + chunk_size b r no \<le> mtu" "HEADER_AUTH_END \<le> mtu"
    "\<forall>no \<in> set nos. send no"
  shows "send_loop_perf C P send pool hk hdr b r p mtu nos i cipher out =
    Some (True, i + (\<Sum>no\<leftarrow>nos. chunk_size b r no), (fst cipher, snd cipher @ chunks b r nos i p),
      out @ map (\<lambda>(no, x). headed_fragment C hk hdr no x) (zip nos (stream_encrypt_all P (fst pool) cipher (chunks b r nos i p))))"
  using assms(1,2,4)
proof (induction nos arbitrary: i cipher out)
  case (Cons no nos)
  let ?j = "i + chunk_size b r no"
  have g: "?j \<le> length p \<and> HEADER_SIZE + chunk_size b r no \<le> mtu \<and> HEADER_AUTH_END \<le> mtu"
    using Cons.prems assms(3) by simp
  show ?case
    using g Cons.prems Cons.IH [of ?j "(fst cipher, snd cipher @ [subslice i ?j p])"]
    by (simp add: Let_def chunk_size_def pool_encrypt_def add.assoc)
qed simp

text \<open>The numbers of \<open>send_payload\<close>: at least a tag is left for the last fragment, and each fits its packet.\<close>

lemma send_numbers:
  fixes n m q :: nat
  defines "q \<equiv> (n + 16 + (m - 1)) div m"
  assumes "32 \<le> m"
  shows "0 < q" "(\<Sum>no\<leftarrow>[0..<q - 1]. chunk_size ((n + 16) div q) ((n + 16) mod q) no) + (n + 16) div q = n + 16"
    "16 \<le> (n + 16) div q" "(n + 16) div q \<le> m" "chunk_size ((n + 16) div q) ((n + 16) mod q) no \<le> m"
proof -
  show q: "0 < q" using ceiling_div_pos [of m "n + 16"] assms by (simp add: q_def)
  show "16 \<le> (n + 16) div q" using fragment_base_bound [OF assms(2), of "n + 16"] by (simp add: q_def)
  have le: "n + 16 \<le> q * m"
  proof -
    have "n + 16 + (m - 1) < m * Suc q" unfolding q_def using assms(2) dividend_less_times_div [of m "n + 16 + (m - 1)"] by simp
    then show ?thesis using assms(2) by (simp add: algebra_simps)
  qed
  then show b: "(n + 16) div q \<le> m" using q by (metis div_le_mono nonzero_mult_div_cancel_left not_gr_zero)
  show "chunk_size ((n + 16) div q) ((n + 16) mod q) no \<le> m"
  proof (cases "no < (n + 16) mod q")
    case True
    have "(n + 16) div q \<noteq> m"
    proof
      assume "(n + 16) div q = m"
      then have "n + 16 = q * m + (n + 16) mod q" using mult_div_mod_eq [of q "n + 16"] by simp
      with le True show False by linarith
    qed
    then show ?thesis using b True by (simp add: chunk_size_def)
  qed (use b in \<open>simp add: chunk_size_def\<close>)
  have "(n + 16) mod q \<le> q - 1" using mod_less_divisor [OF q, of "n + 16"] by linarith
  then have "(\<Sum>no\<leftarrow>[0..<q - 1]. chunk_size ((n + 16) div q) ((n + 16) mod q) no) = (q - 1) * ((n + 16) div q) + (n + 16) mod q"
    unfolding chunk_size_def sum_list_remainder by (simp add: min_absorb2)
  moreover have "(q - 1) * ((n + 16) div q) + (n + 16) div q = q * ((n + 16) div q)" using q by (cases q) simp_all
  ultimately show "(\<Sum>no\<leftarrow>[0..<q - 1]. chunk_size ((n + 16) div q) ((n + 16) mod q) no) + (n + 16) div q = n + 16"
    using mult_div_mod_eq [of q "n + 16"] by linarith
qed

text \<open>The header all fragments of a payload share, and the pieces a payload of the given number of fragments is cut into.\<close>

definition data_header :: "bytes \<Rightarrow> nat \<Rightarrow> bytes \<Rightarrow> bytes" where
  "data_header kid q nonce = write_at PACKET_NONCE_START (drop NONCE_SIZE_DIFF nonce)
     ((write_at 0 kid (replicate HEADER_SIZE 0))[FRAGMENT_COUNT_IDX := word_of_nat q])"

definition pieces :: "nat \<Rightarrow> bytes \<Rightarrow> bytes list" where
  "pieces q p =
     (let b = (length p + 16) div q; r = (length p + 16) mod q
      in chunks b r [0..<q - 1] 0 p @ [drop (length p + 16 - b) p])"

definition sealed_pieces :: "platform \<Rightarrow> bytes \<Rightarrow> bytes \<Rightarrow> bytes list \<Rightarrow> bytes list" where
  "sealed_pieces P k nonce ps =
     (let cs = stream_encrypt_all P k (nonce, []) ps in butlast cs @ [last cs @ pl_stream_tag P k (nonce, ps)])"

lemma length_chunks: "length (chunks x y nos i p) = length nos"
  by (induction nos arbitrary: i) simp_all

lemma length_encrypt_all: "length (stream_encrypt_all P k c xs) = length xs"
  by (induction xs arbitrary: c) simp_all

lemma encrypt_all_snoc:
  "stream_encrypt_all P k c (xs @ [x]) = stream_encrypt_all P k c xs @ [pl_stream_encrypt P k (fst c, snd c @ xs) x]"
  by (induction xs arbitrary: c) simp_all

locale send_sizes =
  fixes mtu q :: nat and p :: bytes and b r :: nat
  assumes mtu: "MIN_TRANSPORT_MTU \<le> mtu"
    and q: "q = (length p + AES_GCM_TAG_SIZE + (mtu - HEADER_SIZE - 1)) div (mtu - HEADER_SIZE)"
    and b_def: "b = (length p + AES_GCM_TAG_SIZE) div q" and r_def: "r = (length p + AES_GCM_TAG_SIZE) mod q"
begin

lemma b: "b = (length p + 16) div q" and r: "r = (length p + 16) mod q"
  using b_def r_def by (simp_all add: zssp_sizes)

lemma room: "32 \<le> mtu - 16" "128 \<le> mtu"
  using mtu by (simp_all add: zssp_sizes)

lemma numbers:
  "0 < q" "(\<Sum>no\<leftarrow>[0..<q - 1]. chunk_size b r no) + b = length p + 16" "16 \<le> b" "b \<le> mtu - 16" "chunk_size b r no \<le> mtu - 16"
proof -
  have "q = (length p + 16 + ((mtu - 16) - 1)) div (mtu - 16)" using q by (simp add: zssp_sizes)
  note n = send_numbers [OF room(1), of "length p", folded this, folded b r]
  show "0 < q" "(\<Sum>no\<leftarrow>[0..<q - 1]. chunk_size b r no) + b = length p + 16" "16 \<le> b" "b \<le> mtu - 16" "chunk_size b r no \<le> mtu - 16"
    using n by simp_all
qed

lemma loop_room:
  "0 + (\<Sum>no\<leftarrow>[0..<q - 1]. chunk_size b r no) \<le> length p" "\<forall>no \<in> set [0..<q - 1]. HEADER_SIZE + chunk_size b r no \<le> mtu"
  "HEADER_AUTH_END \<le> mtu"
proof -
  show "0 + (\<Sum>no\<leftarrow>[0..<q - 1]. chunk_size b r no) \<le> length p" using numbers(2,3) by simp
  have "HEADER_SIZE + chunk_size b r no \<le> mtu" for no using numbers(5) [of no] room(2) by (simp add: zssp_sizes)
  then show "\<forall>no \<in> set [0..<q - 1]. HEADER_SIZE + chunk_size b r no \<le> mtu" by blast
  show "HEADER_AUTH_END \<le> mtu" using room(2) by (simp add: zssp_sizes)
qed

lemma last_room: "length p + 16 - b \<le> length p" "HEADER_SIZE + (length p - (length p + 16 - b) + AES_GCM_TAG_SIZE) \<le> mtu"
  using numbers(2-4) room(2) by (simp_all add: zssp_sizes)

lemma position: "(\<Sum>no\<leftarrow>[0..<q - 1]. chunk_size b r no) = length p + 16 - b"
  using numbers(2) by simp

lemma fragments_unfold:
  "send_fragments_perf C P send pool hk kid nonce q p mtu =
     (case send_loop_perf C P send pool hk (data_header kid q nonce) b r p mtu [0..<q - 1] 0 (nonce, []) [] of
        None \<Rightarrow> None
      | Some (False, i, cipher, out) \<Rightarrow> Some (False, out)
      | Some (True, i, cipher, out) \<Rightarrow>
          (if i \<le> length p \<and> HEADER_SIZE + (length p - i + AES_GCM_TAG_SIZE) \<le> mtu \<and> HEADER_AUTH_END \<le> mtu
           then case pool_encrypt P pool cipher (drop i p) of
                  (body, cipher) \<Rightarrow> Some (send (q - 1),
                    out @ [headed_fragment C hk (data_header kid q nonce) (q - 1) (body @ pool_finish_enc P pool cipher)])
           else None))"
  unfolding send_fragments_perf_def data_header_def start_stream_def Let_def b_def r_def by (rule refl)

lemma fragments_exist: "send_fragments_perf C P send pool hk kid nonce q p mtu \<noteq> None"
proof -
  obtain ok j c out where l: "send_loop_perf C P send pool hk (data_header kid q nonce) b r p mtu [0..<q - 1] 0 (nonce, []) [] = Some (ok, j, c, out)"
    "ok \<longrightarrow> j = length p + 16 - b"
    using send_loop_perf_works [OF loop_room, of C P send pool hk "data_header kid q nonce" "(nonce, [])" "[]"] position by auto
  then show ?thesis using last_room loop_room(3) by (cases ok) (simp_all add: fragments_unfold case_prod_beta)
qed

lemma length_pieces: "length (pieces q p) = q"
  using numbers(1) by (simp add: pieces_def Let_def length_chunks)

lemma fragments_value:
  assumes "\<forall>no < q. send no"
  shows "send_fragments_perf C P send pool hk kid nonce q p mtu =
    Some (True, map (\<lambda>no. headed_fragment C hk (data_header kid q nonce) no (sealed_pieces P (fst pool) nonce (pieces q p) ! no)) [0..<q])"
proof -
  let ?cs = "chunks b r [0..<q - 1] 0 p" and ?last = "drop (length p + 16 - b) p"
  let ?es = "stream_encrypt_all P (fst pool) (nonce, []) ?cs"
  let ?el = "pl_stream_encrypt P (fst pool) (nonce, ?cs) ?last @ pl_stream_tag P (fst pool) (nonce, ?cs @ [?last])"
  let ?h = "headed_fragment C hk (data_header kid q nonce)"
  have sp: "sealed_pieces P (fst pool) nonce (pieces q p) = ?es @ [?el]"
    by (simp add: sealed_pieces_def pieces_def Let_def encrypt_all_snoc b r)
  have acc: "\<forall>no \<in> set [0..<q - 1]. send no" "send (q - 1)" using assms numbers(1) by simp_all
  have q: "[0..<q] = [0..<q - 1] @ [q - 1]" using numbers(1) by (metis One_nat_def Suc_pred le0 upt_Suc_append)
  have z: "map (\<lambda>(no, x). ?h no x) (zip [0..<q - 1] ?es) = map (\<lambda>no. ?h no ((?es @ [?el]) ! no)) [0..<q - 1]"
    by (rule nth_equalityI) (simp_all add: length_encrypt_all length_chunks nth_append)
  show ?thesis
    unfolding fragments_unfold send_loop_perf_value [OF loop_room acc(1)]
    using last_room loop_room(3) acc(2) position z
    by (simp add: sp q pool_encrypt_def pool_finish_enc_def nth_append length_encrypt_all length_chunks)
qed

lemma concat_pieces: "concat (pieces q p) = p"
  using concat_chunks [OF loop_room(1)] position numbers(2,3) last_room(1)
  by (simp add: pieces_def Let_def b [symmetric] r [symmetric] subslice_def)

lemma bodies_long:
  assumes "stream_sized P" "x \<in> set (sealed_pieces P k nonce (pieces q p))"
  shows "16 \<le> length x"
proof -
  let ?cs = "chunks b r [0..<q - 1] 0 p" and ?last = "drop (length p + 16 - b) p"
  have "x \<in> set (stream_encrypt_all P k (nonce, []) ?cs) \<or> x = pl_stream_encrypt P k (nonce, ?cs) ?last @ pl_stream_tag P k (nonce, ?cs @ [?last])"
    using assms(2) by (auto simp: sealed_pieces_def pieces_def Let_def encrypt_all_snoc b r)
  then show ?thesis
  proof
    assume x: "x \<in> set (stream_encrypt_all P k (nonce, []) ?cs)"
    have e: "x \<in> set (stream_encrypt_all P k c xs) \<Longrightarrow> \<exists>y \<in> set xs. length x = length y" for c xs
      using assms(1) by (induction xs arbitrary: c) (auto simp: stream_sized_def)
    from e [OF x] obtain y where y: "y \<in> set ?cs" "length x = length y" by blast
    have "y \<in> set (chunks b r nos i p) \<Longrightarrow> i + (\<Sum>no\<leftarrow>nos. chunk_size b r no) \<le> length p \<Longrightarrow> b \<le> length y" for nos i
      by (induction nos arbitrary: i) (force simp: chunk_size_def)+
    from this [OF y(1) loop_room(1)] show ?thesis using numbers(3) y(2) by simp
  qed (use assms(1) in \<open>simp add: stream_sized_def zssp_sizes\<close>)
qed

end

definition fragment_count_perf :: "nat \<Rightarrow> bytes \<Rightarrow> nat" where
  "fragment_count_perf mtu p = (length p + AES_GCM_TAG_SIZE + (mtu - HEADER_SIZE - 1)) div (mtu - HEADER_SIZE)"

interpretation payload: send_sizes "max mtu MIN_TRANSPORT_MTU" "fragment_count_perf (max mtu MIN_TRANSPORT_MTU) p" p
  "(length p + AES_GCM_TAG_SIZE) div fragment_count_perf (max mtu MIN_TRANSPORT_MTU) p"
  "(length p + AES_GCM_TAG_SIZE) mod fragment_count_perf (max mtu MIN_TRANSPORT_MTU) p" for mtu p
  by unfold_locales (simp_all add: fragment_count_perf_def)

lemma send_fragments_perf_works:
  "MIN_TRANSPORT_MTU \<le> mtu \<Longrightarrow> send_fragments_perf C P send pool hk kid nonce (fragment_count_perf mtu p) p mtu \<noteq> None"
  using payload.fragments_exist [of C P send pool hk kid nonce mtu p] by (simp add: max_absorb1)

lemma send_fragments_perf_value:
  assumes "MIN_TRANSPORT_MTU \<le> mtu" "q = fragment_count_perf mtu p" "\<forall>no < q. send no"
  shows "send_fragments_perf C P send pool hk kid nonce q p mtu =
    Some (True, map (\<lambda>no. headed_fragment C hk (data_header kid q nonce) no (sealed_pieces P (fst pool) nonce (pieces q p) ! no)) [0..<q])"
  using payload.fragments_value [of mtu p send C P pool hk kid nonce] assms by (simp add: max_absorb1)

section \<open>Opening a payload\<close>

lemma decrypt_fragments_all:
  "decrypt_fragments P pool c xs = (stream_decrypt_all P (snd pool) c xs, (fst c, snd c @ xs))"
  by (induction xs arbitrary: c) (simp_all add: pool_decrypt_def)

lemma decrypt_all_snoc:
  "stream_decrypt_all P k c (xs @ [x]) = stream_decrypt_all P k c xs @ [pl_stream_decrypt P k (fst c, snd c @ xs) x]"
  by (induction xs arbitrary: c) simp_all

lemma write_chunks_all: "(\<And>k x. out k x = Inr (length x)) \<Longrightarrow> write_chunks out n xs = (None, concat xs)"
  by (induction xs arbitrary: n) simp_all

lemma window_check_update: "Window_check mx w c = fst (Window_update mx w c)"
  by (simp add: Window_check_def Window_update_def Let_def)

text \<open>The key slot that \<open>receive_payload_in_place\<close> finds for a key id.\<close>

definition slot_for :: "('pk, 'kp, 'kem, 'd) session_perf \<Rightarrow> u32 \<Rightarrow> duplex_key_perf option" where
  "slot_for z kid =
     (if Some kid = ke_kid (dp_recv (ps_keys z False)) then Some (ps_keys z False)
      else if Some kid = ke_kid (dp_recv (ps_keys z True)) then Some (ps_keys z True)
      else None)"

lemma receive_pieces:
  assumes P: "stream_sized P" "stream_correct P" and ps: "ps \<noteq> []"
    and fs: "map (drop HEADER_SIZE) fs = sealed_pieces P k nonce ps" "\<forall>f \<in> set fs. HEADER_SIZE \<le> length f"
    and key: "slot_for z kid = Some d" "dp_nk d = Some (k', k)"
    and win: "Window_check COUNTER_WINDOW_MAX_SKIP_AHEAD (ps_window z) (snd (from_nonce nonce))"
    and out: "\<And>i x. out i x = Inr (length x)"
  shows "\<exists>win. receive_payload_in_place P out s kid nonce fs z = (concat ps, Ok (), z\<lparr>ps_window := win\<rparr>)"
proof -
  define cs where "cs = stream_encrypt_all P k (nonce, []) ps"
  define tag where "tag = pl_stream_tag P k (nonce, ps)"
  have cs: "cs \<noteq> []" using ps by (cases ps) (simp_all add: cs_def)
  have tag: "length tag = AES_GCM_TAG_SIZE" using P(1) by (simp add: stream_sized_def tag_def)
  have d: "stream_decrypt_all P k (nonce, []) cs = ps" "pl_stream_verify P k (nonce, cs) tag"
    using P(2) by (simp_all add: stream_correct_def cs_def tag_def)
  have m: "map (drop HEADER_SIZE) fs = butlast cs @ [last cs @ tag]" using fs(1) by (simp add: sealed_pieces_def cs_def tag_def Let_def)
  then have ne: "fs \<noteq> []" by auto
  have lst: "drop HEADER_SIZE (last fs) = last cs @ tag" using m ne by (metis last_map last_snoc)
  have but: "map (drop HEADER_SIZE) (butlast fs) = butlast cs" using m by (metis butlast_snoc map_butlast)
  have no: "\<not> (fs = [] \<or> list_ex (\<lambda>f. length f < HEADER_SIZE) fs \<or> length (last fs) < HEADER_SIZE + AES_GCM_TAG_SIZE)"
  proof -
    have "\<not> list_ex (\<lambda>f. length f < HEADER_SIZE) fs" using fs(2) by (auto simp: list_ex_iff)
    moreover have "16 \<le> length (drop HEADER_SIZE (last fs))" using tag by (simp add: lst AES_GCM_TAG_SIZE_def)
    ultimately show ?thesis using ne by (auto simp: zssp_sizes)
  qed
  have plain: "stream_decrypt_all P k (nonce, []) (butlast cs) @ [pl_stream_decrypt P k (nonce, butlast cs) (last cs)] = ps"
    using d(1) decrypt_all_snoc [of P k "(nonce, [])" "butlast cs" "last cs"] cs by simp
  have sp: "(if Some kid = ke_kid (dp_recv (ps_keys z False)) then Some (dp_nk (ps_keys z False))
         else if Some kid = ke_kid (dp_recv (ps_keys z True)) then Some (dp_nk (ps_keys z True))
         else None) = Some (Some (k', k))"
    using key by (auto simp: slot_for_def split: if_splits)
  obtain t c where n: "from_nonce nonce = (t, c)" by fastforce
  obtain win where w: "Window_update COUNTER_WINDOW_MAX_SKIP_AHEAD (ps_window z) c = (True, win)"
    using assms(8) n by (cases "Window_update COUNTER_WINDOW_MAX_SKIP_AHEAD (ps_window z) c") (simp add: window_check_update)
  have "receive_payload_in_place P out s kid nonce fs z = (concat ps, Ok (), z\<lparr>ps_window := win\<rparr>)"
    using no n w d(2) cs
    by (simp add: receive_payload_in_place_def sp Let_def lst but decrypt_fragments_all pool_decrypt_def pool_finish_dec_def
        start_stream_def tag [symmetric] plain window_update_perf_def write_chunks_all [OF out])
  then show ?thesis by blast
qed

section \<open>Headers\<close>

definition plain_fragment :: "bytes \<Rightarrow> nat \<Rightarrow> bytes \<Rightarrow> bytes" where
  "plain_fragment hdr no body = hdr[FRAGMENT_NO_IDX := word_of_nat no] @ body"

lemma length_data_header [simp]: "length kid = 4 \<Longrightarrow> length nonce = 12 \<Longrightarrow> length (data_header kid q nonce) = 16"
  by (simp add: data_header_def zssp_sizes)

lemma decrypt_headed_fragment:
  assumes "crypto_sized C" "crypto_correct C pub_of" "length hdr = 16" "4 \<le> length body"
  shows "decrypt_header_perf C hk (headed_fragment C hk hdr no body) = plain_fragment hdr no body"
    "take 4 (headed_fragment C hk hdr no body) = take 4 hdr" "length (headed_fragment C hk hdr no body) = 16 + length body"
proof -
  let ?f = "plain_fragment hdr no body"
  let ?e = "prp_encrypt_in_place C hk (subslice 4 20 ?f)"
  have len: "length ?f = 16 + length body" using assms(3) by (simp add: plain_fragment_def zssp_sizes)
  have b: "length (subslice 4 20 ?f) = 16" using len assms(4) by simp
  have e: "length ?e = 16" by (rule crypto_sizedD(1) [OF assms(1) b])
  have h: "headed_fragment C hk hdr no body = write_at 4 ?e ?f"
    by (simp add: headed_fragment_def Let_def plain_fragment_def zssp_sizes)
  have s: "subslice 4 20 (write_at 4 ?e ?f) = ?e" using subslice_write_at [of 4 ?e ?f] e len assms(4) by simp
  show "decrypt_header_perf C hk (headed_fragment C hk hdr no body) = ?f"
    using crypto_correctD(1) [OF assms(2) b, of hk] write_at_write_at [where i = 4 and ys = ?e and zs = "subslice 4 20 ?f" and xs = ?f] write_at_subslice [of 4 20 ?f]
      e b len assms(4) by (simp add: decrypt_header_perf_def h s zssp_sizes)
  show "length (headed_fragment C hk hdr no body) = 16 + length body" using e len assms(4) by (simp add: h)
  show "take 4 (headed_fragment C hk hdr no body) = take 4 hdr" using len assms(3)
    by (simp add: h write_at_def plain_fragment_def zssp_sizes)
qed

lemma parse_plain_fragment:
  assumes "length kid = 4" "no < q" "q \<le> MAX_FRAGMENTS"
  shows "parse_fragment_header (plain_fragment (data_header kid q (to_nonce t c)) no body) = Inr (no, q, to_nonce t c)"
proof -
  let ?h = "data_header kid q (to_nonce t c)"
  have h: "?h = kid @ [0, word_of_nat q] @ drop 2 (to_nonce t c)"
    using assms(1) by (simp add: data_header_def write_at_def zssp_sizes numeral_eq_Suc list_update_append)
  have f: "plain_fragment ?h no body = kid @ [word_of_nat no, word_of_nat q] @ drop 2 (to_nonce t c) @ body"
    using assms(1) by (simp add: h plain_fragment_def zssp_sizes list_update_append)
  have n: "to_nonce t c = [0, 0] @ drop 2 (to_nonce t c)"
    by (simp add: to_nonce_def write_at_def zssp_sizes numeral_eq_Suc)
  have "unat (word_of_nat no :: u8) = no" "unat (word_of_nat q :: u8) = q"
    using assms(2,3) by (simp_all add: unat_of_nat zssp_sizes)
  moreover have "subslice 6 16 (plain_fragment ?h no body) = drop 2 (to_nonce t c)"
    using assms(1) subslice_middle [of "kid @ [word_of_nat no, word_of_nat q]" 6 16 "drop 2 (to_nonce t c)" body] by (simp add: f)
  moreover have "write_at 2 (drop 2 (to_nonce t c)) (replicate 12 0) = to_nonce t c"
    using n by (simp add: write_at_def numeral_eq_Suc)
  ultimately show ?thesis using assms by (simp add: parse_fragment_header_def Let_def zssp_sizes f nth_append)
qed

lemma take_data_header: "length kid = 4 \<Longrightarrow> take 4 (data_header kid q nonce) = kid"
  by (simp add: data_header_def write_at_def zssp_sizes numeral_eq_Suc)

section \<open>A payload over the wire\<close>

lemma flush_perf_quiet: "pw_sent w = [] \<Longrightarrow> flush_perf C sender (r, w) = (r, [], w)"
  by (cases w) (simp add: flush_perf_def)

lemma put_session_fields [simp]:
  "px_session_map (put_session s z w) = px_session_map w" "pw_sent (put_session s z w) = pw_sent w" "px_heap (put_session s z w) s = Some z"
  by (simp_all add: put_session_def)

lemma receive_data_fragment:
  assumes C: "crypto_sized C" "crypto_correct C pub_of" and kid: "kid \<noteq> 0" and no: "no < q" "q \<le> MAX_FRAGMENTS"
    and body: "16 \<le> length body"
    and w: "px_session_map w kid = Some s" "px_heap w s = Some z" "pw_sent w = []"
    and z: "ps_hk_recv z = hk" "Window_check COUNTER_WINDOW_MAX_SKIP_AHEAD (ps_window z) c"
    and hdr: "hdr = data_header (u32_to_ne_bytes P kid) q (to_nonce PACKET_TYPE_DATA c)"
  shows "Context_receive_perf C P A reply send_to out addr (headed_fragment C hk hdr no body) w =
    (case session_defrag P c (plain_fragment hdr no body) no q z of
       None \<Rightarrow> ([], Panic, [], w)
     | Some (fragments, z) \<Rightarrow>
         if fragments = [] then ([], Ok (FragmentP s, None), [], put_session s z w)
         else case receive_payload_in_place P out s kid (to_nonce PACKET_TYPE_DATA c) fragments z of
                (written, r, z) \<Rightarrow> (written, map_outcome id (\<lambda>_. (AssociatedP s DataP, None)) r, [], put_session s z w))"
proof -
  have h: "length hdr = 16" "take 4 hdr = u32_to_ne_bytes P kid" by (simp_all add: hdr take_data_header)
  note f = decrypt_headed_fragment [OF C h(1), of body hk no]
  have l: "\<not> length (headed_fragment C hk hdr no body) < MIN_PACKET_SIZE" using f(3) body by (simp add: zssp_sizes)
  have t: "take KID_SIZE (headed_fragment C hk hdr no body) = u32_to_ne_bytes P kid" using f(2) h body by (simp add: zssp_sizes)
  have v: "session_vrfy_perf s z PACKET_TYPE_DATA c = None" using z(2) by (simp add: session_vrfy_perf_def zssp_sizes)
  have p: "parse_fragment_header (plain_fragment hdr no body) = Inr (no, q, to_nonce PACKET_TYPE_DATA c)"
    using parse_plain_fragment [OF _ no, of "u32_to_ne_bytes P kid"] by (simp add: hdr)
  have d: "decrypt_header_perf C (ps_hk_recv z) (headed_fragment C hk hdr no body) = plain_fragment hdr no body"
    using f(1) z(1) body by simp
  have r: "receive_session_perf C P A out s kid (headed_fragment C hk hdr no body) z w =
    (case session_defrag P c (plain_fragment hdr no body) no q z of
       None \<Rightarrow> ([], Panic, w)
     | Some (fragments, z) \<Rightarrow>
         if fragments = [] then ([], Ok (FragmentP s, None), put_session s z w)
         else case receive_payload_in_place P out s kid (to_nonce PACKET_TYPE_DATA c) fragments z of
                (written, r, z) \<Rightarrow> (written, map_outcome id (\<lambda>_. (AssociatedP s DataP, None)) r, put_session s z w))"
    by (simp add: receive_session_perf_def d p v split: option.split)
  show ?thesis using l w kid
    by (simp add: Context_receive_perf_def t r NonZeroU32_new_def flush_perf_quiet split: option.split prod.split)
qed

text \<open>One wire packet after the other is passed to \<open>receive\<close>.\<close>

primrec receive_all_perf ::
  "('pk, 'kp, 'r, 'kem) crypto_layer \<Rightarrow> platform \<Rightarrow> ('pk, 'd, 'fd, 'a) application_perf \<Rightarrow> sender \<times> nat \<Rightarrow> send_to
     \<Rightarrow> writer \<Rightarrow> bytes \<Rightarrow> bytes list \<Rightarrow> ('pk, 'kp, 'r, 'kem, 'd, 'fd, 'a) pworld
     \<Rightarrow> (bytes \<times> (receive_error_perf, receive_ok_perf \<times> i64 option) outcome) list" where
  "receive_all_perf C P A reply send_to out addr [] w = []"
| "receive_all_perf C P A reply send_to out addr (f # fs) w =
     (case Context_receive_perf C P A reply send_to out addr f w of
        (written, r, wire, w) \<Rightarrow> (written, r) # receive_all_perf C P A reply send_to out addr fs w)"

text \<open>A session that can take the data packet \<open>c\<close> under \<open>kid\<close>: it has the key and the header key, the counter is new.\<close>

definition expects :: "('pk, 'kp, 'kem, 'd) session_perf \<Rightarrow> u32 \<Rightarrow> bytes \<Rightarrow> bytes \<Rightarrow> u64 \<Rightarrow> bool" where
  "expects z kid k hk c \<longleftrightarrow>
     (case slot_for z kid of None \<Rightarrow> False | Some d \<Rightarrow> (case dp_nk d of None \<Rightarrow> False | Some pool \<Rightarrow> snd pool = k)) \<and>
     ps_hk_recv z = hk \<and> Window_check COUNTER_WINDOW_MAX_SKIP_AHEAD (ps_window z) c \<and>
     length (ps_defrag z) = SESSION_MAX_FRAGMENTS_OOO"

lemma slot_for_defrag [simp]: "slot_for (z\<lparr>ps_defrag := df\<rparr>) kid = slot_for z kid"
  by (simp add: slot_for_def)

lemma expects_defrag [simp]: "length df = SESSION_MAX_FRAGMENTS_OOO \<Longrightarrow> expects z kid k hk c \<Longrightarrow> expects (z\<lparr>ps_defrag := df\<rparr>) kid k hk c"
  by (simp add: expects_def)

text \<open>The packets of a payload cut into \<open>ps\<close>, as they leave and with their headers opened, and the setting they travel in.\<close>

definition flight_header :: "platform \<Rightarrow> u32 \<Rightarrow> u64 \<Rightarrow> bytes list \<Rightarrow> bytes" where
  "flight_header P kid c ps = data_header (u32_to_ne_bytes P kid) (length ps) (to_nonce PACKET_TYPE_DATA c)"

definition flight_bodies :: "platform \<Rightarrow> bytes \<Rightarrow> u64 \<Rightarrow> bytes list \<Rightarrow> bytes list" where
  "flight_bodies P k c ps = sealed_pieces P k (to_nonce PACKET_TYPE_DATA c) ps"

definition flight_wire ::
  "('pk, 'kp, 'r, 'kem) crypto_layer \<Rightarrow> platform \<Rightarrow> u32 \<Rightarrow> bytes \<Rightarrow> bytes \<Rightarrow> u64 \<Rightarrow> bytes list \<Rightarrow> nat \<Rightarrow> bytes" where
  "flight_wire C P kid k hk c ps no = headed_fragment C hk (flight_header P kid c ps) no (flight_bodies P k c ps ! no)"

definition flight_plain :: "platform \<Rightarrow> u32 \<Rightarrow> bytes \<Rightarrow> u64 \<Rightarrow> bytes list \<Rightarrow> nat \<Rightarrow> bytes" where
  "flight_plain P kid k c ps no = plain_fragment (flight_header P kid c ps) no (flight_bodies P k c ps ! no)"

definition in_flight ::
  "('pk, 'kp, 'r, 'kem) crypto_layer \<Rightarrow> ('kp \<Rightarrow> 'pk) \<Rightarrow> platform \<Rightarrow> writer \<Rightarrow> u32 \<Rightarrow> bytes \<Rightarrow> u64 \<Rightarrow> bytes list \<Rightarrow> bool" where
  "in_flight C pub_of P out kid k c ps \<longleftrightarrow>
     crypto_sized C \<and> crypto_correct C pub_of \<and> stream_sized P \<and> stream_correct P \<and>
     (\<forall>i x. out i x = Inr (length x)) \<and> kid \<noteq> 0 \<and> ps \<noteq> [] \<and> length ps \<le> MAX_FRAGMENTS \<and>
     (\<forall>b \<in> set (flight_bodies P k c ps). AES_GCM_TAG_SIZE \<le> length b)"

lemma in_flightD:
  assumes "in_flight C pub_of P out kid k c ps"
  shows "crypto_sized C" "crypto_correct C pub_of" "stream_sized P" "stream_correct P" "\<And>i x. out i x = Inr (length x)"
    "kid \<noteq> 0" "ps \<noteq> []" "length ps \<le> MAX_FRAGMENTS" "b \<in> set (flight_bodies P k c ps) \<Longrightarrow> AES_GCM_TAG_SIZE \<le> length b"
  using assms by (simp_all add: in_flight_def)

lemma length_flight_header [simp]: "length (flight_header P kid c ps) = 16"
  by (simp add: flight_header_def)

lemma length_flight_bodies [simp]: "ps \<noteq> [] \<Longrightarrow> length (flight_bodies P k c ps) = length ps"
  by (simp add: flight_bodies_def sealed_pieces_def Let_def length_encrypt_all)

lemma receive_wire:
  assumes F: "in_flight C pub_of P out kid k c ps"
    and "no < length ps" "px_session_map w kid = Some s" "px_heap w s = Some z" "pw_sent w = []" "expects z kid k hk c"
  shows "Context_receive_perf C P A reply send_to out addr (flight_wire C P kid k hk c ps no) w =
    (case session_defrag P c (flight_plain P kid k c ps no) no (length ps) z of
       None \<Rightarrow> ([], Panic, [], w)
     | Some (fragments, z) \<Rightarrow>
         if fragments = [] then ([], Ok (FragmentP s, None), [], put_session s z w)
         else case receive_payload_in_place P out s kid (to_nonce PACKET_TYPE_DATA c) fragments z of
                (written, r, z) \<Rightarrow> (written, map_outcome id (\<lambda>_. (AssociatedP s DataP, None)) r, [], put_session s z w))"
proof -
  have "flight_bodies P k c ps ! no \<in> set (flight_bodies P k c ps)" using assms(2) in_flightD(7) [OF F] by simp
  then have "16 \<le> length (flight_bodies P k c ps ! no)" using in_flightD(9) [OF F] by (simp add: zssp_sizes)
  then show ?thesis unfolding flight_wire_def flight_plain_def
    by (intro receive_data_fragment [OF in_flightD(1,2,6) [OF F] assms(2) in_flightD(8) [OF F]])
      (use assms in \<open>simp_all add: expects_def flight_header_def\<close>)
qed

lemma open_plain:
  assumes F: "in_flight C pub_of P out kid k c ps"
    and "expects z kid k hk c"
  shows "\<exists>win. receive_payload_in_place P out s kid (to_nonce PACKET_TYPE_DATA c) (map (flight_plain P kid k c ps) [0..<length ps]) z =
    (concat ps, Ok (), z\<lparr>ps_window := win\<rparr>)"
proof -
  obtain d k' where d: "slot_for z kid = Some d" "dp_nk d = Some (k', k)"
    using assms(2) by (auto simp: expects_def split: option.splits)
  have m: "map (drop HEADER_SIZE) (map (flight_plain P kid k c ps) [0..<length ps]) = sealed_pieces P k (to_nonce PACKET_TYPE_DATA c) ps"
    unfolding flight_bodies_def [symmetric] by (rule nth_equalityI) (use in_flightD(7) [OF F] in \<open>simp_all add: flight_plain_def plain_fragment_def zssp_sizes\<close>)
  show ?thesis
    by (rule receive_pieces [OF in_flightD(3,4,7) [OF F] m _ d]) (use assms(2) in_flightD(5) [OF F] in \<open>auto simp: expects_def flight_plain_def plain_fragment_def zssp_sizes\<close>)
qed

lemma wire_completes:
  assumes F: "in_flight C pub_of P out kid k c ps"
    and "no < length ps" "px_session_map w kid = Some s" "px_heap w s = Some z" "pw_sent w = []" "expects z kid k hk c"
    "session_defrag P c (flight_plain P kid k c ps no) no (length ps) z = Some (map (flight_plain P kid k c ps) [0..<length ps], z')" "expects z' kid k hk c"
  shows "receive_all_perf C P A reply send_to out addr [flight_wire C P kid k hk c ps no] w = [(concat ps, Ok (AssociatedP s DataP, None))]"
  using receive_wire [OF assms(1-6)] open_plain [OF F assms(8), of s] assms(7) in_flightD(7) [OF F] by auto

lemma wire_collects:
  assumes F: "in_flight C pub_of P out kid k c ps"
    and "collecting (pl_needs_drop P) (ps_defrag z ! idx) c (length ps) B (flight_plain P kid k c ps)" "distinct is" "set is = {..<length ps} - B"
    and w: "px_session_map w kid = Some s" "px_heap w s = Some z" "pw_sent w = []" "expects z kid k hk c"
    and idx: "idx = unat c mod SESSION_MAX_FRAGMENTS_OOO" and more: "1 < length ps"
  shows "receive_all_perf C P A reply send_to out addr (map (flight_wire C P kid k hk c ps) is) w =
    replicate (length is - 1) ([], Ok (FragmentP s, None)) @ [(concat ps, Ok (AssociatedP s DataP, None))]"
  using assms(2-8)
proof (induction "is" arbitrary: B z w)
  case Nil
  then show ?case by (auto simp: collecting_def)
next
  case (Cons i "is")
  let ?n = "length ps" and ?D = "pl_needs_drop P"
  have i: "i < ?n" "i \<notin> B" using Cons.prems(3) by auto
  have L: "length (ps_defrag z) = SESSION_MAX_FRAGMENTS_OOO" using Cons.prems(7) by (simp add: expects_def)
  have ix: "unat c mod length (ps_defrag z) = idx" "idx < length (ps_defrag z)" using L by (simp_all add: idx SESSION_MAX_FRAGMENTS_OOO_def)
  show ?case
  proof (cases "is")
    case Nil
    then have "insert i B = {..<?n}" using Cons.prems(1,3) by (auto simp: collecting_def)
    from assemble_completes [OF Cons.prems(1) i this] obtain fg where fg:
      "fragged_assemble ?D (ps_defrag z ! idx) c (flight_plain P kid k c ps i) i ?n [] = Some (fg, map (flight_plain P kid k c ps) [0..<?n])" by blast
    show ?thesis
      using wire_completes [OF F i(1) Cons.prems(4-7), of "z\<lparr>ps_defrag := (ps_defrag z)[idx := fg]\<rparr>"] fg ix more Cons.prems(7) L Nil
      by (simp add: session_defrag_def)
  next
    case step: (Cons j js)
    have "j \<in> {..<?n} - B" unfolding Cons.prems(3) [symmetric] by (simp add: step)
    moreover have "j \<noteq> i" using Cons.prems(2) by (simp add: step)
    ultimately have "insert i B \<noteq> {..<?n}" by blast
    from assemble_collects [OF Cons.prems(1) i this] obtain fg where fg:
      "fragged_assemble ?D (ps_defrag z ! idx) c (flight_plain P kid k c ps i) i ?n [] = Some (fg, [])" "collecting ?D fg c ?n (insert i B) (flight_plain P kid k c ps)" by blast
    let ?z = "z\<lparr>ps_defrag := (ps_defrag z)[idx := fg]\<rparr>"
    have "receive_all_perf C P A reply send_to out addr (map (flight_wire C P kid k hk c ps) is) (put_session s ?z w) =
      replicate (length is - 1) ([], Ok (FragmentP s, None)) @ [(concat ps, Ok (AssociatedP s DataP, None))]"
    proof (rule Cons.IH [of ?z "insert i B"])
      show "collecting ?D (ps_defrag ?z ! idx) c ?n (insert i B) (flight_plain P kid k c ps)" using fg(2) ix(2) by simp
      have "set is = set (i # is) - {i}" using Cons.prems(2) by simp
      then show "set is = {..<?n} - insert i B" unfolding Cons.prems(3) by blast
    qed (use Cons.prems L in simp_all)
    then show ?thesis
      using receive_wire [OF F i(1) Cons.prems(4-7), of A reply send_to addr] fg(1) ix more step
      by (simp add: session_defrag_def)
  qed
qed

text \<open>All packets of a payload, in any order, reach a session whose defragmenter works on another packet.\<close>

lemma wire_delivers:
  assumes F: "in_flight C pub_of P out kid k c ps" and "distinct is" "set is = {..<length ps}"
    and w: "px_session_map w kid = Some s" "px_heap w s = Some z" "pw_sent w = []" "expects z kid k hk c"
    and fg: "fragged_wf (pl_needs_drop P) (ps_defrag z ! (unat c mod SESSION_MAX_FRAGMENTS_OOO))"
      "length (fg_frags (ps_defrag z ! (unat c mod SESSION_MAX_FRAGMENTS_OOO))) = MAX_FRAGMENTS"
      "fg_nonce (ps_defrag z ! (unat c mod SESSION_MAX_FRAGMENTS_OOO)) \<noteq> c"
  shows "receive_all_perf C P A reply send_to out addr (map (flight_wire C P kid k hk c ps) is) w =
    replicate (length ps - 1) ([], Ok (FragmentP s, None)) @ [(concat ps, Ok (AssociatedP s DataP, None))]"
proof -
  have len: "length is = length ps" using assms(2,3) by (metis card_lessThan distinct_card)
  then obtain i rest where i: "is = i # rest" "i < length ps" using assms(3) in_flightD(7) [OF F] by (cases "is") auto
  show ?thesis
  proof (cases "length ps = 1")
    case True
    then have "i = 0" "rest = []" using i len by simp_all
    then show ?thesis using wire_completes [OF F i(2) w, of z A reply send_to addr] w(4) True i by (simp add: session_defrag_def)
  next
    case False
    define idx where "idx = unat c mod SESSION_MAX_FRAGMENTS_OOO"
    have more: "1 < length ps" using False i(2) by linarith
    have L: "length (ps_defrag z) = SESSION_MAX_FRAGMENTS_OOO" using w(4) by (simp add: expects_def)
    have ix: "unat c mod length (ps_defrag z) = idx" "idx < length (ps_defrag z)" using L by (simp_all add: idx_def SESSION_MAX_FRAGMENTS_OOO_def)
    obtain fg' where fg': "collecting (pl_needs_drop P) fg' c (length ps) {} (flight_plain P kid k c ps)"
      "fragged_assemble (pl_needs_drop P) (ps_defrag z ! idx) c (flight_plain P kid k c ps i) i (length ps) [] =
       fragged_assemble (pl_needs_drop P) fg' c (flight_plain P kid k c ps i) i (length ps) []"
      using assemble_reset [OF fg(1) fg(3) [symmetric] i(2)] fg(2) in_flightD(8) [OF F] unfolding idx_def by force
    let ?z = "z\<lparr>ps_defrag := (ps_defrag z)[idx := fg']\<rparr>"
    have e: "expects ?z kid k hk c" using w(4) L by simp
    have d: "session_defrag P c (flight_plain P kid k c ps i) i (length ps) ?z = session_defrag P c (flight_plain P kid k c ps i) i (length ps) z"
      using fg'(2) ix more by (simp add: session_defrag_def)
    obtain fs zs where some: "session_defrag P c (flight_plain P kid k c ps i) i (length ps) z = Some (fs, zs)"
      using fragged_assemble_works [OF fg(1) [folded idx_def], of c "flight_plain P kid k c ps i" i "length ps"] ix more
      by (auto simp: session_defrag_def)
    have put: "put_session s y (put_session s x w) = put_session s y w" for x y by (simp add: put_session_def)
    have "receive_all_perf C P A reply send_to out addr (map (flight_wire C P kid k hk c ps) is) w =
      receive_all_perf C P A reply send_to out addr (map (flight_wire C P kid k hk c ps) is) (put_session s ?z w)"
      using receive_wire [OF F i(2) w, of A reply send_to addr] receive_wire [OF F i(2), of "put_session s ?z w" s ?z hk A reply send_to addr] w e d
        some
      by (simp add: i(1) put split: option.split prod.split)
    also have "\<dots> = replicate (length is - 1) ([], Ok (FragmentP s, None)) @ [(concat ps, Ok (AssociatedP s DataP, None))]"
      by (rule wire_collects [OF F, of ?z idx "{}"]) (use fg'(1) ix(2) assms(2,3) w e more idx_def in simp_all)
    finally show ?thesis by (simp add: len)
  qed
qed

section \<open>The payload a session sends arrives\<close>

lemma fragment_count_max: "MIN_TRANSPORT_MTU \<le> mtu \<Longrightarrow> fragment_count_perf mtu p \<le> MAX_FRAGMENTS \<longleftrightarrow> length p \<le> max_sendable_len mtu"
proof -
  assume "MIN_TRANSPORT_MTU \<le> mtu"
  then have m: "0 < mtu - 16" "112 \<le> mtu - 16" by (simp_all add: zssp_sizes)
  have "fragment_count_perf mtu p \<le> 48 \<longleftrightarrow> fragment_count_perf mtu p < 49" by linarith
  also have "\<dots> \<longleftrightarrow> length p + 16 + (mtu - 16 - 1) < 49 * (mtu - 16)"
    using m(1) by (simp add: fragment_count_perf_def zssp_sizes div_less_iff_less_mult)
  also have "\<dots> \<longleftrightarrow> length p + 16 \<le> 48 * (mtu - 16)" using m by linarith
  also have "\<dots> \<longleftrightarrow> length p \<le> 48 * (mtu - 16) - 16" using m by linarith
  finally show ?thesis by (simp add: max_sendable_len_def zssp_sizes mult.commute)
qed

lemma send_accepted:
  assumes "Context_send_perf C P s (\<lambda>_. True) mtu p w = (Ok b, wire, w')" "px_heap w s = Some z"
    "ke_kid (dp_send (key_ref_perf z False)) = Some kid" "dp_nk (key_ref_perf z False) = Some (k, k')"
  defines "q \<equiv> fragment_count_perf mtu p"
  shows "MIN_TRANSPORT_MTU \<le> mtu" "q \<le> MAX_FRAGMENTS"
    "wire = map (flight_wire C P kid k (ps_hk_send z) (ps_send_counter z) (pieces q p)) [0..<q]" "length (pieces q p) = q"
proof -
  have mtu: "MIN_TRANSPORT_MTU \<le> mtu" using assms(1,2) by (auto simp: Context_send_perf_def send_payload_perf_def split: if_splits)
  have len: "length (pieces q p) = q" using payload.length_pieces [of mtu p] mtu by (simp add: q_def max_absorb1)
  obtain z1 x where g: "get_counter_perf C z = (Some (ps_send_counter z, x), z1)" 
    using assms(1,2) by (cases "get_counter_perf C z")
      (auto simp: Context_send_perf_def send_payload_perf_def get_counter_perf_def expire_then_def Let_def split: if_splits option.splits prod.splits)
  have z1: "key_ref_perf z1 False = key_ref_perf z False" "ps_hk_send z1 = ps_hk_send z"
    using g by (auto simp: get_counter_perf_def Let_def key_ref_perf_def split: if_splits)
  have q: "(length p + AES_GCM_TAG_SIZE + (mtu - Suc HEADER_SIZE)) div (mtu - HEADER_SIZE) = q" by (simp add: q_def fragment_count_perf_def)
  note v = send_fragments_perf_value [OF mtu q_def [THEN meta_eq_to_obj_eq], of "\<lambda>_. True" C P "(k, k')" "ps_hk_send z" "u32_to_ne_bytes P kid"]
  have "q \<le> MAX_FRAGMENTS \<and> wire = map (flight_wire C P kid k (ps_hk_send z) (ps_send_counter z) (pieces q p)) [0..<q]"
    using assms(1-4) mtu g z1 v
    by (auto simp: Context_send_perf_def send_payload_perf_def Let_def q flight_wire_def flight_header_def flight_bodies_def len
        split: if_splits option.splits)
  with mtu len show "MIN_TRANSPORT_MTU \<le> mtu" "q \<le> MAX_FRAGMENTS"
    "wire = map (flight_wire C P kid k (ps_hk_send z) (ps_send_counter z) (pieces q p)) [0..<q]" "length (pieces q p) = q" by simp_all
qed

text \<open>C13: A payload that \<open>send\<close> accepted is delivered unchanged: whatever the order in which its packets
  reach \<open>receive\<close> of a context whose session holds the matching key and header key and has not seen
  the counter, every packet but the last only says that a fragment was taken, and the last one
  returns a data event with the whole payload written to the caller.\<close>

theorem perf_payload_roundtrip:
  assumes "crypto_sized C" "crypto_correct C pub_of" "stream_sized P" "stream_correct P" "\<And>i x. out i x = Inr (length x)"
    and sent: "Context_send_perf C P sa (\<lambda>_. True) mtu p wa = (Ok b, wire, wa')"
    and a: "px_heap wa sa = Some za" "ke_kid (dp_send (key_ref_perf za False)) = Some kid" "kid \<noteq> 0"
      "dp_nk (key_ref_perf za False) = Some (k, k')"
    and w: "px_session_map wb kid = Some sb" "px_heap wb sb = Some zb" "pw_sent wb = []"
      "expects zb kid k (ps_hk_send za) (ps_send_counter za)"
    and fg: "defrag = ps_defrag zb ! (unat (ps_send_counter za) mod SESSION_MAX_FRAGMENTS_OOO)"
      "fragged_wf (pl_needs_drop P) defrag" "length (fg_frags defrag) = MAX_FRAGMENTS" "fg_nonce defrag \<noteq> ps_send_counter za"
    and order: "distinct order" "set order = {..<length wire}"
  shows "receive_all_perf C P A reply send_to out addr (map (\<lambda>i. wire ! i) order) wb =
    replicate (length wire - 1) ([], Ok (FragmentP sb, None)) @ [(p, Ok (AssociatedP sb DataP, None))]"
proof -
  define q where "q = fragment_count_perf mtu p"
  note s = send_accepted [OF sent a(1,2,4), folded q_def]
  have num: "0 < q" "concat (pieces q p) = p"
    using payload.numbers(1) [of mtu p] payload.concat_pieces [of mtu p] s(1) by (simp_all add: q_def max_absorb1)
  have long: "\<forall>x \<in> set (flight_bodies P k (ps_send_counter za) (pieces q p)). AES_GCM_TAG_SIZE \<le> length x"
    using payload.bodies_long [OF assms(3), of _ k _ mtu p] s(1)
    by (simp add: flight_bodies_def q_def max_absorb1 AES_GCM_TAG_SIZE_def)
  have F: "in_flight C pub_of P out kid k (ps_send_counter za) (pieces q p)"
    unfolding in_flight_def using assms(1-5) a(3) num(1) s(2,4) long by (metis length_0_conv less_irrefl)
  have o: "set order = {..<length (pieces q p)}" using order(2) s(3,4) by simp
  have m: "map (\<lambda>i. wire ! i) order = map (flight_wire C P kid k (ps_hk_send za) (ps_send_counter za) (pieces q p)) order"
    using order(2) by (intro map_cong) (simp_all add: s(3))
  have "length wire = q" by (simp add: s(3))
  then show ?thesis unfolding m using wire_delivers [OF F order(1) o w fg(2-4) [unfolded fg(1)]] s(4) num(2) by simp
qed

text \<open>C34: \<open>send\<close> on an established session refuses a payload for its size exactly when it is longer than
  \<open>max_sendable_len\<close> of the MTU.\<close>

theorem send_size_exact:
  assumes "MIN_TRANSPORT_MTU \<le> mtu" "px_heap w s = Some z" "ps_beta z \<noteq> PNull"
    "get_counter_perf C z = (Some cr, z')" "ke_kid (dp_send (key_ref_perf z False)) \<noteq> None" "dp_nk (key_ref_perf z False) \<noteq> None"
  shows "fst (Context_send_perf C P s send mtu p w) = Err DataTooLarge \<longleftrightarrow> max_sendable_len mtu < length p"
proof -
  have q: "(length p + AES_GCM_TAG_SIZE + (mtu - Suc HEADER_SIZE)) div (mtu - HEADER_SIZE) = fragment_count_perf mtu p"
    by (simp add: fragment_count_perf_def)
  have k: "key_ref_perf z' False = key_ref_perf z False"
    using assms(4) by (auto simp: get_counter_perf_def Let_def key_ref_perf_def split: if_splits)
  have "MAX_FRAGMENTS < fragment_count_perf mtu p \<longleftrightarrow> max_sendable_len mtu < length p"
    using fragment_count_max [OF assms(1), of p] by linarith
  then show ?thesis using assms
    by (auto simp: Context_send_perf_def send_payload_perf_def Let_def q k split: option.splits bool.splits prod.splits)
qed

section \<open>Examples\<close>

text \<open>\<open>send\<close> on a session that is not due to rekey.\<close>

lemma send_succeeds:
  assumes "MIN_TRANSPORT_MTU \<le> mtu" "px_heap w s = Some z" "ps_beta z = PS1"
    "get_counter_perf C z = (Some cr, z')" "ke_kid (dp_send (key_ref_perf z False)) \<noteq> None" "dp_nk (key_ref_perf z False) \<noteq> None"
    "length p \<le> max_sendable_len mtu"
  shows "\<exists>wire w'. Context_send_perf C P s (\<lambda>_. True) mtu p w = (Ok False, wire, w')"
proof -
  have q: "(length p + AES_GCM_TAG_SIZE + (mtu - Suc HEADER_SIZE)) div (mtu - HEADER_SIZE) = fragment_count_perf mtu p"
    by (simp add: fragment_count_perf_def)
  have k: "key_ref_perf z' False = key_ref_perf z False" "ps_beta z' = ps_beta z"
    using assms(4) by (auto simp: get_counter_perf_def Let_def key_ref_perf_def split: if_splits)
  have "fragment_count_perf mtu p \<le> MAX_FRAGMENTS" using fragment_count_max [OF assms(1)] assms(7) by simp
  then show ?thesis using assms(1-6)
    by (cases cr) (auto simp: Context_send_perf_def send_payload_perf_def Let_def q k send_fragments_perf_value [OF assms(1) refl])
qed

lemma sample_sender_fields:
  "px_heap sample_sender 0 = Some (sample_session 5 6 1 2)" "ps_beta (sample_session a b c d) = PS1"
  "ke_kid (dp_send (key_ref_perf (sample_session a b c d) False)) = Some a" "ps_send_counter (sample_session a b c d) = 1"
  "dp_nk (key_ref_perf (sample_session a b c d) False) = Some (replicate 32 c, replicate 32 d)" "ps_hk_send (sample_session a b c d) = replicate 32 3"
  "\<exists>cr z'. get_counter_perf sample_crypto (sample_session a b c d) = (Some cr, z')"
  by (simp_all add: sample_sender_def sample_session_def new_bob_session_def Let_def key_ref_perf_def key_mut_perf_def sample_b2_def
      replace_nk_def pool_new_def set_recv_kid_perf_def set_send_kid_perf_def replace_keks_def replace_kek_def get_counter_perf_def
      zssp_sizes THREAD_SAFE_COUNTER_HARD_EXPIRE_def EXPIRE_AFTER_USES_def)

lemma sample_receiver_fields:
  "px_session_map sample_receiver 5 = Some 0" "px_heap sample_receiver 0 = Some (sample_session 6 5 2 1)" "pw_sent sample_receiver = []"
  "expects (sample_session 6 5 2 1) 5 (replicate 32 1) (replicate 32 3) 1"
  "ps_defrag (sample_session 6 5 2 1) ! (unat (1 :: u64) mod SESSION_MAX_FRAGMENTS_OOO) = fragged_new MAX_FRAGMENTS"
  by (simp_all add: sample_receiver_def sample_context_def Context_new_perf_def case_prod_beta sample_session_def new_bob_session_def Let_def
      key_ref_perf_def key_mut_perf_def sample_b2_def expects_def slot_for_def duplex_key_perf_default_def keys_perf_default_def
      replace_nk_def pool_new_def set_recv_kid_perf_def set_send_kid_perf_def replace_keks_def replace_kek_def
      Window_check_def window_new_def window_slot_def zssp_sizes)

theorem perf_payload_roundtrip_witness:
  "\<exists>wire w'. Context_send_perf sample_crypto sample_platform 0 (\<lambda>_. True) 128 (replicate 120 7) sample_sender = (Ok False, wire, w') \<and>
     receive_all_perf sample_crypto sample_platform sample_application (\<lambda>_. True, 128) (\<lambda>_. None) (\<lambda>_ x. Inr (length x)) []
       (map (\<lambda>i. wire ! i) [1, 0]) sample_receiver =
     [([], Ok (FragmentP 0, None)), (replicate 120 7, Ok (AssociatedP 0 DataP, None))]"
proof -
  obtain wire w' where sent: "Context_send_perf sample_crypto sample_platform 0 (\<lambda>_. True) 128 (replicate 120 7) sample_sender = (Ok False, wire, w')"
  proof -
    obtain cr z' where g: "get_counter_perf sample_crypto (sample_session 5 6 1 2) = (Some cr, z')" using sample_sender_fields(7) by blast
    show thesis using send_succeeds [OF _ sample_sender_fields(1) _ g, of 128 "replicate 120 7" sample_platform] that
      by (auto simp: max_sendable_len_def zssp_sizes sample_sender_fields)
  qed
  note s = send_accepted [OF sent sample_sender_fields(1,3,5)]
  have "fragment_count_perf 128 (replicate 120 7) = 2" by (simp add: fragment_count_perf_def zssp_sizes)
  then have l: "length wire = 2" using s(3) by simp
  have d: "fragged_new MAX_FRAGMENTS = ps_defrag (sample_session 6 5 2 1) ! (unat (ps_send_counter (sample_session 5 6 1 2)) mod SESSION_MAX_FRAGMENTS_OOO)"
    by (simp only: sample_sender_fields(4) sample_receiver_fields(5))
  have fg: "fragged_wf (pl_needs_drop sample_platform) (fragged_new MAX_FRAGMENTS :: bytes fragged)" by (simp add: fragged_new_wf)
  have "receive_all_perf sample_crypto sample_platform sample_application (\<lambda>_. True, 128) (\<lambda>_. None) (\<lambda>_ x. Inr (length x)) []
       (map (\<lambda>i. wire ! i) [1, 0]) sample_receiver =
     replicate (length wire - 1) ([], Ok (FragmentP 0, None)) @ [(replicate 120 7, Ok (AssociatedP 0 DataP, None))]"
  proof (rule perf_payload_roundtrip [OF sample_crypto_sized sample_crypto_correct sample_stream_sized sample_stream_correct refl sent
      sample_sender_fields(1,3) _ sample_sender_fields(5) sample_receiver_fields(1-3) _ d])
    show "expects (sample_session 6 5 2 1) 5 (replicate 32 1) (ps_hk_send (sample_session 5 6 1 2)) (ps_send_counter (sample_session 5 6 1 2))"
      using sample_receiver_fields(4) by (simp add: sample_sender_fields)
  qed (use fg in \<open>auto simp: sample_sender_fields(4) l fragged_new_def\<close>)
  then show ?thesis using sent l by (simp add: numeral_2_eq_2)
qed

theorem send_size_exact_witness:
  "fst (Context_send_perf sample_crypto sample_platform 0 (\<lambda>_. True) 128 (replicate 5361 7) sample_sender) = Err DataTooLarge \<longleftrightarrow>
     max_sendable_len 128 < length (replicate 5361 (7 :: u8))"
proof -
  obtain cr z' where "get_counter_perf sample_crypto (sample_session 5 6 1 2) = (Some cr, z')" using sample_sender_fields(7) by blast
  from send_size_exact [OF _ sample_sender_fields(1) _ this] show ?thesis by (simp add: sample_sender_fields zssp_sizes)
qed

end
