(* ===== verification/Perf_Safety.thy ===== *)
theory Perf_Safety
  imports Perf_Payload Indexed_Heap_Laws Frag_Cache_Laws
begin

text \<open>
  The well-formedness of a session and of the context of the performance crate, and that every
  transition keeps it and does not panic. \<open>handler_ok\<close> is the contract all transitions of a session
  have in common: from a well-formed session and world they return a well-formed session and
  world, leave the other sessions alone and never panic.
\<close>

section \<open>The fragments a defragmenter holds\<close>

definition held :: "'f fragged \<Rightarrow> 'f set" where
  "held s = {f. Some f \<in> set (fg_frags s)}"

lemma drop_loop_held: "drop_loop h i fs = Some fs' \<Longrightarrow> Some f \<in> set fs' \<Longrightarrow> Some f \<in> set fs"
proof (induction h i fs rule: drop_loop.induct)
  case (1 h i fs)
  show ?case
  proof (cases "h = 0")
    case False
    note s = "1.prems"(1) [unfolded drop_loop.simps [of h i fs]]
    show ?thesis
    proof (cases "h AND 1 \<noteq> 0")
      case True
      with s False have g: "i < length fs \<and> fs ! i \<noteq> None" "drop_loop (drop_bit 1 h) (i + 1) (fs[i := None]) = Some fs'"
        by (auto split: if_splits)
      from "1.IH"(1) [OF False True g(1) g(2) "1.prems"(2)] show ?thesis
        using set_update_subset_insert [of fs i None] by auto
    next
      case odd: False
      then show ?thesis using "1.IH"(2) [OF False odd] s False "1.prems"(2) by simp
    qed
  qed (use "1.prems" in \<open>simp add: drop_loop.simps\<close>)
qed

lemma move_out_held:
  "move_out is fs ret = Some (fs', ret') \<Longrightarrow>
     (\<forall>f. Some f \<in> set fs' \<longrightarrow> Some f \<in> set fs) \<and> (\<forall>f \<in> set ret'. f \<in> set ret \<or> Some f \<in> set fs)"
proof (induction "is" arbitrary: fs ret)
  case (Cons i "is")
  then obtain f where f: "i < length fs" "fs ! i = Some f" "move_out is (fs[i := None]) (ret @ [f]) = Some (fs', ret')"
    by (auto split: if_splits option.splits)
  have "Some f \<in> set fs" using f(1,2) nth_mem by metis
  with Cons.IH [OF f(3)] show ?case using set_update_subset_insert [of fs i None] by auto
qed simp

lemma fragged_assemble_held:
  assumes "fragged_assemble nd s c f i n [] = Some (s', ret)"
  shows "held s' \<subseteq> insert f (held s)" "set ret \<subseteq> insert f (held s)"
proof -
  have drop: "held t \<subseteq> held s" if "drop_in_place nd s = Some t" for t
    using that drop_loop_held by (fastforce simp: drop_in_place_def held_def split: if_splits option.splits)
  have "held s' \<subseteq> insert f (held s) \<and> set ret \<subseteq> insert f (held s)"
  proof (cases "i < n \<and> n \<le> length (fg_frags s)")
    case True
    then obtain t where t: "held t \<subseteq> held s"
      "(let got = wrapping_shl 1 (word_of_nat i)
             in if got AND fg_have t = 0 \<and> fg_count t = word_of_nat n
                then
                  let self = t\<lparr>fg_have := fg_have t OR got, fg_frags := (fg_frags t)[i := Some f]\<rparr>
                  in if fg_have self = wrapping_shl 1 (fg_count self) - 1
                     then map_option
                            (\<lambda>(frags, ret). (self\<lparr>fg_have := 0, fg_count := 0, fg_nonce := - 1, fg_frags := frags\<rparr>, ret))
                            (move_out [0..<n] (fg_frags self) [])
                     else Some (self, [])
                else Some (t, [])) = Some (s', ret)"
    proof (cases "c = fg_nonce s")
      case False
      with True assms obtain u where u: "drop_in_place nd s = Some u"
        by (cases "drop_in_place nd s") (simp_all add: fragged_assemble_def)
      let ?t = "u\<lparr>fg_count := word_of_nat n, fg_nonce := c\<rparr>"
      have "held ?t \<subseteq> held s" using drop [OF u] by (simp add: held_def)
      then show thesis by (rule that) (use assms True False u in \<open>simp add: fragged_assemble_def\<close>)
    next
      case same: True
      show thesis by (rule that [of s]) (use assms True same in \<open>simp_all add: fragged_assemble_def\<close>)
    qed
    have old: "Some g \<in> set (fg_frags t) \<Longrightarrow> Some g \<in> set (fg_frags s)" for g using t(1) by (auto simp: held_def)
    have up: "Some g \<in> set ((fg_frags t)[i := Some f]) \<Longrightarrow> g = f \<or> Some g \<in> set (fg_frags s)" for g
      using set_update_subset_insert [of "fg_frags t" i "Some f"] old by blast
    note mv = move_out_held [of "[0..<n]" "(fg_frags t)[i := Some f]" "[]"]
    from t(2) old show ?thesis by (auto simp: Let_def held_def split: if_splits dest!: mv dest: up)
  qed (use assms in \<open>auto simp: fragged_assemble_def\<close>)
  then show "held s' \<subseteq> insert f (held s)" "set ret \<subseteq> insert f (held s)" by simp_all
qed

section \<open>The invariant\<close>

definition key_full :: "duplex_key_perf \<Rightarrow> bool" where
  "key_full k \<longleftrightarrow> ke_kek (dp_send k) \<noteq> None \<and> ke_kid (dp_send k) \<noteq> None \<and>
     ke_kek (dp_recv k) \<noteq> None \<and> ke_kid (dp_recv k) \<noteq> None \<and> dp_nk k \<noteq> None"

definition rekey_sized :: "bytes \<Rightarrow> bool" where
  "rekey_sized k \<longleftrightarrow> length k = HEADER_SIZE + (REKEY_SIZE - AES_GCM_TAG_SIZE)"

definition beta_ok :: "('pk, 'kp, 'kem, 'd) session_perf \<Rightarrow> bool" where
  "beta_ok z =
     (case ps_beta z of
        PNull \<Rightarrow> ps_resend_timer z = I64_MAX \<and> ps_timeout_timer z = I64_MAX
      | PA1 a1 \<Rightarrow> length (ap_x1 a1) = HEADER_SIZE + HANDSHAKE_HELLO_CHALLENGE_SIZE \<and>
          length (ap_identity a1) \<le> IDENTITY_MAX_SIZE \<and> recv_kid_perf z True \<noteq> None
      | PA3 ident x3 \<Rightarrow> length x3 = HEADER_SIZE + (HANDSHAKE_COMPLETION_MIN_SIZE + length ident) \<and>
          length ident \<le> IDENTITY_MAX_SIZE \<and> key_full (key_ref_perf z True)
      | PS1 \<Rightarrow> key_full (key_ref_perf z False)
      | PS2 \<Rightarrow> key_full (key_ref_perf z False)
      | PR1 _ _ k1 \<Rightarrow> key_full (key_ref_perf z False) \<and> recv_kid_perf z True \<noteq> None \<and> rekey_sized k1
      | PR2 k2 \<Rightarrow> key_full (key_ref_perf z False) \<and> key_full (key_ref_perf z True) \<and> rekey_sized k2)"

definition defrag_ok :: "platform \<Rightarrow> bytes fragged \<Rightarrow> bool" where
  "defrag_ok P s \<longleftrightarrow> fragged_wf (pl_needs_drop P) s \<and> length (fg_frags s) = MAX_FRAGMENTS \<and>
     (\<forall>f \<in> held s. MIN_PACKET_SIZE \<le> length f)"

definition session_ok :: "platform \<Rightarrow> u64 \<Rightarrow> ('pk, 'kp, 'kem, 'd) session_perf \<Rightarrow> bool" where
  "session_ok P g z \<longleftrightarrow> beta_ok z \<and> 2 \<le> snd (ps_queue_idx z) \<and> snd (ps_queue_idx z) \<le> g \<and>
     ratchet_wf (ps_ratchet_state1 z) \<and> pred_option ratchet_wf (ps_ratchet_state2 z) \<and>
     length (ps_window z) = COUNTER_WINDOW_MAX_OOO \<and>
     length (ps_defrag z) = SESSION_MAX_FRAGMENTS_OOO \<and> (\<forall>s \<in> set (ps_defrag z). defrag_ok P s)"

definition cache_ok :: "bytes frag_cache \<Rightarrow> bool" where
  "cache_ok c \<longleftrightarrow> cache_wf c \<and> (\<exists>L. logged L c \<and> (\<forall>(k, i, n, f) \<in> L. MIN_PACKET_SIZE \<le> length f))"

definition generation :: "('pk, 'kp, 'r, 'kem, 'd, 'fd, 'a) pworld \<Rightarrow> u64" where
  "generation w = ih_generation (px_session_queue w)"

definition world_ok :: "platform \<Rightarrow> ('pk, 'kp, 'r, 'kem, 'd, 'fd, 'a) pworld \<Rightarrow> bool" where
  "world_ok P w \<longleftrightarrow> heap_wf (px_session_queue w) \<and> finite (dom (px_heap w)) \<and>
     (\<forall>s z. px_heap w s = Some z \<longrightarrow> session_ok P (generation w) z) \<and>
     (\<forall>addr b2. px_b2_heap w addr = Some b2 \<longrightarrow> defrag_ok P (pb_defrag b2)) \<and>
     cache_ok (px_defrag_cache w) \<and>
     (\<forall>x \<in> set (pw_sent w). MIN_PACKET_SIZE \<le> length (fst x))"

definition handler_ok ::
  "platform \<Rightarrow> ('pk, 'kp, 'r, 'kem, 'd, 'fd, 'a) pworld \<Rightarrow> ('e, 'x, 'pk, 'kp, 'r, 'kem, 'd, 'fd, 'a) presult \<Rightarrow> bool" where
  "handler_ok P w res \<longleftrightarrow>
     (case res of (r, z, w') \<Rightarrow> r \<noteq> Panic \<and> session_ok P (generation w) z \<and> world_ok P w' \<and>
        px_heap w' = px_heap w \<and> generation w' = generation w)"

definition settings_ok :: "('pk, 'kp, 'r, 'kem) crypto_layer \<Rightarrow> bool" where
  "settings_ok C \<longleftrightarrow> crypto_sized C \<and> rekey_time_max_jitter (SETTINGS C) \<noteq> 0"

lemma settings_sized: "settings_ok C \<Longrightarrow> crypto_sized C"
  by (simp add: settings_ok_def)

section \<open>The parts of a handler\<close>

lemma generation_simps [simp]:
  "generation (w\<lparr>pw_app := a\<rparr>) = generation w" "generation (w\<lparr>px_rng := r\<rparr>) = generation w"
  "generation (w\<lparr>px_session_map := m\<rparr>) = generation w" "generation (w\<lparr>px_next_service_time := t\<rparr>) = generation w"
  "generation (w\<lparr>pw_sent := l\<rparr>) = generation w" "generation (w\<lparr>px_challenge := cc\<rparr>) = generation w"
  "generation (w\<lparr>px_handshakes := hs\<rparr>) = generation w" "generation (w\<lparr>px_defrag_cache := dc\<rparr>) = generation w"
  "generation (w\<lparr>px_heap := h\<rparr>) = generation w" "generation (w\<lparr>px_b2_heap := bh\<rparr>) = generation w"
  "generation (w\<lparr>px_next_b2 := n\<rparr>) = generation w" "generation (w\<lparr>px_next_session := s\<rparr>) = generation w"
  "generation (w\<lparr>px_session_queue := q\<rparr>) = ih_generation q"
  by (simp_all add: generation_def)

lemma world_ok_simps [simp]:
  "world_ok P (w\<lparr>pw_app := a\<rparr>) = world_ok P w" "world_ok P (w\<lparr>px_rng := r\<rparr>) = world_ok P w"
  "world_ok P (w\<lparr>px_session_map := m\<rparr>) = world_ok P w" "world_ok P (w\<lparr>px_next_service_time := t\<rparr>) = world_ok P w"
  "world_ok P (w\<lparr>px_challenge := cc\<rparr>) = world_ok P w" "world_ok P (w\<lparr>px_handshakes := hs\<rparr>) = world_ok P w"
  "world_ok P (w\<lparr>px_next_b2 := n\<rparr>) = world_ok P w" "world_ok P (w\<lparr>px_next_session := s\<rparr>) = world_ok P w"
  by (simp_all add: world_ok_def)

lemma world_ok_put:
  "world_ok P w \<Longrightarrow> session_ok P (generation w) z \<Longrightarrow> world_ok P (put_session s z w)"
  by (simp add: world_ok_def put_session_def)

lemma world_ok_emit [simp]:
  "MIN_PACKET_SIZE \<le> length p \<Longrightarrow> world_ok P (emit_perf p hk w) = world_ok P w"
  by (auto simp: world_ok_def emit_perf_def)

lemma emit_fields [simp]:
  "px_heap (emit_perf p hk w) = px_heap w" "generation (emit_perf p hk w) = generation w"
  by (simp_all add: emit_perf_def)

lemma key_ref_mut_perf [simp]:
  "key_ref_perf (key_mut_perf z b f) b' = (if b' = b then f (key_ref_perf z b) else key_ref_perf z b')"
  by (auto simp: key_ref_perf_def key_mut_perf_def)

lemma key_ref_flip [simp]:
  "key_ref_perf (z\<lparr>ps_key_index := \<not> ps_key_index z\<rparr>) b = key_ref_perf z (\<not> b)"
  by (auto simp: key_ref_perf_def)

lemma key_ref_frame [simp]:
  "key_ref_perf (z\<lparr>ps_beta := be\<rparr>) b = key_ref_perf z b" "key_ref_perf (z\<lparr>ps_window := wi\<rparr>) b = key_ref_perf z b"
  "key_ref_perf (z\<lparr>ps_resend_timer := t\<rparr>) b = key_ref_perf z b" "key_ref_perf (z\<lparr>ps_timeout_timer := t\<rparr>) b = key_ref_perf z b"
  "key_ref_perf (z\<lparr>ps_ratchet_state1 := r1\<rparr>) b = key_ref_perf z b" "key_ref_perf (z\<lparr>ps_ratchet_state2 := r2\<rparr>) b = key_ref_perf z b"
  "key_ref_perf (z\<lparr>ps_send_counter := c\<rparr>) b = key_ref_perf z b" "key_ref_perf (z\<lparr>ps_key_creation_counter := c\<rparr>) b = key_ref_perf z b"
  "key_ref_perf (z\<lparr>ps_hk_send := hk\<rparr>) b = key_ref_perf z b" "key_ref_perf (z\<lparr>ps_hk_recv := hk\<rparr>) b = key_ref_perf z b"
  "key_ref_perf (z\<lparr>ps_defrag := df\<rparr>) b = key_ref_perf z b"
  by (simp_all add: key_ref_perf_def)

lemma key_mut_perf_fields [simp]:
  "ps_beta (key_mut_perf z b f) = ps_beta z" "ps_window (key_mut_perf z b f) = ps_window z"
  "ps_queue_idx (key_mut_perf z b f) = ps_queue_idx z" "ps_defrag (key_mut_perf z b f) = ps_defrag z"
  "ps_ratchet_state1 (key_mut_perf z b f) = ps_ratchet_state1 z" "ps_ratchet_state2 (key_mut_perf z b f) = ps_ratchet_state2 z"
  "ps_send_counter (key_mut_perf z b f) = ps_send_counter z" "ps_key_index (key_mut_perf z b f) = ps_key_index z"
  by (simp_all add: key_mut_perf_def)

lemma key_full_default [simp]: "\<not> key_full duplex_key_perf_default"
  by (simp add: key_full_def duplex_key_perf_default_def keys_perf_default_def)

lemma key_full_store:
  "ke_kid (dp_recv k) \<noteq> None \<Longrightarrow> key_full (store_keys_perf kid ks ns kr nr k)"
  by (simp add: key_full_def store_keys_perf_def replace_nk_def replace_keks_def replace_kek_def set_send_kid_perf_def)

lemma recv_kid_set_perf [simp]: "ke_kid (dp_recv (set_recv_kid_perf kid k)) = Some kid" "key_full k \<Longrightarrow> key_full (set_recv_kid_perf kid k)"
  by (simp_all add: set_recv_kid_perf_def key_full_def)

lemma create_ratchet_state_wf: "crypto_sized C \<Longrightarrow> ratchet_wf (create_ratchet_state C noise n)"
  using get_ask_perf_lengths [of C noise LABEL_RATCHET_STATE]
  by (simp add: create_ratchet_state_def ratchet_wf_def ratchet_new_def case_prod_beta zssp_sizes)

lemma handler_okI:
  "r \<noteq> Panic \<Longrightarrow> session_ok P (generation w) z \<Longrightarrow> world_ok P w' \<Longrightarrow> px_heap w' = px_heap w \<Longrightarrow>
   generation w' = generation w \<Longrightarrow> handler_ok P w (r, z, w')"
  by (simp add: handler_ok_def)

lemma time_perf_frame:
  assumes "time_perf A w = (t, w')"
  shows "world_ok P w' = world_ok P w" "px_heap w' = px_heap w" "generation w' = generation w"
    "px_session_queue w' = px_session_queue w"
  using assms by (auto simp: time_perf_def split: prod.splits)

lemma save_ratchet_perf_frame:
  assumes "save_ratchet_perf A pk d u w = (r, w')"
  shows "world_ok P w' = world_ok P w" "px_heap w' = px_heap w" "generation w' = generation w"
    "px_session_queue w' = px_session_queue w"
  using assms by (auto simp: save_ratchet_perf_def split: prod.splits)

lemma reduce_next_service_time_frame:
  assumes "reduce_next_service_time t w = (r, w')"
  shows "world_ok P w' = world_ok P w" "px_heap w' = px_heap w" "generation w' = generation w"
    "px_session_queue w' = px_session_queue w"
  using assms by (auto simp: reduce_next_service_time_def)

lemma remap_perf_frame:
  assumes "remap_perf C s z w = Some (kid, w')"
  shows "world_ok P w' = world_ok P w" "px_heap w' = px_heap w" "generation w' = generation w"
    "px_session_queue w' = px_session_queue w"
  using assms by (auto simp: remap_perf_def Let_def split: option.splits)

lemmas frames = time_perf_frame save_ratchet_perf_frame reduce_next_service_time_frame remap_perf_frame

lemma world_ok_queue:
  "world_ok P w \<Longrightarrow> heap_wf q \<Longrightarrow> ih_generation q = generation w \<Longrightarrow> world_ok P (w\<lparr>px_session_queue := q\<rparr>)"
  by (simp add: world_ok_def)

lemma session_issued: "session_ok P (generation w) z \<Longrightarrow> issued (px_session_queue w) (ps_queue_idx z)"
  by (simp add: session_ok_def issued_def generation_def)

lemma reschedule_works:
  assumes "world_ok P w" "issued (px_session_queue w) idx"
  shows "\<exists>r w'. reschedule idx t w = Some (r, w') \<and> world_ok P w' \<and> px_heap w' = px_heap w \<and> generation w' = generation w"
proof -
  obtain r q where q: "change_priority (px_session_queue w) idx (Reverse t) = Some (r, q)" "heap_wf q"
    "ih_generation q = ih_generation (px_session_queue w)"
    using update_priority_total [of "px_session_queue w" idx "\<lambda>_. Some (Reverse t)"] assms
    by (auto simp: world_ok_def change_priority_def)
  let ?w = "w\<lparr>px_session_queue := q\<rparr>"
  have "world_ok P ?w" using world_ok_queue [OF assms(1) q(2)] q(3) by (simp add: generation_def)
  then show ?thesis using q(1,3) reduce_next_service_time_frame [of t ?w]
    by (cases "reduce_next_service_time t ?w") (simp add: reschedule_def generation_def)
qed

lemma session_ok_null:
  "session_ok P g z \<Longrightarrow> session_ok P g (z\<lparr>ps_beta := PNull, ps_keys := ks, ps_resend_timer := I64_MAX, ps_timeout_timer := I64_MAX\<rparr>)"
  by (simp add: session_ok_def beta_ok_def)

lemma expire_inner_works:
  assumes "world_ok P w" "session_ok P (generation w) z"
  shows "\<exists>z' w'. expire_inner z w = Some (z', w') \<and> session_ok P (generation w) z' \<and> ps_beta z' = PNull \<and> world_ok P w' \<and>
    px_heap w' = px_heap w \<and> generation w' = generation w"
proof (cases "ps_beta z = PNull")
  case False
  obtain r q where q: "heap_remove (px_session_queue w) (ps_queue_idx z) = Some (r, q)" "heap_wf q"
    "ih_generation q = ih_generation (px_session_queue w)"
    using heap_remove_total [of "px_session_queue w" "ps_queue_idx z"] assms by (auto simp: world_ok_def session_ok_def)
  have "world_ok P (w\<lparr>px_session_queue := q\<rparr>)" using world_ok_queue [OF assms(1) q(2)] q(3) by (simp add: generation_def)
  then show ?thesis using False q(1,3) session_ok_null [OF assms(2)]
    by (simp add: expire_inner_def Let_def generation_def)
qed (use assms in \<open>simp add: expire_inner_def\<close>)

lemma expire_then_ok:
  assumes "world_ok P w" "session_ok P (generation w) z" "r \<noteq> Panic"
  shows "handler_ok P w (expire_then r z w)"
  using expire_inner_works [OF assms(1,2)] assms(3) by (auto simp: expire_then_def handler_ok_def)

lemma session_ok_frame [simp]:
  "session_ok P g (z\<lparr>ps_send_counter := c\<rparr>) = session_ok P g z"
  "ps_beta z \<noteq> PNull \<Longrightarrow> session_ok P g (z\<lparr>ps_resend_timer := t\<rparr>) = session_ok P g z"
  "ps_beta z \<noteq> PNull \<Longrightarrow> session_ok P g (z\<lparr>ps_timeout_timer := t\<rparr>) = session_ok P g z"
  by (cases "ps_beta z"; simp add: session_ok_def beta_ok_def recv_kid_perf_def)+

lemma get_counter_perf_ok: "session_ok P g z \<Longrightarrow> get_counter_perf C z = (r, z') \<Longrightarrow> session_ok P g z'"
  by (auto simp: get_counter_perf_def Let_def split: if_splits)

lemma get_counter_perf_fields:
  assumes "get_counter_perf C z = (r, z')"
  shows "ps_beta z' = ps_beta z" "key_ref_perf z' b = key_ref_perf z b" "ps_queue_idx z' = ps_queue_idx z"
    "ps_hk_send z' = ps_hk_send z"
  using assms by (auto simp: get_counter_perf_def Let_def split: if_splits)

lemma send_control_perf_ok:
  assumes "crypto_sized C" "world_ok P w" "session_ok P (generation w) z" "HEADER_SIZE \<le> length payload"
  shows "handler_ok P w (send_control_perf C P' p payload z w)"
proof -
  obtain r z1 where g: "get_counter_perf C z = (r, z1)" by fastforce
  have z1: "session_ok P (generation w) z1" by (rule get_counter_perf_ok [OF assms(3) g])
  show ?thesis
  proof (cases r)
    case (Some cr)
    have "MIN_PACKET_SIZE \<le> length (set_header P' (take HEADER_SIZE payload @
        fst (aead_encrypt_in_place C k n (Some []) (drop HEADER_SIZE payload)) @
        snd (aead_encrypt_in_place C k n (Some []) (drop HEADER_SIZE payload))) kid (to_nonce p c))" for k n kid c
      using assms(4) by (simp add: crypto_sizedD [OF assms(1)] zssp_sizes)
    then show ?thesis using g Some z1 assms(2)
      by (auto simp: send_control_perf_def handler_ok_def Let_def case_prod_beta split: option.splits)
  qed (use g z1 assms(2) in \<open>auto simp: send_control_perf_def handler_ok_def\<close>)
qed

lemma Window_update_length [simp]: "length (snd (Window_update k win c)) = length win"
  by (simp add: Window_update_def Let_def)

lemma window_update_perf_ok:
  assumes "session_ok P g z" "window_update_perf z c = (ok, z')"
  shows "session_ok P g z'" "ps_beta z' = ps_beta z" "key_ref_perf z' b = key_ref_perf z b" "ps_was_bob z' = ps_was_bob z"
proof -
  have z': "z' = z\<lparr>ps_window := snd (Window_update COUNTER_WINDOW_MAX_SKIP_AHEAD (ps_window z) c)\<rparr>"
    using assms(2) by (auto simp: window_update_perf_def case_prod_beta)
  show "ps_beta z' = ps_beta z" "key_ref_perf z' b = key_ref_perf z b" "ps_was_bob z' = ps_was_bob z" by (simp_all add: z')
  show "session_ok P g z'" using assms(1)
    by (simp add: z' session_ok_def beta_ok_def recv_kid_perf_def cong: automata_perf.case_cong)
qed

section \<open>The handlers of an established session\<close>

lemma enter_s2_perf_ok:
  assumes "settings_ok C" "world_ok P w" "session_ok P (generation w) (z\<lparr>ps_beta := PS2\<rparr>)"
  shows "handler_ok P w (enter_s2_perf C A z w)"
proof -
  obtain x rng where x: "next_u64 C (px_rng w) = (x, rng)" by fastforce
  obtain now w1 where t: "time_perf A (w\<lparr>px_rng := rng\<rparr>) = (now, w1)" by fastforce
  let ?t = "after now (saturating_sub (rekey_after_time (SETTINGS C)) (x mod rekey_time_max_jitter (SETTINGS C)))"
  let ?z = "z\<lparr>ps_timeout_timer := ?t, ps_resend_timer := I64_MAX, ps_beta := PS2\<rparr>"
  have w1: "world_ok P w1" "px_heap w1 = px_heap w" "generation w1 = generation w"
    using time_perf_frame [OF t] assms(2) by simp_all
  have z: "session_ok P (generation w) ?z"
    using assms(3) by (simp add: session_ok_def beta_ok_def)
  obtain r w2 where "reschedule (ps_queue_idx ?z) ?t w1 = Some (r, w2)" "world_ok P w2" "px_heap w2 = px_heap w"
    "generation w2 = generation w"
    using reschedule_works [OF w1(1), of "ps_queue_idx ?z" ?t] session_issued [of P w1 ?z] z w1(2,3) by auto
  then show ?thesis using x t z assms(1)
    by (simp add: enter_s2_perf_def Let_def handler_ok_def settings_ok_def)
qed

lemma handler_ok_from:
  "handler_ok P w1 res \<Longrightarrow> px_heap w1 = px_heap w \<Longrightarrow> generation w1 = generation w \<Longrightarrow> handler_ok P w res"
  by (auto simp: handler_ok_def)

lemma handler_ok_return:
  "world_ok P w \<Longrightarrow> session_ok P (generation w) z \<Longrightarrow> r \<noteq> Panic \<Longrightarrow> handler_ok P w (r, z, w)"
  by (simp add: handler_ok_def)

lemma confirm_key_perf_ok:
  assumes "settings_ok C" "world_ok P w" "session_ok P (generation w) z" "key_full (key_ref_perf z True)"
  shows "handler_ok P w (confirm_key_perf C A s z w)"
proof -
  let ?u = "cas_new (ps_ratchet_state1 z) None False (ps_ratchet_state1 z) (ps_ratchet_state2 z) False True"
  let ?z = "z\<lparr>ps_ratchet_state2 := None, ps_key_index := \<not> ps_key_index z\<rparr>"
  obtain saved w1 where sv: "(if ps_ratchet_state2 z \<noteq> None then save_ratchet_perf A (ps_s_remote z) (ps_session_data z) ?u w
    else (Inr True, w)) = (saved, w1)" by fastforce
  then have w1: "world_ok P w1" "px_heap w1 = px_heap w" "generation w1 = generation w"
    using save_ratchet_perf_frame [of A "ps_s_remote z" "ps_session_data z" ?u w saved w1] assms(2) by (auto split: if_splits)
  have z: "session_ok P (generation w1) (?z\<lparr>ps_beta := PS2\<rparr>)"
    using assms(3,4) w1(3) by (simp add: session_ok_def beta_ok_def key_ref_perf_def)
  have "handler_ok P w1 (confirm_key_perf C A s z w)"
    using sv assms(3) w1 enter_s2_perf_ok [OF assms(1) w1(1) z] expire_then_ok [OF w1(1)]
    by (auto simp: confirm_key_perf_def handler_ok_return split: sum.split bool.split)
  then show ?thesis using w1 by (blast intro: handler_ok_from)
qed

lemma handler_okD:
  assumes "handler_ok P w (r, z, w')"
  shows "r \<noteq> Panic" "session_ok P (generation w) z" "session_ok P (generation w') z" "world_ok P w'" "px_heap w' = px_heap w" "generation w' = generation w"
  using assms by (simp_all add: handler_ok_def)

lemma window_update_perf_full:
  assumes "session_ok P g z" "window_update_perf z c = (ok, z')"
  shows "session_ok P g z' \<and> ps_beta z' = ps_beta z \<and> (\<forall>b. key_ref_perf z' b = key_ref_perf z b) \<and> ps_was_bob z' = ps_was_bob z"
  using window_update_perf_ok [OF assms] by blast

lemma beta_keys:
  assumes "session_ok P g z"
  shows "is_pa3 (ps_beta z) \<or> is_pr2 (ps_beta z) \<Longrightarrow> key_full (key_ref_perf z True)"
    "ps_beta z = PS1 \<or> ps_beta z = PS2 \<or> is_pr2 (ps_beta z) \<Longrightarrow> key_full (key_ref_perf z False)"
    "ps_beta z = PR1 noise e k1 \<Longrightarrow> key_full (key_ref_perf z False) \<and> recv_kid_perf z True \<noteq> None \<and> rekey_sized k1"
  using assms by (auto simp: session_ok_def beta_ok_def is_pa3_def is_pr2_def split: automata_perf.splits)

lemma expire_then_from:
  "world_ok P w1 \<Longrightarrow> session_ok P (generation w) z \<Longrightarrow> px_heap w1 = px_heap w \<Longrightarrow> generation w1 = generation w \<Longrightarrow>
   r \<noteq> Panic \<Longrightarrow> handler_ok P w (expire_then r z w1)"
  using handler_ok_from [OF expire_then_ok [of P w1 z r]] by simp

lemma control_or_expire_ok:
  assumes "handler_ok P w res"
  shows "handler_ok P w (case res of
      (Ok _, z, w) \<Rightarrow> (Ok x, z, w)
    | (Err True, z, w) \<Rightarrow> expire_then (Err e) z w
    | (_, z, w) \<Rightarrow> (Err e', z, w))"
proof -
  obtain r z1 w1 where res: "res = (r, z1, w1)" by (cases res) auto
  note ok = handler_okD [OF assms [unfolded res]]
  show ?thesis using ok by (simp add: res handler_okI expire_then_from split: outcome.split bool.split)
qed

lemma acknowledge_ok:
  assumes "crypto_sized C" "handler_ok P w res"
  shows "handler_ok P w
     (case res of
        (Ok reduced, z, w) \<Rightarrow>
          (case send_control_perf C P' p (replicate HEADER_SIZE 0) z w of
             (Ok _, z, w) \<Rightarrow> (Ok (b, reduced), z, w)
           | (Err True, z, w) \<Rightarrow> expire_then (Err e) z w
           | (_, z, w) \<Rightarrow> (Err e', z, w))
      | (Err e, z, w) \<Rightarrow> (Err e, z, w)
      | (Panic, z, w) \<Rightarrow> (Panic, z, w)
      | (Diverge, z, w) \<Rightarrow> (Diverge, z, w))"
proof -
  obtain r z1 w1 where res: "res = (r, z1, w1)" by (cases res) auto
  note ok = handler_okD [OF assms(2) [unfolded res]]
  have "handler_ok P w1 (send_control_perf C P' p (replicate HEADER_SIZE 0) z1 w1)"
    by (rule send_control_perf_ok [OF assms(1) ok(4,3)]) simp
  note ctl = handler_ok_from [OF control_or_expire_ok [OF this] ok(5,6)]
  show ?thesis using ok by (cases r) (simp_all add: res handler_okI ctl)
qed

lemma received_c1_trans_perf_ok:
  assumes "settings_ok C" "world_ok P w" "session_ok P (generation w) z"
  shows "handler_ok P w (received_c1_trans_perf C P' A s kid n c1 z w)"
proof -
  obtain t c where t: "from_nonce n = (t, c)" by fastforce
  obtain ok z1 where z1: "window_update_perf z c = (ok, z1)" by fastforce
  note f = window_update_perf_full [OF assms(3) z1]
  have conf: "handler_ok P w (confirm_key_perf C A s z1 w)" if "is_pa3 (ps_beta z) \<or> is_pr2 (ps_beta z)"
    using confirm_key_perf_ok [OF assms(1,2), of z1 A s] f beta_keys(1) [of P "generation w" z1] that by simp
  show ?thesis using f conf t z1 assms(3) settings_sized [OF assms(1)]
    by (auto simp: received_c1_trans_perf_def handler_ok_return [OF assms(2)] control_or_expire_ok acknowledge_ok
        send_control_perf_ok [OF _ assms(2)] split: option.split)
qed

lemma received_c2_trans_perf_ok:
  assumes "settings_ok C" "world_ok P w" "session_ok P (generation w) z"
  shows "handler_ok P w (received_c2_trans_perf C A s kid n c2 z w)"
proof -
  obtain t c where t: "from_nonce n = (t, c)" by fastforce
  obtain ok z1 where z1: "window_update_perf z c = (ok, z1)" by fastforce
  note f = window_update_perf_full [OF assms(3) z1]
  have full: "key_full (key_ref_perf z False)" if "ps_beta z = PS1" using beta_keys(2) [OF assms(3)] that by simp
  then have "session_ok P (generation w) (z1\<lparr>ps_beta := PS2\<rparr>)" if "ps_beta z = PS1"
    using f that by (simp add: session_ok_def beta_ok_def)
  then show ?thesis using f t z1 assms(3) full
    by (auto simp: received_c2_trans_perf_def handler_ok_return [OF assms(2)] enter_s2_perf_ok [OF assms(1,2)] key_full_def
        split: option.split)
qed

lemma received_d_trans_perf_ok:
  assumes "world_ok P w" "session_ok P (generation w) z"
  shows "handler_ok P w (received_d_trans_perf C s kid n d z w)"
proof -
  obtain t c where t: "from_nonce n = (t, c)" by fastforce
  obtain ok z1 where z1: "window_update_perf z c = (ok, z1)" by fastforce
  show ?thesis using window_update_perf_full [OF assms(2) z1] t z1 assms(2) beta_keys(1) [OF assms(2)]
    by (auto simp: received_d_trans_perf_def handler_ok_return [OF assms(1)] expire_then_ok [OF assms(1)] key_full_def
        split: option.split)
qed

section \<open>Rekeying\<close>

lemma open_rekey_perf_ok:
  assumes "session_ok P g z" "key_full (key_ref_perf z False)" "open_rekey_perf C s n k z = (r, z1)"
  shows "r \<noteq> Panic \<and> session_ok P g z1 \<and> ps_beta z1 = ps_beta z \<and> (\<forall>b. key_ref_perf z1 b = key_ref_perf z b)"
proof -
  obtain t c where t: "from_nonce n = (t, c)" by fastforce
  obtain ok z2 where z2: "window_update_perf z c = (ok, z2)" by fastforce
  show ?thesis using window_update_perf_full [OF assms(1) z2] assms t z2
    by (auto simp: open_rekey_perf_def key_full_def Let_def split: option.splits if_splits prod.splits)
qed

lemma control_result_ok: "handler_ok P w res \<Longrightarrow> handler_ok P w (control_result s reduced res)"
  by (cases res) (auto simp: control_result_def handler_ok_def split: outcome.split bool.split)

lemma expire_if_caused_ok: "handler_ok P w res \<Longrightarrow> handler_ok P w (expire_if_caused res)"
  by (cases res) (auto simp: expire_if_caused_def dest: handler_okD intro: expire_then_from split: outcome.split)

lemma send_control_from:
  "crypto_sized C \<Longrightarrow> world_ok P w1 \<Longrightarrow> session_ok P (generation w) z \<Longrightarrow> px_heap w1 = px_heap w \<Longrightarrow>
   generation w1 = generation w \<Longrightarrow> HEADER_SIZE \<le> length payload \<Longrightarrow> handler_ok P w (send_control_perf C P' p payload z w1)"
  using handler_ok_from [OF send_control_perf_ok [of C P w1 z payload P' p]] by simp

lemma reschedule_from:
  assumes "world_ok P w1" "session_ok P (generation w) z" "px_heap w1 = px_heap w" "generation w1 = generation w"
  shows "\<exists>r w2. reschedule (ps_queue_idx z) t w1 = Some (r, w2) \<and> world_ok P w2 \<and> px_heap w2 = px_heap w \<and>
    generation w2 = generation w"
  using reschedule_works [OF assms(1), of "ps_queue_idx z" t] session_issued [of P w1 z] assms(2-4) by auto

lemma save_then_schedule:
  assumes "world_ok P w0" "px_heap w0 = px_heap w" "generation w0 = generation w" "session_ok P (generation w) z"
    "save_ratchet_perf A pk d u w0 = (saved, w1)" "time_perf A w1 = (now, w2)"
  shows "world_ok P w1" "px_heap w1 = px_heap w" "generation w1 = generation w"
    "\<exists>r w3. reschedule (ps_queue_idx z) t w2 = Some (r, w3) \<and> world_ok P w3 \<and> px_heap w3 = px_heap w \<and> generation w3 = generation w"
  using save_ratchet_perf_frame [OF assms(5)] time_perf_frame [OF assms(6)] reschedule_from [of P w2 w z t] assms(1-4) by simp_all

lemma session_ok_S1:
  assumes "session_ok P g z" "key_full (f (key_ref_perf z True))" "ratchet_wf r"
  shows "session_ok P g ((key_mut_perf z True f)\<lparr>ps_ratchet_state1 := r, ps_key_index := \<not> ps_key_index z, ps_key_creation_counter := c,
    ps_timeout_timer := t1, ps_resend_timer := t2, ps_beta := PS1\<rparr>)"
  using assms by (simp add: session_ok_def beta_ok_def) (simp add: key_ref_perf_def key_mut_perf_def)

lemma session_ok_R2:
  assumes "session_ok P g z" "key_full (key_ref_perf z False)" "key_full (f (g' (key_ref_perf z True)))" "ratchet_wf r" "rekey_sized k"
  shows "session_ok P g ((key_mut_perf (key_mut_perf z True g') True f)\<lparr>ps_ratchet_state2 := Some (ps_ratchet_state1 z), ps_ratchet_state1 := r,
    ps_key_creation_counter := c, ps_timeout_timer := t1, ps_resend_timer := t2, ps_beta := PR2 k\<rparr>)"
  using assms by (simp add: session_ok_def beta_ok_def)

lemma process_k2_perf_ok:
  assumes "settings_ok C" "world_ok P w" "session_ok P (generation w) z" "recv_kid_perf z True \<noteq> None"
  shows "handler_ok P w (process_k2_perf C P' A s noise e k2 z w)"
proof (cases "read_k2_perf C P' s e (ps_s_remote z) noise k2")
  case (Inr kn)
  then obtain kid noise' where r: "read_k2_perf C P' s e (ps_s_remote z) noise k2 = Inr (kid, noise')" by (cases kn) auto
  let ?new = "create_ratchet_state C noise' (rs_chain_len (ps_ratchet_state1 z))"
  let ?u = "cas_new ?new None True (ps_ratchet_state1 z) (ps_ratchet_state2 z) True True"
  obtain saved w1 where sv: "save_ratchet_perf A (ps_s_remote z) (ps_session_data z) ?u w = (saved, w1)" by fastforce
  obtain now w2 where t: "time_perf A w1 = (now, w2)" by fastforce
  note w1 = save_then_schedule [OF assms(2) refl refl assms(3) sv t]
  have full: "key_full (store_keys_perf kid ks ns kr nr (key_ref_perf z True))" for ks ns kr nr
    by (rule key_full_store) (use assms(4) in \<open>simp add: recv_kid_perf_def\<close>)
  note new = session_ok_S1 [where f = "store_keys_perf kid ks ns kr nr" for ks ns kr nr, OF assms(3) full
    create_ratchet_state_wf [OF settings_sized [OF assms(1)]]]
  obtain red w3 where w3: "reschedule (ps_queue_idx z) (after now (resend_time (SETTINGS C))) w2 = Some (red, w3)"
    "world_ok P w3" "px_heap w3 = px_heap w" "generation w3 = generation w"
    using w1(4) by blast
  show ?thesis
  proof (cases saved)
    case (Inr b)
    then show ?thesis
      using r sv t w1(1-3) assms(1,3) w3
      by (cases b) (simp_all add: process_k2_perf_def Let_def case_prod_beta handler_okI control_result_ok send_control_from new settings_sized)
  qed (use r sv w1 assms(3) in \<open>simp add: process_k2_perf_def handler_okI\<close>)
qed (use assms in \<open>simp add: process_k2_perf_def handler_ok_return\<close>)

lemma process_k1_perf_ok:
  assumes "settings_ok C" "world_ok P w" "session_ok P (generation w) z" "key_full (key_ref_perf z False)"
  shows "handler_ok P w (process_k1_perf C P' A s k1 z w)"
proof (cases "read_k1_perf C P' s (px_s_secret w) (ps_s_remote z) (ps_noise_kk_ss z) (rs_key (ps_ratchet_state1 z)) k1")
  case (Inr kn)
  then obtain kid e noise where r: "read_k1_perf C P' s (px_s_secret w) (ps_s_remote z) (ps_noise_kk_ss z)
    (rs_key (ps_ratchet_state1 z)) k1 = Inr (kid, e, noise)" by (cases kn) auto
  obtain noise1 k2 rng where k2: "write_k2_tokens_perf C (px_s_secret w) e noise (px_rng w) = (noise1, k2, rng)"
    by (cases "write_k2_tokens_perf C (px_s_secret w) e noise (px_rng w)") auto
  show ?thesis
  proof (cases "remap_perf C s z (w\<lparr>px_rng := rng\<rparr>)")
    case None
    then show ?thesis using r k2 assms(2,3) by (simp add: process_k1_perf_def handler_okI)
  next
    case (Some kw)
    then obtain kid' w0 where m: "remap_perf C s z (w\<lparr>px_rng := rng\<rparr>) = Some (kid', w0)" by (cases kw) auto
    obtain noise2 k3 where k3: "write_k2_payload_perf C P' noise1 k2 kid' = (noise2, k3)" by fastforce
    have sized: "rekey_sized k3"
      using write_k2_perf_length [OF settings_sized [OF assms(1)], of P' noise1 "px_s_secret w" e noise "px_rng w" kid'] k2 k3
      by (simp add: rekey_sized_def)
    let ?new = "create_ratchet_state C noise2 (rs_chain_len (ps_ratchet_state1 z))"
    let ?u = "cas_new ?new (Some (ps_ratchet_state1 z)) True (ps_ratchet_state1 z) (ps_ratchet_state2 z) False True"
    obtain saved w1 where sv: "save_ratchet_perf A (ps_s_remote z) (ps_session_data z) ?u w0 = (saved, w1)" by fastforce
    obtain now w2 where t: "time_perf A w1 = (now, w2)" by fastforce
    have w0: "world_ok P w0" "px_heap w0 = px_heap w" "generation w0 = generation w"
      using remap_perf_frame [OF m] assms(2) by simp_all
    note w1 = save_then_schedule [OF w0 assms(3) sv t]
    have full: "key_full (set_recv_kid_perf kid' (store_keys_perf kid ks ns kr nr (key_ref_perf z True)))" for ks ns kr nr
      by (simp add: key_full_def store_keys_perf_def replace_nk_def replace_keks_def replace_kek_def set_send_kid_perf_def set_recv_kid_perf_def)
    note new = session_ok_R2 [where g' = "store_keys_perf kid ks ns kr nr" and f = "set_recv_kid_perf kid'" for ks ns kr nr, OF assms(3,4) full
      create_ratchet_state_wf [OF settings_sized [OF assms(1)]] sized]
    obtain red w3 where w3: "reschedule (ps_queue_idx z) (after now (resend_time (SETTINGS C))) w2 = Some (red, w3)"
      "world_ok P w3" "px_heap w3 = px_heap w" "generation w3 = generation w"
      using w1(4) by blast
    show ?thesis
    proof (cases saved)
      case (Inr b)
      then show ?thesis
        using r k2 k3 m sv t w1(1-3) assms(1,3) w3 sized
        by (cases b) (simp_all add: process_k1_perf_def Let_def case_prod_beta handler_okI control_result_ok send_control_from new
          settings_sized rekey_sized_def)
    qed (use r k2 k3 m sv w1 assms(3) in \<open>simp add: process_k1_perf_def handler_okI\<close>)
  qed
qed (use assms in \<open>simp add: process_k1_perf_def handler_ok_return\<close>)

lemma received_k1_trans_perf_ok:
  assumes "settings_ok C" "world_ok P w" "session_ok P (generation w) z"
  shows "handler_ok P w (received_k1_trans_perf C P' A s kid n k1 z w)"
proof -
  obtain r z1 where o: "open_rekey_perf C s n k1 z = (r, z1)" by fastforce
  have full: "key_full (key_ref_perf z False)" if "ps_beta z = PS2 \<or> (\<exists>a b c. ps_beta z = PR1 a b c)"
    using that beta_keys(2,3) [OF assms(3)] by blast
  have ok: "r \<noteq> Panic" "session_ok P (generation w) z1" "key_full (key_ref_perf z1 False)"
    if "ps_beta z = PS2 \<or> (\<exists>a b c. ps_beta z = PR1 a b c)"
    using open_rekey_perf_ok [OF assms(3) full [OF that] o] full [OF that] by simp_all
  show ?thesis using o ok assms
    by (cases "ps_beta z"; cases r)
      (simp_all add: received_k1_trans_perf_def Let_def handler_ok_return [OF assms(2)] expire_if_caused_ok process_k1_perf_ok)
qed

lemma received_k2_trans_perf_ok:
  assumes "settings_ok C" "world_ok P w" "session_ok P (generation w) z"
  shows "handler_ok P w (received_k2_trans_perf C P' A s kid n k2 z w)"
proof (cases "ps_beta z")
  case (PR1 noise e k1)
  obtain r z1 where o: "open_rekey_perf C s n k2 z = (r, z1)" by fastforce
  have "key_full (key_ref_perf z False)" "recv_kid_perf z True \<noteq> None" using beta_keys(3) [OF assms(3) PR1] by simp_all
  with open_rekey_perf_ok [OF assms(3) this(1) o]
  have "r \<noteq> Panic" "session_ok P (generation w) z1" "recv_kid_perf z1 True \<noteq> None" by (simp_all add: recv_kid_perf_def)
  then show ?thesis using o PR1 assms
    by (cases r) (simp_all add: received_k2_trans_perf_def handler_ok_return [OF assms(2)] expire_if_caused_ok process_k2_perf_ok)
qed (use assms in \<open>simp_all add: received_k2_trans_perf_def handler_ok_return\<close>)

section \<open>The handshake of the initiator\<close>

lemma finish_x2_perf_ok:
  assumes "settings_ok C" "world_ok P w" "session_ok P (generation w) z" "ps_beta z = PA1 a1"
  shows "handler_ok P w (finish_x2_perf C P' A s a1 e kid i cl noise z w)"
    "finish_x2_perf C P' A s a1 e kid i cl noise z w = (Ok (x3, red), z', w') \<Longrightarrow> MIN_PACKET_SIZE \<le> length x3"
proof -
  have id: "length (ap_identity a1) \<le> IDENTITY_MAX_SIZE" "recv_kid_perf z True \<noteq> None"
    using assms(3,4) by (simp_all add: session_ok_def beta_ok_def)
  obtain noise1 x where x: "write_x3_perf C (px_s_secret w) e (ap_identity a1) noise = (noise1, x)" by fastforce
  have lx: "length x = HEADER_SIZE + (HANDSHAKE_COMPLETION_MIN_SIZE + length (ap_identity a1))"
    using write_x3_perf_length [OF settings_sized [OF assms(1)], of "px_s_secret w" e "ap_identity a1" noise] x by simp
  let ?x = "set_header P' x kid (to_nonce PACKET_TYPE_HANDSHAKE_COMPLETION 0)"
  have lh: "length ?x = length x" using lx by (simp add: zssp_sizes)
  let ?new = "create_ratchet_state C noise1 cl"
  let ?u = "cas_new ?new (if i = 1 then Some (ps_ratchet_state1 z) else ps_ratchet_state2 z) True
    (ps_ratchet_state1 z) (ps_ratchet_state2 z) (i = 2) (i = 1)"
  obtain saved w1 where sv: "save_ratchet_perf A (ps_s_remote z) (ps_session_data z) ?u w = (saved, w1)" by fastforce
  obtain now w2 where t: "time_perf A w1 = (now, w2)" by fastforce
  note w1 = save_then_schedule [OF assms(2) refl refl assms(3) sv t]
  have full: "key_full (store_keys_perf kid ks ns kr nr (key_ref_perf z True))" for ks ns kr nr
    by (rule key_full_store) (use id(2) in \<open>simp add: recv_kid_perf_def\<close>)
  obtain rd w3 where w3: "reschedule (ps_queue_idx z) (after now (resend_time (SETTINGS C))) w2 = Some (rd, w3)"
    "world_ok P w3" "px_heap w3 = px_heap w" "generation w3 = generation w"
    using w1(4) by blast
  have new: "session_ok P (generation w) ((key_mut_perf z True (store_keys_perf kid ks ns kr nr))\<lparr>ps_ratchet_state2 := Some (ps_ratchet_state1 z),
    ps_ratchet_state1 := ?new, ps_key_creation_counter := c, ps_resend_timer := t1, ps_timeout_timer := t2,
    ps_beta := PA3 (ap_identity a1) ?x\<rparr>)" for ks ns kr nr c t1 t2
    using assms(3) full id lh lx create_ratchet_state_wf [OF settings_sized [OF assms(1)]] by (simp add: session_ok_def beta_ok_def)
  have "handler_ok P w (finish_x2_perf C P' A s a1 e kid i cl noise z w) \<and>
     (finish_x2_perf C P' A s a1 e kid i cl noise z w = (Ok (x3, red), z', w') \<longrightarrow> MIN_PACKET_SIZE \<le> length x3)"
  proof (cases saved)
    case (Inr b)
    have m: "MIN_PACKET_SIZE \<le> length ?x" using lh lx by (simp add: zssp_sizes)
    show ?thesis using m Inr x sv t w1(1-3) assms(1,3) w3
      by (cases b) (auto simp: finish_x2_perf_def Let_def case_prod_beta handler_okI new)
  qed (use x sv w1 assms(3) in \<open>simp add: finish_x2_perf_def handler_okI\<close>)
  then show "handler_ok P w (finish_x2_perf C P' A s a1 e kid i cl noise z w)"
    "finish_x2_perf C P' A s a1 e kid i cl noise z w = (Ok (x3, red), z', w') \<Longrightarrow> MIN_PACKET_SIZE \<le> length x3" by simp_all
qed

lemma process_x2_perf_ok:
  assumes "settings_ok C" "world_ok P w" "session_ok P (generation w) z" "ps_beta z = PA1 a1"
    "process_x2_perf C P' A s x2 a1 z w = (warn, res)"
  shows "handler_ok P w res" "res = (Ok (x3, red), z', w') \<Longrightarrow> MIN_PACKET_SIZE \<le> length x3"
proof -
  have fin: "handler_ok P w (finish_x2_perf C P' A s a1 e kid i cl noise z (w\<lparr>pw_app := a\<rparr>))"
    "finish_x2_perf C P' A s a1 e kid i cl noise z (w\<lparr>pw_app := a\<rparr>) = (Ok (x3, red), z', w') \<Longrightarrow> MIN_PACKET_SIZE \<le> length x3"
    for e kid i cl noise a
    using finish_x2_perf_ok [OF assms(1), of P "w\<lparr>pw_app := a\<rparr>" z a1] assms(2-4) by (simp_all add: handler_ok_def)
  have "handler_ok P w res \<and> (res = (Ok (x3, red), z', w') \<longrightarrow> MIN_PACKET_SIZE \<le> length x3)"
    using assms(2,3,5) fin by (auto simp: process_x2_perf_def Let_def handler_okI split: sum.splits prod.splits option.splits)
  then show "handler_ok P w res" "res = (Ok (x3, red), z', w') \<Longrightarrow> MIN_PACKET_SIZE \<le> length x3" by simp_all
qed

lemma received_x2_trans_perf_ok:
  assumes "settings_ok C" "world_ok P w" "session_ok P (generation w) z"
  shows "handler_ok P w (received_x2_trans_perf C P' A s kid n x2 z w)"
proof (cases "ps_beta z")
  case (PA1 a1)
  obtain warn r z1 w1 where p: "process_x2_perf C P' A s x2 a1 z w = (warn, r, z1, w1)"
    by (cases "process_x2_perf C P' A s x2 a1 z w") auto
  note ok = handler_okD [OF process_x2_perf_ok(1) [OF assms PA1 p]]
  have sent: "r = Ok (x3, red) \<Longrightarrow> MIN_PACKET_SIZE \<le> length x3" for x3 red
    using process_x2_perf_ok(2) [OF assms PA1 p] by simp
  obtain now w2 where t: "time_perf A w1 = (now, w2)" by fastforce
  have "world_ok P w2" "px_heap w2 = px_heap w" "generation w2 = generation w" using time_perf_frame [OF t] ok by simp_all
  then show ?thesis using PA1 p ok sent t assms(3)
    by (auto simp: received_x2_trans_perf_def Let_def handler_ok_return [OF assms(2)] handler_okI
        split: outcome.split receive_error_perf.split prod.split)
qed (use assms in \<open>simp_all add: received_x2_trans_perf_def handler_ok_return split: prod.split\<close>)

lemma restart_a1_perf_ok:
  assumes "settings_ok C" "world_ok P w" "session_ok P (generation w) z" "length ident \<le> IDENTITY_MAX_SIZE"
  shows "handler_ok P w (restart_a1_perf C P' s ident now z w)"
proof (cases "remap_perf C s z w")
  case (Some kw)
  then obtain kid w0 where m: "remap_perf C s z w = Some (kid, w0)" by (cases kw) auto
  have w0: "world_ok P w0" "px_heap w0 = px_heap w" "generation w0 = generation w"
    using remap_perf_frame [OF m] assms(2) by simp_all
  obtain a1 rng where a1: "create_a1_state_perf C P' (px_rng w0) (ps_s_remote z) kid (ps_ratchet_state1 z) (ps_ratchet_state2 z) ident
    = (a1, rng)" by fastforce
  have r: "ratchet_wf (ps_ratchet_state1 z)" "pred_option ratchet_wf (ps_ratchet_state2 z)" using assms(3) by (simp_all add: session_ok_def)
  have sized: "length (ap_x1 a1) = HEADER_SIZE + HANDSHAKE_HELLO_CHALLENGE_SIZE" "ap_identity a1 = ident"
    using create_a1_state_perf_sized [OF settings_sized [OF assms(1)] r, of P' "px_rng w0" "ps_s_remote z" kid ident] a1 by simp_all
  have "MIN_PACKET_SIZE \<le> length (ap_x1 a1)" by (simp add: sized zssp_sizes)
  then show ?thesis using m w0 a1 assms(3,4) sized
    by (simp add: restart_a1_perf_def Let_def case_prod_beta handler_ok_def session_ok_def beta_ok_def recv_kid_perf_def)
qed (use assms in \<open>simp add: restart_a1_perf_def handler_ok_return\<close>)

lemma control_timer_ok: "handler_ok P w res \<Longrightarrow> handler_ok P w (control_timer t res)"
  by (cases res) (auto simp: control_timer_def handler_ok_def split: outcome.split bool.split)

lemma start_rekey_perf_ok:
  assumes "settings_ok C" "world_ok P w" "session_ok P (generation w) z" "ps_beta z = PS2"
  shows "handler_ok P w (start_rekey_perf C P' s now z w)"
proof (cases "remap_perf C s z w")
  case (Some kw)
  then obtain kid w0 where m: "remap_perf C s z w = Some (kid, w0)" by (cases kw) auto
  have w0: "world_ok P w0" "px_heap w0 = px_heap w" "generation w0 = generation w"
    using remap_perf_frame [OF m] assms(2) by simp_all
  obtain noise e k1 rng where k: "create_k1_perf C P' (px_s_secret w0) (ps_s_remote z) (ps_noise_kk_ss z) (rs_key (ps_ratchet_state1 z))
    (px_rng w0) kid = (noise, e, k1, rng)"
    by (cases "create_k1_perf C P' (px_s_secret w0) (ps_s_remote z) (ps_noise_kk_ss z) (rs_key (ps_ratchet_state1 z)) (px_rng w0) kid") auto
  have sized: "rekey_sized k1"
    using create_k1_perf_length [OF settings_sized [OF assms(1)], of P' "px_s_secret w0" "ps_s_remote z" "ps_noise_kk_ss z"
      "rs_key (ps_ratchet_state1 z)" "px_rng w0" kid] k by (simp add: rekey_sized_def)
  have full: "key_full (key_ref_perf z False)" using beta_keys(2) [OF assms(3)] assms(4) by simp
  have "session_ok P (generation w) ((key_mut_perf z True (set_recv_kid_perf kid))\<lparr>ps_timeout_timer := t1, ps_resend_timer := t2,
    ps_beta := PR1 noise e k1\<rparr>)" for t1 t2
    using assms(3) full sized by (simp add: session_ok_def beta_ok_def recv_kid_perf_def)
  then show ?thesis using m w0 k sized settings_sized [OF assms(1)]
    by (simp add: start_rekey_perf_def Let_def control_timer_ok send_control_from rekey_sized_def)
qed (use assms in \<open>simp add: start_rekey_perf_def handler_ok_return\<close>)

lemma timeout_trans_perf_ok:
  assumes "settings_ok C" "world_ok P w" "session_ok P (generation w) z"
  shows "handler_ok P w (timeout_trans_perf C P' s now z w)"
  using assms
  by (cases "ps_beta z")
    (simp_all add: timeout_trans_perf_def handler_ok_return start_rekey_perf_ok restart_a1_perf_ok session_ok_def beta_ok_def)

lemma process_timers_ok:
  assumes "settings_ok C" "world_ok P w" "session_ok P (generation w) z"
  shows "handler_ok P w (process_timers C P' s now z w)"
proof -
  have b: "beta_ok z" using assms(3) by (simp add: session_ok_def)
  show ?thesis using b assms
    by (cases "ps_beta z")
      (simp_all add: process_timers_def Let_def timeout_trans_perf_ok handler_ok_return handler_okI beta_ok_def control_timer_ok
        send_control_from settings_sized rekey_sized_def zssp_sizes)
qed

section \<open>Data and challenges\<close>

lemma send_payload_perf_ok:
  assumes "world_ok P w" "session_ok P (generation w) z" "send_payload_perf C P' send mtu p z w = (wire, res)"
  shows "handler_ok P w res"
proof (cases "mtu < MIN_TRANSPORT_MTU \<or> ps_beta z = PNull")
  case True
  then show ?thesis using assms by (auto simp: send_payload_perf_def handler_ok_return split: if_splits)
next
  case False
  obtain r z1 where g: "get_counter_perf C z = (r, z1)" by fastforce
  have z1: "session_ok P (generation w) z1" by (rule get_counter_perf_ok [OF assms(2) g])
  have q: "(length p + AES_GCM_TAG_SIZE + (mtu - Suc HEADER_SIZE)) div (mtu - HEADER_SIZE) = fragment_count_perf mtu p"
    by (simp add: fragment_count_perf_def)
  have f: "send_fragments_perf C P' send pool hk kid nonce (fragment_count_perf mtu p) p mtu \<noteq> None" for pool hk kid nonce
    by (rule send_fragments_perf_works) (use False in simp)
  obtain red w1 where w1: "reschedule (ps_queue_idx z1) I64_MIN w = Some (red, w1)" "world_ok P w1" "px_heap w1 = px_heap w"
    "generation w1 = generation w"
    using reschedule_from [OF assms(1) z1 refl refl] by blast
  show ?thesis
  proof (cases r)
    case None
    then show ?thesis using False g assms(3) expire_then_ok [OF assms(1) z1] by (auto simp: send_payload_perf_def)
  next
    case (Some cr)
    then show ?thesis using False g assms(3) z1 w1
      by (auto simp: f send_payload_perf_def Let_def q handler_ok_return [OF assms(1)] handler_okI split: option.splits if_splits prod.splits bool.splits)
  qed
qed

lemma receive_payload_in_place_ok:
  assumes "session_ok P g z" "receive_payload_in_place P' out s kid n fs z = (written, r, z')"
    "fs \<noteq> []" "\<forall>f \<in> set fs. MIN_PACKET_SIZE \<le> length f"
  shows "r \<noteq> Panic \<and> session_ok P g z'"
proof -
  obtain t c where t: "from_nonce n = (t, c)" by fastforce
  obtain ok z1 where z1: "window_update_perf z c = (ok, z1)" by fastforce
  note f = window_update_perf_full [OF assms(1) z1]
  have "HEADER_SIZE \<le> MIN_PACKET_SIZE" by (simp add: zssp_sizes)
  then have "\<not> list_ex (\<lambda>f. length f < HEADER_SIZE) fs" "\<not> length (last fs) < HEADER_SIZE + AES_GCM_TAG_SIZE"
    using assms(4) bspec [OF assms(4) last_in_set [OF assms(3)]] by (auto simp: list_ex_iff MIN_PACKET_SIZE_def)
  then show ?thesis using assms t z1 f
    by (auto simp: receive_payload_in_place_def Let_def case_prod_beta split: option.splits if_splits)
qed

lemma respond_to_challenge_perf_ok:
  assumes "world_ok P w" "session_ok P (generation w) z" "length ch = CHALLENGE_SIZE"
  shows "handler_ok P w (respond_to_challenge_perf C P' ch z w)"
proof (cases "ps_beta z")
  case (PA1 a1)
  have b: "length (ap_x1 a1) = HEADER_SIZE + HANDSHAKE_HELLO_CHALLENGE_SIZE" "length (ap_identity a1) \<le> IDENTITY_MAX_SIZE" "recv_kid_perf z True \<noteq> None"
    using assms(2) PA1 by (simp_all add: session_ok_def beta_ok_def)
  let ?i = "length (ap_x1 a1) - CHALLENGE_SIZE"
  have l: "\<not> length (ap_x1 a1) < CHALLENGE_SIZE" using b(1) by (simp add: zssp_sizes)
  have r: "length resp = 32" if "respond_to_challenge_in_place_perf (pl_big_endian P') C (px_rng w) ch (drop ?i (ap_x1 a1)) = Some (resp, rng)"
    for resp rng
    using that pow_search_perf_length [of "pl_big_endian P'" C ch] assms(3) l
    by (auto simp: respond_to_challenge_in_place_perf_def zssp_sizes split: if_splits prod.splits)
  have "session_ok P (generation w) (z\<lparr>ps_beta := PA1 (a1\<lparr>ap_x1 := take ?i (ap_x1 a1) @ resp\<rparr>)\<rparr>)" if "length resp = 32" for resp
    using assms(2) b that l by (simp add: session_ok_def beta_ok_def recv_kid_perf_def) (simp add: zssp_sizes)
  note ok = this
  show ?thesis
  proof (cases "respond_to_challenge_in_place_perf (pl_big_endian P') C (px_rng w) ch (drop ?i (ap_x1 a1))")
    case None
    then show ?thesis using PA1 l assms(1,2) by (simp add: respond_to_challenge_perf_def handler_okI)
  next
    case (Some rr)
    then obtain resp rng where rr: "respond_to_challenge_in_place_perf (pl_big_endian P') C (px_rng w) ch (drop ?i (ap_x1 a1)) = Some (resp, rng)"
      by (cases rr) auto
    then show ?thesis using PA1 l assms(1) ok [OF r [OF rr]] by (simp add: respond_to_challenge_perf_def handler_okI)
  qed
qed (use assms in \<open>simp_all add: respond_to_challenge_perf_def handler_ok_return\<close>)

end
