(* ===== verification/Perf_Calls.thy ===== *)
theory Perf_Calls
  imports Perf_Safety
begin

text \<open>
  The branches of \<open>receive\<close> and \<open>open\<close> of the performance crate keep the context well formed and do
  not panic: new sessions, hello and challenge packets, packets for a pending handshake and
  packets for a session.
\<close>

section \<open>Calls of the context\<close>

definition call_ok ::
  "platform \<Rightarrow> ('e, 'x) outcome \<times> ('pk, 'kp, 'r, 'kem, 'd, 'fd, 'a) pworld \<Rightarrow> bool" where
  "call_ok P res \<longleftrightarrow> fst res \<noteq> Panic \<and> world_ok P (snd res)"

lemma call_okI [intro]: "r \<noteq> Panic \<Longrightarrow> world_ok P w \<Longrightarrow> call_ok P (r, w)"
  by (simp add: call_ok_def)

lemma call_ok_pair [simp]: "call_ok P (r, w) \<longleftrightarrow> r \<noteq> Panic \<and> world_ok P w"
  by (simp add: call_ok_def)

lemma session_ok_mono: "session_ok P g z \<Longrightarrow> g \<le> g' \<Longrightarrow> session_ok P g' z"
  unfolding session_ok_def by (meson order_trans)

lemma stored_ok: "world_ok P w \<Longrightarrow> px_heap w s = Some z \<Longrightarrow> session_ok P (generation w) z"
  by (simp add: world_ok_def)

lemma handler_put: "handler_ok P w res \<Longrightarrow> world_ok P (put_session s (fst (snd res)) (snd (snd res)))"
  by (cases res) (auto intro: world_ok_put dest: handler_okD)

lemma handler_returns: "handler_ok P w res \<Longrightarrow> fst res \<noteq> Panic"
  by (cases res) (auto simp: handler_ok_def)

lemma flush_perf_ok:
  assumes "crypto_sized C" "world_ok P w"
  shows "\<exists>wire. flush_perf C sender (r, w) = (r, wire, w\<lparr>pw_sent := []\<rparr>)" "world_ok P (w\<lparr>pw_sent := []\<rparr>)"
  using flush_perf_works [OF assms(1)] assms(2) by (auto simp: world_ok_def)

lemma flush_call_ok:
  assumes "crypto_sized C" "call_ok P rw" "flush_perf C sender rw = (r, wire, w)"
  shows "call_ok P (r, w)"
  using assms flush_perf_ok(1) [OF assms(1), of P "snd rw" sender "fst rw"] flush_perf_ok(2) [OF assms(1), of P "snd rw"]
  by (cases rw) (auto simp: call_ok_def)

section \<open>New sessions\<close>

lemma reserve_ok:
  assumes "world_ok P w" "heap_room (px_session_queue w)"
  obtains idx q where "reserve_index (px_session_queue w) = Some (idx, q)" "world_ok P (w\<lparr>px_session_queue := q\<rparr>)"
    "fst idx < length (ih_map q)" "snd (ih_map q ! fst idx) = RESERVED_MARKER" "2 \<le> snd idx" "snd idx \<le> ih_generation q"
proof -
  have wf: "heap_wf (px_session_queue w)" using assms(1) by (simp add: world_ok_def)
  obtain idx q where q: "reserve_index (px_session_queue w) = Some (idx, q)" "heap_wf q"
    "ih_generation q = ih_generation (px_session_queue w) + 1" "snd idx = ih_generation (px_session_queue w) + 1" "2 \<le> snd idx"
    "fst idx < length (ih_map q)" "snd (ih_map q ! fst idx) = RESERVED_MARKER"
    using reserve_index_works [OF wf] assms(2) unfolding heap_room_def by blast
  have "generation w \<le> ih_generation q" using generation_step assms(2) wf
    unfolding q(3) generation_def heap_room_def heap_wf_def table_wf_def by blast
  then have "world_ok P (w\<lparr>px_session_queue := q\<rparr>)" using assms(1) q(2) by (auto simp: world_ok_def intro: session_ok_mono)
  moreover have "snd idx \<le> ih_generation q" by (simp only: q(3,4) order_refl)
  ultimately show thesis by (rule that [OF q(1) _ q(6,7,5)])
qed

lemma register_perf_ok:
  assumes "world_ok P w" "session_ok P (generation w) z"
    "fst (ps_queue_idx z) < length (ih_map (px_session_queue w))" "snd (ih_map (px_session_queue w) ! fst (ps_queue_idx z)) = RESERVED_MARKER"
  shows "\<exists>red w'. register_perf kid t z w = Some (px_next_session w, red, w') \<and> world_ok P w' \<and> generation w' = generation w \<and>
    px_heap w' (px_next_session w) = Some z"
proof -
  have wf: "heap_wf (px_session_queue w)" using assms(1) by (simp add: world_ok_def)
  obtain q where q: "push_reserved (px_session_queue w) (ps_queue_idx z) (px_next_session w) (Reverse t) = Some (True, q)" "heap_wf q"
    "ih_generation q = ih_generation (px_session_queue w)"
    using push_reserved_works [OF wf assms(3,4), of "px_next_session w" "Reverse t"] assms(2) unfolding session_ok_def generation_def by blast
  let ?w = "w\<lparr>px_session_queue := q, px_session_map := (px_session_map w)(kid \<mapsto> px_next_session w),
    px_heap := (px_heap w)(px_next_session w \<mapsto> z), px_next_session := Suc (px_next_session w)\<rparr>"
  have w: "world_ok P ?w" "generation ?w = generation w"
    using assms(1,2) q(2,3) by (simp_all add: world_ok_def generation_def)
  show ?thesis using q(1) w reduce_next_service_time_frame [of t ?w]
    by (cases "reduce_next_service_time t ?w") (simp add: register_perf_def Let_def)
qed

lemma defrag_new_ok: "defrag_ok P (fragged_new MAX_FRAGMENTS)"
proof -
  have "held (fragged_new MAX_FRAGMENTS :: bytes fragged) = {}" "length (fg_frags (fragged_new MAX_FRAGMENTS :: bytes fragged)) = MAX_FRAGMENTS"
    by (simp_all add: held_def fragged_new_def)
  then show ?thesis using fragged_new_wf [of MAX_FRAGMENTS] by (simp add: defrag_ok_def)
qed

lemma new_a1_session_ok:
  assumes "ratchet_wf (rss_state1 rss)" "pred_option ratchet_wf (rss_state2 rss)" "2 \<le> snd idx" "snd idx \<le> g"
    "length (ap_x1 a1) = HEADER_SIZE + HANDSHAKE_HELLO_CHALLENGE_SIZE" "length (ap_identity a1) \<le> IDENTITY_MAX_SIZE"
  shows "session_ok P g (key_mut_perf (new_a1_session C d s rss hr hs ss idx now a1) True (set_recv_kid_perf kid))"
  using assms defrag_new_ok
  by (simp add: session_ok_def beta_ok_def) (simp add: new_a1_session_def window_new_def recv_kid_perf_def)

lemma new_bob_session_ok:
  assumes "ratchet_wf rs" "2 \<le> snd idx" "snd idx \<le> g"
  shows "session_ok P g (new_bob_session C b2 d s rs ss idx now ks kr ns nr)"
  using assms defrag_new_ok
  by (simp add: session_ok_def beta_ok_def new_bob_session_def Let_def window_new_def)
    (simp add: key_full_def replace_keks_def replace_kek_def replace_nk_def set_send_kid_perf_def set_recv_kid_perf_def)

definition restores_sized :: "('pk, 'd, 'fd, 'a) application_perf \<Rightarrow> bool" where
  "restores_sized A \<longleftrightarrow> (\<forall>pk d l a rss a'. pa_restore_by_identity A pk d l a = (Inr (Some rss), a') \<longrightarrow>
     ratchet_wf (rss_state1 rss) \<and> pred_option ratchet_wf (rss_state2 rss))"

lemma trans_to_a1_perf_ok:
  assumes "settings_ok C" "world_ok P w" "heap_room (px_session_queue w)" "length ident \<le> IDENTITY_MAX_SIZE"
    "ratchet_wf (rss_state1 rss)" "pred_option ratchet_wf (rss_state2 rss)"
  shows "call_ok P (trans_to_a1_perf C P' A s_remote d ident rss w)"
proof (cases "gen_kid C (px_session_map w) (px_rng w)")
  case (Some kr)
  then obtain kid rng where g: "gen_kid C (px_session_map w) (px_rng w) = Some (kid, rng)" by (cases kr) auto
  obtain a1 rng1 where a1: "create_a1_state_perf C P' rng s_remote kid (rss_state1 rss) (rss_state2 rss) ident = (a1, rng1)" by fastforce
  have sized: "length (ap_x1 a1) = HEADER_SIZE + HANDSHAKE_HELLO_CHALLENGE_SIZE" "length (ap_identity a1) \<le> IDENTITY_MAX_SIZE"
    using create_a1_state_perf_sized [OF settings_sized [OF assms(1)] assms(5,6), of P' rng s_remote kid ident] a1 assms(4) by simp_all
  obtain now w1 where t: "time_perf A (w\<lparr>px_rng := rng1\<rparr>) = (now, w1)" by fastforce
  have w1: "world_ok P w1" "px_session_queue w1 = px_session_queue w" using time_perf_frame [OF t] assms(2) by simp_all
  obtain idx q where q: "reserve_index (px_session_queue w1) = Some (idx, q)" "world_ok P (w1\<lparr>px_session_queue := q\<rparr>)"
    "fst idx < length (ih_map q)" "snd (ih_map q ! fst idx) = RESERVED_MARKER" "2 \<le> snd idx" "snd idx \<le> ih_generation q"
    using reserve_ok [OF w1(1)] assms(3) w1(2) by metis
  let ?ask = "get_ask_perf C (ap_noise a1) LABEL_HEADER_KEY"
  let ?z = "key_mut_perf (new_a1_session C d s_remote rss (fst ?ask) (snd ?ask) (kp_agree C (px_s_secret (w\<lparr>px_rng := rng1\<rparr>)) s_remote) idx now a1)
    True (set_recv_kid_perf kid)"
  have z: "session_ok P (generation (w1\<lparr>px_session_queue := q\<rparr>)) ?z" "ps_queue_idx ?z = idx"
    using new_a1_session_ok [OF assms(5,6) q(5) _ sized] q(6) by (simp_all add: new_a1_session_def)
  obtain red w2 where w2: "register_perf kid (after now (resend_time (SETTINGS C))) ?z (w1\<lparr>px_session_queue := q\<rparr>) =
      Some (px_next_session w1, red, w2)" "world_ok P w2"
    using register_perf_ok [OF q(2) z(1), of kid "after now (resend_time (SETTINGS C))"] z(2) q(3,4) by auto
  have "MIN_PACKET_SIZE \<le> length (ap_x1 a1)" by (simp add: sized zssp_sizes)
  then show ?thesis using g a1 t q(1) w2 by (simp add: trans_to_a1_perf_def Let_def case_prod_beta)
qed (use assms in \<open>simp add: trans_to_a1_perf_def\<close>)

lemma accept_x3_perf_ok:
  assumes "settings_ok C" "world_ok P w" "heap_room (px_session_queue w)"
  shows "call_ok P (accept_x3_perf C P' A b2 d s_remote rss ks kr noise warn w)"
proof -
  let ?new = "create_ratchet_state C noise (rs_chain_len (pb_ratchet_state b2))"
  let ?u = "cas_new ?new None True (rss_state1 rss) (rss_state2 rss) True True"
  obtain saved w0 where sv: "save_ratchet_perf A s_remote d ?u w = (saved, w0)" by fastforce
  have w0: "world_ok P w0" "px_session_queue w0 = px_session_queue w" using save_ratchet_perf_frame [OF sv] assms(2) by simp_all
  obtain idx q where q: "reserve_index (px_session_queue w0) = Some (idx, q)" "world_ok P (w0\<lparr>px_session_queue := q\<rparr>)"
    "fst idx < length (ih_map q)" "snd (ih_map q ! fst idx) = RESERVED_MARKER" "2 \<le> snd idx" "snd idx \<le> ih_generation q"
    using reserve_ok [OF w0(1)] assms(3) w0(2) by metis
  obtain now w1 where t: "time_perf A (w0\<lparr>px_session_queue := q\<rparr>) = (now, w1)" by fastforce
  have w1: "world_ok P w1" "px_session_queue w1 = q" "generation w1 = ih_generation q" using time_perf_frame [OF t] q(2) by simp_all
  let ?z = "new_bob_session C b2 d s_remote ?new (kp_agree C (px_s_secret w) s_remote) idx now ks kr (fst (split_perf C noise)) (snd (split_perf C noise))"
  have z: "session_ok P (generation w1) ?z" "ps_queue_idx ?z = idx"
    using new_bob_session_ok [OF create_ratchet_state_wf [OF settings_sized [OF assms(1)]] q(5)] q(6) w1(3)
    by (simp_all add: new_bob_session_def Let_def)
  obtain red w2 where w2: "register_perf (pb_kid_recv b2) (after now (resend_time (SETTINGS C))) ?z w1 = Some (px_next_session w1, red, w2)"
    "world_ok P w2" "generation w2 = generation w1"
    using register_perf_ok [OF w1(1) z(1), of "pb_kid_recv b2" "after now (resend_time (SETTINGS C))"] z(2) q(3,4) w1(2) by auto
  have "handler_ok P w2 (send_control_perf C P' PACKET_TYPE_KEY_CONFIRM (replicate HEADER_SIZE 0) ?z w2)"
    by (rule send_control_perf_ok [OF settings_sized [OF assms(1)] w2(2)]) (use z(1) w2(3) in simp_all)
  then have "world_ok P (put_session (px_next_session w1) (fst (snd (send_control_perf C P' PACKET_TYPE_KEY_CONFIRM (replicate HEADER_SIZE 0) ?z w2)))
    (snd (snd (send_control_perf C P' PACKET_TYPE_KEY_CONFIRM (replicate HEADER_SIZE 0) ?z w2))))"
    by (rule handler_put)
  then show ?thesis using sv q(1) w0 t w2(1)
    by (cases saved) (auto simp: accept_x3_perf_def Let_def case_prod_beta put_session_def split: bool.split)
qed

lemma reject_x3_perf_ok: "crypto_sized C \<Longrightarrow> world_ok P w \<Longrightarrow> world_ok P (reject_x3_perf C P' b2 kek silent w)"
  using create_reject_perf_length [of C P' b2 kek] by (simp add: reject_x3_perf_def zssp_sizes)

lemma received_x3_trans_perf_ok:
  assumes "settings_ok C" "world_ok P w" "heap_room (px_session_queue w)"
  shows "call_ok P (received_x3_trans_perf C P' A b2 kid x3 w)"
proof -
  have acc: "call_ok P (accept_x3_perf C P' A b2 d s_remote rss ks kr noise warn (w\<lparr>pw_app := a\<rparr>))" for d s_remote rss ks kr noise warn a
    by (rule accept_x3_perf_ok [OF assms(1)]) (use assms(2,3) in simp_all)
  have rej: "world_ok P (reject_x3_perf C P' b2 kek silent (w\<lparr>pw_app := a\<rparr>))" for kek silent a
    by (rule reject_x3_perf_ok [OF settings_sized [OF assms(1)]]) (use assms(2) in simp)
  show ?thesis using assms(2) acc rej
    by (simp add: received_x3_trans_perf_def Let_def case_prod_beta split: sum.split option.split prod.split)
qed

section \<open>Receiving\<close>

lemma world_ok_b2:
  "world_ok P w \<Longrightarrow> defrag_ok P (pb_defrag b) \<Longrightarrow> h = px_b2_heap w \<Longrightarrow> world_ok P (w\<lparr>px_b2_heap := h(addr \<mapsto> b)\<rparr>)"
  by (simp add: world_ok_def)

lemma received_x1_trans_perf_ok:
  assumes "settings_ok C" "world_ok P w"
  shows "call_ok P (received_x1_trans_perf C P' A n x1 w)"
proof -
  have C: "crypto_sized C" by (rule settings_sized [OF assms(1)])
  have x2: "MIN_PACKET_SIZE \<le> length (set_header P' (fst (snd (write_x2_payload_perf C P' noise x2 kid))) kid' (to_nonce p c))"
    if "write_x2_tokens_perf C e e1 rk noise0 rng = (Inr (es, noise, x2), rng')" for e e1 rk noise0 rng es noise x2 rng' kid kid' p c
  proof -
    have l: "length x2 = HEADER_SIZE + (P384_PUBLIC_KEY_SIZE + KYBER_CIPHERTEXT_SIZE + AES_GCM_TAG_SIZE)"
      by (rule write_x2_tokens_perf_length [OF C that])
    show ?thesis by (simp add: write_x2_payload_perf_length [OF C] l zssp_sizes)
  qed
  show ?thesis
  proof (cases "read_x1_perf C P' (px_s_secret w) n x1")
    case (Inr y)
    then obtain kid e e1 rf1 rf2 noise where y: "read_x1_perf C P' (px_s_secret w) n x1 = Inr (kid, e, e1, rf1, rf2, noise)"
      by (cases y) auto
    obtain found a where f: "find_ratchet_perf A rf1 rf2 (pw_app w) = (found, a)" by fastforce
    show ?thesis
    proof (cases found)
      case (Inr fl)
      then obtain rs l where fl: "found = Inr (rs, l)" by (cases fl) auto
      obtain tok rng where tok: "write_x2_tokens_perf C e e1 (rs_key rs) noise (px_rng w) = (tok, rng)" by fastforce
      show ?thesis
      proof (cases tok)
        case (Inr enx)
        then obtain es noise' m where m: "tok = Inr (es, noise', m)" by (cases enx) auto
        note sent = x2 [OF tok [unfolded m]]
        show ?thesis using assms(2) y f fl tok m sent defrag_new_ok [of P]
          by (auto simp: received_x1_trans_perf_def Let_def case_prod_beta time_perf_def reduce_next_service_time_def world_ok_b2
              split: option.split)
      qed (use assms(2) y f fl tok in \<open>simp add: received_x1_trans_perf_def Let_def case_prod_beta\<close>)
    qed (use assms(2) y f in \<open>simp add: received_x1_trans_perf_def\<close>)
  qed (use assms(2) in \<open>simp add: received_x1_trans_perf_def\<close>)
qed

lemma map_outcome_panic [simp]: "map_outcome f g r = Panic \<longleftrightarrow> r = Panic"
  by (cases r) simp_all

lemma map_result_ok: "handler_ok P w res \<Longrightarrow> handler_ok P w (case res of (r, x) \<Rightarrow> (map_outcome f g r, x))"
  by (cases res) (simp add: handler_ok_def)

lemma dispatch_perf_ok:
  assumes "settings_ok C" "world_ok P w" "session_ok P (generation w) z"
  shows "handler_ok P w (dispatch_perf C P' A s kid p n m z w)"
  using assms received_x2_trans_perf_ok [OF assms] received_c1_trans_perf_ok [OF assms] received_c2_trans_perf_ok [OF assms]
    received_k1_trans_perf_ok [OF assms] received_k2_trans_perf_ok [OF assms] received_d_trans_perf_ok [OF assms(2,3)]
  by (simp add: dispatch_perf_def map_result_ok handler_ok_return)

lemma decrypt_header_perf_length:
  assumes "crypto_sized C" "MIN_PACKET_SIZE \<le> length f"
  shows "length (decrypt_header_perf C hk f) = length f"
proof -
  have "length (subslice 4 20 f) = 16" using assms(2) by (simp add: zssp_sizes)
  then have "length (prp_decrypt_in_place C hk (subslice 4 20 f)) = 16" by (rule crypto_sizedD(2) [OF assms(1)])
  then show ?thesis using assms(2) by (simp add: decrypt_header_perf_def zssp_sizes)
qed

lemma parse_fragment_header_bounds:
  "parse_fragment_header f = Inr (no, n, nonce) \<Longrightarrow> no < n \<and> n \<le> MAX_FRAGMENTS"
  by (auto simp: parse_fragment_header_def Let_def split: if_splits)

lemma defrag_assemble_ok:
  assumes "defrag_ok P s" "MIN_PACKET_SIZE \<le> length f"
  shows "\<exists>s' out. fragged_assemble (pl_needs_drop P) s c f no n [] = Some (s', out) \<and> defrag_ok P s' \<and>
    (\<forall>x \<in> set out. MIN_PACKET_SIZE \<le> length x)"
proof -
  obtain s' out where a: "fragged_assemble (pl_needs_drop P) s c f no n [] = Some (s', out)" "fragged_wf (pl_needs_drop P) s'"
    "length (fg_frags s') = length (fg_frags s)"
    using fragged_assemble_works [of "pl_needs_drop P" s c f no n] assms(1) unfolding defrag_ok_def by blast
  have "\<forall>x \<in> insert f (held s). MIN_PACKET_SIZE \<le> length x" using assms by (simp add: defrag_ok_def)
  then have "\<forall>x \<in> held s'. MIN_PACKET_SIZE \<le> length x" "\<forall>x \<in> set out. MIN_PACKET_SIZE \<le> length x"
    using fragged_assemble_held [OF a(1)] by blast+
  then show ?thesis using a assms(1) by (simp add: defrag_ok_def)
qed

lemma session_ok_defrag:
  "session_ok P g z \<Longrightarrow> defrag_ok P fg \<Longrightarrow> session_ok P g (z\<lparr>ps_defrag := (ps_defrag z)[idx := fg]\<rparr>)"
  using set_update_subset_insert [of "ps_defrag z" idx fg]
  by (auto simp: session_ok_def beta_ok_def recv_kid_perf_def cong: automata_perf.case_cong)

lemma session_defrag_ok:
  assumes "session_ok P g z" "MIN_PACKET_SIZE \<le> length f"
  shows "\<exists>out z'. session_defrag P c f no n z = Some (out, z') \<and> session_ok P g z' \<and> (\<forall>x \<in> set out. MIN_PACKET_SIZE \<le> length x)"
proof (cases "1 < n")
  case True
  let ?idx = "unat c mod length (ps_defrag z)"
  have "?idx < length (ps_defrag z)" using assms(1) by (simp add: session_ok_def SESSION_MAX_FRAGMENTS_OOO_def)
  moreover from this have "defrag_ok P (ps_defrag z ! ?idx)" using assms(1) by (simp add: session_ok_def)
  ultimately show ?thesis using defrag_assemble_ok [OF _ assms(2), of P "ps_defrag z ! ?idx" c no n] True assms(1)
    by (auto simp: session_defrag_def session_ok_defrag)
qed (use assms in \<open>simp add: session_defrag_def\<close>)

lemma receive_session_perf_ok:
  assumes "settings_ok C" "world_ok P w" "px_heap w s = Some z" "MIN_PACKET_SIZE \<le> length f"
  shows "call_ok P (snd (receive_session_perf C P A out s kid f z w))"
proof -
  have z: "session_ok P (generation w) z" by (rule stored_ok [OF assms(2,3)])
  let ?f = "decrypt_header_perf C (ps_hk_recv z) f"
  have f: "MIN_PACKET_SIZE \<le> length ?f" using decrypt_header_perf_length [OF settings_sized [OF assms(1)] assms(4)] assms(4) by simp
  show ?thesis
  proof (cases "parse_fragment_header ?f")
    case (Inr y)
    then obtain no n nonce where y: "parse_fragment_header ?f = Inr (no, n, nonce)" by (cases y) auto
    obtain p c where c: "from_nonce nonce = (p, c)" by fastforce
    obtain fs z1 where d: "session_defrag P c ?f no n z = Some (fs, z1)" "session_ok P (generation w) z1" "\<forall>x \<in> set fs. MIN_PACKET_SIZE \<le> length x"
      using session_defrag_ok [OF z f, of c no n] by blast
    have put: "world_ok P (put_session s z1 w)" by (rule world_ok_put [OF assms(2) d(2)])
    let ?R = "receive_payload_in_place P out s kid nonce fs z1"
    have data: "fst (snd ?R) \<noteq> Panic \<and> world_ok P (put_session s (snd (snd ?R)) w)" if "fs \<noteq> []"
      using receive_payload_in_place_ok [OF d(2) _ that d(3), of P out s kid nonce "fst ?R" "fst (snd ?R)" "snd (snd ?R)"]
        world_ok_put [OF assms(2)] by simp
    have ctl: "fst res \<noteq> Panic \<and> world_ok P (put_session s (fst (snd res)) (snd (snd res)))"
      if "res = dispatch_perf C P A s kid p nonce m z1 w" for m res
      using handler_put handler_returns dispatch_perf_ok [OF assms(1,2) d(2)] that by blast
    show ?thesis using y c d(1) put data ctl assms(2)
      by (simp add: receive_session_perf_def case_prod_beta split: option.split prod.split)
  qed (use assms(2) in \<open>simp add: receive_session_perf_def\<close>)
qed

lemma receive_b2_perf_ok:
  assumes "settings_ok C" "world_ok P w" "heap_room (px_session_queue w)" "px_b2_heap w addr = Some b2" "MIN_PACKET_SIZE \<le> length f"
  shows "call_ok P (receive_b2_perf C P A kid f addr b2 w)"
proof -
  let ?f = "decrypt_header_perf C (pb_hk_recv b2) f"
  have f: "MIN_PACKET_SIZE \<le> length ?f" using decrypt_header_perf_length [OF settings_sized [OF assms(1)] assms(5)] assms(5) by simp
  have b2: "defrag_ok P (pb_defrag b2)" using assms(2,4) by (simp add: world_ok_def)
  show ?thesis
  proof (cases "parse_fragment_header ?f")
    case (Inr y)
    then obtain no n nonce where y: "parse_fragment_header ?f = Inr (no, n, nonce)" by (cases y) auto
    obtain p c where c: "from_nonce nonce = (p, c)" by fastforce
    obtain fg fs where d: "(if 1 < n then fragged_assemble (pl_needs_drop P) (pb_defrag b2) c ?f no n [] else Some (pb_defrag b2, [?f])) = Some (fg, fs)"
      "defrag_ok P fg"
      using defrag_assemble_ok [OF b2 f, of c no n] b2 by (cases "1 < n") auto
    let ?b2 = "b2\<lparr>pb_defrag := fg\<rparr>" and ?w = "w\<lparr>px_b2_heap := (px_b2_heap w)(addr \<mapsto> b2\<lparr>pb_defrag := fg\<rparr>)\<rparr>"
    have w: "world_ok P ?w" by (rule world_ok_b2) (use assms(2) d(2) in simp_all)
    have x3: "fst (received_x3_trans_perf C P A ?b2 kid m (?w\<lparr>px_handshakes := h\<rparr>)) \<noteq> Panic \<and>
      world_ok P (snd (received_x3_trans_perf C P A ?b2 kid m (?w\<lparr>px_handshakes := h\<rparr>)))" for m h
      using received_x3_trans_perf_ok [OF assms(1), of P "?w\<lparr>px_handshakes := h\<rparr>" P A ?b2 kid m] w assms(3) by (simp add: call_ok_def)
    show ?thesis
    proof (cases "p = PACKET_TYPE_HANDSHAKE_COMPLETION \<and> c = 0")
      case True
      then show ?thesis using y c d(1) w x3 assms(2)
        by (cases "1 < n") (auto simp: receive_b2_perf_def Let_def case_prod_beta split: option.split)
    qed (use y c assms(2) in \<open>auto simp: receive_b2_perf_def Let_def\<close>)
  qed (use assms(2) in \<open>simp add: receive_b2_perf_def\<close>)
qed

lemma cache_assemble_ok:
  assumes "cache_ok s" "MIN_PACKET_SIZE \<le> length f"
  shows "\<exists>r s' ret. unassociated_assemble S hash nonce addr sz f no n now [] s = Some (r, s', ret) \<and> cache_ok s'"
proof -
  obtain L where L: "logged L s" "\<forall>(k, i, n, f) \<in> L. MIN_PACKET_SIZE \<le> length f" using assms(1) by (auto simp: cache_ok_def)
  let ?k = "cache_key hash addr nonce"
  obtain r s' ret where a: "cache_assemble S ?k sz f no n now [] s = Some (r, s', ret)" "cache_wf s'" "logged (insert (?k, no, n, f) L) s'"
    using cache_assemble_works [OF _ L(1) cache_key_nonzero [of hash addr nonce], where S = S and sz = sz and f = f and no = no and c = n and now = now] assms(1) unfolding cache_ok_def by blast
  have "\<forall>(k, i, n, f) \<in> insert (?k, no, n, f) L. MIN_PACKET_SIZE \<le> length f" using L(2) assms(2) by auto
  then have "cache_ok s'" using a(2,3) unfolding cache_ok_def by blast
  then show ?thesis using a(1) by (simp add: unassociated_assemble_def)
qed

lemma world_ok_cache: "world_ok P w \<Longrightarrow> cache_ok s \<Longrightarrow> world_ok P (w\<lparr>px_defrag_cache := s\<rparr>)"
  by (simp add: world_ok_def)

lemma process_hello_packet_perf_ok:
  assumes "settings_ok C" "world_ok P w"
  shows "call_ok P (snd (process_hello_packet_perf C P' A addr n m w))"
proof -
  have x1: "fst res \<noteq> Panic \<and> world_ok P (snd res)"
    if "res = received_x1_trans_perf C P' A n x w1" "world_ok P w1" for res x w1
    using received_x1_trans_perf_ok [OF assms(1) that(2), of P' A n x] that(1) by (simp add: call_ok_def)
  obtain action a where a: "pa_incoming_session A (pw_app w) = (action, a)" by fastforce
  show ?thesis using assms(2) a x1
    by (auto simp: process_hello_packet_perf_def Let_def case_prod_beta process_hello_perf_def split: incoming_session_action.split)
qed

lemma process_challenge_packet_perf_ok:
  assumes "world_ok P w"
  shows "call_ok P (process_challenge_packet_perf C P' m w)"
proof (cases "length m = KID_SIZE + CHALLENGE_SIZE")
  case True
  let ?r = "\<lambda>z. respond_to_challenge_perf C P' (drop KID_SIZE m) z w :: (receive_error_perf, unit, _, _, _, _, _, _, _) presult"
  have r: "fst (?r z) \<noteq> Panic \<and> world_ok P (put_session s (fst (snd (?r z))) (snd (snd (?r z))))" if "px_heap w s = Some z" for s z
  proof -
    have "handler_ok P w (?r z)"
      by (rule respond_to_challenge_perf_ok [OF assms stored_ok [OF assms that]]) (simp add: True)
    then show ?thesis using handler_put handler_returns by blast
  qed
  show ?thesis using assms True r
    by (auto simp: process_challenge_packet_perf_def case_prod_beta split: option.split bind_split)
qed (use assms in \<open>simp add: process_challenge_packet_perf_def\<close>)

lemma receive_hello_perf_ok:
  assumes "settings_ok C" "world_ok P w" "MIN_PACKET_SIZE \<le> length f"
  shows "call_ok P (snd (receive_hello_perf C P' A addr f w))"
proof (cases "parse_fragment_header f")
  case (Inr y)
  then obtain no n nonce where y: "parse_fragment_header f = Inr (no, n, nonce)" by (cases y) auto
  obtain p c where c: "from_nonce nonce = (p, c)" by fastforce
  obtain now w1 where t: "time_perf A w = (now, w1)" by fastforce
  have w1: "world_ok P w1" using time_perf_frame [OF t] assms(2) by simp
  have "cache_ok (px_defrag_cache w1)" using w1 by (simp add: world_ok_def)
  from cache_assemble_ok [OF this assms(3), of "SETTINGS C" "pl_frag_hash P'" nonce addr "length f - HEADER_SIZE" no n now]
  obtain r s ret where a: "unassociated_assemble (SETTINGS C) (pl_frag_hash P') nonce addr (length f - HEADER_SIZE) f no n now []
    (px_defrag_cache w1) = Some (r, s, ret)" "cache_ok s" by blast
  obtain red w2 where w2: "(case r of None \<Rightarrow> (None, w1\<lparr>px_defrag_cache := s\<rparr>) | Some t \<Rightarrow> reduce_next_service_time t (w1\<lparr>px_defrag_cache := s\<rparr>)) = (red, w2)"
    by fastforce
  have w2_ok: "world_ok P w2" using world_ok_cache [OF w1 a(2)] w2 by (cases r) (auto simp: reduce_next_service_time_def)
  define K where "K t0 fs w2 = (if fs = [] then ([], Ok (UnassociatedP, t0), w2)
      else case join_fragments HANDSHAKE_HELLO_CHALLENGE_SIZE n fs of
        None \<Rightarrow> ([], Err (fault_un InvalidPacket True), w2)
      | Some assembled_packet \<Rightarrow>
          if p = PACKET_TYPE_HANDSHAKE_HELLO
          then process_hello_packet_perf C P' A addr nonce assembled_packet w2
          else case process_challenge_packet_perf C P' assembled_packet w2 of (r, w) \<Rightarrow> ([], r, w))" for t0 fs w2
  have K: "call_ok P (snd (K t0 fs w2))" if "world_ok P w2" for fs t0 w2
    using that process_hello_packet_perf_ok [OF assms(1) that, of P' A addr nonce] process_challenge_packet_perf_ok [OF that, of C P']
    by (auto simp: K_def case_prod_beta split: option.split)
  have "receive_hello_perf C P' A addr f w = (if p \<noteq> PACKET_TYPE_HANDSHAKE_HELLO \<and> p \<noteq> PACKET_TYPE_CHALLENGE
    then ([], Err (fault_un InvalidPacket True), w) else if 1 < n then K red ret w2 else K None [f] w)"
    using w2 by (simp add: receive_hello_perf_def y c t a(1) K_def Let_def)
  then show ?thesis using K [OF w2_ok] K [OF assms(2)] assms(2) by simp
qed (use assms(2) in \<open>simp add: receive_hello_perf_def\<close>)

end
