(* ===== verification/Perf_Service.thy ===== *)
theory Perf_Service
  imports Perf_Calls
begin

text \<open>
  The periodic service of the performance crate ends. The loop over the queue serves an entry that
  is due in every round and moves it behind the current time or removes it; the loop around it
  starts over only after a session has expired, and an expired session has no timer left.
\<close>

section \<open>The timers of one session\<close>

lemma send_control_perf_queue:
  "px_session_queue (snd (snd (send_control_perf C P p payload z w))) = px_session_queue w"
  by (auto simp: send_control_perf_def emit_perf_def Let_def split: option.split prod.split)

lemma control_timer_queue: "px_session_queue (snd (snd (control_timer t res))) = px_session_queue (snd (snd res))"
  by (cases res) (auto simp: control_timer_def split: outcome.split bool.split)

lemma process_timers_queue: "px_session_queue (snd (snd (process_timers C P s now z w))) = px_session_queue w"
proof -
  have r: "px_session_queue (snd (snd (restart_a1_perf C P s i now z w))) = px_session_queue w" for i
    by (auto simp: restart_a1_perf_def Let_def case_prod_beta emit_perf_def dest: remap_perf_frame(4) split: option.split)
  have k: "px_session_queue (snd (snd (start_rekey_perf C P s now z w))) = px_session_queue w"
    by (auto simp: start_rekey_perf_def Let_def case_prod_beta control_timer_queue send_control_perf_queue
        dest: remap_perf_frame(4) split: option.split)
  show ?thesis
    by (auto simp: process_timers_def timeout_trans_perf_def Let_def r k control_timer_queue send_control_perf_queue emit_perf_def
        split: automata_perf.split)
qed

lemma control_timer_time: "control_timer t res = (Ok t', z, w) \<Longrightarrow> t' = t"
  by (cases res) (auto simp: control_timer_def split: outcome.splits bool.splits)

lemma process_timers_later:
  assumes "now < after now (resend_time (SETTINGS C))" "process_timers C P s now z w = (Ok t, z', w')"
  shows "now < t"
  using assms
  by (auto simp: process_timers_def timeout_trans_perf_def restart_a1_perf_def start_rekey_perf_def Let_def case_prod_beta
      dest!: control_timer_time split: automata_perf.splits if_splits option.splits)

lemma process_timers_null:
  assumes "session_ok P' g z" "ps_beta z = PNull" "now < I64_MAX"
  shows "process_timers C P s now z w = (Ok I64_MAX, z, w)"
  using assms by (simp add: session_ok_def beta_ok_def process_timers_def)

text \<open>A round puts at most one more key id into the map, and it finds one when the generator does.\<close>

lemma remap_perf_room:
  "remap_perf C s z w = Some (kid, w') \<Longrightarrow> card (dom (px_session_map w')) \<le> Suc (card (dom (px_session_map w)))"
  "kids_live C (px_session_map w) \<Longrightarrow> remap_perf C s z w \<noteq> None"
proof -
  define m where "m = (case recv_kid_perf z True of
      Some kid \<Rightarrow> (case px_session_map w kid of Some s \<Rightarrow> (px_session_map w)(kid := None) | None \<Rightarrow> px_session_map w)
    | None \<Rightarrow> px_session_map w)"
  have m: "m \<subseteq>\<^sub>m px_session_map w" by (auto simp: m_def map_le_def split: option.splits)
  then have d: "card (dom m) \<le> card (dom (px_session_map w))" by (intro card_dom_mono map_le_implies_dom_le)
  show "card (dom (px_session_map w')) \<le> Suc (card (dom (px_session_map w)))" if r: "remap_perf C s z w = Some (kid, w')"
  proof -
    have "\<exists>t. px_session_map w' = m(kid \<mapsto> t)"
      using r by (cases "recv_kid_perf z True"; cases "px_session_map w (the (recv_kid_perf z True))")
        (auto simp: remap_perf_def m_def split: option.splits prod.splits)
    then obtain t where t: "px_session_map w' = m(kid \<mapsto> t)" by blast
    show ?thesis unfolding t using card_dom_update [where m = m and kid = kid and s = t] d by linarith
  qed
  show "remap_perf C s z w \<noteq> None" if k: "kids_live C (px_session_map w)"
    using kids_liveD [OF kids_live_mono [OF k m], of "px_rng w"]
    by (cases "recv_kid_perf z True"; cases "px_session_map w (the (recv_kid_perf z True))")
      (auto simp: remap_perf_def m_def)
qed

lemma send_control_perf_map [simp]:
  "px_session_map (snd (snd (send_control_perf C P p payload z w))) = px_session_map w"
  by (auto simp: send_control_perf_def emit_perf_def Let_def split: option.split prod.split)

lemma control_timer_map [simp]:
  "px_session_map (snd (snd (control_timer t res))) = px_session_map (snd (snd res))" "fst (control_timer t res) \<noteq> Diverge"
proof -
  obtain r z w where res: "res = (r, z, w)" by (cases res)
  show "px_session_map (snd (snd (control_timer t res))) = px_session_map (snd (snd res))" "fst (control_timer t res) \<noteq> Diverge"
    unfolding res control_timer_def by (cases r; simp split: bool.split)+
qed

lemma process_timers_room:
  "card (dom (px_session_map (snd (snd (process_timers C P s now z w))))) \<le> Suc (card (dom (px_session_map w)))"
  "kids_live C (px_session_map w) \<Longrightarrow> fst (process_timers C P s now z w) \<noteq> Diverge"
proof -
  note defs = process_timers_def timeout_trans_perf_def restart_a1_perf_def start_rekey_perf_def Let_def case_prod_beta emit_perf_def
  show "card (dom (px_session_map (snd (snd (process_timers C P s now z w))))) \<le> Suc (card (dom (px_session_map w)))"
    by (auto simp: defs intro: remap_perf_room(1) split: automata_perf.split option.split)
  show "kids_live C (px_session_map w) \<Longrightarrow> fst (process_timers C P s now z w) \<noteq> Diverge"
    using remap_perf_room(2) [of C w s z] by (auto simp: defs split: automata_perf.split option.split)
qed

lemma expire_inner_shrinks:
  assumes "world_ok P w" "session_ok P (generation w) z" "expire_inner z w = Some (z', w')"
  shows "dom (px_session_map w') \<subseteq> dom (px_session_map w)"
    and "heap_entries (px_session_queue w') \<subseteq> heap_entries (px_session_queue w)"
proof -
  have wf: "heap_wf (px_session_queue w)" "2 \<le> snd (ps_queue_idx z)" using assms(1,2) by (simp_all add: world_ok_def session_ok_def)
  show "dom (px_session_map w') \<subseteq> dom (px_session_map w)"
    using assms(3) by (auto simp: expire_inner_def Let_def restrict_map_def split: if_splits option.splits)
  show "heap_entries (px_session_queue w') \<subseteq> heap_entries (px_session_queue w)"
    using assms(3) heap_remove_entries [OF wf] by (auto simp: expire_inner_def Let_def split: if_splits option.splits)
qed

section \<open>What is left to do\<close>

definition due :: "i64 \<Rightarrow> (session_id, reverse) indexed_heap \<Rightarrow> nat" where
  "due now q = card {x \<in> heap_entries q. rev_time (snd (snd x)) \<le> now}"

definition alive :: "('pk, 'kp, 'r, 'kem, 'd, 'fd, 'a) pworld \<Rightarrow> session_id set" where
  "alive w = {s. \<exists>z. px_heap w s = Some z \<and> ps_beta z \<noteq> PNull}"

text \<open>The key ids in use and those that the service may still ask for: one for every entry that is due
  and one for every session that may expire.\<close>

definition load :: "i64 \<Rightarrow> ('pk, 'kp, 'r, 'kem, 'd, 'fd, 'a) pworld \<Rightarrow> nat" where
  "load now w = card (dom (px_session_map w)) + due now (px_session_queue w) + card (alive w)"

lemma finite_entries: "finite (heap_entries h)"
  by (simp add: heap_entries_def)

lemma finite_alive: "world_ok P w \<Longrightarrow> finite (alive w)"
  by (rule finite_subset [of _ "dom (px_heap w)"]) (auto simp: alive_def world_ok_def)

lemma due_less:
  assumes "(idx, t, p) \<in> heap_entries q" "rev_time p \<le> now"
    "\<And>x. x \<in> heap_entries q' \<Longrightarrow> rev_time (snd (snd x)) \<le> now \<Longrightarrow> x \<in> heap_entries q \<and> fst (fst x) \<noteq> fst idx"
  shows "due now q' < due now q"
proof -
  let ?D = "\<lambda>q. {x \<in> heap_entries q. rev_time (snd (snd x)) \<le> now}"
  have "?D q' \<subseteq> ?D q" "(idx, t, p) \<in> ?D q" "(idx, t, p) \<notin> ?D q'" using assms by fastforce+
  then show ?thesis unfolding due_def using finite_entries [of q] by (intro psubset_card_mono) auto
qed

lemma due_mono: "heap_entries q' \<subseteq> heap_entries q \<Longrightarrow> due now q' \<le> due now q"
  unfolding due_def by (rule card_mono) (auto simp: finite_entries)

lemma heap_peek_entry:
  assumes "heap_wf h"
  shows "heap_peek h \<noteq> None" "heap_peek h = Some (Some (t, p, idx)) \<Longrightarrow> (idx, t, p) \<in> heap_entries h"
proof -
  have l: "heap_linked h" using assms by (simp add: heap_wf_def)
  show "heap_peek h \<noteq> None"
    using l by (cases "ih_data h") (auto simp: heap_peek_def heap_linked_def)
  show "heap_peek h = Some (Some (t, p, idx)) \<Longrightarrow> (idx, t, p) \<in> heap_entries h"
    by (auto simp: heap_peek_def heap_entries_def split: list.splits if_splits)
qed

lemma alive_put:
  assumes "px_heap w' = px_heap w" "px_heap w s = Some z" "ps_beta z = PNull \<Longrightarrow> z' = z"
  shows "alive (put_session s z' w') \<subseteq> alive w"
  using assms by (auto simp: alive_def put_session_def split: if_splits)

section \<open>The loop over the queue\<close>

text \<open>What a run of the loop leaves behind.\<close>

definition served ::
  "('pk, 'kp, 'r, 'kem) crypto_layer \<Rightarrow> platform \<Rightarrow> i64 \<Rightarrow> ('pk, 'kp, 'r, 'kem, 'd, 'fd, 'a) pworld
     \<Rightarrow> ((session_id, i64) outcome \<times> bytes list \<times> ('pk, 'kp, 'r, 'kem, 'd, 'fd, 'a) pworld) option \<Rightarrow> bool" where
  "served C P now w res \<longleftrightarrow>
     (case res of
        None \<Rightarrow> False
      | Some (r, wire, w') \<Rightarrow> call_ok P (r, w') \<and> alive w' \<subseteq> alive w \<and> (\<forall>s. r = Err s \<longrightarrow> alive w' \<subset> alive w) \<and>
          (kids_room C (load now w) \<longrightarrow> r \<noteq> Diverge \<and> load now w' \<le> load now w))"

lemma servedD:
  "served C P now w res \<Longrightarrow> \<exists>r wire w'. res = Some (r, wire, w') \<and> r \<noteq> Panic \<and> world_ok P w' \<and> alive w' \<subseteq> alive w \<and>
     (\<forall>s. r = Err s \<longrightarrow> alive w' \<subset> alive w) \<and> (kids_room C (load now w) \<longrightarrow> r \<noteq> Diverge \<and> load now w' \<le> load now w)"
  by (cases res) (auto simp: served_def)

lemma served_mono:
  "served C P now w1 res \<Longrightarrow> alive w1 \<subseteq> alive w \<Longrightarrow> load now w1 \<le> load now w \<Longrightarrow> served C P now w res"
  unfolding served_def by (fastforce split: option.splits prod.splits dest: kids_room_mono)

lemma alive_queue [simp]: "alive (w\<lparr>px_session_queue := q\<rparr>) = alive w" "alive (w\<lparr>pw_sent := l\<rparr>) = alive w"
  by (simp_all add: alive_def)

lemma service_queue_served:
  assumes "settings_ok C" "now < after now (resend_time (SETTINGS C))" "now < I64_MAX" "world_ok P w"
  shows "served C P now w (service_queue C P' send_to now t wire w)"
  using assms(4)
proof (induction "due now (px_session_queue w)" arbitrary: t wire w rule: less_induct)
  case less
  let ?q = "px_session_queue w"
  have wf: "heap_wf ?q" using less.prems by (simp add: world_ok_def)
  obtain pk where pk: "heap_peek ?q = Some pk" using heap_peek_entry(1) [OF wf] by blast
  show ?case
  proof (cases "pk = None \<or> (\<exists>s p idx. pk = Some (s, p, idx) \<and> now < rev_time p)")
    case True
    then show ?thesis using pk less.prems by (auto simp: served_def service_queue.simps [of C P' send_to now t wire w])
  next
    case False
    then obtain s p idx where p: "heap_peek ?q = Some (Some (s, p, idx))" "rev_time p \<le> now" using pk by (cases pk) force+
    have e: "(idx, s, p) \<in> heap_entries ?q" by (rule heap_peek_entry(2) [OF wf p(1)])
    show ?thesis
    proof (cases "px_heap w s")
      case None
      obtain q where q: "heap_remove ?q idx = Some (Some (s, p), q)" "heap_wf q" "heap_entries q = {x \<in> heap_entries ?q. fst (fst x) \<noteq> fst idx}"
        "ih_generation q = ih_generation ?q" using heap_remove_works [OF wf e] by blast
      have "due now q < due now ?q" by (rule due_less [OF e p(2)]) (simp add: q(3))
      moreover have "world_ok P (w\<lparr>px_session_queue := q\<rparr>)" using less.prems q(2,4) by (intro world_ok_queue) (simp_all add: generation_def)
      ultimately show ?thesis using less.hyps [of "w\<lparr>px_session_queue := q\<rparr>" t wire] None p q(1)
        by (auto simp: service_queue.simps [of C P' send_to now t wire w] load_def intro: served_mono)
    next
      case (Some z)
      have z: "session_ok P (generation w) z" by (rule stored_ok [OF less.prems Some])
      obtain r z1 w1 where pt: "process_timers C P' s now z w = (r, z1, w1)" by (cases "process_timers C P' s now z w") auto
      have h: "handler_ok P w (r, z1, w1)" using process_timers_ok [OF assms(1) less.prems z, of P' s now] pt by simp
      note ok = handler_okD [OF h]
      have q1: "px_session_queue w1 = ?q" using process_timers_queue [of C P' s now z w] pt by simp
      have null: "ps_beta z = PNull \<Longrightarrow> z1 = z \<and> r = Ok I64_MAX" using process_timers_null [OF z _ assms(3), of C P' s w] pt by simp
      have room: "card (dom (px_session_map w1)) \<le> Suc (card (dom (px_session_map w)))"
        "kids_room C (load now w) \<Longrightarrow> r \<noteq> Diverge"
        using process_timers_room [where C = C and P = P' and s = s and now = now and z = z and w = w] pt kids_roomD [of C "load now w" "px_session_map w"] by (auto simp: load_def)
      have fin: "finite (alive w)" by (rule finite_alive [OF less.prems])
      let ?w = "put_session s z1 w1"
      have w: "world_ok P ?w" using handler_put [OF h] by simp
      have alive: "alive ?w \<subseteq> alive w" by (rule alive_put [OF ok(5) Some]) (use null in blast)
      obtain out where fl: "flush_perf C (send_to s) (r, ?w) = (r, out, ?w\<lparr>pw_sent := []\<rparr>)"
        using flush_perf_ok(1) [OF settings_sized [OF assms(1)] w] by blast
      let ?w2 = "?w\<lparr>pw_sent := []\<rparr>"
      have w2: "world_ok P ?w2" "px_session_queue ?w2 = ?q" "alive ?w2 \<subseteq> alive w" "px_session_map ?w2 = px_session_map w1"
        using flush_perf_ok(2) [OF settings_sized [OF assms(1)] w] q1 alive by (simp_all add: put_session_def)
      show ?thesis
      proof (cases r)
        case (Ok t')
        obtain q where q: "change_priority ?q idx (Reverse t') = Some (Some p, q)" "heap_wf q"
          "heap_entries q = insert (idx, s, Reverse t') {x \<in> heap_entries ?q. fst (fst x) \<noteq> fst idx}" "ih_generation q = ih_generation ?q"
          using change_priority_works [OF wf e, of "Reverse t'"] by blast
        have "now < t'" using process_timers_later [OF assms(2)] pt Ok by blast
        then have d: "due now q < due now ?q" by (intro due_less [OF e p(2)]) (auto simp: q(3))
        have wq: "world_ok P (?w2\<lparr>px_session_queue := q\<rparr>)"
          using w2(1,2) q(2,4) by (intro world_ok_queue) (simp_all add: generation_def)
        have "served C P now (?w2\<lparr>px_session_queue := q\<rparr>) (service_queue C P' send_to now (min t t') (wire @ out) (?w2\<lparr>px_session_queue := q\<rparr>))"
          by (rule less.hyps [OF _ wq]) (simp add: d)
        then have "served C P now w (service_queue C P' send_to now (min t t') (wire @ out) (?w2\<lparr>px_session_queue := q\<rparr>))"
          by (rule served_mono) (use w2(3) room(1) d card_mono [OF fin w2(3)] in \<open>simp_all add: load_def put_session_def\<close>)
        then show ?thesis using Some p pt fl Ok q(1) w2(2) by (simp add: service_queue.simps [of C P' send_to now t wire w])
      next
        case (Err u)
        have nn: "ps_beta z \<noteq> PNull" using null Err by auto
        have z1: "session_ok P (generation ?w2) z1" using ok(2,6) by (simp add: put_session_def)
        obtain z2 w3 where x: "expire_inner z1 ?w2 = Some (z2, w3)" "ps_beta z2 = PNull" "world_ok P w3"
          "session_ok P (generation ?w2) z2" "px_heap w3 = px_heap ?w2" "generation w3 = generation ?w2"
          using expire_inner_works [OF w2(1) z1] by blast
        have "world_ok P (put_session s z2 w3)" using x by (intro world_ok_put) simp_all
        moreover have "alive (put_session s z2 w3) \<subset> alive w"
        proof -
          have "alive (put_session s z2 w3) \<subseteq> alive ?w2 - {s}" using x(2,5) by (auto simp: alive_def put_session_def split: if_splits)
          moreover have "s \<in> alive w" using Some nn by (simp add: alive_def)
          ultimately show ?thesis using w2(3) by blast
        qed
        moreover have "load now (put_session s z2 w3) \<le> load now w"
        proof -
          have "card (alive (put_session s z2 w3)) < card (alive w)" by (rule psubset_card_mono [OF fin calculation(2)])
          moreover have "card (dom (px_session_map w3)) \<le> Suc (card (dom (px_session_map w)))"
            using card_dom_mono [OF expire_inner_shrinks(1) [OF w2(1) z1 x(1)]] room(1) w2(4) by simp
          moreover have "due now (px_session_queue w3) \<le> due now ?q"
            using due_mono [OF expire_inner_shrinks(2) [OF w2(1) z1 x(1)]] w2(2) by simp
          ultimately show ?thesis by (simp add: load_def put_session_def)
        qed
        ultimately show ?thesis using Some p pt fl Err x(1)
          by (auto simp: served_def service_queue.simps [of C P' send_to now t wire w])
      next
        case Diverge
        then show ?thesis using Some p pt fl w2 room(2) by (auto simp: served_def service_queue.simps [of C P' send_to now t wire w])
      qed (use ok(1) in simp)
    qed
  qed
qed

lemma service_inner_served:
  assumes "settings_ok C" "now < after now (resend_time (SETTINGS C))" "now < I64_MAX" "world_ok P w"
  shows "served C P now w (service_inner C P' send_to now w)"
proof -
  obtain r wire w1 where q: "service_queue C P' send_to now I64_MAX [] w = Some (r, wire, w1)" "r \<noteq> Panic" "world_ok P w1" "alive w1 \<subseteq> alive w"
    "\<forall>s. r = Err s \<longrightarrow> alive w1 \<subset> alive w" "kids_room C (load now w) \<longrightarrow> r \<noteq> Diverge \<and> load now w1 \<le> load now w"
    using servedD [OF service_queue_served [OF assms, of P' send_to I64_MAX "[]"]] by blast
  obtain L where c: "cache_wf (px_defrag_cache w1)" "logged L (px_defrag_cache w1)" "\<forall>(k, i, n, f) \<in> L. MIN_PACKET_SIZE \<le> length f"
    using q(3) by (auto simp: world_ok_def cache_ok_def)
  obtain t s where x: "check_for_expiry (SETTINGS C) now (px_defrag_cache w1) = Some (t, s)" "cache_wf s" "shrunk (px_defrag_cache w1) s"
    using check_for_expiry_inner_works [OF c(1)] unfolding check_for_expiry_def by blast
  have "cache_ok s" using x(2) logged_shrunk [OF _ x(3) c(2)] c(1,3) unfolding cache_ok_def cache_wf_def by blast
  then have "world_ok P (w1\<lparr>px_defrag_cache := s\<rparr>)" by (rule world_ok_cache [OF q(3)])
  moreover have a: "alive (w1\<lparr>px_next_service_time := a, px_defrag_cache := b, px_handshakes := c\<rparr>) = alive w1"
    "alive (w1\<lparr>px_next_service_time := a, px_defrag_cache := b, px_handshakes := c, px_next_service_time := d\<rparr>) = alive w1" for a b c d
    by (simp_all add: alive_def)
  ultimately show ?thesis using q x(1)
    by (cases r) (auto simp: served_def service_inner_def Let_def case_prod_beta load_def)
qed

lemma service_until_ok_returns:
  assumes "settings_ok C" "now < after now (resend_time (SETTINGS C))" "now < I64_MAX" "world_ok P w"
  shows "\<exists>r wire' w'. service_until_ok C P' send_to now wire w = Some (r, wire', w') \<and> call_ok P (r, w') \<and> (\<forall>u. r \<noteq> Err u) \<and>
    (kids_room C (load now w) \<longrightarrow> r \<noteq> Diverge)"
  using assms(4)
proof (induction "card (alive w)" arbitrary: wire w rule: less_induct)
  case less
  obtain r out w1 where q: "service_inner C P' send_to now w = Some (r, out, w1)" "r \<noteq> Panic" "world_ok P w1" "alive w1 \<subseteq> alive w"
    "\<forall>s. r = Err s \<longrightarrow> alive w1 \<subset> alive w" "kids_room C (load now w) \<longrightarrow> r \<noteq> Diverge \<and> load now w1 \<le> load now w"
    using servedD [OF service_inner_served [OF assms(1-3) less.prems, of P' send_to]] by blast
  show ?case
  proof (cases r)
    case (Err s)
    then have "card (alive w1) < card (alive w)" using q(5) finite_alive [OF less.prems] by (simp add: psubset_card_mono)
    from less.hyps [OF this q(3), of "wire @ out"] show ?thesis using q(1,6) Err kids_room_mono [of C "load now w" "load now w1"]
      by (auto simp: service_until_ok.simps [of C P' send_to now wire w])
  qed (use q in \<open>simp_all add: service_until_ok.simps [of C P' send_to now wire w]\<close>)
qed

end
