(* ===== verification/Perf_Reachable.thy ===== *)
theory Perf_Reachable
  imports Perf_Service Perf_Sample
begin

text \<open>
  The contexts of the performance crate that a program can reach, and what holds in all of them.
\<close>

section \<open>The calls of a program\<close>

lemma Context_new_perf_ok: "world_ok P (Context_new_perf C s rng a)"
  using cache_new_wf heap_new_inv(1)
  by (auto simp: Context_new_perf_def world_ok_def cache_ok_def case_prod_beta)

lemma open_with_ratchet_ok:
  assumes "settings_ok C" "world_ok P w" "heap_room (px_session_queue w)"
    "ratchet_wf (rss_state1 rss)" "pred_option ratchet_wf (rss_state2 rss)"
    "open_with_ratchet C P' A send mtu pk d ident rss w = (r, wire, w')"
  shows "call_ok P (r, w')"
proof (cases "IDENTITY_MAX_SIZE < length ident")
  case False
  then have "call_ok P (trans_to_a1_perf C P' A pk d ident rss w)" using assms by (intro trans_to_a1_perf_ok) simp_all
  from flush_call_ok [OF settings_sized [OF assms(1)] this] show ?thesis
    using assms(6) False by (simp add: open_with_ratchet_def)
qed (use assms in \<open>auto simp: open_with_ratchet_def\<close>)

lemma Context_open_perf_ok:
  assumes "settings_ok C" "restores_sized A" "world_ok P w" "heap_room (px_session_queue w)"
    "Context_open_perf C P' A send mtu pk d ident w = (r, wire, w')"
  shows "call_ok P (r, w')"
proof -
  obtain x a where x: "pa_restore_by_identity A pk d None (pw_app w) = (x, a)" by fastforce
  show ?thesis
  proof (cases x)
    case (Inr rss)
    let ?rss = "case rss of None \<Rightarrow> new_initial_states | Some r \<Rightarrow> r"
    have "ratchet_wf (rss_state1 new_initial_states)" "pred_option ratchet_wf (rss_state2 new_initial_states)"
      by (simp_all add: new_initial_states_def ratchet_wf_def ratchet_empty_def zssp_sizes)
    moreover have "ratchet_wf (rss_state1 y) \<and> pred_option ratchet_wf (rss_state2 y)" if "rss = Some y" for y
      using assms(2) x Inr that unfolding restores_sized_def by blast
    ultimately have "ratchet_wf (rss_state1 ?rss)" "pred_option ratchet_wf (rss_state2 ?rss)" by (simp_all split: option.split)
    from open_with_ratchet_ok [OF assms(1) _ _ this, of P "w\<lparr>pw_app := a\<rparr>" P' A send mtu pk d ident r wire w'] show ?thesis
      using assms(3-5) x Inr by (simp add: Context_open_perf_def)
  qed (use assms(3,5) x in \<open>auto simp: Context_open_perf_def\<close>)
qed

lemma Context_receive_perf_ok:
  assumes "settings_ok C" "world_ok P w" "heap_room (px_session_queue w)"
    "Context_receive_perf C P A reply send_to out addr f w = (written, r, wire, w')"
  shows "call_ok P (r, w')"
proof (cases "length f < MIN_PACKET_SIZE")
  case False
  then have f: "MIN_PACKET_SIZE \<le> length f" by simp
  note C = settings_sized [OF assms(1)]
  have s: "call_ok P (snd (receive_session_perf C P A out s kid f z w))" if "px_heap w s = Some z" for s kid z
    by (rule receive_session_perf_ok [OF assms(1,2) that f])
  have b: "call_ok P (receive_b2_perf C P A kid f addr' b2 w)" if "px_b2_heap w addr' = Some b2" for addr' kid b2
    by (rule receive_b2_perf_ok [OF assms(1-3) that f])
  have h: "call_ok P (snd (receive_hello_perf C P A addr f w))" by (rule receive_hello_perf_ok [OF assms(1,2) f])
  have h': "call_ok P (fst fl, snd (snd fl))" if "fl = flush_perf C (Some reply) (snd (receive_hello_perf C P A addr f w))" for fl
    using flush_call_ok [OF C h, of "Some reply" "fst fl" "fst (snd fl)" "snd (snd fl)"] that by simp
  have quiet: "call_ok P (Err (fault_un UnknownLocalKeyId False) :: (receive_error_perf, receive_ok_perf \<times> i64 option) outcome, w)"
    using assms(2) by simp
  show ?thesis using assms(4) False quiet
    by (auto simp: Context_receive_perf_def case_prod_beta simp del: call_ok_pair split: option.splits bind_splits prod.splits
        intro: flush_call_ok [OF C s] flush_call_ok [OF C b] h')
qed (use assms in \<open>auto simp: Context_receive_perf_def\<close>)

lemma Context_send_perf_ok:
  assumes "world_ok P w" "Context_send_perf C P' s send mtu p w = (r, wire, w')"
  shows "call_ok P (r, w')"
proof (cases "px_heap w s")
  case (Some z)
  obtain wire' res where q: "send_payload_perf C P' send mtu p z w = (wire', res)" by (cases "send_payload_perf C P' send mtu p z w")
  have "handler_ok P w res" by (rule send_payload_perf_ok [OF assms(1) stored_ok [OF assms(1) Some] q])
  then show ?thesis using handler_put [of P w res s] handler_returns [of P w res] assms(2) Some q
    by (cases res) (auto simp: Context_send_perf_def)
qed (use assms in \<open>auto simp: Context_send_perf_def\<close>)

lemma Session_expire_perf_ok:
  assumes "world_ok P w"
  shows "call_ok P (Session_expire_perf s w :: ('e, unit) outcome \<times> _)"
proof (cases "px_heap w s")
  case (Some z)
  have "handler_ok P w (expire_then (Ok ()) z w :: ('e, unit, _, _, _, _, _, _, _) presult)"
    by (rule expire_then_ok [OF assms stored_ok [OF assms Some]]) simp
  from handler_put [OF this, of s] handler_returns [OF this] show ?thesis using Some
    by (simp add: Session_expire_perf_def case_prod_beta put_session_def)
qed (use assms in \<open>simp add: Session_expire_perf_def\<close>)

lemma Session_drop_perf_ok:
  assumes "world_ok P w"
  shows "call_ok P (Session_drop_perf s w :: ('e, unit) outcome \<times> _)"
proof -
  have "world_ok P (w\<lparr>px_heap := (px_heap w)(s := None)\<rparr>)" if "world_ok P w" for w :: "('a, 'b, 'c, 'd, 'f, 'g, 'h) pworld"
    using that by (auto simp: world_ok_def)
  then show ?thesis using Session_expire_perf_ok [OF assms, of s, where 'e = 'e]
    by (auto simp: Session_drop_perf_def case_prod_beta call_ok_def)
qed

text \<open>The clock that a call of the service reads, and what is asked of it: adding the resend time does not wrap around.\<close>

definition clock_ok ::
  "('pk, 'kp, 'r, 'kem) crypto_layer \<Rightarrow> ('pk, 'd, 'fd, 'a) application_perf \<Rightarrow> ('pk, 'kp, 'r, 'kem, 'd, 'fd, 'a) pworld \<Rightarrow> bool" where
  "clock_ok C A w \<longleftrightarrow> (let now = fst (pa_time A (pw_app w)) in now < after now (resend_time (SETTINGS C)) \<and> now < I64_MAX)"

text \<open>The generator finds fresh key ids for every entry of the queue and for every session, beside
  those that are in use: the most that one call of the service asks for.\<close>

definition service_room :: "('pk, 'kp, 'r, 'kem) crypto_layer \<Rightarrow> ('pk, 'kp, 'r, 'kem, 'd, 'fd, 'a) pworld \<Rightarrow> bool" where
  "service_room C w \<longleftrightarrow>
     kids_room C (card (dom (px_session_map w)) + card (heap_entries (px_session_queue w)) + card (dom (px_heap w)))"

lemma service_room_load: "world_ok P w \<Longrightarrow> service_room C w \<Longrightarrow> kids_room C (load now (w\<lparr>pw_app := a\<rparr>))"
proof -
  assume w: "world_ok P w" and r: "service_room C w"
  have "due now (px_session_queue w) \<le> card (heap_entries (px_session_queue w))"
    unfolding due_def by (rule card_mono) (auto simp: finite_entries)
  moreover have "card (alive w) \<le> card (dom (px_heap w))"
    using w by (intro card_mono) (auto simp: world_ok_def alive_def)
  ultimately have "load now w \<le> card (dom (px_session_map w)) + card (heap_entries (px_session_queue w)) + card (dom (px_heap w))"
    by (simp add: load_def)
  with r have "kids_room C (load now w)" unfolding service_room_def by (rule kids_room_mono)
  then show ?thesis by (simp add: load_def alive_def)
qed

lemma time_perf_now: "time_perf A w = (now, w1) \<Longrightarrow> now = fst (pa_time A (pw_app w)) \<and> (\<exists>a. w1 = w\<lparr>pw_app := a\<rparr>)"
  by (auto simp: time_perf_def split: prod.splits)

lemma service_scheduled_ok:
  assumes "settings_ok C" "world_ok P w" "clock_ok C A w"
  shows "\<exists>r wire w'. service_scheduled C P' A send_to w = Some (r, wire, w') \<and> call_ok P (r, w') \<and>
    (service_room C w \<longrightarrow> r \<noteq> Diverge)"
proof -
  obtain now w1 where t: "time_perf A w = (now, w1)" by fastforce
  have w1: "world_ok P w1" using time_perf_frame [OF t] assms(2) by auto
  have "service_room C w \<longrightarrow> kids_room C (load now w1)" using service_room_load [OF assms(2)] time_perf_now [OF t] by auto
  then show ?thesis using servedD [OF service_inner_served [OF assms(1) _ _ w1, of now P' send_to]] assms(3) t time_perf_now [OF t]
    by (auto simp: service_scheduled_def clock_ok_def Let_def)
qed

lemma Context_service_perf_ok:
  assumes "settings_ok C" "world_ok P w" "clock_ok C A w"
  shows "\<exists>r wire w'. Context_service_perf C P' A send_to w = Some (r, wire, w') \<and> call_ok P (r, w') \<and> (\<forall>u. r \<noteq> Err u) \<and>
    (service_room C w \<longrightarrow> r \<noteq> Diverge)"
proof -
  obtain now w1 where t: "time_perf A w = (now, w1)" by fastforce
  have w1: "world_ok P w1" using time_perf_frame [OF t] assms(2) by auto
  obtain r wire w2 where "service_until_ok C P' send_to now [] w1 = Some (r, wire, w2)" "call_ok P (r, w2)" "\<forall>u. r \<noteq> Err u"
    "kids_room C (load now w1) \<longrightarrow> r \<noteq> Diverge"
    using service_until_ok_returns [OF assms(1) _ _ w1, of now P' send_to "[]"] assms(3) time_perf_now [OF t]
    by (auto simp: clock_ok_def Let_def)
  moreover have "service_room C w \<longrightarrow> kids_room C (load now w1)" using service_room_load [OF assms(2)] time_perf_now [OF t] by auto
  ultimately show ?thesis using t by (cases r) (auto simp: Context_service_perf_def)
qed

section \<open>Reachable contexts\<close>

inductive perf_reachable ::
  "('pk, 'kp, 'r, 'kem) crypto_layer \<Rightarrow> platform \<Rightarrow> ('pk, 'd, 'fd, 'a) application_perf \<Rightarrow> ('pk, 'kp, 'r, 'kem, 'd, 'fd, 'a) pworld \<Rightarrow> bool"
  for C P A where
  perf_start: "perf_reachable C P A (Context_new_perf C secret rng a)"
| perf_open: "perf_reachable C P A w \<Longrightarrow> heap_room (px_session_queue w) \<Longrightarrow>
    Context_open_perf C P A send mtu pk d ident w = (r, wire, w') \<Longrightarrow> perf_reachable C P A w'"
| perf_open_ratchet: "perf_reachable C P A w \<Longrightarrow> heap_room (px_session_queue w) \<Longrightarrow>
    ratchet_wf (rss_state1 rss) \<Longrightarrow> pred_option ratchet_wf (rss_state2 rss) \<Longrightarrow>
    open_with_ratchet C P A send mtu pk d ident rss w = (r, wire, w') \<Longrightarrow> perf_reachable C P A w'"
| perf_receive: "perf_reachable C P A w \<Longrightarrow> heap_room (px_session_queue w) \<Longrightarrow>
    Context_receive_perf C P A reply send_to out addr f w = (written, res, wire, w') \<Longrightarrow> perf_reachable C P A w'"
| perf_send: "perf_reachable C P A w \<Longrightarrow> Context_send_perf C P s send mtu p w = (sent, wire, w') \<Longrightarrow> perf_reachable C P A w'"
| perf_service: "perf_reachable C P A w \<Longrightarrow> clock_ok C A w \<Longrightarrow>
    Context_service_perf C P A send_to w = Some (t, wire, w') \<Longrightarrow> perf_reachable C P A w'"
| perf_scheduled: "perf_reachable C P A w \<Longrightarrow> clock_ok C A w \<Longrightarrow>
    service_scheduled C P A send_to w = Some (ts, wire, w') \<Longrightarrow> perf_reachable C P A w'"
| perf_expire: "perf_reachable C P A w \<Longrightarrow> Session_expire_perf s w = (Ok () :: (unit, unit) outcome, w') \<Longrightarrow> perf_reachable C P A w'"
| perf_drop: "perf_reachable C P A w \<Longrightarrow> Session_drop_perf s w = (Ok () :: (unit, unit) outcome, w') \<Longrightarrow> perf_reachable C P A w'"

lemma perf_reachable_ok:
  assumes "perf_reachable C P A w" "settings_ok C" "restores_sized A"
  shows "world_ok P w"
  using assms(1)
proof (induction rule: perf_reachable.induct)
  case (perf_start secret rng a)
  show ?case by (rule Context_new_perf_ok)
next
  case (perf_open w send mtu pk d ident r wire w')
  then show ?case using Context_open_perf_ok [OF assms(2,3)] by (metis call_ok_pair)
next
  case (perf_open_ratchet w rss send mtu pk d ident r wire w')
  then show ?case using open_with_ratchet_ok [OF assms(2)] by (metis call_ok_pair)
next
  case (perf_receive w reply send_to out addr f written res wire w')
  then show ?case using Context_receive_perf_ok [OF assms(2)] by (metis call_ok_pair)
next
  case (perf_send w s send mtu p sent wire w')
  then show ?case using Context_send_perf_ok by (metis call_ok_pair)
next
  case (perf_service w send_to t wire w')
  then show ?case using Context_service_perf_ok [OF assms(2) perf_service.IH perf_service.hyps(2), of P send_to] by auto
next
  case (perf_scheduled w send_to ts wire w')
  then show ?case using service_scheduled_ok [OF assms(2) perf_scheduled.IH perf_scheduled.hyps(2), of P send_to] by auto
next
  case (perf_expire w s w')
  then show ?case using Session_expire_perf_ok [of P w s, where 'e = unit] by simp
next
  case (perf_drop w s w')
  then show ?case using Session_drop_perf_ok [of P w s, where 'e = unit] by simp
qed

section \<open>Properties\<close>

text \<open>C2: Every context of the performance crate that a program reaches by opening, receiving, sending,
  servicing, expiring and dropping sessions is well formed: the queue is a well-formed heap, every
  session holds the keys and the packets its automaton needs, with the sizes the wire expects, its
  queue index was issued by the queue, its timers are off once it has expired, the defragmenters and
  the fragment cache hold whole packets only.\<close>

theorem perf_contexts_wf:
  assumes "perf_reachable C P A w" "settings_ok C" "restores_sized A"
  shows "heap_wf (px_session_queue w) \<and> (\<forall>s z. px_heap w s = Some z \<longrightarrow> session_ok P (generation w) z) \<and>
    (\<forall>addr b2. px_b2_heap w addr = Some b2 \<longrightarrow> defrag_ok P (pb_defrag b2)) \<and> cache_ok (px_defrag_cache w)"
  using perf_reachable_ok [OF assms] by (simp add: world_ok_def)


text \<open>C14: The periodic service of a reachable context returns: its loop over the queue and the loop
  around it, which starts over for every session that expires, both end, and the result is the
  time to the next call, neither a panic nor an error nor a search for a key id that never ends.
  The clock must be one to which the resend time can be added without wrapping around, and the
  generator must still find unused key ids when one for every queue entry and one for every
  session were added to those in use.\<close>

theorem perf_service_returns:
  assumes "perf_reachable C P A w" "settings_ok C" "restores_sized A" "clock_ok C A w" "service_room C w"
  shows "\<exists>t wire w'. Context_service_perf C P A send_to w = Some (Ok t, wire, w')"
proof -
  obtain r wire w' where "Context_service_perf C P A send_to w = Some (r, wire, w')" "r \<noteq> Panic" "\<forall>u. r \<noteq> Err u" "r \<noteq> Diverge"
    using Context_service_perf_ok [OF assms(2) perf_reachable_ok [OF assms(1-3)] assms(4), of P send_to] assms(5) by auto
  then show ?thesis by (cases r) auto
qed

lemma sample_settings_ok: "settings_ok sample_crypto"
  by (simp add: settings_ok_def sample_crypto_sized) (simp add: sample_crypto_def new_ms_def REKEY_AFTER_TIME_MAX_JITTER_MS_def)

lemma sample_restores_sized: "restores_sized sample_application"
  by (simp add: restores_sized_def sample_application_def)

lemma sample_context_reachable: "perf_reachable sample_crypto sample_platform sample_application sample_context"
  unfolding sample_context_def by (rule perf_start)

lemma sample_context_room: "heap_room (px_session_queue sample_context)" "clock_ok sample_crypto sample_application sample_context"
  by (simp_all add: sample_context_def Context_new_perf_def case_prod_beta heap_room_def heap_new_def USIZE_MAX_def
      clock_ok_def sample_application_def sample_crypto_def new_ms_def after_def i64_add_def as_i64_def wrap_i64_def I64_MAX_def RESEND_TIME_def)

text \<open>A context with one session, in its handshake.\<close>

definition sample_opened :: "(u8, u8, nat, unit, unit, unit, unit) pworld" where
  "sample_opened = snd (snd (Context_open_perf sample_crypto sample_platform sample_application (\<lambda>_. True) 1400 7 () [1, 2] sample_context))"

lemma sample_opened_reachable: "perf_reachable sample_crypto sample_platform sample_application sample_opened"
proof -
  obtain r wire w where o: "Context_open_perf sample_crypto sample_platform sample_application (\<lambda>_. True) 1400 7 () [1, 2] sample_context
    = (r, wire, w)" by (metis surj_pair)
  from perf_open [OF sample_context_reachable sample_context_room(1) this] show ?thesis by (simp add: sample_opened_def o)
qed

lemma sample_context_fields:
  "px_session_map sample_context = Map.empty" "px_heap sample_context = Map.empty" "px_next_session sample_context = 0"
  "px_session_queue sample_context = heap_new"
  by (simp_all add: sample_context_def Context_new_perf_def case_prod_beta)

lemma sample_opened_fields:
  "\<exists>kid z. px_session_map sample_opened = [kid \<mapsto> 0] \<and> px_heap sample_opened = [0 \<mapsto> z] \<and>
     length (ih_data (px_session_queue sample_opened)) = 1 \<and> heap_room (px_session_queue sample_opened)"
proof -
  obtain kid g where k: "gen_kid sample_crypto (Map.empty :: u32 \<rightharpoonup> session_id) (px_rng sample_context) = Some (kid, g)"
    using kids_liveD [OF sample_kids_live] by blast
  obtain a1 g1 where a: "create_a1_state_perf sample_crypto sample_platform g 7 kid (rss_state1 new_initial_states)
    (rss_state2 new_initial_states) [1, 2] = (a1, g1)" by fastforce
  obtain hr hs where h: "get_ask_perf sample_crypto (ap_noise a1) LABEL_HEADER_KEY = (hr, hs)" by fastforce
  show ?thesis
    by (simp add: sample_opened_def Context_open_perf_def open_with_ratchet_def trans_to_a1_perf_def IDENTITY_MAX_SIZE_def
        sample_application_def sample_context_fields k a h time_perf_def register_perf_def reduce_next_service_time_def
        heap_eval heap_new_def USIZE_MAX_def heap_room_def new_a1_session_def emit_perf_def flush_perf_def Let_def
        split: prod.splits option.splits) blast
qed

lemma sample_opened_room:
  "heap_room (px_session_queue sample_opened)" "clock_ok sample_crypto sample_application sample_opened"
  "service_room sample_crypto sample_opened"
proof -
  obtain kid z where o: "px_session_map sample_opened = [kid \<mapsto> 0]" "px_heap sample_opened = [0 \<mapsto> z]"
    "length (ih_data (px_session_queue sample_opened)) = 1" "heap_room (px_session_queue sample_opened)"
    using sample_opened_fields by blast
  show "heap_room (px_session_queue sample_opened)" by (rule o(4))
  show "clock_ok sample_crypto sample_application sample_opened"
    using sample_context_room(2) by (simp add: clock_ok_def sample_application_def)
  have "card (heap_entries (px_session_queue sample_opened)) \<le> length (ih_data (px_session_queue sample_opened))"
    unfolding heap_entries_def by (rule order_trans [OF card_image_le [OF finite_set] card_length])
  then show "service_room sample_crypto sample_opened"
    unfolding service_room_def by (intro sample_kids_room) (simp add: o)
qed

theorem perf_contexts_wf_witness:
  "\<exists>z. px_heap sample_opened 0 = Some z \<and> session_ok sample_platform (generation sample_opened) z \<and>
     heap_wf (px_session_queue sample_opened) \<and> cache_ok (px_defrag_cache sample_opened)"
  using perf_contexts_wf [OF sample_opened_reachable sample_settings_ok sample_restores_sized] sample_opened_fields by fastforce


theorem perf_service_returns_witness:
  "\<exists>t wire w. px_heap sample_opened 0 \<noteq> None \<and>
     Context_service_perf sample_crypto sample_platform sample_application (\<lambda>_. None) sample_opened = Some (Ok t, wire, w)"
  using perf_service_returns [OF sample_opened_reachable sample_settings_ok sample_restores_sized sample_opened_room(2,3)]
    sample_opened_fields by fastforce

end
