(* ===== verification/Perf_Threads.thy ===== *)
theory Perf_Threads
  imports Perf_Reachable
begin

text \<open>
  Several threads on one session of the performance crate. A thread holds the read lock of the
  session while it takes a send counter with one atomic \<open>fetch_add\<close> and encrypts under it; a thread
  that got no counter gives the lock back and expires the session, which takes the write lock; a
  payload or a control packet that arrives is entered into the window with one atomic \<open>fetch_max\<close>.
  The theorems are that no counter is used for two packets and that none is delivered twice,
  whatever the interleaving.
\<close>

section \<open>A session shared by threads\<close>

datatype thread_phase = Idle | Reading | Expiring

text \<open>
  \<open>th_sent\<close> lists the counters under which a packet was encrypted, \<open>th_delivered\<close> those of the
  payloads of which something was written to a caller. \<open>th_fresh\<close>: the responder's first key
  confirmation is not sent yet.
\<close>

record ('pk, 'kp, 'r, 'kem, 'd, 'fd, 'a) threads =
  th_phase :: "nat \<Rightarrow> thread_phase"
  th_session :: "('pk, 'kp, 'kem, 'd) session_perf"
  th_world :: "('pk, 'kp, 'r, 'kem, 'd, 'fd, 'a) pworld"
  th_fresh :: bool
  th_sent :: "u64 list"
  th_delivered :: "u64 list"

definition no_reader :: "('pk, 'kp, 'r, 'kem, 'd, 'fd, 'a) threads \<Rightarrow> bool" where
  "no_reader k \<longleftrightarrow> (\<forall>t. th_phase k t \<noteq> Reading)"

text \<open>A packet can be encrypted only when the current key has an id to send to.\<close>

definition sends_under :: "('pk, 'kp, 'kem, 'd) session_perf \<Rightarrow> u64 \<Rightarrow> u64 list" where
  "sends_under z c = (if ke_kid (dp_send (key_ref_perf z False)) = None then [] else [c])"

text \<open>
  What a transition that holds the write lock leaves alone: the counter and the window, which are
  atomics outside of the lock, and whether the session has expired. Transitions hold
  \<open>state_machine_lock\<close> from the moment they look at the automaton, as \<open>expire_inner\<close> does.
\<close>

definition keeps_atomics :: "('pk, 'kp, 'kem, 'd) session_perf \<Rightarrow> ('pk, 'kp, 'kem, 'd) session_perf \<Rightarrow> bool" where
  "keeps_atomics z z' \<longleftrightarrow> ps_send_counter z' = ps_send_counter z \<and> ps_window z' = ps_window z \<and>
     (ps_beta z' = PNull \<longleftrightarrow> ps_beta z = PNull) \<and> (ps_beta z = PNull \<longrightarrow> ps_keys z' = ps_keys z)"

inductive thread_step ::
  "('pk, 'kp, 'r, 'kem) crypto_layer \<Rightarrow> platform \<Rightarrow> nat set
     \<Rightarrow> ('pk, 'kp, 'r, 'kem, 'd, 'fd, 'a) threads \<Rightarrow> ('pk, 'kp, 'r, 'kem, 'd, 'fd, 'a) threads \<Rightarrow> bool"
  for C P T where
  lock_read: "t \<in> T \<Longrightarrow> th_phase k t = Idle \<Longrightarrow> thread_step C P T k (k\<lparr>th_phase := (th_phase k)(t := Reading)\<rparr>)"
| unlock_read: "th_phase k t = Reading \<Longrightarrow> thread_step C P T k (k\<lparr>th_phase := (th_phase k)(t := Idle)\<rparr>)"
| take_counter: "th_phase k t = Reading \<Longrightarrow> get_counter_perf C (th_session k) = (Some (c, rekey), z) \<Longrightarrow>
    thread_step C P T k (k\<lparr>th_phase := (th_phase k)(t := Idle), th_session := z, th_sent := th_sent k @ sends_under z c\<rparr>)"
| no_counter: "th_phase k t = Reading \<Longrightarrow> get_counter_perf C (th_session k) = (None, z) \<Longrightarrow>
    thread_step C P T k (k\<lparr>th_phase := (th_phase k)(t := Expiring), th_session := z\<rparr>)"
| no_first_counter: "th_fresh k \<Longrightarrow> get_counter_perf C (th_session k) = (None, z) \<Longrightarrow>
    thread_step C P T k (k\<lparr>th_session := z, th_fresh := False\<rparr>)"
| expire_write: "no_reader k \<Longrightarrow> expire_inner (th_session k) (th_world k) = Some (z, w) \<Longrightarrow>
    thread_step C P T k (k\<lparr>th_phase := (th_phase k)(t := Idle), th_session := z, th_world := w\<rparr>)"
| transition_write: "no_reader k \<Longrightarrow> keeps_atomics (th_session k) z \<Longrightarrow>
    thread_step C P T k (k\<lparr>th_session := z, th_world := w\<rparr>)"
| control_arrives: "window_update_perf (th_session k) c = (ok, z) \<Longrightarrow> thread_step C P T k (k\<lparr>th_session := z\<rparr>)"
| payload_arrives: "receive_payload_in_place P out s kid n fragments (th_session k) = (written, r, z) \<Longrightarrow>
    thread_step C P T k (k\<lparr>th_session := z,
      th_delivered := th_delivered k @ (if r = Ok () \<or> written \<noteq> [] then [snd (from_nonce n)] else [])\<rparr>)"

inductive threads_reachable ::
  "('pk, 'kp, 'r, 'kem) crypto_layer \<Rightarrow> platform \<Rightarrow> nat set \<Rightarrow> ('pk, 'kp, 'r, 'kem, 'd, 'fd, 'a) threads \<Rightarrow> bool"
  for C P T where
  threads_start: "ps_send_counter z \<le> 1 \<Longrightarrow> window_wf (ps_window z) \<Longrightarrow> ps_beta z \<noteq> PNull \<Longrightarrow>
    threads_reachable C P T \<lparr>th_phase = (\<lambda>_. Idle), th_session = z, th_world = w, th_fresh = True, th_sent = [], th_delivered = []\<rparr>"
| threads_step: "threads_reachable C P T k \<Longrightarrow> thread_step C P T k k' \<Longrightarrow> threads_reachable C P T k'"

section \<open>What a step does to the counter and to the window\<close>

lemma get_counter_perf_next:
  assumes "get_counter_perf C z = (r, z')"
  shows "z' = z\<lparr>ps_send_counter := ps_send_counter z + 1\<rparr>"
    "r = Some (c, rekey) \<Longrightarrow> c = ps_send_counter z \<and> c \<le> THREAD_SAFE_COUNTER_HARD_EXPIRE"
  using assms by (auto simp: get_counter_perf_def Let_def split: if_splits)

lemma expire_inner_session:
  assumes "expire_inner z w = Some (z', w')"
  shows "ps_beta z' = PNull" "ps_send_counter z' = ps_send_counter z" "ps_window z' = ps_window z"
    "ps_beta z = PNull \<Longrightarrow> z' = z" "ps_beta z \<noteq> PNull \<Longrightarrow> ke_kid (dp_send (ps_keys z' b)) = None"
  using assms
  by (auto simp: expire_inner_def Let_def duplex_key_perf_default_def keys_perf_default_def
      split: if_splits option.splits)

lemma window_update_perf_keeps:
  "ps_beta (snd (window_update_perf z c)) = ps_beta z" "ps_send_counter (snd (window_update_perf z c)) = ps_send_counter z"
  "ps_keys (snd (window_update_perf z c)) = ps_keys z"
  by (simp_all add: window_update_perf_def case_prod_beta)

lemma receive_payload_in_place_window:
  assumes "receive_payload_in_place P out s kid n fragments z = (written, r, z')"
  shows "z' = z \<and> r \<noteq> Ok () \<and> written = [] \<or>
    z' = snd (window_update_perf z (snd (from_nonce n))) \<and>
    (fst (window_update_perf z (snd (from_nonce n))) \<or> r \<noteq> Ok () \<and> written = [])"
  using assms by (auto simp: receive_payload_in_place_def Let_def case_prod_beta split: if_splits option.splits)

section \<open>No payload is delivered twice\<close>

definition deliveries_ok :: "('pk, 'kp, 'r, 'kem, 'd, 'fd, 'a) threads \<Rightarrow> bool" where
  "deliveries_ok k \<longleftrightarrow> window_wf (ps_window (th_session k)) \<and> distinct (th_delivered k) \<and>
     (\<forall>c \<in> set (th_delivered k). wrapping_taken (ps_window (th_session k)) c)"

lemma deliveries_update:
  assumes "deliveries_ok k" "window_update_perf (th_session k) c = (ok, z)"
  shows "deliveries_ok (k\<lparr>th_session := z, th_delivered := th_delivered k @ (if ok \<and> b then [c] else [])\<rparr>)"
proof -
  let ?win = "ps_window (th_session k)" let ?u = "Window_update COUNTER_WINDOW_MAX_SKIP_AHEAD ?win c"
  have z: "ps_window z = snd ?u" "ok = fst ?u" using assms(2) by (auto simp: window_update_perf_def split: prod.splits)
  have wf: "window_wf ?win" using assms(1) by (simp add: deliveries_ok_def)
  have "ok \<Longrightarrow> c \<notin> set (th_delivered k)"
    using assms(1) performance_window.taken_refused [OF wf, of c] z(2) by (auto simp: deliveries_ok_def)
  moreover have "ok \<Longrightarrow> wrapping_taken (ps_window z) c" using performance_window.upd_taken [OF wf] z by simp
  ultimately show ?thesis
    using assms(1) performance_window.upd_wf [OF wf] performance_window.taken_stays [OF wf] z(1) by (auto simp: deliveries_ok_def)
qed

lemma threads_deliveries: "threads_reachable C P T k \<Longrightarrow> deliveries_ok k"
proof (induction rule: threads_reachable.induct)
  case (threads_start z w)
  then show ?case by (simp add: deliveries_ok_def)
next
  case (threads_step k k')
  from threads_step.hyps(2) threads_step.IH show ?case
  proof (induction rule: thread_step.induct)
    case (control_arrives k c ok z)
    then show ?case using deliveries_update [of k c ok z False] by (simp add: deliveries_ok_def)
  next
    case (payload_arrives out s kid n fragments k written r z)
    then show ?case
      using receive_payload_in_place_window [OF payload_arrives(1)] deliveries_update [OF payload_arrives(2) surjective_pairing]
      by (auto simp: deliveries_ok_def)
  qed (auto simp: deliveries_ok_def keeps_atomics_def dest: get_counter_perf_next(1) expire_inner_session(3))
qed

section \<open>No counter is used twice\<close>

definition expiring :: "nat set \<Rightarrow> ('pk, 'kp, 'r, 'kem, 'd, 'fd, 'a) threads \<Rightarrow> nat" where
  "expiring T k = card {t \<in> T. th_phase k t = Expiring}"

text \<open>
  The invariant. While the session lives, the counter is past every counter that was used, and past
  the hard limit by at most one for every thread that has yet to expire the session; afterwards there
  is no key to send under.
\<close>

definition counters_ok :: "nat set \<Rightarrow> ('pk, 'kp, 'r, 'kem, 'd, 'fd, 'a) threads \<Rightarrow> bool" where
  "counters_ok T k \<longleftrightarrow> (\<forall>t. th_phase k t \<noteq> Idle \<longrightarrow> t \<in> T) \<and> distinct (th_sent k) \<and>
     (if ps_beta (th_session k) = PNull then \<forall>b. ke_kid (dp_send (ps_keys (th_session k) b)) = None
      else (\<forall>c \<in> set (th_sent k). c < ps_send_counter (th_session k)) \<and>
        unat (ps_send_counter (th_session k)) \<le> unat THREAD_SAFE_COUNTER_HARD_EXPIRE + 1 + expiring T k + (if th_fresh k then 0 else 1))"

lemma counter_limit: "unat THREAD_SAFE_COUNTER_HARD_EXPIRE = 2 ^ 64 - 1 - 2 ^ 16"
  by (simp add: THREAD_SAFE_COUNTER_HARD_EXPIRE_def)

lemma unat_next: "unat (c :: u64) + 1 < 2 ^ 64 \<Longrightarrow> unat (c + 1) = unat c + 1"
  using unat_add_lem [of c 1] by simp

lemma less_next: "unat (c :: u64) + 1 < 2 ^ 64 \<Longrightarrow> d < c + 1 \<longleftrightarrow> d \<le> c"
  by (simp add: word_less_nat_alt word_le_nat_alt unat_next less_Suc_eq_le)

lemma expiring_phase:
  assumes "finite T"
  shows "p \<noteq> Expiring \<Longrightarrow> th_phase k t \<noteq> Expiring \<Longrightarrow> expiring T (k\<lparr>th_phase := (th_phase k)(t := p)\<rparr>) = expiring T k"
    "t \<in> T \<Longrightarrow> th_phase k t \<noteq> Expiring \<Longrightarrow> expiring T (k\<lparr>th_phase := (th_phase k)(t := Expiring)\<rparr>) = Suc (expiring T k)"
    "t \<in> T \<Longrightarrow> th_phase k t \<noteq> Expiring \<Longrightarrow> expiring T k < card T"
proof -
  show "expiring T (k\<lparr>th_phase := (th_phase k)(t := p)\<rparr>) = expiring T k" if "p \<noteq> Expiring" "th_phase k t \<noteq> Expiring"
    unfolding expiring_def using that by (intro arg_cong [where f = card]) auto
  assume t: "t \<in> T" "th_phase k t \<noteq> Expiring"
  have "{s \<in> T. ((th_phase k)(t := Expiring)) s = Expiring} = insert t {s \<in> T. th_phase k s = Expiring}" using t by auto
  then show "expiring T (k\<lparr>th_phase := (th_phase k)(t := Expiring)\<rparr>) = Suc (expiring T k)" using t assms by (simp add: expiring_def)
  have "{s \<in> T. th_phase k s = Expiring} \<subset> T" using t by auto
  then show "expiring T k < card T" unfolding expiring_def using assms by (intro psubset_card_mono)
qed

lemma expiring_frame [simp]:
  "expiring T (k\<lparr>th_session := z\<rparr>) = expiring T k" "expiring T (k\<lparr>th_world := w\<rparr>) = expiring T k"
  "expiring T (k\<lparr>th_sent := l\<rparr>) = expiring T k" "expiring T (k\<lparr>th_delivered := l\<rparr>) = expiring T k"
  "expiring T (k\<lparr>th_fresh := f\<rparr>) = expiring T k"
  by (simp_all add: expiring_def)

lemma counters_take:
  assumes "finite T" "counters_ok T k" "th_phase k t = Reading" "get_counter_perf C (th_session k) = (Some (c, rekey), z)"
  shows "counters_ok T (k\<lparr>th_phase := (th_phase k)(t := Idle), th_session := z, th_sent := th_sent k @ sends_under z c\<rparr>)"
proof -
  let ?c = "ps_send_counter (th_session k)"
  note z = get_counter_perf_next(1) [OF assms(4)]
  have c: "c = ?c" "unat c \<le> unat THREAD_SAFE_COUNTER_HARD_EXPIRE"
    using get_counter_perf_next(2) [OF assms(4) refl] by (auto simp: word_le_nat_alt)
  have n: "unat ?c + 1 < 2 ^ 64" using c by (simp add: counter_limit)
  show ?thesis
  proof (cases "ps_beta (th_session k) = PNull")
    case True
    then show ?thesis using assms(2) by (auto simp: counters_ok_def z sends_under_def key_ref_perf_def)
  next
    case False
    have "distinct (th_sent k @ sends_under z c)" "\<forall>d \<in> set (th_sent k @ sends_under z c). d < ?c + 1"
      using assms(2) False by (auto simp: counters_ok_def sends_under_def c(1) less_next [OF n])
    then show ?thesis using assms(2) False c n
      by (simp add: counters_ok_def z unat_next [OF n])
  qed
qed

lemma counters_none:
  assumes "finite T" "card T + 1 < 2 ^ 16" "counters_ok T k" "get_counter_perf C (th_session k) = (None, z)"
  shows "th_phase k t = Reading \<Longrightarrow> counters_ok T (k\<lparr>th_phase := (th_phase k)(t := Expiring), th_session := z\<rparr>)"
    "th_fresh k \<Longrightarrow> counters_ok T (k\<lparr>th_session := z, th_fresh := False\<rparr>)"
proof -
  note z = get_counter_perf_next(1) [OF assms(4)]
  let ?c = "ps_send_counter (th_session k)"
  have e: "expiring T k \<le> card T" unfolding expiring_def using assms(1) by (intro card_mono) auto
  have n: "unat ?c + 1 < 2 ^ 64" if "ps_beta (th_session k) \<noteq> PNull" "expiring T k < card T \<or> th_fresh k"
    using assms(2,3) that e by (auto simp: counters_ok_def counter_limit split: if_splits)
  have u: "\<forall>d \<in> set (th_sent k). d < ?c + 1" "unat (?c + 1) = unat ?c + 1"
    if "ps_beta (th_session k) \<noteq> PNull" "expiring T k < card T \<or> th_fresh k"
    using assms(3) that by (auto simp: counters_ok_def less_next [OF n [OF that]] unat_next [OF n [OF that]])
  show "counters_ok T (k\<lparr>th_phase := (th_phase k)(t := Expiring), th_session := z\<rparr>)" if "th_phase k t = Reading"
  proof -
    have t: "t \<in> T" using assms(3) that by (auto simp: counters_ok_def)
    then show ?thesis using assms(3) u expiring_phase(2,3) [OF assms(1), of t k] that by (auto simp: counters_ok_def z)
  qed
  show "counters_ok T (k\<lparr>th_session := z, th_fresh := False\<rparr>)" if "th_fresh k"
    using assms(3) u that by (auto simp: counters_ok_def z)
qed

lemma threads_counters:
  assumes "finite T" "card T + 1 < 2 ^ 16"
  shows "threads_reachable C P T k \<Longrightarrow> counters_ok T k"
proof (induction rule: threads_reachable.induct)
  case (threads_start z w)
  then have "unat (ps_send_counter z) \<le> 1" by (simp add: word_le_nat_alt)
  then show ?case using threads_start by (simp add: counters_ok_def counter_limit)
next
  case (threads_step k k')
  from threads_step.hyps(2) threads_step.IH show ?case
  proof (induction rule: thread_step.induct)
    case (take_counter k t c rekey z)
    then show ?case using counters_take [OF assms(1)] by blast
  next
    case (no_counter k t z)
    then show ?case using counters_none(1) [OF assms] by blast
  next
    case (no_first_counter k z)
    then show ?case using counters_none(2) [OF assms] by blast
  next
    case (expire_write k t z w)
    then show ?case using expire_inner_session [OF expire_write(2)] by (auto simp: counters_ok_def split: if_splits)
  next
    case (control_arrives k c ok z)
    then show ?case using window_update_perf_keeps [of "th_session k" c] by (auto simp: counters_ok_def)
  next
    case (payload_arrives out s kid n fragments k written r z)
    then show ?case
      using receive_payload_in_place_window [OF payload_arrives(1)] by (auto simp: counters_ok_def window_update_perf_keeps)
  qed (auto simp: counters_ok_def keeps_atomics_def expiring_phase [OF assms(1)] split: if_splits)
qed

text \<open>C4: However many packets fewer than 65535 threads send at once on one session, and however they
  are interleaved with rekeys, with packets that arrive and with its expiry, no two packets are
  encrypted under the same counter.\<close>

theorem perf_nonces_unique:
  assumes "finite T" "card T + 1 < 2 ^ 16" "threads_reachable C P T k"
  shows "distinct (th_sent k)"
  using threads_counters [OF assms] by (simp add: counters_ok_def)

text \<open>C7: Whatever threads receive on one session at once, no counter is delivered to the
  application twice.\<close>

theorem perf_delivered_once: "threads_reachable C P T k \<Longrightarrow> distinct (th_delivered k)"
  using threads_deliveries by (auto simp: deliveries_ok_def)

definition sample_threads :: "(u8, u8, nat, unit, unit, unit, unit) threads" where
  "sample_threads = \<lparr>th_phase = (\<lambda>_. Idle), th_session = sample_session 5 6 1 2, th_world = sample_sender, th_fresh = True,
     th_sent = [], th_delivered = []\<rparr>"

lemma sample_window: "ps_window (sample_session a b c d) = window_new COUNTER_WINDOW_MAX_OOO"
  by (simp add: sample_session_def new_bob_session_def Let_def key_mut_perf_def)

lemma sample_threads_reachable: "threads_reachable sample_crypto sample_platform T sample_threads"
  unfolding sample_threads_def
  by (rule threads_start) (simp_all add: sample_sender_fields sample_window window_wf_def window_new_def zssp_sizes)

text \<open>Two threads that send at once.\<close>

lemma sample_threads_sent:
  "\<exists>k :: (u8, u8, nat, unit, unit, unit, unit) threads. threads_reachable sample_crypto sample_platform {0, 1} k \<and> th_sent k = [1, 2]"
proof -
  let ?R = "threads_reachable sample_crypto sample_platform {0, 1}" let ?z = "sample_session 5 6 1 2"
  let ?k0 = "sample_threads\<lparr>th_phase := (\<lambda>_. Idle)(0 := Reading)\<rparr>"
  let ?k1 = "?k0\<lparr>th_phase := (\<lambda>_. Idle)(0 := Reading, 1 := Reading)\<rparr>"
  let ?k2 = "?k1\<lparr>th_phase := (\<lambda>_. Idle)(1 := Reading, 0 := Idle), th_session := ?z\<lparr>ps_send_counter := 2\<rparr>, th_sent := [1]\<rparr>"
  have k0: "?R ?k0"
    using threads_step [OF sample_threads_reachable lock_read [of 0]] by (simp add: sample_threads_def)
  have k1: "?R ?k1" using threads_step [OF k0 lock_read [of 1]] by (simp add: sample_threads_def)
  have g: "\<exists>r. get_counter_perf sample_crypto ?z = (Some (1, r), ?z\<lparr>ps_send_counter := 2\<rparr>)"
    "\<exists>r. get_counter_perf sample_crypto (?z\<lparr>ps_send_counter := 2\<rparr>) = (Some (2, r), ?z\<lparr>ps_send_counter := 3\<rparr>)"
    by (simp_all add: get_counter_perf_def Let_def sample_sender_fields sample_session_def new_bob_session_def key_mut_perf_def
      THREAD_SAFE_COUNTER_HARD_EXPIRE_def EXPIRE_AFTER_USES_def)
  have s: "sends_under (?z\<lparr>ps_send_counter := n\<rparr>) c = [c]" for n c
    using sample_sender_fields(3) [of 5 6 1 2] by (simp add: sends_under_def key_ref_perf_def)
  obtain r r' where g: "get_counter_perf sample_crypto ?z = (Some (1, r), ?z\<lparr>ps_send_counter := 2\<rparr>)"
    "get_counter_perf sample_crypto (?z\<lparr>ps_send_counter := 2\<rparr>) = (Some (2, r'), ?z\<lparr>ps_send_counter := 3\<rparr>)" using g by blast
  have k2: "?R ?k2" using threads_step [OF k1 take_counter [of _ 0]] g(1) s by (simp add: sample_threads_def)
  have "?R (?k2\<lparr>th_phase := (\<lambda>_. Idle)(0 := Idle, 1 := Idle), th_session := ?z\<lparr>ps_send_counter := 3\<rparr>, th_sent := [1, 2]\<rparr>)"
    using threads_step [OF k2 take_counter [of _ 1]] g(2) s by (simp add: sample_threads_def)
  then show ?thesis by (intro exI conjI) (assumption, simp)
qed

theorem perf_nonces_unique_witness:
  "\<exists>k :: (u8, u8, nat, unit, unit, unit, unit) threads.
     threads_reachable sample_crypto sample_platform {0, 1} k \<and> th_sent k = [1, 2] \<and> distinct (th_sent k)"
  using sample_threads_sent perf_nonces_unique [of "{0, 1}" sample_crypto sample_platform] by auto

lemma sample_threads_delivered:
  "\<exists>k :: (u8, u8, nat, unit, unit, unit, unit) threads. threads_reachable sample_crypto sample_platform {0} k \<and> th_delivered k = [1]"
proof -
  let ?n = "to_nonce PACKET_TYPE_DATA 1"
  let ?fs = "[replicate HEADER_SIZE 0 @ hd (sealed_pieces sample_platform (replicate 32 2) ?n [[7]])]"
  have c: "snd (from_nonce ?n) = 1" by (simp add: from_to_nonce)
  obtain win where "receive_payload_in_place sample_platform (\<lambda>_ x. Inr (length x)) 0 6 ?n ?fs (sample_session 5 6 1 2) =
      (concat [[7]], Ok (), (sample_session 5 6 1 2)\<lparr>ps_window := win\<rparr>)"
  proof -
    have "\<exists>win. receive_payload_in_place sample_platform (\<lambda>_ x. Inr (length x)) 0 6 ?n ?fs (sample_session 5 6 1 2) =
      (concat [[7]], Ok (), (sample_session 5 6 1 2)\<lparr>ps_window := win\<rparr>)"
    proof (rule receive_pieces [OF sample_stream_sized sample_stream_correct])
      show "map (drop HEADER_SIZE) ?fs = sealed_pieces sample_platform (replicate 32 2) ?n [[7]]" by (simp add: sealed_pieces_def)
      show "slot_for (sample_session 5 6 1 2) 6 = Some (key_ref_perf (sample_session 5 6 1 2) False)"
        "Window_check COUNTER_WINDOW_MAX_SKIP_AHEAD (ps_window (sample_session 5 6 1 2)) (snd (from_nonce ?n))"
        unfolding c
        by (simp_all add: sample_session_def new_bob_session_def Let_def key_ref_perf_def key_mut_perf_def sample_b2_def slot_for_def
          duplex_key_perf_default_def keys_perf_default_def replace_nk_def set_recv_kid_perf_def set_send_kid_perf_def
          replace_keks_def replace_kek_def Window_check_def window_new_def window_slot_def zssp_sizes)
    qed (simp_all add: sample_sender_fields(5))
    then show thesis using that by blast
  qed
  then have r: "receive_payload_in_place sample_platform (\<lambda>_ x. Inr (length x)) 0 6 ?n ?fs (th_session sample_threads) =
      (concat [[7]], Ok (), (sample_session 5 6 1 2)\<lparr>ps_window := win\<rparr>)" by (simp add: sample_threads_def)
  show ?thesis by (intro exI conjI, rule threads_step [OF sample_threads_reachable payload_arrives [OF r]]) (simp add: sample_threads_def c)
qed

theorem perf_delivered_once_witness:
  "\<exists>k :: (u8, u8, nat, unit, unit, unit, unit) threads.
     threads_reachable sample_crypto sample_platform {0} k \<and> th_delivered k = [1] \<and> distinct (th_delivered k)"
  using sample_threads_delivered perf_delivered_once [of sample_crypto sample_platform "{0}"] by blast

end
