(* ===== verification/Perf_Locks.thy ===== *)
theory Perf_Locks
  imports Perf_State
begin

text \<open>
  The locks of the performance crate. Each call of the library is given by the locks it takes and
  gives back on each of its paths, in the order of the code. Calls that keep to the order that
  \<open>zssp.rs\<close> documents, \<open>session_queue\<close>, \<open>state_machine_lock\<close>, \<open>state\<close>, \<open>session_map\<close>, never deadlock,
  however many threads run them; three paths break the order, and each of them can deadlock.
\<close>

section \<open>Locks and threads\<close>

text \<open>
  A mutex is a lock that is only taken exclusively; the others are read-write locks. \<open>New s\<close> is the
  lock of the state of a session before any other thread can reach it, \<open>Rng\<close> is \<open>ctx.rng\<close>, \<open>Defrag s\<close> the defragmenters of a session or of a pending handshake, \<open>Caches\<close> the locks of
  the two caches.
\<close>

datatype lock = Queue | Machine session_id | State session_id | Map | New session_id | Rng | Defrag session_id | Caches

datatype lock_mode = Shared | Exclusive

datatype lock_op = Acquire lock lock_mode | Release lock

text \<open>A thread: the locks it holds, and what it has yet to do.\<close>

type_synonym locker = "(lock \<times> lock_mode) list \<times> lock_op list"

fun waits_for :: "locker \<Rightarrow> (lock \<times> lock_mode) option" where
  "waits_for (held, Acquire l m # ops) = Some (l, m)"
| "waits_for _ = None"

definition holds :: "locker \<Rightarrow> lock \<Rightarrow> lock_mode \<Rightarrow> bool" where
  "holds t l m \<longleftrightarrow> (l, m) \<in> set (fst t)"

text \<open>
  A lock that nobody holds, or that is only shared, can be shared; a lock that nobody holds can be
  taken exclusively. A thread that asks again for a lock it holds waits like any other. A fair lock
  is not shared further while a thread waits for it exclusively.
\<close>

definition lock_free :: "bool \<Rightarrow> locker list \<Rightarrow> lock \<Rightarrow> lock_mode \<Rightarrow> bool" where
  "lock_free fair ts l m \<longleftrightarrow>
     (case m of
        Exclusive \<Rightarrow> \<forall>t \<in> set ts. \<not> holds t l Shared \<and> \<not> holds t l Exclusive
      | Shared \<Rightarrow> (\<forall>t \<in> set ts. \<not> holds t l Exclusive) \<and> (fair \<longrightarrow> (\<forall>t \<in> set ts. waits_for t \<noteq> Some (l, Exclusive))))"

fun may_step :: "bool \<Rightarrow> locker list \<Rightarrow> locker \<Rightarrow> bool" where
  "may_step fair ts (held, []) = False"
| "may_step fair ts (held, Release l # ops) = True"
| "may_step fair ts (held, Acquire l m # ops) = lock_free fair ts l m"

fun advance :: "locker \<Rightarrow> locker" where
  "advance (held, []) = (held, [])"
| "advance (held, Release l # ops) = (filter (\<lambda>h. fst h \<noteq> l) held, ops)"
| "advance (held, Acquire l m # ops) = ((l, m) # held, ops)"

inductive lock_steps :: "bool \<Rightarrow> locker list \<Rightarrow> locker list \<Rightarrow> bool" for fair ts0 where
  lock_start: "lock_steps fair ts0 ts0"
| lock_step: "lock_steps fair ts0 ts \<Longrightarrow> i < length ts \<Longrightarrow> may_step fair ts (ts ! i) \<Longrightarrow> lock_steps fair ts0 (ts[i := advance (ts ! i)])"

definition deadlocked :: "bool \<Rightarrow> locker list \<Rightarrow> bool" where
  "deadlocked fair ts \<longleftrightarrow> list_ex (\<lambda>t. snd t \<noteq> []) ts \<and> list_all (\<lambda>t. \<not> may_step fair ts t) ts"

section \<open>A global order of the locks\<close>

fun rank :: "lock \<Rightarrow> nat" where
  "rank Queue = 0" | "rank (Machine s) = 1" | "rank (State s) = 2" | "rank Map = 3" | "rank (New s) = 4"
| "rank Rng = 5" | "rank (Defrag s) = 6" | "rank Caches = 7"

fun ascending :: "(lock \<times> lock_mode) list \<Rightarrow> lock_op list \<Rightarrow> bool" where
  "ascending held [] = (held = [])"
| "ascending held (Release l # ops) = (l \<in> fst ` set held \<and> ascending (filter (\<lambda>h. fst h \<noteq> l) held) ops)"
| "ascending held (Acquire l m # ops) = (list_all (\<lambda>h. rank (fst h) < rank l) held \<and> ascending ((l, m) # held) ops)"

section \<open>The locks of each call\<close>

definition locked :: "lock \<Rightarrow> lock_mode \<Rightarrow> lock_op list \<Rightarrow> lock_op list" where
  "locked l m ops = Acquire l m # ops @ [Release l]"

definition rng_locks :: "lock_op list" where
  "rng_locks = locked Rng Exclusive []"

definition remap_locks :: "lock_op list" where
  "remap_locks = locked Map Exclusive rng_locks"

text \<open>\<open>write_e_no_init\<close>, the generation of the Kyber key and \<open>gen_null_response\<close>.\<close>

definition create_a1_locks :: "lock_op list" where
  "create_a1_locks = rng_locks @ rng_locks @ rng_locks"

definition trans_to_a1_locks :: "session_id \<Rightarrow> lock_op list" where
  "trans_to_a1_locks s =
     [Acquire Queue Exclusive, Acquire Map Exclusive] @ rng_locks @ create_a1_locks @
     locked (New s) Exclusive [] @ [Release Map, Release Queue]"

text \<open>\<open>unexpired\<close>: the session had not expired before.\<close>

definition expire_inner_locks :: "session_id \<Rightarrow> bool \<Rightarrow> lock_op list" where
  "expire_inner_locks s unexpired =
     locked (Machine s) Exclusive (locked (State s) Exclusive (if unexpired then locked Map Exclusive [] else []))"

definition expire_locks :: "session_id \<Rightarrow> bool \<Rightarrow> lock_op list" where
  "expire_locks s unexpired = locked Queue Exclusive (expire_inner_locks s unexpired)"

definition expire_after :: "session_id \<Rightarrow> bool option \<Rightarrow> lock_op list" where
  "expire_after s e = (case e of None \<Rightarrow> [] | Some unexpired \<Rightarrow> expire_locks s unexpired)"

text \<open>\<open>timeout_trans\<close> is called with both locks of the session held.\<close>

datatype timeout_path = Restarted | Rekeyed | Timed_out

fun timeout_locks :: "session_id \<Rightarrow> timeout_path \<Rightarrow> lock_op list" where
  "timeout_locks s Restarted =
     remap_locks @ create_a1_locks @ Release (State s) # locked (State s) Exclusive [] @ [Release (Machine s)]"
| "timeout_locks s Rekeyed =
     remap_locks @ rng_locks @ Release (State s) # locked (State s) Exclusive [] @ Release (Machine s) # locked (State s) Shared []"
| "timeout_locks s Timed_out = [Release (State s), Release (Machine s)]"

definition process_timers_locks :: "session_id \<Rightarrow> timeout_path option \<Rightarrow> lock_op list" where
  "process_timers_locks s p =
     [Acquire (Machine s) Exclusive, Acquire (State s) Shared] @
     (case p of None \<Rightarrow> [Release (State s), Release (Machine s)] | Some p \<Rightarrow> timeout_locks s p)"

text \<open>A handler of an established session that returns before it changes anything.\<close>

definition refused_locks :: "session_id \<Rightarrow> lock_op list" where
  "refused_locks s = locked (Machine s) Exclusive (locked (State s) Shared [])"

text \<open>\<open>answered\<close>: the encapsulation succeeded.\<close>

definition received_x1_locks :: "bool \<Rightarrow> lock_op list" where
  "received_x1_locks answered =
     rng_locks @ rng_locks @ (if answered then locked Map Shared rng_locks @ locked Caches Exclusive [] else [])"

text \<open>\<open>restart\<close>: the path of \<open>timeout_trans\<close> after a fault, in a debug build.\<close>

definition received_x2_locks :: "session_id \<Rightarrow> timeout_path option option \<Rightarrow> lock_op list" where
  "received_x2_locks s restart =
     (case restart of
        None \<Rightarrow> [Acquire (Machine s) Exclusive, Acquire (State s) Shared, Release (State s)] @
          locked (State s) Exclusive [] @ Release (Machine s) # locked Queue Exclusive [] @ locked (State s) Shared []
      | Some None \<Rightarrow> refused_locks s
      | Some (Some p) \<Rightarrow> refused_locks s @ process_timers_locks s (Some p))"

text \<open>A new session \<open>s\<close>: the map is locked before the queue.\<close>

definition received_x3_locks :: "session_id \<Rightarrow> lock_op list" where
  "received_x3_locks s =
     [Acquire Map Exclusive, Acquire Queue Exclusive] @ locked (New s) Exclusive [] @ [Release Queue, Release Map] @
     locked (State s) Shared []"

datatype c1_path = C1_refused | C1_repeated | C1_confirmed

definition received_c1_locks :: "session_id \<Rightarrow> c1_path \<Rightarrow> bool option \<Rightarrow> lock_op list" where
  "received_c1_locks s p e =
     (case p of
        C1_refused \<Rightarrow> refused_locks s
      | C1_repeated \<Rightarrow> [Acquire (Machine s) Exclusive, Acquire (State s) Shared, Release (Machine s), Release (State s)]
      | C1_confirmed \<Rightarrow> [Acquire (Machine s) Exclusive, Acquire (State s) Shared, Release (State s)] @
          locked (State s) Exclusive rng_locks @ Release (Machine s) # locked Queue Exclusive [] @ locked (State s) Shared []) @
     expire_after s e"

definition received_c2_locks :: "session_id \<Rightarrow> bool \<Rightarrow> lock_op list" where
  "received_c2_locks s confirmed =
     (if confirmed
      then [Acquire (Machine s) Exclusive, Acquire (State s) Shared, Release (State s)] @
        locked (State s) Exclusive rng_locks @ Release (Machine s) # locked Queue Exclusive []
      else refused_locks s)"

definition received_d_locks :: "session_id \<Rightarrow> bool option \<Rightarrow> lock_op list" where
  "received_d_locks s e = refused_locks s @ expire_after s e"

datatype rekey_path = Rekey_refused | Rekey_failed | Rekey_done

text \<open>Bob draws an ephemeral key and a key id while he reads the state; Alice has hers.\<close>

definition received_k1_locks :: "session_id \<Rightarrow> rekey_path \<Rightarrow> bool option \<Rightarrow> lock_op list" where
  "received_k1_locks s p e =
     (case p of
        Rekey_refused \<Rightarrow> refused_locks s
      | Rekey_failed \<Rightarrow> locked (Machine s) Exclusive (locked (State s) Shared (rng_locks @ remap_locks))
      | Rekey_done \<Rightarrow> [Acquire (Machine s) Exclusive, Acquire (State s) Shared] @ rng_locks @ remap_locks @ Release (State s) #
          locked (State s) Exclusive [] @ Release (Machine s) # locked Queue Exclusive [] @ locked (State s) Shared []) @
     expire_after s e"

definition received_k2_locks :: "session_id \<Rightarrow> bool \<Rightarrow> bool option \<Rightarrow> lock_op list" where
  "received_k2_locks s taken e =
     (if taken
      then [Acquire (Machine s) Exclusive, Acquire (State s) Shared, Release (State s)] @
        locked (State s) Exclusive [] @ Release (Machine s) # locked Queue Exclusive [] @ locked (State s) Shared []
      else refused_locks s) @ expire_after s e"

definition send_payload_locks :: "session_id \<Rightarrow> bool \<Rightarrow> bool option \<Rightarrow> lock_op list" where
  "send_payload_locks s rekey e =
     locked (State s) Shared [] @
     (if rekey then locked (State s) Exclusive [] @ locked Queue Exclusive [] else []) @ expire_after s e"

definition respond_to_challenge_locks :: "session_id \<Rightarrow> bool \<Rightarrow> lock_op list" where
  "respond_to_challenge_locks s in_a1 = locked (State s) Exclusive (if in_a1 then rng_locks else [])"

text \<open>The guard of the map lives until the end of the branch that answers the challenge.\<close>

definition challenge_locks :: "(session_id \<times> bool) option \<Rightarrow> lock_op list" where
  "challenge_locks found =
     locked Map Shared (case found of None \<Rightarrow> [] | Some (s, in_a1) \<Rightarrow> respond_to_challenge_locks s in_a1)"

text \<open>
  \<open>receive\<close> up to the handler: the look-up of the session and its header key, and a fragment that is
  put aside; a payload is deciphered under the lock.
\<close>

definition receive_session_locks :: "session_id \<Rightarrow> bool \<Rightarrow> bool \<Rightarrow> lock_op list" where
  "receive_session_locks s is_data fragmented =
     (let defrag = (if fragmented then locked (Defrag s) Exclusive [] else [])
      in locked Map Shared [] @ (if is_data then locked (State s) Shared defrag else locked (State s) Shared [] @ defrag))"

definition receive_b2_locks :: "nat \<Rightarrow> bool \<Rightarrow> lock_op list" where
  "receive_b2_locks b2 fragmented =
     locked Map Shared [] @ locked Caches Shared [] @ (if fragmented then locked (Defrag b2) Exclusive [] else []) @
     locked Caches Exclusive []"

text \<open>
  One session that is due. Its reference goes out of scope at the end of the round, while the queue is
  locked; when the application has dropped its own in the meantime, \<open>Drop\<close> expires the session.
\<close>

definition visit_locks :: "session_id \<times> timeout_path option \<times> bool option \<Rightarrow> lock_op list" where
  "visit_locks v = (case v of (s, p, dropped) \<Rightarrow> process_timers_locks s p @ expire_after s dropped)"

definition service_inner_locks ::
  "(session_id \<times> timeout_path option \<times> bool option) list \<Rightarrow> (session_id \<times> timeout_path \<times> bool) option \<Rightarrow> lock_op list" where
  "service_inner_locks visits failed =
     Acquire Queue Exclusive # concat (map visit_locks visits) @
     (case failed of
        None \<Rightarrow> Release Queue # locked Caches Exclusive [] @ locked Caches Exclusive []
      | Some (s, p, unexpired) \<Rightarrow> process_timers_locks s (Some p) @ expire_inner_locks s unexpired @ [Release Queue])"

datatype call_path =
    Open session_id
  | Hello "bool option"
  | Hello_challenged
  | Challenge "(session_id \<times> bool) option"
  | X2 session_id "timeout_path option option"
  | X3_accepted session_id
  | X3_occupied
  | C1 session_id c1_path "bool option"
  | C2 session_id bool
  | D session_id "bool option"
  | K1 session_id rekey_path "bool option"
  | K2 session_id bool "bool option"
  | Fragment_of session_id bool bool
  | Fragment_of_b2 nat bool
  | Fragment_of_hello
  | Send session_id bool "bool option"
  | Expire session_id bool
  | Service "(session_id \<times> timeout_path option \<times> bool option) list" "(session_id \<times> timeout_path \<times> bool) option"

fun call_locks :: "call_path \<Rightarrow> lock_op list" where
  "call_locks (Open s) = trans_to_a1_locks s"
| "call_locks (Hello x1) = (case x1 of None \<Rightarrow> [] | Some answered \<Rightarrow> received_x1_locks answered)"
| "call_locks Hello_challenged = rng_locks"
| "call_locks (Challenge found) = challenge_locks found"
| "call_locks (X2 s restart) = received_x2_locks s restart"
| "call_locks (X3_accepted s) = received_x3_locks s"
| "call_locks X3_occupied = locked Map Exclusive []"
| "call_locks (C1 s p e) = received_c1_locks s p e"
| "call_locks (C2 s confirmed) = received_c2_locks s confirmed"
| "call_locks (D s e) = received_d_locks s e"
| "call_locks (K1 s p e) = received_k1_locks s p e"
| "call_locks (K2 s taken e) = received_k2_locks s taken e"
| "call_locks (Fragment_of s is_data fragmented) = receive_session_locks s is_data fragmented"
| "call_locks (Fragment_of_b2 b2 fragmented) = receive_b2_locks b2 fragmented"
| "call_locks Fragment_of_hello = locked Caches Exclusive []"
| "call_locks (Send s rekey e) = send_payload_locks s rekey e"
| "call_locks (Expire s unexpired) = expire_locks s unexpired"
| "call_locks (Service visits failed) = service_inner_locks visits failed"

text \<open>
  The paths that keep to the order: all but the answer to a challenge for a known session, the
  acceptance of a new session, and a service that drops the last reference to a session.
\<close>

fun in_order :: "call_path \<Rightarrow> bool" where
  "in_order (Challenge found) = (found = None)"
| "in_order (X3_accepted s) = False"
| "in_order (Service visits failed) = list_all (\<lambda>(s, p, dropped). dropped = None) visits"
| "in_order _ = True"

text \<open>Each thread runs one call after the other.\<close>

definition threads_of :: "call_path list list \<Rightarrow> locker list" where
  "threads_of css = map (\<lambda>cs. ([], concat (map call_locks cs))) css"

section \<open>Calls in order never deadlock\<close>

lemma ascending_advance: "ascending (fst t) (snd t) \<Longrightarrow> ascending (fst (advance t)) (snd (advance t))"
  by (cases t rule: advance.cases) simp_all

lemma ascending_append: "ascending held ops \<Longrightarrow> ascending [] ops' \<Longrightarrow> ascending held (ops @ ops')"
  by (induction held ops rule: ascending.induct) simp_all

lemma ascending_concat: "list_all (ascending []) opss \<Longrightarrow> ascending [] (concat opss)"
  by (induction opss) (simp_all add: ascending_append)

text \<open>
  Among the threads that wait take one whose lock is highest. If somebody holds that lock, he waits
  for a higher one or can go on; if nobody does, one of those who wait for it can take it.
\<close>

lemma ascending_progress:
  assumes asc: "list_all (\<lambda>t. ascending (fst t) (snd t)) ts" and some: "list_ex (\<lambda>t. snd t \<noteq> []) ts"
  shows "list_ex (may_step fair ts) ts"
proof (rule ccontr)
  assume stuck: "\<not> list_ex (may_step fair ts) ts"
  let ?W = "{l. \<exists>t \<in> set ts. \<exists>m. waits_for t = Some (l, m)}"
  have wait: "\<exists>l m. waits_for t = Some (l, m)" if "t \<in> set ts" "snd t \<noteq> []" for t
    using stuck that by (cases t rule: advance.cases) (force simp: list_ex_iff)+
  have up: "rank l' < rank l" if "t \<in> set ts" "holds t l' m'" "waits_for t = Some (l, m)" for t l l' m m'
  proof -
    have "ascending (fst t) (snd t)" using asc that(1) by (simp add: list_all_iff)
    then show ?thesis using that(2,3) by (cases t rule: advance.cases) (auto simp: list_all_iff holds_def)
  qed
  have busy: "snd t \<noteq> []" if "t \<in> set ts" "holds t l m" for t l m
    using asc that by (cases t rule: advance.cases) (auto simp: list_all_iff holds_def)
  have "finite ?W"
  proof (rule finite_subset)
    show "?W \<subseteq> set (map (\<lambda>t. fst (the (waits_for t))) ts)" by force
  qed simp
  moreover have "?W \<noteq> {}" using some wait by (fastforce simp: list_ex_iff)
  ultimately have "Max (rank ` ?W) \<in> rank ` ?W" "\<forall>l' \<in> ?W. rank l' \<le> Max (rank ` ?W)" by simp_all
  then obtain l where l: "l \<in> ?W" "\<forall>l' \<in> ?W. rank l' \<le> rank l" by fastforce
  have nobody: "\<not> holds t l m" if "t \<in> set ts" for t m
    using wait [OF that busy [OF that]] up [OF that] l(2) that by (metis (mono_tags, lifting) linorder_not_less mem_Collect_eq)
  obtain t m where t: "t \<in> set ts" "waits_for t = Some (l, m)" using l(1) by blast
  have go: "may_step fair ts u \<longleftrightarrow> lock_free fair ts k n" if "waits_for u = Some (k, n)" for u k n
    using that by (cases u rule: advance.cases) simp_all
  show False
  proof (cases "\<exists>u \<in> set ts. waits_for u = Some (l, Exclusive)")
    case True
    then obtain u where u: "u \<in> set ts" "waits_for u = Some (l, Exclusive)" by blast
    then have "may_step fair ts u" using nobody by (simp add: go lock_free_def)
    then show ?thesis using stuck u(1) by (auto simp: list_ex_iff)
  next
    case False
    then have "may_step fair ts t" using nobody t by (cases m) (auto simp: go lock_free_def)
    then show ?thesis using stuck t(1) by (auto simp: list_ex_iff)
  qed
qed

lemma ascending_steps:
  assumes "lock_steps fair ts0 ts" "list_all (\<lambda>t. ascending (fst t) (snd t)) ts0"
  shows "list_all (\<lambda>t. ascending (fst t) (snd t)) ts"
  using assms
proof (induction rule: lock_steps.induct)
  case (lock_step ts i)
  then have "list_all (\<lambda>t. ascending (fst t) (snd t)) ts" by simp
  with lock_step(2) show ?case by (simp add: list_all_length nth_list_update ascending_advance)
qed simp

lemma ascending_not_deadlocked:
  assumes "lock_steps fair ts0 ts" "list_all (\<lambda>t. ascending (fst t) (snd t)) ts0"
  shows "\<not> deadlocked fair ts"
  using ascending_progress [OF ascending_steps [OF assms], of fair] by (auto simp: deadlocked_def list_ex_iff list_all_iff)

lemmas lock_paths = locked_def rng_locks_def remap_locks_def create_a1_locks_def expire_inner_locks_def expire_locks_def
  expire_after_def process_timers_locks_def refused_locks_def

lemma process_timers_ascending:
  "ascending held (process_timers_locks s p @ ops) = ascending held ops" if "list_all (\<lambda>h. rank (fst h) < 1) held"
proof -
  have h: "rank (fst h) = 0" if "h \<in> set held" for h using \<open>list_all _ held\<close> that by (auto simp: list_all_iff)
  have f: "filter (\<lambda>h. fst h \<noteq> l) held = held" if "0 < rank l" for l using h that by (intro filter_True) auto
  show ?thesis
    by (cases p; cases "the p") (simp_all add: lock_paths list_all_iff h f)
qed

lemma visits_ascending:
  "list_all (\<lambda>(s, p, dropped). dropped = None) visits \<Longrightarrow> list_all (\<lambda>h. rank (fst h) < 1) held \<Longrightarrow>
   ascending held (concat (map visit_locks visits) @ ops) = ascending held ops"
  by (induction visits) (auto simp: visit_locks_def expire_after_def process_timers_ascending)

lemma service_ascending: "list_all (\<lambda>(s, p, dropped). dropped = None) visits \<Longrightarrow> ascending [] (service_inner_locks visits failed)"
  by (cases failed) (auto simp: service_inner_locks_def visits_ascending process_timers_ascending locked_def expire_inner_locks_def)

lemma handlers_ascending:
  "ascending [] (trans_to_a1_locks s)" "ascending [] (received_x1_locks b)" "ascending [] (received_x2_locks s r)"
  "ascending [] (received_c1_locks s p e)" "ascending [] (received_c2_locks s b)" "ascending [] (received_d_locks s e)"
  "ascending [] (received_k1_locks s q e)" "ascending [] (received_k2_locks s b e)" "ascending [] (send_payload_locks s b e)"
  "ascending [] (receive_session_locks s b b')" "ascending [] (receive_b2_locks s b)" "ascending [] (expire_locks s b)"
proof -
  have e: "ascending [] (ops @ expire_after s e) = ascending [] ops" if "ascending [] ops" for ops
    using that by (intro iffI ascending_append) (auto simp: expire_after_def expire_locks_def expire_inner_locks_def locked_def split: option.split)
  show "ascending [] (trans_to_a1_locks s)" "ascending [] (received_x1_locks b)" "ascending [] (received_c2_locks s b)"
    "ascending [] (receive_session_locks s b b')" "ascending [] (receive_b2_locks s b)" "ascending [] (expire_locks s b)"
    by (simp_all add: trans_to_a1_locks_def received_x1_locks_def received_c2_locks_def receive_session_locks_def receive_b2_locks_def
        lock_paths Let_def)
  show "ascending [] (received_x2_locks s r)"
  proof (cases r)
    case (Some t)
    have "ascending [] (refused_locks s)" by (simp add: lock_paths)
    then show ?thesis using Some process_timers_ascending [of "[]" s _ "[]"]
      by (cases t) (auto simp: received_x2_locks_def intro!: ascending_append)
  qed (simp add: received_x2_locks_def lock_paths)
  show "ascending [] (received_c1_locks s p e)"
    unfolding received_c1_locks_def by (subst e; cases p) (simp_all add: lock_paths)
  show "ascending [] (received_d_locks s e)"
    unfolding received_d_locks_def by (subst e) (simp_all add: lock_paths)
  show "ascending [] (received_k1_locks s q e)"
    unfolding received_k1_locks_def by (subst e; cases q) (simp_all add: lock_paths)
  show "ascending [] (received_k2_locks s b e)"
    unfolding received_k2_locks_def by (subst e; cases b) (simp_all add: lock_paths)
  show "ascending [] (send_payload_locks s b e)"
    unfolding send_payload_locks_def append_assoc [symmetric] by (subst e; cases b) (simp_all add: lock_paths)
qed

lemma in_order_ascending: "in_order c \<Longrightarrow> ascending [] (call_locks c)"
  by (cases c) (auto simp: handlers_ascending service_ascending challenge_locks_def locked_def rng_locks_def split: option.split)

text \<open>C15: Calls of the performance crate that keep to the documented lock order never deadlock:
  whatever calls any number of threads run, and on whatever paths, in every state they reach some
  thread can go on until all are through, with fair and with unfair locks. The only paths excepted
  are the acceptance of a new session, the answer to a challenge for a known session and the
  service of a session whose last reference goes away meanwhile.\<close>

theorem ordered_calls_never_deadlock:
  assumes "\<forall>cs \<in> set css. \<forall>c \<in> set cs. in_order c" "lock_steps fair (threads_of css) ts"
  shows "\<not> deadlocked fair ts"
proof (rule ascending_not_deadlocked [OF assms(2)])
  show "list_all (\<lambda>t. ascending (fst t) (snd t)) (threads_of css)"
    using assms(1) by (auto simp: threads_of_def list_all_iff intro!: ascending_concat in_order_ascending)
qed

theorem ordered_calls_never_deadlock_witness:
  "\<exists>ts. lock_steps True (threads_of [[Open 1, Send 1 True None], [Service [(2, Some Rekeyed, None)] None], [K1 2 Rekey_done (Some True)]]) ts \<and>
     \<not> deadlocked True ts"
  using ordered_calls_never_deadlock [OF _ lock_start, of "[[Open 1, Send 1 True None], [Service [(2, Some Rekeyed, None)] None],
    [K1 2 Rekey_done (Some True)]]" True] lock_start by fastforce

section \<open>The paths that break the order\<close>

primrec run_locks :: "bool \<Rightarrow> nat list \<Rightarrow> locker list \<Rightarrow> locker list option" where
  "run_locks fair [] ts = Some ts"
| "run_locks fair (i # is) ts =
     (if i < length ts \<and> may_step fair ts (ts ! i) then run_locks fair is (ts[i := advance (ts ! i)]) else None)"

lemma run_locks_steps: "run_locks fair is ts = Some ts' \<Longrightarrow> lock_steps fair ts0 ts \<Longrightarrow> lock_steps fair ts0 ts'"
  by (induction "is" arbitrary: ts) (auto intro: lock_step split: if_splits)

text \<open>C16: Each of the three paths that break the order can deadlock: accepting a session against
  opening another, answering a challenge against the rekey of the challenged session, and, with no
  other thread, a service that is left with the last reference to a session.\<close>

theorem inverted_calls_deadlock:
  "(\<exists>ts. lock_steps False (threads_of [[X3_accepted 1], [Open 2]]) ts \<and> deadlocked False ts) \<and>
   (\<exists>ts. lock_steps False (threads_of [[Challenge (Some (1, True))], [Service [(1, Some Restarted, None)] None]]) ts \<and> deadlocked False ts) \<and>
   (\<exists>ts. lock_steps False (threads_of [[Service [(1, None, Some True)] None]]) ts \<and> deadlocked False ts)"
proof -
  have stuck: "\<exists>ts'. lock_steps False ts ts' \<and> deadlocked False ts'"
    if "case run_locks False is ts of None \<Rightarrow> False | Some ts' \<Rightarrow> deadlocked False ts'" for "is" ts
    using that run_locks_steps [OF _ lock_start, of False "is" ts] by (auto split: option.splits)
  note eval = threads_of_def lock_paths received_x3_locks_def trans_to_a1_locks_def challenge_locks_def respond_to_challenge_locks_def
    service_inner_locks_def visit_locks_def lock_free_def holds_def deadlocked_def
  have "\<exists>ts. lock_steps False (threads_of [[X3_accepted 1], [Open 2]]) ts \<and> deadlocked False ts"
    by (rule stuck [of "[0, 1]"]) (simp add: eval)
  moreover have "\<exists>ts. lock_steps False (threads_of [[Challenge (Some (1, True))], [Service [(1, Some Restarted, None)] None]]) ts \<and> deadlocked False ts"
    by (rule stuck [of "[0, 1, 1, 1]"]) (simp add: eval)
  moreover have "\<exists>ts. lock_steps False (threads_of [[Service [(1, None, Some True)] None]]) ts \<and> deadlocked False ts"
    by (rule stuck [of "[0, 0, 0, 0, 0]"]) (simp add: eval)
  ultimately show ?thesis by blast
qed

end
