(* ===== verification/Perf_Agreement.thy ===== *)
theory Perf_Agreement
  imports Perf_Reachable
begin

text \<open>
  The messages of the performance crate seen from both ends: the reader's part of
  \<open>performance/src/zeta.rs\<close>, given the bytes that the writer's part produced, accepts them and ends in
  the writer's noise state. Packets carry their header; \<open>unpack_perf\<close> takes it off as \<open>receive\<close> does.
\<close>

section \<open>Packets\<close>

definition unpack_perf :: "platform \<Rightarrow> bytes \<Rightarrow> u32 \<times> bytes \<times> bytes" where
  "unpack_perf P p =
     (u32_from_ne_bytes P (take KID_SIZE p),
      write_at 2 (subslice PACKET_NONCE_START HEADER_SIZE p) (replicate AES_GCM_NONCE_SIZE 0),
      drop HEADER_SIZE p)"

lemma to_nonce_front: "write_at 2 (drop 2 (to_nonce t c)) (replicate 12 0) = to_nonce t c"
proof -
  have "take 2 (to_nonce t c) = [0, 0]" by (simp add: to_nonce_def write_at_def zssp_sizes numeral_eq_Suc)
  moreover have "replicate 2 (0 :: u8) = [0, 0]" by (simp add: numeral_eq_Suc)
  ultimately show ?thesis using append_take_drop_id [of 2 "to_nonce t c"] by (simp add: write_at_def)
qed

lemma set_header_body: "16 \<le> length p \<Longrightarrow> drop 16 (set_header P p kid (to_nonce t c)) = drop 16 p"
  by (simp add: set_header_def write_at_def zssp_sizes)

lemma unpack_set_header:
  assumes "16 \<le> length p"
  shows "unpack_perf P (set_header P p kid (to_nonce t c)) = (kid, to_nonce t c, drop 16 p)"
proof -
  have k: "take 4 (set_header P p kid (to_nonce t c)) = u32_to_ne_bytes P kid"
    using assms by (simp add: set_header_def write_at_def zssp_sizes)
  have n: "subslice 6 16 (set_header P p kid (to_nonce t c)) = drop 2 (to_nonce t c)"
    using assms by (simp add: set_header_def write_at_def subslice_def zssp_sizes)
  show ?thesis using k n set_header_body [OF assms, of P kid t c] to_nonce_front by (simp add: unpack_perf_def zssp_sizes)
qed

section \<open>Tokens\<close>

lemma open_follows_seal:
  assumes C: "crypto_correct C pub_of" "crypto_sized C"
    and s: "seal_tail C s n (length pre) (pre @ pt) = (s', out)"
  obtains ct tag where "out = pre @ ct @ tag" "length ct = length pt" "length tag = 16"
    "decrypt_and_hash_perf C s n ct tag = (True, s', pt)"
proof -
  obtain ct tag where e: "aead_encrypt_in_place C (ss_k s) n (Some (ss_h s)) pt = (ct, tag)" by fastforce
  have "out = pre @ ct @ tag" "s' = s\<lparr>ss_h := sha512 C (ss_h s @ ct @ tag)\<rparr>"
    using s e by (auto simp: seal_tail_def encrypt_and_hash_perf_def)
  moreover have "decrypt_and_hash_perf C s n ct tag = (True, s', pt)"
    using crypto_correctD(2) [OF C(1) e] calculation(2) by (simp add: decrypt_and_hash_perf_def Let_def)
  ultimately show thesis using that aead_encrypt_lengths [OF C(2) e] by blast
qed

lemma mix_dh_perf_commute:
  assumes "crypto_correct C pub_of"
  shows "mix_dh_perf C s a (pub_of b) = mix_dh_perf C s b (pub_of a)" "mix_dh_no_init C s a (pub_of b) = mix_dh_no_init C s b (pub_of a)"
  by (simp_all add: mix_dh_perf_def mix_dh_no_init_def crypto_correctD(5) [OF assms])

section \<open>The hello\<close>

lemma read_x1_perf_follows:
  assumes C: "crypto_correct C pub_of" "crypto_sized C"
    and kid: "kid \<noteq> 0" and rs: "ratchet_wf rs1" "pred_option ratchet_wf rs2"
    and a1: "create_a1_state_perf C P rng (pub_of sB) kid rs1 rs2 ident = (a1, rng')"
  obtains n x1 response e1 r1 r2 where
    "unpack_perf P (ap_x1 a1) = (0, n, x1 @ response)" "length response = CHALLENGE_SIZE"
    "kem_generate C r1 = ((ap_e1_secret a1, e1), r2)" "ap_identity a1 = ident"
    "read_x1_perf C P sB n x1 = Inr (kid, pub_of (ap_e_secret a1), e1, rs_fingerprint rs1,
       case rs2 of None \<Rightarrow> replicate RATCHET_SIZE 0 | Some rs \<Rightarrow> rs_fingerprint rs, ap_noise a1)"
proof -
  let ?fp2 = "case rs2 of None \<Rightarrow> replicate RATCHET_SIZE 0 | Some rs \<Rightarrow> rs_fingerprint rs"
  let ?k = "u32_to_ne_bytes P kid" and ?h = "replicate HEADER_SIZE 0 :: bytes"
  let ?N = "mix_hash_perf C (mix_hash_perf C (initialize_perf PROTOCOL_NAME_NOISE_XK) ?k) (pk_to_bytes C (pub_of sB))"
  obtain e n1 r1 p1 where h1: "write_e_no_init C ?N rng (?h @ ?k) = (e, n1, r1, p1)" by (metis surj_pair)
  obtain d e1 r2 where h2: "kem_generate C r1 = ((d, e1), r2)" by (metis surj_pair)
  obtain n2 p2 where h3: "seal_tail C (mix_dh_perf C n1 e (pub_of sB)) (to_nonce PACKET_TYPE_HANDSHAKE_HELLO 0) (length p1) (p1 @ e1) = (n2, p2)"
    by fastforce
  obtain n3 p3 where h4: "seal_tail C n2 (to_nonce PACKET_TYPE_HANDSHAKE_HELLO 1) (length p2) (p2 @ rs_fingerprint rs1 @ ?fp2) = (n3, p3)"
    by fastforce
  obtain response r3 where h5: "gen_null_response_perf (pl_big_endian P) C r2 = (response, r3)" by fastforce
  let ?c = "u64_from_be_bytes (drop (length p3 - 8) p3)"
  have h6: "a1 = \<lparr>ap_noise = n3, ap_e_secret = e, ap_e1_secret = d, ap_identity = ident,
      ap_x1 = set_header P (p3 @ response) 0 (to_nonce PACKET_TYPE_HANDSHAKE_HELLO ?c)\<rparr>"
    using a1 h1 h2 h3 h4 h5 by (simp add: create_a1_state_perf_def Let_def)
  have re: "p1 = (?h @ ?k) @ pk_to_bytes C (pub_of e)"
    "\<And>rest. read_e_no_init C ?N 20 (p1 @ rest) = (Some (pub_of e), n1, 69)"
    using read_e_follows_write_e_no_init [OF C h1] by (auto simp: zssp_sizes)
  obtain c1 t1 where d1: "p2 = p1 @ c1 @ t1" "length c1 = length e1" "length t1 = 16"
    "decrypt_and_hash_perf C (mix_dh_perf C n1 e (pub_of sB)) (to_nonce PACKET_TYPE_HANDSHAKE_HELLO 0) c1 t1 = (True, n2, e1)"
    by (rule open_follows_seal [OF C h3])
  obtain c2 t2 where d2: "p3 = p2 @ c2 @ t2" "length c2 = length (rs_fingerprint rs1 @ ?fp2)" "length t2 = 16"
    "decrypt_and_hash_perf C n2 (to_nonce PACKET_TYPE_HANDSHAKE_HELLO 1) c2 t2 = (True, n3, rs_fingerprint rs1 @ ?fp2)"
    by (rule open_follows_seal [OF C h4])
  have lens: "length (pk_to_bytes C (pub_of e)) = 49" "length e1 = 1568" "length (rs_fingerprint rs1) = 32" "length ?fp2 = 32"
    "length response = 32"
    using crypto_sizedD(8) [OF C(2)] crypto_sizedD(10) [OF C(2), of r1] h2 rs gen_null_response_perf_length [of "pl_big_endian P" C r2] h5
    by (auto simp: ratchet_wf_def zssp_sizes split: option.splits)
  let ?x = "drop 16 p3"
  have x: "?x = ?k @ pk_to_bytes C (pub_of e) @ c1 @ t1 @ c2 @ t2" using re(1) d1(1) d2(1) by (simp add: zssp_sizes)
  have xl: "length ?x = 1717" "length p3 = 1733" using x lens d1(2,3) d2(2,3) re(1) d1(1) d2(1) by (simp_all add: zssp_sizes)
  have s: "subslice 0 4 ?x = ?k" "subslice 53 1621 ?x = c1" "subslice 1621 1637 ?x = t1" "subslice 1637 1701 ?x = c2" "subslice 1701 1717 ?x = t2"
    unfolding x using d1(2,3) d2(2,3) lens by (simp_all add: subslice_def)
  have dr: "drop (1717 - 8) ?x = drop (length p3 - 8) p3" using xl by simp
  have r: "read_e_no_init C ?N 4 ?x = (Some (pub_of e), n1, 53)"
    using crypto_correctD(3,4) [OF C(1)] h1 lens unfolding x
    by (auto simp: read_e_no_init_def write_e_no_init_def subslice_def Let_def zssp_sizes split: prod.splits)
  have n: "drop 4 (to_nonce PACKET_TYPE_HANDSHAKE_HELLO ?c) = drop (length p3 - 8) p3"
    by (rule drop_to_nonce) (use xl in simp)
  have "read_x1_perf C P sB (to_nonce PACKET_TYPE_HANDSHAKE_HELLO ?c) ?x = Inr (kid, pub_of e, e1, rs_fingerprint rs1, ?fp2, n3)"
    using xl(1) s r n dr d1(4) d2(4) kid lens mix_dh_perf_commute(1) [OF C(1), of n1 sB e] crypto_correctD(3) [OF C(1)]
    by (simp add: read_x1_perf_def Let_def zssp_sizes NonZeroU32_new_def)
  moreover have "unpack_perf P (ap_x1 a1) = (0, to_nonce PACKET_TYPE_HANDSHAKE_HELLO ?c, ?x @ response)"
    unfolding h6 using unpack_set_header [of "p3 @ response" P 0 PACKET_TYPE_HANDSHAKE_HELLO ?c] xl(2) by simp
  ultimately show thesis using that h2 h6 lens by (simp add: zssp_sizes)
qed

section \<open>The response\<close>

lemma response_counter:
  assumes "3 \<le> length x"
  shows "(replicate 8 0)[5 := x ! (length x - 3), 6 := x ! (length x - 2), 7 := x ! (length x - 1)] =
    write_at 5 (drop (length x - 3) x) (replicate 8 (0 :: u8))"
proof -
  have "drop (length x - 3) x = [x ! (length x - 3), x ! (length x - 2), x ! (length x - 1)]"
  proof (rule nth_equalityI)
    fix i assume "i < length (drop (length x - 3) x)"
    then have "i = 0 \<or> i = 1 \<or> i = 2" using assms by auto
    then show "drop (length x - 3) x ! i = [x ! (length x - 3), x ! (length x - 2), x ! (length x - 1)] ! i"
      using assms by (auto simp: numeral_eq_Suc intro!: arg_cong [where f = "nth x"])
  qed (use assms in simp)
  then show ?thesis by (simp add: write_at_def numeral_eq_Suc)
qed

lemma read_x2_perf_follows:
  assumes C: "crypto_correct C pub_of" "crypto_sized C"
    and kem: "kem_generate C r1 = ((ap_e1_secret a1, e1), r2)"
    and w1: "write_x2_tokens_perf C (pub_of (ap_e_secret a1)) e1 key (ap_noise a1) rng = (Inr (e, n2, p2), rng')"
    and w2: "write_x2_payload_perf C P n2 p2 kid = (n3, p3, c)" and kid: "kid \<noteq> 0"
  shows "\<exists>noise. read_x2_tokens_perf C s a1 (drop 16 p3) = Inr (pub_of e, 1633, noise) \<and>
       test_ratchet_key_perf C P noise (subslice 1633 1637 (drop 16 p3)) (subslice 1637 1653 (drop 16 p3)) key = Some (kid, n3)"
    and "length p3 = 16 + HANDSHAKE_RESPONSE_SIZE" and "c < COUNTER_WINDOW_MAX_SKIP_AHEAD"
    and "drop 9 (to_nonce t c) = drop (HANDSHAKE_RESPONSE_SIZE - 3) (drop 16 p3)"
proof -
  let ?h = "replicate HEADER_SIZE 0 :: bytes"
  obtain n1 rng1 p1 where h1: "write_e_no_init C (ap_noise a1) rng ?h = (e, n1, rng1, p1)"
    using w1 by (auto simp: write_x2_tokens_perf_def Let_def split: prod.splits option.splits)
  obtain ct ks rng2 where h2: "kem_encapsulate C rng1 e1 = (Some (ct, ks), rng2)"
    and h2': "kem_decapsulate C (ap_e1_secret a1) ct = Some ks"
    using crypto_correctD(6) [OF C(1) kem] by blast
  let ?m = "mix_dh_perf C n1 e (pub_of (ap_e_secret a1))"
  obtain m2 where h3: "seal_tail C ?m (to_nonce PACKET_TYPE_HANDSHAKE_RESPONSE 0) (length p1) (p1 @ ct) = (m2, p2)"
    and n2: "n2 = mix_key_and_hash_perf C (mix_key_no_init C m2 ks) key"
    using w1 h1 h2 by (auto simp: write_x2_tokens_perf_def Let_def split: prod.splits)
  have h4: "seal_tail C n2 (to_nonce PACKET_TYPE_HANDSHAKE_RESPONSE 0) (length p2) (p2 @ u32_to_ne_bytes P kid) = (n3, p3)"
    and c: "c = u64_from_be_bytes ((replicate 8 0)[5 := p3 ! (length p3 - 3), 6 := p3 ! (length p3 - 2), 7 := p3 ! (length p3 - 1)])"
    using w2 by (auto simp: write_x2_payload_perf_def Let_def split: prod.splits)
  have re: "p1 = ?h @ pk_to_bytes C (pub_of e)" using read_e_follows_write_e_no_init(1) [OF C h1] .
  obtain c1 t1 where d1: "p2 = p1 @ c1 @ t1" "length c1 = length ct" "length t1 = 16"
    "decrypt_and_hash_perf C ?m (to_nonce PACKET_TYPE_HANDSHAKE_RESPONSE 0) c1 t1 = (True, m2, ct)"
    by (rule open_follows_seal [OF C h3])
  obtain c2 t2 where d2: "p3 = p2 @ c2 @ t2" "length c2 = length (u32_to_ne_bytes P kid)" "length t2 = 16"
    "decrypt_and_hash_perf C n2 (to_nonce PACKET_TYPE_HANDSHAKE_RESPONSE 0) c2 t2 = (True, n3, u32_to_ne_bytes P kid)"
    by (rule open_follows_seal [OF C h4])
  have lens: "length (pk_to_bytes C (pub_of e)) = 49" "length ct = 1568"
    using crypto_sizedD(8) [OF C(2)] crypto_sizedD(11) [OF C(2) h2] by simp_all
  let ?x = "drop 16 p3"
  have x: "?x = pk_to_bytes C (pub_of e) @ c1 @ t1 @ c2 @ t2" using re(1) d1(1) d2(1) by (simp add: zssp_sizes)
  have s: "subslice 49 1617 ?x = c1" "subslice 1617 1633 ?x = t1" "subslice 1633 1637 ?x = c2" "subslice 1637 1653 ?x = t2"
    unfolding x using lens d1(2,3) d2(2,3) by (simp_all add: subslice_def)
  have len: "length p3 = 1669" using lens re d1(1-3) d2(1-3) by (simp add: zssp_sizes)
  then show "length p3 = 16 + HANDSHAKE_RESPONSE_SIZE" by (simp add: zssp_sizes)
  have c': "c = u64_from_be_bytes (write_at 5 (drop (length p3 - 3) p3) (replicate 8 0))"
    unfolding c using response_counter [of p3] len by simp
  show "c < COUNTER_WINDOW_MAX_SKIP_AHEAD" unfolding c' by (rule counter_of_three(1)) (simp add: len)
  have "drop 9 (to_nonce t c) = drop (length p3 - 3) p3" unfolding c' by (rule counter_of_three(2)) (simp add: len)
  then show "drop 9 (to_nonce t c) = drop (HANDSHAKE_RESPONSE_SIZE - 3) (drop 16 p3)" using len by (simp add: zssp_sizes)
  have r: "read_e_no_init C (ap_noise a1) 0 ?x = (Some (pub_of e), n1, 49)"
    using crypto_correctD(3,4) [OF C(1)] h1 lens unfolding x
    by (auto simp: read_e_no_init_def write_e_no_init_def subslice_def Let_def zssp_sizes split: prod.splits)
  then have "read_x2_tokens_perf C s a1 ?x = Inr (pub_of e, 1633, mix_key_no_init C m2 ks)"
    using s d1(4) h2' mix_dh_perf_commute(1) [OF C(1), of n1 "ap_e_secret a1" e]
    by (simp add: read_x2_tokens_perf_def Let_def zssp_sizes)
  moreover have "test_ratchet_key_perf C P (mix_key_no_init C m2 ks) (subslice 1633 1637 ?x) (subslice 1637 1653 ?x) key = Some (kid, n3)"
    using s d2(4) n2 kid by (simp add: test_ratchet_key_perf_def Let_def NonZeroU32_new_def)
  ultimately show "\<exists>noise. read_x2_tokens_perf C s a1 ?x = Inr (pub_of e, 1633, noise) \<and>
       test_ratchet_key_perf C P noise (subslice 1633 1637 ?x) (subslice 1637 1653 ?x) key = Some (kid, n3)" by blast
qed

section \<open>The completion\<close>

lemma read_x3_perf_follows:
  assumes C: "crypto_correct C pub_of" "crypto_sized C"
    and w3: "write_x3_perf C sA (pub_of (pb_e_secret b2)) ident (pb_noise b2) = (n', p3)"
  shows "read_x3_perf C b2 (pb_kid_recv b2) (drop 16 p3) = Inr (pub_of sA, ident, n')" "length p3 = 97 + length ident"
proof -
  let ?e = "pub_of (pb_e_secret b2)" and ?h = "replicate HEADER_SIZE 0 :: bytes"
  obtain n1 p1 where h1: "seal_tail C (pb_noise b2) (to_nonce PACKET_TYPE_HANDSHAKE_COMPLETION 1)
      (length ?h) (?h @ kp_public_key_bytes C sA) = (n1, p1)"
    and h2: "seal_tail C (mix_dh_perf C n1 sA ?e) (to_nonce PACKET_TYPE_HANDSHAKE_COMPLETION 0) (length p1) (p1 @ ident) = (n', p3)"
    using w3 by (auto simp: write_x3_perf_def Let_def split: prod.splits)
  obtain c1 t1 where d1: "p1 = ?h @ c1 @ t1" "length c1 = length (kp_public_key_bytes C sA)" "length t1 = 16"
    "decrypt_and_hash_perf C (pb_noise b2) (to_nonce PACKET_TYPE_HANDSHAKE_COMPLETION 1) c1 t1 = (True, n1, kp_public_key_bytes C sA)"
    by (rule open_follows_seal [OF C h1])
  obtain c2 t2 where d2: "p3 = p1 @ c2 @ t2" "length c2 = length ident" "length t2 = 16"
    "decrypt_and_hash_perf C (mix_dh_perf C n1 sA ?e) (to_nonce PACKET_TYPE_HANDSHAKE_COMPLETION 0) c2 t2 = (True, n', ident)"
    by (rule open_follows_seal [OF C h2])
  have lens: "length c1 = 49" using crypto_sizedD(9) [OF C(2)] d1(2) by simp
  let ?x = "drop 16 p3"
  have x: "?x = c1 @ t1 @ c2 @ t2" using d1(1) d2(1) by (simp add: zssp_sizes)
  have len: "length ?x = 81 + length ident" unfolding x using lens d1(3) d2(2,3) by simp
  then show "length p3 = 97 + length ident" by simp
  have s: "subslice 0 49 ?x = c1" "subslice 49 65 ?x = t1" "subslice 65 (65 + length ident) ?x = c2"
    "subslice (65 + length ident) (81 + length ident) ?x = t2"
    unfolding x using lens d1(3) d2(2,3) by (simp_all add: subslice_def)
  show "read_x3_perf C b2 (pb_kid_recv b2) ?x = Inr (pub_of sA, ident, n')"
    using s d1(4) d2(4) len mix_dh_perf_commute(1) [OF C(1), of n1 "pb_e_secret b2" sA] crypto_correctD(3,4) [OF C(1)]
    by (simp add: read_x3_perf_def Let_def zssp_sizes del: length_drop)
qed

section \<open>The rekeying messages\<close>

lemma read_k1_perf_follows:
  assumes C: "crypto_correct C pub_of" "crypto_sized C" and kid: "kid \<noteq> 0"
    and k1: "create_k1_perf C P sA (pub_of sB) ss key rng kid = (noise, e, k1, rng')"
  shows "read_k1_perf C P s sB (pub_of sA) ss key (drop 16 k1) = Inr (kid, pub_of e, noise)" and "length k1 = 85"
proof -
  let ?h = "replicate HEADER_SIZE 0 :: bytes"
  let ?N = "mix_key_and_hash_no_init C (mix_hash_perf C (mix_hash_perf C (initialize_perf PROTOCOL_NAME_NOISE_KK)
     (kp_public_key_bytes C sA)) (pk_to_bytes C (pub_of sB))) key"
  obtain n1 p1 where h1: "write_e_no_init C ?N rng ?h = (e, n1, rng', p1)"
    and h2: "seal_tail C (mix_key_perf C (mix_dh_no_init C n1 e (pub_of sB)) ss) (to_nonce PACKET_TYPE_REKEY_INIT 0)
      (length p1) (p1 @ u32_to_ne_bytes P kid) = (noise, k1)"
    using k1 by (auto simp: create_k1_perf_def Let_def split: prod.splits)
  have re: "p1 = ?h @ pk_to_bytes C (pub_of e)" using read_e_follows_write_e_no_init(1) [OF C h1] .
  obtain c1 t1 where d1: "k1 = p1 @ c1 @ t1" "length c1 = length (u32_to_ne_bytes P kid)" "length t1 = 16"
    "decrypt_and_hash_perf C (mix_key_perf C (mix_dh_no_init C n1 e (pub_of sB)) ss) (to_nonce PACKET_TYPE_REKEY_INIT 0) c1 t1
       = (True, noise, u32_to_ne_bytes P kid)"
    by (rule open_follows_seal [OF C h2])
  have pk: "length (pk_to_bytes C (pub_of e)) = 49" using crypto_sizedD(8) [OF C(2)] .
  have x: "drop 16 k1 = pk_to_bytes C (pub_of e) @ c1 @ t1" using re d1(1) by (simp add: zssp_sizes)
  show "length k1 = 85" using pk re d1(1-3) by (simp add: zssp_sizes)
  have s: "subslice 49 53 (drop 16 k1) = c1" "subslice 53 69 (drop 16 k1) = t1"
    unfolding x using pk d1(2,3) by (simp_all add: subslice_def)
  have "read_e_no_init C ?N 0 (drop 16 k1) = (Some (pub_of e), n1, 49)"
    using crypto_correctD(3,4) [OF C(1)] h1 pk unfolding x
    by (auto simp: read_e_no_init_def write_e_no_init_def subslice_def Let_def zssp_sizes split: prod.splits)
  then show "read_k1_perf C P s sB (pub_of sA) ss key (drop 16 k1) = Inr (kid, pub_of e, noise)"
    using s d1(4) kid mix_dh_perf_commute(2) [OF C(1), of n1 sB e] crypto_correctD(3) [OF C(1)]
    by (simp add: read_k1_perf_def Let_def zssp_sizes NonZeroU32_new_def)
qed

lemma read_k2_perf_follows:
  assumes C: "crypto_correct C pub_of" "crypto_sized C" and kid: "kid \<noteq> 0"
    and k2: "write_k2_tokens_perf C sB (pub_of e) noise rng = (n2, p2, rng')" "write_k2_payload_perf C P n2 p2 kid = (n3, k2)"
  shows "read_k2_perf C P s e (pub_of sB) noise (drop 16 k2) = Inr (kid, n3)" and "length k2 = 85"
proof -
  let ?h = "replicate HEADER_SIZE 0 :: bytes"
  obtain eB n1 where h1: "write_e_no_init C noise rng ?h = (eB, n1, rng', p2)"
    and n2: "n2 = mix_dh_perf C (mix_dh_no_init C n1 eB (pub_of e)) sB (pub_of e)"
    using k2(1) by (auto simp: write_k2_tokens_perf_def Let_def split: prod.splits)
  have h2: "seal_tail C n2 (to_nonce PACKET_TYPE_REKEY_COMPLETE 0) (length p2) (p2 @ u32_to_ne_bytes P kid) = (n3, k2)"
    using k2(2) by (simp add: write_k2_payload_perf_def)
  have re: "p2 = ?h @ pk_to_bytes C (pub_of eB)" using read_e_follows_write_e_no_init(1) [OF C h1] .
  obtain c1 t1 where d1: "k2 = p2 @ c1 @ t1" "length c1 = length (u32_to_ne_bytes P kid)" "length t1 = 16"
    "decrypt_and_hash_perf C n2 (to_nonce PACKET_TYPE_REKEY_COMPLETE 0) c1 t1 = (True, n3, u32_to_ne_bytes P kid)"
    by (rule open_follows_seal [OF C h2])
  have pk: "length (pk_to_bytes C (pub_of eB)) = 49" using crypto_sizedD(8) [OF C(2)] .
  have x: "drop 16 k2 = pk_to_bytes C (pub_of eB) @ c1 @ t1" using re d1(1) by (simp add: zssp_sizes)
  show "length k2 = 85" using pk re d1(1-3) by (simp add: zssp_sizes)
  have s: "subslice 49 53 (drop 16 k2) = c1" "subslice 53 69 (drop 16 k2) = t1"
    unfolding x using pk d1(2,3) by (simp_all add: subslice_def)
  have "read_e_no_init C noise 0 (drop 16 k2) = (Some (pub_of eB), n1, 49)"
    using crypto_correctD(3,4) [OF C(1)] h1 pk unfolding x
    by (auto simp: read_e_no_init_def write_e_no_init_def subslice_def Let_def zssp_sizes split: prod.splits)
  then show "read_k2_perf C P s e (pub_of sB) noise (drop 16 k2) = Inr (kid, n3)"
    using s d1(4) kid n2 mix_dh_perf_commute [OF C(1), of _ e]
    by (simp add: read_k2_perf_def Let_def zssp_sizes NonZeroU32_new_def)
qed

end
