(* ===== verification/Perf_Handshake_Run.thy ===== *)
theory Perf_Handshake_Run
  imports Perf_Agreement
begin

text \<open>
  The whole handshake between two honest contexts of the performance crate, with the handlers of
  \<open>performance/src/zeta.rs\<close> over a network that delivers every packet once: Alice opens (x1), Bob
  answers (x2), Alice completes (x3), Bob takes the pending handshake out of his cache, accepts and
  confirms (c1), Alice acknowledges (c2).
\<close>

section \<open>Definitions\<close>

definition last_sent_perf :: "('pk, 'kp, 'r, 'kem, 'd, 'fd, 'a) pworld \<Rightarrow> bytes" where
  "last_sent_perf w = fst (last (pw_sent w))"

text \<open>The steps of the run, each with the packet that the one before sent.\<close>

definition handshake_open ::
  "('pk, 'kp, 'r, 'kem) crypto_layer \<Rightarrow> platform \<Rightarrow> ('pk, 'd, 'fd, 'a) application_perf \<Rightarrow> 'pk \<Rightarrow> 'd \<Rightarrow> bytes
     \<Rightarrow> ('pk, 'kp, 'r, 'kem, 'd, 'fd, 'a) pworld
     \<Rightarrow> (session_id \<times> ('pk, 'kp, 'kem, 'd) session_perf \<times> ('pk, 'kp, 'r, 'kem, 'd, 'fd, 'a) pworld) option" where
  "handshake_open C P A s_remote session_data ident w =
     (case pa_restore_by_identity A s_remote session_data None (pw_app w) of
        (Inl _, _) \<Rightarrow> None
      | (Inr r, a) \<Rightarrow>
          (case trans_to_a1_perf C P A s_remote session_data ident
                  (case r of None \<Rightarrow> new_initial_states | Some rss \<Rightarrow> rss) (w\<lparr>pw_app := a\<rparr>) of
             (Ok (s, _), w) \<Rightarrow> map_option (\<lambda>z. (s, z, w)) (px_heap w s)
           | _ \<Rightarrow> None))"

text \<open>\<open>receive\<close> cuts the answer to the challenge off a hello before it hands it on.\<close>

definition handshake_answer ::
  "('pk, 'kp, 'r, 'kem) crypto_layer \<Rightarrow> platform \<Rightarrow> ('pk, 'd, 'fd, 'a) application_perf \<Rightarrow> bytes
     \<Rightarrow> ('pk, 'kp, 'r, 'kem, 'd, 'fd, 'a) pworld \<Rightarrow> ('pk, 'kp, 'r, 'kem, 'd, 'fd, 'a) pworld option" where
  "handshake_answer C P B packet w =
     (case unpack_perf P packet of
        (_, n, x1) \<Rightarrow>
          (case received_x1_trans_perf C P B n (take (length x1 - CHALLENGE_SIZE) x1) w of
             (Ok _, w) \<Rightarrow> Some w
           | _ \<Rightarrow> None))"

definition handshake_accept ::
  "('pk, 'kp, 'r, 'kem) crypto_layer \<Rightarrow> platform \<Rightarrow> ('pk, 'd, 'fd, 'a) application_perf \<Rightarrow> bytes
     \<Rightarrow> ('pk, 'kp, 'r, 'kem, 'd, 'fd, 'a) pworld
     \<Rightarrow> (session_id \<times> ('pk, 'kp, 'kem, 'd) session_perf \<times> ('pk, 'kp, 'r, 'kem, 'd, 'fd, 'a) pworld) option" where
  "handshake_accept C P B packet w =
     (case unpack_perf P packet of
        (kid, _, x3) \<Rightarrow>
          (case Option.bind (hc_get (px_handshakes w) kid) (px_b2_heap w) of
             None \<Rightarrow> None
           | Some b2 \<Rightarrow>
               (case hc_remove (px_handshakes w) kid of
                  (removed, cache) \<Rightarrow>
                    if \<not> removed then None
                    else (case received_x3_trans_perf C P B b2 kid x3 (w\<lparr>px_handshakes := cache\<rparr>) of
                            (Ok (s, _), w) \<Rightarrow> map_option (\<lambda>z. (s, z, w)) (px_heap w s)
                          | _ \<Rightarrow> None))))"

definition xk_handshake_perf ::
  "('pk, 'kp, 'r, 'kem) crypto_layer \<Rightarrow> platform \<Rightarrow> ('pk, 'd, 'fd, 'a) application_perf \<Rightarrow> ('pk, 'e, 'fe, 'b) application_perf
     \<Rightarrow> 'pk \<Rightarrow> 'd \<Rightarrow> bytes
     \<Rightarrow> ('pk, 'kp, 'r, 'kem, 'd, 'fd, 'a) pworld \<Rightarrow> ('pk, 'kp, 'r, 'kem, 'e, 'fe, 'b) pworld
     \<Rightarrow> (('pk, 'kp, 'kem, 'd) session_perf \<times> ('pk, 'kp, 'r, 'kem, 'd, 'fd, 'a) pworld
        \<times> ('pk, 'kp, 'kem, 'e) session_perf \<times> ('pk, 'kp, 'r, 'kem, 'e, 'fe, 'b) pworld) option" where
  "xk_handshake_perf C P A B s_remote session_data ident wA wB =
     (case handshake_open C P A s_remote session_data ident wA of
        None \<Rightarrow> None
      | Some (s, zA, wA) \<Rightarrow>
          (case handshake_answer C P B (last_sent_perf wA) wB of
             None \<Rightarrow> None
           | Some wB \<Rightarrow>
               (let (kid, n, x2) = unpack_perf P (last_sent_perf wB)
                in case received_x2_trans_perf C P A s kid n x2 zA wA of
                     (Ok _, zA, wA) \<Rightarrow>
                       (case handshake_accept C P B (last_sent_perf wA) wB of
                          None \<Rightarrow> None
                        | Some (t, zB, wB) \<Rightarrow>
                            (let (kid, n, c1) = unpack_perf P (last_sent_perf wB)
                             in case received_c1_trans_perf C P A s kid n c1 zA wA of
                                  (Ok _, zA, wA) \<Rightarrow>
                                    (let (kid, n, c2) = unpack_perf P (last_sent_perf wA)
                                     in case received_c2_trans_perf C B t kid n c2 zB wB of
                                          (Ok _, zB, wB) \<Rightarrow> Some (zA, wA, zB, wB)
                                        | _ \<Rightarrow> None)
                                | _ \<Rightarrow> None))
                   | _ \<Rightarrow> None)))"

text \<open>Each end's sending keys are the other's receiving keys, also in the two pools.\<close>

definition keys_mirrored_perf :: "duplex_key_perf \<Rightarrow> duplex_key_perf \<Rightarrow> bool" where
  "keys_mirrored_perf a b \<longleftrightarrow> dp_send a = dp_recv b \<and> dp_recv a = dp_send b \<and>
     (\<exists>k k'. dp_nk a = Some (k, k') \<and> dp_nk b = Some (k', k))"

text \<open>
  What the documentation asks of an application whose storage works: it applies an update
  whose current pair compares equal, it restores what it stored, and the other callbacks do
  not change the stored pairs.
\<close>

definition storage_live_perf ::
  "('pk, 'd, 'fd, 'a) application_perf \<Rightarrow> ('a \<Rightarrow> 'pk \<Rightarrow> ratchet_states) \<Rightarrow> bool" where
  "storage_live_perf A stored \<longleftrightarrow>
     (\<forall>pk d u a. compare_states u (stored a pk) \<longrightarrow>
        (\<exists>a'. pa_save_ratchet_state A pk d u a = (Inr True, a') \<and> stored a' = (stored a)(pk := to_new_states u))) \<and>
     (\<forall>pk d l a. ratchets_wf (stored a pk) \<longrightarrow>
        (\<exists>r a'. pa_restore_by_identity A pk d l a = (Inr r, a') \<and> stored a' = stored a \<and>
           (case r of None \<Rightarrow> new_initial_states | Some rss \<Rightarrow> rss) = stored a pk)) \<and>
     (\<forall>a. stored (snd (pa_time A a)) = stored a) \<and>
     (\<forall>a. stored (snd (pa_hello_requires_recognized_ratchet A a)) = stored a) \<and>
     (\<forall>s a. stored (snd (pa_initiator_disallows_downgrade A s a)) = stored a) \<and>
     (\<forall>pk ident l a. stored (snd (pa_check_accept_session A pk ident l a)) = stored a) \<and>
     (\<forall>rf a. stored (snd (pa_restore_by_fingerprint A rf a)) = stored a)"

text \<open>The two pairs of keys that both ends derive.\<close>

definition initiator_keys_perf ::
  "('pk, 'kp, 'r, 'kem) crypto_layer \<Rightarrow> symmetric_state \<Rightarrow> u32 \<Rightarrow> u32 \<Rightarrow> duplex_key_perf" where
  "initiator_keys_perf C noise kid_send kid_recv =
     \<lparr>dp_send = \<lparr>ke_kek = Some (take AES_256_KEY_SIZE (snd (get_ask_perf C noise LABEL_KEX_KEY))), ke_kid = Some kid_send\<rparr>,
      dp_recv = \<lparr>ke_kek = Some (take AES_256_KEY_SIZE (fst (get_ask_perf C noise LABEL_KEX_KEY))), ke_kid = Some kid_recv\<rparr>,
      dp_nk = Some (take AES_256_KEY_SIZE (snd (split_perf C noise)), take AES_256_KEY_SIZE (fst (split_perf C noise)))\<rparr>"

definition responder_keys_perf ::
  "('pk, 'kp, 'r, 'kem) crypto_layer \<Rightarrow> symmetric_state \<Rightarrow> u32 \<Rightarrow> u32 \<Rightarrow> duplex_key_perf" where
  "responder_keys_perf C noise kid_send kid_recv =
     \<lparr>dp_send = \<lparr>ke_kek = Some (take AES_256_KEY_SIZE (fst (get_ask_perf C noise LABEL_KEX_KEY))), ke_kid = Some kid_send\<rparr>,
      dp_recv = \<lparr>ke_kek = Some (take AES_256_KEY_SIZE (snd (get_ask_perf C noise LABEL_KEX_KEY))), ke_kid = Some kid_recv\<rparr>,
      dp_nk = Some (take AES_256_KEY_SIZE (fst (split_perf C noise)), take AES_256_KEY_SIZE (snd (split_perf C noise)))\<rparr>"

text \<open>A session of Alice in the handshake whose ratchet states are the storage's.\<close>

definition fresh_with_perf :: "('pk, 'kp, 'kem, 'd) session_perf \<Rightarrow> 'pk \<Rightarrow> ratchet_states \<Rightarrow> bool" where
  "fresh_with_perf z pk rss \<longleftrightarrow> ps_s_remote z = pk \<and> ps_send_counter z = 0 \<and> ps_key_creation_counter z = 0 \<and>
     ps_window z = window_new COUNTER_WINDOW_MAX_OOO \<and> rss = ratchet_states_new (ps_ratchet_state1 z) (ps_ratchet_state2 z)"

text \<open>A control packet as \<open>send_control\<close> seals it, and an empty one: its cipher text is the tag.\<close>

definition sealed_packet :: "('pk, 'kp, 'r, 'kem) crypto_layer \<Rightarrow> platform \<Rightarrow> u8 \<Rightarrow> bytes \<Rightarrow> u32 \<Rightarrow> u64 \<Rightarrow> bytes \<Rightarrow> bytes" where
  "sealed_packet C P p kek kid c payload =
     (case aead_encrypt_in_place C kek (to_nonce p c) (Some []) (drop HEADER_SIZE payload) of
        (ct, tag) \<Rightarrow> set_header P (take HEADER_SIZE payload @ ct @ tag) kid (to_nonce p c))"

definition control_packet :: "('pk, 'kp, 'r, 'kem) crypto_layer \<Rightarrow> platform \<Rightarrow> u8 \<Rightarrow> bytes \<Rightarrow> u32 \<Rightarrow> u64 \<Rightarrow> bytes" where
  "control_packet C P p kek kid c =
     set_header P (replicate HEADER_SIZE 0 @ snd (aead_encrypt_in_place C kek (to_nonce p c) (Some []) [])) kid (to_nonce p c)"

text \<open>
  Two established ends that fit together: both in S2 with mirrored keys and header keys, each with the
  other's static key and the same agreement of the static keys, both with the same ratchet state and
  no other one, which both have stored for each other.
\<close>

definition paired_perf ::
  "('kp \<Rightarrow> 'pk) \<Rightarrow> ('a \<Rightarrow> 'pk \<Rightarrow> ratchet_states) \<Rightarrow> ('b \<Rightarrow> 'pk \<Rightarrow> ratchet_states)
     \<Rightarrow> ('pk, 'kp, 'kem, 'd) session_perf \<Rightarrow> ('pk, 'kp, 'r, 'kem, 'd, 'fd, 'a) pworld
     \<Rightarrow> ('pk, 'kp, 'kem, 'e) session_perf \<Rightarrow> ('pk, 'kp, 'r, 'kem, 'e, 'fe, 'b) pworld \<Rightarrow> bool" where
  "paired_perf pub_of storedA storedB zA wA zB wB \<longleftrightarrow>
     ps_beta zA = PS2 \<and> ps_beta zB = PS2 \<and> keys_mirrored_perf (key_ref_perf zA False) (key_ref_perf zB False) \<and>
     ps_hk_send zA = ps_hk_recv zB \<and> ps_hk_recv zA = ps_hk_send zB \<and>
     ps_s_remote zA = pub_of (px_s_secret wB) \<and> ps_s_remote zB = pub_of (px_s_secret wA) \<and>
     ps_noise_kk_ss zA = ps_noise_kk_ss zB \<and> ps_ratchet_state1 zA = ps_ratchet_state1 zB \<and>
     ps_ratchet_state2 zA = None \<and> ps_ratchet_state2 zB = None \<and>
     storedA (pw_app wA) (ps_s_remote zA) = ratchet_states_new (ps_ratchet_state1 zA) None \<and>
     storedB (pw_app wB) (ps_s_remote zB) = ratchet_states_new (ps_ratchet_state1 zB) None"

text \<open>What Alice's session and Bob's pending handshake share once he has answered with \<open>x2\<close>.\<close>

definition answered_perf ::
  "('pk, 'kp, 'r, 'kem) crypto_layer \<Rightarrow> platform \<Rightarrow> ('kp \<Rightarrow> 'pk) \<Rightarrow> bytes \<Rightarrow> session_id \<Rightarrow> ('pk, 'kp, 'kem, 'd) session_perf
     \<Rightarrow> ('kp, 'fe) state_b2_perf \<Rightarrow> u64 \<Rightarrow> bytes \<Rightarrow> bool" where
  "answered_perf C P pub_of ident s z b2 c x2 \<longleftrightarrow>
     (\<exists>a1 noise. ps_beta z = PA1 a1 \<and> ap_identity a1 = ident \<and> key_ref_perf z True = set_recv_kid_perf (pb_kid_send b2) duplex_key_perf_default \<and>
        length x2 = HANDSHAKE_RESPONSE_SIZE \<and> c < COUNTER_WINDOW_MAX_SKIP_AHEAD \<and>
        drop 9 (to_nonce PACKET_TYPE_HANDSHAKE_RESPONSE c) = drop (length x2 - 3) x2 \<and>
        read_x2_tokens_perf C s a1 x2 = Inr (pub_of (pb_e_secret b2), 1633, noise) \<and>
        test_ratchet_key_perf C P noise (subslice 1633 1637 x2) (subslice 1637 1653 x2) (rs_key (ps_ratchet_state1 z))
          = Some (pb_kid_recv b2, pb_noise b2) \<and>
        ps_ratchet_state1 z = pb_ratchet_state b2 \<and> ps_hk_recv z = pb_hk_send b2 \<and> ps_hk_send z = pb_hk_recv b2)"

text \<open>An application that allows every session and keeps the ratchet states of every peer in a table.\<close>

definition storing_application :: "(u8, unit, unit, u8 \<Rightarrow> ratchet_states) application_perf" where
  "storing_application =
     \<lparr>pa_time = (\<lambda>a. (1000, a)), pa_incoming_session = (\<lambda>a. (AllowP, a)),
      pa_hello_requires_recognized_ratchet = (\<lambda>a. (False, a)),
      pa_initiator_disallows_downgrade = (\<lambda>s a. (False, a)),
      pa_check_accept_session = (\<lambda>pk ident d a. (\<lparr>aa_session_data = Some (), aa_responder_disallows_downgrade = False,
        aa_responder_silently_rejects = False\<rparr>, a)),
      pa_restore_by_fingerprint = (\<lambda>rf a. (Inr None, a)),
      pa_restore_by_identity = (\<lambda>pk d l a. (Inr (if ratchets_wf (a pk) then Some (a pk) else None), a)),
      pa_save_ratchet_state = (\<lambda>pk d u a.
        if compare_states u (a pk) then (Inr True, a(pk := to_new_states u)) else (Inr False, a))\<rparr>"

definition storing_context :: "u8 \<Rightarrow> nat \<Rightarrow> (u8, u8, nat, unit, unit, unit, u8 \<Rightarrow> ratchet_states) pworld" where
  "storing_context secret rng = Context_new_perf sample_crypto secret rng (\<lambda>_. new_initial_states)"

section \<open>The storage\<close>

lemma storage_live_perfD:
  assumes "storage_live_perf A stored"
  shows "compare_states u (stored a pk) \<Longrightarrow>
      \<exists>a'. pa_save_ratchet_state A pk d u a = (Inr True, a') \<and> stored a' = (stored a)(pk := to_new_states u)"
    and "ratchets_wf (stored a pk) \<Longrightarrow>
      \<exists>r a'. pa_restore_by_identity A pk d l a = (Inr r, a') \<and> stored a' = stored a \<and>
        (case r of None \<Rightarrow> new_initial_states | Some rss \<Rightarrow> rss) = stored a pk"
    and "pa_time A a = (t, a') \<Longrightarrow> stored a' = stored a"
    and "pa_hello_requires_recognized_ratchet A a = (b, a') \<Longrightarrow> stored a' = stored a"
    and "pa_check_accept_session A pk ident l a = (act, a') \<Longrightarrow> stored a' = stored a"
    and "pa_restore_by_fingerprint A rf a = (res, a') \<Longrightarrow> stored a' = stored a"
  using assms unfolding storage_live_perf_def by (blast | metis snd_conv)+

lemma save_ratchet_perf_live:
  assumes "storage_live_perf A stored" "stored (pw_app w) pk = ratchet_states_new c1 c2"
  shows "\<exists>a. save_ratchet_perf A pk d (cas_new n1 n2 ad c1 c2 d1 d2) w = (Inr True, w\<lparr>pw_app := a\<rparr>) \<and>
    stored a = (stored (pw_app w))(pk := ratchet_states_new n1 n2)"
  using storage_live_perfD(1) [OF assms(1), of "cas_new n1 n2 ad c1 c2 d1 d2" "pw_app w" pk d] assms(2)
  by (auto simp: save_ratchet_perf_def)

lemma time_perf_live:
  assumes "storage_live_perf A stored"
  obtains t a where "time_perf A w = (t, w\<lparr>pw_app := a\<rparr>)" "stored a = stored (pw_app w)"
  using storage_live_perfD(3) [OF assms, of "pw_app w"] by (cases "pa_time A (pw_app w)") (auto simp: time_perf_def)

section \<open>Opening\<close>

lemma trans_to_a1_perf_live:
  assumes C: "settings_ok C" "world_ok P' w" "heap_room (px_session_queue w)" and ident: "length ident \<le> IDENTITY_MAX_SIZE"
    and rss: "ratchets_wf rss" and A: "storage_live_perf A stored" and kids: "kids_live C (px_session_map w)"
  shows "\<exists>s t w' z kid a1 r0 r1. trans_to_a1_perf C P A pk d ident rss w = (Ok (s, t), w') \<and> px_heap w' s = Some z \<and>
    kid \<noteq> 0 \<and> ps_beta z = PA1 a1 \<and> fresh_with_perf z pk rss \<and> key_ref_perf z True = set_recv_kid_perf kid duplex_key_perf_default \<and>
    create_a1_state_perf C P r0 pk kid (ps_ratchet_state1 z) (ps_ratchet_state2 z) ident = (a1, r1) \<and>
    ps_hk_recv z = take AES_256_KEY_SIZE (fst (get_ask_perf C (ap_noise a1) LABEL_HEADER_KEY)) \<and>
    ps_hk_send z = take AES_256_KEY_SIZE (snd (get_ask_perf C (ap_noise a1) LABEL_HEADER_KEY)) \<and>
    ps_noise_kk_ss z = kp_agree C (px_s_secret w) pk \<and>
    last_sent_perf w' = ap_x1 a1 \<and> px_s_secret w' = px_s_secret w \<and> stored (pw_app w') = stored (pw_app w) \<and> world_ok P' w'"
proof -
  have ok: "call_ok P' (trans_to_a1_perf C P A pk d ident rss w)"
    using trans_to_a1_perf_ok [OF C ident] rss by (simp add: ratchets_wf_def)
  obtain kid rng where k: "gen_kid C (px_session_map w) (px_rng w) = Some (kid, rng)" using kids_liveD [OF kids] by blast
  obtain a1 r1 where a1: "create_a1_state_perf C P rng pk kid (rss_state1 rss) (rss_state2 rss) ident = (a1, r1)" by fastforce
  obtain t a where t: "time_perf A (w\<lparr>px_rng := r1\<rparr>) = (t, w\<lparr>px_rng := r1, pw_app := a\<rparr>)" "stored a = stored (pw_app w)"
    using time_perf_live [OF A, of "w\<lparr>px_rng := r1\<rparr>"] by auto
  have "kid \<noteq> 0" using gen_kid_fresh [OF k] by simp
  then show ?thesis using ok k a1 t
    by (auto simp: trans_to_a1_perf_def Let_def case_prod_beta register_perf_def reduce_next_service_time_def new_a1_session_def
        fresh_with_perf_def emit_perf_def last_sent_perf_def ratchet_states_new_def key_mut_perf_def key_ref_perf_def
        split: option.splits) blast
qed

section \<open>The answer\<close>

lemma find_ratchet_perf_stored:
  assumes "storage_live_perf A stored" "find_ratchet_perf A rf1 rf2 a = (r, a')"
  shows "stored a' = stored a"
  using assms(2) storage_live_perfD(4,6) [OF assms(1)]
  by (auto simp: find_ratchet_perf_def Let_def split: prod.splits sum.splits option.splits if_splits bool.splits) (metis+)?

lemma write_x2_perf_live:
  assumes "crypto_correct C pub_of" "kem_generate C r1 = ((d, e1), r2)"
  shows "\<exists>e noise' x2 rng'. write_x2_tokens_perf C e_remote e1 key noise rng = (Inr (e, noise', x2), rng')"
proof -
  obtain e n1 rng1 p1 where w: "write_e_no_init C noise rng (replicate HEADER_SIZE 0) = (e, n1, rng1, p1)" by (metis surj_pair)
  obtain ct ks rng2 where k: "kem_encapsulate C rng1 e1 = (Some (ct, ks), rng2)"
    using crypto_correctD(6) [OF assms] by blast
  show ?thesis using w k by (simp add: write_x2_tokens_perf_def Let_def case_prod_beta)
qed

lemma received_x1_perf_live:
  assumes C: "crypto_correct C pub_of" "settings_ok C" "world_ok P' w"
    and x1: "read_x1_perf C P (px_s_secret w) n x1 = Inr (kid, e_remote, e1, rf1, rf2, noise)"
    and kem: "kem_generate C r1 = ((d, e1), r2)"
    and rs: "find_ratchet_perf B rf1 rf2 (pw_app w) = (Inr (rs, l), a)" and B: "storage_live_perf B stored"
    and kids: "kids_live C (px_session_map w)" and hc: "hc_wf (px_handshakes w)" "\<And>k. hc_get (px_handshakes w) k = None"
  shows "\<exists>e n2 p2 rng kidB n3 p3 c b2 addr t w'. received_x1_trans_perf C P B n x1 w = (Ok t, w') \<and>
    write_x2_tokens_perf C e_remote e1 (rs_key rs) noise (px_rng w) = (Inr (e, n2, p2), rng) \<and>
    write_x2_payload_perf C P n2 p2 kidB = (n3, p3, c) \<and> kidB \<noteq> 0 \<and>
    last_sent_perf w' = set_header P p3 kid (to_nonce PACKET_TYPE_HANDSHAKE_RESPONSE c) \<and>
    hc_get (px_handshakes w') kidB = Some addr \<and> px_b2_heap w' addr = Some b2 \<and> hc_wf (px_handshakes w') \<and>
    pb_noise b2 = n3 \<and> pb_e_secret b2 = e \<and> pb_kid_send b2 = kid \<and> pb_kid_recv b2 = kidB \<and> pb_ratchet_state b2 = rs \<and>
    pb_lookup_data b2 = l \<and> pb_hk_send b2 = take AES_256_KEY_SIZE (fst (get_ask_perf C noise LABEL_HEADER_KEY)) \<and>
    pb_hk_recv b2 = take AES_256_KEY_SIZE (snd (get_ask_perf C noise LABEL_HEADER_KEY)) \<and>
    px_session_map w' kidB = None \<and> px_session_queue w' = px_session_queue w \<and> px_s_secret w' = px_s_secret w \<and>
    pw_app w' = snd (pa_time B a) \<and> stored (pw_app w') = stored a \<and> world_ok P' w'"
proof -
  have ok: "call_ok P' (received_x1_trans_perf C P B n x1 w)" by (rule received_x1_trans_perf_ok [OF C(2,3)])
  obtain e n2 p2 rng where w1: "write_x2_tokens_perf C e_remote e1 (rs_key rs) noise (px_rng w) = (Inr (e, n2, p2), rng)"
    using write_x2_perf_live [OF C(1) kem] by blast
  obtain kidB rng' where k: "gen_kid C (px_session_map w) rng = Some (kidB, rng')" using kids_liveD [OF kids] by blast
  obtain n3 p3 c where w2: "write_x2_payload_perf C P n2 p2 kidB = (n3, p3, c)" by (metis surj_pair)
  obtain t a' where t: "pa_time B a = (t, a')" by fastforce
  obtain nx cache where h: "hc_insert (SETTINGS C) (px_handshakes w) kidB (px_next_b2 w) t = (Some nx, cache)" "hc_wf cache"
    "hc_get cache kidB = Some (px_next_b2 w)"
    using handshake_cache_insert [OF hc(1) hc(2) [of kidB], of "SETTINGS C" "px_next_b2 w" t] by blast
  have "kidB \<noteq> 0" "px_session_map w kidB = None" using gen_kid_fresh [OF k] by simp_all
  moreover let ?ask = "get_ask_perf C noise LABEL_HEADER_KEY"
  let ?b2 = "\<lparr>pb_ratchet_state = rs, pb_lookup_data = l, pb_kid_send = kid, pb_kid_recv = kidB,
    pb_hk_send = take AES_256_KEY_SIZE (fst ?ask), pb_hk_recv = take AES_256_KEY_SIZE (snd ?ask),
    pb_e_secret = e, pb_noise = n3, pb_defrag = fragged_new MAX_FRAGMENTS\<rparr>"
  obtain t' w' where r: "received_x1_trans_perf C P B n x1 w = (Ok t', w')"
    "last_sent_perf w' = set_header P p3 kid (to_nonce PACKET_TYPE_HANDSHAKE_RESPONSE c)" "px_handshakes w' = cache"
    "px_b2_heap w' (px_next_b2 w) = Some ?b2" "px_session_map w' = px_session_map w" "px_session_queue w' = px_session_queue w"
    "px_s_secret w' = px_s_secret w" "pw_app w' = a'"
    using x1 rs w1 k w2 t h(1)
    by (simp add: received_x1_trans_perf_def Let_def case_prod_beta time_perf_def emit_perf_def last_sent_perf_def
        reduce_next_service_time_def)
  moreover have "stored (pw_app w') = stored a" "pw_app w' = snd (pa_time B a)" using r(8) storage_live_perfD(3) [OF B t] t by simp_all
  moreover have "world_ok P' w'" using ok r(1) by simp
  ultimately show ?thesis using w1 w2 h(2,3)
    by (intro exI [of _ e] exI [of _ n2] exI [of _ p2] exI [of _ rng] exI [of _ kidB] exI [of _ n3] exI [of _ p3] exI [of _ c]
        exI [of _ ?b2] exI [of _ "px_next_b2 w"] exI [of _ t'] exI [of _ w']) simp
qed

section \<open>The completion\<close>

lemma key_mut_perf_peer [simp]:
  "ps_s_remote (key_mut_perf z b f) = ps_s_remote z" "ps_hk_send (key_mut_perf z b f) = ps_hk_send z"
  "ps_hk_recv (key_mut_perf z b f) = ps_hk_recv z" "ps_key_creation_counter (key_mut_perf z b f) = ps_key_creation_counter z"
  "ps_noise_kk_ss (key_mut_perf z b f) = ps_noise_kk_ss z"
  by (simp_all add: key_mut_perf_def)

lemma received_x2_perf_live:
  assumes C: "settings_ok C" "world_ok P' w" "session_ok P' (generation w) z"
    and z: "ps_beta z = PA1 a1" "key_ref_perf z True = set_recv_kid_perf kid duplex_key_perf_default"
    and A: "storage_live_perf A stored" "fresh_with_perf z (ps_s_remote z) (stored (pw_app w) (ps_s_remote z))"
    and x2: "length x2 = HANDSHAKE_RESPONSE_SIZE" "c < COUNTER_WINDOW_MAX_SKIP_AHEAD"
      "drop 9 (to_nonce PACKET_TYPE_HANDSHAKE_RESPONSE c) = drop (length x2 - 3) x2"
      "read_x2_tokens_perf C s a1 x2 = Inr (e_remote, 1633, noise)"
      "test_ratchet_key_perf C P noise (subslice 1633 1637 x2) (subslice 1637 1653 x2) (rs_key (ps_ratchet_state1 z)) = Some (kidB, n3)"
    and x3: "write_x3_perf C (px_s_secret w) e_remote (ap_identity a1) n3 = (n4, p3)"
  shows "\<exists>t z' w'. received_x2_trans_perf C P A s kid (to_nonce PACKET_TYPE_HANDSHAKE_RESPONSE c) x2 z w = (Ok (False, t), z', w') \<and>
    last_sent_perf w' = set_header P p3 kidB (to_nonce PACKET_TYPE_HANDSHAKE_COMPLETION 0) \<and>
    is_pa3 (ps_beta z') \<and> key_ref_perf z' True = initiator_keys_perf C n4 kidB kid \<and>
    ps_ratchet_state1 z' = create_ratchet_state C n4 (rs_chain_len (ps_ratchet_state1 z)) \<and>
    ps_hk_send z' = ps_hk_send z \<and> ps_hk_recv z' = ps_hk_recv z \<and> ps_noise_kk_ss z' = ps_noise_kk_ss z \<and> px_s_secret w' = px_s_secret w \<and>
    fresh_with_perf z' (ps_s_remote z) (stored (pw_app w') (ps_s_remote z)) \<and>
    world_ok P' w' \<and> session_ok P' (generation w') z'"
proof -
  let ?n = "to_nonce PACKET_TYPE_HANDSHAKE_RESPONSE c"
  have ok: "handler_ok P' w (received_x2_trans_perf C P A s kid ?n x2 z w)" by (rule received_x2_trans_perf_ok [OF C])
  let ?new = "create_ratchet_state C n4 (rs_chain_len (ps_ratchet_state1 z))"
  have st: "stored (pw_app w) (ps_s_remote z) = ratchet_states_new (ps_ratchet_state1 z) (ps_ratchet_state2 z)"
    using A(2) by (simp add: fresh_with_perf_def)
  obtain a where sv: "save_ratchet_perf A (ps_s_remote z) (ps_session_data z)
      (cas_new ?new (Some (ps_ratchet_state1 z)) True (ps_ratchet_state1 z) (ps_ratchet_state2 z) False True) w
        = (Inr True, w\<lparr>pw_app := a\<rparr>)"
    "stored a = (stored (pw_app w))(ps_s_remote z := ratchet_states_new ?new (Some (ps_ratchet_state1 z)))"
    using save_ratchet_perf_live [OF A(1) st] by blast
  obtain now a' where t: "time_perf A (w\<lparr>pw_app := a\<rparr>) = (now, w\<lparr>pw_app := a'\<rparr>)" "stored a' = stored a"
    using time_perf_live [OF A(1), of "w\<lparr>pw_app := a\<rparr>"] by auto
  have sel: "select_ratchet_perf C P A s z noise (subslice 1633 1637 x2) (subslice 1637 1653 x2) (pw_app w)
      = ((Some (kidB, n3), 1, rs_chain_len (ps_ratchet_state1 z), False), pw_app w)"
    using x2(5) by (simp add: select_ratchet_perf_def Let_def)
  obtain red w1 where q: "reschedule (ps_queue_idx z) (after now (resend_time (SETTINGS C))) (w\<lparr>pw_app := a'\<rparr>) = Some (red, w1)"
    using reschedule_works [of P' "w\<lparr>pw_app := a'\<rparr>" "ps_queue_idx z"] C(2) session_issued [OF C(3)] by fastforce
  have w1: "pw_app w1 = a'" "px_s_secret w1 = px_s_secret w" using q by (auto simp: reschedule_def reduce_next_service_time_def split: option.splits)
  have kid: "recv_kid_perf z True = Some kid" using z(2) by (simp add: recv_kid_perf_def set_recv_kid_perf_def)
  let ?ask = "get_ask_perf C n4 LABEL_KEX_KEY" let ?sp = "split_perf C n4"
  let ?z = "key_mut_perf z True (store_keys_perf kidB (snd ?ask) (snd ?sp) (fst ?ask) (fst ?sp))"
  let ?z' = "?z\<lparr>ps_ratchet_state2 := Some (ps_ratchet_state1 z), ps_ratchet_state1 := ?new, ps_key_creation_counter := ps_send_counter z,
    ps_resend_timer := after now (resend_time (SETTINGS C)), ps_timeout_timer := after now (initial_offer_timeout (SETTINGS C)),
    ps_beta := PA3 (ap_identity a1) (set_header P p3 kidB (to_nonce PACKET_TYPE_HANDSHAKE_COMPLETION 0))\<rparr>"
  let ?w' = "emit_perf (set_header P p3 kidB (to_nonce PACKET_TYPE_HANDSHAKE_COMPLETION 0)) (Some (ps_hk_send ?z')) w1"
  have r: "received_x2_trans_perf C P A s kid ?n x2 z w = (Ok (False, red), ?z', ?w')"
    using z(1) kid x2 x3 sv(1) sel t(1) q
    by (simp add: received_x2_trans_perf_def process_x2_perf_def finish_x2_perf_def Let_def zssp_sizes not_le case_prod_beta)
  have key: "store_keys_perf kidB (snd ?ask) (snd ?sp) (fst ?ask) (fst ?sp) (key_ref_perf z True) = initiator_keys_perf C n4 kidB kid"
    using z(2) by (simp add: store_keys_perf_def initiator_keys_perf_def set_recv_kid_perf_def set_send_kid_perf_def replace_nk_def
      replace_keks_def replace_kek_def pool_new_def duplex_key_perf_default_def keys_perf_default_def)
  show ?thesis using A(2) ok unfolding r
    by (intro exI [of _ red] exI [of _ ?z'] exI [of _ ?w'])
      (simp add: key is_pa3_def last_sent_perf_def emit_perf_def w1 sv(2) t(2) fresh_with_perf_def handler_ok_def)
qed

section \<open>The acceptance\<close>

lemma control_tag_perf:
  assumes "crypto_correct C pub_of" "crypto_sized C"
  shows "fst (aead_decrypt_in_place C k n (Some []) [] (snd (aead_encrypt_in_place C k n (Some []) [])))"
    and "length (snd (aead_encrypt_in_place C k n (Some []) [])) = 16"
    and "fst (aead_encrypt_in_place C k n (Some []) []) = []"
proof -
  obtain ct tag where e: "aead_encrypt_in_place C k n (Some []) [] = (ct, tag)" by fastforce
  have "length ct = 0" "length tag = 16" using aead_encrypt_lengths [OF assms(2) e] by simp_all
  with e crypto_correctD(2) [OF assms(1) e]
  show "fst (aead_decrypt_in_place C k n (Some []) [] (snd (aead_encrypt_in_place C k n (Some []) [])))"
    "length (snd (aead_encrypt_in_place C k n (Some []) [])) = 16" "fst (aead_encrypt_in_place C k n (Some []) []) = []"
    by simp_all
qed

lemma unpack_control_packet:
  "unpack_perf P (control_packet C P p kek kid c) =
     (kid, to_nonce p c, snd (aead_encrypt_in_place C kek (to_nonce p c) (Some []) []))"
  by (simp add: control_packet_def unpack_set_header zssp_sizes)

lemma send_control_perf_seals:
  assumes "ke_kek (dp_send (key_ref_perf z False)) = Some kek" "ke_kid (dp_send (key_ref_perf z False)) = Some kid"
    "ps_send_counter z \<le> THREAD_SAFE_COUNTER_HARD_EXPIRE" "ps_send_counter z \<le> ps_key_creation_counter z + EXPIRE_AFTER_USES"
  shows "send_control_perf C P p payload z w = (Ok (), z\<lparr>ps_send_counter := ps_send_counter z + 1\<rparr>,
    emit_perf (sealed_packet C P p kek kid (ps_send_counter z) payload) (Some (ps_hk_send z)) w)"
  using assms by (simp add: send_control_perf_def get_counter_perf_def Let_def case_prod_beta sealed_packet_def not_less)

lemma sealed_control_packet:
  assumes "crypto_correct C pub_of" "crypto_sized C"
  shows "sealed_packet C P p kek kid c (replicate HEADER_SIZE 0) = control_packet C P p kek kid c"
  using control_tag_perf(3) [OF assms] by (simp add: sealed_packet_def control_packet_def case_prod_beta)

lemma within_first_uses:
  assumes "c = 0 \<or> c = 1"
  shows "c \<le> THREAD_SAFE_COUNTER_HARD_EXPIRE" "c \<le> c + EXPIRE_AFTER_USES"
proof -
  have "\<not> THREAD_SAFE_COUNTER_HARD_EXPIRE < c" "\<not> c + EXPIRE_AFTER_USES < c"
    using assms by (auto simp: THREAD_SAFE_COUNTER_HARD_EXPIRE_def EXPIRE_AFTER_USES_def)
  then show "c \<le> THREAD_SAFE_COUNTER_HARD_EXPIRE" "c \<le> c + EXPIRE_AFTER_USES" by simp_all
qed

lemma received_x3_perf_live:
  assumes C: "crypto_correct C pub_of" "settings_ok C" "world_ok P' w" "heap_room (px_session_queue w)"
    and x3: "read_x3_perf C b2 kid x3 = Inr (pk, ident, n4)" "pb_kid_recv b2 = kid"
    and B: "storage_live_perf B stored" "ratchets_wf (stored (pw_app w) pk)"
      "rss_state1 (stored (pw_app w) pk) = pb_ratchet_state b2"
      "aa_session_data (fst (pa_check_accept_session B pk ident (pb_lookup_data b2) (pw_app w))) = Some d"
    and m: "px_session_map w kid = None"
  shows "\<exists>s t w' z. received_x3_trans_perf C P B b2 kid x3 w = (Ok (s, False, t), w') \<and> px_heap w' s = Some z \<and>
    last_sent_perf w' = control_packet C P PACKET_TYPE_KEY_CONFIRM (take AES_256_KEY_SIZE (fst (get_ask_perf C n4 LABEL_KEX_KEY)))
      (pb_kid_send b2) 1 \<and>
    ps_beta z = PS1 \<and> key_ref_perf z False = responder_keys_perf C n4 (pb_kid_send b2) kid \<and>
    ps_ratchet_state1 z = create_ratchet_state C n4 (rs_chain_len (pb_ratchet_state b2)) \<and> ps_s_remote z = pk \<and>
    ps_hk_send z = pb_hk_send b2 \<and> ps_hk_recv z = pb_hk_recv b2 \<and> ps_window z = window_new COUNTER_WINDOW_MAX_OOO \<and>
    ps_ratchet_state2 z = None \<and> ps_noise_kk_ss z = kp_agree C (px_s_secret w) pk \<and> px_s_secret w' = px_s_secret w \<and>
    stored (pw_app w') pk = ratchet_states_new (ps_ratchet_state1 z) None \<and> world_ok P' w'"
proof -
  have ok: "call_ok P' (received_x3_trans_perf C P B b2 kid x3 w)" by (rule received_x3_trans_perf_ok [OF C(2-4)])
  let ?new = "create_ratchet_state C n4 (rs_chain_len (pb_ratchet_state b2))" let ?rss = "stored (pw_app w) pk"
  let ?ask = "get_ask_perf C n4 LABEL_KEX_KEY" let ?sp = "split_perf C n4"
  obtain act a1 where act: "pa_check_accept_session B pk ident (pb_lookup_data b2) (pw_app w) = (act, a1)" by fastforce
  have st1: "stored a1 = stored (pw_app w)" by (rule storage_live_perfD(5) [OF B(1) act])
  obtain r a2 where r: "pa_restore_by_identity B pk d (pb_lookup_data b2) a1 = (Inr r, a2)" "stored a2 = stored (pw_app w)"
    "(case r of None \<Rightarrow> new_initial_states | Some rss \<Rightarrow> rss) = ?rss"
    using storage_live_perfD(2) [OF B(1), of a1 pk d "pb_lookup_data b2"] B(2) st1 by auto
  obtain a3 where sv: "save_ratchet_perf B pk d (cas_new ?new None True (rss_state1 ?rss) (rss_state2 ?rss) True True) (w\<lparr>pw_app := a2\<rparr>)
      = (Inr True, w\<lparr>pw_app := a3\<rparr>)" "stored a3 = (stored (pw_app w))(pk := ratchet_states_new ?new None)"
    using save_ratchet_perf_live [OF B(1), of "w\<lparr>pw_app := a2\<rparr>" pk "rss_state1 ?rss" "rss_state2 ?rss" d ?new None True True True] r(2)
    by (auto simp: ratchet_states_new_def)
  have acc: "received_x3_trans_perf C P B b2 kid x3 w = accept_x3_perf C P B b2 d pk ?rss (fst ?ask) (snd ?ask) n4 False (w\<lparr>pw_app := a2\<rparr>)"
    using x3(1) act r B(3,4) by (simp add: received_x3_trans_perf_def Let_def case_prod_beta)
  obtain idx q where q: "reserve_index (px_session_queue w) = Some (idx, q)"
    using ok sv(1) m x3(2) unfolding acc by (cases "reserve_index (px_session_queue w)") (auto simp: accept_x3_perf_def Let_def case_prod_beta)
  obtain now a4 where t: "time_perf B (w\<lparr>pw_app := a3, px_session_queue := q\<rparr>) = (now, w\<lparr>px_session_queue := q, pw_app := a4\<rparr>)" "stored a4 = stored a3"
    using time_perf_live [OF B(1), of "w\<lparr>pw_app := a3, px_session_queue := q\<rparr>"] by auto
  let ?z = "new_bob_session C b2 d pk ?new (kp_agree C (px_s_secret w) pk) idx now (fst ?ask) (snd ?ask) (fst ?sp) (snd ?sp)"
  obtain red w2 where g: "register_perf kid (after now (resend_time (SETTINGS C))) ?z (w\<lparr>px_session_queue := q, pw_app := a4\<rparr>) = Some (px_next_session w, red, w2)"
    "pw_app w2 = a4" "px_s_secret w2 = px_s_secret w"
    using ok sv(1) m x3(2) q t(1) unfolding acc
    by (auto simp: accept_x3_perf_def Let_def case_prod_beta register_perf_def reduce_next_service_time_def split: option.splits)
  have z: "key_ref_perf ?z False = responder_keys_perf C n4 (pb_kid_send b2) kid" "ps_send_counter ?z = 1" "ps_key_creation_counter ?z = 1"
    "ps_beta ?z = PS1" "ps_ratchet_state1 ?z = ?new" "ps_s_remote ?z = pk" "ps_hk_send ?z = pb_hk_send b2" "ps_hk_recv ?z = pb_hk_recv b2"
    "ps_window ?z = window_new COUNTER_WINDOW_MAX_OOO" "ps_ratchet_state2 ?z = None" "ps_noise_kk_ss ?z = kp_agree C (px_s_secret w) pk"
    using x3(2) by (simp_all add: new_bob_session_def Let_def)
      (simp add: key_ref_perf_def responder_keys_perf_def replace_keks_def replace_kek_def replace_nk_def set_send_kid_perf_def set_recv_kid_perf_def
        pool_new_def duplex_key_perf_default_def keys_perf_default_def)
  have sc: "send_control_perf C P PACKET_TYPE_KEY_CONFIRM (replicate HEADER_SIZE 0) ?z w2 = (Ok (), ?z\<lparr>ps_send_counter := 1 + 1\<rparr>,
      emit_perf (control_packet C P PACKET_TYPE_KEY_CONFIRM (take AES_256_KEY_SIZE (fst ?ask)) (pb_kid_send b2) 1) (Some (pb_hk_send b2)) w2)"
    using send_control_perf_seals [of ?z "take AES_256_KEY_SIZE (fst ?ask)" "pb_kid_send b2" C P PACKET_TYPE_KEY_CONFIRM "replicate HEADER_SIZE 0" w2] z
      within_first_uses [of 1] sealed_control_packet [OF C(1) settings_sized [OF C(2)]]
    by (simp add: responder_keys_perf_def)
  let ?w' = "put_session (px_next_session w) (?z\<lparr>ps_send_counter := 1 + 1\<rparr>)
    (emit_perf (control_packet C P PACKET_TYPE_KEY_CONFIRM (take AES_256_KEY_SIZE (fst ?ask)) (pb_kid_send b2) 1) (Some (pb_hk_send b2)) w2)"
  have res: "received_x3_trans_perf C P B b2 kid x3 w = (Ok (px_next_session w, False, red), ?w')"
    unfolding acc using sv(1) m x3(2) q t(1) g(1) sc by (simp add: accept_x3_perf_def Let_def case_prod_beta put_session_def)
  show ?thesis using ok unfolding res
    by (intro exI [of _ "px_next_session w"] exI [of _ red] exI [of _ ?w'] exI [of _ "?z\<lparr>ps_send_counter := 1 + 1\<rparr>"])
      (simp add: z put_session_def emit_perf_def last_sent_perf_def g(2,3) t(2) sv(2))
qed

section \<open>The confirmation and the acknowledgement\<close>

lemma window_takes_first:
  assumes "ps_window z = window_new COUNTER_WINDOW_MAX_OOO" "c = 0 \<or> c = 1"
  shows "\<exists>win. window_update_perf z c = (True, z\<lparr>ps_window := win\<rparr>)"
  using assms by (auto simp: window_update_perf_def Window_update_def window_new_def window_slot_def Let_def
    COUNTER_WINDOW_MAX_OOO_def COUNTER_WINDOW_MAX_SKIP_AHEAD_def)

lemma enter_s2_perf_live:
  assumes C: "settings_ok C" "world_ok P' w" "session_ok P' (generation w) (z\<lparr>ps_beta := PS2\<rparr>)" and A: "storage_live_perf A stored"
  shows "\<exists>red t w'. enter_s2_perf C A z w = (Ok red, z\<lparr>ps_timeout_timer := t, ps_resend_timer := I64_MAX, ps_beta := PS2\<rparr>, w') \<and>
    stored (pw_app w') = stored (pw_app w) \<and> px_s_secret w' = px_s_secret w"
proof -
  obtain x rng where x: "next_u64 C (px_rng w) = (x, rng)" by fastforce
  obtain now a where t: "time_perf A (w\<lparr>px_rng := rng\<rparr>) = (now, w\<lparr>px_rng := rng, pw_app := a\<rparr>)" "stored a = stored (pw_app w)"
    using time_perf_live [OF A, of "w\<lparr>px_rng := rng\<rparr>"] by auto
  have i: "issued (px_session_queue w) (ps_queue_idx z)" using session_issued [OF C(3)] C(2) by simp
  let ?t = "after now (saturating_sub (rekey_after_time (SETTINGS C)) (x mod rekey_time_max_jitter (SETTINGS C)))"
  obtain red w1 where q: "reschedule (ps_queue_idx z) ?t (w\<lparr>px_rng := rng, pw_app := a\<rparr>) = Some (red, w1)"
    using reschedule_works [of P' "w\<lparr>px_rng := rng, pw_app := a\<rparr>" "ps_queue_idx z"] C(2) i by fastforce
  then have "pw_app w1 = a" "px_s_secret w1 = px_s_secret w" by (auto simp: reschedule_def reduce_next_service_time_def split: option.splits)
  moreover have "rekey_time_max_jitter (SETTINGS C) \<noteq> 0" using C(1) by (simp add: settings_ok_def)
  ultimately show ?thesis using x t q by (auto simp: enter_s2_perf_def Let_def)
qed

lemma confirm_key_perf_live:
  assumes C: "settings_ok C" "world_ok P' w" "session_ok P' (generation w) z" "key_full (key_ref_perf z True)"
    and A: "storage_live_perf A stored" "stored (pw_app w) (ps_s_remote z) = ratchet_states_new (ps_ratchet_state1 z) (ps_ratchet_state2 z)"
  shows "\<exists>red t w'. confirm_key_perf C A s z w = (Ok red, z\<lparr>ps_ratchet_state2 := None, ps_key_index := \<not> ps_key_index z,
      ps_timeout_timer := t, ps_resend_timer := I64_MAX, ps_beta := PS2\<rparr>, w') \<and>
    stored (pw_app w') (ps_s_remote z) = ratchet_states_new (ps_ratchet_state1 z) None \<and> px_s_secret w' = px_s_secret w"
proof -
  let ?u = "cas_new (ps_ratchet_state1 z) None False (ps_ratchet_state1 z) (ps_ratchet_state2 z) False True"
  obtain a where sv: "(if ps_ratchet_state2 z \<noteq> None then save_ratchet_perf A (ps_s_remote z) (ps_session_data z) ?u w else (Inr True, w))
      = (Inr True, w\<lparr>pw_app := a\<rparr>)"
    and st: "stored a (ps_s_remote z) = ratchet_states_new (ps_ratchet_state1 z) None"
    using save_ratchet_perf_live [OF A, of "ps_session_data z" "ps_ratchet_state1 z" None False False True] A(2) that [of "pw_app w"]
    by (cases "ps_ratchet_state2 z = None") auto
  let ?z = "z\<lparr>ps_ratchet_state2 := None, ps_key_index := \<not> ps_key_index z\<rparr>"
  have "session_ok P' (generation (w\<lparr>pw_app := a\<rparr>)) (?z\<lparr>ps_beta := PS2\<rparr>)"
    using C(3,4) by (simp add: session_ok_def beta_ok_def key_ref_perf_def generation_def)
  from enter_s2_perf_live [OF C(1) _ this A(1)] C(2)
  show ?thesis using sv st by (fastforce simp: confirm_key_perf_def)
qed

lemma received_c1_perf_live:
  assumes C: "crypto_correct C pub_of" "settings_ok C" "world_ok P' w" "session_ok P' (generation w) z"
    and z: "is_pa3 (ps_beta z) \<or> is_pr2 (ps_beta z)" "ke_kid (dp_recv (key_ref_perf z True)) = Some kid"
      "ke_kek (dp_recv (key_ref_perf z True)) = Some kek" "ke_kek (dp_send (key_ref_perf z True)) = Some kek'"
      "ke_kid (dp_send (key_ref_perf z True)) = Some kid'"
    and c: "window_update_perf z c = (True, z\<lparr>ps_window := win\<rparr>)" "ps_send_counter z \<le> THREAD_SAFE_COUNTER_HARD_EXPIRE"
      "ps_send_counter z \<le> ps_key_creation_counter z + EXPIRE_AFTER_USES"
    and A: "storage_live_perf A stored" "stored (pw_app w) (ps_s_remote z) = ratchet_states_new (ps_ratchet_state1 z) (ps_ratchet_state2 z)"
  shows "\<exists>r z' w'. received_c1_trans_perf C P A s kid (to_nonce p c) (snd (aead_encrypt_in_place C kek (to_nonce p c) (Some []) [])) z w
      = (Ok r, z', w') \<and>
    last_sent_perf w' = control_packet C P PACKET_TYPE_ACK kek' kid' (ps_send_counter z) \<and>
    ps_beta z' = PS2 \<and> key_ref_perf z' False = key_ref_perf z True \<and> ps_ratchet_state1 z' = ps_ratchet_state1 z \<and>
    ps_s_remote z' = ps_s_remote z \<and> ps_hk_send z' = ps_hk_send z \<and> ps_hk_recv z' = ps_hk_recv z \<and>
    ps_ratchet_state2 z' = None \<and> ps_noise_kk_ss z' = ps_noise_kk_ss z \<and> px_s_secret w' = px_s_secret w \<and>
    stored (pw_app w') (ps_s_remote z) = ratchet_states_new (ps_ratchet_state1 z) None \<and> world_ok P' w' \<and> session_ok P' (generation w') z'"
proof -
  let ?n = "to_nonce p c" let ?c1 = "snd (aead_encrypt_in_place C kek ?n (Some []) [])"
  note tag = control_tag_perf [OF C(1) settings_sized [OF C(2)]]
  let ?z1 = "z\<lparr>ps_window := win\<rparr>"
  have ok1: "session_ok P' (generation w) ?z1" "\<forall>b. key_ref_perf ?z1 b = key_ref_perf z b"
    using window_update_perf_full [OF C(4) c(1)] by blast+
  have full: "key_full (key_ref_perf ?z1 True)" using beta_keys(1) [OF ok1(1)] z(1) by simp
  obtain red t w1 where conf: "confirm_key_perf C A s ?z1 w = (Ok red, ?z1\<lparr>ps_ratchet_state2 := None, ps_key_index := \<not> ps_key_index z,
      ps_timeout_timer := t, ps_resend_timer := I64_MAX, ps_beta := PS2\<rparr>, w1)"
    "stored (pw_app w1) (ps_s_remote z) = ratchet_states_new (ps_ratchet_state1 z) None" "px_s_secret w1 = px_s_secret w"
    using confirm_key_perf_live [OF C(2,3) ok1(1) full A(1), of s] A(2) by auto
  let ?z2 = "?z1\<lparr>ps_ratchet_state2 := None, ps_key_index := \<not> ps_key_index z, ps_timeout_timer := t, ps_resend_timer := I64_MAX, ps_beta := PS2\<rparr>"
  have key: "key_ref_perf ?z2 False = key_ref_perf z True" by (simp add: key_ref_perf_def)
  have sc: "send_control_perf C P PACKET_TYPE_ACK (replicate HEADER_SIZE 0) ?z2 w1 = (Ok (), ?z2\<lparr>ps_send_counter := ps_send_counter z + 1\<rparr>,
      emit_perf (control_packet C P PACKET_TYPE_ACK kek' kid' (ps_send_counter z)) (Some (ps_hk_send z)) w1)"
    using send_control_perf_seals [of ?z2 kek' kid' C P PACKET_TYPE_ACK "replicate HEADER_SIZE 0" w1] key z(4,5) c(2,3)
      sealed_control_packet [OF C(1) settings_sized [OF C(2)]] by simp
  have r: "received_c1_trans_perf C P A s kid ?n ?c1 z w = (Ok (is_pa3 (ps_beta z), red), ?z2\<lparr>ps_send_counter := ps_send_counter z + 1\<rparr>,
      emit_perf (control_packet C P PACKET_TYPE_ACK kek' kid' (ps_send_counter z)) (Some (ps_hk_send z)) w1)"
    using z(1-3) tag(1) [of kek ?n] tag(2) [of kek ?n] c(1) conf(1) sc
    by (auto simp: received_c1_trans_perf_def which_key_perf_def recv_kid_perf_def Let_def zssp_sizes)
  have "handler_ok P' w (received_c1_trans_perf C P A s kid ?n ?c1 z w)" by (rule received_c1_trans_perf_ok [OF C(2-4)])
  then show ?thesis unfolding r using key conf(2,3)
    by (simp add: emit_perf_def last_sent_perf_def key_ref_perf_def handler_ok_def)
qed

lemma received_c2_perf_live:
  assumes C: "crypto_correct C pub_of" "settings_ok C" "world_ok P' w" "session_ok P' (generation w) z"
    and z: "ps_beta z = PS1" "ke_kid (dp_recv (key_ref_perf z False)) = Some kid" "ke_kek (dp_recv (key_ref_perf z False)) = Some kek"
    and c: "window_update_perf z c = (True, z\<lparr>ps_window := win\<rparr>)" and B: "storage_live_perf B stored"
  shows "\<exists>t z' w'. received_c2_trans_perf C B s kid (to_nonce p c) (snd (aead_encrypt_in_place C kek (to_nonce p c) (Some []) [])) z w
      = (Ok t, z', w') \<and>
    ps_beta z' = PS2 \<and> key_ref_perf z' False = key_ref_perf z False \<and> ps_ratchet_state1 z' = ps_ratchet_state1 z \<and>
    ps_s_remote z' = ps_s_remote z \<and> ps_hk_send z' = ps_hk_send z \<and> ps_hk_recv z' = ps_hk_recv z \<and>
    ps_ratchet_state2 z' = ps_ratchet_state2 z \<and> ps_noise_kk_ss z' = ps_noise_kk_ss z \<and> px_s_secret w' = px_s_secret w \<and>
    stored (pw_app w') = stored (pw_app w) \<and> world_ok P' w' \<and> session_ok P' (generation w') z'"
proof -
  let ?n = "to_nonce p c" let ?c2 = "snd (aead_encrypt_in_place C kek ?n (Some []) [])"
  note tag = control_tag_perf [OF C(1) settings_sized [OF C(2)]]
  have ok1: "session_ok P' (generation w) (z\<lparr>ps_window := win\<rparr>)" using window_update_perf_full [OF C(4) c] by blast
  then have "session_ok P' (generation w) (z\<lparr>ps_window := win\<rparr>\<lparr>ps_beta := PS2\<rparr>)"
    using beta_keys(2) [OF ok1] z(1) by (simp add: session_ok_def beta_ok_def)
  from enter_s2_perf_live [OF C(2,3) this B]
  obtain red t w1 where e: "enter_s2_perf C B (z\<lparr>ps_window := win\<rparr>) w = (Ok red, z\<lparr>ps_window := win, ps_timeout_timer := t,
      ps_resend_timer := I64_MAX, ps_beta := PS2\<rparr>, w1)" "stored (pw_app w1) = stored (pw_app w)" "px_s_secret w1 = px_s_secret w" by auto
  have r: "received_c2_trans_perf C B s kid ?n ?c2 z w = (Ok red, z\<lparr>ps_window := win, ps_timeout_timer := t,
      ps_resend_timer := I64_MAX, ps_beta := PS2\<rparr>, w1)"
    using z tag(1) [of kek ?n] tag(2) [of kek ?n] c e(1) by (simp add: received_c2_trans_perf_def recv_kid_perf_def Let_def zssp_sizes)
  have "handler_ok P' w (received_c2_trans_perf C B s kid ?n ?c2 z w)" by (rule received_c2_trans_perf_ok [OF C(2-4)])
  then show ?thesis unfolding r using z(2) e(2,3) by (simp add: key_ref_perf_def handler_ok_def)
qed

section \<open>The handshake\<close>

lemma handshake_open_live:
  assumes C: "settings_ok C" "world_ok P' w" "heap_room (px_session_queue w)" "length ident \<le> IDENTITY_MAX_SIZE"
    and A: "storage_live_perf A stored" "ratchets_wf (stored (pw_app w) pk)" "kids_live C (px_session_map w)"
  shows "\<exists>s w' z kid a1 r0 r1. handshake_open C P A pk d ident w = Some (s, z, w') \<and>
    kid \<noteq> 0 \<and> ps_beta z = PA1 a1 \<and> fresh_with_perf z pk (stored (pw_app w) pk) \<and>
    key_ref_perf z True = set_recv_kid_perf kid duplex_key_perf_default \<and>
    create_a1_state_perf C P r0 pk kid (ps_ratchet_state1 z) (ps_ratchet_state2 z) ident = (a1, r1) \<and>
    ps_hk_recv z = take AES_256_KEY_SIZE (fst (get_ask_perf C (ap_noise a1) LABEL_HEADER_KEY)) \<and>
    ps_hk_send z = take AES_256_KEY_SIZE (snd (get_ask_perf C (ap_noise a1) LABEL_HEADER_KEY)) \<and>
    ps_noise_kk_ss z = kp_agree C (px_s_secret w) pk \<and>
    last_sent_perf w' = ap_x1 a1 \<and> px_s_secret w' = px_s_secret w \<and> stored (pw_app w') = stored (pw_app w) \<and>
    world_ok P' w' \<and> session_ok P' (generation w') z"
proof -
  obtain r a where r: "pa_restore_by_identity A pk d None (pw_app w) = (Inr r, a)" "stored a = stored (pw_app w)"
    "(case r of None \<Rightarrow> new_initial_states | Some rss \<Rightarrow> rss) = stored (pw_app w) pk"
    using storage_live_perfD(2) [OF A(1,2), of d None] by auto
  have kids: "kids_live C (px_session_map (w\<lparr>pw_app := a\<rparr>))" "world_ok P' (w\<lparr>pw_app := a\<rparr>)" "heap_room (px_session_queue (w\<lparr>pw_app := a\<rparr>))"
    using A(3) C(2,3) by simp_all
  from trans_to_a1_perf_live [OF C(1) kids(2,3) C(4) A(2) A(1) kids(1), of P pk d]
  obtain s t w' z kid a1 r0 r1 where o: "trans_to_a1_perf C P A pk d ident (stored (pw_app w) pk) (w\<lparr>pw_app := a\<rparr>) = (Ok (s, t), w')"
    "px_heap w' s = Some z" "kid \<noteq> 0" "ps_beta z = PA1 a1" "fresh_with_perf z pk (stored (pw_app w) pk)"
    "key_ref_perf z True = set_recv_kid_perf kid duplex_key_perf_default"
    "create_a1_state_perf C P r0 pk kid (ps_ratchet_state1 z) (ps_ratchet_state2 z) ident = (a1, r1)"
    "ps_hk_recv z = take AES_256_KEY_SIZE (fst (get_ask_perf C (ap_noise a1) LABEL_HEADER_KEY))"
    "ps_hk_send z = take AES_256_KEY_SIZE (snd (get_ask_perf C (ap_noise a1) LABEL_HEADER_KEY))"
    "last_sent_perf w' = ap_x1 a1" "px_s_secret w' = px_s_secret w" "stored (pw_app w') = stored (pw_app w)" "world_ok P' w'"
    "ps_noise_kk_ss z = kp_agree C (px_s_secret w) pk"
    using r(2) by auto
  have "handshake_open C P A pk d ident w = Some (s, z, w')" using r o(1,2) by (simp add: handshake_open_def)
  with o stored_ok [OF o(13,2)] show ?thesis by blast
qed

lemma handshake_answered_perf:
  assumes C: "crypto_correct C pub_of" "settings_ok C" and ident: "length ident \<le> IDENTITY_MAX_SIZE"
    and A: "storage_live_perf A storedA" "ratchets_wf (storedA (pw_app wA) (pub_of (px_s_secret wB)))" "kids_live C (px_session_map wA)"
      "world_ok P' wA" "heap_room (px_session_queue wA)"
    and B: "storage_live_perf B storedB" "kids_live C (px_session_map wB)" "world_ok P' wB" "hc_wf (px_handshakes wB)"
      "\<And>k. hc_get (px_handshakes wB) k = None"
    and rs: "rs = rss_state1 (storedA (pw_app wA) (pub_of (px_s_secret wB)))"
    and f: "\<And>rf2. \<exists>l a. find_ratchet_perf B (rs_fingerprint rs) rf2 (pw_app wB) = (Inr (rs, l), a) \<and> Q l (snd (pa_time B a))"
  shows "\<exists>s z wA1 wB1 c x2 addr b2. handshake_open C P A (pub_of (px_s_secret wB)) d ident wA = Some (s, z, wA1) \<and>
    handshake_answer C P B (last_sent_perf wA1) wB = Some wB1 \<and>
    unpack_perf P (last_sent_perf wB1) = (pb_kid_send b2, to_nonce PACKET_TYPE_HANDSHAKE_RESPONSE c, x2) \<and>
    hc_get (px_handshakes wB1) (pb_kid_recv b2) = Some addr \<and> px_b2_heap wB1 addr = Some b2 \<and> hc_wf (px_handshakes wB1) \<and>
    answered_perf C P pub_of ident s z b2 c x2 \<and> pb_ratchet_state b2 = rs \<and> px_session_map wB1 (pb_kid_recv b2) = None \<and>
    fresh_with_perf z (pub_of (px_s_secret wB)) (storedA (pw_app wA1) (pub_of (px_s_secret wB))) \<and>
    Q (pb_lookup_data b2) (pw_app wB1) \<and> storedB (pw_app wB1) = storedB (pw_app wB) \<and> px_session_queue wB1 = px_session_queue wB \<and>
    px_s_secret wA1 = px_s_secret wA \<and> px_s_secret wB1 = px_s_secret wB \<and>
    ps_noise_kk_ss z = kp_agree C (px_s_secret wA) (pub_of (px_s_secret wB)) \<and>
    world_ok P' wA1 \<and> session_ok P' (generation wA1) z \<and> world_ok P' wB1"
proof -
  let ?pk = "pub_of (px_s_secret wB)"
  note sz = settings_sized [OF C(2)]
  from handshake_open_live [OF C(2) A(4,5) ident A(1-3), of P d]
  obtain s wA1 z kid a1 r0 r1 where o: "handshake_open C P A ?pk d ident wA = Some (s, z, wA1)" "kid \<noteq> 0" "ps_beta z = PA1 a1"
    "fresh_with_perf z ?pk (storedA (pw_app wA) ?pk)" "key_ref_perf z True = set_recv_kid_perf kid duplex_key_perf_default"
    "create_a1_state_perf C P r0 ?pk kid (ps_ratchet_state1 z) (ps_ratchet_state2 z) ident = (a1, r1)"
    "ps_hk_recv z = take AES_256_KEY_SIZE (fst (get_ask_perf C (ap_noise a1) LABEL_HEADER_KEY))"
    "ps_hk_send z = take AES_256_KEY_SIZE (snd (get_ask_perf C (ap_noise a1) LABEL_HEADER_KEY))"
    "last_sent_perf wA1 = ap_x1 a1" "px_s_secret wA1 = px_s_secret wA" "storedA (pw_app wA1) = storedA (pw_app wA)"
    "world_ok P' wA1" "session_ok P' (generation wA1) z" "ps_noise_kk_ss z = kp_agree C (px_s_secret wA) ?pk" by blast
  have wf: "ratchet_wf (ps_ratchet_state1 z)" "pred_option ratchet_wf (ps_ratchet_state2 z)" and rs1: "ps_ratchet_state1 z = rs"
    using A(2) o(4) rs by (simp_all add: fresh_with_perf_def ratchets_wf_def ratchet_states_new_def)
  let ?rf2 = "case ps_ratchet_state2 z of None \<Rightarrow> replicate RATCHET_SIZE 0 | Some rs \<Rightarrow> rs_fingerprint rs"
  obtain n x1 response e1 k1 k2 where x1: "unpack_perf P (ap_x1 a1) = (0, n, x1 @ response)" "length response = CHALLENGE_SIZE"
    "kem_generate C k1 = ((ap_e1_secret a1, e1), k2)" "ap_identity a1 = ident"
    "read_x1_perf C P (px_s_secret wB) n x1 = Inr (kid, pub_of (ap_e_secret a1), e1, rs_fingerprint rs, ?rf2, ap_noise a1)"
    using read_x1_perf_follows [OF C(1) sz o(2) wf o(6)] unfolding rs1 by metis
  obtain l aB where aB: "find_ratchet_perf B (rs_fingerprint rs) ?rf2 (pw_app wB) = (Inr (rs, l), aB)" "Q l (snd (pa_time B aB))" using f by blast
  from received_x1_perf_live [OF C B(3) x1(5,3) aB(1) B(1,2,4,5)]
  obtain e n2 p2 rng kidB n3 p3 c b2 addr t wB1 where x2: "received_x1_trans_perf C P B n x1 wB = (Ok t, wB1)"
    "write_x2_tokens_perf C (pub_of (ap_e_secret a1)) e1 (rs_key rs) (ap_noise a1) (px_rng wB) = (Inr (e, n2, p2), rng)"
    "write_x2_payload_perf C P n2 p2 kidB = (n3, p3, c)" "kidB \<noteq> 0"
    "last_sent_perf wB1 = set_header P p3 kid (to_nonce PACKET_TYPE_HANDSHAKE_RESPONSE c)"
    "hc_get (px_handshakes wB1) kidB = Some addr" "px_b2_heap wB1 addr = Some b2" "hc_wf (px_handshakes wB1)"
    "pb_noise b2 = n3" "pb_e_secret b2 = e" "pb_kid_send b2 = kid" "pb_kid_recv b2 = kidB" "pb_ratchet_state b2 = rs" "pb_lookup_data b2 = l"
    "pb_hk_send b2 = take AES_256_KEY_SIZE (fst (get_ask_perf C (ap_noise a1) LABEL_HEADER_KEY))"
    "pb_hk_recv b2 = take AES_256_KEY_SIZE (snd (get_ask_perf C (ap_noise a1) LABEL_HEADER_KEY))"
    "px_session_map wB1 kidB = None" "px_session_queue wB1 = px_session_queue wB" "px_s_secret wB1 = px_s_secret wB"
    "pw_app wB1 = snd (pa_time B aB)" "storedB (pw_app wB1) = storedB aB" "world_ok P' wB1" by blast
  note r = read_x2_perf_follows [OF C(1) sz x1(3) x2(2,3,4)]
  have "answered_perf C P pub_of ident s z b2 c (drop 16 p3)"
    unfolding answered_perf_def using r(1) [of s] r(2,3) r(4) [of PACKET_TYPE_HANDSHAKE_RESPONSE] o(3,5,7,8) x1(4) x2(9-16) rs1 by auto
  moreover have "unpack_perf P (last_sent_perf wB1) = (kid, to_nonce PACKET_TYPE_HANDSHAKE_RESPONSE c, drop 16 p3)"
    using r(2) x2(5) by (simp add: unpack_set_header)
  moreover have "handshake_answer C P B (last_sent_perf wA1) wB = Some wB1"
    using o(9) x1(1,2) x2(1) by (simp add: handshake_answer_def)
  moreover have "storedB (pw_app wB1) = storedB (pw_app wB)" using x2(21) find_ratchet_perf_stored [OF B(1) aB(1)] by simp
  ultimately show ?thesis using o(1,4,10-14) x2(6,7,8,11,12,13,14,17,18,19,20,22) aB(2)
    by (intro exI [of _ s] exI [of _ z] exI [of _ wA1] exI [of _ wB1] exI [of _ c] exI [of _ "drop 16 p3"] exI [of _ addr] exI [of _ b2]) simp
qed

lemma handshake_completed_perf:
  assumes C: "crypto_correct C pub_of" "settings_ok C" and ident: "length ident \<le> IDENTITY_MAX_SIZE"
    and z: "answered_perf C P pub_of ident s z b2 c x2" "fresh_with_perf z pkB (storedA (pw_app wA) pkB)"
    and A: "storage_live_perf A storedA" "world_ok P' wA" "session_ok P' (generation wA) z"
    and hc: "hc_get (px_handshakes wB) (pb_kid_recv b2) = Some addr" "px_b2_heap wB addr = Some b2" "hc_wf (px_handshakes wB)"
      "px_session_map wB (pb_kid_recv b2) = None"
    and B: "storage_live_perf B storedB" "world_ok P' wB" "heap_room (px_session_queue wB)"
      "ratchets_wf (storedB (pw_app wB) (pub_of (px_s_secret wA)))"
      "rss_state1 (storedB (pw_app wB) (pub_of (px_s_secret wA))) = pb_ratchet_state b2"
      "aa_session_data (fst (pa_check_accept_session B (pub_of (px_s_secret wA)) ident (pb_lookup_data b2) (pw_app wB))) \<noteq> None"
  shows "\<exists>n4 tA z1 wA2 t wB2 zB.
    received_x2_trans_perf C P A s (pb_kid_send b2) (to_nonce PACKET_TYPE_HANDSHAKE_RESPONSE c) x2 z wA = (Ok (False, tA), z1, wA2) \<and>
    handshake_accept C P B (last_sent_perf wA2) wB = Some (t, zB, wB2) \<and>
    last_sent_perf wB2 = control_packet C P PACKET_TYPE_KEY_CONFIRM (take AES_256_KEY_SIZE (fst (get_ask_perf C n4 LABEL_KEX_KEY)))
      (pb_kid_send b2) 1 \<and>
    is_pa3 (ps_beta z1) \<and> ps_beta zB = PS1 \<and>
    key_ref_perf z1 True = initiator_keys_perf C n4 (pb_kid_recv b2) (pb_kid_send b2) \<and>
    key_ref_perf zB False = responder_keys_perf C n4 (pb_kid_send b2) (pb_kid_recv b2) \<and>
    ps_ratchet_state1 z1 = ps_ratchet_state1 zB \<and> ps_s_remote zB = pub_of (px_s_secret wA) \<and>
    ps_hk_send z1 = ps_hk_recv zB \<and> ps_hk_recv z1 = ps_hk_send zB \<and>
    ps_window zB = window_new COUNTER_WINDOW_MAX_OOO \<and> fresh_with_perf z1 pkB (storedA (pw_app wA2) pkB) \<and>
    storedB (pw_app wB2) (ps_s_remote zB) = ratchet_states_new (ps_ratchet_state1 zB) None \<and> ps_ratchet_state2 zB = None \<and>
    ps_noise_kk_ss z1 = ps_noise_kk_ss z \<and> ps_noise_kk_ss zB = kp_agree C (px_s_secret wB) (pub_of (px_s_secret wA)) \<and>
    px_s_secret wA2 = px_s_secret wA \<and> px_s_secret wB2 = px_s_secret wB \<and>
    world_ok P' wA2 \<and> session_ok P' (generation wA2) z1 \<and> world_ok P' wB2 \<and> session_ok P' (generation wB2) zB"
proof -
  from z(1) obtain a1 noise where r: "ps_beta z = PA1 a1" "ap_identity a1 = ident"
    "key_ref_perf z True = set_recv_kid_perf (pb_kid_send b2) duplex_key_perf_default"
    "length x2 = HANDSHAKE_RESPONSE_SIZE" "c < COUNTER_WINDOW_MAX_SKIP_AHEAD"
    "drop 9 (to_nonce PACKET_TYPE_HANDSHAKE_RESPONSE c) = drop (length x2 - 3) x2"
    "read_x2_tokens_perf C s a1 x2 = Inr (pub_of (pb_e_secret b2), 1633, noise)"
    "test_ratchet_key_perf C P noise (subslice 1633 1637 x2) (subslice 1637 1653 x2) (rs_key (ps_ratchet_state1 z))
       = Some (pb_kid_recv b2, pb_noise b2)"
    and eq: "ps_ratchet_state1 z = pb_ratchet_state b2" "ps_hk_recv z = pb_hk_send b2" "ps_hk_send z = pb_hk_recv b2"
    unfolding answered_perf_def by auto
  have pk: "ps_s_remote z = pkB" using z(2) by (simp add: fresh_with_perf_def)
  obtain n4 p3 where w3: "write_x3_perf C (px_s_secret wA) (pub_of (pb_e_secret b2)) (ap_identity a1) (pb_noise b2) = (n4, p3)" by fastforce
  from received_x2_perf_live [OF C(2) A(2,3) r(1,3) A(1) _ r(4-8) w3] z(2) pk
  obtain tA z1 wA2 where x2: "received_x2_trans_perf C P A s (pb_kid_send b2) (to_nonce PACKET_TYPE_HANDSHAKE_RESPONSE c) x2 z wA = (Ok (False, tA), z1, wA2)"
    "last_sent_perf wA2 = set_header P p3 (pb_kid_recv b2) (to_nonce PACKET_TYPE_HANDSHAKE_COMPLETION 0)" "is_pa3 (ps_beta z1)"
    "key_ref_perf z1 True = initiator_keys_perf C n4 (pb_kid_recv b2) (pb_kid_send b2)"
    "ps_ratchet_state1 z1 = create_ratchet_state C n4 (rs_chain_len (ps_ratchet_state1 z))" "ps_hk_send z1 = ps_hk_send z"
    "ps_hk_recv z1 = ps_hk_recv z" "fresh_with_perf z1 pkB (storedA (pw_app wA2) pkB)" "world_ok P' wA2" "session_ok P' (generation wA2) z1"
    "ps_noise_kk_ss z1 = ps_noise_kk_ss z" "px_s_secret wA2 = px_s_secret wA"
    by blast
  note x3 = read_x3_perf_follows [OF C(1) settings_sized [OF C(2)] w3 [unfolded r(2)]]
  have un: "unpack_perf P (last_sent_perf wA2) = (pb_kid_recv b2, to_nonce PACKET_TYPE_HANDSHAKE_COMPLETION 0, drop 16 p3)"
    using x2(2) x3(2) by (simp add: unpack_set_header)
  obtain cache where rm: "hc_remove (px_handshakes wB) (pb_kid_recv b2) = (True, cache)"
    using hc_remove_some [OF hc(3), of "pb_kid_recv b2"] hc(1) by auto
  obtain d where d: "aa_session_data (fst (pa_check_accept_session B (pub_of (px_s_secret wA)) ident (pb_lookup_data b2) (pw_app wB))) = Some d"
    using B(6) by blast
  let ?wB = "wB\<lparr>px_handshakes := cache\<rparr>"
  have "\<exists>t u wB2 zB. received_x3_trans_perf C P B b2 (pb_kid_recv b2) (drop 16 p3) ?wB = (Ok (t, False, u), wB2) \<and> px_heap wB2 t = Some zB \<and>
    last_sent_perf wB2 = control_packet C P PACKET_TYPE_KEY_CONFIRM (take AES_256_KEY_SIZE (fst (get_ask_perf C n4 LABEL_KEX_KEY)))
      (pb_kid_send b2) 1 \<and>
    ps_beta zB = PS1 \<and> key_ref_perf zB False = responder_keys_perf C n4 (pb_kid_send b2) (pb_kid_recv b2) \<and>
    ps_ratchet_state1 zB = create_ratchet_state C n4 (rs_chain_len (pb_ratchet_state b2)) \<and> ps_s_remote zB = pub_of (px_s_secret wA) \<and>
    ps_hk_send zB = pb_hk_send b2 \<and> ps_hk_recv zB = pb_hk_recv b2 \<and> ps_window zB = window_new COUNTER_WINDOW_MAX_OOO \<and>
    ps_ratchet_state2 zB = None \<and> ps_noise_kk_ss zB = kp_agree C (px_s_secret ?wB) (pub_of (px_s_secret wA)) \<and> px_s_secret wB2 = px_s_secret ?wB \<and>
    storedB (pw_app wB2) (pub_of (px_s_secret wA)) = ratchet_states_new (ps_ratchet_state1 zB) None \<and> world_ok P' wB2"
    by (rule received_x3_perf_live [OF C _ _ x3(1) refl B(1) _ _ _]) (use B d hc(4) in simp_all)
  then obtain t u wB2 zB where x3: "received_x3_trans_perf C P B b2 (pb_kid_recv b2) (drop 16 p3) ?wB = (Ok (t, False, u), wB2)" "px_heap wB2 t = Some zB"
    "last_sent_perf wB2 = control_packet C P PACKET_TYPE_KEY_CONFIRM (take AES_256_KEY_SIZE (fst (get_ask_perf C n4 LABEL_KEX_KEY)))
      (pb_kid_send b2) 1"
    "ps_beta zB = PS1" "key_ref_perf zB False = responder_keys_perf C n4 (pb_kid_send b2) (pb_kid_recv b2)"
    "ps_ratchet_state1 zB = create_ratchet_state C n4 (rs_chain_len (pb_ratchet_state b2))" "ps_s_remote zB = pub_of (px_s_secret wA)"
    "ps_hk_send zB = pb_hk_send b2" "ps_hk_recv zB = pb_hk_recv b2" "ps_window zB = window_new COUNTER_WINDOW_MAX_OOO"
    "storedB (pw_app wB2) (pub_of (px_s_secret wA)) = ratchet_states_new (ps_ratchet_state1 zB) None" "world_ok P' wB2"
    "ps_ratchet_state2 zB = None" "ps_noise_kk_ss zB = kp_agree C (px_s_secret wB) (pub_of (px_s_secret wA))" "px_s_secret wB2 = px_s_secret wB"
    by auto
  have "handshake_accept C P B (last_sent_perf wA2) wB = Some (t, zB, wB2)"
    using un hc(1,2) rm x3(1,2) by (simp add: handshake_accept_def)
  then show ?thesis using x2 x3(3-15) eq stored_ok [OF x3(12,2)]
    by (intro exI [of _ n4] exI [of _ tA] exI [of _ z1] exI [of _ wA2] exI [of _ t] exI [of _ wB2] exI [of _ zB]) simp
qed

lemma initiator_keys_perf_parts:
  assumes "k = initiator_keys_perf C n a b"
  shows "ke_kid (dp_recv k) = Some b" "ke_kek (dp_recv k) = Some (take AES_256_KEY_SIZE (fst (get_ask_perf C n LABEL_KEX_KEY)))"
    "ke_kek (dp_send k) = Some (take AES_256_KEY_SIZE (snd (get_ask_perf C n LABEL_KEX_KEY)))" "ke_kid (dp_send k) = Some a"
  using assms by (simp_all add: initiator_keys_perf_def)

lemma responder_keys_perf_parts:
  assumes "k = responder_keys_perf C n a b"
  shows "ke_kid (dp_recv k) = Some b" "ke_kek (dp_recv k) = Some (take AES_256_KEY_SIZE (snd (get_ask_perf C n LABEL_KEX_KEY)))"
    "ke_kek (dp_send k) = Some (take AES_256_KEY_SIZE (fst (get_ask_perf C n LABEL_KEX_KEY)))" "ke_kid (dp_send k) = Some a"
  using assms by (simp_all add: responder_keys_perf_def)

lemma keys_mirrored_perf_ends: "keys_mirrored_perf (initiator_keys_perf C n a b) (responder_keys_perf C n b a)"
  by (simp add: keys_mirrored_perf_def initiator_keys_perf_def responder_keys_perf_def)

text \<open>C10: The honest handshake of the performance crate completes and both ends agree. Alice opens a session
  to Bob's static key; Bob, with no handshake pending, finds the ratchet state Alice offered first and accepts her.
  When both storages apply updates that compare equal, both generators find fresh key ids and both
  timer queues have a slot left, the five packets, as the network carries them, are all
  accepted and no handler panics. The two ends are paired: both sessions are in state S2, each end's
  sending keys (with their key ids and the keys of the two pools) are the other's receiving keys, also the
  header keys, both hold the same new ratchet state, have stored it for the other's static key, and have
  forgotten the old one. Both contexts are well formed.\<close>

theorem perf_handshake_agrees:
  fixes A :: "('pk, 'd, 'fd, 'a) application_perf" and B :: "('pk, 'e, 'fe, 'b) application_perf"
  assumes C: "crypto_correct C pub_of" "settings_ok C"
    and A: "world_ok P wA" "heap_room (px_session_queue wA)" "storage_live_perf A storedA"
      "ratchets_wf (storedA (pw_app wA) (pub_of (px_s_secret wB)))" "kids_live C (px_session_map wA)"
    and B: "world_ok P wB" "heap_room (px_session_queue wB)" "storage_live_perf B storedB"
      "ratchets_wf (storedB (pw_app wB) (pub_of (px_s_secret wA)))" "kids_live C (px_session_map wB)"
      "hc_wf (px_handshakes wB)" "\<And>k. hc_get (px_handshakes wB) k = None"
    and sync: "rss_state1 (storedA (pw_app wA) (pub_of (px_s_secret wB))) = rs"
      "rss_state1 (storedB (pw_app wB) (pub_of (px_s_secret wA))) = rs"
      "\<And>rf2. \<exists>l a. find_ratchet_perf B (rs_fingerprint rs) rf2 (pw_app wB) = (Inr (rs, l), a) \<and>
         aa_session_data (fst (pa_check_accept_session B (pub_of (px_s_secret wA)) ident l (snd (pa_time B a)))) \<noteq> None"
    and ident: "length ident \<le> IDENTITY_MAX_SIZE"
  shows "\<exists>zA wA' zB wB'. xk_handshake_perf C P A B (pub_of (px_s_secret wB)) d ident wA wB = Some (zA, wA', zB, wB') \<and>
    paired_perf pub_of storedA storedB zA wA' zB wB' \<and>
    ps_s_remote zA = pub_of (px_s_secret wB) \<and> ps_s_remote zB = pub_of (px_s_secret wA) \<and>
    world_ok P wA' \<and> session_ok P (generation wA') zA \<and> world_ok P wB' \<and> session_ok P (generation wB') zB"
proof -
  let ?pkA = "pub_of (px_s_secret wA)" and ?pkB = "pub_of (px_s_secret wB)"
  let ?Q = "\<lambda>l a. aa_session_data (fst (pa_check_accept_session B ?pkA ident l a)) \<noteq> None"
  from handshake_answered_perf [where Q = ?Q and rs = rs, OF C ident A(3,4,5,1,2) B(3,5,1,6,7) sync(1) [symmetric] sync(3), of P d]
  obtain s z wA1 wB1 c x2 addr b2 where h1: "handshake_open C P A ?pkB d ident wA = Some (s, z, wA1)"
    "handshake_answer C P B (last_sent_perf wA1) wB = Some wB1"
    "unpack_perf P (last_sent_perf wB1) = (pb_kid_send b2, to_nonce PACKET_TYPE_HANDSHAKE_RESPONSE c, x2)"
    and hc: "hc_get (px_handshakes wB1) (pb_kid_recv b2) = Some addr" "px_b2_heap wB1 addr = Some b2" "hc_wf (px_handshakes wB1)"
      "px_session_map wB1 (pb_kid_recv b2) = None"
    and ans: "answered_perf C P pub_of ident s z b2 c x2" "fresh_with_perf z ?pkB (storedA (pw_app wA1) ?pkB)"
    and rs: "pb_ratchet_state b2 = rs" and Q: "?Q (pb_lookup_data b2) (pw_app wB1)" "storedB (pw_app wB1) = storedB (pw_app wB)"
    and f: "px_session_queue wB1 = px_session_queue wB" "px_s_secret wA1 = px_s_secret wA" "px_s_secret wB1 = px_s_secret wB"
    and kk: "ps_noise_kk_ss z = kp_agree C (px_s_secret wA) ?pkB"
    and ok: "world_ok P wA1" "session_ok P (generation wA1) z" "world_ok P wB1"
    by blast
  have b: "heap_room (px_session_queue wB1)" "ratchets_wf (storedB (pw_app wB1) (pub_of (px_s_secret wA1)))"
    "rss_state1 (storedB (pw_app wB1) (pub_of (px_s_secret wA1))) = pb_ratchet_state b2"
    "aa_session_data (fst (pa_check_accept_session B (pub_of (px_s_secret wA1)) ident (pb_lookup_data b2) (pw_app wB1))) \<noteq> None"
    using B(2,4) sync(2) rs Q f by simp_all
  from handshake_completed_perf [OF C ident ans A(3) ok(1,2) hc B(3) ok(3) b] 
  obtain n4 tA zA1 wA2 t wB2 zB1 where
    h2: "received_x2_trans_perf C P A s (pb_kid_send b2) (to_nonce PACKET_TYPE_HANDSHAKE_RESPONSE c) x2 z wA1 = (Ok (False, tA), zA1, wA2)"
    "handshake_accept C P B (last_sent_perf wA2) wB1 = Some (t, zB1, wB2)"
    "last_sent_perf wB2 = control_packet C P PACKET_TYPE_KEY_CONFIRM (take AES_256_KEY_SIZE (fst (get_ask_perf C n4 LABEL_KEX_KEY)))
      (pb_kid_send b2) 1"
    and k: "is_pa3 (ps_beta zA1)" "ps_beta zB1 = PS1" "key_ref_perf zA1 True = initiator_keys_perf C n4 (pb_kid_recv b2) (pb_kid_send b2)"
    "key_ref_perf zB1 False = responder_keys_perf C n4 (pb_kid_send b2) (pb_kid_recv b2)"
    and e: "ps_ratchet_state1 zA1 = ps_ratchet_state1 zB1" "ps_s_remote zB1 = ?pkA" "ps_hk_send zA1 = ps_hk_recv zB1"
    "ps_hk_recv zA1 = ps_hk_send zB1" "storedB (pw_app wB2) (ps_s_remote zB1) = ratchet_states_new (ps_ratchet_state1 zB1) None"
    and fr: "ps_window zB1 = window_new COUNTER_WINDOW_MAX_OOO" "fresh_with_perf zA1 ?pkB (storedA (pw_app wA2) ?pkB)"
    and ok2: "world_ok P wA2" "session_ok P (generation wA2) zA1" "world_ok P wB2" "session_ok P (generation wB2) zB1"
    and sc: "ps_ratchet_state2 zB1 = None" "ps_noise_kk_ss zA1 = ps_noise_kk_ss z" "ps_noise_kk_ss zB1 = kp_agree C (px_s_secret wB) ?pkA"
      "px_s_secret wA2 = px_s_secret wA" "px_s_secret wB2 = px_s_secret wB"
    unfolding f(2,3) by blast
  let ?ask = "get_ask_perf C n4 LABEL_KEX_KEY"
  have pk: "ps_s_remote zA1 = ?pkB" "ps_send_counter zA1 = 0" "ps_key_creation_counter zA1 = 0" "ps_window zA1 = window_new COUNTER_WINDOW_MAX_OOO"
    "storedA (pw_app wA2) (ps_s_remote zA1) = ratchet_states_new (ps_ratchet_state1 zA1) (ps_ratchet_state2 zA1)"
    using fr(2) by (simp_all add: fresh_with_perf_def)
  obtain winA winB where win: "window_update_perf zA1 1 = (True, zA1\<lparr>ps_window := winA\<rparr>)" "window_update_perf zB1 0 = (True, zB1\<lparr>ps_window := winB\<rparr>)"
    using window_takes_first [OF pk(4), of 1] window_takes_first [OF fr(1), of 0] by auto
  obtain tA' zA wA3 where h3: "received_c1_trans_perf C P A s (pb_kid_send b2) (to_nonce PACKET_TYPE_KEY_CONFIRM 1)
       (snd (aead_encrypt_in_place C (take AES_256_KEY_SIZE (fst ?ask)) (to_nonce PACKET_TYPE_KEY_CONFIRM 1) (Some []) []))
       zA1 wA2 = (Ok tA', zA, wA3)"
    "last_sent_perf wA3 = control_packet C P PACKET_TYPE_ACK (take AES_256_KEY_SIZE (snd ?ask)) (pb_kid_recv b2) 0"
    and eA: "ps_beta zA = PS2" "key_ref_perf zA False = initiator_keys_perf C n4 (pb_kid_recv b2) (pb_kid_send b2)"
    "ps_ratchet_state1 zA = ps_ratchet_state1 zA1" "ps_s_remote zA = ?pkB" "ps_hk_send zA = ps_hk_send zA1" "ps_hk_recv zA = ps_hk_recv zA1"
    "storedA (pw_app wA3) ?pkB = ratchet_states_new (ps_ratchet_state1 zA1) None" "ps_ratchet_state2 zA = None"
    "ps_noise_kk_ss zA = ps_noise_kk_ss zA1" "px_s_secret wA3 = px_s_secret wA2" "world_ok P wA3" "session_ok P (generation wA3) zA"
    using received_c1_perf_live [OF C ok2(1,2) disjI1 [OF k(1)] initiator_keys_perf_parts [OF k(3)] win(1) _ _ A(3) pk(5),
        of P s PACKET_TYPE_KEY_CONFIRM] k(3) pk within_first_uses [of 0]
    by auto
  obtain tB zB wB3 where h4: "received_c2_trans_perf C B t (pb_kid_recv b2) (to_nonce PACKET_TYPE_ACK 0)
       (snd (aead_encrypt_in_place C (take AES_256_KEY_SIZE (snd ?ask)) (to_nonce PACKET_TYPE_ACK 0) (Some []) []))
       zB1 wB2 = (Ok tB, zB, wB3)"
    and eB: "ps_beta zB = PS2" "key_ref_perf zB False = responder_keys_perf C n4 (pb_kid_send b2) (pb_kid_recv b2)"
    "ps_ratchet_state1 zB = ps_ratchet_state1 zB1" "ps_s_remote zB = ps_s_remote zB1" "ps_hk_send zB = ps_hk_send zB1"
    "ps_hk_recv zB = ps_hk_recv zB1" "storedB (pw_app wB3) = storedB (pw_app wB2)" "ps_ratchet_state2 zB = ps_ratchet_state2 zB1"
    "ps_noise_kk_ss zB = ps_noise_kk_ss zB1" "px_s_secret wB3 = px_s_secret wB2" "world_ok P wB3" "session_ok P (generation wB3) zB"
    using received_c2_perf_live [OF C ok2(3,4) k(2) responder_keys_perf_parts(1,2) [OF k(4)] win(2) B(3), of t PACKET_TYPE_ACK] k(4)
    by auto
  have "xk_handshake_perf C P A B ?pkB d ident wA wB = Some (zA, wA3, zB, wB3)"
    using h1 h2 h3 h4 by (simp add: xk_handshake_perf_def unpack_control_packet)
  moreover have "paired_perf pub_of storedA storedB zA wA3 zB wB3"
    unfolding paired_perf_def using e eA eB sc kk crypto_correctD(5) [OF C(1), of "px_s_secret wA" "px_s_secret wB"]
      keys_mirrored_perf_ends [of C n4 "pb_kid_recv b2" "pb_kid_send b2"] by simp
  ultimately show ?thesis using eA eB e(2) by auto
qed

text \<open>The contexts of the witness: two fresh ones with the static keys 9 and 5.\<close>

lemma storing_application_live: "storage_live_perf storing_application id"
  unfolding storage_live_perf_def by (auto simp: storing_application_def)

lemma storing_context_fields:
  "world_ok P (storing_context k r)" "heap_room (px_session_queue (storing_context k r))" "px_session_map (storing_context k r) = Map.empty"
  "hc_wf (px_handshakes (storing_context k r))" "hc_get (px_handshakes (storing_context k r)) i = None"
  "px_s_secret (storing_context k r) = k" "pw_app (storing_context k r) = (\<lambda>_. new_initial_states)"
  unfolding storing_context_def
  by (rule Context_new_perf_ok) (simp_all add: Context_new_perf_def case_prod_beta heap_room_def heap_new_def USIZE_MAX_def hc_new_wf hc_new_get)

theorem perf_handshake_agrees_witness:
  "\<exists>zA wA zB wB. xk_handshake_perf sample_crypto sample_platform storing_application storing_application 5 () [1, 2, 3]
       (storing_context 9 1) (storing_context 5 2) = Some (zA, wA, zB, wB) \<and>
     paired_perf id id id zA wA zB wB"
proof -
  have "find_ratchet_perf storing_application (rs_fingerprint ratchet_empty) rf2 (\<lambda>_. new_initial_states)
      = (Inr (ratchet_empty, None), \<lambda>_. new_initial_states)" for rf2
    by (simp add: find_ratchet_perf_def storing_application_def ratchet_empty_def Let_def)
  moreover have "aa_session_data (fst (pa_check_accept_session storing_application k i l a)) \<noteq> None" for k i l a
    by (simp add: storing_application_def)
  moreover have "ratchets_wf new_initial_states" "rss_state1 new_initial_states = ratchet_empty"
    by (simp_all add: ratchets_wf_def new_initial_states_def ratchet_empty_def ratchet_wf_def)
  ultimately show ?thesis
    using perf_handshake_agrees [OF sample_crypto_correct sample_settings_ok _ _ storing_application_live _ _ _ _ storing_application_live,
        of sample_platform "storing_context 9 1" "storing_context 5 2" ratchet_empty "[1, 2, 3]" "()"] sample_kids_live storing_context_fields
    by (simp add: zssp_sizes) blast
qed

end
