(* ===== verification/Perf_Rekey_Run.thy ===== *)
theory Perf_Rekey_Run
  imports Perf_Handshake_Run
begin

text \<open>
  The rekeying of two established sessions of the performance crate, with the handlers of
  \<open>performance/src/zeta.rs\<close> over a network that delivers every packet once: Alice's timer starts it (k1),
  Bob answers (k2), Alice confirms the new key (c1), Bob acknowledges (c2).
\<close>

section \<open>Definitions\<close>

definition kk_rekey_perf ::
  "('pk, 'kp, 'r, 'kem) crypto_layer \<Rightarrow> platform \<Rightarrow> ('pk, 'd, 'fd, 'a) application_perf \<Rightarrow> ('pk, 'e, 'fe, 'b) application_perf
     \<Rightarrow> session_id \<Rightarrow> session_id \<Rightarrow> i64
     \<Rightarrow> ('pk, 'kp, 'kem, 'd) session_perf \<Rightarrow> ('pk, 'kp, 'r, 'kem, 'd, 'fd, 'a) pworld
     \<Rightarrow> ('pk, 'kp, 'kem, 'e) session_perf \<Rightarrow> ('pk, 'kp, 'r, 'kem, 'e, 'fe, 'b) pworld
     \<Rightarrow> (('pk, 'kp, 'kem, 'd) session_perf \<times> ('pk, 'kp, 'r, 'kem, 'd, 'fd, 'a) pworld
        \<times> ('pk, 'kp, 'kem, 'e) session_perf \<times> ('pk, 'kp, 'r, 'kem, 'e, 'fe, 'b) pworld) option" where
  "kk_rekey_perf C P A B s t now zA wA zB wB =
     (case timeout_trans_perf C P s now zA wA of
        (Ok _, zA, wA) \<Rightarrow>
          (let (kid, n, k1) = unpack_perf P (last_sent_perf wA)
           in case received_k1_trans_perf C P B t kid n k1 zB wB of
                (Ok _, zB, wB) \<Rightarrow>
                  (let (kid, n, k2) = unpack_perf P (last_sent_perf wB)
                   in case received_k2_trans_perf C P A s kid n k2 zA wA of
                        (Ok _, zA, wA) \<Rightarrow>
                          (let (kid, n, c1) = unpack_perf P (last_sent_perf wA)
                           in case received_c1_trans_perf C P B t kid n c1 zB wB of
                                (Ok _, zB, wB) \<Rightarrow>
                                  (let (kid, n, c2) = unpack_perf P (last_sent_perf wB)
                                   in case received_c2_trans_perf C A s kid n c2 zA wA of
                                        (Ok _, zA, wA) \<Rightarrow> Some (zA, wA, zB, wB)
                                      | _ \<Rightarrow> None)
                              | _ \<Rightarrow> None)
                      | _ \<Rightarrow> None)
              | _ \<Rightarrow> None)
      | _ \<Rightarrow> None)"

text \<open>
  A session may rekey: its key is not used up, the sums of its counters do not wrap, and the other
  end's window takes the two counters that this end will use.
\<close>

definition may_rekey :: "('pk, 'kp, 'kem, 'd) session_perf \<Rightarrow> ('pk, 'kp, 'kem, 'e) session_perf \<Rightarrow> bool" where
  "may_rekey z y \<longleftrightarrow> unat (ps_send_counter z) + 2 ^ 32 < 2 ^ 64 \<and> ps_send_counter z \<le> ps_key_creation_counter z + EXPIRE_AFTER_USES \<and>
     fst (window_update_perf y (ps_send_counter z)) \<and>
     fst (window_update_perf (snd (window_update_perf y (ps_send_counter z))) (ps_send_counter z + 1))"

text \<open>What a rekeying leaves of a session: the peer, the header keys and the agreement of the static keys.\<close>

definition same_peer :: "('pk, 'kp, 'kem, 'd) session_perf \<Rightarrow> ('pk, 'kp, 'kem, 'd) session_perf \<Rightarrow> bool" where
  "same_peer z z' \<longleftrightarrow> ps_s_remote z' = ps_s_remote z \<and> ps_hk_send z' = ps_hk_send z \<and> ps_hk_recv z' = ps_hk_recv z \<and>
     ps_noise_kk_ss z' = ps_noise_kk_ss z"

text \<open>The ends of an example: fresh contexts whose queue has issued one index, and sessions with constant keys.\<close>

definition rekey_context :: "u8 \<Rightarrow> nat \<Rightarrow> (u8, u8, nat, unit, unit, unit, u8 \<Rightarrow> ratchet_states) pworld" where
  "rekey_context secret rng = (storing_context secret rng)\<lparr>px_session_queue := snd (the (reserve_index heap_new))\<rparr>"

definition rekey_end :: "u8 \<Rightarrow> u32 \<Rightarrow> u32 \<Rightarrow> u8 \<Rightarrow> u8 \<Rightarrow> (u8, u8, unit, unit) session_perf" where
  "rekey_end remote kid_send kid_recv k_send k_recv =
     (new_bob_session sample_crypto (sample_b2 kid_send kid_recv) () remote ratchet_empty [] (0, 2) 1000
       (replicate 64 k_send) (replicate 64 k_recv) (replicate 64 k_send) (replicate 64 k_recv))\<lparr>ps_beta := PS2\<rparr>"

section \<open>Counters and packets\<close>

lemma counter_room:
  fixes c :: u64
  assumes "unat c + 2 ^ 32 < 2 ^ 64"
  shows "c \<le> THREAD_SAFE_COUNTER_HARD_EXPIRE" "c + 1 \<le> THREAD_SAFE_COUNTER_HARD_EXPIRE"
    "c \<le> c + EXPIRE_AFTER_USES" "c + 1 \<le> c + EXPIRE_AFTER_USES" "c + 1 \<le> c + 1 + EXPIRE_AFTER_USES"
proof -
  have e: "unat EXPIRE_AFTER_USES = 2 ^ 32 - 1" "unat THREAD_SAFE_COUNTER_HARD_EXPIRE = 2 ^ 64 - 1 - 2 ^ 16"
    by (simp_all add: EXPIRE_AFTER_USES_def THREAD_SAFE_COUNTER_HARD_EXPIRE_def)
  have s: "unat (c + 1) = unat c + 1" using assms by (simp add: unat_word_ariths)
  have t: "unat (c + EXPIRE_AFTER_USES) = unat c + (2 ^ 32 - 1)" "unat (c + 1 + EXPIRE_AFTER_USES) = unat c + 1 + (2 ^ 32 - 1)"
    using assms s e by (simp_all add: unat_word_ariths)
  show "c \<le> THREAD_SAFE_COUNTER_HARD_EXPIRE" "c + 1 \<le> THREAD_SAFE_COUNTER_HARD_EXPIRE"
    "c \<le> c + EXPIRE_AFTER_USES" "c + 1 \<le> c + EXPIRE_AFTER_USES" "c + 1 \<le> c + 1 + EXPIRE_AFTER_USES"
    using assms by (simp_all add: word_le_nat_alt e s t del: unat_plus_simple)
qed

lemma unpack_sealed_packet:
  assumes "crypto_sized C" "16 \<le> length payload"
    "aead_encrypt_in_place C kek (to_nonce p c) (Some []) (drop HEADER_SIZE payload) = (ct, tag)"
  shows "unpack_perf P (sealed_packet C P p kek kid c payload) = (kid, to_nonce p c, ct @ tag)"
  using assms aead_encrypt_lengths [OF assms(1,3)] by (simp add: sealed_packet_def unpack_set_header zssp_sizes)

text \<open>A rekeying message sealed under the current key is opened by the other end.\<close>

lemma open_rekey_perf_live:
  assumes C: "crypto_correct C pub_of" "crypto_sized C" and k: "length k = 85"
    and z: "ke_kek (dp_recv (key_ref_perf z False)) = Some kek"
    and win: "window_update_perf z c = (True, z\<lparr>ps_window := win\<rparr>)"
  obtains x where "unpack_perf P (sealed_packet C P p kek kid c k) = (kid, to_nonce p c, x)" "length x = REKEY_SIZE"
    "\<And>s. open_rekey_perf C s (to_nonce p c) x z = (Ok (drop 16 k), z\<lparr>ps_window := win\<rparr>)"
proof -
  obtain ct tag where e: "aead_encrypt_in_place C kek (to_nonce p c) (Some []) (drop HEADER_SIZE k) = (ct, tag)" by fastforce
  have len: "length ct = 69" "length tag = 16" using aead_encrypt_lengths [OF C(2) e] k by (simp_all add: zssp_sizes)
  show thesis
  proof (rule that)
    show "unpack_perf P (sealed_packet C P p kek kid c k) = (kid, to_nonce p c, ct @ tag)"
      by (rule unpack_sealed_packet [OF C(2) _ e]) (simp add: k)
    show "open_rekey_perf C s (to_nonce p c) (ct @ tag) z = (Ok (drop 16 k), z\<lparr>ps_window := win\<rparr>)" for s
      using z win crypto_correctD(2) [OF C(1) e] len by (simp add: open_rekey_perf_def Let_def zssp_sizes)
  qed (simp add: len zssp_sizes)
qed

section \<open>The four steps\<close>

lemma remap_perf_live:
  assumes "kids_live C (px_session_map w)"
  shows "\<exists>kid g m. remap_perf C s z w = Some (kid, w\<lparr>px_rng := g, px_session_map := m\<rparr>) \<and> kid \<noteq> 0"
proof -
  let ?m = "case recv_kid_perf z True of
      Some kid \<Rightarrow> (case px_session_map w kid of Some s \<Rightarrow> (px_session_map w)(kid := None) | None \<Rightarrow> px_session_map w)
    | None \<Rightarrow> px_session_map w"
  have "kids_live C ?m" by (rule kids_live_mono [OF assms]) (auto simp: map_le_def split: option.splits)
  then obtain kid g where k: "gen_kid C ?m (px_rng w) = Some (kid, g)" using kids_liveD [of C ?m] by blast
  then show ?thesis using gen_kid_fresh [OF k] by (auto simp: remap_perf_def Let_def split: option.splits)
qed

lemma start_rekey_perf_live:
  assumes C: "settings_ok C" "world_ok P' w" "session_ok P' (generation w) z" "kids_live C (px_session_map w)"
    and z: "ps_beta z = PS2" "ke_kek (dp_send (key_ref_perf z False)) = Some kek" "ke_kid (dp_send (key_ref_perf z False)) = Some kid"
      "ps_send_counter z \<le> THREAD_SAFE_COUNTER_HARD_EXPIRE" "ps_send_counter z \<le> ps_key_creation_counter z + EXPIRE_AFTER_USES"
  shows "\<exists>new noise e k1 g g' t z' w'. timeout_trans_perf C P s now z w = (Ok t, z', w') \<and> new \<noteq> 0 \<and>
    create_k1_perf C P (px_s_secret w) (ps_s_remote z) (ps_noise_kk_ss z) (rs_key (ps_ratchet_state1 z)) g new = (noise, e, k1, g') \<and>
    last_sent_perf w' = sealed_packet C P PACKET_TYPE_REKEY_INIT kek kid (ps_send_counter z) k1 \<and>
    ps_beta z' = PR1 noise e k1 \<and> key_ref_perf z' False = key_ref_perf z False \<and>
    key_ref_perf z' True = set_recv_kid_perf new (key_ref_perf z True) \<and> ps_send_counter z' = ps_send_counter z + 1 \<and>
    ps_ratchet_state1 z' = ps_ratchet_state1 z \<and> ps_ratchet_state2 z' = ps_ratchet_state2 z \<and> ps_window z' = ps_window z \<and>
    same_peer z z' \<and> pw_app w' = pw_app w \<and> px_s_secret w' = px_s_secret w \<and> world_ok P' w' \<and> session_ok P' (generation w') z'"
proof -
  have ok: "handler_ok P' w (timeout_trans_perf C P s now z w)" by (rule timeout_trans_perf_ok [OF C(1-3)])
  obtain new g m where r: "remap_perf C s z w = Some (new, w\<lparr>px_rng := g, px_session_map := m\<rparr>)" "new \<noteq> 0"
    using remap_perf_live [OF C(4)] by blast
  obtain noise e k1 g' where c: "create_k1_perf C P (px_s_secret w) (ps_s_remote z) (ps_noise_kk_ss z) (rs_key (ps_ratchet_state1 z)) g new
      = (noise, e, k1, g')" by (metis surj_pair)
  define z1 where "z1 = (key_mut_perf z True (set_recv_kid_perf new))\<lparr>ps_timeout_timer := after now (rekey_timeout (SETTINGS C)),
     ps_resend_timer := after now (resend_time (SETTINGS C)), ps_beta := PR1 noise e k1\<rparr>"
  have z1: "key_ref_perf z1 False = key_ref_perf z False" "key_ref_perf z1 True = set_recv_kid_perf new (key_ref_perf z True)"
    "ps_beta z1 = PR1 noise e k1" "ps_send_counter z1 = ps_send_counter z" "ps_key_creation_counter z1 = ps_key_creation_counter z"
    "ps_ratchet_state1 z1 = ps_ratchet_state1 z" "ps_ratchet_state2 z1 = ps_ratchet_state2 z" "ps_window z1 = ps_window z"
    "ps_hk_send z1 = ps_hk_send z" "same_peer z z1"
    by (simp_all add: z1_def key_mut_perf_def key_ref_perf_def same_peer_def)
  note sc = send_control_perf_seals [of z1 kek kid C P PACKET_TYPE_REKEY_INIT k1 "w\<lparr>px_session_map := m, px_rng := g'\<rparr>"]
  have t: "timeout_trans_perf C P s now z w = (Ok (after now (resend_time (SETTINGS C))), z1\<lparr>ps_send_counter := ps_send_counter z + 1\<rparr>,
     emit_perf (sealed_packet C P PACKET_TYPE_REKEY_INIT kek kid (ps_send_counter z) k1) (Some (ps_hk_send z)) (w\<lparr>px_session_map := m, px_rng := g'\<rparr>))"
    using z r c z1 sc by (simp add: timeout_trans_perf_def start_rekey_perf_def control_timer_def Let_def z1_def [symmetric])
  show ?thesis using ok r(2) c z1 unfolding t
    by (intro exI [of _ new] exI [of _ noise] exI [of _ e] exI [of _ k1] exI [of _ g] exI [of _ g'])
      (simp add: emit_perf_def last_sent_perf_def key_ref_perf_def same_peer_def handler_ok_def)
qed

lemma received_k1_perf_live:
  assumes C: "crypto_correct C pub_of" "settings_ok C" "world_ok P' w" "session_ok P' (generation w) z" "kids_live C (px_session_map w)"
    and z: "ps_beta z = PS2" "ke_kek (dp_recv (key_ref_perf z False)) = Some kekA" "ke_kid (dp_recv (key_ref_perf z False)) = Some kid"
      "ke_kek (dp_send (key_ref_perf z False)) = Some kek" "ke_kid (dp_send (key_ref_perf z False)) = Some kidA"
    and k1: "length k1 = 85" "\<And>s. read_k1_perf C P s (px_s_secret w) (ps_s_remote z) (ps_noise_kk_ss z) (rs_key (ps_ratchet_state1 z)) (drop 16 k1)
        = Inr (newA, e_remote, noise)"
    and c: "window_update_perf z c = (True, z\<lparr>ps_window := win\<rparr>)" "unat (ps_send_counter z) + 2 ^ 32 < 2 ^ 64"
    and B: "storage_live_perf B stored" "stored (pw_app w) (ps_s_remote z) = ratchet_states_new (ps_ratchet_state1 z) (ps_ratchet_state2 z)"
    and pk: "unpack_perf P (sealed_packet C P p kekA kid c k1) = (kid', n, x)"
  shows "\<exists>new n2 p2 g n3 k2 t z' w'. received_k1_trans_perf C P B s kid' n x z w = (Ok t, z', w') \<and> new \<noteq> 0 \<and>
    write_k2_tokens_perf C (px_s_secret w) e_remote noise (px_rng w) = (n2, p2, g) \<and> write_k2_payload_perf C P n2 p2 new = (n3, k2) \<and>
    last_sent_perf w' = sealed_packet C P PACKET_TYPE_REKEY_COMPLETE kek kidA (ps_send_counter z) k2 \<and>
    is_pr2 (ps_beta z') \<and> key_ref_perf z' True = responder_keys_perf C n3 newA new \<and>
    ps_send_counter z' = ps_send_counter z + 1 \<and> ps_key_creation_counter z' = ps_send_counter z \<and>
    ps_ratchet_state1 z' = create_ratchet_state C n3 (rs_chain_len (ps_ratchet_state1 z)) \<and> ps_window z' = win \<and>
    same_peer z z' \<and> px_s_secret w' = px_s_secret w \<and>
    stored (pw_app w') (ps_s_remote z) = ratchet_states_new (ps_ratchet_state1 z') (ps_ratchet_state2 z') \<and>
    world_ok P' w' \<and> session_ok P' (generation w') z'"
proof -
  note sz = settings_sized [OF C(2)]
  have ok: "handler_ok P' w (received_k1_trans_perf C P B s kid' n x z w)" by (rule received_k1_trans_perf_ok [OF C(2-4)])
  have x: "kid' = kid" "n = to_nonce p c" "length x = REKEY_SIZE" "open_rekey_perf C s n x z = (Ok (drop 16 k1), z\<lparr>ps_window := win\<rparr>)"
    using open_rekey_perf_live [OF C(1) sz k1(1) z(2) c(1), of P p kid] pk by (metis prod.inject)+
  let ?z = "z\<lparr>ps_window := win\<rparr>"
  obtain n2 p2 g where t: "write_k2_tokens_perf C (px_s_secret w) e_remote noise (px_rng w) = (n2, p2, g)" by (metis surj_pair)
  have "kids_live C (px_session_map (w\<lparr>px_rng := g\<rparr>))" using C(5) by simp
  then obtain new g' m where rm: "remap_perf C s ?z (w\<lparr>px_rng := g\<rparr>) = Some (new, w\<lparr>px_rng := g', px_session_map := m\<rparr>)" "new \<noteq> 0"
    using remap_perf_live [of C "w\<lparr>px_rng := g\<rparr>" s ?z] by auto
  obtain n3 k2 where p: "write_k2_payload_perf C P n2 p2 new = (n3, k2)" by fastforce
  let ?new = "create_ratchet_state C n3 (rs_chain_len (ps_ratchet_state1 z))" let ?w = "w\<lparr>px_rng := g', px_session_map := m\<rparr>"
  have st: "stored (pw_app ?w) (ps_s_remote z) = ratchet_states_new (ps_ratchet_state1 z) (ps_ratchet_state2 z)" using B(2) by simp
  obtain a where sv: "save_ratchet_perf B (ps_s_remote z) (ps_session_data z)
      (cas_new ?new (Some (ps_ratchet_state1 z)) True (ps_ratchet_state1 z) (ps_ratchet_state2 z) False True) ?w = (Inr True, ?w\<lparr>pw_app := a\<rparr>)"
    "stored a = (stored (pw_app w))(ps_s_remote z := ratchet_states_new ?new (Some (ps_ratchet_state1 z)))"
    using save_ratchet_perf_live [OF B(1) st, of "ps_session_data z" ?new "Some (ps_ratchet_state1 z)" True False True] by auto
  obtain now a' where now: "time_perf B (?w\<lparr>pw_app := a\<rparr>) = (now, ?w\<lparr>pw_app := a'\<rparr>)" "stored a' = stored a"
    using time_perf_live [OF B(1), of "?w\<lparr>pw_app := a\<rparr>"] by auto
  obtain red w1 where q: "reschedule (ps_queue_idx z) (after now (resend_time (SETTINGS C))) (?w\<lparr>pw_app := a'\<rparr>) = Some (red, w1)"
    using reschedule_works [of P' "?w\<lparr>pw_app := a'\<rparr>" "ps_queue_idx z"] C(3) session_issued [OF C(4)] by fastforce
  have w1: "pw_app w1 = a'" "px_s_secret w1 = px_s_secret w" using q by (auto simp: reschedule_def reduce_next_service_time_def split: option.splits)
  let ?ask = "get_ask_perf C n3 LABEL_KEX_KEY" let ?sp = "split_perf C n3"
  define z1 where "z1 = (key_mut_perf (key_mut_perf ?z True (store_keys_perf newA (fst ?ask) (fst ?sp) (snd ?ask) (snd ?sp))) True (set_recv_kid_perf new))
    \<lparr>ps_ratchet_state2 := Some (ps_ratchet_state1 z), ps_ratchet_state1 := ?new, ps_key_creation_counter := ps_send_counter z,
     ps_timeout_timer := after now (rekey_timeout (SETTINGS C)), ps_resend_timer := after now (resend_time (SETTINGS C)), ps_beta := PR2 k2\<rparr>"
  have z1: "key_ref_perf z1 False = key_ref_perf z False" "key_ref_perf z1 True = responder_keys_perf C n3 newA new"
    "ps_beta z1 = PR2 k2" "ps_send_counter z1 = ps_send_counter z" "ps_key_creation_counter z1 = ps_send_counter z"
    "ps_ratchet_state1 z1 = ?new" "ps_ratchet_state2 z1 = Some (ps_ratchet_state1 z)" "ps_window z1 = win"
    "ps_hk_send z1 = ps_hk_send z" "same_peer z z1"
    by (simp_all add: z1_def key_mut_perf_def key_ref_perf_def same_peer_def responder_keys_perf_def store_keys_perf_def replace_nk_def
        replace_keks_def replace_kek_def set_recv_kid_perf_def set_send_kid_perf_def pool_new_def)
  have sc: "send_control_perf C P PACKET_TYPE_REKEY_COMPLETE k2 z1 w1 = (Ok (), z1\<lparr>ps_send_counter := ps_send_counter z + 1\<rparr>,
      emit_perf (sealed_packet C P PACKET_TYPE_REKEY_COMPLETE kek kidA (ps_send_counter z) k2) (Some (ps_hk_send z)) w1)"
    using send_control_perf_seals [of z1 kek kidA C P PACKET_TYPE_REKEY_COMPLETE k2 w1] z(4,5) z1 counter_room [OF c(2)] by simp
  have pr: "process_k1_perf C P B s (drop 16 k1) ?z w = control_result s red (send_control_perf C P PACKET_TYPE_REKEY_COMPLETE k2 z1 w1)"
    using k1(2) [of s] t rm(1) p sv(1) now(1) q by (simp add: process_k1_perf_def Let_def case_prod_beta z1_def)
  have res: "received_k1_trans_perf C P B s kid' n x z w = (Ok red, z1\<lparr>ps_send_counter := ps_send_counter z + 1\<rparr>,
      emit_perf (sealed_packet C P PACKET_TYPE_REKEY_COMPLETE kek kidA (ps_send_counter z) k2) (Some (ps_hk_send z)) w1)"
    using x z(1,3) pr sc by (simp add: received_k1_trans_perf_def recv_kid_perf_def expire_if_caused_def control_result_def)
  show ?thesis using ok rm(2) t p z1 w1 sv(2) now(2) unfolding res
    by (intro exI [of _ new] exI [of _ n2] exI [of _ p2] exI [of _ g] exI [of _ n3] exI [of _ k2])
      (simp add: emit_perf_def last_sent_perf_def key_ref_perf_def same_peer_def is_pr2_def handler_ok_def)
qed

lemma received_k2_perf_live:
  assumes C: "crypto_correct C pub_of" "settings_ok C" "world_ok P' w" "session_ok P' (generation w) z"
    and z: "ps_beta z = PR1 noise e k1" "ke_kek (dp_recv (key_ref_perf z False)) = Some kekB" "ke_kid (dp_recv (key_ref_perf z False)) = Some kid"
      "ke_kid (dp_recv (key_ref_perf z True)) = Some newA"
    and k2: "length k2 = 85" "\<And>s. read_k2_perf C P s e (ps_s_remote z) noise (drop 16 k2) = Inr (newB, n3)"
    and c: "window_update_perf z c = (True, z\<lparr>ps_window := win\<rparr>)" "ps_send_counter z \<le> THREAD_SAFE_COUNTER_HARD_EXPIRE"
      "ps_send_counter z \<le> ps_send_counter z + EXPIRE_AFTER_USES"
    and A: "storage_live_perf A stored" "stored (pw_app w) (ps_s_remote z) = ratchet_states_new (ps_ratchet_state1 z) (ps_ratchet_state2 z)"
    and pk: "unpack_perf P (sealed_packet C P p kekB kid c k2) = (kid', n, x)"
  shows "\<exists>t z' w'. received_k2_trans_perf C P A s kid' n x z w = (Ok t, z', w') \<and>
    last_sent_perf w' = control_packet C P PACKET_TYPE_KEY_CONFIRM (take AES_256_KEY_SIZE (snd (get_ask_perf C n3 LABEL_KEX_KEY))) newB (ps_send_counter z) \<and>
    ps_beta z' = PS1 \<and> key_ref_perf z' False = initiator_keys_perf C n3 newB newA \<and>
    ps_ratchet_state1 z' = create_ratchet_state C n3 (rs_chain_len (ps_ratchet_state1 z)) \<and> ps_ratchet_state2 z' = ps_ratchet_state2 z \<and>
    ps_window z' = win \<and> same_peer z z' \<and> px_s_secret w' = px_s_secret w \<and>
    stored (pw_app w') (ps_s_remote z) = ratchet_states_new (ps_ratchet_state1 z') None \<and>
    world_ok P' w' \<and> session_ok P' (generation w') z'"
proof -
  note sz = settings_sized [OF C(2)]
  have ok: "handler_ok P' w (received_k2_trans_perf C P A s kid' n x z w)" by (rule received_k2_trans_perf_ok [OF C(2-4)])
  have x: "kid' = kid" "n = to_nonce p c" "length x = REKEY_SIZE" "open_rekey_perf C s n x z = (Ok (drop 16 k2), z\<lparr>ps_window := win\<rparr>)"
    using open_rekey_perf_live [OF C(1) sz k2(1) z(2) c(1), of P p kid] pk by (metis prod.inject)+
  let ?z = "z\<lparr>ps_window := win\<rparr>" let ?new = "create_ratchet_state C n3 (rs_chain_len (ps_ratchet_state1 z))"
  obtain a where sv: "save_ratchet_perf A (ps_s_remote z) (ps_session_data z)
      (cas_new ?new None True (ps_ratchet_state1 z) (ps_ratchet_state2 z) True True) w = (Inr True, w\<lparr>pw_app := a\<rparr>)"
    "stored a = (stored (pw_app w))(ps_s_remote z := ratchet_states_new ?new None)"
    using save_ratchet_perf_live [OF A] by blast
  obtain now a' where now: "time_perf A (w\<lparr>pw_app := a\<rparr>) = (now, w\<lparr>pw_app := a'\<rparr>)" "stored a' = stored a"
    using time_perf_live [OF A(1), of "w\<lparr>pw_app := a\<rparr>"] by auto
  obtain red w1 where q: "reschedule (ps_queue_idx z) (after now (resend_time (SETTINGS C))) (w\<lparr>pw_app := a'\<rparr>) = Some (red, w1)"
    using reschedule_works [of P' "w\<lparr>pw_app := a'\<rparr>" "ps_queue_idx z"] C(3) session_issued [OF C(4)] by fastforce
  have w1: "pw_app w1 = a'" "px_s_secret w1 = px_s_secret w" using q by (auto simp: reschedule_def reduce_next_service_time_def split: option.splits)
  let ?ask = "get_ask_perf C n3 LABEL_KEX_KEY" let ?sp = "split_perf C n3"
  define z1 where "z1 = (key_mut_perf ?z True (store_keys_perf newB (snd ?ask) (snd ?sp) (fst ?ask) (fst ?sp)))
    \<lparr>ps_ratchet_state1 := ?new, ps_key_index := \<not> ps_key_index z, ps_key_creation_counter := ps_send_counter z,
     ps_timeout_timer := after now (rekey_timeout (SETTINGS C)), ps_resend_timer := after now (resend_time (SETTINGS C)), ps_beta := PS1\<rparr>"
  have z1: "key_ref_perf z1 False = initiator_keys_perf C n3 newB newA" "ps_beta z1 = PS1" "ps_send_counter z1 = ps_send_counter z"
    "ps_key_creation_counter z1 = ps_send_counter z" "ps_ratchet_state1 z1 = ?new" "ps_ratchet_state2 z1 = ps_ratchet_state2 z"
    "ps_window z1 = win" "ps_hk_send z1 = ps_hk_send z" "same_peer z z1"
    using z(4) by (simp_all add: z1_def key_mut_perf_def key_ref_perf_def same_peer_def initiator_keys_perf_def store_keys_perf_def replace_nk_def
        replace_keks_def replace_kek_def set_send_kid_perf_def pool_new_def)
  have sc: "send_control_perf C P PACKET_TYPE_KEY_CONFIRM (replicate HEADER_SIZE 0) z1 w1 = (Ok (), z1\<lparr>ps_send_counter := ps_send_counter z + 1\<rparr>,
      emit_perf (control_packet C P PACKET_TYPE_KEY_CONFIRM (take AES_256_KEY_SIZE (snd ?ask)) newB (ps_send_counter z)) (Some (ps_hk_send z)) w1)"
    using send_control_perf_seals [of z1 _ newB C P PACKET_TYPE_KEY_CONFIRM "replicate HEADER_SIZE 0" w1] initiator_keys_perf_parts(3,4) [OF z1(1)]
      z1 c(2,3) sealed_control_packet [OF C(1) sz] by simp
  have pr: "process_k2_perf C P A s noise e (drop 16 k2) ?z w = control_result s red (send_control_perf C P PACKET_TYPE_KEY_CONFIRM (replicate HEADER_SIZE 0) z1 w1)"
    using k2(2) [of s] sv(1) now(1) q by (simp add: process_k2_perf_def Let_def case_prod_beta z1_def)
  have res: "received_k2_trans_perf C P A s kid' n x z w = (Ok red, z1\<lparr>ps_send_counter := ps_send_counter z + 1\<rparr>,
      emit_perf (control_packet C P PACKET_TYPE_KEY_CONFIRM (take AES_256_KEY_SIZE (snd ?ask)) newB (ps_send_counter z)) (Some (ps_hk_send z)) w1)"
    using x z(1,3) pr sc by (simp add: received_k2_trans_perf_def recv_kid_perf_def expire_if_caused_def control_result_def)
  show ?thesis using ok z1 w1 sv(2) now(2) unfolding res
    by (simp add: emit_perf_def last_sent_perf_def key_ref_perf_def same_peer_def handler_ok_def)
qed

section \<open>The rekeying\<close>

lemma window_update_perf_iff:
  "window_update_perf z c = (True, z\<lparr>ps_window := win\<rparr>) \<longleftrightarrow> Window_update COUNTER_WINDOW_MAX_SKIP_AHEAD (ps_window z) c = (True, win)"
proof
  assume "window_update_perf z c = (True, z\<lparr>ps_window := win\<rparr>)"
  then have "fst (window_update_perf z c)" "ps_window (snd (window_update_perf z c)) = win" by simp_all
  then show "Window_update COUNTER_WINDOW_MAX_SKIP_AHEAD (ps_window z) c = (True, win)"
    by (simp add: window_update_perf_def case_prod_beta prod_eq_iff)
qed (simp add: window_update_perf_def)

lemma may_rekey_windows:
  assumes "may_rekey z y"
  obtains win win' where "Window_update COUNTER_WINDOW_MAX_SKIP_AHEAD (ps_window y) (ps_send_counter z) = (True, win)"
    "Window_update COUNTER_WINDOW_MAX_SKIP_AHEAD win (ps_send_counter z + 1) = (True, win')"
  using assms that unfolding may_rekey_def window_update_perf_def
  by (cases "Window_update COUNTER_WINDOW_MAX_SKIP_AHEAD (ps_window y) (ps_send_counter z)")
    (auto simp: case_prod_beta prod_eq_iff)

lemma rekey_answered_perf:
  fixes B :: "('pk, 'e, 'fe, 'b) application_perf"
  assumes C: "crypto_correct C pub_of" "settings_ok C" and pair: "paired_perf pub_of storedA storedB zA wA zB wB"
    and A: "world_ok P' wA" "session_ok P' (generation wA) zA" "kids_live C (px_session_map wA)"
      "ps_send_counter zA \<le> THREAD_SAFE_COUNTER_HARD_EXPIRE" "ps_send_counter zA \<le> ps_key_creation_counter zA + EXPIRE_AFTER_USES"
    and B: "world_ok P' wB" "session_ok P' (generation wB) zB" "storage_live_perf B storedB" "kids_live C (px_session_map wB)"
      "unat (ps_send_counter zB) + 2 ^ 32 < 2 ^ 64" "Window_update COUNTER_WINDOW_MAX_SKIP_AHEAD (ps_window zB) (ps_send_counter zA) = (True, winB)"
    and q: "ke_kek (dp_send (key_ref_perf zA False)) = Some kekA" "ke_kid (dp_send (key_ref_perf zA False)) = Some kidB"
    and r: "ke_kek (dp_recv (key_ref_perf zB False)) = Some kekA" "ke_kid (dp_recv (key_ref_perf zB False)) = Some kidB"
      "ke_kek (dp_send (key_ref_perf zB False)) = Some kekB" "ke_kid (dp_send (key_ref_perf zB False)) = Some kidA"
  obtains newA noise e k1 tA zA1 wA1 kid1 m1 x1 newB n3 k2 tB zB1 wB1 where
    "timeout_trans_perf C P s now zA wA = (Ok tA, zA1, wA1)" "unpack_perf P (last_sent_perf wA1) = (kid1, m1, x1)"
    "ps_beta zA1 = PR1 noise e k1" "key_ref_perf zA1 False = key_ref_perf zA False" "key_ref_perf zA1 True = set_recv_kid_perf newA (key_ref_perf zA True)"
    "ps_send_counter zA1 = ps_send_counter zA + 1" "ps_ratchet_state1 zA1 = ps_ratchet_state1 zA" "ps_ratchet_state2 zA1 = ps_ratchet_state2 zA"
    "ps_window zA1 = ps_window zA" "same_peer zA zA1" "pw_app wA1 = pw_app wA" "px_s_secret wA1 = px_s_secret wA" "world_ok P' wA1"
    "session_ok P' (generation wA1) zA1"
    "received_k1_trans_perf C P B t kid1 m1 x1 zB wB = (Ok tB, zB1, wB1)"
    "last_sent_perf wB1 = sealed_packet C P PACKET_TYPE_REKEY_COMPLETE kekB kidA (ps_send_counter zB) k2"
    "is_pr2 (ps_beta zB1)" "key_ref_perf zB1 True = responder_keys_perf C n3 newA newB" "ps_send_counter zB1 = ps_send_counter zB + 1"
    "ps_key_creation_counter zB1 = ps_send_counter zB" "ps_ratchet_state1 zB1 = create_ratchet_state C n3 (rs_chain_len (ps_ratchet_state1 zB))"
    "ps_window zB1 = winB" "same_peer zB zB1" "px_s_secret wB1 = px_s_secret wB"
    "storedB (pw_app wB1) (ps_s_remote zB) = ratchet_states_new (ps_ratchet_state1 zB1) (ps_ratchet_state2 zB1)"
    "world_ok P' wB1" "session_ok P' (generation wB1) zB1"
    "length k2 = 85" "\<And>s. read_k2_perf C P s e (ps_s_remote zA1) noise (drop 16 k2) = Inr (newB, n3)"
proof -
  note sz = settings_sized [OF C(2)]
  note pd = pair [unfolded paired_perf_def]
  from start_rekey_perf_live [OF C(2) A(1-3) _ q A(4,5), of P s now] pd
  obtain newA noise e k1 g g' tA zA1 wA1 where a1: "timeout_trans_perf C P s now zA wA = (Ok tA, zA1, wA1)" "newA \<noteq> 0"
    "create_k1_perf C P (px_s_secret wA) (pub_of (px_s_secret wB)) (ps_noise_kk_ss zA) (rs_key (ps_ratchet_state1 zA)) g newA = (noise, e, k1, g')"
    "last_sent_perf wA1 = sealed_packet C P PACKET_TYPE_REKEY_INIT kekA kidB (ps_send_counter zA) k1"
    "ps_beta zA1 = PR1 noise e k1" "key_ref_perf zA1 False = key_ref_perf zA False" "key_ref_perf zA1 True = set_recv_kid_perf newA (key_ref_perf zA True)"
    "ps_send_counter zA1 = ps_send_counter zA + 1" "ps_ratchet_state1 zA1 = ps_ratchet_state1 zA" "ps_ratchet_state2 zA1 = ps_ratchet_state2 zA"
    "ps_window zA1 = ps_window zA" "same_peer zA zA1" "pw_app wA1 = pw_app wA" "px_s_secret wA1 = px_s_secret wA" "world_ok P' wA1"
    "session_ok P' (generation wA1) zA1" by auto
  note f1 = read_k1_perf_follows [OF C(1) sz a1(2,3)]
  obtain kid1 m1 x1 where u1: "unpack_perf P (last_sent_perf wA1) = (kid1, m1, x1)" by (metis surj_pair)
  have "read_k1_perf C P s' (px_s_secret wB) (ps_s_remote zB) (ps_noise_kk_ss zB) (rs_key (ps_ratchet_state1 zB)) (drop 16 k1) = Inr (newA, pub_of e, noise)" for s'
    using f1(1) pd by simp
  from received_k1_perf_live [OF C B(1,2,4) _ r f1(2) this window_update_perf_iff [THEN iffD2, OF B(6)] B(5) B(3) _ u1 [unfolded a1(4)], of t] pd
  obtain newB n2 p2 g2 n3 k2 tB zB1 wB1 where b1: "received_k1_trans_perf C P B t kid1 m1 x1 zB wB = (Ok tB, zB1, wB1)" "newB \<noteq> 0"
    "write_k2_tokens_perf C (px_s_secret wB) (pub_of e) noise (px_rng wB) = (n2, p2, g2)" "write_k2_payload_perf C P n2 p2 newB = (n3, k2)"
    "last_sent_perf wB1 = sealed_packet C P PACKET_TYPE_REKEY_COMPLETE kekB kidA (ps_send_counter zB) k2"
    "is_pr2 (ps_beta zB1)" "key_ref_perf zB1 True = responder_keys_perf C n3 newA newB" "ps_send_counter zB1 = ps_send_counter zB + 1"
    "ps_key_creation_counter zB1 = ps_send_counter zB" "ps_ratchet_state1 zB1 = create_ratchet_state C n3 (rs_chain_len (ps_ratchet_state1 zB))"
    "ps_window zB1 = winB" "same_peer zB zB1" "px_s_secret wB1 = px_s_secret wB"
    "storedB (pw_app wB1) (ps_s_remote zB) = ratchet_states_new (ps_ratchet_state1 zB1) (ps_ratchet_state2 zB1)"
    "world_ok P' wB1" "session_ok P' (generation wB1) zB1" by auto
  note f2 = read_k2_perf_follows [OF C(1) sz b1(2,3,4)]
  have "read_k2_perf C P s' e (ps_s_remote zA1) noise (drop 16 k2) = Inr (newB, n3)" for s' using f2(1) a1(12) pd by (simp add: same_peer_def)
  then show thesis by (rule that [OF a1(1) u1 a1(5-16) b1(1,5-16) f2(2)])
qed

text \<open>C11: Rekeying of the performance crate completes and both ends agree again. Two paired ends, whose contexts are
  well formed, whose keys are not used up and whose windows take the two counters that the other end will
  use, rekey when Alice's timer fires: the four packets k1, k2, c1 and c2, as the network carries them, are all
  accepted, no handler panics, and the two ends are paired again, with new keys and a ratchet state that both
  have stored and that is one longer than the old chain.\<close>

theorem perf_rekey_agrees:
  fixes A :: "('pk, 'd, 'fd, 'a) application_perf" and B :: "('pk, 'e, 'fe, 'b) application_perf"
  assumes C: "crypto_correct C pub_of" "settings_ok C" and pair: "paired_perf pub_of storedA storedB zA wA zB wB"
    and A: "world_ok P wA" "session_ok P (generation wA) zA" "storage_live_perf A storedA" "kids_live C (px_session_map wA)" "may_rekey zA zB"
    and B: "world_ok P wB" "session_ok P (generation wB) zB" "storage_live_perf B storedB" "kids_live C (px_session_map wB)" "may_rekey zB zA"
  shows "\<exists>zA' wA' zB' wB'. kk_rekey_perf C P A B s t now zA wA zB wB = Some (zA', wA', zB', wB') \<and>
    paired_perf pub_of storedA storedB zA' wA' zB' wB' \<and>
    rs_chain_len (ps_ratchet_state1 zA') = rs_chain_len (ps_ratchet_state1 zA) + 1 \<and>
    world_ok P wA' \<and> session_ok P (generation wA') zA' \<and> world_ok P wB' \<and> session_ok P (generation wB') zB'"
proof -
  note sz = settings_sized [OF C(2)]
  note pd = pair [unfolded paired_perf_def keys_mirrored_perf_def]
  have "key_full (key_ref_perf zA False)" using beta_keys(2) [OF A(2)] pd by simp
  then obtain kekA kidB kekB kidA where q: "ke_kek (dp_send (key_ref_perf zA False)) = Some kekA" "ke_kid (dp_send (key_ref_perf zA False)) = Some kidB"
    "ke_kek (dp_recv (key_ref_perf zA False)) = Some kekB" "ke_kid (dp_recv (key_ref_perf zA False)) = Some kidA"
    by (auto simp: key_full_def)
  then have r: "ke_kek (dp_recv (key_ref_perf zB False)) = Some kekA" "ke_kid (dp_recv (key_ref_perf zB False)) = Some kidB"
    "ke_kek (dp_send (key_ref_perf zB False)) = Some kekB" "ke_kid (dp_send (key_ref_perf zB False)) = Some kidA" using pd by simp_all
  obtain winB winB' where winB: "Window_update COUNTER_WINDOW_MAX_SKIP_AHEAD (ps_window zB) (ps_send_counter zA) = (True, winB)"
    "Window_update COUNTER_WINDOW_MAX_SKIP_AHEAD winB (ps_send_counter zA + 1) = (True, winB')"
    by (rule may_rekey_windows [OF A(5)])
  obtain winA winA' where winA: "Window_update COUNTER_WINDOW_MAX_SKIP_AHEAD (ps_window zA) (ps_send_counter zB) = (True, winA)"
    "Window_update COUNTER_WINDOW_MAX_SKIP_AHEAD winA (ps_send_counter zB + 1) = (True, winA')"
    by (rule may_rekey_windows [OF B(5)])
  have rm: "unat (ps_send_counter zA) + 2 ^ 32 < 2 ^ 64" "ps_send_counter zA \<le> ps_key_creation_counter zA + EXPIRE_AFTER_USES"
    "unat (ps_send_counter zB) + 2 ^ 32 < 2 ^ 64" using A(5) B(5) by (simp_all add: may_rekey_def)
  note roomA = counter_room [OF rm(1)] and roomB = counter_room [OF rm(3)]
  from rekey_answered_perf [OF C pair A(1,2,4) roomA(1) rm(2) B(1-4) rm(3) winB(1) q(1,2) r, of P s now t]
  obtain newA noise e k1 tA zA1 wA1 kid1 m1 x1 newB n3 k2 tB zB1 wB1 where
    r1: "timeout_trans_perf C P s now zA wA = (Ok tA, zA1, wA1)" "unpack_perf P (last_sent_perf wA1) = (kid1, m1, x1)"
    and a1: "ps_beta zA1 = PR1 noise e k1" "key_ref_perf zA1 False = key_ref_perf zA False" "key_ref_perf zA1 True = set_recv_kid_perf newA (key_ref_perf zA True)"
    "ps_send_counter zA1 = ps_send_counter zA + 1" "ps_ratchet_state1 zA1 = ps_ratchet_state1 zA" "ps_ratchet_state2 zA1 = ps_ratchet_state2 zA"
    "ps_window zA1 = ps_window zA" "same_peer zA zA1" "pw_app wA1 = pw_app wA" "px_s_secret wA1 = px_s_secret wA" "world_ok P wA1"
    "session_ok P (generation wA1) zA1"
    and r2: "received_k1_trans_perf C P B t kid1 m1 x1 zB wB = (Ok tB, zB1, wB1)"
    "last_sent_perf wB1 = sealed_packet C P PACKET_TYPE_REKEY_COMPLETE kekB kidA (ps_send_counter zB) k2"
    and b1: "is_pr2 (ps_beta zB1)" "key_ref_perf zB1 True = responder_keys_perf C n3 newA newB" "ps_send_counter zB1 = ps_send_counter zB + 1"
    "ps_key_creation_counter zB1 = ps_send_counter zB" "ps_ratchet_state1 zB1 = create_ratchet_state C n3 (rs_chain_len (ps_ratchet_state1 zB))"
    "ps_window zB1 = winB" "same_peer zB zB1" "px_s_secret wB1 = px_s_secret wB"
    "storedB (pw_app wB1) (ps_s_remote zB) = ratchet_states_new (ps_ratchet_state1 zB1) (ps_ratchet_state2 zB1)"
    "world_ok P wB1" "session_ok P (generation wB1) zB1"
    and k2: "length k2 = 85" "\<And>s. read_k2_perf C P s e (ps_s_remote zA1) noise (drop 16 k2) = Inr (newB, n3)" by metis
  obtain kid2 m2 x2 where u2: "unpack_perf P (last_sent_perf wB1) = (kid2, m2, x2)" by (metis surj_pair)
  from received_k2_perf_live [OF C a1(11,12,1) _ _ _ k2 window_update_perf_iff [THEN iffD2, OF winA(1) [folded a1(7)]] _ _ A(3) _ u2 [unfolded r2(2)], of newA s]
  obtain tA2 zA2 wA2 where a2: "received_k2_trans_perf C P A s kid2 m2 x2 zA1 wA1 = (Ok tA2, zA2, wA2)"
    "last_sent_perf wA2 = control_packet C P PACKET_TYPE_KEY_CONFIRM (take AES_256_KEY_SIZE (snd (get_ask_perf C n3 LABEL_KEX_KEY))) newB (ps_send_counter zA + 1)"
    "ps_beta zA2 = PS1" "key_ref_perf zA2 False = initiator_keys_perf C n3 newB newA"
    "ps_ratchet_state1 zA2 = create_ratchet_state C n3 (rs_chain_len (ps_ratchet_state1 zA))" "ps_ratchet_state2 zA2 = ps_ratchet_state2 zA"
    "ps_window zA2 = winA" "same_peer zA zA2" "px_s_secret wA2 = px_s_secret wA"
    "storedA (pw_app wA2) (ps_s_remote zA) = ratchet_states_new (ps_ratchet_state1 zA2) None" "world_ok P wA2" "session_ok P (generation wA2) zA2"
    using a1(2-10) q(3,4) roomA(2,5) pd by (auto simp: same_peer_def set_recv_kid_perf_def)
  note kB = responder_keys_perf_parts [OF b1(2)]
  have stB: "storedB (pw_app wB1) (ps_s_remote zB1) = ratchet_states_new (ps_ratchet_state1 zB1) (ps_ratchet_state2 zB1)"
    using b1(7,9) by (simp add: same_peer_def)
  from received_c1_perf_live [OF C b1(10,11) disjI2 [OF b1(1)] kB window_update_perf_iff [THEN iffD2, OF winB(2) [folded b1(6)]] _ _ B(3) stB, of P t PACKET_TYPE_KEY_CONFIRM]
  obtain rB zB2 wB2 where b2: "received_c1_trans_perf C P B t newB (to_nonce PACKET_TYPE_KEY_CONFIRM (ps_send_counter zA + 1))
      (snd (aead_encrypt_in_place C (take AES_256_KEY_SIZE (snd (get_ask_perf C n3 LABEL_KEX_KEY)))
        (to_nonce PACKET_TYPE_KEY_CONFIRM (ps_send_counter zA + 1)) (Some []) [])) zB1 wB1 = (Ok rB, zB2, wB2)"
    "last_sent_perf wB2 = control_packet C P PACKET_TYPE_ACK (take AES_256_KEY_SIZE (fst (get_ask_perf C n3 LABEL_KEX_KEY))) newA (ps_send_counter zB + 1)"
    "ps_beta zB2 = PS2" "key_ref_perf zB2 False = responder_keys_perf C n3 newA newB" "ps_ratchet_state1 zB2 = ps_ratchet_state1 zB1" "same_peer zB zB2"
    "ps_ratchet_state2 zB2 = None" "px_s_secret wB2 = px_s_secret wB"
    "storedB (pw_app wB2) (ps_s_remote zB) = ratchet_states_new (ps_ratchet_state1 zB1) None" "world_ok P wB2" "session_ok P (generation wB2) zB2"
    using b1(2-4,7,8) roomB(2,4) by (auto simp: same_peer_def)
  from received_c2_perf_live [OF C a2(11,12,3) initiator_keys_perf_parts(1,2) [OF a2(4)] window_update_perf_iff [THEN iffD2, OF winA(2) [folded a2(7)]] A(3), of s PACKET_TYPE_ACK]
  obtain tA3 zA3 wA3 where a3: "received_c2_trans_perf C A s newA (to_nonce PACKET_TYPE_ACK (ps_send_counter zB + 1))
      (snd (aead_encrypt_in_place C (take AES_256_KEY_SIZE (fst (get_ask_perf C n3 LABEL_KEX_KEY)))
        (to_nonce PACKET_TYPE_ACK (ps_send_counter zB + 1)) (Some []) [])) zA2 wA2 = (Ok tA3, zA3, wA3)"
    "ps_beta zA3 = PS2" "key_ref_perf zA3 False = initiator_keys_perf C n3 newB newA" "ps_ratchet_state1 zA3 = ps_ratchet_state1 zA2" "same_peer zA zA3"
    "ps_ratchet_state2 zA3 = ps_ratchet_state2 zA" "px_s_secret wA3 = px_s_secret wA" "storedA (pw_app wA3) = storedA (pw_app wA2)"
    "world_ok P wA3" "session_ok P (generation wA3) zA3"
    using a2(4,6,8,9) by (auto simp: same_peer_def)
  have "kk_rekey_perf C P A B s t now zA wA zB wB = Some (zA3, wA3, zB2, wB2)"
    using r1 r2(1) u2 a2(1,2) b2(1,2) a3(1) by (simp add: kk_rekey_perf_def unpack_control_packet)
  moreover have "paired_perf pub_of storedA storedB zA3 wA3 zB2 wB2"
    unfolding paired_perf_def using pd a2(5,10) a3 b1(5) b2 keys_mirrored_perf_ends [of C n3 newB newA] by (simp add: same_peer_def)
  ultimately show ?thesis using a2(5) a3 b2 by (auto simp: create_ratchet_state_def case_prod_beta)
qed

lemma reserved_queue:
  assumes "h = heap_new"
  shows "heap_wf (snd (the (reserve_index h)))" "ih_generation (snd (the (reserve_index h))) = 2"
proof -
  have "ih_generation h = 1" "ih_map h = []" using assms by (simp_all add: heap_new_def)
  moreover have "heap_wf h" using assms heap_new_inv(1) by simp
  ultimately show "heap_wf (snd (the (reserve_index h)))" "ih_generation (snd (the (reserve_index h))) = 2"
    using reserve_index_works [of h] by (auto simp: USIZE_MAX_def)
qed

lemma rekey_context_fields:
  "world_ok P (rekey_context k r)" "generation (rekey_context k r) = 2" "px_session_map (rekey_context k r) = Map.empty"
  "px_s_secret (rekey_context k r) = k" "pw_app (rekey_context k r) = (\<lambda>_. new_initial_states)"
  using storing_context_fields(1) [of P k r] storing_context_fields(3,6,7) [of k r] reserved_queue [OF refl]
  by (auto simp: rekey_context_def generation_def world_ok_def storing_context_def Context_new_perf_def case_prod_beta)

lemma rekey_end_fields:
  "ps_beta (rekey_end pk a b ks kr) = PS2" "ps_s_remote (rekey_end pk a b ks kr) = pk" "ps_noise_kk_ss (rekey_end pk a b ks kr) = []"
  "ps_hk_send (rekey_end pk a b ks kr) = replicate 32 3" "ps_hk_recv (rekey_end pk a b ks kr) = replicate 32 3"
  "ps_ratchet_state1 (rekey_end pk a b ks kr) = ratchet_empty" "ps_ratchet_state2 (rekey_end pk a b ks kr) = None"
  "ps_send_counter (rekey_end pk a b ks kr) = 1" "ps_key_creation_counter (rekey_end pk a b ks kr) = 1"
  "ps_window (rekey_end pk a b ks kr) = window_new COUNTER_WINDOW_MAX_OOO"
  "key_ref_perf (rekey_end pk a b ks kr) False =
     \<lparr>dp_send = \<lparr>ke_kek = Some (replicate 32 ks), ke_kid = Some a\<rparr>, dp_recv = \<lparr>ke_kek = Some (replicate 32 kr), ke_kid = Some b\<rparr>,
      dp_nk = Some (replicate 32 ks, replicate 32 kr)\<rparr>"
  by (simp_all add: rekey_end_def new_bob_session_def Let_def sample_b2_def zssp_sizes)
    (simp add: key_ref_perf_def key_mut_perf_def replace_keks_def replace_kek_def replace_nk_def set_send_kid_perf_def set_recv_kid_perf_def
      pool_new_def duplex_key_perf_default_def keys_perf_default_def zssp_sizes)

lemma rekey_end_ok: "session_ok P 2 (rekey_end pk a b ks kr)"
  by (simp add: session_ok_def beta_ok_def rekey_end_fields key_full_def ratchet_empty_def ratchet_wf_def window_new_def)
    (simp add: rekey_end_def new_bob_session_def Let_def defrag_new_ok)

lemma rekey_end_may: "may_rekey (rekey_end pk a b ks kr) (rekey_end pk' a' b' ks' kr')"
  by (simp add: may_rekey_def rekey_end_fields window_update_perf_def Window_update_def window_new_def window_slot_def Let_def
      COUNTER_WINDOW_MAX_OOO_def COUNTER_WINDOW_MAX_SKIP_AHEAD_def EXPIRE_AFTER_USES_def)

theorem perf_rekey_agrees_witness:
  "\<exists>zA wA zB wB. kk_rekey_perf sample_crypto sample_platform storing_application storing_application 0 0 5000
       (rekey_end 5 11 12 1 2) (rekey_context 9 1) (rekey_end 9 12 11 2 1) (rekey_context 5 2) = Some (zA, wA, zB, wB) \<and>
     paired_perf id id id zA wA zB wB"
proof -
  have "paired_perf id id id (rekey_end 5 11 12 1 2) (rekey_context 9 1) (rekey_end 9 12 11 2 1) (rekey_context 5 2)"
    by (simp add: paired_perf_def rekey_end_fields rekey_context_fields keys_mirrored_perf_def new_initial_states_def ratchet_states_new_def)
  from perf_rekey_agrees [OF sample_crypto_correct sample_settings_ok this _ _ storing_application_live _ rekey_end_may _ _ storing_application_live _ rekey_end_may,
      of sample_platform 0 0 5000]
  show ?thesis using rekey_context_fields rekey_end_ok sample_kids_live by auto
qed

end
