(* ===== verification/Perf_Fallback.thy ===== *)
theory Perf_Fallback
  imports Perf_Rekey_Run Sample_Downgrade
begin

text \<open>
  What the ratchet storage and a session of the performance crate hold after a response that
  does not match the initiator's first ratchet key (\<open>received_x2_trans\<close> of
  \<open>performance/src/zeta.rs\<close>), and what the key confirmation makes of it.
\<close>

section \<open>The storage\<close>

text \<open>
  An update is applied exactly when the stored pair of the peer compares equal to the current
  pair of the update, and is otherwise without effect; reading the time stores nothing.
\<close>

definition storage_atomic_perf ::
  "('pk, 'd, 'fd, 'a) application_perf \<Rightarrow> ('a \<Rightarrow> 'pk \<Rightarrow> ratchet_states) \<Rightarrow> bool" where
  "storage_atomic_perf A stored \<longleftrightarrow>
     (\<forall>pk d u a r a'. pa_save_ratchet_state A pk d u a = (r, a') \<longrightarrow>
        (case r of
           Inr True \<Rightarrow> compare_states u (stored a pk) \<and> stored a' = (stored a)(pk := to_new_states u)
         | Inr False \<Rightarrow> \<not> compare_states u (stored a pk) \<and> stored a' = stored a
         | Inl e \<Rightarrow> stored a' = stored a)) \<and>
     (\<forall>a t a'. pa_time A a = (t, a') \<longrightarrow> stored a' = stored a)"

section \<open>The session of the witness\<close>

definition downgrade_a1_perf :: "(u8, unit) state_a1_perf" where
  "downgrade_a1_perf = \<lparr>ap_noise = initialize_perf (replicate 64 0), ap_e_secret = 0, ap_e1_secret = (), ap_identity = [], ap_x1 = []\<rparr>"

definition downgrade_session :: "(u8, u8, unit, unit) session_perf" where
  "downgrade_session = key_mut_perf (rekey_end 5 11 12 1 2\<lparr>ps_beta := PA1 downgrade_a1_perf, ps_ratchet_state1 := lost_ratchet\<rparr>)
     True (set_recv_kid_perf 20)"

definition downgrade_context :: "(u8, u8, nat, unit, unit, unit, u8 \<Rightarrow> ratchet_states) pworld" where
  "downgrade_context = (rekey_context 9 1)\<lparr>pw_app := (\<lambda>_. ratchet_states_new lost_ratchet None)\<rparr>"

section \<open>The pair in storage and the pair in the session\<close>

lemma storage_atomic_perfD:
  assumes "storage_atomic_perf A stored"
  shows "save_ratchet_perf A pk d u w = (Inr True, w') \<Longrightarrow>
      compare_states u (stored (pw_app w) pk) \<and> stored (pw_app w') = (stored (pw_app w))(pk := to_new_states u)"
    and "time_perf A w = (t, w') \<Longrightarrow> stored (pw_app w') = stored (pw_app w)"
  using assms unfolding storage_atomic_perf_def save_ratchet_perf_def time_perf_def
  by (force split: prod.splits, force split: prod.splits)

lemma reschedule_app: "reschedule i t w = Some (red, w') \<Longrightarrow> pw_app w' = pw_app w"
  by (auto simp: reschedule_def reduce_next_service_time_def split: option.splits)

lemma finish_x2_perf_second:
  assumes A: "storage_atomic_perf A stored"
    and f: "finish_x2_perf C P A s a1 e_remote kid 2 len noise z w = (Ok p, z', w')"
  shows "stored (pw_app w') (ps_s_remote z) = ratchet_states_new (ps_ratchet_state1 z') (ps_ratchet_state2 z)"
    and "ps_ratchet_state2 z' = Some (ps_ratchet_state1 z)" "ps_s_remote z' = ps_s_remote z" "is_pa3 (ps_beta z')"
proof -
  obtain n4 x3 where x3: "write_x3_perf C (px_s_secret w) e_remote (ap_identity a1) noise = (n4, x3)" by fastforce
  let ?new = "create_ratchet_state C n4 len"
  let ?u = "cas_new ?new (ps_ratchet_state2 z) True (ps_ratchet_state1 z) (ps_ratchet_state2 z) True False"
  obtain r w1 where s: "save_ratchet_perf A (ps_s_remote z) (ps_session_data z) ?u w = (r, w1)" by fastforce
  have r: "r = Inr True"
    using f s x3 by (auto simp: finish_x2_perf_def Let_def split: prod.splits sum.splits bool.splits)
  obtain t w2 where t: "time_perf A w1 = (t, w2)" by fastforce
  obtain red where q: "reschedule (ps_queue_idx z) (after t (resend_time (SETTINGS C))) w2 = Some (red, w')"
    and z': "ps_ratchet_state1 z' = ?new" "ps_ratchet_state2 z' = Some (ps_ratchet_state1 z)" "ps_s_remote z' = ps_s_remote z"
      "is_pa3 (ps_beta z')"
    using f s x3 r t by (auto simp: finish_x2_perf_def Let_def is_pa3_def split: prod.splits option.splits)
  from z' show "ps_ratchet_state2 z' = Some (ps_ratchet_state1 z)" "ps_s_remote z' = ps_s_remote z" "is_pa3 (ps_beta z')" by simp_all
  show "stored (pw_app w') (ps_s_remote z) = ratchet_states_new (ps_ratchet_state1 z') (ps_ratchet_state2 z)"
    using storage_atomic_perfD(1) [OF A, of _ _ ?u w w1] storage_atomic_perfD(2) [OF A t] reschedule_app [OF q] s r z'(1) by simp
qed

text \<open>A confirmation whose compare-and-swap does not match the storage is never accepted.\<close>

lemma confirm_key_perf_mismatch:
  assumes A: "storage_atomic_perf A stored" and z: "ps_ratchet_state2 z = Some rs"
    and ne: "\<not> ratchet_option_eq (Some rs) (rss_state2 (stored (pw_app w) (ps_s_remote z)))"
  shows "fst (confirm_key_perf C A s z w) \<noteq> Ok x"
proof -
  let ?u = "cas_new (ps_ratchet_state1 z) None False (ps_ratchet_state1 z) (ps_ratchet_state2 z) False True"
  obtain r w1 where s: "save_ratchet_perf A (ps_s_remote z) (ps_session_data z) ?u w = (r, w1)" by fastforce
  have "r \<noteq> Inr True"
    using storage_atomic_perfD(1) [OF A, of _ _ ?u w w1] s ne z by (auto simp: compare_states_def cas_new_def)
  with s z show ?thesis
    by (cases r) (auto simp: confirm_key_perf_def expire_then_def Let_def split: bool.splits option.splits)
qed

lemma received_x2_perf_second:
  assumes z: "ps_beta z = PA1 a1" "read_x2_tokens_perf C s a1 x2 = Inr (e_remote, i, noise)"
    and t: "test_ratchet_key_perf C P noise (subslice i (i + KID_SIZE) x2) (subslice (i + KID_SIZE) (i + KID_SIZE + AES_GCM_TAG_SIZE) x2)
      (rs_key (ps_ratchet_state1 z)) = None"
    and ok: "received_x2_trans_perf C P A s kid n x2 z w = (Ok warn, z1, w1)"
  obtains kid' len noise' p a w2 where "finish_x2_perf C P A s a1 e_remote kid' 2 len noise' z (w\<lparr>pw_app := a\<rparr>) = (Ok p, z1, w2)"
    "pw_app w1 = pw_app w2"
proof -
  let ?sel = "select_ratchet_perf C P A s z noise (subslice i (i + KID_SIZE) x2)
     (subslice (i + KID_SIZE) (i + KID_SIZE + AES_GCM_TAG_SIZE) x2) (pw_app w)"
  obtain res ri len wn a where sel: "?sel = ((res, ri, len, wn), a)" by (metis surj_pair)
  have ri: "ri = 2" using sel t by (auto simp: select_ratchet_perf_def Let_def split: option.splits prod.splits if_splits bool.splits)
  obtain b r2 z2 w2 where p: "process_x2_perf C P A s x2 a1 z w = (b, r2, z2, w2)" by (metis surj_pair)
  obtain pk where r2: "r2 = Ok pk" "z1 = z2" "pw_app w1 = pw_app w2"
    using ok p z(1)
    by (auto simp: received_x2_trans_perf_def Let_def emit_perf_def split: if_splits prod.splits outcome.splits receive_error_perf.splits)
  obtain kid' n' where "res = Some (kid', n')"
    using p r2(1) z sel by (cases res) (auto simp: process_x2_perf_def Let_def)
  with p r2 z sel ri have "finish_x2_perf C P A s a1 e_remote kid' 2 len n' z (w\<lparr>pw_app := a\<rparr>) = (Ok pk, z1, w2)"
    by (auto simp: process_x2_perf_def Let_def)
  then show thesis using that r2(3) by blast
qed

lemma received_c1_perf_needs_confirm:
  assumes "which_key_perf z kid = Some True" "is_pa3 (ps_beta z)"
    and "\<And>win x. fst (confirm_key_perf C A s (z\<lparr>ps_window := win\<rparr>) w) \<noteq> Ok x"
  shows "fst (received_c1_trans_perf C P A s kid n c1 z w) \<noteq> Ok b"
proof -
  obtain p c where n: "from_nonce n = (p, c)" by fastforce
  obtain ok win where u: "Window_update COUNTER_WINDOW_MAX_SKIP_AHEAD (ps_window z) c = (ok, win)" by fastforce
  obtain r z' w' where cf: "confirm_key_perf C A s (z\<lparr>ps_window := win\<rparr>) w = (r, z', w')" by (metis surj_pair)
  have "r \<noteq> Ok x" for x using assms(3) [of win x] cf by simp
  then show ?thesis using assms(1,2) n u cf
    by (cases r) (auto simp: received_c1_trans_perf_def window_update_perf_def split: option.splits)
qed

text \<open>C23: In the performance crate too, a handshake that falls back is never confirmed. When the
  response does not open under the initiator's first ratchet key, the storage ends with the pair of
  the new state and the old second state, while the session remembers the old first state as its
  second. With a storage that compares the pair before it swaps, no key confirmation for the new
  keys is then ever accepted, though \<open>received_x2_trans\<close> succeeded.\<close>

theorem perf_fallback_never_confirmed:
  assumes A: "storage_atomic_perf A stored"
    and z: "ps_beta z = PA1 a1" "read_x2_tokens_perf C s a1 x2 = Inr (e_remote, i, noise)"
    and t: "test_ratchet_key_perf C P noise (subslice i (i + KID_SIZE) x2) (subslice (i + KID_SIZE) (i + KID_SIZE + AES_GCM_TAG_SIZE) x2)
      (rs_key (ps_ratchet_state1 z)) = None"
    and ne: "\<not> ratchet_option_eq (Some (ps_ratchet_state1 z)) (ps_ratchet_state2 z)"
    and ok: "received_x2_trans_perf C P A s kid n x2 z w = (Ok warn, z1, w1)"
  shows "stored (pw_app w1) (ps_s_remote z) = ratchet_states_new (ps_ratchet_state1 z1) (ps_ratchet_state2 z) \<and>
    ps_ratchet_state2 z1 = Some (ps_ratchet_state1 z) \<and>
    (which_key_perf z1 kid' = Some True \<longrightarrow> (\<forall>b. fst (received_c1_trans_perf C P A s kid' n' c1 z1 w1) \<noteq> Ok b))"
proof -
  obtain kid2 len n2 p a w2 where f: "finish_x2_perf C P A s a1 e_remote kid2 2 len n2 z (w\<lparr>pw_app := a\<rparr>) = (Ok p, z1, w2)"
    and w: "pw_app w1 = pw_app w2"
    by (rule received_x2_perf_second [OF z t ok])
  note g = finish_x2_perf_second [OF A f]
  have "fst (confirm_key_perf C A s (z1\<lparr>ps_window := win\<rparr>) w1) \<noteq> Ok x" for win x
    by (rule confirm_key_perf_mismatch [OF A, of _ "ps_ratchet_state1 z"]) (simp_all add: g w ne ratchet_states_new_def)
  with received_c1_perf_needs_confirm g w show ?thesis by metis
qed

section \<open>The downgrade of the witness\<close>

lemma storing_application_atomic: "storage_atomic_perf storing_application id"
  by (auto simp: storage_atomic_perf_def storing_application_def split: if_splits)

lemma keyed_mix_key_perf [simp]:
  "ss_k (mix_key_perf keyed_crypto s x) = replicate 32 ((if x = [] then 0 else hd x) + 2)"
  by (simp add: mix_key_perf_def kbkdf_perf_def kbkdf_array_def Let_def write_at_def hd_conv_nth zssp_sizes)

lemma keyed_mix_key_and_hash_perf [simp]:
  "ss_k (mix_key_and_hash_perf keyed_crypto s x) = replicate 32 ((if x = [] then 0 else hd x) + 3)"
  by (simp add: mix_key_and_hash_perf_def kbkdf_perf_def kbkdf_array_def Let_def write_at_def hd_conv_nth zssp_sizes)

lemma downgrade_tokens_perf:
  "\<exists>noise. read_x2_tokens_perf keyed_crypto s downgrade_a1_perf downgrade_x2 = Inr (7, 1633, noise)"
  by (simp add: read_x2_tokens_perf_def read_e_no_init_def downgrade_slices Let_def zssp_sizes mix_dh_perf_def decrypt_and_hash_perf_def
      downgrade_a1_perf_def)

lemma downgrade_tests_perf:
  "test_ratchet_key_perf keyed_crypto sample_platform noise [3, 3, 3, 4] (replicate 16 3) (rs_key lost_ratchet) = None"
  "\<exists>k n'. test_ratchet_key_perf keyed_crypto sample_platform noise [3, 3, 3, 4] (replicate 16 3) (replicate RATCHET_SIZE 0) = Some (k, n')"
  by (simp_all add: test_ratchet_key_perf_def decrypt_and_hash_perf_def lost_ratchet_def zssp_sizes Let_def sample_platform_def
    u32_from_ne_bytes_def u32_from_be_bytes_def nat_of_be_def NonZeroU32_new_def)

lemma downgrade_session_fields:
  "ps_beta downgrade_session = PA1 downgrade_a1_perf" "recv_kid_perf downgrade_session True = Some 20"
  "ps_ratchet_state1 downgrade_session = lost_ratchet" "ps_ratchet_state2 downgrade_session = None" "ps_s_remote downgrade_session = 5"
  by (simp_all add: downgrade_session_def rekey_end_fields recv_kid_perf_def set_recv_kid_perf_def)

lemma downgrade_reschedule: "\<exists>red w'. reschedule (ps_queue_idx downgrade_session) t (downgrade_context\<lparr>pw_app := a\<rparr>) = Some (red, w')"
proof -
  have "world_ok P (downgrade_context\<lparr>pw_app := a\<rparr>)" for P using rekey_context_fields(1) by (simp add: downgrade_context_def)
  moreover have "issued (px_session_queue (downgrade_context\<lparr>pw_app := a\<rparr>)) (ps_queue_idx downgrade_session)"
    using session_issued [of sample_platform "rekey_context 9 1" "rekey_end 5 11 12 1 2"]
    by (simp add: downgrade_context_def downgrade_session_def key_mut_perf_def rekey_context_fields rekey_end_ok)
  ultimately show ?thesis using reschedule_works by fastforce
qed

lemma downgrade_received_perf:
  "\<exists>r z1 w1. received_x2_trans_perf keyed_crypto sample_platform storing_application 0 20
     (to_nonce PACKET_TYPE_HANDSHAKE_RESPONSE downgrade_counter) downgrade_x2 downgrade_session downgrade_context = (Ok (True, r), z1, w1)"
proof -
  obtain noise where tok: "read_x2_tokens_perf keyed_crypto 0 downgrade_a1_perf downgrade_x2 = Inr (7, 1633, noise)"
    using downgrade_tokens_perf by blast
  obtain k n' where n': "test_ratchet_key_perf keyed_crypto sample_platform noise [3, 3, 3, 4] (replicate 16 3) (replicate RATCHET_SIZE 0) = Some (k, n')"
    using downgrade_tests_perf(2) by blast
  note z = downgrade_session_fields
  let ?new = "create_ratchet_state keyed_crypto (fst (write_x3_perf keyed_crypto (px_s_secret downgrade_context) 7 [] n')) 0"
  have sel: "select_ratchet_perf keyed_crypto sample_platform storing_application 0 downgrade_session noise [3, 3, 3, 4] (replicate 16 3)
      (pw_app downgrade_context) = ((Some (k, n'), 2, 0, True), pw_app downgrade_context)"
    using n' by (simp add: select_ratchet_perf_def z downgrade_tests_perf(1) Let_def storing_application_def)
  have "id (pw_app downgrade_context) 5 = ratchet_states_new lost_ratchet None" by (simp add: downgrade_context_def)
  then obtain a where sv: "save_ratchet_perf storing_application 5 (ps_session_data downgrade_session)
      (cas_new ?new None True lost_ratchet None True False) downgrade_context = (Inr True, downgrade_context\<lparr>pw_app := a\<rparr>)"
    using save_ratchet_perf_live [OF storing_application_live] by blast
  obtain red w1 where q: "reschedule (ps_queue_idx downgrade_session) (after 1000 (resend_time (SETTINGS keyed_crypto)))
      (downgrade_context\<lparr>pw_app := a\<rparr>) = Some (red, w1)" using downgrade_reschedule by blast
  have "time_perf storing_application (downgrade_context\<lparr>pw_app := a\<rparr>) = (1000, downgrade_context\<lparr>pw_app := a\<rparr>)"
    by (simp add: time_perf_def storing_application_def)
  moreover have "ap_identity downgrade_a1_perf = []" by (simp add: downgrade_a1_perf_def)
  ultimately have "\<exists>p r z1 w1. finish_x2_perf keyed_crypto sample_platform storing_application 0 downgrade_a1_perf 7 k 2 0 n' downgrade_session
      downgrade_context = (Ok (p, r), z1, w1)"
    using sv q by (simp add: finish_x2_perf_def Let_def case_prod_beta z)
  then obtain p r z1 w1 where p: "process_x2_perf keyed_crypto sample_platform storing_application 0 downgrade_x2 downgrade_a1_perf downgrade_session
      downgrade_context = (True, Ok (p, r), z1, w1)"
    using tok sel by (auto simp: process_x2_perf_def downgrade_slices zssp_sizes Let_def)
  have "drop 9 (to_nonce PACKET_TYPE_HANDSHAKE_RESPONSE downgrade_counter) = [3, 3, 3]"
    "downgrade_counter < COUNTER_WINDOW_MAX_SKIP_AHEAD"
    unfolding downgrade_counter_def by (rule counter_of_three, simp)+
  with p show ?thesis by (simp add: received_x2_trans_perf_def downgrade_slices zssp_sizes z not_le)
qed

theorem perf_fallback_never_confirmed_witness:
  "\<exists>r z1 w1. received_x2_trans_perf keyed_crypto sample_platform storing_application 0 20
     (to_nonce PACKET_TYPE_HANDSHAKE_RESPONSE downgrade_counter) downgrade_x2 downgrade_session downgrade_context = (Ok (True, r), z1, w1) \<and>
     pw_app w1 5 = ratchet_states_new (ps_ratchet_state1 z1) None \<and> ps_ratchet_state2 z1 = Some lost_ratchet"
proof -
  obtain r z1 w1 where x2: "received_x2_trans_perf keyed_crypto sample_platform storing_application 0 20
     (to_nonce PACKET_TYPE_HANDSHAKE_RESPONSE downgrade_counter) downgrade_x2 downgrade_session downgrade_context = (Ok (True, r), z1, w1)"
    using downgrade_received_perf by blast
  obtain noise where tok: "read_x2_tokens_perf keyed_crypto 0 downgrade_a1_perf downgrade_x2 = Inr (7, 1633, noise)"
    using downgrade_tokens_perf by blast
  note z = downgrade_session_fields
  have t: "test_ratchet_key_perf keyed_crypto sample_platform noise (subslice 1633 (1633 + KID_SIZE) downgrade_x2)
      (subslice (1633 + KID_SIZE) (1633 + KID_SIZE + AES_GCM_TAG_SIZE) downgrade_x2) (rs_key (ps_ratchet_state1 downgrade_session)) = None"
    by (simp add: downgrade_slices downgrade_tests_perf z zssp_sizes)
  have "\<not> ratchet_option_eq (Some (ps_ratchet_state1 downgrade_session)) (ps_ratchet_state2 downgrade_session)" by (simp add: z)
  from perf_fallback_never_confirmed [OF storing_application_atomic z(1) tok t this x2] x2 z show ?thesis by auto
qed

end
