(* ===== verification/Perf_Buffers.thy ===== *)
theory Perf_Buffers
  imports Perf_Sizes Perf_Sample
begin

text \<open>
  The packets of the performance crate are written into vectors of a fixed capacity
  (\<open>ArrayVec\<close> in \<open>performance/src/zeta.rs\<close>, with the \<open>HEADERED\<close> sizes of \<open>performance/src/proto.rs\<close>), and
  writing past the capacity panics. A packet only grows until it is sent, so its final size bounds all
  the writes before it.
\<close>

lemma challenge_packet_length:
  assumes "length kid = KID_SIZE" "length challenge = CHALLENGE_SIZE"
  shows "length (challenge_packet C P kid challenge x) = HEADERED_CHALLENGE_SIZE"
  using assms by (simp add: challenge_packet_def Let_def zssp_sizes)

lemma send_control_perf_length:
  assumes "crypto_sized C" "send_control_perf C P p payload z w = (Ok (), z', w')" "HEADER_SIZE \<le> length payload"
  shows "\<exists>q hk. pw_sent w' = pw_sent w @ [(q, hk)] \<and> length q = length payload + AES_GCM_TAG_SIZE"
proof -
  obtain c rekey z1 where g: "get_counter_perf C z = (Some (c, rekey), z1)"
    using assms(2) by (auto simp: send_control_perf_def split: prod.splits option.splits)
  obtain kek kid where k: "ke_kek (dp_send (key_ref_perf z1 False)) = Some kek" "ke_kid (dp_send (key_ref_perf z1 False)) = Some kid"
    using assms(2) g by (auto simp: send_control_perf_def split: option.splits)
  obtain ct tag where e: "aead_encrypt_in_place C kek (to_nonce p c) (Some []) (drop HEADER_SIZE payload) = (ct, tag)" by fastforce
  show ?thesis using assms(2,3) g k e aead_encrypt_lengths [OF assms(1) e]
    by (auto simp: send_control_perf_def Let_def emit_perf_def zssp_sizes)
qed

text \<open>C35: No packet outgrows its buffer. A hello, a response, a rejection and a challenge fill the capacity of
  their vector exactly, a completion is at most as long as its vector whatever identity the caller may pass, a
  rekeying message fits with the tag that sending adds to it, and an empty control packet fits the
  vectors of a key confirmation and of an acknowledgement.\<close>

theorem perf_buffers_fit:
  assumes C: "crypto_sized C" and rs: "ratchet_wf rs1" "pred_option ratchet_wf rs2" and ident: "length ident \<le> IDENTITY_MAX_SIZE"
  shows "length (ap_x1 (fst (create_a1_state_perf C P rng pk kid rs1 rs2 ident))) = HEADERED_HANDSHAKE_HELLO_CHALLENGE_SIZE \<and>
    (write_x2_tokens_perf C pk e1 rk noise rng = (Inr (es, noise', x2), rng') \<longrightarrow>
       length (fst (snd (write_x2_payload_perf C P noise' x2 kid))) = HEADERED_HANDSHAKE_RESPONSE_SIZE) \<and>
    length (snd (write_x3_perf C secret pk ident noise)) \<le> HEADERED_HANDSHAKE_COMPLETION_MAX_SIZE \<and>
    length (create_reject_perf C P b2 kek) = HEADERED_SESSION_REJECTED_SIZE \<and>
    (length k = KID_SIZE \<and> length challenge = CHALLENGE_SIZE \<longrightarrow>
       length (challenge_packet C P k challenge x) = HEADERED_CHALLENGE_SIZE) \<and>
    length (fst (snd (snd (create_k1_perf C P secret pk ss rk rng kid)))) + AES_GCM_TAG_SIZE = HEADERED_REKEY_SIZE \<and>
    length (snd (write_k2_payload_perf C P noise (fst (snd (write_k2_tokens_perf C secret pk noise rng))) kid)) + AES_GCM_TAG_SIZE = HEADERED_REKEY_SIZE \<and>
    (send_control_perf C P p (replicate HEADER_SIZE 0) z w = (Ok (), z', w') \<longrightarrow>
       (\<exists>q hk. pw_sent w' = pw_sent w @ [(q, hk)] \<and> length q = HEADERED_KEY_CONFIRMATION_SIZE \<and> length q = HEADERED_ACKNOWLEDGEMENT_SIZE))"
proof (intro conjI impI)
  show "length (ap_x1 (fst (create_a1_state_perf C P rng pk kid rs1 rs2 ident))) = HEADERED_HANDSHAKE_HELLO_CHALLENGE_SIZE"
    using create_a1_state_perf_sized(1) [OF C rs] by (simp add: zssp_sizes)
  show "length (fst (snd (write_x2_payload_perf C P noise' x2 kid))) = HEADERED_HANDSHAKE_RESPONSE_SIZE"
    if "write_x2_tokens_perf C pk e1 rk noise rng = (Inr (es, noise', x2), rng')"
    using write_x2_payload_perf_length [OF C] write_x2_tokens_perf_length [OF C that] by (simp add: zssp_sizes)
  show "length (snd (write_x3_perf C secret pk ident noise)) \<le> HEADERED_HANDSHAKE_COMPLETION_MAX_SIZE"
    using write_x3_perf_length [OF C] ident by (simp add: zssp_sizes)
  show "length (create_reject_perf C P b2 kek) = HEADERED_SESSION_REJECTED_SIZE"
    using create_reject_perf_length [OF C] by (simp add: zssp_sizes)
  show "length (challenge_packet C P k challenge x) = HEADERED_CHALLENGE_SIZE" if "length k = KID_SIZE \<and> length challenge = CHALLENGE_SIZE"
    using that challenge_packet_length by blast
  show "length (fst (snd (snd (create_k1_perf C P secret pk ss rk rng kid)))) + AES_GCM_TAG_SIZE = HEADERED_REKEY_SIZE"
    using create_k1_perf_length [OF C] by (simp add: zssp_sizes)
  show "length (snd (write_k2_payload_perf C P noise (fst (snd (write_k2_tokens_perf C secret pk noise rng))) kid)) + AES_GCM_TAG_SIZE = HEADERED_REKEY_SIZE"
    using write_k2_perf_length [OF C] by (simp add: zssp_sizes)
  show "\<exists>q hk. pw_sent w' = pw_sent w @ [(q, hk)] \<and> length q = HEADERED_KEY_CONFIRMATION_SIZE \<and> length q = HEADERED_ACKNOWLEDGEMENT_SIZE"
    if "send_control_perf C P p (replicate HEADER_SIZE 0) z w = (Ok (), z', w')"
    using send_control_perf_length [OF C that] by (simp add: zssp_sizes)
qed

theorem perf_buffers_fit_witness:
  "length (ap_x1 (fst (create_a1_state_perf sample_crypto sample_platform 0 7 5 ratchet_empty None [1, 2]))) = HEADERED_HANDSHAKE_HELLO_CHALLENGE_SIZE \<and>
   length (snd (write_x3_perf sample_crypto 4 7 [1, 2] (initialize_perf PROTOCOL_NAME_NOISE_XK))) \<le> HEADERED_HANDSHAKE_COMPLETION_MAX_SIZE"
proof -
  have "ratchet_wf ratchet_empty" "pred_option ratchet_wf None" "length [1 :: u8, 2] \<le> IDENTITY_MAX_SIZE"
    by (simp_all add: ratchet_empty_def ratchet_wf_def zssp_sizes)
  from perf_buffers_fit [OF sample_crypto_sized this, of sample_platform 0 7 5]
    perf_buffers_fit [OF sample_crypto_sized this, where secret = 4 and pk = 7 and noise = "initialize_perf PROTOCOL_NAME_NOISE_XK"]
  show ?thesis by blast
qed

end
