(* ===== verification/Openssl_Ciphers.thy ===== *)
theory Openssl_Ciphers
  imports Perf_Interface
begin

text \<open>
  The default ciphers of the performance crate (\<open>performance/src/crypto_impl/openssl.rs\<close>): the block
  cipher of the headers, the one-shot AES-GCM of the handshake, and the pool of contexts that
  enciphers payloads as a stream. The functions of the OpenSSL library are arguments: a record \<open>evp\<close>
  over a type of cipher contexts. \<open>evp_ok\<close> states what its documentation says of them.

  \<open>None\<close> is a panic: the source unwraps a new context and asserts every call that it does not
  return the result of. A context is a value; freeing it in \<open>drop\<close> is the end of that value.
\<close>

section \<open>The library\<close>

datatype evp_cipher = EVP_aes_256_ecb | EVP_aes_256_gcm

text \<open>
  The flag says whether to encrypt, a null pointer is \<open>None\<close>; for \<open>e_update\<close> the last argument says
  whether there is an output, and the input comes with its length as a C integer.
\<close>

record 'c evp =
  e_new :: "'c option"
  e_init :: "bool \<Rightarrow> 'c \<Rightarrow> evp_cipher option \<Rightarrow> bytes option \<Rightarrow> bytes option \<Rightarrow> int \<times> 'c"
  e_set_padding :: "'c \<Rightarrow> int \<Rightarrow> 'c"
  e_update :: "bool \<Rightarrow> 'c \<Rightarrow> bytes \<Rightarrow> int \<Rightarrow> bool \<Rightarrow> int \<times> bytes \<times> 'c"
  e_final :: "bool \<Rightarrow> 'c \<Rightarrow> int \<times> 'c"
  e_get_tag :: "'c \<Rightarrow> int \<Rightarrow> int \<times> bytes \<times> 'c"
  e_set_tag :: "'c \<Rightarrow> bytes \<Rightarrow> int \<Rightarrow> int \<times> 'c"

section \<open>Contexts\<close>

text \<open>\<open>as c_int\<close> of a length.\<close>

definition as_c_int :: "nat \<Rightarrow> int" where
  "as_c_int n = sint (word_of_nat n :: 32 word)"

definition cipher_init :: "'c evp \<Rightarrow> bool \<Rightarrow> evp_cipher option \<Rightarrow> bytes option \<Rightarrow> bytes option \<Rightarrow> 'c \<Rightarrow> bool \<times> 'c" where
  "cipher_init E enc t key iv ctx = (case e_init E enc ctx t key iv of (r, ctx) \<Rightarrow> (0 < r, ctx))"

definition ctx_update :: "'c evp \<Rightarrow> bool \<Rightarrow> bytes \<Rightarrow> bool \<Rightarrow> 'c \<Rightarrow> bool \<times> bytes \<times> 'c" where
  "ctx_update E enc input output ctx =
     (case e_update E enc ctx input (as_c_int (length input)) output of (r, out, ctx) \<Rightarrow> (0 < r, out, ctx))"

definition ctx_finalize :: "'c evp \<Rightarrow> bool \<Rightarrow> 'c \<Rightarrow> bool \<times> 'c" where
  "ctx_finalize E enc ctx = (case e_final E enc ctx of (r, ctx) \<Rightarrow> (0 < r, ctx))"

definition ctx_get_tag :: "'c evp \<Rightarrow> nat \<Rightarrow> 'c \<Rightarrow> bool \<times> bytes \<times> 'c" where
  "ctx_get_tag E len ctx = (case e_get_tag E ctx (as_c_int len) of (r, tag, ctx) \<Rightarrow> (0 < r, tag, ctx))"

definition ctx_set_tag :: "'c evp \<Rightarrow> bytes \<Rightarrow> 'c \<Rightarrow> bool \<times> 'c" where
  "ctx_set_tag E tag ctx = (case e_set_tag E ctx tag (as_c_int (length tag)) of (r, ctx) \<Rightarrow> (0 < r, ctx))"

section \<open>The block cipher\<close>

text \<open>\<open>OpenSSLAes256Enc\<close> and \<open>OpenSSLAes256Dec\<close> are a context each.\<close>

definition Aes256Enc_reset :: "'c evp \<Rightarrow> bytes \<Rightarrow> 'c \<Rightarrow> 'c option" where
  "Aes256Enc_reset E key ctx =
     (case cipher_init E True (Some EVP_aes_256_ecb) (Some key) None ctx of
        (ok, ctx) \<Rightarrow> if ok then Some (e_set_padding E ctx 0) else None)"

definition Aes256Enc_new :: "'c evp \<Rightarrow> bytes \<Rightarrow> 'c option" where
  "Aes256Enc_new E key =
     (case e_new E of
        None \<Rightarrow> None
      | Some ctx \<Rightarrow>
          (case cipher_init E True (Some EVP_aes_256_ecb) (Some key) None ctx of
             (ok, ctx) \<Rightarrow> if ok then Some (e_set_padding E ctx 0) else None))"

definition Aes256Enc_encrypt_in_place :: "'c evp \<Rightarrow> bytes \<Rightarrow> 'c \<Rightarrow> (bytes \<times> 'c) option" where
  "Aes256Enc_encrypt_in_place E block ctx =
     (case ctx_update E True block True ctx of (ok, out, ctx) \<Rightarrow> if ok then Some (out, ctx) else None)"

definition Aes256Dec_reset :: "'c evp \<Rightarrow> bytes \<Rightarrow> 'c \<Rightarrow> 'c option" where
  "Aes256Dec_reset E key ctx =
     (case cipher_init E False (Some EVP_aes_256_ecb) (Some key) None ctx of
        (ok, ctx) \<Rightarrow> if ok then Some (e_set_padding E ctx 0) else None)"

definition Aes256Dec_new :: "'c evp \<Rightarrow> bytes \<Rightarrow> 'c option" where
  "Aes256Dec_new E key =
     (case e_new E of
        None \<Rightarrow> None
      | Some ctx \<Rightarrow>
          (case cipher_init E False (Some EVP_aes_256_ecb) (Some key) None ctx of
             (ok, ctx) \<Rightarrow> if ok then Some (e_set_padding E ctx 0) else None))"

definition Aes256Dec_decrypt_in_place :: "'c evp \<Rightarrow> bytes \<Rightarrow> 'c \<Rightarrow> (bytes \<times> 'c) option" where
  "Aes256Dec_decrypt_in_place E block ctx =
     (case ctx_update E False block True ctx of (ok, out, ctx) \<Rightarrow> if ok then Some (out, ctx) else None)"

section \<open>The pool\<close>

definition POOL_CAPACITY :: nat where
  "POOL_CAPACITY = 8"

record 'c openssl_pool =
  op_enc :: "'c list"
  op_dec :: "'c list"
  op_enc_key :: bytes
  op_dec_key :: bytes

definition openssl_pool_new :: "bytes \<Rightarrow> bytes \<Rightarrow> 'c openssl_pool" where
  "openssl_pool_new encrypt_key decrypt_key = \<lparr>op_enc = [], op_dec = [], op_enc_key = encrypt_key, op_dec_key = decrypt_key\<rparr>"

text \<open>\<open>try_push\<close> into a vector of fixed capacity; a context that finds no room is dropped.\<close>

definition put_back :: "'c \<Rightarrow> 'c list \<Rightarrow> 'c list" where
  "put_back ctx xs = (if length xs < POOL_CAPACITY then xs @ [ctx] else xs)"

definition start_enc :: "'c evp \<Rightarrow> bytes \<Rightarrow> 'c openssl_pool \<Rightarrow> ('c \<times> 'c openssl_pool) option" where
  "start_enc E nonce self =
     (if op_enc self \<noteq> [] then
        (let ctx = last (op_enc self); self = self\<lparr>op_enc := butlast (op_enc self)\<rparr>
         in case cipher_init E True None None (Some nonce) ctx of
              (ok, ctx) \<Rightarrow> if ok then Some (ctx, self) else None)
      else
        (case e_new E of
           None \<Rightarrow> None
         | Some ctx \<Rightarrow>
             (case cipher_init E True (Some EVP_aes_256_gcm) (Some (op_enc_key self)) (Some nonce) ctx of
                (ok, ctx) \<Rightarrow> if ok then Some (e_set_padding E ctx 0, self) else None)))"

definition start_dec :: "'c evp \<Rightarrow> bytes \<Rightarrow> 'c openssl_pool \<Rightarrow> ('c \<times> 'c openssl_pool) option" where
  "start_dec E nonce self =
     (if op_dec self \<noteq> [] then
        (let ctx = last (op_dec self); self = self\<lparr>op_dec := butlast (op_dec self)\<rparr>
         in case cipher_init E False None None (Some nonce) ctx of
              (ok, ctx) \<Rightarrow> if ok then Some (ctx, self) else None)
      else
        (case e_new E of
           None \<Rightarrow> None
         | Some ctx \<Rightarrow>
             (case cipher_init E False (Some EVP_aes_256_gcm) (Some (op_dec_key self)) (Some nonce) ctx of
                (ok, ctx) \<Rightarrow> if ok then Some (e_set_padding E ctx 0, self) else None)))"

definition openssl_encrypt :: "'c evp \<Rightarrow> bytes \<Rightarrow> 'c \<Rightarrow> (bytes \<times> 'c) option" where
  "openssl_encrypt E input ctx =
     (case ctx_update E True input True ctx of (ok, out, ctx) \<Rightarrow> if ok then Some (out, ctx) else None)"

definition openssl_decrypt :: "'c evp \<Rightarrow> bytes \<Rightarrow> 'c \<Rightarrow> (bytes \<times> 'c) option" where
  "openssl_decrypt E data ctx =
     (case ctx_update E False data True ctx of (ok, out, ctx) \<Rightarrow> if ok then Some (out, ctx) else None)"

definition finish_enc :: "'c evp \<Rightarrow> 'c \<Rightarrow> 'c openssl_pool \<Rightarrow> (bytes \<times> 'c openssl_pool) option" where
  "finish_enc E ctx self =
     (case ctx_finalize E True ctx of
        (ok, ctx) \<Rightarrow>
          if \<not> ok then None
          else
            (case ctx_get_tag E AES_GCM_TAG_SIZE ctx of
               (ok, output, ctx) \<Rightarrow>
                 if \<not> ok then None else Some (output, self\<lparr>op_enc := put_back ctx (op_enc self)\<rparr>)))"

definition finish_dec :: "'c evp \<Rightarrow> 'c \<Rightarrow> bytes \<Rightarrow> 'c openssl_pool \<Rightarrow> bool \<times> 'c openssl_pool" where
  "finish_dec E ctx tag self =
     (let (ok, ctx) = ctx_set_tag E tag ctx;
          (output, ctx) = (if ok then ctx_finalize E False ctx else (False, ctx))
      in (output, self\<lparr>op_dec := put_back ctx (op_dec self)\<rparr>))"

section \<open>One message\<close>

definition AesGcm_encrypt_in_place :: "'c evp \<Rightarrow> bytes \<Rightarrow> bytes \<Rightarrow> bytes \<Rightarrow> bytes \<Rightarrow> (bytes \<times> bytes) option" where
  "AesGcm_encrypt_in_place E key nonce aad data =
     (case e_new E of
        None \<Rightarrow> None
      | Some ctx \<Rightarrow>
          (case cipher_init E True (Some EVP_aes_256_gcm) (Some key) (Some nonce) ctx of
             (ok, ctx) \<Rightarrow>
               if \<not> ok then None
               else case ctx_update E True aad False (e_set_padding E ctx 0) of
                 (ok, _, ctx) \<Rightarrow>
                   if \<not> ok then None
                   else case ctx_update E True data True ctx of
                     (ok, data, ctx) \<Rightarrow>
                       if \<not> ok then None
                       else case ctx_finalize E True ctx of
                         (ok, ctx) \<Rightarrow>
                           if \<not> ok then None
                           else case ctx_get_tag E AES_GCM_TAG_SIZE ctx of
                             (ok, output, _) \<Rightarrow> if \<not> ok then None else Some (data, output)))"

definition AesGcm_decrypt_in_place :: "'c evp \<Rightarrow> bytes \<Rightarrow> bytes \<Rightarrow> bytes \<Rightarrow> bytes \<Rightarrow> bytes \<Rightarrow> (bool \<times> bytes) option" where
  "AesGcm_decrypt_in_place E key nonce aad data tag =
     (case e_new E of
        None \<Rightarrow> None
      | Some ctx \<Rightarrow>
          (case cipher_init E False (Some EVP_aes_256_gcm) (Some key) (Some nonce) ctx of
             (ok, ctx) \<Rightarrow>
               if \<not> ok then None
               else case ctx_update E False aad False (e_set_padding E ctx 0) of
                 (ok, _, ctx) \<Rightarrow>
                   if \<not> ok then None
                   else case ctx_update E False data True ctx of
                     (ok, data, ctx) \<Rightarrow>
                       if \<not> ok then None
                       else case ctx_set_tag E tag ctx of
                         (ok, ctx) \<Rightarrow> Some (ok \<and> fst (ctx_finalize E False ctx), data)))"

section \<open>What the library promises\<close>

text \<open>
  The state of a context as the documentation describes it: no cipher, a block cipher with its key and
  whether it pads (a decryption that pads holds back the last block), AES-GCM with key, nonce, associated data and the chunks so far, the same with the tag to
  compare, and a finished message with its key and tag. The functions that AES computes are \<open>aes_spec\<close>.
\<close>

datatype evp_view =
    EvpUnset
  | EvpEcb bool bytes bool
  | EvpGcm bool bytes bytes bytes "bytes list"
  | EvpTagged bytes bytes bytes "bytes list" bytes
  | EvpDone bool bytes bytes

record aes_spec =
  as_block_encrypt :: "bytes \<Rightarrow> bytes \<Rightarrow> bytes"
  as_block_decrypt :: "bytes \<Rightarrow> bytes \<Rightarrow> bytes"
  as_encrypt :: "bytes \<Rightarrow> bytes \<Rightarrow> bytes \<Rightarrow> bytes list \<Rightarrow> bytes \<Rightarrow> bytes"
  as_decrypt :: "bytes \<Rightarrow> bytes \<Rightarrow> bytes \<Rightarrow> bytes list \<Rightarrow> bytes \<Rightarrow> bytes"
  as_tag :: "bytes \<Rightarrow> bytes \<Rightarrow> bytes \<Rightarrow> bytes list \<Rightarrow> bytes"
  as_verify :: "bytes \<Rightarrow> bytes \<Rightarrow> bytes \<Rightarrow> bytes list \<Rightarrow> bytes \<Rightarrow> bool"

definition as_crypt :: "aes_spec \<Rightarrow> bool \<Rightarrow> bytes \<Rightarrow> bytes \<Rightarrow> bytes \<Rightarrow> bytes list \<Rightarrow> bytes \<Rightarrow> bytes" where
  "as_crypt G enc = (if enc then as_encrypt G else as_decrypt G)"

definition as_block :: "aes_spec \<Rightarrow> bool \<Rightarrow> bytes \<Rightarrow> bytes \<Rightarrow> bytes" where
  "as_block G enc = (if enc then as_block_encrypt G else as_block_decrypt G)"

text \<open>A message ended, so that the context can begin another one with the same key.\<close>

definition ended :: "('c \<Rightarrow> evp_view) \<Rightarrow> bool \<Rightarrow> bytes \<Rightarrow> 'c \<Rightarrow> bool" where
  "ended V enc k c \<longleftrightarrow> (\<exists>t. V c = EvpDone enc k t)"

text \<open>
  What the documentation says of the calls. An update is taken to succeed: the limit of GCM on
  the bytes of one message, 2 to the 36 less 32, is far above the longest packet and is not stated.
\<close>

definition evp_ok :: "'c evp \<Rightarrow> ('c \<Rightarrow> evp_view) \<Rightarrow> aes_spec \<Rightarrow> bool" where
  "evp_ok E V G \<longleftrightarrow>
     e_new E \<noteq> None \<and>
     (\<forall>enc c k p. V c = EvpEcb enc k p \<longrightarrow> V (e_set_padding E c 0) = EvpEcb enc k False) \<and>
     (\<forall>enc c k n. V c = EvpGcm enc k n [] [] \<longrightarrow> V (e_set_padding E c 0) = V c) \<and>
     (\<forall>enc c k. case e_init E enc c (Some EVP_aes_256_ecb) (Some k) None of (r, c') \<Rightarrow> 0 < r \<and> (\<exists>p. V c' = EvpEcb enc k p)) \<and>
     (\<forall>enc c k n. case e_init E enc c (Some EVP_aes_256_gcm) (Some k) (Some n) of (r, c') \<Rightarrow> 0 < r \<and> V c' = EvpGcm enc k n [] []) \<and>
     (\<forall>enc c k n. ended V enc k c \<longrightarrow>
        (case e_init E enc c None None (Some n) of (r, c') \<Rightarrow> 0 < r \<and> V c' = EvpGcm enc k n [] [])) \<and>
     (\<forall>enc c k b. V c = EvpEcb enc k False \<and> length b = AES_256_BLOCK_SIZE \<longrightarrow>
        (case e_update E enc c b (int (length b)) True of (r, out, c') \<Rightarrow> 0 < r \<and> out = as_block G enc k b \<and> V c' = V c)) \<and>
     (\<forall>enc c k n a x. V c = EvpGcm enc k n a [] \<longrightarrow>
        (case e_update E enc c x (int (length x)) False of (r, out, c') \<Rightarrow> 0 < r \<and> V c' = EvpGcm enc k n (a @ x) [])) \<and>
     (\<forall>enc c k n a xs x. V c = EvpGcm enc k n a xs \<longrightarrow>
        (case e_update E enc c x (int (length x)) True of
           (r, out, c') \<Rightarrow> 0 < r \<and> out = as_crypt G enc k n a xs x \<and> V c' = EvpGcm enc k n a (xs @ [x]))) \<and>
     (\<forall>c k n a xs. V c = EvpGcm True k n a xs \<longrightarrow>
        (case e_final E True c of (r, c') \<Rightarrow> 0 < r \<and> V c' = EvpDone True k (as_tag G k n a xs))) \<and>
     (\<forall>c k t. V c = EvpDone True k t \<longrightarrow>
        (case e_get_tag E c (int AES_GCM_TAG_SIZE) of (r, out, c') \<Rightarrow> 0 < r \<and> out = t \<and> V c' = V c)) \<and>
     (\<forall>c k n a xs t. V c = EvpGcm False k n a xs \<and> length t = AES_GCM_TAG_SIZE \<longrightarrow>
        (case e_set_tag E c t (int AES_GCM_TAG_SIZE) of (r, c') \<Rightarrow> 0 < r \<and> V c' = EvpTagged k n a xs t)) \<and>
     (\<forall>c k n a xs t. V c = EvpTagged k n a xs t \<longrightarrow>
        (case e_final E False c of (r, c') \<Rightarrow> (0 < r \<longleftrightarrow> as_verify G k n a xs t) \<and> V c' = EvpDone False k t))"

section \<open>Using the pool\<close>

text \<open>
  Any number of streams at once, as several threads send and receive on one session. A stream that
  its caller gives up, as \<open>send\<close> does when the transport refuses a fragment, is dropped.
\<close>

datatype pool_op =
    StartEnc nat bytes
  | Encrypt nat bytes
  | FinishEnc nat
  | StartDec nat bytes
  | Decrypt nat bytes
  | FinishDec nat bytes
  | GiveUp nat

datatype pool_out = Text bytes | Tag bytes | Verdict bool

type_synonym 'c pool_state = "'c openssl_pool \<times> (nat \<rightharpoonup> bool \<times> 'c)"

fun pool_step :: "'c evp \<Rightarrow> pool_op \<Rightarrow> 'c pool_state \<Rightarrow> (pool_out list \<times> 'c pool_state) option" where
  "pool_step E (StartEnc i nonce) (self, T) = map_option (\<lambda>(ctx, self). ([], self, T(i \<mapsto> (True, ctx)))) (start_enc E nonce self)"
| "pool_step E (Encrypt i x) (self, T) =
     (case T i of
        Some (True, ctx) \<Rightarrow> map_option (\<lambda>(y, ctx). ([Text y], self, T(i \<mapsto> (True, ctx)))) (openssl_encrypt E x ctx)
      | _ \<Rightarrow> Some ([], self, T))"
| "pool_step E (FinishEnc i) (self, T) =
     (case T i of
        Some (True, ctx) \<Rightarrow> map_option (\<lambda>(t, self). ([Tag t], self, T(i := None))) (finish_enc E ctx self)
      | _ \<Rightarrow> Some ([], self, T))"
| "pool_step E (StartDec i nonce) (self, T) = map_option (\<lambda>(ctx, self). ([], self, T(i \<mapsto> (False, ctx)))) (start_dec E nonce self)"
| "pool_step E (Decrypt i x) (self, T) =
     (case T i of
        Some (False, ctx) \<Rightarrow> map_option (\<lambda>(y, ctx). ([Text y], self, T(i \<mapsto> (False, ctx)))) (openssl_decrypt E x ctx)
      | _ \<Rightarrow> Some ([], self, T))"
| "pool_step E (FinishDec i tag) (self, T) =
     (case T i of
        Some (False, ctx) \<Rightarrow> (case finish_dec E ctx tag self of (ok, self) \<Rightarrow> Some ([Verdict ok], self, T(i := None)))
      | _ \<Rightarrow> Some ([], self, T))"
| "pool_step E (GiveUp i) (self, T) = Some ([], self, T(i := None))"

primrec pool_run :: "'c evp \<Rightarrow> pool_op list \<Rightarrow> 'c pool_state \<Rightarrow> (pool_out list \<times> 'c pool_state) option" where
  "pool_run E [] st = Some ([], st)"
| "pool_run E (op # ops) st =
     (case pool_step E op st of
        None \<Rightarrow> None
      | Some (out, st) \<Rightarrow> map_option (\<lambda>(outs, st). (out @ outs, st)) (pool_run E ops st))"

text \<open>The same with the trait as the session uses it: a pair of keys, and streams that are their nonce and chunks.\<close>

fun stream_step :: "platform \<Rightarrow> aead_pool \<Rightarrow> pool_op \<Rightarrow> (nat \<rightharpoonup> bool \<times> stream_context) \<Rightarrow> pool_out list \<times> (nat \<rightharpoonup> bool \<times> stream_context)" where
  "stream_step P pool (StartEnc i nonce) T = ([], T(i \<mapsto> (True, start_stream nonce)))"
| "stream_step P pool (Encrypt i x) T =
     (case T i of
        Some (True, ctx) \<Rightarrow> (case pool_encrypt P pool ctx x of (y, ctx) \<Rightarrow> ([Text y], T(i \<mapsto> (True, ctx))))
      | _ \<Rightarrow> ([], T))"
| "stream_step P pool (FinishEnc i) T =
     (case T i of Some (True, ctx) \<Rightarrow> ([Tag (pool_finish_enc P pool ctx)], T(i := None)) | _ \<Rightarrow> ([], T))"
| "stream_step P pool (StartDec i nonce) T = ([], T(i \<mapsto> (False, start_stream nonce)))"
| "stream_step P pool (Decrypt i x) T =
     (case T i of
        Some (False, ctx) \<Rightarrow> (case pool_decrypt P pool ctx x of (y, ctx) \<Rightarrow> ([Text y], T(i \<mapsto> (False, ctx))))
      | _ \<Rightarrow> ([], T))"
| "stream_step P pool (FinishDec i tag) T =
     (case T i of Some (False, ctx) \<Rightarrow> ([Verdict (pool_finish_dec P pool ctx tag)], T(i := None)) | _ \<Rightarrow> ([], T))"
| "stream_step P pool (GiveUp i) T = ([], T(i := None))"

primrec stream_run :: "platform \<Rightarrow> aead_pool \<Rightarrow> pool_op list \<Rightarrow> (nat \<rightharpoonup> bool \<times> stream_context) \<Rightarrow> pool_out list" where
  "stream_run P pool [] T = []"
| "stream_run P pool (op # ops) T = (case stream_step P pool op T of (out, T) \<Rightarrow> out @ stream_run P pool ops T)"

text \<open>The platform whose streaming cipher is AES-GCM without associated data.\<close>

definition with_aes :: "aes_spec \<Rightarrow> platform \<Rightarrow> platform" where
  "with_aes G P = P\<lparr>pl_stream_encrypt := (\<lambda>k c. as_encrypt G k (fst c) [] (snd c)), pl_stream_tag := (\<lambda>k c. as_tag G k (fst c) [] (snd c)),
     pl_stream_decrypt := (\<lambda>k c. as_decrypt G k (fst c) [] (snd c)), pl_stream_verify := (\<lambda>k c. as_verify G k (fst c) [] (snd c))\<rparr>"

text \<open>Chunks whose length is a C integer, and tags of the size that their type gives them.\<close>

fun op_sized :: "pool_op \<Rightarrow> bool" where
  "op_sized (Encrypt i x) \<longleftrightarrow> length x < 2 ^ 31"
| "op_sized (Decrypt i x) \<longleftrightarrow> length x < 2 ^ 31"
| "op_sized (FinishDec i t) \<longleftrightarrow> length t = AES_GCM_TAG_SIZE"
| "op_sized _ \<longleftrightarrow> True"

section \<open>A library for examples\<close>

text \<open>Contexts that are their own description, with the identity for AES and a tag of zeros.\<close>

definition sample_aes :: aes_spec where
  "sample_aes = \<lparr>as_block_encrypt = (\<lambda>k b. b), as_block_decrypt = (\<lambda>k b. b), as_encrypt = (\<lambda>k n a xs x. x),
     as_decrypt = (\<lambda>k n a xs x. x), as_tag = (\<lambda>k n a xs. replicate 16 0), as_verify = (\<lambda>k n a xs t. t = replicate 16 0)\<rparr>"

fun sample_init :: "bool \<Rightarrow> evp_view \<Rightarrow> evp_cipher option \<Rightarrow> bytes option \<Rightarrow> bytes option \<Rightarrow> int \<times> evp_view" where
  "sample_init enc c (Some EVP_aes_256_ecb) (Some k) iv = (1, EvpEcb enc k True)"
| "sample_init enc c (Some EVP_aes_256_gcm) (Some k) (Some n) = (1, EvpGcm enc k n [] [])"
| "sample_init enc (EvpDone d k t) None None (Some n) = (if enc = d then (1, EvpGcm enc k n [] []) else (0, EvpDone d k t))"
| "sample_init enc c t k iv = (0, c)"

fun sample_set_padding :: "evp_view \<Rightarrow> int \<Rightarrow> evp_view" where
  "sample_set_padding (EvpEcb enc k p) pad = EvpEcb enc k (pad \<noteq> 0)"
| "sample_set_padding c pad = c"

fun sample_update :: "bool \<Rightarrow> evp_view \<Rightarrow> bytes \<Rightarrow> int \<Rightarrow> bool \<Rightarrow> int \<times> bytes \<times> evp_view" where
  "sample_update enc (EvpEcb d k p) x len output = (if enc = d \<and> \<not> p then (1, x, EvpEcb d k p) else (0, [], EvpEcb d k p))"
| "sample_update enc (EvpGcm d k n a xs) x len output =
     (if output then (1, x, EvpGcm d k n a (xs @ [x])) else (1, [], EvpGcm d k n (a @ x) xs))"
| "sample_update enc c x len output = (0, [], c)"

fun sample_final :: "bool \<Rightarrow> evp_view \<Rightarrow> int \<times> evp_view" where
  "sample_final enc (EvpGcm d k n a xs) = (if d then 1 else 0, EvpDone d k (replicate 16 0))"
| "sample_final enc (EvpTagged k n a xs t) = (if t = replicate 16 0 then 1 else 0, EvpDone False k t)"
| "sample_final enc c = (0, c)"

fun sample_get_tag :: "evp_view \<Rightarrow> int \<Rightarrow> int \<times> bytes \<times> evp_view" where
  "sample_get_tag (EvpDone d k t) len = (1, t, EvpDone d k t)"
| "sample_get_tag c len = (0, [], c)"

fun sample_set_tag :: "evp_view \<Rightarrow> bytes \<Rightarrow> int \<Rightarrow> int \<times> evp_view" where
  "sample_set_tag (EvpGcm d k n a xs) t len = (1, EvpTagged k n a xs t)"
| "sample_set_tag c t len = (0, c)"

definition sample_evp :: "evp_view evp" where
  "sample_evp = \<lparr>e_new = Some EvpUnset, e_init = sample_init, e_set_padding = sample_set_padding, e_update = sample_update,
     e_final = sample_final, e_get_tag = sample_get_tag, e_set_tag = sample_set_tag\<rparr>"

section \<open>The pool and its abstraction\<close>

definition stream_agrees :: "('c \<Rightarrow> evp_view) \<Rightarrow> aead_pool \<Rightarrow> bool \<times> 'c \<Rightarrow> bool \<times> stream_context \<Rightarrow> bool" where
  "stream_agrees V pool a b \<longleftrightarrow>
     fst a = fst b \<and> V (snd a) = EvpGcm (fst b) (if fst b then fst pool else snd pool) (fst (snd b)) [] (snd (snd b))"

definition pool_agrees :: "('c \<Rightarrow> evp_view) \<Rightarrow> aead_pool \<Rightarrow> 'c pool_state \<Rightarrow> (nat \<rightharpoonup> bool \<times> stream_context) \<Rightarrow> bool" where
  "pool_agrees V pool st S \<longleftrightarrow>
     op_enc_key (fst st) = fst pool \<and> op_dec_key (fst st) = snd pool \<and>
     list_all (ended V True (fst pool)) (op_enc (fst st)) \<and> list_all (ended V False (snd pool)) (op_dec (fst st)) \<and>
     length (op_enc (fst st)) \<le> POOL_CAPACITY \<and> length (op_dec (fst st)) \<le> POOL_CAPACITY \<and>
     (\<forall>i. rel_option (stream_agrees V pool) (snd st i) (S i))"

text \<open>A step gives what the streams of the trait give, and keeps the states in agreement.\<close>

abbreviation step_agrees :: "'c evp \<Rightarrow> ('c \<Rightarrow> evp_view) \<Rightarrow> aes_spec \<Rightarrow> platform \<Rightarrow> aead_pool \<Rightarrow> 'c pool_state \<Rightarrow> (nat \<rightharpoonup> bool \<times> stream_context) \<Rightarrow> pool_op \<Rightarrow> bool" where
  "step_agrees E V G P pool st S op \<equiv> \<exists>st'.
     pool_step E op st = Some (fst (stream_step (with_aes G P) pool op S), st') \<and>
     pool_agrees V pool st' (snd (stream_step (with_aes G P) pool op S))"

section \<open>Calls that keep the contract\<close>

lemma as_c_int_small: "n < 2 ^ 31 \<Longrightarrow> as_c_int n = int n"
  by (simp add: as_c_int_def signed_of_nat take_bit_nat_eq_self signed_take_bit_int_eq_self)

lemma as_c_int_tag [simp]: "as_c_int AES_GCM_TAG_SIZE = int AES_GCM_TAG_SIZE"
  by (rule as_c_int_small) (simp add: zssp_sizes)

lemma evp_new:
  assumes "evp_ok E V G" obtains c where "e_new E = Some c"
  using assms unfolding evp_ok_def by (elim conjE) (metis not_None_eq)

lemma init_ecb:
  assumes "evp_ok E V G"
  obtains c' where "cipher_init E enc (Some EVP_aes_256_ecb) (Some k) None c = (True, c')"
    "V (e_set_padding E c' 0) = EvpEcb enc k False"
proof -
  have "case e_init E enc c (Some EVP_aes_256_ecb) (Some k) None of (r, c') \<Rightarrow> 0 < r \<and> (\<exists>p. V c' = EvpEcb enc k p)"
    using assms unfolding evp_ok_def by (elim conjE) simp
  moreover have "V c' = EvpEcb enc k p \<Longrightarrow> V (e_set_padding E c' 0) = EvpEcb enc k False" for c' p
    using assms unfolding evp_ok_def by (elim conjE) simp
  ultimately show thesis using that by (auto simp: cipher_init_def split: prod.splits)
qed

lemma init_gcm:
  assumes "evp_ok E V G"
  obtains c' where "cipher_init E enc (Some EVP_aes_256_gcm) (Some k) (Some n) c = (True, c')"
    "V (e_set_padding E c' 0) = EvpGcm enc k n [] []"
proof -
  have "case e_init E enc c (Some EVP_aes_256_gcm) (Some k) (Some n) of (r, c') \<Rightarrow> 0 < r \<and> V c' = EvpGcm enc k n [] []"
    using assms unfolding evp_ok_def by (elim conjE) simp
  moreover have "V c' = EvpGcm enc k n [] [] \<Longrightarrow> V (e_set_padding E c' 0) = V c'" for c'
    using assms unfolding evp_ok_def by (elim conjE) simp
  ultimately show thesis using that by (auto simp: cipher_init_def split: prod.splits)
qed

lemma init_again:
  assumes "evp_ok E V G" "ended V enc k c"
  obtains c' where "cipher_init E enc None None (Some n) c = (True, c')" "V c' = EvpGcm enc k n [] []"
proof -
  have "case e_init E enc c None None (Some n) of (r, c') \<Rightarrow> 0 < r \<and> V c' = EvpGcm enc k n [] []"
    using assms unfolding evp_ok_def by (elim conjE) simp
  then show thesis using that by (auto simp: cipher_init_def split: prod.splits)
qed

lemma update_block:
  assumes "evp_ok E V G" "V c = EvpEcb enc k False" "length b = AES_256_BLOCK_SIZE"
  obtains c' where "ctx_update E enc b True c = (True, as_block G enc k b, c')" "V c' = EvpEcb enc k False"
proof -
  have "case e_update E enc c b (int (length b)) True of (r, out, c') \<Rightarrow> 0 < r \<and> out = as_block G enc k b \<and> V c' = V c"
    using assms unfolding evp_ok_def by (elim conjE) simp
  moreover have "as_c_int (length b) = int (length b)"
    by (rule as_c_int_small) (simp add: assms(3) zssp_sizes)
  ultimately show thesis using that assms(2) by (auto simp: ctx_update_def split: prod.splits)
qed

lemma update_aad:
  assumes "evp_ok E V G" "V c = EvpGcm enc k n a []" "length x < 2 ^ 31"
  obtains out c' where "ctx_update E enc x False c = (True, out, c')" "V c' = EvpGcm enc k n (a @ x) []"
proof -
  have "case e_update E enc c x (int (length x)) False of (r, out, c') \<Rightarrow> 0 < r \<and> V c' = EvpGcm enc k n (a @ x) []"
    using assms(1,2) unfolding evp_ok_def by (elim conjE) simp
  then show thesis using that as_c_int_small [OF assms(3)] by (auto simp: ctx_update_def split: prod.splits)
qed

lemma update_chunk:
  assumes "evp_ok E V G" "V c = EvpGcm enc k n a xs" "length x < 2 ^ 31"
  obtains c' where "ctx_update E enc x True c = (True, as_crypt G enc k n a xs x, c')" "V c' = EvpGcm enc k n a (xs @ [x])"
proof -
  have "case e_update E enc c x (int (length x)) True of
      (r, out, c') \<Rightarrow> 0 < r \<and> out = as_crypt G enc k n a xs x \<and> V c' = EvpGcm enc k n a (xs @ [x])"
    using assms(1,2) unfolding evp_ok_def by (elim conjE) simp
  then show thesis using that as_c_int_small [OF assms(3)] by (auto simp: ctx_update_def split: prod.splits)
qed

lemma final_tag:
  assumes "evp_ok E V G" "V c = EvpGcm True k n a xs"
  obtains c' c'' where "ctx_finalize E True c = (True, c')" "ctx_get_tag E AES_GCM_TAG_SIZE c' = (True, as_tag G k n a xs, c'')"
    "ended V True k c''"
proof -
  obtain r c' where f: "e_final E True c = (r, c')" by fastforce
  have "case e_final E True c of (r, c') \<Rightarrow> 0 < r \<and> V c' = EvpDone True k (as_tag G k n a xs)"
    using assms unfolding evp_ok_def by (elim conjE) simp
  then have r: "0 < r" "V c' = EvpDone True k (as_tag G k n a xs)" by (simp_all add: f)
  have "\<forall>c k t. V c = EvpDone True k t \<longrightarrow>
      (case e_get_tag E c (int AES_GCM_TAG_SIZE) of (r, out, c') \<Rightarrow> 0 < r \<and> out = t \<and> V c' = V c)"
    using assms(1) unfolding evp_ok_def by (elim conjE)
  from this [rule_format, OF r(2)] show thesis using that f r by (auto simp: ctx_finalize_def ctx_get_tag_def ended_def split: prod.splits)
qed

lemma final_verify:
  assumes "evp_ok E V G" "V c = EvpGcm False k n a xs" "length t = AES_GCM_TAG_SIZE"
  obtains c' c'' where "ctx_set_tag E t c = (True, c')" "ctx_finalize E False c' = (as_verify G k n a xs t, c'')"
    "ended V False k c''"
proof -
  obtain r c' where f: "e_set_tag E c t (int AES_GCM_TAG_SIZE) = (r, c')" by fastforce
  have "case e_set_tag E c t (int AES_GCM_TAG_SIZE) of (r, c') \<Rightarrow> 0 < r \<and> V c' = EvpTagged k n a xs t"
    using assms unfolding evp_ok_def by (elim conjE) simp
  then have r: "0 < r" "V c' = EvpTagged k n a xs t" by (simp_all add: f)
  have "\<forall>c k n a xs t. V c = EvpTagged k n a xs t \<longrightarrow>
      (case e_final E False c of (r, c') \<Rightarrow> (0 < r \<longleftrightarrow> as_verify G k n a xs t) \<and> V c' = EvpDone False k t)"
    using assms(1) unfolding evp_ok_def by (elim conjE)
  from this [rule_format, OF r(2)] show thesis using that f r assms(3) by (auto simp: ctx_finalize_def ctx_set_tag_def ended_def split: prod.splits)
qed

section \<open>The block cipher and the one-shot cipher\<close>

text \<open>A block cipher made or reset with a key applies AES with that key to every later block.\<close>

lemma Aes256Enc_block:
  assumes "evp_ok E V G" "Aes256Enc_new E key = Some ctx \<or> Aes256Enc_reset E key c = Some ctx"
    "length block = AES_256_BLOCK_SIZE"
  obtains ctx' where "Aes256Enc_encrypt_in_place E block ctx = Some (as_block_encrypt G key block, ctx')"
    "V ctx = EvpEcb True key False" "V ctx' = V ctx"
proof -
  obtain c0 where c0: "e_new E = Some c0" by (rule evp_new [OF assms(1)])
  obtain c1 where "cipher_init E True (Some EVP_aes_256_ecb) (Some key) None c0 = (True, c1)"
      "V (e_set_padding E c1 0) = EvpEcb True key False" by (rule init_ecb [OF assms(1)])
  moreover obtain c2 where "cipher_init E True (Some EVP_aes_256_ecb) (Some key) None c = (True, c2)"
      "V (e_set_padding E c2 0) = EvpEcb True key False" by (rule init_ecb [OF assms(1)])
  ultimately have V: "V ctx = EvpEcb True key False"
    using assms(2) c0 by (auto simp: Aes256Enc_new_def Aes256Enc_reset_def)
  then show thesis
    using update_block [OF assms(1) V assms(3)] that by (fastforce simp: Aes256Enc_encrypt_in_place_def as_block_def)
qed

lemma Aes256Dec_block:
  assumes "evp_ok E V G" "Aes256Dec_new E key = Some ctx \<or> Aes256Dec_reset E key c = Some ctx"
    "length block = AES_256_BLOCK_SIZE"
  obtains ctx' where "Aes256Dec_decrypt_in_place E block ctx = Some (as_block_decrypt G key block, ctx')"
    "V ctx = EvpEcb False key False" "V ctx' = V ctx"
proof -
  obtain c0 where c0: "e_new E = Some c0" by (rule evp_new [OF assms(1)])
  obtain c1 where "cipher_init E False (Some EVP_aes_256_ecb) (Some key) None c0 = (True, c1)"
      "V (e_set_padding E c1 0) = EvpEcb False key False" by (rule init_ecb [OF assms(1)])
  moreover obtain c2 where "cipher_init E False (Some EVP_aes_256_ecb) (Some key) None c = (True, c2)"
      "V (e_set_padding E c2 0) = EvpEcb False key False" by (rule init_ecb [OF assms(1)])
  ultimately have V: "V ctx = EvpEcb False key False"
    using assms(2) c0 by (auto simp: Aes256Dec_new_def Aes256Dec_reset_def)
  then show thesis
    using update_block [OF assms(1) V assms(3)] that by (fastforce simp: Aes256Dec_decrypt_in_place_def as_block_def)
qed

text \<open>The cipher of a handshake message is AES-GCM on one chunk.\<close>

lemma AesGcm_encrypt:
  assumes "evp_ok E V G" "length aad < 2 ^ 31" "length data < 2 ^ 31"
  shows "AesGcm_encrypt_in_place E key nonce aad data =
    Some (as_encrypt G key nonce aad [] data, as_tag G key nonce aad [data])"
proof -
  obtain c0 where c0: "e_new E = Some c0" by (rule evp_new [OF assms(1)])
  obtain c1 where c1: "cipher_init E True (Some EVP_aes_256_gcm) (Some key) (Some nonce) c0 = (True, c1)"
    "V (e_set_padding E c1 0) = EvpGcm True key nonce [] []" by (rule init_gcm [OF assms(1)])
  obtain out c2 where c2: "ctx_update E True aad False (e_set_padding E c1 0) = (True, out, c2)"
    "V c2 = EvpGcm True key nonce ([] @ aad) []" by (rule update_aad [OF assms(1) c1(2) assms(2)])
  obtain c3 where c3: "ctx_update E True data True c2 = (True, as_crypt G True key nonce ([] @ aad) [] data, c3)"
    "V c3 = EvpGcm True key nonce ([] @ aad) ([] @ [data])" by (rule update_chunk [OF assms(1) c2(2) assms(3)])
  obtain c4 c5 where "ctx_finalize E True c3 = (True, c4)"
    "ctx_get_tag E AES_GCM_TAG_SIZE c4 = (True, as_tag G key nonce ([] @ aad) ([] @ [data]), c5)"
    by (rule final_tag [OF assms(1) c3(2)])
  then show ?thesis using c0 c1(1) c2(1) c3(1) by (simp add: AesGcm_encrypt_in_place_def as_crypt_def)
qed

lemma AesGcm_decrypt:
  assumes "evp_ok E V G" "length aad < 2 ^ 31" "length data < 2 ^ 31" "length tag = AES_GCM_TAG_SIZE"
  shows "AesGcm_decrypt_in_place E key nonce aad data tag =
    Some (as_verify G key nonce aad [data] tag, as_decrypt G key nonce aad [] data)"
proof -
  obtain c0 where c0: "e_new E = Some c0" by (rule evp_new [OF assms(1)])
  obtain c1 where c1: "cipher_init E False (Some EVP_aes_256_gcm) (Some key) (Some nonce) c0 = (True, c1)"
    "V (e_set_padding E c1 0) = EvpGcm False key nonce [] []" by (rule init_gcm [OF assms(1)])
  obtain out c2 where c2: "ctx_update E False aad False (e_set_padding E c1 0) = (True, out, c2)"
    "V c2 = EvpGcm False key nonce ([] @ aad) []" by (rule update_aad [OF assms(1) c1(2) assms(2)])
  obtain c3 where c3: "ctx_update E False data True c2 = (True, as_crypt G False key nonce ([] @ aad) [] data, c3)"
    "V c3 = EvpGcm False key nonce ([] @ aad) ([] @ [data])" by (rule update_chunk [OF assms(1) c2(2) assms(3)])
  obtain c4 c5 where "ctx_set_tag E tag c3 = (True, c4)"
    "ctx_finalize E False c4 = (as_verify G key nonce ([] @ aad) ([] @ [data]) tag, c5)"
    by (rule final_verify [OF assms(1) c3(2) assms(4)])
  then show ?thesis using c0 c1(1) c2(1) c3(1) by (simp add: AesGcm_decrypt_in_place_def as_crypt_def)
qed

section \<open>Steps of the pool\<close>

lemma with_aes_fields [simp]:
  "pl_stream_encrypt (with_aes G P) k c x = as_encrypt G k (fst c) [] (snd c) x"
  "pl_stream_tag (with_aes G P) k c = as_tag G k (fst c) [] (snd c)"
  "pl_stream_decrypt (with_aes G P) k c x = as_decrypt G k (fst c) [] (snd c) x"
  "pl_stream_verify (with_aes G P) k c t = as_verify G k (fst c) [] (snd c) t"
  by (simp_all add: with_aes_def)

lemma list_all_put_back: "Q c \<Longrightarrow> list_all Q xs \<Longrightarrow> list_all Q (put_back c xs)"
  by (simp add: put_back_def)

lemma put_back_capacity: "length xs \<le> POOL_CAPACITY \<Longrightarrow> length (put_back c xs) \<le> POOL_CAPACITY"
  by (simp add: put_back_def)

lemma list_all_last: "list_all Q xs \<Longrightarrow> xs \<noteq> [] \<Longrightarrow> Q (last xs)"
  by (simp add: list_all_iff)

lemma list_all_butlast: "list_all Q xs \<Longrightarrow> list_all Q (butlast xs)"
  by (auto simp: list_all_iff dest: in_set_butlastD)

lemma start_enc_agrees:
  assumes "evp_ok E V G" "pool_agrees V pool (self, T) S"
  obtains ctx self' where "start_enc E nonce self = Some (ctx, self')"
    "pool_agrees V pool (self', T(i \<mapsto> (True, ctx))) (S(i \<mapsto> (True, start_stream nonce)))"
proof (cases "op_enc self = []")
  case True
  obtain c0 where c0: "e_new E = Some c0" by (rule evp_new [OF assms(1)])
  obtain c1 where "cipher_init E True (Some EVP_aes_256_gcm) (Some (op_enc_key self)) (Some nonce) c0 = (True, c1)"
    "V (e_set_padding E c1 0) = EvpGcm True (op_enc_key self) nonce [] []" by (rule init_gcm [OF assms(1)])
  then show thesis
    using that [of "e_set_padding E c1 0" self] True c0 assms(2)
    by (simp add: start_enc_def pool_agrees_def stream_agrees_def start_stream_def)
next
  case False
  have "ended V True (fst pool) (last (op_enc self))"
    using assms(2) False by (simp add: pool_agrees_def list_all_last)
  then obtain c1 where "cipher_init E True None None (Some nonce) (last (op_enc self)) = (True, c1)"
    "V c1 = EvpGcm True (fst pool) nonce [] []" by (rule init_again [OF assms(1)])
  then show thesis
    using that [of c1 "self\<lparr>op_enc := butlast (op_enc self)\<rparr>"] False assms(2)
    by (auto simp: start_enc_def pool_agrees_def stream_agrees_def start_stream_def list_all_butlast)
qed

lemma start_dec_agrees:
  assumes "evp_ok E V G" "pool_agrees V pool (self, T) S"
  obtains ctx self' where "start_dec E nonce self = Some (ctx, self')"
    "pool_agrees V pool (self', T(i \<mapsto> (False, ctx))) (S(i \<mapsto> (False, start_stream nonce)))"
proof (cases "op_dec self = []")
  case True
  obtain c0 where c0: "e_new E = Some c0" by (rule evp_new [OF assms(1)])
  obtain c1 where "cipher_init E False (Some EVP_aes_256_gcm) (Some (op_dec_key self)) (Some nonce) c0 = (True, c1)"
    "V (e_set_padding E c1 0) = EvpGcm False (op_dec_key self) nonce [] []" by (rule init_gcm [OF assms(1)])
  then show thesis
    using that [of "e_set_padding E c1 0" self] True c0 assms(2)
    by (simp add: start_dec_def pool_agrees_def stream_agrees_def start_stream_def)
next
  case False
  have "ended V False (snd pool) (last (op_dec self))"
    using assms(2) False by (simp add: pool_agrees_def list_all_last)
  then obtain c1 where "cipher_init E False None None (Some nonce) (last (op_dec self)) = (True, c1)"
    "V c1 = EvpGcm False (snd pool) nonce [] []" by (rule init_again [OF assms(1)])
  then show thesis
    using that [of c1 "self\<lparr>op_dec := butlast (op_dec self)\<rparr>"] False assms(2)
    by (auto simp: start_dec_def pool_agrees_def stream_agrees_def start_stream_def list_all_butlast)
qed

lemma pool_lookup:
  assumes "pool_agrees V pool (self, T) S"
  obtains (none) "T i = None" "S i = None"
    | (enc) ctx n xs where "T i = Some (True, ctx)" "S i = Some (True, n, xs)" "V ctx = EvpGcm True (fst pool) n [] xs"
    | (dec) ctx n xs where "T i = Some (False, ctx)" "S i = Some (False, n, xs)" "V ctx = EvpGcm False (snd pool) n [] xs"
proof -
  have "rel_option (stream_agrees V pool) (T i) (S i)" using assms by (simp add: pool_agrees_def)
  then show thesis using that by (cases "T i"; cases "S i") (auto simp: stream_agrees_def split: if_splits)
qed

lemma pool_agrees_stream:
  "pool_agrees V pool (self, T) S \<Longrightarrow> V ctx = EvpGcm enc (if enc then fst pool else snd pool) n [] xs \<Longrightarrow>
   pool_agrees V pool (self, T(i \<mapsto> (enc, ctx))) (S(i \<mapsto> (enc, n, xs)))"
  by (simp add: pool_agrees_def stream_agrees_def)

lemma pool_agrees_drop: "pool_agrees V pool (self, T) S \<Longrightarrow> pool_agrees V pool (self, T(i := None)) (S(i := None))"
  by (simp add: pool_agrees_def)

lemma pool_agrees_put_back:
  "pool_agrees V pool (self, T) S \<Longrightarrow> ended V True (fst pool) c \<Longrightarrow>
   pool_agrees V pool (self\<lparr>op_enc := put_back c (op_enc self)\<rparr>, T) S"
  "pool_agrees V pool (self, T) S \<Longrightarrow> ended V False (snd pool) c \<Longrightarrow>
   pool_agrees V pool (self\<lparr>op_dec := put_back c (op_dec self)\<rparr>, T) S"
  by (simp_all add: pool_agrees_def list_all_put_back put_back_capacity)

lemma encrypt_agrees:
  assumes "evp_ok E V G" "V ctx = EvpGcm True k n [] xs" "length x < 2 ^ 31"
  obtains ctx' where "openssl_encrypt E x ctx = Some (as_encrypt G k n [] xs x, ctx')" "V ctx' = EvpGcm True k n [] (xs @ [x])"
  by (rule update_chunk [OF assms]) (rule that, simp_all add: openssl_encrypt_def as_crypt_def)

lemma decrypt_agrees:
  assumes "evp_ok E V G" "V ctx = EvpGcm False k n [] xs" "length x < 2 ^ 31"
  obtains ctx' where "openssl_decrypt E x ctx = Some (as_decrypt G k n [] xs x, ctx')" "V ctx' = EvpGcm False k n [] (xs @ [x])"
  by (rule update_chunk [OF assms]) (rule that, simp_all add: openssl_decrypt_def as_crypt_def)

lemma finish_enc_agrees:
  assumes "evp_ok E V G" "V ctx = EvpGcm True k n [] xs"
  obtains ctx' where "finish_enc E ctx self = Some (as_tag G k n [] xs, self\<lparr>op_enc := put_back ctx' (op_enc self)\<rparr>)"
    "ended V True k ctx'"
  by (rule final_tag [OF assms]) (rule that, simp_all add: finish_enc_def)

lemma finish_dec_agrees:
  assumes "evp_ok E V G" "V ctx = EvpGcm False k n [] xs" "length t = AES_GCM_TAG_SIZE"
  obtains ctx' where "finish_dec E ctx t self = (as_verify G k n [] xs t, self\<lparr>op_dec := put_back ctx' (op_dec self)\<rparr>)"
    "ended V False k ctx'"
  by (rule final_verify [OF assms]) (rule that, simp_all add: finish_dec_def)

text \<open>Every operation.\<close>

lemma step_start:
  assumes "evp_ok E V G" "pool_agrees V pool (self, T) S"
  shows "step_agrees E V G P pool (self, T) S (StartEnc i nonce)" "step_agrees E V G P pool (self, T) S (StartDec i nonce)"
  by (rule start_enc_agrees [OF assms, of nonce i], force) (rule start_dec_agrees [OF assms, of nonce i], force)

lemma step_encrypt:
  assumes ok: "evp_ok E V G" and R: "pool_agrees V pool (self, T) S" and "length x < 2 ^ 31"
  shows "step_agrees E V G P pool (self, T) S (Encrypt i x)"
proof (cases rule: pool_lookup [OF R, of i, case_names none enc dec])
  case (enc ctx n xs)
  obtain ctx' where "openssl_encrypt E x ctx = Some (as_encrypt G (fst pool) n [] xs x, ctx')"
    "V ctx' = EvpGcm True (fst pool) n [] (xs @ [x])" by (rule encrypt_agrees [OF ok enc(3) assms(3)])
  then show ?thesis using enc pool_agrees_stream [OF R, of ctx' True] by (simp add: pool_encrypt_def)
qed (use R in \<open>simp_all\<close>)

lemma step_decrypt:
  assumes ok: "evp_ok E V G" and R: "pool_agrees V pool (self, T) S" and "length x < 2 ^ 31"
  shows "step_agrees E V G P pool (self, T) S (Decrypt i x)"
proof (cases rule: pool_lookup [OF R, of i, case_names none enc dec])
  case (dec ctx n xs)
  obtain ctx' where "openssl_decrypt E x ctx = Some (as_decrypt G (snd pool) n [] xs x, ctx')"
    "V ctx' = EvpGcm False (snd pool) n [] (xs @ [x])" by (rule decrypt_agrees [OF ok dec(3) assms(3)])
  then show ?thesis using dec pool_agrees_stream [OF R, of ctx' False] by (simp add: pool_decrypt_def)
qed (use R in \<open>simp_all\<close>)

lemma step_finish_enc:
  assumes ok: "evp_ok E V G" and R: "pool_agrees V pool (self, T) S"
  shows "step_agrees E V G P pool (self, T) S (FinishEnc i)"
proof (cases rule: pool_lookup [OF R, of i, case_names none enc dec])
  case (enc ctx n xs)
  obtain ctx' where "finish_enc E ctx self = Some (as_tag G (fst pool) n [] xs, self\<lparr>op_enc := put_back ctx' (op_enc self)\<rparr>)"
    "ended V True (fst pool) ctx'" by (rule finish_enc_agrees [OF ok enc(3)])
  then show ?thesis using enc pool_agrees_put_back(1) [OF pool_agrees_drop [OF R]] by (simp add: pool_finish_enc_def)
qed (use R in \<open>simp_all\<close>)

lemma step_finish_dec:
  assumes ok: "evp_ok E V G" and R: "pool_agrees V pool (self, T) S" and "length t = AES_GCM_TAG_SIZE"
  shows "step_agrees E V G P pool (self, T) S (FinishDec i t)"
proof (cases rule: pool_lookup [OF R, of i, case_names none enc dec])
  case (dec ctx n xs)
  obtain ctx' where "finish_dec E ctx t self = (as_verify G (snd pool) n [] xs t, self\<lparr>op_dec := put_back ctx' (op_dec self)\<rparr>)"
    "ended V False (snd pool) ctx'" by (rule finish_dec_agrees [OF ok dec(3) assms(3)])
  then show ?thesis using dec pool_agrees_put_back(2) [OF pool_agrees_drop [OF R]] by (simp add: pool_finish_dec_def)
qed (use R in \<open>simp_all\<close>)

lemma pool_step_agrees:
  assumes "evp_ok E V G" "pool_agrees V pool (self, T) S" "op_sized op"
  shows "step_agrees E V G P pool (self, T) S op"
proof (cases op)
  case (StartEnc i nonce)
  show ?thesis unfolding StartEnc by (rule step_start(1) [OF assms(1,2)])
next
  case (Encrypt i x)
  show ?thesis using assms(3) unfolding Encrypt op_sized.simps by (rule step_encrypt [OF assms(1,2)])
next
  case (FinishEnc i)
  show ?thesis unfolding FinishEnc by (rule step_finish_enc [OF assms(1,2)])
next
  case (StartDec i nonce)
  show ?thesis unfolding StartDec by (rule step_start(2) [OF assms(1,2)])
next
  case (Decrypt i x)
  show ?thesis using assms(3) unfolding Decrypt op_sized.simps by (rule step_decrypt [OF assms(1,2)])
next
  case (FinishDec i t)
  show ?thesis using assms(3) unfolding FinishDec op_sized.simps by (rule step_finish_dec [OF assms(1,2)])
next
  case (GiveUp i)
  then show ?thesis using pool_agrees_drop [OF assms(2)] by simp
qed

lemma pool_run_agrees:
  assumes "evp_ok E V G"
  shows "pool_agrees V pool st S \<Longrightarrow> list_all op_sized ops \<Longrightarrow>
    \<exists>st' S'. pool_run E ops st = Some (stream_run (with_aes G P) pool ops S, st') \<and> pool_agrees V pool st' S'"
proof (induction ops arbitrary: st S)
  case (Cons op ops)
  obtain self T where st: "st = (self, T)" by fastforce
  have "pool_agrees V pool (self, T) S" "op_sized op" using Cons.prems by (simp_all add: st)
  then obtain st' where st': "pool_step E op (self, T) = Some (fst (stream_step (with_aes G P) pool op S), st')"
    "pool_agrees V pool st' (snd (stream_step (with_aes G P) pool op S))" using pool_step_agrees [OF assms] by blast
  then show ?case using Cons.IH [OF st'(2)] Cons.prems(2) by (fastforce simp: st split: prod.splits)
qed auto

text \<open>C18: The OpenSSL pool implements the streaming cipher of the trait. Over a library that behaves as
  documented, any sequence of starts, chunks, finishes and dropped streams, on any number of streams at
  once, never fails an assertion and gives the texts, tags and verdicts of AES-GCM with the keys the pool
  was made with, whether a context is new or reused; and the pool never keeps more contexts than it has room for.
\<close>

theorem openssl_pool_refines:
  assumes "evp_ok E V G" "list_all op_sized ops"
  shows "\<exists>pool T. pool_run E ops (openssl_pool_new ek dk, Map.empty) =
      Some (stream_run (with_aes G P) (pool_new ek dk) ops Map.empty, pool, T) \<and>
    length (op_enc pool) \<le> POOL_CAPACITY \<and> length (op_dec pool) \<le> POOL_CAPACITY"
proof -
  have "pool_agrees V (pool_new ek dk) (openssl_pool_new ek dk, Map.empty) Map.empty"
    by (simp add: pool_agrees_def openssl_pool_new_def pool_new_def)
  from pool_run_agrees [OF assms(1) this assms(2)] show ?thesis
    by (fastforce simp: pool_agrees_def)
qed

lemma sample_evp_ok: "evp_ok sample_evp id sample_aes"
  unfolding evp_ok_def
  by (intro conjI; simp add: sample_evp_def sample_aes_def ended_def as_block_def as_crypt_def)
    (auto simp: ended_def)

theorem openssl_pool_refines_witness:
  "\<exists>(pool :: evp_view openssl_pool) T.
     pool_run sample_evp
       [StartEnc 0 [1], Encrypt 0 [5, 6], StartEnc 1 [2], FinishEnc 0, StartEnc 2 [3], FinishEnc 2, GiveUp 1,
        StartDec 0 [4], Decrypt 0 [7], FinishDec 0 (replicate 16 1)]
       (openssl_pool_new [8] [9], Map.empty) =
       Some ([Text [5, 6], Tag (replicate 16 0), Tag (replicate 16 0), Text [7], Verdict False], pool, T) \<and>
     length (op_enc pool) \<le> 8 \<and> length (op_dec pool) \<le> 8"
  using openssl_pool_refines [OF sample_evp_ok, of
      "[StartEnc 0 [1], Encrypt 0 [5, 6], StartEnc 1 [2], FinishEnc 0, StartEnc 2 [3], FinishEnc 2, GiveUp 1,
        StartDec 0 [4], Decrypt 0 [7], FinishDec 0 (replicate 16 1)]" "[8]" "[9]" sample_platform]
  by (simp add: pool_encrypt_def pool_decrypt_def pool_finish_enc_def pool_finish_dec_def sample_aes_def start_stream_def
      POOL_CAPACITY_def zssp_sizes)

end
