(* ===== verification/Spec2Isabelle.thy ===== *)
theory Spec2Isabelle
  imports Rekey_Run Ratchet_Fallback Indexed_Heap_Laws Frag_Cache_Laws Handshake_Cache Perf_Threads Perf_Locks
    Perf_Fallback Perf_Buffers Openssl_Ciphers
begin

text \<open>
  A verification of ZSSP, the ZeroTier Secure Session Protocol. The repository has two Rust
  crates: \<open>reference\<close>, a single-threaded implementation of the specification, and
  \<open>performance\<close>, a threaded one with the same protocol. The development models all of the protocol
  code of both.

  \<^bold>\<open>How the program works.\<close> A \<open>Context\<close> owns the sessions of one endpoint. \<open>open\<close> starts a Noise
  XK handshake with a hybrid key exchange (P-384 and Kyber1024): the initiator sends X1, the
  responder answers X2, the initiator X3, and the two key confirmations C1 and C2 end it. An
  established session is rekeyed with the Noise KK pattern (K1, K2). Every handshake mixes in a
  ratchet key that both sides keep in storage; a new ratchet state replaces the old one by a
  compare-and-swap. Packets larger than the MTU are fragmented, with the header encrypted
  under a header key. A responder under load answers a hello with a challenge (a MAC and a
  proof of work) before it does any key exchange. Time-outs resend, start rekeys and expire
  sessions; the application calls \<open>service\<close> for them. In \<open>performance\<close> a context is shared by threads:
  sessions have locks and atomic counters, their timers are in a heap, unfinished handshakes and
  fragments that belong to no session are in caches of a fixed size, and payloads are enciphered
  as a stream while they are cut into fragments.

  \<^bold>\<open>Theories and sources\<close> (paths under \<open>src/\<close>).
  \<^item> \<open>Zssp_Prelude\<close>: machine types, byte strings, slices, 64-bit time, outcomes, shared facts.
  \<^item> \<open>Proto\<close>: the constants of \<open>reference/src/proto.rs\<close>, of the primitive interfaces, and those that
    \<open>performance/src/proto.rs\<close> adds. \<open>Crypto_Layer\<close>: the traits of \<open>reference/src/crypto\<close> as records
    of functions and the settings of \<open>application.rs\<close>; what the primitives promise is stated by
    \<open>crypto_sized\<close> and \<open>crypto_correct\<close>, and \<open>Sample_Crypto\<close> shows that it can hold.
  \<^item> \<open>Zssp_Result\<close>, \<open>Application\<close>: the result types of \<open>result.rs\<close>, the callbacks of
    \<open>application.rs\<close> over a state of the application.
  \<^item> \<open>Symmetric_State\<close>, \<open>Ratchet_State\<close>: \<open>symmetric_state.rs\<close> and \<open>ratchet_state.rs\<close>, one definition per method;
    the latter also serves \<open>performance\<close>, whose file differs from it in the derivation from a password only.
  \<^item> \<open>Antireplay\<close>: the three anti-replay windows, with the locale \<open>antireplay\<close> as their contract.
    \<open>Challenge\<close>: \<open>challenge.rs\<close>. \<open>Fragmentation\<close>: \<open>fragmentation.rs\<close>.
  \<^item> \<open>Zeta_State\<close>, \<open>Zeta_Handshake\<close>, \<open>Zeta_Session\<close>: \<open>zeta.rs\<close>. A session is the record \<open>zeta\<close>, its
    automaton the datatype \<open>zeta_automata\<close>; every transition is a function on the session, the
    application's state and the context's maps that also returns the packets it sends.
  \<^item> \<open>Zssp_Context\<close>: \<open>context.rs\<close>, with the sessions in a table indexed by the identifiers that stand
    for \<open>Arc\<close> pointers.
  \<^item> \<open>Zeta_Steps\<close>, \<open>Zeta_Machine\<close>, \<open>Session_Table\<close>, \<open>Context_Safety\<close>: the invariants and the step relations
    of a session, of the two tables of sessions and of a context. \<open>Delivery\<close>: the fragments of one packet
    at the three places where a context waits for them, with the locale \<open>fragment_endpoint\<close> as what they
    share. \<open>Noise_Agreement\<close>, \<open>Handshake_Run\<close>, \<open>Rekey_Run\<close>, \<open>Ratchet_Fallback\<close>: runs of two endpoints
    against each other; the handshake is run over the wire, from \<open>Context::open\<close> through a call of
    \<open>Context::receive\<close> for every fragment, the rekey handler by handler.
  \<^item> \<open>Indexed_Heap\<close>, \<open>Indexed_Heap_Laws\<close>: \<open>performance/src/indexed_heap.rs\<close>, the queue of session
    timers. \<open>Fragged\<close>: \<open>performance/src/fragged.rs\<close>, the defragmenter of a session. \<open>Frag_Cache\<close>,
    \<open>Frag_Cache_Laws\<close>: \<open>performance/src/frag_cache.rs\<close>, the cache of fragments that belong to no session.
    \<open>Handshake_Cache\<close>: \<open>performance/src/handshake_cache.rs\<close>, the cache of half-open handshakes.
  \<^item> \<open>Perf_Symmetric\<close>, \<open>Perf_Challenge\<close>, \<open>Perf_Interface\<close>: \<open>symmetric_state.rs\<close>, \<open>challenge.rs\<close>, and what
    \<open>application.rs\<close>, \<open>result.rs\<close> and \<open>crypto/aes.rs\<close> of \<open>performance\<close> have of their own. The record
    \<open>platform\<close> has the byte order of the machine and the streaming cipher. \<open>Openssl_Ciphers\<close>:
    \<open>performance/src/crypto_impl/openssl.rs\<close>, the default ciphers, over a record \<open>evp\<close> of the functions of
    the OpenSSL library; \<open>evp_ok\<close> states what the documentation of the library says of them.
  \<^item> \<open>Perf_State\<close>, \<open>Perf_Handshake\<close>, \<open>Perf_Session\<close>: \<open>performance/src/zeta.rs\<close>. A session is the record
    \<open>session_perf\<close>, its automaton \<open>automata_perf\<close>; \<open>pworld\<close> is the context with the state of the
    application and the packets handed to \<open>send\<close>. \<open>Perf_Context\<close>: \<open>performance/src/zssp.rs\<close>.
  \<^item> \<open>Perf_Sizes\<close>, \<open>Perf_Safety\<close>, \<open>Perf_Calls\<close>, \<open>Perf_Service\<close>, \<open>Perf_Reachable\<close>: the sizes of all messages,
    the invariant of sessions and contexts through every handler and call, the end of the loops of
    the service, and the contexts a program reaches. \<open>Perf_Payload\<close>: sending and receiving a payload.
    \<open>Perf_Buffers\<close>: the capacities of the packet buffers. \<open>Perf_Sample\<close>: the contexts of the examples.
  \<^item> \<open>Perf_Agreement\<close>, \<open>Perf_Handshake_Run\<close>, \<open>Perf_Rekey_Run\<close>: each message of \<open>performance\<close> read back by the
    other end, and runs of two endpoints against each other through the packets with their headers.
    \<open>Perf_Fallback\<close>: a response under another ratchet key than the first. \<open>Sample_Downgrade\<close> has such a response.
  \<^item> \<open>Perf_Threads\<close>: the atomic operations on one session as steps of threads. \<open>Perf_Locks\<close>: the
    locks that each call takes, on each of its paths.

  \<^bold>\<open>What is shown.\<close>
  \<^item> Safety of the automaton: every context that a program reaches is well formed, with its sessions,
    its tables, its half-open handshakes and its buffers; the counters a
    session emits ascend, so no nonce repeats under a key; no payload is delivered twice; each
    handler refines an abstract automaton of the protocol's states and emits only counters that it
    took itself; opening and sending never panic, and receiving and servicing panic exactly in the
    cases named by their theorems.
  \<^item> Agreement: a complete handshake and a complete rekey between two endpoints succeed and leave
    mirrored keys and equal ratchet states, and payloads then pass unchanged; a handshake that
    falls back to the second ratchet state is never confirmed, in either crate, and in \<open>reference\<close> a genuine
    confirmation expires the session. In \<open>performance\<close> the handshake ends in,
    and the rekey keeps, the relation \<open>paired_perf\<close> between two ends.
  \<^item> Fragmentation: sending and reassembling is the identity in any order of arrival, within the
    bounds of the MTU and the fragment count. A service of the buffer between two fragments loses a packet
    that has not expired and keeps one that has.
  \<^item> Challenges: the search for a proof of work ends, an honest retry is admitted, none twice.
  \<^item> Data structures of \<open>performance\<close>: the heap never panics, keeps its table consistent and, but for
    \<open>remove\<close>, its order, and is a priority queue (locale \<open>max_queue\<close>); the code marked unsafe in the
    two defragmenters never touches a fragment that is not there and leaks none; fragments of
    different packets are not mixed; a pending handshake is taken once (locale \<open>taken_once\<close>).
  \<^item> Calls of \<open>performance\<close>: no call panics in a context that a program reaches, while the queue of timers
    has room and the clock is not near its end, every such context is
    well formed, and the service returns as long as fresh key ids are found; no packet outgrows its buffer. A payload that \<open>send\<close> accepts is delivered by \<open>receive\<close> of the
    other end, in whatever order the packets arrive, and \<open>send\<close> refuses a size exactly above
    \<open>max_sendable_len\<close> (locale \<open>send_sizes\<close>). The token operations give the same transcripts and keys as
    those of \<open>reference\<close>; the challenges refine those of \<open>reference\<close>.
  \<^item> The pool of OpenSSL contexts is a refinement of the streaming cipher: new or reused, in any
    interleaving of streams, its contexts give what AES-GCM with the keys of the pool gives.
  \<^item> Threads of \<open>performance\<close>: no send counter is used twice, no payload is delivered twice, no
    challenge counter is issued twice, though a response can be admitted twice; calls that keep to
    the documented order of locks never deadlock, and the three paths that do not can.

  \<^bold>\<open>Loops.\<close> Loops over lists are primitive recursion; \<open>bubble_up\<close>, \<open>bubble_down\<close>, \<open>skip_empty\<close> and \<open>drop_loop\<close>
  have measures. The search for a proof of work, the choice of a key id, the expiry loop of the
  fragment cache and the two loops of the service (\<open>service_queue\<close>, \<open>service_until_ok\<close>) are partial
  functions to an option, with theorems that they return; the choice of a key id returns when the
  generator ever draws an unused one, and the calls that contain it have the outcome \<open>Diverge\<close> for
  the case that it never does. The only bound on rounds is that of \<open>drain\<close>, a client of the
  heap, which is one more than the number of entries.

  \<^bold>\<open>Concurrency.\<close> The handlers of \<open>performance\<close> are modelled as they run alone: each holds
  \<open>state_machine_lock\<close> from the moment it looks at the automaton to its last change of it. What is
  done outside of that lock is modelled apart: the atomic counter and window of a session
  (\<open>Perf_Threads\<close>), the counter and window of the challenges (\<open>Perf_Challenge\<close>), and the locks
  themselves (\<open>Perf_Locks\<close>).

  \<^bold>\<open>Not modelled.\<close> The primitives themselves, which are third-party packages: they are arguments, and
  the other files of \<open>crypto_impl\<close> only pass calls on to them.
  The event log, debug output and the example programs, which change no state of
  the protocol. Atomics are sequentially consistent; each is used alone, so that their relaxed
  order makes no difference to the values that one location takes.
\<close>

end
